(* ===== verification/Prelude.thy ===== *)
theory Prelude
  imports Main "HOL-Library.Word"
begin

text \<open>
  What the component theories share: the machine types, checked memory accesses, byte orders,
  and the three interfaces the components are built on.
  \<^item> A C object is a byte list; a read or a copy outside it is undefined behaviour, so
    \<open>c_read\<close> and \<open>c_write\<close> return \<open>None\<close> there and memory safety of a function is
    the theorem that it never returns \<open>None\<close>.
  \<^item> \<open>be16\<close>, \<open>be32\<close>, \<open>be64\<close>, \<open>le16\<close> and \<open>le32\<close> are the layouts
    \<open>htons\<close>, \<open>htonl\<close>, \<open>htobe64\<close>, \<open>htole16\<close> and \<open>htole32\<close> give a field of a
    packed struct in memory.
  \<^item> \<open>fixed_codec\<close> is the contract of a fixed-size header, \<open>event_loop\<close> that of a daemon
    whose steps keep an invariant, \<open>safe_loop\<close> that of a daemon whose steps may be undefined.
\<close>

unbundle bit_operations_syntax

type_synonym u8 = "8 word"
type_synonym u16 = "16 word"
type_synonym u32 = "32 word"
type_synonym u64 = "64 word"
type_synonym bytes = "8 word list"

named_theorems c_mem \<open>facts about checked memory accesses\<close>
named_theorems codec \<open>lengths and round trips of byte layouts\<close>

section \<open>Checked memory accesses\<close>

definition c_read :: "'a list \<Rightarrow> nat \<Rightarrow> nat \<Rightarrow> 'a list option" where
  "c_read m off n = (if off + n \<le> length m then Some (take n (drop off m)) else None)"

definition c_write :: "'a list \<Rightarrow> nat \<Rightarrow> 'a list \<Rightarrow> 'a list option" where
  "c_write m off xs =
     (if off + length xs \<le> length m
      then Some (take off m @ xs @ drop (off + length xs) m) else None)"

definition c_get :: "'a list \<Rightarrow> nat \<Rightarrow> 'a option" where
  "c_get m i = (if i < length m then Some (m ! i) else None)"

definition c_set :: "'a list \<Rightarrow> nat \<Rightarrow> 'a \<Rightarrow> 'a list option" where
  "c_set m i x = (if i < length m then Some (m[i := x]) else None)"

lemma c_read_Some [c_mem]: "off + n \<le> length m \<Longrightarrow> c_read m off n = Some (take n (drop off m))"
  by (simp add: c_read_def)

lemma c_read_length [c_mem]: "c_read m off n = Some xs \<Longrightarrow> length xs = n"
  by (auto simp: c_read_def split: if_splits)

lemma c_write_Some [c_mem]:
  "off + length xs \<le> length m \<Longrightarrow> c_write m off xs = Some (take off m @ xs @ drop (off + length xs) m)"
  by (simp add: c_write_def)

lemma c_write_length [c_mem]: "c_write m off xs = Some m' \<Longrightarrow> length m' = length m"
  by (auto simp: c_write_def split: if_splits)

lemma c_get_Some [c_mem]: "i < length m \<Longrightarrow> c_get m i = Some (m ! i)"
  by (simp add: c_get_def)

lemma c_set_Some [c_mem]: "i < length m \<Longrightarrow> c_set m i x = Some (m[i := x])"
  by (simp add: c_set_def)

lemma c_read_after [c_mem]:
  "length pre = off \<Longrightarrow> n \<le> length rest \<Longrightarrow> c_read (pre @ rest) off n = Some (take n rest)"
  by (simp add: c_read_def)

text \<open>Definedness of a computation, with the introduction rules that follow its shape.\<close>

definition defined :: "'a option \<Rightarrow> bool" where
  "defined m \<longleftrightarrow> m \<noteq> None"

named_theorems defined_intros \<open>introduction rules for definedness\<close>

lemma defined_Some [defined_intros]: "defined (Some x)"
  by (simp add: defined_def)

lemma defined_if [defined_intros]:
  "(b \<Longrightarrow> defined x) \<Longrightarrow> (\<not> b \<Longrightarrow> defined y) \<Longrightarrow> defined (if b then x else y)"
  by simp

lemma defined_let [defined_intros]:
  "(\<And>x. x = e \<Longrightarrow> defined (f x)) \<Longrightarrow> defined (Let e f)"
  by simp

lemma defined_read [defined_intros]:
  "off + n \<le> length m \<Longrightarrow> (\<And>xs. length xs = n \<Longrightarrow> defined (f xs)) \<Longrightarrow>
   defined (Option.bind (c_read m off n) f)"
  by (simp add: c_read_def)

lemma defined_write [defined_intros]:
  "off + length xs \<le> length m \<Longrightarrow> (\<And>m'. length m' = length m \<Longrightarrow> defined (f m')) \<Longrightarrow>
   defined (Option.bind (c_write m off xs) f)"
  by (simp add: c_write_def)

lemma defined_get [defined_intros]:
  "i < length m \<Longrightarrow> (\<And>x. x = m ! i \<Longrightarrow> defined (f x)) \<Longrightarrow> defined (Option.bind (c_get m i) f)"
  by (simp add: c_get_def)

lemma defined_set [defined_intros]:
  "i < length m \<Longrightarrow> (\<And>m'. m' = m[i := x] \<Longrightarrow> defined (f m')) \<Longrightarrow>
   defined (Option.bind (c_set m i x) f)"
  by (simp add: c_set_def)

section \<open>Byte orders\<close>

definition be16 :: "u16 \<Rightarrow> bytes" where
  "be16 w = [ucast (drop_bit 8 w), ucast w]"

definition be32 :: "u32 \<Rightarrow> bytes" where
  "be32 w = be16 (ucast (drop_bit 16 w)) @ be16 (ucast w)"

definition be64 :: "u64 \<Rightarrow> bytes" where
  "be64 w = be32 (ucast (drop_bit 32 w)) @ be32 (ucast w)"

definition le16 :: "u16 \<Rightarrow> bytes" where
  "le16 w = rev (be16 w)"

definition le32 :: "u32 \<Rightarrow> bytes" where
  "le32 w = rev (be32 w)"

fun get_be16 :: "bytes \<Rightarrow> u16" where
  "get_be16 (a # b # _) = push_bit 8 (ucast a) OR ucast b"
| "get_be16 _ = 0"

definition get_be32 :: "bytes \<Rightarrow> u32" where
  "get_be32 bs = push_bit 16 (ucast (get_be16 bs)) OR ucast (get_be16 (drop 2 bs))"

definition get_be64 :: "bytes \<Rightarrow> u64" where
  "get_be64 bs = push_bit 32 (ucast (get_be32 bs)) OR ucast (get_be32 (drop 4 bs))"

definition get_le16 :: "bytes \<Rightarrow> u16" where
  "get_le16 bs = get_be16 (rev (take 2 bs))"

definition get_le32 :: "bytes \<Rightarrow> u32" where
  "get_le32 bs = get_be32 (rev (take 4 bs))"

lemma length_be [simp, codec]:
  "length (be16 w) = 2" "length (be32 x) = 4" "length (be64 y) = 8"
  "length (le16 w) = 2" "length (le32 x) = 4"
  by (simp_all add: be16_def be32_def be64_def le16_def le32_def)

lemma halves16: "push_bit 8 (ucast (ucast (drop_bit 8 w) :: u8)) OR ucast (ucast w :: u8) = (w :: u16)"
  by (rule bit_word_eqI) (auto simp: bit_simps)

lemma halves32: "push_bit 16 (ucast (ucast (drop_bit 16 w) :: u16)) OR ucast (ucast w :: u16) = (w :: u32)"
  by (rule bit_word_eqI) (auto simp: bit_simps)

lemma halves64: "push_bit 32 (ucast (ucast (drop_bit 32 w) :: u32)) OR ucast (ucast w :: u32) = (w :: u64)"
  by (rule bit_word_eqI) (auto simp: bit_simps)

lemma be16_get_be16: "length bs = 2 \<Longrightarrow> be16 (get_be16 bs) = bs"
proof -
  assume "length bs = 2"
  then obtain x y where bs: "bs = [x, y]" by (auto simp: length_Suc_conv numeral_2_eq_2)
  have "\<not> bit y (8 + n)" for n by (rule impossible_bit) simp
  then show ?thesis by (auto simp: bs be16_def bit_simps intro!: bit_word_eqI)
qed

lemma get_be16_be16 [simp, codec]: "get_be16 (be16 w @ r) = w"
  by (simp add: be16_def halves16)

lemma get_be32_be32 [simp, codec]: "get_be32 (be32 w @ r) = w"
  by (simp add: be32_def get_be32_def halves32)

lemma get_be64_be64 [simp, codec]: "get_be64 (be64 w @ r) = w"
  by (simp add: be64_def get_be64_def halves64)

lemma get_le16_le16 [simp, codec]: "get_le16 (le16 w @ r) = w"
  using get_be16_be16 [of w "[]"] by (simp add: get_le16_def le16_def)

lemma get_le32_le32 [simp, codec]: "get_le32 (le32 w @ r) = w"
  using get_be32_be32 [of w "[]"] by (simp add: get_le32_def le32_def)

section \<open>Fixed-size headers\<close>

text \<open>A header of a packed struct: \<open>put\<close> lays it out on \<open>sz\<close> bytes, \<open>get\<close> reads it back.\<close>

locale fixed_codec =
  fixes put :: "'h \<Rightarrow> bytes"
    and get :: "bytes \<Rightarrow> 'h"
    and sz :: nat
  assumes length_put: "length (put h) = sz"
    and get_put: "get (put h @ rest) = h"
begin

lemma put_inj: "put a = put b \<Longrightarrow> a = b"
  using get_put [of a "[]"] get_put [of b "[]"] by simp

lemma put_prefix_inj: "put a @ x = put b @ y \<Longrightarrow> a = b \<and> x = y"
proof -
  assume eq: "put a @ x = put b @ y"
  then have "put a = put b" and "x = y"
    using length_put [of a] length_put [of b] by (simp_all add: append_eq_append_conv)
  then show ?thesis using put_inj by blast
qed

lemma take_put: "take sz (put h @ rest) = put h"
  using length_put [of h] by simp

lemma drop_put: "drop sz (put h @ rest) = rest"
  using length_put [of h] by simp

lemma read_put: "c_read (pre @ put h @ rest) (length pre) sz = Some (put h)"
  using length_put [of h] by (simp add: c_read_def)

lemma get_read: "c_read (pre @ put h @ rest) (length pre) sz = Some bs \<Longrightarrow> get bs = h"
  using read_put [of pre h rest] get_put [of h "[]"] by simp

end

section \<open>Daemon loops\<close>

text \<open>
  A daemon is a step over the events the system delivers (a poll result, a frame, a signal);
  a run is the fold of the step over any sequence of events.
\<close>

locale event_loop =
  fixes step :: "'e \<Rightarrow> 's \<Rightarrow> 's"
    and inv :: "'s \<Rightarrow> bool"
  assumes step_inv: "inv s \<Longrightarrow> inv (step e s)"
begin

lemma run_inv: "inv s \<Longrightarrow> inv (fold step es s)"
  by (induction es arbitrary: s) (auto intro: step_inv)

lemma run_prefix_inv: "inv s \<Longrightarrow> inv (fold step (take n es) s)"
  by (rule run_inv)

end

text \<open>A run whose steps may be undefined: it is defined when every step is.\<close>

fun c_run :: "('e \<Rightarrow> 's \<Rightarrow> 's option) \<Rightarrow> 'e list \<Rightarrow> 's \<Rightarrow> 's option" where
  "c_run step [] s = Some s"
| "c_run step (e # es) s = Option.bind (step e s) (c_run step es)"

lemma c_run_append: "c_run step (xs @ ys) s = Option.bind (c_run step xs s) (c_run step ys)"
proof (induction xs arbitrary: s)
  case Nil
  then show ?case by simp
next
  case (Cons x xs)
  then show ?case by (cases "step x s") auto
qed

locale safe_loop =
  fixes step :: "'e \<Rightarrow> 's \<Rightarrow> 's option"
    and inv :: "'s \<Rightarrow> bool"
  assumes step_safe: "inv s \<Longrightarrow> \<exists>s'. step e s = Some s' \<and> inv s'"
begin

lemma run_safe: "inv s \<Longrightarrow> \<exists>s'. c_run step es s = Some s' \<and> inv s'"
proof (induction es arbitrary: s)
  case Nil
  then show ?case by simp
next
  case (Cons e es)
  from step_safe [OF Cons.prems] obtain s' where "step e s = Some s'" and "inv s'" by blast
  with Cons.IH show ?case by simp
qed

lemma run_never_undefined: "inv s \<Longrightarrow> c_run step es s \<noteq> None"
  using run_safe by fastforce

end

text \<open>Every total loop is a safe loop.\<close>

sublocale event_loop \<subseteq> total: safe_loop "\<lambda>e s. Some (step e s)" inv
  by unfold_locales (auto intro: step_inv)

section \<open>Lists\<close>

lemma take_replicate_append [simp]: "n \<le> m \<Longrightarrow> take n (replicate m x @ ys) = replicate n x"
  by simp

lemma nth_append_zero_pad:
  "j < n \<Longrightarrow> length xs \<le> n \<Longrightarrow>
   (xs @ replicate (n - length xs) z) ! j = (if j < length xs then xs ! j else z)"
  by (auto simp: nth_append)

lemma filter_upt_single:
  "i < n \<Longrightarrow> (\<And>j. j < n \<Longrightarrow> P j \<longleftrightarrow> j = i) \<Longrightarrow> filter P [0..<n] = [i]"
proof (induction n)
  case 0
  then show ?case by simp
next
  case (Suc n)
  show ?case
  proof (cases "i = n")
    case True
    with Suc.prems have "filter P [0..<n] = []" by (auto simp: filter_empty_conv)
    with True Suc.prems show ?thesis by simp
  next
    case False
    with Suc.prems have "filter P [0..<n] = [i]" by (intro Suc.IH) auto
    moreover have "\<not> P n" using Suc.prems False by auto
    ultimately show ?thesis by simp
  qed
qed

end
