(* ===== verification/Link_Crc.thy ===== *)
theory Link_Crc
  imports Prelude
begin

text \<open>
  \<open>crc32_update\<close> of \<^verbatim>\<open>omega4-linkd.c\<close>: the reflected CRC-32 (polynomial
  \<^verbatim>\<open>0xedb88320\<close>) computed bit by bit. \<open>crc_bit\<close> is the body of the inner loop and
  \<open>crc_byte\<close> one round of the outer loop. The lemmas show that the code composes over
  concatenation (the daemon computes it in two calls, header then payload), that the bit step is
  invertible, and that no corruption confined to one byte keeps the checksum.
\<close>

definition crc_bit :: "u32 \<Rightarrow> u32" where
  "crc_bit crc = drop_bit 1 crc XOR (0xedb88320 AND (0 - (crc AND 1)))"

definition crc_byte :: "u8 \<Rightarrow> u32 \<Rightarrow> u32" where
  "crc_byte p crc = (crc_bit ^^ 8) (crc XOR ucast p)"

definition crc32_update :: "u32 \<Rightarrow> bytes \<Rightarrow> u32" where
  "crc32_update crc data = NOT (fold crc_byte data (NOT crc))"

lemma crc32_update_Nil [simp]: "crc32_update crc [] = crc"
  by (simp add: crc32_update_def)

lemma crc32_update_append: "crc32_update (crc32_update crc xs) ys = crc32_update crc (xs @ ys)"
  by (simp add: crc32_update_def)

lemma crc_bit_alt:
  "crc_bit c = (if odd c then drop_bit 1 c XOR 0xedb88320 else drop_bit 1 c)"
proof -
  have "c AND 1 = (if odd c then 1 else 0)"
    by (simp add: and_one_eq odd_iff_mod_2_eq_one)
  then show ?thesis by (simp add: crc_bit_def)
qed

lemma crc_bit_top: "bit (crc_bit c) 31 = odd c"
proof -
  have "\<not> bit c 32" by (rule impossible_bit) simp
  then show ?thesis by (simp add: crc_bit_alt bit_simps)
qed

lemma shift1_eqI:
  assumes "odd x = odd y" and "drop_bit 1 x = drop_bit 1 (y :: u32)"
  shows "x = y"
proof (rule bit_word_eqI)
  fix n
  show "bit x n = bit y n"
  proof (cases n)
    case 0
    with assms(1) show ?thesis by (simp add: bit_0)
  next
    case (Suc m)
    from assms(2) have "bit (drop_bit 1 x) m = bit (drop_bit 1 y) m" by simp
    with Suc show ?thesis by (simp only: bit_drop_bit_eq) simp
  qed
qed

text \<open>The bit shifted out can be read back off bit 31, so the step loses nothing.\<close>

lemma crc_bit_inj: "inj crc_bit"
proof (rule injI)
  fix c d :: u32
  assume eq: "crc_bit c = crc_bit d"
  then have par: "odd c = odd d" by (metis crc_bit_top)
  have "drop_bit 1 c = drop_bit 1 d"
  proof (cases "odd c")
    case True
    with eq par have "drop_bit 1 c XOR 0xedb88320 = drop_bit 1 d XOR 0xedb88320"
      by (simp add: crc_bit_alt)
    then have "(drop_bit 1 c XOR 0xedb88320) XOR 0xedb88320 = (drop_bit 1 d XOR 0xedb88320) XOR 0xedb88320"
      by simp
    then show ?thesis by (simp add: xor.assoc)
  next
    case False
    with eq par show ?thesis by (simp add: crc_bit_alt)
  qed
  with par show "c = d" by (rule shift1_eqI)
qed

lemma crc_byte_inj: "inj (crc_byte p)"
proof (rule injI)
  fix c d :: u32
  assume "crc_byte p c = crc_byte p d"
  then have "c XOR ucast p = d XOR ucast p"
    unfolding crc_byte_def by (rule injD [OF inj_fn [OF crc_bit_inj]])
  then have "(c XOR ucast p) XOR ucast p = (d XOR ucast p) XOR ucast p" by simp
  then show "c = d" by (simp add: xor.assoc)
qed

lemma crc_byte_differs:
  assumes "p \<noteq> q"
  shows "crc_byte p c \<noteq> crc_byte q c"
proof
  assume "crc_byte p c = crc_byte q c"
  then have "c XOR ucast p = c XOR (ucast q :: u32)"
    unfolding crc_byte_def by (rule injD [OF inj_fn [OF crc_bit_inj]])
  then have "c XOR (c XOR ucast p) = c XOR (c XOR (ucast q :: u32))" by simp
  then have "(ucast p :: u32) = ucast q" by (simp add: xor.assoc [symmetric])
  then have "(ucast (ucast p :: u32) :: u8) = ucast (ucast q :: u32)" by simp
  with assms show False by (simp add: ucast_up_ucast_id is_up)
qed

lemma fold_crc_inj: "inj (fold crc_byte xs)"
proof (induction xs)
  case Nil
  then show ?case by simp
next
  case (Cons x xs)
  then show ?case using inj_compose [OF Cons crc_byte_inj [of x]] by (simp add: comp_def)
qed

text \<open>Two different running values stay different over the same bytes.\<close>

lemma crc32_update_inj: "crc32_update c xs = crc32_update d xs \<longleftrightarrow> c = d"
proof
  assume "crc32_update c xs = crc32_update d xs"
  then have "fold crc_byte xs (NOT c) = fold crc_byte xs (NOT d)"
    by (simp add: crc32_update_def)
  then have "NOT c = NOT d" by (rule injD [OF fold_crc_inj])
  then show "c = d" by simp
qed simp

lemma crc32_one_byte:
  "p \<noteq> q \<Longrightarrow> crc32_update c (xs @ p # ys) \<noteq> crc32_update c (xs @ q # ys)"
proof
  assume ne: "p \<noteq> q" and "crc32_update c (xs @ p # ys) = crc32_update c (xs @ q # ys)"
  then have "fold crc_byte ys (crc_byte p (fold crc_byte xs (NOT c)))
      = fold crc_byte ys (crc_byte q (fold crc_byte xs (NOT c)))"
    by (simp add: crc32_update_def)
  then have "crc_byte p (fold crc_byte xs (NOT c)) = crc_byte q (fold crc_byte xs (NOT c))"
    by (rule injD [OF fold_crc_inj])
  with crc_byte_differs [OF ne] show False by blast
qed

lemma crc_byte_unroll:
  "crc_byte p c = crc_bit (crc_bit (crc_bit (crc_bit (crc_bit (crc_bit (crc_bit (crc_bit (c XOR ucast p))))))))"
  by (simp add: crc_byte_def numeral_eq_Suc)

text \<open>The standard check value of CRC-32 over the digits 1 to 9.\<close>

lemma crc32_check: "crc32_update 0 [0x31, 0x32, 0x33, 0x34, 0x35, 0x36, 0x37, 0x38, 0x39] = 0xcbf43926"
  by (simp add: crc32_update_def crc_byte_unroll crc_bit_def)

end
