(* ===== verification/Link_Frame.thy ===== *)
theory Link_Frame
  imports Link_Crc "HOL-Library.Monad_Syntax"
begin

text \<open>
  The frames of \<^verbatim>\<open>omega4-linkd\<close>: \<open>build_frame\<close> and \<open>parse_frame\<close>. A frame on the
  air is a radiotap header, an 802.11 action header, the \<open>o4l_hdr\<close> and the payload. The header
  record holds the fields in host order; \<open>put_o4l\<close> and \<open>get_o4l\<close> are its packed layout
  in network order. \<open>parse_frame\<close> gives \<open>None\<close> for a read outside the received bytes,
  \<open>Some None\<close> for \<^verbatim>\<open>return false\<close> and \<open>Some (Some (hdr, payload))\<close> otherwise.
\<close>

section \<open>Headers\<close>

definition O4L_MAGIC :: u32 where "O4L_MAGIC = 0x4f344c4b"
definition O4L_VERSION :: u8 where "O4L_VERSION = 1"
definition O4L_MAX_PAYLOAD :: nat where "O4L_MAX_PAYLOAD = 1400"
definition O4L_MAX_FRAME :: nat where "O4L_MAX_FRAME = 1800"
definition RADIOTAP_SZ :: nat where "RADIOTAP_SZ = 8"
definition WIFI_SZ :: nat where "WIFI_SZ = 24"
definition O4L_HDR_SZ :: nat where "O4L_HDR_SZ = 28"
definition O4L_CRC_OFF :: nat where "O4L_CRC_OFF = 24"

lemmas link_sizes = O4L_MAX_PAYLOAD_def O4L_MAX_FRAME_def RADIOTAP_SZ_def WIFI_SZ_def
  O4L_HDR_SZ_def O4L_CRC_OFF_def

record o4l_hdr =
  hdr_magic :: u32
  hdr_version :: u8
  hdr_stream_id :: u8
  hdr_header_len :: u16
  hdr_sequence :: u32
  hdr_timestamp_us :: u64
  hdr_payload_len :: u16
  hdr_reserved :: u16
  hdr_crc32 :: u32

definition put_o4l :: "o4l_hdr \<Rightarrow> bytes" where
  "put_o4l h =
     be32 (hdr_magic h) @ [hdr_version h, hdr_stream_id h] @ be16 (hdr_header_len h) @
     be32 (hdr_sequence h) @ be64 (hdr_timestamp_us h) @ be16 (hdr_payload_len h) @
     be16 (hdr_reserved h) @ be32 (hdr_crc32 h)"

definition get_o4l :: "bytes \<Rightarrow> o4l_hdr" where
  "get_o4l bs =
     \<lparr>hdr_magic = get_be32 bs, hdr_version = bs ! 4, hdr_stream_id = bs ! 5,
      hdr_header_len = get_be16 (drop 6 bs), hdr_sequence = get_be32 (drop 8 bs),
      hdr_timestamp_us = get_be64 (drop 12 bs), hdr_payload_len = get_be16 (drop 20 bs),
      hdr_reserved = get_be16 (drop 22 bs), hdr_crc32 = get_be32 (drop 24 bs)\<rparr>"

interpretation o4l: fixed_codec put_o4l get_o4l O4L_HDR_SZ
  by unfold_locales (simp_all add: put_o4l_def get_o4l_def O4L_HDR_SZ_def nth_append)

lemma o4l_get_put [simp]: "get_o4l (put_o4l h) = h"
  using o4l.get_put [of h "[]"] by simp

lemma o4l_length [simp]: "length (put_o4l h) = 28"
  using o4l.length_put [of h] by (simp add: O4L_HDR_SZ_def)

text \<open>The bytes the checksum covers are those before the checksum field.\<close>

lemma take_crc_put: "take 24 (put_o4l (h\<lparr>hdr_crc32 := c\<rparr>)) = take 24 (put_o4l h)"
  by (simp add: put_o4l_def)

section \<open>Building a frame\<close>

definition addr_broadcast :: bytes where "addr_broadcast = [0xff, 0xff, 0xff, 0xff, 0xff, 0xff]"
definition addr_src :: bytes where "addr_src = [0x02, 0x04, 0x4c, 0x00, 0x00, 0x01]"
definition addr_bssid :: bytes where "addr_bssid = [0x02, 0x04, 0x4c, 0x4f, 0x34, 0x00]"

definition radiotap_tx :: bytes where
  "radiotap_tx = [0, 0] @ le16 (of_nat RADIOTAP_SZ) @ le32 0"

definition wifi_tx :: "u32 \<Rightarrow> bytes" where
  "wifi_tx seq =
     le16 0x00d0 @ le16 0 @ addr_broadcast @ addr_src @ addr_bssid @
     le16 (ucast (push_bit 4 (seq AND 0xfff)))"

definition build_hdr :: "u8 \<Rightarrow> u16 \<Rightarrow> u32 \<Rightarrow> u64 \<Rightarrow> bytes \<Rightarrow> o4l_hdr" where
  "build_hdr stream_id flags sequence now payload =
     (let hdr = \<lparr>hdr_magic = O4L_MAGIC, hdr_version = O4L_VERSION, hdr_stream_id = stream_id,
                 hdr_header_len = of_nat O4L_HDR_SZ, hdr_sequence = sequence,
                 hdr_timestamp_us = now, hdr_payload_len = of_nat (length payload),
                 hdr_reserved = flags, hdr_crc32 = 0\<rparr>;
          crc = crc32_update 0 (take O4L_CRC_OFF (put_o4l hdr));
          crc = crc32_update crc payload
      in hdr\<lparr>hdr_crc32 := crc\<rparr>)"

definition build_frame :: "u8 \<Rightarrow> u16 \<Rightarrow> u32 \<Rightarrow> u64 \<Rightarrow> bytes \<Rightarrow> bytes" where
  "build_frame stream_id flags sequence now payload =
     radiotap_tx @ wifi_tx sequence @ put_o4l (build_hdr stream_id flags sequence now payload) @
     payload"

lemma length_radiotap_tx [simp]: "length radiotap_tx = 8"
  by (simp add: radiotap_tx_def)

lemma length_wifi_tx [simp]: "length (wifi_tx s) = 24"
  by (simp add: wifi_tx_def addr_broadcast_def addr_src_def addr_bssid_def)

lemma length_build_frame [simp]:
  "length (build_frame sid fl seq now pl) = 60 + length pl"
  by (simp add: build_frame_def)

lemma build_hdr_fields [simp]:
  "hdr_magic (build_hdr sid fl seq now pl) = O4L_MAGIC"
  "hdr_version (build_hdr sid fl seq now pl) = O4L_VERSION"
  "hdr_stream_id (build_hdr sid fl seq now pl) = sid"
  "hdr_header_len (build_hdr sid fl seq now pl) = 28"
  "hdr_sequence (build_hdr sid fl seq now pl) = seq"
  "hdr_timestamp_us (build_hdr sid fl seq now pl) = now"
  "hdr_payload_len (build_hdr sid fl seq now pl) = of_nat (length pl)"
  "hdr_reserved (build_hdr sid fl seq now pl) = fl"
  by (simp_all add: build_hdr_def Let_def O4L_HDR_SZ_def)

lemma build_hdr_crc:
  "hdr_crc32 (build_hdr sid fl seq now pl) =
     crc32_update (crc32_update 0 (take 24 (put_o4l (build_hdr sid fl seq now pl)))) pl"
  by (simp add: build_hdr_def Let_def O4L_CRC_OFF_def put_o4l_def)

section \<open>Parsing a frame\<close>

definition parse_frame :: "bytes \<Rightarrow> (o4l_hdr \<times> bytes) option option" where
  "parse_frame frame =
     (if length frame < RADIOTAP_SZ + WIFI_SZ + O4L_HDR_SZ then Some None else do {
        rl \<leftarrow> c_read frame 2 2;
        let rt_len = unat (get_le16 rl);
        if rt_len < RADIOTAP_SZ \<or> rt_len > length frame then Some None else do {
          let off = rt_len + WIFI_SZ;
          if off + O4L_HDR_SZ > length frame then Some None else do {
            hb \<leftarrow> c_read frame off O4L_HDR_SZ;
            let hdr = get_o4l hb;
            if hdr_magic hdr \<noteq> O4L_MAGIC \<or> hdr_version hdr \<noteq> O4L_VERSION then Some None
            else if unat (hdr_header_len hdr) \<noteq> O4L_HDR_SZ then Some None
            else do {
              let payload_len = unat (hdr_payload_len hdr);
              if payload_len > O4L_MAX_PAYLOAD \<or> off + O4L_HDR_SZ + payload_len > length frame
              then Some None else do {
                let got_crc = hdr_crc32 hdr;
                let tmp = hdr\<lparr>hdr_crc32 := 0\<rparr>;
                let calc_crc = crc32_update 0 (take O4L_CRC_OFF (put_o4l tmp));
                payload \<leftarrow> c_read frame (off + O4L_HDR_SZ) payload_len;
                let calc_crc = crc32_update calc_crc payload;
                if got_crc \<noteq> calc_crc then Some None else Some (Some (hdr, payload))
              }
            }
          }
        }
      })"

lemma parse_frame_defined: "defined (parse_frame f)"
  unfolding parse_frame_def
  by (intro defined_intros) (auto simp: link_sizes)

lemma parse_frame_Some:
  assumes "parse_frame f = Some (Some (h, pl))"
  shows "length pl = unat (hdr_payload_len h) \<and> length pl \<le> O4L_MAX_PAYLOAD"
  using assms unfolding parse_frame_def Let_def
  by (simp add: bind_eq_Some_conv split: if_split_asm) (auto dest!: c_read_length)

text \<open>
  What a receiver captures: the driver has replaced the radiotap header by one of its own
  length and may have left a trailer (a frame check sequence) behind the payload.
\<close>

definition rtap_ok :: "bytes \<Rightarrow> bool" where
  "rtap_ok rt \<longleftrightarrow> 8 \<le> length rt \<and> length rt < 2 ^ 16 \<and>
     get_le16 (take 2 (drop 2 rt)) = of_nat (length rt)"

definition on_air :: "bytes \<Rightarrow> bytes \<Rightarrow> bytes \<Rightarrow> bytes" where
  "on_air rt frame trailer = rt @ drop RADIOTAP_SZ frame @ trailer"

lemma rtap_ok_tx: "rtap_ok radiotap_tx"
  using get_le16_le16 [of 8 "[]"]
  by (simp add: rtap_ok_def radiotap_tx_def RADIOTAP_SZ_def)

lemma on_air_self: "on_air radiotap_tx (build_frame sid fl seq now pl) [] = build_frame sid fl seq now pl"
  by (simp add: on_air_def build_frame_def RADIOTAP_SZ_def)

lemma unat_of_nat_u16: "n < 2 ^ 16 \<Longrightarrow> unat (of_nat n :: u16) = n"
  by (simp add: unat_of_nat)

text \<open>
  The parser on any bytes laid out as header and body behind a radiotap header: it accepts them
  exactly when the checksum is the one it computes.
\<close>

lemma parse_frame_layout:
  assumes rt: "rtap_ok rt" and w: "length wifi = 24" and len: "length body \<le> 1400"
    and fields: "hdr_magic h = O4L_MAGIC" "hdr_version h = O4L_VERSION" "hdr_header_len h = 28"
      "hdr_payload_len h = of_nat (length body)"
  shows "parse_frame (rt @ wifi @ put_o4l h @ body @ tr) =
     Some (if hdr_crc32 h = crc32_update (crc32_update 0 (take 24 (put_o4l h))) body
           then Some (h, body) else None)"
proof -
  let ?f = "rt @ wifi @ put_o4l h @ body @ tr"
  from rt have r8: "8 \<le> length rt" and r16: "length rt < 2 ^ 16"
    and rl: "get_le16 (take 2 (drop 2 rt)) = of_nat (length rt)" by (auto simp: rtap_ok_def)
  have read_rl: "c_read ?f 2 2 = Some (take 2 (drop 2 rt))" using r8 by (simp add: c_read_def)
  have rtl: "unat (get_le16 (take 2 (drop 2 rt))) = length rt"
    using r16 rl unat_of_nat_u16 by simp
  have read_h: "c_read ?f (length rt + 24) 28 = Some (put_o4l h)"
    using w by (simp add: c_read_def)
  have read_b: "c_read ?f (length rt + 24 + 28) (length body) = Some body"
    using w by (simp add: c_read_def)
  have pl: "unat (hdr_payload_len h) = length body"
    using len fields(4) by (simp add: unat_of_nat_u16)
  have hl: "unat (hdr_header_len h) = 28" using fields(3) by simp
  show ?thesis
    using r8 len w read_rl rtl read_h read_b pl hl fields(1,2)
    by (simp add: parse_frame_def Let_def link_sizes take_crc_put)
qed

lemma parse_frame_build:
  assumes "rtap_ok rt" and "length pl \<le> 1400"
  shows "parse_frame (on_air rt (build_frame sid fl seq now pl) tr) =
     Some (Some (build_hdr sid fl seq now pl, pl))"
proof -
  let ?h = "build_hdr sid fl seq now pl"
  have "on_air rt (build_frame sid fl seq now pl) tr = rt @ wifi_tx seq @ put_o4l ?h @ pl @ tr"
    by (simp add: on_air_def build_frame_def RADIOTAP_SZ_def)
  with parse_frame_layout [of rt "wifi_tx seq" pl ?h tr] assms show ?thesis
    by (simp add: build_hdr_crc)
qed

text \<open>A payload with one byte changed in flight is never accepted.\<close>

lemma parse_frame_corrupt:
  assumes "rtap_ok rt" and "length (xs @ p # ys) \<le> 1400" and "p \<noteq> q"
  shows "parse_frame (rt @ wifi_tx seq @ put_o4l (build_hdr sid fl seq now (xs @ p # ys)) @
      (xs @ q # ys) @ tr) = Some None"
proof -
  let ?h = "build_hdr sid fl seq now (xs @ p # ys)"
  have "hdr_crc32 ?h \<noteq> crc32_update (crc32_update 0 (take 24 (put_o4l ?h))) (xs @ q # ys)"
    using crc32_one_byte [OF assms(3)] by (simp add: build_hdr_crc)
  then show ?thesis
    using parse_frame_layout [of rt "wifi_tx seq" "xs @ q # ys" ?h tr] assms(1,2) by simp
qed

end
