(* ===== verification/Link_Rtap.thy ===== *)
theory Link_Rtap
  imports Link_Frame
begin

text \<open>
  Receive statistics and the radiotap signal parser of \<^verbatim>\<open>omega4-linkd.c\<close>:
  \<open>struct stats\<close>, \<open>stats_update_signal\<close>, \<open>align_rtap\<close>, \<open>rtap_field_layout\<close> and
  \<open>parse_radiotap_signal\<close>. The unsigned counters are 64-bit words; the signal values come
  from 8-bit fields and are integers (the sum of 8-bit samples leaves \<open>int64_t\<close> only after
  more than \<open>2 ^ 55\<close> of them). \<open>size_t\<close> is 32 bits wide in \<open>align_rtap\<close>.
\<close>

section \<open>Statistics\<close>

record stats =
  tx_packets :: u64
  tx_bytes :: u64
  rx_packets :: u64
  rx_bytes :: u64
  rx_frames :: u64
  rx_frame_bytes :: u64
  rx_bad :: u64
  rx_lost :: u64
  rx_out_of_order :: u64
  fec_recovered :: u64
  fec_unusable :: u64
  last_rx_sequence :: u32
  last_rx_us :: u64
  last_rssi_dbm :: int
  min_rssi_dbm :: int
  max_rssi_dbm :: int
  rssi_dbm_sum :: int
  rssi_samples :: u64
  last_noise_dbm :: int
  noise_dbm_sum :: int
  noise_samples :: u64
  have_rx_sequence :: bool
  have_rssi :: bool
  have_noise :: bool

definition stats_zero :: stats where
  "stats_zero =
     \<lparr>tx_packets = 0, tx_bytes = 0, rx_packets = 0, rx_bytes = 0, rx_frames = 0,
      rx_frame_bytes = 0, rx_bad = 0, rx_lost = 0, rx_out_of_order = 0, fec_recovered = 0,
      fec_unusable = 0, last_rx_sequence = 0, last_rx_us = 0, last_rssi_dbm = 0,
      min_rssi_dbm = 0, max_rssi_dbm = 0, rssi_dbm_sum = 0, rssi_samples = 0,
      last_noise_dbm = 0, noise_dbm_sum = 0, noise_samples = 0, have_rx_sequence = False,
      have_rssi = False, have_noise = False\<rparr>"

definition stats_update_signal :: "stats \<Rightarrow> int \<Rightarrow> bool \<Rightarrow> int \<Rightarrow> stats" where
  "stats_update_signal st rssi_dbm hnoise noise_dbm =
     (let st1 = st\<lparr>last_rssi_dbm := rssi_dbm,
                   rssi_dbm_sum := rssi_dbm_sum st + rssi_dbm,
                   rssi_samples := rssi_samples st + 1\<rparr>;
          st2 = (if \<not> have_rssi st1 \<or> rssi_dbm < min_rssi_dbm st1
                 then st1\<lparr>min_rssi_dbm := rssi_dbm\<rparr> else st1);
          st3 = (if \<not> have_rssi st2 \<or> rssi_dbm > max_rssi_dbm st2
                 then st2\<lparr>max_rssi_dbm := rssi_dbm\<rparr> else st2);
          st4 = st3\<lparr>have_rssi := True\<rparr>
      in if hnoise
         then st4\<lparr>last_noise_dbm := noise_dbm,
                  noise_dbm_sum := noise_dbm_sum st4 + noise_dbm,
                  noise_samples := noise_samples st4 + 1,
                  have_noise := True\<rparr>
         else st4)"

text \<open>The link counters are not touched by signal samples.\<close>

lemma stats_update_signal_frame [simp]:
  "rx_frames (stats_update_signal st r hn n) = rx_frames st"
  "rx_lost (stats_update_signal st r hn n) = rx_lost st"
  "rx_bad (stats_update_signal st r hn n) = rx_bad st"
  "rx_packets (stats_update_signal st r hn n) = rx_packets st"
  "rx_bytes (stats_update_signal st r hn n) = rx_bytes st"
  "rx_frame_bytes (stats_update_signal st r hn n) = rx_frame_bytes st"
  "rx_out_of_order (stats_update_signal st r hn n) = rx_out_of_order st"
  "last_rx_sequence (stats_update_signal st r hn n) = last_rx_sequence st"
  "have_rx_sequence (stats_update_signal st r hn n) = have_rx_sequence st"
  "fec_recovered (stats_update_signal st r hn n) = fec_recovered st"
  "fec_unusable (stats_update_signal st r hn n) = fec_unusable st"
  "tx_packets (stats_update_signal st r hn n) = tx_packets st"
  by (simp_all add: stats_update_signal_def Let_def)

text \<open>What the status file's signal fields mean: extrema, last, sum and count of the samples seen.\<close>

definition rssi_summary :: "int list \<Rightarrow> stats \<Rightarrow> bool" where
  "rssi_summary rs st \<longleftrightarrow>
     have_rssi st = (rs \<noteq> []) \<and> rssi_dbm_sum st = sum_list rs \<and>
     rssi_samples st = of_nat (length rs) \<and>
     (rs \<noteq> [] \<longrightarrow> last_rssi_dbm st = last rs \<and> min_rssi_dbm st = Min (set rs) \<and>
        max_rssi_dbm st = Max (set rs))"

lemma rssi_summary_zero: "rssi_summary [] stats_zero"
  by (simp add: rssi_summary_def stats_zero_def)

lemma rssi_summary_step:
  assumes "rssi_summary rs st"
  shows "rssi_summary (rs @ [r]) (stats_update_signal st r hn n)"
proof (cases "rs = []")
  case True
  with assms show ?thesis by (simp add: rssi_summary_def stats_update_signal_def Let_def)
next
  case False
  define m M where mM: "m = Min (set rs)" "M = Max (set rs)"
  have "Min (insert r (set rs)) = min r m" and "Max (insert r (set rs)) = max r M"
    using False by (simp_all add: mM)
  then have "Min (insert r (set rs)) = (if r < m then r else m)"
    and "Max (insert r (set rs)) = (if M < r then r else M)"
    by (auto simp: min_def max_def)
  with assms False show ?thesis
    by (simp add: rssi_summary_def stats_update_signal_def Let_def mM [symmetric])
qed

definition signal_event :: "int \<times> bool \<times> int \<Rightarrow> stats \<Rightarrow> stats" where
  "signal_event e st = (case e of (r, hn, n) \<Rightarrow> stats_update_signal st r hn n)"

lemma rssi_summary_fold:
  "rssi_summary rs st \<Longrightarrow> rssi_summary (rs @ map fst es) (fold signal_event es st)"
proof (induction es arbitrary: rs st)
  case Nil
  then show ?case by simp
next
  case (Cons e es)
  obtain r hn n where e: "e = (r, hn, n)" by (cases e)
  from rssi_summary_step [OF Cons.prems, of r hn n] Cons.IH [of "rs @ [r]"]
  show ?case by (simp add: e signal_event_def)
qed

text \<open>A radiotap header reports at most one value of each kind, and they are 8-bit values.\<close>

definition signal_inv :: "stats \<Rightarrow> bool" where
  "signal_inv st \<longleftrightarrow> (have_rssi st \<longrightarrow>
     - 128 \<le> min_rssi_dbm st \<and> min_rssi_dbm st \<le> last_rssi_dbm st \<and>
     last_rssi_dbm st \<le> max_rssi_dbm st \<and> max_rssi_dbm st \<le> 127)"

lemma signal_inv_update:
  "signal_inv st \<Longrightarrow> - 128 \<le> r \<Longrightarrow> r \<le> 127 \<Longrightarrow> signal_inv (stats_update_signal st r hn n)"
  by (auto simp: signal_inv_def stats_update_signal_def Let_def)

section \<open>Radiotap fields\<close>

definition RTAP_PRESENT_EXT :: nat where "RTAP_PRESENT_EXT = 31"
definition RTAP_DBM_ANTSIGNAL :: nat where "RTAP_DBM_ANTSIGNAL = 5"
definition RTAP_DBM_ANTNOISE :: nat where "RTAP_DBM_ANTNOISE = 6"

lemmas rtap_bits = RTAP_PRESENT_EXT_def RTAP_DBM_ANTSIGNAL_def RTAP_DBM_ANTNOISE_def

definition align_rtap :: "nat \<Rightarrow> nat \<Rightarrow> nat" where
  "align_rtap off align =
     (if align \<le> 1 then off
      else unat ((of_nat off + of_nat align - 1 :: u32) AND NOT (of_nat align - 1)))"

definition rtap_field_layout :: "nat \<Rightarrow> (nat \<times> nat) option" where
  "rtap_field_layout b =
     (if b = 0 then Some (8, 8)
      else if b = 1 \<or> b = 2 \<or> b = RTAP_DBM_ANTSIGNAL \<or> b = RTAP_DBM_ANTNOISE then Some (1, 1)
      else if b = 3 then Some (2, 4)
      else if b = 4 then Some (2, 2)
      else None)"

text \<open>The loop over the extension words of the presence mask.\<close>

function rtap_skip_ext :: "bytes \<Rightarrow> nat \<Rightarrow> u32 \<Rightarrow> nat \<Rightarrow> nat option option" where
  "rtap_skip_ext frame rt_len present off =
     (if bit present RTAP_PRESENT_EXT then
        if off + 4 > rt_len then Some None
        else case c_read frame off 4 of
               None \<Rightarrow> None
             | Some w \<Rightarrow> rtap_skip_ext frame rt_len (get_le32 w) (off + 4)
      else Some (Some off))"
  by pat_completeness auto
termination
  by (relation "measure (\<lambda>(_, rt_len, _, off). rt_len - off)") auto

declare rtap_skip_ext.simps [simp del]

text \<open>The loop over the field bits; the accumulator is \<open>have_rssi, rssi_dbm, have_noise, noise_dbm\<close>.\<close>

type_synonym signal = "bool \<times> int \<times> bool \<times> int"

fun rtap_fields :: "bytes \<Rightarrow> nat \<Rightarrow> u32 \<Rightarrow> nat \<Rightarrow> signal \<Rightarrow> nat list \<Rightarrow> signal option option" where
  "rtap_fields frame rt_len present off acc [] = Some (Some acc)"
| "rtap_fields frame rt_len present off acc (b # bs) =
     (if \<not> bit present b then rtap_fields frame rt_len present off acc bs
      else case rtap_field_layout b of
        None \<Rightarrow> Some None
      | Some (al, sz) \<Rightarrow>
          (let off = align_rtap off al in
           if off + sz > rt_len then Some None
           else case acc of (hr, r, hn, n) \<Rightarrow>
             if b = RTAP_DBM_ANTSIGNAL then
               (case c_get frame off of
                  None \<Rightarrow> None
                | Some v \<Rightarrow> rtap_fields frame rt_len present (off + sz) (True, sint v, hn, n) bs)
             else if b = RTAP_DBM_ANTNOISE then
               (case c_get frame off of
                  None \<Rightarrow> None
                | Some v \<Rightarrow> rtap_fields frame rt_len present (off + sz) (hr, r, True, sint v) bs)
             else rtap_fields frame rt_len present (off + sz) acc bs))"

definition parse_radiotap_signal :: "bytes \<Rightarrow> stats \<Rightarrow> stats option" where
  "parse_radiotap_signal frame st =
     (if length frame < RADIOTAP_SZ then Some st else do {
        rl \<leftarrow> c_read frame 2 2;
        let rt_len = unat (get_le16 rl);
        if rt_len < RADIOTAP_SZ \<or> rt_len > length frame then Some st else do {
          pw \<leftarrow> c_read frame 4 4;
          let present = get_le32 pw;
          ext \<leftarrow> rtap_skip_ext frame rt_len present RADIOTAP_SZ;
          case ext of
            None \<Rightarrow> Some st
          | Some off \<Rightarrow> do {
              sig \<leftarrow> rtap_fields frame rt_len present off (False, 0, False, 0)
                       [0..<Suc RTAP_DBM_ANTNOISE];
              (case sig of
                 None \<Rightarrow> Some st
               | Some (hr, r, hn, n) \<Rightarrow>
                   if hr then Some (stats_update_signal st r hn n) else Some st)
            }
        }
      })"

subsection \<open>Memory safety\<close>

lemma rtap_skip_ext_defined:
  "rt_len \<le> length frame \<Longrightarrow> defined (rtap_skip_ext frame rt_len present off)"
proof (induction frame rt_len present off rule: rtap_skip_ext.induct)
  case (1 frame rt_len present off)
  then show ?case
    by (subst rtap_skip_ext.simps) (auto simp: c_read_def defined_Some)
qed

lemma rtap_skip_ext_bounds:
  "rtap_skip_ext frame rt_len present off = Some (Some off') \<Longrightarrow> off \<le> rt_len \<Longrightarrow>
   off \<le> off' \<and> off' \<le> rt_len"
proof (induction frame rt_len present off rule: rtap_skip_ext.induct)
  case (1 frame rt_len present off)
  from "1.prems" show ?case
    by (subst (asm) rtap_skip_ext.simps) (auto split: if_splits option.splits dest!: "1.IH")
qed

lemma rtap_field_layout_pos: "rtap_field_layout b = Some (al, sz) \<Longrightarrow> 0 < sz"
  by (auto simp: rtap_field_layout_def split: if_splits)

lemma rtap_fields_defined:
  "rt_len \<le> length frame \<Longrightarrow> defined (rtap_fields frame rt_len present off acc bs)"
proof (induction bs arbitrary: off acc)
  case Nil
  then show ?case by (simp add: defined_Some)
next
  case (Cons b bs)
  obtain hr r hn n where acc: "acc = (hr, r, hn, n)" by (cases acc)
  from Cons show ?case
    by (auto simp: acc Let_def defined_Some c_get_def split: option.splits
        dest!: rtap_field_layout_pos)
qed

lemma parse_radiotap_signal_defined: "defined (parse_radiotap_signal frame st)"
proof -
  have sk: "\<exists>e. rtap_skip_ext frame n p off = Some e" if "n \<le> length frame" for n p off
    using rtap_skip_ext_defined [OF that] by (auto simp: defined_def)
  have fl: "\<exists>s. rtap_fields frame n p off a bs = Some s" if "n \<le> length frame" for n p off a bs
    using rtap_fields_defined [OF that] by (auto simp: defined_def)
  show ?thesis
    unfolding parse_radiotap_signal_def
  proof (intro defined_intros)
    fix rl pw rt_len present
    assume "\<not> (rt_len < RADIOTAP_SZ \<or> length frame < rt_len)"
    then have le: "rt_len \<le> length frame" by simp
    obtain e where e: "rtap_skip_ext frame rt_len present RADIOTAP_SZ = Some e"
      using sk [OF le] by blast
    show "defined (do {ext \<leftarrow> rtap_skip_ext frame rt_len present RADIOTAP_SZ;
      case ext of None \<Rightarrow> Some st
      | Some off \<Rightarrow> do {
          sig \<leftarrow> rtap_fields frame rt_len present off (False, 0, False, 0)
                   [0..<Suc RTAP_DBM_ANTNOISE];
          (case sig of None \<Rightarrow> Some st
           | Some (hr, r, hn, n) \<Rightarrow>
               if hr then Some (stats_update_signal st r hn n) else Some st)}})"
    proof (cases e)
      case None
      with e show ?thesis by (simp add: defined_Some)
    next
      case (Some off)
      obtain s where "rtap_fields frame rt_len present off (False, 0, False, 0)
          [0..<Suc RTAP_DBM_ANTNOISE] = Some s" using fl [OF le] by blast
      with e Some show ?thesis by (auto simp: defined_Some split: option.splits)
    qed
  qed (auto simp: RADIOTAP_SZ_def)
qed

subsection \<open>Alignment\<close>

text \<open>On power-of-two alignments the masking is rounding up, as long as the sum fits in 32 bits.\<close>

definition align_up :: "nat \<Rightarrow> nat \<Rightarrow> nat" where
  "align_up off al = (off + al - 1) div al * al"

lemma and_not_mask_eq: "w AND NOT (mask k) = w - take_bit k (w :: 'a::len word)"
proof -
  have "w - take_bit k w = w AND NOT (take_bit k w)"
    by (rule disjunctive_diff_eq_and_not, rule bit_word_eqI) (auto simp: bit_simps)
  also have "\<dots> = w AND NOT (mask k)"
    by (rule bit_word_eqI) (auto simp: bit_simps)
  finally show ?thesis by simp
qed

lemma align_rtap_pow2:
  assumes "off + 2 ^ k < 2 ^ 32"
  shows "align_rtap off (2 ^ k) = align_up off (2 ^ k)"
proof (cases "k = 0")
  case True
  then show ?thesis by (simp add: align_rtap_def align_up_def)
next
  case False
  have k: "k < 32" using assms by (rule_tac ccontr) (auto dest: power_increasing [of 32 k "2 :: nat"] simp: not_less)
  define m where "m = off + 2 ^ k - 1"
  have m: "m < 2 ^ 32" using assms by (simp add: m_def)
  have "Suc m = off + 2 ^ k" by (simp add: m_def)
  then have "(of_nat off + of_nat (2 ^ k) :: u32) = of_nat (Suc m)" by (simp only: of_nat_add)
  then have sum: "(of_nat off + of_nat (2 ^ k) - 1 :: u32) = of_nat m" by simp
  have msk: "(of_nat (2 ^ k) - 1 :: u32) = mask k" by (simp add: mask_eq_exp_minus_1)
  define q where "q = m div 2 ^ k * 2 ^ k"
  have "(of_nat m :: u32) AND NOT (mask k) = of_nat m - of_nat (m mod 2 ^ k)"
    by (metis and_not_mask_eq take_bit_of_nat take_bit_eq_mod)
  also have "\<dots> = of_nat q"
    unfolding q_def minus_mod_eq_div_mult [symmetric] by (rule of_nat_diff [symmetric]) simp
  finally have "(of_nat off + of_nat (2 ^ k) - 1 :: u32) AND NOT (of_nat (2 ^ k) - 1) = of_nat q"
    unfolding sum msk .
  moreover have "q < 2 ^ 32"
    unfolding q_def using m div_times_less_eq_dividend [of m "2 ^ k"] by linarith
  then have "unat (of_nat q :: u32) = q" by (simp add: unat_of_nat)
  moreover have "\<not> (2 :: nat) ^ k \<le> 1" using False one_less_power [of "2 :: nat" k] by simp
  ultimately show ?thesis
    unfolding align_rtap_def align_up_def q_def m_def by presburger
qed

lemma align_up_le: "0 < al \<Longrightarrow> off \<le> align_up off al"
  unfolding align_up_def using div_mult_mod_eq [of "off + al - 1" al] mod_less_divisor [of al "off + al - 1"]
  by linarith

lemma rtap_layout_align:
  assumes "rtap_field_layout b = Some (al, sz)" and "off < 2 ^ 16"
  shows "align_rtap off al = align_up off al"
proof -
  from assms(1) have "al = 2 ^ 3 \<or> al = 2 ^ 0 \<or> al = 2 ^ 1"
    by (auto simp: rtap_field_layout_def split: if_splits)
  with assms(2) show ?thesis
    using align_rtap_pow2 [of off 3] align_rtap_pow2 [of off 0] align_rtap_pow2 [of off 1] by auto
qed

subsection \<open>Reading back an encoded header\<close>

text \<open>
  The specification: the radiotap standard lays the present fields out in bit order, each
  padded to its natural alignment.
\<close>

fun rtap_enc :: "(nat \<Rightarrow> bytes option) \<Rightarrow> nat list \<Rightarrow> nat \<Rightarrow> bytes" where
  "rtap_enc f [] off = []"
| "rtap_enc f (b # bs) off =
     (case (f b, rtap_field_layout b) of
        (Some d, Some (al, sz)) \<Rightarrow>
          replicate (align_up off al - off) 0 @ d @ rtap_enc f bs (align_up off al + length d)
      | _ \<Rightarrow> rtap_enc f bs off)"

definition rtap_wf :: "(nat \<Rightarrow> bytes option) \<Rightarrow> u32 \<Rightarrow> bool" where
  "rtap_wf f present \<longleftrightarrow> \<not> bit present RTAP_PRESENT_EXT \<and>
     (\<forall>b \<le> RTAP_DBM_ANTNOISE. bit present b = (f b \<noteq> None) \<and>
        (\<forall>d. f b = Some d \<longrightarrow> (\<exists>al. rtap_field_layout b = Some (al, length d))))"

definition rtap_header :: "(nat \<Rightarrow> bytes option) \<Rightarrow> u32 \<Rightarrow> bytes" where
  "rtap_header f present =
     (let body = rtap_enc f [0..<Suc RTAP_DBM_ANTNOISE] RADIOTAP_SZ
      in [0, 0] @ le16 (of_nat (RADIOTAP_SZ + length body)) @ le32 present @ body)"

definition signal_step :: "(nat \<Rightarrow> bytes option) \<Rightarrow> nat \<Rightarrow> signal \<Rightarrow> signal" where
  "signal_step f b acc =
     (case (acc, f b) of
        ((hr, r, hn, n), Some d) \<Rightarrow>
          (if b = RTAP_DBM_ANTSIGNAL then (True, sint (hd d), hn, n)
           else if b = RTAP_DBM_ANTNOISE then (hr, r, True, sint (hd d))
           else (hr, r, hn, n))
      | (_, None) \<Rightarrow> acc)"

definition signal_of :: "(nat \<Rightarrow> bytes option) \<Rightarrow> nat list \<Rightarrow> signal \<Rightarrow> signal" where
  "signal_of f bs acc = fold (signal_step f) bs acc"

lemma signal_step_other:
  "b \<noteq> RTAP_DBM_ANTSIGNAL \<Longrightarrow> b \<noteq> RTAP_DBM_ANTNOISE \<Longrightarrow> signal_step f b acc = acc"
  by (cases acc, cases "f b") (simp_all add: signal_step_def)

lemma signal_of_all:
  "signal_of f [0..<Suc RTAP_DBM_ANTNOISE] (False, 0, False, 0) =
      (f RTAP_DBM_ANTSIGNAL \<noteq> None,
       (case f RTAP_DBM_ANTSIGNAL of None \<Rightarrow> 0 | Some d \<Rightarrow> sint (hd d)),
       f RTAP_DBM_ANTNOISE \<noteq> None,
       (case f RTAP_DBM_ANTNOISE of None \<Rightarrow> 0 | Some e \<Rightarrow> sint (hd e)))"
proof -
  have upt: "[0..<Suc RTAP_DBM_ANTNOISE] = [0, 1, 2, 3, 4, 5, 6]"
    by (simp add: RTAP_DBM_ANTNOISE_def upt_rec)
  have "signal_of f [0..<Suc RTAP_DBM_ANTNOISE] (False, 0, False, 0) =
      signal_step f 6 (signal_step f 5 (False, 0, False, 0))"
    unfolding upt signal_of_def by (simp add: signal_step_other rtap_bits)
  then show ?thesis
    by (cases "f 5"; cases "f 6") (simp_all add: signal_step_def rtap_bits)
qed

lemma rtap_layout_pos: "rtap_field_layout b = Some (al, sz) \<Longrightarrow> 0 < al \<and> 0 < sz"
  by (auto simp: rtap_field_layout_def split: if_splits)

lemma rtap_fields_enc:
  assumes "\<forall>b \<in> set bs. b \<le> RTAP_DBM_ANTNOISE" and "rtap_wf f present"
    and "frame = pre @ rtap_enc f bs (length pre) @ rest"
    and "length pre + length (rtap_enc f bs (length pre)) \<le> rt_len" and "rt_len < 2 ^ 16"
  shows "rtap_fields frame rt_len present (length pre) acc bs = Some (Some (signal_of f bs acc))"
  using assms
proof (induction bs arbitrary: pre acc)
  case Nil
  then show ?case by (simp add: signal_of_def)
next
  case (Cons b bs)
  obtain hr r hn n where acc: "acc = (hr, r, hn, n)" by (cases acc)
  have b: "b \<le> RTAP_DBM_ANTNOISE" using Cons.prems(1) by simp
  show ?case
  proof (cases "f b")
    case None
    then have nb: "\<not> bit present b" using Cons.prems(2) b by (auto simp: rtap_wf_def)
    have "rtap_fields frame rt_len present (length pre) acc bs = Some (Some (signal_of f bs acc))"
      using Cons.prems None by (intro Cons.IH) auto
    with nb None show ?thesis by (simp add: acc signal_of_def signal_step_def)
  next
    case (Some d)
    with Cons.prems(2) b obtain al where lay: "rtap_field_layout b = Some (al, length d)"
      and bit: "bit present b" by (auto simp: rtap_wf_def)
    have pos: "0 < al" "0 < length d" using rtap_layout_pos [OF lay] by auto
    define off where "off = align_up (length pre) al"
    define pre' where "pre' = pre @ replicate (off - length pre) 0 @ d"
    have le: "length pre \<le> off" using align_up_le [OF pos(1)] by (simp add: off_def)
    have enc: "rtap_enc f (b # bs) (length pre) =
        replicate (off - length pre) 0 @ d @ rtap_enc f bs (off + length d)"
      using Some lay by (simp add: off_def)
    have len': "length pre' = off + length d" using le by (simp add: pre'_def)
    have frame: "frame = pre' @ rtap_enc f bs (length pre') @ rest"
      using Cons.prems(3) enc len' by (simp add: pre'_def)
    have fit: "length pre' + length (rtap_enc f bs (length pre')) \<le> rt_len"
      using Cons.prems(4) enc len' le by simp
    have small: "length pre < 2 ^ 16" using Cons.prems(4,5) by simp
    have al: "align_rtap (length pre) al = off"
      using rtap_layout_align [OF lay small] by (simp add: off_def)
    have d0: "frame ! off = hd d" "off < length frame"
      using frame pos(2) le len' by (simp_all add: pre'_def nth_append hd_conv_nth)
    have IH: "rtap_fields frame rt_len present (off + length d) a bs = Some (Some (signal_of f bs a))" for a
      using Cons.IH [OF _ Cons.prems(2) frame fit Cons.prems(5)] Cons.prems(1) len' by simp
    show ?thesis
      using bit lay al IH fit d0 Some len'
      by (simp add: acc Let_def c_get_def signal_of_def signal_step_def)
  qed
qed

lemma parse_radiotap_header:
  assumes wf: "rtap_wf f present" and small: "length (rtap_header f present) < 2 ^ 16"
  shows "parse_radiotap_signal (rtap_header f present @ rest) st =
     Some (case f RTAP_DBM_ANTSIGNAL of
        None \<Rightarrow> st
      | Some d \<Rightarrow> stats_update_signal st (sint (hd d)) (f RTAP_DBM_ANTNOISE \<noteq> None)
            (case f RTAP_DBM_ANTNOISE of None \<Rightarrow> 0 | Some e \<Rightarrow> sint (hd e)))"
proof -
  define body where "body = rtap_enc f [0..<Suc RTAP_DBM_ANTNOISE] RADIOTAP_SZ"
  define len where "len = RADIOTAP_SZ + length body"
  define pre where "pre = [0, 0] @ le16 (of_nat len) @ le32 present"
  let ?frame = "rtap_header f present @ rest"
  have hdr: "rtap_header f present = pre @ body"
    by (simp add: rtap_header_def pre_def body_def len_def Let_def)
  have lpre: "length pre = 8" by (simp add: pre_def)
  have len16: "len < 2 ^ 16" using small hdr lpre by (simp add: len_def RADIOTAP_SZ_def)
  have rl: "c_read ?frame 2 2 = Some (le16 (of_nat len))"
    by (simp add: hdr pre_def c_read_def)
  have rlv: "unat (get_le16 (le16 (of_nat len))) = len"
    using get_le16_le16 [of "of_nat len" "[]"] unat_of_nat_u16 [OF len16] by simp
  have pw: "c_read ?frame 4 4 = Some (le32 present)"
    by (simp add: hdr pre_def c_read_def)
  have pwv: "get_le32 (le32 present) = present" using get_le32_le32 [of present "[]"] by simp
  have ext: "rtap_skip_ext ?frame len present RADIOTAP_SZ = Some (Some 8)"
    using wf by (subst rtap_skip_ext.simps) (simp add: rtap_wf_def RADIOTAP_SZ_def)
  have "rtap_fields ?frame len present (length pre) (False, 0, False, 0) [0..<Suc RTAP_DBM_ANTNOISE]
      = Some (Some (signal_of f [0..<Suc RTAP_DBM_ANTNOISE] (False, 0, False, 0)))"
    by (rule rtap_fields_enc [OF _ wf, where rest = rest])
      (use len16 in \<open>simp_all add: hdr body_def lpre len_def RADIOTAP_SZ_def\<close>)
  then have flds: "rtap_fields ?frame len present 8 (False, 0, False, 0) [0..<Suc RTAP_DBM_ANTNOISE]
      = Some (Some (signal_of f [0..<Suc RTAP_DBM_ANTNOISE] (False, 0, False, 0)))"
    by (simp add: lpre)
  have sig: "signal_of f [0..<Suc RTAP_DBM_ANTNOISE] (False, 0, False, 0) =
      (f RTAP_DBM_ANTSIGNAL \<noteq> None,
       (case f RTAP_DBM_ANTSIGNAL of None \<Rightarrow> 0 | Some d \<Rightarrow> sint (hd d)),
       f RTAP_DBM_ANTNOISE \<noteq> None,
       (case f RTAP_DBM_ANTNOISE of None \<Rightarrow> 0 | Some e \<Rightarrow> sint (hd e)))"
    by (rule signal_of_all)
  have lf: "8 \<le> len" "len \<le> length ?frame" using lpre by (simp_all add: len_def hdr RADIOTAP_SZ_def)
  have "parse_radiotap_signal ?frame st = do {
      sig \<leftarrow> rtap_fields ?frame len present 8 (False, 0, False, 0) [0..<Suc RTAP_DBM_ANTNOISE];
      (case sig of None \<Rightarrow> Some st
       | Some (hr, r, hn, n) \<Rightarrow> if hr then Some (stats_update_signal st r hn n) else Some st)}"
    unfolding parse_radiotap_signal_def Let_def rl pw bind.bind_lunit rlv pwv ext
    using lf by (simp add: RADIOTAP_SZ_def)
  also have "\<dots> = Some (if f RTAP_DBM_ANTSIGNAL \<noteq> None
      then stats_update_signal st
        (case f RTAP_DBM_ANTSIGNAL of None \<Rightarrow> 0 | Some d \<Rightarrow> sint (hd d))
        (f RTAP_DBM_ANTNOISE \<noteq> None)
        (case f RTAP_DBM_ANTNOISE of None \<Rightarrow> 0 | Some e \<Rightarrow> sint (hd e))
      else st)"
    unfolding flds bind.bind_lunit sig by simp
  also have "\<dots> = Some (case f RTAP_DBM_ANTSIGNAL of
        None \<Rightarrow> st
      | Some d \<Rightarrow> stats_update_signal st (sint (hd d)) (f RTAP_DBM_ANTNOISE \<noteq> None)
            (case f RTAP_DBM_ANTNOISE of None \<Rightarrow> 0 | Some e \<Rightarrow> sint (hd e)))"
    by (cases "f RTAP_DBM_ANTSIGNAL") simp_all
  finally show ?thesis .
qed

end
