(* ===== verification/C_Strings.thy ===== *)
theory C_Strings
  imports Prelude
begin

text \<open>
  The parts of the C library the command lines are parsed with, on strings without the closing
  NUL: \<open>strtol\<close> in base 10 with its saturation to a 32-bit \<open>long\<close>, \<open>atoi\<close>,
  \<open>strtoul\<close> in base 0, and the splits that \<open>strchr\<close> and \<open>strrchr\<close> make.
\<close>

definition c_isspace :: "char \<Rightarrow> bool" where
  "c_isspace c \<longleftrightarrow> c = CHR '' '' \<or> (9 \<le> (of_char c :: nat) \<and> (of_char c :: nat) \<le> 13)"

definition c_digit :: "char \<Rightarrow> nat option" where
  "c_digit c =
     (let n = of_char c :: nat in
      if 48 \<le> n \<and> n \<le> 57 then Some (n - 48)
      else if 97 \<le> n \<and> n \<le> 122 then Some (n - 87)
      else if 65 \<le> n \<and> n \<le> 90 then Some (n - 55)
      else None)"

text \<open>The longest prefix of digits of the base: its value, and what is left.\<close>

fun c_digits :: "nat \<Rightarrow> nat \<Rightarrow> string \<Rightarrow> nat \<times> string" where
  "c_digits base acc [] = (acc, [])"
| "c_digits base acc (c # cs) =
     (case c_digit c of
        Some d \<Rightarrow> if d < base then c_digits base (acc * base + d) cs else (acc, c # cs)
      | None \<Rightarrow> (acc, c # cs))"

definition c_sign :: "string \<Rightarrow> bool \<times> string" where
  "c_sign s = (case s of
      [] \<Rightarrow> (False, [])
    | c # cs \<Rightarrow> if c = CHR ''-'' then (True, cs) else if c = CHR ''+'' then (False, cs)
                else (False, c # cs))"

definition LONG_MAX :: int where "LONG_MAX = 2 ^ 31 - 1"
definition LONG_MIN :: int where "LONG_MIN = - (2 ^ 31)"

definition strtol10 :: "string \<Rightarrow> int" where
  "strtol10 s =
     (let (neg, ds) = c_sign (dropWhile c_isspace s);
          v = int (fst (c_digits 10 0 ds))
      in max LONG_MIN (min LONG_MAX (if neg then - v else v)))"

definition atoi :: "string \<Rightarrow> int" where
  "atoi s = strtol10 s"

text \<open>
  \<open>strtoul (s, &end, 0)\<close> on a 32-bit \<open>unsigned long\<close>: the value, the rest, and whether
  \<open>errno\<close> is set. With no digits the rest is the whole string.
\<close>

definition ULONG_MAX :: nat where "ULONG_MAX = 2 ^ 32 - 1"

definition strtoul0 :: "string \<Rightarrow> nat \<times> string \<times> bool" where
  "strtoul0 s =
     (let (neg, ds) = c_sign (dropWhile c_isspace s);
          hex = (case ds of z # x # h # _ \<Rightarrow> z = CHR ''0'' \<and> (x = CHR ''x'' \<or> x = CHR ''X'') \<and>
                      (case c_digit h of Some d \<Rightarrow> d < 16 | None \<Rightarrow> False)
                  | _ \<Rightarrow> False);
          (v, rest) = (if hex then c_digits 16 0 (drop 2 ds)
                       else if ds \<noteq> [] \<and> hd ds = CHR ''0'' then c_digits 8 0 ds
                       else c_digits 10 0 ds)
      in if rest = ds then (0, s, False)
         else if v > ULONG_MAX then (ULONG_MAX, rest, True)
         else (if neg then (2 ^ 32 - v) mod 2 ^ 32 else v, rest, False))"

definition split_first :: "char \<Rightarrow> string \<Rightarrow> (string \<times> string) option" where
  "split_first c s =
     (case dropWhile (\<lambda>x. x \<noteq> c) s of [] \<Rightarrow> None | _ # r \<Rightarrow> Some (takeWhile (\<lambda>x. x \<noteq> c) s, r))"

definition split_last :: "char \<Rightarrow> string \<Rightarrow> (string \<times> string) option" where
  "split_last c s =
     (case split_first c (rev s) of None \<Rightarrow> None | Some (b, a) \<Rightarrow> Some (rev a, rev b))"

lemma split_first_join: "split_first c s = Some (a, b) \<Longrightarrow> s = a @ c # b \<and> c \<notin> set a"
proof -
  assume h: "split_first c s = Some (a, b)"
  then obtain x where dw: "dropWhile (\<lambda>x. x \<noteq> c) s = x # b" and a: "a = takeWhile (\<lambda>x. x \<noteq> c) s"
    by (auto simp: split_first_def split: list.splits)
  then have "x = c" by (metis (mono_tags, lifting) hd_dropWhile list.distinct(1) list.sel(1))
  moreover have "s = a @ x # b" using takeWhile_dropWhile_id [of "\<lambda>x. x \<noteq> c" s] dw a by simp
  moreover have "c \<notin> set a" using a by (auto dest: set_takeWhileD)
  ultimately show ?thesis by simp
qed

lemma split_last_join: "split_last c s = Some (a, b) \<Longrightarrow> s = a @ c # b \<and> c \<notin> set b"
  by (auto simp: split_last_def split: option.splits dest!: split_first_join)
     (metis append.assoc append_Cons append_Nil rev_append rev_rev_ident rev.simps)

lemma split_first_append: "c \<notin> set a \<Longrightarrow> split_first c (a @ c # b) = Some (a, b)"
proof -
  assume c: "c \<notin> set a"
  then have "dropWhile (\<lambda>x. x \<noteq> c) (a @ c # b) = c # b" by (subst dropWhile_append2) auto
  moreover from c have "takeWhile (\<lambda>x. x \<noteq> c) (a @ c # b) = a" by (subst takeWhile_append2) auto
  ultimately show ?thesis by (simp add: split_first_def)
qed

lemma split_last_append: "c \<notin> set b \<Longrightarrow> split_last c (a @ c # b) = Some (a, b)"
  using split_first_append [of c "rev b" "rev a"] by (simp add: split_last_def)

lemma strtol10_range: "LONG_MIN \<le> strtol10 s \<and> strtol10 s \<le> LONG_MAX"
  by (simp add: strtol10_def LONG_MIN_def LONG_MAX_def Let_def split: prod.split)

text \<open>\<^verbatim>\<open>%08x\<close> of a 32-bit word.\<close>

definition hex8 :: "u32 \<Rightarrow> string" where
  "hex8 v = map (\<lambda>i. let d = unat (drop_bit (4 * (7 - i)) v AND 0xf)
                     in if d < 10 then char_of (48 + d) else char_of (87 + d)) [0..<8]"

section \<open>Printing and reading a decimal\<close>

fun dec_digits :: "nat \<Rightarrow> string" where
  "dec_digits n = (if n < 10 then [char_of (48 + n)] else dec_digits (n div 10) @ [char_of (48 + n mod 10)])"

declare dec_digits.simps [simp del]

lemma c_digit_char_of: "d < 10 \<Longrightarrow> c_digit (char_of (48 + d)) = Some d"
  by (simp add: c_digit_def)

lemma c_digits_snoc:
  "c_digits base acc xs = (v, []) \<Longrightarrow> c_digits base acc (xs @ ys) = c_digits base v ys"
proof (induction base acc xs rule: c_digits.induct)
  case (1 base acc)
  then show ?case by simp
next
  case (2 base acc c cs)
  then show ?case by (auto split: option.splits if_splits)
qed

lemma c_digits_dec: "c_digits 10 0 (dec_digits n) = (n, [])"
proof (induction n rule: dec_digits.induct)
  case (1 n)
  show ?case
  proof (cases "n < 10")
    case True
    then show ?thesis by (subst dec_digits.simps) (simp add: c_digit_char_of)
  next
    case False
    with 1 have "c_digits 10 0 (dec_digits (n div 10)) = (n div 10, [])" by simp
    from c_digits_snoc [OF this] False show ?thesis
      by (subst dec_digits.simps) (simp add: c_digit_char_of)
  qed
qed

lemma hd_dec_digits:
  "dec_digits n \<noteq> [] \<and> (\<exists>d < 10. hd (dec_digits n) = char_of (48 + d :: nat))"
proof (induction n rule: dec_digits.induct)
  case (1 n)
  show ?case
  proof (cases "n < 10")
    case True
    then show ?thesis by (subst (1 2) dec_digits.simps) auto
  next
    case False
    with 1 show ?thesis by (subst (1 2) dec_digits.simps) auto
  qed
qed

lemma char_digit_ne:
  assumes "d < 10" and "(of_char c :: nat) < 48 \<or> 57 < (of_char c :: nat)"
  shows "char_of (48 + d :: nat) \<noteq> c"
proof
  assume "char_of (48 + d :: nat) = c"
  then have "(of_char c :: nat) = 48 + d" using assms(1) by auto
  with assms show False by simp
qed

lemma dec_digits_no: "(of_char c :: nat) < 48 \<or> 57 < (of_char c :: nat) \<Longrightarrow> c \<notin> set (dec_digits n)"
proof (induction n rule: dec_digits.induct)
  case (1 n)
  then show ?case
    by (subst dec_digits.simps) (auto simp: char_digit_ne char_digit_ne [symmetric])
qed

lemma strtol10_dec: "int n \<le> LONG_MAX \<Longrightarrow> strtol10 (dec_digits n) = int n"
proof -
  assume le: "int n \<le> LONG_MAX"
  obtain d ds where d: "d < 10" and eq: "dec_digits n = char_of (48 + d :: nat) # ds"
    using hd_dec_digits [of n] by (cases "dec_digits n") auto
  have code: "(of_char (char_of (48 + d)) :: nat) = 48 + d" using d by simp
  have "char_of (48 + d) \<noteq> CHR '' ''" by (rule char_digit_ne [OF d]) simp
  then have "\<not> c_isspace (char_of (48 + d))" using code d by (simp add: c_isspace_def)
  moreover have "char_of (48 + d) \<noteq> CHR ''-''" "char_of (48 + d) \<noteq> CHR ''+''"
    by (rule char_digit_ne [OF d], simp)+
  ultimately have "c_sign (dropWhile c_isspace (dec_digits n)) = (False, dec_digits n)"
    by (simp add: eq c_sign_def)
  with le show ?thesis
    by (simp add: strtol10_def c_digits_dec LONG_MIN_def)
qed

end
