(* ===== verification/Link_Config.thy ===== *)
theory Link_Config
  imports C_Strings
begin

text \<open>
  The command line of \<^verbatim>\<open>omega4-linkd\<close>: \<open>struct config\<close>, \<open>parse_host_port\<close>,
  \<open>parse_fec\<close> and \<open>parse_args\<close>. The result says whether the daemon prints its help
  and exits, refuses the arguments, or runs with a configuration. The arguments are those after
  the program's name.
\<close>

record config =
  cfg_mode :: string
  cfg_iface :: string
  cfg_freq_mhz :: string
  cfg_ht_mode :: string
  cfg_udp_dest_host :: string
  cfg_status_file :: "string option"
  cfg_udp_listen_port :: u16
  cfg_udp_dest_port :: u16
  cfg_stream_id :: u8
  cfg_interval_ms :: int
  cfg_status_interval_ms :: int
  cfg_count :: int
  cfg_fec_data :: int
  cfg_fec_parity :: int
  cfg_setup_wifi :: bool
  cfg_verbose :: bool

datatype 'c args_result = Args_Help | Args_Error | Args_Ok 'c

definition O4L_FEC_MAX_DATA :: nat where "O4L_FEC_MAX_DATA = 16"

definition parse_host_port :: "string \<Rightarrow> (string \<times> u16) option" where
  "parse_host_port arg =
     (case split_last CHR '':'' arg of
        None \<Rightarrow> None
      | Some (host, p) \<Rightarrow>
          (let parsed_port = strtol10 p in
           if parsed_port \<le> 0 \<or> parsed_port > 65535 then None
           else Some (host, of_int parsed_port)))"

definition parse_fec :: "string \<Rightarrow> (int \<times> int) option" where
  "parse_fec arg =
     (case split_first CHR '':'' arg of
        None \<Rightarrow> None
      | Some (d, p) \<Rightarrow>
          (let parsed_data = strtol10 d; parsed_parity = strtol10 p in
           if parsed_data \<le> 0 \<or> parsed_data > int O4L_FEC_MAX_DATA \<or> parsed_parity \<noteq> 1 then None
           else Some (parsed_data, parsed_parity)))"

definition linkd_defaults :: config where
  "linkd_defaults =
     \<lparr>cfg_mode = ''rx'', cfg_iface = ''wlan0'', cfg_freq_mhz = ''5180'', cfg_ht_mode = ''HT20'',
      cfg_udp_dest_host = ''127.0.0.1'', cfg_status_file = None, cfg_udp_listen_port = 5601,
      cfg_udp_dest_port = 5602, cfg_stream_id = 255, cfg_interval_ms = 1000,
      cfg_status_interval_ms = 1000, cfg_count = 0, cfg_fec_data = 0, cfg_fec_parity = 0,
      cfg_setup_wifi = False, cfg_verbose = False\<rparr>"

text \<open>The options that take a value, in the order of the code's chain; \<open>None\<close> is \<^verbatim>\<open>return -1\<close>.\<close>

definition linkd_value_opt :: "string \<Rightarrow> string \<Rightarrow> config \<Rightarrow> config option" where
  "linkd_value_opt a v cfg =
     (if a = ''--mode'' then Some (cfg\<lparr>cfg_mode := v\<rparr>)
      else if a = ''--iface'' then Some (cfg\<lparr>cfg_iface := v\<rparr>)
      else if a = ''--freq'' then Some (cfg\<lparr>cfg_freq_mhz := v\<rparr>)
      else if a = ''--ht-mode'' then Some (cfg\<lparr>cfg_ht_mode := v\<rparr>)
      else if a = ''--udp-listen'' then
        (let port = strtol10 v in
         if port \<le> 0 \<or> port > 65535 then None else Some (cfg\<lparr>cfg_udp_listen_port := of_int port\<rparr>))
      else if a = ''--udp-dest'' then
        (case parse_host_port v of
           None \<Rightarrow> None
         | Some (host, port) \<Rightarrow> Some (cfg\<lparr>cfg_udp_dest_host := host, cfg_udp_dest_port := port\<rparr>))
      else if a = ''--stream'' then
        (let stream = strtol10 v in
         if stream < 0 \<or> stream > 255 then None else Some (cfg\<lparr>cfg_stream_id := of_int stream\<rparr>))
      else if a = ''--fec'' then
        (case parse_fec v of
           None \<Rightarrow> None
         | Some (d, p) \<Rightarrow> Some (cfg\<lparr>cfg_fec_data := d, cfg_fec_parity := p\<rparr>))
      else if a = ''--status-file'' then Some (cfg\<lparr>cfg_status_file := Some v\<rparr>)
      else if a = ''--status-interval-ms'' then
        (if atoi v \<le> 0 then None else Some (cfg\<lparr>cfg_status_interval_ms := atoi v\<rparr>))
      else if a = ''--interval-ms'' then
        (if atoi v \<le> 0 then None else Some (cfg\<lparr>cfg_interval_ms := atoi v\<rparr>))
      else if a = ''--count'' then
        (if atoi v < 0 then None else Some (cfg\<lparr>cfg_count := atoi v\<rparr>))
      else None)"

fun linkd_parse_loop :: "config \<Rightarrow> string list \<Rightarrow> config args_result" where
  "linkd_parse_loop cfg [] = Args_Ok cfg"
| "linkd_parse_loop cfg (a # rest) =
     (if a = ''--help'' \<or> a = ''-h'' then Args_Help
      else if a = ''--setup'' then linkd_parse_loop (cfg\<lparr>cfg_setup_wifi := True\<rparr>) rest
      else if a = ''--verbose'' then linkd_parse_loop (cfg\<lparr>cfg_verbose := True\<rparr>) rest
      else case rest of
        [] \<Rightarrow> Args_Error
      | v # rest' \<Rightarrow>
          (case linkd_value_opt a v cfg of
             None \<Rightarrow> Args_Error
           | Some cfg' \<Rightarrow> linkd_parse_loop cfg' rest'))"

definition linkd_parse_args :: "string list \<Rightarrow> config args_result" where
  "linkd_parse_args argv =
     (case linkd_parse_loop linkd_defaults argv of
        Args_Ok cfg \<Rightarrow>
          (if cfg_mode cfg \<noteq> ''tx'' \<and> cfg_mode cfg \<noteq> ''rx'' \<and> cfg_mode cfg \<noteq> ''ping''
           then Args_Error else Args_Ok cfg)
      | r \<Rightarrow> r)"

text \<open>What the loops rely on.\<close>

definition opts_ok :: "config \<Rightarrow> bool" where
  "opts_ok cfg \<longleftrightarrow>
     cfg_udp_listen_port cfg \<noteq> 0 \<and> cfg_udp_dest_port cfg \<noteq> 0 \<and>
     0 < cfg_interval_ms cfg \<and> 0 < cfg_status_interval_ms cfg \<and> 0 \<le> cfg_count cfg \<and>
     0 \<le> cfg_fec_data cfg \<and> cfg_fec_data cfg \<le> int O4L_FEC_MAX_DATA \<and>
     cfg_fec_parity cfg = (if cfg_fec_data cfg = 0 then 0 else 1)"

definition config_ok :: "config \<Rightarrow> bool" where
  "config_ok cfg \<longleftrightarrow> opts_ok cfg \<and> cfg_mode cfg \<in> {''tx'', ''rx'', ''ping''}"

lemma u16_of_int_nonzero: "0 < p \<Longrightarrow> p \<le> 65535 \<Longrightarrow> (of_int p :: u16) \<noteq> 0"
  by (simp add: word_of_int_eq_0_iff zdvd_not_zless)

lemma parse_host_port_ok: "parse_host_port v = Some (h, p) \<Longrightarrow> p \<noteq> 0"
  by (auto simp: parse_host_port_def Let_def u16_of_int_nonzero split: option.splits if_splits)

lemma parse_fec_ok:
  "parse_fec v = Some (d, p) \<Longrightarrow> 0 < d \<and> d \<le> int O4L_FEC_MAX_DATA \<and> p = 1"
  by (auto simp: parse_fec_def Let_def split: option.splits if_splits)

lemma linkd_value_opt_ok:
  assumes "opts_ok cfg" and "linkd_value_opt a v cfg = Some cfg'"
  shows "opts_ok cfg'"
  using assms
  by (auto simp: linkd_value_opt_def opts_ok_def Let_def u16_of_int_nonzero
      split: if_splits option.splits dest!: parse_host_port_ok parse_fec_ok)

lemma opts_ok_flags [simp]:
  "opts_ok (cfg\<lparr>cfg_setup_wifi := b\<rparr>) = opts_ok cfg"
  "opts_ok (cfg\<lparr>cfg_verbose := b\<rparr>) = opts_ok cfg"
  by (simp_all add: opts_ok_def)

lemma linkd_parse_loop_ok:
  "opts_ok cfg \<Longrightarrow> linkd_parse_loop cfg argv = Args_Ok cfg' \<Longrightarrow> opts_ok cfg'"
proof (induction cfg argv rule: linkd_parse_loop.induct)
  case (1 cfg)
  then show ?case by simp
next
  case (2 cfg a rest)
  consider "a = ''--help'' \<or> a = ''-h''" | "a = ''--setup''" | "a = ''--verbose''"
    | "\<not> (a = ''--help'' \<or> a = ''-h'')" "a \<noteq> ''--setup''" "a \<noteq> ''--verbose''" by blast
  then show ?case
  proof cases
    case 1
    with "2.prems" show ?thesis by simp
  next
    case 2
    then have "\<not> (a = ''--help'' \<or> a = ''-h'')" by simp
    with "2.IH"(1) "2.prems" 2 show ?thesis by simp
  next
    case 3
    then have "\<not> (a = ''--help'' \<or> a = ''-h'')" "a \<noteq> ''--setup''" by simp_all
    with "2.IH"(2) "2.prems" 3 show ?thesis by simp
  next
    case 4
    with "2.prems"(2) obtain v rest' cfg1 where "rest = v # rest'"
      and "linkd_value_opt a v cfg = Some cfg1" and "linkd_parse_loop cfg1 rest' = Args_Ok cfg'"
      by (simp only: linkd_parse_loop.simps if_False split: list.split_asm option.split_asm) blast+
    with "2.IH"(3) 4 linkd_value_opt_ok [OF "2.prems"(1)] show ?thesis by blast
  qed
qed

lemma linkd_defaults_ok: "opts_ok linkd_defaults"
  by (simp add: opts_ok_def linkd_defaults_def O4L_FEC_MAX_DATA_def)

lemma linkd_parse_args_config:
  assumes "linkd_parse_args argv = Args_Ok cfg"
  shows "config_ok cfg"
proof -
  from assms have "linkd_parse_loop linkd_defaults argv = Args_Ok cfg"
    and "cfg_mode cfg \<in> {''tx'', ''rx'', ''ping''}"
    by (auto simp: linkd_parse_args_def split: args_result.splits if_splits)
  then show ?thesis
    using linkd_parse_loop_ok [OF linkd_defaults_ok] by (auto simp: config_ok_def)
qed

lemma parse_host_port_print:
  assumes "0 < n" and "n \<le> 65535"
  shows "parse_host_port (host @ CHR '':'' # dec_digits n) = Some (host, of_nat n)"
proof -
  have "CHR '':'' \<notin> set (dec_digits n)" by (rule dec_digits_no) simp
  then have "split_last CHR '':'' (host @ CHR '':'' # dec_digits n) = Some (host, dec_digits n)"
    by (rule split_last_append)
  with assms show ?thesis
    by (simp add: parse_host_port_def strtol10_dec LONG_MAX_def)
qed

end
