(* ===== verification/Link_Io.thy ===== *)
theory Link_Io
  imports Link_Rtap Link_Config
begin

text \<open>
  What \<^verbatim>\<open>omega4-linkd\<close> does to the outside: \<open>tx_payload_flags\<close> and \<open>tx_payload\<close>
  on the raw socket, \<open>udp_emit\<close> on the UDP socket. The environment answers each call: whether
  the \<open>n\<close>-th \<open>send\<close> and the \<open>n\<close>-th \<open>sendto\<close> succeed, and what the monotonic
  clock reads when the \<open>n\<close>-th frame is built. The I/O state counts the calls and keeps what
  was handed over to the kernel.
\<close>

record link_env =
  raw_ok :: "nat \<Rightarrow> bool"
  udp_ok :: "nat \<Rightarrow> bool"
  build_us :: "nat \<Rightarrow> u64"

record link_io =
  raw_tries :: nat
  raw_sent :: "bytes list"
  udp_tries :: nat
  udp_sent :: "bytes list"

definition io_start :: link_io where
  "io_start = \<lparr>raw_tries = 0, raw_sent = [], udp_tries = 0, udp_sent = []\<rparr>"

definition all_ok :: "link_env \<Rightarrow> bool" where
  "all_ok env \<longleftrightarrow> raw_ok env = (\<lambda>_. True) \<and> udp_ok env = (\<lambda>_. True)"

definition raw_send :: "link_env \<Rightarrow> bytes \<Rightarrow> link_io \<Rightarrow> bool \<times> link_io" where
  "raw_send env frame io =
     (let n = raw_tries io; ok = raw_ok env n in
      (ok, io\<lparr>raw_tries := Suc n, raw_sent := raw_sent io @ (if ok then [frame] else [])\<rparr>))"

definition udp_emit :: "link_env \<Rightarrow> bytes \<Rightarrow> link_io \<Rightarrow> bool \<times> link_io" where
  "udp_emit env payload io =
     (let n = udp_tries io; ok = udp_ok env n in
      (ok, io\<lparr>udp_tries := Suc n, udp_sent := udp_sent io @ (if ok then [payload] else [])\<rparr>))"

text \<open>The sender's state: its counters, the next sequence number, and the socket.\<close>

record tx_state =
  tx_st :: stats
  tx_seq :: u32
  tx_io :: link_io

definition tx_payload_flags ::
  "link_env \<Rightarrow> config \<Rightarrow> u16 \<Rightarrow> bytes \<Rightarrow> tx_state \<Rightarrow> bool \<times> tx_state" where
  "tx_payload_flags env cfg flags payload s =
     (let payload = take O4L_MAX_PAYLOAD payload;
          frame = build_frame (cfg_stream_id cfg) flags (tx_seq s)
                    (build_us env (raw_tries (tx_io s))) payload;
          s = s\<lparr>tx_seq := tx_seq s + 1\<rparr>;
          (ok, io) = raw_send env frame (tx_io s);
          s = s\<lparr>tx_io := io\<rparr>
      in if \<not> ok then (False, s)
         else (True, s\<lparr>tx_st := (tx_st s)\<lparr>tx_packets := tx_packets (tx_st s) + 1,
                                         tx_bytes := tx_bytes (tx_st s) + of_nat (length payload)\<rparr>\<rparr>))"

definition tx_payload :: "link_env \<Rightarrow> config \<Rightarrow> bytes \<Rightarrow> tx_state \<Rightarrow> bool \<times> tx_state" where
  "tx_payload env cfg payload s = tx_payload_flags env cfg 0 payload s"

lemma udp_emit_ok: "udp_ok env = (\<lambda>_. True) \<Longrightarrow>
   udp_emit env p io = (True, io\<lparr>udp_tries := Suc (udp_tries io), udp_sent := udp_sent io @ [p]\<rparr>)"
  by (simp add: udp_emit_def Let_def)

text \<open>A sequence number is spent on every frame, sent or not; only sent frames are counted.\<close>

lemma tx_payload_flags_seq: "tx_seq (snd (tx_payload_flags env cfg fl p s)) = tx_seq s + 1"
  by (simp add: tx_payload_flags_def Let_def raw_send_def)

lemma tx_payload_flags_tries:
  "raw_tries (tx_io (snd (tx_payload_flags env cfg fl p s))) = Suc (raw_tries (tx_io s))"
  by (simp add: tx_payload_flags_def Let_def raw_send_def)

lemma tx_payload_flags_ok: "fst (tx_payload_flags env cfg fl p s) = raw_ok env (raw_tries (tx_io s))"
  by (simp add: tx_payload_flags_def Let_def raw_send_def)

lemma tx_payload_flags_frame:
  "raw_sent (tx_io (snd (tx_payload_flags env cfg fl p s))) = raw_sent (tx_io s) @
     (if raw_ok env (raw_tries (tx_io s))
      then [build_frame (cfg_stream_id cfg) fl (tx_seq s) (build_us env (raw_tries (tx_io s)))
              (take 1400 p)]
      else [])"
  by (simp add: tx_payload_flags_def Let_def raw_send_def O4L_MAX_PAYLOAD_def)

text \<open>Every frame handed to the socket fits the frame buffer of \<open>O4L_MAX_FRAME\<close> bytes.\<close>

definition frames_fit :: "tx_state \<Rightarrow> bool" where
  "frames_fit s \<longleftrightarrow> (\<forall>f \<in> set (raw_sent (tx_io s)). length f \<le> O4L_MAX_FRAME)"

lemma frames_fit_step: "frames_fit s \<Longrightarrow> frames_fit (snd (tx_payload_flags env cfg fl p s))"
  by (auto simp: frames_fit_def tx_payload_flags_frame O4L_MAX_FRAME_def)

text \<open>The count of sent packets is the number of frames handed over.\<close>

definition tx_counted :: "tx_state \<Rightarrow> bool" where
  "tx_counted s \<longleftrightarrow> tx_packets (tx_st s) = of_nat (length (raw_sent (tx_io s)))"

lemma tx_counted_step: "tx_counted s \<Longrightarrow> tx_counted (snd (tx_payload_flags env cfg fl p s))"
  by (simp add: tx_counted_def tx_payload_flags_def Let_def raw_send_def)

end
