(* ===== verification/Link_Fec.thy ===== *)
theory Link_Fec
  imports Link_Io
begin

text \<open>
  The forward error correction of \<^verbatim>\<open>omega4-linkd\<close>: one XOR parity shard per block of
  \<open>fec_data\<close> data shards. \<open>tx_fec_data\<close> wraps, sends and accumulates the parity;
  \<open>fec_rx_block_get\<close> finds or evicts a block, \<open>fec_try_recover\<close> rebuilds a lost shard
  and \<open>rx_fec_payload\<close> is the receiver. Arrays are lists of their C length; accesses are
  checked, so that a result \<open>None\<close> is an access out of bounds.
\<close>

section \<open>State\<close>

definition FEC_HDR_SZ :: nat where "FEC_HDR_SZ = 12"
definition O4L_FLAG_FEC_DATA :: u16 where "O4L_FLAG_FEC_DATA = 1"
definition O4L_FLAG_FEC_PARITY :: u16 where "O4L_FLAG_FEC_PARITY = 2"

lemmas fec_consts = FEC_HDR_SZ_def O4L_FLAG_FEC_DATA_def O4L_FLAG_FEC_PARITY_def
  O4L_FEC_MAX_DATA_def O4L_MAX_PAYLOAD_def

record o4l_fec_hdr =
  fh_block_id :: u32
  fh_orig_len :: u16
  fh_len_xor :: u16
  fh_data_shards :: u8
  fh_parity_shards :: u8
  fh_shard_index :: u8
  fh_reserved :: u8

definition put_fec :: "o4l_fec_hdr \<Rightarrow> bytes" where
  "put_fec h = be32 (fh_block_id h) @ be16 (fh_orig_len h) @ be16 (fh_len_xor h) @
     [fh_data_shards h, fh_parity_shards h, fh_shard_index h, fh_reserved h]"

definition get_fec :: "bytes \<Rightarrow> o4l_fec_hdr" where
  "get_fec bs =
     \<lparr>fh_block_id = get_be32 bs, fh_orig_len = get_be16 (drop 4 bs),
      fh_len_xor = get_be16 (drop 6 bs), fh_data_shards = bs ! 8, fh_parity_shards = bs ! 9,
      fh_shard_index = bs ! 10, fh_reserved = bs ! 11\<rparr>"

interpretation fec: fixed_codec put_fec get_fec FEC_HDR_SZ
  by unfold_locales (simp_all add: put_fec_def get_fec_def FEC_HDR_SZ_def nth_append)

lemma fec_get_put [simp]: "get_fec (put_fec h) = h"
  using fec.get_put [of h "[]"] by simp

lemma length_put_fec [simp]: "length (put_fec h) = 12"
  using fec.length_put [of h] by (simp add: FEC_HDR_SZ_def)

record fec_tx_state =
  ftx_block_id :: u32
  ftx_shards :: nat
  ftx_len_xor :: u16
  ftx_parity_len :: nat
  ftx_parity :: bytes

definition fec_tx_zero :: fec_tx_state where
  "fec_tx_zero = \<lparr>ftx_block_id = 0, ftx_shards = 0, ftx_len_xor = 0, ftx_parity_len = 0,
     ftx_parity = replicate O4L_MAX_PAYLOAD 0\<rparr>"

record fec_rx_block =
  blk_used :: bool
  blk_got_parity :: bool
  blk_recovered :: bool
  blk_block_id :: u32
  blk_data_shards :: u8
  blk_len_xor :: u16
  blk_parity_len :: nat
  blk_parity :: bytes
  blk_got_data :: "bool list"
  blk_data_len :: "u16 list"
  blk_data :: "bytes list"

definition fec_block_zero :: fec_rx_block where
  "fec_block_zero =
     \<lparr>blk_used = False, blk_got_parity = False, blk_recovered = False, blk_block_id = 0,
      blk_data_shards = 0, blk_len_xor = 0, blk_parity_len = 0,
      blk_parity = replicate O4L_MAX_PAYLOAD 0,
      blk_got_data = replicate O4L_FEC_MAX_DATA False,
      blk_data_len = replicate O4L_FEC_MAX_DATA 0,
      blk_data = replicate O4L_FEC_MAX_DATA (replicate O4L_MAX_PAYLOAD 0)\<rparr>"

definition fec_rx_zero :: "fec_rx_block list" where
  "fec_rx_zero = replicate O4L_FEC_MAX_DATA fec_block_zero"

section \<open>Sender\<close>

text \<open>\<^verbatim>\<open>for (i = 0; i < len; i++) acc[i] ^= src[i]\<close> on an array at least as long as the source.\<close>

fun xor_into :: "bytes \<Rightarrow> bytes \<Rightarrow> bytes" where
  "xor_into (a # as) (x # xs) = (a XOR x) # xor_into as xs"
| "xor_into as [] = as"
| "xor_into [] (x # xs) = []"

definition data_fh :: "u32 \<Rightarrow> int \<Rightarrow> nat \<Rightarrow> bytes \<Rightarrow> o4l_fec_hdr" where
  "data_fh bid k i payload =
     \<lparr>fh_block_id = bid, fh_orig_len = of_nat (length payload), fh_len_xor = 0,
      fh_data_shards = of_int k, fh_parity_shards = 1, fh_shard_index = of_nat i,
      fh_reserved = 0\<rparr>"

definition parity_fh :: "u32 \<Rightarrow> int \<Rightarrow> u16 \<Rightarrow> o4l_fec_hdr" where
  "parity_fh bid k lx =
     \<lparr>fh_block_id = bid, fh_orig_len = 0, fh_len_xor = lx, fh_data_shards = of_int k,
      fh_parity_shards = 1, fh_shard_index = of_int k, fh_reserved = 0\<rparr>"

definition fec_tx_open :: "fec_tx_state \<Rightarrow> fec_tx_state" where
  "fec_tx_open fec =
     (if ftx_shards fec = 0
      then fec\<lparr>ftx_block_id := ftx_block_id fec + 1, ftx_len_xor := 0, ftx_parity_len := 0,
               ftx_parity := replicate O4L_MAX_PAYLOAD 0\<rparr>
      else fec)"

definition fec_tx_add :: "fec_tx_state \<Rightarrow> bytes \<Rightarrow> fec_tx_state" where
  "fec_tx_add fec payload =
     (let fec = fec\<lparr>ftx_parity := xor_into (ftx_parity fec) payload\<rparr>;
          fec = (if length payload > ftx_parity_len fec
                 then fec\<lparr>ftx_parity_len := length payload\<rparr> else fec);
          fec = fec\<lparr>ftx_len_xor := ftx_len_xor fec XOR of_nat (length payload)\<rparr>
      in fec\<lparr>ftx_shards := Suc (ftx_shards fec)\<rparr>)"

definition fec_tx_close :: "fec_tx_state \<Rightarrow> fec_tx_state" where
  "fec_tx_close fec =
     fec\<lparr>ftx_shards := 0, ftx_len_xor := 0, ftx_parity_len := 0,
         ftx_parity := replicate O4L_MAX_PAYLOAD 0\<rparr>"

definition tx_fec_data ::
  "link_env \<Rightarrow> config \<Rightarrow> bytes \<Rightarrow> tx_state \<times> fec_tx_state \<Rightarrow> bool \<times> tx_state \<times> fec_tx_state" where
  "tx_fec_data env cfg payload sf =
     (case sf of (s, fec) \<Rightarrow>
       (let max_data = O4L_MAX_PAYLOAD - FEC_HDR_SZ;
            payload = take max_data payload;
            fec = fec_tx_open fec;
            wrapped = put_fec (data_fh (ftx_block_id fec) (cfg_fec_data cfg) (ftx_shards fec) payload)
                      @ payload;
            fec = fec_tx_add fec payload;
            (ok, s) = tx_payload_flags env cfg O4L_FLAG_FEC_DATA wrapped s
        in if \<not> ok then (False, s, fec)
           else if int (ftx_shards fec) = cfg_fec_data cfg then
             (let wrapped = put_fec (parity_fh (ftx_block_id fec) (cfg_fec_data cfg) (ftx_len_xor fec))
                            @ take (ftx_parity_len fec) (ftx_parity fec);
                  (ok, s) = tx_payload_flags env cfg O4L_FLAG_FEC_PARITY wrapped s
              in if \<not> ok then (False, s, fec) else (True, s, fec_tx_close fec))
           else (True, s, fec)))"

section \<open>Receiver\<close>

text \<open>The search loop: the block with this id (\<open>Inl\<close>), or the slot to reuse (\<open>Inr\<close>).\<close>

function fec_slot :: "fec_rx_block list \<Rightarrow> u32 \<Rightarrow> nat \<Rightarrow> nat \<Rightarrow> nat + nat" where
  "fec_slot blocks bid i slot =
     (if i < O4L_FEC_MAX_DATA then
        (if blk_used (blocks ! i) \<and> blk_block_id (blocks ! i) = bid then Inl i
         else if \<not> blk_used (blocks ! i) then Inr i
         else fec_slot blocks bid (Suc i)
                (if sint (blk_block_id (blocks ! i) - blk_block_id (blocks ! slot)) < 0
                 then i else slot))
      else Inr slot)"
  by pat_completeness auto
termination
  by (relation "measure (\<lambda>(_, _, i, _). O4L_FEC_MAX_DATA - i)") auto

declare fec_slot.simps [simp del]

definition fec_fresh :: "u32 \<Rightarrow> u8 \<Rightarrow> fec_rx_block" where
  "fec_fresh bid n = fec_block_zero\<lparr>blk_used := True, blk_block_id := bid, blk_data_shards := n\<rparr>"

definition fec_rx_block_get :: "fec_rx_block list \<Rightarrow> u32 \<Rightarrow> u8 \<Rightarrow> nat \<times> fec_rx_block list" where
  "fec_rx_block_get blocks bid n =
     (case fec_slot blocks bid 0 0 of
        Inl i \<Rightarrow> (i, blocks)
      | Inr slot \<Rightarrow> (slot, blocks[slot := fec_fresh bid n]))"

fun recover_fold :: "fec_rx_block \<Rightarrow> nat \<Rightarrow> nat \<Rightarrow> nat list \<Rightarrow> bytes \<times> u16 \<Rightarrow> (bytes \<times> u16) option" where
  "recover_fold blk plen m [] acc = Some acc"
| "recover_fold blk plen m (i # is) acc =
     (if i = m then recover_fold blk plen m is acc
      else do {
        len \<leftarrow> c_get (blk_data_len blk) i;
        row \<leftarrow> c_get (blk_data blk) i;
        bs \<leftarrow> c_read row 0 plen;
        recover_fold blk plen m is (xor_into (fst acc) bs, snd acc XOR len)
      })"

definition fec_try_recover ::
  "link_env \<Rightarrow> fec_rx_block \<Rightarrow> stats \<Rightarrow> link_io \<Rightarrow> (int \<times> fec_rx_block \<times> stats \<times> link_io) option" where
  "fec_try_recover env blk st io =
     (if \<not> blk_got_parity blk \<or> blk_recovered blk then Some (0, blk, st, io)
      else do {
        let n = unat (blk_data_shards blk);
        got \<leftarrow> c_read (blk_got_data blk) 0 n;
        let missing = filter (\<lambda>i. \<not> got ! i) [0..<n];
        if missing = [] then Some (0, blk\<lparr>blk_recovered := True\<rparr>, st, io)
        else if length missing \<noteq> 1 then Some (0, blk, st\<lparr>fec_unusable := fec_unusable st + 1\<rparr>, io)
        else if blk_parity_len blk > O4L_MAX_PAYLOAD then Some (- 1, blk, st, io)
        else do {
          par \<leftarrow> c_read (blk_parity blk) 0 (blk_parity_len blk);
          rec \<leftarrow> recover_fold blk (blk_parity_len blk) (last missing) [0..<n] (par, blk_len_xor blk);
          if unat (snd rec) > blk_parity_len blk
          then Some (0, blk, st\<lparr>fec_unusable := fec_unusable st + 1\<rparr>, io)
          else (case udp_emit env (take (unat (snd rec)) (fst rec)) io of
                  (False, io) \<Rightarrow> Some (- 1, blk, st, io)
                | (True, io) \<Rightarrow>
                    Some (0, blk\<lparr>blk_recovered := True\<rparr>,
                      st\<lparr>rx_packets := rx_packets st + 1,
                         rx_bytes := rx_bytes st + ucast (snd rec),
                         fec_recovered := fec_recovered st + 1\<rparr>, io))
        }
      })"

record rx_state =
  rx_fec :: "fec_rx_block list"
  rx_st :: stats
  rx_io :: link_io

definition count_bad :: "rx_state \<Rightarrow> rx_state" where
  "count_bad s = s\<lparr>rx_st := (rx_st s)\<lparr>rx_bad := rx_bad (rx_st s) + 1\<rparr>\<rparr>"

text \<open>The \<^verbatim>\<open>O4L_FLAG_FEC_DATA\<close> branch: store the shard once, pass it on, try to recover.\<close>

definition fec_store :: "fec_rx_block \<Rightarrow> nat \<Rightarrow> u16 \<Rightarrow> bytes \<Rightarrow> fec_rx_block option" where
  "fec_store blk idx orig_len body =
     do {
       got \<leftarrow> c_get (blk_got_data blk) idx;
       if got then Some blk
       else do {
         gots \<leftarrow> c_set (blk_got_data blk) idx True;
         lens \<leftarrow> c_set (blk_data_len blk) idx orig_len;
         row \<leftarrow> c_get (blk_data blk) idx;
         row' \<leftarrow> c_write row 0 body;
         rows \<leftarrow> c_set (blk_data blk) idx row';
         Some (blk\<lparr>blk_got_data := gots, blk_data_len := lens, blk_data := rows\<rparr>)
       }
     }"

definition udp_count :: "link_env \<Rightarrow> bytes \<Rightarrow> stats \<Rightarrow> link_io \<Rightarrow> stats \<times> link_io" where
  "udp_count env payload st io =
     (case udp_emit env payload io of
        (False, io) \<Rightarrow> (st, io)
      | (True, io) \<Rightarrow>
          (st\<lparr>rx_packets := rx_packets st + 1, rx_bytes := rx_bytes st + of_nat (length payload)\<rparr>, io))"

definition fec_finish :: "nat \<Rightarrow> rx_state \<Rightarrow> int \<times> fec_rx_block \<times> stats \<times> link_io \<Rightarrow> int \<times> rx_state" where
  "fec_finish slot s r =
     (case r of (ret, blk, st, io) \<Rightarrow>
        (ret, \<lparr>rx_fec = (rx_fec s)[slot := blk], rx_st = st, rx_io = io\<rparr>))"

definition rx_fec_data ::
  "link_env \<Rightarrow> o4l_fec_hdr \<Rightarrow> bytes \<Rightarrow> nat \<Rightarrow> rx_state \<Rightarrow> (int \<times> rx_state) option" where
  "rx_fec_data env fh body slot s =
     (if fh_shard_index fh \<ge> fh_data_shards fh \<or> unat (fh_orig_len fh) > length body
      then Some (0, count_bad s)
      else do {
        blk \<leftarrow> c_get (rx_fec s) slot;
        blk \<leftarrow> fec_store blk (unat (fh_shard_index fh)) (fh_orig_len fh) body;
        let (st, io) = udp_count env (take (unat (fh_orig_len fh)) body) (rx_st s) (rx_io s);
        r \<leftarrow> fec_try_recover env blk st io;
        Some (fec_finish slot s r)
      })"

definition rx_fec_parity ::
  "link_env \<Rightarrow> o4l_fec_hdr \<Rightarrow> bytes \<Rightarrow> nat \<Rightarrow> rx_state \<Rightarrow> (int \<times> rx_state) option" where
  "rx_fec_parity env fh body slot s =
     (if fh_shard_index fh \<noteq> fh_data_shards fh \<or> length body > O4L_MAX_PAYLOAD
      then Some (0, count_bad s)
      else do {
        blk \<leftarrow> c_get (rx_fec s) slot;
        par \<leftarrow> c_write (blk_parity blk) 0 body;
        let blk = blk\<lparr>blk_got_parity := True, blk_len_xor := fh_len_xor fh,
                      blk_parity_len := length body, blk_parity := par\<rparr>;
        r \<leftarrow> fec_try_recover env blk (rx_st s) (rx_io s);
        Some (fec_finish slot s r)
      })"

definition rx_fec_payload ::
  "link_env \<Rightarrow> config \<Rightarrow> u16 \<Rightarrow> bytes \<Rightarrow> rx_state \<Rightarrow> (int \<times> rx_state) option" where
  "rx_fec_payload env cfg flags payload s =
     (if length payload < FEC_HDR_SZ then Some (0, count_bad s)
      else do {
        hb \<leftarrow> c_read payload 0 FEC_HDR_SZ;
        let fh = get_fec hb;
        let n = unat (fh_data_shards fh);
        body \<leftarrow> c_read payload FEC_HDR_SZ (length payload - FEC_HDR_SZ);
        if n = 0 \<or> n > O4L_FEC_MAX_DATA \<or> fh_parity_shards fh \<noteq> 1 then Some (0, count_bad s)
        else if cfg_fec_data cfg > 0 \<and> int n \<noteq> cfg_fec_data cfg then Some (0, count_bad s)
        else do {
          let (slot, blocks) = fec_rx_block_get (rx_fec s) (fh_block_id fh) (fh_data_shards fh);
          let s = s\<lparr>rx_fec := blocks\<rparr>;
          if flags AND O4L_FLAG_FEC_DATA \<noteq> 0 then rx_fec_data env fh body slot s
          else if flags AND O4L_FLAG_FEC_PARITY \<noteq> 0 then rx_fec_parity env fh body slot s
          else Some (0, count_bad s)
        }
      })"

text \<open>The receiver on a datagram whose header is well formed, in one equation.\<close>

lemma rx_fec_payload_accept:
  assumes "unat (fh_data_shards fh) = n" and "fh_parity_shards fh = 1" and "n \<noteq> 0"
    and "n \<le> O4L_FEC_MAX_DATA" and "cfg_fec_data cfg > 0 \<longrightarrow> int n = cfg_fec_data cfg"
    and "fec_rx_block_get (rx_fec s) (fh_block_id fh) (fh_data_shards fh) = (slot, blocks)"
  shows "rx_fec_payload env cfg flags (put_fec fh @ body) s =
     (if flags AND O4L_FLAG_FEC_DATA \<noteq> 0 then rx_fec_data env fh body slot (s\<lparr>rx_fec := blocks\<rparr>)
      else if flags AND O4L_FLAG_FEC_PARITY \<noteq> 0
      then rx_fec_parity env fh body slot (s\<lparr>rx_fec := blocks\<rparr>)
      else Some (0, count_bad (s\<lparr>rx_fec := blocks\<rparr>)))"
proof -
  have "c_read (put_fec fh @ body) 0 12 = Some (put_fec fh)"
    and "c_read (put_fec fh @ body) 12 (length body) = Some body"
    by (simp_all add: c_read_def)
  with assms show ?thesis by (auto simp: rx_fec_payload_def FEC_HDR_SZ_def)
qed

end
