(* ===== verification/Link_Fec_Safe.thy ===== *)
theory Link_Fec_Safe
  imports Link_Fec
begin

text \<open>
  Memory safety of the FEC receiver: the shape invariant \<open>block_wf\<close> of the sixteen blocks,
  and that \<open>fec_rx_block_get\<close>, \<open>fec_try_recover\<close> and \<open>rx_fec_payload\<close> keep it and
  stay inside the arrays for every datagram the frame parser can hand over.
\<close>

definition block_wf :: "fec_rx_block \<Rightarrow> bool" where
  "block_wf b \<longleftrightarrow>
     length (blk_parity b) = O4L_MAX_PAYLOAD \<and> blk_parity_len b \<le> O4L_MAX_PAYLOAD \<and>
     length (blk_got_data b) = O4L_FEC_MAX_DATA \<and> length (blk_data_len b) = O4L_FEC_MAX_DATA \<and>
     length (blk_data b) = O4L_FEC_MAX_DATA \<and>
     (\<forall>row \<in> set (blk_data b). length row = O4L_MAX_PAYLOAD) \<and>
     unat (blk_data_shards b) \<le> O4L_FEC_MAX_DATA"

definition blocks_wf :: "fec_rx_block list \<Rightarrow> bool" where
  "blocks_wf bs \<longleftrightarrow> length bs = O4L_FEC_MAX_DATA \<and> (\<forall>b \<in> set bs. block_wf b)"

lemma block_wf_fresh: "unat n \<le> O4L_FEC_MAX_DATA \<Longrightarrow> block_wf (fec_fresh bid n)"
  by (simp add: block_wf_def fec_fresh_def fec_block_zero_def)

lemma blocks_wf_zero: "blocks_wf fec_rx_zero"
  by (simp add: blocks_wf_def fec_rx_zero_def block_wf_def fec_block_zero_def)

lemma blocks_wf_nth: "blocks_wf bs \<Longrightarrow> i < O4L_FEC_MAX_DATA \<Longrightarrow> block_wf (bs ! i)"
  by (simp add: blocks_wf_def)

lemma blocks_wf_update: "blocks_wf bs \<Longrightarrow> block_wf b \<Longrightarrow> blocks_wf (bs[i := b])"
  using set_update_subset_insert [of bs i b] by (auto simp: blocks_wf_def)

lemma fec_slot_bound:
  "slot < O4L_FEC_MAX_DATA \<Longrightarrow>
   (case fec_slot bs bid i slot of Inl j \<Rightarrow> j < O4L_FEC_MAX_DATA | Inr j \<Rightarrow> j < O4L_FEC_MAX_DATA)"
proof (induction bs bid i slot rule: fec_slot.induct)
  case (1 bs bid i slot)
  then show ?case
    by (subst fec_slot.simps) (simp split: sum.split)
qed

lemma fec_rx_block_get_wf:
  assumes "blocks_wf bs" and "unat n \<le> O4L_FEC_MAX_DATA"
  shows "fst (fec_rx_block_get bs bid n) < O4L_FEC_MAX_DATA \<and>
    blocks_wf (snd (fec_rx_block_get bs bid n))"
proof -
  have "(0 :: nat) < O4L_FEC_MAX_DATA" by (simp add: O4L_FEC_MAX_DATA_def)
  from fec_slot_bound [OF this, of bs bid 0] assms show ?thesis
    by (auto simp: fec_rx_block_get_def blocks_wf_update block_wf_fresh split: sum.splits)
qed

lemma fec_store_wf:
  assumes wf: "block_wf b" and "idx < O4L_FEC_MAX_DATA" and "length body \<le> O4L_MAX_PAYLOAD"
  shows "\<exists>b'. fec_store b idx l body = Some b' \<and> block_wf b'"
proof (cases "blk_got_data b ! idx")
  case True
  with assms show ?thesis by (simp add: fec_store_def c_get_def block_wf_def)
next
  case False
  have row: "length (blk_data b ! idx) = O4L_MAX_PAYLOAD" using wf assms(2) by (simp add: block_wf_def)
  define x where "x = body @ drop (length body) (blk_data b ! idx)"
  have "length x = O4L_MAX_PAYLOAD" using row assms(3) by (simp add: x_def)
  then have rows: "\<forall>r \<in> set ((blk_data b)[idx := x]). length r = O4L_MAX_PAYLOAD"
    using set_update_subset_insert [of "blk_data b" idx x] wf by (auto simp: block_wf_def)
  define b' where "b' = b\<lparr>blk_got_data := (blk_got_data b)[idx := True],
    blk_data_len := (blk_data_len b)[idx := l], blk_data := (blk_data b)[idx := x]\<rparr>"
  have lens: "length (blk_got_data b) = O4L_FEC_MAX_DATA" "length (blk_data_len b) = O4L_FEC_MAX_DATA"
    "length (blk_data b) = O4L_FEC_MAX_DATA" using wf by (simp_all add: block_wf_def)
  have "fec_store b idx l body = Some b'"
    using False assms(2,3) row lens
    by (simp add: fec_store_def c_get_def c_set_def c_write_def b'_def x_def)
  moreover have "block_wf b'" using wf rows by (simp add: block_wf_def b'_def)
  ultimately show ?thesis by blast
qed

lemma recover_fold_defined:
  assumes "block_wf b" and "plen \<le> O4L_MAX_PAYLOAD" and "\<forall>i \<in> set is. i < O4L_FEC_MAX_DATA"
  shows "\<exists>r. recover_fold b plen m is acc = Some r"
  using assms(3)
proof (induction "is" arbitrary: acc)
  case Nil
  then show ?case by simp
next
  case (Cons i "is")
  have "length (blk_data b ! i) = O4L_MAX_PAYLOAD"
    using assms(1) Cons.prems by (simp add: block_wf_def)
  with assms(1,2) Cons show ?case by (simp add: c_get_def c_read_def block_wf_def)
qed

lemma fec_try_recover_wf:
  assumes wf: "block_wf b"
  shows "\<exists>ret b' st' io'. fec_try_recover env b st io = Some (ret, b', st', io') \<and> block_wf b'"
proof (cases "\<not> blk_got_parity b \<or> blk_recovered b")
  case True
  with wf show ?thesis by (auto simp: fec_try_recover_def)
next
  case False
  define n where "n = unat (blk_data_shards b)"
  define got where "got = take n (blk_got_data b)"
  define ms where "ms = filter (\<lambda>i. \<not> got ! i) [0..<n]"
  have n: "n \<le> O4L_FEC_MAX_DATA" using wf by (simp add: n_def block_wf_def)
  have read: "c_read (blk_got_data b) 0 n = Some got"
    using wf n by (simp add: c_read_def got_def block_wf_def)
  have par: "c_read (blk_parity b) 0 (blk_parity_len b) = Some (take (blk_parity_len b) (blk_parity b))"
    using wf by (simp add: c_read_def block_wf_def)
  obtain rec where rec: "recover_fold b (blk_parity_len b) (last ms) [0..<n]
      (take (blk_parity_len b) (blk_parity b), blk_len_xor b) = Some rec"
    using recover_fold_defined [OF wf, of "blk_parity_len b" "[0..<n]"] wf n
    by (force simp: block_wf_def)
  have upd: "block_wf (b\<lparr>blk_recovered := True\<rparr>)" using wf by (simp add: block_wf_def)
  show ?thesis
    using False read par rec wf upd
    by (auto simp: fec_try_recover_def Let_def n_def [symmetric] ms_def [symmetric]
        split: if_splits prod.splits bool.splits)
qed

text \<open>The receiver is defined on every payload of a parsed frame, and keeps the shape.\<close>

definition rx_result_wf :: "(int \<times> rx_state) option \<Rightarrow> bool" where
  "rx_result_wf r \<longleftrightarrow> (\<exists>ret s'. r = Some (ret, s') \<and> blocks_wf (rx_fec s'))"

lemma rx_result_wf_bad: "blocks_wf (rx_fec s) \<Longrightarrow> rx_result_wf (Some (0, count_bad s))"
  by (simp add: rx_result_wf_def count_bad_def)

lemma rx_result_wf_recover:
  assumes "blocks_wf (rx_fec s)" and "block_wf b"
  shows "rx_result_wf (do {r \<leftarrow> fec_try_recover env b st io; Some (fec_finish slot s r)})"
  using fec_try_recover_wf [OF assms(2), of env st io] blocks_wf_update [OF assms(1)]
  by (auto simp: rx_result_wf_def fec_finish_def)

lemma rx_fec_data_safe:
  assumes wf: "blocks_wf (rx_fec s)" and slot: "slot < O4L_FEC_MAX_DATA"
    and body: "length body \<le> O4L_MAX_PAYLOAD" and n: "unat (fh_data_shards fh) \<le> O4L_FEC_MAX_DATA"
  shows "rx_result_wf (rx_fec_data env fh body slot s)"
proof (cases "fh_shard_index fh \<ge> fh_data_shards fh \<or> unat (fh_orig_len fh) > length body")
  case True
  with rx_result_wf_bad [OF wf] show ?thesis by (simp add: rx_fec_data_def)
next
  case False
  then have "unat (fh_shard_index fh) < O4L_FEC_MAX_DATA"
    using n by (simp add: not_le word_less_nat_alt)
  from fec_store_wf [OF blocks_wf_nth [OF wf slot] this body] obtain b'
    where "fec_store (rx_fec s ! slot) (unat (fh_shard_index fh)) (fh_orig_len fh) body = Some b'"
      and "block_wf b'" by blast
  with rx_result_wf_recover [OF wf, of b'] False wf slot show ?thesis
    by (auto simp: rx_fec_data_def c_get_def blocks_wf_def split: prod.split)
qed

lemma rx_fec_parity_safe:
  assumes wf: "blocks_wf (rx_fec s)" and slot: "slot < O4L_FEC_MAX_DATA"
  shows "rx_result_wf (rx_fec_parity env fh body slot s)"
proof (cases "fh_shard_index fh \<noteq> fh_data_shards fh \<or> length body > O4L_MAX_PAYLOAD")
  case True
  with rx_result_wf_bad [OF wf] show ?thesis by (auto simp: rx_fec_parity_def)
next
  case False
  let ?b = "rx_fec s ! slot"
  have b: "block_wf ?b" using wf slot by (rule blocks_wf_nth)
  then have "block_wf (?b\<lparr>blk_got_parity := True, blk_len_xor := fh_len_xor fh,
      blk_parity_len := length body, blk_parity := p\<rparr>)" if "length p = O4L_MAX_PAYLOAD" for p
    using False that by (simp add: block_wf_def)
  with rx_result_wf_recover [OF wf] False b wf slot show ?thesis
    by (simp add: rx_fec_parity_def c_get_def c_write_def blocks_wf_def block_wf_def)
qed

lemma rx_fec_payload_safe:
  assumes wf: "blocks_wf (rx_fec s)" and len: "length payload \<le> O4L_MAX_PAYLOAD"
  shows "rx_result_wf (rx_fec_payload env cfg flags payload s)"
proof (cases "length payload < FEC_HDR_SZ")
  case True
  with rx_result_wf_bad [OF wf] show ?thesis by (simp add: rx_fec_payload_def)
next
  case short: False
  define fh where "fh = get_fec (take FEC_HDR_SZ payload)"
  define body where "body = drop FEC_HDR_SZ payload"
  obtain slot bs where get: "fec_rx_block_get (rx_fec s) (fh_block_id fh) (fh_data_shards fh) = (slot, bs)"
    by fastforce
  have reads: "c_read payload 0 FEC_HDR_SZ = Some (take FEC_HDR_SZ payload)"
    "c_read payload FEC_HDR_SZ (length payload - FEC_HDR_SZ) = Some body"
    using short by (simp_all add: c_read_def body_def)
  have blen: "length body \<le> O4L_MAX_PAYLOAD" using len by (simp add: body_def)
  show ?thesis
  proof (cases "unat (fh_data_shards fh) \<le> O4L_FEC_MAX_DATA")
    case False
    with short reads rx_result_wf_bad [OF wf] show ?thesis
      by (simp add: rx_fec_payload_def fh_def [symmetric])
  next
    case n: True
    from fec_rx_block_get_wf [OF wf n, of "fh_block_id fh"] get
    have slot: "slot < O4L_FEC_MAX_DATA" and bs: "blocks_wf bs" by simp_all
    let ?s = "s\<lparr>rx_fec := bs\<rparr>"
    have "rx_result_wf (rx_fec_data env fh body slot ?s)"
      and "rx_result_wf (rx_fec_parity env fh body slot ?s)"
      and "rx_result_wf (Some (0, count_bad ?s))"
      using bs slot blen n rx_fec_data_safe rx_fec_parity_safe rx_result_wf_bad by simp_all
    with short reads get rx_result_wf_bad [OF wf] show ?thesis
      by (simp add: rx_fec_payload_def fh_def [symmetric] Let_def)
  qed
qed

end
