(* ===== verification/Link_Fec_Recover.thy ===== *)
theory Link_Fec_Recover
  imports Link_Fec_Safe
begin

text \<open>
  Correctness of the FEC: the algebra of XOR parity, what \<open>tx_fec_data\<close> has accumulated
  after a block, and the refinement of \<open>rx_fec_payload\<close> against an abstract receiver that
  only knows which shards have arrived. A single lost shard of a block is rebuilt byte for byte,
  whatever the order and the duplicates of the other datagrams.
\<close>

section \<open>XOR algebra\<close>

lemma length_xor_into [simp]: "length (xor_into a x) = length a"
  by (induction a x rule: xor_into.induct) auto

lemma nth_xor_into:
  "j < length a \<Longrightarrow> xor_into a x ! j = a ! j XOR (if j < length x then x ! j else 0)"
proof (induction a x arbitrary: j rule: xor_into.induct)
  case (1 a as x xs)
  then show ?case by (cases j) auto
qed auto

lemma xor_into_commute: "xor_into (xor_into a x) y = xor_into (xor_into a y) x"
  by (rule nth_equalityI) (auto simp: nth_xor_into xor.assoc xor.commute xor.left_commute)

lemma xor_into_cancel: "xor_into (xor_into a x) x = a"
  by (rule nth_equalityI) (auto simp: nth_xor_into xor.assoc)

definition pad :: "bytes \<Rightarrow> bytes" where
  "pad p = p @ replicate (O4L_MAX_PAYLOAD - length p) 0"

lemma length_pad: "length p \<le> O4L_MAX_PAYLOAD \<Longrightarrow> length (pad p) = O4L_MAX_PAYLOAD"
  by (simp add: pad_def)

lemma xor_into_zero: "length p \<le> O4L_MAX_PAYLOAD \<Longrightarrow> xor_into (replicate O4L_MAX_PAYLOAD 0) p = pad p"
  by (rule nth_equalityI) (auto simp: nth_xor_into pad_def nth_append)

lemma nth_pad: "i < length (pad p) \<Longrightarrow> pad p ! i = (if i < length p then p ! i else 0)"
  by (auto simp: pad_def nth_append)

lemma length_pad_ge: "length p \<le> length (pad p)"
  by (simp add: pad_def)

text \<open>XORing the first bytes of a padded row is XORing the row and keeping the first bytes.\<close>

lemma xor_into_take_pad:
  "n \<le> length a \<Longrightarrow> xor_into (take n a) (take n (pad p)) = take n (xor_into a p)"
  using length_pad_ge [of p] by (intro nth_equalityI) (auto simp: nth_xor_into nth_pad)

definition xor_all :: "bytes list \<Rightarrow> bytes \<Rightarrow> bytes" where
  "xor_all ps a = fold (\<lambda>p a. xor_into a p) ps a"

lemma xor_all_simps [simp]:
  "xor_all [] a = a" "xor_all (p # ps) a = xor_all ps (xor_into a p)"
  "xor_all (ps @ qs) a = xor_all qs (xor_all ps a)"
  by (simp_all add: xor_all_def)

lemma length_xor_all [simp]: "length (xor_all ps a) = length a"
  by (induction ps arbitrary: a) auto

lemma xor_all_into: "xor_all ps (xor_into a x) = xor_into (xor_all ps a) x"
  by (induction ps arbitrary: a) (auto simp: xor_into_commute)

lemma xor_all_cancel: "xor_all ps (xor_all ps a) = a"
  by (induction ps arbitrary: a) (simp_all add: xor_all_into xor_into_cancel)

lemma xor_all_others: "xor_all (ps @ qs) (xor_all (ps @ p # qs) a) = xor_into a p"
proof -
  have "xor_all (ps @ p # qs) a = xor_into (xor_all (ps @ qs) a) p"
    by (simp add: xor_all_into)
  then show ?thesis by (simp only: xor_all_into xor_all_cancel)
qed

definition lens_xor :: "bytes list \<Rightarrow> u16 \<Rightarrow> u16" where
  "lens_xor ps l = fold (\<lambda>p l. l XOR of_nat (length p)) ps l"

lemma lens_xor_simps [simp]:
  "lens_xor [] l = l" "lens_xor (p # ps) l = lens_xor ps (l XOR of_nat (length p))"
  "lens_xor (ps @ qs) l = lens_xor qs (lens_xor ps l)"
  by (simp_all add: lens_xor_def)

lemma lens_xor_into: "lens_xor ps (l XOR x) = lens_xor ps l XOR x"
proof (induction ps arbitrary: l)
  case Nil
  then show ?case by simp
next
  case (Cons p ps)
  have "(l XOR x) XOR of_nat (length p) = (l XOR of_nat (length p)) XOR x" by (simp add: ac_simps)
  then show ?case by (simp only: lens_xor_simps Cons)
qed

lemma lens_xor_cancel: "lens_xor ps (lens_xor ps l) = l"
  by (induction ps arbitrary: l) (simp_all add: lens_xor_into xor.assoc)

lemma lens_xor_others:
  "lens_xor (ps @ qs) (lens_xor (ps @ p # qs) l) = l XOR of_nat (length p)"
proof -
  have "lens_xor (ps @ p # qs) l = lens_xor (ps @ qs) l XOR of_nat (length p)"
    by (simp add: lens_xor_into)
  then show ?thesis by (simp only: lens_xor_into lens_xor_cancel)
qed

fun maxlen :: "bytes list \<Rightarrow> nat" where
  "maxlen [] = 0"
| "maxlen (p # ps) = max (length p) (maxlen ps)"

lemma maxlen_snoc: "maxlen (ps @ [p]) = max (maxlen ps) (length p)"
  by (induction ps) auto

lemma maxlen_ge: "p \<in> set ps \<Longrightarrow> length p \<le> maxlen ps"
  by (induction ps) auto

lemma maxlen_le: "(\<forall>p \<in> set ps. length p \<le> n) \<Longrightarrow> maxlen ps \<le> n"
  by (induction ps) auto

definition zeros :: bytes where
  "zeros = replicate O4L_MAX_PAYLOAD 0"

lemma length_zeros [simp]: "length zeros = O4L_MAX_PAYLOAD"
  by (simp add: zeros_def)

section \<open>The sender's block\<close>

definition data_gram :: "u32 \<Rightarrow> nat \<Rightarrow> bytes list \<Rightarrow> nat \<Rightarrow> bytes" where
  "data_gram bid k ps i = put_fec (data_fh bid (int k) i (ps ! i)) @ ps ! i"

definition parity_gram :: "u32 \<Rightarrow> nat \<Rightarrow> bytes list \<Rightarrow> bytes" where
  "parity_gram bid k ps =
     put_fec (parity_fh bid (int k) (lens_xor ps 0)) @ take (maxlen ps) (xor_all ps zeros)"

text \<open>After \<open>ps\<close> of a block the accumulator holds the parity of \<open>ps\<close>.\<close>

definition fec_tx_holds :: "u32 \<Rightarrow> bytes list \<Rightarrow> fec_tx_state \<Rightarrow> bool" where
  "fec_tx_holds bid ps fec \<longleftrightarrow>
     ftx_block_id fec = bid \<and> ftx_shards fec = length ps \<and> ftx_len_xor fec = lens_xor ps 0 \<and>
     ftx_parity_len fec = maxlen ps \<and> ftx_parity fec = xor_all ps zeros"

lemma fec_tx_holds_open: "ftx_shards fec = 0 \<Longrightarrow> fec_tx_holds (ftx_block_id fec + 1) [] (fec_tx_open fec)"
  by (simp add: fec_tx_holds_def fec_tx_open_def zeros_def)

lemma fec_tx_holds_add:
  "fec_tx_holds bid ps fec \<Longrightarrow> fec_tx_holds bid (ps @ [p]) (fec_tx_add fec p)"
  by (auto simp: fec_tx_holds_def fec_tx_add_def Let_def maxlen_snoc)

lemma fec_tx_holds_open_id: "fec_tx_holds bid ps fec \<Longrightarrow> ps \<noteq> [] \<Longrightarrow> fec_tx_open fec = fec"
  by (simp add: fec_tx_holds_def fec_tx_open_def)

section \<open>Rebuilding a shard\<close>

definition blk_rel :: "u32 \<Rightarrow> bytes list \<Rightarrow> nat set \<Rightarrow> bool \<Rightarrow> bool \<Rightarrow> fec_rx_block \<Rightarrow> bool" where
  "blk_rel bid ps S par rcv b \<longleftrightarrow>
     block_wf b \<and> blk_used b \<and> blk_block_id b = bid \<and> unat (blk_data_shards b) = length ps \<and>
     blk_got_parity b = par \<and> blk_recovered b = rcv \<and> S \<subseteq> {..<length ps} \<and>
     (\<forall>i < O4L_FEC_MAX_DATA. blk_got_data b ! i = (i \<in> S)) \<and>
     (\<forall>i < O4L_FEC_MAX_DATA. i \<in> S \<longrightarrow>
        blk_data_len b ! i = of_nat (length (ps ! i)) \<and> blk_data b ! i = pad (ps ! i)) \<and>
     (\<forall>i < O4L_FEC_MAX_DATA. i \<notin> S \<longrightarrow> blk_data b ! i = zeros) \<and>
     (par \<longrightarrow> blk_len_xor b = lens_xor ps 0 \<and> blk_parity_len b = maxlen ps \<and>
        take (maxlen ps) (blk_parity b) = take (maxlen ps) (xor_all ps zeros))"

definition block_ok :: "bytes list \<Rightarrow> bool" where
  "block_ok ps \<longleftrightarrow> ps \<noteq> [] \<and> length ps \<le> O4L_FEC_MAX_DATA \<and>
     (\<forall>p \<in> set ps. length p \<le> O4L_MAX_PAYLOAD - FEC_HDR_SZ)"

lemma block_ok_len: "block_ok ps \<Longrightarrow> p \<in> set ps \<Longrightarrow> length p \<le> 1388"
  by (auto simp: block_ok_def fec_consts)

lemma block_ok_maxlen: "block_ok ps \<Longrightarrow> maxlen ps \<le> O4L_MAX_PAYLOAD - FEC_HDR_SZ"
  by (auto simp: block_ok_def intro: maxlen_le)

text \<open>What is missing, as the loop of \<open>fec_try_recover\<close> finds it.\<close>

definition missing :: "nat \<Rightarrow> nat set \<Rightarrow> nat list" where
  "missing k S = filter (\<lambda>i. i \<notin> S) [0..<k]"

lemma set_missing: "set (missing k S) = {..<k} - S"
  by (auto simp: missing_def)

lemma recover_fold_rows:
  assumes rel: "blk_rel bid ps S par rcv b" and ok: "block_ok ps" and n: "n \<le> O4L_MAX_PAYLOAD"
    and sub: "\<forall>i \<in> set is. i < length ps \<and> (i \<noteq> m \<longrightarrow> i \<in> S)"
    and a: "length a = O4L_MAX_PAYLOAD"
  shows "recover_fold b n m is (take n a, l) =
    Some (take n (xor_all (map ((!) ps) (filter (\<lambda>i. i \<noteq> m) is)) a),
          lens_xor (map ((!) ps) (filter (\<lambda>i. i \<noteq> m) is)) l)"
  using sub a
proof (induction "is" arbitrary: a l)
  case Nil
  then show ?case by simp
next
  case (Cons i "is")
  show ?case
  proof (cases "i = m")
    case True
    with Cons show ?thesis by simp
  next
    case False
    with Cons.prems have i: "i < length ps" "i \<in> S" by auto
    then have i16: "i < O4L_FEC_MAX_DATA" using ok by (simp add: block_ok_def)
    have len: "c_get (blk_data_len b) i = Some (of_nat (length (ps ! i)))"
      and row: "c_get (blk_data b) i = Some (pad (ps ! i))"
      using rel i i16 by (auto simp: blk_rel_def block_wf_def c_get_def)
    have pl: "length (ps ! i) \<le> O4L_MAX_PAYLOAD"
      using block_ok_len [OF ok nth_mem [OF i(1)]] by (simp add: fec_consts)
    have read: "c_read (pad (ps ! i)) 0 n = Some (take n (pad (ps ! i)))"
      using n length_pad [OF pl] by (simp add: c_read_def)
    have "xor_into (take n a) (take n (pad (ps ! i))) = take n (xor_into a (ps ! i))"
      using n Cons.prems(2) by (intro xor_into_take_pad) simp
    with Cons.IH [of "xor_into a (ps ! i)"] Cons.prems False len row read show ?thesis by simp
  qed
qed

lemma split_at:
  "m < length ps \<Longrightarrow> map ((!) ps) (filter (\<lambda>i. i \<noteq> m) [0..<length ps]) = take m ps @ drop (Suc m) ps"
proof -
  assume m: "m < length ps"
  then have "[0..<length ps] = [0..<m] @ m # [Suc m..<length ps]"
    by (metis append_Cons le_eq_less_or_eq less_imp_add_positive upt_add_eq_append upt_conv_Cons zero_le)
  then have "filter (\<lambda>i. i \<noteq> m) [0..<length ps] = [0..<m] @ [Suc m..<length ps]"
    by (simp add: filter_id_conv)
  with m show ?thesis
    by (intro nth_equalityI) (auto simp: nth_append)
qed

text \<open>With one shard missing, the parity and the others give it back, length and bytes.\<close>

lemma recover_missing:
  assumes rel: "blk_rel bid ps ({..<length ps} - {m}) True rcv b" and ok: "block_ok ps"
    and m: "m < length ps"
  shows "\<exists>r l. recover_fold b (maxlen ps) m [0..<length ps]
      (take (maxlen ps) (blk_parity b), lens_xor ps 0) = Some (r, l) \<and>
    l = of_nat (length (ps ! m)) \<and> take (length (ps ! m)) r = ps ! m"
proof -
  let ?a = "xor_all ps zeros" and ?n = "maxlen ps" and ?o = "take m ps @ drop (Suc m) ps"
  have n: "?n \<le> O4L_MAX_PAYLOAD" using block_ok_maxlen [OF ok] by (simp add: fec_consts)
  have ps: "ps = take m ps @ ps ! m # drop (Suc m) ps" using m by (rule id_take_nth_drop)
  have plen: "length (ps ! m) \<le> O4L_MAX_PAYLOAD"
    using block_ok_len [OF ok nth_mem [OF m]] by (simp add: fec_consts)
  have "recover_fold b ?n m [0..<length ps] (take ?n ?a, lens_xor ps 0) =
      Some (take ?n (xor_all ?o ?a), lens_xor ?o (lens_xor ps 0))"
    using recover_fold_rows [OF rel ok n, of "[0..<length ps]" m ?a "lens_xor ps 0"] split_at [OF m]
    by auto
  moreover have "take ?n (blk_parity b) = take ?n ?a" using rel by (simp add: blk_rel_def)
  moreover have "xor_all ?o ?a = pad (ps ! m)"
    using xor_all_others [of "take m ps" "drop (Suc m) ps" "ps ! m" zeros] ps
      xor_into_zero [OF plen] by (simp add: zeros_def)
  moreover have "lens_xor ?o (lens_xor ps 0) = of_nat (length (ps ! m))"
    using lens_xor_others [of "take m ps" "drop (Suc m) ps" "ps ! m" 0] ps by simp
  moreover have "length (ps ! m) \<le> ?n" using maxlen_ge [OF nth_mem [OF m]] .
  ultimately show ?thesis by (auto simp: pad_def min_def)
qed

section \<open>The abstract receiver\<close>

text \<open>
  The contract of a block of \<open>ps\<close>: which data shards have arrived, whether the parity has,
  and whether the block is settled. Every data datagram is passed on; the datagram that leaves
  exactly one shard missing while the parity is there also yields that shard.
\<close>

datatype fec_event = Data nat | Parity

type_synonym fec_abs = "nat set \<times> bool \<times> bool"

definition abs_after :: "fec_event \<Rightarrow> fec_abs \<Rightarrow> nat set \<times> bool" where
  "abs_after e a = (case a of (S, par, _) \<Rightarrow>
     (case e of Data i \<Rightarrow> (insert i S, par) | Parity \<Rightarrow> (S, True)))"

definition abs_rebuilt :: "bytes list \<Rightarrow> fec_event \<Rightarrow> fec_abs \<Rightarrow> bytes list" where
  "abs_rebuilt ps e a = (case abs_after e a of (S, par) \<Rightarrow>
     (if \<not> snd (snd a) \<and> par \<and> length (missing (length ps) S) = 1
      then [ps ! hd (missing (length ps) S)] else []))"

definition abs_step :: "bytes list \<Rightarrow> fec_event \<Rightarrow> fec_abs \<Rightarrow> fec_abs" where
  "abs_step ps e a = (case abs_after e a of (S, par) \<Rightarrow>
     (S, par, snd (snd a) \<or> (par \<and> length (missing (length ps) S) \<le> 1)))"

definition abs_out :: "bytes list \<Rightarrow> fec_event \<Rightarrow> fec_abs \<Rightarrow> bytes list" where
  "abs_out ps e a = (case e of Data i \<Rightarrow> [ps ! i] | Parity \<Rightarrow> []) @ abs_rebuilt ps e a"

definition rel :: "u32 \<Rightarrow> bytes list \<Rightarrow> fec_abs \<Rightarrow> fec_rx_block \<Rightarrow> bool" where
  "rel bid ps a b = blk_rel bid ps (fst a) (fst (snd a)) (snd (snd a)) b"

lemma missing_code:
  assumes "blk_rel bid ps S par rcv b" and "block_ok ps"
  shows "c_read (blk_got_data b) 0 (length ps) = Some (take (length ps) (blk_got_data b))"
    and "filter (\<lambda>i. \<not> take (length ps) (blk_got_data b) ! i) [0..<length ps] = missing (length ps) S"
  using assms by (auto simp: blk_rel_def block_wf_def block_ok_def c_read_def missing_def
      intro!: filter_cong)

text \<open>\<open>fec_try_recover\<close> after an arrival does what the contract says.\<close>

lemma fec_try_recover_spec:
  assumes r: "blk_rel bid ps S par rcv b" and ok: "block_ok ps"
    and udp: "udp_ok env = (\<lambda>_. True)"
    and out: "out = (if \<not> rcv \<and> par \<and> length (missing (length ps) S) = 1
      then [ps ! hd (missing (length ps) S)] else [])"
  shows "\<exists>b' st' io'. fec_try_recover env b st io = Some (0, b', st', io') \<and>
     blk_rel bid ps S par (rcv \<or> (par \<and> length (missing (length ps) S) \<le> 1)) b' \<and>
     udp_sent io' = udp_sent io @ out \<and> raw_sent io' = raw_sent io \<and>
     rx_packets st' = rx_packets st + of_nat (length out) \<and>
     fec_recovered st' = fec_recovered st + of_nat (length out)"
proof (cases "par \<and> \<not> rcv")
  case False
  with r out show ?thesis by (auto simp: fec_try_recover_def blk_rel_def)
next
  case True
  let ?ms = "missing (length ps) S"
  have k: "unat (blk_data_shards b) = length ps" using r by (simp add: blk_rel_def)
  note code = missing_code [OF r ok]
  have flags: "blk_got_parity b" "\<not> blk_recovered b" using r True by (simp_all add: blk_rel_def)
  have upd: "blk_rel bid ps S par True (b\<lparr>blk_recovered := True\<rparr>)"
    using r by (simp add: blk_rel_def block_wf_def)
  consider "?ms = []" | m where "?ms = [m]" | "length ?ms > 1"
    by (cases ?ms rule: remdups_adj.cases) auto
  then show ?thesis
  proof cases
    case 1
    with flags code k upd out show ?thesis
      by (simp add: fec_try_recover_def True)
  next
    case (2 m)
    then have m: "m < length ps" and S: "S = {..<length ps} - {m}"
      using set_missing [of "length ps" S] r by (auto simp: blk_rel_def)
    from r True have r': "blk_rel bid ps ({..<length ps} - {m}) True False b" by (simp add: S)
    obtain rr l where fold: "recover_fold b (maxlen ps) m [0..<length ps]
        (take (maxlen ps) (blk_parity b), lens_xor ps 0) = Some (rr, l)"
      and l: "l = of_nat (length (ps ! m))" and tk: "take (length (ps ! m)) rr = ps ! m"
      using recover_missing [OF r' ok m] by blast
    have bounds: "maxlen ps \<le> O4L_MAX_PAYLOAD" using block_ok_maxlen [OF ok] by (simp add: fec_consts)
    have par_facts: "blk_parity_len b = maxlen ps" "blk_len_xor b = lens_xor ps 0"
      "length (blk_parity b) = O4L_MAX_PAYLOAD" using r True by (simp_all add: blk_rel_def block_wf_def)
    have rd: "c_read (blk_parity b) 0 (maxlen ps) = Some (take (maxlen ps) (blk_parity b))"
      using bounds par_facts(3) by (simp add: c_read_def)
    have ul: "unat l = length (ps ! m)" "length (ps ! m) \<le> maxlen ps"
      using l block_ok_len [OF ok nth_mem [OF m]] maxlen_ge [OF nth_mem [OF m]]
      by (simp_all add: unat_of_nat_u16)
    show ?thesis
      using flags code k 2 fold rd par_facts bounds ul tk upd True out
      by (simp add: fec_try_recover_def udp_emit_ok [OF udp])
  next
    case 3
    then have ms: "?ms \<noteq> []" "length ?ms \<noteq> 1" "\<not> length ?ms \<le> 1" by auto
    with flags code k r True out show ?thesis by (simp add: fec_try_recover_def)
  qed
qed

section \<open>Slots\<close>

text \<open>
  The blocks in use are a prefix of the array and carry different ids; the search loop relies on
  the first, and both hold from the zeroed array on.
\<close>

definition slots_ok :: "fec_rx_block list \<Rightarrow> bool" where
  "slots_ok bs \<longleftrightarrow> blocks_wf bs \<and>
     (\<forall>i j. i < j \<longrightarrow> j < O4L_FEC_MAX_DATA \<longrightarrow> blk_used (bs ! j) \<longrightarrow> blk_used (bs ! i)) \<and>
     (\<forall>i j. i < O4L_FEC_MAX_DATA \<longrightarrow> j < O4L_FEC_MAX_DATA \<longrightarrow> blk_used (bs ! i) \<longrightarrow>
        blk_used (bs ! j) \<longrightarrow> blk_block_id (bs ! i) = blk_block_id (bs ! j) \<longrightarrow> i = j)"

definition known :: "fec_rx_block list \<Rightarrow> u32 \<Rightarrow> bool" where
  "known bs bid \<longleftrightarrow> (\<exists>i < O4L_FEC_MAX_DATA. blk_used (bs ! i) \<and> blk_block_id (bs ! i) = bid)"

lemma slots_ok_zero: "slots_ok fec_rx_zero"
  using blocks_wf_zero by (simp add: slots_ok_def fec_rx_zero_def fec_block_zero_def)

lemma slots_ok_wf: "slots_ok bs \<Longrightarrow> blocks_wf bs"
  by (simp add: slots_ok_def)

lemma fec_slot_found:
  assumes ok: "slots_ok bs" and t: "t < O4L_FEC_MAX_DATA" "blk_used (bs ! t)"
  shows "i \<le> t \<Longrightarrow> fec_slot bs (blk_block_id (bs ! t)) i slot = Inl t"
proof (induction "t - i" arbitrary: i slot)
  case 0
  then have "i = t" by simp
  with t show ?case by (subst fec_slot.simps) simp
next
  case (Suc d)
  then have it: "i < t" by simp
  have used: "blk_used (bs ! i)" using ok it t by (auto simp: slots_ok_def)
  have "blk_block_id (bs ! i) \<noteq> blk_block_id (bs ! t)"
    using ok it t used unfolding slots_ok_def by (metis less_trans nat_neq_iff)
  moreover have "fec_slot bs (blk_block_id (bs ! t)) (Suc i) sl = Inl t" for sl
    using Suc it by (intro Suc.hyps(1)) simp_all
  ultimately show ?case using used it t(1) by (subst fec_slot.simps) simp
qed

text \<open>With no block of this id the loop ends at the first free slot, or evicts when all are in use.\<close>

lemma fec_slot_fresh:
  assumes "\<not> known bs bid" and "slot < O4L_FEC_MAX_DATA" and "\<forall>l < i. blk_used (bs ! l)"
  shows "\<exists>j < O4L_FEC_MAX_DATA. fec_slot bs bid i slot = Inr j \<and>
    ((\<not> blk_used (bs ! j) \<and> (\<forall>l < j. blk_used (bs ! l))) \<or>
     (\<forall>l < O4L_FEC_MAX_DATA. blk_used (bs ! l)))"
  using assms
proof (induction bs bid i slot rule: fec_slot.induct)
  case (1 bs bid i slot)
  show ?case
  proof (cases "i < O4L_FEC_MAX_DATA")
    case False
    with "1.prems" show ?thesis by (subst fec_slot.simps) (auto simp: fec_slot.simps)
  next
    case i: True
    show ?thesis
    proof (cases "blk_used (bs ! i)")
      case False
      with i "1.prems" show ?thesis by (subst fec_slot.simps) auto
    next
      case True
      let ?sl = "if sint (blk_block_id (bs ! i) - blk_block_id (bs ! slot)) < 0 then i else slot"
      have nf: "\<not> (blk_used (bs ! i) \<and> blk_block_id (bs ! i) = bid)"
        using "1.prems"(1) i True by (auto simp: known_def)
      have "\<forall>l < Suc i. blk_used (bs ! l)" using "1.prems"(3) True by (auto simp: less_Suc_eq)
      with "1.IH" [OF i nf] True "1.prems"(1,2) i
      have "\<exists>j < O4L_FEC_MAX_DATA. fec_slot bs bid (Suc i) ?sl = Inr j \<and>
          ((\<not> blk_used (bs ! j) \<and> (\<forall>l < j. blk_used (bs ! l))) \<or>
           (\<forall>l < O4L_FEC_MAX_DATA. blk_used (bs ! l)))" by simp
      moreover have "fec_slot bs bid i slot = fec_slot bs bid (Suc i) ?sl"
        using i nf True by (subst fec_slot.simps) simp
      ultimately show ?thesis by simp
    qed
  qed
qed

lemma slots_ok_update:
  assumes ok: "slots_ok bs" and j: "j < O4L_FEC_MAX_DATA" and wf: "block_wf b" and used: "blk_used b"
    and free: "(\<forall>l < j. blk_used (bs ! l)) \<or> (\<forall>l < O4L_FEC_MAX_DATA. blk_used (bs ! l))"
    and id: "\<And>i. i < O4L_FEC_MAX_DATA \<Longrightarrow> i \<noteq> j \<Longrightarrow> blk_used (bs ! i) \<Longrightarrow>
      blk_block_id (bs ! i) \<noteq> blk_block_id b"
  shows "slots_ok (bs[j := b])"
proof -
  have len: "length bs = O4L_FEC_MAX_DATA" using ok by (simp add: slots_ok_def blocks_wf_def)
  have nth: "bs[j := b] ! i = (if i = j then b else bs ! i)" for i using len j by auto
  have pre: "blk_used (bs ! i)" if "i < l" "l < O4L_FEC_MAX_DATA" "blk_used (bs ! l)" for i l
    using ok that unfolding slots_ok_def by blast
  have uniq: "i = l" if "i < O4L_FEC_MAX_DATA" "l < O4L_FEC_MAX_DATA" "blk_used (bs ! i)"
    "blk_used (bs ! l)" "blk_block_id (bs ! i) = blk_block_id (bs ! l)" for i l
    using ok that unfolding slots_ok_def by blast
  have "blocks_wf (bs[j := b])" using slots_ok_wf [OF ok] wf by (rule blocks_wf_update)
  moreover have "blk_used (bs[j := b] ! i)" if "i < l" "l < O4L_FEC_MAX_DATA" "blk_used (bs[j := b] ! l)" for i l
    using that free used pre [of i l] by (auto simp: nth split: if_splits)
  moreover have "i = l" if "i < O4L_FEC_MAX_DATA" "l < O4L_FEC_MAX_DATA" "blk_used (bs[j := b] ! i)"
    "blk_used (bs[j := b] ! l)" "blk_block_id (bs[j := b] ! i) = blk_block_id (bs[j := b] ! l)" for i l
    using that id [of i] id [of l] uniq [of i l] by (auto simp: nth split: if_splits)
  ultimately show ?thesis unfolding slots_ok_def by blast
qed

text \<open>What \<open>fec_rx_block_get\<close> promises: the known block, or a fresh one in a well-formed array.\<close>

lemma fec_rx_block_get_known:
  assumes "slots_ok bs" and "t < O4L_FEC_MAX_DATA" and "blk_used (bs ! t)" and "blk_block_id (bs ! t) = bid"
  shows "fec_rx_block_get bs bid n = (t, bs)"
  using fec_slot_found [OF assms(1-3), of 0] assms(4) by (simp add: fec_rx_block_get_def)

lemma fec_rx_block_get_fresh:
  assumes ok: "slots_ok bs" and new: "\<not> known bs bid" and n: "unat n \<le> O4L_FEC_MAX_DATA"
  shows "\<exists>t < O4L_FEC_MAX_DATA. fec_rx_block_get bs bid n = (t, bs[t := fec_fresh bid n]) \<and>
    slots_ok (bs[t := fec_fresh bid n])"
proof -
  have "(0 :: nat) < O4L_FEC_MAX_DATA" by (simp add: O4L_FEC_MAX_DATA_def)
  from fec_slot_fresh [OF new this, of 0] obtain t where t: "t < O4L_FEC_MAX_DATA"
    and slot: "fec_slot bs bid 0 0 = Inr t"
    and free: "(\<forall>l < t. blk_used (bs ! l)) \<or> (\<forall>l < O4L_FEC_MAX_DATA. blk_used (bs ! l))"
    by auto
  have "slots_ok (bs[t := fec_fresh bid n])"
    using new by (intro slots_ok_update [OF ok t block_wf_fresh [OF n] _ free])
      (auto simp: fec_fresh_def known_def)
  with t slot show ?thesis by (auto simp: fec_rx_block_get_def)
qed

end
