(* ===== verification/Link_Fec_Stream.thy ===== *)
theory Link_Fec_Stream
  imports Link_Fec_Recover "HOL-Library.Multiset"
begin

text \<open>
  The refinement of \<open>rx_fec_payload\<close> against the abstract receiver of a block, and what it
  gives for streams of datagrams: a block with one lost shard is delivered completely, a block
  without loss is delivered as it arrives, and the datagrams \<open>tx_fec_data\<close> sends for a block
  are the ones the contract speaks of.
\<close>

section \<open>One datagram\<close>

definition gram :: "u32 \<Rightarrow> bytes list \<Rightarrow> fec_event \<Rightarrow> bytes" where
  "gram bid ps e = (case e of
     Data i \<Rightarrow> data_gram bid (length ps) ps i | Parity \<Rightarrow> parity_gram bid (length ps) ps)"

definition gram_flags :: "fec_event \<Rightarrow> u16" where
  "gram_flags e = (case e of Data i \<Rightarrow> O4L_FLAG_FEC_DATA | Parity \<Rightarrow> O4L_FLAG_FEC_PARITY)"

definition event_ok :: "bytes list \<Rightarrow> fec_event \<Rightarrow> bool" where
  "event_ok ps e = (case e of Data i \<Rightarrow> i < length ps | Parity \<Rightarrow> True)"

lemma unat_of_nat_u8: "n < 2 ^ 8 \<Longrightarrow> unat (of_nat n :: u8) = n"
  by (simp add: unat_of_nat)

lemma fec_store_spec:
  assumes r: "blk_rel bid ps S par rcv b" and ok: "block_ok ps" and i: "i < length ps"
  shows "\<exists>b'. fec_store b i (of_nat (length (ps ! i))) (ps ! i) = Some b' \<and>
    blk_rel bid ps (insert i S) par rcv b'"
proof (cases "i \<in> S")
  case True
  then have "blk_got_data b ! i" and "length (blk_got_data b) = O4L_FEC_MAX_DATA"
    and "i < O4L_FEC_MAX_DATA"
    using r ok i by (auto simp: blk_rel_def block_wf_def block_ok_def)
  with r True show ?thesis by (simp add: fec_store_def c_get_def insert_absorb)
next
  case False
  have i16: "i < O4L_FEC_MAX_DATA" using ok i by (simp add: block_ok_def)
  have len: "length (ps ! i) \<le> O4L_MAX_PAYLOAD"
    using block_ok_len [OF ok nth_mem [OF i]] by (simp add: fec_consts)
  have wf: "block_wf b" using r by (simp add: blk_rel_def)
  have z: "blk_data b ! i = zeros" "\<not> blk_got_data b ! i" using r False i16 by (simp_all add: blk_rel_def)
  have w: "c_write zeros 0 (ps ! i) = Some (pad (ps ! i))"
    using len by (simp add: c_write_def pad_def zeros_def)
  define b' where "b' = b\<lparr>blk_got_data := (blk_got_data b)[i := True],
    blk_data_len := (blk_data_len b)[i := of_nat (length (ps ! i))],
    blk_data := (blk_data b)[i := pad (ps ! i)]\<rparr>"
  have lens: "length (blk_got_data b) = O4L_FEC_MAX_DATA" "length (blk_data_len b) = O4L_FEC_MAX_DATA"
    "length (blk_data b) = O4L_FEC_MAX_DATA" using wf by (simp_all add: block_wf_def)
  have "fec_store b i (of_nat (length (ps ! i))) (ps ! i) = Some b'"
    using lens i16 z w by (simp add: fec_store_def c_get_def c_set_def b'_def)
  moreover have "\<forall>row \<in> set ((blk_data b)[i := pad (ps ! i)]). length row = O4L_MAX_PAYLOAD"
    using set_update_subset_insert [of "blk_data b" i "pad (ps ! i)"] wf length_pad [OF len]
    by (auto simp: block_wf_def)
  then have "block_wf b'" using wf by (simp add: block_wf_def b'_def)
  then have "blk_rel bid ps (insert i S) par rcv b'"
    using r i i16 lens by (auto simp: blk_rel_def b'_def nth_list_update)
  ultimately show ?thesis by blast
qed

lemma slots_ok_replace:
  assumes ok: "slots_ok bs" and t: "t < O4L_FEC_MAX_DATA" "blk_used (bs ! t)"
    and b: "block_wf b" "blk_used b" "blk_block_id b = blk_block_id (bs ! t)"
  shows "slots_ok (bs[t := b])"
proof -
  have "\<forall>l < t. blk_used (bs ! l)" using ok t by (auto simp: slots_ok_def)
  moreover have "blk_block_id (bs ! i) \<noteq> blk_block_id b"
    if "i < O4L_FEC_MAX_DATA" "i \<noteq> t" "blk_used (bs ! i)" for i
    using ok t b that unfolding slots_ok_def by metis
  ultimately show ?thesis using slots_ok_update [OF ok t(1) b(1,2)] by blast
qed

text \<open>The state of a receiver that holds block \<open>bid\<close> in slot \<open>t\<close>.\<close>

definition holds :: "nat \<Rightarrow> u32 \<Rightarrow> bytes list \<Rightarrow> fec_abs \<Rightarrow> rx_state \<Rightarrow> bool" where
  "holds t bid ps a s \<longleftrightarrow> slots_ok (rx_fec s) \<and> t < O4L_FEC_MAX_DATA \<and> rel bid ps a (rx_fec s ! t)"

text \<open>What a step does beside the block: the other slots, the datagrams passed on, the counters.\<close>

definition delivers :: "nat \<Rightarrow> bytes list \<Rightarrow> rx_state \<Rightarrow> rx_state \<Rightarrow> bool" where
  "delivers t out s s' \<longleftrightarrow>
     (\<forall>j. j \<noteq> t \<longrightarrow> rx_fec s' ! j = rx_fec s ! j) \<and>
     udp_sent (rx_io s') = udp_sent (rx_io s) @ out \<and>
     rx_packets (rx_st s') = rx_packets (rx_st s) + of_nat (length out)"

lemma holds_finish:
  assumes h: "slots_ok (rx_fec s)" "t < O4L_FEC_MAX_DATA" "blk_used (rx_fec s ! t)"
    and id: "blk_block_id (rx_fec s ! t) = bid"
    and r: "blk_rel bid ps S par rcv b" and ok: "block_ok ps" and udp: "udp_ok env = (\<lambda>_. True)"
    and io: "udp_sent io = udp_sent (rx_io s) @ pre" "rx_packets st = rx_packets (rx_st s) + of_nat (length pre)"
    and out: "out = pre @ (if \<not> rcv \<and> par \<and> length (missing (length ps) S) = 1
      then [ps ! hd (missing (length ps) S)] else [])"
  shows "\<exists>s'. do {r \<leftarrow> fec_try_recover env b st io; Some (fec_finish t s r)} = Some (0, s') \<and>
    holds t bid ps (S, par, rcv \<or> (par \<and> length (missing (length ps) S) \<le> 1)) s' \<and>
    delivers t out s s'"
proof -
  obtain b' st' io' where t: "fec_try_recover env b st io = Some (0, b', st', io')"
    and r': "blk_rel bid ps S par (rcv \<or> (par \<and> length (missing (length ps) S) \<le> 1)) b'"
    and o: "udp_sent io' = udp_sent io @ drop (length pre) out"
      "rx_packets st' = rx_packets st + of_nat (length (drop (length pre) out))"
    using fec_try_recover_spec [OF r ok udp, of "drop (length pre) out" st io] out by auto
  have len: "length (rx_fec s) = O4L_FEC_MAX_DATA" using h(1) by (simp add: slots_ok_def blocks_wf_def)
  have "slots_ok ((rx_fec s)[t := b'])"
    using h id r' by (intro slots_ok_replace) (simp_all add: blk_rel_def)
  with t r' o io out h(2) len show ?thesis
    by (auto simp: fec_finish_def holds_def delivers_def rel_def)
qed

lemma rx_fec_data_spec:
  assumes h: "holds t bid ps a s" and ok: "block_ok ps" and udp: "udp_ok env = (\<lambda>_. True)"
    and i: "i < length ps"
  shows "\<exists>s'. rx_fec_data env (data_fh bid (int (length ps)) i (ps ! i)) (ps ! i) t s = Some (0, s') \<and>
    holds t bid ps (abs_step ps (Data i) a) s' \<and> delivers t (abs_out ps (Data i) a) s s'"
proof -
  obtain S par rcv where a: "a = (S, par, rcv)" by (cases a)
  let ?fh = "data_fh bid (int (length ps)) i (ps ! i)" and ?b = "rx_fec s ! t"
  have r: "blk_rel bid ps S par rcv ?b" and slots: "slots_ok (rx_fec s)" and t: "t < O4L_FEC_MAX_DATA"
    using h by (simp_all add: holds_def rel_def a)
  obtain b' where st: "fec_store ?b i (of_nat (length (ps ! i))) (ps ! i) = Some b'"
    and r': "blk_rel bid ps (insert i S) par rcv b'" using fec_store_spec [OF r ok i] by blast
  have k16: "length ps \<le> 16" using ok by (simp add: block_ok_def fec_consts)
  have l: "length (ps ! i) \<le> 1388" using block_ok_len [OF ok nth_mem [OF i]] .
  have fh: "unat (fh_shard_index ?fh) = i" "unat (fh_data_shards ?fh) = length ps"
    "unat (fh_orig_len ?fh) = length (ps ! i)" "fh_orig_len ?fh = of_nat (length (ps ! i))"
    using k16 i l by (simp_all add: data_fh_def unat_of_nat_u8 unat_of_nat_u16)
  then have guard: "\<not> fh_shard_index ?fh \<ge> fh_data_shards ?fh"
    using i by (simp add: word_le_nat_alt)
  have get: "c_get (rx_fec s) t = Some ?b" using slots t by (simp add: c_get_def slots_ok_def blocks_wf_def)
  let ?st = "(rx_st s)\<lparr>rx_packets := rx_packets (rx_st s) + 1,
    rx_bytes := rx_bytes (rx_st s) + of_nat (length (ps ! i))\<rparr>"
  let ?io = "(rx_io s)\<lparr>udp_tries := Suc (udp_tries (rx_io s)), udp_sent := udp_sent (rx_io s) @ [ps ! i]\<rparr>"
  have "rx_fec_data env ?fh (ps ! i) t s =
      do {r \<leftarrow> fec_try_recover env b' ?st ?io; Some (fec_finish t s r)}"
    using guard get fh st by (simp add: rx_fec_data_def udp_count_def udp_emit_ok [OF udp])
  moreover have "blk_used ?b" "blk_block_id ?b = bid" using r by (simp_all add: blk_rel_def)
  ultimately show ?thesis
    using holds_finish [OF slots t _ _ r' ok udp, of ?io "[ps ! i]" ?st "abs_out ps (Data i) a"]
    by (simp add: a abs_step_def abs_after_def abs_out_def abs_rebuilt_def)
qed

lemma rx_fec_parity_spec:
  assumes h: "holds t bid ps a s" and ok: "block_ok ps" and udp: "udp_ok env = (\<lambda>_. True)"
  shows "\<exists>s'. rx_fec_parity env (parity_fh bid (int (length ps)) (lens_xor ps 0))
      (take (maxlen ps) (xor_all ps zeros)) t s = Some (0, s') \<and>
    holds t bid ps (abs_step ps Parity a) s' \<and> delivers t (abs_out ps Parity a) s s'"
proof -
  obtain S par rcv where a: "a = (S, par, rcv)" by (cases a)
  let ?fh = "parity_fh bid (int (length ps)) (lens_xor ps 0)" and ?b = "rx_fec s ! t"
  let ?body = "take (maxlen ps) (xor_all ps zeros)"
  have r: "blk_rel bid ps S par rcv ?b" and slots: "slots_ok (rx_fec s)" and t: "t < O4L_FEC_MAX_DATA"
    using h by (simp_all add: holds_def rel_def a)
  have m: "maxlen ps \<le> 1388" using block_ok_maxlen [OF ok] by (simp add: fec_consts)
  have blen: "length ?body = maxlen ps" using m by (simp add: fec_consts)
  have plen: "length (blk_parity ?b) = 1400" using r by (simp add: blk_rel_def block_wf_def fec_consts)
  define b' where "b' = ?b\<lparr>blk_got_parity := True, blk_len_xor := lens_xor ps 0,
    blk_parity_len := maxlen ps, blk_parity := ?body @ drop (maxlen ps) (blk_parity ?b)\<rparr>"
  have r': "blk_rel bid ps S True rcv b'"
    using r blen plen m by (simp add: blk_rel_def b'_def block_wf_def fec_consts)
  have get: "c_get (rx_fec s) t = Some ?b" using slots t by (simp add: c_get_def slots_ok_def blocks_wf_def)
  have "c_write (blk_parity ?b) 0 ?body = Some (?body @ drop (maxlen ps) (blk_parity ?b))"
    using blen plen m by (simp add: c_write_def)
  then have "rx_fec_parity env ?fh ?body t s =
      do {r \<leftarrow> fec_try_recover env b' (rx_st s) (rx_io s); Some (fec_finish t s r)}"
    using get blen m by (simp add: rx_fec_parity_def parity_fh_def b'_def O4L_MAX_PAYLOAD_def)
  moreover have "blk_used ?b" "blk_block_id ?b = bid" using r by (simp_all add: blk_rel_def)
  ultimately show ?thesis
    using holds_finish [OF slots t _ _ r' ok udp, of "rx_io s" "[]" "rx_st s" "abs_out ps Parity a"]
    by (simp add: a abs_step_def abs_after_def abs_out_def abs_rebuilt_def)
qed

text \<open>A datagram of a block the receiver holds, and the first datagram of a block it does not.\<close>

lemma gram_header:
  assumes ok: "block_ok ps"
  defines "k \<equiv> int (length ps)"
  shows "unat (fh_data_shards (data_fh bid k i p)) = length ps"
    and "unat (fh_data_shards (parity_fh bid k l)) = length ps"
    and "fh_data_shards (parity_fh bid k l) = of_nat (length ps)"
    and "fh_data_shards (data_fh bid k i p) = of_nat (length ps)"
  using ok by (simp_all add: k_def data_fh_def parity_fh_def unat_of_nat_u8 block_ok_def fec_consts)

lemma rx_fec_gram_at:
  assumes h: "holds t bid ps a (s\<lparr>rx_fec := blocks\<rparr>)" and ok: "block_ok ps"
    and udp: "udp_ok env = (\<lambda>_. True)" and cfg: "cfg_fec_data cfg = int (length ps)"
    and e: "event_ok ps e" and get: "fec_rx_block_get (rx_fec s) bid (of_nat (length ps)) = (t, blocks)"
  shows "\<exists>s'. rx_fec_payload env cfg (gram_flags e) (gram bid ps e) s = Some (0, s') \<and>
    holds t bid ps (abs_step ps e a) s' \<and> delivers t (abs_out ps e a) (s\<lparr>rx_fec := blocks\<rparr>) s'"
proof -
  have k: "length ps \<noteq> 0" "length ps \<le> O4L_FEC_MAX_DATA" using ok by (auto simp: block_ok_def)
  show ?thesis
  proof (cases e)
    case (Data i)
    let ?fh = "data_fh bid (int (length ps)) i (ps ! i)"
    have "rx_fec_payload env cfg (gram_flags e) (put_fec ?fh @ ps ! i) s =
        rx_fec_data env ?fh (ps ! i) t (s\<lparr>rx_fec := blocks\<rparr>)"
      using rx_fec_payload_accept [where fh = ?fh and n = "length ps" and cfg = cfg and s = s and
          slot = t and blocks = blocks and env = env and flags = "gram_flags e" and body = "ps ! i"]
        gram_header [OF ok] k cfg get
      by (simp add: Data gram_flags_def O4L_FLAG_FEC_DATA_def) (simp add: data_fh_def)
    with rx_fec_data_spec [OF h ok udp, of i] e show ?thesis
      by (simp add: Data gram_def data_gram_def event_ok_def)
  next
    case Parity
    let ?fh = "parity_fh bid (int (length ps)) (lens_xor ps 0)"
    let ?body = "take (maxlen ps) (xor_all ps zeros)"
    have "rx_fec_payload env cfg (gram_flags e) (put_fec ?fh @ ?body) s =
        rx_fec_parity env ?fh ?body t (s\<lparr>rx_fec := blocks\<rparr>)"
      using rx_fec_payload_accept [where fh = ?fh and n = "length ps" and cfg = cfg and s = s and
          slot = t and blocks = blocks and env = env and flags = "gram_flags e" and body = ?body]
        gram_header [OF ok] k cfg get
      by (simp add: Parity gram_flags_def fec_consts) (simp add: parity_fh_def)
    with rx_fec_parity_spec [OF h ok udp] show ?thesis
      by (simp add: Parity gram_def parity_gram_def)
  qed
qed

section \<open>Interleaved blocks\<close>

text \<open>
  A receiver that has started the blocks \<open>K\<close>, each in the abstract state \<open>A bid\<close>; \<open>F\<close>
  gives the payloads of each block.
\<close>

definition abs_fresh :: fec_abs where
  "abs_fresh = ({}, False, False)"

definition tracks :: "(u32 \<Rightarrow> bytes list) \<Rightarrow> u32 set \<Rightarrow> (u32 \<Rightarrow> fec_abs) \<Rightarrow> rx_state \<Rightarrow> bool" where
  "tracks F K A s \<longleftrightarrow> slots_ok (rx_fec s) \<and> (\<forall>bid. bid \<in> K \<longleftrightarrow> known (rx_fec s) bid) \<and>
     (\<forall>bid \<in> K. \<exists>t < O4L_FEC_MAX_DATA. rel bid (F bid) (A bid) (rx_fec s ! t)) \<and>
     (\<forall>bid. bid \<notin> K \<longrightarrow> A bid = abs_fresh)"

lemma tracksD:
  assumes "tracks F K A s"
  shows "slots_ok (rx_fec s)" and "known (rx_fec s) b \<longleftrightarrow> b \<in> K"
    and "b \<in> K \<Longrightarrow> \<exists>t < O4L_FEC_MAX_DATA. rel b (F b) (A b) (rx_fec s ! t)"
    and "b \<notin> K \<Longrightarrow> A b = abs_fresh"
  using assms unfolding tracks_def by blast+

lemma tracksI:
  assumes "slots_ok (rx_fec s)" and "\<And>b. known (rx_fec s) b \<longleftrightarrow> b \<in> K"
    and "\<And>b. b \<in> K \<Longrightarrow> \<exists>t < O4L_FEC_MAX_DATA. rel b (F b) (A b) (rx_fec s ! t)"
    and "\<And>b. b \<notin> K \<Longrightarrow> A b = abs_fresh"
  shows "tracks F K A s"
  using assms unfolding tracks_def by blast

lemma rel_used: "rel bid ps a b \<Longrightarrow> blk_used b \<and> blk_block_id b = bid"
  by (simp add: rel_def blk_rel_def)

lemma fresh_rel:
  assumes "block_ok ps"
  shows "rel bid ps abs_fresh (fec_fresh bid (of_nat (length ps)))"
proof -
  have "length ps \<le> 16" using assms by (simp add: block_ok_def fec_consts)
  then have n: "unat (of_nat (length ps) :: u8) = length ps" by (simp add: unat_of_nat_u8)
  have "block_wf (fec_fresh bid (of_nat (length ps)))"
    using assms n by (intro block_wf_fresh) (simp add: block_ok_def)
  with n show ?thesis
    by (simp add: rel_def abs_fresh_def blk_rel_def fec_fresh_def fec_block_zero_def zeros_def)
qed

text \<open>With fewer than sixteen blocks in use a new block never evicts another.\<close>

lemma known_ids:
  assumes ok: "slots_ok bs" and all: "\<forall>l < O4L_FEC_MAX_DATA. blk_used (bs ! l)"
    and K: "\<And>bid. known bs bid \<Longrightarrow> bid \<in> K" and fin: "finite K"
  shows "O4L_FEC_MAX_DATA \<le> card K"
proof -
  let ?f = "\<lambda>l. blk_block_id (bs ! l)"
  have "inj_on ?f {..<O4L_FEC_MAX_DATA}"
    using ok all unfolding slots_ok_def inj_on_def lessThan_iff by blast
  then have "card (?f ` {..<O4L_FEC_MAX_DATA}) = O4L_FEC_MAX_DATA" by (simp add: card_image)
  moreover have "?f ` {..<O4L_FEC_MAX_DATA} \<subseteq> K" using all K unfolding known_def by blast
  ultimately show ?thesis using card_mono [OF fin] by metis
qed

lemma fec_rx_block_get_new:
  assumes ok: "slots_ok bs" and new: "\<not> known bs bid" and n: "unat n \<le> O4L_FEC_MAX_DATA"
    and K: "\<And>bid. known bs bid \<Longrightarrow> bid \<in> K" and fin: "finite K" and card: "card K < O4L_FEC_MAX_DATA"
  shows "\<exists>t < O4L_FEC_MAX_DATA. fec_rx_block_get bs bid n = (t, bs[t := fec_fresh bid n]) \<and>
    slots_ok (bs[t := fec_fresh bid n]) \<and> \<not> blk_used (bs ! t)"
proof -
  obtain t where t: "t < O4L_FEC_MAX_DATA" "fec_rx_block_get bs bid n = (t, bs[t := fec_fresh bid n])"
    "slots_ok (bs[t := fec_fresh bid n])"
    using fec_rx_block_get_fresh [OF ok new n] by blast
  have "\<not> (\<forall>l < O4L_FEC_MAX_DATA. blk_used (bs ! l))"
    using known_ids [OF ok _ K fin] card by fastforce
  then have "\<not> (\<forall>l < O4L_FEC_MAX_DATA. blk_used (bs ! l)) \<and> (0 :: nat) < O4L_FEC_MAX_DATA"
    by (simp add: O4L_FEC_MAX_DATA_def)
  moreover have "\<forall>l < 0. blk_used (bs ! l)" by simp
  ultimately obtain j where "fec_slot bs bid 0 0 = Inr j" "\<not> blk_used (bs ! j)"
    using fec_slot_fresh [OF new, of 0 0] by meson
  with t have "j = t" by (simp add: fec_rx_block_get_def)
  with t \<open>\<not> blk_used (bs ! j)\<close> show ?thesis by blast
qed

lemma known_update_fresh:
  assumes len: "length bs = O4L_FEC_MAX_DATA" and t: "t < O4L_FEC_MAX_DATA" and unused: "\<not> blk_used (bs ! t)"
    and b: "blk_used b"
  shows "known (bs[t := b]) x \<longleftrightarrow> x = blk_block_id b \<or> known bs x"
proof
  assume "known (bs[t := b]) x"
  then obtain i where i: "i < O4L_FEC_MAX_DATA" "blk_used (bs[t := b] ! i)" "blk_block_id (bs[t := b] ! i) = x"
    unfolding known_def by blast
  then show "x = blk_block_id b \<or> known bs x"
    using len by (cases "i = t") (auto simp: known_def)
next
  assume "x = blk_block_id b \<or> known bs x"
  then show "known (bs[t := b]) x"
  proof
    assume "x = blk_block_id b"
    with t len b have "blk_used (bs[t := b] ! t)" "blk_block_id (bs[t := b] ! t) = x" by simp_all
    with t show ?thesis unfolding known_def by blast
  next
    assume "known bs x"
    then obtain i where i: "i < O4L_FEC_MAX_DATA" "blk_used (bs ! i)" "blk_block_id (bs ! i) = x"
      unfolding known_def by blast
    with unused have "bs[t := b] ! i = bs ! i" by (cases "i = t") simp_all
    with i have "blk_used (bs[t := b] ! i)" "blk_block_id (bs[t := b] ! i) = x" by simp_all
    with i(1) show ?thesis unfolding known_def by blast
  qed
qed

lemma tracks_get:
  assumes tr: "tracks F K A s" and ok: "block_ok (F bid)" and fin: "finite K"
    and room: "bid \<in> K \<or> card K < O4L_FEC_MAX_DATA"
  shows "\<exists>t blocks. fec_rx_block_get (rx_fec s) bid (of_nat (length (F bid))) = (t, blocks) \<and>
    holds t bid (F bid) (A bid) (s\<lparr>rx_fec := blocks\<rparr>) \<and>
    tracks F (insert bid K) A (s\<lparr>rx_fec := blocks\<rparr>)"
proof (cases "bid \<in> K")
  case True
  with tracksD(3) [OF tr] obtain t where t: "t < O4L_FEC_MAX_DATA" "rel bid (F bid) (A bid) (rx_fec s ! t)"
    by blast
  then have "fec_rx_block_get (rx_fec s) bid (of_nat (length (F bid))) = (t, rx_fec s)"
    using tracksD(1) [OF tr] rel_used [OF t(2)] by (intro fec_rx_block_get_known) simp_all
  with t tr True tracksD(1) [OF tr] show ?thesis by (simp add: holds_def insert_absorb)
next
  case False
  have k: "length (F bid) \<le> 16" using ok by (simp add: block_ok_def fec_consts)
  have slots: "slots_ok (rx_fec s)" and kn: "known (rx_fec s) b \<longleftrightarrow> b \<in> K" for b
    using tracksD(1,2) [OF tr] by blast+
  have new: "\<not> known (rx_fec s) bid" using kn False by simp
  let ?n = "of_nat (length (F bid)) :: u8"
  have n: "unat ?n \<le> O4L_FEC_MAX_DATA" using k by (simp add: unat_of_nat_u8 O4L_FEC_MAX_DATA_def)
  obtain t where t: "t < O4L_FEC_MAX_DATA"
    and get: "fec_rx_block_get (rx_fec s) bid ?n = (t, (rx_fec s)[t := fec_fresh bid ?n])"
    and slots': "slots_ok ((rx_fec s)[t := fec_fresh bid ?n])" and unused: "\<not> blk_used (rx_fec s ! t)"
    using fec_rx_block_get_new [OF slots new n _ fin] kn room False by blast
  have len: "length (rx_fec s) = O4L_FEC_MAX_DATA" using slots by (simp add: slots_ok_def blocks_wf_def)
  have nth: "(rx_fec s)[t := fec_fresh bid ?n] ! i = (if i = t then fec_fresh bid ?n else rx_fec s ! i)" for i
    using t len by simp
  have "blk_used (fec_fresh bid ?n)" "blk_block_id (fec_fresh bid ?n) = bid" by (simp_all add: fec_fresh_def)
  then have "known ((rx_fec s)[t := fec_fresh bid ?n]) b \<longleftrightarrow> b = bid \<or> known (rx_fec s) b" for b
    using known_update_fresh [OF len t unused] by simp
  moreover have "\<exists>i < O4L_FEC_MAX_DATA. rel b (F b) (A b) ((rx_fec s)[t := fec_fresh bid ?n] ! i)"
    if "b \<in> insert bid K" for b
  proof (cases "b = bid")
    case True
    with t tracksD(4) [OF tr False] fresh_rel [OF ok] show ?thesis by (auto simp: nth)
  next
    case ne: False
    with that tracksD(3) [OF tr, of b] obtain i
      where i: "i < O4L_FEC_MAX_DATA" "rel b (F b) (A b) (rx_fec s ! i)" by blast
    with rel_used [OF i(2)] unused have "i \<noteq> t" by auto
    with i show ?thesis by (auto simp: nth)
  qed
  ultimately have "tracks F (insert bid K) A (s\<lparr>rx_fec := (rx_fec s)[t := fec_fresh bid ?n]\<rparr>)"
    using slots' kn tracksD(4) [OF tr] by (intro tracksI) auto
  moreover have "holds t bid (F bid) (A bid) (s\<lparr>rx_fec := (rx_fec s)[t := fec_fresh bid ?n]\<rparr>)"
    using slots' t tracksD(4) [OF tr False] fresh_rel [OF ok] by (simp add: holds_def nth)
  ultimately show ?thesis using get by blast
qed

lemma tracks_step:
  assumes tr: "tracks F K A s" and ok: "block_ok (F bid)" and fin: "finite K"
    and room: "bid \<in> K \<or> card K < O4L_FEC_MAX_DATA"
    and udp: "udp_ok env = (\<lambda>_. True)" and cfg: "cfg_fec_data cfg = int (length (F bid))"
    and e: "event_ok (F bid) e"
  shows "\<exists>s'. rx_fec_payload env cfg (gram_flags e) (gram bid (F bid) e) s = Some (0, s') \<and>
    tracks F (insert bid K) (A(bid := abs_step (F bid) e (A bid))) s' \<and>
    udp_sent (rx_io s') = udp_sent (rx_io s) @ abs_out (F bid) e (A bid)"
proof -
  obtain t blocks where get: "fec_rx_block_get (rx_fec s) bid (of_nat (length (F bid))) = (t, blocks)"
    and h: "holds t bid (F bid) (A bid) (s\<lparr>rx_fec := blocks\<rparr>)"
    and tr': "tracks F (insert bid K) A (s\<lparr>rx_fec := blocks\<rparr>)"
    using tracks_get [OF tr ok fin room] by blast
  obtain s' where run: "rx_fec_payload env cfg (gram_flags e) (gram bid (F bid) e) s = Some (0, s')"
    and h': "holds t bid (F bid) (abs_step (F bid) e (A bid)) s'"
    and d: "delivers t (abs_out (F bid) e (A bid)) (s\<lparr>rx_fec := blocks\<rparr>) s'"
    using rx_fec_gram_at [OF h ok udp cfg e get] by blast
  have same: "rx_fec s' ! i = blocks ! i" if "i \<noteq> t" for i using d that by (simp add: delivers_def)
  have t: "t < O4L_FEC_MAX_DATA" and rt: "rel bid (F bid) (abs_step (F bid) e (A bid)) (rx_fec s' ! t)"
    and ro: "rel bid (F bid) (A bid) (blocks ! t)" using h h' by (simp_all add: holds_def)
  have used: "blk_used (rx_fec s' ! i) = blk_used (blocks ! i)"
    and ids: "blk_block_id (rx_fec s' ! i) = blk_block_id (blocks ! i)" for i
    using same [of i] rel_used [OF rt] rel_used [OF ro] by (cases "i = t"; simp)+
  have "known (rx_fec s') b = known blocks b" for b by (simp add: known_def used ids)
  moreover have "\<exists>i < O4L_FEC_MAX_DATA. rel b (F b) ((A(bid := abs_step (F bid) e (A bid))) b) (rx_fec s' ! i)"
    if b: "b \<in> insert bid K" for b
  proof (cases "b = bid")
    case True
    with t rt show ?thesis by auto
  next
    case ne: False
    with tracksD(3) [OF tr' b] obtain i
      where i: "i < O4L_FEC_MAX_DATA" "rel b (F b) (A b) (blocks ! i)" by auto
    with ne rel_used [OF i(2)] rel_used [OF ro] have "i \<noteq> t" by auto
    with i ne same show ?thesis by auto
  qed
  ultimately have "tracks F (insert bid K) (A(bid := abs_step (F bid) e (A bid))) s'"
    using tracksD(2,4) [OF tr'] h' by (intro tracksI) (auto simp: holds_def)
  with run d show ?thesis by (auto simp: delivers_def)
qed

section \<open>Streams\<close>

text \<open>A stream of datagrams: the flags and the payload of each frame, in the order of arrival.\<close>

definition wire :: "(u32 \<Rightarrow> bytes list) \<Rightarrow> u32 \<times> fec_event \<Rightarrow> u16 \<times> bytes" where
  "wire F e = (gram_flags (snd e), gram (fst e) (F (fst e)) (snd e))"

fun abs_outs :: "bytes list \<Rightarrow> fec_event list \<Rightarrow> fec_abs \<Rightarrow> bytes list" where
  "abs_outs ps [] a = []"
| "abs_outs ps (e # es) a = abs_out ps e a @ abs_outs ps es (abs_step ps e a)"

fun stream_outs :: "(u32 \<Rightarrow> bytes list) \<Rightarrow> (u32 \<times> fec_event) list \<Rightarrow> (u32 \<Rightarrow> fec_abs) \<Rightarrow> bytes list" where
  "stream_outs F [] A = []"
| "stream_outs F (e # es) A = abs_out (F (fst e)) (snd e) (A (fst e)) @
     stream_outs F es (A(fst e := abs_step (F (fst e)) (snd e) (A (fst e))))"

definition events_of :: "u32 \<Rightarrow> (u32 \<times> fec_event) list \<Rightarrow> fec_event list" where
  "events_of bid es = map snd (filter (\<lambda>e. fst e = bid) es)"

lemma events_of_simps [simp]:
  "events_of bid [] = []"
  "events_of bid (e # es) = (if fst e = bid then [snd e] else []) @ events_of bid es"
  by (simp_all add: events_of_def)

text \<open>The stream of several blocks delivers what each block's own stream delivers.\<close>

lemma mset_stream_outs:
  assumes "finite B" and "fst ` set es \<subseteq> B"
  shows "mset (stream_outs F es A) = (\<Sum>b \<in> B. mset (abs_outs (F b) (events_of b es) (A b)))"
  using assms(2)
proof (induction es arbitrary: A)
  case Nil
  then show ?case by simp
next
  case (Cons e es)
  obtain c ev where e: "e = (c, ev)" by (cases e)
  define A' where "A' = A(c := abs_step (F c) ev (A c))"
  define f g where "f = (\<lambda>b. mset (abs_outs (F b) (events_of b (e # es)) (A b)))"
    and "g = (\<lambda>b. mset (abs_outs (F b) (events_of b es) (A' b)))"
  have c: "c \<in> B" using Cons.prems e by auto
  have "sum f B = f c + sum f (B - {c})" and gB: "sum g B = g c + sum g (B - {c})"
    using sum.remove [OF assms(1) c] by blast+
  moreover have "sum f (B - {c}) = sum g (B - {c})"
    by (rule sum.cong) (auto simp: e f_def g_def A'_def)
  moreover have "f c = mset (abs_out (F c) ev (A c)) + g c" by (simp add: e f_def g_def A'_def)
  moreover have "mset (stream_outs F es A') = sum g B"
    using Cons.IH [of A'] Cons.prems by (simp add: g_def)
  moreover have "mset (stream_outs F (e # es) A) = mset (abs_out (F c) ev (A c)) + mset (stream_outs F es A')"
    by (simp only: e stream_outs.simps fst_conv snd_conv A'_def mset_append)
  ultimately show ?case by (simp add: f_def ac_simps)
qed

text \<open>While at most sixteen blocks occur, the next block is known or there is room for it.\<close>

lemma slot_room:
  assumes "finite K" and "card (K \<union> insert b X) \<le> n" and "finite X"
  shows "b \<in> K \<or> card K < n"
proof (rule disjCI)
  assume "\<not> card K < n"
  then have "card (K \<union> insert b X) \<le> card K" using assms(2) by simp
  then have "K = K \<union> insert b X" using assms by (intro card_seteq) auto
  then show "b \<in> K" by blast
qed

section \<open>What a block delivers\<close>

definition data_of :: "fec_event list \<Rightarrow> nat list" where
  "data_of es = concat (map (\<lambda>e. case e of Data i \<Rightarrow> [i] | Parity \<Rightarrow> []) es)"

lemma data_of_simps [simp]:
  "data_of [] = []" "data_of (Data i # es) = i # data_of es" "data_of (Parity # es) = data_of es"
  "data_of (xs @ ys) = data_of xs @ data_of ys"
  by (simp_all add: data_of_def)

lemma set_data_of: "set (data_of es) = {i. Data i \<in> set es}"
  by (induction es) (auto simp: data_of_def split: fec_event.splits)

lemma distinct_data_of: "distinct es \<Longrightarrow> distinct (data_of es)"
proof (induction es)
  case (Cons e es)
  then show ?case by (cases e) (auto simp: set_data_of)
qed simp

lemma abs_outs_snoc:
  "abs_outs ps (es @ [e]) a = abs_outs ps es a @ abs_out ps e (fold (abs_step ps) es a)"
  by (induction es arbitrary: a) auto

text \<open>While shard \<open>m\<close> has not arrived the abstract state is determined by what has.\<close>

lemma missing_lost: "m < k \<Longrightarrow> m \<notin> S \<Longrightarrow> missing k S \<noteq> []"
  by (auto simp: missing_def filter_empty_conv)

lemma missing_single:
  assumes "m < k" and "m \<notin> S" and "length (missing k S) \<le> 1"
  shows "missing k S = [m]"
proof -
  have "m \<in> set (missing k S)" using assms(1,2) by (simp add: set_missing)
  with assms(3) show ?thesis by (cases "missing k S") auto
qed

lemma missing_mono: "missing k (insert i S) = filter (\<lambda>j. j \<noteq> i) (missing k S)"
  by (auto simp: missing_def intro!: filter_cong)

lemma abs_step_lost:
  assumes m: "m < length ps" "m \<notin> S'" and after: "abs_after e (S, par, rcv) = (S', par')"
    and rcv: "rcv \<longrightarrow> par' \<and> length (missing (length ps) S') \<le> 1"
  shows "abs_step ps e (S, par, rcv) = (S', par', par' \<and> length (missing (length ps) S') \<le> 1)"
    and "abs_rebuilt ps e (S, par, rcv) =
      (if \<not> rcv \<and> par' \<and> length (missing (length ps) S') \<le> 1 then [ps ! m] else [])"
proof -
  let ?ms = "missing (length ps) S'"
  have "length ?ms = 1 \<longleftrightarrow> length ?ms \<le> 1" and "length ?ms \<le> 1 \<longrightarrow> ?ms = [m]"
    using missing_lost [OF m] missing_single [OF m] by (auto simp: le_Suc_eq)
  then show "abs_step ps e (S, par, rcv) = (S', par', par' \<and> length ?ms \<le> 1)"
    and "abs_rebuilt ps e (S, par, rcv) = (if \<not> rcv \<and> par' \<and> length ?ms \<le> 1 then [ps ! m] else [])"
    using after rcv by (auto simp: abs_step_def abs_rebuilt_def)
qed

lemma abs_lost:
  assumes m: "m < length ps"
  shows "Data m \<notin> set es \<Longrightarrow>
    fold (abs_step ps) es abs_fresh = (set (data_of es), Parity \<in> set es,
      Parity \<in> set es \<and> length (missing (length ps) (set (data_of es))) \<le> 1) \<and>
    mset (abs_outs ps es abs_fresh) = mset (map ((!) ps) (data_of es)) +
      (if Parity \<in> set es \<and> length (missing (length ps) (set (data_of es))) \<le> 1
       then {#ps ! m#} else {#})"
proof (induction es rule: rev_induct)
  case Nil
  then show ?case by (simp add: abs_fresh_def)
next
  case (snoc e es)
  let ?l = "\<lambda>es. length (missing (length ps) (set (data_of es)))"
  define st where "st = fold (abs_step ps) es abs_fresh"
  have lost: "Data m \<notin> set es" "e \<noteq> Data m" using snoc.prems by auto
  then have mS: "m \<notin> set (data_of (es @ [e]))" by (auto simp: set_data_of)
  have st: "st = (set (data_of es), Parity \<in> set es, Parity \<in> set es \<and> ?l es \<le> 1)"
    and outs: "mset (abs_outs ps es abs_fresh) = mset (map ((!) ps) (data_of es)) +
      (if Parity \<in> set es \<and> ?l es \<le> 1 then {#ps ! m#} else {#})"
    using snoc.IH [OF lost(1)] by (simp_all add: st_def)
  have mono: "?l (es @ [e]) \<le> ?l es" by (cases e) (simp_all add: missing_mono)
  have after: "abs_after e st = (set (data_of (es @ [e])), Parity \<in> set (es @ [e]))"
    by (cases e) (auto simp: st abs_after_def)
  note step = abs_step_lost [OF m mS after [unfolded st], folded st]
  have "abs_outs ps (es @ [e]) abs_fresh = abs_outs ps es abs_fresh @
      (case e of Data i \<Rightarrow> [ps ! i] | Parity \<Rightarrow> []) @ abs_rebuilt ps e st"
    by (simp add: abs_outs_snoc abs_out_def st_def)
  moreover have "fold (abs_step ps) (es @ [e]) abs_fresh = abs_step ps e st" by (simp add: st_def)
  moreover have "map ((!) ps) (data_of (es @ [e])) =
      map ((!) ps) (data_of es) @ (case e of Data i \<Rightarrow> [ps ! i] | Parity \<Rightarrow> [])"
    by (cases e) simp_all
  ultimately show ?case using step outs mono by auto
qed

text \<open>All of a block but one data shard: the block is delivered, duplicates once more each.\<close>

definition one_lost :: "bytes list \<Rightarrow> nat \<Rightarrow> fec_event list \<Rightarrow> bool" where
  "one_lost ps m es \<longleftrightarrow> m < length ps \<and> set es = insert Parity (Data ` ({..<length ps} - {m}))"

lemma one_lost_outs:
  assumes "one_lost ps m es"
  shows "mset (abs_outs ps es abs_fresh) = mset (map ((!) ps) (data_of es)) + {#ps ! m#}"
proof -
  have m: "m < length ps" and lost: "Data m \<notin> set es" and par: "Parity \<in> set es"
    and S: "set (data_of es) = {..<length ps} - {m}"
    using assms by (auto simp: one_lost_def set_data_of)
  have "missing (length ps) ({..<length ps} - {m}) = [m]"
    unfolding missing_def using m by (intro filter_upt_single) auto
  with abs_lost [OF m lost] par S show ?thesis by simp
qed

lemma one_lost_block:
  assumes "one_lost ps m es" and "distinct es"
  shows "mset (abs_outs ps es abs_fresh) = mset ps"
proof -
  have m: "m < length ps" and S: "set (data_of es) = {..<length ps} - {m}"
    using assms(1) by (auto simp: one_lost_def set_data_of)
  have "mset (data_of es) + {#m#} = mset [0..<length ps]"
  proof -
    have "mset (data_of es) = mset_set ({..<length ps} - {m})"
      using mset_set_set [OF distinct_data_of [OF assms(2)]] S by simp
    moreover have "mset_set {..<length ps} = mset_set ({..<length ps} - {m}) + {#m#}"
      using m by (simp add: mset_set.remove)
    ultimately show ?thesis by (simp add: lessThan_atLeast0)
  qed
  then have "image_mset ((!) ps) (mset (data_of es) + {#m#}) = image_mset ((!) ps) (mset [0..<length ps])"
    by simp
  then have "mset (map ((!) ps) (data_of es)) + {#ps ! m#} = mset (map ((!) ps) [0..<length ps])"
    by simp
  with one_lost_outs [OF assms(1)] show ?thesis by (simp add: map_nth)
qed

text \<open>The data shards in any order and then the parity: nothing is added, nothing is lost.\<close>

lemma no_parity_outs:
  "Parity \<notin> set es \<Longrightarrow> fst (snd a) = False \<Longrightarrow>
   abs_outs ps es a = map ((!) ps) (data_of es) \<and> fst (snd (fold (abs_step ps) es a)) = False \<and>
   fst (fold (abs_step ps) es a) = fst a \<union> set (data_of es)"
proof (induction es arbitrary: a)
  case Nil
  then show ?case by simp
next
  case (Cons e es)
  then obtain i S rcv where e: "e = Data i" "a = (S, False, rcv)" by (cases e; cases a) auto
  have "abs_step ps e a = (insert i S, False, rcv)" "abs_out ps e a = [ps ! i]"
    by (simp_all add: e abs_step_def abs_after_def abs_out_def abs_rebuilt_def)
  with Cons.IH [of "(insert i S, False, rcv)"] Cons.prems e show ?case by simp
qed

lemma no_loss_outs:
  assumes "set es = Data ` {..<length ps}"
  shows "abs_outs ps (es @ [Parity]) abs_fresh = map ((!) ps) (data_of es)"
proof -
  obtain S rcv where st: "fold (abs_step ps) es abs_fresh = (S, False, rcv)" and "S = set (data_of es)"
    and outs: "abs_outs ps es abs_fresh = map ((!) ps) (data_of es)"
    using no_parity_outs [of es abs_fresh ps] assms
    by (cases "fold (abs_step ps) es abs_fresh") (auto simp: abs_fresh_def)
  then have "S = {..<length ps}" using assms by (auto simp: set_data_of)
  then have "missing (length ps) S = []" by (auto simp: missing_def filter_empty_conv)
  with st outs show ?thesis
    by (simp add: abs_outs_snoc abs_out_def abs_rebuilt_def abs_after_def)
qed

end
