(* ===== verification/Link_Status.thy ===== *)
theory Link_Status
  imports Link_Io Complex_Main
begin

text \<open>
  The status file of \<^verbatim>\<open>omega4-linkd\<close>: \<open>clamp_unit\<close>, \<open>calc_signal_quality\<close>,
  \<open>json_string\<close> and \<open>write_status_file\<close>. A \<^verbatim>\<open>double\<close> is a rational number
  without rounding; a written file is its list of JSON members, in the order they are printed,
  with the exact value where the code prints two decimals.
\<close>

section \<open>Signal quality\<close>

definition clamp_unit :: "rat \<Rightarrow> rat" where
  "clamp_unit value = (if value < 0 then 0 else if value > 1 then 1 else value)"

definition calc_signal_quality :: "stats \<Rightarrow> rat \<Rightarrow> rat \<Rightarrow> rat \<Rightarrow> rat option" where
  "calc_signal_quality st rx_quality_pct rssi_avg noise_avg =
     (let expected = rx_frames st + rx_lost st in
      if expected = 0 \<and> \<not> have_rssi st then None
      else
        (let pdr = (if expected \<noteq> 0 then clamp_unit (rx_quality_pct / 100) else 1);
             signal_norm =
               (if \<not> have_rssi st then 0
                else (let rssi_norm = clamp_unit ((rssi_avg + 90) / 40) in
                      if have_noise st then
                        (let snr_avg = rssi_avg - noise_avg;
                             snr_norm = clamp_unit ((snr_avg - 5) / 25)
                         in 7 / 10 * snr_norm + 3 / 10 * rssi_norm)
                      else rssi_norm));
             score = clamp_unit (65 / 100 * pdr + 35 / 100 * signal_norm)
         in Some (score * 100)))"

lemma clamp_unit_range: "0 \<le> clamp_unit v \<and> clamp_unit v \<le> 1"
  by (simp add: clamp_unit_def)

lemma clamp_unit_mono: "a \<le> b \<Longrightarrow> clamp_unit a \<le> clamp_unit b"
  by (simp add: clamp_unit_def)

lemma signal_quality_bounds:
  "calc_signal_quality st q r n = Some x \<Longrightarrow> 0 \<le> x \<and> x \<le> 100"
  using clamp_unit_range by (auto simp: calc_signal_quality_def Let_def split: if_splits)

lemma signal_quality_mono:
  assumes "calc_signal_quality st q r n = Some x" and "calc_signal_quality st q' r' n' = Some x'"
    and "q \<le> q'" and "r \<le> r'" and "r - n \<le> r' - n'"
  shows "x \<le> x'"
proof -
  have "clamp_unit (q / 100) \<le> clamp_unit (q' / 100)" using assms(3) by (intro clamp_unit_mono) simp
  moreover have "clamp_unit ((r + 90) / 40) \<le> clamp_unit ((r' + 90) / 40)"
    using assms(4) by (intro clamp_unit_mono) simp
  moreover have "clamp_unit ((r - n - 5) / 25) \<le> clamp_unit ((r' - n' - 5) / 25)"
    using assms(5) by (intro clamp_unit_mono) simp
  ultimately have pdr: "65 / 100 * clamp_unit (q / 100) \<le> 65 / 100 * clamp_unit (q' / 100)"
    and rssi: "3 / 10 * clamp_unit ((r + 90) / 40) \<le> 3 / 10 * clamp_unit ((r' + 90) / 40)"
    and rssi1: "clamp_unit ((r + 90) / 40) \<le> clamp_unit ((r' + 90) / 40)"
    and snr: "7 / 10 * clamp_unit ((r - n - 5) / 25) \<le> 7 / 10 * clamp_unit ((r' - n' - 5) / 25)"
    by simp_all
  show ?thesis
    using assms(1,2) pdr rssi rssi1 snr
    by (auto simp: calc_signal_quality_def Let_def split: if_splits intro!: clamp_unit_mono add_mono)
qed

section \<open>JSON strings\<close>

definition hex_digit :: "nat \<Rightarrow> char" where
  "hex_digit n = (if n < 10 then char_of (48 + n) else char_of (87 + n))"

definition json_char :: "char \<Rightarrow> string" where
  "json_char c =
     (if c = CHR 0x22 \<or> c = CHR 0x5C then [CHR 0x5C, c]
      else if (of_char c :: nat) \<ge> 0x20 then [c]
      else CHR 0x5C # ''u00'' @ [hex_digit (of_char c div 16), hex_digit (of_char c mod 16)])"

definition json_string :: "string \<Rightarrow> string" where
  "json_string s = CHR 0x22 # concat (map json_char s) @ [CHR 0x22]"

text \<open>A reader of JSON strings: it stops at the closing quote and refuses raw control characters.\<close>

fun json_read :: "string \<Rightarrow> (string \<times> string) option" where
  "json_read [] = None"
| "json_read (c # cs) =
     (if c = CHR 0x22 then Some ([], cs)
      else if (of_char c :: nat) < 0x20 then None
      else if c = CHR 0x5C then
        (case cs of
           e # r \<Rightarrow>
             (if e = CHR 0x22 \<or> e = CHR 0x5C then map_option (\<lambda>(s, t). (e # s, t)) (json_read r)
              else if e = CHR ''u'' then
                (case r of
                   a # b # x # y # r' \<Rightarrow>
                     (case (c_digit a, c_digit b, c_digit x, c_digit y) of
                        (Some da, Some db, Some dx, Some dy) \<Rightarrow>
                          (if da = 0 \<and> db = 0 \<and> dx < 16 \<and> dy < 16
                           then map_option (\<lambda>(s, t). (char_of (16 * dx + dy) # s, t)) (json_read r')
                           else None)
                      | _ \<Rightarrow> None)
                 | _ \<Rightarrow> None)
              else None)
         | [] \<Rightarrow> None)
      else map_option (\<lambda>(s, t). (c # s, t)) (json_read cs))"

lemma hex_digit_value: "n < 16 \<Longrightarrow> c_digit (hex_digit n) = Some n"
  by (cases "n < 10") (simp_all add: c_digit_def hex_digit_def Let_def)

lemma json_read_char: "json_read (json_char c @ cs) = map_option (\<lambda>(s, t). (c # s, t)) (json_read cs)"
proof -
  consider "c = CHR 0x22 \<or> c = CHR 0x5C" | "c \<noteq> CHR 0x22" "c \<noteq> CHR 0x5C" "(of_char c :: nat) \<ge> 0x20"
    | "c \<noteq> CHR 0x22" "c \<noteq> CHR 0x5C" "(of_char c :: nat) < 0x20" by fastforce
  then show ?thesis
  proof cases
    case 1
    then show ?thesis by (auto simp: json_char_def)
  next
    case 2
    then show ?thesis by (simp add: json_char_def)
  next
    case 3
    let ?n = "of_char c :: nat"
    have hex: "c_digit (hex_digit (?n div 16)) = Some (?n div 16)"
      "c_digit (hex_digit (?n mod 16)) = Some (?n mod 16)"
      using 3 by (simp_all add: hex_digit_value)
    have "c_digit CHR ''0'' = Some 0" "?n div 16 < 16" using 3 by (simp_all add: c_digit_def)
    with hex 3 show ?thesis by (simp add: json_char_def)
  qed
qed

lemma json_string_read: "json_read (tl (json_string s) @ rest) = Some (s, rest)"
proof -
  have "json_read (concat (map json_char s) @ CHR 0x22 # rest) = Some (s, rest)"
    by (induction s) (simp_all add: json_read_char)
  then show ?thesis by (simp add: json_string_def)
qed

section \<open>The status file\<close>

record status_state =
  ss_start_us :: u64
  ss_last_us :: u64
  ss_last_tx_packets :: u64
  ss_last_tx_bytes :: u64
  ss_last_rx_frames :: u64
  ss_last_rx_frame_bytes :: u64

definition status_zero :: status_state where
  "status_zero = \<lparr>ss_start_us = 0, ss_last_us = 0, ss_last_tx_packets = 0, ss_last_tx_bytes = 0,
     ss_last_rx_frames = 0, ss_last_rx_frame_bytes = 0\<rparr>"

datatype json_val = JStr string | JInt int | JRat rat | JNull

type_synonym json_doc = "(string \<times> json_val) list"

text \<open>
  The file system's answers to the \<open>n\<close>-th attempt, and what it holds: the documents that
  reached the status file, with the time of each. The temporary file is renamed or unlinked on
  every path, so it is not part of the state.
\<close>

record status_env =
  se_pid :: nat
  se_open_ok :: "nat \<Rightarrow> bool"
  se_close_ok :: "nat \<Rightarrow> bool"
  se_rename_ok :: "nat \<Rightarrow> bool"

record status_io =
  sio_tries :: nat
  sio_published :: "(u64 \<times> json_doc) list"

definition status_io_zero :: status_io where
  "status_io_zero = \<lparr>sio_tries = 0, sio_published = []\<rparr>"

definition TMP_PATH_SZ :: nat where "TMP_PATH_SZ = 512"

definition rate_per_s :: "u64 \<Rightarrow> u64 \<Rightarrow> rat \<Rightarrow> rat" where
  "rate_per_s now before dt = (if dt > 0 then of_nat (unat (now - before)) / dt else 0)"

definition u_int :: "'a::len word \<Rightarrow> json_val" where
  "u_int w = JInt (uint w)"

definition status_doc :: "config \<Rightarrow> stats \<Rightarrow> status_state \<Rightarrow> u64 \<Rightarrow> rat \<Rightarrow> json_doc" where
  "status_doc cfg st status now_us dt =
     (let tx_pps = rate_per_s (tx_packets st) (ss_last_tx_packets status) dt;
          tx_bps = rate_per_s (tx_bytes st) (ss_last_tx_bytes status) dt * 8;
          rx_pps = rate_per_s (rx_frames st) (ss_last_rx_frames status) dt;
          rx_bps = rate_per_s (rx_frame_bytes st) (ss_last_rx_frame_bytes status) dt * 8;
          expected = rx_frames st + rx_lost st;
          rx_quality = (if expected \<noteq> 0
            then 100 * of_nat (unat (rx_frames st)) / of_nat (unat expected) else 0);
          rssi_avg = (if rssi_samples st \<noteq> 0
            then of_int (rssi_dbm_sum st) / of_nat (unat (rssi_samples st)) else 0);
          noise_avg = (if noise_samples st \<noteq> 0
            then of_int (noise_dbm_sum st) / of_nat (unat (noise_samples st)) else 0);
          signal_quality_pct = calc_signal_quality st rx_quality rssi_avg noise_avg
      in [(''mode'', JStr (json_string (cfg_mode cfg))), (''iface'', JStr (json_string (cfg_iface cfg))),
          (''stream'', u_int (cfg_stream_id cfg)),
          (''uptime_ms'', JInt (uint (now_us - ss_start_us status) div 1000)),
          (''tx_packets'', u_int (tx_packets st)), (''tx_bytes'', u_int (tx_bytes st)),
          (''tx_pps'', JRat tx_pps), (''tx_bps'', JRat tx_bps),
          (''rx_packets'', u_int (rx_packets st)), (''rx_bytes'', u_int (rx_bytes st)),
          (''rx_frames'', u_int (rx_frames st)), (''rx_frame_bytes'', u_int (rx_frame_bytes st)),
          (''rx_pps'', JRat rx_pps), (''rx_bps'', JRat rx_bps),
          (''rx_lost'', u_int (rx_lost st)), (''rx_out_of_order'', u_int (rx_out_of_order st)),
          (''rx_quality_pct'', JRat rx_quality),
          (''signal_quality_pct'',
             (case signal_quality_pct of Some q \<Rightarrow> JRat q | None \<Rightarrow> JNull)),
          (''rx_bad'', u_int (rx_bad st))] @
         (if have_rssi st then
            [(''rssi_dbm'', JInt (last_rssi_dbm st)), (''rssi_avg_dbm'', JRat rssi_avg),
             (''rssi_min_dbm'', JInt (min_rssi_dbm st)), (''rssi_max_dbm'', JInt (max_rssi_dbm st)),
             (''rssi_samples'', u_int (rssi_samples st))]
          else
            [(''rssi_dbm'', JNull), (''rssi_avg_dbm'', JNull), (''rssi_min_dbm'', JNull),
             (''rssi_max_dbm'', JNull), (''rssi_samples'', JInt 0)]) @
         (if have_noise st then
            [(''noise_dbm'', JInt (last_noise_dbm st)), (''noise_avg_dbm'', JRat noise_avg),
             (''snr_db'', JInt (last_rssi_dbm st - last_noise_dbm st)),
             (''snr_avg_db'', JRat (rssi_avg - noise_avg))]
          else
            [(''noise_dbm'', JNull), (''noise_avg_dbm'', JNull), (''snr_db'', JNull),
             (''snr_avg_db'', JNull)]) @
         [(''fec_recovered'', u_int (fec_recovered st)), (''fec_unusable'', u_int (fec_unusable st))] @
         (if have_rx_sequence st then
            [(''last_rx_sequence'', u_int (last_rx_sequence st)),
             (''last_rx_age_ms'', JInt (uint (now_us - last_rx_us st) div 1000))]
          else [(''last_rx_sequence'', JNull), (''last_rx_age_ms'', JNull)]))"

definition write_status_file ::
  "status_env \<Rightarrow> config \<Rightarrow> stats \<Rightarrow> u64 \<Rightarrow> status_state \<times> status_io \<Rightarrow> int \<times> status_state \<times> status_io" where
  "write_status_file env cfg st now_us x =
     (case x of (status, sio) \<Rightarrow>
      (case cfg_status_file cfg of
         None \<Rightarrow> (0, status, sio)
       | Some path \<Rightarrow>
          (let status = (if ss_start_us status = 0 then status\<lparr>ss_start_us := now_us\<rparr> else status);
               interval_us = of_int (cfg_status_interval_ms cfg) * 1000 :: u64
           in if ss_last_us status \<noteq> 0 \<and> now_us - ss_last_us status < interval_us
              then (0, status, sio)
              else
                (let dt = (if ss_last_us status \<noteq> 0
                           then of_nat (unat (now_us - ss_last_us status)) / 1000000 else 0);
                     doc = status_doc cfg st status now_us dt
                 in if length path + 5 + length (dec_digits (se_pid env)) \<ge> TMP_PATH_SZ
                    then (- 1, status, sio)
                    else
                      (let n = sio_tries sio; sio = sio\<lparr>sio_tries := Suc n\<rparr>
                       in if \<not> se_open_ok env n then (- 1, status, sio)
                          else if \<not> se_close_ok env n then (- 1, status, sio)
                          else if \<not> se_rename_ok env n then (- 1, status, sio)
                          else (0, status\<lparr>ss_last_us := now_us,
                                          ss_last_tx_packets := tx_packets st,
                                          ss_last_tx_bytes := tx_bytes st,
                                          ss_last_rx_frames := rx_frames st,
                                          ss_last_rx_frame_bytes := rx_frame_bytes st\<rparr>,
                                sio\<lparr>sio_published := sio_published sio @ [(now_us, doc)]\<rparr>))))))"

text \<open>
  Two documents in a row are an interval apart, and the state remembers the time of the last.
\<close>

definition status_interval :: "config \<Rightarrow> u64" where
  "status_interval cfg = of_int (cfg_status_interval_ms cfg) * 1000"

fun spaced :: "u64 \<Rightarrow> u64 list \<Rightarrow> bool" where
  "spaced d (a # b # ts) \<longleftrightarrow> (a = 0 \<or> d \<le> b - a) \<and> spaced d (b # ts)"
| "spaced d _ \<longleftrightarrow> True"

definition status_ok :: "config \<Rightarrow> status_state \<times> status_io \<Rightarrow> bool" where
  "status_ok cfg x \<longleftrightarrow> spaced (status_interval cfg) (map fst (sio_published (snd x))) \<and>
     (sio_published (snd x) \<noteq> [] \<longrightarrow> ss_last_us (fst x) = fst (last (sio_published (snd x))))"

lemma spaced_snoc:
  "spaced d ts \<Longrightarrow> ts = [] \<or> last ts = 0 \<or> d \<le> t - last ts \<Longrightarrow> spaced d (ts @ [t])"
  by (induction d ts rule: spaced.induct) auto

lemma status_ok_zero: "status_ok cfg (status_zero, status_io_zero)"
  by (simp add: status_ok_def status_zero_def status_io_zero_def)

lemma status_published:
  assumes "write_status_file env cfg st now (status, sio) = (r, status', sio')"
  shows "(sio_published sio' = sio_published sio \<and> ss_last_us status' = ss_last_us status) \<or>
     ((ss_last_us status = 0 \<or> status_interval cfg \<le> now - ss_last_us status) \<and>
      ss_last_us status' = now \<and> (\<exists>doc. sio_published sio' = sio_published sio @ [(now, doc)]))"
  using assms
  by (auto simp: write_status_file_def status_interval_def Let_def not_less split: option.splits if_splits)

lemma write_status_file_ok:
  assumes "status_ok cfg x"
  shows "status_ok cfg (snd (write_status_file env cfg st now x))"
proof -
  obtain status sio where x: "x = (status, sio)" by (cases x)
  obtain r status' sio' where w: "write_status_file env cfg st now (status, sio) = (r, status', sio')"
    by (cases "write_status_file env cfg st now (status, sio)") auto
  from status_published [OF w] show ?thesis
  proof
    assume "sio_published sio' = sio_published sio \<and> ss_last_us status' = ss_last_us status"
    with assms show ?thesis by (simp add: x w status_ok_def)
  next
    assume h: "(ss_last_us status = 0 \<or> status_interval cfg \<le> now - ss_last_us status) \<and>
      ss_last_us status' = now \<and> (\<exists>doc. sio_published sio' = sio_published sio @ [(now, doc)])"
    then obtain doc where p: "sio_published sio' = sio_published sio @ [(now, doc)]" by blast
    let ?ts = "map fst (sio_published sio)"
    have "spaced (status_interval cfg) ?ts" using assms by (simp add: x status_ok_def)
    moreover have "?ts = [] \<or> last ?ts = 0 \<or> status_interval cfg \<le> now - last ?ts"
      using assms h by (auto simp: x status_ok_def last_map)
    ultimately have "spaced (status_interval cfg) (?ts @ [now])" by (rule spaced_snoc)
    with h p show ?thesis by (simp add: x w status_ok_def)
  qed
qed

end
