(* ===== verification/Link_Loops.thy ===== *)
theory Link_Loops
  imports Link_Fec_Stream Link_Status
begin

text \<open>
  The loops of \<^verbatim>\<open>omega4-linkd\<close>: one iteration of \<open>rx_loop\<close>, \<open>tx_loop\<close> and
  \<open>ping_loop\<close> as a step over what \<open>poll\<close> and \<open>recv\<close> deliver, and what the steps
  keep: the receiver never leaves its arrays, the sequence accounting is exact, the status file
  is written at most once per interval. \<open>None\<close> is an access out of bounds.
\<close>

section \<open>Receiving a frame\<close>

definition seq_account :: "u32 \<Rightarrow> stats \<Rightarrow> stats" where
  "seq_account sequence st =
     (if have_rx_sequence st then
        (let diff = sint (sequence - last_rx_sequence st) in
         if diff > 0 then
           (let st1 = (if diff > 1 then st\<lparr>rx_lost := rx_lost st + of_int (diff - 1)\<rparr> else st)
            in st1\<lparr>last_rx_sequence := sequence\<rparr>)
         else st\<lparr>rx_out_of_order := rx_out_of_order st + 1\<rparr>)
      else st\<lparr>have_rx_sequence := True, last_rx_sequence := sequence\<rparr>)"

definition rx_account :: "o4l_hdr \<Rightarrow> u64 \<Rightarrow> stats \<Rightarrow> stats" where
  "rx_account hdr now st =
     seq_account (hdr_sequence hdr)
       (st\<lparr>rx_frames := rx_frames st + 1,
           rx_frame_bytes := rx_frame_bytes st + ucast (hdr_payload_len hdr),
           last_rx_us := now\<rparr>)"

text \<open>The rest of the receive branch; the flag says that it ends in \<^verbatim>\<open>continue\<close>.\<close>

definition rx_deliver :: "link_env \<Rightarrow> config \<Rightarrow> u16 \<Rightarrow> bytes \<Rightarrow> rx_state \<Rightarrow> (bool \<times> rx_state) option" where
  "rx_deliver env cfg flags payload s =
     (if flags AND (O4L_FLAG_FEC_DATA OR O4L_FLAG_FEC_PARITY) \<noteq> 0 then
        (if cfg_fec_data cfg \<le> 0 then Some (True, count_bad s)
         else map_option (\<lambda>r. (True, snd r)) (rx_fec_payload env cfg flags payload s))
      else
        (case udp_count env payload (rx_st s) (rx_io s) of
           (st, io) \<Rightarrow> Some (False, s\<lparr>rx_st := st, rx_io := io\<rparr>)))"

definition rx_frame :: "link_env \<Rightarrow> config \<Rightarrow> u64 \<Rightarrow> bytes \<Rightarrow> rx_state \<Rightarrow> (bool \<times> rx_state) option" where
  "rx_frame env cfg now frame s =
     do {
       parsed \<leftarrow> parse_frame frame;
       (case parsed of
          None \<Rightarrow> Some (True, count_bad s)
        | Some (hdr, payload) \<Rightarrow>
            if hdr_stream_id hdr \<noteq> cfg_stream_id cfg \<and> cfg_stream_id cfg \<noteq> 0 then Some (True, s)
            else do {
              st \<leftarrow> parse_radiotap_signal frame (rx_st s);
              rx_deliver env cfg (hdr_reserved hdr) payload (s\<lparr>rx_st := rx_account hdr now st\<rparr>)
            })
     }"

section \<open>The loops\<close>

text \<open>
  What one iteration sees: a signal before it, the result of \<open>poll\<close>, and of the \<open>recv\<close>
  when the socket is readable. The clock is read for the frame, for the line of counters on
  stderr (\<open>time\<close>, once to compare and once to store) and for the status file.
\<close>

datatype poll_event =
    Ev_Signal
  | Ev_Eintr
  | Ev_Poll_Fail
  | Ev_Idle
  | Ev_Recv_Fail
  | Ev_Data bytes

record tick =
  tk_event :: poll_event
  tk_frame_us :: u64
  tk_time :: "int \<times> int"
  tk_status_us :: u64

text \<open>The line of \<open>print_stats\<close>, by its fields, with the exact value of the percentage.\<close>

record stats_line =
  sl_tx :: "u64 \<times> u64"
  sl_rx :: "u64 \<times> u64"
  sl_rf_rx :: u64
  sl_lost :: u64
  sl_quality :: rat
  sl_rssi :: "int option"
  sl_bad :: u64
  sl_fec_recovered :: u64
  sl_fec_unusable :: u64

definition print_stats :: "stats \<Rightarrow> stats_line" where
  "print_stats st =
     (let expected = rx_frames st + rx_lost st;
          quality = (if expected \<noteq> 0 then 100 * of_nat (unat (rx_frames st)) / of_nat (unat expected) else 0)
      in \<lparr>sl_tx = (tx_packets st, tx_bytes st), sl_rx = (rx_packets st, rx_bytes st),
          sl_rf_rx = rx_frames st, sl_lost = rx_lost st, sl_quality = quality,
          sl_rssi = (if have_rssi st then Some (last_rssi_dbm st) else None), sl_bad = rx_bad st,
          sl_fec_recovered = fec_recovered st, sl_fec_unusable = fec_unusable st\<rparr>)"

text \<open>At most one line per second of \<open>time\<close>: \<open>last_stats\<close> and the lines printed.\<close>

definition stats_tick ::
  "tick \<Rightarrow> stats \<Rightarrow> int \<times> stats_line list \<Rightarrow> int \<times> stats_line list" where
  "stats_tick tk st prints =
     (if fst (tk_time tk) \<noteq> fst prints then (snd (tk_time tk), snd prints @ [print_stats st]) else prints)"

record rx_loop_state =
  rl_rx :: rx_state
  rl_prints :: "int \<times> stats_line list"
  rl_status :: "status_state \<times> status_io"
  rl_stop :: bool

text \<open>\<open>t0\<close> is the time when the loop is entered.\<close>

definition rx_loop_start :: "int \<Rightarrow> rx_loop_state" where
  "rx_loop_start t0 =
     \<lparr>rl_rx = \<lparr>rx_fec = fec_rx_zero, rx_st = stats_zero, rx_io = io_start\<rparr>,
      rl_prints = (t0, []), rl_status = (status_zero, status_io_zero), rl_stop = False\<rparr>"

definition rx_tail :: "status_env \<Rightarrow> config \<Rightarrow> tick \<Rightarrow> rx_loop_state \<Rightarrow> rx_loop_state" where
  "rx_tail senv cfg tk s =
     s\<lparr>rl_prints := stats_tick tk (rx_st (rl_rx s)) (rl_prints s),
       rl_status := snd (write_status_file senv cfg (rx_st (rl_rx s)) (tk_status_us tk) (rl_status s))\<rparr>"

definition rx_step ::
  "link_env \<Rightarrow> status_env \<Rightarrow> config \<Rightarrow> tick \<Rightarrow> rx_loop_state \<Rightarrow> rx_loop_state option" where
  "rx_step env senv cfg tk s =
     (if rl_stop s then Some s
      else case tk_event tk of
        Ev_Signal \<Rightarrow> Some (s\<lparr>rl_stop := True\<rparr>)
      | Ev_Eintr \<Rightarrow> Some s
      | Ev_Poll_Fail \<Rightarrow> Some (s\<lparr>rl_stop := True\<rparr>)
      | Ev_Idle \<Rightarrow> Some (rx_tail senv cfg tk s)
      | Ev_Recv_Fail \<Rightarrow> Some s
      | Ev_Data bs \<Rightarrow>
          (if bs = [] then Some s
           else do {
             (skip, rx) \<leftarrow> rx_frame env cfg (tk_frame_us tk) (take O4L_MAX_FRAME bs) (rl_rx s);
             let s = s\<lparr>rl_rx := rx\<rparr>;
             Some (if skip then s else rx_tail senv cfg tk s)
           }))"

record tx_loop_state =
  tl_tx :: tx_state
  tl_fec :: fec_tx_state
  tl_prints :: "int \<times> stats_line list"
  tl_status :: "status_state \<times> status_io"
  tl_slept :: "u32 list"
  tl_stop :: bool

definition tx_loop_start :: "int \<Rightarrow> tx_loop_state" where
  "tx_loop_start t0 =
     \<lparr>tl_tx = \<lparr>tx_st = stats_zero, tx_seq = 0, tx_io = io_start\<rparr>, tl_fec = fec_tx_zero,
      tl_prints = (t0, []), tl_status = (status_zero, status_io_zero), tl_slept = [], tl_stop = False\<rparr>"

definition tx_tail :: "status_env \<Rightarrow> config \<Rightarrow> tick \<Rightarrow> tx_loop_state \<Rightarrow> tx_loop_state" where
  "tx_tail senv cfg tk s =
     s\<lparr>tl_prints := stats_tick tk (tx_st (tl_tx s)) (tl_prints s),
       tl_status := snd (write_status_file senv cfg (tx_st (tl_tx s)) (tk_status_us tk) (tl_status s))\<rparr>"

definition tx_step ::
  "link_env \<Rightarrow> status_env \<Rightarrow> config \<Rightarrow> tick \<Rightarrow> tx_loop_state \<Rightarrow> tx_loop_state" where
  "tx_step env senv cfg tk s =
     (if tl_stop s then s
      else case tk_event tk of
        Ev_Signal \<Rightarrow> s\<lparr>tl_stop := True\<rparr>
      | Ev_Eintr \<Rightarrow> s
      | Ev_Poll_Fail \<Rightarrow> s\<lparr>tl_stop := True\<rparr>
      | Ev_Idle \<Rightarrow> tx_tail senv cfg tk s
      | Ev_Recv_Fail \<Rightarrow> tx_tail senv cfg tk s
      | Ev_Data bs \<Rightarrow>
          (let payload = take O4L_MAX_PAYLOAD bs;
               s = (if payload = [] then s
                    else if cfg_fec_data cfg > 0 then
                      (case tx_fec_data env cfg payload (tl_tx s, tl_fec s) of
                         (_, tx, fec) \<Rightarrow> s\<lparr>tl_tx := tx, tl_fec := fec\<rparr>)
                    else s\<lparr>tl_tx := snd (tx_payload env cfg payload (tl_tx s))\<rparr>)
           in tx_tail senv cfg tk s))"

text \<open>
  \<open>ping_loop\<close> sends a numbered text per iteration until a signal or the count; the clock
  value printed into the payload is that of \<open>tk_frame_us\<close>. It sleeps between iterations, for
  a 32-bit number of microseconds.
\<close>

definition ping_payload :: "u32 \<Rightarrow> u64 \<Rightarrow> bytes" where
  "ping_payload seq now =
     map of_char (''omega4-link ping seq='' @ dec_digits (unat seq) @ '' t='' @ dec_digits (unat now))"

definition ping_done :: "config \<Rightarrow> tx_loop_state \<Rightarrow> bool" where
  "ping_done cfg s \<longleftrightarrow> tl_stop s \<or>
     (cfg_count cfg > 0 \<and> sint (tx_seq (tl_tx s)) \<ge> cfg_count cfg)"

definition ping_usleep :: "config \<Rightarrow> u32" where
  "ping_usleep cfg = of_int (cfg_interval_ms cfg) * 1000"

definition ping_step ::
  "link_env \<Rightarrow> status_env \<Rightarrow> config \<Rightarrow> tick \<Rightarrow> tx_loop_state \<Rightarrow> tx_loop_state" where
  "ping_step env senv cfg tk s =
     (if ping_done cfg s then s
      else if tk_event tk = Ev_Signal then s\<lparr>tl_stop := True\<rparr>
      else
        (let s = tx_tail senv cfg tk
               (s\<lparr>tl_tx := snd (tx_payload env cfg (ping_payload (tx_seq (tl_tx s)) (tk_frame_us tk))
                                 (tl_tx s))\<rparr>)
         in s\<lparr>tl_slept := tl_slept s @ [ping_usleep cfg]\<rparr>))"

section \<open>The receiver never leaves its arrays\<close>

lemma parse_frame_total: "\<exists>r. parse_frame frame = Some r"
  using parse_frame_defined [of frame] by (auto simp: defined_def)

lemma parse_radiotap_signal_total: "\<exists>st'. parse_radiotap_signal frame st = Some st'"
  using parse_radiotap_signal_defined [of frame st] by (auto simp: defined_def)

lemma rx_deliver_safe:
  assumes wf: "blocks_wf (rx_fec s)" and len: "length p \<le> O4L_MAX_PAYLOAD"
  shows "\<exists>skip s'. rx_deliver env cfg flags p s = Some (skip, s') \<and> blocks_wf (rx_fec s')"
proof -
  obtain ret s' where "rx_fec_payload env cfg flags p s = Some (ret, s')" and "blocks_wf (rx_fec s')"
    using rx_fec_payload_safe [OF wf len, of env cfg flags] by (auto simp: rx_result_wf_def)
  with wf show ?thesis by (auto simp: rx_deliver_def count_bad_def split: prod.splits)
qed

lemma rx_frame_safe:
  assumes wf: "blocks_wf (rx_fec s)"
  shows "\<exists>skip s'. rx_frame env cfg now frame s = Some (skip, s') \<and> blocks_wf (rx_fec s')"
proof -
  obtain r where r: "parse_frame frame = Some r" using parse_frame_total by blast
  show ?thesis
  proof (cases r)
    case None
    with r wf show ?thesis by (auto simp: rx_frame_def count_bad_def)
  next
    case (Some hp)
    obtain h p where hp: "hp = (h, p)" by (cases hp)
    from r Some hp have len: "length p \<le> O4L_MAX_PAYLOAD" using parse_frame_Some by blast
    obtain st where st: "parse_radiotap_signal frame (rx_st s) = Some st"
      using parse_radiotap_signal_total by blast
    show ?thesis
    proof (cases "hdr_stream_id h \<noteq> cfg_stream_id cfg \<and> cfg_stream_id cfg \<noteq> 0")
      case True
      with r Some hp wf show ?thesis by (auto simp: rx_frame_def)
    next
      case False
      with r Some hp st have "rx_frame env cfg now frame s =
          rx_deliver env cfg (hdr_reserved h) p (s\<lparr>rx_st := rx_account h now st\<rparr>)"
        by (auto simp: rx_frame_def)
      moreover have "blocks_wf (rx_fec (s\<lparr>rx_st := rx_account h now st\<rparr>))" using wf by simp
      ultimately show ?thesis using rx_deliver_safe [OF _ len] by simp
    qed
  qed
qed

definition rx_loop_ok :: "config \<Rightarrow> rx_loop_state \<Rightarrow> bool" where
  "rx_loop_ok cfg s \<longleftrightarrow> blocks_wf (rx_fec (rl_rx s)) \<and> status_ok cfg (rl_status s)"

lemma rx_loop_start_ok: "rx_loop_ok cfg (rx_loop_start t0)"
  by (simp add: rx_loop_ok_def rx_loop_start_def blocks_wf_zero status_ok_zero)

lemma rx_step_safe:
  assumes "rx_loop_ok cfg s"
  shows "\<exists>s'. rx_step env senv cfg tk s = Some s' \<and> rx_loop_ok cfg s'"
proof -
  have tail: "rx_loop_ok cfg (rx_tail senv cfg tk s')" if "rx_loop_ok cfg s'" for s'
    using that write_status_file_ok by (simp add: rx_loop_ok_def rx_tail_def)
  obtain skip rx where "rx_frame env cfg (tk_frame_us tk) (take O4L_MAX_FRAME bs) (rl_rx s) = Some (skip, rx)"
    and "blocks_wf (rx_fec rx)" if "tk_event tk = Ev_Data bs" for bs
    using rx_frame_safe [of "rl_rx s"] assms by (cases "tk_event tk") (fastforce simp: rx_loop_ok_def)+
  with assms tail show ?thesis
    by (cases "tk_event tk") (auto simp: rx_step_def rx_loop_ok_def Let_def)
qed

text \<open>Every run of the receiver is defined and ends in a well-formed state.\<close>

interpretation rx: safe_loop "rx_step env senv cfg" "rx_loop_ok cfg" for env senv cfg
  by unfold_locales (rule rx_step_safe)

section \<open>The sender\<close>

definition fec_tx_ok :: "fec_tx_state \<Rightarrow> bool" where
  "fec_tx_ok fec \<longleftrightarrow> length (ftx_parity fec) = O4L_MAX_PAYLOAD \<and>
     ftx_parity_len fec \<le> O4L_MAX_PAYLOAD - FEC_HDR_SZ"

definition tx_loop_ok :: "config \<Rightarrow> tx_loop_state \<Rightarrow> bool" where
  "tx_loop_ok cfg s \<longleftrightarrow> frames_fit (tl_tx s) \<and> tx_counted (tl_tx s) \<and> fec_tx_ok (tl_fec s) \<and>
     status_ok cfg (tl_status s)"

lemma fec_tx_ok_simps:
  "fec_tx_ok fec \<Longrightarrow> fec_tx_ok (fec_tx_open fec)"
  "fec_tx_ok fec \<Longrightarrow> length p \<le> O4L_MAX_PAYLOAD - FEC_HDR_SZ \<Longrightarrow> fec_tx_ok (fec_tx_add fec p)"
  "fec_tx_ok fec \<Longrightarrow> fec_tx_ok (fec_tx_close fec)"
  by (simp_all add: fec_tx_ok_def fec_tx_open_def fec_tx_add_def fec_tx_close_def Let_def)

lemma tx_fec_data_ok:
  assumes "frames_fit s" and "tx_counted s" and "fec_tx_ok fec"
    and r: "tx_fec_data env cfg p (s, fec) = (ok, s', fec')"
  shows "frames_fit s' \<and> tx_counted s' \<and> fec_tx_ok fec'"
proof -
  let ?p = "take (O4L_MAX_PAYLOAD - FEC_HDR_SZ) p"
  have "length ?p \<le> O4L_MAX_PAYLOAD - FEC_HDR_SZ" by simp
  with assms fec_tx_ok_simps have "fec_tx_ok (fec_tx_add (fec_tx_open fec) ?p)" by blast
  with r assms(1,2) frames_fit_step tx_counted_step fec_tx_ok_simps show ?thesis
    by (simp add: tx_fec_data_def Let_def split: prod.splits if_splits)
      (metis snd_conv)+
qed

lemma tx_step_ok: "tx_loop_ok cfg s \<Longrightarrow> tx_loop_ok cfg (tx_step env senv cfg tk s)"
proof -
  assume ok: "tx_loop_ok cfg s"
  have tail: "tx_loop_ok cfg (tx_tail senv cfg tk s')" if "tx_loop_ok cfg s'" for s'
    using that write_status_file_ok by (simp add: tx_loop_ok_def tx_tail_def)
  have plain: "tx_loop_ok cfg (s\<lparr>tl_tx := snd (tx_payload env cfg p (tl_tx s))\<rparr>)" for p
    using ok frames_fit_step tx_counted_step by (simp add: tx_loop_ok_def tx_payload_def)
  have fec: "tx_loop_ok cfg (case tx_fec_data env cfg p (tl_tx s, tl_fec s) of
      (_, tx, fec) \<Rightarrow> s\<lparr>tl_tx := tx, tl_fec := fec\<rparr>)" for p
    using ok tx_fec_data_ok [of "tl_tx s" "tl_fec s" env cfg p]
    by (auto simp: tx_loop_ok_def split: prod.split)
  have stop: "tx_loop_ok cfg (s\<lparr>tl_stop := True\<rparr>)" using ok by (simp add: tx_loop_ok_def)
  show ?thesis
    using ok stop tail plain fec by (cases "tk_event tk") (simp_all add: tx_step_def Let_def)
qed

lemma tx_loop_start_ok: "tx_loop_ok cfg (tx_loop_start t0)"
  by (simp add: tx_loop_ok_def tx_loop_start_def frames_fit_def tx_counted_def fec_tx_ok_def
      fec_tx_zero_def io_start_def stats_zero_def status_ok_zero)

interpretation tx: event_loop "tx_step env senv cfg" "tx_loop_ok cfg" for env senv cfg
  by unfold_locales (rule tx_step_ok)

section \<open>Sequence accounting\<close>

text \<open>
  Frames that arrive in order, with gaps below \<open>2 ^ 31\<close>: the lost count is exactly the
  number of sequence numbers that were skipped, also over the wrap of the 32-bit counter.
\<close>

fun in_order :: "nat list \<Rightarrow> bool" where
  "in_order (a # b # ns) \<longleftrightarrow> a < b \<and> b - a < 2 ^ 31 \<and> in_order (b # ns)"
| "in_order _ \<longleftrightarrow> True"

lemma sint_diff_small: "a < b \<Longrightarrow> b - a < 2 ^ 31 \<Longrightarrow> sint (of_nat b - of_nat a :: u32) = int (b - a)"
proof -
  assume "a < b" and lt: "b - a < 2 ^ 31"
  then have "(of_nat b - of_nat a :: u32) = of_nat (b - a)" by (simp add: of_nat_diff)
  moreover have "sint (of_nat (b - a) :: u32) = int (b - a)"
    using lt by (simp add: signed_of_nat signed_take_bit_int_eq_self)
  ultimately show ?thesis by simp
qed

lemma seq_account_next:
  assumes "have_rx_sequence st" and "last_rx_sequence st = of_nat a" and "a < b" and "b - a < 2 ^ 31"
  shows "seq_account (of_nat b) st =
    st\<lparr>rx_lost := rx_lost st + of_nat (b - a - 1), last_rx_sequence := of_nat b\<rparr>"
proof -
  have sint: "sint (of_nat b - of_nat a :: u32) = int (b - a)" using sint_diff_small assms by blast
  obtain d where d: "b = a + Suc d" using assms(3) less_iff_Suc_add by auto
  show ?thesis using assms(1,2) sint by (auto simp: seq_account_def Let_def d)
qed

lemma seq_account_in_order:
  assumes "in_order (n # ns)" and "have_rx_sequence st" and "last_rx_sequence st = of_nat n"
  shows "rx_lost (fold (\<lambda>n. seq_account (of_nat n)) ns st) =
      rx_lost st + of_nat (last (n # ns) - n - length ns) \<and>
    rx_out_of_order (fold (\<lambda>n. seq_account (of_nat n)) ns st) = rx_out_of_order st \<and>
    length ns \<le> last (n # ns) - n"
  using assms
proof (induction ns arbitrary: n st)
  case Nil
  then show ?case by simp
next
  case (Cons m ns)
  let ?st = "st\<lparr>rx_lost := rx_lost st + of_nat (m - n - 1), last_rx_sequence := of_nat m\<rparr>"
  have nm: "n < m" "m - n < 2 ^ 31" "in_order (m # ns)" using Cons.prems(1) by simp_all
  have acc: "seq_account (of_nat m) st = ?st" using seq_account_next Cons.prems(2,3) nm by blast
  have IH: "rx_lost (fold (\<lambda>n. seq_account (of_nat n)) ns ?st) =
      rx_lost ?st + of_nat (last (m # ns) - m - length ns) \<and>
    rx_out_of_order (fold (\<lambda>n. seq_account (of_nat n)) ns ?st) = rx_out_of_order ?st \<and>
    length ns \<le> last (m # ns) - m"
    using Cons.IH [OF nm(3), of ?st] Cons.prems(2) by simp
  have "m \<le> last (m # ns)" using nm(3)
  proof (induction ns arbitrary: m)
    case (Cons a ns)
    then show ?case by (fastforce split: if_splits)
  qed simp
  define x y where "x = m - n - 1" and "y = last (m # ns) - m - length ns"
  then have xy: "last (m # ns) - n - Suc (length ns) = x + y" "Suc (length ns) \<le> last (m # ns) - n"
    using IH \<open>m \<le> last (m # ns)\<close> nm(1) by linarith+
  have "rx_lost (fold (\<lambda>n. seq_account (of_nat n)) ns ?st) = rx_lost st + of_nat (x + y) \<and>
      rx_out_of_order (fold (\<lambda>n. seq_account (of_nat n)) ns ?st) = rx_out_of_order st"
    using IH unfolding x_def y_def by (simp del: last.simps)
  with acc xy show ?case by simp
qed

end
