(* ===== verification/Link_Send.thy ===== *)
theory Link_Send
  imports Link_Loops
begin

text \<open>
  What \<open>tx_loop\<close> puts on the air: the frames of a list of datagrams, the datagrams of a block
  of payloads under FEC, and of a sequence of blocks; and what happens when a send fails: the
  block counter of \<open>tx_fec_data\<close> runs past \<open>fec_data\<close> and the parity is never sent again.
\<close>

section \<open>Frames of a list of datagrams\<close>

definition frame_of :: "link_env \<Rightarrow> config \<Rightarrow> nat \<Rightarrow> u32 \<Rightarrow> u16 \<times> bytes \<Rightarrow> bytes" where
  "frame_of env cfg n seq d = build_frame (cfg_stream_id cfg) (fst d) seq (build_us env n) (snd d)"

fun frames :: "link_env \<Rightarrow> config \<Rightarrow> nat \<Rightarrow> u32 \<Rightarrow> (u16 \<times> bytes) list \<Rightarrow> bytes list" where
  "frames env cfg n seq [] = []"
| "frames env cfg n seq (d # ds) = frame_of env cfg n seq d # frames env cfg (Suc n) (seq + 1) ds"

lemma length_frames [simp]: "length (frames env cfg n seq ds) = length ds"
  by (induction ds arbitrary: n seq) auto

lemma nth_frames: "i < length ds \<Longrightarrow>
   frames env cfg n seq ds ! i = frame_of env cfg (n + i) (seq + of_nat i) (ds ! i)"
proof (induction ds arbitrary: i n seq)
  case (Cons d ds)
  then show ?case by (cases i) (simp_all add: ac_simps)
qed simp

lemma frames_append: "frames env cfg n seq (xs @ ys) =
   frames env cfg n seq xs @ frames env cfg (n + length xs) (seq + of_nat (length xs)) ys"
  by (induction xs arbitrary: n seq) (simp_all add: ac_simps)

definition sends :: "link_env \<Rightarrow> config \<Rightarrow> (u16 \<times> bytes) list \<Rightarrow> tx_state \<Rightarrow> tx_state \<Rightarrow> bool" where
  "sends env cfg ds s s' \<longleftrightarrow>
     raw_sent (tx_io s') = raw_sent (tx_io s) @ frames env cfg (raw_tries (tx_io s)) (tx_seq s) ds \<and>
     raw_tries (tx_io s') = raw_tries (tx_io s) + length ds \<and>
     tx_seq s' = tx_seq s + of_nat (length ds)"

lemma sends_refl: "sends env cfg [] s s"
  by (simp add: sends_def)

lemma sends_trans: "sends env cfg xs s t \<Longrightarrow> sends env cfg ys t u \<Longrightarrow> sends env cfg (xs @ ys) s u"
  by (simp add: sends_def frames_append ac_simps)

lemma sends_one:
  assumes "raw_ok env = (\<lambda>_. True)" and "length p \<le> O4L_MAX_PAYLOAD"
  shows "\<exists>s'. tx_payload_flags env cfg fl p s = (True, s') \<and> sends env cfg [(fl, p)] s s'"
proof -
  obtain ok s' where r: "tx_payload_flags env cfg fl p s = (ok, s')" by fastforce
  with tx_payload_flags_ok [of env cfg fl p s] assms(1) have "ok" by simp
  moreover have "sends env cfg [(fl, p)] s s'"
    using tx_payload_flags_frame [of env cfg fl p s] tx_payload_flags_seq [of env cfg fl p s]
      tx_payload_flags_tries [of env cfg fl p s] assms r
    by (simp add: sends_def frame_of_def O4L_MAX_PAYLOAD_def)
  ultimately show ?thesis using r by auto
qed

section \<open>A block of payloads\<close>

text \<open>The accumulator between two payloads of a block: fresh, or holding the first \<open>i\<close>.\<close>

definition tx_ready :: "u32 \<Rightarrow> nat \<Rightarrow> bytes list \<Rightarrow> fec_tx_state \<Rightarrow> bool" where
  "tx_ready bid i ps fec \<longleftrightarrow>
     (if i = 0 then ftx_shards fec = 0 \<and> ftx_block_id fec + 1 = bid else fec_tx_holds bid (take i ps) fec)"

lemma tx_ready_open: "tx_ready bid i ps fec \<Longrightarrow> i < length ps \<Longrightarrow> fec_tx_holds bid (take i ps) (fec_tx_open fec)"
  using fec_tx_holds_open fec_tx_holds_open_id [of bid "take i ps" fec]
  by (cases "i = 0"; cases ps) (auto simp: tx_ready_def)

definition data_dgram :: "u32 \<Rightarrow> bytes list \<Rightarrow> nat \<Rightarrow> u16 \<times> bytes" where
  "data_dgram bid ps i = (gram_flags (Data i), gram bid ps (Data i))"

definition block_dgrams :: "u32 \<Rightarrow> bytes list \<Rightarrow> (u16 \<times> bytes) list" where
  "block_dgrams bid ps = map (data_dgram bid ps) [0..<length ps] @ [(gram_flags Parity, gram bid ps Parity)]"

lemma length_gram: "block_ok ps \<Longrightarrow> event_ok ps e \<Longrightarrow> length (gram bid ps e) \<le> O4L_MAX_PAYLOAD"
  using block_ok_maxlen [of ps] block_ok_len [of ps "ps ! i" for i]
  by (cases e) (auto simp: gram_def data_gram_def parity_gram_def event_ok_def fec_consts)

lemma tx_fec_data_shard:
  assumes ok: "block_ok ps" and cfg: "cfg_fec_data cfg = int (length ps)" and i: "i < length ps"
    and env: "raw_ok env = (\<lambda>_. True)" and rdy: "tx_ready bid i ps fec"
  shows "\<exists>s' fec'. tx_fec_data env cfg (ps ! i) (s, fec) = (True, s', fec') \<and>
    (if Suc i < length ps
     then sends env cfg [data_dgram bid ps i] s s' \<and> tx_ready bid (Suc i) ps fec'
     else sends env cfg [data_dgram bid ps i, (gram_flags Parity, gram bid ps Parity)] s s' \<and>
       ftx_shards fec' = 0 \<and> ftx_block_id fec' = bid)"
proof -
  let ?p = "ps ! i" and ?open = "fec_tx_open fec"
  let ?add = "fec_tx_add ?open ?p"
  have len: "length ?p \<le> 1388" using block_ok_len [OF ok nth_mem [OF i]] .
  then have tk: "take (O4L_MAX_PAYLOAD - FEC_HDR_SZ) ?p = ?p" by (simp add: fec_consts)
  have holds: "fec_tx_holds bid (take i ps) ?open" using tx_ready_open [OF rdy i] .
  then have add: "fec_tx_holds bid (take (Suc i) ps) ?add"
    using fec_tx_holds_add take_Suc_conv_app_nth [OF i] by simp
  have bid: "ftx_block_id ?open = bid" "ftx_shards ?open = i"
    using holds i by (simp_all add: fec_tx_holds_def)
  have dg: "data_dgram bid ps i =
      (O4L_FLAG_FEC_DATA, put_fec (data_fh bid (cfg_fec_data cfg) i ?p) @ ?p)"
    by (simp add: data_dgram_def gram_flags_def gram_def data_gram_def cfg)
  have dlen: "length (snd (data_dgram bid ps i)) \<le> O4L_MAX_PAYLOAD"
    using length_gram [OF ok, of "Data i" bid] i by (simp add: data_dgram_def event_ok_def)
  obtain s1 where s1: "tx_payload_flags env cfg O4L_FLAG_FEC_DATA
      (put_fec (data_fh bid (cfg_fec_data cfg) i ?p) @ ?p) s = (True, s1)"
    and snd1: "sends env cfg [data_dgram bid ps i] s s1"
    using sends_one [OF env dlen [unfolded dg snd_conv], of cfg O4L_FLAG_FEC_DATA s] dg by auto
  have sh: "ftx_shards ?add = Suc i" using add i by (simp add: fec_tx_holds_def)
  show ?thesis
  proof (cases "Suc i < length ps")
    case True
    then have "int (ftx_shards ?add) \<noteq> cfg_fec_data cfg" using sh cfg by simp
    then have "tx_fec_data env cfg ?p (s, fec) = (True, s1, ?add)"
      using tk bid s1 by (simp add: tx_fec_data_def Let_def)
    moreover have "tx_ready bid (Suc i) ps ?add" using add by (simp add: tx_ready_def)
    ultimately show ?thesis using True snd1 by auto
  next
    case False
    then have last: "Suc i = length ps" using i by simp
    then have full: "int (ftx_shards ?add) = cfg_fec_data cfg" using sh cfg by simp
    have acc: "ftx_block_id ?add = bid" "ftx_len_xor ?add = lens_xor ps 0"
      "ftx_parity_len ?add = maxlen ps" "ftx_parity ?add = xor_all ps zeros"
      using add last by (simp_all add: fec_tx_holds_def)
    have pg: "gram bid ps Parity = put_fec (parity_fh bid (cfg_fec_data cfg) (lens_xor ps 0)) @
        take (maxlen ps) (xor_all ps zeros)"
      by (simp add: gram_def parity_gram_def cfg)
    have plen: "length (gram bid ps Parity) \<le> O4L_MAX_PAYLOAD"
      using length_gram [OF ok, of Parity bid] by (simp add: event_ok_def)
    obtain s2 where s2: "tx_payload_flags env cfg O4L_FLAG_FEC_PARITY (gram bid ps Parity) s1 = (True, s2)"
      and snd2: "sends env cfg [(O4L_FLAG_FEC_PARITY, gram bid ps Parity)] s1 s2"
      using sends_one [OF env plen, of cfg O4L_FLAG_FEC_PARITY s1] by auto
    have "tx_fec_data env cfg ?p (s, fec) = (True, s2, fec_tx_close ?add)"
      using tk bid s1 full s2 [unfolded pg] acc by (simp add: tx_fec_data_def Let_def)
    moreover have "sends env cfg [data_dgram bid ps i, (gram_flags Parity, gram bid ps Parity)] s s2"
      using sends_trans [OF snd1 snd2] by (simp add: gram_flags_def)
    moreover have "ftx_shards (fec_tx_close ?add) = 0" "ftx_block_id (fec_tx_close ?add) = bid"
      using acc by (simp_all add: fec_tx_close_def)
    ultimately show ?thesis using False by auto
  qed
qed

definition tx_fec_all ::
  "link_env \<Rightarrow> config \<Rightarrow> bytes list \<Rightarrow> tx_state \<times> fec_tx_state \<Rightarrow> tx_state \<times> fec_tx_state" where
  "tx_fec_all env cfg ps sf = fold (\<lambda>p sf. snd (tx_fec_data env cfg p sf)) ps sf"

lemma tx_fec_all_append: "tx_fec_all env cfg (ps @ qs) sf = tx_fec_all env cfg qs (tx_fec_all env cfg ps sf)"
  by (simp add: tx_fec_all_def)

lemma tx_fec_prefix:
  assumes ok: "block_ok ps" and cfg: "cfg_fec_data cfg = int (length ps)"
    and env: "raw_ok env = (\<lambda>_. True)" and start: "ftx_shards fec = 0" "ftx_block_id fec + 1 = bid"
  shows "i < length ps \<Longrightarrow> \<exists>s' fec'. tx_fec_all env cfg (take i ps) (s, fec) = (s', fec') \<and>
    sends env cfg (map (data_dgram bid ps) [0..<i]) s s' \<and> tx_ready bid i ps fec'"
proof (induction i)
  case 0
  then show ?case using start by (simp add: tx_fec_all_def sends_refl tx_ready_def)
next
  case (Suc i)
  then obtain s1 fec1 where pre: "tx_fec_all env cfg (take i ps) (s, fec) = (s1, fec1)"
    and snd1: "sends env cfg (map (data_dgram bid ps) [0..<i]) s s1" and rdy: "tx_ready bid i ps fec1"
    by auto
  have i: "i < length ps" using Suc.prems by simp
  obtain s2 fec2 where st: "tx_fec_data env cfg (ps ! i) (s1, fec1) = (True, s2, fec2)"
    and snd2: "sends env cfg [data_dgram bid ps i] s1 s2" and rdy2: "tx_ready bid (Suc i) ps fec2"
    using tx_fec_data_shard [OF ok cfg i env rdy, of s1] Suc.prems by auto
  have "tx_fec_all env cfg (take (Suc i) ps) (s, fec) = (s2, fec2)"
    using pre st take_Suc_conv_app_nth [OF i] by (simp add: tx_fec_all_append) (simp add: tx_fec_all_def)
  moreover have "sends env cfg (map (data_dgram bid ps) [0..<Suc i]) s s2"
    using sends_trans [OF snd1 snd2] by simp
  ultimately show ?case using rdy2 by blast
qed

lemma tx_fec_block:
  assumes ok: "block_ok ps" and cfg: "cfg_fec_data cfg = int (length ps)"
    and env: "raw_ok env = (\<lambda>_. True)" and start: "ftx_shards fec = 0"
  shows "\<exists>s' fec'. tx_fec_all env cfg ps (s, fec) = (s', fec') \<and>
    sends env cfg (block_dgrams (ftx_block_id fec + 1) ps) s s' \<and>
    ftx_shards fec' = 0 \<and> ftx_block_id fec' = ftx_block_id fec + 1"
proof -
  let ?bid = "ftx_block_id fec + 1"
  obtain i where i: "length ps = Suc i" using ok by (cases ps) (auto simp: block_ok_def)
  then have il: "i < length ps" by simp
  obtain s1 fec1 where pre: "tx_fec_all env cfg (take i ps) (s, fec) = (s1, fec1)"
    and snd1: "sends env cfg (map (data_dgram ?bid ps) [0..<i]) s s1" and rdy: "tx_ready ?bid i ps fec1"
    using tx_fec_prefix [OF ok cfg env start refl il] by blast
  obtain s2 fec2 where st: "tx_fec_data env cfg (ps ! i) (s1, fec1) = (True, s2, fec2)"
    and snd2: "sends env cfg [data_dgram ?bid ps i, (gram_flags Parity, gram ?bid ps Parity)] s1 s2"
    and fin: "ftx_shards fec2 = 0" "ftx_block_id fec2 = ?bid"
    using tx_fec_data_shard [OF ok cfg il env rdy, of s1] i by auto
  have "ps = take i ps @ [ps ! i]" using i il take_Suc_conv_app_nth [OF il] by simp
  then have "tx_fec_all env cfg ps (s, fec) = tx_fec_all env cfg [ps ! i] (s1, fec1)"
    using pre tx_fec_all_append by metis
  then have "tx_fec_all env cfg ps (s, fec) = (s2, fec2)" using st by (simp add: tx_fec_all_def)
  moreover have "sends env cfg (block_dgrams ?bid ps) s s2"
    using sends_trans [OF snd1 snd2] i by (simp add: block_dgrams_def)
  ultimately show ?thesis using fin by blast
qed

text \<open>A sequence of blocks, numbered from the counter's next value.\<close>

fun blocks_dgrams :: "u32 \<Rightarrow> bytes list list \<Rightarrow> (u16 \<times> bytes) list" where
  "blocks_dgrams bid [] = []"
| "blocks_dgrams bid (ps # pss) = block_dgrams bid ps @ blocks_dgrams (bid + 1) pss"

lemma tx_fec_blocks:
  assumes "\<forall>ps \<in> set pss. block_ok ps \<and> cfg_fec_data cfg = int (length ps)"
    and env: "raw_ok env = (\<lambda>_. True)" and "ftx_shards fec = 0"
  shows "\<exists>s' fec'. tx_fec_all env cfg (concat pss) (s, fec) = (s', fec') \<and>
    sends env cfg (blocks_dgrams (ftx_block_id fec + 1) pss) s s' \<and> ftx_shards fec' = 0"
  using assms(1,3)
proof (induction pss arbitrary: s fec)
  case Nil
  then show ?case by (simp add: tx_fec_all_def sends_refl)
next
  case (Cons ps pss)
  then have ok: "block_ok ps" "cfg_fec_data cfg = int (length ps)" by auto
  obtain s1 fec1 where blk: "tx_fec_all env cfg ps (s, fec) = (s1, fec1)"
    and snd1: "sends env cfg (block_dgrams (ftx_block_id fec + 1) ps) s s1"
    and fin: "ftx_shards fec1 = 0" "ftx_block_id fec1 = ftx_block_id fec + 1"
    using tx_fec_block [OF ok env Cons.prems(2)] by blast
  obtain s2 fec2 where "tx_fec_all env cfg (concat pss) (s1, fec1) = (s2, fec2)"
    and snd2: "sends env cfg (blocks_dgrams (ftx_block_id fec1 + 1) pss) s1 s2" and "ftx_shards fec2 = 0"
    using Cons.IH [OF _ fin(1), of s1] Cons.prems(1) by auto
  with blk sends_trans [OF snd1 snd2] fin(2) show ?case by (simp add: tx_fec_all_append)
qed

section \<open>A failed send\<close>

text \<open>Whether a frame carries a parity shard, and a sender that has sent none.\<close>

definition is_parity :: "bytes \<Rightarrow> bool" where
  "is_parity f = (case parse_frame f of
     Some (Some (h, _)) \<Rightarrow> hdr_reserved h AND O4L_FLAG_FEC_PARITY \<noteq> 0 | _ \<Rightarrow> False)"

lemma is_parity_data: "length p \<le> 1400 \<Longrightarrow> \<not> is_parity (build_frame sid O4L_FLAG_FEC_DATA seq now p)"
  using parse_frame_build [OF rtap_ok_tx, of p sid O4L_FLAG_FEC_DATA seq now "[]"]
  by (simp add: is_parity_def on_air_self fec_consts)

definition no_parity :: "tx_state \<Rightarrow> bool" where
  "no_parity s \<longleftrightarrow> (\<forall>f \<in> set (raw_sent (tx_io s)). \<not> is_parity f)"

lemma no_parity_data: "no_parity s \<Longrightarrow> no_parity (snd (tx_payload_flags env cfg O4L_FLAG_FEC_DATA p s))"
  by (auto simp: no_parity_def tx_payload_flags_frame is_parity_data)

lemma shards_open_add: "ftx_shards (fec_tx_add (fec_tx_open fec) p) = Suc (ftx_shards fec)"
  by (simp add: fec_tx_add_def fec_tx_open_def Let_def)

text \<open>A payload after which the counter does not stand at \<open>fec_data\<close>, or whose send fails.\<close>

lemma tx_fec_data_only:
  assumes "int (Suc (ftx_shards fec)) \<noteq> cfg_fec_data cfg \<or> \<not> raw_ok env (raw_tries (tx_io s))"
    and "tx_fec_data env cfg p (s, fec) = (ok, s', fec')" and "no_parity s"
  shows "no_parity s' \<and> ftx_shards fec' = Suc (ftx_shards fec) \<and>
    raw_tries (tx_io s') = Suc (raw_tries (tx_io s))"
proof -
  let ?p = "take (O4L_MAX_PAYLOAD - FEC_HDR_SZ) p" and ?o = "fec_tx_open fec"
  let ?w = "put_fec (data_fh (ftx_block_id ?o) (cfg_fec_data cfg) (ftx_shards ?o) ?p) @ ?p"
  obtain ok1 s1 where r: "tx_payload_flags env cfg O4L_FLAG_FEC_DATA ?w s = (ok1, s1)" by fastforce
  have "ok1 = raw_ok env (raw_tries (tx_io s))"
    using tx_payload_flags_ok [of env cfg O4L_FLAG_FEC_DATA ?w s] r by simp
  with assms(1,2) r have "s' = s1 \<and> fec' = fec_tx_add ?o ?p"
    by (auto simp: tx_fec_data_def Let_def shards_open_add split: if_splits prod.splits)
  then show ?thesis
    using no_parity_data [OF assms(3), of env cfg ?w] tx_payload_flags_tries [of env cfg O4L_FLAG_FEC_DATA ?w s] r
    by (simp add: shards_open_add)
qed

text \<open>
  The wedged state: the counter has passed \<open>fec_data\<close>. One failed send of the last shard
  of a block leads into it, and no payload leads out.
\<close>

definition wedging :: "nat \<Rightarrow> tx_state \<times> fec_tx_state \<Rightarrow> bool" where
  "wedging k sf \<longleftrightarrow> no_parity (fst sf) \<and>
     (ftx_shards (snd sf) < k \<longrightarrow> raw_tries (tx_io (fst sf)) = ftx_shards (snd sf))"

lemma wedging_step:
  assumes "cfg_fec_data cfg = int k" and "raw_ok env = (\<lambda>n. n \<noteq> k - 1)" and "wedging k sf"
  shows "wedging k (snd (tx_fec_data env cfg p sf))"
proof -
  obtain s fec where sf: "sf = (s, fec)" by (cases sf)
  obtain ok s' fec' where r: "tx_fec_data env cfg p (s, fec) = (ok, s', fec')"
    by (cases "tx_fec_data env cfg p (s, fec)") auto
  have "int (Suc (ftx_shards fec)) \<noteq> cfg_fec_data cfg \<or> \<not> raw_ok env (raw_tries (tx_io s))"
    using assms by (auto simp: sf wedging_def)
  from tx_fec_data_only [OF this r] assms(3) show ?thesis by (auto simp: sf r wedging_def)
qed

lemma wedging_run:
  assumes "cfg_fec_data cfg = int k" and "raw_ok env = (\<lambda>n. n \<noteq> k - 1)"
  shows "wedging k sf \<Longrightarrow> wedging k (tx_fec_all env cfg ps sf)"
  unfolding tx_fec_all_def
proof (induction ps arbitrary: sf)
  case (Cons p ps)
  from Cons.IH [OF wedging_step [OF assms Cons.prems]] show ?case by simp
qed simp

text \<open>What a receiver does with the shards such a sender goes on to send.\<close>

lemma overrun_shard_bad:
  assumes k: "0 < k" "k \<le> O4L_FEC_MAX_DATA" and cfg: "cfg_fec_data cfg = int k"
    and i: "k \<le> i" "i < 256"
  shows "\<exists>s'. rx_fec_payload env cfg O4L_FLAG_FEC_DATA (put_fec (data_fh bid (int k) i p) @ p) s = Some (0, s') \<and>
    rx_st s' = (rx_st s)\<lparr>rx_bad := rx_bad (rx_st s) + 1\<rparr> \<and> rx_io s' = rx_io s"
proof -
  let ?fh = "data_fh bid (int k) i p"
  obtain t blocks where get: "fec_rx_block_get (rx_fec s) (fh_block_id ?fh) (fh_data_shards ?fh) = (t, blocks)"
    by fastforce
  have k16: "k \<le> 16" using k by (simp add: O4L_FEC_MAX_DATA_def)
  have n: "unat (fh_data_shards ?fh) = k" using k16 by (simp add: data_fh_def unat_of_nat_u8)
  have "unat (fh_shard_index ?fh) = i" using i by (simp add: data_fh_def unat_of_nat_u8)
  with n i have bad: "fh_shard_index ?fh \<ge> fh_data_shards ?fh" by (simp add: word_le_nat_alt)
  have "rx_fec_payload env cfg O4L_FLAG_FEC_DATA (put_fec ?fh @ p) s =
      rx_fec_data env ?fh p t (s\<lparr>rx_fec := blocks\<rparr>)"
    using rx_fec_payload_accept [OF n _ _ k(2) _ get, where flags = O4L_FLAG_FEC_DATA] k cfg
    by (simp add: O4L_FLAG_FEC_DATA_def) (simp add: data_fh_def)
  with bad show ?thesis by (simp add: rx_fec_data_def count_bad_def)
qed

end
