(* ===== verification/Link_End_To_End.thy ===== *)
theory Link_End_To_End
  imports Link_Send
begin

text \<open>
  The whole path: datagrams into \<open>tx_loop\<close>, its frames over the air in any order with
  losses, into \<open>rx_loop\<close>, datagrams out. Also what a run of \<open>rx_loop\<close> does to the status
  file under FEC.
\<close>

section \<open>Runs of the sender's loop\<close>

lemma tx_steps_fec:
  assumes "cfg_fec_data cfg > 0" and "map tk_event tks = map Ev_Data ps"
    and "\<forall>p \<in> set ps. p \<noteq> [] \<and> length p \<le> O4L_MAX_PAYLOAD" and "\<not> tl_stop s"
  shows "(tl_tx (fold (tx_step env senv cfg) tks s), tl_fec (fold (tx_step env senv cfg) tks s)) =
    tx_fec_all env cfg ps (tl_tx s, tl_fec s)"
  using assms(2-4)
proof (induction ps arbitrary: tks s)
  case Nil
  then show ?case by (simp add: tx_fec_all_def)
next
  case (Cons p ps)
  then obtain tk tks' where tks: "tks = tk # tks'" "tk_event tk = Ev_Data p"
    "map tk_event tks' = map Ev_Data ps" by (cases tks) auto
  obtain ok tx fec where r: "tx_fec_data env cfg p (tl_tx s, tl_fec s) = (ok, tx, fec)"
    by (cases "tx_fec_data env cfg p (tl_tx s, tl_fec s)") auto
  have p: "p \<noteq> []" "length p \<le> O4L_MAX_PAYLOAD" using Cons.prems(2) by auto
  define s1 where "s1 = tx_step env senv cfg tk s"
  have "tl_tx s1 = tx" "tl_fec s1 = fec" "\<not> tl_stop s1"
    using r tks(2) p Cons.prems(3) assms(1)
    by (simp_all add: s1_def tx_step_def tx_tail_def Let_def O4L_MAX_PAYLOAD_def)
  moreover have "tx_fec_all env cfg (p # ps) (tl_tx s, tl_fec s) = tx_fec_all env cfg ps (tx, fec)"
    using r by (simp add: tx_fec_all_def)
  ultimately show ?case using Cons.IH [OF tks(3), of s1] Cons.prems(2) by (simp add: tks(1) s1_def)
qed

section \<open>Runs of the receiver's loop\<close>

text \<open>A captured frame: the sender's frame behind some radiotap header and before some trailer.\<close>

record capture =
  cap_rtap :: bytes
  cap_trailer :: bytes
  cap_tick :: tick

definition capture_ok :: "bytes \<Rightarrow> capture \<Rightarrow> bool" where
  "capture_ok frame c \<longleftrightarrow> rtap_ok (cap_rtap c) \<and>
     length (on_air (cap_rtap c) frame (cap_trailer c)) \<le> O4L_MAX_FRAME \<and>
     tk_event (cap_tick c) = Ev_Data (on_air (cap_rtap c) frame (cap_trailer c))"

text \<open>A frame under FEC: the step passes its datagram to \<open>rx_fec_payload\<close>, and that is all.\<close>

lemma rx_step_fec:
  assumes cap: "capture_ok (build_frame (cfg_stream_id cfg) fl seq now p) c" and len: "length p \<le> 1400"
    and fl: "fl AND (O4L_FLAG_FEC_DATA OR O4L_FLAG_FEC_PARITY) \<noteq> 0" and cfg: "cfg_fec_data cfg > 0"
    and run: "\<not> rl_stop s"
  shows "\<exists>st. rx_step env senv cfg (cap_tick c) s =
    map_option (\<lambda>r. s\<lparr>rl_rx := snd r\<rparr>) (rx_fec_payload env cfg fl p ((rl_rx s)\<lparr>rx_st := st\<rparr>))"
proof -
  let ?h = "build_hdr (cfg_stream_id cfg) fl seq now p"
  define f where "f = on_air (cap_rtap c) (build_frame (cfg_stream_id cfg) fl seq now p) (cap_trailer c)"
  have ev: "tk_event (cap_tick c) = Ev_Data f" and flen: "length f \<le> O4L_MAX_FRAME"
    and rt: "rtap_ok (cap_rtap c)" using cap by (simp_all add: capture_ok_def f_def)
  have parse: "parse_frame f = Some (Some (?h, p))" unfolding f_def using rt len by (rule parse_frame_build)
  then have ne: "f \<noteq> []" by (auto simp: parse_frame_def link_sizes)
  obtain st where st: "parse_radiotap_signal f (rx_st (rl_rx s)) = Some st"
    using parse_radiotap_signal_total by blast
  let ?st = "rx_account ?h (tk_frame_us (cap_tick c)) st"
  have "rx_frame env cfg (tk_frame_us (cap_tick c)) f (rl_rx s) =
      map_option (\<lambda>r. (True, snd r)) (rx_fec_payload env cfg fl p ((rl_rx s)\<lparr>rx_st := ?st\<rparr>))"
    using parse st fl cfg by (simp add: rx_frame_def rx_deliver_def)
  then have "rx_step env senv cfg (cap_tick c) s =
      map_option (\<lambda>r. s\<lparr>rl_rx := snd r\<rparr>) (rx_fec_payload env cfg fl p ((rl_rx s)\<lparr>rx_st := ?st\<rparr>))"
    using ev flen ne run
    by (cases "rx_fec_payload env cfg fl p ((rl_rx s)\<lparr>rx_st := ?st\<rparr>)")
      (simp_all add: rx_step_def Let_def)
  then show ?thesis by blast
qed

lemma gram_flags_fec: "gram_flags e AND (O4L_FLAG_FEC_DATA OR O4L_FLAG_FEC_PARITY) \<noteq> 0"
  by (cases e) (simp_all add: gram_flags_def fec_consts)

lemma tracks_stats: "tracks F K A (s\<lparr>rx_st := st\<rparr>) = tracks F K A s"
  by (simp add: tracks_def)

text \<open>A frame number of the sender: its block and its place in it.\<close>

definition frame_event :: "nat \<Rightarrow> nat \<Rightarrow> u32 \<times> fec_event" where
  "frame_event k i =
     (of_nat (Suc (i div Suc k)), if i mod Suc k = k then Parity else Data (i mod Suc k))"

definition payloads_of :: "bytes list list \<Rightarrow> u32 \<Rightarrow> bytes list" where
  "payloads_of pss bid = pss ! (unat bid - 1)"

lemma rx_run_fec:
  assumes "tracks F K A (rl_rx s)" and "finite K"
    and "card (K \<union> fst ` set es) \<le> O4L_FEC_MAX_DATA"
    and "\<forall>e \<in> set es. block_ok (F (fst e)) \<and> cfg_fec_data cfg = int (length (F (fst e))) \<and>
      event_ok (F (fst e)) (snd e)"
    and "list_all2 (\<lambda>e c. \<exists>seq now. capture_ok
      (build_frame (cfg_stream_id cfg) (fst (wire F e)) seq now (snd (wire F e))) c) es cs"
    and "\<not> rl_stop s" and udp: "udp_ok env = (\<lambda>_. True)" and cfg: "cfg_fec_data cfg > 0"
  shows "\<exists>s'. c_run (rx_step env senv cfg) (map cap_tick cs) s = Some s' \<and>
    udp_sent (rx_io (rl_rx s')) = udp_sent (rx_io (rl_rx s)) @ stream_outs F es A \<and>
    rl_status s' = rl_status s"
  using assms(1-6)
proof (induction es arbitrary: cs K A s)
  case Nil
  then show ?case by simp
next
  case (Cons e es)
  obtain b ev where e: "e = (b, ev)" by (cases e)
  obtain c cs' where cs: "cs = c # cs'" using Cons.prems(5) by (cases cs) auto
  obtain seq now where cap: "capture_ok
      (build_frame (cfg_stream_id cfg) (gram_flags ev) seq now (gram b (F b) ev)) c"
    using Cons.prems(5) by (auto simp: cs e wire_def)
  have ok: "block_ok (F b)" "cfg_fec_data cfg = int (length (F b))" "event_ok (F b) ev"
    using Cons.prems(4) by (auto simp: e)
  have len: "length (gram b (F b) ev) \<le> 1400"
    using length_gram [OF ok(1,3)] by (simp add: O4L_MAX_PAYLOAD_def)
  have "card (K \<union> insert b (fst ` set es)) \<le> O4L_FEC_MAX_DATA" using Cons.prems(3) by (simp add: e)
  then have room: "b \<in> K \<or> card K < O4L_FEC_MAX_DATA" by (rule slot_room [OF Cons.prems(2)]) simp
  let ?A = "A(b := abs_step (F b) ev (A b))"
  obtain st where step: "rx_step env senv cfg (cap_tick c) s =
      map_option (\<lambda>r. s\<lparr>rl_rx := snd r\<rparr>)
        (rx_fec_payload env cfg (gram_flags ev) (gram b (F b) ev) ((rl_rx s)\<lparr>rx_st := st\<rparr>))"
    using rx_step_fec [OF cap len gram_flags_fec cfg Cons.prems(6)] by blast
  obtain r1 where r1: "rx_fec_payload env cfg (gram_flags ev) (gram b (F b) ev) ((rl_rx s)\<lparr>rx_st := st\<rparr>)
      = Some (0, r1)"
    and tr: "tracks F (insert b K) ?A r1"
    and out: "udp_sent (rx_io r1) = udp_sent (rx_io (rl_rx s)) @ abs_out (F b) ev (A b)"
    using tracks_step [where F = F and bid = b and K = K and A = A and env = env and cfg = cfg and e = ev
      and s = "(rl_rx s)\<lparr>rx_st := st\<rparr>"] Cons.prems(1,2) tracks_stats ok room udp by auto
  let ?s1 = "s\<lparr>rl_rx := r1\<rparr>"
  have s1: "rx_step env senv cfg (cap_tick c) s = Some ?s1" using step r1 by simp
  have IH: "\<exists>s'. c_run (rx_step env senv cfg) (map cap_tick cs') ?s1 = Some s' \<and>
      udp_sent (rx_io (rl_rx s')) = udp_sent (rx_io (rl_rx ?s1)) @ stream_outs F es ?A \<and>
      rl_status s' = rl_status ?s1"
  proof (rule Cons.IH)
    show "tracks F (insert b K) ?A (rl_rx ?s1)" using tr by simp
    show "card (insert b K \<union> fst ` set es) \<le> O4L_FEC_MAX_DATA" using Cons.prems(3) by (simp add: e)
    show "list_all2 (\<lambda>e c. \<exists>seq now. capture_ok
      (build_frame (cfg_stream_id cfg) (fst (wire F e)) seq now (snd (wire F e))) c) es cs'"
      using Cons.prems(5) by (simp add: cs)
  qed (use Cons.prems(2,4,6) in auto)
  have "stream_outs F (e # es) A = abs_out (F b) ev (A b) @ stream_outs F es ?A"
    by (simp only: e stream_outs.simps fst_conv snd_conv)
  with IH s1 out show ?case by (auto simp: cs)
qed

section \<open>From payloads to payloads\<close>

lemma not_known_zero: "\<not> known fec_rx_zero bid"
proof -
  have "\<not> blk_used (fec_rx_zero ! i)" if "i < O4L_FEC_MAX_DATA" for i
    using that by (simp add: fec_rx_zero_def fec_block_zero_def)
  then show ?thesis by (auto simp: known_def)
qed

text \<open>
  What may happen to the frames of a block: one data frame or the parity frame is lost and the
  others arrive in any order, or nothing is lost and the parity comes last.
\<close>

definition block_arrival :: "bytes list \<Rightarrow> fec_event list \<Rightarrow> bool" where
  "block_arrival ps es \<longleftrightarrow> distinct es \<and>
     ((\<exists>m < length ps. set es = insert Parity (Data ` ({..<length ps} - {m}))) \<or>
      set es = Data ` {..<length ps} \<or>
      (es \<noteq> [] \<and> last es = Parity \<and> set (butlast es) = Data ` {..<length ps}))"

lemma all_data:
  assumes "distinct es" and "set es = Data ` {..<length ps}"
  shows "mset (map ((!) ps) (data_of es)) = mset ps"
proof -
  have "set (data_of es) = {..<length ps}" using assms(2) by (auto simp: set_data_of)
  with mset_set_set [OF distinct_data_of [OF assms(1)]] have "mset (data_of es) = mset [0..<length ps]"
    by (simp add: lessThan_atLeast0)
  then have "image_mset ((!) ps) (mset (data_of es)) = image_mset ((!) ps) (mset [0..<length ps])" by simp
  also have "\<dots> = mset (map ((!) ps) [0..<length ps])" by simp
  finally show ?thesis by (simp add: map_nth)
qed

lemma block_arrival_outs:
  assumes "block_arrival ps es"
  shows "mset (abs_outs ps es abs_fresh) = mset ps"
proof -
  have dist: "distinct es" using assms by (simp add: block_arrival_def)
  consider m where "one_lost ps m es" | "set es = Data ` {..<length ps}"
    | "es \<noteq> []" "last es = Parity" "set (butlast es) = Data ` {..<length ps}"
    using assms by (auto simp: block_arrival_def one_lost_def)
  then show ?thesis
  proof cases
    case 1
    then show ?thesis using one_lost_block dist by blast
  next
    case 2
    then have "Parity \<notin> set es" by auto
    with no_parity_outs [of es abs_fresh ps] all_data [OF dist 2] show ?thesis
      by (simp add: abs_fresh_def)
  next
    case 3
    then have es: "es = butlast es @ [Parity]" by (metis append_butlast_last_id)
    have "distinct (butlast es)" using dist by (rule distinct_butlast)
    then show ?thesis using no_loss_outs [OF 3(3)] all_data 3(3) es by metis
  qed
qed

text \<open>The frames the sender has put on the air, by number.\<close>

lemma length_blocks_dgrams:
  "\<forall>ps \<in> set pss. length ps = k \<Longrightarrow> length (blocks_dgrams bid pss) = length pss * Suc k"
  by (induction pss arbitrary: bid) (auto simp: block_dgrams_def)

lemma nth_block_dgrams:
  "i \<le> length ps \<Longrightarrow> block_dgrams bid ps ! i =
     (let e = (if i = length ps then Parity else Data i) in (gram_flags e, gram bid ps e))"
  by (auto simp: block_dgrams_def nth_append data_dgram_def Let_def)

lemma nth_blocks_dgrams:
  assumes "\<forall>ps \<in> set pss. length ps = k" and "i < length pss * Suc k"
  shows "blocks_dgrams bid pss ! i =
    (let e = snd (frame_event k i)
     in (gram_flags e, gram (bid + of_nat (i div Suc k)) (pss ! (i div Suc k)) e))"
  using assms
proof (induction pss arbitrary: bid i)
  case Nil
  then show ?case by simp
next
  case (Cons ps pss)
  have len: "length ps = k" "length (block_dgrams bid ps) = Suc k"
    using Cons.prems(1) by (auto simp: block_dgrams_def)
  show ?case
  proof (cases "i < Suc k")
    case True
    with len nth_block_dgrams [of i ps bid] show ?thesis
      by (simp add: nth_append frame_event_def Let_def)
  next
    case False
    let ?i = "i - Suc k"
    have i: "i div Suc k = Suc (?i div Suc k)" "i mod Suc k = ?i mod Suc k"
      using False by (simp_all add: le_div_geq le_mod_geq)
    have "?i < length pss * Suc k" using Cons.prems(2) False by simp
    with Cons.IH [of ?i "bid + 1"] Cons.prems(1)
    have "blocks_dgrams (bid + 1) pss ! ?i = (let e = snd (frame_event k ?i)
      in (gram_flags e, gram (bid + 1 + of_nat (?i div Suc k)) (pss ! (?i div Suc k)) e))" by simp
    with len False i show ?thesis by (simp add: nth_append frame_event_def Let_def ac_simps)
  qed
qed

text \<open>A sequence of blocks a sender with \<open>--fec k:1\<close> is given, with ids that fit the receiver.\<close>

definition blocks_ok :: "nat \<Rightarrow> bytes list list \<Rightarrow> bool" where
  "blocks_ok k pss \<longleftrightarrow> length pss \<le> O4L_FEC_MAX_DATA \<and>
     (\<forall>ps \<in> set pss. block_ok ps \<and> length ps = k \<and> [] \<notin> set ps)"

definition sent_frames :: "link_env \<Rightarrow> status_env \<Rightarrow> config \<Rightarrow> int \<Rightarrow> tick list \<Rightarrow> bytes list" where
  "sent_frames env senv cfg t0 tks = raw_sent (tx_io (tl_tx (fold (tx_step env senv cfg) tks (tx_loop_start t0))))"

lemma sent_frames_blocks:
  assumes ok: "blocks_ok k pss" and cfg: "cfg_fec_data cfg = int k" "0 < k"
    and env: "raw_ok env = (\<lambda>_. True)" and tks: "map tk_event tks = map Ev_Data (concat pss)"
  shows "sent_frames env senv cfg t0 tks = frames env cfg 0 0 (blocks_dgrams 1 pss)"
proof -
  let ?s = "(tx_loop_start t0)"
  have "\<forall>p \<in> set (concat pss). p \<noteq> [] \<and> length p \<le> O4L_MAX_PAYLOAD"
    using ok block_ok_len by (fastforce simp: blocks_ok_def O4L_MAX_PAYLOAD_def)
  then have "(tl_tx (fold (tx_step env senv cfg) tks ?s), tl_fec (fold (tx_step env senv cfg) tks ?s)) =
      tx_fec_all env cfg (concat pss) (tl_tx ?s, tl_fec ?s)"
    using cfg by (intro tx_steps_fec [OF _ tks]) (simp_all add: tx_loop_start_def)
  moreover obtain s' fec' where "tx_fec_all env cfg (concat pss) (tl_tx ?s, tl_fec ?s) = (s', fec')"
    and "sends env cfg (blocks_dgrams (ftx_block_id (tl_fec ?s) + 1) pss) (tl_tx ?s) s'"
    using tx_fec_blocks [of pss cfg env "tl_fec ?s" "tl_tx ?s"] ok cfg env
    by (auto simp: blocks_ok_def tx_loop_start_def fec_tx_zero_def)
  ultimately show ?thesis
    by (simp add: sent_frames_def sends_def tx_loop_start_def io_start_def fec_tx_zero_def)
qed

lemma frame_event_bounds:
  assumes "k < Suc k" and "i < n * Suc k" and "n \<le> O4L_FEC_MAX_DATA"
  shows "fst (frame_event k i) = of_nat (Suc (i div Suc k))" and "i div Suc k < n"
    and "unat (fst (frame_event k i)) - 1 = i div Suc k"
proof -
  show div: "i div Suc k < n" using assms(2) by (simp add: less_mult_imp_div_less)
  show "fst (frame_event k i) = of_nat (Suc (i div Suc k))" by (simp add: frame_event_def)
  have "Suc (i div Suc k) < 2 ^ 32" using div assms(3) by (simp add: O4L_FEC_MAX_DATA_def)
  then show "unat (fst (frame_event k i)) - 1 = i div Suc k"
    by (simp add: frame_event_def unat_of_nat del: of_nat_Suc)
qed

lemma sum_blocks:
  assumes len: "length pss \<le> O4L_FEC_MAX_DATA"
    and g: "\<And>j. j < length pss \<Longrightarrow> g (of_nat (Suc j) :: u32) = mset (pss ! j)"
  shows "sum g ((\<lambda>j. of_nat (Suc j)) ` {..<length pss}) = mset (concat pss)"
proof -
  have "inj_on (\<lambda>j. of_nat (Suc j) :: u32) {..<length pss}"
  proof (rule inj_onI)
    fix i j assume ij: "i \<in> {..<length pss}" "j \<in> {..<length pss}"
      "(of_nat (Suc i) :: u32) = of_nat (Suc j)"
    have "unat (of_nat (Suc l) :: u32) = Suc l" if "l < length pss" for l
      using that len by (simp add: unat_of_nat O4L_FEC_MAX_DATA_def del: of_nat_Suc)
    with ij have "Suc i = Suc j" by (metis lessThan_iff)
    then show "i = j" by simp
  qed
  then have "sum g ((\<lambda>j. of_nat (Suc j)) ` {..<length pss}) = (\<Sum>j<length pss. mset (pss ! j))"
    using g by (subst sum.reindex) (auto intro: sum.cong)
  also have "\<dots> = (\<Sum>ps \<leftarrow> pss. mset ps)" by (simp add: sum_list_sum_nth lessThan_atLeast0)
  finally show ?thesis by (simp add: mset_concat)
qed

lemma link_delivers_aux:
  assumes ok: "blocks_ok k pss" and k: "0 < k"
    and cfgs: "cfg_fec_data rcfg = int k" and udp: "udp_ok renv = (\<lambda>_. True)"
    and cap: "list_all2 (\<lambda>i c. i < length pss * Suc k \<and> (\<exists>seq now. capture_ok (build_frame (cfg_stream_id rcfg)
        (fst (wire (payloads_of pss) (frame_event k i))) seq now
        (snd (wire (payloads_of pss) (frame_event k i)))) c)) is cs"
    and arr: "\<forall>j < length pss. block_arrival (pss ! j) (events_of (of_nat (Suc j)) (map (frame_event k) is))"
  shows "\<exists>s'. c_run (rx_step renv senv rcfg) (map cap_tick cs) (rx_loop_start t0) = Some s' \<and>
    mset (udp_sent (rx_io (rl_rx s'))) = mset (concat pss)"
proof -
  let ?F = "payloads_of pss" and ?es = "map (frame_event k) is" and ?A = "\<lambda>_. abs_fresh"
  let ?B = "(\<lambda>j. of_nat (Suc j) :: u32) ` {..<length pss}"
  have n: "length pss \<le> O4L_FEC_MAX_DATA" using ok by (simp add: blocks_ok_def)
  have bound: "i < length pss * Suc k" if "i \<in> set is" for i
    using cap that by (auto simp: list_all2_conv_all_nth in_set_conv_nth)
  have F: "?F (fst (frame_event k i)) = pss ! (i div Suc k)" "i div Suc k < length pss"
    if "i \<in> set is" for i
    using frame_event_bounds(2,3) [OF lessI bound [OF that] n] by (simp_all add: payloads_of_def)
  have sub: "fst ` set ?es \<subseteq> ?B" using F(2) by (auto simp: frame_event_def)
  have card: "card ({} \<union> fst ` set ?es) \<le> O4L_FEC_MAX_DATA"
  proof -
    have "card (fst ` set ?es) \<le> card ?B" using sub by (intro card_mono) auto
    also have "\<dots> \<le> length pss" using card_image_le [of "{..<length pss}"] by fastforce
    finally show ?thesis using n by simp
  qed
  have pss: "block_ok (pss ! j)" "length (pss ! j) = k" if "j < length pss" for j
    using ok that by (auto simp: blocks_ok_def)
  have evs: "\<forall>e \<in> set ?es. block_ok (?F (fst e)) \<and> cfg_fec_data rcfg = int (length (?F (fst e))) \<and>
      event_ok (?F (fst e)) (snd e)"
  proof
    fix e assume "e \<in> set ?es"
    then obtain i where i: "i \<in> set is" "e = frame_event k i" by auto
    have "i mod Suc k \<noteq> k \<Longrightarrow> i mod Suc k < k" using mod_less_divisor [of "Suc k" i] by linarith
    then have "event_ok (pss ! (i div Suc k)) (snd e)"
      using pss [OF F(2) [OF i(1)]] i(2) by (auto simp: frame_event_def event_ok_def)
    with F [OF i(1)] pss cfgs i(2) show "block_ok (?F (fst e)) \<and>
        cfg_fec_data rcfg = int (length (?F (fst e))) \<and> event_ok (?F (fst e)) (snd e)" by simp
  qed
  have tr: "tracks ?F {} ?A (rl_rx (rx_loop_start t0))"
    using slots_ok_zero not_known_zero by (simp add: tracks_def rx_loop_start_def)
  have caps: "list_all2 (\<lambda>e c. \<exists>seq now. capture_ok
      (build_frame (cfg_stream_id rcfg) (fst (wire ?F e)) seq now (snd (wire ?F e))) c) ?es cs"
    using cap by (simp add: list_all2_conv_all_nth)
  obtain s' where run: "c_run (rx_step renv senv rcfg) (map cap_tick cs) (rx_loop_start t0) = Some s'"
    and out: "udp_sent (rx_io (rl_rx s')) = stream_outs ?F ?es ?A"
    using rx_run_fec [OF tr _ card evs caps _ udp, of senv] cfgs k
    by (auto simp: rx_loop_start_def io_start_def)
  have "mset (stream_outs ?F ?es ?A) =
      (\<Sum>b \<in> ?B. mset (abs_outs (?F b) (events_of b ?es) abs_fresh))"
    by (rule mset_stream_outs [OF _ sub]) simp
  also have "\<dots> = mset (concat pss)"
  proof (rule sum_blocks [OF n])
    fix j assume j: "j < length pss"
    then have "Suc j < 2 ^ 32" using n by (simp add: O4L_FEC_MAX_DATA_def)
    then have "?F (of_nat (Suc j)) = pss ! j" by (simp add: payloads_of_def unat_of_nat del: of_nat_Suc)
    with block_arrival_outs arr j
    show "mset (abs_outs (?F (of_nat (Suc j))) (events_of (of_nat (Suc j)) ?es) abs_fresh) = mset (pss ! j)"
      by metis
  qed
  finally show ?thesis using run out by auto
qed

end
