(* ===== verification/Link_Main.thy ===== *)
theory Link_Main
  imports Link_Loops
begin

text \<open>
  \<^verbatim>\<open>omega4-linkd\<close> from start to end: \<open>run_cmd\<close> and \<open>setup_wifi\<close>, the
  sockets, the three loops between opening and closing them, and \<open>main\<close>. What the system
  answers is a parameter; the world keeps the commands that were run, the descriptors held and the
  addresses they are bound to. The theorems say which commands run, when a loop is entered, and
  what is left open.
\<close>

section \<open>The system\<close>

definition EINVAL :: int where "EINVAL = 22"

text \<open>How a command ends: no child, no status, killed by a signal, or an exit status.\<close>

datatype cmd_end = Cmd_No_Fork int | Cmd_No_Wait int | Cmd_Signaled | Cmd_Exited int

record linkd_env =
  le_cmd :: "nat \<Rightarrow> cmd_end"
  le_ifindex :: "string \<Rightarrow> u32"
  le_socket_raw :: bool
  le_bind_raw :: bool
  le_socket_udp :: bool
  le_bind_udp :: bool
  le_inet :: "string \<Rightarrow> u32 option"
  le_time :: int
  le_link :: link_env
  le_status :: status_env

record linkd_world =
  lw_cmds :: "string list list"
  lw_perror :: "string list"
  lw_held :: int
  lw_raw :: "u32 option"
  lw_listen :: "u16 option"
  lw_dest :: "(u32 \<times> u16) option"

definition linkd_world_start :: linkd_world where
  "linkd_world_start =
     \<lparr>lw_cmds = [], lw_perror = [], lw_held = 0, lw_raw = None, lw_listen = None, lw_dest = None\<rparr>"

definition lw_fail :: "string \<Rightarrow> linkd_world \<Rightarrow> linkd_world" where
  "lw_fail msg w = w\<lparr>lw_perror := lw_perror w @ [msg]\<rparr>"

definition lw_hold :: "linkd_world \<Rightarrow> linkd_world" where
  "lw_hold w = w\<lparr>lw_held := lw_held w + 1\<rparr>"

definition lw_close :: "linkd_world \<Rightarrow> linkd_world" where
  "lw_close w = w\<lparr>lw_held := lw_held w - 1\<rparr>"

section \<open>Setting up the interface\<close>

text \<open>\<open>None\<close> is success, \<open>Some e\<close> is \<^verbatim>\<open>-1\<close> with \<open>errno\<close> \<open>e\<close>.\<close>

definition run_cmd :: "linkd_env \<Rightarrow> string list \<Rightarrow> linkd_world \<Rightarrow> int option \<times> linkd_world" where
  "run_cmd env argv w =
     (let n = length (lw_cmds w); w = w\<lparr>lw_cmds := lw_cmds w @ [argv]\<rparr> in
      case le_cmd env n of
        Cmd_No_Fork e \<Rightarrow> (Some e, w)
      | Cmd_No_Wait e \<Rightarrow> (Some e, w)
      | Cmd_Signaled \<Rightarrow> (Some EINVAL, w)
      | Cmd_Exited st \<Rightarrow> (if st \<noteq> 0 then Some EINVAL else None, w))"

definition ip_down :: "config \<Rightarrow> string list" where
  "ip_down cfg = [''ip'', ''link'', ''set'', ''dev'', cfg_iface cfg, ''down'']"

definition iw_monitor :: "config \<Rightarrow> string list" where
  "iw_monitor cfg = [''iw'', ''dev'', cfg_iface cfg, ''set'', ''type'', ''monitor'']"

definition ip_up :: "config \<Rightarrow> string list" where
  "ip_up cfg = [''ip'', ''link'', ''set'', ''dev'', cfg_iface cfg, ''up'']"

definition iw_freq :: "config \<Rightarrow> string list" where
  "iw_freq cfg = [''iw'', ''dev'', cfg_iface cfg, ''set'', ''freq'', cfg_freq_mhz cfg, cfg_ht_mode cfg]"

definition setup_wifi :: "linkd_env \<Rightarrow> config \<Rightarrow> linkd_world \<Rightarrow> bool \<times> linkd_world" where
  "setup_wifi env cfg w =
     (let (r, w) = run_cmd env (ip_down cfg) w;
          w = (if r \<noteq> None \<and> r \<noteq> Some EINVAL then lw_fail ''ip link down'' w else w);
          (r, w) = run_cmd env (iw_monitor cfg) w in
      if r \<noteq> None then (False, lw_fail ''iw monitor'' w)
      else
        (let (r, w) = run_cmd env (ip_up cfg) w in
         if r \<noteq> None then (False, lw_fail ''ip link up'' w)
         else
           (let (r, w) = run_cmd env (iw_freq cfg) w in
            if r \<noteq> None then (False, lw_fail ''iw freq'' w) else (True, w))))"

section \<open>Sockets\<close>

text \<open>The Boolean is whether a descriptor is returned.\<close>

definition raw_socket_bind :: "linkd_env \<Rightarrow> string \<Rightarrow> linkd_world \<Rightarrow> bool \<times> linkd_world" where
  "raw_socket_bind env iface w =
     (let ifindex = le_ifindex env iface in
      if ifindex = 0 then (False, lw_fail ''if_nametoindex'' w)
      else if \<not> le_socket_raw env then (False, lw_fail ''socket(AF_PACKET)'' w)
      else
        (let w = lw_hold w in
         if \<not> le_bind_raw env then (False, lw_close (lw_fail ''bind(AF_PACKET)'' w))
         else (True, w\<lparr>lw_raw := Some ifindex\<rparr>)))"

definition udp_rx_socket :: "linkd_env \<Rightarrow> u16 \<Rightarrow> linkd_world \<Rightarrow> bool \<times> linkd_world" where
  "udp_rx_socket env port w =
     (if \<not> le_socket_udp env then (False, lw_fail ''socket udp rx'' w)
      else
        (let w = lw_hold w in
         if \<not> le_bind_udp env then (False, lw_close (lw_fail ''bind udp rx'' w))
         else (True, w\<lparr>lw_listen := Some port\<rparr>)))"

definition udp_tx_socket :: "linkd_env \<Rightarrow> string \<Rightarrow> u16 \<Rightarrow> linkd_world \<Rightarrow> bool \<times> linkd_world" where
  "udp_tx_socket env host port w =
     (if \<not> le_socket_udp env then (False, lw_fail ''socket udp tx'' w)
      else
        (let w = lw_hold w in
         case le_inet env host of
           None \<Rightarrow> (False, lw_close w)
         | Some a \<Rightarrow> (True, w\<lparr>lw_dest := Some (a, port)\<rparr>)))"

section \<open>The loops and main\<close>

text \<open>The status a loop or the program returns is \<open>None\<close> while it runs.\<close>

datatype linkd_loop = No_Loop | Tx_Loop tx_loop_state | Ping_Loop tx_loop_state | Rx_Loop rx_loop_state

type_synonym linkd_result = "int option \<times> linkd_world \<times> linkd_loop"

definition tx_loop :: "linkd_env \<Rightarrow> config \<Rightarrow> tick list \<Rightarrow> linkd_world \<Rightarrow> linkd_result" where
  "tx_loop env cfg tks w =
     (let (udp, w) = udp_rx_socket env (cfg_udp_listen_port cfg) w in
      if \<not> udp then (Some 1, w, No_Loop)
      else
        (let s = fold (tx_step (le_link env) (le_status env) cfg) tks (tx_loop_start (le_time env)) in
         if tl_stop s then (Some 0, lw_close w, Tx_Loop s) else (None, w, Tx_Loop s)))"

definition ping_loop :: "linkd_env \<Rightarrow> config \<Rightarrow> tick list \<Rightarrow> linkd_world \<Rightarrow> linkd_result" where
  "ping_loop env cfg tks w =
     (let s = fold (ping_step (le_link env) (le_status env) cfg) tks (tx_loop_start (le_time env)) in
      (if ping_done cfg s then Some 0 else None, w, Ping_Loop s))"

definition rx_loop :: "linkd_env \<Rightarrow> config \<Rightarrow> tick list \<Rightarrow> linkd_world \<Rightarrow> linkd_result option" where
  "rx_loop env cfg tks w =
     (let (udp, w) = udp_tx_socket env (cfg_udp_dest_host cfg) (cfg_udp_dest_port cfg) w in
      if \<not> udp then Some (Some 1, w, No_Loop)
      else
        map_option (\<lambda>s. if rl_stop s then (Some 0, lw_close w, Rx_Loop s) else (None, w, Rx_Loop s))
          (c_run (rx_step (le_link env) (le_status env) cfg) tks (rx_loop_start (le_time env))))"

definition linkd_main :: "linkd_env \<Rightarrow> string list \<Rightarrow> tick list \<Rightarrow> linkd_result option" where
  "linkd_main env argv tks =
     (case linkd_parse_args argv of
        Args_Help \<Rightarrow> Some (Some 0, linkd_world_start, No_Loop)
      | Args_Error \<Rightarrow> Some (Some 2, linkd_world_start, No_Loop)
      | Args_Ok cfg \<Rightarrow>
          (let (up, w) = (if cfg_setup_wifi cfg then setup_wifi env cfg linkd_world_start
                          else (True, linkd_world_start)) in
           if \<not> up then Some (Some 1, w, No_Loop)
           else
             (let (raw, w) = raw_socket_bind env (cfg_iface cfg) w in
              if \<not> raw then Some (Some 1, w, No_Loop)
              else
                map_option
                  (\<lambda>(ret, w, l). (ret, if ret = None then w else lw_close w, l))
                  (if cfg_mode cfg = ''tx'' then Some (tx_loop env cfg tks w)
                   else if cfg_mode cfg = ''ping'' then Some (ping_loop env cfg tks w)
                   else rx_loop env cfg tks w))))"

section \<open>Which commands run\<close>

definition cmd_ok :: "linkd_env \<Rightarrow> nat \<Rightarrow> bool" where
  "cmd_ok env n \<longleftrightarrow> le_cmd env n = Cmd_Exited 0"

definition setup_cmds :: "config \<Rightarrow> string list list" where
  "setup_cmds cfg = [ip_down cfg, iw_monitor cfg, ip_up cfg, iw_freq cfg]"

text \<open>Taking the interface down may fail; the first of the others that fails is the last that runs.\<close>

definition setup_ok :: "linkd_env \<Rightarrow> bool" where
  "setup_ok env \<longleftrightarrow> cmd_ok env 1 \<and> cmd_ok env 2 \<and> cmd_ok env 3"

definition setup_ran :: "linkd_env \<Rightarrow> nat" where
  "setup_ran env = (if \<not> cmd_ok env 1 then 2 else if \<not> cmd_ok env 2 then 3 else 4)"

lemma lw_simps [simp]:
  "lw_cmds (lw_fail m w) = lw_cmds w" "lw_held (lw_fail m w) = lw_held w"
  "lw_cmds (lw_close w) = lw_cmds w" "lw_held (lw_close w) = lw_held w - 1"
  "lw_cmds (lw_hold w) = lw_cmds w" "lw_held (lw_hold w) = lw_held w + 1"
  "lw_cmds linkd_world_start = []" "lw_held linkd_world_start = 0"
  "lw_listen (lw_fail m w) = lw_listen w" "lw_listen (lw_close w) = lw_listen w" "lw_listen (lw_hold w) = lw_listen w"
  "lw_dest (lw_fail m w) = lw_dest w" "lw_dest (lw_close w) = lw_dest w" "lw_dest (lw_hold w) = lw_dest w"
  by (simp_all add: lw_fail_def lw_close_def lw_hold_def linkd_world_start_def)

lemma run_cmd_effect:
  "run_cmd env argv w = (r, w') \<Longrightarrow>
   w' = w\<lparr>lw_cmds := lw_cmds w @ [argv]\<rparr> \<and> (r = None \<longleftrightarrow> cmd_ok env (length (lw_cmds w)))"
  by (auto simp: run_cmd_def cmd_ok_def Let_def split: cmd_end.splits if_splits)

lemma run_cmd_cases:
  obtains r where "run_cmd env argv w = (r, w\<lparr>lw_cmds := lw_cmds w @ [argv]\<rparr>)"
    and "r = None \<longleftrightarrow> cmd_ok env (length (lw_cmds w))"
  using run_cmd_effect [of env argv w] by (cases "run_cmd env argv w") blast

lemma setup_wifi_effect:
  assumes "lw_cmds w = []"
  obtains w' where "setup_wifi env cfg w = (setup_ok env, w')"
    and "lw_cmds w' = take (setup_ran env) (setup_cmds cfg)" and "lw_held w' = lw_held w"
proof -
  obtain r0 where r0: "run_cmd env (ip_down cfg) w = (r0, w\<lparr>lw_cmds := [ip_down cfg]\<rparr>)"
    using run_cmd_cases [of env "ip_down cfg" w] assms by auto
  let ?w0 = "w\<lparr>lw_cmds := [ip_down cfg]\<rparr>"
  define w1 where "w1 = (if r0 \<noteq> None \<and> r0 \<noteq> Some EINVAL then lw_fail ''ip link down'' ?w0 else ?w0)"
  have w1: "lw_cmds w1 = [ip_down cfg]" "lw_held w1 = lw_held w" by (simp_all add: w1_def)
  define w2 where "w2 = w1\<lparr>lw_cmds := [ip_down cfg, iw_monitor cfg]\<rparr>"
  define w3 where "w3 = w2\<lparr>lw_cmds := [ip_down cfg, iw_monitor cfg, ip_up cfg]\<rparr>"
  define w4 where "w4 = w3\<lparr>lw_cmds := [ip_down cfg, iw_monitor cfg, ip_up cfg, iw_freq cfg]\<rparr>"
  obtain r1 where r1: "run_cmd env (iw_monitor cfg) w1 = (r1, w2)" "r1 = None \<longleftrightarrow> cmd_ok env 1"
    using run_cmd_cases [of env "iw_monitor cfg" w1] w1 by (auto simp: w2_def)
  obtain r2 where r2: "run_cmd env (ip_up cfg) w2 = (r2, w3)" "r2 = None \<longleftrightarrow> cmd_ok env 2"
    using run_cmd_cases [of env "ip_up cfg" w2] by (auto simp: w2_def w3_def numeral_2_eq_2)
  obtain r3 where r3: "run_cmd env (iw_freq cfg) w3 = (r3, w4)" "r3 = None \<longleftrightarrow> cmd_ok env 3"
    using run_cmd_cases [of env "iw_freq cfg" w3] by (auto simp: w3_def w4_def numeral_3_eq_3)
  have held: "lw_held w2 = lw_held w" "lw_held w3 = lw_held w" "lw_held w4 = lw_held w"
    using w1 by (simp_all add: w2_def w3_def w4_def)
  have cmds: "lw_cmds w2 = take 2 (setup_cmds cfg)" "lw_cmds w3 = take 3 (setup_cmds cfg)"
    "lw_cmds w4 = take 4 (setup_cmds cfg)" by (simp_all add: w2_def w3_def w4_def setup_cmds_def)
  have run: "setup_wifi env cfg w =
      (if r1 \<noteq> None then (False, lw_fail ''iw monitor'' w2)
       else if r2 \<noteq> None then (False, lw_fail ''ip link up'' w3)
       else if r3 \<noteq> None then (False, lw_fail ''iw freq'' w4) else (True, w4))"
    by (simp only: setup_wifi_def r0 Let_def prod.case w1_def [symmetric] r1(1) r2(1) r3(1))
  show ?thesis
    by (rule that [of "snd (setup_wifi env cfg w)"])
      (use run r1(2) r2(2) r3(2) held cmds in \<open>auto simp: setup_ok_def setup_ran_def\<close>)
qed

section \<open>Which descriptors stay open\<close>

text \<open>Each function keeps the descriptor it returns and no other, and runs no command.\<close>

lemma sockets_effect:
  "raw_socket_bind env iface w = (ok, w') \<Longrightarrow>
     (ok \<longleftrightarrow> le_ifindex env iface \<noteq> 0 \<and> le_socket_raw env \<and> le_bind_raw env) \<and>
     lw_held w' = lw_held w + of_bool ok \<and> lw_cmds w' = lw_cmds w"
  "udp_rx_socket env port w = (ok, w') \<Longrightarrow>
     (ok \<longleftrightarrow> le_socket_udp env \<and> le_bind_udp env) \<and>
     lw_held w' = lw_held w + of_bool ok \<and> lw_cmds w' = lw_cmds w"
  "udp_tx_socket env host port w = (ok, w') \<Longrightarrow>
     (ok \<longleftrightarrow> le_socket_udp env \<and> le_inet env host \<noteq> None) \<and>
     lw_held w' = lw_held w + of_bool ok \<and> lw_cmds w' = lw_cmds w"
  by (auto simp: raw_socket_bind_def udp_rx_socket_def udp_tx_socket_def Let_def
      split: if_splits option.splits)

definition udp_ready :: "linkd_env \<Rightarrow> config \<Rightarrow> bool" where
  "udp_ready env cfg \<longleftrightarrow>
     (if cfg_mode cfg = ''tx'' then le_socket_udp env \<and> le_bind_udp env
      else if cfg_mode cfg = ''ping'' then True
      else le_socket_udp env \<and> le_inet env (cfg_udp_dest_host cfg) \<noteq> None)"

definition linkd_ready :: "linkd_env \<Rightarrow> config \<Rightarrow> bool" where
  "linkd_ready env cfg \<longleftrightarrow> (cfg_setup_wifi cfg \<longrightarrow> setup_ok env) \<and>
     le_ifindex env (cfg_iface cfg) \<noteq> 0 \<and> le_socket_raw env \<and> le_bind_raw env \<and> udp_ready env cfg"

text \<open>The run of the loop of a mode, and whether it has ended.\<close>

definition mode_loop :: "linkd_env \<Rightarrow> config \<Rightarrow> tick list \<Rightarrow> linkd_loop option" where
  "mode_loop env cfg tks =
     (let l = le_link env; st = le_status env; t0 = le_time env in
      if cfg_mode cfg = ''tx'' then Some (Tx_Loop (fold (tx_step l st cfg) tks (tx_loop_start t0)))
      else if cfg_mode cfg = ''ping'' then Some (Ping_Loop (fold (ping_step l st cfg) tks (tx_loop_start t0)))
      else map_option Rx_Loop (c_run (rx_step l st cfg) tks (rx_loop_start t0)))"

fun loop_ended :: "config \<Rightarrow> linkd_loop \<Rightarrow> bool" where
  "loop_ended cfg No_Loop = True"
| "loop_ended cfg (Tx_Loop s) = tl_stop s"
| "loop_ended cfg (Ping_Loop s) = ping_done cfg s"
| "loop_ended cfg (Rx_Loop s) = rl_stop s"

definition run_mode :: "linkd_env \<Rightarrow> config \<Rightarrow> tick list \<Rightarrow> linkd_world \<Rightarrow> linkd_result option" where
  "run_mode env cfg tks w =
     (if cfg_mode cfg = ''tx'' then Some (tx_loop env cfg tks w)
      else if cfg_mode cfg = ''ping'' then Some (ping_loop env cfg tks w)
      else rx_loop env cfg tks w)"

lemma run_mode_effect:
  obtains ret w' l where "run_mode env cfg tks w = Some (ret, w', l)" and "lw_cmds w' = lw_cmds w"
    and "udp_ready env cfg \<Longrightarrow> mode_loop env cfg tks = Some l \<and> ret = (if loop_ended cfg l then Some 0 else None) \<and>
      lw_held w' = lw_held w + of_bool (ret = None \<and> cfg_mode cfg \<noteq> ''ping'')"
    and "\<not> udp_ready env cfg \<Longrightarrow> l = No_Loop \<and> ret = Some 1 \<and> lw_held w' = lw_held w"
proof -
  obtain s where s: "c_run (rx_step (le_link env) (le_status env) cfg) tks (rx_loop_start (le_time env)) = Some s"
    using rx.run_safe [OF rx_loop_start_ok] by blast
  obtain a wa where a: "udp_rx_socket env (cfg_udp_listen_port cfg) w = (a, wa)" by force
  obtain b wb where b: "udp_tx_socket env (cfg_udp_dest_host cfg) (cfg_udp_dest_port cfg) w = (b, wb)" by force
  note eff = sockets_effect(2) [OF a] sockets_effect(3) [OF b]
  have "\<exists>ret w' l. run_mode env cfg tks w = Some (ret, w', l) \<and> lw_cmds w' = lw_cmds w \<and>
     (udp_ready env cfg \<longrightarrow> mode_loop env cfg tks = Some l \<and> ret = (if loop_ended cfg l then Some 0 else None) \<and>
        lw_held w' = lw_held w + of_bool (ret = None \<and> cfg_mode cfg \<noteq> ''ping'')) \<and>
     (\<not> udp_ready env cfg \<longrightarrow> l = No_Loop \<and> ret = Some 1 \<and> lw_held w' = lw_held w)"
    using a b eff s
    by (auto simp: run_mode_def tx_loop_def ping_loop_def rx_loop_def mode_loop_def udp_ready_def Let_def)
  then show ?thesis using that by blast
qed

lemma linkd_main_effect:
  assumes "linkd_parse_args argv = Args_Ok cfg"
  obtains ret w l where "linkd_main env argv tks = Some (ret, w, l)"
    and "lw_cmds w = (if cfg_setup_wifi cfg then take (setup_ran env) (setup_cmds cfg) else [])"
    and "linkd_ready env cfg \<Longrightarrow> mode_loop env cfg tks = Some l \<and> ret = (if loop_ended cfg l then Some 0 else None) \<and>
      lw_held w = (if ret \<noteq> None then 0 else if cfg_mode cfg = ''ping'' then 1 else 2)"
    and "\<not> linkd_ready env cfg \<Longrightarrow> l = No_Loop \<and> ret = Some 1 \<and> lw_held w = 0"
proof -
  define up where "up = (if cfg_setup_wifi cfg then setup_wifi env cfg linkd_world_start else (True, linkd_world_start))"
  obtain wi where "setup_wifi env cfg linkd_world_start = (setup_ok env, wi)"
    and "lw_cmds wi = take (setup_ran env) (setup_cmds cfg)" and "lw_held wi = 0"
    by (rule setup_wifi_effect [of linkd_world_start env cfg]) simp_all
  then obtain w0 where up: "up = (cfg_setup_wifi cfg \<longrightarrow> setup_ok env, w0)"
    and cmds: "lw_cmds w0 = (if cfg_setup_wifi cfg then take (setup_ran env) (setup_cmds cfg) else [])"
    and held0: "lw_held w0 = 0"
    by (cases "cfg_setup_wifi cfg") (auto simp: up_def)
  obtain raw w1 where raw: "raw_socket_bind env (cfg_iface cfg) w0 = (raw, w1)" by force
  note eff = sockets_effect(1) [OF raw]
  obtain ret w2 l where run: "run_mode env cfg tks w1 = Some (ret, w2, l)" and c2: "lw_cmds w2 = lw_cmds w1"
    and ready: "udp_ready env cfg \<Longrightarrow> mode_loop env cfg tks = Some l \<and> ret = (if loop_ended cfg l then Some 0 else None) \<and>
      lw_held w2 = lw_held w1 + of_bool (ret = None \<and> cfg_mode cfg \<noteq> ''ping'')"
    and unready: "\<not> udp_ready env cfg \<Longrightarrow> l = No_Loop \<and> ret = Some 1 \<and> lw_held w2 = lw_held w1"
    using run_mode_effect [of env cfg tks w1] by blast
  have main: "linkd_main env argv tks =
      (if \<not> (cfg_setup_wifi cfg \<longrightarrow> setup_ok env) then Some (Some 1, w0, No_Loop)
       else if \<not> raw then Some (Some 1, w1, No_Loop)
       else Some (ret, if ret = None then w2 else lw_close w2, l))"
    using up raw run by (simp add: linkd_main_def assms up_def run_mode_def)
  consider "\<not> (cfg_setup_wifi cfg \<longrightarrow> setup_ok env)" | "cfg_setup_wifi cfg \<longrightarrow> setup_ok env" "\<not> raw"
    | "cfg_setup_wifi cfg \<longrightarrow> setup_ok env" "raw" by blast
  then show ?thesis
  proof cases
    case 1
    with main have "linkd_main env argv tks = Some (Some 1, w0, No_Loop)" by simp
    from that [OF this] show ?thesis using 1 cmds held0 by (auto simp: linkd_ready_def)
  next
    case 2
    with main have "linkd_main env argv tks = Some (Some 1, w1, No_Loop)" by simp
    moreover have "\<not> linkd_ready env cfg" using 2 eff by (auto simp: linkd_ready_def)
    ultimately show ?thesis using that [of "Some 1" w1 No_Loop] 2 cmds held0 eff by simp
  next
    case 3
    with main have run: "linkd_main env argv tks = Some (ret, if ret = None then w2 else lw_close w2, l)"
      by simp
    have "linkd_ready env cfg = udp_ready env cfg" using 3 eff by (simp add: linkd_ready_def)
    with 3 cmds held0 eff c2 ready unready that [OF run] show ?thesis
      by (cases "udp_ready env cfg") auto
  qed
qed

text \<open>The pause of \<open>ping_loop\<close> is the interval that was asked for up to 4294967 ms and a
  different one beyond, where the product passes 32 bits.\<close>

lemma ping_usleep_exact:
  assumes "0 < cfg_interval_ms cfg" and "cfg_interval_ms cfg < 2 ^ 31"
  shows "uint (ping_usleep cfg) = cfg_interval_ms cfg * 1000 \<longleftrightarrow> cfg_interval_ms cfg \<le> 4294967"
proof -
  have "uint (ping_usleep cfg) = cfg_interval_ms cfg * 1000 mod 2 ^ 32"
    by (simp add: ping_usleep_def uint_mult_lem uint_word_ariths take_bit_eq_mod uint_word_of_int mod_simps)
  moreover have "x mod 2 ^ 32 = x \<longleftrightarrow> x < 2 ^ 32" if "0 \<le> x" for x :: int
    using that by (metis mod_pos_pos_trivial pos_mod_bound zero_less_numeral zero_less_power)
  ultimately show ?thesis using assms by auto
qed

end
