(* ===== verification/Link_Correct.thy ===== *)
theory Link_Correct
  imports Link_End_To_End Link_Main
begin

text \<open>
  The properties of \<^verbatim>\<open>omega4-linkd\<close>, over the definitions of its components, and the
  concrete inputs they are applied to.
\<close>

section \<open>Concrete inputs\<close>

definition ok_env :: link_env where
  "ok_env = \<lparr>raw_ok = (\<lambda>_. True), udp_ok = (\<lambda>_. True), build_us = of_nat\<rparr>"

definition ok_status :: status_env where
  "ok_status = \<lparr>se_pid = 1234, se_open_ok = (\<lambda>_. True), se_close_ok = (\<lambda>_. True), se_rename_ok = (\<lambda>_. True)\<rparr>"

definition fec_cfg :: "int \<Rightarrow> config" where
  "fec_cfg k = linkd_defaults\<lparr>cfg_fec_data := k, cfg_fec_parity := 1\<rparr>"

definition data_tick :: "bytes \<Rightarrow> tick" where
  "data_tick p = \<lparr>tk_event = Ev_Data p, tk_frame_us = 5, tk_time = (0, 0), tk_status_us = 7\<rparr>"

text \<open>A capture whose radiotap header is the one that was sent, with nothing behind the frame.\<close>

definition self_capture :: "bytes \<Rightarrow> capture" where
  "self_capture f = \<lparr>cap_rtap = radiotap_tx, cap_trailer = [], cap_tick = data_tick (on_air radiotap_tx f [])\<rparr>"

lemma self_capture_ok: "8 \<le> length f \<Longrightarrow> length f \<le> O4L_MAX_FRAME \<Longrightarrow> capture_ok f (self_capture f)"
  by (simp add: capture_ok_def self_capture_def data_tick_def rtap_ok_tx on_air_def RADIOTAP_SZ_def
      O4L_MAX_FRAME_def)

section \<open>The link as a whole\<close>

text \<open>C1: End to end delivery under FEC. A sender with \<open>--fec k:1\<close> is given up to sixteen
  blocks of \<open>k\<close> non-empty datagrams of at most 1388 bytes. Its frames reach the receiver in any
  order, the blocks interleaved, each behind any radiotap header and before any trailer, and of
  each block any one data frame or the parity frame is lost (or none, with the parity last). Then
  the receiver runs without leaving its arrays and hands exactly the datagrams of the blocks to
  its UDP socket: nothing is missing, changed or delivered twice.\<close>

theorem link_delivers_despite_loss:
  assumes "blocks_ok k pss" and "0 < k" and "cfg_fec_data tcfg = int k" and "cfg_fec_data rcfg = int k"
    and "cfg_stream_id rcfg = cfg_stream_id tcfg"
    and "raw_ok tenv = (\<lambda>_. True)" and "udp_ok renv = (\<lambda>_. True)"
    and "map tk_event tks = map Ev_Data (concat pss)"
    and "fs = sent_frames tenv tsenv tcfg t0 tks"
    and "list_all2 (\<lambda>i c. i < length fs \<and> capture_ok (fs ! i) c) is cs"
    and "\<forall>j < length pss. block_arrival (pss ! j) (events_of (of_nat (Suc j)) (map (frame_event k) is))"
  shows "\<exists>s'. c_run (rx_step renv rsenv rcfg) (map cap_tick cs) (rx_loop_start t1) = Some s' \<and>
    mset (udp_sent (rx_io (rl_rx s'))) = mset (concat pss)"
proof (rule link_delivers_aux [OF assms(1,2,4,7) _ assms(11)])
  have k: "\<forall>ps \<in> set pss. length ps = k" and n: "length pss \<le> O4L_FEC_MAX_DATA"
    using assms(1) by (auto simp: blocks_ok_def)
  have fs: "fs = frames tenv tcfg 0 0 (blocks_dgrams 1 pss)"
    using sent_frames_blocks [OF assms(1,3,2,6,8)] assms(9) by simp
  have frame: "fs ! i = build_frame (cfg_stream_id rcfg) (fst (wire (payloads_of pss) (frame_event k i)))
      (of_nat i) (build_us tenv i) (snd (wire (payloads_of pss) (frame_event k i)))"
    if i: "i < length pss * Suc k" for i
    using nth_frames [of i "blocks_dgrams 1 pss" tenv tcfg 0 0] nth_blocks_dgrams [OF k i, of 1] i
      frame_event_bounds [OF lessI i n] length_blocks_dgrams [OF k, of 1] assms(5)
    by (simp add: fs frame_of_def wire_def payloads_of_def Let_def)
  show "list_all2 (\<lambda>i c. i < length pss * Suc k \<and> (\<exists>seq now. capture_ok (build_frame (cfg_stream_id rcfg)
      (fst (wire (payloads_of pss) (frame_event k i))) seq now
      (snd (wire (payloads_of pss) (frame_event k i)))) c)) is cs"
    using assms(10)
  proof (rule list_all2_mono)
    fix i c assume "i < length fs \<and> capture_ok (fs ! i) c"
    moreover have "length fs = length pss * Suc k" using length_blocks_dgrams [OF k] by (simp add: fs)
    ultimately have "i < length pss * Suc k" and "capture_ok (fs ! i) c" by simp_all
    with frame [OF this(1)] show "i < length pss * Suc k \<and> (\<exists>seq now. capture_ok (build_frame (cfg_stream_id rcfg)
        (fst (wire (payloads_of pss) (frame_event k i))) seq now
        (snd (wire (payloads_of pss) (frame_event k i)))) c)"
      by metis
  qed
qed

definition two_blocks :: "bytes list list" where
  "two_blocks = [[[1, 2, 3], [4]], [[5, 6], [7, 8]]]"

definition two_blocks_frames :: "bytes list" where
  "two_blocks_frames = sent_frames ok_env ok_status (fec_cfg 2) 0 (map data_tick (concat two_blocks))"

lemma two_blocks_ok: "blocks_ok 2 two_blocks"
  by (simp add: blocks_ok_def two_blocks_def block_ok_def fec_consts)

lemma two_blocks_length: "length two_blocks_frames = 6"
  using sent_frames_blocks [OF two_blocks_ok, of "fec_cfg 2" ok_env "map data_tick (concat two_blocks)" ok_status 0]
    length_blocks_dgrams [of two_blocks 2 1]
  by (simp add: two_blocks_frames_def fec_cfg_def ok_env_def data_tick_def comp_def)
    (simp add: two_blocks_def)

lemma two_blocks_fit: "i < 6 \<Longrightarrow> capture_ok (two_blocks_frames ! i) (self_capture (two_blocks_frames ! i))"
proof (rule self_capture_ok)
  assume i: "i < 6"
  have fr: "two_blocks_frames = frames ok_env (fec_cfg 2) 0 0 (blocks_dgrams 1 two_blocks)"
    using sent_frames_blocks [OF two_blocks_ok, of "fec_cfg 2" ok_env "map data_tick (concat two_blocks)" ok_status 0]
    by (simp add: two_blocks_frames_def fec_cfg_def ok_env_def data_tick_def comp_def)
  have "length (blocks_dgrams 1 two_blocks) = 6" using two_blocks_length fr length_frames by metis
  with i fr show "8 \<le> length (two_blocks_frames ! i)"
    using nth_frames [of i "blocks_dgrams 1 two_blocks" ok_env "fec_cfg 2" 0 0]
    by (simp add: frame_of_def)
  have "tx_loop_ok (fec_cfg 2) (fold (tx_step ok_env ok_status (fec_cfg 2)) (map data_tick (concat two_blocks)) (tx_loop_start 0))"
    by (rule tx.run_inv [OF tx_loop_start_ok])
  then have "\<forall>f \<in> set two_blocks_frames. length f \<le> O4L_MAX_FRAME"
    by (simp add: two_blocks_frames_def sent_frames_def tx_loop_ok_def frames_fit_def)
  with i two_blocks_length show "length (two_blocks_frames ! i) \<le> O4L_MAX_FRAME" by simp
qed

text \<open>Frame 0 of the first block and frame 1 of the second are lost, the rest arrives backwards.\<close>

theorem link_delivers_despite_loss_witness:
  "\<exists>s'. c_run (rx_step ok_env ok_status (fec_cfg 2))
      (map cap_tick (map (\<lambda>i. self_capture (two_blocks_frames ! i)) [5, 3, 2, 1])) (rx_loop_start 0) = Some s' \<and>
    mset (udp_sent (rx_io (rl_rx s'))) = {#[1, 2, 3], [4], [5, 6], [7, 8]#}"
proof -
  let ?is = "[5, 3, 2, 1] :: nat list"
  have arr: "\<forall>j < length two_blocks. block_arrival (two_blocks ! j)
      (events_of (of_nat (Suc j)) (map (frame_event 2) ?is))"
  proof (intro allI impI)
    fix j assume "j < length two_blocks"
    then have "j = 0 \<or> j = 1" by (auto simp: two_blocks_def)
    moreover have "block_arrival (two_blocks ! 0) [Parity, Data 1]"
      by (auto simp: block_arrival_def two_blocks_def lessThan_Suc)
    moreover have "block_arrival (two_blocks ! 1) [Parity, Data 0]"
      by (auto simp: block_arrival_def two_blocks_def lessThan_Suc intro!: exI [of _ 1])
    ultimately show "block_arrival (two_blocks ! j) (events_of (of_nat (Suc j)) (map (frame_event 2) ?is))"
      by (auto simp: frame_event_def)
  qed
  have caps: "list_all2 (\<lambda>i c. i < length two_blocks_frames \<and> capture_ok (two_blocks_frames ! i) c) ?is
      (map (\<lambda>i. self_capture (two_blocks_frames ! i)) ?is)"
    by (simp add: two_blocks_length two_blocks_fit)
  show ?thesis
    using link_delivers_despite_loss [OF two_blocks_ok _ _ _ _ _ _ _ two_blocks_frames_def caps arr,
        of "fec_cfg 2" ok_env ok_status]
    by (simp add: fec_cfg_def ok_env_def data_tick_def comp_def two_blocks_def)
qed

section \<open>Robustness\<close>

text \<open>C2: Memory safety of the receiver. Whatever \<open>poll\<close> and \<open>recv\<close> deliver - any
  sequence of signals, failures and packets with any bytes - and whatever the configuration, the
  receive loop never reads or writes outside the frame, the FEC blocks or the parity buffers, and
  the status file is well paced throughout.\<close>

theorem rx_loop_never_undefined:
  "\<exists>s. c_run (rx_step env senv cfg) tks (rx_loop_start t0) = Some s \<and> blocks_wf (rx_fec (rl_rx s)) \<and>
     spaced (status_interval cfg) (map fst (sio_published (snd (rl_status s))))"
  using rx.run_safe [OF rx_loop_start_ok, where es = tks and env = env and senv = senv and cfg = cfg]
  by (auto simp: rx_loop_ok_def status_ok_def)

text \<open>Invariant of the sender. After any run of the transmit loop every frame handed to the
  socket fits \<open>O4L_MAX_FRAME\<close>, \<open>tx_packets\<close> counts exactly the frames that were sent, and the
  parity accumulator fits the wrapped datagram.\<close>

theorem tx_loop_invariant:
  "let s = fold (tx_step env senv cfg) tks (tx_loop_start t0) in
     (\<forall>f \<in> set (raw_sent (tx_io (tl_tx s))). length f \<le> O4L_MAX_FRAME) \<and>
     tx_packets (tx_st (tl_tx s)) = of_nat (length (raw_sent (tx_io (tl_tx s)))) \<and>
     FEC_HDR_SZ + ftx_parity_len (tl_fec s) \<le> O4L_MAX_PAYLOAD"
  using tx.run_inv [OF tx_loop_start_ok, where es = tks and env = env and senv = senv and cfg = cfg]
  by (auto simp: tx_loop_ok_def frames_fit_def tx_counted_def fec_tx_ok_def Let_def fec_consts)

theorem tx_loop_invariant_witness:
  "let s = fold (tx_step ok_env ok_status (fec_cfg 2)) [data_tick [1, 2, 3]] (tx_loop_start 0) in
     tx_packets (tx_st (tl_tx s)) = of_nat (length (raw_sent (tx_io (tl_tx s))))"
  using tx_loop_invariant [where tks = "[data_tick [1, 2, 3]]"] unfolding Let_def by blast

text \<open>C3: Round trip of the frame format. A frame built from at most 1400 bytes of payload, seen
  behind any well-formed radiotap header and before any trailer, is parsed to the header and the
  payload it was built from.\<close>

theorem frame_round_trip:
  assumes "rtap_ok rt" and "length payload \<le> O4L_MAX_PAYLOAD"
  shows "parse_frame (on_air rt (build_frame sid flags seq now payload) trailer) =
     Some (Some (build_hdr sid flags seq now payload, payload))"
  using parse_frame_build assms by (simp add: O4L_MAX_PAYLOAD_def)

theorem frame_round_trip_witness:
  "parse_frame (on_air radiotap_tx (build_frame 3 0 7 99 [10, 20]) [1, 1, 1, 1]) =
     Some (Some (build_hdr 3 0 7 99 [10, 20], [10, 20]))"
  by (rule frame_round_trip) (simp_all add: rtap_ok_tx O4L_MAX_PAYLOAD_def)

text \<open>Error detection. A frame whose payload has any one byte changed on the way is refused
  by the checksum, whatever the payload, the position and the new value.\<close>

theorem corrupt_payload_refused:
  assumes "rtap_ok rt" and "length (xs @ p # ys) \<le> O4L_MAX_PAYLOAD" and "p \<noteq> q"
  shows "parse_frame (rt @ wifi_tx seq @ put_o4l (build_hdr sid flags seq now (xs @ p # ys)) @
      (xs @ q # ys) @ trailer) = Some None"
  using parse_frame_corrupt assms by (simp add: O4L_MAX_PAYLOAD_def)

theorem corrupt_payload_refused_witness:
  "parse_frame (radiotap_tx @ wifi_tx 7 @ put_o4l (build_hdr 3 0 7 99 ([10] @ 20 # [30])) @
      ([10] @ 21 # [30]) @ []) = Some None"
  by (rule corrupt_payload_refused) (simp_all add: rtap_ok_tx O4L_MAX_PAYLOAD_def)

section \<open>What the status reports\<close>

text \<open>C4: Loss accounting. When frames arrive in order with gaps below \<open>2 ^ 31\<close>, also over
  the wrap of the 32-bit sequence number, \<open>rx_lost\<close> ends as the number of sequence numbers
  skipped and none is counted as out of order.\<close>

theorem rx_lost_exact:
  assumes "in_order (n # ns)"
  shows "rx_lost (fold (\<lambda>n. seq_account (of_nat n)) (n # ns) stats_zero) =
      of_nat (last (n # ns) + 1 - n - length (n # ns)) \<and>
    rx_out_of_order (fold (\<lambda>n. seq_account (of_nat n)) (n # ns) stats_zero) = 0"
proof -
  let ?st = "seq_account (of_nat n) stats_zero"
  have "have_rx_sequence ?st" "last_rx_sequence ?st = of_nat n" "rx_lost ?st = 0" "rx_out_of_order ?st = 0"
    by (simp_all add: seq_account_def stats_zero_def)
  with seq_account_in_order [OF assms, of ?st] show ?thesis by simp
qed

theorem rx_lost_exact_witness:
  "rx_lost (fold (\<lambda>n. seq_account (of_nat n)) [2 ^ 32 - 2, 2 ^ 32 + 1, 2 ^ 32 + 2] stats_zero) = 2"
  using rx_lost_exact [of "2 ^ 32 - 2" "[2 ^ 32 + 1, 2 ^ 32 + 2]"] by simp




text \<open>The signal quality is a percentage: whenever it is reported it lies between 0 and 100,
  and better delivery, signal and signal-to-noise ratio never lower it.\<close>

theorem signal_quality_percentage:
  assumes "calc_signal_quality st q r n = Some x" and "calc_signal_quality st q' r' n' = Some x'"
    and "q \<le> q'" and "r \<le> r'" and "r - n \<le> r' - n'"
  shows "0 \<le> x \<and> x \<le> x' \<and> x' \<le> 100"
  using signal_quality_mono [OF assms] signal_quality_bounds [OF assms(1)]
    signal_quality_bounds [OF assms(2)] by simp

theorem signal_quality_percentage_witness:
  "\<exists>x x'. calc_signal_quality (stats_zero\<lparr>rx_frames := 9, rx_lost := 1, have_rssi := True\<rparr>) 90 (- 70) 0 = Some x \<and>
     calc_signal_quality (stats_zero\<lparr>rx_frames := 9, rx_lost := 1, have_rssi := True\<rparr>) 95 (- 60) 0 = Some x' \<and>
     0 \<le> x \<and> x \<le> x' \<and> x' \<le> 100"
proof -
  let ?st = "stats_zero\<lparr>rx_frames := 9, rx_lost := 1, have_rssi := True\<rparr>"
  obtain x x' where "calc_signal_quality ?st 90 (- 70) 0 = Some x" "calc_signal_quality ?st 95 (- 60) 0 = Some x'"
    by (simp add: calc_signal_quality_def Let_def)
  with signal_quality_percentage [OF this] show ?thesis by simp
qed

text \<open>The strings of the status file are valid JSON strings: a JSON reader started behind the
  opening quote stops exactly at the closing one and yields the string that was written, with
  quotes, backslashes and control characters inside.\<close>

theorem json_string_round_trip: "json_read (tl (json_string s) @ rest) = Some (s, rest)"
  by (rule json_string_read)

definition fec_tick :: "config \<Rightarrow> tick \<Rightarrow> bool" where
  "fec_tick cfg tk \<longleftrightarrow> (case tk_event tk of
     Ev_Data bs \<Rightarrow> (case parse_frame (take O4L_MAX_FRAME bs) of
        Some (Some (h, _)) \<Rightarrow> hdr_reserved h AND (O4L_FLAG_FEC_DATA OR O4L_FLAG_FEC_PARITY) \<noteq> 0
      | _ \<Rightarrow> False)
   | _ \<Rightarrow> False)"

lemma rx_deliver_skip:
  "flags AND (O4L_FLAG_FEC_DATA OR O4L_FLAG_FEC_PARITY) \<noteq> 0 \<Longrightarrow>
   rx_deliver env cfg flags p s = Some (skip, s') \<Longrightarrow> skip"
  by (auto simp: rx_deliver_def split: if_splits)

lemma rx_step_no_status:
  assumes tk: "fec_tick cfg tk" and ok: "rx_loop_ok cfg s"
  shows "\<exists>s'. rx_step env senv cfg tk s = Some s' \<and> rx_loop_ok cfg s' \<and> rl_status s' = rl_status s"
proof (cases "rl_stop s")
  case True
  with ok show ?thesis by (simp add: rx_step_def)
next
  case False
  obtain bs h p where ev: "tk_event tk = Ev_Data bs"
    and parse: "parse_frame (take O4L_MAX_FRAME bs) = Some (Some (h, p))"
    and fl: "hdr_reserved h AND (O4L_FLAG_FEC_DATA OR O4L_FLAG_FEC_PARITY) \<noteq> 0"
    using tk by (auto simp: fec_tick_def split: poll_event.splits option.splits)
  then have ne: "bs \<noteq> []" by (auto simp: parse_frame_def link_sizes)
  obtain skip rx where f: "rx_frame env cfg (tk_frame_us tk) (take O4L_MAX_FRAME bs) (rl_rx s) = Some (skip, rx)"
    and wf: "blocks_wf (rx_fec rx)" using rx_frame_safe ok by (fastforce simp: rx_loop_ok_def)
  obtain st where st: "parse_radiotap_signal (take O4L_MAX_FRAME bs) (rx_st (rl_rx s)) = Some st"
    using parse_radiotap_signal_total by blast
  have skip: "skip"
    using f parse st rx_deliver_skip [OF fl] by (auto simp: rx_frame_def split: if_splits)
  have "rx_step env senv cfg tk s = Some (s\<lparr>rl_rx := rx\<rparr>)"
    using ev ne f skip False by (simp add: rx_step_def Let_def)
  with wf ok show ?thesis by (simp add: rx_loop_ok_def)
qed

lemma rx_run_no_status:
  "\<forall>tk \<in> set tks. fec_tick cfg tk \<Longrightarrow> rx_loop_ok cfg s \<Longrightarrow>
   \<exists>s'. c_run (rx_step env senv cfg) tks s = Some s' \<and> rl_status s' = rl_status s"
proof (induction tks arbitrary: s)
  case (Cons tk tks)
  from Cons.prems(1) have "fec_tick cfg tk" by simp
  from rx_step_no_status [OF this Cons.prems(2), of env senv] obtain s1
    where s1: "rx_step env senv cfg tk s = Some s1" "rx_loop_ok cfg s1" "rl_status s1 = rl_status s" by blast
  with Cons.IH [OF _ s1(2)] Cons.prems(1) show ?case by auto
qed simp

text \<open>A stale status file. While the frames that arrive carry FEC datagrams, the receive
  loop never writes the status file, however long it runs and whatever the interval: the branch
  ends in \<open>continue\<close> before the status is written.\<close>

theorem fec_frames_starve_status:
  assumes "\<forall>tk \<in> set tks. fec_tick cfg tk"
  shows "\<exists>s. c_run (rx_step env senv cfg) tks (rx_loop_start t0) = Some s \<and>
    sio_published (snd (rl_status s)) = []"
  using rx_run_no_status [OF assms rx_loop_start_ok]
  by (force simp: rx_loop_start_def status_io_zero_def)

theorem fec_frames_starve_status_witness:
  "\<exists>s. c_run (rx_step ok_env ok_status (fec_cfg 2))
      (replicate 1000 (data_tick (build_frame 255 O4L_FLAG_FEC_DATA 7 99 [1, 2, 3]))) (rx_loop_start 0) = Some s \<and>
    sio_published (snd (rl_status s)) = []"
proof (rule fec_frames_starve_status)
  have "parse_frame (build_frame 255 O4L_FLAG_FEC_DATA 7 99 [1, 2, 3]) =
      Some (Some (build_hdr 255 O4L_FLAG_FEC_DATA 7 99 [1, 2, 3], [1, 2, 3]))"
    using parse_frame_build [OF rtap_ok_tx, of "[1, 2, 3]" 255 O4L_FLAG_FEC_DATA 7 99 "[]"]
    by (simp add: on_air_self)
  then have "fec_tick (fec_cfg 2) (data_tick (build_frame 255 O4L_FLAG_FEC_DATA 7 99 [1, 2, 3]))"
    by (simp add: fec_tick_def data_tick_def O4L_MAX_FRAME_def fec_consts)
  then show "\<forall>tk \<in> set (replicate 1000 (data_tick (build_frame 255 O4L_FLAG_FEC_DATA 7 99 [1, 2, 3]))).
      fec_tick (fec_cfg 2) tk" by (simp add: set_replicate_conv_if)
qed

section \<open>Failed sends\<close>

text \<open>One failed send disables FEC for good. If the send of the last data shard of a block
  fails, the shard counter passes \<open>fec_data\<close> and is never reset: no parity frame is sent for
  that block or any later one, however many payloads follow and although every later send works.\<close>

theorem failed_send_disables_fec:
  assumes "0 < k" and "cfg_fec_data cfg = int k" and "raw_ok env = (\<lambda>n. n \<noteq> k - 1)"
  shows "\<forall>f \<in> set (raw_sent (tx_io (fst (tx_fec_all env cfg ps (tl_tx (tx_loop_start t0), tl_fec (tx_loop_start t0)))))).
    \<not> is_parity f"
proof -
  have "wedging k (tl_tx (tx_loop_start t0), tl_fec (tx_loop_start t0))"
    by (simp add: wedging_def no_parity_def tx_loop_start_def io_start_def fec_tx_zero_def)
  from wedging_run [OF assms(2,3) this] show ?thesis by (simp add: wedging_def no_parity_def)
qed

theorem failed_send_disables_fec_witness:
  "no_parity (fst (tx_fec_all (ok_env\<lparr>raw_ok := (\<lambda>n. n \<noteq> 7)\<rparr>) (fec_cfg 8)
      (replicate 10000 [1, 2, 3]) (tl_tx (tx_loop_start 0), tl_fec (tx_loop_start 0))))"
  unfolding no_parity_def
  by (rule failed_send_disables_fec [where k = 8]) (simp_all add: fec_cfg_def)

text \<open>The receiver's side of it: a data shard whose index has passed \<open>fec_data\<close> is
  counted as bad and nothing of it reaches the UDP socket.\<close>

theorem overrun_shard_dropped:
  assumes "0 < k" and "k \<le> O4L_FEC_MAX_DATA" and "cfg_fec_data cfg = int k" and "k \<le> i" and "i < 256"
  shows "\<exists>s'. rx_fec_payload env cfg O4L_FLAG_FEC_DATA (put_fec (data_fh bid (int k) i p) @ p) s = Some (0, s') \<and>
    rx_bad (rx_st s') = rx_bad (rx_st s) + 1 \<and> udp_sent (rx_io s') = udp_sent (rx_io s)"
proof -
  obtain s' where "rx_fec_payload env cfg O4L_FLAG_FEC_DATA (put_fec (data_fh bid (int k) i p) @ p) s = Some (0, s')"
    and "rx_st s' = (rx_st s)\<lparr>rx_bad := rx_bad (rx_st s) + 1\<rparr>" and "rx_io s' = rx_io s"
    using overrun_shard_bad [OF assms] by blast
  then show ?thesis by simp
qed

section \<open>The program from start to end\<close>

text \<open>What \<open>main\<close> does, whatever the system answers. It never leaves its memory. A bad
  command line ends it with 2 and \<open>--help\<close> with 0, before anything is touched. With
  \<open>--setup\<close> the four commands run in order, a failure of the first tolerated and the first
  failure of the others the last to run, and without it none. The loop of the mode is entered
  exactly when the setup and all sockets of that mode work; its run is that of the loop's steps,
  the status is 0 once the loop has ended, and then both sockets are closed. When it is not entered
  the status is 1 and nothing is left open.\<close>

theorem linkd_main_exact:
  "\<exists>code w l. linkd_main env argv tks = Some (code, w, l) \<and>
    (case linkd_parse_args argv of
       Args_Help \<Rightarrow> code = Some 0 \<and> w = linkd_world_start \<and> l = No_Loop
     | Args_Error \<Rightarrow> code = Some 2 \<and> w = linkd_world_start \<and> l = No_Loop
     | Args_Ok cfg \<Rightarrow>
         lw_cmds w = (if cfg_setup_wifi cfg then take (setup_ran env) (setup_cmds cfg) else []) \<and>
         (if linkd_ready env cfg
          then mode_loop env cfg tks = Some l \<and> code = (if loop_ended cfg l then Some 0 else None) \<and>
            lw_held w = (if code \<noteq> None then 0 else if cfg_mode cfg = ''ping'' then 1 else 2)
          else l = No_Loop \<and> code = Some 1 \<and> lw_held w = 0))"
proof (cases "linkd_parse_args argv")
  case (Args_Ok cfg)
  show ?thesis by (rule linkd_main_effect [OF Args_Ok, of env tks]) (auto simp: Args_Ok)
qed (simp_all add: linkd_main_def)

section \<open>The command line\<close>

text \<open>Every configuration the command line parser accepts is one the loops can run with:
  non-zero ports, positive intervals, a count that is not negative, one of the three modes, and
  FEC either off or with one to sixteen data shards and one parity shard.\<close>

theorem parse_args_well_formed:
  assumes "linkd_parse_args argv = Args_Ok cfg"
  shows "config_ok cfg"
  using assms by (rule linkd_parse_args_config)

theorem parse_args_well_formed_witness:
  "config_ok (linkd_defaults\<lparr>cfg_mode := ''tx'', cfg_fec_data := 8, cfg_fec_parity := 1\<rparr>)"
  by (rule parse_args_well_formed [of "[''--mode'', ''tx'', ''--fec'', ''8:1'']"])
    (simp add: linkd_parse_args_def linkd_value_opt_def parse_fec_def split_first_def strtol10_def
      c_sign_def c_isspace_def c_digit_def LONG_MIN_def LONG_MAX_def O4L_FEC_MAX_DATA_def linkd_defaults_def)

end
