(* ===== verification/Hpmcu_Loader.thy ===== *)
theory Hpmcu_Loader
  imports C_Strings "HOL-Library.Monad_Syntax"
begin

text \<open>
  The kernel driver \<^verbatim>\<open>omega4_hpmcu_loader.c\<close>, which loads a firmware image into the
  SRAM of the HPMCU and takes it out of reset. \<open>loader\<close> is the driver's structure; \<open>plat\<close>
  is the platform it acts on: SRAM, reset lines, registers, clocks, firmware references, together
  with the operations in the order they were issued. The environment of a call gives the result
  of every kernel service it uses. \<open>size_t\<close> and \<open>resource_size_t\<close> are 32 bits wide.
  Log messages and delays are left out.
\<close>

section \<open>Platform\<close>

datatype rst = R_Core | R_Cluster | R_Pwup | R_Array

datatype regmap_id = Grf | Sgrf | Ioc

datatype sip_fn = Sip_Code | Sip_Sram | Sip_Exsram

datatype hw_op =
    Op_Assert rst
  | Op_Deassert rst
  | Op_Cru u32
  | Op_Sram bytes
  | Op_Reg regmap_id u32 u32
  | Op_Sip u32 sip_fn u32
  | Op_Boot u32

record plat =
  pl_sram :: bytes
  pl_reset :: "rst \<Rightarrow> bool"
  pl_cru :: u32
  pl_reg :: "regmap_id \<Rightarrow> u32 \<Rightarrow> u32"
  pl_boot :: u32
  pl_clk_on :: int
  pl_fw_refs :: int
  pl_ops :: "hw_op list"

fun hw_apply :: "hw_op \<Rightarrow> plat \<Rightarrow> plat" where
  "hw_apply (Op_Assert r) p = p\<lparr>pl_reset := (pl_reset p)(r := True)\<rparr>"
| "hw_apply (Op_Deassert r) p = p\<lparr>pl_reset := (pl_reset p)(r := False)\<rparr>"
| "hw_apply (Op_Cru v) p = p\<lparr>pl_cru := v\<rparr>"
| "hw_apply (Op_Sram bs) p = p\<lparr>pl_sram := bs\<rparr>"
| "hw_apply (Op_Reg m off v) p = p\<lparr>pl_reg := (pl_reg p)(m := (pl_reg p m)(off := v))\<rparr>"
| "hw_apply (Op_Sip i f a) p = p"
| "hw_apply (Op_Boot v) p = p\<lparr>pl_boot := v\<rparr>"

definition hw_do :: "hw_op \<Rightarrow> plat \<Rightarrow> plat" where
  "hw_do op p = (hw_apply op p)\<lparr>pl_ops := pl_ops p @ [op]\<rparr>"

section \<open>The driver's state\<close>

definition BOOT_ADDR :: u32 where "BOOT_ADDR = 0x00040000"
definition GRF_BASE :: u32 where "GRF_BASE = 0x50000"
definition GRF_CACHE_PERI_START :: u32 where "GRF_CACHE_PERI_START = GRF_BASE + 0x200"
definition GRF_CACHE_PERI_END :: u32 where "GRF_CACHE_PERI_END = GRF_BASE + 0x204"
definition GRF_CODE_ADDR :: u32 where "GRF_CODE_ADDR = GRF_BASE + 0x208"
definition GRF_SRAM_ADDR :: u32 where "GRF_SRAM_ADDR = GRF_BASE + 0x20c"
definition GRF_CACHE_MISC :: u32 where "GRF_CACHE_MISC = GRF_BASE + 0x214"
definition SGRF_CON0 :: u32 where "SGRF_CON0 = 0x08"
definition SGRF_CON0_VAL :: u32 where "SGRF_CON0_VAL = 0x00080008"
definition IOC_JTAG_CON0 :: u32 where "IOC_JTAG_CON0 = 0x50804"
definition IOC_JTAG_CON0_VAL :: u32 where "IOC_JTAG_CON0_VAL = 0x00020002"
definition CRU_ASSERT :: u32 where "CRU_ASSERT = 0x00f000f0"
definition CRU_DEASSERT :: u32 where "CRU_DEASSERT = 0x00f00000"

lemmas hpmcu_regs = GRF_BASE_def GRF_CACHE_PERI_START_def GRF_CACHE_PERI_END_def GRF_CODE_ADDR_def
  GRF_SRAM_ADDR_def GRF_CACHE_MISC_def

record loader =
  hl_sram_phys :: u32
  hl_sram_size :: u32
  hl_sram_is_io :: bool
  hl_sram_is_wc :: bool
  hl_has_map :: "regmap_id \<Rightarrow> bool"
  hl_has_cru :: bool
  hl_has_rst :: "rst \<Rightarrow> bool"
  hl_num_clks :: int
  hl_fw_name :: string
  hl_fw_override :: "string option"
  hl_boot_offset :: u32
  hl_entry_addr :: u32
  hl_cache_misc :: u32
  hl_cache_peri_start :: u32
  hl_cache_peri_end :: u32
  hl_cache_misc_valid :: bool
  hl_cache_peri_valid :: bool
  hl_entry_valid :: bool
  hl_program_grf_map :: bool
  hl_use_sip :: bool
  hl_sip_code_valid :: bool
  hl_sip_sram_valid :: bool
  hl_sip_exsram_valid :: bool
  hl_sip_mcu_id :: u32
  hl_sip_code_addr :: u32
  hl_sip_sram_addr :: u32
  hl_sip_exsram_addr :: u32
  hl_running :: bool
  hl_work_pending :: bool
  hl_hb_offset :: u32
  hl_hb_last :: u32
  hl_hb_reads_left :: u8
  hl_hb_valid :: bool
  hl_fw_id_offset :: u32
  hl_fw_id_valid :: bool
  hl_alias_parent :: bool
  hl_alias_bus :: bool

text \<open>
  What the kernel services answer during one call. A non-zero code of a reset or register
  operation means that it had no effect.
\<close>

record hl_env =
  he_fw :: "string \<Rightarrow> int + bytes"
  he_assert :: "rst \<Rightarrow> int"
  he_deassert :: "rst \<Rightarrow> int"
  he_psci :: bool
  he_sip :: "sip_fn \<Rightarrow> int"
  he_reg :: "regmap_id \<Rightarrow> u32 \<Rightarrow> int"

definition EINVAL :: int where "EINVAL = 22"
definition ENOMEM :: int where "ENOMEM = 12"
definition EEXIST :: int where "EEXIST = 17"

definition rst_assert :: "hl_env \<Rightarrow> rst \<Rightarrow> plat \<Rightarrow> int \<times> plat" where
  "rst_assert env r p =
     (let ret = he_assert env r in (ret, if ret = 0 then hw_do (Op_Assert r) p else p))"

definition rst_deassert :: "hl_env \<Rightarrow> rst \<Rightarrow> plat \<Rightarrow> int \<times> plat" where
  "rst_deassert env r p =
     (let ret = he_deassert env r in (ret, if ret = 0 then hw_do (Op_Deassert r) p else p))"

definition regmap_write :: "hl_env \<Rightarrow> regmap_id \<Rightarrow> u32 \<Rightarrow> u32 \<Rightarrow> plat \<Rightarrow> plat" where
  "regmap_write env m off v p = (if he_reg env m off = 0 then hw_do (Op_Reg m off v) p else p)"

section \<open>Reading the SRAM\<close>

text \<open>
  \<^verbatim>\<open>omega4_hpmcu_readl\<close>: \<open>None\<close> is a read outside the mapped SRAM. The little-endian
  word comes from the SRAM as the device sees it; the DMA mapping around it only syncs the cache.
\<close>

definition hpmcu_readl :: "loader \<Rightarrow> plat \<Rightarrow> u32 \<Rightarrow> u32 option" where
  "hpmcu_readl l p offset =
     (if offset > hl_sram_size l - 4 then Some 0
      else map_option get_le32 (c_read (pl_sram p) (unat offset) 4))"

text \<open>One run of the delayed work; the pending flag is cleared when the work starts.\<close>

definition hb_work :: "loader \<Rightarrow> plat \<Rightarrow> loader option" where
  "hb_work l p =
     (let l = l\<lparr>hl_work_pending := False\<rparr> in
      if \<not> hl_hb_valid l \<or> \<not> hl_running l then Some l
      else do {
        val \<leftarrow> hpmcu_readl l p (hl_hb_offset l);
        let l = l\<lparr>hl_hb_last := val, hl_hb_reads_left := hl_hb_reads_left l - 1\<rparr>;
        Some (if hl_hb_reads_left l \<noteq> 0 then l\<lparr>hl_work_pending := True\<rparr> else l)
      })"

section \<open>Start and stop\<close>

definition sip_call :: "hl_env \<Rightarrow> loader \<Rightarrow> sip_fn \<Rightarrow> u32 \<Rightarrow> bool \<times> plat \<Rightarrow> bool \<times> plat" where
  "sip_call env l f addr x =
     (case x of (applied, p) \<Rightarrow>
       (let p = hw_do (Op_Sip (hl_sip_mcu_id l) f addr) p
        in if he_sip env f \<noteq> 0 then (applied, p) else (True, p)))"

definition sip_config :: "hl_env \<Rightarrow> loader \<Rightarrow> plat \<Rightarrow> bool \<times> loader \<times> plat" where
  "sip_config env l p =
     (if \<not> hl_use_sip l then (False, l, p)
      else if \<not> he_psci env then (False, l, p)
      else
        (let l = (if \<not> hl_sip_code_valid l then l\<lparr>hl_sip_code_addr := hl_sram_phys l\<rparr> else l);
             l = (if \<not> hl_sip_sram_valid l then l\<lparr>hl_sip_sram_addr := hl_sram_phys l\<rparr> else l);
             x = sip_call env l Sip_Code (hl_sip_code_addr l) (False, p);
             x = sip_call env l Sip_Sram (hl_sip_sram_addr l) x;
             (applied, p) =
               (if \<not> hl_sip_exsram_valid l then x
                else sip_call env l Sip_Exsram (hl_sip_exsram_addr l) x)
         in (applied, l, p)))"

definition stop_locked :: "hl_env \<Rightarrow> loader \<times> plat \<Rightarrow> int \<times> loader \<times> plat" where
  "stop_locked env x =
     (case x of (l, p) \<Rightarrow>
       (let (ret, p) = (if hl_has_rst l R_Core then rst_assert env R_Core p
                        else if hl_has_rst l R_Array then rst_assert env R_Array p
                        else (0, p))
        in (ret, l\<lparr>hl_running := False, hl_work_pending := False\<rparr>, p)))"

definition start_assert :: "hl_env \<Rightarrow> loader \<Rightarrow> plat \<Rightarrow> int \<times> plat" where
  "start_assert env l p =
     (if hl_has_rst l R_Core then rst_assert env R_Core p
      else if hl_has_rst l R_Array then rst_assert env R_Array p
      else (0, p))"

definition cru_write :: "loader \<Rightarrow> u32 \<Rightarrow> plat \<Rightarrow> plat" where
  "cru_write l v p = (if hl_has_cru l then hw_do (Op_Cru v) p else p)"

definition load_sram :: "loader \<Rightarrow> bytes \<Rightarrow> plat \<Rightarrow> plat" where
  "load_sram l fw p = hw_do (Op_Sram (fw @ replicate (unat (hl_sram_size l) - length fw) 0)) p"

definition start_entry :: "loader \<Rightarrow> bool \<Rightarrow> u32" where
  "start_entry l sip_applied =
     (let default_entry = hl_sram_phys l + hl_boot_offset l;
          entry = (if hl_entry_valid l then hl_entry_addr l + hl_boot_offset l else default_entry)
      in if \<not> sip_applied \<and> \<not> hl_entry_valid l \<and> entry = default_entry
         then BOOT_ADDR + hl_boot_offset l else entry)"

definition start_map :: "hl_env \<Rightarrow> loader \<Rightarrow> bool \<Rightarrow> u32 \<Rightarrow> plat \<Rightarrow> plat" where
  "start_map env l sip_applied entry p =
     (let do_grf_map = hl_program_grf_map l \<or> \<not> sip_applied in
      if hl_has_map l Grf \<and> do_grf_map then
        (let map_base = (if entry = BOOT_ADDR + hl_boot_offset l \<and> hl_sram_phys l \<ge> BOOT_ADDR
                         then hl_sram_phys l - BOOT_ADDR else hl_sram_phys l);
             code_addr = drop_bit 12 map_base
         in regmap_write env Grf GRF_SRAM_ADDR code_addr
              (regmap_write env Grf GRF_CODE_ADDR code_addr p))
      else p)"

definition start_cache :: "hl_env \<Rightarrow> loader \<Rightarrow> plat \<Rightarrow> plat" where
  "start_cache env l p =
     (let p = (if hl_has_map l Grf \<and> hl_cache_peri_valid l
               then regmap_write env Grf GRF_CACHE_PERI_END (hl_cache_peri_end l)
                      (regmap_write env Grf GRF_CACHE_PERI_START (hl_cache_peri_start l) p)
               else p)
      in if hl_has_map l Grf \<and> hl_cache_misc_valid l
         then regmap_write env Grf GRF_CACHE_MISC (hl_cache_misc l) p else p)"

definition start_program :: "hl_env \<Rightarrow> loader \<Rightarrow> plat \<Rightarrow> loader \<times> plat" where
  "start_program env l p =
     (let p = (if hl_has_map l Sgrf then regmap_write env Sgrf SGRF_CON0 SGRF_CON0_VAL p else p);
          p = (if hl_has_map l Ioc then regmap_write env Ioc IOC_JTAG_CON0 IOC_JTAG_CON0_VAL p else p);
          (sip_applied, l, p) = sip_config env l p;
          entry = start_entry l sip_applied;
          p = hw_do (Op_Boot entry) p;
          p = start_map env l sip_applied entry p;
          p = start_cache env l p
      in (l, p))"

definition start_deassert :: "hl_env \<Rightarrow> loader \<Rightarrow> plat \<Rightarrow> int \<times> plat" where
  "start_deassert env l p =
     (let (ret, p) = (if hl_has_rst l R_Cluster then rst_deassert env R_Cluster p else (0, p)) in
      if ret \<noteq> 0 then (ret, p)
      else
        (let (ret, p) = (if hl_has_rst l R_Pwup then rst_deassert env R_Pwup p else (0, p)) in
         if ret \<noteq> 0 then (ret, p)
         else if hl_has_rst l R_Core then rst_deassert env R_Core p
         else if hl_has_rst l R_Array then rst_deassert env R_Array p
         else (0, p)))"

definition start_loaded :: "hl_env \<Rightarrow> bytes \<Rightarrow> loader \<times> plat \<Rightarrow> int \<times> loader \<times> plat" where
  "start_loaded env fw x =
     (case x of (l, p) \<Rightarrow>
       if fw = [] \<or> length fw > unat (hl_sram_size l) then (- EINVAL, l, p)
       else
         (let (ret, p) = start_assert env l p in
          if ret \<noteq> 0 then (ret, l, p)
          else
            (let p = cru_write l CRU_ASSERT p;
                 p = load_sram l fw p;
                 (l, p) = start_program env l p;
                 p = cru_write l CRU_DEASSERT p;
                 (ret, p) = start_deassert env l p
             in if ret \<noteq> 0 then (ret, l, p)
                else
                  (let l = l\<lparr>hl_running := True\<rparr>;
                       l = (if hl_hb_valid l
                            then l\<lparr>hl_hb_reads_left := 2, hl_work_pending := True\<rparr> else l)
                   in (0, l, p)))))"

definition start_locked :: "hl_env \<Rightarrow> loader \<times> plat \<Rightarrow> int \<times> loader \<times> plat" where
  "start_locked env x =
     (case x of (l, p) \<Rightarrow>
       (case he_fw env (hl_fw_name l) of
          Inl e \<Rightarrow> (e, l, p)
        | Inr fw \<Rightarrow>
            (case start_loaded env fw (l, p\<lparr>pl_fw_refs := pl_fw_refs p + 1\<rparr>) of
               (ret, l, p) \<Rightarrow> (ret, l, p\<lparr>pl_fw_refs := pl_fw_refs p - 1\<rparr>))))"

section \<open>The sysfs files\<close>

definition start_store :: "hl_env \<Rightarrow> int \<Rightarrow> loader \<times> plat \<Rightarrow> int \<times> loader \<times> plat" where
  "start_store env count x =
     (case start_locked env x of (ret, s) \<Rightarrow> (if ret \<noteq> 0 then ret else count, s))"

definition stop_store :: "hl_env \<Rightarrow> int \<Rightarrow> loader \<times> plat \<Rightarrow> int \<times> loader \<times> plat" where
  "stop_store env count x =
     (case stop_locked env x of (ret, s) \<Rightarrow> (if ret \<noteq> 0 then ret else count, s))"

definition status_show :: "loader \<Rightarrow> string" where
  "status_show l = (if hl_running l then ''running'' else ''stopped'') @ [CHR 0x0A]"

definition heartbeat_show :: "loader \<Rightarrow> plat \<Rightarrow> string option" where
  "heartbeat_show l p =
     (if \<not> hl_hb_valid l then Some (''unsupported'' @ [CHR 0x0A])
      else map_option (\<lambda>val. dec_digits (unat val) @ '' (0x'' @ hex8 val @ '')'' @ [CHR 0x0A])
             (hpmcu_readl l p (hl_hb_offset l)))"

definition fw_id_show :: "loader \<Rightarrow> plat \<Rightarrow> string option" where
  "fw_id_show l p =
     (if \<not> hl_fw_id_valid l then Some (''unsupported'' @ [CHR 0x0A])
      else map_option (\<lambda>val. ''0x'' @ hex8 val @ [CHR 0x0A]) (hpmcu_readl l p (hl_fw_id_offset l)))"

definition firmware_show :: "loader \<Rightarrow> string" where
  "firmware_show l = hl_fw_name l @ [CHR 0x0A]"

text \<open>The kernel's \<open>isspace\<close> also takes the no-break space of Latin-1.\<close>

definition k_isspace :: "char \<Rightarrow> bool" where
  "k_isspace c \<longleftrightarrow> c_isspace c \<or> c = CHR 0xA0"

definition strim :: "string \<Rightarrow> string" where
  "strim s = dropWhile k_isspace (rev (dropWhile k_isspace (rev s)))"

text \<open>\<open>kstrndup\<close> stops at a NUL; \<open>alloc_ok\<close> says whether it got its memory.\<close>

definition firmware_store :: "bool \<Rightarrow> string \<Rightarrow> loader \<Rightarrow> int \<times> loader" where
  "firmware_store alloc_ok buf l =
     (let count = int (length buf) in
      if \<not> alloc_ok then (- ENOMEM, l)
      else
        (let name = strim (takeWhile (\<lambda>c. c \<noteq> CHR 0x00) buf)
         in if name = [] then (- EINVAL, l)
            else if hl_fw_override l = Some name then (count, l)
            else (count, l\<lparr>hl_fw_override := Some name, hl_fw_name := name\<rparr>)))"

text \<open>What user space and the kernel's workqueue do to a bound driver.\<close>

datatype hl_event = Hl_Start hl_env | Hl_Stop hl_env | Hl_Work | Hl_Firmware bool string

definition hl_step :: "hl_event \<Rightarrow> loader \<times> plat \<Rightarrow> (loader \<times> plat) option" where
  "hl_step e s =
     (case e of
        Hl_Start env \<Rightarrow> Some (snd (start_store env 1 s))
      | Hl_Stop env \<Rightarrow> Some (snd (stop_store env 1 s))
      | Hl_Work \<Rightarrow>
          (if hl_work_pending (fst s) then map_option (\<lambda>l. (l, snd s)) (hb_work (fst s) (snd s)) else Some s)
      | Hl_Firmware ok buf \<Rightarrow> Some (snd (firmware_store ok buf (fst s)), snd s))"

section \<open>What a start does to the platform\<close>

text \<open>The programming of registers between loading and release touches neither resets nor SRAM.\<close>

fun is_prog :: "hw_op \<Rightarrow> bool" where
  "is_prog (Op_Reg _ _ _) = True"
| "is_prog (Op_Sip _ _ _) = True"
| "is_prog (Op_Boot _) = True"
| "is_prog _ = False"

definition quiet :: "plat \<Rightarrow> plat \<Rightarrow> bool" where
  "quiet p p' \<longleftrightarrow> pl_sram p' = pl_sram p \<and> pl_reset p' = pl_reset p \<and> pl_cru p' = pl_cru p \<and>
     pl_clk_on p' = pl_clk_on p \<and> pl_fw_refs p' = pl_fw_refs p \<and>
     (\<exists>ops. pl_ops p' = pl_ops p @ ops \<and> list_all is_prog ops)"

named_theorems quiet_steps \<open>operations that only program registers\<close>

lemma quiet_refl [quiet_steps]: "quiet p p"
  by (simp add: quiet_def)

lemma quiet_trans: "quiet p q \<Longrightarrow> quiet q r \<Longrightarrow> quiet p r"
  by (auto simp: quiet_def)

lemma quiet_do [quiet_steps]: "is_prog op \<Longrightarrow> quiet p (hw_do op p)"
  by (cases op) (simp_all add: quiet_def hw_do_def)

lemma quiet_regmap [quiet_steps]: "quiet p (regmap_write env m off v p)"
  by (simp add: regmap_write_def quiet_do quiet_refl)

lemma quiet_regmap2 [quiet_steps]: "quiet p (regmap_write env m off v (regmap_write env m' off' v' p))"
  by (rule quiet_trans [OF quiet_regmap quiet_regmap])

lemma quiet_sip_call: "quiet p (snd x) \<Longrightarrow> quiet p (snd (sip_call env l f a x))"
  using quiet_trans [OF _ quiet_do [of "Op_Sip (hl_sip_mcu_id l) f a" "snd x"], of p]
  by (cases x) (simp add: sip_call_def Let_def)

lemma quiet_map [quiet_steps]: "quiet p (start_map env l b e p)"
  by (simp add: start_map_def Let_def quiet_steps)

lemma quiet_cache [quiet_steps]: "quiet p (start_cache env l p)"
proof -
  define p1 where "p1 = (if hl_has_map l Grf \<and> hl_cache_peri_valid l
    then regmap_write env Grf GRF_CACHE_PERI_END (hl_cache_peri_end l)
      (regmap_write env Grf GRF_CACHE_PERI_START (hl_cache_peri_start l) p) else p)"
  have "quiet p p1" by (simp add: p1_def quiet_steps)
  moreover have "quiet p1 (start_cache env l p)"
    by (simp add: start_cache_def p1_def [symmetric] Let_def quiet_steps)
  ultimately show ?thesis by (rule quiet_trans)
qed

text \<open>The loader's configuration, which a start does not change (it fills in the SIP addresses).\<close>

definition same_config :: "loader \<Rightarrow> loader \<Rightarrow> bool" where
  "same_config l l' \<longleftrightarrow>
     (\<exists>a b. l' = l\<lparr>hl_sip_code_addr := a, hl_sip_sram_addr := b\<rparr>)"

lemma same_configI:
  "same_config l l"
  "same_config l (l\<lparr>hl_sip_code_addr := a\<rparr>)"
  "same_config l (l\<lparr>hl_sip_sram_addr := b\<rparr>)"
  "same_config l (l\<lparr>hl_sip_code_addr := a, hl_sip_sram_addr := b\<rparr>)"
proof -
  have "l = l\<lparr>hl_sip_code_addr := hl_sip_code_addr l, hl_sip_sram_addr := hl_sip_sram_addr l\<rparr>"
    and "l\<lparr>hl_sip_code_addr := a\<rparr> = l\<lparr>hl_sip_code_addr := a, hl_sip_sram_addr := hl_sip_sram_addr l\<rparr>"
    and "l\<lparr>hl_sip_sram_addr := b\<rparr> = l\<lparr>hl_sip_code_addr := hl_sip_code_addr l, hl_sip_sram_addr := b\<rparr>"
    by simp_all
  then show "same_config l l" "same_config l (l\<lparr>hl_sip_code_addr := a\<rparr>)"
    "same_config l (l\<lparr>hl_sip_sram_addr := b\<rparr>)"
    "same_config l (l\<lparr>hl_sip_code_addr := a, hl_sip_sram_addr := b\<rparr>)"
    unfolding same_config_def by blast+
qed

lemma same_config_sel:
  assumes "same_config l l'"
  shows "hl_has_cru l' = hl_has_cru l" "hl_has_rst l' = hl_has_rst l" "hl_hb_valid l' = hl_hb_valid l"
    "hl_hb_offset l' = hl_hb_offset l" "hl_sram_size l' = hl_sram_size l" "hl_running l' = hl_running l"
    "hl_work_pending l' = hl_work_pending l" "hl_hb_reads_left l' = hl_hb_reads_left l"
    "hl_num_clks l' = hl_num_clks l" "hl_fw_override l' = hl_fw_override l" "hl_fw_name l' = hl_fw_name l"
    "hl_alias_parent l' = hl_alias_parent l" "hl_alias_bus l' = hl_alias_bus l"
    "hl_fw_id_offset l' = hl_fw_id_offset l" "hl_fw_id_valid l' = hl_fw_id_valid l"
  using assms by (auto simp: same_config_def)

lemma sip_config_facts:
  assumes "sip_config env l p = (b, l', p')"
  shows "quiet p p' \<and> same_config l l'"
proof -
  have "quiet p (snd (snd (sip_config env l p)))"
    by (simp add: sip_config_def Let_def case_prod_beta quiet_sip_call quiet_refl)
  moreover have "same_config l (fst (snd (sip_config env l p)))"
    by (simp add: sip_config_def Let_def case_prod_beta same_configI)
  ultimately show ?thesis using assms by simp
qed

lemma start_program_facts:
  assumes "start_program env l p = (l', p')"
  shows "quiet p p' \<and> same_config l l'"
proof -
  define p1 where "p1 = (if hl_has_map l Sgrf then regmap_write env Sgrf SGRF_CON0 SGRF_CON0_VAL p else p)"
  define p2 where "p2 = (if hl_has_map l Ioc then regmap_write env Ioc IOC_JTAG_CON0 IOC_JTAG_CON0_VAL p1 else p1)"
  obtain b l2 p3 where sip: "sip_config env l p2 = (b, l2, p3)" by (cases "sip_config env l p2") auto
  have "quiet p p1" "quiet p1 p2" by (simp_all add: p1_def p2_def quiet_steps)
  then have "quiet p p2" by (rule quiet_trans)
  moreover have "quiet p2 p3" and cfg: "same_config l l2" using sip_config_facts [OF sip] by blast+
  ultimately have q3: "quiet p p3" using quiet_trans by blast
  let ?e = "start_entry l2 b"
  have "quiet p3 (hw_do (Op_Boot ?e) p3)" by (simp add: quiet_do)
  from quiet_trans [OF q3 this] have "quiet p (hw_do (Op_Boot ?e) p3)" .
  from quiet_trans [OF quiet_trans [OF this quiet_map] quiet_cache]
  have "quiet p (start_cache env l2 (start_map env l2 b ?e (hw_do (Op_Boot ?e) p3)))" .
  with assms sip cfg show ?thesis
    by (auto simp: start_program_def Let_def p1_def [symmetric] p2_def [symmetric])
qed

text \<open>The reset line that holds the core, and whether it is held after some operations.\<close>

definition main_rst :: "loader \<Rightarrow> rst option" where
  "main_rst l = (if hl_has_rst l R_Core then Some R_Core
                 else if hl_has_rst l R_Array then Some R_Array else None)"

fun held :: "rst \<Rightarrow> bool \<Rightarrow> hw_op list \<Rightarrow> bool" where
  "held r h [] = h"
| "held r h (op # ops) =
     held r (case op of Op_Assert r' \<Rightarrow> h \<or> r' = r | Op_Deassert r' \<Rightarrow> h \<and> r' \<noteq> r | _ \<Rightarrow> h) ops"

text \<open>Memory and registers are written only while the core is held.\<close>

fun guarded :: "rst \<Rightarrow> bool \<Rightarrow> hw_op list \<Rightarrow> bool" where
  "guarded r h [] = True"
| "guarded r h (op # ops) =
     (case op of
        Op_Assert r' \<Rightarrow> guarded r (h \<or> r' = r) ops
      | Op_Deassert r' \<Rightarrow> guarded r (h \<and> r' \<noteq> r) ops
      | _ \<Rightarrow> h \<and> guarded r h ops)"

lemma guarded_append: "guarded r h (xs @ ys) \<longleftrightarrow> guarded r h xs \<and> guarded r (held r h xs) ys"
proof (induction xs arbitrary: h)
  case (Cons x xs)
  then show ?case by (cases x) auto
qed simp

lemma guarded_prog: "list_all is_prog ops \<Longrightarrow> guarded r True ops \<and> held r True ops"
proof (induction ops)
  case (Cons op ops)
  then show ?case by (cases op) auto
qed simp

lemma start_assert_facts:
  assumes "start_assert env l p = (ret, p')"
  shows "(ret \<noteq> 0 \<longrightarrow> p' = p) \<and>
    (ret = 0 \<longrightarrow> pl_sram p' = pl_sram p \<and> pl_clk_on p' = pl_clk_on p \<and> pl_fw_refs p' = pl_fw_refs p \<and>
      (\<forall>r. main_rst l = Some r \<longrightarrow> pl_reset p' r \<and> pl_ops p' = pl_ops p @ [Op_Assert r]) \<and>
      (main_rst l = None \<longrightarrow> p' = p))"
  using assms
  by (auto simp: start_assert_def rst_assert_def main_rst_def hw_do_def Let_def split: if_splits)

lemma start_deassert_facts:
  assumes "start_deassert env l p = (ret, p')"
  shows "pl_sram p' = pl_sram p \<and> pl_clk_on p' = pl_clk_on p \<and> pl_fw_refs p' = pl_fw_refs p \<and>
    pl_cru p' = pl_cru p \<and> pl_boot p' = pl_boot p \<and>
    (ret = 0 \<longrightarrow> (hl_has_rst l R_Cluster \<longrightarrow> \<not> pl_reset p' R_Cluster) \<and>
      (hl_has_rst l R_Pwup \<longrightarrow> \<not> pl_reset p' R_Pwup) \<and>
      (\<forall>r. main_rst l = Some r \<longrightarrow> \<not> pl_reset p' r)) \<and>
    (ret \<noteq> 0 \<longrightarrow> (\<forall>r. main_rst l = Some r \<longrightarrow> pl_reset p' r = pl_reset p r)) \<and>
    (\<exists>ops. pl_ops p' = pl_ops p @ ops \<and> (\<forall>r h. guarded r h ops))"
  using assms
  by (auto simp: start_deassert_def rst_deassert_def main_rst_def hw_do_def Let_def split: if_splits)

lemma cru_write_facts:
  "pl_sram (cru_write l v p) = pl_sram p" "pl_reset (cru_write l v p) = pl_reset p"
  "pl_fw_refs (cru_write l v p) = pl_fw_refs p" "pl_clk_on (cru_write l v p) = pl_clk_on p"
  "pl_boot (cru_write l v p) = pl_boot p" "hl_has_cru l \<Longrightarrow> pl_cru (cru_write l v p) = v"
  "\<exists>ops. pl_ops (cru_write l v p) = pl_ops p @ ops \<and> (\<forall>r. guarded r True ops \<and> held r True ops)"
  by (simp_all add: cru_write_def hw_do_def)

lemma load_sram_facts:
  "pl_sram (load_sram l fw p) = fw @ replicate (unat (hl_sram_size l) - length fw) 0"
  "pl_reset (load_sram l fw p) = pl_reset p" "pl_fw_refs (load_sram l fw p) = pl_fw_refs p"
  "pl_clk_on (load_sram l fw p) = pl_clk_on p"
  "\<exists>ops. pl_ops (load_sram l fw p) = pl_ops p @ ops \<and> (\<forall>r. guarded r True ops \<and> held r True ops)"
  by (simp_all add: load_sram_def hw_do_def)

text \<open>
  A start that gets past the assertion of the reset: the loaded image, the configuration, and
  what the resets do, in terms of the platform just before the release.
\<close>

lemma start_loaded_facts:
  assumes r: "start_loaded env fw (l, p) = (ret, l', p')"
    and size: "fw \<noteq> []" "length fw \<le> unat (hl_sram_size l)"
    and a: "start_assert env l p = (0, p0)"
  shows "\<exists>l2. same_config l l2 \<and>
    (ret \<noteq> 0 \<longrightarrow> l' = l2) \<and>
    (ret = 0 \<longrightarrow> l' = (if hl_hb_valid l
       then l2\<lparr>hl_running := True, hl_hb_reads_left := 2, hl_work_pending := True\<rparr>
       else l2\<lparr>hl_running := True\<rparr>)) \<and>
    pl_sram p' = fw @ replicate (unat (hl_sram_size l) - length fw) 0 \<and>
    pl_clk_on p' = pl_clk_on p \<and> pl_fw_refs p' = pl_fw_refs p \<and>
    (hl_has_cru l \<longrightarrow> pl_cru p' = CRU_DEASSERT) \<and>
    (ret = 0 \<longrightarrow> (hl_has_rst l R_Cluster \<longrightarrow> \<not> pl_reset p' R_Cluster) \<and>
      (hl_has_rst l R_Pwup \<longrightarrow> \<not> pl_reset p' R_Pwup)) \<and>
    (\<forall>r. main_rst l = Some r \<longrightarrow> pl_reset p' r = (ret \<noteq> 0) \<and>
       (\<exists>ops. pl_ops p' = pl_ops p @ ops \<and> guarded r False ops))"
proof -
  define p1 where "p1 = load_sram l fw (cru_write l CRU_ASSERT p0)"
  obtain l2 p2 where prog: "start_program env l p1 = (l2, p2)" by (cases "start_program env l p1")
  define p3 where "p3 = cru_write l2 CRU_DEASSERT p2"
  obtain ret4 p4 where de: "start_deassert env l2 p3 = (ret4, p4)" by (cases "start_deassert env l2 p3")
  have q: "quiet p1 p2" and cfg: "same_config l l2" using start_program_facts [OF prog] by blast+
  have same: "hl_has_cru l2 = hl_has_cru l" "hl_has_rst l2 = hl_has_rst l" "hl_hb_valid l2 = hl_hb_valid l"
    "main_rst l2 = main_rst l"
    using same_config_sel [OF cfg] by (simp_all add: main_rst_def)
  note A = start_assert_facts [OF a]
  note D = start_deassert_facts [OF de]
  have res: "ret = ret4 \<and> p' = p4 \<and> (ret \<noteq> 0 \<longrightarrow> l' = l2) \<and> (ret = 0 \<longrightarrow> l' = (if hl_hb_valid l
       then l2\<lparr>hl_running := True, hl_hb_reads_left := 2, hl_work_pending := True\<rparr>
       else l2\<lparr>hl_running := True\<rparr>))"
    using r size a prog de same
    by (auto simp: start_loaded_def Let_def p1_def p3_def split: if_splits)
  have ops: "\<exists>ops. pl_ops p' = pl_ops p @ ops \<and> guarded rr False ops" if rr: "main_rst l = Some rr" for rr
  proof -
    obtain o1 where o1: "pl_ops (cru_write l CRU_ASSERT p0) = pl_ops p0 @ o1" "guarded rr True o1" "held rr True o1"
      using cru_write_facts(7) by blast
    obtain o2 where o2: "pl_ops p1 = pl_ops (cru_write l CRU_ASSERT p0) @ o2" "guarded rr True o2" "held rr True o2"
      using load_sram_facts(5) unfolding p1_def by blast
    obtain o3 where o3: "pl_ops p2 = pl_ops p1 @ o3" "list_all is_prog o3" using q by (auto simp: quiet_def)
    obtain o4 where o4: "pl_ops p3 = pl_ops p2 @ o4" "guarded rr True o4" "held rr True o4"
      using cru_write_facts(7) unfolding p3_def by blast
    obtain o5 where o5: "pl_ops p4 = pl_ops p3 @ o5" "guarded rr True o5" using D by blast
    have "pl_ops p' = pl_ops p @ (Op_Assert rr # o1 @ o2 @ o3 @ o4 @ o5)"
      using A rr o1(1) o2(1) o3(1) o4(1) o5(1) res by simp
    moreover have "guarded rr False (Op_Assert rr # o1 @ o2 @ o3 @ o4 @ o5)"
      using o1 o2 guarded_prog [OF o3(2)] o4 o5 by (simp add: guarded_append)
    ultimately show ?thesis by blast
  qed
  have sram: "pl_sram p' = fw @ replicate (unat (hl_sram_size l) - length fw) 0"
    using res D q by (simp add: quiet_def p3_def p1_def cru_write_facts load_sram_facts)
  have refs: "pl_clk_on p' = pl_clk_on p" "pl_fw_refs p' = pl_fw_refs p"
    using res D q A by (auto simp: quiet_def p3_def p1_def cru_write_facts load_sram_facts)
  have cru: "hl_has_cru l \<longrightarrow> pl_cru p' = CRU_DEASSERT"
    using res D same by (simp add: p3_def cru_write_facts)
  have rst: "pl_reset p3 = pl_reset p0" using q by (simp add: quiet_def p3_def p1_def cru_write_facts load_sram_facts)
  have "pl_reset p' rr = (ret \<noteq> 0)" if "main_rst l = Some rr" for rr
    using res D A that same rst by (cases "ret = 0") auto
  with res cfg ops sram refs cru D same show ?thesis by auto
qed

text \<open>A whole start: it changes nothing, or it has loaded an image of the right size.\<close>

lemma start_locked_cases:
  assumes "start_locked env (l, p) = (ret, l', p')"
  obtains (unchanged) "l' = l" "p' = p" "(\<forall>n e. he_fw env n = Inl e \<longrightarrow> e \<noteq> 0) \<Longrightarrow> ret \<noteq> 0"
  | (loaded) fw p0 p4 where "he_fw env (hl_fw_name l) = Inr fw" "fw \<noteq> []"
      "length fw \<le> unat (hl_sram_size l)"
      "start_assert env l (p\<lparr>pl_fw_refs := pl_fw_refs p + 1\<rparr>) = (0, p0)"
      "start_loaded env fw (l, p\<lparr>pl_fw_refs := pl_fw_refs p + 1\<rparr>) = (ret, l', p4)"
      "p' = p4\<lparr>pl_fw_refs := pl_fw_refs p4 - 1\<rparr>"
proof (cases "he_fw env (hl_fw_name l)")
  case (Inl e)
  with assms have "l' = l" "p' = p" "ret = e" by (auto simp: start_locked_def)
  with Inl unchanged show thesis by auto
next
  case (Inr fw)
  let ?p = "p\<lparr>pl_fw_refs := pl_fw_refs p + 1\<rparr>"
  obtain p4 where r: "start_loaded env fw (l, ?p) = (ret, l', p4)"
    and p': "p' = p4\<lparr>pl_fw_refs := pl_fw_refs p4 - 1\<rparr>"
    using assms Inr by (auto simp: start_locked_def split: prod.splits)
  obtain ra p0 where a: "start_assert env l ?p = (ra, p0)" by fastforce
  show thesis
  proof (cases "fw = [] \<or> length fw > unat (hl_sram_size l) \<or> ra \<noteq> 0")
    case True
    then have "l' = l" "p4 = ?p" "ret \<noteq> 0"
      using r a start_assert_facts [OF a] by (auto simp: start_loaded_def EINVAL_def split: if_splits)
    with p' show thesis by (intro unchanged) simp_all
  next
    case False
    with a have "start_assert env l ?p = (0, p0)" by simp
    from loaded [OF Inr _ _ this r p'] False show thesis by simp
  qed
qed

section \<open>Every reachable state\<close>

text \<open>
  The invariant of a bound driver: the SRAM has its size, the heartbeat word lies inside it, no
  firmware image is held, and pending work belongs to a running core with one or two reads left,
  so that the counter never wraps.
\<close>

definition hl_inv :: "loader \<times> plat \<Rightarrow> bool" where
  "hl_inv s \<longleftrightarrow> (case s of (l, p) \<Rightarrow>
     length (pl_sram p) = unat (hl_sram_size l) \<and> 4 \<le> hl_sram_size l \<and>
     (hl_hb_valid l \<longrightarrow> hl_hb_offset l \<le> hl_sram_size l - 4) \<and>
     pl_fw_refs p = 0 \<and>
     (hl_work_pending l \<longrightarrow> hl_running l \<and> hl_hb_valid l \<and>
        (hl_hb_reads_left l = 1 \<or> hl_hb_reads_left l = 2)))"

lemma hpmcu_readl_defined:
  assumes "length (pl_sram p) = unat (hl_sram_size l)" and "4 \<le> hl_sram_size l"
  shows "\<exists>v. hpmcu_readl l p off = Some v"
proof (cases "off > hl_sram_size l - 4")
  case True
  then show ?thesis by (simp add: hpmcu_readl_def)
next
  case False
  have "unat (hl_sram_size l - 4) = unat (hl_sram_size l) - 4"
    using assms(2) by (simp add: unat_sub)
  moreover have "4 \<le> unat (hl_sram_size l)" using assms(2) by (simp add: word_le_nat_alt)
  ultimately have "unat off + 4 \<le> unat (hl_sram_size l)"
    using False by (simp add: not_less word_le_nat_alt)
  with False assms(1) show ?thesis by (simp add: hpmcu_readl_def c_read_def)
qed

lemma hb_work_inv:
  assumes inv: "hl_inv (l, p)" and pend: "hl_work_pending l"
  shows "\<exists>l'. hb_work l p = Some l' \<and> hl_inv (l', p)"
proof -
  obtain v where v: "hpmcu_readl (l\<lparr>hl_work_pending := False\<rparr>) p (hl_hb_offset l) = Some v"
    using hpmcu_readl_defined [of p "l\<lparr>hl_work_pending := False\<rparr>"] inv by (auto simp: hl_inv_def)
  have "hl_hb_reads_left l = 1 \<or> hl_hb_reads_left l = 2" using inv pend by (simp add: hl_inv_def)
  with inv pend v show ?thesis by (auto simp: hb_work_def hl_inv_def Let_def)
qed

lemma start_locked_inv:
  assumes inv: "hl_inv s"
  shows "hl_inv (snd (start_locked env s))"
proof -
  obtain l p where s: "s = (l, p)" by (cases s)
  obtain ret l' p' where st: "start_locked env (l, p) = (ret, l', p')"
    by (cases "start_locked env (l, p)") auto
  from st show ?thesis
  proof (cases rule: start_locked_cases)
    case unchanged
    with inv st show ?thesis by (simp add: s)
  next
    case (loaded fw p0 p4)
    from start_loaded_facts [OF loaded(5,2,3,4)] obtain l2 where cfg: "same_config l l2"
      and l': "ret \<noteq> 0 \<longrightarrow> l' = l2" "ret = 0 \<longrightarrow> l' = (if hl_hb_valid l
        then l2\<lparr>hl_running := True, hl_hb_reads_left := 2, hl_work_pending := True\<rparr>
        else l2\<lparr>hl_running := True\<rparr>)"
      and p4: "pl_sram p4 = fw @ replicate (unat (hl_sram_size l) - length fw) 0"
        "pl_fw_refs p4 = pl_fw_refs p + 1" by auto
    have "length (pl_sram p4) = unat (hl_sram_size l)" using p4 loaded(3) by simp
    then show ?thesis
      using inv st l' p4(2) loaded(6) same_config_sel [OF cfg]
      by (cases "ret = 0") (auto simp: hl_inv_def s)
  qed
qed

lemma stop_locked_inv: "hl_inv s \<Longrightarrow> hl_inv (snd (stop_locked env s))"
  by (cases s) (auto simp: stop_locked_def hl_inv_def rst_assert_def hw_do_def Let_def)

lemma firmware_store_inv: "hl_inv (l, p) \<Longrightarrow> hl_inv (snd (firmware_store ok buf l), p)"
  by (auto simp: firmware_store_def hl_inv_def Let_def)

lemma hl_step_safe: "hl_inv s \<Longrightarrow> \<exists>s'. hl_step e s = Some s' \<and> hl_inv s'"
proof (cases e)
  case (Hl_Start env)
  then show "hl_inv s \<Longrightarrow> ?thesis"
    using start_locked_inv [of s env] by (auto simp: hl_step_def start_store_def split: prod.splits)
next
  case (Hl_Stop env)
  then show "hl_inv s \<Longrightarrow> ?thesis"
    using stop_locked_inv [of s env] by (auto simp: hl_step_def stop_store_def split: prod.splits)
next
  case Hl_Work
  then show "hl_inv s \<Longrightarrow> ?thesis"
    using hb_work_inv [of "fst s" "snd s"] by (cases s) (auto simp: hl_step_def)
next
  case (Hl_Firmware ok buf)
  then show "hl_inv s \<Longrightarrow> ?thesis"
    using firmware_store_inv by (cases s) (auto simp: hl_step_def)
qed

interpretation hpmcu: safe_loop hl_step hl_inv
  by unfold_locales (rule hl_step_safe)

section \<open>Addresses\<close>

text \<open>
  Without SIP and without an entry address the core starts at its own boot window, and the GRF
  code register, in pages of 4 KiB, is set so that the window falls on the SRAM.
\<close>

lemma start_window:
  assumes "hl_has_map l Grf" and "\<not> hl_entry_valid l" and "he_reg env Grf GRF_CODE_ADDR = 0"
    and "BOOT_ADDR \<le> hl_sram_phys l" and "take_bit 12 (hl_sram_phys l) = 0"
  shows "push_bit 12 (pl_reg (start_map env l False (start_entry l False) p) Grf GRF_CODE_ADDR) +
    start_entry l False = hl_sram_phys l + hl_boot_offset l"
proof -
  have e: "start_entry l False = BOOT_ADDR + hl_boot_offset l"
    using assms(2) by (simp add: start_entry_def)
  have code: "pl_reg (start_map env l False (start_entry l False) p) Grf GRF_CODE_ADDR =
      drop_bit 12 (hl_sram_phys l - BOOT_ADDR)"
    using assms(1,3,4)
    by (simp add: e start_map_def Let_def regmap_write_def hw_do_def GRF_SRAM_ADDR_def GRF_CODE_ADDR_def)
  define k where "k = drop_bit 12 (hl_sram_phys l)"
  have "hl_sram_phys l = push_bit 12 k" using bits_ident [of 12 "hl_sram_phys l"] assms(5) by (simp add: k_def)
  then have "hl_sram_phys l - BOOT_ADDR = push_bit 12 (k - 64)"
    by (simp add: BOOT_ADDR_def push_bit_eq_mult algebra_simps)
  then have "take_bit 12 (hl_sram_phys l - BOOT_ADDR) = 0" by (simp add: take_bit_push_bit)
  then have "push_bit 12 (drop_bit 12 (hl_sram_phys l - BOOT_ADDR)) = hl_sram_phys l - BOOT_ADDR"
    using bits_ident [of 12 "hl_sram_phys l - BOOT_ADDR"] by simp
  then show ?thesis unfolding code unfolding e by simp
qed

section \<open>The firmware name\<close>

lemma strim_ends:
  "strim s \<noteq> [] \<Longrightarrow> \<not> k_isspace (hd (strim s)) \<and> \<not> k_isspace (last (strim s))"
proof -
  assume ne: "strim s \<noteq> []"
  define r where "r = rev (dropWhile k_isspace (rev s))"
  have s: "strim s = dropWhile k_isspace r" by (simp add: strim_def r_def)
  have "\<not> k_isspace (hd (strim s))" using ne hd_dropWhile [of k_isspace r] by (simp add: s)
  moreover have rne: "dropWhile k_isspace (rev s) \<noteq> []"
    using ne unfolding s r_def by (metis dropWhile.simps(1) rev.simps(1))
  then have "\<not> k_isspace (hd (dropWhile k_isspace (rev s)))" by (rule hd_dropWhile)
  then have "\<not> k_isspace (last r)" using rne by (simp add: r_def last_rev)
  moreover have "last (strim s) = last r"
  proof -
    have "r = takeWhile k_isspace r @ strim s" by (simp add: s)
    then show ?thesis using ne by (metis last_appendR)
  qed
  ultimately show ?thesis by simp
qed

lemma dropWhile_hd: "\<not> P (hd xs) \<Longrightarrow> dropWhile P xs = xs"
  by (cases xs) auto

lemma strim_id: "s = [] \<or> (\<not> k_isspace (hd s) \<and> \<not> k_isspace (last s)) \<Longrightarrow> strim s = s"
  by (cases "s = []") (simp_all add: strim_def dropWhile_hd hd_rev)

end
