(* ===== verification/Hpmcu_Mbox.thy ===== *)
theory Hpmcu_Mbox
  imports Hpmcu_Loader
begin

text \<open>
  The mailbox between the application processor and the HPMCU: the driver
  \<^verbatim>\<open>omega4_hpmcu_mbox.c\<close> on one side, the firmware \<^verbatim>\<open>mcu_heartbeat.c\<close> on the
  other. The register block is shared; what a write does to it is a parameter, one function per
  side, because the status registers are not plain storage. What the mailbox framework does to
  send, and what happens while the driver waits, are parameters too. Delays and log lines are left
  out; the firmware is built without cache maintenance.
\<close>

section \<open>Registers\<close>

datatype mreg = A2B_INTEN | A2B_STATUS | A2B_CMD | A2B_DATA | B2A_INTEN | B2A_STATUS | B2A_CMD | B2A_DATA

type_synonym mregs = "mreg \<Rightarrow> u32"
type_synonym mwrite = "mreg \<Rightarrow> u32 \<Rightarrow> mregs \<Rightarrow> mregs"

definition PING_CMD :: u32 where "PING_CMD = 0x4f4d4355"
definition PING_DATA :: u32 where "PING_DATA = 1"
definition BOOT_CMD :: u32 where "BOOT_CMD = 0x424f4f54"
definition INT_MASK :: u32 where "INT_MASK = 1"
definition INT_CLR :: u32 where "INT_CLR = 1"
definition A2B_INTEN_VAL :: u32 where "A2B_INTEN_VAL = push_bit 24 1 OR push_bit 8 1 OR push_bit 16 1 OR INT_MASK"
definition B2A_INTEN_VAL :: u32 where "B2A_INTEN_VAL = push_bit 16 1 OR INT_MASK"

lemmas mbox_consts = PING_CMD_def PING_DATA_def BOOT_CMD_def INT_MASK_def INT_CLR_def
  A2B_INTEN_VAL_def B2A_INTEN_VAL_def

section \<open>The driver\<close>

record mbox =
  mb_has_base :: bool
  mb_msg :: "u32 \<times> u32"
  mb_rx_count :: u32
  mb_last_cmd :: u32
  mb_last_data :: u32
  mb_last_status :: int

text \<open>
  The world of one call: the write function, the mailbox framework's \<open>send\<close>, and the wait,
  which delivers the receive callbacks in order (a callback may carry no message) and the
  registers after it. An empty list of callbacks is a timeout.
\<close>

record mbox_world =
  mw_write :: mwrite
  mw_send :: "u32 \<times> u32 \<Rightarrow> mregs \<Rightarrow> int \<times> mregs"
  mw_wait :: "mregs \<Rightarrow> (u32 \<times> u32) option list \<times> mregs"

definition ETIMEDOUT :: int where "ETIMEDOUT = 110"
definition ENODATA :: int where "ENODATA = 61"
definition ENODEV :: int where "ENODEV = 19"

definition mbox_rx :: "(u32 \<times> u32) option \<Rightarrow> mbox \<Rightarrow> mbox" where
  "mbox_rx m mb =
     (let mb = (case m of Some (cmd, data) \<Rightarrow> mb\<lparr>mb_last_cmd := cmd, mb_last_data := data\<rparr> | None \<Rightarrow> mb)
      in mb\<lparr>mb_rx_count := mb_rx_count mb + 1\<rparr>)"

definition mbox_poll_rx :: "mbox_world \<Rightarrow> mbox \<times> mregs \<Rightarrow> bool \<times> mbox \<times> mregs" where
  "mbox_poll_rx w x =
     (case x of (mb, r) \<Rightarrow>
       if \<not> mb_has_base mb then (False, mb, r)
       else if r B2A_STATUS AND INT_MASK = 0 then (False, mb, r)
       else (let rx = (r B2A_CMD, r B2A_DATA); r = mw_write w B2A_STATUS INT_CLR r
             in (True, mbox_rx (Some rx) mb, r)))"

definition mbox_reinit :: "mbox_world \<Rightarrow> mbox \<Rightarrow> mregs \<Rightarrow> mregs" where
  "mbox_reinit w mb r =
     (if \<not> mb_has_base mb then r
      else if r A2B_INTEN AND INT_MASK \<noteq> 0 \<and> r B2A_INTEN AND INT_MASK \<noteq> 0 then r
      else mw_write w B2A_INTEN B2A_INTEN_VAL
             (mw_write w A2B_INTEN A2B_INTEN_VAL
               (mw_write w B2A_STATUS INT_CLR (mw_write w A2B_STATUS INT_CLR r))))"

definition mbox_send :: "mbox_world \<Rightarrow> u32 \<Rightarrow> u32 \<Rightarrow> mbox \<times> mregs \<Rightarrow> int \<times> mbox \<times> mregs" where
  "mbox_send w cmd data x =
     (case x of (mb, r) \<Rightarrow>
       (let mb = mb\<lparr>mb_msg := (cmd, data)\<rparr>;
            r = mbox_reinit w mb r;
            (ret, r) = mw_send w (mb_msg mb) r;
            (ret, mb, r) =
              (if ret < 0 then (ret, mb, r)
               else
                 (let (msgs, r) = mw_wait w r; mb = fold mbox_rx msgs mb in
                  if msgs \<noteq> [] then (0, mb, r)
                  else
                    (let (got, mb, r) = mbox_poll_rx w (mb, r) in
                     if got then (0, mb, r)
                     else if mb_has_base mb \<and> (r B2A_CMD, r B2A_DATA) = mb_msg mb
                     then (0, mb\<lparr>mb_last_cmd := r B2A_CMD, mb_last_data := r B2A_DATA,
                                 mb_rx_count := mb_rx_count mb + 1\<rparr>, r)
                     else (- ETIMEDOUT, mb, r))))
        in (ret, mb\<lparr>mb_last_status := ret\<rparr>, r)))"

text \<open>
  The kernel's \<open>sscanf\<close> conversion \<^verbatim>\<open>%i\<close>: white space, a minus sign, base 16 or 8 by its
  prefix. The value is stored in 32 bits.
\<close>

definition scan_i :: "string \<Rightarrow> (u32 \<times> string) option" where
  "scan_i s =
     (let s = dropWhile c_isspace s;
          neg = (s \<noteq> [] \<and> hd s = CHR ''-'');
          ds = (if neg then tl s else s);
          digit = (\<lambda>b c. case c_digit c of Some d \<Rightarrow> d < b | None \<Rightarrow> False);
          hex = (case ds of z # x # h # _ \<Rightarrow> z = CHR ''0'' \<and> (x = CHR ''x'' \<or> x = CHR ''X'') \<and> digit 16 h
                  | _ \<Rightarrow> False)
      in if ds = [] \<or> \<not> digit 10 (hd ds) then None
         else
           (let (v, rest) = (if hex then c_digits 16 0 (drop 2 ds)
                             else if hd ds = CHR ''0'' then c_digits 8 0 ds
                             else c_digits 10 0 ds)
            in Some (if neg then - of_nat v else of_nat v, rest)))"

definition ping_args :: "string \<Rightarrow> u32 \<times> u32" where
  "ping_args buf =
     (case scan_i buf of
        None \<Rightarrow> (PING_CMD, PING_DATA)
      | Some (cmd, rest) \<Rightarrow>
          (case scan_i rest of None \<Rightarrow> (cmd, PING_DATA) | Some (data, _) \<Rightarrow> (cmd, data)))"

definition ping_store :: "mbox_world \<Rightarrow> string \<Rightarrow> mbox \<times> mregs \<Rightarrow> int \<times> mbox \<times> mregs" where
  "ping_store w buf x =
     (case ping_args buf of (cmd, data) \<Rightarrow>
       (case mbox_send w cmd data x of
          (ret, s) \<Rightarrow> (if ret \<noteq> 0 then ret else int (length buf), s)))"

definition clear_store :: "mbox_world \<Rightarrow> string \<Rightarrow> mbox \<times> mregs \<Rightarrow> int \<times> mbox \<times> mregs" where
  "clear_store w buf x =
     (case x of (mb, r) \<Rightarrow>
       if \<not> mb_has_base mb then (- ENODEV, mb, r)
       else
         (let r = mw_write w A2B_DATA 0 (mw_write w A2B_CMD 0 (mw_write w A2B_STATUS INT_CLR r));
              r = mw_write w B2A_DATA 0 (mw_write w B2A_CMD 0 (mw_write w B2A_STATUS INT_CLR r))
          in (int (length buf), mb, r)))"

definition int_dec :: "int \<Rightarrow> string" where
  "int_dec i = (if i < 0 then CHR ''-'' # dec_digits (nat (- i)) else dec_digits (nat i))"

definition mbox_status_show :: "mbox \<Rightarrow> string" where
  "mbox_status_show mb =
     ''rx_count='' @ int_dec (sint (mb_rx_count mb)) @ '' last_cmd=0x'' @ hex8 (mb_last_cmd mb) @
     '' last_data=0x'' @ hex8 (mb_last_data mb) @ '' last_status='' @ int_dec (mb_last_status mb) @
     [CHR 0x0A]"

definition mbox_regs_show :: "mbox \<Rightarrow> mregs \<Rightarrow> string" where
  "mbox_regs_show mb r =
     (if \<not> mb_has_base mb then ''mbox_base=none'' @ [CHR 0x0A]
      else ''a2b_status=0x'' @ hex8 (r A2B_STATUS) @ '' a2b_cmd=0x'' @ hex8 (r A2B_CMD) @
           '' a2b_data=0x'' @ hex8 (r A2B_DATA) @ [CHR 0x0A] @
           ''b2a_inten=0x'' @ hex8 (r B2A_INTEN) @ '' b2a_status=0x'' @ hex8 (r B2A_STATUS) @
           '' b2a_cmd=0x'' @ hex8 (r B2A_CMD) @ '' b2a_data=0x'' @ hex8 (r B2A_DATA) @ [CHR 0x0A])"

text \<open>
  Binding: the channel by name, or by index when there is no name; the register block; the sysfs
  group; the ping on boot. The resources held are counted.
\<close>

record mbox_probe_env =
  mp_alloc_ok :: bool
  mp_by_name :: int
  mp_by_index :: int
  mp_has_base :: bool
  mp_group :: int
  mp_auto_ping :: bool
  mp_ping_cmd :: "u32 option"
  mp_ping_data :: "u32 option"

record mbox_res =
  mr_chans :: int
  mr_groups :: int

definition mbox_init :: "bool \<Rightarrow> mbox" where
  "mbox_init base = \<lparr>mb_has_base = base, mb_msg = (0, 0), mb_rx_count = 0, mb_last_cmd = 0,
     mb_last_data = 0, mb_last_status = - ENODATA\<rparr>"

definition mbox_probe ::
  "mbox_probe_env \<Rightarrow> mbox_world \<Rightarrow> mbox_res \<times> mregs \<Rightarrow> int \<times> mbox option \<times> mbox_res \<times> mregs" where
  "mbox_probe env w x =
     (case x of (res, r) \<Rightarrow>
       if \<not> mp_alloc_ok env then (- ENOMEM, None, res, r)
       else
         (let chan = (if mp_by_name env \<noteq> 0 \<and> (mp_by_name env = - ENODEV \<or> mp_by_name env = - EINVAL)
                      then mp_by_index env else mp_by_name env)
          in if chan \<noteq> 0 then (chan, None, res, r)
             else
               (let res = res\<lparr>mr_chans := mr_chans res + 1\<rparr>; mb = mbox_init (mp_has_base env)
                in if mp_group env \<noteq> 0
                   then (mp_group env, None, res\<lparr>mr_chans := mr_chans res - 1\<rparr>, r)
                   else
                     (let res = res\<lparr>mr_groups := mr_groups res + 1\<rparr>;
                          cmd = (case mp_ping_cmd env of Some c \<Rightarrow> c | None \<Rightarrow> PING_CMD);
                          data = (case mp_ping_data env of Some d \<Rightarrow> d | None \<Rightarrow> PING_DATA);
                          (mb, r) = (if mp_auto_ping env then snd (mbox_send w cmd data (mb, r)) else (mb, r))
                      in (0, Some mb, res, r)))))"

definition mbox_remove :: "mbox_res \<Rightarrow> mbox_res" where
  "mbox_remove res = res\<lparr>mr_groups := mr_groups res - 1, mr_chans := mr_chans res - 1\<rparr>"

section \<open>The firmware\<close>

definition FW_ID :: u32 where "FW_ID = 0x42415245"
definition META_OFFSET :: nat where "META_OFFSET = 0x800"

record fw_meta =
  fm_fw_id :: u32
  fm_heartbeat :: u32

text \<open>Where the linker puts the metadata: two words at \<open>META_OFFSET\<close> of the image.\<close>

definition fw_sram :: "fw_meta \<Rightarrow> bytes \<Rightarrow> bytes" where
  "fw_sram m sram =
     take META_OFFSET sram @ le32 (fm_fw_id m) @ le32 (fm_heartbeat m) @ drop (META_OFFSET + 8) sram"

definition fw_mbox_send :: "mwrite \<Rightarrow> u32 \<Rightarrow> u32 \<Rightarrow> mregs \<Rightarrow> mregs" where
  "fw_mbox_send wr cmd data r = wr B2A_STATUS 1 (wr B2A_DATA data (wr B2A_CMD cmd r))"

definition fw_mbox_init :: "mwrite \<Rightarrow> mregs \<Rightarrow> mregs" where
  "fw_mbox_init wr r =
     wr B2A_STATUS 1 (wr A2B_STATUS 1 (wr B2A_INTEN 0x01010101 (wr A2B_INTEN 0x01010101 r)))"

definition fw_mbox_handle :: "mwrite \<Rightarrow> mregs \<Rightarrow> mregs" where
  "fw_mbox_handle wr r =
     (if r A2B_STATUS AND 1 = 0 then r
      else (let cmd = r A2B_CMD; data = r A2B_DATA; r = wr A2B_STATUS 1 r
            in if cmd = PING_CMD then fw_mbox_send wr cmd data r else r))"

definition fw_start :: "mwrite \<Rightarrow> mregs \<Rightarrow> fw_meta \<times> mregs" where
  "fw_start wr r =
     (\<lparr>fm_fw_id = FW_ID, fm_heartbeat = 0x12340000\<rparr>, fw_mbox_send wr BOOT_CMD 1 (fw_mbox_init wr r))"

definition fw_loop :: "mwrite \<Rightarrow> fw_meta \<times> mregs \<Rightarrow> fw_meta \<times> mregs" where
  "fw_loop wr x =
     (case x of (m, r) \<Rightarrow> (m\<lparr>fm_heartbeat := fm_heartbeat m + 1\<rparr>, fw_mbox_handle wr r))"

lemma fw_loop_pair: "fw_loop wr (m, r) = (m\<lparr>fm_heartbeat := fm_heartbeat m + 1\<rparr>, fw_mbox_handle wr r)"
  by (simp add: fw_loop_def)

end
