(* ===== verification/Hpmcu_Probe.thy ===== *)
theory Hpmcu_Probe
  imports Hpmcu_Loader
begin

text \<open>
  Binding and unbinding of \<^verbatim>\<open>omega4_hpmcu_loader.c\<close>: \<open>parse_sram\<close>, the sysfs alias,
  \<open>probe\<close> and \<open>remove\<close>, with the properties of the driver at the end. What the device tree
  and the kernel hold for the device is a record; the values of constants from kernel headers that
  are not part of the sources are fields of it.
\<close>

section \<open>The device tree and the kernel's answers\<close>

datatype mem_region = Mem_None | Mem_Err int | Mem_Region u32 u32
datatype cru_node = Cru_None | Cru_No_Phandle | Cru_Res_Err int | Cru_Map_Err int | Cru_Ok
datatype mem_res = Res_None | Res_Err int | Res_Ok

record probe_env =
  pe_alloc_ok :: bool
  pe_map :: "regmap_id \<Rightarrow> bool"
  pe_cru :: cru_node
  pe_mem :: mem_region
  pe_ioremap_ok :: bool
  pe_memremap_wc_ok :: bool
  pe_memremap_wb :: int
  pe_boot_addr :: mem_res
  pe_cache_status :: mem_res
  pe_rst :: "rst \<Rightarrow> int + bool"
  pe_num_clks :: int
  pe_clk_enable :: int
  pe_firmware_name :: "string option"
  pe_boot_offset :: "u32 option"
  pe_entry_addr :: "u32 option"
  pe_program_grf_map :: bool
  pe_use_sip :: bool
  pe_busmcu_id :: u32
  pe_sip_mcu_id :: "u32 option"
  pe_sip_code :: "u32 option"
  pe_sip_sram :: "u32 option"
  pe_sip_exsram :: "u32 option"
  pe_cache_misc :: "u32 option"
  pe_cache_peri_start :: "u32 option"
  pe_cache_peri_end :: "u32 option"
  pe_hb_offset :: "u32 option"
  pe_fw_id_offset :: "u32 option"
  pe_auto_boot :: bool
  pe_group :: int
  pe_has_parent :: bool
  pe_has_bus :: bool
  pe_link :: "bool \<Rightarrow> int"

text \<open>The sysfs directories that may carry the alias: whether each already has a link of that name.\<close>

record links =
  lk_parent :: bool
  lk_bus :: bool

section \<open>SRAM\<close>

definition parse_sram :: "probe_env \<Rightarrow> loader \<Rightarrow> int \<times> loader" where
  "parse_sram env l =
     (case pe_mem env of
        Mem_None \<Rightarrow> (- EINVAL, l)
      | Mem_Err ret \<Rightarrow> (ret, l)
      | Mem_Region start sz \<Rightarrow>
          (let l = l\<lparr>hl_sram_phys := start, hl_sram_size := sz\<rparr> in
           if pe_ioremap_ok env then (0, l\<lparr>hl_sram_is_io := True, hl_sram_is_wc := False\<rparr>)
           else if pe_memremap_wc_ok env then (0, l\<lparr>hl_sram_is_io := False, hl_sram_is_wc := True\<rparr>)
           else if pe_memremap_wb env \<noteq> 0 then (pe_memremap_wb env, l)
           else (0, l\<lparr>hl_sram_is_io := False, hl_sram_is_wc := False\<rparr>)))"

section \<open>Alias\<close>

text \<open>\<open>sysfs_create_link\<close> fails with \<open>EEXIST\<close> on a taken name, or for a reason of its own.\<close>

definition create_link :: "int \<Rightarrow> bool \<Rightarrow> int \<times> bool" where
  "create_link err taken =
     (if taken then (- EEXIST, taken) else if err \<noteq> 0 then (err, taken) else (0, True))"

definition alias_create :: "probe_env \<Rightarrow> loader \<times> links \<Rightarrow> loader \<times> links" where
  "alias_create env x =
     (case x of (l, k) \<Rightarrow>
       (let (l, k) =
          (if pe_has_parent env then
             (case create_link (pe_link env True) (lk_parent k) of
                (ret, t) \<Rightarrow> (if ret = 0 then l\<lparr>hl_alias_parent := True\<rparr> else l, k\<lparr>lk_parent := t\<rparr>))
           else (l, k))
        in if pe_has_bus env then
             (case create_link (pe_link env False) (lk_bus k) of
                (ret, t) \<Rightarrow> (if ret = 0 then l\<lparr>hl_alias_bus := True\<rparr> else l, k\<lparr>lk_bus := t\<rparr>))
           else (l, k)))"

definition alias_remove :: "probe_env \<Rightarrow> loader \<times> links \<Rightarrow> links" where
  "alias_remove env x =
     (case x of (l, k) \<Rightarrow>
       (let k = (if hl_alias_parent l \<and> pe_has_parent env then k\<lparr>lk_parent := False\<rparr> else k)
        in if hl_alias_bus l \<and> pe_has_bus env then k\<lparr>lk_bus := False\<rparr> else k))"

section \<open>Probe\<close>

definition DEFAULT_FIRMWARE :: string where "DEFAULT_FIRMWARE = ''omega4/rv1103b-hpmcu-bare.bin''"

definition loader_init :: "probe_env \<Rightarrow> loader" where
  "loader_init env =
     \<lparr>hl_sram_phys = 0, hl_sram_size = 0, hl_sram_is_io = False, hl_sram_is_wc = False,
      hl_has_map = pe_map env, hl_has_cru = (pe_cru env = Cru_Ok), hl_has_rst = (\<lambda>_. False),
      hl_num_clks = 0, hl_fw_name = DEFAULT_FIRMWARE, hl_fw_override = None, hl_boot_offset = 0,
      hl_entry_addr = 0, hl_cache_misc = 0, hl_cache_peri_start = 0, hl_cache_peri_end = 0,
      hl_cache_misc_valid = False, hl_cache_peri_valid = False, hl_entry_valid = False,
      hl_program_grf_map = False, hl_use_sip = False, hl_sip_code_valid = False,
      hl_sip_sram_valid = False, hl_sip_exsram_valid = False, hl_sip_mcu_id = 0,
      hl_sip_code_addr = 0, hl_sip_sram_addr = 0, hl_sip_exsram_addr = 0, hl_running = False,
      hl_work_pending = False, hl_hb_offset = 0x804, hl_hb_last = 0, hl_hb_reads_left = 0,
      hl_hb_valid = True, hl_fw_id_offset = 0x800, hl_fw_id_valid = True,
      hl_alias_parent = False, hl_alias_bus = False\<rparr>"

text \<open>The reset lines: each may fail, be absent or present; the array only if no line is there.\<close>

definition probe_resets :: "probe_env \<Rightarrow> loader \<Rightarrow> int + loader" where
  "probe_resets env l =
     (case pe_rst env R_Core of Inl e \<Rightarrow> Inl e | Inr core \<Rightarrow>
     (case pe_rst env R_Cluster of Inl e \<Rightarrow> Inl e | Inr cluster \<Rightarrow>
     (case pe_rst env R_Pwup of Inl e \<Rightarrow> Inl e | Inr pwup \<Rightarrow>
        (let has = (\<lambda>r. case r of R_Core \<Rightarrow> core | R_Cluster \<Rightarrow> cluster | R_Pwup \<Rightarrow> pwup | R_Array \<Rightarrow> False)
         in if \<not> core \<and> \<not> cluster \<and> \<not> pwup then
              (case pe_rst env R_Array of
                 Inl e \<Rightarrow> Inl e
               | Inr arr \<Rightarrow> Inr (l\<lparr>hl_has_rst := has(R_Array := arr)\<rparr>))
            else Inr (l\<lparr>hl_has_rst := has\<rparr>)))))"

definition dt_default :: "u32 option \<Rightarrow> u32 \<Rightarrow> u32" where
  "dt_default v d = (case v of Some x \<Rightarrow> x | None \<Rightarrow> d)"

definition probe_props :: "probe_env \<Rightarrow> loader \<Rightarrow> loader" where
  "probe_props env l =
     (let l = (case pe_firmware_name env of Some n \<Rightarrow> l\<lparr>hl_fw_name := n\<rparr> | None \<Rightarrow> l);
          l = l\<lparr>hl_boot_offset := dt_default (pe_boot_offset env) (hl_boot_offset l),
                hl_entry_addr := dt_default (pe_entry_addr env) (hl_entry_addr l),
                hl_entry_valid := (pe_entry_addr env \<noteq> None),
                hl_program_grf_map := pe_program_grf_map env,
                hl_use_sip := pe_use_sip env\<rparr>;
          l = (if hl_use_sip l then l\<lparr>hl_sip_mcu_id := pe_busmcu_id env\<rparr> else l);
          l = l\<lparr>hl_sip_mcu_id := dt_default (pe_sip_mcu_id env) (hl_sip_mcu_id l),
                hl_sip_code_addr := dt_default (pe_sip_code env) (hl_sip_code_addr l),
                hl_sip_code_valid := (pe_sip_code env \<noteq> None),
                hl_sip_sram_addr := dt_default (pe_sip_sram env) (hl_sip_sram_addr l),
                hl_sip_sram_valid := (pe_sip_sram env \<noteq> None),
                hl_sip_exsram_addr := dt_default (pe_sip_exsram env) (hl_sip_exsram_addr l),
                hl_sip_exsram_valid := (pe_sip_exsram env \<noteq> None),
                hl_cache_misc := dt_default (pe_cache_misc env) (hl_cache_misc l),
                hl_cache_misc_valid := (pe_cache_misc env \<noteq> None),
                hl_cache_peri_start := dt_default (pe_cache_peri_start env) (hl_cache_peri_start l)\<rparr>;
          l = (if pe_cache_peri_start env \<noteq> None
               then l\<lparr>hl_cache_peri_end := dt_default (pe_cache_peri_end env) (hl_cache_peri_end l),
                      hl_cache_peri_valid := (pe_cache_peri_end env \<noteq> None)\<rparr>
               else l);
          l = l\<lparr>hl_hb_offset := dt_default (pe_hb_offset env) (hl_hb_offset l),
                hl_fw_id_offset := dt_default (pe_fw_id_offset env) (hl_fw_id_offset l)\<rparr>;
          l = (if hl_hb_offset l > hl_sram_size l - 4 then l\<lparr>hl_hb_valid := False\<rparr> else l)
      in if hl_fw_id_offset l > hl_sram_size l - 4 then l\<lparr>hl_fw_id_valid := False\<rparr> else l)"

definition cru_error :: "cru_node \<Rightarrow> int" where
  "cru_error c = (case c of Cru_None \<Rightarrow> 0 | Cru_No_Phandle \<Rightarrow> - EINVAL | Cru_Res_Err e \<Rightarrow> e
     | Cru_Map_Err e \<Rightarrow> e | Cru_Ok \<Rightarrow> 0)"

definition res_error :: "mem_res \<Rightarrow> int" where
  "res_error r = (case r of Res_None \<Rightarrow> - EINVAL | Res_Err e \<Rightarrow> e | Res_Ok \<Rightarrow> 0)"

text \<open>The part up to the clocks: a return of its own is \<open>Inl\<close>.\<close>

definition probe_resources :: "probe_env \<Rightarrow> int + loader" where
  "probe_resources env =
     (if \<not> pe_alloc_ok env then Inl (- ENOMEM)
      else if cru_error (pe_cru env) \<noteq> 0 then Inl (cru_error (pe_cru env))
      else
        (let (ret, l) = parse_sram env (loader_init env) in
         if ret \<noteq> 0 then Inl ret
         else if res_error (pe_boot_addr env) \<noteq> 0 then Inl (res_error (pe_boot_addr env))
         else if res_error (pe_cache_status env) \<noteq> 0 then Inl (res_error (pe_cache_status env))
         else probe_resets env l))"

definition clk_enable :: "probe_env \<Rightarrow> plat \<Rightarrow> int \<times> plat" where
  "clk_enable env p =
     (if pe_num_clks env > 0 then
        (if pe_clk_enable env \<noteq> 0 then (pe_clk_enable env, p) else (0, p\<lparr>pl_clk_on := pl_clk_on p + 1\<rparr>))
      else (0, p))"

definition hpmcu_probe ::
  "probe_env \<Rightarrow> hl_env \<Rightarrow> plat \<times> links \<Rightarrow> int \<times> loader option \<times> plat \<times> links" where
  "hpmcu_probe env henv x =
     (case x of (p, k) \<Rightarrow>
       (case probe_resources env of
          Inl ret \<Rightarrow> (ret, None, p, k)
        | Inr l \<Rightarrow>
            if pe_num_clks env < 0 then (pe_num_clks env, None, p, k)
            else
              (let l = l\<lparr>hl_num_clks := pe_num_clks env\<rparr>;
                   (ret, p) = clk_enable env p
               in if ret \<noteq> 0 then (ret, None, p, k)
                  else
                    (let l = probe_props env l in
                     if pe_group env \<noteq> 0 then (pe_group env, None, p, k)
                     else
                       (let (ret, l, p) = (if pe_auto_boot env then start_locked henv (l, p) else (0, l, p))
                        in if ret \<noteq> 0 then (ret, None, p, k)
                           else (case alias_create env (l, k) of (l, k) \<Rightarrow> (0, Some l, p, k)))))))"

definition hpmcu_remove :: "probe_env \<Rightarrow> hl_env \<Rightarrow> loader \<Rightarrow> plat \<times> links \<Rightarrow> plat \<times> links" where
  "hpmcu_remove env henv l x =
     (case x of (p, k) \<Rightarrow>
       (case stop_locked henv (l, p) of
          (_, l, p) \<Rightarrow>
            (if hl_num_clks l > 0 then p\<lparr>pl_clk_on := pl_clk_on p - 1\<rparr> else p, alias_remove env (l, k))))"

section \<open>Facts about probe and remove\<close>

lemma alias_round_trip:
  assumes "alias_create env (l, k) = (l', k')" and "\<not> hl_alias_parent l" and "\<not> hl_alias_bus l"
  shows "alias_remove env (l', k') = k"
  using assms
  by (auto simp: alias_create_def alias_remove_def create_link_def EEXIST_def Let_def
      split: if_splits prod.splits)

lemma alias_create_keeps:
  assumes "alias_create env (l, k) = (l', k')"
  shows "hl_num_clks l' = hl_num_clks l" "hl_sram_size l' = hl_sram_size l" "hl_hb_valid l' = hl_hb_valid l"
    "hl_hb_offset l' = hl_hb_offset l" "hl_work_pending l' = hl_work_pending l"
    "hl_running l' = hl_running l" "hl_hb_reads_left l' = hl_hb_reads_left l"
  using assms by (auto simp: alias_create_def Let_def split: if_splits prod.splits)

lemma start_locked_keeps:
  assumes "start_locked env (l, p) = (ret, l', p')"
  shows "pl_clk_on p' = pl_clk_on p \<and> pl_fw_refs p' = pl_fw_refs p \<and> hl_num_clks l' = hl_num_clks l \<and>
    hl_alias_parent l' = hl_alias_parent l \<and> hl_alias_bus l' = hl_alias_bus l"
  using assms
proof (cases rule: start_locked_cases)
  case (loaded fw p0 p4)
  from start_loaded_facts [OF loaded(5,2,3,4)] obtain l2 where cfg: "same_config l l2"
    and "ret \<noteq> 0 \<longrightarrow> l' = l2" "ret = 0 \<longrightarrow> l' = (if hl_hb_valid l
      then l2\<lparr>hl_running := True, hl_hb_reads_left := 2, hl_work_pending := True\<rparr>
      else l2\<lparr>hl_running := True\<rparr>)"
    and "pl_clk_on p4 = pl_clk_on p" "pl_fw_refs p4 = pl_fw_refs p + 1" by auto
  then show ?thesis using same_config_sel [OF cfg] loaded(6) by (cases "ret = 0") auto
qed simp

lemma stop_locked_keeps:
  "stop_locked env (l, p) = (ret, l', p') \<Longrightarrow>
   pl_clk_on p' = pl_clk_on p \<and> hl_num_clks l' = hl_num_clks l \<and>
   hl_alias_parent l' = hl_alias_parent l \<and> hl_alias_bus l' = hl_alias_bus l"
  by (auto simp: stop_locked_def rst_assert_def hw_do_def Let_def split: if_splits)

text \<open>A driver that \<open>probe\<close> has bound satisfies the invariant of the running driver.\<close>

lemma probe_resets_keeps:
  "probe_resets env l = Inr l' \<Longrightarrow> \<exists>has. l' = l\<lparr>hl_has_rst := has\<rparr>"
  by (auto simp: probe_resets_def Let_def split: sum.splits if_splits)

lemma probe_resources_sram:
  assumes "probe_resources env = Inr l"
  shows "pe_mem env = Mem_Region start sz \<Longrightarrow> hl_sram_size l = sz" and "hl_hb_valid l" "\<not> hl_work_pending l"
    "\<not> hl_running l" "\<not> hl_alias_parent l" "\<not> hl_alias_bus l" "hl_fw_override l = None"
  using assms
  by (auto simp: probe_resources_def parse_sram_def loader_init_def Let_def EINVAL_def
      split: if_splits mem_region.splits dest!: probe_resets_keeps)

lemma probe_props_keeps:
  assumes "l' = probe_props env l"
  shows "hl_sram_size l' = hl_sram_size l" "hl_num_clks l' = hl_num_clks l"
    "hl_alias_parent l' = hl_alias_parent l" "hl_alias_bus l' = hl_alias_bus l"
    "hl_running l' = hl_running l" "hl_work_pending l' = hl_work_pending l"
    "hl_hb_valid l' \<longrightarrow> hl_hb_offset l' \<le> hl_sram_size l' - 4"
  unfolding assms by (auto simp: probe_props_def Let_def split: option.split)

lemma hpmcu_probe_ok:
  assumes "hpmcu_probe env henv (p, k) = (0, Some l, p', k')"
  obtains l0 p1 l1 l2 where "probe_resources env = Inr l0" "pe_num_clks env \<ge> 0"
    "clk_enable env p = (0, p1)" "l1 = probe_props env (l0\<lparr>hl_num_clks := pe_num_clks env\<rparr>)"
    "(if pe_auto_boot env then start_locked henv (l1, p1) else (0, l1, p1)) = (0, l2, p')"
    "alias_create env (l2, k) = (l, k')"
proof -
  from assms obtain l0 where l0: "probe_resources env = Inr l0"
    by (auto simp: hpmcu_probe_def split: sum.splits)
  obtain ret p1 where clk: "clk_enable env p = (ret, p1)" by fastforce
  let ?l1 = "probe_props env (l0\<lparr>hl_num_clks := pe_num_clks env\<rparr>)"
  obtain ret2 l2 p2 where st: "(if pe_auto_boot env then start_locked henv (?l1, p1) else (0, ?l1, p1)) = (ret2, l2, p2)"
    by (metis prod_cases3)
  obtain l3 k3 where al: "alias_create env (l2, k) = (l3, k3)" by fastforce
  have "pe_num_clks env \<ge> 0" "ret = 0" "ret2 = 0" "l3 = l" "k3 = k'" "p2 = p'"
    using assms l0 clk st al by (auto simp: hpmcu_probe_def Let_def split: if_splits)
  with l0 clk st al that show thesis by blast
qed

text \<open>
  A bound driver starts in the invariant, when the region is a real one (at least a word long) and
  the platform's SRAM is that region.
\<close>

lemma hpmcu_probe_inv:
  assumes p: "hpmcu_probe env henv (p, k) = (0, Some l, p', k')"
    and mem: "pe_mem env = Mem_Region start sz" "4 \<le> sz" "length (pl_sram p) = unat sz" "pl_fw_refs p = 0"
  shows "hl_inv (l, p')"
proof -
  obtain l0 p1 l1 l2 where res: "probe_resources env = Inr l0" "clk_enable env p = (0, p1)"
    and l1: "l1 = probe_props env (l0\<lparr>hl_num_clks := pe_num_clks env\<rparr>)"
    and st: "(if pe_auto_boot env then start_locked henv (l1, p1) else (0, l1, p1)) = (0, l2, p')"
    and al: "alias_create env (l2, k) = (l, k')"
    using hpmcu_probe_ok [OF p] by metis
  note S = probe_resources_sram [OF res(1)] and L = probe_props_keeps [OF l1]
  have "hl_sram_size l0 = sz" by (rule S(1) [OF mem(1)])
  moreover have "pl_sram p1 = pl_sram p" "pl_fw_refs p1 = pl_fw_refs p"
    using res(2) by (auto simp: clk_enable_def split: if_splits)
  ultimately have inv1: "hl_inv (l1, p1)" using L S mem by (simp add: hl_inv_def)
  have "hl_inv (l2, p')"
  proof (cases "pe_auto_boot env")
    case True
    with st start_locked_inv [OF inv1, of henv] show ?thesis by simp
  next
    case False
    with st inv1 show ?thesis by simp
  qed
  with alias_create_keeps [OF al] show ?thesis by (simp add: hl_inv_def)
qed

lemma probe_remove_balance:
  assumes p: "hpmcu_probe env henv (p, k) = (0, Some l, p', k')"
    and r: "hpmcu_remove env henv' l (p', k') = (p'', k'')"
  shows "pl_clk_on p'' = pl_clk_on p \<and> k'' = k"
proof -
  obtain l0 p1 l1 l2 where res: "probe_resources env = Inr l0" "clk_enable env p = (0, p1)"
    and n: "pe_num_clks env \<ge> 0"
    and l1: "l1 = probe_props env (l0\<lparr>hl_num_clks := pe_num_clks env\<rparr>)"
    and st: "(if pe_auto_boot env then start_locked henv (l1, p1) else (0, l1, p1)) = (0, l2, p')"
    and al: "alias_create env (l2, k) = (l, k')"
    using hpmcu_probe_ok [OF p] by metis
  note S = probe_resources_sram [OF res(1)] and L = probe_props_keeps [OF l1]
  have l2: "pl_clk_on p' = pl_clk_on p1 \<and> hl_num_clks l2 = pe_num_clks env \<and>
      \<not> hl_alias_parent l2 \<and> \<not> hl_alias_bus l2"
    using st L S start_locked_keeps [of henv l1 p1 0 l2 p'] by (auto split: if_splits)
  obtain ret3 l3 p3 where stop: "stop_locked henv' (l, p') = (ret3, l3, p3)"
    by (cases "stop_locked henv' (l, p')") auto
  note K = stop_locked_keeps [OF stop]
  have "k'' = k"
  proof -
    have "alias_remove env (l3, k') = alias_remove env (l, k')" using K by (simp add: alias_remove_def)
    with alias_round_trip [OF al] l2 r stop show ?thesis by (auto simp: hpmcu_remove_def)
  qed
  moreover have "pl_clk_on p'' = pl_clk_on p"
    using r stop K l2 alias_create_keeps(1) [OF al] res(2) n
    by (auto simp: hpmcu_remove_def clk_enable_def split: if_splits)
  ultimately show ?thesis by simp
qed

end
