(* ===== verification/Hpmcu_Correct.thy ===== *)
theory Hpmcu_Correct
  imports Hpmcu_Probe
begin

text \<open>The properties of the HPMCU loader and the concrete platform they are applied to.\<close>

section \<open>A concrete platform\<close>

definition ex_probe :: probe_env where
  "ex_probe =
     \<lparr>pe_alloc_ok = True, pe_map = (\<lambda>_. True), pe_cru = Cru_Ok, pe_mem = Mem_Region 0x03ff0000 8,
      pe_ioremap_ok = True, pe_memremap_wc_ok = True, pe_memremap_wb = 0, pe_boot_addr = Res_Ok,
      pe_cache_status = Res_Ok, pe_rst = (\<lambda>r. Inr (r = R_Core)), pe_num_clks = 2, pe_clk_enable = 0,
      pe_firmware_name = Some ''omega4/fw.bin'', pe_boot_offset = None, pe_entry_addr = None,
      pe_program_grf_map = False, pe_use_sip = False, pe_busmcu_id = 0, pe_sip_mcu_id = None,
      pe_sip_code = None, pe_sip_sram = None, pe_sip_exsram = None, pe_cache_misc = None,
      pe_cache_peri_start = None, pe_cache_peri_end = None, pe_hb_offset = Some 4,
      pe_fw_id_offset = Some 0, pe_auto_boot = True, pe_group = 0, pe_has_parent = True,
      pe_has_bus = True, pe_link = (\<lambda>_. 0)\<rparr>"

definition ex_hl_env :: hl_env where
  "ex_hl_env = \<lparr>he_fw = (\<lambda>_. Inr [1, 2, 3]), he_assert = (\<lambda>_. 0), he_deassert = (\<lambda>_. 0),
     he_psci = True, he_sip = (\<lambda>_. 0), he_reg = (\<lambda>_ _. 0)\<rparr>"

definition ex_plat :: plat where
  "ex_plat = \<lparr>pl_sram = replicate 8 0xff, pl_reset = (\<lambda>_. True), pl_cru = 0, pl_reg = (\<lambda>_ _. 0),
     pl_boot = 0, pl_clk_on = 0, pl_fw_refs = 0, pl_ops = []\<rparr>"

definition ex_links :: links where
  "ex_links = \<lparr>lk_parent = False, lk_bus = True\<rparr>"

definition ex_loader :: loader where
  "ex_loader = probe_props ex_probe ((loader_init ex_probe)\<lparr>hl_sram_phys := 0x03ff0000, hl_sram_size := 8,
     hl_sram_is_io := True, hl_has_rst := (\<lambda>r. r = R_Core), hl_num_clks := 2\<rparr>)"

lemmas ex_hpmcu = ex_probe_def ex_hl_env_def ex_plat_def ex_links_def ex_loader_def loader_init_def
  probe_props_def dt_default_def

lemmas start_unfold = start_locked_def start_loaded_def start_assert_def rst_assert_def cru_write_def
  load_sram_def start_program_def sip_config_def start_entry_def start_map_def start_cache_def
  regmap_write_def start_deassert_def rst_deassert_def hw_do_def

section \<open>Properties\<close>

text \<open>C6: What a successful start means. When \<open>start_locked\<close> returns 0, the SRAM holds the
  firmware image of the configured name padded with zeros, the core, cluster and power-up resets
  and the CRU reset are released, the driver reports a running core with the heartbeat scheduled,
  and no reference to the image is left.\<close>

theorem hpmcu_start_success:
  assumes "start_locked env (l, p) = (0, l', p')" and "\<forall>n e. he_fw env n = Inl e \<longrightarrow> e \<noteq> 0"
  shows "\<exists>fw. he_fw env (hl_fw_name l) = Inr fw \<and> fw \<noteq> [] \<and> length fw \<le> unat (hl_sram_size l) \<and>
    pl_sram p' = fw @ replicate (unat (hl_sram_size l) - length fw) 0 \<and>
    (\<forall>r. main_rst l = Some r \<longrightarrow> \<not> pl_reset p' r) \<and>
    (hl_has_rst l R_Cluster \<longrightarrow> \<not> pl_reset p' R_Cluster) \<and>
    (hl_has_rst l R_Pwup \<longrightarrow> \<not> pl_reset p' R_Pwup) \<and>
    (hl_has_cru l \<longrightarrow> pl_cru p' = CRU_DEASSERT) \<and>
    status_show l' = ''running'' @ [CHR 0x0A] \<and>
    (hl_hb_valid l \<longrightarrow> hl_work_pending l' \<and> hl_hb_reads_left l' = 2) \<and>
    pl_fw_refs p' = pl_fw_refs p"
  using assms(1)
proof (cases rule: start_locked_cases)
  case unchanged
  with assms(2) show ?thesis by blast
next
  case (loaded fw p0 p4)
  from start_loaded_facts [OF loaded(5,2,3,4)] loaded(1-3,6) show ?thesis
    by (auto simp: status_show_def)
qed

theorem hpmcu_start_success_witness:
  "\<exists>l' p'. start_locked ex_hl_env (ex_loader, ex_plat) = (0, l', p') \<and>
     pl_sram p' = [1, 2, 3] @ replicate 5 0 \<and> \<not> pl_reset p' R_Core"
proof -
  obtain l' p' where r: "start_locked ex_hl_env (ex_loader, ex_plat) = (0, l', p')"
    by (simp add: start_unfold ex_hpmcu Let_def)
  have "hl_sram_size ex_loader = 8" "main_rst ex_loader = Some R_Core"
    by (simp_all add: ex_hpmcu Let_def main_rst_def)
  with hpmcu_start_success [OF r] have "pl_sram p' = [1, 2, 3] @ replicate 5 0 \<and> \<not> pl_reset p' R_Core"
    by (simp add: ex_hl_env_def)
  with r show ?thesis by blast
qed

text \<open>C7: The core is held while its memory changes. In every start, also one that fails half way,
  the SRAM, the boot address and the system registers are written only between the assertion and
  the release of the reset line that holds the core.\<close>

theorem hpmcu_writes_only_in_reset:
  assumes "start_locked env (l, p) = (ret, l', p')" and "main_rst l = Some r"
  shows "\<exists>ops. pl_ops p' = pl_ops p @ ops \<and> guarded r False ops"
  using assms(1)
proof (cases rule: start_locked_cases)
  case unchanged
  then show ?thesis by (intro exI [of _ "[]"]) simp
next
  case (loaded fw p0 p4)
  from start_loaded_facts [OF loaded(5,2,3,4)] assms(2) loaded(6) show ?thesis by auto
qed

theorem hpmcu_writes_only_in_reset_witness:
  "\<exists>ret l' p' ops. start_locked ex_hl_env (ex_loader, ex_plat) = (ret, l', p') \<and> pl_ops p' = ops \<and>
     guarded R_Core False ops"
proof -
  obtain ret l' p' where r: "start_locked ex_hl_env (ex_loader, ex_plat) = (ret, l', p')"
    by (cases "start_locked ex_hl_env (ex_loader, ex_plat)") auto
  have "main_rst ex_loader = Some R_Core" by (simp add: ex_hpmcu Let_def main_rst_def)
  with hpmcu_writes_only_in_reset [OF r] r show ?thesis by (simp add: ex_plat_def)
qed

text \<open>C8: Every reachable state of a bound driver. After \<open>probe\<close> has succeeded on a region of at
  least a word, any sequence of starts and stops with any outcome, heartbeat work and firmware
  names keeps the driver inside the SRAM and the invariant: no firmware image is leaked, and
  pending heartbeat work has one or two reads left, so its counter never wraps.\<close>

theorem hpmcu_reachable_safe:
  assumes "hpmcu_probe env henv (p, k) = (0, Some l, p', k')"
    and "pe_mem env = Mem_Region start sz" and "4 \<le> sz" and "length (pl_sram p) = unat sz"
    and "pl_fw_refs p = 0"
  shows "\<exists>l'' p''. c_run hl_step es (l, p') = Some (l'', p'') \<and> pl_fw_refs p'' = 0 \<and>
    length (pl_sram p'') = unat (hl_sram_size l'') \<and>
    (hl_work_pending l'' \<longrightarrow> hl_running l'' \<and> (hl_hb_reads_left l'' = 1 \<or> hl_hb_reads_left l'' = 2))"
  using hpmcu.run_safe [OF hpmcu_probe_inv [OF assms], of es] by (auto simp: hl_inv_def)

theorem hpmcu_reachable_safe_witness:
  "\<exists>l p k. hpmcu_probe ex_probe ex_hl_env (ex_plat, ex_links) = (0, Some l, p, k) \<and>
     (\<exists>l'' p''. c_run hl_step [Hl_Work, Hl_Start ex_hl_env, Hl_Work, Hl_Work, Hl_Stop ex_hl_env] (l, p) =
        Some (l'', p'') \<and> pl_fw_refs p'' = 0)"
proof -
  obtain l p k where r: "hpmcu_probe ex_probe ex_hl_env (ex_plat, ex_links) = (0, Some l, p, k)"
    by (simp add: hpmcu_probe_def probe_resources_def parse_sram_def probe_resets_def clk_enable_def
        cru_error_def res_error_def alias_create_def create_link_def start_unfold ex_hpmcu Let_def)
  have "pe_mem ex_probe = Mem_Region 0x03ff0000 8" "length (pl_sram ex_plat) = unat (8 :: u32)"
    "pl_fw_refs ex_plat = 0" by (simp_all add: ex_probe_def ex_plat_def)
  from hpmcu_reachable_safe [OF r this(1) _ this(2,3)] r show ?thesis by fastforce
qed

text \<open>A failed restart is reported as running. When a running core is started again and the
  release of the reset fails, the call returns the error, but the status file still says
  \<open>running\<close> although the SRAM has been overwritten and the core is held in reset.\<close>

theorem hpmcu_failed_restart_runs:
  assumes "hl_running l" and "main_rst l = Some r" and "he_fw env (hl_fw_name l) = Inr fw"
    and "fw \<noteq> []" and "length fw \<le> unat (hl_sram_size l)" and "he_assert env r = 0"
    and "start_locked env (l, p) = (ret, l', p')" and "ret \<noteq> 0"
  shows "status_show l' = ''running'' @ [CHR 0x0A] \<and> pl_reset p' r \<and>
    pl_sram p' = fw @ replicate (unat (hl_sram_size l) - length fw) 0"
proof -
  let ?p = "p\<lparr>pl_fw_refs := pl_fw_refs p + 1\<rparr>"
  obtain ret4 p4 where r: "start_loaded env fw (l, ?p) = (ret4, l', p4)"
    and p': "p' = p4\<lparr>pl_fw_refs := pl_fw_refs p4 - 1\<rparr>" and "ret4 = ret"
    using assms(3,7) by (auto simp: start_locked_def split: prod.splits)
  obtain ra p0 where a: "start_assert env l ?p = (ra, p0)" by fastforce
  moreover have "ra = 0"
    using a assms(2,6) by (auto simp: start_assert_def rst_assert_def main_rst_def Let_def split: if_splits)
  ultimately obtain l2 where "same_config l l2" "l' = l2"
      "pl_sram p4 = fw @ replicate (unat (hl_sram_size l) - length fw) 0" "pl_reset p4 r"
    using start_loaded_facts [OF r assms(4,5), of p0] assms(2,8) \<open>ret4 = ret\<close> by auto
  with p' assms(1) same_config_sel [OF \<open>same_config l l2\<close>] show ?thesis by (simp add: status_show_def)
qed

theorem hpmcu_failed_restart_runs_witness:
  "\<exists>l' p'. start_locked (ex_hl_env\<lparr>he_deassert := (\<lambda>_. - 5)\<rparr>)
      (ex_loader\<lparr>hl_running := True\<rparr>, ex_plat\<lparr>pl_reset := (\<lambda>_. False)\<rparr>) = (- 5, l', p') \<and>
     status_show l' = ''running'' @ [CHR 0x0A] \<and> pl_reset p' R_Core"
proof -
  let ?env = "ex_hl_env\<lparr>he_deassert := (\<lambda>_. - 5)\<rparr>" and ?l = "ex_loader\<lparr>hl_running := True\<rparr>"
  obtain l' p' where r: "start_locked ?env (?l, ex_plat\<lparr>pl_reset := (\<lambda>_. False)\<rparr>) = (- 5, l', p')"
    by (simp add: start_unfold ex_hpmcu Let_def)
  have "hl_running ?l" "main_rst ?l = Some R_Core" "he_fw ?env (hl_fw_name ?l) = Inr [1, 2, 3]"
    "he_assert ?env R_Core = 0" "length [1, 2, 3 :: u8] \<le> unat (hl_sram_size ?l)"
    by (simp_all add: ex_hpmcu Let_def main_rst_def)
  from hpmcu_failed_restart_runs [OF this(1,2,3) _ this(5,4) r] r show ?thesis by auto
qed

text \<open>The boot window. Without SIP and without an entry address in the device tree, the boot
  address and the code page the start programs make the core's first fetch hit the SRAM: window
  base in the code register plus boot address is the physical SRAM address plus the boot offset.\<close>

theorem hpmcu_boot_window:
  assumes "hl_has_map l Grf" and "\<not> hl_entry_valid l" and "he_reg env Grf GRF_CODE_ADDR = 0"
    and "BOOT_ADDR \<le> hl_sram_phys l" and "take_bit 12 (hl_sram_phys l) = 0"
  shows "push_bit 12 (pl_reg (start_map env l False (start_entry l False) p) Grf GRF_CODE_ADDR) +
    start_entry l False = hl_sram_phys l + hl_boot_offset l"
  using assms by (rule start_window)

theorem hpmcu_boot_window_witness:
  "push_bit 12 (pl_reg (start_map ex_hl_env ex_loader False (start_entry ex_loader False) ex_plat) Grf GRF_CODE_ADDR) +
    start_entry ex_loader False = 0x03ff0000"
proof -
  have "hl_boot_offset ex_loader = 0" "hl_sram_phys ex_loader = 0x03ff0000" "hl_has_map ex_loader Grf"
    "\<not> hl_entry_valid ex_loader" "he_reg ex_hl_env Grf GRF_CODE_ADDR = 0"
    by (simp_all add: ex_hpmcu Let_def)
  then show ?thesis using hpmcu_boot_window [of ex_loader ex_hl_env ex_plat]
    by (simp add: BOOT_ADDR_def take_bit_eq_mod)
qed



text \<open>A failed probe leaks the clocks. Once the clocks are enabled, every later error return of
  \<open>probe\<close> - the sysfs group, or the automatic start, for example when the firmware file is
  missing - leaves them enabled although the driver is not bound.\<close>

theorem hpmcu_probe_error_leaks_clocks:
  assumes "probe_resources env = Inr l" and "0 < pe_num_clks env" and "pe_clk_enable env = 0"
    and "hpmcu_probe env henv (p, k) = (ret, bound, p', k')" and "ret \<noteq> 0"
  shows "bound = None \<and> pl_clk_on p' = pl_clk_on p + 1"
proof -
  let ?l = "probe_props env (l\<lparr>hl_num_clks := pe_num_clks env\<rparr>)"
  let ?p = "p\<lparr>pl_clk_on := pl_clk_on p + 1\<rparr>"
  obtain r2 l2 p2 where s: "start_locked henv (?l, ?p) = (r2, l2, p2)"
    by (cases "start_locked henv (?l, ?p)") auto
  have "pl_clk_on p2 = pl_clk_on p + 1" using start_locked_keeps [OF s] by simp
  with assms s show ?thesis
    by (auto simp: hpmcu_probe_def clk_enable_def Let_def split: if_splits prod.splits)
qed

theorem hpmcu_probe_error_leaks_clocks_witness:
  "\<exists>p k. hpmcu_probe ex_probe (ex_hl_env\<lparr>he_fw := (\<lambda>_. Inl (- 2))\<rparr>) (ex_plat, ex_links) = (- 2, None, p, k) \<and>
     pl_clk_on p = 1"
proof -
  let ?henv = "ex_hl_env\<lparr>he_fw := (\<lambda>_. Inl (- 2))\<rparr>"
  obtain l where l: "probe_resources ex_probe = Inr l"
    by (simp add: probe_resources_def parse_sram_def probe_resets_def cru_error_def res_error_def
        ex_probe_def Let_def)
  obtain bound p k where r: "hpmcu_probe ex_probe ?henv (ex_plat, ex_links) = (- 2, bound, p, k)"
    using l by (simp add: hpmcu_probe_def clk_enable_def start_locked_def ex_probe_def ex_hl_env_def Let_def)
  have "0 < pe_num_clks ex_probe" "pe_clk_enable ex_probe = 0" by (simp_all add: ex_probe_def)
  from hpmcu_probe_error_leaks_clocks [OF l this r] r show ?thesis by (auto simp: ex_plat_def)
qed

text \<open>The firmware name. An accepted write of the \<open>firmware\<close> file makes the trimmed text
  the name that the next start asks for and that the file shows, a blank one is refused, and
  writing back what the file shows changes nothing.\<close>

theorem firmware_store_round_trip:
  assumes "firmware_store True buf l = (int (length buf), l')" and "buf \<noteq> []" and "CHR 0x00 \<notin> set buf"
    and "\<forall>n. hl_fw_override l = Some n \<longrightarrow> hl_fw_name l = n"
  shows "hl_fw_name l' = strim buf \<and> strim buf \<noteq> [] \<and> firmware_show l' = strim buf @ [CHR 0x0A] \<and>
    firmware_store True (firmware_show l') l' = (int (length (firmware_show l')), l')"
proof -
  have all: "takeWhile (\<lambda>c. c \<noteq> CHR 0x00) buf = buf" using assms(3) unfolding takeWhile_eq_all_conv by blast
  have ne: "strim buf \<noteq> []" using assms(1) all by (auto simp: firmware_store_def EINVAL_def Let_def split: if_splits)
  have l': "l' = (if hl_fw_override l = Some (strim buf) then l
      else l\<lparr>hl_fw_override := Some (strim buf), hl_fw_name := strim buf\<rparr>)"
    using assms(1) all ne by (simp add: firmware_store_def Let_def split: if_splits)
  have name: "hl_fw_name l' = strim buf" "hl_fw_override l' = Some (strim buf)"
    unfolding l' using assms(4) by simp_all
  have nul: "CHR 0x00 \<notin> set (strim buf)"
    using assms(3) unfolding strim_def by (metis set_dropWhileD set_rev)
  have "strim (strim buf @ [CHR 0x0A]) = strim buf"
  proof -
    have "k_isspace (CHR 0x0A)" by (simp add: k_isspace_def c_isspace_def)
    then have "strim (strim buf @ [CHR 0x0A]) = strim (strim buf)" by (simp add: strim_def)
    then show ?thesis using strim_id strim_ends [OF ne] by metis
  qed
  moreover have "takeWhile (\<lambda>c. c \<noteq> CHR 0x00) (strim buf @ [CHR 0x0A]) = strim buf @ [CHR 0x0A]"
    using nul unfolding takeWhile_eq_all_conv by auto
  ultimately show ?thesis
    using name ne by (simp add: firmware_show_def firmware_store_def Let_def)
qed

theorem firmware_store_round_trip_witness:
  "\<exists>l'. firmware_store True ('' a.bin'' @ [CHR 0x0A]) ex_loader = (7, l') \<and> hl_fw_name l' = ''a.bin''"
proof -
  let ?buf = "'' a.bin'' @ [CHR 0x0A]"
  obtain l' where r: "firmware_store True ?buf ex_loader = (int (length ?buf), l')"
    by (simp add: firmware_store_def strim_def k_isspace_def c_isspace_def ex_hpmcu Let_def)
  have "\<forall>n. hl_fw_override ex_loader = Some n \<longrightarrow> hl_fw_name ex_loader = n" by (simp add: ex_hpmcu Let_def)
  with firmware_store_round_trip [OF r] have "hl_fw_name l' = strim ?buf" by simp
  then show ?thesis using r by (simp add: strim_def k_isspace_def c_isspace_def)
qed

end
