(* ===== verification/Hpmcu_Ping.thy ===== *)
theory Hpmcu_Ping
  imports Hpmcu_Mbox Hpmcu_Correct
begin

text \<open>
  The mailbox driver and the firmware together: a ping is answered, what a ping proves about the
  firmware, the heartbeat as the loader shows it, and the parsing of the ping file.
\<close>

section \<open>The registers the two sides rely on\<close>

text \<open>
  What the firmware's writes do, as far as the protocol needs it: command and data registers are
  storage, and a write to another register leaves them alone. Nothing is said about the status
  registers, which the two sides treat differently.
\<close>

definition mbox_storage :: "mwrite \<Rightarrow> bool" where
  "mbox_storage wr \<longleftrightarrow>
     (\<forall>v r. wr B2A_CMD v r B2A_CMD = v \<and> wr B2A_DATA v r B2A_DATA = v) \<and>
     (\<forall>reg v r. reg \<noteq> B2A_CMD \<longrightarrow> wr reg v r B2A_CMD = r B2A_CMD) \<and>
     (\<forall>reg v r. reg \<noteq> B2A_DATA \<longrightarrow> wr reg v r B2A_DATA = r B2A_DATA) \<and>
     (\<forall>reg v r. reg \<noteq> A2B_CMD \<longrightarrow> wr reg v r A2B_CMD = r A2B_CMD) \<and>
     (\<forall>reg v r. reg \<noteq> A2B_DATA \<longrightarrow> wr reg v r A2B_DATA = r A2B_DATA)"

text \<open>A register block on which writing a one to a status register clears it.\<close>

definition w1c_write :: mwrite where
  "w1c_write reg v r = (case reg of
     A2B_STATUS \<Rightarrow> r(A2B_STATUS := r A2B_STATUS AND NOT v)
   | B2A_STATUS \<Rightarrow> r(B2A_STATUS := r B2A_STATUS AND NOT v)
   | _ \<Rightarrow> r(reg := v))"

lemma w1c_storage: "mbox_storage w1c_write"
  by (auto simp: mbox_storage_def w1c_write_def split: mreg.split)

text \<open>The firmware's answer to a pending ping, and what it leaves alone.\<close>

lemma fw_handle_ping:
  assumes wr: "mbox_storage wr" and st: "r A2B_STATUS AND 1 \<noteq> 0" and cmd: "r A2B_CMD = PING_CMD"
  shows "fw_mbox_handle wr r B2A_CMD = PING_CMD \<and> fw_mbox_handle wr r B2A_DATA = r A2B_DATA"
  using assms by (simp add: fw_mbox_handle_def fw_mbox_send_def Let_def mbox_storage_def)

lemma fw_handle_keeps:
  assumes wr: "mbox_storage wr"
  shows "fw_mbox_handle wr r A2B_CMD = r A2B_CMD \<and> fw_mbox_handle wr r A2B_DATA = r A2B_DATA"
  using assms by (simp add: fw_mbox_handle_def fw_mbox_send_def Let_def mbox_storage_def)

text \<open>An answered ping stays answered however long the firmware runs on.\<close>

definition answered :: "u32 \<Rightarrow> mregs \<Rightarrow> bool" where
  "answered d r \<longleftrightarrow> r A2B_CMD = PING_CMD \<and> r A2B_DATA = d \<and> r B2A_CMD = PING_CMD \<and> r B2A_DATA = d"

lemma fw_handle_answered: "mbox_storage wr \<Longrightarrow> answered d r \<Longrightarrow> answered d (fw_mbox_handle wr r)"
  by (simp add: answered_def fw_mbox_handle_def fw_mbox_send_def Let_def mbox_storage_def)

lemma fw_run_answered:
  assumes wr: "mbox_storage wr" and r: "r A2B_STATUS AND 1 \<noteq> 0" "r A2B_CMD = PING_CMD" "r A2B_DATA = d"
  shows "answered d (snd ((fw_loop wr ^^ Suc n) (m, r)))"
proof (induction n)
  case 0
  show ?case
    using fw_handle_ping [OF wr r(1,2)] fw_handle_keeps [OF wr, of r] r
    by (simp add: fw_loop_pair answered_def)
next
  case (Suc n)
  obtain m' r' where s: "(fw_loop wr ^^ Suc n) (m, r) = (m', r')" by fastforce
  have "(fw_loop wr ^^ Suc (Suc n)) (m, r) = fw_loop wr (m', r')"
    using s by (simp only: funpow.simps comp_apply)
  with Suc.IH s fw_handle_answered [OF wr] show ?case by (simp add: fw_loop_pair)
qed

lemma fw_loop_heartbeat: "fm_heartbeat (fst ((fw_loop wr ^^ n) (m, r))) = fm_heartbeat m + of_nat n"
proof (induction n)
  case (Suc n)
  obtain m' r' where "(fw_loop wr ^^ n) (m, r) = (m', r')" by fastforce
  with Suc.IH show ?case by (simp add: fw_loop_pair ac_simps)
qed simp

section \<open>Ping\<close>

text \<open>A send the framework accepts and that no interrupt answers.\<close>

lemma mbox_send_silent:
  assumes s: "mw_send w (cmd, data) (mbox_reinit w mb r) = (0, r1)" and wait: "mw_wait w r1 = ([], r2)"
    and base: "mb_has_base mb"
  shows "mbox_send w cmd data (mb, r) =
    (let m = mb\<lparr>mb_msg := (cmd, data)\<rparr> in
     if r2 B2A_STATUS AND INT_MASK \<noteq> 0
     then (0, (mbox_rx (Some (r2 B2A_CMD, r2 B2A_DATA)) m)\<lparr>mb_last_status := 0\<rparr>,
           mw_write w B2A_STATUS INT_CLR r2)
     else if (r2 B2A_CMD, r2 B2A_DATA) = (cmd, data)
     then (0, m\<lparr>mb_last_cmd := cmd, mb_last_data := data, mb_rx_count := mb_rx_count mb + 1,
                mb_last_status := 0\<rparr>, r2)
     else (- ETIMEDOUT, m\<lparr>mb_last_status := - ETIMEDOUT\<rparr>, r2))"
proof -
  have reinit: "mbox_reinit w (mb\<lparr>mb_msg := x\<rparr>) r = mbox_reinit w mb r" for x
    by (simp add: mbox_reinit_def)
  show ?thesis
  proof (cases "r2 B2A_STATUS AND INT_MASK = 0")
    case True
    with s wait base show ?thesis by (simp add: mbox_send_def reinit mbox_poll_rx_def Let_def)
  next
    case False
    with s wait base show ?thesis by (simp add: mbox_send_def reinit mbox_poll_rx_def Let_def)
  qed
qed

definition answering_world :: "mwrite \<Rightarrow> nat \<Rightarrow> mbox_world" where
  "answering_world wr n =
     \<lparr>mw_write = wr,
      mw_send = (\<lambda>(c, d) r. (0, r(A2B_CMD := c, A2B_DATA := d, A2B_STATUS := r A2B_STATUS OR 1))),
      mw_wait = (\<lambda>r. ([], snd ((fw_loop wr ^^ n) (fst (fw_start wr r), r))))\<rparr>"

definition ex_mbox :: mbox where
  "ex_mbox = mbox_init True"

lemma or_one_and_one: "(x OR 1) AND 1 \<noteq> (0 :: u32)"
proof
  assume "(x OR 1) AND 1 = 0"
  then have "\<not> bit ((x OR 1) AND 1) 0" by simp
  then show False by (simp add: bit_simps)
qed

text \<open>A ping is answered. With a running firmware that gets through its loop at least once
  while the driver waits, and a framework that puts the message into the A2B registers and raises
  the status, a ping succeeds and records the echoed command and data - without an interrupt, and
  whatever a write to the status registers does.\<close>

theorem ping_answered:
  assumes "mbox_storage wr" and "mb_has_base mb"
    and "\<forall>c d r. fst (mw_send w (c, d) r) = 0 \<and> snd (mw_send w (c, d) r) A2B_CMD = c \<and>
      snd (mw_send w (c, d) r) A2B_DATA = d \<and> snd (mw_send w (c, d) r) A2B_STATUS AND 1 \<noteq> 0"
    and "\<forall>r. mw_wait w r = ([], snd ((fw_loop wr ^^ Suc n) (m, r)))"
  shows "\<exists>mb' r'. mbox_send w PING_CMD data (mb, r) = (0, mb', r') \<and> mb_last_cmd mb' = PING_CMD \<and>
    mb_last_data mb' = data \<and> mb_rx_count mb' = mb_rx_count mb + 1 \<and> mb_last_status mb' = 0"
proof -
  obtain ret r1 where s: "mw_send w (PING_CMD, data) (mbox_reinit w mb r) = (ret, r1)" by fastforce
  have r1: "ret = 0" "r1 A2B_CMD = PING_CMD" "r1 A2B_DATA = data" "r1 A2B_STATUS AND 1 \<noteq> 0"
    using assms(3) s by (metis fst_conv snd_conv)+
  define r2 where "r2 = snd ((fw_loop wr ^^ Suc n) (m, r1))"
  have ans: "answered data r2"
    unfolding r2_def using r1 by (intro fw_run_answered [OF assms(1)]) simp_all
  have wait: "mw_wait w r1 = ([], r2)" using assms(4) by (simp add: r2_def)
  from mbox_send_silent [OF s [unfolded r1(1)] wait assms(2)] ans show ?thesis
    by (auto simp: mbox_rx_def answered_def Let_def)
qed

theorem ping_answered_witness:
  "\<exists>mb' r'. mbox_send (answering_world w1c_write (Suc 2)) PING_CMD 7 (ex_mbox, \<lambda>_. 0) = (0, mb', r') \<and>
     mb_last_cmd mb' = PING_CMD \<and> mb_last_data mb' = 7 \<and> mb_rx_count mb' = mb_rx_count ex_mbox + 1 \<and>
     mb_last_status mb' = 0"
proof -
  have m: "fst (fw_start w1c_write r) = \<lparr>fm_fw_id = FW_ID, fm_heartbeat = 0x12340000\<rparr>" for r
    by (simp add: fw_start_def)
  have wait: "\<forall>r. mw_wait (answering_world w1c_write (Suc 2)) r =
      ([], snd ((fw_loop w1c_write ^^ Suc 2) (\<lparr>fm_fw_id = FW_ID, fm_heartbeat = 0x12340000\<rparr>, r)))"
    by (simp only: answering_world_def mbox_world.select_convs m simp_thms)
  show ?thesis
    by (rule ping_answered [OF w1c_storage _ _ wait])
      (auto simp: answering_world_def ex_mbox_def mbox_init_def or_one_and_one)
qed

text \<open>What a ping does not prove. When the B2A registers still hold the reply to an earlier ping
  with the same command and data, the same ping succeeds although nothing at all happens while the
  driver waits: a dead firmware passes.\<close>

theorem stale_reply_passes:
  assumes "mb_has_base mb" and "mw_send w (cmd, data) (mbox_reinit w mb r) = (0, r1)"
    and "mw_wait w r1 = ([], r1)" and "r1 B2A_CMD = cmd" and "r1 B2A_DATA = data"
  shows "\<exists>mb' r'. mbox_send w cmd data (mb, r) = (0, mb', r') \<and> mb_last_status mb' = 0 \<and>
    mb_rx_count mb' = mb_rx_count mb + 1"
  using mbox_send_silent [OF assms(2,3,1)] assms(4,5) by (auto simp: mbox_rx_def Let_def)

theorem stale_reply_passes_witness:
  "\<exists>mb' r'. mbox_send ((answering_world w1c_write 0)\<lparr>mw_wait := (\<lambda>r. ([], r))\<rparr>) PING_CMD 1
      (ex_mbox, (\<lambda>_. 0)(B2A_CMD := PING_CMD, B2A_DATA := 1)) = (0, mb', r') \<and> mb_last_status mb' = 0 \<and>
     mb_rx_count mb' = mb_rx_count ex_mbox + 1"
proof -
  let ?w = "(answering_world w1c_write 0)\<lparr>mw_wait := (\<lambda>r. ([], r))\<rparr>"
  let ?r = "(\<lambda>_. 0)(B2A_CMD := PING_CMD, B2A_DATA := 1) :: mregs"
  obtain r1 where s: "mw_send ?w (PING_CMD, 1) (mbox_reinit ?w ex_mbox ?r) = (0, r1)"
    and r1: "r1 B2A_CMD = PING_CMD" "r1 B2A_DATA = 1"
    by (simp add: answering_world_def ex_mbox_def mbox_init_def mbox_reinit_def w1c_write_def mbox_consts)
  have "mb_has_base ex_mbox" "mw_wait ?w r1 = ([], r1)" by (simp_all add: ex_mbox_def mbox_init_def)
  from stale_reply_passes [OF this(1) s this(2) r1] show ?thesis .
qed

section \<open>Heartbeat\<close>

text \<open>The heartbeat across the two programs. While the firmware runs in the SRAM the loader was
  given, the loader's \<open>heartbeat\<close> file, at its default offset, shows the number of loops the
  firmware has made on top of its start value, and \<open>fw_id\<close> the identity of the image.\<close>

theorem heartbeat_shown:
  assumes "hl_hb_valid l" and "hl_hb_offset l = 0x804" and "hl_fw_id_valid l" and "hl_fw_id_offset l = 0x800"
    and "length sram = unat (hl_sram_size l)" and "0x808 \<le> hl_sram_size l"
    and "pl_sram p = fw_sram (fst ((fw_loop wr ^^ n) (fw_start wr r))) sram"
  shows "heartbeat_show l p = Some (dec_digits (unat (0x12340000 + of_nat n :: u32)) @ '' (0x'' @
      hex8 (0x12340000 + of_nat n) @ '')'' @ [CHR 0x0A]) \<and>
    fw_id_show l p = Some (''0x'' @ hex8 FW_ID @ [CHR 0x0A])"
proof -
  let ?m = "fst ((fw_loop wr ^^ n) (fw_start wr r))"
  have hb: "fm_heartbeat ?m = 0x12340000 + of_nat n"
    using fw_loop_heartbeat [of n wr "fst (fw_start wr r)" "snd (fw_start wr r)"] by (simp add: fw_start_def)
  have id: "fm_fw_id ?m = FW_ID"
  proof (induction n)
    case (Suc n)
    obtain m' r' where "(fw_loop wr ^^ n) (fw_start wr r) = (m', r')" by fastforce
    with Suc.IH show ?case by (simp add: fw_loop_pair)
  qed (simp add: fw_start_def)
  have len: "0x808 \<le> length sram" using assms(5,6) by (simp add: word_le_nat_alt)
  then have ts: "length (take 0x800 sram) = 0x800" by simp
  have off: "\<not> hl_hb_offset l > hl_sram_size l - 4" "\<not> hl_fw_id_offset l > hl_sram_size l - 4"
  proof -
    have "0x808 - 4 \<le> hl_sram_size l - 4" using assms(6) by (intro word_le_minus_mono_left) simp_all
    then have le: "0x804 \<le> hl_sram_size l - 4" by simp
    then show "\<not> hl_hb_offset l > hl_sram_size l - 4" using assms(2) by simp
    have "(0x800 :: u32) \<le> 0x804" by simp
    with le assms(4) show "\<not> hl_fw_id_offset l > hl_sram_size l - 4" by (metis order_trans not_less)
  qed
  have r1: "c_read (fw_sram ?m sram) 0x804 4 = Some (le32 (fm_heartbeat ?m))"
    and r0: "c_read (fw_sram ?m sram) 0x800 4 = Some (le32 (fm_fw_id ?m))"
    using ts len by (simp_all add: fw_sram_def META_OFFSET_def c_read_def)
  have "hpmcu_readl l p (hl_hb_offset l) = Some (0x12340000 + of_nat n)"
    using off r1 hb assms(2,7) get_le32_le32 [of _ "[]"] by (simp add: hpmcu_readl_def)
  moreover have "hpmcu_readl l p (hl_fw_id_offset l) = Some FW_ID"
    using off r0 id assms(4,7) get_le32_le32 [of _ "[]"] by (simp add: hpmcu_readl_def)
  ultimately show ?thesis using assms(1,3) by (simp add: heartbeat_show_def fw_id_show_def)
qed

theorem heartbeat_shown_witness:
  "heartbeat_show (ex_loader\<lparr>hl_hb_valid := True, hl_hb_offset := 0x804, hl_fw_id_valid := True,
       hl_fw_id_offset := 0x800, hl_sram_size := 0x1000\<rparr>)
     (ex_plat\<lparr>pl_sram := fw_sram (fst ((fw_loop w1c_write ^^ 5) (fw_start w1c_write (\<lambda>_. 0)))) (replicate 0x1000 0)\<rparr>) =
   Some (dec_digits (unat (0x12340000 + of_nat 5 :: u32)) @ '' (0x'' @ hex8 (0x12340000 + of_nat 5) @ '')'' @
     [CHR 0x0A])"
proof -
  let ?l = "ex_loader\<lparr>hl_hb_valid := True, hl_hb_offset := 0x804, hl_fw_id_valid := True,
       hl_fw_id_offset := 0x800, hl_sram_size := 0x1000\<rparr>"
  have "hl_hb_valid ?l" "hl_hb_offset ?l = 0x804" "hl_fw_id_valid ?l" "hl_fw_id_offset ?l = 0x800"
    "length (replicate 0x1000 (0 :: u8)) = unat (hl_sram_size ?l)" "0x808 \<le> hl_sram_size ?l"
    by simp_all
  from heartbeat_shown [OF this, where wr = w1c_write and r = "\<lambda>_. 0" and n = 5] show ?thesis by simp
qed

section \<open>The ping file\<close>

lemma hd_dec_digits_pos: "0 < n \<Longrightarrow> hd (dec_digits n) \<noteq> CHR ''0''"
proof (induction n rule: dec_digits.induct)
  case (1 n)
  show ?case
  proof (cases "n < 10")
    case True
    then have "(of_char (char_of (48 + n) :: char) :: nat) = 48 + n" by simp
    moreover have "(of_char CHR ''0'' :: nat) = 48" by simp
    ultimately have "(char_of (48 + n) :: char) \<noteq> CHR ''0''" using "1.prems" by fastforce
    with True show ?thesis by (subst dec_digits.simps) simp
  next
    case False
    then have "0 < n div 10" by simp
    with 1 False hd_dec_digits [of "n div 10"] show ?thesis
      by (subst dec_digits.simps) simp
  qed
qed

lemma scan_i_dec:
  assumes rest: "rest = [] \<or> hd rest = CHR '' ''"
  shows "scan_i (dec_digits n @ rest) = Some (of_nat n, rest)"
proof -
  obtain d ds where d: "d < 10" and eq: "dec_digits n = char_of (48 + d :: nat) # ds"
    using hd_dec_digits [of n] by (cases "dec_digits n") auto
  have code: "(of_char (char_of (48 + d) :: char) :: nat) = 48 + d" using d by simp
  have sp: "\<not> c_isspace (char_of (48 + d))"
    using code d char_digit_ne [OF d, of "CHR '' ''"] by (simp add: c_isspace_def)
  have minus: "char_of (48 + d) \<noteq> CHR ''-''" by (rule char_digit_ne [OF d]) simp
  have dig: "c_digit (char_of (48 + d)) = Some d" using d by (rule c_digit_char_of)
  have stop: "c_digits b v rest = (v, rest)" for b v
    using rest by (cases rest) (auto simp: c_digit_def)
  have val: "c_digits 10 0 (dec_digits n @ rest) = (n, rest)"
    using c_digits_snoc [OF c_digits_dec, of n rest] stop by simp
  show ?thesis
  proof (cases "n = 0")
    case True
    have "char_of (of_char CHR ''0'' :: nat) = CHR ''0''" by (rule char_of_char)
    moreover have "(of_char CHR ''0'' :: nat) = 48" by simp
    ultimately have "(char_of (48 :: nat) :: char) = CHR ''0''" by (simp only:)
    then have zero: "dec_digits 0 = ''0''" by (subst dec_digits.simps) simp
    have d0: "c_digit CHR ''0'' = Some 0" "\<not> c_isspace CHR ''0''" by (simp_all add: c_digit_def c_isspace_def)
    have hex: "(case CHR ''0'' # rest of z # x # h # _ \<Rightarrow>
        z = CHR ''0'' \<and> (x = CHR ''x'' \<or> x = CHR ''X'') \<and> P h | _ \<Rightarrow> False) = False" for P
      using rest by (cases rest; cases "tl rest") auto
    have "c_digits 8 0 (CHR ''0'' # rest) = (0, rest)" using stop [of 8 0] d0 by simp
    with d0 hex show ?thesis by (simp add: scan_i_def zero True Let_def)
  next
    case False
    then have z: "char_of (48 + d) \<noteq> CHR ''0''" using hd_dec_digits_pos [of n] eq by simp
    then have hex: "(case dec_digits n @ rest of z # x # h # _ \<Rightarrow> z = CHR ''0'' \<and> P x h | _ \<Rightarrow> False) = False" for P
      by (auto simp: eq split: list.splits)
    have "dropWhile c_isspace (dec_digits n @ rest) = dec_digits n @ rest" using sp by (simp add: eq)
    moreover have "hd (dec_digits n @ rest) = char_of (48 + d)" "dec_digits n @ rest \<noteq> []" by (simp_all add: eq)
    ultimately show ?thesis
      using minus z dig d val hex by (simp add: scan_i_def Let_def)
  qed
qed

text \<open>The ping file reads what \<open>printf\<close> writes: a decimal command and data, separated by a
  blank, are sent as they are; without data the default follows, and a blank text pings with both
  defaults.\<close>

theorem ping_args_round_trip:
  "ping_args (dec_digits (unat (c :: u32)) @ CHR '' '' # dec_digits (unat (d :: u32))) = (c, d) \<and>
   ping_args (dec_digits (unat c)) = (c, PING_DATA) \<and> ping_args [] = (PING_CMD, PING_DATA)"
proof -
  have sp: "scan_i (CHR '' '' # s) = scan_i s" for s
    by (simp add: scan_i_def c_isspace_def)
  have "scan_i [] = None" by (simp add: scan_i_def)
  with scan_i_dec [of "CHR '' '' # dec_digits (unat d)" "unat c"] scan_i_dec [of "[]" "unat c"]
    scan_i_dec [of "[]" "unat d"] show ?thesis
    by (simp add: ping_args_def sp)
qed

end
