(* ===== verification/Pinmux_Table.thy ===== *)
theory Pinmux_Table
  imports C_Strings
begin

text \<open>
  The pin and function tables of \<^verbatim>\<open>omega4-pinmux\<close>
  (\<^verbatim>\<open>src/utils/omega4-pinmux/src/pinmux.c\<close>), entry by entry, and what the program relies on:
  the names are distinct, every pin has a four-bit field of its own, and the functions of a pin have
  distinct names and values. The length of a function list replaces \<open>num_funcs\<close>.
\<close>

section \<open>Descriptions\<close>

record func_desc =
  fd_name :: string
  fd_value :: u32

record pin_desc =
  pd_name :: string
  pd_addr :: u32
  pd_mask :: u32
  pd_shift :: nat
  pd_funcs :: "func_desc list"
  pd_module_pin :: int
  pd_evb_pin :: int

section \<open>Functions\<close>

definition gpio0_a0_funcs :: "func_desc list" where
  "gpio0_a0_funcs = [
    \<lparr>fd_name = ''gpio'', fd_value = 0\<rparr>,
    \<lparr>fd_name = ''rtc_32k_out'', fd_value = 1\<rparr>,
    \<lparr>fd_name = ''clk_32k'', fd_value = 2\<rparr>,
    \<lparr>fd_name = ''clk_24m_out'', fd_value = 3\<rparr>,
    \<lparr>fd_name = ''psram_spi_clk'', fd_value = 4\<rparr>,
    \<lparr>fd_name = ''test_clock'', fd_value = 5\<rparr>]"

definition gpio0_a1_funcs :: "func_desc list" where
  "gpio0_a1_funcs = [
    \<lparr>fd_name = ''gpio'', fd_value = 0\<rparr>,
    \<lparr>fd_name = ''pwm0_ch0_m0'', fd_value = 1\<rparr>,
    \<lparr>fd_name = ''cpu_avs'', fd_value = 2\<rparr>,
    \<lparr>fd_name = ''psram_spi_d1'', fd_value = 4\<rparr>]"

definition gpio0_a2_funcs :: "func_desc list" where
  "gpio0_a2_funcs = [
    \<lparr>fd_name = ''gpio'', fd_value = 0\<rparr>,
    \<lparr>fd_name = ''pwm0_ch3_m0'', fd_value = 1\<rparr>,
    \<lparr>fd_name = ''psram_spi_d0'', fd_value = 4\<rparr>]"

definition gpio0_a3_funcs :: "func_desc list" where
  "gpio0_a3_funcs = [
    \<lparr>fd_name = ''gpio'', fd_value = 0\<rparr>,
    \<lparr>fd_name = ''pwr_ctrl_m0'', fd_value = 1\<rparr>]"

definition gpio0_a4_funcs :: "func_desc list" where
  "gpio0_a4_funcs = [
    \<lparr>fd_name = ''gpio'', fd_value = 0\<rparr>,
    \<lparr>fd_name = ''pwr_ctrl_m1'', fd_value = 1\<rparr>,
    \<lparr>fd_name = ''psram_spi_cs0n'', fd_value = 4\<rparr>]"

definition gpio0_a5_funcs :: "func_desc list" where
  "gpio0_a5_funcs = [
    \<lparr>fd_name = ''gpio'', fd_value = 0\<rparr>,
    \<lparr>fd_name = ''uart0_tx_m0'', fd_value = 1\<rparr>,
    \<lparr>fd_name = ''pwm0_ch1_m0'', fd_value = 2\<rparr>,
    \<lparr>fd_name = ''i2c0_scl_m0'', fd_value = 3\<rparr>,
    \<lparr>fd_name = ''psram_spi_d2'', fd_value = 4\<rparr>,
    \<lparr>fd_name = ''jtag_tck_m0'', fd_value = 5\<rparr>]"

definition gpio0_a6_funcs :: "func_desc list" where
  "gpio0_a6_funcs = [
    \<lparr>fd_name = ''gpio'', fd_value = 0\<rparr>,
    \<lparr>fd_name = ''uart0_rx_m0'', fd_value = 1\<rparr>,
    \<lparr>fd_name = ''pwm0_ch2_m0'', fd_value = 2\<rparr>,
    \<lparr>fd_name = ''i2c0_sda_m0'', fd_value = 3\<rparr>,
    \<lparr>fd_name = ''psram_spi_d3'', fd_value = 4\<rparr>,
    \<lparr>fd_name = ''jtag_tms_m0'', fd_value = 5\<rparr>]"

definition gpio1_a6_funcs :: "func_desc list" where
  "gpio1_a6_funcs = [
    \<lparr>fd_name = ''gpio'', fd_value = 0\<rparr>,
    \<lparr>fd_name = ''sdmmc0_det'', fd_value = 1\<rparr>]"

definition gpio1_a7_funcs :: "func_desc list" where
  "gpio1_a7_funcs = [
    \<lparr>fd_name = ''gpio'', fd_value = 0\<rparr>,
    \<lparr>fd_name = ''sdmmc0_d1'', fd_value = 1\<rparr>,
    \<lparr>fd_name = ''uart1_rx_m1'', fd_value = 2\<rparr>,
    \<lparr>fd_name = ''emmc_testclk'', fd_value = 3\<rparr>,
    \<lparr>fd_name = ''pwm2_ch1_m0'', fd_value = 4\<rparr>,
    \<lparr>fd_name = ''fspi_testclk'', fd_value = 5\<rparr>]"

definition gpio1_b0_funcs :: "func_desc list" where
  "gpio1_b0_funcs = [
    \<lparr>fd_name = ''gpio'', fd_value = 0\<rparr>,
    \<lparr>fd_name = ''sdmmc0_d0'', fd_value = 1\<rparr>,
    \<lparr>fd_name = ''uart1_tx_m1'', fd_value = 2\<rparr>,
    \<lparr>fd_name = ''emmc_testdata_out'', fd_value = 3\<rparr>,
    \<lparr>fd_name = ''pwm2_ch0_m0'', fd_value = 4\<rparr>,
    \<lparr>fd_name = ''fspi_testdata_out'', fd_value = 5\<rparr>]"

definition gpio1_b1_funcs :: "func_desc list" where
  "gpio1_b1_funcs = [
    \<lparr>fd_name = ''gpio'', fd_value = 0\<rparr>,
    \<lparr>fd_name = ''sdmmc0_clk'', fd_value = 1\<rparr>,
    \<lparr>fd_name = ''uart1_rtsn_m1'', fd_value = 2\<rparr>]"

definition gpio1_b2_funcs :: "func_desc list" where
  "gpio1_b2_funcs = [
    \<lparr>fd_name = ''gpio'', fd_value = 0\<rparr>,
    \<lparr>fd_name = ''sdmmc0_cmd'', fd_value = 1\<rparr>,
    \<lparr>fd_name = ''uart1_ctsn_m1'', fd_value = 2\<rparr>]"

definition gpio1_b3_funcs :: "func_desc list" where
  "gpio1_b3_funcs = [
    \<lparr>fd_name = ''gpio'', fd_value = 0\<rparr>,
    \<lparr>fd_name = ''sdmmc0_d3'', fd_value = 1\<rparr>,
    \<lparr>fd_name = ''uart0_rx_m2'', fd_value = 2\<rparr>,
    \<lparr>fd_name = ''jtag_tms_m2'', fd_value = 3\<rparr>,
    \<lparr>fd_name = ''pwm2_ch3_m0'', fd_value = 4\<rparr>,
    \<lparr>fd_name = ''i2c0_sda_m1'', fd_value = 5\<rparr>]"

definition gpio1_b4_funcs :: "func_desc list" where
  "gpio1_b4_funcs = [
    \<lparr>fd_name = ''gpio'', fd_value = 0\<rparr>,
    \<lparr>fd_name = ''sdmmc0_d2'', fd_value = 1\<rparr>,
    \<lparr>fd_name = ''uart0_tx_m2'', fd_value = 2\<rparr>,
    \<lparr>fd_name = ''jtag_tck_m2'', fd_value = 3\<rparr>,
    \<lparr>fd_name = ''pwm2_ch2_m0'', fd_value = 4\<rparr>,
    \<lparr>fd_name = ''i2c0_scl_m1'', fd_value = 5\<rparr>]"

definition gpio1_b5_funcs :: "func_desc list" where
  "gpio1_b5_funcs = [
    \<lparr>fd_name = ''gpio'', fd_value = 0\<rparr>,
    \<lparr>fd_name = ''cam_clk0_out'', fd_value = 1\<rparr>,
    \<lparr>fd_name = ''i2c0_scl_m2'', fd_value = 2\<rparr>,
    \<lparr>fd_name = ''uart2_tx_m2'', fd_value = 3\<rparr>]"

definition gpio1_b6_funcs :: "func_desc list" where
  "gpio1_b6_funcs = [
    \<lparr>fd_name = ''gpio'', fd_value = 0\<rparr>,
    \<lparr>fd_name = ''cam_clk1_out'', fd_value = 1\<rparr>,
    \<lparr>fd_name = ''i2c0_sda_m2'', fd_value = 2\<rparr>,
    \<lparr>fd_name = ''uart2_rx_m2'', fd_value = 3\<rparr>]"

definition gpio1_b7_funcs :: "func_desc list" where
  "gpio1_b7_funcs = [
    \<lparr>fd_name = ''gpio'', fd_value = 0\<rparr>,
    \<lparr>fd_name = ''pwm0_ch1_m2'', fd_value = 1\<rparr>,
    \<lparr>fd_name = ''i2c4_scl_m1'', fd_value = 2\<rparr>,
    \<lparr>fd_name = ''uart2_rtsn_m2'', fd_value = 3\<rparr>]"

definition gpio1_c0_funcs :: "func_desc list" where
  "gpio1_c0_funcs = [
    \<lparr>fd_name = ''gpio'', fd_value = 0\<rparr>,
    \<lparr>fd_name = ''pwm0_ch2_m2'', fd_value = 1\<rparr>,
    \<lparr>fd_name = ''i2c4_sda_m1'', fd_value = 2\<rparr>,
    \<lparr>fd_name = ''uart2_ctsn_m2'', fd_value = 3\<rparr>]"

definition gpio1_c1_funcs :: "func_desc list" where
  "gpio1_c1_funcs = [
    \<lparr>fd_name = ''gpio'', fd_value = 0\<rparr>,
    \<lparr>fd_name = ''mipi_csi_d3n'', fd_value = 1\<rparr>]"

definition gpio1_c2_funcs :: "func_desc list" where
  "gpio1_c2_funcs = [
    \<lparr>fd_name = ''gpio'', fd_value = 0\<rparr>,
    \<lparr>fd_name = ''mipi_csi_d3p'', fd_value = 1\<rparr>]"

definition gpio1_c3_funcs :: "func_desc list" where
  "gpio1_c3_funcs = [
    \<lparr>fd_name = ''gpio'', fd_value = 0\<rparr>,
    \<lparr>fd_name = ''mipi_csi_ck1n'', fd_value = 1\<rparr>]"

definition gpio1_c4_funcs :: "func_desc list" where
  "gpio1_c4_funcs = [
    \<lparr>fd_name = ''gpio'', fd_value = 0\<rparr>,
    \<lparr>fd_name = ''mipi_csi_ck1p'', fd_value = 1\<rparr>]"

definition gpio1_c5_funcs :: "func_desc list" where
  "gpio1_c5_funcs = [
    \<lparr>fd_name = ''gpio'', fd_value = 0\<rparr>,
    \<lparr>fd_name = ''mipi_csi_d2n'', fd_value = 1\<rparr>]"

definition gpio1_c6_funcs :: "func_desc list" where
  "gpio1_c6_funcs = [
    \<lparr>fd_name = ''gpio'', fd_value = 0\<rparr>,
    \<lparr>fd_name = ''mipi_csi_d2p'', fd_value = 1\<rparr>]"

definition gpio1_d0_funcs :: "func_desc list" where
  "gpio1_d0_funcs = [
    \<lparr>fd_name = ''gpio'', fd_value = 0\<rparr>,
    \<lparr>fd_name = ''mipi_csi_d1n'', fd_value = 1\<rparr>]"

definition gpio1_d1_funcs :: "func_desc list" where
  "gpio1_d1_funcs = [
    \<lparr>fd_name = ''gpio'', fd_value = 0\<rparr>,
    \<lparr>fd_name = ''mipi_csi_d1p'', fd_value = 1\<rparr>]"

definition gpio1_d2_funcs :: "func_desc list" where
  "gpio1_d2_funcs = [
    \<lparr>fd_name = ''gpio'', fd_value = 0\<rparr>,
    \<lparr>fd_name = ''mipi_csi_ck0n'', fd_value = 1\<rparr>]"

definition gpio1_d3_funcs :: "func_desc list" where
  "gpio1_d3_funcs = [
    \<lparr>fd_name = ''gpio'', fd_value = 0\<rparr>,
    \<lparr>fd_name = ''mipi_csi_ck0p'', fd_value = 1\<rparr>]"

definition gpio1_d4_funcs :: "func_desc list" where
  "gpio1_d4_funcs = [
    \<lparr>fd_name = ''gpio'', fd_value = 0\<rparr>,
    \<lparr>fd_name = ''mipi_csi_d0n'', fd_value = 1\<rparr>]"

definition gpio1_d5_funcs :: "func_desc list" where
  "gpio1_d5_funcs = [
    \<lparr>fd_name = ''gpio'', fd_value = 0\<rparr>,
    \<lparr>fd_name = ''mipi_csi_d0p'', fd_value = 1\<rparr>]"

definition gpio2_b0_funcs :: "func_desc list" where
  "gpio2_b0_funcs = [
    \<lparr>fd_name = ''gpio'', fd_value = 0\<rparr>,
    \<lparr>fd_name = ''uart2_tx_m1'', fd_value = 1\<rparr>]"

definition gpio2_b1_funcs :: "func_desc list" where
  "gpio2_b1_funcs = [
    \<lparr>fd_name = ''gpio'', fd_value = 0\<rparr>,
    \<lparr>fd_name = ''uart2_rx_m1'', fd_value = 1\<rparr>]"

definition gpio2_b4_funcs :: "func_desc list" where
  "gpio2_b4_funcs = [
    \<lparr>fd_name = ''gpio'', fd_value = 0\<rparr>,
    \<lparr>fd_name = ''saradc_in0'', fd_value = 1\<rparr>]"

section \<open>Pins\<close>

definition gpio0_pins :: "pin_desc list" where
  "gpio0_pins = [
    \<lparr>pd_name = ''gpio0_a0'', pd_addr = 0x201B0000, pd_mask = 0x0000000F, pd_shift = 0,
      pd_funcs = gpio0_a0_funcs, pd_module_pin = 0, pd_evb_pin = 0\<rparr>,
    \<lparr>pd_name = ''gpio0_a1'', pd_addr = 0x201B0000, pd_mask = 0x000000F0, pd_shift = 4,
      pd_funcs = gpio0_a1_funcs, pd_module_pin = 41, pd_evb_pin = 4\<rparr>,
    \<lparr>pd_name = ''gpio0_a2'', pd_addr = 0x201B0000, pd_mask = 0x00000F00, pd_shift = 8,
      pd_funcs = gpio0_a2_funcs, pd_module_pin = 42, pd_evb_pin = 3\<rparr>,
    \<lparr>pd_name = ''gpio0_a3'', pd_addr = 0x201B0000, pd_mask = 0x0000F000, pd_shift = 12,
      pd_funcs = gpio0_a3_funcs, pd_module_pin = 43, pd_evb_pin = 0\<rparr>,
    \<lparr>pd_name = ''gpio0_a4'', pd_addr = 0x201B0004, pd_mask = 0x0000000F, pd_shift = 0,
      pd_funcs = gpio0_a4_funcs, pd_module_pin = 44, pd_evb_pin = 0\<rparr>,
    \<lparr>pd_name = ''gpio0_a5'', pd_addr = 0x201B0004, pd_mask = 0x000000F0, pd_shift = 4,
      pd_funcs = gpio0_a5_funcs, pd_module_pin = 45, pd_evb_pin = 0\<rparr>,
    \<lparr>pd_name = ''gpio0_a6'', pd_addr = 0x201B0004, pd_mask = 0x00000F00, pd_shift = 8,
      pd_funcs = gpio0_a6_funcs, pd_module_pin = 46, pd_evb_pin = 0\<rparr>]"

definition gpio1_ab_pins :: "pin_desc list" where
  "gpio1_ab_pins = [
    \<lparr>pd_name = ''gpio1_a6'', pd_addr = 0x20180024, pd_mask = 0x00000F00, pd_shift = 8,
      pd_funcs = gpio1_a6_funcs, pd_module_pin = 7, pd_evb_pin = 37\<rparr>,
    \<lparr>pd_name = ''gpio1_a7'', pd_addr = 0x20180024, pd_mask = 0x0000F000, pd_shift = 12,
      pd_funcs = gpio1_a7_funcs, pd_module_pin = 8, pd_evb_pin = 38\<rparr>,
    \<lparr>pd_name = ''gpio1_b0'', pd_addr = 0x20180028, pd_mask = 0x0000000F, pd_shift = 0,
      pd_funcs = gpio1_b0_funcs, pd_module_pin = 9, pd_evb_pin = 39\<rparr>,
    \<lparr>pd_name = ''gpio1_b1'', pd_addr = 0x20180028, pd_mask = 0x000000F0, pd_shift = 4,
      pd_funcs = gpio1_b1_funcs, pd_module_pin = 11, pd_evb_pin = 41\<rparr>,
    \<lparr>pd_name = ''gpio1_b2'', pd_addr = 0x20180028, pd_mask = 0x00000F00, pd_shift = 8,
      pd_funcs = gpio1_b2_funcs, pd_module_pin = 10, pd_evb_pin = 40\<rparr>,
    \<lparr>pd_name = ''gpio1_b3'', pd_addr = 0x20180028, pd_mask = 0x0000F000, pd_shift = 12,
      pd_funcs = gpio1_b3_funcs, pd_module_pin = 12, pd_evb_pin = 42\<rparr>,
    \<lparr>pd_name = ''gpio1_b4'', pd_addr = 0x2018002C, pd_mask = 0x0000000F, pd_shift = 0,
      pd_funcs = gpio1_b4_funcs, pd_module_pin = 13, pd_evb_pin = 43\<rparr>,
    \<lparr>pd_name = ''gpio1_b5'', pd_addr = 0x2018002C, pd_mask = 0x000000F0, pd_shift = 4,
      pd_funcs = gpio1_b5_funcs, pd_module_pin = 1, pd_evb_pin = 36\<rparr>,
    \<lparr>pd_name = ''gpio1_b6'', pd_addr = 0x2018002C, pd_mask = 0x00000F00, pd_shift = 8,
      pd_funcs = gpio1_b6_funcs, pd_module_pin = 91, pd_evb_pin = 35\<rparr>,
    \<lparr>pd_name = ''gpio1_b7'', pd_addr = 0x2018002C, pd_mask = 0x0000F000, pd_shift = 12,
      pd_funcs = gpio1_b7_funcs, pd_module_pin = 90, pd_evb_pin = 34\<rparr>]"

definition gpio1_c_pins :: "pin_desc list" where
  "gpio1_c_pins = [
    \<lparr>pd_name = ''gpio1_c0'', pd_addr = 0x20180030, pd_mask = 0x0000000F, pd_shift = 0,
      pd_funcs = gpio1_c0_funcs, pd_module_pin = 89, pd_evb_pin = 33\<rparr>,
    \<lparr>pd_name = ''gpio1_c1'', pd_addr = 0x20180030, pd_mask = 0x000000F0, pd_shift = 4,
      pd_funcs = gpio1_c1_funcs, pd_module_pin = 71, pd_evb_pin = 19\<rparr>,
    \<lparr>pd_name = ''gpio1_c2'', pd_addr = 0x20180030, pd_mask = 0x00000F00, pd_shift = 8,
      pd_funcs = gpio1_c2_funcs, pd_module_pin = 72, pd_evb_pin = 20\<rparr>,
    \<lparr>pd_name = ''gpio1_c3'', pd_addr = 0x20180030, pd_mask = 0x0000F000, pd_shift = 12,
      pd_funcs = gpio1_c3_funcs, pd_module_pin = 74, pd_evb_pin = 21\<rparr>,
    \<lparr>pd_name = ''gpio1_c4'', pd_addr = 0x20180034, pd_mask = 0x0000000F, pd_shift = 0,
      pd_funcs = gpio1_c4_funcs, pd_module_pin = 75, pd_evb_pin = 22\<rparr>,
    \<lparr>pd_name = ''gpio1_c5'', pd_addr = 0x20180034, pd_mask = 0x000000F0, pd_shift = 4,
      pd_funcs = gpio1_c5_funcs, pd_module_pin = 77, pd_evb_pin = 23\<rparr>,
    \<lparr>pd_name = ''gpio1_c6'', pd_addr = 0x20180034, pd_mask = 0x00000F00, pd_shift = 8,
      pd_funcs = gpio1_c6_funcs, pd_module_pin = 78, pd_evb_pin = 24\<rparr>]"

definition gpio1_d_pins :: "pin_desc list" where
  "gpio1_d_pins = [
    \<lparr>pd_name = ''gpio1_d0'', pd_addr = 0x20180038, pd_mask = 0x0000000F, pd_shift = 0,
      pd_funcs = gpio1_d0_funcs, pd_module_pin = 80, pd_evb_pin = 25\<rparr>,
    \<lparr>pd_name = ''gpio1_d1'', pd_addr = 0x20180038, pd_mask = 0x000000F0, pd_shift = 4,
      pd_funcs = gpio1_d1_funcs, pd_module_pin = 81, pd_evb_pin = 26\<rparr>,
    \<lparr>pd_name = ''gpio1_d2'', pd_addr = 0x20180038, pd_mask = 0x00000F00, pd_shift = 8,
      pd_funcs = gpio1_d2_funcs, pd_module_pin = 83, pd_evb_pin = 27\<rparr>,
    \<lparr>pd_name = ''gpio1_d3'', pd_addr = 0x20180038, pd_mask = 0x0000F000, pd_shift = 12,
      pd_funcs = gpio1_d3_funcs, pd_module_pin = 84, pd_evb_pin = 28\<rparr>,
    \<lparr>pd_name = ''gpio1_d4'', pd_addr = 0x2018003C, pd_mask = 0x0000000F, pd_shift = 0,
      pd_funcs = gpio1_d4_funcs, pd_module_pin = 86, pd_evb_pin = 29\<rparr>,
    \<lparr>pd_name = ''gpio1_d5'', pd_addr = 0x2018003C, pd_mask = 0x000000F0, pd_shift = 4,
      pd_funcs = gpio1_d5_funcs, pd_module_pin = 87, pd_evb_pin = 30\<rparr>]"

definition gpio2_pins :: "pin_desc list" where
  "gpio2_pins = [
    \<lparr>pd_name = ''gpio2_b0'', pd_addr = 0x201A0048, pd_mask = 0x0000000F, pd_shift = 0,
      pd_funcs = gpio2_b0_funcs, pd_module_pin = 0, pd_evb_pin = 0\<rparr>,
    \<lparr>pd_name = ''gpio2_b1'', pd_addr = 0x201A0048, pd_mask = 0x000000F0, pd_shift = 4,
      pd_funcs = gpio2_b1_funcs, pd_module_pin = 0, pd_evb_pin = 0\<rparr>,
    \<lparr>pd_name = ''gpio2_b4'', pd_addr = 0x201A004C, pd_mask = 0x0000000F, pd_shift = 0,
      pd_funcs = gpio2_b4_funcs, pd_module_pin = 63, pd_evb_pin = 8\<rparr>]"

definition pin_table :: "pin_desc list" where
  "pin_table = gpio0_pins @ gpio1_ab_pins @ gpio1_c_pins @ gpio1_d_pins @ gpio2_pins"

lemmas pin_defs =
  gpio0_a0_funcs_def gpio0_a1_funcs_def gpio0_a2_funcs_def gpio0_a3_funcs_def gpio0_a4_funcs_def
  gpio0_a5_funcs_def gpio0_a6_funcs_def gpio1_a6_funcs_def gpio1_a7_funcs_def gpio1_b0_funcs_def
  gpio1_b1_funcs_def gpio1_b2_funcs_def gpio1_b3_funcs_def gpio1_b4_funcs_def gpio1_b5_funcs_def
  gpio1_b6_funcs_def gpio1_b7_funcs_def gpio1_c0_funcs_def gpio1_c1_funcs_def gpio1_c2_funcs_def
  gpio1_c3_funcs_def gpio1_c4_funcs_def gpio1_c5_funcs_def gpio1_c6_funcs_def gpio1_d0_funcs_def
  gpio1_d1_funcs_def gpio1_d2_funcs_def gpio1_d3_funcs_def gpio1_d4_funcs_def gpio1_d5_funcs_def
  gpio2_b0_funcs_def gpio2_b1_funcs_def gpio2_b4_funcs_def
  gpio0_pins_def gpio1_ab_pins_def gpio1_c_pins_def gpio1_d_pins_def gpio2_pins_def pin_table_def

section \<open>What the tables guarantee\<close>

definition lower_name :: "string \<Rightarrow> bool" where
  "lower_name s \<longleftrightarrow> s \<noteq> [] \<and> list_all (\<lambda>c. c \<noteq> CHR ''-'' \<and> \<not> (65 \<le> (of_char c :: nat) \<and> (of_char c :: nat) \<le> 90)) s"

definition pin_ok :: "pin_desc \<Rightarrow> bool" where
  "pin_ok p \<longleftrightarrow>
     pd_addr p AND 3 = 0 \<and> pd_mask p = push_bit (pd_shift p) 0xf \<and> pd_shift p \<in> {0, 4, 8, 12} \<and>
     distinct (map fd_name (pd_funcs p)) \<and> distinct (map fd_value (pd_funcs p)) \<and>
     list_all (\<lambda>f. fd_value f < 16 \<and> lower_name (fd_name f)) (pd_funcs p) \<and>
     lower_name (pd_name p) \<and> pd_module_pin p < 1000 \<and> pd_evb_pin p < 1000"

lemma pin_table_ok: "list_all pin_ok pin_table"
  by code_simp

lemma pin_table_names: "distinct (map pd_name pin_table)"
  by code_simp

lemma pin_table_fields: "distinct (map (\<lambda>p. (pd_addr p, pd_shift p)) pin_table)"
  by code_simp

end
