(* ===== verification/Pinmux.thy ===== *)
theory Pinmux
  imports Pinmux_Table "HOL-Library.Monad_Syntax"
begin

text \<open>
  \<^verbatim>\<open>omega4-pinmux\<close>: the access to the registers through
  \<^verbatim>\<open>/dev/mem\<close>, the lookups in the tables, and \<open>main\<close>.
  The device is a parameter: what a 32-bit write does to the registers, the page size, and which of
  the calls of \<open>open\<close> and \<open>mmap\<close> succeed. An access outside the mapped page is undefined.
  The text on stderr is not modelled; an exit status of -1 is the byte 255 of the process.
\<close>

unbundle bit_operations_syntax

section \<open>The device and the process\<close>

type_synonym mux_regs = "u32 \<Rightarrow> u32"

record mux_world =
  mx_page_size :: int
  mx_open_ok :: "nat \<Rightarrow> bool"
  mx_map_ok :: "nat \<Rightarrow> bool"
  mx_write :: "u32 \<Rightarrow> u32 \<Rightarrow> mux_regs \<Rightarrow> mux_regs"

record mux_state =
  mx_regs :: mux_regs
  mx_opens :: nat
  mx_fds :: nat
  mx_maps :: nat
  mx_out :: string

definition mx_print :: "string \<Rightarrow> mux_state \<Rightarrow> mux_state" where
  "mx_print t s = s\<lparr>mx_out := mx_out s @ t\<rparr>"

record mem_map =
  mm_size :: u32
  mm_base :: u32

definition mem_map_open :: "mux_world \<Rightarrow> u32 \<Rightarrow> mux_state \<Rightarrow> mem_map option \<times> mux_state" where
  "mem_map_open w addr s =
     (if mx_page_size w \<le> 0 then (None, s)
      else
        (let page_mask = of_int (mx_page_size w - 1);
             base = addr AND NOT page_mask;
             n = mx_opens s;
             s = s\<lparr>mx_opens := n + 1\<rparr>
         in if \<not> mx_open_ok w n then (None, s)
            else
              (let s = s\<lparr>mx_fds := mx_fds s + 1\<rparr> in
               if \<not> mx_map_ok w n then (None, s\<lparr>mx_fds := mx_fds s - 1\<rparr>)
               else (Some \<lparr>mm_size = of_int (mx_page_size w), mm_base = base\<rparr>,
                     s\<lparr>mx_maps := mx_maps s + 1\<rparr>))))"

definition mem_map_close :: "mux_state \<Rightarrow> mux_state" where
  "mem_map_close s = s\<lparr>mx_maps := mx_maps s - 1, mx_fds := mx_fds s - 1\<rparr>"

text \<open>The address of the word at an offset of the mapping, when the whole word is mapped.\<close>

definition map_word :: "mem_map \<Rightarrow> u32 \<Rightarrow> u32 option" where
  "map_word m offset =
     (if unat offset + 4 \<le> unat (mm_size m) then Some (mm_base m + offset) else None)"

text \<open>The outer option is undefined behaviour, the inner one the return code of the function.\<close>

definition reg_read32 :: "mux_world \<Rightarrow> u32 \<Rightarrow> mux_state \<Rightarrow> (u32 option \<times> mux_state) option" where
  "reg_read32 w addr s =
     (case mem_map_open w addr s of
        (None, s) \<Rightarrow> Some (None, s)
      | (Some m, s) \<Rightarrow>
          (let offset = addr AND of_int (mx_page_size w - 1) in do {
             reg \<leftarrow> map_word m offset;
             Some (Some (mx_regs s reg), mem_map_close s)
           }))"

definition reg_rmw32 ::
  "mux_world \<Rightarrow> u32 \<Rightarrow> u32 \<Rightarrow> u32 \<Rightarrow> mux_state \<Rightarrow> ((u32 \<times> u32) option \<times> mux_state) option" where
  "reg_rmw32 w addr msk value s =
     (case mem_map_open w addr s of
        (None, s) \<Rightarrow> Some (None, s)
      | (Some m, s) \<Rightarrow>
          (let offset = addr AND of_int (mx_page_size w - 1) in do {
             reg \<leftarrow> map_word m offset;
             (let masked_value = value AND msk;
                  old = mx_regs s reg;
                  newv = (old AND NOT msk) OR masked_value;
                  s = (if msk AND 0xFFFF0000 = 0
                       then s\<lparr>mx_regs := mx_write w reg (push_bit 16 msk OR masked_value) (mx_regs s)\<rparr>
                       else s\<lparr>mx_regs := mx_write w reg newv (mx_regs s)\<rparr>)
              in Some (Some (old, newv), mem_map_close s))
           }))"

section \<open>Lookup and printing\<close>

definition find_pin :: "string \<Rightarrow> pin_desc option" where
  "find_pin name = List.find (\<lambda>p. pd_name p = name) pin_table"

definition find_func :: "pin_desc \<Rightarrow> string \<Rightarrow> func_desc option" where
  "find_func pin name = List.find (\<lambda>f. fd_name f = name) (pd_funcs pin)"

definition func_from_field :: "pin_desc \<Rightarrow> u32 \<Rightarrow> func_desc option" where
  "func_from_field pin v = List.find (\<lambda>f. fd_value f = v) (pd_funcs pin)"

definition pad_left :: "nat \<Rightarrow> string \<Rightarrow> string" where
  "pad_left n s = replicate (n - length s) (CHR '' '') @ s"

definition pad_right :: "nat \<Rightarrow> string \<Rightarrow> string" where
  "pad_right n s = s @ replicate (n - length s) (CHR '' '')"

definition nl :: string where "nl = [CHR 0x0A]"

definition HEX8 :: "u32 \<Rightarrow> string" where
  "HEX8 v = map (\<lambda>i. let d = unat (drop_bit (4 * (7 - i)) v AND 0xf)
                     in if d < 10 then char_of (48 + d) else char_of (55 + d)) [0..<8]"

definition format_pin_index :: "int \<Rightarrow> string" where
  "format_pin_index value = (if value > 0 then take 7 (dec_digits (nat value)) else ''--'')"

definition pin_field :: "pin_desc \<Rightarrow> mux_regs \<Rightarrow> u32" where
  "pin_field pin r = drop_bit (pd_shift pin) (r (pd_addr pin) AND pd_mask pin)"

definition pin_line :: "pin_desc \<Rightarrow> func_desc option \<Rightarrow> string" where
  "pin_line pin f =
     pad_right 9 (pd_name pin) @ '' (module '' @ pad_left 3 (format_pin_index (pd_module_pin pin)) @
     '' / evb '' @ pad_left 3 (format_pin_index (pd_evb_pin pin)) @ '') : '' @
     (case f of Some f \<Rightarrow> fd_name f | None \<Rightarrow> ''UNKNOWN'') @ nl"

definition print_pin_status :: "mux_world \<Rightarrow> pin_desc \<Rightarrow> mux_state \<Rightarrow> (int \<times> mux_state) option" where
  "print_pin_status w pin s = do {
     (r, s) \<leftarrow> reg_read32 w (pd_addr pin) s;
     case r of
       None \<Rightarrow> Some (- 1, s)
     | Some reg \<Rightarrow>
         (let field = drop_bit (pd_shift pin) (reg AND pd_mask pin)
          in Some (0, mx_print (pin_line pin (func_from_field pin field)) s))
   }"

fun print_pins :: "mux_world \<Rightarrow> pin_desc list \<Rightarrow> mux_state \<Rightarrow> mux_state option" where
  "print_pins w [] s = Some s"
| "print_pins w (p # ps) s = do { (_, s) \<leftarrow> print_pin_status w p s; print_pins w ps s }"

definition list_pins :: "mux_world \<Rightarrow> mux_state \<Rightarrow> mux_state option" where
  "list_pins w s = print_pins w pin_table s"

section \<open>The program\<close>

definition c_tolower :: "char \<Rightarrow> char" where
  "c_tolower c = (let n = of_char c :: nat in if 65 \<le> n \<and> n \<le> 90 then char_of (n + 32) else c)"

definition str_to_lower :: "string \<Rightarrow> string" where
  "str_to_lower s = map c_tolower s"

definition is_help :: "string \<Rightarrow> bool" where
  "is_help a \<longleftrightarrow> a = ''-h'' \<or> a = ''--help''"

definition pin_help :: "string \<Rightarrow> mux_state \<Rightarrow> int \<times> mux_state" where
  "pin_help a s =
     (let pin_name = str_to_lower a in
      case find_pin pin_name of
        None \<Rightarrow> (1, s)
      | Some pin \<Rightarrow>
          (0, mx_print (''Pin '' @ pin_name @ '' supports the following mux functions:'' @ nl @
                concat (map (\<lambda>f. ''  '' @ pad_right 16 (fd_name f) @ '' ('' @
                  dec_digits (unat (fd_value f)) @ '')'' @ nl) (pd_funcs pin))) s))"

definition show_pin :: "mux_world \<Rightarrow> string \<Rightarrow> mux_state \<Rightarrow> (int \<times> mux_state) option" where
  "show_pin w a s =
     (case find_pin (str_to_lower a) of
        None \<Rightarrow> Some (1, s)
      | Some pin \<Rightarrow> print_pin_status w pin s)"

definition set_pin :: "mux_world \<Rightarrow> string \<Rightarrow> string \<Rightarrow> mux_state \<Rightarrow> (int \<times> mux_state) option" where
  "set_pin w a b s =
     (let pin_name = str_to_lower a; func_name = str_to_lower b in
      case find_pin pin_name of
        None \<Rightarrow> Some (1, s)
      | Some pin \<Rightarrow>
          (case find_func pin func_name of
             None \<Rightarrow>
               Some (1, mx_print (''Valid functions for '' @ pin_name @ '':'' @ nl @
                 concat (map (\<lambda>f. ''  '' @ fd_name f @ nl) (pd_funcs pin))) s)
           | Some func \<Rightarrow>
               (let field_val = push_bit (pd_shift pin) (fd_value func); field_mask = pd_mask pin in do {
                  (r, s) \<leftarrow> reg_rmw32 w (pd_addr pin) field_mask field_val s;
                  case r of
                    None \<Rightarrow> Some (1, s)
                  | Some (oldv, newv) \<Rightarrow>
                      Some (0, mx_print (''Pin '' @ pin_name @ '' set to '' @ func_name @ nl @
                        ''  addr: 0x'' @ HEX8 (pd_addr pin) @ nl @ ''  mask: 0x'' @ HEX8 field_mask @ nl @
                        ''  old : 0x'' @ HEX8 oldv @ nl @ ''  new : 0x'' @ HEX8 newv @ nl) s)
                })))"

text \<open>The arguments are those after the name of the program.\<close>

definition pinmux_main :: "mux_world \<Rightarrow> string list \<Rightarrow> mux_state \<Rightarrow> (int \<times> mux_state) option" where
  "pinmux_main w args s =
     (let (help, rest) = (case args of a # r \<Rightarrow> if is_help a then (True, r) else (False, args)
                          | [] \<Rightarrow> (False, []))
      in if help \<and> rest = [] then Some (0, s)
         else if help \<and> length rest = 1 then Some (pin_help (rest ! 0) s)
         else if rest = [] then map_option (\<lambda>s. (0, s)) (list_pins w s)
         else if length rest = 1 then show_pin w (rest ! 0) s
         else if length rest = 2 then set_pin w (rest ! 0) (rest ! 1) s
         else Some (1, s))"

end
