(* ===== verification/Pinmux_Correct.thy ===== *)
theory Pinmux_Correct
  imports Pinmux
begin

text \<open>
  What \<^verbatim>\<open>omega4-pinmux\<close> does to the multiplexer: a function that was set is the one that
  is shown and no other pin changes, nothing else writes a register, and the accesses stay in the
  mapped page and give their descriptors back.
\<close>

section \<open>The mapping\<close>

definition page_ok :: "mux_world \<Rightarrow> bool" where
  "page_ok w \<longleftrightarrow> (\<exists>k. 2 \<le> k \<and> k < 31 \<and> mx_page_size w = 2 ^ k)"

lemma page_mask: "(of_int (2 ^ k - 1) :: u32) = mask k"
  by (simp add: mask_eq_exp_minus_1)

lemma page_split: "(a AND NOT (mask k)) + (a AND mask k) = (a :: u32)"
proof -
  have "(a AND NOT (mask k)) AND (a AND mask k) = 0"
    by (rule bit_eqI) (simp add: bit_simps)
  then have "(a AND NOT (mask k)) + (a AND mask k) = (a AND NOT (mask k)) OR (a AND mask k)"
    by (rule disjunctive_add_eq_or)
  also have "\<dots> = a" by (rule bit_eqI) (auto simp: bit_simps)
  finally show ?thesis .
qed

lemma aligned_in_page:
  assumes a: "(a :: u32) AND 3 = 0" and k: "2 \<le> k" "k < 31"
  shows "unat (a AND mask k) + 4 \<le> 2 ^ k"
proof -
  have "take_bit 2 a = 0" using a by (simp add: take_bit_eq_mask mask_eq_exp_minus_1)
  then have "take_bit 2 (unat a) = 0" by (metis unsigned_0 unsigned_take_bit_eq)
  then have a4: "unat a mod 4 = 0" by (simp add: take_bit_eq_mod)
  have off: "unat (a AND mask k) = unat a mod 2 ^ k"
    by (simp only: take_bit_eq_mask [symmetric] unsigned_take_bit_eq) (simp add: take_bit_eq_mod)
  have "(4 :: nat) dvd 2 ^ k" using le_imp_power_dvd [OF k(1), of "2 :: nat"] by simp
  then have d: "4 dvd 2 ^ k - unat a mod 2 ^ k"
    using a4 by (simp add: dvd_diff_nat dvd_mod mod_0_imp_dvd)
  have lt: "unat a mod 2 ^ k < (2 :: nat) ^ k" by simp
  then have "4 \<le> 2 ^ k - unat a mod 2 ^ k" using dvd_imp_le [OF d] by simp
  with lt off show ?thesis by linarith
qed

lemma map_word_page:
  assumes "page_ok w" and "a AND 3 = 0"
  shows "map_word \<lparr>mm_size = of_int (mx_page_size w), mm_base = a AND NOT (of_int (mx_page_size w - 1))\<rparr>
    (a AND of_int (mx_page_size w - 1)) = Some a"
proof -
  from assms(1) obtain k where k: "2 \<le> k" "k < 31" "mx_page_size w = 2 ^ k" by (auto simp: page_ok_def)
  have "(2 ^ k :: nat) < 2 ^ 32" using k(2) by (intro power_strict_increasing) simp_all
  then have "unat (of_nat (2 ^ k) :: u32) = 2 ^ k"
    by (simp only: unat_of_nat take_bit_eq_mod) (simp add: take_bit_nat_eq_self unsigned_of_nat)
  then have "unat (2 ^ k :: u32) = 2 ^ k" by simp
  with aligned_in_page [OF assms(2) k(1,2)] show ?thesis
    using page_split [of a k] by (simp add: map_word_def k(3) mask_eq_exp_minus_1)
qed

definition access_ok :: "mux_world \<Rightarrow> nat \<Rightarrow> bool" where
  "access_ok w n \<longleftrightarrow> mx_open_ok w n \<and> mx_map_ok w n"

lemma page_pos: "page_ok w \<Longrightarrow> \<not> mx_page_size w \<le> 0"
  by (auto simp: page_ok_def)

lemma state_same [simp]:
  "s\<lparr>mx_opens := n, mx_fds := mx_fds s\<rparr> = s\<lparr>mx_opens := n\<rparr>"
  "s\<lparr>mx_opens := n, mx_fds := mx_fds s, mx_maps := mx_maps s\<rparr> = s\<lparr>mx_opens := n\<rparr>"
  "s\<lparr>mx_opens := n, mx_fds := mx_fds s, mx_maps := mx_maps s, mx_regs := r\<rparr> = s\<lparr>mx_opens := n, mx_regs := r\<rparr>"
  by (cases s; simp)+

lemma reg_read32_eq:
  assumes "page_ok w" and "a AND 3 = 0"
  shows "reg_read32 w a s =
    Some (if access_ok w (mx_opens s) then Some (mx_regs s a) else None, s\<lparr>mx_opens := mx_opens s + 1\<rparr>)"
  using page_pos [OF assms(1)] map_word_page [OF assms]
  by (simp add: reg_read32_def mem_map_open_def mem_map_close_def access_ok_def Let_def)

definition rmw_word :: "u32 \<Rightarrow> u32 \<Rightarrow> u32 \<Rightarrow> u32" where
  "rmw_word msk v old =
     (if msk AND 0xFFFF0000 = 0 then push_bit 16 msk OR (v AND msk) else (old AND NOT msk) OR (v AND msk))"

lemma reg_rmw32_eq:
  assumes "page_ok w" and "a AND 3 = 0"
  shows "reg_rmw32 w a msk v s =
    Some (if access_ok w (mx_opens s)
          then (Some (mx_regs s a, (mx_regs s a AND NOT msk) OR (v AND msk)),
                s\<lparr>mx_opens := mx_opens s + 1,
                  mx_regs := mx_write w a (rmw_word msk v (mx_regs s a)) (mx_regs s)\<rparr>)
          else (None, s\<lparr>mx_opens := mx_opens s + 1\<rparr>))"
  using page_pos [OF assms(1)] map_word_page [OF assms]
  by (simp add: reg_rmw32_def mem_map_open_def mem_map_close_def access_ok_def rmw_word_def Let_def)

section \<open>The fields\<close>

text \<open>Registers with write-enable bits in their upper half, as the source assumes them.\<close>

definition hiword_write :: "u32 \<Rightarrow> u32 \<Rightarrow> mux_regs \<Rightarrow> mux_regs" where
  "hiword_write a v r =
     r(a := (r a AND NOT (drop_bit 16 v)) OR (v AND drop_bit 16 v))"

lemma field_bit: "bit (push_bit s (0xf :: u32)) i \<longleftrightarrow> s \<le> i \<and> i < s + 4 \<and> i < 32"
proof -
  have m: "(0xf :: u32) = mask 4" by (simp add: mask_eq_exp_minus_1)
  show ?thesis unfolding m by (auto simp: bit_simps)
qed

lemma small_bit: "(v :: u32) < 16 \<Longrightarrow> bit v i \<Longrightarrow> i < 4"
proof -
  assume "v < 16" "bit v i"
  then have "take_bit 4 v = v" by (simp add: take_bit_eq_mod mod_word_less)
  with \<open>bit v i\<close> show "i < 4" by (metis bit_take_bit_iff)
qed

definition nibble :: "nat \<Rightarrow> u32" where
  "nibble s = push_bit s 0xf"

lemma nibble_bit: "bit (nibble s) i \<longleftrightarrow> s \<le> i \<and> i < s + 4 \<and> i < 32"
  unfolding nibble_def by (rule field_bit)

lemma hiword_effect:
  assumes s: "s \<le> 12"
  shows "(old AND NOT (drop_bit 16 (rmw_word (nibble s) v old))) OR
      (rmw_word (nibble s) v old AND drop_bit 16 (rmw_word (nibble s) v old)) =
    (old AND NOT (nibble s)) OR (v AND nibble s)"
proof -
  have hi: "\<not> bit (0xFFFF0000 :: u32) i" if "i < 16" for i
  proof -
    have m: "(0xFFFF0000 :: u32) = push_bit 16 (mask 16)" by (simp add: mask_eq_exp_minus_1)
    show ?thesis unfolding m using that by (simp add: bit_simps)
  qed
  have low: "nibble s AND 0xFFFF0000 = 0"
  proof (rule bit_eqI)
    fix i
    show "bit (nibble s AND 0xFFFF0000) i = bit 0 i"
      using hi [of i] s by (cases "i < 16") (auto simp: bit_and_iff nibble_bit)
  qed
  have d: "drop_bit 16 (rmw_word (nibble s) v old) = nibble s"
    by (rule bit_eqI) (use s in \<open>auto simp: rmw_word_def low bit_and_iff bit_or_iff bit_drop_bit_eq
        bit_push_bit_iff nibble_bit\<close>)
  show ?thesis unfolding d
    by (rule bit_eqI) (use s in \<open>auto simp: rmw_word_def low bit_and_iff bit_or_iff bit_not_iff
        bit_push_bit_iff nibble_bit\<close>)
qed

lemma field_set:
  assumes "s \<le> 12" and "v < 16"
  shows "drop_bit s (((old AND NOT (nibble s)) OR (push_bit s v AND nibble s)) AND nibble s) = v"
proof (rule bit_eqI)
  fix n
  have "bit v n \<Longrightarrow> n < 4" using small_bit [OF assms(2)] .
  then show "bit (drop_bit s (((old AND NOT (nibble s)) OR (push_bit s v AND nibble s)) AND nibble s)) n = bit v n"
    using assms(1) by (auto simp: bit_and_iff bit_or_iff bit_not_iff bit_drop_bit_eq
        nibble_bit bit_push_bit_iff)
qed

lemma field_other:
  assumes "s \<noteq> t" and "s \<in> {0, 4, 8, 12}" and "t \<in> {0, 4, 8, 12 :: nat}"
  shows "drop_bit t (((old AND NOT (nibble s)) OR (v AND nibble s)) AND nibble t) =
    drop_bit t (old AND nibble t)"
  by (rule bit_eqI) (use assms in \<open>auto simp: bit_and_iff bit_or_iff bit_not_iff bit_drop_bit_eq nibble_bit\<close>)

section \<open>The lookups\<close>

lemma find_distinct:
  "distinct (map f xs) \<Longrightarrow> x \<in> set xs \<Longrightarrow> List.find (\<lambda>y. f y = f x) xs = Some x"
  by (induction xs) auto

lemma find_SomeD: "List.find P xs = Some x \<Longrightarrow> x \<in> set xs \<and> P x"
  by (induction xs) (auto split: if_splits)

lemma table_pin: "p \<in> set pin_table \<Longrightarrow> pin_ok p"
  using pin_table_ok by (simp add: list_all_iff)

lemma table_pin_facts:
  assumes "p \<in> set pin_table"
  shows "pd_addr p AND 3 = 0" "pd_mask p = nibble (pd_shift p)" "pd_shift p \<in> {0, 4, 8, 12}"
    "pd_shift p \<le> 12" "find_pin (pd_name p) = Some p"
  using table_pin [OF assms] find_distinct [OF pin_table_names assms]
  by (auto simp: pin_ok_def find_pin_def nibble_def)

lemma table_func_facts:
  assumes "p \<in> set pin_table" and "f \<in> set (pd_funcs p)"
  shows "fd_value f < 16" "find_func p (fd_name f) = Some f" "func_from_field p (fd_value f) = Some f"
  using table_pin [OF assms(1)] assms(2)
    find_distinct [of fd_name "pd_funcs p" f] find_distinct [of fd_value "pd_funcs p" f]
  by (auto simp: pin_ok_def find_func_def func_from_field_def list_all_iff)

lemma table_field_own:
  assumes "p \<in> set pin_table" and "q \<in> set pin_table" and "p \<noteq> q"
  shows "pd_addr p \<noteq> pd_addr q \<or> pd_shift p \<noteq> pd_shift q"
  using pin_table_fields assms by (auto simp: distinct_map dest: inj_onD)

lemma table_not_help:
  assumes "p \<in> set pin_table" and "str_to_lower a = pd_name p"
  shows "\<not> is_help a"
proof
  assume "is_help a"
  then have "CHR ''-'' \<in> set (str_to_lower a)"
    by (auto simp: is_help_def str_to_lower_def c_tolower_def Let_def)
  with assms(2) table_pin [OF assms(1)] show False
    by (auto simp: pin_ok_def lower_name_def list_all_iff)
qed

lemma print_pin_status_eq:
  assumes "page_ok w" and "p \<in> set pin_table"
  shows "print_pin_status w p s = Some (if access_ok w (mx_opens s)
    then (0, mx_print (pin_line p (func_from_field p (pin_field p (mx_regs s)))) (s\<lparr>mx_opens := mx_opens s + 1\<rparr>))
    else (- 1, s\<lparr>mx_opens := mx_opens s + 1\<rparr>))"
  using reg_read32_eq [OF assms(1) table_pin_facts(1) [OF assms(2)]]
  by (simp add: print_pin_status_def pin_field_def Let_def)

lemma show_pin_eq:
  assumes "p \<in> set pin_table" and "str_to_lower a = pd_name p"
  shows "pinmux_main w [a] s = print_pin_status w p s"
  using table_not_help [OF assms] table_pin_facts(5) [OF assms(1)] assms(2)
  by (simp add: pinmux_main_def show_pin_def)

lemma set_pin_eq:
  assumes "page_ok w" and "p \<in> set pin_table" and "str_to_lower a = pd_name p"
  shows "\<exists>t. set_pin w a b s =
    (case find_func p (str_to_lower b) of
       None \<Rightarrow> Some (1, mx_print t s)
     | Some f \<Rightarrow>
         Some (if access_ok w (mx_opens s)
               then (0, mx_print t (s\<lparr>mx_opens := mx_opens s + 1, mx_regs := mx_write w (pd_addr p)
                      (rmw_word (pd_mask p) (push_bit (pd_shift p) (fd_value f)) (mx_regs s (pd_addr p)))
                      (mx_regs s)\<rparr>))
               else (1, s\<lparr>mx_opens := mx_opens s + 1\<rparr>)))"
  using table_pin_facts(5) [OF assms(2)] assms(3) reg_rmw32_eq [OF assms(1) table_pin_facts(1) [OF assms(2)]]
  by (auto simp: set_pin_def Let_def split: option.split)

lemma main_set:
  assumes "p \<in> set pin_table" and "str_to_lower a = pd_name p"
  shows "pinmux_main w [a, b] s = set_pin w a b s"
  using table_not_help [OF assms] by (simp add: pinmux_main_def)

text \<open>What no run of the program changes, whatever the arguments.\<close>

definition same_handles :: "mux_state \<Rightarrow> mux_state \<Rightarrow> bool" where
  "same_handles s s' \<longleftrightarrow> mx_fds s' = mx_fds s \<and> mx_maps s' = mx_maps s"

text \<open>The result of a run that may set a function: which run may write a register.\<close>

definition may_set :: "string \<Rightarrow> string \<Rightarrow> bool" where
  "may_set a b \<longleftrightarrow> (\<exists>p f. p \<in> set pin_table \<and> str_to_lower a = pd_name p \<and>
     f \<in> set (pd_funcs p) \<and> str_to_lower b = fd_name f)"

definition run_ok :: "bool \<Rightarrow> mux_state \<Rightarrow> int \<times> mux_state \<Rightarrow> bool" where
  "run_ok b s x \<longleftrightarrow> fst x \<in> {0, 1, - 1} \<and> same_handles s (snd x) \<and>
     (mx_regs (snd x) \<noteq> mx_regs s \<longrightarrow> fst x = 0 \<and> b)"

lemma show_pin_safe:
  assumes "page_ok w"
  shows "\<exists>x. show_pin w a s = Some x \<and> run_ok False s x"
proof (cases "find_pin (str_to_lower a)")
  case (Some p)
  then have "p \<in> set pin_table" using find_SomeD [of _ pin_table p] by (auto simp: find_pin_def)
  from Some print_pin_status_eq [OF assms this, of s] show ?thesis
    by (simp add: show_pin_def run_ok_def same_handles_def mx_print_def)
qed (simp add: show_pin_def run_ok_def same_handles_def)

lemma set_pin_safe:
  assumes "page_ok w"
  shows "\<exists>x. set_pin w a b s = Some x \<and> run_ok (may_set a b) s x"
proof (cases "find_pin (str_to_lower a)")
  case (Some p)
  then have p: "p \<in> set pin_table" "str_to_lower a = pd_name p"
    using find_SomeD [OF Some [unfolded find_pin_def]] by auto
  have f: "may_set a b" if "find_func p (str_to_lower b) = Some f" for f
    using find_SomeD [OF that [unfolded find_func_def]] p unfolding may_set_def by metis
  from set_pin_eq [OF assms p, of b s] f show ?thesis
    by (cases "find_func p (str_to_lower b)") (auto simp: run_ok_def same_handles_def mx_print_def)
qed (simp add: set_pin_def run_ok_def same_handles_def)

lemma pin_help_safe: "run_ok False s (pin_help a s)"
  by (auto simp: run_ok_def pin_help_def same_handles_def mx_print_def Let_def split: option.split)

lemma print_pins_safe:
  assumes "page_ok w" and "set ps \<subseteq> set pin_table"
  shows "\<exists>s'. print_pins w ps s = Some s' \<and> same_handles s s' \<and> mx_regs s' = mx_regs s"
  using assms(2)
proof (induction ps arbitrary: s)
  case Nil
  then show ?case by (simp add: same_handles_def)
next
  case (Cons p ps)
  then have p: "p \<in> set pin_table" and ps: "set ps \<subseteq> set pin_table" by auto
  obtain r s1 where s1: "print_pin_status w p s = Some (r, s1)" "same_handles s s1" "mx_regs s1 = mx_regs s"
    using print_pin_status_eq [OF assms(1) p, of s]
    by (cases "access_ok w (mx_opens s)") (auto simp: same_handles_def mx_print_def)
  with Cons.IH [OF ps, of s1] show ?case by (auto simp: same_handles_def)
qed

definition ex_mux :: mux_world where
  "ex_mux = \<lparr>mx_page_size = 4096, mx_open_ok = (\<lambda>_. True), mx_map_ok = (\<lambda>_. True), mx_write = hiword_write\<rparr>"

definition ex_mux_state :: mux_state where
  "ex_mux_state = \<lparr>mx_regs = (\<lambda>_. 0x1234), mx_opens = 0, mx_fds = 3, mx_maps = 0, mx_out = []\<rparr>"

lemma ex_mux_ok: "page_ok ex_mux" "access_ok ex_mux n" "mx_write ex_mux = hiword_write"
  by (auto simp: page_ok_def access_ok_def ex_mux_def intro!: exI [of _ "12 :: nat"])

section \<open>Properties\<close>

text \<open>C10: A function that was set is shown. For every pin of the table and each of its functions, in
  any spelling of upper and lower case, setting the function succeeds, showing the pin afterwards
  prints that function, and the function of every other pin is as before - on registers with
  write-enable bits, as the source assumes them, and when \<^verbatim>\<open>/dev/mem\<close> can be opened and mapped.\<close>

theorem pinmux_set_then_show:
  assumes "p \<in> set pin_table" and "f \<in> set (pd_funcs p)" and "str_to_lower a = pd_name p"
    and "str_to_lower b = fd_name f" and "page_ok w" and "\<forall>n. access_ok w n" and "mx_write w = hiword_write"
  shows "\<exists>s1 s2. pinmux_main w [a, b] s = Some (0, s1) \<and> pinmux_main w [a] s1 = Some (0, s2) \<and>
    mx_out s2 = mx_out s1 @ pin_line p (Some f) \<and> pin_field p (mx_regs s1) = fd_value f \<and>
    (\<forall>q. q \<in> set pin_table \<and> q \<noteq> p \<longrightarrow> pin_field q (mx_regs s1) = pin_field q (mx_regs s))"
proof -
  note p = table_pin_facts [OF assms(1)] and f = table_func_facts [OF assms(1,2)]
  let ?sh = "pd_shift p" and ?a = "pd_addr p"
  let ?r = "(mx_regs s) (?a := (mx_regs s ?a AND NOT (nibble ?sh)) OR (push_bit ?sh (fd_value f) AND nibble ?sh))"
  have ok: "access_ok w n" for n using assms(6) by blast
  obtain t where set: "pinmux_main w [a, b] s = Some (0, mx_print t (s\<lparr>mx_opens := mx_opens s + 1, mx_regs := ?r\<rparr>))"
    using set_pin_eq [OF assms(5,1,3), of b s] hiword_effect [OF p(4)]
    by (auto simp: main_set [OF assms(1,3)] assms(4,7) f(2) ok p(2) hiword_write_def)
  let ?s1 = "mx_print t (s\<lparr>mx_opens := mx_opens s + 1, mx_regs := ?r\<rparr>)"
  have fld: "pin_field p ?r = fd_value f"
    using field_set [OF p(4) f(1)] by (simp add: pin_field_def p(2))
  have other: "pin_field q ?r = pin_field q (mx_regs s)" if q: "q \<in> set pin_table" "q \<noteq> p" for q
  proof (cases "pd_addr q = ?a")
    case True
    then have "?sh \<noteq> pd_shift q" using table_field_own [OF q(1) assms(1) q(2)] by auto
    from field_other [OF this p(3) table_pin_facts(3) [OF q(1)]] True show ?thesis
      by (simp add: pin_field_def table_pin_facts(2) [OF q(1)])
  qed (simp add: pin_field_def)
  have "pinmux_main w [a] ?s1 = print_pin_status w p ?s1" by (rule show_pin_eq [OF assms(1,3)])
  also have "\<dots> = Some (0, mx_print (pin_line p (Some f)) (?s1\<lparr>mx_opens := mx_opens ?s1 + 1\<rparr>))"
    using print_pin_status_eq [OF assms(5,1), of ?s1] fld f(3) by (simp add: ok mx_print_def)
  finally show ?thesis using set fld other by (simp add: mx_print_def)
qed

theorem pinmux_set_then_show_witness:
  "\<exists>s1 s2. pinmux_main ex_mux [''GPIO1_B3'', ''uart0_rx_m2''] ex_mux_state = Some (0, s1) \<and>
     pinmux_main ex_mux [''GPIO1_B3''] s1 = Some (0, s2) \<and>
     mx_out s2 = mx_out s1 @ ''gpio1_b3  (module  12 / evb  42) : uart0_rx_m2'' @ [CHR 0x0A]"
proof -
  define p where "p = gpio1_ab_pins ! 5"
  define f where "f = gpio1_b3_funcs ! 2"
  have p: "p \<in> set pin_table" and f: "f \<in> set (pd_funcs p)"
    by (simp_all add: p_def f_def pin_table_def gpio1_ab_pins_def gpio1_b3_funcs_def)
  have a: "str_to_lower ''GPIO1_B3'' = pd_name p" and b: "str_to_lower ''uart0_rx_m2'' = fd_name f"
    unfolding p_def f_def by code_simp+
  have "pin_line p (Some f) = ''gpio1_b3  (module  12 / evb  42) : uart0_rx_m2'' @ [CHR 0x0A]"
    unfolding p_def f_def by code_simp
  moreover have "\<forall>n. access_ok ex_mux n" by (simp add: ex_mux_ok)
  ultimately show ?thesis
    using pinmux_set_then_show [OF p f a b ex_mux_ok(1) _ ex_mux_ok(3), of ex_mux_state] by auto
qed

text \<open>C11: Safe and frugal. For any command line and any page size that is a power of two, and
  whatever calls fail, the program stays inside the mapped page, closes and unmaps what it opened,
  and returns 0, 1 or -1; a register is written only to set a known function of a known pin, and
  only when the run succeeds.\<close>

theorem pinmux_writes_only_to_set:
  assumes "page_ok w"
  shows "\<exists>ret s'. pinmux_main w args s = Some (ret, s') \<and> ret \<in> {0, 1, - 1} \<and> same_handles s s' \<and>
    (mx_regs s' \<noteq> mx_regs s \<longrightarrow> ret = 0 \<and>
       (\<exists>a b. may_set a b \<and> (args = [a, b] \<or> (\<exists>h. is_help h \<and> args = [h, a, b]))))"
proof -
  obtain s' where l: "list_pins w s = Some s'" "same_handles s s'" "mx_regs s' = mx_regs s"
    using print_pins_safe [OF assms subset_refl, of s] by (auto simp: list_pins_def)
  have list: "run_ok b s (0, s')" for b using l by (simp add: run_ok_def)
  have quiet: "run_ok b s (0, s)" "run_ok b s (1, s)" for b by (auto simp: run_ok_def same_handles_def)
  have weaken: "run_ok b s x" if "run_ok False s x" for b x using that by (auto simp: run_ok_def)
  define h where "h = (args \<noteq> [] \<and> is_help (hd args))"
  define rest where "rest = (if h then tl args else args)"
  have split: "(case args of a # r \<Rightarrow> if is_help a then (True, r) else (False, args) | [] \<Rightarrow> (False, [])) = (h, rest)"
    by (cases args) (simp_all add: h_def rest_def)
  have "\<exists>x. pinmux_main w args s = Some x \<and> run_ok (\<exists>a b. may_set a b \<and> rest = [a, b]) s x"
  proof -
    consider "rest = []" | a where "rest = [a]" | a b where "rest = [a, b]" | a b c r where "rest = a # b # c # r"
      by (metis neq_Nil_conv)
    then show ?thesis
    proof cases
      case 1
      then show ?thesis using l list quiet by (cases h) (simp_all add: pinmux_main_def split)
    next
      case (2 a)
      then show ?thesis using pin_help_safe [of s a] show_pin_safe [OF assms, of a s] weaken
        by (cases h) (auto simp: pinmux_main_def split)
    next
      case (3 a b)
      then show ?thesis using set_pin_safe [OF assms, of a b s] by (simp add: pinmux_main_def split)
    next
      case (4 a b c r)
      then show ?thesis using quiet by (simp add: pinmux_main_def split)
    qed
  qed
  moreover have "args = rest \<or> (\<exists>a. is_help a \<and> args = a # rest)"
    by (cases args) (auto simp: h_def rest_def)
  ultimately show ?thesis by (auto simp: run_ok_def)
qed

theorem pinmux_writes_only_to_set_witness:
  "\<exists>ret s'. pinmux_main ex_mux [''gpio1_b3'', ''nothing''] ex_mux_state = Some (ret, s') \<and>
     ret \<in> {0, 1, - 1} \<and> mx_fds s' = 3"
  using pinmux_writes_only_to_set [OF ex_mux_ok(1), of "[''gpio1_b3'', ''nothing'']" ex_mux_state]
  by (auto simp: same_handles_def ex_mux_state_def)

text \<open>What the documentation offers and the program refuses: the option for the full listing and
  the second example of the package end with status 1, print nothing and touch no register.\<close>

theorem pinmux_documented_calls_refused:
  "pinmux_main w [''--full''] s = Some (1, s) \<and> pinmux_main w [''-f''] s = Some (1, s) \<and>
   pinmux_main w [''gpio2_a5'', ''i2c1_sda_m1''] s = Some (1, s)"
proof -
  have "find_pin (str_to_lower ''--full'') = None" "find_pin (str_to_lower ''-f'') = None"
    "find_pin (str_to_lower ''gpio2_a5'') = None"
    by code_simp+
  then show ?thesis by (simp add: pinmux_main_def is_help_def show_pin_def set_pin_def Let_def)
qed

end
