(* ===== verification/Venc_Rtp.thy ===== *)
theory Venc_Rtp
  imports C_Strings "HOL-Library.Monad_Syntax"
begin

text \<open>
  The RTP output of \<^verbatim>\<open>omega4-vencd\<close>
  (\<^verbatim>\<open>src/multimedia/omega4-vencd/src/omega4-vencd.c\<close>): the packets
  (\<^verbatim>\<open>rtp_send_packet\<close>, \<^verbatim>\<open>rtp_send_nal\<close>), the search for start codes and the
  cutting of an Annex-B buffer into NAL units (\<^verbatim>\<open>rtp_send_annexb\<close>), and
  \<^verbatim>\<open>output_write\<close>. The packet buffer has the length \<^verbatim>\<open>mtu\<close> that was allocated;
  a write outside it is undefined, the value \<open>None\<close>. The two loops over a buffer are
  \<open>partial_function\<close>s: a loop that does not end is \<open>None\<close> as well. Whether a call of
  \<^verbatim>\<open>sendto\<close> takes the whole packet is a parameter \<open>ok\<close>, asked with the number of the call.
\<close>

unbundle bit_operations_syntax

section \<open>Packets\<close>

definition RTP_HEADER_SIZE :: nat where "RTP_HEADER_SIZE = 12"
definition RTP_CLOCK_RATE :: u32 where "RTP_CLOCK_RATE = 90000"

record rtp_output =
  rt_buf :: bytes
  rt_mtu :: nat
  rt_max_payload :: nat
  rt_payload_type :: u32
  rt_seq :: u16
  rt_timestamp :: u32
  rt_timestamp_step :: u32
  rt_ssrc :: u32
  rt_calls :: nat
  rt_sent :: "bytes list"

text \<open>The payload of a packet: bytes elsewhere, or bytes already behind the header in the buffer.\<close>

datatype rtp_payload = Rtp_External bytes | Rtp_In_Buffer nat

fun payload_len :: "rtp_payload \<Rightarrow> nat" where
  "payload_len (Rtp_External bs) = length bs"
| "payload_len (Rtp_In_Buffer n) = n"

definition rtp_header :: "rtp_output \<Rightarrow> bool \<Rightarrow> bytes" where
  "rtp_header r marker =
     [0x80, (let b = ucast (rt_payload_type r AND 0x7f) in if marker then b OR 0x80 else b)] @
     be16 (rt_seq r) @ be32 (rt_timestamp r) @ be32 (rt_ssrc r)"

definition rtp_send_packet ::
  "(nat \<Rightarrow> bool) \<Rightarrow> rtp_payload \<Rightarrow> bool \<Rightarrow> rtp_output \<Rightarrow> (int \<times> rtp_output) option" where
  "rtp_send_packet ok p marker r =
     (let len = RTP_HEADER_SIZE + payload_len p in
      if len > rt_mtu r then Some (- 1, r)
      else do {
        buf \<leftarrow> c_write (rt_buf r) 0 (rtp_header r marker);
        buf \<leftarrow> (case p of Rtp_External bs \<Rightarrow> c_write buf RTP_HEADER_SIZE bs | Rtp_In_Buffer _ \<Rightarrow> Some buf);
        pkt \<leftarrow> c_read buf 0 len;
        (let n = rt_calls r; r = r\<lparr>rt_buf := buf, rt_calls := n + 1\<rparr> in
         if \<not> ok n then Some (- 1, r)
         else Some (0, r\<lparr>rt_sent := rt_sent r @ [pkt], rt_seq := rt_seq r + 1\<rparr>))
      })"

text \<open>The loop over the fragments of a NAL unit that does not fit into one packet.\<close>

partial_function (option) fu_loop ::
  "(nat \<Rightarrow> bool) \<Rightarrow> bytes \<Rightarrow> bool \<Rightarrow> nat \<Rightarrow> nat \<Rightarrow> rtp_output \<Rightarrow> (int \<times> rtp_output) option" where
  "fu_loop ok nal marker fu_payload off r =
     (if \<not> off < length nal then Some (0, r)
      else
        (let chunk = length nal - off;
             start = (off = 1);
             chunk = (if chunk > fu_payload then fu_payload else chunk);
             end = (off + chunk \<ge> length nal);
             ind = (nal ! 0 AND 0xe0) OR 28;
             hdr = nal ! 0 AND 0x1f;
             hdr = (if start then hdr OR 0x80 else hdr);
             hdr = (if end then hdr OR 0x40 else hdr)
         in Option.bind (c_write (rt_buf r) RTP_HEADER_SIZE [ind, hdr]) (\<lambda>buf.
            Option.bind (c_read nal off chunk) (\<lambda>body.
            Option.bind (c_write buf (RTP_HEADER_SIZE + 2) body) (\<lambda>buf.
            Option.bind (rtp_send_packet ok (Rtp_In_Buffer (chunk + 2)) (marker \<and> end) (r\<lparr>rt_buf := buf\<rparr>)) (\<lambda>x.
            (if fst x \<noteq> 0 then Some (- 1, snd x)
             else fu_loop ok nal marker fu_payload (off + chunk) (snd x))))))))"

definition rtp_send_nal ::
  "(nat \<Rightarrow> bool) \<Rightarrow> bytes \<Rightarrow> bool \<Rightarrow> rtp_output \<Rightarrow> (int \<times> rtp_output) option" where
  "rtp_send_nal ok nal marker r =
     (if nal = [] then Some (0, r)
      else if length nal \<le> rt_max_payload r then rtp_send_packet ok (Rtp_External nal) marker r
      else if rt_max_payload r \<le> 2 then Some (- 1, r)
      else fu_loop ok nal marker (rt_max_payload r - 2) 1 r)"

section \<open>Annex B\<close>

text \<open>The position and the length of the next start code; the loop stops before it leaves the data.\<close>

function h264_find_start_code :: "bytes \<Rightarrow> nat \<Rightarrow> (nat \<times> nat) option" where
  "h264_find_start_code data i =
     (if i + 3 \<le> length data then
        (if data ! i \<noteq> 0 \<or> data ! (i + 1) \<noteq> 0 then h264_find_start_code data (i + 1)
         else if data ! (i + 2) = 1 then Some (i, 3)
         else if i + 4 \<le> length data \<and> data ! (i + 2) = 0 \<and> data ! (i + 3) = 1 then Some (i, 4)
         else h264_find_start_code data (i + 1))
      else None)"
  by pat_completeness auto
termination by (relation "measure (\<lambda>(data, i). length data - i)") auto

declare h264_find_start_code.simps [simp del]

partial_function (option) count_nals :: "bytes \<Rightarrow> (nat \<times> nat) option \<Rightarrow> nat \<Rightarrow> nat option" where
  "count_nals data cur nal_count =
     (case cur of
        None \<Rightarrow> Some nal_count
      | Some (pos, prefix) \<Rightarrow>
          (let nal_start = pos + prefix;
               next = h264_find_start_code data nal_start;
               nal_end = (case next of Some (p, _) \<Rightarrow> p | None \<Rightarrow> length data)
           in count_nals data next (if nal_start < nal_end then nal_count + 1 else nal_count)))"

partial_function (option) send_nals ::
  "(nat \<Rightarrow> bool) \<Rightarrow> bytes \<Rightarrow> bool \<Rightarrow> nat \<Rightarrow> (nat \<times> nat) option \<Rightarrow> nat \<Rightarrow> rtp_output \<Rightarrow>
   (int \<times> rtp_output) option" where
  "send_nals ok data marker nal_count cur nal_idx r =
     (case cur of
        None \<Rightarrow> Some (0, r)
      | Some (pos, prefix) \<Rightarrow>
          (let nal_start = pos + prefix;
               next = h264_find_start_code data nal_start;
               nal_end = (case next of Some (p, _) \<Rightarrow> p | None \<Rightarrow> length data)
           in if nal_start < nal_end then
                (let nal_idx = nal_idx + 1 in
                 Option.bind (c_read data nal_start (nal_end - nal_start)) (\<lambda>nal.
                 Option.bind (rtp_send_nal ok nal (marker \<and> nal_idx = nal_count) r) (\<lambda>x.
                 (if fst x \<noteq> 0 then Some (- 1, snd x)
                  else send_nals ok data marker nal_count next nal_idx (snd x)))))
              else send_nals ok data marker nal_count next nal_idx r))"

definition rtp_send_annexb ::
  "(nat \<Rightarrow> bool) \<Rightarrow> bytes \<Rightarrow> bool \<Rightarrow> rtp_output \<Rightarrow> (int \<times> rtp_output) option" where
  "rtp_send_annexb ok data marker r =
     (let pos = h264_find_start_code data 0 in
      if pos = None then rtp_send_nal ok data marker r
      else do {
        nal_count \<leftarrow> count_nals data pos 0;
        send_nals ok data marker nal_count pos 0 r
      })"

text \<open>
  \<^verbatim>\<open>output_write\<close> to the RTP sink; to a file it is one \<^verbatim>\<open>fwrite\<close>.
\<close>

definition output_write_rtp ::
  "(nat \<Rightarrow> bool) \<Rightarrow> bytes \<Rightarrow> bool \<Rightarrow> rtp_output \<Rightarrow> (int \<times> rtp_output) option" where
  "output_write_rtp ok data end_of_frame r =
     (if data = [] then Some (0, r)
      else do {
        (ret, r) \<leftarrow> rtp_send_annexb ok data end_of_frame r;
        if ret \<noteq> 0 then Some (- 1, r)
        else Some (0, if end_of_frame then r\<lparr>rt_timestamp := rt_timestamp r + rt_timestamp_step r\<rparr> else r)
      })"

end
