(* ===== verification/Venc_Rtp_Spec.thy ===== *)
theory Venc_Rtp_Spec
  imports Venc_Rtp
begin

text \<open>
  What the RTP sender promises: a list of payloads with their markers, sent one after the other
  until a send fails, and the refinement of the sender to it, for any data and any failures.
\<close>

section \<open>The specification\<close>

fun send_spec :: "(nat \<Rightarrow> bool) \<Rightarrow> (bytes \<times> bool) list \<Rightarrow> rtp_output \<Rightarrow> int \<times> rtp_output" where
  "send_spec ok [] r = (0, r)"
| "send_spec ok ((pl, m) # ps) r =
     (let n = rt_calls r in
      if ok n then send_spec ok ps (r\<lparr>rt_calls := n + 1, rt_sent := rt_sent r @ [rtp_header r m @ pl],
                                      rt_seq := rt_seq r + 1\<rparr>)
      else (- 1, r\<lparr>rt_calls := n + 1\<rparr>))"

text \<open>The fragments (FU-A) of what is left of a NAL unit with the first byte \<open>b\<close>.\<close>

definition fu_head :: "u8 \<Rightarrow> bool \<Rightarrow> bool \<Rightarrow> bytes" where
  "fu_head b start end =
     [(b AND 0xe0) OR 28,
      (let hdr = b AND 0x1f; hdr = (if start then hdr OR 0x80 else hdr) in if end then hdr OR 0x40 else hdr)]"

function fu_payloads :: "nat \<Rightarrow> u8 \<Rightarrow> bool \<Rightarrow> bool \<Rightarrow> bytes \<Rightarrow> (bytes \<times> bool) list" where
  "fu_payloads f b start marker rest =
     (if rest = [] \<or> f = 0 then []
      else (fu_head b start (length rest \<le> f) @ take f rest, marker \<and> length rest \<le> f) #
           fu_payloads f b False marker (drop f rest))"
  by pat_completeness auto
termination by (relation "measure (\<lambda>(f, b, s, m, rest). length rest)") auto

declare fu_payloads.simps [simp del]

definition nal_payloads :: "nat \<Rightarrow> bytes \<Rightarrow> bool \<Rightarrow> (bytes \<times> bool) list" where
  "nal_payloads mx nal marker =
     (if nal = [] then []
      else if length nal \<le> mx then [(nal, marker)]
      else fu_payloads (mx - 2) (hd nal) True marker (tl nal))"

fun frame_payloads :: "nat \<Rightarrow> bytes list \<Rightarrow> bool \<Rightarrow> (bytes \<times> bool) list" where
  "frame_payloads mx [] marker = []"
| "frame_payloads mx (n # ns) marker = nal_payloads mx n (marker \<and> ns = []) @ frame_payloads mx ns marker"

text \<open>The non-empty NAL units of a buffer from a position behind a start code on.\<close>

lemma find_start_code_bounds:
  "h264_find_start_code data i = Some (p, k) \<Longrightarrow> i \<le> p \<and> 3 \<le> k \<and> p + k \<le> length data"
proof (induction "length data - i" arbitrary: i rule: less_induct)
  case less
  have rec: "i \<le> p \<and> 3 \<le> k \<and> p + k \<le> length data"
    if "h264_find_start_code data (i + 1) = Some (p, k)" "i + 3 \<le> length data"
  proof -
    have "length data - (i + 1) < length data - i" using that(2) by arith
    from less.hyps [OF this that(1)] show ?thesis by simp
  qed
  from less.prems rec show ?case
    by (subst (asm) h264_find_start_code.simps) (auto split: if_splits)
qed

function nals_from :: "bytes \<Rightarrow> nat \<Rightarrow> bytes list" where
  "nals_from data s =
     (case h264_find_start_code data s of
        None \<Rightarrow> if s < length data then [drop s data] else []
      | Some (p, k) \<Rightarrow> (if s < p then [take (p - s) (drop s data)] else []) @ nals_from data (p + k))"
  by pat_completeness auto
termination
proof (relation "measure (\<lambda>(data, s). length data - s)")
  fix data :: bytes and s :: nat and x :: "nat \<times> nat" and p k
  assume "h264_find_start_code data s = Some x" "(p, k) = x"
  with find_start_code_bounds [of data s p k]
  show "((data, p + k), data, s) \<in> measure (\<lambda>(data, s). length data - s)" by auto
qed simp

declare nals_from.simps [simp del]

definition annexb_nals :: "bytes \<Rightarrow> bytes list" where
  "annexb_nals data =
     (case h264_find_start_code data 0 of None \<Rightarrow> [data] | Some (p, k) \<Rightarrow> nals_from data (p + k))"

section \<open>The refinement\<close>

definition rtp_ok :: "rtp_output \<Rightarrow> bool" where
  "rtp_ok r \<longleftrightarrow> length (rt_buf r) = rt_mtu r \<and> 64 \<le> rt_mtu r \<and> rt_max_payload r = rt_mtu r - 12"

definition refines :: "(int \<times> rtp_output) option \<Rightarrow> int \<times> rtp_output \<Rightarrow> bool" where
  "refines x y \<longleftrightarrow> (\<exists>b. x = Some (fst y, (snd y)\<lparr>rt_buf := b\<rparr>) \<and> length b = rt_mtu (snd y))"

lemma length_rtp_header [simp]: "length (rtp_header r m) = 12"
  by (simp add: rtp_header_def)

lemma rtp_header_buf [simp]: "rtp_header (r\<lparr>rt_buf := b\<rparr>) m = rtp_header r m"
  by (simp add: rtp_header_def)

lemma buf_last:
  "r\<lparr>rt_buf := b, rt_calls := c\<rparr> = r\<lparr>rt_calls := c, rt_buf := b\<rparr>"
  "r\<lparr>rt_buf := b, rt_sent := t\<rparr> = r\<lparr>rt_sent := t, rt_buf := b\<rparr>"
  "r\<lparr>rt_buf := b, rt_seq := q\<rparr> = r\<lparr>rt_seq := q, rt_buf := b\<rparr>"
  by (cases r; simp)+

lemma buf_eq: "r\<lparr>rt_buf := b\<rparr> = r\<lparr>rt_buf := c\<rparr> \<longleftrightarrow> b = c"
  by (cases r) simp

lemma send_spec_buf:
  "send_spec ok ps (r\<lparr>rt_buf := b\<rparr>) = (fst (send_spec ok ps r), (snd (send_spec ok ps r))\<lparr>rt_buf := b\<rparr>)"
proof (induction ok ps r rule: send_spec.induct)
  case (2 ok pl m ps r)
  then show ?case by (cases "ok (rt_calls r)") (simp_all add: Let_def buf_last)
qed simp

lemma send_spec_mtu [simp]:
  "rt_mtu (snd (send_spec ok ps r)) = rt_mtu r \<and> rt_max_payload (snd (send_spec ok ps r)) = rt_max_payload r"
  by (induction ok ps r rule: send_spec.induct) (simp_all add: Let_def)

lemma send_spec_append:
  "send_spec ok (ps @ qs) r =
     (let x = send_spec ok ps r in if fst x \<noteq> 0 then x else send_spec ok qs (snd x))"
  by (induction ok ps r rule: send_spec.induct) (simp_all add: Let_def)

text \<open>One packet, from a buffer whose payload is already there or is copied in.\<close>

lemma send_packet_refines:
  assumes "rtp_ok r" and "length pl \<le> rt_max_payload r"
    and "p = Rtp_External pl \<or> p = Rtp_In_Buffer (length pl) \<and> take (length pl) (drop 12 (rt_buf r)) = pl"
  shows "refines (rtp_send_packet ok p m r) (send_spec ok [(pl, m)] r)"
proof -
  have len: "12 + length pl \<le> length (rt_buf r)" "length (rt_buf r) = rt_mtu r"
    using assms(1,2) by (auto simp: rtp_ok_def)
  then show ?thesis
    using assms(3) by (auto simp: rtp_send_packet_def refines_def RTP_HEADER_SIZE_def c_write_def c_read_def Let_def
        buf_last buf_eq)
qed

lemma refines_bind:
  assumes "refines x (send_spec ok ps r)" and "rtp_ok r"
    and "\<And>r'. rtp_ok r' \<Longrightarrow> fst (send_spec ok ps r) = 0 \<Longrightarrow> rt_mtu r' = rt_mtu r \<Longrightarrow> refines (g r') (send_spec ok qs r')"
  shows "refines (Option.bind x (\<lambda>x. if fst x \<noteq> 0 then Some (- 1, snd x) else g (snd x)))
    (send_spec ok (ps @ qs) r)"
proof -
  let ?y = "send_spec ok ps r"
  have neg: "fst ?y \<noteq> 0 \<Longrightarrow> fst ?y = - 1"
    by (induction ok ps r rule: send_spec.induct) (auto simp: Let_def split: if_splits)
  obtain b where b: "x = Some (fst ?y, (snd ?y)\<lparr>rt_buf := b\<rparr>)" "length b = rt_mtu r"
    using assms(1) by (auto simp: refines_def)
  show ?thesis
  proof (cases "fst ?y = 0")
    case True
    have "rtp_ok ((snd ?y)\<lparr>rt_buf := b\<rparr>)" using assms(2) b(2) by (simp add: rtp_ok_def)
    from assms(3) [OF this True] have "refines (g ((snd ?y)\<lparr>rt_buf := b\<rparr>)) (send_spec ok qs ((snd ?y)\<lparr>rt_buf := b\<rparr>))"
      by simp
    with b True show ?thesis by (simp add: send_spec_append send_spec_buf refines_def Let_def)
  next
    case False
    with neg b show ?thesis by (auto simp: send_spec_append refines_def Let_def)
  qed
qed

lemma fu_loop_refines:
  assumes "rtp_ok r" and "0 < f" and "f + 2 = rt_max_payload r" and "0 < off" and "nal \<noteq> []"
  shows "refines (fu_loop ok nal marker f off r)
    (send_spec ok (fu_payloads f (nal ! 0) (off = 1) marker (drop off nal)) r)"
  using assms(1,3,4)
proof (induction "length nal - off" arbitrary: off r rule: less_induct)
  case less
  show ?case
  proof (cases "off < length nal")
    case False
    then show ?thesis using less.prems(1)
      by (subst fu_loop.simps, subst fu_payloads.simps) (auto simp: refines_def rtp_ok_def intro!: exI [of _ "rt_buf r"])
  next
    case True
    define c where "c = (if length nal - off > f then f else length nal - off)"
    have c: "c \<le> f" "c \<le> length nal - off" "0 < c" "length nal - off \<le> f \<Longrightarrow> c = length nal - off"
      "\<not> length nal - off \<le> f \<Longrightarrow> c = f"
      using True assms(2) by (auto simp: c_def)
    let ?fin = "length nal - off \<le> f"
    let ?body = "take c (drop off nal)"
    let ?pl = "fu_head (nal ! 0) (off = 1) ?fin @ ?body"
    let ?buf = "take 12 (rt_buf r) @ ?pl @ drop (14 + c) (rt_buf r)"
    have buf: "length (rt_buf r) = rt_mtu r" "14 + c \<le> rt_mtu r"
      using less.prems(1,2) c by (auto simp: rtp_ok_def)
    have body: "length ?body = c" using c by simp
    have fl: "length (fu_head b s e) = 2" for b s e by (simp add: fu_head_def)
    have w1: "c_write (rt_buf r) 12 (fu_head (nal ! 0) (off = 1) ?fin) =
        Some (take 12 (rt_buf r) @ fu_head (nal ! 0) (off = 1) ?fin @ drop 14 (rt_buf r))"
      using buf fl by (simp add: c_write_def)
    have w2: "c_write (take 12 (rt_buf r) @ fu_head (nal ! 0) (off = 1) ?fin @ drop 14 (rt_buf r)) 14 ?body = Some ?buf"
      using buf fl body by (simp add: c_write_def add.commute)
    have rd: "c_read nal off c = Some ?body" using True c by (simp add: c_read_def)
    have ok': "rtp_ok (r\<lparr>rt_buf := ?buf\<rparr>)" using less.prems(1) buf fl body by (simp add: rtp_ok_def)
    have pay: "length ?pl = c + 2" using fl body by simp
    have pkt: "refines (rtp_send_packet ok (Rtp_In_Buffer (c + 2)) (marker \<and> ?fin) (r\<lparr>rt_buf := ?buf\<rparr>))
        (send_spec ok [(?pl, marker \<and> ?fin)] (r\<lparr>rt_buf := ?buf\<rparr>))"
    proof (rule send_packet_refines [OF ok'])
      show "length ?pl \<le> rt_max_payload (r\<lparr>rt_buf := ?buf\<rparr>)" using pay less.prems(2) c(1) by simp
      have "drop 12 ?buf = ?pl @ drop (14 + c) (rt_buf r)" using buf by simp
      moreover have "take (length xs) (xs @ ys) = xs" for xs ys :: bytes by simp
      ultimately have "take (length ?pl) (drop 12 ?buf) = ?pl" by (simp only:)
      then show "Rtp_In_Buffer (c + 2) = Rtp_External ?pl \<or> Rtp_In_Buffer (c + 2) = Rtp_In_Buffer (length ?pl) \<and>
          take (length ?pl) (drop 12 (rt_buf (r\<lparr>rt_buf := ?buf\<rparr>))) = ?pl"
        using pay by simp
    qed
    let ?tail = "fu_payloads f (nal ! 0) False marker (drop (off + c) nal)"
    have "refines (Option.bind (rtp_send_packet ok (Rtp_In_Buffer (c + 2)) (marker \<and> ?fin) (r\<lparr>rt_buf := ?buf\<rparr>))
        (\<lambda>x. if fst x \<noteq> 0 then Some (- 1, snd x) else fu_loop ok nal marker f (off + c) (snd x)))
        (send_spec ok ([(?pl, marker \<and> ?fin)] @ ?tail) (r\<lparr>rt_buf := ?buf\<rparr>))"
    proof (rule refines_bind [OF pkt ok'])
      fix r' assume r': "rtp_ok r'" "rt_mtu r' = rt_mtu (r\<lparr>rt_buf := ?buf\<rparr>)"
      have f: "f + 2 = rt_max_payload r'" using r' less.prems(1,2) by (simp add: rtp_ok_def)
      have lt: "length nal - (off + c) < length nal - off" and off: "0 < off + c" "(off + c = 1) = False"
        using True c(3) less.prems(3) by auto
      show "refines (fu_loop ok nal marker f (off + c) r') (send_spec ok ?tail r')"
        using less.hyps [OF lt r'(1) f off(1)] unfolding off(2) .
    qed
    moreover have "fu_payloads f (nal ! 0) (off = 1) marker (drop off nal) = [(?pl, marker \<and> ?fin)] @ ?tail"
      using True assms(2) c(4,5)
      by (subst fu_payloads.simps) (cases "length nal - off \<le> f", auto simp: add.commute)
    moreover have "fu_loop ok nal marker f off r =
        Option.bind (rtp_send_packet ok (Rtp_In_Buffer (c + 2)) (marker \<and> ?fin) (r\<lparr>rt_buf := ?buf\<rparr>))
        (\<lambda>x. if fst x \<noteq> 0 then Some (- 1, snd x) else fu_loop ok nal marker f (off + c) (snd x))"
    proof -
      have e: "(length nal \<le> off + c) = ?fin" using True c by auto
      show ?thesis
        using True w1 w2 rd
        by (subst fu_loop.simps)
          (simp add: c_def [symmetric] e Let_def RTP_HEADER_SIZE_def fu_head_def split del: if_split cong: if_cong)
    qed
    ultimately show ?thesis by (simp add: send_spec_buf refines_def)
  qed
qed

lemma send_nal_refines:
  assumes "rtp_ok r"
  shows "refines (rtp_send_nal ok nal marker r) (send_spec ok (nal_payloads (rt_max_payload r) nal marker) r)"
proof (cases "length nal \<le> rt_max_payload r")
  case True
  then show ?thesis
    using send_packet_refines [OF assms True, of "Rtp_External nal"] assms
    by (cases "nal = []") (auto simp: rtp_send_nal_def nal_payloads_def refines_def rtp_ok_def
        intro!: exI [of _ "rt_buf r"])
next
  case False
  then have ne: "nal \<noteq> []" by auto
  have mx: "2 < rt_max_payload r" using assms by (auto simp: rtp_ok_def)
  then have f: "0 < rt_max_payload r - 2" "rt_max_payload r - 2 + 2 = rt_max_payload r" by auto
  from fu_loop_refines [OF assms f _ ne, of 1 ok marker] show ?thesis
    using False ne mx by (simp add: rtp_send_nal_def nal_payloads_def hd_conv_nth drop_Suc)
qed

lemma nals_from_unfold:
  "nals_from data s =
     (let next = h264_find_start_code data s;
          e = (case next of Some (p, _) \<Rightarrow> p | None \<Rightarrow> length data)
      in (if s < e then [take (e - s) (drop s data)] else []) @
         (case next of None \<Rightarrow> [] | Some (p, k) \<Rightarrow> nals_from data (p + k)))"
  by (subst nals_from.simps) (auto split: option.split)

lemma count_nals_eq:
  "count_nals data (Some (pos, prefix)) n = Some (n + length (nals_from data (pos + prefix)))"
proof (induction "length data - (pos + prefix)" arbitrary: pos prefix n rule: less_induct)
  case less
  let ?s = "pos + prefix"
  show ?case
  proof (cases "h264_find_start_code data ?s")
    case None
    then show ?thesis
      by (subst count_nals.simps, subst nals_from.simps) (simp add: count_nals.simps Let_def)
  next
    case (Some x)
    then obtain p k where x: "h264_find_start_code data ?s = Some (p, k)" by (cases x) auto
    from find_start_code_bounds [OF x] have "length data - (p + k) < length data - ?s" by auto
    from less.hyps [OF this] x show ?thesis
      by (subst count_nals.simps, subst nals_from.simps) (simp add: Let_def)
  qed
qed

lemma send_nals_refines:
  assumes "rtp_ok r" and "count = idx + length (nals_from data (pos + prefix))"
  shows "refines (send_nals ok data marker count (Some (pos, prefix)) idx r)
    (send_spec ok (frame_payloads (rt_max_payload r) (nals_from data (pos + prefix)) marker) r)"
  using assms
proof (induction "length data - (pos + prefix)" arbitrary: pos prefix idx r rule: less_induct)
  case less
  let ?s = "pos + prefix"
  let ?next = "h264_find_start_code data ?s"
  let ?e = "case ?next of Some (p, _) \<Rightarrow> p | None \<Rightarrow> length data"
  let ?rest = "case ?next of None \<Rightarrow> [] | Some (p, k) \<Rightarrow> nals_from data (p + k)"
  have tail: "refines (send_nals ok data marker count ?next i r')
      (send_spec ok (frame_payloads (rt_max_payload r') ?rest marker) r')"
    if r': "rtp_ok r'" and i: "count = i + length ?rest" for i r'
  proof (cases ?next)
    case None
    then show ?thesis using r'
      by (auto simp: send_nals.simps refines_def rtp_ok_def intro!: exI [of _ "rt_buf r'"])
  next
    case (Some x)
    then obtain p k where x: "?next = Some (p, k)" by (cases x) auto
    from find_start_code_bounds [OF x] have "length data - (p + k) < length data - ?s" by auto
    from less.hyps [OF this r', of i] x i show ?thesis by simp
  qed
  show ?case
  proof (cases "?s < ?e")
    case False
    then have "nals_from data ?s = ?rest" by (simp add: nals_from_unfold [of data ?s] Let_def)
    with tail [OF less.prems(1), of idx] less.prems(2) False show ?thesis
      by (subst send_nals.simps) (simp add: Let_def)
  next
    case True
    let ?nal = "take (?e - ?s) (drop ?s data)"
    have ns: "nals_from data ?s = ?nal # ?rest" using True by (simp add: nals_from_unfold [of data ?s] Let_def)
    have e: "?e \<le> length data" using find_start_code_bounds [of data ?s] by (auto split: option.split)
    have rd: "c_read data ?s (?e - ?s) = Some ?nal" using True e by (simp add: c_read_def)
    have last: "(Suc idx = count) = (?rest = [])" using less.prems(2) by (simp add: ns)
    let ?m = "marker \<and> ?rest = []"
    have "refines (Option.bind (rtp_send_nal ok ?nal ?m r)
        (\<lambda>x. if fst x \<noteq> 0 then Some (- 1, snd x) else send_nals ok data marker count ?next (Suc idx) (snd x)))
        (send_spec ok (nal_payloads (rt_max_payload r) ?nal ?m @ frame_payloads (rt_max_payload r) ?rest marker) r)"
    proof (rule refines_bind [OF send_nal_refines [OF less.prems(1)] less.prems(1)])
      fix r' assume r': "rtp_ok r'" "rt_mtu r' = rt_mtu r"
      then have "rt_max_payload r' = rt_max_payload r" using less.prems(1) by (simp add: rtp_ok_def)
      with tail [OF r'(1), of "Suc idx"] less.prems(2) ns
      show "refines (send_nals ok data marker count ?next (Suc idx) r')
          (send_spec ok (frame_payloads (rt_max_payload r) ?rest marker) r')" by simp
    qed
    then show ?thesis
      by (subst send_nals.simps) (simp add: Let_def True rd last ns)
  qed
qed

text \<open>The sender refines the specification, for any data, marker and outcome of the sends.\<close>

lemma annexb_refines:
  assumes "rtp_ok r"
  shows "refines (rtp_send_annexb ok data marker r)
    (send_spec ok (frame_payloads (rt_max_payload r) (annexb_nals data) marker) r)"
proof (cases "h264_find_start_code data 0")
  case None
  then show ?thesis using send_nal_refines [OF assms, of ok data marker]
    by (simp add: rtp_send_annexb_def annexb_nals_def)
next
  case (Some x)
  then obtain p k where x: "h264_find_start_code data 0 = Some (p, k)" by (cases x) auto
  then show ?thesis
    using send_nals_refines [OF assms, of "length (nals_from data (p + k))" 0 data p k ok marker]
    by (simp add: rtp_send_annexb_def annexb_nals_def count_nals_eq)
qed

end
