(* ===== verification/Venc_Rtp_Recv.thy ===== *)
theory Venc_Rtp_Recv
  imports Venc_Rtp_Spec
begin

text \<open>
  The receiving side, as RFC 6184 states it for packetization mode 1, and the round trip: the NAL
  units of an Annex-B frame come out of the packets the sender makes of it. Also the bounds on the
  packets, for any data.
\<close>

section \<open>Start codes\<close>

definition start_at :: "bytes \<Rightarrow> nat option" where
  "start_at s = (if take 3 s = [0, 0, 1] then Some 3 else if take 4 s = [0, 0, 0, 1] then Some 4 else None)"

fun find_list :: "nat \<Rightarrow> bytes \<Rightarrow> (nat \<times> nat) option" where
  "find_list i [] = None"
| "find_list i (x # xs) = (case start_at (x # xs) of Some k \<Rightarrow> Some (i, k) | None \<Rightarrow> find_list (Suc i) xs)"

lemma take_three: "take 3 s = [a, b, c] \<longleftrightarrow> 3 \<le> length s \<and> s ! 0 = a \<and> s ! 1 = b \<and> s ! 2 = c"
  by (cases s; cases "tl s"; cases "tl (tl s)") (auto simp: numeral_3_eq_3)

lemma take_four:
  "take 4 s = [a, b, c, d] \<longleftrightarrow> 4 \<le> length s \<and> s ! 0 = a \<and> s ! 1 = b \<and> s ! 2 = c \<and> s ! 3 = d"
proof (cases s)
  case (Cons x t)
  then show ?thesis using take_three [of t b c d] by (auto simp: numeral_eq_Suc)
qed simp

lemma start_at_drop:
  assumes "i \<le> length data"
  shows "start_at (drop i data) =
    (if i + 3 \<le> length data then
       (if data ! i \<noteq> 0 \<or> data ! (i + 1) \<noteq> 0 then None
        else if data ! (i + 2) = 1 then Some 3
        else if i + 4 \<le> length data \<and> data ! (i + 2) = 0 \<and> data ! (i + 3) = 1 then Some 4 else None)
     else None)"
  unfolding start_at_def take_three take_four using assms by auto

lemma start_at_short: "length s < 3 \<Longrightarrow> start_at s = None"
  unfolding start_at_def take_three take_four by simp

lemma find_list_short: "length s < 3 \<Longrightarrow> find_list i s = None"
  by (induction i s rule: find_list.induct) (simp_all add: start_at_short)

lemma find_start_code_list:
  "i \<le> length data \<Longrightarrow> h264_find_start_code data i = find_list i (drop i data)"
proof (induction "length data - i" arbitrary: i rule: less_induct)
  case less
  show ?case
  proof (cases "i + 3 \<le> length data")
    case False
    then show ?thesis by (subst h264_find_start_code.simps) (simp add: find_list_short)
  next
    case True
    then have i: "i < length data" by simp
    have rec: "h264_find_start_code data (Suc i) = find_list (Suc i) (drop (Suc i) data)"
      using less.hyps [of "Suc i"] i by simp
    have "drop i data = data ! i # drop (Suc i) data" using i by (simp add: Cons_nth_drop_Suc)
    then have l: "find_list i (drop i data) =
        (case start_at (drop i data) of Some k \<Rightarrow> Some (i, k) | None \<Rightarrow> find_list (Suc i) (drop (Suc i) data))"
      by simp
    show ?thesis unfolding l start_at_drop [OF less_imp_le [OF i]]
      by (subst h264_find_start_code.simps) (simp add: True rec)
  qed
qed

text \<open>A NAL unit as an encoder emits it: it holds no start code and does not end in a zero byte.\<close>

fun no_start :: "bytes \<Rightarrow> bool" where
  "no_start (a # b # c # s) = (\<not> (a = 0 \<and> b = 0 \<and> c = 1) \<and> no_start (b # c # s))"
| "no_start s = True"

definition nal_ok :: "bytes \<Rightarrow> bool" where
  "nal_ok n \<longleftrightarrow> n \<noteq> [] \<and> last n \<noteq> 0 \<and> no_start n"

definition start_code :: "bool \<Rightarrow> bytes" where
  "start_code long = (if long then [0, 0, 0, 1] else [0, 0, 1])"

definition annexb :: "(bool \<times> bytes) list \<Rightarrow> bytes" where
  "annexb ns = concat (map (\<lambda>(long, n). start_code long @ n) ns)"

lemma start_in_nal: "nal_ok n \<Longrightarrow> start_at (n @ t) = None"
proof -
  assume n: "nal_ok n"
  consider a where "n = [a]" | a b where "n = [a, b]" | a b c where "n = [a, b, c]"
    | a b c d m where "n = a # b # c # d # m"
    using n unfolding nal_ok_def by (metis neq_Nil_conv)
  then show ?thesis using n by cases (auto simp: start_at_def nal_ok_def numeral_eq_Suc)
qed

lemma nal_ok_tl: "nal_ok (a # b # m) \<Longrightarrow> nal_ok (b # m)"
  by (cases m) (auto simp: nal_ok_def)

lemma find_skip_nal: "nal_ok n \<Longrightarrow> find_list i (n @ t) = find_list (i + length n) t"
proof (induction n arbitrary: i)
  case Nil
  then show ?case by (simp add: nal_ok_def)
next
  case (Cons a m)
  have "start_at (a # m @ t) = None" using start_in_nal [OF Cons.prems] by simp
  moreover have "find_list (Suc i) (m @ t) = find_list (Suc i + length m) t"
    using Cons.IH [of "Suc i"] nal_ok_tl Cons.prems by (cases m) auto
  ultimately show ?case by simp
qed

lemma find_start_code_at: "find_list i (start_code k @ t) = Some (i, length (start_code k))"
  by (simp add: start_code_def start_at_def)

lemma annexb_Cons: "annexb ((k, n) # ns) = start_code k @ n @ annexb ns"
  by (simp add: annexb_def)

lemma nals_from_annexb:
  assumes "list_all (\<lambda>x. nal_ok (snd x)) ((k, n) # ns)" and "data = pre @ n @ annexb ns"
  shows "nals_from data (length pre) = n # map snd ns"
  using assms
proof (induction ns arbitrary: k n pre)
  case Nil
  have "h264_find_start_code data (length pre) = None"
    using find_skip_nal [of n "length pre" "[]"] Nil by (simp add: find_start_code_list annexb_def)
  then show ?case using Nil by (subst nals_from.simps) (simp add: annexb_def nal_ok_def)
next
  case (Cons x ns)
  obtain k' n' where x: "x = (k', n')" by (cases x)
  have n: "nal_ok n" "n \<noteq> []" using Cons.prems(1) by (auto simp: nal_ok_def)
  have data: "data = (pre @ n @ start_code k') @ n' @ annexb ns"
    using Cons.prems(2) by (simp add: x annexb_Cons)
  have "find_list (length pre) (n @ annexb (x # ns)) = Some (length pre + length n, length (start_code k'))"
    using find_skip_nal [OF n(1)] find_start_code_at by (simp add: x annexb_Cons)
  then have f: "h264_find_start_code data (length pre) = Some (length pre + length n, length (start_code k'))"
    using Cons.prems(2) by (simp add: find_start_code_list)
  have "nals_from data (length (pre @ n @ start_code k')) = n' # map snd ns"
    using Cons.IH [of k' n' "pre @ n @ start_code k'"] Cons.prems(1) data by (simp add: x)
  then show ?case using f n(2) Cons.prems(2)
    by (subst nals_from.simps) (simp add: x add.assoc)
qed

lemma annexb_nals_annexb:
  assumes "list_all (\<lambda>x. nal_ok (snd x)) ns" and "ns \<noteq> []"
  shows "annexb_nals (annexb ns) = map snd ns"
proof -
  obtain k n ms where ns: "ns = (k, n) # ms" using assms(2) by (cases ns) auto
  have "h264_find_start_code (annexb ns) 0 = Some (0, length (start_code k))"
    using find_start_code_at [of 0 k "n @ annexb ms"] by (simp add: find_start_code_list ns annexb_Cons)
  with nals_from_annexb [of k n ms "annexb ns" "start_code k"] assms(1) show ?thesis
    by (simp add: annexb_nals_def ns annexb_Cons)
qed

section \<open>The receiver\<close>

text \<open>
  The payloads of the packets in sequence: a fragment (type 28) starts, continues or ends a NAL
  unit, every other payload is one. The state is the NAL units so far and the bytes of the open one.
\<close>

definition depay_step :: "bytes \<Rightarrow> bytes list \<times> bytes \<Rightarrow> bytes list \<times> bytes" where
  "depay_step pl x =
     (if 2 \<le> length pl \<and> pl ! 0 AND 0x1f = 28 then
        (let cur = (if pl ! 1 AND 0x80 \<noteq> 0 then [(pl ! 0 AND 0xe0) OR (pl ! 1 AND 0x1f)] else snd x) @ drop 2 pl
         in if pl ! 1 AND 0x40 \<noteq> 0 then (fst x @ [cur], []) else (fst x, cur))
      else (fst x @ [pl], snd x))"

definition depay :: "bytes list \<Rightarrow> bytes list \<times> bytes" where
  "depay pls = fold depay_step pls ([], [])"

lemma fu_head_fields:
  "fu_head b s e ! 0 AND 0x1f = 28"
  "fu_head b s e ! 1 AND 0x80 \<noteq> 0 \<longleftrightarrow> s" "fu_head b s e ! 1 AND 0x40 \<noteq> 0 \<longleftrightarrow> e"
  "(fu_head b s e ! 0 AND 0xe0) OR (fu_head b s e ! 1 AND 0x1f) = b"
proof -
  have d: "(x OR y) AND z = (x AND z) OR (y AND z)" "(x AND y) AND z = x AND (y AND z)" for x y z :: u8
    by (simp_all add: bit.conj_disj_distrib2 and.assoc)
  have b: "(b AND 0xe0) OR (b AND 0x1f) = b"
  proof -
    have "(b AND 0xe0) OR (b AND 0x1f) = b AND (0xe0 OR 0x1f)" by (simp only: bit.conj_disj_distrib)
    also have "(0xe0 OR 0x1f :: u8) = - 1" by simp
    finally show ?thesis by simp
  qed
  show "fu_head b s e ! 0 AND 0x1f = 28" by (simp add: fu_head_def d)
  show "fu_head b s e ! 1 AND 0x80 \<noteq> 0 \<longleftrightarrow> s" "fu_head b s e ! 1 AND 0x40 \<noteq> 0 \<longleftrightarrow> e"
    by (cases s; cases e; simp add: fu_head_def d)+
  show "(fu_head b s e ! 0 AND 0xe0) OR (fu_head b s e ! 1 AND 0x1f) = b"
    using b by (cases s; cases e) (simp_all add: fu_head_def d)
qed

lemma length_fu_head [simp]: "length (fu_head b s e) = 2"
  by (simp add: fu_head_def)

lemma depay_fu_step:
  "depay_step (fu_head b s e @ body) (ns, cur) =
     (let cur' = (if s then [b] else cur) @ body in if e then (ns @ [cur'], []) else (ns, cur'))"
proof -
  have n: "(fu_head b s e @ body) ! 0 = fu_head b s e ! 0" "(fu_head b s e @ body) ! 1 = fu_head b s e ! 1"
    by (simp_all add: nth_append)
  show ?thesis unfolding depay_step_def n
    using fu_head_fields [where b = b and s = s and e = e] by (cases s; cases e) (simp_all add: Let_def)
qed

lemma depay_fu:
  assumes "0 < f" and "rest \<noteq> []"
  shows "fold depay_step (map fst (fu_payloads f b s m rest)) (ns, cur) = (ns @ [(if s then [b] else cur) @ rest], [])"
  using assms(2)
proof (induction "length rest" arbitrary: rest s cur rule: less_induct)
  case less
  let ?c = "(if s then [b] else cur)"
  show ?case
  proof (cases "length rest \<le> f")
    case True
    then show ?thesis using less.prems assms(1)
      by (subst fu_payloads.simps) (simp add: depay_fu_step fu_payloads.simps [of f b False m "[]"])
  next
    case False
    then have d: "drop f rest \<noteq> []" "length (drop f rest) < length rest" using assms(1) by auto
    have "fold depay_step (map fst (fu_payloads f b s m rest)) (ns, cur) =
        fold depay_step (map fst (fu_payloads f b False m (drop f rest))) (ns, ?c @ take f rest)"
      using False less.prems assms(1) by (subst fu_payloads.simps) (simp add: depay_fu_step)
    also have "\<dots> = (ns @ [(?c @ take f rest) @ drop f rest], [])"
      using less.hyps [OF d(2,1), of False "?c @ take f rest"] by simp
    finally show ?thesis by simp
  qed
qed

definition single_ok :: "bytes \<Rightarrow> bool" where
  "single_ok n \<longleftrightarrow> n \<noteq> [] \<and> n ! 0 AND 0x1f \<noteq> 28"

lemma depay_nal:
  assumes "2 < mx" and "single_ok n"
  shows "fold depay_step (map fst (nal_payloads mx n m)) (ns, []) = (ns @ [n], [])"
proof (cases "length n \<le> mx")
  case True
  then show ?thesis using assms(2) by (simp add: nal_payloads_def single_ok_def depay_step_def)
next
  case False
  obtain b t where n: "n = b # t" "t \<noteq> []" using False assms by (cases n; cases "tl n") auto
  show ?thesis using depay_fu [of "mx - 2" t b True m ns "[]"] assms(1) False n
    by (simp add: nal_payloads_def)
qed

lemma depay_frame_from:
  assumes "2 < mx" and "list_all single_ok ns"
  shows "fold depay_step (map fst (frame_payloads mx ns m)) (pre, []) = (pre @ ns, [])"
  using assms(2)
proof (induction ns arbitrary: pre)
  case (Cons n ns)
  from depay_nal [OF assms(1), of n "m \<and> ns = []" pre] Cons show ?case by simp
qed simp

section \<open>Markers and sizes\<close>

lemma fu_markers:
  "rest \<noteq> [] \<Longrightarrow> 0 < f \<Longrightarrow>
   \<exists>k. map snd (fu_payloads f b s m rest) = replicate k False @ [m]"
proof (induction "length rest" arbitrary: rest s rule: less_induct)
  case less
  show ?case
  proof (cases "length rest \<le> f")
    case True
    then show ?thesis using less.prems
      by (intro exI [of _ 0]) (subst fu_payloads.simps, simp add: fu_payloads.simps [of f b False m "[]"])
  next
    case False
    then obtain k where "map snd (fu_payloads f b False m (drop f rest)) = replicate k False @ [m]"
      using less.hyps [of "drop f rest" False] less.prems by auto
    then show ?thesis using False less.prems
      by (intro exI [of _ "Suc k"]) (subst fu_payloads.simps, simp)
  qed
qed

lemma nal_markers:
  assumes "2 < mx" and "n \<noteq> []"
  shows "\<exists>k. map snd (nal_payloads mx n m) = replicate k False @ [m]"
proof (cases "length n \<le> mx")
  case True
  then show ?thesis using assms by (intro exI [of _ 0]) (simp add: nal_payloads_def)
next
  case False
  then have "tl n \<noteq> []" using assms by (cases n) auto
  with fu_markers [of "tl n" "mx - 2" "hd n" True m] assms False show ?thesis
    by (simp add: nal_payloads_def)
qed

lemma frame_markers:
  assumes "2 < mx" and "list_all (\<lambda>n. n \<noteq> []) ns" and "ns \<noteq> []"
  shows "\<exists>k. map snd (frame_payloads mx ns m) = replicate k False @ [m]"
  using assms(2,3)
proof (induction ns)
  case (Cons n ns)
  obtain k where k: "map snd (nal_payloads mx n (m \<and> ns = [])) = replicate k False @ [m \<and> ns = []]"
    using nal_markers [OF assms(1)] Cons.prems by auto
  show ?case
  proof (cases "ns = []")
    case True
    then show ?thesis using k by auto
  next
    case False
    then obtain j where "map snd (frame_payloads mx ns m) = replicate j False @ [m]" using Cons by auto
    with k False show ?thesis
      by (intro exI [of _ "k + 1 + j"]) (simp add: replicate_add replicate_app_Cons_same)
  qed
qed simp

lemma fu_sizes: "x \<in> set (fu_payloads f b s m rest) \<Longrightarrow> length (fst x) \<le> f + 2"
proof (induction f b s m rest rule: fu_payloads.induct)
  case (1 f b s m rest)
  show ?case
  proof (cases "rest = [] \<or> f = 0")
    case True
    with "1.prems" show ?thesis unfolding fu_payloads.simps [of f b s m rest] by simp
  next
    case False
    with "1.prems" "1.IH" [OF False] show ?thesis
      unfolding fu_payloads.simps [of f b s m rest] by auto
  qed
qed

lemma nal_sizes: "2 < mx \<Longrightarrow> x \<in> set (nal_payloads mx n m) \<Longrightarrow> length (fst x) \<le> mx"
  by (auto simp: nal_payloads_def dest: fu_sizes split: if_splits)

lemma frame_sizes: "2 < mx \<Longrightarrow> x \<in> set (frame_payloads mx ns m) \<Longrightarrow> length (fst x) \<le> mx"
  by (induction ns) (auto dest: nal_sizes)

section \<open>Runs of the specification\<close>

fun packets :: "rtp_output \<Rightarrow> u16 \<Rightarrow> (bytes \<times> bool) list \<Rightarrow> bytes list" where
  "packets r q [] = []"
| "packets r q ((pl, m) # ps) = (rtp_header (r\<lparr>rt_seq := q\<rparr>) m @ pl) # packets r (q + 1) ps"

lemma packets_frame:
  "rt_payload_type r' = rt_payload_type r \<Longrightarrow> rt_timestamp r' = rt_timestamp r \<Longrightarrow> rt_ssrc r' = rt_ssrc r \<Longrightarrow>
   packets r' q ps = packets r q ps"
  by (induction r q ps rule: packets.induct) (simp_all add: rtp_header_def)

lemma send_spec_all:
  assumes "\<And>n. ok n"
  shows "send_spec ok ps r = (0, r\<lparr>rt_calls := rt_calls r + length ps,
    rt_sent := rt_sent r @ packets r (rt_seq r) ps, rt_seq := rt_seq r + of_nat (length ps)\<rparr>)"
proof (induction ps arbitrary: r)
  case (Cons x ps)
  obtain pl m where x: "x = (pl, m)" by (cases x)
  let ?r = "r\<lparr>rt_calls := rt_calls r + 1, rt_sent := rt_sent r @ [rtp_header r m @ pl], rt_seq := rt_seq r + 1\<rparr>"
  have "packets ?r (rt_seq r + 1) ps = packets r (rt_seq r + 1) ps" by (rule packets_frame) simp_all
  then show ?case using Cons.IH [of ?r] assms by (simp add: x Let_def ac_simps)
qed simp

lemma packets_nth:
  "i < length ps \<Longrightarrow> packets r q ps ! i = rtp_header (r\<lparr>rt_seq := q + of_nat i\<rparr>) (snd (ps ! i)) @ fst (ps ! i)"
proof (induction r q ps arbitrary: i rule: packets.induct)
  case (2 r q pl m ps)
  then show ?case by (cases i) (simp_all add: ac_simps)
qed simp

lemma length_packets [simp]: "length (packets r q ps) = length ps"
  by (induction r q ps rule: packets.induct) simp_all

lemma map_drop_packets [simp]: "map (drop 12) (packets r q ps) = map fst ps"
  by (induction r q ps rule: packets.induct) simp_all

lemma send_spec_sent:
  assumes "\<forall>x \<in> set ps. length (fst x) \<le> k"
  shows "\<exists>new. rt_sent (snd (send_spec ok ps r)) = rt_sent r @ new \<and> (\<forall>p \<in> set new. length p \<le> 12 + k)"
  using assms
proof (induction ok ps r rule: send_spec.induct)
  case (2 ok pl m ps r)
  then show ?case by (auto simp: Let_def)
qed simp

end
