(* ===== verification/Venc_Config.thy ===== *)
theory Venc_Config
  imports Venc_Rtp
begin

text \<open>
  The command line of \<^verbatim>\<open>omega4-vencd\<close> (\<^verbatim>\<open>parse_u32\<close>,
  \<^verbatim>\<open>parse_rc_mode\<close>, \<^verbatim>\<open>parse_args\<close>), the destination of the RTP stream
  (\<^verbatim>\<open>parse_rtp_dest\<close>) and the opening of the RTP output (\<^verbatim>\<open>rtp_open\<close>,
  \<^verbatim>\<open>rtp_close\<close>). \<^verbatim>\<open>exit (n)\<close> is the value \<open>Inl n\<close>; the usage text and the
  messages are not modelled. The rate-control modes are named as in the encoder library; the format
  number 0 is the default that the usage text gives.
\<close>

unbundle bit_operations_syntax

section \<open>Configuration\<close>

datatype rc_mode = RC_VBR | RC_CBR | RC_FIXQP | RC_AVBR | RC_SMTRC

definition DEFAULT_CAMERA_BUFFERS :: u32 where "DEFAULT_CAMERA_BUFFERS = 4"
definition MIN_CAMERA_BUFFERS :: u32 where "MIN_CAMERA_BUFFERS = 2"
definition MAX_CAMERA_BUFFERS :: u32 where "MAX_CAMERA_BUFFERS = 10"
definition RTP_DEFAULT_PAYLOAD_TYPE :: u32 where "RTP_DEFAULT_PAYLOAD_TYPE = 96"
definition RTP_DEFAULT_MTU :: u32 where "RTP_DEFAULT_MTU = 1200"
definition RTP_MIN_MTU :: u32 where "RTP_MIN_MTU = 64"

record venc_config =
  vc_device :: string
  vc_output :: string
  vc_width :: u32
  vc_height :: u32
  vc_format :: u32
  vc_frames :: u32
  vc_fps :: u32
  vc_gop :: u32
  vc_bitrate :: u32
  vc_bitrate_min :: u32
  vc_bitrate_max :: u32
  vc_rc_mode :: rc_mode
  vc_skip_frames :: u32
  vc_camera_buffers :: u32
  vc_rtp_dest :: "string option"
  vc_rtp_payload_type :: u32
  vc_rtp_mtu :: u32
  vc_dry_run :: bool

definition parse_u32 :: "string \<Rightarrow> int + u32" where
  "parse_u32 value =
     (let (v, end, err) = strtoul0 value in
      if err \<or> value = [] \<or> end \<noteq> [] \<or> v > 0xffffffff then Inl 1 else Inr (of_nat v))"

definition parse_rc_mode :: "string \<Rightarrow> int + rc_mode" where
  "parse_rc_mode value =
     (if value = ''vbr'' \<or> value = ''VBR'' \<or> value = ''0'' then Inr RC_VBR
      else if value = ''cbr'' \<or> value = ''CBR'' \<or> value = ''1'' then Inr RC_CBR
      else if value = ''fixqp'' \<or> value = ''FIXQP'' \<or> value = ''2'' then Inr RC_FIXQP
      else if value = ''avbr'' \<or> value = ''AVBR'' \<or> value = ''3'' then Inr RC_AVBR
      else if value = ''smtrc'' \<or> value = ''SMTRC'' \<or> value = ''4'' then Inr RC_SMTRC
      else Inl 1)"

definition venc_defaults :: venc_config where
  "venc_defaults = \<lparr>vc_device = ''/dev/video7'', vc_output = ''-'', vc_width = 640, vc_height = 480,
     vc_format = 0, vc_frames = 0, vc_fps = 30, vc_gop = 60, vc_bitrate = 0, vc_bitrate_min = 0,
     vc_bitrate_max = 0, vc_rc_mode = RC_VBR, vc_skip_frames = 50,
     vc_camera_buffers = DEFAULT_CAMERA_BUFFERS, vc_rtp_dest = None,
     vc_rtp_payload_type = RTP_DEFAULT_PAYLOAD_TYPE, vc_rtp_mtu = RTP_DEFAULT_MTU, vc_dry_run = False\<rparr>"

text \<open>The options with a value, in the order of the comparisons, and what their value does.\<close>

datatype venc_opt =
  O_Device | O_Width | O_Height | O_Format | O_Codec | O_Frames | O_Fps | O_Gop | O_Bitrate
| O_Bitrate_Min | O_Bitrate_Max | O_Rc | O_Skip | O_Buffers | O_Output | O_Rtp_Dest
| O_Rtp_Payload_Type | O_Rtp_Mtu

definition long_opt :: "string \<Rightarrow> string \<Rightarrow> bool" where
  "long_opt name arg \<longleftrightarrow> arg = name \<or> take (length name + 1) arg = name @ ''=''"

definition venc_option :: "string \<Rightarrow> venc_opt option" where
  "venc_option arg =
     (if arg = ''-d'' \<or> long_opt ''--device'' arg then Some O_Device
      else if arg = ''-W'' \<or> long_opt ''--width'' arg then Some O_Width
      else if arg = ''-H'' \<or> long_opt ''--height'' arg then Some O_Height
      else if arg = ''-f'' \<or> long_opt ''--format'' arg then Some O_Format
      else if arg = ''-c'' \<or> long_opt ''--codec'' arg then Some O_Codec
      else if arg = ''-n'' \<or> long_opt ''--frames'' arg then Some O_Frames
      else if arg = ''-r'' \<or> long_opt ''--fps'' arg then Some O_Fps
      else if arg = ''-g'' \<or> long_opt ''--gop'' arg then Some O_Gop
      else if arg = ''-b'' \<or> long_opt ''--bitrate'' arg then Some O_Bitrate
      else if long_opt ''--bitrate-min'' arg then Some O_Bitrate_Min
      else if long_opt ''--bitrate-max'' arg then Some O_Bitrate_Max
      else if long_opt ''--rc'' arg then Some O_Rc
      else if long_opt ''--skip'' arg then Some O_Skip
      else if long_opt ''--buffers'' arg then Some O_Buffers
      else if arg = ''-o'' \<or> long_opt ''--output'' arg then Some O_Output
      else if long_opt ''--rtp-dest'' arg then Some O_Rtp_Dest
      else if long_opt ''--rtp-payload-type'' arg then Some O_Rtp_Payload_Type
      else if long_opt ''--rtp-mtu'' arg then Some O_Rtp_Mtu
      else None)"

definition with_u32 :: "string \<Rightarrow> (u32 \<Rightarrow> venc_config) \<Rightarrow> int + venc_config" where
  "with_u32 val set_to = (case parse_u32 val of Inl e \<Rightarrow> Inl e | Inr v \<Rightarrow> Inr (set_to v))"

fun venc_apply :: "venc_opt \<Rightarrow> string \<Rightarrow> venc_config \<Rightarrow> int + venc_config" where
  "venc_apply O_Device val cfg = Inr (cfg\<lparr>vc_device := val\<rparr>)"
| "venc_apply O_Width val cfg = with_u32 val (\<lambda>v. cfg\<lparr>vc_width := v\<rparr>)"
| "venc_apply O_Height val cfg = with_u32 val (\<lambda>v. cfg\<lparr>vc_height := v\<rparr>)"
| "venc_apply O_Format val cfg = with_u32 val (\<lambda>v. cfg\<lparr>vc_format := v\<rparr>)"
| "venc_apply O_Codec val cfg = (if val \<noteq> ''h264'' \<and> val \<noteq> ''H264'' then Inl 1 else Inr cfg)"
| "venc_apply O_Frames val cfg = with_u32 val (\<lambda>v. cfg\<lparr>vc_frames := v\<rparr>)"
| "venc_apply O_Fps val cfg = with_u32 val (\<lambda>v. cfg\<lparr>vc_fps := v\<rparr>)"
| "venc_apply O_Gop val cfg = with_u32 val (\<lambda>v. cfg\<lparr>vc_gop := v\<rparr>)"
| "venc_apply O_Bitrate val cfg = with_u32 val (\<lambda>v. cfg\<lparr>vc_bitrate := v\<rparr>)"
| "venc_apply O_Bitrate_Min val cfg = with_u32 val (\<lambda>v. cfg\<lparr>vc_bitrate_min := v\<rparr>)"
| "venc_apply O_Bitrate_Max val cfg = with_u32 val (\<lambda>v. cfg\<lparr>vc_bitrate_max := v\<rparr>)"
| "venc_apply O_Rc val cfg =
     (case parse_rc_mode val of Inl e \<Rightarrow> Inl e | Inr v \<Rightarrow> Inr (cfg\<lparr>vc_rc_mode := v\<rparr>))"
| "venc_apply O_Skip val cfg = with_u32 val (\<lambda>v. cfg\<lparr>vc_skip_frames := v\<rparr>)"
| "venc_apply O_Buffers val cfg = with_u32 val (\<lambda>v. cfg\<lparr>vc_camera_buffers := v\<rparr>)"
| "venc_apply O_Output val cfg = Inr (cfg\<lparr>vc_output := val\<rparr>)"
| "venc_apply O_Rtp_Dest val cfg = Inr (cfg\<lparr>vc_rtp_dest := Some val\<rparr>)"
| "venc_apply O_Rtp_Payload_Type val cfg = with_u32 val (\<lambda>v. cfg\<lparr>vc_rtp_payload_type := v\<rparr>)"
| "venc_apply O_Rtp_Mtu val cfg = with_u32 val (\<lambda>v. cfg\<lparr>vc_rtp_mtu := v\<rparr>)"

definition venc_value :: "string \<Rightarrow> string list \<Rightarrow> string option" where
  "venc_value arg rest =
     (if take 2 arg = ''--'' \<and> CHR ''='' \<in> set arg then map_option snd (split_first (CHR ''='') arg)
      else case rest of v # _ \<Rightarrow> Some v | [] \<Rightarrow> None)"

function venc_parse_loop :: "string list \<Rightarrow> venc_config \<Rightarrow> int + venc_config" where
  "venc_parse_loop [] cfg = Inr cfg"
| "venc_parse_loop (arg # rest) cfg =
     (if arg = ''-h'' \<or> arg = ''--help'' then Inl 0
      else if arg = ''--dry-run'' then venc_parse_loop rest (cfg\<lparr>vc_dry_run := True\<rparr>)
      else
        (case venc_option arg of
           None \<Rightarrow> Inl 1
         | Some opt \<Rightarrow>
             (case venc_value arg rest of
                None \<Rightarrow> Inl 1
              | Some val \<Rightarrow>
                  (case venc_apply opt val cfg of
                     Inl e \<Rightarrow> Inl e
                   | Inr cfg \<Rightarrow>
                       venc_parse_loop (if CHR ''='' \<in> set arg then rest else tl rest) cfg))))"
  by pat_completeness auto
termination by (relation "measure (\<lambda>(args, cfg). length args)") auto

definition venc_complete :: "venc_config \<Rightarrow> venc_config" where
  "venc_complete cfg =
     (let cfg = (if vc_fps cfg = 0 then cfg\<lparr>vc_fps := 30\<rparr> else cfg);
          cfg = (if vc_gop cfg = 0 then cfg\<lparr>vc_gop := vc_fps cfg * 2\<rparr> else cfg);
          cfg = (if vc_bitrate cfg = 0
                 then cfg\<lparr>vc_bitrate := vc_width cfg * vc_height cfg div 8 * vc_fps cfg\<rparr> else cfg);
          cfg = (if vc_bitrate_min cfg = 0 then
                   (if vc_rc_mode cfg = RC_VBR \<or> vc_rc_mode cfg = RC_AVBR \<or> vc_rc_mode cfg = RC_SMTRC
                    then cfg\<lparr>vc_bitrate_min := vc_bitrate cfg div 16\<rparr>
                    else cfg\<lparr>vc_bitrate_min := vc_bitrate cfg * 15 div 16\<rparr>)
                 else cfg)
      in if vc_bitrate_max cfg = 0 then cfg\<lparr>vc_bitrate_max := vc_bitrate cfg * 17 div 16\<rparr> else cfg)"

definition venc_parse_args :: "string list \<Rightarrow> int + venc_config" where
  "venc_parse_args args =
     (case venc_parse_loop args venc_defaults of
        Inl e \<Rightarrow> Inl e
      | Inr cfg \<Rightarrow>
          (let cfg = venc_complete cfg in
           if vc_rtp_payload_type cfg > 127 then Inl 1
           else if vc_rtp_mtu cfg < RTP_MIN_MTU \<or> vc_rtp_mtu cfg > 65507 then Inl 1
           else if vc_camera_buffers cfg < MIN_CAMERA_BUFFERS \<or> vc_camera_buffers cfg > MAX_CAMERA_BUFFERS
           then Inl 1
           else Inr cfg))"

section \<open>Opening the RTP output\<close>

text \<open>The host and the service; \<open>None\<close> is a refusal, also when a copy cannot be allocated.\<close>

definition parse_rtp_dest :: "bool \<Rightarrow> string \<Rightarrow> (string \<times> string) option" where
  "parse_rtp_dest alloc_ok dest =
     (if dest = [] then None
      else if hd dest = CHR ''['' then
        (case split_first (CHR '']'') dest of
           None \<Rightarrow> None
         | Some (a, b) \<Rightarrow>
             (case b of
                c # svc \<Rightarrow> if c \<noteq> CHR '':'' \<or> svc = [] then None
                            else if alloc_ok then Some (tl a, svc) else None
              | [] \<Rightarrow> None))
      else
        (case split_last (CHR '':'') dest of
           None \<Rightarrow> None
         | Some (host, svc) \<Rightarrow>
             if host = [] \<or> svc = [] then None
             else if alloc_ok then Some (host, svc) else None))"

text \<open>
  What the system answers while the output is opened: the allocations, the three random numbers,
  the addresses of a host and service (\<open>Inl\<close> an error of the resolver), and for each address
  whether a socket can be made.
\<close>

record rtp_env =
  re_alloc :: bool
  re_buf :: bool
  re_strdup :: bool
  re_random :: "nat \<Rightarrow> u32"
  re_resolve :: "string \<Rightarrow> string \<Rightarrow> int + bool list"

record rtp_ledger =
  rl_fds :: nat
  rl_addrinfo :: nat
  rl_allocs :: nat

definition rtp_init :: "rtp_env \<Rightarrow> venc_config \<Rightarrow> rtp_output" where
  "rtp_init env cfg =
     \<lparr>rt_buf = replicate (unat (vc_rtp_mtu cfg)) 0, rt_mtu = unat (vc_rtp_mtu cfg),
      rt_max_payload = unat (vc_rtp_mtu cfg - of_nat RTP_HEADER_SIZE),
      rt_payload_type = vc_rtp_payload_type cfg, rt_seq = ucast (re_random env 0),
      rt_timestamp = re_random env 1, rt_timestamp_step = RTP_CLOCK_RATE div vc_fps cfg,
      rt_ssrc = re_random env 2, rt_calls = 0, rt_sent = []\<rparr>"

text \<open>The error exit releases what was acquired: address list, socket, buffer and the output itself.\<close>

definition rtp_open :: "rtp_env \<Rightarrow> venc_config \<Rightarrow> string \<Rightarrow> rtp_ledger \<Rightarrow> rtp_output option \<times> rtp_ledger" where
  "rtp_open env cfg dest l =
     (if \<not> re_alloc env then (None, l)
      else
        (let l = l\<lparr>rl_allocs := rl_allocs l + 1\<rparr>; rtp = rtp_init env cfg in
         if \<not> re_buf env then (None, l\<lparr>rl_allocs := rl_allocs l - 1\<rparr>)
         else
           (let l = l\<lparr>rl_allocs := rl_allocs l + 1\<rparr> in
            case parse_rtp_dest (re_strdup env) dest of
              None \<Rightarrow> (None, l\<lparr>rl_allocs := rl_allocs l - 2\<rparr>)
            | Some (host, svc) \<Rightarrow>
                (let l = l\<lparr>rl_allocs := rl_allocs l + 2\<rparr> in
                 case re_resolve env host svc of
                   Inl _ \<Rightarrow> (None, l\<lparr>rl_allocs := rl_allocs l - 4\<rparr>)
                 | Inr socks \<Rightarrow>
                     (let l = l\<lparr>rl_addrinfo := rl_addrinfo l + 1\<rparr> in
                      if \<not> list_ex id socks
                      then (None, l\<lparr>rl_addrinfo := rl_addrinfo l - 1, rl_allocs := rl_allocs l - 4\<rparr>)
                      else
                        (let l = l\<lparr>rl_fds := rl_fds l + 1\<rparr>
                         in (Some rtp, l\<lparr>rl_addrinfo := rl_addrinfo l - 1,
                                         rl_allocs := rl_allocs l - 2\<rparr>)))))))"

definition rtp_close :: "rtp_ledger \<Rightarrow> rtp_ledger" where
  "rtp_close l = l\<lparr>rl_fds := rl_fds l - 1, rl_allocs := rl_allocs l - 2\<rparr>"

section \<open>Facts\<close>

lemma rtp_open_balance:
  assumes "rtp_open env cfg dest l = (r, l')"
  shows "(r = None \<longrightarrow> l' = l) \<and> (r \<noteq> None \<longrightarrow> rtp_close l' = l \<and> r = Some (rtp_init env cfg))"
  using assms
  by (cases l) (auto simp: rtp_open_def rtp_close_def Let_def split: if_splits option.splits sum.splits)

lemma parse_rtp_dest_plain:
  assumes "host \<noteq> []" and "svc \<noteq> []" and "hd host \<noteq> CHR ''[''" and "CHR '':'' \<notin> set svc"
  shows "parse_rtp_dest True (host @ '':'' @ svc) = Some (host, svc)"
  using assms split_last_append [OF assms(4), of host] by (simp add: parse_rtp_dest_def)

lemma parse_rtp_dest_bracket:
  assumes "svc \<noteq> []" and "CHR '']'' \<notin> set host"
  shows "parse_rtp_dest True (''['' @ host @ '']:'' @ svc) = Some (host, svc)"
  using assms split_first_append [of "CHR '']''" "CHR ''['' # host" "CHR '':'' # svc"]
  by (simp add: parse_rtp_dest_def)

text \<open>The derived bit rates, and when their multiplication wraps.\<close>

lemma scale17:
  fixes b :: u32
  shows "b \<le> b * 17 div 16 \<longleftrightarrow> unat b * 17 < 2 ^ 32"
proof -
  have m: "unat (b * 17) = unat b * 17 mod 2 ^ 32"
    by (simp add: unat_word_ariths)
  have e: "b \<le> b * 17 div 16 \<longleftrightarrow> unat b \<le> unat b * 17 mod 2 ^ 32 div 16"
    by (simp add: word_le_nat_alt unat_div_distrib m)
  have lt: "unat b < 2 ^ 32" using unsigned_less [of b] by simp
  show ?thesis
  proof (cases "unat b * 17 < 2 ^ 32")
    case True
    then show ?thesis unfolding e by simp
  next
    case False
    define q where "q = unat b * 17 div 2 ^ 32"
    have q: "1 \<le> q" using False by (simp add: q_def Suc_le_eq div_greater_zero_iff)
    have s: "unat b * 17 = q * 2 ^ 32 + unat b * 17 mod 2 ^ 32"
      by (simp add: q_def)
    have "\<not> unat b \<le> unat b * 17 mod 2 ^ 32 div 16"
    proof
      assume "unat b \<le> unat b * 17 mod 2 ^ 32 div 16"
      then have "unat b * 16 \<le> unat b * 17 mod 2 ^ 32" by simp
      with s have "q * 2 ^ 32 \<le> unat b" by linarith
      with q lt show False by (cases q) auto
    qed
    with False show ?thesis unfolding e by simp
  qed
qed

lemma scale15:
  fixes b :: u32
  assumes "unat b * 17 < 2 ^ 32"
  shows "b * 15 div 16 \<le> b" and "b div 16 \<le> b"
proof -
  have "unat (b * 15) = unat b * 15" using assms by (simp add: unat_word_ariths)
  then show "b * 15 div 16 \<le> b" by (simp add: word_le_nat_alt unat_div_distrib)
  show "b div 16 \<le> b" by (simp add: word_le_nat_alt unat_div_distrib)
qed

end
