(* ===== verification/Venc_Camera.thy ===== *)
theory Venc_Camera
  imports Venc_Config
begin

text \<open>
  The camera of \<^verbatim>\<open>omega4-vencd\<close>: \<^verbatim>\<open>xioctl\<close>,
  \<^verbatim>\<open>camera_open\<close>, \<^verbatim>\<open>camera_close\<close>,
  \<^verbatim>\<open>camera_get_frame\<close> and \<^verbatim>\<open>camera_put_frame\<close>. What the driver answers is a
  parameter; a ledger counts what the process holds (integers, so that a double release shows).
  An index outside the array of frames is undefined.
\<close>

unbundle bit_operations_syntax

section \<open>ioctl\<close>

datatype ioctl_result = Io_Ok | Io_Intr | Io_Again | Io_Err

text \<open>The calls are numbered; the loop ends with the first answer that is no reason to try again.\<close>

partial_function (option) xioctl :: "(nat \<Rightarrow> ioctl_result) \<Rightarrow> nat \<Rightarrow> (bool \<times> nat) option" where
  "xioctl io n =
     (case io n of
        Io_Ok \<Rightarrow> Some (True, n + 1)
      | Io_Err \<Rightarrow> Some (False, n + 1)
      | _ \<Rightarrow> xioctl io (n + 1))"

definition io_retry :: "ioctl_result \<Rightarrow> bool" where
  "io_retry r \<longleftrightarrow> r = Io_Intr \<or> r = Io_Again"

lemma xioctl_retries:
  assumes "\<forall>i < k. io_retry (io (n + i))" and "\<not> io_retry (io (n + k))"
  shows "xioctl io n = Some (io (n + k) = Io_Ok, n + k + 1)"
  using assms
proof (induction k arbitrary: n)
  case 0
  then show ?case by (subst xioctl.simps) (simp add: io_retry_def split: ioctl_result.split)
next
  case (Suc k)
  have r: "io_retry (io n)" using Suc.prems(1) by force
  have "\<forall>i < k. io_retry (io (Suc n + i))" using Suc.prems(1) by force
  then have "xioctl io (Suc n) = Some (io (Suc n + k) = Io_Ok, Suc n + k + 1)"
    using Suc.IH [of "Suc n"] Suc.prems(2) by simp
  with r show ?case by (subst xioctl.simps) (auto simp: io_retry_def)
qed

lemma xioctl_returns: "\<not> io_retry (io (n + k)) \<Longrightarrow> xioctl io n \<noteq> None"
proof -
  assume k: "\<not> io_retry (io (n + k))"
  define j where "j = (LEAST k. \<not> io_retry (io (n + k)))"
  have "\<not> io_retry (io (n + j))" unfolding j_def using k by (rule LeastI)
  moreover have "\<forall>i < j. io_retry (io (n + i))" unfolding j_def using not_less_Least by blast
  ultimately show ?thesis using xioctl_retries by fastforce
qed

section \<open>The camera\<close>

definition FRAME_SLOTS :: nat where "FRAME_SLOTS = 10"

datatype pixfmt = NV12 | NV16 | YVU420 | NV21 | YUV422P | NV61 | YUYV | YVYU | UYVY | VYUY | GREY

definition v4l2_yuv_cfg :: "pixfmt option list" where
  "v4l2_yuv_cfg = [Some NV12, None, Some NV16, None, Some YVU420, Some NV21, Some YUV422P, Some NV61,
     Some YUYV, Some YVYU, Some UYVY, Some VYUY, Some GREY]"

definition pixfmt_of :: "u32 \<Rightarrow> u32 \<Rightarrow> pixfmt" where
  "pixfmt_of yuv_base fmt =
     (if fmt \<ge> yuv_base \<and> unat (fmt - yuv_base) < length v4l2_yuv_cfg
      then case v4l2_yuv_cfg ! unat (fmt - yuv_base) of Some p \<Rightarrow> p | None \<Rightarrow> NV12
      else NV12)"

datatype map_state = Unmapped | Map_Failed | Mapped

record camera_frame =
  cf_start :: map_state
  cf_export :: bool
  cf_buffer :: bool

record camera =
  cam_fd :: bool
  cam_bufcnt :: nat
  cam_mplane :: bool
  cam_frames :: "camera_frame list"

record cam_ledger =
  cl_mem :: int
  cl_fds :: int
  cl_maps :: int
  cl_bufs :: int

text \<open>The answers of one run of \<^verbatim>\<open>camera_open\<close>.\<close>

record cam_env =
  ce_alloc :: bool
  ce_open :: bool
  ce_querycap :: "(bool \<times> bool) option"
  ce_s_fmt :: "bool \<Rightarrow> u32 \<times> u32 \<times> pixfmt \<Rightarrow> bool"
  ce_g_fmt :: bool
  ce_reqbufs :: "u32 \<Rightarrow> u32 option"
  ce_querybuf :: "nat \<Rightarrow> u32 option"
  ce_mmap :: "nat \<Rightarrow> u32 \<Rightarrow> bool"
  ce_expbuf :: "nat \<Rightarrow> bool"
  ce_import :: "nat \<Rightarrow> u32 \<times> u32 \<Rightarrow> bool"
  ce_qbuf :: "nat \<Rightarrow> bool"
  ce_streamon :: bool

definition empty_frame :: camera_frame where
  "empty_frame = \<lparr>cf_start = Unmapped, cf_export = False, cf_buffer = False\<rparr>"

definition release_frame :: "camera_frame \<Rightarrow> cam_ledger \<Rightarrow> cam_ledger" where
  "release_frame f l =
     (let l = (if cf_buffer f then l\<lparr>cl_bufs := cl_bufs l - 1\<rparr> else l);
          l = (if cf_start f = Mapped then l\<lparr>cl_maps := cl_maps l - 1\<rparr> else l)
      in if cf_export f then l\<lparr>cl_fds := cl_fds l - 1\<rparr> else l)"

definition camera_close :: "camera \<Rightarrow> cam_ledger \<Rightarrow> cam_ledger option" where
  "camera_close c l =
     (if cam_fd c then do {
        fs \<leftarrow> c_read (cam_frames c) 0 (cam_bufcnt c);
        (let l = fold release_frame fs l;
             l = l\<lparr>cl_fds := cl_fds l - 1\<rparr>
         in Some (l\<lparr>cl_mem := cl_mem l - 1\<rparr>))
      }
      else Some (l\<lparr>cl_mem := cl_mem l - 1\<rparr>))"

text \<open>The size and the index that the import encodes the length in.\<close>

definition import_info :: "u32 \<Rightarrow> u32 \<times> u32" where
  "import_info len = (len AND 0x07ffffff, drop_bit 27 (len AND 0xf8000000))"

definition map_buffer :: "cam_env \<Rightarrow> nat \<Rightarrow> camera \<times> cam_ledger \<Rightarrow> (bool \<times> camera \<times> cam_ledger) option" where
  "map_buffer env i x =
     (case x of (c, l) \<Rightarrow>
       (case ce_querybuf env i of
          None \<Rightarrow> Some (False, c, l)
        | Some len \<Rightarrow> do {
            f \<leftarrow> c_get (cam_frames c) i;
            fs \<leftarrow> c_set (cam_frames c) i (f\<lparr>cf_start := if ce_mmap env i len then Mapped else Map_Failed\<rparr>);
            (let c = c\<lparr>cam_frames := fs\<rparr> in
             if \<not> ce_mmap env i len then Some (False, c, l)
             else
               (let l = l\<lparr>cl_maps := cl_maps l + 1\<rparr>; f = fs ! i in
                if \<not> ce_expbuf env i then Some (False, c, l)
                else
                  (let l = l\<lparr>cl_fds := cl_fds l + 1\<rparr>;
                       f = f\<lparr>cf_export := True\<rparr>;
                       c = c\<lparr>cam_frames := fs[i := f]\<rparr> in
                   if \<not> ce_import env i (import_info len) then Some (False, c, l)
                   else Some (True, c\<lparr>cam_frames := fs[i := f\<lparr>cf_buffer := True\<rparr>]\<rparr>,
                              l\<lparr>cl_bufs := cl_bufs l + 1\<rparr>))))
          }))"

fun map_buffers :: "cam_env \<Rightarrow> nat list \<Rightarrow> camera \<times> cam_ledger \<Rightarrow> (bool \<times> camera \<times> cam_ledger) option" where
  "map_buffers env [] x = Some (True, x)"
| "map_buffers env (i # is) x = do {
     (ok, x) \<leftarrow> map_buffer env i x;
     if \<not> ok then Some (False, x) else map_buffers env is x
   }"

text \<open>Everything between the allocation and the label \<^verbatim>\<open>fail\<close>.\<close>

definition camera_setup ::
  "cam_env \<Rightarrow> u32 \<Rightarrow> u32 \<Rightarrow> u32 \<Rightarrow> u32 \<Rightarrow> u32 \<Rightarrow> camera \<times> cam_ledger \<Rightarrow>
   (bool \<times> camera \<times> cam_ledger) option" where
  "camera_setup env yuv_base width height fmt buffer_count x =
     (case x of (c, l) \<Rightarrow>
       if \<not> ce_open env then Some (False, c, l)
       else
         (let c = c\<lparr>cam_fd := True\<rparr>; l = l\<lparr>cl_fds := cl_fds l + 1\<rparr> in
          case ce_querycap env of
            None \<Rightarrow> Some (False, c, l)
          | Some (streaming, mplane) \<Rightarrow>
              if \<not> streaming then Some (False, c, l)
              else
                (let c = c\<lparr>cam_mplane := mplane\<rparr> in
                 if \<not> ce_s_fmt env mplane (width, height, pixfmt_of yuv_base fmt) then Some (False, c, l)
                 else if \<not> ce_g_fmt env then Some (False, c, l)
                 else
                   (case ce_reqbufs env buffer_count of
                      None \<Rightarrow> Some (False, c, l)
                    | Some count \<Rightarrow>
                        if count < buffer_count then Some (False, c, l)
                        else
                          (let c = c\<lparr>cam_bufcnt := unat buffer_count\<rparr> in do {
                             (ok, c, l) \<leftarrow> map_buffers env [0..<unat buffer_count] (c, l);
                             if \<not> ok then Some (False, c, l)
                             else if \<not> list_all (ce_qbuf env) [0..<unat buffer_count] then Some (False, c, l)
                             else Some (ce_streamon env, c, l)
                           })))))"

definition camera_open ::
  "cam_env \<Rightarrow> u32 \<Rightarrow> u32 \<Rightarrow> u32 \<Rightarrow> u32 \<Rightarrow> u32 \<Rightarrow> cam_ledger \<Rightarrow> (camera option \<times> cam_ledger) option" where
  "camera_open env yuv_base width height fmt buffer_count l =
     (if \<not> ce_alloc env then Some (None, l)
      else
        (let c = \<lparr>cam_fd = False, cam_bufcnt = 0, cam_mplane = False,
                  cam_frames = replicate FRAME_SLOTS empty_frame\<rparr>;
             l = l\<lparr>cl_mem := cl_mem l + 1\<rparr> in do {
           (ok, c, l) \<leftarrow> camera_setup env yuv_base width height fmt buffer_count (c, l);
           if ok then Some (Some c, l)
           else do { l \<leftarrow> camera_close c l; Some (None, l) }
         }))"

text \<open>The index of a filled buffer; an answer without one, or with an impossible one, is -1.\<close>

definition camera_get_frame :: "camera \<Rightarrow> u32 option \<Rightarrow> int" where
  "camera_get_frame c dqbuf =
     (case dqbuf of
        None \<Rightarrow> - 1
      | Some index \<Rightarrow> if unat index \<ge> cam_bufcnt c then - 1 else int (unat index))"

text \<open>The buffers the driver holds: a successful call queues one more.\<close>

definition camera_put_frame :: "(nat \<Rightarrow> bool) \<Rightarrow> int \<Rightarrow> nat list \<Rightarrow> nat list" where
  "camera_put_frame qbuf idx queued =
     (if idx < 0 then queued else if qbuf (nat idx) then queued @ [nat idx] else queued)"

section \<open>The ledger\<close>

definition frame_sum :: "(camera_frame \<Rightarrow> bool) \<Rightarrow> camera_frame list \<Rightarrow> int" where
  "frame_sum P fs = sum_list (map (\<lambda>f. if P f then 1 else 0) fs)"

definition holds :: "camera_frame list \<Rightarrow> cam_ledger \<Rightarrow> cam_ledger" where
  "holds fs l = l\<lparr>cl_fds := cl_fds l + frame_sum cf_export fs,
     cl_maps := cl_maps l + frame_sum (\<lambda>f. cf_start f = Mapped) fs,
     cl_bufs := cl_bufs l + frame_sum cf_buffer fs\<rparr>"

lemma frame_sum_simps [simp]:
  "frame_sum P [] = 0" "frame_sum P (f # fs) = (if P f then 1 else 0) + frame_sum P fs"
  by (simp_all add: frame_sum_def)

lemma frame_sum_append [simp]: "frame_sum P (xs @ ys) = frame_sum P xs + frame_sum P ys"
  by (simp add: frame_sum_def)

lemma frame_sum_empty [simp]: "\<not> P empty_frame \<Longrightarrow> frame_sum P (replicate n empty_frame) = 0"
  by (induction n) simp_all

lemma empty_frame_holds [simp]:
  "\<not> cf_export empty_frame" "\<not> cf_buffer empty_frame" "cf_start empty_frame = Unmapped"
  by (simp_all add: empty_frame_def)

lemma holds_empty [simp]:
  "holds (fs @ replicate n empty_frame) l = holds fs l" "holds (replicate n empty_frame) l = l"
  by (cases l; simp add: holds_def)+

lemma release_holds: "fold release_frame fs (holds fs l) = l"
proof (induction fs)
  case Nil
  then show ?case by (simp add: holds_def)
next
  case (Cons f fs)
  have "release_frame f (holds (f # fs) l) = holds fs l"
    by (cases l) (simp add: release_frame_def holds_def Let_def)
  with Cons show ?case by simp
qed

lemma frame_sum_update:
  assumes "i < length fs"
  shows "frame_sum P (fs[i := f]) = frame_sum P fs - (if P (fs ! i) then 1 else 0) + (if P f then 1 else 0)"
proof -
  have "frame_sum P fs = frame_sum P (take i fs @ fs ! i # drop (Suc i) fs)"
    using id_take_nth_drop [OF assms] by simp
  with assms show ?thesis by (simp add: upd_conv_take_nth_drop)
qed

text \<open>While buffers are mapped, the ledger counts what the frames hold, and later frames are empty.\<close>

definition cam_inv :: "cam_ledger \<Rightarrow> nat \<Rightarrow> camera \<times> cam_ledger \<Rightarrow> bool" where
  "cam_inv l0 n x \<longleftrightarrow>
     (case x of (c, l) \<Rightarrow> cam_fd c \<and> cam_bufcnt c \<le> FRAME_SLOTS \<and> length (cam_frames c) = FRAME_SLOTS \<and>
        l = holds (cam_frames c) l0 \<and> (\<forall>i. n \<le> i \<and> i < FRAME_SLOTS \<longrightarrow> cam_frames c ! i = empty_frame))"

lemma map_buffer_inv:
  assumes "cam_inv l0 i (c, l)" and "i < cam_bufcnt c"
  shows "\<exists>ok c' l'. map_buffer env i (c, l) = Some (ok, c', l') \<and> cam_inv l0 (Suc i) (c', l') \<and>
    cam_bufcnt c' = cam_bufcnt c"
proof -
  have len: "length (cam_frames c) = FRAME_SLOTS" "i < FRAME_SLOTS" and e: "cam_frames c ! i = empty_frame"
    using assms by (auto simp: cam_inv_def)
  have nth: "j < FRAME_SLOTS \<Longrightarrow> Suc i \<le> j \<Longrightarrow> cam_frames c ! j = empty_frame" for j
    using assms by (auto simp: cam_inv_def)
  show ?thesis
    using assms len e nth
    by (cases "ce_querybuf env i")
      (auto simp: map_buffer_def cam_inv_def c_get_def c_set_def holds_def frame_sum_update empty_frame_def Let_def)
qed

lemma map_buffers_inv:
  assumes "cam_inv l0 i (c, l)" and "i \<le> n" and "n \<le> cam_bufcnt c"
  shows "\<exists>ok c' l'. map_buffers env [i..<n] (c, l) = Some (ok, c', l') \<and> cam_inv l0 n (c', l') \<and>
    cam_bufcnt c' = cam_bufcnt c"
  using assms
proof (induction "n - i" arbitrary: i c l)
  case 0
  then show ?case by auto
next
  case (Suc d)
  then have i: "i < n" by simp
  then have up: "[i..<n] = i # [Suc i..<n]" by (simp add: upt_conv_Cons)
  obtain ok c' l' where s: "map_buffer env i (c, l) = Some (ok, c', l')" "cam_inv l0 (Suc i) (c', l')"
    "cam_bufcnt c' = cam_bufcnt c"
    using map_buffer_inv [OF Suc.prems(1)] i Suc.prems(3) by fastforce
  show ?case
  proof (cases ok)
    case True
    with Suc.hyps(1) [of "Suc i" c' l'] Suc.hyps(2) s i Suc.prems(3) show ?thesis by (auto simp: up)
  next
    case False
    have "cam_inv l0 n (c', l')" using s(2) i by (auto simp: cam_inv_def)
    with False s show ?thesis by (auto simp: up)
  qed
qed

lemma close_inv:
  assumes "cam_inv l0 n (c, l)" and "n \<le> cam_bufcnt c"
  shows "camera_close c l = Some (l0\<lparr>cl_fds := cl_fds l0 - 1, cl_mem := cl_mem l0 - 1\<rparr>)"
proof -
  let ?fs = "take (cam_bufcnt c) (cam_frames c)"
  have len: "length (cam_frames c) = FRAME_SLOTS" "cam_bufcnt c \<le> FRAME_SLOTS" "cam_fd c"
    and l: "l = holds (cam_frames c) l0"
    and e: "\<And>i. n \<le> i \<Longrightarrow> i < FRAME_SLOTS \<Longrightarrow> cam_frames c ! i = empty_frame"
    using assms(1) by (auto simp: cam_inv_def)
  have "drop (cam_bufcnt c) (cam_frames c) = replicate (FRAME_SLOTS - cam_bufcnt c) empty_frame"
    using len e assms(2) by (intro nth_equalityI) auto
  then have "cam_frames c = ?fs @ replicate (FRAME_SLOTS - cam_bufcnt c) empty_frame"
    by (metis append_take_drop_id)
  moreover have "holds (?fs @ replicate (FRAME_SLOTS - cam_bufcnt c) empty_frame) l0 = holds ?fs l0"
    by simp
  ultimately have "l = holds ?fs l0" using l by simp
  then have "fold release_frame ?fs l = l0" using release_holds by simp
  with len show ?thesis by (simp add: camera_close_def c_read_def)
qed

text \<open>Opening: a failure leaves nothing behind, and a close gives back what a success holds.\<close>

lemma camera_open_balance:
  assumes "buffer_count \<le> 10"
  shows "\<exists>r l'. camera_open env yuv_base width height fmt buffer_count l = Some (r, l') \<and>
    (case r of None \<Rightarrow> l' = l | Some c \<Rightarrow> camera_close c l' = Some l \<and> cam_bufcnt c = unat buffer_count)"
proof (cases "ce_alloc env")
  case False
  then show ?thesis by (simp add: camera_open_def)
next
  case True
  let ?c = "\<lparr>cam_fd = False, cam_bufcnt = 0, cam_mplane = False, cam_frames = replicate FRAME_SLOTS empty_frame\<rparr>"
  let ?l = "l\<lparr>cl_mem := cl_mem l + 1\<rparr>"
  have n: "unat buffer_count \<le> FRAME_SLOTS" using assms by (simp add: word_le_nat_alt FRAME_SLOTS_def)
  let ?l1 = "?l\<lparr>cl_fds := cl_fds ?l + 1\<rparr>"
  have inv: "cam_inv ?l1 0 (?c\<lparr>cam_fd := True, cam_mplane := mp, cam_bufcnt := k\<rparr>, ?l1)"
    if "k \<le> FRAME_SLOTS" for mp k
    using that by (simp add: cam_inv_def)
  have undo: "?l1\<lparr>cl_fds := cl_fds ?l1 - 1, cl_mem := cl_mem ?l1 - 1\<rparr> = l" by (cases l) simp
  have prep: "\<exists>ok c' l'. camera_setup env yuv_base width height fmt buffer_count (?c, ?l) = Some (ok, c', l') \<and>
      camera_close c' l' = Some l \<and> (ok \<longrightarrow> cam_bufcnt c' = unat buffer_count)"
  proof -
    have c0: "camera_close ?c ?l = Some l" by (cases l) (simp add: camera_close_def)
    have c1: "camera_close (?c\<lparr>cam_fd := True\<rparr>) ?l1 = Some l \<and>
        camera_close (?c\<lparr>cam_fd := True, cam_mplane := mp\<rparr>) ?l1 = Some l" for mp
      by (cases l; simp add: camera_close_def c_read_def)+
    obtain mp where mp: "ce_querycap env = Some (True, mp) \<or> (\<forall>m. ce_querycap env \<noteq> Some (True, m))"
      by blast
    have inv': "cam_inv ?l1 0 (?c\<lparr>cam_fd := True, cam_mplane := mp, cam_bufcnt := unat buffer_count\<rparr>, ?l1)"
      by (rule inv [OF n])
    obtain ok c' l' where m: "map_buffers env [0..<unat buffer_count]
        (?c\<lparr>cam_fd := True, cam_mplane := mp, cam_bufcnt := unat buffer_count\<rparr>, ?l1) = Some (ok, c', l')"
      "cam_inv ?l1 (unat buffer_count) (c', l')" "cam_bufcnt c' = unat buffer_count"
      using map_buffers_inv [OF inv', of "unat buffer_count" env] by auto
    have "camera_close c' l' = Some l" using close_inv [OF m(2)] m(3) undo by simp
    with m c0 c1 mp show ?thesis
      by (auto simp: camera_setup_def Let_def split: option.split prod.split)
  qed
  then show ?thesis using True by (auto simp: camera_open_def Let_def)
qed

lemma import_info_len: "(snd (import_info len)) * 2 ^ 27 + fst (import_info len) = len"
proof -
  have a: "(len AND 0x07ffffff) = take_bit 27 len" by (simp add: take_bit_eq_mask mask_eq_exp_minus_1)
  have b: "drop_bit 27 (len AND 0xf8000000) = drop_bit 27 len"
  proof -
    have m: "(0xf8000000 :: u32) = push_bit 27 (mask 5)" by (simp add: mask_eq_exp_minus_1)
    show ?thesis unfolding m by (rule bit_eqI) (auto simp: bit_simps dest: bit_imp_le_length)
  qed
  have "drop_bit 27 len * 2 ^ 27 + take_bit 27 len = len"
    using bits_ident [of 27 len] by (simp add: push_bit_eq_mult add.commute)
  then show ?thesis by (simp only: import_info_def a b fst_conv snd_conv)
qed

end
