(* ===== verification/Venc_Run.thy ===== *)
theory Venc_Run
  imports Venc_Rtp_Recv Venc_Camera
begin

text \<open>
  \<^verbatim>\<open>output_write\<close> and \<^verbatim>\<open>run_encoder\<close>: the acquisitions, the loop over the
  camera frames and the label \<^verbatim>\<open>done\<close>. The encoder library is not under the sources; the
  results of its calls are parameters, and a pointer it fills is set only when the call succeeds.
  A run that waits for the camera or the encoder for ever is the outcome \<open>Blocked\<close>, a call of
  \<^verbatim>\<open>exit\<close> the outcome \<open>Exited\<close>; \<open>None\<close> is undefined behaviour.
\<close>

section \<open>The loop\<close>

text \<open>An answer of the encoder: an error, no packet, or the bytes of one and whether it ends the frame.\<close>

datatype venc_pkt = P_Error | P_Null | P_Data bytes bool

record venc_iter =
  vi_stop :: bool
  vi_dqbuf :: "u32 option"
  vi_frame_init :: bool
  vi_put_frame :: bool
  vi_packets :: "venc_pkt list"
  vi_qbuf :: "nat \<Rightarrow> bool"

text \<open>The sink, the counters, the camera buffers on either side and the frame objects.\<close>

record venc_state =
  vs_rtp :: "rtp_output option"
  vs_file :: bytes
  vs_writes :: nat
  vs_ferror :: bool
  vs_encoded :: u32
  vs_captured :: u32
  vs_queued :: "nat list"
  vs_held :: "nat list"
  vs_frames :: int

text \<open>\<open>send\<close> and \<open>fwr\<close> say which calls of \<^verbatim>\<open>sendto\<close> and \<^verbatim>\<open>fwrite\<close> succeed.\<close>

definition output_write ::
  "(nat \<Rightarrow> bool) \<Rightarrow> (nat \<Rightarrow> bool) \<Rightarrow> bytes \<Rightarrow> bool \<Rightarrow> venc_state \<Rightarrow> (int \<times> venc_state) option" where
  "output_write send fwr data end_of_frame s =
     (if data = [] then Some (0, s)
      else case vs_rtp s of
        Some r \<Rightarrow> map_option (\<lambda>(ret, r). (ret, s\<lparr>vs_rtp := Some r\<rparr>)) (output_write_rtp send data end_of_frame r)
      | None \<Rightarrow>
          (let n = vs_writes s; s = s\<lparr>vs_writes := n + 1\<rparr> in
           if fwr n then Some (0, s\<lparr>vs_file := vs_file s @ data\<rparr>) else Some (- 1, s\<lparr>vs_ferror := True\<rparr>)))"

datatype pk_end = Pk_Failed | Pk_Eoi | Pk_Waiting

fun get_packets ::
  "(nat \<Rightarrow> bool) \<Rightarrow> (nat \<Rightarrow> bool) \<Rightarrow> bool \<Rightarrow> venc_pkt list \<Rightarrow> venc_state \<Rightarrow> (pk_end \<times> venc_state) option" where
  "get_packets send fwr eoi [] s = Some (Pk_Waiting, s)"
| "get_packets send fwr eoi (P_Error # ps) s = Some (Pk_Failed, s)"
| "get_packets send fwr eoi (P_Null # ps) s =
     (if eoi then Some (Pk_Eoi, s) else get_packets send fwr eoi ps s)"
| "get_packets send fwr eoi (P_Data data e # ps) s = do {
     (ret, s) \<leftarrow> output_write send fwr data e s;
     if ret \<noteq> 0 then Some (Pk_Failed, s)
     else if e then Some (Pk_Eoi, s)
     else get_packets send fwr e ps s
   }"

definition put_back :: "venc_iter \<Rightarrow> int \<Rightarrow> venc_state \<Rightarrow> venc_state" where
  "put_back it idx s =
     s\<lparr>vs_queued := camera_put_frame (vi_qbuf it) idx (vs_queued s), vs_held := remove1 (nat idx) (vs_held s)\<rparr>"

datatype iter_end = It_Next | It_Done | It_Finished | It_Waiting

definition encode_iter ::
  "(nat \<Rightarrow> bool) \<Rightarrow> (nat \<Rightarrow> bool) \<Rightarrow> venc_config \<Rightarrow> camera \<Rightarrow> venc_iter \<Rightarrow> venc_state \<Rightarrow>
   (iter_end \<times> venc_state) option" where
  "encode_iter send fwr cfg cam it s =
     (if vi_stop it \<or> \<not> (vc_frames cfg = 0 \<or> vs_encoded s < vc_frames cfg) then Some (It_Finished, s)
      else
        (let idx = camera_get_frame cam (vi_dqbuf it) in
         if idx < 0 then Some (It_Done, s)
         else
           (let s = s\<lparr>vs_queued := remove1 (nat idx) (vs_queued s), vs_held := nat idx # vs_held s\<rparr>;
                captured = vs_captured s;
                s = s\<lparr>vs_captured := captured + 1\<rparr> in
            if captured < vc_skip_frames cfg then Some (It_Next, put_back it idx s)
            else if \<not> vi_frame_init it then Some (It_Done, s)
            else
              (let s = s\<lparr>vs_frames := vs_frames s + 1\<rparr> in
               if \<not> vi_put_frame it
               then Some (It_Done, put_back it idx (s\<lparr>vs_frames := vs_frames s - 1\<rparr>))
               else
                 (let s = s\<lparr>vs_frames := vs_frames s - 1\<rparr> in do {
                    (e, s) \<leftarrow> get_packets send fwr True (vi_packets it) s;
                    case e of
                      Pk_Failed \<Rightarrow> Some (It_Done, put_back it idx s)
                    | Pk_Waiting \<Rightarrow> Some (It_Waiting, s)
                    | Pk_Eoi \<Rightarrow>
                        (let s = put_back it idx s in Some (It_Next, s\<lparr>vs_encoded := vs_encoded s + 1\<rparr>))
                  })))))"

fun encode_loop ::
  "(nat \<Rightarrow> bool) \<Rightarrow> (nat \<Rightarrow> bool) \<Rightarrow> venc_config \<Rightarrow> camera \<Rightarrow> venc_iter list \<Rightarrow> venc_state \<Rightarrow>
   (iter_end \<times> venc_state) option" where
  "encode_loop send fwr cfg cam [] s = Some (It_Waiting, s)"
| "encode_loop send fwr cfg cam (it # its) s = do {
     (e, s) \<leftarrow> encode_iter send fwr cfg cam it s;
     if e = It_Next then encode_loop send fwr cfg cam its s else Some (e, s)
   }"

section \<open>The run\<close>

record venc_env =
  ve_rtp :: rtp_env
  ve_fopen :: bool
  ve_cam :: cam_env
  ve_yuv_base :: u32
  ve_group :: bool
  ve_pkt_buf :: bool
  ve_md_info :: bool
  ve_create :: bool
  ve_init :: bool
  ve_cfg_init :: bool
  ve_get_cfg :: bool
  ve_set_cfg :: bool
  ve_set_header :: bool
  ve_header :: "bytes option"
  ve_send :: "nat \<Rightarrow> bool"
  ve_fwrite :: "nat \<Rightarrow> bool"

text \<open>What the process holds; the local variables of the function that the label \<^verbatim>\<open>done\<close> reads.\<close>

record venc_ledger =
  vl_rtp :: rtp_ledger
  vl_files :: int
  vl_cam :: cam_ledger
  vl_mpp :: int
  vl_hdr :: int

record venc_vars =
  vv_rtp :: bool
  vv_file :: bool
  vv_cam :: "camera option"
  vv_grp :: bool
  vv_pkt :: bool
  vv_md :: bool
  vv_ctx :: bool
  vv_cfg :: bool

datatype run_end = Returned int | Exited int | Blocked

definition count_mpp :: "venc_vars \<Rightarrow> int" where
  "count_mpp v = (if vv_grp v then 1 else 0) + (if vv_pkt v then 1 else 0) + (if vv_md v then 1 else 0) +
     (if vv_ctx v then 1 else 0) + (if vv_cfg v then 1 else 0)"

definition run_done :: "venc_config \<Rightarrow> int \<Rightarrow> venc_vars \<Rightarrow> venc_ledger \<Rightarrow> (run_end \<times> venc_ledger) option" where
  "run_done cfg ret v l = do {
     let l = l\<lparr>vl_mpp := vl_mpp l - count_mpp v\<rparr>;
     cl \<leftarrow> (case vv_cam v of None \<Rightarrow> Some (vl_cam l) | Some c \<Rightarrow> camera_close c (vl_cam l));
     (let l = l\<lparr>vl_cam := cl\<rparr>;
          l = (if vv_file v \<and> vc_output cfg \<noteq> ''-'' then l\<lparr>vl_files := vl_files l - 1\<rparr> else l);
          l = (if vv_rtp v then l\<lparr>vl_rtp := rtp_close (vl_rtp l)\<rparr> else l)
      in Some (Returned ret, l))
   }"

text \<open>From the camera on: the encoder, the header packet and the loop.\<close>

definition run_with_encoder ::
  "venc_env \<Rightarrow> venc_config \<Rightarrow> venc_iter list \<Rightarrow> camera \<Rightarrow> rtp_output option \<Rightarrow> venc_vars \<Rightarrow> venc_ledger \<Rightarrow>
   (run_end \<times> venc_ledger) option" where
  "run_with_encoder env cfg its cam rtp v l =
     (let hold = (\<lambda>l. l\<lparr>vl_mpp := vl_mpp l + 1\<rparr>) in
      if \<not> ve_group env then run_done cfg 1 v l
      else let v = v\<lparr>vv_grp := True\<rparr>; l = hold l in
      if \<not> ve_pkt_buf env then run_done cfg 1 v l
      else let v = v\<lparr>vv_pkt := True\<rparr>; l = hold l in
      if \<not> ve_md_info env then run_done cfg 1 v l
      else let v = v\<lparr>vv_md := True\<rparr>; l = hold l in
      if \<not> ve_create env then run_done cfg 1 v l
      else let v = v\<lparr>vv_ctx := True\<rparr>; l = hold l in
      if \<not> ve_init env then run_done cfg 1 v l
      else if \<not> ve_cfg_init env then run_done cfg 1 v l
      else let v = v\<lparr>vv_cfg := True\<rparr>; l = hold l in
      if \<not> ve_get_cfg env then run_done cfg 1 v l
      else if \<not> ve_set_cfg env \<or> \<not> ve_set_header env then Some (Exited 1, l)
      else
        (let l = l\<lparr>vl_hdr := vl_hdr l + 1\<rparr>;
             s = \<lparr>vs_rtp = rtp, vs_file = [], vs_writes = 0, vs_ferror = False, vs_encoded = 0,
                  vs_captured = 0, vs_queued = [0..<cam_bufcnt cam], vs_held = [], vs_frames = 0\<rparr> in do {
           (ret, s) \<leftarrow> (case ve_header env of
              None \<Rightarrow> Some (0, s)
            | Some data \<Rightarrow> output_write (ve_send env) (ve_fwrite env) data False s);
           if ret \<noteq> 0 then run_done cfg 1 v l
           else
             (let l = l\<lparr>vl_hdr := vl_hdr l - 1\<rparr> in do {
                (e, s) \<leftarrow> encode_loop (ve_send env) (ve_fwrite env) cfg cam its s;
                case e of
                  It_Finished \<Rightarrow> run_done cfg (if vv_file v \<and> vs_ferror s then 1 else 0) v l
                | It_Done \<Rightarrow> run_done cfg 1 v l
                | _ \<Rightarrow> Some (Blocked, l)
              })
         }))"

definition run_encoder ::
  "venc_env \<Rightarrow> venc_config \<Rightarrow> venc_iter list \<Rightarrow> venc_ledger \<Rightarrow> (run_end \<times> venc_ledger) option" where
  "run_encoder env cfg its l =
     (let v = \<lparr>vv_rtp = False, vv_file = False, vv_cam = None, vv_grp = False, vv_pkt = False,
               vv_md = False, vv_ctx = False, vv_cfg = False\<rparr>;
          open_cam = (\<lambda>rtp v l. do {
            (c, cl) \<leftarrow> camera_open (ve_cam env) (ve_yuv_base env) (vc_width cfg) (vc_height cfg)
              (vc_format cfg) (vc_camera_buffers cfg) (vl_cam l);
            (let l = l\<lparr>vl_cam := cl\<rparr> in
             case c of
               None \<Rightarrow> run_done cfg 1 v l
             | Some c \<Rightarrow> run_with_encoder env cfg its c rtp (v\<lparr>vv_cam := Some c\<rparr>) l)
          })
      in case vc_rtp_dest cfg of
           Some dest \<Rightarrow>
             (case rtp_open (ve_rtp env) cfg dest (vl_rtp l) of
                (None, rl) \<Rightarrow> run_done cfg 1 v (l\<lparr>vl_rtp := rl\<rparr>)
              | (Some r, rl) \<Rightarrow> open_cam (Some r) (v\<lparr>vv_rtp := True\<rparr>) (l\<lparr>vl_rtp := rl\<rparr>))
         | None \<Rightarrow>
             if vc_output cfg = ''-'' then open_cam None (v\<lparr>vv_file := True\<rparr>) l
             else if \<not> ve_fopen env then Some (Exited 1, l)
             else open_cam None (v\<lparr>vv_file := True\<rparr>) (l\<lparr>vl_files := vl_files l + 1\<rparr>))"

end
