(* ===== verification/Venc_Correct.thy ===== *)
theory Venc_Correct
  imports Venc_Run
begin

text \<open>
  The video encoder daemon: what it sends arrives, its packets and buffers keep their bounds, its
  command line, and what a run holds and gives back.
\<close>

section \<open>The sender\<close>

lemma rtp_ok_buf: "length b = rt_mtu r \<Longrightarrow> rtp_ok r \<Longrightarrow> rtp_ok (r\<lparr>rt_buf := b\<rparr>)"
  by (simp add: rtp_ok_def)

lemma send_spec_ok: "rtp_ok r \<Longrightarrow> rtp_ok ((snd (send_spec ok ps r))\<lparr>rt_buf := rt_buf r\<rparr>)"
  by (simp add: rtp_ok_def)

lemma refines_ok:
  assumes "refines x (send_spec ok ps r)" and "rtp_ok r"
  shows "\<exists>ret r'. x = Some (ret, r') \<and> rtp_ok r' \<and> rt_mtu r' = rt_mtu r"
  using assms by (auto simp: refines_def rtp_ok_def)

lemma output_write_rtp_ok:
  assumes "rtp_ok r"
  shows "\<exists>ret r'. output_write_rtp ok data eof r = Some (ret, r') \<and> rtp_ok r' \<and> rt_mtu r' = rt_mtu r"
proof -
  obtain ret r' where s: "rtp_send_annexb ok data eof r = Some (ret, r')" "rtp_ok r'" "rt_mtu r' = rt_mtu r"
    using refines_ok [OF annexb_refines [OF assms, of ok data eof] assms] by blast
  have "rtp_ok (r'\<lparr>rt_timestamp := t\<rparr>)" for t using s(2) by (simp add: rtp_ok_def)
  with s assms show ?thesis by (cases "data = []") (simp_all add: output_write_rtp_def)
qed

definition ex_rtp :: rtp_output where
  "ex_rtp = \<lparr>rt_buf = replicate 64 0, rt_mtu = 64, rt_max_payload = 52, rt_payload_type = 96, rt_seq = 0xffff,
     rt_timestamp = 1000, rt_timestamp_step = 3000, rt_ssrc = 7, rt_calls = 0, rt_sent = []\<rparr>"

definition ex_nals :: "(bool \<times> bytes) list" where
  "ex_nals = [(True, [0x67, 0, 3]), (False, 0x65 # replicate 60 1)]"

lemma ex_rtp_ok: "rtp_ok ex_rtp"
  by (simp add: rtp_ok_def ex_rtp_def)

lemma ex_nals_ok:
  "list_all (\<lambda>x. nal_ok (snd x) \<and> single_ok (snd x)) ex_nals" "ex_nals \<noteq> []"
  by code_simp (simp add: ex_nals_def)

text \<open>C12: A frame arrives. An Annex-B frame of any number of NAL units, with start codes of either
  length, is sent as packets of at most the MTU with consecutive sequence numbers, the time stamp of
  the frame and the marker on the last one alone, and a receiver that follows RFC 6184 gets
  back exactly the NAL units; the time stamp then moves on by one frame.\<close>

theorem rtp_frame_delivered:
  assumes "rtp_ok r" and "list_all (\<lambda>x. nal_ok (snd x) \<and> single_ok (snd x)) nals" and "nals \<noteq> []" and "\<forall>n. ok n"
  shows "\<exists>r' pkts. output_write_rtp ok (annexb nals) True r = Some (0, r') \<and> rt_sent r' = rt_sent r @ pkts \<and>
    depay (map (drop 12) pkts) = (map snd nals, []) \<and> (\<forall>p \<in> set pkts. length p \<le> rt_mtu r) \<and>
    (\<forall>i < length pkts. take 12 (pkts ! i) =
       rtp_header (r\<lparr>rt_seq := rt_seq r + of_nat i\<rparr>) (i + 1 = length pkts)) \<and>
    rt_timestamp r' = rt_timestamp r + rt_timestamp_step r \<and> rtp_ok r'"
proof -
  let ?mx = "rt_max_payload r" and ?ns = "map snd nals"
  let ?ps = "frame_payloads ?mx ?ns True"
  let ?pkts = "packets r (rt_seq r) ?ps"
  have mx: "2 < ?mx" "12 + ?mx = rt_mtu r" using assms(1) by (auto simp: rtp_ok_def)
  have nals: "annexb_nals (annexb nals) = ?ns"
    using assms(2,3) by (intro annexb_nals_annexb) (auto simp: list_all_iff)
  have ne: "list_all (\<lambda>n. n \<noteq> []) ?ns" "list_all single_ok ?ns" "?ns \<noteq> []"
    using assms(2,3) by (auto simp: list_all_iff nal_ok_def)
  obtain k where marks: "map snd ?ps = replicate k False @ [True]"
    using frame_markers [OF mx(1) ne(1,3)] by blast
  have "length (map snd ?ps) = k + 1" unfolding marks by simp
  then have len: "length ?ps = k + 1" by (simp only: length_map)
  have mark: "snd (?ps ! i) = (i + 1 = length ?ps)" if "i < length ?ps" for i
  proof -
    have "snd (?ps ! i) = (replicate k False @ [True]) ! i" using that marks by (metis nth_map)
    also have "\<dots> = (i + 1 = length ?ps)" using that len by (auto simp: nth_append)
    finally show ?thesis .
  qed
  obtain b where s: "rtp_send_annexb ok (annexb nals) True r = Some (0, (r\<lparr>rt_calls := rt_calls r + length ?ps,
      rt_sent := rt_sent r @ ?pkts, rt_seq := rt_seq r + of_nat (length ?ps)\<rparr>)\<lparr>rt_buf := b\<rparr>)" "length b = rt_mtu r"
    using annexb_refines [OF assms(1), of ok "annexb nals" True] assms(4)
    by (auto simp: refines_def nals send_spec_all)
  have data: "annexb nals \<noteq> []" using assms(3) by (cases nals) (auto simp: annexb_def start_code_def split: if_splits)
  have "depay (map (drop 12) ?pkts) = (?ns, [])"
    using depay_frame_from [OF mx(1) ne(2), of True "[]"] by (simp add: depay_def)
  moreover have "\<forall>p \<in> set ?pkts. length p \<le> rt_mtu r"
  proof
    fix p assume "p \<in> set ?pkts"
    then obtain i where i: "i < length ?ps" "p = ?pkts ! i" by (auto simp: in_set_conv_nth)
    from frame_sizes [OF mx(1) nth_mem [OF i(1)]] mx(2) i show "length p \<le> rt_mtu r" by (simp add: packets_nth)
  qed
  moreover have "take 12 (?pkts ! i) = rtp_header (r\<lparr>rt_seq := rt_seq r + of_nat i\<rparr>) (i + 1 = length ?pkts)"
    if "i < length ?pkts" for i
    using that mark [of i] by (simp add: packets_nth)
  ultimately show ?thesis
    using s data assms(1) by (auto simp: output_write_rtp_def rtp_ok_def)
qed

theorem rtp_frame_delivered_witness:
  "\<exists>r' pkts. output_write_rtp (\<lambda>_. True) (annexb ex_nals) True ex_rtp = Some (0, r') \<and>
     rt_sent r' = pkts \<and> depay (map (drop 12) pkts) = ([[0x67, 0, 3], 0x65 # replicate 60 1], []) \<and>
     rt_timestamp r' = 4000"
proof -
  have e: "rt_sent ex_rtp = []" "map snd ex_nals = [[0x67, 0, 3], 0x65 # replicate 60 1]"
    "rt_timestamp ex_rtp + rt_timestamp_step ex_rtp = 4000"
    by (simp_all add: ex_rtp_def ex_nals_def)
  have "\<forall>n. (\<lambda>_ :: nat. True) n" by simp
  from rtp_frame_delivered [OF ex_rtp_ok ex_nals_ok this] show ?thesis by (auto simp only: e append_Nil)
qed

text \<open>C13: The sender refines its specification, for any data, any marker and any failures of
  \<^verbatim>\<open>sendto\<close>: it sends the payloads of the NAL units one after the other up to the first
  failure, which it reports; it always returns, never writes outside the packet buffer and never
  makes a packet longer than the MTU.\<close>

theorem rtp_sender_refines:
  assumes "rtp_ok r"
  shows "\<exists>ret r' new. rtp_send_annexb ok data marker r = Some (ret, r') \<and>
    (let y = send_spec ok (frame_payloads (rt_max_payload r) (annexb_nals data) marker) r
     in ret = fst y \<and> r'\<lparr>rt_buf := []\<rparr> = (snd y)\<lparr>rt_buf := []\<rparr>) \<and>
    rtp_ok r' \<and> rt_sent r' = rt_sent r @ new \<and> (\<forall>p \<in> set new. length p \<le> rt_mtu r)"
proof -
  let ?ps = "frame_payloads (rt_max_payload r) (annexb_nals data) marker"
  have mx: "2 < rt_max_payload r" "12 + rt_max_payload r = rt_mtu r" using assms by (auto simp: rtp_ok_def)
  have "\<forall>x \<in> set ?ps. length (fst x) \<le> rt_max_payload r" using frame_sizes [OF mx(1)] by blast
  from send_spec_sent [OF this, of ok r] obtain new where
    "rt_sent (snd (send_spec ok ?ps r)) = rt_sent r @ new" "\<forall>p \<in> set new. length p \<le> rt_mtu r"
    unfolding mx(2) by blast
  moreover obtain b where "rtp_send_annexb ok data marker r =
      Some (fst (send_spec ok ?ps r), (snd (send_spec ok ?ps r))\<lparr>rt_buf := b\<rparr>)" "length b = rt_mtu r"
    using annexb_refines [OF assms, of ok data marker] by (auto simp: refines_def)
  ultimately show ?thesis using assms by (auto simp: rtp_ok_def Let_def)
qed

theorem rtp_sender_refines_witness:
  "\<exists>ret r' new. rtp_send_annexb (\<lambda>n. n \<noteq> 1) (annexb ex_nals) True ex_rtp = Some (ret, r') \<and> rtp_ok r' \<and>
     rt_sent r' = new"
  using rtp_sender_refines [OF ex_rtp_ok, of "\<lambda>n. n \<noteq> 1" "annexb ex_nals" True] by blast

section \<open>The command line\<close>


lemma venc_complete_keeps:
  "vc_rtp_mtu (venc_complete cfg) = vc_rtp_mtu cfg"
  "vc_camera_buffers (venc_complete cfg) = vc_camera_buffers cfg"
  by (simp_all add: venc_complete_def Let_def)






text \<open>C15: The derived maximum. Without an explicit maximum the configuration has a maximum of at
  least the target bit rate exactly when the target times 17 fits into 32 bits, and the derived
  minimum is never above the target then; from 252645136 bit/s on the multiplication wraps
  and the maximum falls below the target.\<close>

theorem venc_bitrate_bracket:
  assumes "vc_bitrate cfg \<noteq> 0" and "vc_bitrate_min cfg = 0" and "vc_bitrate_max cfg = 0"
  shows "(vc_bitrate cfg \<le> vc_bitrate_max (venc_complete cfg) \<longleftrightarrow> unat (vc_bitrate cfg) * 17 < 2 ^ 32) \<and>
    (unat (vc_bitrate cfg) * 17 < 2 ^ 32 \<longrightarrow> vc_bitrate_min (venc_complete cfg) \<le> vc_bitrate cfg)"
  using assms scale17 [of "vc_bitrate cfg"] scale15 [of "vc_bitrate cfg"]
  by (simp add: venc_complete_def Let_def)

theorem venc_bitrate_bracket_witness:
  "\<not> 300000000 \<le> vc_bitrate_max (venc_complete (venc_defaults\<lparr>vc_bitrate := 300000000\<rparr>))"
proof -
  let ?cfg = "venc_defaults\<lparr>vc_bitrate := 300000000\<rparr>"
  have "vc_bitrate ?cfg \<noteq> 0" "vc_bitrate_min ?cfg = 0" "vc_bitrate_max ?cfg = 0"
    by (simp_all add: venc_defaults_def)
  from venc_bitrate_bracket [OF this] show ?thesis by simp
qed

section \<open>A run\<close>

definition sink_ok :: "venc_state \<Rightarrow> bool" where
  "sink_ok s \<longleftrightarrow> (\<forall>r. vs_rtp s = Some r \<longrightarrow> rtp_ok r)"

text \<open>What writing changes: the sink only.\<close>

definition same_counts :: "venc_state \<Rightarrow> venc_state \<Rightarrow> bool" where
  "same_counts s s' \<longleftrightarrow> vs_encoded s' = vs_encoded s \<and> vs_captured s' = vs_captured s \<and>
     vs_queued s' = vs_queued s \<and> vs_held s' = vs_held s \<and> vs_frames s' = vs_frames s"

lemma output_write_ok:
  assumes "sink_ok s"
  shows "\<exists>ret s'. output_write send fwr data eof s = Some (ret, s') \<and> sink_ok s' \<and> same_counts s s'"
proof (cases "vs_rtp s")
  case None
  then show ?thesis using assms by (auto simp: output_write_def sink_ok_def same_counts_def Let_def)
next
  case (Some r)
  then have "rtp_ok r" using assms by (simp add: sink_ok_def)
  from output_write_rtp_ok [OF this, of send data eof] Some assms show ?thesis
    by (auto simp: output_write_def sink_ok_def same_counts_def)
qed

lemma get_packets_ok:
  assumes "sink_ok s"
  shows "\<exists>e s'. get_packets send fwr eoi ps s = Some (e, s') \<and> sink_ok s' \<and> same_counts s s'"
  using assms
proof (induction send fwr eoi ps s rule: get_packets.induct)
  case (3 send fwr eoi ps s)
  then show ?case by (cases eoi) (auto simp: same_counts_def)
next
  case (4 send fwr eoi data e ps s)
  obtain ret s1 where w: "output_write send fwr data e s = Some (ret, s1)" "sink_ok s1" "same_counts s s1"
    using output_write_ok [OF "4.prems"] by blast
  show ?case
  proof (cases "ret \<noteq> 0 \<or> e")
    case True
    with w show ?thesis by auto
  next
    case False
    with "4.IH" [OF w(1)] w show ?thesis by (auto simp: same_counts_def)
  qed
qed (auto simp: same_counts_def)

text \<open>Between two iterations the program holds no camera buffer and no frame object.\<close>

definition iter_inv :: "venc_config \<Rightarrow> venc_state \<Rightarrow> bool" where
  "iter_inv cfg s \<longleftrightarrow> sink_ok s \<and> vs_held s = [] \<and> vs_frames s = 0 \<and>
     (vc_frames cfg \<noteq> 0 \<longrightarrow> vs_encoded s \<le> vc_frames cfg)"

lemma encode_iter_inv:
  assumes "iter_inv cfg s"
  shows "\<exists>e s'. encode_iter send fwr cfg cam it s = Some (e, s') \<and> sink_ok s' \<and>
    (e = It_Next \<longrightarrow> iter_inv cfg s') \<and> (e = It_Finished \<longrightarrow> s' = s \<and> (vi_stop it \<or>
       vc_frames cfg \<noteq> 0 \<and> vs_encoded s = vc_frames cfg))"
proof -
  let ?idx = "camera_get_frame cam (vi_dqbuf it)"
  let ?s1 = "s\<lparr>vs_queued := remove1 (nat ?idx) (vs_queued s), vs_held := nat ?idx # vs_held s,
    vs_captured := vs_captured s + 1\<rparr>"
  let ?s2 = "?s1\<lparr>vs_frames := vs_frames s + 1\<rparr>\<lparr>vs_frames := vs_frames s\<rparr>"
  have "sink_ok ?s2" using assms by (simp add: sink_ok_def iter_inv_def)
  from get_packets_ok [OF this, of send fwr True "vi_packets it"]
  obtain e s3 where g: "get_packets send fwr True (vi_packets it) ?s2 = Some (e, s3)" "sink_ok s3"
    "same_counts ?s2 s3" by blast
  have more: "vs_encoded s + 1 \<le> vc_frames cfg" if "vs_encoded s < vc_frames cfg"
    using that by (simp add: inc_le)
  have fin: "vs_encoded s = vc_frames cfg" if "\<not> vs_encoded s < vc_frames cfg" "vc_frames cfg \<noteq> 0"
    using that assms by (simp add: iter_inv_def)
  show ?thesis
    using assms g more fin
    by (cases e) (auto simp: encode_iter_def iter_inv_def sink_ok_def put_back_def same_counts_def Let_def)
qed

lemma encode_loop_inv:
  assumes "iter_inv cfg s"
  shows "\<exists>e s'. encode_loop send fwr cfg cam its s = Some (e, s') \<and> sink_ok s' \<and> e \<noteq> It_Next \<and>
    (e = It_Finished \<longrightarrow> iter_inv cfg s' \<and> ((\<exists>it \<in> set its. vi_stop it) \<or>
       vc_frames cfg \<noteq> 0 \<and> vs_encoded s' = vc_frames cfg))"
  using assms
proof (induction its arbitrary: s)
  case Nil
  then show ?case by (simp add: iter_inv_def)
next
  case (Cons it its)
  from encode_iter_inv [OF Cons.prems, of send fwr cam it] obtain e s1 where
    i: "encode_iter send fwr cfg cam it s = Some (e, s1)" "sink_ok s1" "e = It_Next \<longrightarrow> iter_inv cfg s1"
      "e = It_Finished \<longrightarrow> s1 = s \<and> (vi_stop it \<or> vc_frames cfg \<noteq> 0 \<and> vs_encoded s = vc_frames cfg)" by blast
  show ?case
  proof (cases "e = It_Next")
    case True
    with i Cons.IH [of s1] show ?thesis by (auto 4 4)
  next
    case False
    with i Cons.prems show ?thesis by auto
  qed
qed















text \<open>A run to the end. From the start of the loop, and unless it is asked to stop, the loop ends
  normally only when the requested number of frames has been encoded; then, as between any two
  iterations, the program holds no camera buffer and no frame object.\<close>

theorem encode_loop_complete:
  assumes "\<And>r. rtp = Some r \<Longrightarrow> rtp_ok r" and "\<forall>it \<in> set its. \<not> vi_stop it"
    and "encode_loop send fwr cfg cam its \<lparr>vs_rtp = rtp, vs_file = out, vs_writes = n, vs_ferror = err, vs_encoded = 0,
      vs_captured = 0, vs_queued = q, vs_held = [], vs_frames = 0\<rparr> = Some (It_Finished, s')"
  shows "vs_encoded s' = vc_frames cfg \<and> vc_frames cfg \<noteq> 0 \<and> vs_held s' = [] \<and> vs_frames s' = 0"
proof -
  let ?s = "\<lparr>vs_rtp = rtp, vs_file = out, vs_writes = n, vs_ferror = err, vs_encoded = 0,
      vs_captured = 0, vs_queued = q, vs_held = [], vs_frames = 0\<rparr>"
  have "iter_inv cfg ?s" using assms(1) by (simp add: iter_inv_def sink_ok_def)
  from encode_loop_inv [OF this, of send fwr cam its] assms(2,3) show ?thesis by (auto simp: iter_inv_def)
qed

theorem encode_loop_complete_witness:
  "\<exists>s'. encode_loop (\<lambda>_. True) (\<lambda>_. True) (venc_defaults\<lparr>vc_frames := 1, vc_skip_frames := 1\<rparr>)
       \<lparr>cam_fd = True, cam_bufcnt = 2, cam_mplane = True, cam_frames = []\<rparr>
       (replicate 3 \<lparr>vi_stop = False, vi_dqbuf = Some 1, vi_frame_init = True, vi_put_frame = True,
          vi_packets = [P_Data [1, 2] False, P_Data [3] True], vi_qbuf = (\<lambda>_. True)\<rparr>)
       \<lparr>vs_rtp = None, vs_file = [], vs_writes = 0, vs_ferror = False, vs_encoded = 0, vs_captured = 0,
        vs_queued = [0, 1], vs_held = [], vs_frames = 0\<rparr> = Some (It_Finished, s') \<and>
     vs_encoded s' = 1 \<and> vs_file s' = [1, 2, 3] \<and> vs_held s' = []"
proof -
  let ?cfg = "venc_defaults\<lparr>vc_frames := 1, vc_skip_frames := 1\<rparr>"
  let ?cam = "\<lparr>cam_fd = True, cam_bufcnt = 2, cam_mplane = True, cam_frames = []\<rparr>"
  let ?its = "replicate 3 \<lparr>vi_stop = False, vi_dqbuf = Some 1, vi_frame_init = True, vi_put_frame = True,
          vi_packets = [P_Data [1, 2] False, P_Data [3] True], vi_qbuf = (\<lambda>_. True)\<rparr>"
  let ?s = "\<lparr>vs_rtp = None, vs_file = [], vs_writes = 0, vs_ferror = False, vs_encoded = 0, vs_captured = 0,
        vs_queued = [0, 1], vs_held = [], vs_frames = 0\<rparr>"
  obtain s' where r: "encode_loop (\<lambda>_. True) (\<lambda>_. True) ?cfg ?cam ?its ?s = Some (It_Finished, s')"
    "vs_file s' = [1, 2, 3]"
    by (simp add: numeral_3_eq_3 encode_iter_def camera_get_frame_def put_back_def camera_put_frame_def
        output_write_def Let_def)
  have "None = Some (r :: rtp_output) \<Longrightarrow> rtp_ok r" for r by simp
  from encode_loop_complete [OF this _ r(1)] r show ?thesis by simp
qed

lemma xioctl_never:
  assumes "\<forall>k. io_retry (io (n + k))"
  shows "xioctl io n = None"
proof (rule ccontr)
  assume "xioctl io n \<noteq> None"
  then obtain x where r: "xioctl io n = Some x" by blast
  have "(\<forall>k. io_retry (io (n + k))) \<longrightarrow> False"
  proof (rule xioctl.raw_induct [where P = "\<lambda>io n x. (\<forall>k. io_retry (io (n + k))) \<longrightarrow> False", OF _ r])
    fix f and io' :: "nat \<Rightarrow> ioctl_result" and n' :: nat and x'
    assume IH: "\<And>io n x. f io n = Some x \<Longrightarrow> (\<forall>k. io_retry (io (n + k))) \<longrightarrow> False"
      and eq: "(case io' n' of Io_Ok \<Rightarrow> Some (True, n' + 1) | Io_Err \<Rightarrow> Some (False, n' + 1)
        | _ \<Rightarrow> f io' (n' + 1)) = Some x'"
    show "(\<forall>k. io_retry (io' (n' + k))) \<longrightarrow> False"
    proof
      assume a: "\<forall>k. io_retry (io' (n' + k))"
      then have "io_retry (io' n')" using spec [OF a, of 0] by simp
      with eq have f: "f io' (n' + 1) = Some x'" by (cases "io' n'") (simp_all add: io_retry_def)
      have "io_retry (io' (n' + 1 + k))" for k using spec [OF a, of "1 + k"] by simp
      with IH [OF f] show False by blast
    qed
  qed
  with assms show False by blast
qed

text \<open>C17: Calls to the driver are repeated while they are interrupted or would block: the loop returns
  exactly when some later answer is neither, with the first such answer.\<close>

theorem xioctl_terminates:
  "(xioctl io n \<noteq> None \<longleftrightarrow> (\<exists>k. \<not> io_retry (io (n + k)))) \<and>
   (\<forall>k. (\<forall>i < k. io_retry (io (n + i))) \<and> \<not> io_retry (io (n + k)) \<longrightarrow>
      xioctl io n = Some (io (n + k) = Io_Ok, n + k + 1))"
proof (intro conjI allI impI iffI)
  show "\<exists>k. \<not> io_retry (io (n + k))" if "xioctl io n \<noteq> None"
  proof (rule ccontr)
    assume "\<not> (\<exists>k. \<not> io_retry (io (n + k)))"
    then have "xioctl io n = None" by (intro xioctl_never) simp
    with that show False by simp
  qed
  show "xioctl io n \<noteq> None" if k: "\<exists>k. \<not> io_retry (io (n + k))"
  proof -
    from k obtain k where "\<not> io_retry (io (n + k))" ..
    then show ?thesis by (rule xioctl_returns)
  qed
  show "xioctl io n = Some (io (n + k) = Io_Ok, n + k + 1)"
    if "(\<forall>i<k. io_retry (io (n + i))) \<and> \<not> io_retry (io (n + k))" for k
    using that by (intro xioctl_retries) simp_all
qed

theorem xioctl_terminates_witness:
  "xioctl (\<lambda>n. if n < 3 then Io_Again else Io_Ok) 0 = Some (True, 4)"
proof -
  let ?io = "\<lambda>n :: nat. if n < 3 then Io_Again else Io_Ok"
  have "(\<forall>i < 3. io_retry (?io (0 + i))) \<and> \<not> io_retry (?io (0 + 3))" by (simp add: io_retry_def)
  with xioctl_terminates [of ?io 0] have "xioctl ?io 0 = Some (?io (0 + 3) = Io_Ok, 0 + 3 + 1)" by blast
  then show ?thesis by simp
qed

end
