(* ===== verification/Venc_Main.thy ===== *)
theory Venc_Main
  imports Venc_Run
begin

text \<open>
  The rest of \<^verbatim>\<open>omega4-vencd.c\<close>: the settings \<^verbatim>\<open>setup_encoder_cfg\<close> passes to
  the encoder, the sizes of its buffers, the directory \<^verbatim>\<open>open_output\<close> makes, the line of
  \<^verbatim>\<open>--dry-run\<close> and \<^verbatim>\<open>main\<close>. The numbers behind the names of the encoder
  library are parameters.
\<close>

unbundle bit_operations_syntax

section \<open>Settings\<close>

record mpp_consts =
  mc_avc :: int
  mc_range_jpeg :: int
  mc_drop_disabled :: u32
  mc_rc :: "rc_mode \<Rightarrow> u32"

text \<open>A setting of 32 bits, signed or unsigned; an unsigned field passed to a signed one is
  reinterpreted.\<close>

datatype enc_val = S32 int | U32 u32

definition s32 :: "u32 \<Rightarrow> enc_val" where
  "s32 w = S32 (sint w)"

definition align_up :: "u32 \<Rightarrow> u32 \<Rightarrow> u32" where
  "align_up v a = (v + a - 1) AND NOT (a - 1)"

definition setup_encoder_cfg :: "mpp_consts \<Rightarrow> venc_config \<Rightarrow> (string \<times> enc_val) list" where
  "setup_encoder_cfg mc cfg =
     [(''codec:type'', S32 (mc_avc mc)),
      (''prep:width'', s32 (vc_width cfg)),
      (''prep:height'', s32 (vc_height cfg)),
      (''prep:hor_stride'', s32 (align_up (vc_width cfg) 8)),
      (''prep:ver_stride'', s32 (align_up (vc_height cfg) 8)),
      (''prep:format'', s32 (vc_format cfg)),
      (''prep:range'', S32 (mc_range_jpeg mc)),
      (''rc:mode'', s32 (mc_rc mc (vc_rc_mode cfg))),
      (''rc:max_reenc_times'', U32 0),
      (''rc:super_mode'', U32 0),
      (''rc:drop_mode'', U32 (mc_drop_disabled mc)),
      (''rc:fps_in_flex'', S32 0),
      (''rc:fps_in_num'', s32 (vc_fps cfg)),
      (''rc:fps_in_denom'', S32 1),
      (''rc:fps_out_flex'', S32 0),
      (''rc:fps_out_num'', s32 (vc_fps cfg)),
      (''rc:fps_out_denom'', S32 1),
      (''rc:bps_target'', s32 (vc_bitrate cfg)),
      (''rc:bps_min'', s32 (vc_bitrate_min cfg)),
      (''rc:bps_max'', s32 (vc_bitrate_max cfg)),
      (''rc:gop'', s32 (vc_gop cfg)),
      (''rc:qp_init'', S32 (- 1)),
      (''rc:qp_max'', S32 51),
      (''rc:qp_min'', S32 10),
      (''rc:qp_max_i'', S32 51),
      (''rc:qp_min_i'', S32 10),
      (''rc:qp_ip'', S32 2),
      (''h264:profile'', S32 100),
      (''h264:level'', S32 40),
      (''h264:cabac_en'', S32 1),
      (''h264:cabac_idc'', S32 0),
      (''h264:trans8x8'', S32 1)]"

text \<open>The sizes of the packet buffer and of the motion information.\<close>

definition packet_size :: "venc_config \<Rightarrow> u32" where
  "packet_size cfg = vc_width cfg * vc_height cfg"

definition md_size :: "venc_config \<Rightarrow> u32" where
  "md_size cfg =
     drop_bit 6 (align_up (vc_width cfg) 64) * drop_bit 4 (align_up (vc_height cfg) 16) * 16"

section \<open>Output and main\<close>

text \<open>The directory that is made before the file is opened: what stands before the last slash,
  unless that slash is the first character.\<close>

definition output_dir :: "string \<Rightarrow> string option" where
  "output_dir path =
     (if path = ''-'' then None
      else case split_last CHR ''/'' path of
        None \<Rightarrow> None
      | Some (dir, _) \<Rightarrow> if dir = [] then None else Some dir)"

definition dry_run_line :: "mpp_consts \<Rightarrow> venc_config \<Rightarrow> string" where
  "dry_run_line mc cfg =
     (let u = (\<lambda>w :: u32. dec_digits (unat w)) in
      ''device='' @ vc_device cfg @ '' width='' @ u (vc_width cfg) @ '' height='' @ u (vc_height cfg) @
      '' format='' @ u (vc_format cfg) @ '' frames='' @ u (vc_frames cfg) @ '' fps='' @ u (vc_fps cfg) @
      '' gop='' @ u (vc_gop cfg) @ '' bitrate='' @ u (vc_bitrate cfg) @ '':'' @ u (vc_bitrate_min cfg) @
      '':'' @ u (vc_bitrate_max cfg) @ '' rc='' @ u (mc_rc mc (vc_rc_mode cfg)) @
      '' output='' @ vc_output cfg @ '' skip='' @ u (vc_skip_frames cfg) @
      '' buffers='' @ u (vc_camera_buffers cfg) @
      '' rtp-dest='' @ (case vc_rtp_dest cfg of None \<Rightarrow> ''-'' | Some d \<Rightarrow> d) @
      '' rtp-payload-type='' @ u (vc_rtp_payload_type cfg) @ '' rtp-mtu='' @ u (vc_rtp_mtu cfg) @
      '' backend=libmpp'' @ [CHR 0x0A])"

text \<open>How the program ends, what it holds, the line of \<^verbatim>\<open>--dry-run\<close> and the directory it has made.\<close>

record venc_effects =
  vx_end :: run_end
  vx_ledger :: venc_ledger
  vx_line :: string
  vx_mkdir :: "string option"

definition venc_main ::
  "mpp_consts \<Rightarrow> venc_env \<Rightarrow> string list \<Rightarrow> venc_iter list \<Rightarrow> venc_ledger \<Rightarrow> venc_effects option" where
  "venc_main mc env args its l =
     (case venc_parse_args args of
        Inl e \<Rightarrow> Some \<lparr>vx_end = Exited e, vx_ledger = l, vx_line = [], vx_mkdir = None\<rparr>
      | Inr cfg \<Rightarrow>
          if vc_dry_run cfg
          then Some \<lparr>vx_end = Returned 0, vx_ledger = l, vx_line = dry_run_line mc cfg, vx_mkdir = None\<rparr>
          else do {
            (e, l) \<leftarrow> run_encoder env cfg its l;
            Some \<lparr>vx_end = e, vx_ledger = l, vx_line = [],
                  vx_mkdir = (if vc_rtp_dest cfg = None then output_dir (vc_output cfg) else None)\<rparr>
          })"

section \<open>What the encoder is given\<close>

lemma align_up_mult:
  assumes "unat v + 2 ^ k \<le> 2 ^ 32" and "k < 32"
  shows "unat (align_up v (2 ^ k)) = (unat v + 2 ^ k - 1) div 2 ^ k * 2 ^ k"
proof -
  let ?x = "v + 2 ^ k - 1 :: u32"
  have m: "(2 ^ k - 1 :: u32) = mask k" by (simp add: mask_eq_exp_minus_1)
  have "align_up v (2 ^ k) = push_bit k (drop_bit k ?x)"
    unfolding align_up_def m by (rule bit_word_eqI) (auto simp: bit_simps)
  moreover have b: "take_bit 32 (unat ?x) = unat ?x"
    by (rule take_bit_nat_eq_self) (use unsigned_less [of ?x] in simp)
  ultimately have "unat (align_up v (2 ^ k)) = take_bit 32 (push_bit k (drop_bit k (unat ?x)))"
    by (simp add: unsigned_push_bit_eq unsigned_drop_bit_eq del: take_bit_drop_bit)
  also have "\<dots> = take_bit 32 (unat ?x div 2 ^ k * 2 ^ k)"
    by (simp add: push_bit_eq_mult drop_bit_eq_div)
  also have "\<dots> = unat ?x div 2 ^ k * 2 ^ k"
  proof (rule take_bit_nat_eq_self)
    have "unat ?x div 2 ^ k * 2 ^ k \<le> unat ?x" by simp
    also have "\<dots> < 2 ^ 32" using unsigned_less [of ?x] by simp
    finally show "unat ?x div 2 ^ k * 2 ^ k < 2 ^ 32" .
  qed
  also have "unat ?x = unat v + 2 ^ k - 1"
  proof -
    have p: "(1 :: nat) \<le> 2 ^ k" by simp
    let ?n = "unat v + (2 ^ k - 1)"
    have "of_nat ?n = v + (2 ^ k - 1)" unfolding of_nat_add of_nat_diff [OF p] by simp
    moreover have "unat (of_nat ?n :: u32) = ?n"
      using assms(1) p by (simp only: unsigned_of_nat) (simp add: take_bit_nat_eq_self)
    ultimately have "unat (v + (2 ^ k - 1)) = ?n" by metis
    with p show ?thesis by (simp add: add_diff_eq)
  qed
  finally show ?thesis .
qed

text \<open>No setting is given twice, so each has the value of its line.\<close>

lemma settings_distinct: "distinct (map fst (setup_encoder_cfg mc cfg))"
  by (simp add: setup_encoder_cfg_def)

lemma settings_lookup:
  "(k, v) \<in> set (setup_encoder_cfg mc cfg) \<Longrightarrow> map_of (setup_encoder_cfg mc cfg) k = Some v"
  using settings_distinct by (simp add: map_of_eq_Some_iff)

text \<open>Up to a width of \<open>2 ^ 31 - 8\<close> the stride is the width rounded up to a multiple of 8.\<close>

lemma stride_setting:
  assumes "unat (vc_width cfg) + 8 \<le> 2 ^ 31"
  shows "map_of (setup_encoder_cfg mc cfg) ''prep:hor_stride'' =
    Some (S32 (int ((unat (vc_width cfg) + 7) div 8 * 8)))"
proof -
  have a: "unat (align_up (vc_width cfg) 8) = (unat (vc_width cfg) + 7) div 8 * 8"
    using align_up_mult [of "vc_width cfg" 3] assms by simp
  then have "unat (align_up (vc_width cfg) 8) < 2147483648" using assms by simp
  then have "int (unat (align_up (vc_width cfg) 8)) < int 2147483648" by (simp only: of_nat_less_iff)
  then have "sint (align_up (vc_width cfg) 8) = int (unat (align_up (vc_width cfg) 8))"
    by (simp only: sint_uint of_nat_unat) (rule signed_take_bit_int_eq_self, simp_all add: order_trans [OF _ uint_ge_0])
  with a have "s32 (align_up (vc_width cfg) 8) = S32 (int ((unat (vc_width cfg) + 7) div 8 * 8))"
    by (simp only: s32_def)
  then show ?thesis by (simp add: setup_encoder_cfg_def)
qed

end
