(* ===== verification/Mfg_Crc.thy ===== *)
theory Mfg_Crc
  imports Prelude
begin

text \<open>
  \<open>crc16_ccitt\<close> of \<^verbatim>\<open>mfg-aic-uart.c\<close>: the checksum of XMODEM, computed bit by
  bit from the top. The specification is the long division of a bit string, first bit first, by
  the polynomial \<^verbatim>\<open>x^16 + x^12 + x^5 + 1\<close>; the code's register is the part of the
  running remainder that differs from the message. The bit step is invertible, so no corruption
  confined to one byte keeps the checksum.
\<close>

definition crc16_bit :: "u16 \<Rightarrow> u16" where
  "crc16_bit crc = (if crc AND 0x8000 \<noteq> 0 then push_bit 1 crc XOR 0x1021 else push_bit 1 crc)"

definition crc16_byte :: "u8 \<Rightarrow> u16 \<Rightarrow> u16" where
  "crc16_byte b crc = (crc16_bit ^^ 8) (crc XOR push_bit 8 (ucast b))"

definition crc16_ccitt :: "bytes \<Rightarrow> u16" where
  "crc16_ccitt buf = fold crc16_byte buf 0"

section \<open>Long division of bit strings\<close>

text \<open>The second string is aligned with the first bit of the first.\<close>

fun xor_bits :: "bool list \<Rightarrow> bool list \<Rightarrow> bool list" where
  "xor_bits (x # xs) (y # ys) = (x \<noteq> y) # xor_bits xs ys"
| "xor_bits xs [] = xs"
| "xor_bits [] ys = []"

lemma length_xor_bits [simp]: "length (xor_bits xs ys) = length xs"
  by (induction xs ys rule: xor_bits.induct) simp_all

lemma xor_bits_Nil [simp]: "xor_bits [] ys = []"
  by (cases ys) simp_all

lemma nth_xor_bits:
  "i < length xs \<Longrightarrow> xor_bits xs ys ! i = (xs ! i \<noteq> (i < length ys \<and> ys ! i))"
proof (induction xs ys arbitrary: i rule: xor_bits.induct)
  case (1 x xs y ys)
  then show ?case by (cases i) simp_all
qed simp_all

definition bits16 :: "u16 \<Rightarrow> bool list" where
  "bits16 w = map (\<lambda>i. bit w (15 - i)) [0..<16]"

definition bits8 :: "u8 \<Rightarrow> bool list" where
  "bits8 b = map (\<lambda>i. bit b (7 - i)) [0..<8]"

text \<open>The generator without its leading bit.\<close>

definition ccitt_poly :: "bool list" where
  "ccitt_poly = bits16 0x1021"

function poly_rem :: "bool list \<Rightarrow> bool list" where
  "poly_rem [] = []"
| "poly_rem (b # bs) =
     (if length bs < 16 then b # bs else poly_rem (if b then xor_bits bs ccitt_poly else bs))"
  by pat_completeness auto
termination by (relation "measure length") auto

definition message_bits :: "bytes \<Rightarrow> bool list" where
  "message_bits buf = concat (map bits8 buf) @ replicate 16 False"

section \<open>The register against the division\<close>

lemma length_bits [simp]: "length (bits16 w) = 16" "length (bits8 b) = 8"
  by (simp_all add: bits16_def bits8_def)

lemma nth_bits16 [simp]: "i < 16 \<Longrightarrow> bits16 w ! i = bit w (15 - i)"
  by (simp add: bits16_def)

lemma nth_bits8 [simp]: "i < 8 \<Longrightarrow> bits8 b ! i = bit b (7 - i)"
  by (simp add: bits8_def)

lemma bits16_inj: "bits16 v = bits16 w \<Longrightarrow> v = w"
proof (rule bit_word_eqI)
  fix n
  assume eq: "bits16 v = bits16 w" and n: "n < LENGTH(16)"
  then have "bits16 v ! (15 - n) = bits16 w ! (15 - n)" by simp
  with n show "bit v n = bit w n" by simp
qed

lemma xor_bits16_twice: "xor_bits (xor_bits bs (bits16 v)) (bits16 w) = xor_bits bs (bits16 (v XOR w))"
  by (rule nth_equalityI) (auto simp: nth_xor_bits bit_simps)

lemma bit_double16 [simp]: "bit (c * 2 :: u16) n \<longleftrightarrow> 0 < n \<and> n < 16 \<and> bit c (n - 1)"
proof -
  have "c * 2 = push_bit 1 c" by simp
  then show ?thesis by (simp only: bit_push_bit_iff) auto
qed

lemma crc16_bit_alt: "crc16_bit c = push_bit 1 c XOR (if bit c 15 then 0x1021 else 0)"
proof -
  have m: "(0x8000 :: u16) = push_bit 15 1" by simp
  have "c AND 0x8000 \<noteq> 0 \<longleftrightarrow> bit c 15"
    unfolding m by (simp add: bit_iff_and_push_bit_not_eq_0)
  then show ?thesis by (simp add: crc16_bit_def)
qed

text \<open>One step of the register is one step of the division.\<close>

definition rem_from :: "u16 \<Rightarrow> bool list \<Rightarrow> bool list" where
  "rem_from c bs = poly_rem (xor_bits bs (bits16 c))"

lemma xor_shift:
  assumes "16 \<le> length bs"
  shows "xor_bits (False # bs) (bits16 c) = bit c 15 # xor_bits bs (bits16 (push_bit 1 c))"
proof (rule nth_equalityI)
  fix i
  assume "i < length (xor_bits (False # bs) (bits16 c))"
  then have i: "i < Suc (length bs)" by simp
  show "xor_bits (False # bs) (bits16 c) ! i = (bit c 15 # xor_bits bs (bits16 (push_bit 1 c))) ! i"
  proof (cases i)
    case 0
    then show ?thesis using nth_xor_bits [of 0 "False # bs" "bits16 c"] by simp
  next
    case (Suc j)
    then show ?thesis using i assms
      by (cases "j = 15") (auto simp: nth_xor_bits bit_simps Suc_diff_Suc)
  qed
qed simp

lemma rem_from_step: "16 \<le> length bs \<Longrightarrow> rem_from c (False # bs) = rem_from (crc16_bit c) bs"
  by (simp add: rem_from_def xor_shift crc16_bit_alt ccitt_poly_def xor_bits16_twice)

lemma rem_from_steps:
  "16 \<le> length bs \<Longrightarrow> rem_from c (replicate n False @ bs) = rem_from ((crc16_bit ^^ n) c) bs"
  by (induction n arbitrary: c) (simp_all add: rem_from_step funpow_swap1)

lemma xor_byte_in:
  "xor_bits (bits8 b @ bs) (bits16 c)
    = xor_bits (replicate 8 False @ bs) (bits16 (c XOR push_bit 8 (ucast b)))"
  by (rule nth_equalityI) (auto simp: nth_xor_bits nth_append bit_simps)

lemma rem_from_byte: "16 \<le> length bs \<Longrightarrow> rem_from c (bits8 b @ bs) = rem_from (crc16_byte b c) bs"
  unfolding crc16_byte_def
  by (subst rem_from_steps [symmetric]) (simp_all add: rem_from_def xor_byte_in)

lemma rem_from_bytes: "rem_from c (message_bits buf) = bits16 (fold crc16_byte buf c)"
proof (induction buf arbitrary: c)
  case Nil
  have "xor_bits (replicate 16 False) (bits16 c) = bits16 c"
    by (rule nth_equalityI) (auto simp: nth_xor_bits)
  moreover have "poly_rem (bits16 c) = bits16 c"
    by (cases "bits16 c") (auto dest: arg_cong [where f = length])
  ultimately show ?case by (simp add: message_bits_def rem_from_def)
next
  case (Cons b buf)
  have "message_bits (b # buf) = bits8 b @ message_bits buf" by (simp add: message_bits_def)
  then show ?case using Cons by (simp add: rem_from_byte message_bits_def)
qed

text \<open>The code's checksum is the remainder of the message shifted by sixteen bits.\<close>

lemma crc16_remainder: "bits16 (crc16_ccitt buf) = poly_rem (message_bits buf)"
proof -
  have "xor_bits bs (bits16 0) = bs" for bs
    by (rule nth_equalityI) (auto simp: nth_xor_bits)
  then show ?thesis using rem_from_bytes [of 0 buf] by (simp add: rem_from_def crc16_ccitt_def)
qed

section \<open>Corruption of one byte\<close>

lemma crc16_bit_low: "bit (crc16_bit c) 0 = bit c 15"
  by (simp add: crc16_bit_alt bit_simps)

lemma crc16_bit_inj: "inj crc16_bit"
proof (rule injI)
  fix c d :: u16
  assume eq: "crc16_bit c = crc16_bit d"
  then have top: "bit c 15 = bit d 15" by (metis crc16_bit_low)
  have "(push_bit 1 c XOR m) XOR m = (push_bit 1 d XOR m) XOR m"
    if "m = (if bit c 15 then 0x1021 else 0)" for m
    using eq top that by (simp add: crc16_bit_alt)
  then have sh: "push_bit 1 c = push_bit 1 d" by (simp add: xor.assoc)
  show "c = d"
  proof (rule bit_word_eqI)
    fix n
    assume "n < LENGTH(16)"
    then consider "n = 15" | "Suc n < 16" by fastforce
    then show "bit c n = bit d n"
    proof cases
      case 2
      from sh have "bit (push_bit 1 c) (Suc n) = bit (push_bit 1 d) (Suc n)" by simp
      with 2 show ?thesis by (simp add: bit_push_bit_iff)
    qed (simp add: top)
  qed
qed

lemma crc16_byte_inj: "crc16_byte b c = crc16_byte b d \<Longrightarrow> c = d"
proof -
  assume "crc16_byte b c = crc16_byte b d"
  then have "c XOR push_bit 8 (ucast b) = d XOR push_bit 8 (ucast b)"
    unfolding crc16_byte_def by (rule injD [OF inj_fn [OF crc16_bit_inj]])
  then have "(c XOR push_bit 8 (ucast b)) XOR push_bit 8 (ucast b)
      = (d XOR push_bit 8 (ucast b)) XOR push_bit 8 (ucast b)" by simp
  then show "c = d" by (simp add: xor.assoc)
qed

lemma crc16_byte_differs: "p \<noteq> q \<Longrightarrow> crc16_byte p c \<noteq> crc16_byte q c"
proof
  assume ne: "p \<noteq> q"
  assume "crc16_byte p c = crc16_byte q c"
  then have "c XOR push_bit 8 (ucast p) = c XOR push_bit 8 (ucast q :: u16)"
    unfolding crc16_byte_def by (rule injD [OF inj_fn [OF crc16_bit_inj]])
  then have "c XOR (c XOR push_bit 8 (ucast p)) = c XOR (c XOR push_bit 8 (ucast q :: u16))" by simp
  then have eq: "push_bit 8 (ucast p) = (push_bit 8 (ucast q) :: u16)" by (simp add: xor.assoc [symmetric])
  have "p = q"
  proof (rule bit_word_eqI)
    fix n
    assume "n < LENGTH(8)"
    moreover have "bit (push_bit 8 (ucast p) :: u16) (n + 8) = bit (push_bit 8 (ucast q) :: u16) (n + 8)"
      by (simp only: eq)
    ultimately show "bit p n = bit q n" by (simp only: bit_push_bit_iff bit_ucast_iff) simp
  qed
  with ne show False by blast
qed

lemma fold_crc16_inj: "fold crc16_byte xs c = fold crc16_byte xs d \<Longrightarrow> c = d"
  by (induction xs arbitrary: c d) (auto dest: crc16_byte_inj)

lemma crc16_one_byte:
  "p \<noteq> q \<Longrightarrow> crc16_ccitt (xs @ p # ys) \<noteq> crc16_ccitt (xs @ q # ys)"
  unfolding crc16_ccitt_def using crc16_byte_differs [of p q] by (auto dest: fold_crc16_inj)

lemma crc16_update:
  assumes "i < length xs" and "xs ! i \<noteq> v"
  shows "crc16_ccitt (xs[i := v]) \<noteq> crc16_ccitt xs"
proof -
  have "xs = take i xs @ xs ! i # drop (Suc i) xs" by (simp add: id_take_nth_drop assms(1))
  moreover have "xs[i := v] = take i xs @ v # drop (Suc i) xs"
    using assms(1) by (simp add: upd_conv_take_nth_drop)
  ultimately show ?thesis using crc16_one_byte [of v "xs ! i"] assms(2) by metis
qed

end
