(* ===== verification/Mfg_Uart.thy ===== *)
theory Mfg_Uart
  imports Mfg_Crc C_Strings "HOL-Library.Signed_Division"
begin

text \<open>
  \<^verbatim>\<open>mfg-aic-uart.c\<close>, the tool of the production line that talks to the boot loader of the
  wireless chip and loads a firmware image into it by XMODEM-1K. The serial line (\<open>write\<close>,
  \<open>select\<close> and \<open>read\<close> on the descriptor) is a parameter over a state of its own. An
  action returns a value or leaves the process by \<^verbatim>\<open>exit (1)\<close>; \<open>None\<close> is an action that
  never returns. What goes to stderr and the usage text are not modelled.
\<close>

section \<open>The line and the process\<close>

datatype wr = Wr_Some nat | Wr_Intr | Wr_Again | Wr_Error

text \<open>\<open>select\<close> failed, was interrupted, timed out, or the descriptor is readable and
  \<open>read\<close> gave a byte or none.\<close>

datatype sel = Sel_Error | Sel_Intr | Sel_Timeout | Sel_Ready "u8 option"

record 'w uart_io =
  io_write :: "bytes \<Rightarrow> 'w \<Rightarrow> wr \<times> 'w"
  io_select :: "int \<Rightarrow> int \<Rightarrow> 'w \<Rightarrow> sel \<times> 'w"

record 'w uart =
  ua_dev :: 'w
  ua_line :: "(string \<times> int) option"
  ua_fds :: int
  ua_files :: int
  ua_out :: string

datatype 'a res = Exited | Ret 'a

type_synonym ('a, 'w) act = "('a res \<times> 'w uart) option"

definition andThen ::
  "('a res \<times> 's) option \<Rightarrow> ('a \<Rightarrow> 's \<Rightarrow> ('b res \<times> 's) option) \<Rightarrow> ('b res \<times> 's) option" where
  "andThen m f = Option.bind m (\<lambda>(r, s). case r of Exited \<Rightarrow> Some (Exited, s) | Ret x \<Rightarrow> f x s)"

lemma andThen_simps [simp]:
  "andThen None f = None"
  "andThen (Some (Exited, s)) f = Some (Exited, s)"
  "andThen (Some (Ret x, s)) f = f x s"
  by (simp_all add: andThen_def)

lemma andThen_mono [partial_function_mono]:
  assumes "mono_option B" and "\<And>x s. mono_option (\<lambda>f. C x s f)"
  shows "mono_option (\<lambda>f. andThen (B f) (\<lambda>x s. C x s f))"
proof -
  have "mono_option (\<lambda>f. case p of (Exited, s) \<Rightarrow> Some (Exited, s) | (Ret x, s) \<Rightarrow> C x s f)" for p
    using assms(2) by (cases p; cases "fst p") (auto intro: option.const_mono)
  then show ?thesis
    unfolding andThen_def using assms(1) by (intro bind_mono) simp_all
qed

definition die :: "'s \<Rightarrow> ('a res \<times> 's) option" where
  "die s = Some (Exited, s)"

definition out :: "string \<Rightarrow> 'w uart \<Rightarrow> 'w uart" where
  "out t s = s\<lparr>ua_out := ua_out s @ t\<rparr>"

definition c_bytes :: "string \<Rightarrow> bytes" where
  "c_bytes t = map of_char t"

definition CRLF :: string where "CRLF = [CHR 0x0D, CHR 0x0A]"

definition SOH :: u8 where "SOH = 0x01"
definition STX :: u8 where "STX = 0x02"
definition EOT :: u8 where "EOT = 0x04"
definition ACK :: u8 where "ACK = 0x06"
definition NAK :: u8 where "NAK = 0x15"
definition CAN :: u8 where "CAN = 0x18"
definition CPMEOF :: u8 where "CPMEOF = 0x1a"

lemmas xmodem_codes = STX_def EOT_def ACK_def NAK_def CAN_def CPMEOF_def

section \<open>Opening, reading and writing\<close>

definition baud_rates :: "int list" where
  "baud_rates = [9600, 19200, 38400, 57600, 115200, 230400, 460800, 921600]"

definition baud_to_speed :: "int \<Rightarrow> 'w uart \<Rightarrow> (int, 'w) act" where
  "baud_to_speed baud s = (if baud \<in> set baud_rates then Some (Ret baud, s) else die s)"

text \<open>What the system answers to the calls that open things; a file is its bytes and whether
  reading past them is an error.\<close>

record 'w uart_env =
  ue_io :: "'w uart_io"
  ue_open :: "string \<Rightarrow> bool"
  ue_getattr :: bool
  ue_setattr :: bool
  ue_file :: "string \<Rightarrow> (bytes \<times> bool) option"

definition open_uart :: "'w uart_env \<Rightarrow> string \<Rightarrow> int \<Rightarrow> 'w uart \<Rightarrow> (unit, 'w) act" where
  "open_uart e dev baud s =
     (if \<not> ue_open e dev then die s
      else
        (let s = s\<lparr>ua_fds := ua_fds s + 1\<rparr> in
         if \<not> ue_getattr e then die s
         else andThen (baud_to_speed baud s) (\<lambda>speed s.
           if \<not> ue_setattr e then die s else Some (Ret (), s\<lparr>ua_line := Some (dev, speed)\<rparr>))))"

definition close_uart :: "'w uart \<Rightarrow> 'w uart" where
  "close_uart s = s\<lparr>ua_fds := ua_fds s - 1\<rparr>"

definition uart_hex :: "nat \<Rightarrow> char" where
  "uart_hex d = (if d < 10 then char_of (48 + d) else char_of (87 + d))"

definition print_byte :: "u8 \<Rightarrow> string" where
  "print_byte c =
     (if c = 0x0D then [CHR 0x5C, CHR ''r'']
      else if c = 0x0A then [CHR 0x5C, CHR ''n'', CHR 0x0A]
      else if 32 \<le> c \<and> c < 127 then [char_of (unat c)]
      else [CHR 0x5C, CHR ''x'', uart_hex (unat c div 16), uart_hex (unat c mod 16)])"

definition read_byte_timeout :: "'w uart_io \<Rightarrow> int \<Rightarrow> 'w uart \<Rightarrow> (u8 option, 'w) act" where
  "read_byte_timeout io timeout_ms s =
     (case io_select io (timeout_ms sdiv 1000) ((timeout_ms smod 1000) * 1000) (ua_dev s) of
        (r, d) \<Rightarrow>
          (let s = s\<lparr>ua_dev := d\<rparr> in
           case r of
             Sel_Error \<Rightarrow> die s
           | Sel_Intr \<Rightarrow> Some (Ret None, s)
           | Sel_Timeout \<Rightarrow> Some (Ret None, s)
           | Sel_Ready c \<Rightarrow> Some (Ret c, s)))"

partial_function (option) drain_print :: "'w uart_io \<Rightarrow> int \<Rightarrow> 'w uart \<Rightarrow> (unit, 'w) act" where
  "drain_print io timeout_ms s =
     andThen (read_byte_timeout io timeout_ms s) (\<lambda>r s.
       case r of None \<Rightarrow> Some (Ret (), s) | Some c \<Rightarrow> drain_print io 50 (out (print_byte c) s))"

partial_function (option) write_all :: "'w uart_io \<Rightarrow> bytes \<Rightarrow> 'w uart \<Rightarrow> (unit, 'w) act" where
  "write_all io p s =
     (if p = [] then Some (Ret (), s)
      else
        (case io_write io p (ua_dev s) of
           (r, d) \<Rightarrow>
             (let s = s\<lparr>ua_dev := d\<rparr> in
              case r of
                Wr_Some n \<Rightarrow> write_all io (drop n p) s
              | Wr_Intr \<Rightarrow> write_all io p s
              | Wr_Again \<Rightarrow> write_all io p s
              | Wr_Error \<Rightarrow> die s)))"

section \<open>XMODEM-1K\<close>

partial_function (option) wait_receiver :: "'w uart_io \<Rightarrow> int \<Rightarrow> 'w uart \<Rightarrow> (u8, 'w) act" where
  "wait_receiver io timeout_ms s =
     andThen (read_byte_timeout io timeout_ms s) (\<lambda>r s.
       case r of
         None \<Rightarrow> Some (Ret 0, s)
       | Some c \<Rightarrow>
           (let s = out (print_byte c) s in
            if c = of_char CHR ''C'' \<or> c = NAK then Some (Ret c, s)
            else if c = CAN then Some (Ret CAN, s)
            else wait_receiver io 1000 s))"

definition xm_pad :: "bytes \<Rightarrow> bytes" where
  "xm_pad data = data @ replicate (1024 - length data) CPMEOF"

definition xm_packet :: "nat \<Rightarrow> bytes \<Rightarrow> bytes" where
  "xm_packet blk data =
     (let b = of_nat blk :: u8; crc = crc16_ccitt data in
      [STX, b, 255 - b] @ data @ [ucast (drop_bit 8 crc), ucast (crc AND 0xff)])"

text \<open>The loop around one packet: true is the acknowledgement, false the receiver's cancel.\<close>

partial_function (option) xm_send_block :: "'w uart_io \<Rightarrow> bytes \<Rightarrow> 'w uart \<Rightarrow> (bool, 'w) act" where
  "xm_send_block io pkt s =
     andThen (write_all io pkt s) (\<lambda>_ s.
       andThen (read_byte_timeout io 10000 s) (\<lambda>r s.
         case r of
           None \<Rightarrow> xm_send_block io pkt s
         | Some c \<Rightarrow>
             if c = ACK then Some (Ret True, s)
             else if c = NAK then xm_send_block io pkt s
             else if c = CAN then Some (Ret False, s)
             else xm_send_block io pkt s))"

text \<open>The loop at the end of the file: the byte is the variable \<open>c\<close>, which starts as
  \<open>EOT\<close> and which a byte that is read overwrites.\<close>

fun xm_eot :: "'w uart_io \<Rightarrow> nat \<Rightarrow> u8 \<Rightarrow> 'w uart \<Rightarrow> (bool, 'w) act" where
  "xm_eot io 0 c s = Some (Ret False, s)"
| "xm_eot io (Suc tries) c s =
     andThen (write_all io [c] s) (\<lambda>_ s.
       andThen (read_byte_timeout io 5000 s) (\<lambda>r s.
         case r of
           None \<Rightarrow> xm_eot io tries c s
         | Some c' \<Rightarrow> if c' = ACK then Some (Ret True, s) else xm_eot io tries c' s))"

definition xm_fclose :: "'w uart \<Rightarrow> 'w uart" where
  "xm_fclose s = s\<lparr>ua_files := ua_files s - 1\<rparr>"

definition xm_complete :: string where
  "xm_complete = CHR 0x0A # ''XMODEM complete'' @ [CHR 0x0A]"

partial_function (option) xm_blocks ::
  "'w uart_io \<Rightarrow> bool \<Rightarrow> nat \<Rightarrow> bytes \<Rightarrow> 'w uart \<Rightarrow> (int, 'w) act" where
  "xm_blocks io ferr blk rest s =
     (if rest = [] then
        (if ferr then die s
         else andThen (xm_eot io 10 EOT s) (\<lambda>ok s.
           let s = xm_fclose s in
           if ok then Some (Ret 0, out xm_complete s) else Some (Ret 1, s)))
      else
        andThen (xm_send_block io (xm_packet blk (xm_pad (take 1024 rest))) s) (\<lambda>acked s.
          if \<not> acked then Some (Ret 1, xm_fclose s)
          else xm_blocks io ferr ((blk + 1) mod 256) (drop 1024 rest)
                 (if blk mod 16 = 0 then out ''.'' s else s)))"

definition send_xmodem_1k :: "'w uart_env \<Rightarrow> string \<Rightarrow> 'w uart \<Rightarrow> (int, 'w) act" where
  "send_xmodem_1k e path s =
     (case ue_file e path of
        None \<Rightarrow> die s
      | Some (file, ferr) \<Rightarrow> xm_blocks (ue_io e) ferr 1 file (s\<lparr>ua_files := ua_files s + 1\<rparr>))"

section \<open>The commands\<close>

record probe_cfg =
  pc_dev :: string
  pc_cmd :: string
  pc_baud :: int
  pc_timeout :: int

fun probe_opts :: "string list \<Rightarrow> probe_cfg \<Rightarrow> probe_cfg" where
  "probe_opts [] p = p"
| "probe_opts [a] p = p\<lparr>pc_cmd := a\<rparr>"
| "probe_opts (a # v # rest) p =
     (if a = ''-d'' then probe_opts rest (p\<lparr>pc_dev := v\<rparr>)
      else if a = ''-b'' then probe_opts rest (p\<lparr>pc_baud := atoi v\<rparr>)
      else if a = ''-t'' then probe_opts rest (p\<lparr>pc_timeout := atoi v\<rparr>)
      else probe_opts (v # rest) (p\<lparr>pc_cmd := a\<rparr>))"

definition probe_defaults :: probe_cfg where
  "probe_defaults = \<lparr>pc_dev = ''/dev/ttyS2'', pc_cmd = CRLF, pc_baud = 921600, pc_timeout = 3000\<rparr>"

definition cmd_probe :: "'w uart_env \<Rightarrow> string list \<Rightarrow> 'w uart \<Rightarrow> (int, 'w) act" where
  "cmd_probe e args s =
     (let p = probe_opts args probe_defaults; cmd = pc_cmd p in
      andThen (open_uart e (pc_dev p) (pc_baud p) s) (\<lambda>_ s.
      andThen (write_all (ue_io e) (c_bytes cmd) s) (\<lambda>_ s.
      andThen (if CHR 0x0D \<notin> set cmd \<and> CHR 0x0A \<notin> set cmd
               then write_all (ue_io e) (c_bytes CRLF) s else Some (Ret (), s)) (\<lambda>_ s.
      andThen (drain_print (ue_io e) (pc_timeout p) s) (\<lambda>_ s.
        Some (Ret 0, close_uart s))))))"

record load_cfg =
  lc_dev :: string
  lc_addr :: string
  lc_fw :: "string option"
  lc_baud :: int
  lc_timeout :: int

fun load_opts :: "string list \<Rightarrow> load_cfg \<Rightarrow> load_cfg" where
  "load_opts [] p = p"
| "load_opts [a] p = p\<lparr>lc_fw := Some a\<rparr>"
| "load_opts (a # v # rest) p =
     (if a = ''-d'' then load_opts rest (p\<lparr>lc_dev := v\<rparr>)
      else if a = ''-b'' then load_opts rest (p\<lparr>lc_baud := atoi v\<rparr>)
      else if a = ''-a'' then load_opts rest (p\<lparr>lc_addr := v\<rparr>)
      else if a = ''-t'' then load_opts rest (p\<lparr>lc_timeout := atoi v\<rparr>)
      else load_opts (v # rest) (p\<lparr>lc_fw := Some a\<rparr>))"

definition load_defaults :: load_cfg where
  "load_defaults =
     \<lparr>lc_dev = ''/dev/ttyS2'', lc_addr = ''160000'', lc_fw = None, lc_baud = 921600, lc_timeout = 3000\<rparr>"

text \<open>\<open>snprintf\<close> into 64 bytes.\<close>

definition load_line :: "char \<Rightarrow> string \<Rightarrow> string" where
  "load_line c addr = take 63 ([c, CHR '' ''] @ addr @ CRLF)"

definition cmd_load :: "'w uart_env \<Rightarrow> string list \<Rightarrow> 'w uart \<Rightarrow> (int, 'w) act" where
  "cmd_load e args s =
     (let p = load_opts args load_defaults in
      case lc_fw p of
        None \<Rightarrow> Some (Ret 1, s)
      | Some fw \<Rightarrow>
          andThen (open_uart e (lc_dev p) (lc_baud p) s) (\<lambda>_ s.
          andThen (write_all (ue_io e) (c_bytes (load_line CHR ''x'' (lc_addr p))) s) (\<lambda>_ s.
          andThen (wait_receiver (ue_io e) (lc_timeout p) s) (\<lambda>c s.
            if c = 0 then Some (Ret 1, close_uart s)
            else
              andThen (send_xmodem_1k e fw s) (\<lambda>ret s.
                if ret \<noteq> 0 then Some (Ret 1, close_uart s)
                else
                  andThen (drain_print (ue_io e) 1000 s) (\<lambda>_ s.
                  andThen (write_all (ue_io e) (c_bytes (load_line CHR ''g'' (lc_addr p))) s) (\<lambda>_ s.
                  andThen (drain_print (ue_io e) 5000 s) (\<lambda>_ s.
                    Some (Ret 0, close_uart s)))))))))"

definition uart_main :: "'w uart_env \<Rightarrow> string list \<Rightarrow> 'w uart \<Rightarrow> (int, 'w) act" where
  "uart_main e args s =
     (case args of
        [] \<Rightarrow> Some (Ret 1, s)
      | a # rest \<Rightarrow>
          if a = ''-h'' \<or> a = ''--help'' then Some (Ret 0, s)
          else if a = ''probe'' then cmd_probe e rest s
          else if a = ''load'' then cmd_load e rest s
          else Some (Ret 1, s))"

end
