(* ===== verification/Mfg_Xmodem.thy ===== *)
theory Mfg_Xmodem
  imports Mfg_Uart
begin

text \<open>
  The other end of \<^verbatim>\<open>mfg-aic-uart\<close>: an XMODEM-1K receiver as the protocol describes it,
  which checks a packet by long division, and a noisy line in between that damages, loses or
  answers wrongly. The lemmas follow one packet, the packets of a file and the end of the file
  through such a line.
\<close>

section \<open>The receiver\<close>

record xm_rx =
  xr_next :: u8
  xr_data :: bytes
  xr_eot :: bool

definition xm_valid :: "bytes \<Rightarrow> bool" where
  "xm_valid p \<longleftrightarrow> length p = 1029 \<and> p ! 0 = STX \<and> p ! 2 = 255 - p ! 1 \<and>
     bits16 (get_be16 (drop 1027 p)) = poly_rem (message_bits (take 1024 (drop 3 p)))"

text \<open>A packet that repeats the last one is acknowledged and dropped; one that is out of step
  ends the transfer.\<close>

definition xm_receive :: "bytes \<Rightarrow> xm_rx \<Rightarrow> u8 \<times> xm_rx" where
  "xm_receive p r =
     (if p = [EOT] then (ACK, r\<lparr>xr_eot := True\<rparr>)
      else if \<not> xm_valid p then (NAK, r)
      else if p ! 1 = xr_next r
        then (ACK, r\<lparr>xr_next := xr_next r + 1, xr_data := xr_data r @ take 1024 (drop 3 p)\<rparr>)
      else if p ! 1 = xr_next r - 1 then (ACK, r)
      else (CAN, r))"

section \<open>The line\<close>

text \<open>One attempt to send a packet: a byte of it is changed, it is lost, the answer is lost, or
  the answer arrives as another byte.\<close>

datatype fault = Corrupt nat u8 | Lost | No_Reply | Bad_Reply u8

definition fault_ok :: "fault \<Rightarrow> bool" where
  "fault_ok f = (case f of Bad_Reply b \<Rightarrow> b \<noteq> ACK \<and> b \<noteq> CAN | _ \<Rightarrow> True)"

text \<open>\<open>xl_chunks\<close> says how many bytes each \<open>write\<close> takes, or that it takes none now;
  \<open>xl_eots\<close> is the number of \<open>EOT\<close> that are lost. The loader understands \<^verbatim>\<open>x\<close> and,
  after a transfer, \<^verbatim>\<open>g\<close>.\<close>

record xm_link =
  xl_chunks :: "nat option list"
  xl_sent :: bytes
  xl_faults :: "fault list"
  xl_eots :: nat
  xl_rx :: xm_rx
  xl_addr :: "bytes option"
  xl_go :: "bytes option"

definition link_write :: "bytes \<Rightarrow> xm_link \<Rightarrow> wr \<times> xm_link" where
  "link_write p w =
     (case xl_chunks w of
        [] \<Rightarrow> (Wr_Some (length p), w\<lparr>xl_sent := xl_sent w @ p\<rparr>)
      | None # cs \<Rightarrow> (Wr_Again, w\<lparr>xl_chunks := cs\<rparr>)
      | Some n # cs \<Rightarrow>
          (Wr_Some (min n (length p)), w\<lparr>xl_chunks := cs, xl_sent := xl_sent w @ take n p\<rparr>))"

definition link_answer :: "bytes \<Rightarrow> xm_link \<Rightarrow> sel \<times> xm_link" where
  "link_answer p w = (case xm_receive p (xl_rx w) of (b, r) \<Rightarrow> (Sel_Ready (Some b), w\<lparr>xl_rx := r\<rparr>))"

definition link_packet :: "bytes \<Rightarrow> xm_link \<Rightarrow> sel \<times> xm_link" where
  "link_packet p w =
     (case xl_faults w of
        [] \<Rightarrow> link_answer p w
      | f # fs \<Rightarrow>
          (let w = w\<lparr>xl_faults := fs\<rparr> in
           case f of
             Corrupt i v \<Rightarrow> link_answer (p[i := v]) w
           | Lost \<Rightarrow> (Sel_Timeout, w)
           | No_Reply \<Rightarrow> (Sel_Timeout, snd (link_answer p w))
           | Bad_Reply b \<Rightarrow> (Sel_Ready (Some b), snd (link_answer p w))))"

definition link_select :: "int \<Rightarrow> int \<Rightarrow> xm_link \<Rightarrow> sel \<times> xm_link" where
  "link_select tv_sec tv_usec w =
     (let p = xl_sent w; w = w\<lparr>xl_sent := []\<rparr> in
      if p = [] then (Sel_Timeout, w)
      else if xl_addr w = None then
        (if take 2 p = c_bytes ''x '' then (Sel_Ready (Some (of_char CHR ''C'')), w\<lparr>xl_addr := Some (drop 2 p)\<rparr>)
         else (Sel_Timeout, w))
      else if xr_eot (xl_rx w) then
        (if take 2 p = c_bytes ''g '' then (Sel_Timeout, w\<lparr>xl_go := Some (drop 2 p)\<rparr>) else (Sel_Timeout, w))
      else if p = [EOT] then
        (if xl_eots w > 0 then (Sel_Timeout, w\<lparr>xl_eots := xl_eots w - 1\<rparr>) else link_answer p w)
      else link_packet p w)"

definition noisy_io :: "xm_link uart_io" where
  "noisy_io = \<lparr>io_write = link_write, io_select = link_select\<rparr>"

lemma noisy_io_simps [simp]: "io_write noisy_io = link_write" "io_select noisy_io = link_select"
  by (simp_all add: noisy_io_def)

section \<open>Packets\<close>

lemma ucast_and_ff: "(ucast (crc AND 0xff :: u16) :: u8) = ucast crc"
proof -
  have m: "(0xff :: u16) = mask 8" by (simp add: mask_eq_exp_minus_1)
  show ?thesis unfolding m by (rule bit_word_eqI) (auto simp: bit_simps)
qed

lemma xm_packet_split:
  "xm_packet k data = [STX, of_nat k, 255 - of_nat k] @ data @ be16 (crc16_ccitt data)"
  by (simp add: xm_packet_def be16_def Let_def ucast_and_ff)

lemma xm_packet_parts:
  assumes "length data = 1024"
  shows "length (xm_packet k data) = 1029" "xm_packet k data ! 0 = STX"
    "xm_packet k data ! Suc 0 = of_nat k" "xm_packet k data ! 2 = 255 - of_nat k"
    "take 1024 (drop 3 (xm_packet k data)) = data"
    "drop 1027 (xm_packet k data) = be16 (crc16_ccitt data)"
  using assms by (simp_all add: xm_packet_split)

lemma xm_packet_valid: "length data = 1024 \<Longrightarrow> xm_valid (xm_packet k data)"
  using get_be16_be16 [of "crc16_ccitt data" "[]"]
  by (simp add: xm_valid_def xm_packet_parts crc16_remainder)

lemma xm_valid_crc:
  assumes "xm_valid p"
  shows "get_be16 (drop 1027 p) = crc16_ccitt (take 1024 (drop 3 p))"
  using assms by (intro bits16_inj) (simp add: xm_valid_def crc16_remainder)

lemma get_be16_inj: "get_be16 [a, b] = get_be16 [c, d] \<Longrightarrow> a = c \<and> b = d"
  using be16_get_be16 [of "[a, b]"] be16_get_be16 [of "[c, d]"] by (metis length_Cons list.inject list.size(3) numeral_2_eq_2)

text \<open>Changing one byte of a valid packet makes it invalid, wherever the byte is.\<close>

lemma xm_valid_head:
  assumes "xm_valid p" and "xm_valid (p[i := v])" and "i < 3"
  shows "p ! i = v"
proof -
  have len: "length p = 1029" using assms(1) by (simp add: xm_valid_def)
  from assms(3) consider "i = 0" | "i = 1" | "i = 2" by linarith
  then show ?thesis
    using assms(1,2) len by cases (auto simp: xm_valid_def)
qed

lemma xm_valid_data:
  assumes "xm_valid p" and "xm_valid (p[i := v])" and "3 \<le> i" and "i < 1027"
  shows "p ! i = v"
proof (rule ccontr)
  let ?d = "take 1024 (drop 3 p)"
  assume ne: "p ! i \<noteq> v"
  have len: "length p = 1029" using assms(1) by (simp add: xm_valid_def)
  have "take 1024 (drop 3 (p[i := v])) = ?d[i - 3 := v]"
    using assms(3) len by (simp add: drop_update_swap take_update_swap)
  moreover have "drop 1027 (p[i := v]) = drop 1027 p" using assms(4) by simp
  ultimately have "crc16_ccitt (?d[i - 3 := v]) = crc16_ccitt ?d"
    using xm_valid_crc [OF assms(1)] xm_valid_crc [OF assms(2)] by simp
  moreover have "?d ! (i - 3) = p ! i" and "i - 3 < length ?d" using assms(3,4) len by simp_all
  ultimately show False using crc16_update [of "i - 3" ?d v] ne by simp
qed

lemma xm_valid_tail:
  assumes "xm_valid p" and "xm_valid (p[i := v])" and "1027 \<le> i" and "i < 1029"
  shows "p ! i = v"
proof -
  have len: "length p = 1029" using assms(1) by (simp add: xm_valid_def)
  have dr: "drop 1027 p = [p ! 1027, p ! 1028]"
    using len Cons_nth_drop_Suc [of 1027 p] Cons_nth_drop_Suc [of 1028 p] by simp
  have dr': "drop 1027 (p[i := v]) = [p ! 1027, p ! 1028][i - 1027 := v]"
    using len assms(3) by (simp add: drop_update_swap dr)
  have "take 1024 (drop 3 (p[i := v])) = take 1024 (drop 3 p)"
    using assms(3) by (simp add: drop_update_swap)
  then have eq: "get_be16 ([p ! 1027, p ! 1028][i - 1027 := v]) = get_be16 [p ! 1027, p ! 1028]"
    using xm_valid_crc [OF assms(1)] xm_valid_crc [OF assms(2)] dr dr' by simp
  from assms(3,4) consider "i = 1027" | "i = 1028" by linarith
  then show ?thesis
    by cases (use eq get_be16_inj in \<open>auto dest!: get_be16_inj simp del: get_be16.simps\<close>)
qed

lemma xm_valid_one_byte:
  assumes "xm_valid p" and "xm_valid (p[i := v])"
  shows "p[i := v] = p"
proof (cases "i < 1029")
  case True
  then consider "i < 3" | "3 \<le> i" "i < 1027" | "1027 \<le> i" by linarith
  then have "p ! i = v"
    by cases (auto intro: xm_valid_head xm_valid_data xm_valid_tail assms True)
  then show ?thesis by auto
next
  case False
  then show ?thesis using assms(1) by (simp add: xm_valid_def list_update_beyond)
qed

text \<open>What the receiver has after the packet, whether it is the first copy or a later one.\<close>

definition xm_take :: "nat \<Rightarrow> bytes \<Rightarrow> xm_rx \<Rightarrow> xm_rx" where
  "xm_take k data r =
     (if xr_next r = of_nat k then r\<lparr>xr_next := xr_next r + 1, xr_data := xr_data r @ data\<rparr> else r)"

definition xm_in_step :: "nat \<Rightarrow> xm_rx \<Rightarrow> bool" where
  "xm_in_step k r \<longleftrightarrow> xr_next r = of_nat k \<or> xr_next r = of_nat k + 1"

lemma xm_in_step_take [simp]: "xm_in_step k r \<Longrightarrow> xm_in_step k (xm_take k data r)"
  by (auto simp: xm_in_step_def xm_take_def)

lemma xm_take_idem [simp]: "xm_take k data (xm_take k data r) = xm_take k data r"
  by (simp add: xm_take_def)

lemma xm_take_eot [simp]: "xr_eot (xm_take k data r) = xr_eot r"
  by (simp add: xm_take_def)

lemma xm_receive_packet:
  assumes "length data = 1024" and "xm_in_step k r"
  shows "xm_receive (xm_packet k data) r = (ACK, xm_take k data r)"
proof -
  have "xm_packet k data \<noteq> [EOT]" using xm_packet_parts(1) [OF assms(1), of k] by auto
  then show ?thesis
    using assms by (auto simp: xm_receive_def xm_packet_valid xm_packet_parts xm_take_def xm_in_step_def)
qed

lemma xm_receive_corrupt:
  assumes "length data = 1024" and "xm_in_step k r"
  shows "xm_receive ((xm_packet k data)[i := v]) r \<in> {(ACK, xm_take k data r), (NAK, r)}"
proof (cases "xm_valid ((xm_packet k data)[i := v])")
  case True
  then have "(xm_packet k data)[i := v] = xm_packet k data"
    by (rule xm_valid_one_byte [OF xm_packet_valid [OF assms(1)]])
  then show ?thesis using xm_receive_packet [OF assms] by simp
next
  case False
  have "length ((xm_packet k data)[i := v]) = 1029" by (simp add: xm_packet_parts assms(1))
  then have "(xm_packet k data)[i := v] \<noteq> [EOT]" by (auto dest: arg_cong [where f = length])
  with False show ?thesis by (simp add: xm_receive_def)
qed

text \<open>An attempt ends in the acknowledgement or uses up a fault.\<close>

lemma link_packet_cases:
  assumes "length data = 1024" and "xm_in_step k (xl_rx w)" and "list_all fault_ok (xl_faults w)"
  obtains (acked) fs where "list_all fault_ok fs"
      "link_packet (xm_packet k data) w
        = (Sel_Ready (Some ACK), w\<lparr>xl_faults := fs, xl_rx := xm_take k data (xl_rx w)\<rparr>)"
    | (silent) f fs r where "xl_faults w = f # fs" "r = xl_rx w \<or> r = xm_take k data (xl_rx w)"
      "link_packet (xm_packet k data) w = (Sel_Timeout, w\<lparr>xl_faults := fs, xl_rx := r\<rparr>)"
    | (refused) f fs r b where "xl_faults w = f # fs" "r = xl_rx w \<or> r = xm_take k data (xl_rx w)"
      "b \<noteq> ACK" "b \<noteq> CAN"
      "link_packet (xm_packet k data) w = (Sel_Ready (Some b), w\<lparr>xl_faults := fs, xl_rx := r\<rparr>)"
proof (cases "xl_faults w")
  case Nil
  then show ?thesis
    using acked [of "[]"] xm_receive_packet [OF assms(1,2)] by (simp add: link_packet_def link_answer_def)
next
  case (Cons f fs)
  note step = xm_receive_packet [OF assms(1,2)]
  show ?thesis
  proof (cases f)
    case (Corrupt i v)
    have "NAK \<noteq> ACK" "NAK \<noteq> CAN" by (simp_all add: xmodem_codes)
    then show ?thesis
      using acked [of fs] refused [of f fs "xl_rx w" NAK] xm_receive_corrupt [OF assms(1,2), of i v] Cons
        Corrupt assms(3) by (auto simp: link_packet_def link_answer_def)
  next
    case Lost
    then show ?thesis using silent [of f fs "xl_rx w"] Cons by (simp add: link_packet_def)
  next
    case No_Reply
    then show ?thesis
      using silent [of f fs "xm_take k data (xl_rx w)"] Cons step
      by (simp add: link_packet_def link_answer_def)
  next
    case (Bad_Reply b)
    then show ?thesis
      using refused [of f fs "xm_take k data (xl_rx w)" b] Cons step assms(3)
      by (simp add: link_packet_def link_answer_def fault_ok_def)
  qed
qed

section \<open>Calls on the line\<close>

lemma write_all_Nil [simp]: "write_all io [] s = Some (Ret (), s)"
  by (subst write_all.simps) simp

lemma write_all_link:
  "\<exists>cs. write_all noisy_io p s =
     Some (Ret (), s\<lparr>ua_dev := (ua_dev s)\<lparr>xl_chunks := cs, xl_sent := xl_sent (ua_dev s) @ p\<rparr>\<rparr>)"
proof (induction "xl_chunks (ua_dev s)" arbitrary: p s)
  case Nil
  then show ?case
    by (subst write_all.simps) (auto simp: link_write_def intro!: exI [of _ "[]"])
next
  case (Cons c cs)
  let ?s = "\<lambda>q. s\<lparr>ua_dev := (ua_dev s)\<lparr>xl_chunks := cs, xl_sent := xl_sent (ua_dev s) @ q\<rparr>\<rparr>"
  show ?case
  proof (cases "p = []")
    case True
    then show ?thesis by (auto intro!: exI [of _ "xl_chunks (ua_dev s)"])
  next
    case False
    show ?thesis
    proof (cases c)
      case None
      from Cons(1) [of "?s []" p] obtain cs' where
        "write_all noisy_io p (?s []) = Some (Ret (), (?s [])\<lparr>ua_dev := (ua_dev (?s []))\<lparr>xl_chunks := cs',
           xl_sent := xl_sent (ua_dev (?s [])) @ p\<rparr>\<rparr>)" by auto
      with False None Cons(2) [symmetric] show ?thesis
        by (subst write_all.simps) (auto simp: link_write_def)
    next
      case (Some n)
      from Cons(1) [of "?s (take n p)" "drop n p"] obtain cs' where
        "write_all noisy_io (drop n p) (?s (take n p)) = Some (Ret (), (?s (take n p))\<lparr>ua_dev :=
          (ua_dev (?s (take n p)))\<lparr>xl_chunks := cs', xl_sent := xl_sent (ua_dev (?s (take n p))) @ drop n p\<rparr>\<rparr>)"
        by auto
      moreover have "drop (min n (length p)) p = drop n p" by (simp add: min_def)
      ultimately show ?thesis
        using False Some Cons(2) [symmetric]
        by (subst write_all.simps) (auto simp: link_write_def)
    qed
  qed
qed

lemma read_link:
  "read_byte_timeout noisy_io t s =
     (case link_select 0 0 (ua_dev s) of
        (r, d) \<Rightarrow> (case r of Sel_Error \<Rightarrow> die (s\<lparr>ua_dev := d\<rparr>) | Sel_Ready c \<Rightarrow> Some (Ret c, s\<lparr>ua_dev := d\<rparr>)
                  | _ \<Rightarrow> Some (Ret None, s\<lparr>ua_dev := d\<rparr>)))"
  by (simp add: read_byte_timeout_def link_select_def Let_def split: prod.split sel.split)

text \<open>The line between two packets, and what a packet changes of it.\<close>

definition xm_open :: "nat \<Rightarrow> xm_link \<Rightarrow> bool" where
  "xm_open k w \<longleftrightarrow> xl_sent w = [] \<and> xl_addr w \<noteq> None \<and> \<not> xr_eot (xl_rx w) \<and>
     list_all fault_ok (xl_faults w) \<and> xm_in_step k (xl_rx w)"

definition xm_leaves :: "xm_link \<Rightarrow> xm_rx \<Rightarrow> xm_link \<Rightarrow> bool" where
  "xm_leaves w r w' \<longleftrightarrow> list_all fault_ok (xl_faults w') \<and>
     w' = w\<lparr>xl_chunks := xl_chunks w', xl_sent := [], xl_faults := xl_faults w', xl_rx := r\<rparr>"

lemma xm_leaves_trans: "xm_leaves w r w' \<Longrightarrow> xm_leaves w' r' w'' \<Longrightarrow> xm_leaves w r' w''"
  by (cases w; cases w'; cases w''; simp add: xm_leaves_def)

lemma select_packet:
  assumes "xm_open k w" and "length data = 1024"
  shows "link_select 0 0 (w\<lparr>xl_chunks := cs, xl_sent := xm_packet k data\<rparr>)
    = link_packet (xm_packet k data) (w\<lparr>xl_chunks := cs, xl_sent := []\<rparr>)"
proof -
  have "xm_packet k data \<noteq> [] \<and> xm_packet k data \<noteq> [EOT]"
    using xm_packet_parts(1) [OF assms(2), of k] by auto
  then show ?thesis using assms(1) by (auto simp: link_select_def xm_open_def Let_def)
qed

text \<open>A packet is delivered once, however often the line fails.\<close>

lemma xm_send_block_link:
  assumes "length data = 1024" and "xm_open k (ua_dev s)"
  shows "\<exists>d. xm_send_block noisy_io (xm_packet k data) s = Some (Ret True, s\<lparr>ua_dev := d\<rparr>) \<and>
    xm_leaves (ua_dev s) (xm_take k data (xl_rx (ua_dev s))) d"
  using assms(2)
proof (induction "xl_faults (ua_dev s)" arbitrary: s rule: length_induct)
  case 1
  let ?p = "xm_packet k data"
  let ?w = "ua_dev s"
  obtain cs where wr: "write_all noisy_io ?p s
      = Some (Ret (), s\<lparr>ua_dev := ?w\<lparr>xl_chunks := cs, xl_sent := ?p\<rparr>\<rparr>)"
    using write_all_link [of ?p s] 1(2) by (auto simp: xm_open_def)
  let ?v = "?w\<lparr>xl_chunks := cs, xl_sent := []\<rparr>"
  have unf: "xm_send_block noisy_io ?p s =
     andThen (read_byte_timeout noisy_io 10000 (s\<lparr>ua_dev := ?w\<lparr>xl_chunks := cs, xl_sent := ?p\<rparr>\<rparr>)) (\<lambda>r s.
         case r of
           None \<Rightarrow> xm_send_block noisy_io ?p s
         | Some c \<Rightarrow>
             if c = ACK then Some (Ret True, s)
             else if c = NAK then xm_send_block noisy_io ?p s
             else if c = CAN then Some (Ret False, s)
             else xm_send_block noisy_io ?p s)"
    by (subst xm_send_block.simps) (simp add: wr)
  have again: "\<exists>d. xm_send_block noisy_io ?p (s\<lparr>ua_dev := ?v\<lparr>xl_faults := fs, xl_rx := r\<rparr>\<rparr>)
        = Some (Ret True, s\<lparr>ua_dev := d\<rparr>) \<and> xm_leaves ?w (xm_take k data (xl_rx ?w)) d"
    if f: "xl_faults ?w = f # fs" and r: "r = xl_rx ?w \<or> r = xm_take k data (xl_rx ?w)" for f fs r
  proof -
    let ?s = "s\<lparr>ua_dev := ?v\<lparr>xl_faults := fs, xl_rx := r\<rparr>\<rparr>"
    have "xm_open k (ua_dev ?s)" using 1(2) f r by (auto simp: xm_open_def)
    then obtain d where "xm_send_block noisy_io ?p ?s = Some (Ret True, ?s\<lparr>ua_dev := d\<rparr>)"
      and "xm_leaves (ua_dev ?s) (xm_take k data r) d"
      using 1(1) [rule_format, of fs ?s] f by auto
    with r f 1(2) show ?thesis by (auto simp: xm_leaves_def xm_open_def)
  qed
  have rx: "xm_in_step k (xl_rx ?v)" "list_all fault_ok (xl_faults ?v)"
    using 1(2) by (simp_all add: xm_open_def)
  note sel = select_packet [OF 1(2) assms(1), of cs]
  from assms(1) rx show ?case
  proof (cases rule: link_packet_cases)
    case (acked fs)
    then show ?thesis by (auto simp: unf read_link sel xm_leaves_def)
  next
    case (silent f fs r)
    then show ?thesis using again [of f fs r] by (simp add: unf read_link sel)
  next
    case (refused f fs r b)
    then show ?thesis using again [of f fs r] by (simp add: unf read_link sel)
  qed
qed

text \<open>The end of the file, when fewer than ten \<open>EOT\<close> are lost.\<close>

lemma select_eot:
  assumes "xl_addr w \<noteq> None" and "\<not> xr_eot (xl_rx w)"
  shows "link_select 0 0 (w\<lparr>xl_chunks := cs, xl_sent := [EOT]\<rparr>)
    = (if xl_eots w > 0 then (Sel_Timeout, w\<lparr>xl_chunks := cs, xl_sent := [], xl_eots := xl_eots w - 1\<rparr>)
       else (Sel_Ready (Some ACK),
         w\<lparr>xl_chunks := cs, xl_sent := [], xl_rx := (xl_rx w)\<lparr>xr_eot := True\<rparr>\<rparr>))"
  using assms by (auto simp: link_select_def link_answer_def xm_receive_def Let_def)

lemma xm_eot_link:
  assumes "xl_sent (ua_dev s) = []" and "xl_addr (ua_dev s) \<noteq> None" and "\<not> xr_eot (xl_rx (ua_dev s))"
    and "xl_eots (ua_dev s) < tries"
  shows "\<exists>cs. xm_eot noisy_io tries EOT s = Some (Ret True, s\<lparr>ua_dev := (ua_dev s)\<lparr>xl_chunks := cs,
    xl_eots := 0, xl_rx := (xl_rx (ua_dev s))\<lparr>xr_eot := True\<rparr>\<rparr>\<rparr>)"
  using assms
proof (induction tries arbitrary: s)
  case (Suc tries)
  let ?w = "ua_dev s"
  obtain cs where wr: "write_all noisy_io [EOT] s
      = Some (Ret (), s\<lparr>ua_dev := ?w\<lparr>xl_chunks := cs, xl_sent := [EOT]\<rparr>\<rparr>)"
    using write_all_link [of "[EOT]" s] Suc.prems(1) by auto
  note sel = select_eot [OF Suc.prems(2,3), of cs]
  show ?case
  proof (cases "xl_eots ?w")
    case 0
    with Suc.prems(1) show ?thesis
      by (auto simp: wr read_link sel intro!: exI [of _ cs] xm_link.equality uart.equality)
  next
    case (Suc n)
    let ?s = "s\<lparr>ua_dev := ?w\<lparr>xl_chunks := cs, xl_sent := [], xl_eots := n\<rparr>\<rparr>"
    from Suc.IH [of ?s] Suc.prems Suc obtain cs' where
      "xm_eot noisy_io tries EOT ?s = Some (Ret True, ?s\<lparr>ua_dev := (ua_dev ?s)\<lparr>xl_chunks := cs',
         xl_eots := 0, xl_rx := (xl_rx (ua_dev ?s))\<lparr>xr_eot := True\<rparr>\<rparr>\<rparr>)"
      by auto
    with Suc Suc.prems(1) show ?thesis
      by (auto simp: wr read_link sel intro!: exI [of _ cs'])
  qed
qed simp

end
