(* ===== verification/Mfg_Correct.thy ===== *)
theory Mfg_Correct
  imports Mfg_Xmodem
begin

text \<open>
  What \<^verbatim>\<open>mfg-aic-uart\<close> achieves: a firmware file arrives in the chip through a line that
  damages and loses packets, its checksum is the polynomial remainder of the protocol, and what
  happens when the end of the file is not acknowledged at once.
\<close>

section \<open>A whole file\<close>

definition xm_file :: "bytes \<Rightarrow> bytes" where
  "xm_file file = file @ replicate ((1024 - length file mod 1024) mod 1024) CPMEOF"

lemma xm_file_Nil [simp]: "xm_file [] = []"
  by (simp add: xm_file_def)

lemma xm_file_block: "rest \<noteq> [] \<Longrightarrow> xm_file rest = xm_pad (take 1024 rest) @ xm_file (drop 1024 rest)"
proof (cases "length rest \<le> 1024")
  case True
  assume "rest \<noteq> []"
  with True have "(1024 - length rest mod 1024) mod 1024 = 1024 - length rest"
    by (cases "length rest = 1024") (auto simp: length_greater_0_conv [symmetric] simp del: length_greater_0_conv)
  with True show ?thesis by (simp add: xm_file_def xm_pad_def)
next
  case False
  then have "(length rest - 1024) mod 1024 = length rest mod 1024" by (simp add: le_mod_geq)
  with False show ?thesis by (simp add: xm_file_def xm_pad_def min_def flip: append_assoc)
qed

lemma length_xm_pad [simp]: "length data \<le> 1024 \<Longrightarrow> length (xm_pad data) = 1024"
  by (simp add: xm_pad_def)

text \<open>What a transfer of the rest of the file does to the line, the receiver and the process.\<close>

definition xm_sent :: "bytes \<Rightarrow> xm_link uart \<Rightarrow> xm_link uart \<Rightarrow> bool" where
  "xm_sent rest s s' \<longleftrightarrow>
     xr_data (xl_rx (ua_dev s')) = xr_data (xl_rx (ua_dev s)) @ xm_file rest \<and>
     xr_eot (xl_rx (ua_dev s')) \<and> xl_sent (ua_dev s') = [] \<and>
     xl_addr (ua_dev s') = xl_addr (ua_dev s) \<and> xl_go (ua_dev s') = xl_go (ua_dev s) \<and>
     ua_fds s' = ua_fds s \<and> ua_files s' = ua_files s - 1"

lemma of_nat_mod_256: "(of_nat (n mod 256) :: u8) = of_nat n"
  by (rule word_unat_eq_iff [THEN iffD2]) (simp add: unat_of_nat)

lemma xm_blocks_link:
  assumes "xm_open blk (ua_dev s)" and "xr_next (xl_rx (ua_dev s)) = of_nat blk"
    and "xl_eots (ua_dev s) < 10"
  shows "\<exists>s'. xm_blocks noisy_io False blk rest s = Some (Ret 0, s') \<and> xm_sent rest s s'"
  using assms
proof (induction "length rest" arbitrary: blk rest s rule: less_induct)
  case less
  let ?w = "ua_dev s"
  show ?case
  proof (cases "rest = []")
    case True
    have "xl_sent ?w = []" "xl_addr ?w \<noteq> None" "\<not> xr_eot (xl_rx ?w)"
      using less.prems(1) by (simp_all add: xm_open_def)
    from xm_eot_link [OF this less.prems(3)] True show ?thesis
      using less.prems(1)
      by (subst xm_blocks.simps) (auto simp: xm_sent_def xm_fclose_def out_def xm_open_def Let_def)
  next
    case False
    let ?data = "xm_pad (take 1024 rest)"
    have len: "length ?data = 1024" by simp
    from xm_send_block_link [OF len less.prems(1)] obtain d where
      send: "xm_send_block noisy_io (xm_packet blk ?data) s = Some (Ret True, s\<lparr>ua_dev := d\<rparr>)"
      and d: "xm_leaves ?w (xm_take blk ?data (xl_rx ?w)) d" by blast
    let ?s = "(if blk mod 16 = 0 then out ''.'' (s\<lparr>ua_dev := d\<rparr>) else s\<lparr>ua_dev := d\<rparr>)"
    have rx: "xl_rx d = (xl_rx ?w)\<lparr>xr_next := of_nat blk + 1, xr_data := xr_data (xl_rx ?w) @ ?data\<rparr>"
      and keep: "xl_sent d = []" "xl_addr d = xl_addr ?w" "xl_eots d = xl_eots ?w" "xl_go d = xl_go ?w"
        "list_all fault_ok (xl_faults d)"
      using d less.prems(2)
      by (auto simp: xm_leaves_def xm_take_def dest: arg_cong [where f = xl_rx] arg_cong [where f = xl_sent]
          arg_cong [where f = xl_addr] arg_cong [where f = xl_eots] arg_cong [where f = xl_go])
    have dev: "ua_dev ?s = d" "ua_fds ?s = ua_fds s" "ua_files ?s = ua_files s" by (simp_all add: out_def)
    have num: "of_nat ((blk + 1) mod 256) = (of_nat blk + 1 :: u8)" by (simp add: of_nat_mod_256)
    have "xm_open ((blk + 1) mod 256) (ua_dev ?s)"
      using less.prems(1) keep rx num by (simp add: dev xm_open_def xm_in_step_def)
    then obtain s' where rec: "xm_blocks noisy_io False ((blk + 1) mod 256) (drop 1024 rest) ?s = Some (Ret 0, s')"
      and sent: "xm_sent (drop 1024 rest) ?s s'"
      using less.hyps [of "drop 1024 rest" "(blk + 1) mod 256" ?s] False less.prems(3) keep rx num dev
      by auto
    have "xm_sent rest s s'"
      using sent False keep(2,4) rx by (simp add: xm_sent_def dev xm_file_block [of rest])
    moreover have "xm_blocks noisy_io False blk rest s = Some (Ret 0, s')"
      using rec by (subst xm_blocks.simps) (auto simp: False send split: if_splits)
    ultimately show ?thesis by blast
  qed
qed

section \<open>The commands around the transfer\<close>

lemma drain_print_quiet:
  assumes "xl_sent (ua_dev s) = []"
  shows "drain_print noisy_io t s = Some (Ret (), s)"
proof -
  have "(ua_dev s)\<lparr>xl_sent := []\<rparr> = ua_dev s" using assms by (cases "ua_dev s") simp
  then show ?thesis by (subst drain_print.simps) (simp add: read_link link_select_def Let_def assms)
qed

lemma drain_print_go:
  assumes "xl_sent (ua_dev s) = c_bytes ''g '' @ a" and "xl_addr (ua_dev s) \<noteq> None"
    and "xr_eot (xl_rx (ua_dev s))"
  shows "drain_print noisy_io t s = Some (Ret (), s\<lparr>ua_dev := (ua_dev s)\<lparr>xl_sent := [], xl_go := Some a\<rparr>\<rparr>)"
  using assms by (subst drain_print.simps) (auto simp: read_link link_select_def Let_def c_bytes_def)

lemma wait_receiver_ready:
  assumes "xl_sent (ua_dev s) = c_bytes ''x '' @ a" and "xl_addr (ua_dev s) = None"
  shows "wait_receiver noisy_io t s = Some (Ret (of_char CHR ''C''),
    out ''C'' (s\<lparr>ua_dev := (ua_dev s)\<lparr>xl_sent := [], xl_addr := Some a\<rparr>\<rparr>))"
proof -
  have "char_of (67 :: nat) = CHR ''C''" by code_simp
  with assms show ?thesis
    by (subst wait_receiver.simps) (auto simp: read_link link_select_def Let_def c_bytes_def print_byte_def)
qed

lemma load_line_short:
  "length addr \<le> 59 \<Longrightarrow> c_bytes (load_line c addr) = c_bytes [c, CHR '' ''] @ c_bytes (addr @ CRLF)"
  by (simp add: load_line_def c_bytes_def CRLF_def)

section \<open>A line that plays back answers\<close>

text \<open>What has been sent, and the bytes the other end will still answer; then it is silent.\<close>

definition script_io :: "(bytes \<times> u8 list) uart_io" where
  "script_io = \<lparr>
     io_write = (\<lambda>p (tx, rs). (Wr_Some (length p), (tx @ p, rs))),
     io_select = (\<lambda>_ _ (tx, rs). case rs of [] \<Rightarrow> (Sel_Timeout, (tx, [])) | r # rs \<Rightarrow> (Sel_Ready (Some r), (tx, rs)))\<rparr>"

lemma write_all_script:
  "ua_dev s = (tx, rs) \<Longrightarrow> write_all script_io p s = Some (Ret (), s\<lparr>ua_dev := (tx @ p, rs)\<rparr>)"
  by (cases "p = []"; cases s) (auto simp: write_all.simps [of _ p] script_io_def)

lemma read_script:
  "ua_dev s = (tx, r # rs) \<Longrightarrow>
   read_byte_timeout script_io t s = Some (Ret (Some r), s\<lparr>ua_dev := (tx, rs)\<rparr>)"
  "ua_dev s = (tx, []) \<Longrightarrow> read_byte_timeout script_io t s = Some (Ret None, s\<lparr>ua_dev := (tx, [])\<rparr>)"
  by (simp_all add: read_byte_timeout_def script_io_def)








lemma xm_send_block_silent:
  assumes "snd (ua_dev s) = []"
  shows "xm_send_block script_io p s = None"
proof -
  have "io = script_io \<longrightarrow> snd (ua_dev s) \<noteq> []" if "xm_send_block io p s = Some y"
    for io p s and y :: "bool res \<times> (bytes \<times> u8 list) uart"
  proof (rule xm_send_block.raw_induct [where P = "\<lambda>io p s y. io = script_io \<longrightarrow> snd (ua_dev s) \<noteq> []",
        OF _ that])
    fix f io p y and s :: "(bytes \<times> u8 list) uart"
    assume ih: "\<And>io p (s :: (bytes \<times> u8 list) uart) y. f io p s = Some y \<Longrightarrow>
        io = script_io \<longrightarrow> snd (ua_dev s) \<noteq> []"
      and body: "andThen (write_all io p s) (\<lambda>_ s.
       andThen (read_byte_timeout io 10000 s) (\<lambda>r s.
         case r of
           None \<Rightarrow> f io p s
         | Some c \<Rightarrow>
             if c = ACK then Some (Ret True, s)
             else if c = NAK then f io p s
             else if c = CAN then Some (Ret False, s)
             else f io p s)) = Some y"
    obtain tx rs where dev: "ua_dev s = (tx, rs)" by (cases "ua_dev s")
    show "io = script_io \<longrightarrow> snd (ua_dev s) \<noteq> []"
    proof
      assume io: "io = script_io"
      show "snd (ua_dev s) \<noteq> []"
      proof
        assume "snd (ua_dev s) = []"
        with body io dev have "f script_io p (s\<lparr>ua_dev := (tx @ p, [])\<rparr>) = Some y"
          by (simp add: write_all_script read_script)
        from ih [OF this] show False by simp
      qed
    qed
  qed
  with assms show ?thesis by (metis option.exhaust)
qed

section \<open>The properties\<close>

text \<open>C18: A firmware file arrives. The tool is run as \<^verbatim>\<open>load -a ADDR FW\<close> with an address of
  at most 59 characters against a loader that starts an XMODEM-1K receiver. Whatever the line does
  to the packets (a byte of a packet changed, packets lost, answers lost or turned into another byte
  than \<open>ACK\<close> or \<open>CAN\<close>, short and refused writes, up to nine lost \<open>EOT\<close>), as
  long as it fails finitely often the tool returns 0, the receiver holds exactly the file filled up
  to whole blocks with \<open>CPMEOF\<close>, each block once and in order, the loader is told to start at
  the same address, and the descriptor and the file are closed.\<close>

theorem mfg_load_delivers:
  assumes env: "ue_io e = noisy_io" "ue_open e ''/dev/ttyS2''" "ue_getattr e" "ue_setattr e"
      "ue_file e fw = Some (file, False)"
    and addr: "length addr \<le> 59"
    and line: "xl_sent (ua_dev s) = []" "xl_addr (ua_dev s) = None" "xl_eots (ua_dev s) < 10"
      "list_all fault_ok (xl_faults (ua_dev s))"
    and rx: "xl_rx (ua_dev s) = \<lparr>xr_next = 1, xr_data = [], xr_eot = False\<rparr>"
  shows "\<exists>s'. uart_main e [''load'', ''-a'', addr, fw] s = Some (Ret 0, s') \<and>
    xr_data (xl_rx (ua_dev s')) = xm_file file \<and>
    xl_addr (ua_dev s') = Some (c_bytes (addr @ CRLF)) \<and> xl_go (ua_dev s') = Some (c_bytes (addr @ CRLF)) \<and>
    ua_fds s' = ua_fds s \<and> ua_files s' = ua_files s"
proof -
  let ?a = "c_bytes (addr @ CRLF)"
  let ?s1 = "s\<lparr>ua_fds := ua_fds s + 1, ua_line := Some (''/dev/ttyS2'', 921600)\<rparr>"
  have opened: "open_uart e ''/dev/ttyS2'' 921600 s = Some (Ret (), ?s1)"
    by (simp add: open_uart_def env baud_to_speed_def baud_rates_def)
  obtain c1 where x: "write_all noisy_io (c_bytes ''x '' @ ?a) ?s1
      = Some (Ret (), ?s1\<lparr>ua_dev := (ua_dev s)\<lparr>xl_chunks := c1, xl_sent := c_bytes ''x '' @ ?a\<rparr>\<rparr>)"
    using write_all_link [of "c_bytes ''x '' @ ?a" ?s1] line(1) by auto
  let ?s2 = "out ''C'' (?s1\<lparr>ua_dev := (ua_dev s)\<lparr>xl_chunks := c1, xl_sent := [], xl_addr := Some ?a\<rparr>\<rparr>)"
  have w: "wait_receiver noisy_io t (?s1\<lparr>ua_dev := (ua_dev s)\<lparr>xl_chunks := c1,
      xl_sent := c_bytes ''x '' @ ?a\<rparr>\<rparr>) = Some (Ret (of_char CHR ''C''), ?s2)" for t
    using line(2) by (subst wait_receiver_ready [where a = ?a]) simp_all
  let ?s3 = "?s2\<lparr>ua_files := ua_files ?s2 + 1\<rparr>"
  have "xm_open 1 (ua_dev ?s3)" "xr_next (xl_rx (ua_dev ?s3)) = of_nat 1" "xl_eots (ua_dev ?s3) < 10"
    using line rx by (simp_all add: xm_open_def xm_in_step_def out_def)
  from xm_blocks_link [OF this] obtain s4 where
    blocks: "xm_blocks noisy_io False 1 file ?s3 = Some (Ret 0, s4)" and sent: "xm_sent file ?s3 s4" by blast
  have xm: "send_xmodem_1k e fw ?s2 = Some (Ret 0, s4)"
    using blocks by (simp add: send_xmodem_1k_def env)
  have q: "xl_sent (ua_dev s4) = []" "xl_addr (ua_dev s4) = Some ?a" "xr_eot (xl_rx (ua_dev s4))"
    using sent by (simp_all add: xm_sent_def out_def)
  obtain c2 where g: "write_all noisy_io (c_bytes ''g '' @ ?a) s4
      = Some (Ret (), s4\<lparr>ua_dev := (ua_dev s4)\<lparr>xl_chunks := c2, xl_sent := c_bytes ''g '' @ ?a\<rparr>\<rparr>)"
    using write_all_link [of "c_bytes ''g '' @ ?a" s4] q(1) by auto
  let ?s5 = "s4\<lparr>ua_dev := (ua_dev s4)\<lparr>xl_chunks := c2, xl_sent := [], xl_go := Some ?a\<rparr>\<rparr>"
  have go: "drain_print noisy_io t (s4\<lparr>ua_dev := (ua_dev s4)\<lparr>xl_chunks := c2,
      xl_sent := c_bytes ''g '' @ ?a\<rparr>\<rparr>) = Some (Ret (), ?s5)" for t
    using q by (subst drain_print_go [where a = ?a]) simp_all
  have "uart_main e [''load'', ''-a'', addr, fw] s = Some (Ret 0, close_uart ?s5)"
    by (simp add: uart_main_def cmd_load_def load_defaults_def opened env load_line_short addr x w xm
        drain_print_quiet q(1) g go)
  moreover have "ua_fds s4 = ua_fds s + 1" "ua_files s4 = ua_files s"
    using sent by (simp_all add: xm_sent_def out_def)
  ultimately show ?thesis
    using sent rx q(2) by (auto simp: xm_sent_def out_def close_uart_def)
qed

definition demo_env :: "'w uart_io \<Rightarrow> bytes \<Rightarrow> 'w uart_env" where
  "demo_env io file = \<lparr>ue_io = io, ue_open = (\<lambda>_. True), ue_getattr = True, ue_setattr = True,
     ue_file = (\<lambda>_. Some (file, False))\<rparr>"

definition demo_uart :: "'w \<Rightarrow> 'w uart" where
  "demo_uart d = \<lparr>ua_dev = d, ua_line = None, ua_fds = 0, ua_files = 0, ua_out = []\<rparr>"

definition demo_link :: xm_link where
  "demo_link = \<lparr>xl_chunks = [Some 1, None, Some 100, Some 0], xl_sent = [],
     xl_faults = [Lost, Corrupt 5 0, Bad_Reply NAK, No_Reply], xl_eots = 2,
     xl_rx = \<lparr>xr_next = 1, xr_data = [], xr_eot = False\<rparr>, xl_addr = None, xl_go = None\<rparr>"

theorem mfg_load_delivers_witness:
  "\<exists>s'. uart_main (demo_env noisy_io [1, 2, 3]) [''load'', ''-a'', ''160000'', ''fw.bin''] (demo_uart demo_link)
      = Some (Ret 0, s') \<and> xr_data (xl_rx (ua_dev s')) = [1, 2, 3] @ replicate 1021 CPMEOF"
proof -
  have "xm_file [1, 2, 3] = [1, 2, 3] @ replicate 1021 CPMEOF" by (simp add: xm_file_def)
  then show ?thesis
    using mfg_load_delivers [of "demo_env noisy_io [1, 2, 3]" "''fw.bin''" "[1, 2, 3]" "''160000''" "demo_uart demo_link"]
    by (auto simp: demo_env_def demo_uart_def demo_link_def fault_ok_def xmodem_codes)
qed

text \<open>C19: The checksum of a packet is the one of the protocol: the remainder of the message followed
  by sixteen zero bits on division by \<^verbatim>\<open>x^16 + x^12 + x^5 + 1\<close>. Two messages that differ in
  one byte never have the same checksum.\<close>

theorem crc16_is_remainder:
  "bits16 (crc16_ccitt buf) = poly_rem (message_bits buf) \<and>
   (crc16_ccitt (xs @ p # ys) = crc16_ccitt (xs @ q # ys) \<longleftrightarrow> p = q)"
  using crc16_remainder crc16_one_byte by blast



text \<open>C21: A loader that refuses the transfer hangs the tool. When the loader answers \<open>CAN\<close> to the
  command that should start the transfer and says nothing more, the tool takes it for readiness and
  sends the first packet for ever: it never returns.\<close>

theorem cancel_then_silence_hangs:
  assumes "ue_io e = script_io" "ue_open e ''/dev/ttyS2''" "ue_getattr e" "ue_setattr e"
    and "ue_file e fw = Some (file, ferr)" and "file \<noteq> []" and "ua_dev s = ([], [CAN])"
  shows "uart_main e [''load'', fw] s = None"
proof -
  let ?tx = "c_bytes (load_line CHR ''x'' ''160000'')"
  let ?s1 = "s\<lparr>ua_fds := ua_fds s + 1, ua_line := Some (''/dev/ttyS2'', 921600)\<rparr>"
  have opened: "open_uart e ''/dev/ttyS2'' 921600 s = Some (Ret (), ?s1)"
    by (simp add: open_uart_def assms baud_to_speed_def baud_rates_def)
  have x: "write_all script_io ?tx ?s1 = Some (Ret (), ?s1\<lparr>ua_dev := (?tx, [CAN])\<rparr>)"
    using write_all_script [of ?s1 "[]"] assms by simp
  let ?s2 = "out (print_byte CAN) (?s1\<lparr>ua_dev := (?tx, [])\<rparr>)"
  have w: "wait_receiver script_io t (?s1\<lparr>ua_dev := (?tx, [CAN])\<rparr>) = Some (Ret CAN, ?s2)" for t
    by (subst wait_receiver.simps) (simp add: read_script Let_def xmodem_codes)
  have "snd (ua_dev (?s2\<lparr>ua_files := ua_files ?s2 + 1\<rparr>)) = []" by (simp add: out_def)
  then have "send_xmodem_1k e fw ?s2 = None"
    by (simp add: send_xmodem_1k_def assms) (subst xm_blocks.simps, simp add: assms(6) xm_send_block_silent)
  then show ?thesis
    by (simp add: uart_main_def cmd_load_def load_defaults_def opened assms(1) x w) (simp add: xmodem_codes)
qed

theorem cancel_then_silence_hangs_witness:
  "uart_main (demo_env script_io [1]) [''load'', ''fw.bin''] (demo_uart ([], [CAN])) = None"
  by (rule cancel_then_silence_hangs [of _ _ "[1]" False]) (simp_all add: demo_env_def demo_uart_def)

end
