(* ===== verification/Mfg_Camera.thy ===== *)
theory Mfg_Camera
  imports C_Strings "HOL-Library.Monad_Syntax" Complex_Main
begin

text \<open>
  \<^verbatim>\<open>mfg-camera-test.c\<close>, the camera test of the production line: it picks a capture device,
  streams some frames and judges their statistics. The answers of the video driver are parameters,
  the results of \<open>xioctl\<close> after its retries; a ledger counts descriptors, mappings and heap
  objects. A \<open>double\<close> is an exact rational (the sums are integers far below \<open>2 ^ 53\<close>), and
  \<open>strtod\<close> a parameter that gives a finite number. Of a line of output the first two words are
  kept. \<open>None\<close> is undefined behaviour.
\<close>

unbundle bit_operations_syntax

section \<open>Options\<close>

record ct_options =
  ct_device :: "string option"
  ct_frames :: nat
  ct_min_mean :: rat
  ct_max_mean :: rat
  ct_min_variance :: rat
  ct_min_delta_percent :: rat
  ct_verbose :: bool

definition ct_defaults :: ct_options where
  "ct_defaults = \<lparr>ct_device = None, ct_frames = 5, ct_min_mean = 2, ct_max_mean = 253,
     ct_min_variance = 4, ct_min_delta_percent = 1 / 100, ct_verbose = False\<rparr>"

datatype ct_args = Ct_Help | Ct_Error | Ct_Ok ct_options

definition parse_uint :: "string \<Rightarrow> nat option" where
  "parse_uint arg =
     (let (v, rest, err) = strtoul0 arg in
      if err \<or> rest \<noteq> [] \<or> v = 0 \<or> v > 4294967295 then None else Some v)"

text \<open>\<open>strtod\<close> gives the number, what follows it and whether \<open>errno\<close> is set.\<close>

type_synonym c_strtod = "string \<Rightarrow> rat \<times> string \<times> bool"

definition parse_double :: "c_strtod \<Rightarrow> string \<Rightarrow> rat option" where
  "parse_double strtod arg =
     (let (v, rest, err) = strtod arg in if err \<or> rest \<noteq> [] then None else Some v)"

definition ct_value_opt :: "c_strtod \<Rightarrow> string \<Rightarrow> string \<Rightarrow> ct_options \<Rightarrow> ct_options option" where
  "ct_value_opt strtod a v o' =
     (if a = ''-d'' \<or> a = ''--device'' then Some (o'\<lparr>ct_device := Some v\<rparr>)
      else if a = ''-n'' \<or> a = ''--frames'' then map_option (\<lambda>n. o'\<lparr>ct_frames := n\<rparr>) (parse_uint v)
      else if a = ''--min-mean'' then map_option (\<lambda>d. o'\<lparr>ct_min_mean := d\<rparr>) (parse_double strtod v)
      else if a = ''--max-mean'' then map_option (\<lambda>d. o'\<lparr>ct_max_mean := d\<rparr>) (parse_double strtod v)
      else if a = ''--min-variance'' then map_option (\<lambda>d. o'\<lparr>ct_min_variance := d\<rparr>) (parse_double strtod v)
      else if a = ''--min-delta'' then map_option (\<lambda>d. o'\<lparr>ct_min_delta_percent := d\<rparr>) (parse_double strtod v)
      else None)"

fun ct_parse_loop :: "c_strtod \<Rightarrow> ct_options \<Rightarrow> string list \<Rightarrow> ct_args" where
  "ct_parse_loop strtod o' [] = Ct_Ok o'"
| "ct_parse_loop strtod o' (a # rest) =
     (if a = ''-h'' \<or> a = ''--help'' then Ct_Help
      else if a = ''-v'' \<or> a = ''--verbose'' then ct_parse_loop strtod (o'\<lparr>ct_verbose := True\<rparr>) rest
      else case rest of
        [] \<Rightarrow> Ct_Error
      | v # rest' \<Rightarrow>
          (case ct_value_opt strtod a v o' of
             None \<Rightarrow> Ct_Error
           | Some o' \<Rightarrow> ct_parse_loop strtod o' rest'))"

definition ct_range_ok :: "ct_options \<Rightarrow> bool" where
  "ct_range_ok o' \<longleftrightarrow> \<not> (ct_min_mean o' < 0 \<or> ct_max_mean o' > 255 \<or> ct_min_mean o' \<ge> ct_max_mean o' \<or>
     ct_min_variance o' < 0 \<or> ct_min_delta_percent o' < 0)"

definition parse_options :: "c_strtod \<Rightarrow> string list \<Rightarrow> ct_args" where
  "parse_options strtod argv =
     (case ct_parse_loop strtod ct_defaults argv of
        Ct_Ok o' \<Rightarrow> if ct_range_ok o' then Ct_Ok o' else Ct_Error
      | r \<Rightarrow> r)"

section \<open>Choosing a device\<close>

datatype ct_type = Single_Plane | Multi_Plane

record ct_cap =
  cc_capabilities :: u32
  cc_device_caps :: u32
  cc_driver :: string
  cc_card :: string

text \<open>The argument is what \<open>VIDIOC_QUERYCAP\<close> gives, if it succeeds.\<close>

definition device_is_capture :: "ct_cap option \<Rightarrow> ct_type option" where
  "device_is_capture r =
     (case r of
        None \<Rightarrow> None
      | Some cap \<Rightarrow>
          (let caps = (if cc_capabilities cap AND 0x80000000 \<noteq> 0 then cc_device_caps cap else cc_capabilities cap) in
           if caps AND 0x04000000 = 0 then None
           else if caps AND 0x00000001 \<noteq> 0 then Some Single_Plane
           else if caps AND 0x00001000 \<noteq> 0 then Some Multi_Plane
           else None))"

fun strstr :: "string \<Rightarrow> string \<Rightarrow> bool" where
  "strstr [] t \<longleftrightarrow> t = []"
| "strstr (c # s) t \<longleftrightarrow> take (length t) (c # s) = t \<or> strstr s t"

definition capture_device_score :: "string \<Rightarrow> ct_cap \<Rightarrow> int" where
  "capture_device_score path cap =
     (if strstr (cc_card cap) ''rkisp_mainpath'' then 100
      else if strstr (cc_card cap) ''mainpath'' then 90
      else if strstr (cc_driver cap) ''rkisp'' then 80
      else if strstr (cc_card cap) ''rkcif'' \<or> strstr (cc_driver cap) ''rkcif'' then 10
      else if strstr path ''/dev/video'' then 20
      else 1)"

text \<open>A path that does not open, or the capabilities of the device it names.\<close>

type_synonym ct_devs = "string \<Rightarrow> ct_cap option option"

record ct_ledger =
  cd_fds :: int
  cd_maps :: int
  cd_heap :: int
  cd_out :: "string list"

definition ct_say :: "string \<Rightarrow> ct_ledger \<Rightarrow> ct_ledger" where
  "ct_say t l = l\<lparr>cd_out := cd_out l @ [t]\<rparr>"

definition ct_open :: "ct_ledger \<Rightarrow> ct_ledger" where
  "ct_open l = l\<lparr>cd_fds := cd_fds l + 1\<rparr>"

definition ct_close :: "ct_ledger \<Rightarrow> ct_ledger" where
  "ct_close l = l\<lparr>cd_fds := cd_fds l - 1\<rparr>"

record ct_best =
  cb_path :: string
  cb_score :: int
  cb_type :: ct_type
  cb_cap :: ct_cap

definition video_path :: "nat \<Rightarrow> string" where
  "video_path i = ''/dev/video'' @ dec_digits i"

text \<open>One candidate; \<open>None\<close> is \<open>best_fd = -1\<close> with its score of -1.\<close>

definition ct_candidate :: "ct_devs \<Rightarrow> nat \<Rightarrow> ct_best option \<times> ct_ledger \<Rightarrow> ct_best option \<times> ct_ledger" where
  "ct_candidate devs i x =
     (case x of (best, l) \<Rightarrow>
       let path = video_path i in
       case devs path of
         None \<Rightarrow> (best, l)
       | Some cap \<Rightarrow>
           (let l = ct_open l in
            case (device_is_capture cap, cap) of
              (Some t, Some c) \<Rightarrow>
                (let score = capture_device_score path c;
                     best_score = (case best of None \<Rightarrow> - 1 | Some b \<Rightarrow> cb_score b) in
                 if score > best_score
                 then (Some \<lparr>cb_path = path, cb_score = score, cb_type = t, cb_cap = c\<rparr>,
                       if best \<noteq> None then ct_close l else l)
                 else (best, ct_close l))
            | _ \<Rightarrow> (best, ct_close l)))"

definition open_capture_device ::
  "ct_devs \<Rightarrow> string option \<Rightarrow> ct_ledger \<Rightarrow> (string \<times> ct_type \<times> ct_cap) option \<times> ct_ledger" where
  "open_capture_device devs device l =
     (case device of
        Some path \<Rightarrow>
          (case devs path of
             None \<Rightarrow> (None, ct_say ''FAIL open_device'' l)
           | Some cap \<Rightarrow>
               (let l = ct_open l in
                case (device_is_capture cap, cap) of
                  (Some t, Some c) \<Rightarrow> (Some (take 4095 path, t, c), l)
                | _ \<Rightarrow> (None, ct_close (ct_say ''FAIL not_capture_device'' l))))
      | None \<Rightarrow>
          (case fold (ct_candidate devs) [0..<32] (None, l) of
             (Some b, l) \<Rightarrow> (Some (cb_path b, cb_type b, cb_cap b), l)
           | (None, l) \<Rightarrow> (None, ct_say ''FAIL no_capture_device'' l)))"

section \<open>Buffers\<close>

text \<open>What the driver says of one buffer: its planes with their length and whether the mapping
  works. A mapped buffer is the lengths of its planes.\<close>

record ct_bufs_env =
  be_reqbufs :: "nat option"
  be_calloc :: bool
  be_querybuf :: "nat \<Rightarrow> (nat \<times> bool) list option"

definition ct_map :: "ct_ledger \<Rightarrow> ct_ledger" where
  "ct_map l = l\<lparr>cd_maps := cd_maps l + 1\<rparr>"

text \<open>The planes of one buffer; false is a mapping that fails.\<close>

fun map_planes :: "(nat \<times> bool) list \<Rightarrow> nat list \<Rightarrow> ct_ledger \<Rightarrow> bool \<times> nat list \<times> ct_ledger" where
  "map_planes [] ls l = (True, ls, l)"
| "map_planes ((len, ok) # ps) ls l =
     (if ok then map_planes ps (ls @ [len]) (ct_map l) else (False, ls, l))"

definition query_planes :: "ct_type \<Rightarrow> (nat \<times> bool) list \<Rightarrow> (nat \<times> bool) list" where
  "query_planes t ps = (case t of Multi_Plane \<Rightarrow> take 8 ps | Single_Plane \<Rightarrow> take 1 ps)"

definition ct_free :: "ct_ledger \<Rightarrow> ct_ledger" where
  "ct_free l = l\<lparr>cd_heap := cd_heap l - 1\<rparr>"

fun map_bufs :: "ct_bufs_env \<Rightarrow> ct_type \<Rightarrow> nat list \<Rightarrow> nat list list \<Rightarrow> ct_ledger \<Rightarrow>
    nat list list option \<times> ct_ledger" where
  "map_bufs e t [] bufs l = (Some bufs, l)"
| "map_bufs e t (i # is) bufs l =
     (case be_querybuf e i of
        None \<Rightarrow> (None, ct_free (ct_say ''FAIL querybuf'' l))
      | Some ps \<Rightarrow>
          (case map_planes (query_planes t ps) [] l of
             (True, ls, l) \<Rightarrow> map_bufs e t is (bufs @ [ls]) l
           | (False, _, l) \<Rightarrow> (None, ct_free (ct_say ''FAIL mmap'' l))))"

definition ct_map_buffers :: "ct_bufs_env \<Rightarrow> ct_type \<Rightarrow> ct_ledger \<Rightarrow> nat list list option \<times> ct_ledger" where
  "ct_map_buffers e t l =
     (case be_reqbufs e of
        None \<Rightarrow> (None, ct_say ''FAIL reqbufs'' l)
      | Some count \<Rightarrow>
          if count < 2 then (None, ct_say ''FAIL insufficient_buffers'' l)
          else if \<not> be_calloc e then (None, ct_say ''FAIL no_memory'' l)
          else map_bufs e t [0..<count] [] (l\<lparr>cd_heap := cd_heap l + 1\<rparr>))"

definition unmap_buffers :: "nat list list option \<Rightarrow> ct_ledger \<Rightarrow> ct_ledger" where
  "unmap_buffers bufs l =
     (case bufs of
        None \<Rightarrow> l
      | Some bs \<Rightarrow> ct_free (l\<lparr>cd_maps := cd_maps l - int (sum_list (map length bs))\<rparr>))"

section \<open>Statistics\<close>

record ct_stats =
  st_bytes :: nat
  st_zero :: nat
  st_ff :: nat
  st_min :: nat
  st_max :: nat
  st_sum :: rat
  st_sumsq :: rat
  st_delta :: rat

definition ct_stats_zero :: ct_stats where
  "ct_stats_zero = \<lparr>st_bytes = 0, st_zero = 0, st_ff = 0, st_min = 0, st_max = 0, st_sum = 0, st_sumsq = 0,
     st_delta = 0\<rparr>"

definition update_byte :: "u8 \<Rightarrow> ct_stats \<Rightarrow> ct_stats" where
  "update_byte b s =
     (let v = unat b in
      s\<lparr>st_sum := st_sum s + of_nat v, st_sumsq := st_sumsq s + of_nat v * of_nat v,
        st_zero := st_zero s + (if v = 0 then 1 else 0), st_ff := st_ff s + (if v = 0xff then 1 else 0),
        st_min := (if v < st_min s then v else st_min s), st_max := (if v > st_max s then v else st_max s)\<rparr>)"

definition frame_diff :: "bytes \<Rightarrow> bytes \<Rightarrow> nat" where
  "frame_diff data prev = length (filter (\<lambda>(a, b). a \<noteq> b) (zip data prev))"

definition update_stats :: "bytes \<Rightarrow> bytes option \<Rightarrow> ct_stats \<Rightarrow> ct_stats" where
  "update_stats data prev s =
     (let s = fold update_byte data s;
          s = (case prev of
                 Some p \<Rightarrow>
                   (let cmp_len = (if length data < length p then length data else length p) in
                    if p \<noteq> [] \<and> cmp_len \<noteq> 0 then
                      (let pct = (of_nat (frame_diff data p) * 100) / of_nat cmp_len in
                       if pct > st_delta s then s\<lparr>st_delta := pct\<rparr> else s)
                    else s)
               | None \<Rightarrow> s)
      in s\<lparr>st_bytes := st_bytes s + length data\<rparr>)"

section \<open>Capturing\<close>

datatype ct_select = Ct_Sel_Error | Ct_Sel_Intr | Ct_Sel_Timeout | Ct_Sel_Ready

text \<open>A buffer from the driver: its index, \<open>bytesused\<close>, the length, and the mapped memory.\<close>

datatype ct_dqbuf = Dq_Again | Dq_Error | Dq_Frame nat nat nat "nat \<Rightarrow> u8"

record ct_iter =
  ci_select :: ct_select
  ci_dqbuf :: ct_dqbuf
  ci_realloc :: bool
  ci_qbuf :: bool

text \<open>The copy of the last frame: the allocated block and how much of it is in use.\<close>

record ct_state =
  cs_prev :: "bytes option"
  cs_prev_len :: nat
  cs_count :: nat
  cs_stats :: ct_stats
  cs_ledger :: ct_ledger

definition cs_say :: "string \<Rightarrow> ct_state \<Rightarrow> ct_state" where
  "cs_say t s = s\<lparr>cs_ledger := ct_say t (cs_ledger s)\<rparr>"

definition wait_for_frame :: "ct_select \<Rightarrow> ct_state \<Rightarrow> bool \<times> ct_state" where
  "wait_for_frame r s =
     (case r of
        Ct_Sel_Error \<Rightarrow> (False, cs_say ''FAIL select'' s)
      | Ct_Sel_Intr \<Rightarrow> (True, s)
      | Ct_Sel_Timeout \<Rightarrow> (False, cs_say ''FAIL capture_timeout'' s)
      | Ct_Sel_Ready \<Rightarrow> (True, s))"

definition frame_size :: "nat \<Rightarrow> nat \<Rightarrow> nat" where
  "frame_size bytesused len = (if bytesused \<noteq> 0 then bytesused else len)"

definition read_mapped :: "nat \<Rightarrow> (nat \<Rightarrow> u8) \<Rightarrow> nat \<Rightarrow> bytes option" where
  "read_mapped mapped mem len = (if len \<le> mapped then Some (map mem [0..<len]) else None)"

text \<open>Growing the copy if needed, and copying.\<close>

definition keep_frame :: "bool \<Rightarrow> bytes \<Rightarrow> ct_state \<Rightarrow> (bool \<times> ct_state) option" where
  "keep_frame ok data s =
     (if cs_prev_len s < length data then
        (if \<not> ok then Some (False, cs_say ''FAIL no_memory'' s)
         else
           (let old = (case cs_prev s of None \<Rightarrow> [] | Some p \<Rightarrow> p);
                l = cs_ledger s;
                l = (if cs_prev s = None then l\<lparr>cd_heap := cd_heap l + 1\<rparr> else l) in do {
              p \<leftarrow> c_write (take (length data) old @ replicate (length data - length old) 0) 0 data;
              Some (True, s\<lparr>cs_prev := Some p, cs_prev_len := length data, cs_ledger := l\<rparr>)
            }))
      else do {
        p \<leftarrow> cs_prev s;
        p \<leftarrow> c_write p 0 data;
        Some (True, s\<lparr>cs_prev := Some p, cs_prev_len := length data\<rparr>)
      })"

datatype ct_end = Ct_Next | Ct_Off | Ct_Done

definition capture_iter ::
  "nat list list \<Rightarrow> ct_iter \<Rightarrow> ct_state \<Rightarrow> (ct_end \<times> ct_state) option" where
  "capture_iter bufs it s =
     (case wait_for_frame (ci_select it) s of
        (False, s) \<Rightarrow> Some (Ct_Off, s)
      | (True, s) \<Rightarrow>
          (case ci_dqbuf it of
             Dq_Again \<Rightarrow> Some (Ct_Next, s)
           | Dq_Error \<Rightarrow> Some (Ct_Off, cs_say ''FAIL dqbuf'' s)
           | Dq_Frame idx used blen mem \<Rightarrow>
               if idx \<ge> length bufs then Some (Ct_Off, cs_say ''FAIL bad_buffer_index'' s)
               else do {
                 b \<leftarrow> c_get bufs idx;
                 (let len = frame_size used blen in
                  case b of
                    [] \<Rightarrow> Some (Ct_Off, cs_say ''FAIL bad_frame_size'' s)
                  | plen # _ \<Rightarrow>
                      if len = 0 \<or> len > plen then Some (Ct_Off, cs_say ''FAIL bad_frame_size'' s)
                      else do {
                        data \<leftarrow> read_mapped plen mem len;
                        prev \<leftarrow> (case cs_prev s of
                                    None \<Rightarrow> Some None
                                  | Some p \<Rightarrow> map_option Some (c_read p 0 (cs_prev_len s)));
                        (let s = s\<lparr>cs_stats := update_stats data prev (cs_stats s)\<rparr> in do {
                           (ok, s) \<leftarrow> keep_frame (ci_realloc it) data s;
                           if \<not> ok then Some (Ct_Off, s)
                           else
                             (let s = s\<lparr>cs_count := cs_count s + 1\<rparr> in
                              if ci_qbuf it then Some (Ct_Next, s)
                              else Some (Ct_Off, cs_say ''FAIL requeue'' s))
                         })
                      })
               }))"

text \<open>The outcome is \<open>Ct_Next\<close> when the inputs are used up and the program still waits.\<close>

fun capture_loop ::
  "nat \<Rightarrow> nat list list \<Rightarrow> ct_iter list \<Rightarrow> ct_state \<Rightarrow> (ct_end \<times> ct_state) option" where
  "capture_loop frames bufs its s =
     (if cs_count s \<ge> frames then Some (Ct_Done, s)
      else case its of
        [] \<Rightarrow> Some (Ct_Next, s)
      | it # its \<Rightarrow> do {
          (e, s) \<leftarrow> capture_iter bufs it s;
          if e = Ct_Next then capture_loop frames bufs its s else Some (e, s)
        })"

declare capture_loop.simps [simp del]

text \<open>\<open>queue_all_buffers\<close>: whether each buffer is taken.\<close>

fun queue_all_buffers :: "(nat \<Rightarrow> bool) \<Rightarrow> nat list \<Rightarrow> bool" where
  "queue_all_buffers q [] = True"
| "queue_all_buffers q (i # is) = (if q i then queue_all_buffers q is else False)"

record ct_capture_env =
  ce_queue :: "nat \<Rightarrow> bool"
  ce_stream_on :: bool
  ce_stream_off :: bool
  ce_iters :: "ct_iter list"

text \<open>The return value, or \<open>None\<close> (the inner option) while the program waits.\<close>

definition capture_frames ::
  "ct_capture_env \<Rightarrow> nat list list \<Rightarrow> nat \<Rightarrow> ct_ledger \<Rightarrow> (int option \<times> ct_stats \<times> ct_ledger) option" where
  "capture_frames e bufs frames l =
     (let st = ct_stats_zero\<lparr>st_min := 255\<rparr> in
      if \<not> queue_all_buffers (ce_queue e) [0..<length bufs] then Some (Some (- 1), st, ct_say ''FAIL qbuf'' l)
      else if \<not> ce_stream_on e then Some (Some (- 1), st, ct_say ''FAIL streamon'' l)
      else do {
        (r, s) \<leftarrow> capture_loop frames bufs (ce_iters e)
                   \<lparr>cs_prev = None, cs_prev_len = 0, cs_count = 0, cs_stats = st, cs_ledger = l\<rparr>;
        (let freed = (\<lambda>s. if cs_prev s = None then cs_ledger s else ct_free (cs_ledger s)) in
         case r of
           Ct_Next \<Rightarrow> Some (None, cs_stats s, cs_ledger s)
         | Ct_Off \<Rightarrow> Some (Some (- 1), cs_stats s, freed s)
         | Ct_Done \<Rightarrow>
             if ce_stream_off e then Some (Some 0, cs_stats s, freed s)
             else Some (Some (- 1), cs_stats s, freed (cs_say ''FAIL streamoff'' s)))
      })"

section \<open>The verdict\<close>

definition ct_verdict :: "ct_options \<Rightarrow> ct_stats \<Rightarrow> string" where
  "ct_verdict o' st =
     (if st_bytes st = 0 then ''FAIL no_frame_data''
      else
        (let mean = st_sum st / of_nat (st_bytes st);
             variance = (st_sumsq st / of_nat (st_bytes st)) - (mean * mean);
             variance = (if variance < 0 \<and> variance > - (1 / 10000) then 0 else variance) in
         if st_zero st = st_bytes st then ''FAIL blank_zero''
         else if st_ff st = st_bytes st then ''FAIL blank_ff''
         else if mean < ct_min_mean o' then ''FAIL underexposed''
         else if mean > ct_max_mean o' then ''FAIL overexposed''
         else if variance < ct_min_variance o' then ''FAIL flat_frame''
         else if ct_frames o' > 1 \<and> st_delta st < ct_min_delta_percent o' then ''FAIL no_live_delta''
         else ''PASS camera''))"

record ct_env =
  te_strtod :: c_strtod
  te_devs :: ct_devs
  te_format :: "(u32 \<times> u32 \<times> u32) option"
  te_bufs :: ct_bufs_env
  te_capture :: ct_capture_env

definition fourcc_to_string :: "u32 \<Rightarrow> bytes" where
  "fourcc_to_string pixelformat =
     [ucast (pixelformat AND 0xff), ucast (drop_bit 8 pixelformat AND 0xff),
      ucast (drop_bit 16 pixelformat AND 0xff), ucast (drop_bit 24 pixelformat AND 0xff), 0]"

text \<open>The end of \<open>main\<close>: the label \<^verbatim>\<open>out\<close>.\<close>

definition ct_out :: "nat list list option \<Rightarrow> int \<Rightarrow> ct_ledger \<Rightarrow> (int option \<times> ct_ledger) option" where
  "ct_out bufs rc l = Some (Some rc, ct_close (unmap_buffers bufs l))"

definition camera_test_main :: "ct_env \<Rightarrow> string list \<Rightarrow> ct_ledger \<Rightarrow> (int option \<times> ct_ledger) option" where
  "camera_test_main e argv l =
     (case parse_options (te_strtod e) argv of
        Ct_Help \<Rightarrow> Some (Some 0, l)
      | Ct_Error \<Rightarrow> Some (Some 2, l)
      | Ct_Ok o' \<Rightarrow>
          (case open_capture_device (te_devs e) (ct_device o') l of
             (None, l) \<Rightarrow> Some (Some 1, l)
           | (Some (path, t, cap), l) \<Rightarrow>
               (let l = (if ct_verbose o' then ct_say ''INFO device'' l else l) in
                case te_format e of
                  None \<Rightarrow> ct_out None 1 (ct_say ''FAIL get_format'' l)
                | Some (width, height, fmt) \<Rightarrow>
                    (let l = (if ct_verbose o' then ct_say ''INFO format'' l else l) in
                     if width = 0 \<or> height = 0 \<or> fmt = 0 then ct_out None 1 (ct_say ''FAIL invalid_format'' l)
                     else case ct_map_buffers (te_bufs e) t l of
                       (None, l) \<Rightarrow> ct_out None 1 l
                     | (Some bufs, l) \<Rightarrow> do {
                         (rc, st, l) \<leftarrow> capture_frames (te_capture e) bufs (ct_frames o') l;
                         case rc of
                           None \<Rightarrow> Some (None, l)
                         | Some rc \<Rightarrow>
                             if rc \<noteq> 0 then ct_out (Some bufs) 1 l
                             else
                               (let v = ct_verdict o' st in
                                ct_out (Some bufs) (if v = ''PASS camera'' then 0 else 1) (ct_say v l))
                       }))))"

end
