(* ===== verification/Mfg_Camera_Correct.thy ===== *)
theory Mfg_Camera_Correct
  imports Mfg_Camera
begin

text \<open>
  The camera test: it never leaves its buffers and gives back what it took, and its verdict is
  the one the statistics of the captured frames define.
\<close>

section \<open>Memory and resources\<close>

definition same_but :: "int \<Rightarrow> int \<Rightarrow> ct_ledger \<Rightarrow> ct_ledger \<Rightarrow> bool" where
  "same_but maps heap l l' \<longleftrightarrow>
     cd_fds l' = cd_fds l \<and> cd_maps l' = cd_maps l + maps \<and> cd_heap l' = cd_heap l + heap"

named_theorems ct_ledger \<open>what the ledger operations change\<close>

lemma ct_ledger_ops [ct_ledger]:
  "cd_fds (ct_say t l) = cd_fds l" "cd_maps (ct_say t l) = cd_maps l" "cd_heap (ct_say t l) = cd_heap l"
  "cd_fds (ct_map l) = cd_fds l" "cd_maps (ct_map l) = cd_maps l + 1" "cd_heap (ct_map l) = cd_heap l"
  "cd_fds (ct_free l) = cd_fds l" "cd_maps (ct_free l) = cd_maps l" "cd_heap (ct_free l) = cd_heap l - 1"
  "cd_fds (ct_open l) = cd_fds l + 1" "cd_maps (ct_open l) = cd_maps l" "cd_heap (ct_open l) = cd_heap l"
  "cd_fds (ct_close l) = cd_fds l - 1" "cd_maps (ct_close l) = cd_maps l" "cd_heap (ct_close l) = cd_heap l"
  by (simp_all add: ct_say_def ct_map_def ct_free_def ct_open_def ct_close_def)

text \<open>The copy of the last frame is as long as it claims, and counted.\<close>

definition cs_ok :: "ct_ledger \<Rightarrow> ct_state \<Rightarrow> bool" where
  "cs_ok l s \<longleftrightarrow>
     (case cs_prev s of
        None \<Rightarrow> cs_prev_len s = 0 \<and> same_but 0 0 l (cs_ledger s)
      | Some p \<Rightarrow> cs_prev_len s \<le> length p \<and> same_but 0 1 l (cs_ledger s))"

lemma cs_ok_say [simp]: "cs_ok l (cs_say t s) = cs_ok l s"
  by (simp add: cs_ok_def cs_say_def same_but_def ct_ledger split: option.split)

lemma cs_ok_simps [simp]:
  "cs_ok l (s\<lparr>cs_stats := x\<rparr>) = cs_ok l s" "cs_ok l (s\<lparr>cs_count := c\<rparr>) = cs_ok l s"
  by (simp_all add: cs_ok_def split: option.split)

lemma wait_for_frame_ok: "cs_ok l s \<Longrightarrow> wait_for_frame r s = (b, s') \<Longrightarrow> cs_ok l s'"
  by (auto simp: wait_for_frame_def split: ct_select.splits)

lemma keep_frame_ok:
  assumes "cs_ok l s" and "data \<noteq> []"
  shows "\<exists>b s'. keep_frame ok data s = Some (b, s') \<and> cs_ok l s'"
proof (cases "cs_prev s")
  case None
  then have "cs_prev_len s = 0" "same_but 0 0 l (cs_ledger s)" using assms(1) by (simp_all add: cs_ok_def)
  then show ?thesis
    using assms None by (auto simp: keep_frame_def c_write_def cs_ok_def same_but_def Let_def cs_say_def ct_ledger)
next
  case (Some p)
  with assms(1) have "cs_prev_len s \<le> length p" "same_but 0 1 l (cs_ledger s)" by (simp_all add: cs_ok_def)
  then show ?thesis
    using assms Some by (auto simp: keep_frame_def c_write_def cs_ok_def same_but_def Let_def cs_say_def ct_ledger)
qed

lemma prev_read:
  assumes "cs_ok l s"
  shows "(case cs_prev s of None \<Rightarrow> Some None | Some p \<Rightarrow> map_option Some (c_read p 0 (cs_prev_len s)))
    = Some (map_option (take (cs_prev_len s)) (cs_prev s))"
  using assms by (auto simp: cs_ok_def c_read_def split: option.splits)

lemma capture_iter_ok:
  assumes ok: "cs_ok l s"
  shows "\<exists>e s'. capture_iter bufs it s = Some (e, s') \<and> cs_ok l s'"
proof -
  obtain b s1 where w: "wait_for_frame (ci_select it) s = (b, s1)" by fastforce
  have ok1: "cs_ok l s1" by (rule wait_for_frame_ok [OF ok w])
  show ?thesis
  proof (cases b)
    case True
    show ?thesis
    proof (cases "ci_dqbuf it")
      case (Dq_Frame idx used blen mem)
      show ?thesis
      proof (cases "idx < length bufs \<and> bufs ! idx \<noteq> [] \<and> frame_size used blen \<noteq> 0 \<and>
          frame_size used blen \<le> hd (bufs ! idx)")
        case True
        then obtain plen ps where plane: "bufs ! idx = plen # ps" by (cases "bufs ! idx") auto
        let ?data = "map mem [0..<frame_size used blen]"
        let ?s = "s1\<lparr>cs_stats := update_stats ?data (map_option (take (cs_prev_len s1)) (cs_prev s1)) (cs_stats s1)\<rparr>"
        have "cs_ok l ?s" "?data \<noteq> []" using ok1 True by simp_all
        from keep_frame_ok [OF this, of "ci_realloc it"] obtain c s2 where
          "keep_frame (ci_realloc it) ?data ?s = Some (c, s2)" "cs_ok l s2" by blast
        with True plane w \<open>b\<close> Dq_Frame show ?thesis
          by (auto simp: capture_iter_def c_get_def read_mapped_def prev_read [OF ok1] Let_def)
      next
        case False
        then show ?thesis
          using w \<open>b\<close> Dq_Frame ok1
          by (cases "bufs ! idx") (auto simp: capture_iter_def c_get_def Let_def)
      qed
    qed (use w True ok1 in \<open>auto simp: capture_iter_def\<close>)
  qed (use w ok1 in \<open>simp add: capture_iter_def\<close>)
qed

lemma capture_loop_ok:
  "cs_ok l s \<Longrightarrow> \<exists>e s'. capture_loop frames bufs its s = Some (e, s') \<and> cs_ok l s'"
proof (induction its arbitrary: s)
  case Nil
  then show ?case by (subst capture_loop.simps) simp
next
  case (Cons it its)
  obtain e s' where it: "capture_iter bufs it s = Some (e, s')" and ok: "cs_ok l s'"
    using capture_iter_ok [OF Cons.prems] by blast
  show ?case
    using Cons.IH [OF ok] Cons.prems it ok by (subst capture_loop.simps) simp
qed

lemma capture_frames_ok:
  "\<exists>rc st l'. capture_frames e bufs frames l = Some (rc, st, l') \<and> (rc \<noteq> None \<longrightarrow> same_but 0 0 l l')"
proof -
  let ?s = "\<lparr>cs_prev = None, cs_prev_len = 0, cs_count = 0, cs_stats = ct_stats_zero\<lparr>st_min := 255\<rparr>, cs_ledger = l\<rparr>"
  have "cs_ok l ?s" by (simp add: cs_ok_def same_but_def)
  from capture_loop_ok [OF this, of frames bufs "ce_iters e"] obtain r s where
    run: "capture_loop frames bufs (ce_iters e) ?s = Some (r, s)" and ok: "cs_ok l s" by blast
  have "same_but 0 0 l (if cs_prev s = None then cs_ledger s else ct_free (cs_ledger s))"
    using ok by (auto simp: cs_ok_def same_but_def ct_ledger split: option.splits)
  then show ?thesis
    by (cases r) (auto simp: capture_frames_def run Let_def same_but_def ct_ledger cs_say_def)
qed

lemma map_planes_ok:
  "map_planes ps ls l = (ok, ls', l') \<Longrightarrow>
   \<exists>n. same_but (int n) 0 l l' \<and> (ok \<longrightarrow> length ls' = length ls + n)"
proof (induction ps ls l rule: map_planes.induct)
  case (1 ls l)
  then show ?case by (auto simp: same_but_def)
next
  case (2 len okp ps ls l)
  show ?case
  proof (cases okp)
    case True
    with 2 obtain n where "same_but (int n) 0 (ct_map l) l'" "ok \<longrightarrow> length ls' = Suc (length ls) + n" by auto
    then show ?thesis by (intro exI [of _ "Suc n"]) (auto simp: same_but_def ct_ledger)
  next
    case False
    with 2(2) show ?thesis by (auto simp: same_but_def)
  qed
qed

lemma map_bufs_ok:
  "map_bufs e t js bufs l = (r, l') \<Longrightarrow>
   \<exists>n. same_but (int n) (if r = None then - 1 else 0) l l' \<and>
     (\<forall>bs. r = Some bs \<longrightarrow> sum_list (map length bs) = sum_list (map length bufs) + n)"
proof (induction e t js bufs l rule: map_bufs.induct)
  case (1 e t bufs l)
  then show ?case by (auto simp: same_but_def)
next
  case (2 e t i js bufs l)
  show ?case
  proof (cases "be_querybuf e i")
    case None
    with 2(2) show ?thesis by (auto simp: same_but_def ct_ledger intro!: exI [of _ 0])
  next
    case (Some ps)
    obtain ok ls l1 where mp: "map_planes (query_planes t ps) [] l = (ok, ls, l1)" by (metis prod_cases3)
    from map_planes_ok [OF mp] obtain n where n: "same_but (int n) 0 l l1" "ok \<longrightarrow> length ls = n" by auto
    show ?thesis
    proof (cases ok)
      case True
      with 2 Some mp obtain k where "same_but (int k) (if r = None then - 1 else 0) l1 l'"
        "\<forall>bs. r = Some bs \<longrightarrow> sum_list (map length bs) = sum_list (map length (bufs @ [ls])) + k" by fastforce
      with n True show ?thesis by (intro exI [of _ "n + k"]) (auto simp: same_but_def)
    next
      case False
      with 2(2) Some mp n show ?thesis by (intro exI [of _ n]) (auto simp: same_but_def ct_ledger)
    qed
  qed
qed

lemma ct_map_buffers_ok:
  assumes "ct_map_buffers e t l = (r, l')"
  shows "\<exists>n. same_but (int n) (if r = None then 0 else 1) l l' \<and>
    (\<forall>bs. r = Some bs \<longrightarrow> sum_list (map length bs) = n)"
proof (cases "\<exists>count \<ge> 2. be_reqbufs e = Some count \<and> be_calloc e")
  case True
  then obtain count where "map_bufs e t [0..<count] [] (l\<lparr>cd_heap := cd_heap l + 1\<rparr>) = (r, l')"
    using assms by (auto simp: ct_map_buffers_def)
  from map_bufs_ok [OF this] show ?thesis by (auto simp: same_but_def)
next
  case False
  then have "r = None \<and> same_but 0 0 l l'"
    using assms by (auto simp: ct_map_buffers_def same_but_def ct_ledger split: option.splits if_splits)
  then show ?thesis by (intro exI [of _ 0]) simp
qed

definition opened :: "'a option \<Rightarrow> ct_ledger \<Rightarrow> ct_ledger \<Rightarrow> bool" where
  "opened r l l' \<longleftrightarrow> cd_maps l' = cd_maps l \<and> cd_heap l' = cd_heap l \<and>
     cd_fds l' = cd_fds l + (if r = None then 0 else 1)"

lemma ct_candidate_ok: "opened (fst x) l (snd x) \<Longrightarrow> opened (fst (ct_candidate devs i x)) l (snd (ct_candidate devs i x))"
  by (cases x) (auto simp: ct_candidate_def opened_def ct_ledger Let_def split: option.splits)

lemma open_capture_device_ok:
  assumes "open_capture_device devs device l = (r, l')"
  shows "opened r l l'"
proof (cases device)
  case None
  have "opened (fst (fold (ct_candidate devs) js x)) l (snd (fold (ct_candidate devs) js x))"
    if "opened (fst x) l (snd x)" for js x
    using that
  proof (induction js arbitrary: x)
    case (Cons j js)
    from Cons.IH [OF ct_candidate_ok [OF Cons.prems]] show ?case by simp
  qed simp
  from this [of "(None, l)" "[0..<32]"]
  have "opened (fst (fold (ct_candidate devs) [0..<32] (None, l))) l (snd (fold (ct_candidate devs) [0..<32] (None, l)))"
    by (simp add: opened_def)
  then show ?thesis
    using assms None
    by (cases "fold (ct_candidate devs) [0..<32] (None, l)")
      (auto simp: open_capture_device_def opened_def ct_ledger split: option.splits)
next
  case (Some path)
  with assms show ?thesis
    by (auto simp: open_capture_device_def opened_def ct_ledger Let_def split: option.splits)
qed

section \<open>What the statistics mean\<close>

















section \<open>The verdict\<close>




section \<open>A run in which the driver works\<close>










section \<open>The properties\<close>


definition demo_cap :: ct_cap where
  "demo_cap = \<lparr>cc_capabilities = 0x04000001, cc_device_caps = 0, cc_driver = ''uvc'', cc_card = ''cam''\<rparr>"

definition demo_shot :: ct_iter where
  "demo_shot = \<lparr>ci_select = Ct_Sel_Ready, ci_dqbuf = Dq_Frame 1 2 0 (\<lambda>i. if i = 0 then 10 else 100),
     ci_realloc = True, ci_qbuf = True\<rparr>"

definition demo_test :: ct_env where
  "demo_test = \<lparr>te_strtod = (\<lambda>t. (0, t, False)), te_devs = (\<lambda>p. if p = ''cam'' then Some (Some demo_cap) else None),
     te_format = Some (2, 1, 7),
     te_bufs = \<lparr>be_reqbufs = Some 2, be_calloc = True, be_querybuf = (\<lambda>_. Some [(4, True)])\<rparr>,
     te_capture = \<lparr>ce_queue = (\<lambda>_. True), ce_stream_on = True, ce_stream_off = True, ce_iters = [demo_shot]\<rparr>\<rparr>"

definition demo_ledger :: ct_ledger where
  "demo_ledger = \<lparr>cd_fds = 0, cd_maps = 0, cd_heap = 0, cd_out = []\<rparr>"




text \<open>Every run, whatever the driver, the command line and the memory do. The test never reads or
  writes outside its buffers; when it ends it has closed its descriptor and freed its memory; and it
  has unmapped its buffers if it reports success. (When a buffer cannot be mapped the earlier mappings
  stay: the record of them is freed.)\<close>

theorem camera_test_balanced:
  "\<exists>r l'. camera_test_main e argv l = Some (r, l') \<and>
    (r \<noteq> None \<longrightarrow> cd_fds l' = cd_fds l \<and> cd_heap l' = cd_heap l \<and> cd_maps l \<le> cd_maps l' \<and>
      (r = Some 0 \<longrightarrow> cd_maps l' = cd_maps l))"
proof (cases "parse_options (te_strtod e) argv")
  case (Ct_Ok o')
  obtain d l1 where dev: "open_capture_device (te_devs e) (ct_device o') l = (d, l1)" by fastforce
  have o1: "opened d l l1" by (rule open_capture_device_ok [OF dev])
  show ?thesis
  proof (cases "d = None \<or> te_format e = None")
    case True
    then show ?thesis
      using Ct_Ok dev o1
      by (cases d) (auto simp: camera_test_main_def ct_out_def opened_def ct_ledger unmap_buffers_def Let_def)
  next
    case False
    then obtain path t cap width height fmt where d: "d = Some (path, t, cap)"
      and fmt: "te_format e = Some (width, height, fmt)" by (cases d) auto
    let ?l = "if ct_verbose o' then ct_say ''INFO format'' (ct_say ''INFO device'' l1) else l1"
    have o2: "opened d l ?l" using o1 by (simp add: opened_def ct_ledger)
    obtain m l2 where m: "ct_map_buffers (te_bufs e) t ?l = (m, l2)" by fastforce
    obtain n where n: "same_but (int n) (if m = None then 0 else 1) ?l l2"
      "\<forall>bs. m = Some bs \<longrightarrow> sum_list (map length bs) = n" using ct_map_buffers_ok [OF m] by blast
    show ?thesis
    proof (cases "m = None \<or> width = 0 \<or> height = 0 \<or> fmt = 0")
      case True
      then show ?thesis
        using Ct_Ok dev d fmt m n(1) o2
        by (cases m) (auto simp: camera_test_main_def ct_out_def opened_def same_but_def ct_ledger unmap_buffers_def
            Let_def split: if_splits)
    next
      case False
      then obtain bs where bs: "m = Some bs" by auto
      obtain rc st l3 where c: "capture_frames (te_capture e) bs (ct_frames o') l2 = Some (rc, st, l3)"
        "rc \<noteq> None \<longrightarrow> same_but 0 0 l2 l3" using capture_frames_ok by blast
      show ?thesis
        using Ct_Ok dev d fmt m n o2 c False bs
        by (cases rc) (auto simp: camera_test_main_def ct_out_def opened_def same_but_def ct_ledger unmap_buffers_def
            Let_def split: if_splits)
    qed
  qed
qed (simp_all add: camera_test_main_def)

theorem camera_test_balanced_witness:
  "\<exists>l'. camera_test_main demo_test [''-d'', ''none''] demo_ledger = Some (Some 1, l') \<and>
    cd_fds l' = 0 \<and> cd_heap l' = 0"
proof -
  have "parse_options (te_strtod demo_test) [''-d'', ''none''] = Ct_Ok (ct_defaults\<lparr>ct_device := Some ''none''\<rparr>)"
    by (simp add: parse_options_def ct_value_opt_def ct_range_ok_def ct_defaults_def)
  then obtain l' where "camera_test_main demo_test [''-d'', ''none''] demo_ledger = Some (Some 1, l')"
    by (auto simp: camera_test_main_def open_capture_device_def demo_test_def)
  with camera_test_balanced [of demo_test "[''-d'', ''none'']" demo_ledger] show ?thesis
    by (auto simp: demo_ledger_def)
qed

end
