(* ===== verification/Mavlink.thy ===== *)
theory Mavlink
  imports Link_Config
begin

text \<open>
  \<^verbatim>\<open>omega4-mavlinkd.c\<close>, the relay between the serial port of a flight controller and
  UDP: its command line, the descriptors it opens, one iteration of its loop and \<open>main\<close>. The
  answers of \<open>poll\<close>, \<open>read\<close>, \<open>sendto\<close>, \<open>recv\<close>, \<open>write\<close> and the clock are
  inputs of an iteration; messages on stderr are modelled only for the counters of
  \<^verbatim>\<open>--verbose\<close>.
\<close>

section \<open>Command line\<close>

definition MAVLINK_BUF_SIZE :: nat where "MAVLINK_BUF_SIZE = 512"

record mav_config =
  mc_serial_dev :: string
  mc_baud :: int
  mc_udp_listen_port :: u16
  mc_udp_dest_host :: string
  mc_udp_dest_port :: u16
  mc_verbose :: bool

definition mav_defaults :: mav_config where
  "mav_defaults =
     \<lparr>mc_serial_dev = ''/dev/ttyS1'', mc_baud = 57600, mc_udp_listen_port = 14552,
      mc_udp_dest_host = ''127.0.0.1'', mc_udp_dest_port = 14551, mc_verbose = False\<rparr>"

definition mav_host_port :: "string \<Rightarrow> (string \<times> u16) option" where
  "mav_host_port arg =
     (case split_last CHR '':'' arg of
        None \<Rightarrow> None
      | Some (host, p) \<Rightarrow>
          (let parsed_port = strtol10 p in
           if parsed_port \<le> 0 \<or> parsed_port > 65535 then None
           else Some (host, of_int parsed_port)))"

definition mav_value_opt :: "string \<Rightarrow> string \<Rightarrow> mav_config \<Rightarrow> mav_config option" where
  "mav_value_opt a v cfg =
     (if a = ''--serial'' then Some (cfg\<lparr>mc_serial_dev := v\<rparr>)
      else if a = ''--baud'' then Some (cfg\<lparr>mc_baud := atoi v\<rparr>)
      else if a = ''--udp-listen'' then
        (let port = strtol10 v in
         if port \<le> 0 \<or> port > 65535 then None else Some (cfg\<lparr>mc_udp_listen_port := of_int port\<rparr>))
      else if a = ''--udp-dest'' then
        (case mav_host_port v of
           None \<Rightarrow> None
         | Some (host, port) \<Rightarrow> Some (cfg\<lparr>mc_udp_dest_host := host, mc_udp_dest_port := port\<rparr>))
      else None)"

fun mav_parse_loop :: "mav_config \<Rightarrow> string list \<Rightarrow> mav_config args_result" where
  "mav_parse_loop cfg [] = Args_Ok cfg"
| "mav_parse_loop cfg (a # rest) =
     (if a = ''--help'' \<or> a = ''-h'' then Args_Help
      else if a = ''--verbose'' then mav_parse_loop (cfg\<lparr>mc_verbose := True\<rparr>) rest
      else case rest of
        [] \<Rightarrow> Args_Error
      | v # rest' \<Rightarrow>
          (case mav_value_opt a v cfg of
             None \<Rightarrow> Args_Error
           | Some cfg' \<Rightarrow> mav_parse_loop cfg' rest'))"

definition mav_parse_args :: "string list \<Rightarrow> mav_config args_result" where
  "mav_parse_args argv = mav_parse_loop mav_defaults argv"

section \<open>Descriptors\<close>

text \<open>What the system answers while the daemon opens its descriptors, the descriptors it holds,
  and the speed the line runs at.\<close>

record mav_env =
  me_open :: bool
  me_getattr :: bool
  me_setattr :: bool
  me_socket_rx :: bool
  me_bind :: bool
  me_socket_tx :: bool
  me_inet :: "string \<Rightarrow> u32 option"

record mav_fds =
  mf_held :: int
  mf_speed :: "int option"
  mf_bound :: "u16 option"
  mf_dest :: "(u32 \<times> u16) option"

definition mav_speeds :: "int list" where
  "mav_speeds = [9600, 19200, 38400, 57600, 115200, 230400, 460800, 921600]"

definition mav_baud_to_speed :: "int \<Rightarrow> int" where
  "mav_baud_to_speed baud = (if baud \<in> set mav_speeds then baud else 0)"

definition mav_hold :: "mav_fds \<Rightarrow> mav_fds" where
  "mav_hold f = f\<lparr>mf_held := mf_held f + 1\<rparr>"

definition mav_close :: "mav_fds \<Rightarrow> mav_fds" where
  "mav_close f = f\<lparr>mf_held := mf_held f - 1\<rparr>"

text \<open>The Boolean is whether a descriptor is returned.\<close>

definition mav_open_serial :: "mav_env \<Rightarrow> int \<Rightarrow> mav_fds \<Rightarrow> bool \<times> mav_fds" where
  "mav_open_serial e baud f =
     (let speed = mav_baud_to_speed baud in
      if speed = 0 then (False, f)
      else if \<not> me_open e then (False, f)
      else
        (let f = mav_hold f in
         if \<not> me_getattr e then (False, mav_close f)
         else if \<not> me_setattr e then (False, mav_close f)
         else (True, f\<lparr>mf_speed := Some speed\<rparr>)))"

definition mav_udp_rx_socket :: "mav_env \<Rightarrow> u16 \<Rightarrow> mav_fds \<Rightarrow> bool \<times> mav_fds" where
  "mav_udp_rx_socket e port f =
     (if \<not> me_socket_rx e then (False, f)
      else
        (let f = mav_hold f in
         if \<not> me_bind e then (False, mav_close f) else (True, f\<lparr>mf_bound := Some port\<rparr>)))"

definition mav_udp_tx_socket :: "mav_env \<Rightarrow> string \<Rightarrow> u16 \<Rightarrow> mav_fds \<Rightarrow> bool \<times> mav_fds" where
  "mav_udp_tx_socket e host port f =
     (if \<not> me_socket_tx e then (False, f)
      else
        (let f = mav_hold f in
         case me_inet e host of
           None \<Rightarrow> (False, mav_close f)
         | Some a \<Rightarrow> (True, f\<lparr>mf_dest := Some (a, port)\<rparr>)))"

section \<open>The loop\<close>

record mav_stats =
  mv_serial_to_udp :: u64
  mv_udp_to_serial :: u64
  mv_serial_bytes :: u64
  mv_udp_bytes :: u64

definition mav_stats_zero :: mav_stats where
  "mav_stats_zero = \<lparr>mv_serial_to_udp = 0, mv_udp_to_serial = 0, mv_serial_bytes = 0, mv_udp_bytes = 0\<rparr>"

text \<open>What \<open>poll\<close> says: interrupted, failed, or which of the two descriptors has
  \<open>POLLIN\<close> (neither on a timeout).\<close>

datatype mav_poll = Poll_Intr | Poll_Fail | Poll_Ok bool bool

text \<open>
  One iteration: whether a signal has come before it, \<open>poll\<close>, the clock, the bytes that wait
  on the line and whether \<open>sendto\<close> works, the datagram that waits and how many bytes
  \<open>write\<close> takes. \<open>None\<close> is a call that fails.
\<close>

record mav_iter =
  mi_stop :: bool
  mi_poll :: mav_poll
  mi_now :: int
  mi_read :: "bytes option"
  mi_sendto :: bool
  mi_recv :: "bytes option"
  mi_write :: "nat option"

record mav_state =
  ms_stats :: mav_stats
  ms_udp :: "bytes list"
  ms_serial :: bytes
  ms_last_stats :: int
  ms_prints :: "mav_stats list"

datatype mav_end = M_Next | M_Stopped | M_Broken

definition mav_serial_in :: "mav_iter \<Rightarrow> mav_state \<Rightarrow> mav_state" where
  "mav_serial_in it s =
     (case mi_read it of
        None \<Rightarrow> s
      | Some avail \<Rightarrow>
          (let buf = take MAVLINK_BUF_SIZE avail in
           if buf = [] then s
           else if \<not> mi_sendto it then s
           else
             (let st = ms_stats s in
              s\<lparr>ms_udp := ms_udp s @ [buf],
                ms_stats := st\<lparr>mv_serial_to_udp := mv_serial_to_udp st + 1,
                  mv_serial_bytes := mv_serial_bytes st + of_nat (length buf)\<rparr>\<rparr>)))"

definition mav_udp_in :: "mav_iter \<Rightarrow> mav_state \<Rightarrow> mav_state" where
  "mav_udp_in it s =
     (case mi_recv it of
        None \<Rightarrow> s
      | Some dgram \<Rightarrow>
          (let buf = take MAVLINK_BUF_SIZE dgram in
           if buf = [] then s
           else
             (case mi_write it of
                None \<Rightarrow> s
              | Some n \<Rightarrow>
                  (let written = min n (length buf); st = ms_stats s in
                   s\<lparr>ms_serial := ms_serial s @ take written buf,
                     ms_stats := st\<lparr>mv_udp_to_serial := mv_udp_to_serial st + 1,
                       mv_udp_bytes := mv_udp_bytes st + of_nat written\<rparr>\<rparr>))))"

definition mav_print :: "mav_config \<Rightarrow> int \<Rightarrow> mav_state \<Rightarrow> mav_state" where
  "mav_print cfg now s =
     (if mc_verbose cfg \<and> now \<noteq> ms_last_stats s
      then s\<lparr>ms_last_stats := now, ms_prints := ms_prints s @ [ms_stats s]\<rparr> else s)"

definition mav_iterate :: "mav_config \<Rightarrow> mav_iter \<Rightarrow> mav_state \<Rightarrow> mav_end \<times> mav_state" where
  "mav_iterate cfg it s =
     (if mi_stop it then (M_Stopped, s)
      else case mi_poll it of
        Poll_Intr \<Rightarrow> (M_Next, s)
      | Poll_Fail \<Rightarrow> (M_Broken, s)
      | Poll_Ok serial udp \<Rightarrow>
          (let s = (if serial then mav_serial_in it s else s);
               s = (if udp then mav_udp_in it s else s)
           in (M_Next, mav_print cfg (mi_now it) s)))"

text \<open>The end is \<open>M_Next\<close> when the inputs are used up and the daemon still runs.\<close>

fun mav_loop :: "mav_config \<Rightarrow> mav_iter list \<Rightarrow> mav_state \<Rightarrow> mav_end \<times> mav_state" where
  "mav_loop cfg [] s = (M_Next, s)"
| "mav_loop cfg (it # its) s =
     (case mav_iterate cfg it s of
        (M_Next, s) \<Rightarrow> mav_loop cfg its s
      | r \<Rightarrow> r)"

definition mav_start :: mav_state where
  "mav_start = \<lparr>ms_stats = mav_stats_zero, ms_udp = [], ms_serial = [], ms_last_stats = 0, ms_prints = []\<rparr>"

definition mav_closed :: mav_fds where
  "mav_closed = \<lparr>mf_held = 0, mf_speed = None, mf_bound = None, mf_dest = None\<rparr>"

text \<open>\<open>main\<close>: the exit status, \<open>None\<close> while it runs, with the descriptors and the loop.\<close>

definition mav_main ::
  "mav_env \<Rightarrow> string list \<Rightarrow> mav_iter list \<Rightarrow> int option \<times> mav_fds \<times> mav_state" where
  "mav_main e argv its =
     (case mav_parse_args argv of
        Args_Help \<Rightarrow> (Some 0, mav_closed, mav_start)
      | Args_Error \<Rightarrow> (Some 2, mav_closed, mav_start)
      | Args_Ok cfg \<Rightarrow>
          (let (serial, f) = mav_open_serial e (mc_baud cfg) mav_closed in
           if \<not> serial then (Some 1, f, mav_start)
           else
             (let (rx, f) = mav_udp_rx_socket e (mc_udp_listen_port cfg) f in
              if \<not> rx then (Some 1, mav_close f, mav_start)
              else
                (let (tx, f) = mav_udp_tx_socket e (mc_udp_dest_host cfg) (mc_udp_dest_port cfg) f in
                 if \<not> tx then (Some 1, mav_close (mav_close f), mav_start)
                 else
                   (case mav_loop cfg its mav_start of
                      (M_Next, s) \<Rightarrow> (None, f, s)
                    | (_, s) \<Rightarrow> (Some 0, mav_close (mav_close (mav_close f)), s))))))"

end
