(* ===== verification/Mavlink_Correct.thy ===== *)
theory Mavlink_Correct
  imports Mavlink Link_Correct
begin

text \<open>
  What \<^verbatim>\<open>omega4-mavlinkd\<close> relays, byte for byte, and the telemetry path as a whole: one
  relay, the transmitting and the receiving \<^verbatim>\<open>omega4-linkd\<close>, and the relay at the far end.
\<close>

section \<open>The relay against its specification\<close>

text \<open>What an iteration passes on in either direction.\<close>

definition mav_sent :: "mav_iter \<Rightarrow> bytes list" where
  "mav_sent it =
     (case (mi_poll it, mi_read it) of
        (Poll_Ok True udp, Some a) \<Rightarrow> if a \<noteq> [] \<and> mi_sendto it then [take 512 a] else []
      | _ \<Rightarrow> [])"

definition mav_wrote :: "mav_iter \<Rightarrow> bytes list" where
  "mav_wrote it =
     (case (mi_poll it, mi_recv it, mi_write it) of
        (Poll_Ok serial True, Some d, Some n) \<Rightarrow> if d \<noteq> [] then [take n (take 512 d)] else []
      | _ \<Rightarrow> [])"

text \<open>The iterations before a signal or a failure of \<open>poll\<close> ends the loop.\<close>

definition mav_used :: "mav_iter list \<Rightarrow> mav_iter list" where
  "mav_used its = takeWhile (\<lambda>it. \<not> mi_stop it \<and> mi_poll it \<noteq> Poll_Fail) its"

definition mav_relayed :: "bytes list \<Rightarrow> bytes list \<Rightarrow> mav_state \<Rightarrow> bool" where
  "mav_relayed us ws s \<longleftrightarrow>
     ms_udp s = us \<and> ms_serial s = concat ws \<and>
     mv_serial_to_udp (ms_stats s) = of_nat (length us) \<and>
     mv_serial_bytes (ms_stats s) = of_nat (length (concat us)) \<and>
     mv_udp_to_serial (ms_stats s) = of_nat (length ws) \<and>
     mv_udp_bytes (ms_stats s) = of_nat (length (concat ws))"

lemma mav_relayed_start: "mav_relayed [] [] mav_start"
  by (simp add: mav_relayed_def mav_start_def mav_stats_zero_def)

lemma mav_relayed_print [simp]: "mav_relayed us ws (mav_print cfg now s) = mav_relayed us ws s"
  by (simp add: mav_relayed_def mav_print_def)

lemma mav_relayed_serial:
  "mav_relayed us ws s \<Longrightarrow> mav_relayed
     (us @ (case mi_read it of Some a \<Rightarrow> if a \<noteq> [] \<and> mi_sendto it then [take 512 a] else [] | None \<Rightarrow> [])) ws
     (mav_serial_in it s)"
  by (auto simp: mav_relayed_def mav_serial_in_def MAVLINK_BUF_SIZE_def Let_def split: option.split)

lemma mav_relayed_udp:
  "mav_relayed us ws s \<Longrightarrow> mav_relayed us
     (ws @ (case (mi_recv it, mi_write it) of
              (Some d, Some n) \<Rightarrow> if d \<noteq> [] then [take n (take 512 d)] else [] | _ \<Rightarrow> []))
     (mav_udp_in it s)"
  by (auto simp: mav_relayed_def mav_udp_in_def MAVLINK_BUF_SIZE_def Let_def min_def split: option.split)

lemma mav_relayed_iterate:
  assumes "mav_relayed us ws s" and "\<not> mi_stop it" and "mi_poll it \<noteq> Poll_Fail"
  shows "\<exists>s'. mav_iterate cfg it s = (M_Next, s') \<and> mav_relayed (us @ mav_sent it) (ws @ mav_wrote it) s'"
proof (cases "mi_poll it")
  case (Poll_Ok serial udp)
  let ?s = "if serial then mav_serial_in it s else s"
  have "mav_relayed (us @ mav_sent it) ws ?s"
    using assms(1) mav_relayed_serial [OF assms(1), of it] Poll_Ok
    by (cases serial) (auto simp: mav_sent_def split: option.splits)
  then have "mav_relayed (us @ mav_sent it) (ws @ mav_wrote it) (if udp then mav_udp_in it ?s else ?s)"
    using mav_relayed_udp [of "us @ mav_sent it" ws ?s it] Poll_Ok
    by (cases udp) (auto simp: mav_wrote_def split: option.splits)
  then show ?thesis using assms(2) Poll_Ok by (simp add: mav_iterate_def Let_def)
qed (use assms in \<open>simp_all add: mav_iterate_def mav_sent_def mav_wrote_def\<close>)

lemma mav_relayed_loop:
  "mav_relayed us ws s \<Longrightarrow> mav_relayed (us @ concat (map mav_sent (mav_used its)))
     (ws @ concat (map mav_wrote (mav_used its))) (snd (mav_loop cfg its s))"
proof (induction its arbitrary: us ws s)
  case Nil
  then show ?case by (simp add: mav_used_def)
next
  case (Cons it its)
  show ?case
  proof (cases "\<not> mi_stop it \<and> mi_poll it \<noteq> Poll_Fail")
    case True
    with mav_relayed_iterate [OF Cons.prems] obtain s' where "mav_iterate cfg it s = (M_Next, s')"
      and "mav_relayed (us @ mav_sent it) (ws @ mav_wrote it) s'" by blast
    with Cons.IH [OF this(2)] True show ?thesis by (simp add: mav_used_def)
  next
    case False
    then have "snd (mav_iterate cfg it s) = s \<and> fst (mav_iterate cfg it s) \<noteq> M_Next"
      by (auto simp: mav_iterate_def)
    then have "snd (mav_loop cfg (it # its) s) = s"
      by (cases "mav_iterate cfg it s"; cases "fst (mav_iterate cfg it s)") auto
    with False Cons.prems show ?thesis by (auto simp: mav_used_def)
  qed
qed

lemma mav_loop_end: "fst (mav_loop cfg its s) = M_Next \<longleftrightarrow> mav_used its = its"
proof (induction its arbitrary: s)
  case (Cons it its)
  then show ?case
    by (cases "mi_poll it") (auto simp: mav_iterate_def mav_used_def Let_def)
qed (simp add: mav_used_def)


section \<open>The link without FEC\<close>

lemma tx_steps_plain:
  assumes "cfg_fec_data cfg = 0" and "raw_ok env = (\<lambda>_. True)" and "map tk_event tks = map Ev_Data ps"
    and "\<forall>p \<in> set ps. p \<noteq> [] \<and> length p \<le> O4L_MAX_PAYLOAD" and "\<not> tl_stop s"
  shows "sends env cfg (map (Pair 0) ps) (tl_tx s) (tl_tx (fold (tx_step env senv cfg) tks s))"
  using assms(3-5)
proof (induction ps arbitrary: tks s)
  case Nil
  then show ?case by (simp add: sends_refl)
next
  case (Cons p ps)
  then obtain tk tks' where tks: "tks = tk # tks'" "tk_event tk = Ev_Data p"
    "map tk_event tks' = map Ev_Data ps" by (cases tks) auto
  have p: "p \<noteq> []" "length p \<le> O4L_MAX_PAYLOAD" using Cons.prems(2) by auto
  obtain t where t: "tx_payload_flags env cfg 0 p (tl_tx s) = (True, t)"
    and sent: "sends env cfg [(0, p)] (tl_tx s) t" using sends_one [OF assms(2) p(2)] by blast
  define s1 where "s1 = tx_step env senv cfg tk s"
  have s1: "tl_tx s1 = t" "\<not> tl_stop s1"
    using t tks(2) p Cons.prems(3) assms(1)
    by (simp_all add: s1_def tx_step_def tx_tail_def tx_payload_def Let_def O4L_MAX_PAYLOAD_def)
  with Cons.IH [OF tks(3), of s1] Cons.prems(2)
  have "sends env cfg (map (Pair 0) ps) t (tl_tx (fold (tx_step env senv cfg) tks' s1))" by simp
  from sends_trans [OF sent this] show ?case by (simp add: tks(1) s1_def)
qed

lemma rx_step_plain:
  assumes cap: "capture_ok (build_frame (cfg_stream_id cfg) 0 seq now p) c" and len: "length p \<le> 1400"
    and udp: "udp_ok env = (\<lambda>_. True)" and run: "\<not> rl_stop s"
  shows "\<exists>s'. rx_step env senv cfg (cap_tick c) s = Some s' \<and>
    udp_sent (rx_io (rl_rx s')) = udp_sent (rx_io (rl_rx s)) @ [p] \<and> \<not> rl_stop s'"
proof -
  let ?h = "build_hdr (cfg_stream_id cfg) 0 seq now p"
  define f where "f = on_air (cap_rtap c) (build_frame (cfg_stream_id cfg) 0 seq now p) (cap_trailer c)"
  have ev: "tk_event (cap_tick c) = Ev_Data f" and flen: "length f \<le> O4L_MAX_FRAME"
    and rt: "rtap_ok (cap_rtap c)" using cap by (simp_all add: capture_ok_def f_def)
  have parse: "parse_frame f = Some (Some (?h, p))" unfolding f_def using rt len by (rule parse_frame_build)
  then have ne: "f \<noteq> []" by (auto simp: parse_frame_def link_sizes)
  obtain st where st: "parse_radiotap_signal f (rx_st (rl_rx s)) = Some st"
    using parse_radiotap_signal_total by blast
  obtain rx where "rx_frame env cfg (tk_frame_us (cap_tick c)) f (rl_rx s) = Some (False, rx)"
    and "udp_sent (rx_io rx) = udp_sent (rx_io (rl_rx s)) @ [p]"
    using parse st by (auto simp: rx_frame_def rx_deliver_def udp_count_def udp_emit_ok [OF udp])
  then show ?thesis using ev flen ne run by (simp add: rx_step_def Let_def rx_tail_def)
qed

lemma rx_run_plain:
  assumes "list_all2 (\<lambda>i c. i < length us \<and>
      (\<exists>seq now. capture_ok (build_frame (cfg_stream_id cfg) 0 seq now (us ! i)) c)) is cs"
    and "\<forall>p \<in> set us. length p \<le> 1400" and "udp_ok env = (\<lambda>_. True)" and "\<not> rl_stop s"
  shows "\<exists>s'. c_run (rx_step env senv cfg) (map cap_tick cs) s = Some s' \<and>
    udp_sent (rx_io (rl_rx s')) = udp_sent (rx_io (rl_rx s)) @ map ((!) us) is"
  using assms(1,4)
proof (induction arbitrary: s rule: list_all2_induct)
  case (Cons i js c cs)
  then obtain seq now where cap: "capture_ok (build_frame (cfg_stream_id cfg) 0 seq now (us ! i)) c"
    and i: "i < length us" by blast
  have "length (us ! i) \<le> 1400" using assms(2) i by simp
  from rx_step_plain [OF cap this assms(3) Cons.prems] obtain s1 where
    "rx_step env senv cfg (cap_tick c) s = Some s1"
    "udp_sent (rx_io (rl_rx s1)) = udp_sent (rx_io (rl_rx s)) @ [us ! i]" "\<not> rl_stop s1" by blast
  with Cons.IH [OF this(3)] show ?case by fastforce
qed simp

text \<open>The datagrams a relay is handed, and that the serial line takes each of them at once.\<close>

definition mav_got :: "mav_iter \<Rightarrow> bytes list" where
  "mav_got it =
     (case (mi_poll it, mi_recv it) of (Poll_Ok serial True, Some d) \<Rightarrow> [d] | _ \<Rightarrow> [])"

definition mav_roomy :: "mav_iter \<Rightarrow> bool" where
  "mav_roomy it \<longleftrightarrow> \<not> mi_stop it \<and> mi_poll it \<noteq> Poll_Fail \<and> (\<exists>n \<ge> 512. mi_write it = Some n)"

definition mav_fed :: "mav_iter list \<Rightarrow> bytes list \<Rightarrow> bool" where
  "mav_fed its ds \<longleftrightarrow> (\<forall>it \<in> set its. mav_roomy it) \<and> concat (map mav_got its) = ds"

lemma mav_wrote_roomy:
  assumes "mav_roomy it" and "\<forall>d \<in> set (mav_got it). length d \<le> 512"
  shows "concat (mav_wrote it) = concat (mav_got it)"
  using assms by (auto simp: mav_roomy_def mav_got_def mav_wrote_def split: mav_poll.splits option.splits bool.splits)

lemma mav_fed_serial:
  assumes "mav_fed its ds" and "\<forall>d \<in> set ds. length d \<le> 512"
  shows "ms_serial (snd (mav_loop cfg its mav_start)) = concat ds"
proof -
  have used: "mav_used its = its"
    using assms(1) by (auto simp: mav_used_def mav_fed_def mav_roomy_def takeWhile_eq_all_conv)
  have "concat (concat (map mav_wrote its)) = concat (concat (map mav_got its))"
    using assms by (induction its arbitrary: ds) (auto simp: mav_fed_def mav_wrote_roomy)
  then show ?thesis
    using mav_relayed_loop [OF mav_relayed_start, of its cfg] assms(1) used
    by (simp add: mav_relayed_def mav_fed_def)
qed

lemma mav_sent_bounds: "u \<in> set (concat (map mav_sent its)) \<Longrightarrow> u \<noteq> [] \<and> length u \<le> 512"
  by (auto simp: mav_sent_def split: mav_poll.splits option.splits bool.splits if_splits)

section \<open>The properties\<close>


text \<open>C24: Telemetry from end to end, without FEC. The air relay turns what it reads from the flight
  controller into datagrams; the transmitter sends each in a frame; any frames arrive, in any order
  and any number of times, behind any radiotap header; the receiver hands on their datagrams, and
  a ground relay with a line that accepts 512 bytes at a time writes exactly these, in the order of
  arrival. Every piece on the far line is a whole piece read on the near one, whatever is lost.\<close>

theorem telemetry_end_to_end:
  assumes "us = ms_udp (snd (mav_loop acfg ats mav_start))"
    and "cfg_fec_data tcfg = 0" and "cfg_stream_id rcfg = cfg_stream_id tcfg"
    and "raw_ok tenv = (\<lambda>_. True)" and "udp_ok renv = (\<lambda>_. True)"
    and "map tk_event tks = map Ev_Data us" and "fs = sent_frames tenv tsenv tcfg t0 tks"
    and "list_all2 (\<lambda>i c. i < length fs \<and> capture_ok (fs ! i) c) js cs"
  shows "\<exists>s'. c_run (rx_step renv rsenv rcfg) (map cap_tick cs) (rx_loop_start t1) = Some s' \<and>
    (\<forall>gcfg gts. mav_fed gts (udp_sent (rx_io (rl_rx s'))) \<longrightarrow>
      ms_serial (snd (mav_loop gcfg gts mav_start)) = concat (map ((!) us) js))"
proof -
  have us: "\<forall>u \<in> set us. u \<noteq> [] \<and> length u \<le> 512"
    using mav_relayed_loop [OF mav_relayed_start, of ats acfg] mav_sent_bounds [of _ "mav_used ats"] assms(1)
    by (auto simp: mav_relayed_def)
  then have fit: "\<forall>u \<in> set us. u \<noteq> [] \<and> length u \<le> O4L_MAX_PAYLOAD" by (auto simp: O4L_MAX_PAYLOAD_def)
  have fs: "fs = frames tenv tcfg 0 0 (map (Pair 0) us)"
    using tx_steps_plain [OF assms(2,4,6) fit, where s = "tx_loop_start t0" and senv = tsenv] assms(7)
    by (simp add: sends_def sent_frames_def tx_loop_start_def io_start_def)
  have frame: "fs ! i = build_frame (cfg_stream_id rcfg) 0 (of_nat i) (build_us tenv i) (us ! i)"
    if "i < length us" for i
    using that nth_frames [of i "map (Pair 0) us" tenv tcfg 0 0] assms(3) by (simp add: fs frame_of_def)
  have "list_all2 (\<lambda>i c. i < length us \<and>
      (\<exists>seq now. capture_ok (build_frame (cfg_stream_id rcfg) 0 seq now (us ! i)) c)) js cs"
    using assms(8)
  proof (rule list_all2_mono)
    fix i c
    assume h: "i < length fs \<and> capture_ok (fs ! i) c"
    then have "i < length us" by (simp add: fs)
    with h frame [OF this] show "i < length us \<and>
        (\<exists>seq now. capture_ok (build_frame (cfg_stream_id rcfg) 0 seq now (us ! i)) c)" by metis
  qed
  moreover have "\<forall>p \<in> set us. length p \<le> 1400" "\<not> rl_stop (rx_loop_start t1)"
    using us by (auto simp: rx_loop_start_def)
  ultimately obtain s' where run: "c_run (rx_step renv rsenv rcfg) (map cap_tick cs) (rx_loop_start t1) = Some s'"
    and out: "udp_sent (rx_io (rl_rx s')) = udp_sent (rx_io (rl_rx (rx_loop_start t1))) @ map ((!) us) js"
    using rx_run_plain [where us = us and cfg = rcfg and env = renv] assms(5) by blast
  have "set js \<subseteq> {i. i < length us}"
    using assms(8) by (auto simp: list_all2_conv_all_nth in_set_conv_nth fs)
  then have "\<forall>d \<in> set (map ((!) us) js). length d \<le> 512" using us by auto
  then show ?thesis
    using run out mav_fed_serial by (auto simp: rx_loop_start_def io_start_def)
qed

definition demo_read :: "bytes \<Rightarrow> mav_iter" where
  "demo_read a = \<lparr>mi_stop = False, mi_poll = Poll_Ok True False, mi_now = 0, mi_read = Some a,
     mi_sendto = True, mi_recv = None, mi_write = None\<rparr>"

definition demo_tcfg :: config where
  "demo_tcfg = linkd_defaults"

definition demo_frames :: "bytes list" where
  "demo_frames = sent_frames ok_env ok_status demo_tcfg 0 (map data_tick [[0xfd, 1], [0xfd, 2, 3]])"

lemma demo_udp: "ms_udp (snd (mav_loop mav_defaults [demo_read [0xfd, 1], demo_read [0xfd, 2, 3]] mav_start))
    = [[0xfd, 1], [0xfd, 2, 3]]"
  by (simp add: mav_iterate_def demo_read_def mav_serial_in_def mav_print_def mav_start_def Let_def
      mav_defaults_def MAVLINK_BUF_SIZE_def)

lemma demo_frames_eq: "demo_frames = frames ok_env demo_tcfg 0 0 [(0, [0xfd, 1]), (0, [0xfd, 2, 3])]"
  using tx_steps_plain [of demo_tcfg ok_env "map data_tick [[0xfd, 1], [0xfd, 2, 3]]" "[[0xfd, 1], [0xfd, 2, 3]]"
      "tx_loop_start 0" ok_status]
  by (simp add: demo_frames_def sent_frames_def sends_def tx_loop_start_def io_start_def demo_tcfg_def
      linkd_defaults_def ok_env_def data_tick_def O4L_MAX_PAYLOAD_def)

theorem telemetry_end_to_end_witness:
  "\<exists>s'. c_run (rx_step ok_env ok_status demo_tcfg) (map cap_tick [self_capture (demo_frames ! 1)]) (rx_loop_start 0)
      = Some s' \<and> (\<forall>gcfg gts. mav_fed gts (udp_sent (rx_io (rl_rx s'))) \<longrightarrow>
      ms_serial (snd (mav_loop gcfg gts mav_start)) = [0xfd, 2, 3])"
proof -
  have "length (demo_frames ! 1) = 63"
    by (simp add: demo_frames_eq frame_of_def)
  then have cap: "capture_ok (demo_frames ! 1) (self_capture (demo_frames ! 1))"
    by (intro self_capture_ok) (simp_all add: O4L_MAX_FRAME_def)
  have "length demo_frames = 2" by (simp add: demo_frames_eq)
  with cap show ?thesis
    using telemetry_end_to_end [OF demo_udp [symmetric], where tcfg = demo_tcfg and rcfg = demo_tcfg and tenv = ok_env
        and renv = ok_env and rsenv = ok_status and tsenv = ok_status
        and tks = "map data_tick [[0xfd, 1], [0xfd, 2, 3]]" and fs = demo_frames and js = "[1]"
        and cs = "[self_capture (demo_frames ! 1)]"]
    by (simp add: demo_tcfg_def linkd_defaults_def ok_env_def data_tick_def demo_frames_def)
qed

end
