(* ===== verification/Npu_Mm.thy ===== *)
theory Npu_Mm
  imports C_Strings "HOL-Library.Monad_Syntax"
begin

text \<open>
  \<^verbatim>\<open>rknpu_mm.c\<close>, the allocator of the NPU driver for its on-chip SRAM: chunks of one size
  and a bitmap of those in use. An \<open>unsigned int\<close> is a natural number below \<open>2 ^ 32\<close>, with
  the wrap written out where a sum or a difference can wrap; \<open>long\<close> has 32 bits. \<open>None\<close>
  is an access outside the bitmap, or \<open>kfree\<close> of something \<open>kmalloc\<close> did not return.
\<close>

section \<open>The state\<close>

record rknpu_mm =
  mm_bitmap :: "bool list"
  mm_chunk_size :: nat
  mm_total_chunks :: nat
  mm_free_chunks :: nat

record rknpu_mm_obj =
  range_start :: nat
  range_end :: nat

definition E_INVAL :: int where "E_INVAL = 22"
definition E_NOMEM :: int where "E_NOMEM = 12"

definition uadd :: "nat \<Rightarrow> nat \<Rightarrow> nat" where
  "uadd a b = (a + b) mod 2 ^ 32"

definition usub :: "nat \<Rightarrow> nat \<Rightarrow> nat" where
  "usub a b = (a + 2 ^ 32 - b) mod 2 ^ 32"

definition umul :: "nat \<Rightarrow> nat \<Rightarrow> nat" where
  "umul a b = (a * b) mod 2 ^ 32"

text \<open>The next bit of a value from an offset on, or the size; the bitmap API of the kernel.\<close>

function find_next :: "bool \<Rightarrow> bool list \<Rightarrow> nat \<Rightarrow> nat \<Rightarrow> nat option" where
  "find_next v bm sz i =
     (if i \<ge> sz then Some sz
      else if i \<ge> length bm then None
      else if bm ! i = v then Some i
      else find_next v bm sz (Suc i))"
  by auto
termination by (relation "measure (\<lambda>(v, bm, sz, i). sz - i)") auto

declare find_next.simps [simp del]

abbreviation find_next_zero_bit :: "bool list \<Rightarrow> nat \<Rightarrow> nat \<Rightarrow> nat option" where
  "find_next_zero_bit \<equiv> find_next False"

abbreviation find_next_bit :: "bool list \<Rightarrow> nat \<Rightarrow> nat \<Rightarrow> nat option" where
  "find_next_bit \<equiv> find_next True"

lemma find_next_bounds:
  "find_next v bm sz i = Some j \<Longrightarrow> j \<le> sz \<and> (i \<le> sz \<longrightarrow> i \<le> j)"
  by (induction v bm sz i rule: find_next.induct)
    (subst (asm) (2) find_next.simps, fastforce split: if_splits)

section \<open>Creating and destroying\<close>

text \<open>The two allocations succeed or not; the error path calls \<^verbatim>\<open>kfree (mm)\<close> on the
  address of the caller's pointer.\<close>

definition rknpu_mm_create :: "bool \<Rightarrow> bool \<Rightarrow> nat \<Rightarrow> nat \<Rightarrow> (int \<times> rknpu_mm option) option" where
  "rknpu_mm_create mm_ok bitmap_ok mem_size chunk_size =
     (if mem_size < chunk_size then Some (- E_INVAL, None)
      else if mem_size = 0 then Some (- E_INVAL, None)
      else if chunk_size = 0 then Some (- E_INVAL, None)
      else if \<not> mm_ok then Some (- E_NOMEM, None)
      else
        (let tot = mem_size div chunk_size;
             num_of_longs = usub (uadd tot 32) 1 div 32 in
         if \<not> bitmap_ok then None
         else Some (0, Some \<lparr>mm_bitmap = replicate (num_of_longs * 32) False, mm_chunk_size = chunk_size,
                             mm_total_chunks = tot, mm_free_chunks = tot\<rparr>)))"

section \<open>Allocating\<close>

text \<open>The inner loop, which looks for contiguous chunks after \<open>found\<close>: it restarts the
  search at a chunk, runs into the end, or has the last chunk.\<close>

datatype mm_grown = Restart nat | No_Room | Grown nat

function mm_grow :: "bool list \<Rightarrow> nat \<Rightarrow> nat \<Rightarrow> nat \<Rightarrow> nat \<Rightarrow> mm_grown option" where
  "mm_grow bm tot chunk found cur_size =
     (let found = Suc found in
      case find_next_zero_bit bm tot found of
        None \<Rightarrow> None
      | Some e \<Rightarrow>
          if e \<noteq> found then Some (Restart found)
          else if found = tot then Some No_Room
          else
            (let cur_size = (if cur_size \<le> chunk then 0 else cur_size - chunk) in
             if cur_size > 0 then mm_grow bm tot chunk found cur_size else Some (Grown e)))"
  by auto
termination
  by (relation "measure (\<lambda>(bm, tot, chunk, found, cur_size). tot - found)")
    (auto dest!: find_next_bounds)

declare mm_grow.simps [simp del]

lemma mm_grow_restart: "mm_grow bm tot chunk found cur = Some (Restart f) \<Longrightarrow> found < f"
  by (induction bm tot chunk found cur rule: mm_grow.induct)
    (subst (asm) (2) mm_grow.simps, fastforce simp: Let_def split: option.splits if_splits)

text \<open>The outer loop: the range found, or none.\<close>

function mm_search :: "bool list \<Rightarrow> nat \<Rightarrow> nat \<Rightarrow> nat \<Rightarrow> nat \<Rightarrow> (nat \<times> nat) option option" where
  "mm_search bm tot chunk sz start_search =
     (case find_next_zero_bit bm tot start_search of
        None \<Rightarrow> None
      | Some found \<Rightarrow>
          if found = tot then Some None
          else if sz \<le> chunk then Some (Some (found, found))
          else
            (case mm_grow bm tot chunk found (sz - chunk) of
               None \<Rightarrow> None
             | Some (Restart f) \<Rightarrow> mm_search bm tot chunk sz f
             | Some No_Room \<Rightarrow> Some None
             | Some (Grown e) \<Rightarrow> Some (Some (found, e))))"
  by auto
termination
proof (relation "measure (\<lambda>(bm, tot, chunk, sz, start). tot - start)")
  fix bm tot chunk sz start found f g
  assume found: "find_next_zero_bit bm tot start = Some found" "found \<noteq> tot"
    and g: "mm_grow bm tot chunk found (sz - chunk) = Some g" "g = Restart f"
  have "start \<le> tot"
    using found by (cases "start \<le> tot") (simp_all add: find_next.simps [of False bm tot start])
  then have "start \<le> found" "found < tot" using find_next_bounds [OF found(1)] found(2) by simp_all
  moreover have "found < f" using g mm_grow_restart by blast
  ultimately show "((bm, tot, chunk, sz, f), bm, tot, chunk, sz, start)
      \<in> measure (\<lambda>(bm, tot, chunk, sz, start). tot - start)" by simp
qed simp

declare mm_search.simps [simp del]

text \<open>Setting or clearing the bits of a range.\<close>

function put_bits :: "bool \<Rightarrow> nat \<Rightarrow> nat \<Rightarrow> bool list \<Rightarrow> bool list option" where
  "put_bits v b e bm = (if b \<le> e then do {bm \<leftarrow> c_set bm b v; put_bits v (Suc b) e bm} else Some bm)"
  by auto
termination by (relation "measure (\<lambda>(v, b, e, bm). Suc e - b)") auto

declare put_bits.simps [simp del]

definition range_size :: "rknpu_mm_obj \<Rightarrow> nat" where
  "range_size obj = uadd (usub (range_end obj) (range_start obj)) 1"

definition rknpu_mm_alloc ::
  "bool \<Rightarrow> nat \<Rightarrow> rknpu_mm \<Rightarrow> (int \<times> rknpu_mm_obj option \<times> rknpu_mm) option" where
  "rknpu_mm_alloc obj_ok sz mm =
     (if sz = 0 then Some (- E_INVAL, None, mm)
      else if sz > umul (mm_total_chunks mm) (mm_chunk_size mm) then Some (- E_NOMEM, None, mm)
      else if \<not> obj_ok then Some (- E_NOMEM, None, mm)
      else do {
        r \<leftarrow> mm_search (mm_bitmap mm) (mm_total_chunks mm) (mm_chunk_size mm) sz 0;
        case r of
          None \<Rightarrow> Some (- E_NOMEM, None, mm)
        | Some (s, e) \<Rightarrow> do {
            bm \<leftarrow> put_bits True s e (mm_bitmap mm);
            let obj = \<lparr>range_start = s, range_end = e\<rparr> in
            Some (0, Some obj, mm\<lparr>mm_bitmap := bm, mm_free_chunks := usub (mm_free_chunks mm) (range_size obj)\<rparr>)
          }
      })"

definition rknpu_mm_free :: "rknpu_mm_obj option \<Rightarrow> rknpu_mm \<Rightarrow> (int \<times> rknpu_mm) option" where
  "rknpu_mm_free obj mm =
     (case obj of
        None \<Rightarrow> Some (0, mm)
      | Some obj \<Rightarrow> do {
          bm \<leftarrow> put_bits False (range_start obj) (range_end obj) (mm_bitmap mm);
          Some (0, mm\<lparr>mm_bitmap := bm, mm_free_chunks := uadd (mm_free_chunks mm) (range_size obj)\<rparr>)
        })"

section \<open>Showing the bitmap\<close>

text \<open>A row is built up to 32 characters; the rows are numbered.\<close>

record mm_rows =
  mr_buf :: string
  mr_id :: nat
  mr_lines :: "string list"

definition pad3 :: "nat \<Rightarrow> string" where
  "pad3 n = (let d = dec_digits n in replicate (3 - length d) CHR ''0'' @ d)"

definition dec_int :: "int \<Rightarrow> string" where
  "dec_int i = (if i < 0 then CHR ''-'' # dec_digits (nat (- i)) else dec_digits (nat i))"

definition mm_row :: "nat \<Rightarrow> string \<Rightarrow> string" where
  "mm_row n buf = ''['' @ pad3 n @ ''] ['' @ buf @ '']''"

definition mm_flush :: "mm_rows \<Rightarrow> mm_rows" where
  "mm_flush r = r\<lparr>mr_buf := [], mr_id := Suc (mr_id r), mr_lines := mr_lines r @ [mm_row (mr_id r) (mr_buf r)]\<rparr>"

definition mm_put :: "char \<Rightarrow> mm_rows \<Rightarrow> mm_rows" where
  "mm_put c r =
     (let r = r\<lparr>mr_buf := mr_buf r @ [c]\<rparr> in if length (mr_buf r) \<ge> 32 then mm_flush r else r)"

definition mm_puts :: "char \<Rightarrow> nat \<Rightarrow> mm_rows \<Rightarrow> mm_rows" where
  "mm_puts c n r = (mm_put c ^^ n) r"

function mm_dump_loop :: "bool list \<Rightarrow> nat \<Rightarrow> nat \<Rightarrow> nat \<Rightarrow> mm_rows \<Rightarrow> mm_rows option" where
  "mm_dump_loop bm tot cur rbot r =
     (if cur < tot then
        (let rtop = cur in
         case find_next_bit bm tot (Suc cur) of
           None \<Rightarrow> None
         | Some cur \<Rightarrow>
             if cur < tot \<and> cur \<le> Suc rtop then mm_dump_loop bm tot cur rbot r
             else
               (let r = mm_puts CHR ''*'' (Suc rtop - rbot) r;
                    r = mm_puts CHR ''.'' (cur - Suc rtop) r
                in mm_dump_loop bm tot cur cur r))
      else Some r)"
  by auto
termination
  by (relation "measure (\<lambda>(bm, tot, cur, rbot, r). tot - cur)") (auto dest!: find_next_bounds)

declare mm_dump_loop.simps [simp del]

definition rknpu_mm_dump :: "int \<Rightarrow> rknpu_mm option \<Rightarrow> string list option" where
  "rknpu_mm_dump sram_size mm =
     (case mm of
        None \<Rightarrow> Some []
      | Some mm \<Rightarrow>
          (let bm = mm_bitmap mm; tot = mm_total_chunks mm;
               head = ''SRAM bitmap: '' @ [CHR 0x22] @ ''*'' @ [CHR 0x22] @ '' - used, '' @ [CHR 0x22] @ ''.''
                 @ [CHR 0x22] @ '' - free (1bit = '' @ dec_digits (mm_chunk_size mm div 1024) @ ''KB)'' in do {
             cur \<leftarrow> find_next_bit bm tot 0;
             r \<leftarrow> mm_dump_loop bm tot cur cur
                   (mm_puts CHR ''.'' cur \<lparr>mr_buf = [], mr_id = 0, mr_lines = []\<rparr>);
             let r = (if length (mr_buf r) > 0 then mm_flush r else r);
                 free_size = int (umul (mm_free_chunks mm) (mm_chunk_size mm)) in
             Some (head # mr_lines r @ [''SRAM total size: '' @ dec_int sram_size @ '', used: ''
               @ dec_int (sram_size - free_size) @ '', free: '' @ dec_int free_size])
           }))"

end
