(* ===== verification/Npu_Mm_Correct.thy ===== *)
theory Npu_Mm_Correct
  imports Npu_Mm "HOL-Library.Multiset"
begin

text \<open>
  The SRAM allocator of the NPU driver against its specification: first fit over runs of free
  chunks, live objects that never overlap, and a dump that shows the bitmap.
\<close>

section \<open>The bitmap API\<close>

lemma find_next_spec:
  assumes "sz \<le> length bm"
  shows "\<exists>j. find_next v bm sz i = Some j \<and> j \<le> sz \<and> (i \<le> sz \<longrightarrow> i \<le> j) \<and>
    (\<forall>k. i \<le> k \<and> k < j \<longrightarrow> bm ! k \<noteq> v) \<and> (j < sz \<longrightarrow> bm ! j = v)"
  using assms
proof (induction v bm sz i rule: find_next.induct)
  case (1 v bm sz i)
  consider "sz \<le> i" | "i < sz" "bm ! i = v" | "i < sz" "bm ! i \<noteq> v" by linarith
  then show ?case
  proof cases
    case 3
    then obtain j where "find_next v bm sz (Suc i) = Some j" "j \<le> sz" "Suc i \<le> j"
      "\<forall>k. Suc i \<le> k \<and> k < j \<longrightarrow> bm ! k \<noteq> v" "j < sz \<longrightarrow> bm ! j = v" using 1 by fastforce
    moreover have "bm ! k \<noteq> v" if "i \<le> k" "k < j" for k
      using that 3(2) calculation(4) by (cases "k = i") auto
    ultimately show ?thesis using 3 1(2) by (subst find_next.simps) auto
  qed (use 1(2) in \<open>subst find_next.simps, auto\<close>)+
qed

definition fill :: "bool \<Rightarrow> nat \<Rightarrow> nat \<Rightarrow> bool list \<Rightarrow> bool list" where
  "fill v s e bm = map (\<lambda>i. if s \<le> i \<and> i \<le> e then v else bm ! i) [0..<length bm]"

lemma length_fill [simp]: "length (fill v s e bm) = length bm"
  by (simp add: fill_def)

lemma nth_fill [simp]:
  "i < length bm \<Longrightarrow> fill v s e bm ! i = (if s \<le> i \<and> i \<le> e then v else bm ! i)"
  by (simp add: fill_def)

lemma put_bits_fill: "e < length bm \<Longrightarrow> put_bits v s e bm = Some (fill v s e bm)"
proof (induction v s e bm rule: put_bits.induct)
  case (1 v s e bm)
  show ?case
  proof (cases "s \<le> e")
    case True
    have "fill v (Suc s) e (bm[s := v]) = fill v s e bm"
      using True 1(2) by (intro nth_equalityI) (auto simp: nth_list_update)
    with 1 True show ?thesis by (subst put_bits.simps) (simp add: c_set_Some)
  next
    case False
    then have "fill v s e bm = bm" by (intro nth_equalityI) auto
    with False show ?thesis by (subst put_bits.simps) simp
  qed
qed

section \<open>First fit\<close>

definition free_run :: "bool list \<Rightarrow> nat \<Rightarrow> nat \<Rightarrow> nat \<Rightarrow> bool" where
  "free_run bm tot s n \<longleftrightarrow> s + n \<le> tot \<and> (\<forall>i. s \<le> i \<and> i < s + n \<longrightarrow> \<not> bm ! i)"

definition need :: "nat \<Rightarrow> nat \<Rightarrow> nat" where
  "need chunk sz = (sz + chunk - 1) div chunk"

lemma need_one: "0 < sz \<Longrightarrow> sz \<le> chunk \<Longrightarrow> need chunk sz = 1"
  unfolding need_def by (intro div_nat_eqI) auto

lemma need_step: "0 < chunk \<Longrightarrow> chunk < sz \<Longrightarrow> need chunk sz = Suc (need chunk (sz - chunk))"
proof -
  assume h: "0 < chunk" "chunk < sz"
  then have "sz + chunk - 1 - chunk = sz - chunk + chunk - 1" by simp
  with h le_div_geq [of chunk "sz + chunk - 1"] show ?thesis by (simp add: need_def)
qed

lemma need_le: "0 < chunk \<Longrightarrow> need chunk sz \<le> t \<longleftrightarrow> sz \<le> t * chunk"
proof -
  assume c: "0 < chunk"
  then have "need chunk sz \<le> t \<longleftrightarrow> sz + chunk - 1 < Suc t * chunk"
    unfolding need_def by (metis div_less_iff_less_mult less_Suc_eq_le)
  also have "\<dots> \<longleftrightarrow> sz \<le> t * chunk" using c by auto
  finally show ?thesis .
qed

lemma mm_grow_spec:
  assumes "tot \<le> length bm" and "0 < chunk" and "0 < cur" and "found < tot"
  shows "\<exists>g. mm_grow bm tot chunk found cur = Some g \<and>
    (case g of
       Grown e \<Rightarrow> e = found + need chunk cur \<and> e < tot \<and> (\<forall>i. found < i \<and> i \<le> e \<longrightarrow> \<not> bm ! i)
     | Restart f \<Rightarrow> found < f \<and> f < tot \<and> bm ! f \<and> f \<le> found + need chunk cur
     | No_Room \<Rightarrow> tot \<le> found + need chunk cur)"
  using assms
proof (induction bm tot chunk found cur rule: mm_grow.induct)
  case (1 bm tot chunk found cur)
  obtain e where e: "find_next_zero_bit bm tot (Suc found) = Some e" "e \<le> tot" "Suc found \<le> e"
    "\<forall>k. Suc found \<le> k \<and> k < e \<longrightarrow> bm ! k" "e < tot \<longrightarrow> \<not> bm ! e"
    using find_next_spec [OF 1(2), of False "Suc found"] 1(5) by auto
  have pos: "1 \<le> need chunk cur"
    using need_one [OF 1(4), of chunk] need_step [OF 1(3), of cur] by linarith
  consider (hit) "e \<noteq> Suc found" | (full) "e = Suc found" "e = tot"
    | (last) "e = Suc found" "e < tot" "cur \<le> chunk" | (more) "e = Suc found" "e < tot" "chunk < cur"
    using e(2) by linarith
  then show ?case
  proof cases
    case hit
    then have "Suc found < e" using e(3) by simp
    then have "bm ! Suc found" "Suc found < tot" using e(2,4) by auto
    with hit e(1) pos show ?thesis by (subst mm_grow.simps) simp
  next
    case full
    with e(1) pos show ?thesis by (subst mm_grow.simps) simp
  next
    case last
    then have "\<not> bm ! i" if "found < i" "i \<le> Suc found" for i
      using that e(5) by (cases "i = Suc found") auto
    with last e(1) need_one [OF 1(4) last(3)] show ?thesis by (subst mm_grow.simps) simp
  next
    case more
    then have "0 < cur - chunk" by simp
    with 1(1) [OF refl e(1)] more 1(2,3) obtain g where
      g: "mm_grow bm tot chunk (Suc found) (cur - chunk) = Some g"
        "case g of
           Grown e \<Rightarrow> e = Suc found + need chunk (cur - chunk) \<and> e < tot \<and>
             (\<forall>i. Suc found < i \<and> i \<le> e \<longrightarrow> \<not> bm ! i)
         | Restart f \<Rightarrow> Suc found < f \<and> f < tot \<and> bm ! f \<and> f \<le> Suc found + need chunk (cur - chunk)
         | No_Room \<Rightarrow> tot \<le> Suc found + need chunk (cur - chunk)" by auto
    have eq: "mm_grow bm tot chunk found cur = Some g"
      using more e(1) g(1) by (subst mm_grow.simps) simp
    have ok: "\<not> bm ! Suc found" using more e(5) by simp
    have "\<not> bm ! i" if "\<forall>i. Suc found < i \<and> i \<le> k \<longrightarrow> \<not> bm ! i" "found < i" "i \<le> k" for i k
      using that ok by (cases "i = Suc found") auto
    with g(2) need_step [OF 1(3) more(3)] show ?thesis
      unfolding eq by (auto split: mm_grown.splits)
  qed
qed

lemma mm_search_spec:
  assumes "tot \<le> length bm" and "0 < chunk" and "0 < sz"
    and "\<forall>s < start. \<not> free_run bm tot s (need chunk sz)"
  shows "\<exists>r. mm_search bm tot chunk sz start = Some r \<and>
    (case r of
       None \<Rightarrow> \<forall>s. \<not> free_run bm tot s (need chunk sz)
     | Some (s, e) \<Rightarrow> free_run bm tot s (need chunk sz) \<and> e = s + need chunk sz - 1 \<and>
         (\<forall>t < s. \<not> free_run bm tot t (need chunk sz)))"
  using assms
proof (induction bm tot chunk sz start rule: mm_search.induct)
  case (1 bm tot chunk sz start)
  let ?n = "need chunk sz"
  obtain j where j: "find_next_zero_bit bm tot start = Some j" "j \<le> tot"
    "\<forall>k. start \<le> k \<and> k < j \<longrightarrow> bm ! k" "j < tot \<longrightarrow> \<not> bm ! j"
    using find_next_spec [OF 1(2), of False start] by auto
  have pos: "1 \<le> ?n" using need_one [OF 1(4), of chunk] need_step [OF 1(3), of sz] by linarith
  have before: "\<not> free_run bm tot s ?n" if "s < j" for s
  proof (cases "s < start")
    case False
    with that j(3) have "bm ! s" by simp
    with pos show ?thesis by (auto simp: free_run_def intro!: exI [of _ s])
  qed (use 1(5) in simp)
  consider (full) "j = tot" | (one) "j < tot" "sz \<le> chunk" | (grow) "j < tot" "chunk < sz"
    using j(2) by linarith
  then show ?case
  proof cases
    case full
    have "\<not> free_run bm tot s ?n" for s
      using before [of s] full pos by (cases "s < j") (auto simp: free_run_def)
    with full j(1) show ?thesis by (subst mm_search.simps) simp
  next
    case one
    have "free_run bm tot j ?n"
      using one j(4) need_one [OF 1(4) one(2)] by (auto simp: free_run_def) (metis le_less_Suc_eq)
    with one before j(1) need_one [OF 1(4) one(2)] show ?thesis by (subst mm_search.simps) auto
  next
    case grow
    have n: "?n = Suc (need chunk (sz - chunk))" by (rule need_step [OF 1(3) grow(2)])
    obtain g where g: "mm_grow bm tot chunk j (sz - chunk) = Some g"
      "case g of
         Grown e \<Rightarrow> e = j + need chunk (sz - chunk) \<and> e < tot \<and> (\<forall>i. j < i \<and> i \<le> e \<longrightarrow> \<not> bm ! i)
       | Restart f \<Rightarrow> j < f \<and> f < tot \<and> bm ! f \<and> f \<le> j + need chunk (sz - chunk)
       | No_Room \<Rightarrow> tot \<le> j + need chunk (sz - chunk)"
      using mm_grow_spec [OF 1(2,3) _ grow(1), of "sz - chunk"] grow(2) by auto
    show ?thesis
    proof (cases g)
      case (Restart f)
      have "\<not> free_run bm tot s ?n" if "s < f" for s
      proof (cases "s < j")
        case False
        with that g(2) Restart n have "s \<le> f \<and> f < s + ?n \<and> bm ! f" by auto
        then show ?thesis by (auto simp: free_run_def)
      qed (use before in simp)
      with 1(1) [OF j(1) _ _ g(1) Restart] grow 1(2-4) j(1) g(1) Restart show ?thesis
        by (subst mm_search.simps) simp
    next
      case No_Room
      have "\<not> free_run bm tot s ?n" for s
        using before [of s] g(2) No_Room n by (cases "s < j") (auto simp: free_run_def)
      with No_Room g(1) j(1) grow show ?thesis by (subst mm_search.simps) simp
    next
      case (Grown e)
      have "\<not> bm ! i" if "j \<le> i" "i < j + ?n" for i
        using that g(2) Grown n j(4) grow(1) by (cases "i = j") auto
      then have "free_run bm tot j ?n" using g(2) Grown n by (auto simp: free_run_def)
      with before Grown g n j(1) grow show ?thesis by (subst mm_search.simps) auto
    qed
  qed
qed

section \<open>The allocator and its live objects\<close>

text \<open>The chunks of the live objects, and what holds between any two calls.\<close>

definition obj_cells :: "rknpu_mm_obj \<Rightarrow> nat list" where
  "obj_cells obj = [range_start obj..<Suc (range_end obj)]"

definition cells :: "rknpu_mm_obj list \<Rightarrow> nat list" where
  "cells os = concat (map obj_cells os)"

definition mm_wf :: "rknpu_mm \<Rightarrow> bool" where
  "mm_wf mm \<longleftrightarrow> 0 < mm_chunk_size mm \<and> mm_total_chunks mm \<le> length (mm_bitmap mm) \<and>
     mm_total_chunks mm * mm_chunk_size mm < 2 ^ 32"

definition mm_inv :: "rknpu_mm \<Rightarrow> rknpu_mm_obj list \<Rightarrow> bool" where
  "mm_inv mm os \<longleftrightarrow> mm_wf mm \<and> distinct (cells os) \<and>
     set (cells os) = {i. i < mm_total_chunks mm \<and> mm_bitmap mm ! i} \<and>
     mm_free_chunks mm + length (cells os) = mm_total_chunks mm \<and>
     (\<forall>obj \<in> set os. range_start obj \<le> range_end obj)"

lemma mm_wf_total: "mm_wf mm \<Longrightarrow> mm_total_chunks mm < 2 ^ 32"
proof -
  assume "mm_wf mm"
  then have "mm_total_chunks mm \<le> mm_total_chunks mm * mm_chunk_size mm"
    and "mm_total_chunks mm * mm_chunk_size mm < 2 ^ 32" by (simp_all add: mm_wf_def)
  then show ?thesis by (rule le_less_trans)
qed

lemma usub_le: "b \<le> a \<Longrightarrow> a < 2 ^ 32 \<Longrightarrow> usub a b = a - b"
proof -
  assume "b \<le> a" "a < 2 ^ 32"
  then have "a + 2 ^ 32 - b = (a - b) + 2 ^ 32" and "a - b < 2 ^ 32" by simp_all
  then show ?thesis by (simp only: usub_def mod_add_self2 mod_less)
qed

lemma uadd_lt: "a + b < 2 ^ 32 \<Longrightarrow> uadd a b = a + b"
  by (simp add: uadd_def)

lemma range_size_run: "0 < n \<Longrightarrow> s + n < 2 ^ 32 \<Longrightarrow> range_size \<lparr>range_start = s, range_end = s + n - 1\<rparr> = n"
  by (simp add: range_size_def usub_le uadd_lt)

lemma need_pos: "0 < chunk \<Longrightarrow> 0 < sz \<Longrightarrow> 0 < need chunk sz"
  using need_le [of chunk sz 0] by simp

lemma mm_alloc_spec:
  assumes wf: "mm_wf mm" and sz: "0 < sz"
  defines "n \<equiv> need (mm_chunk_size mm) sz"
  shows "(\<exists>s. free_run (mm_bitmap mm) (mm_total_chunks mm) s n \<and>
      (\<forall>t < s. \<not> free_run (mm_bitmap mm) (mm_total_chunks mm) t n) \<and>
      rknpu_mm_alloc True sz mm = Some (0, Some \<lparr>range_start = s, range_end = s + n - 1\<rparr>,
        mm\<lparr>mm_bitmap := fill True s (s + n - 1) (mm_bitmap mm), mm_free_chunks := usub (mm_free_chunks mm) n\<rparr>)) \<or>
    (\<forall>s. \<not> free_run (mm_bitmap mm) (mm_total_chunks mm) s n) \<and>
      rknpu_mm_alloc True sz mm = Some (- E_NOMEM, None, mm)"
proof -
  let ?bm = "mm_bitmap mm" and ?tot = "mm_total_chunks mm" and ?chunk = "mm_chunk_size mm"
  have c: "0 < ?chunk" "?tot \<le> length ?bm" "?tot * ?chunk < 2 ^ 32" using wf by (simp_all add: mm_wf_def)
  have n: "0 < n" unfolding n_def by (rule need_pos [OF c(1) sz])
  show ?thesis
  proof (cases "?tot * ?chunk < sz")
    case True
    then have "?tot < n" using need_le [OF c(1), of sz ?tot] by (simp add: n_def)
    then have "\<forall>s. \<not> free_run ?bm ?tot s n" by (simp add: free_run_def)
    with True c(3) sz show ?thesis by (simp add: rknpu_mm_alloc_def umul_def)
  next
    case False
    then have guard: "\<not> umul ?tot ?chunk < sz" using c(3) by (simp add: umul_def)
    have "\<forall>s < 0. \<not> free_run ?bm ?tot s n" by simp
    then obtain r where r: "mm_search ?bm ?tot ?chunk sz 0 = Some r"
      "case r of None \<Rightarrow> \<forall>s. \<not> free_run ?bm ?tot s n
       | Some (s, e) \<Rightarrow> free_run ?bm ?tot s n \<and> e = s + n - 1 \<and> (\<forall>t < s. \<not> free_run ?bm ?tot t n)"
      using mm_search_spec [OF c(2,1) sz, of 0] unfolding n_def by blast
    show ?thesis
    proof (cases r)
      case None
      with r guard sz show ?thesis by (simp add: rknpu_mm_alloc_def)
    next
      case (Some se)
      obtain s e where se: "se = (s, e)" by (cases se)
      with r(2) Some have run: "free_run ?bm ?tot s n" and e: "e = s + n - 1"
        and least: "\<forall>t < s. \<not> free_run ?bm ?tot t n" by auto
      then have "s + n \<le> ?tot" by (simp add: free_run_def)
      then have "put_bits True s e ?bm = Some (fill True s e ?bm)" and "s + n < 2 ^ 32"
        using put_bits_fill [of e ?bm True s] c(2) n e mm_wf_total [OF wf] by auto
      then show ?thesis
        using run least r(1) Some se guard sz e range_size_run [OF n]
        by (auto simp: rknpu_mm_alloc_def Let_def)
    qed
  qed
qed

text \<open>Operations outside the search keep the state.\<close>

lemma mm_alloc_cases:
  assumes "rknpu_mm_alloc ok sz mm = Some (ret, obj, mm')"
  shows "(obj = None \<and> mm' = mm) \<or> (0 < sz \<and> rknpu_mm_alloc True sz mm = Some (ret, obj, mm'))"
  using assms by (cases "sz = 0"; cases ok) (auto simp: rknpu_mm_alloc_def split: if_splits)

lemma cells_Cons: "cells (obj # os) = obj_cells obj @ cells os"
  by (simp add: cells_def)

lemma mm_inv_alloc:
  assumes inv: "mm_inv mm os" and op: "rknpu_mm_alloc ok sz mm = Some (ret, obj, mm')"
  shows "mm_inv mm' (case obj of None \<Rightarrow> os | Some obj \<Rightarrow> obj # os)"
  using mm_alloc_cases [OF op]
proof
  assume "obj = None \<and> mm' = mm"
  with inv show ?thesis by simp
next
  assume sz: "0 < sz \<and> rknpu_mm_alloc True sz mm = Some (ret, obj, mm')"
  have wf: "mm_wf mm" using inv by (simp add: mm_inv_def)
  let ?bm = "mm_bitmap mm" and ?tot = "mm_total_chunks mm" and ?n = "need (mm_chunk_size mm) sz"
  from mm_alloc_spec [OF wf, of sz] sz consider
    (none) "obj = None" "mm' = mm" | (run) s where "free_run ?bm ?tot s ?n"
      "obj = Some \<lparr>range_start = s, range_end = s + ?n - 1\<rparr>"
      "mm' = mm\<lparr>mm_bitmap := fill True s (s + ?n - 1) ?bm, mm_free_chunks := usub (mm_free_chunks mm) ?n\<rparr>"
    by auto
  then show ?thesis
  proof cases
    case run
    have n: "0 < ?n" using need_pos wf sz by (simp add: mm_wf_def)
    have oc: "obj_cells \<lparr>range_start = s, range_end = s + ?n - Suc 0\<rparr> = [s..<s + ?n]"
      using n by (simp add: obj_cells_def)
    have new: "set [s..<s + ?n] \<inter> set (cells os) = {}" "s + ?n \<le> ?tot"
      using run(1) inv by (auto simp: free_run_def mm_inv_def)
    have len: "?tot \<le> length ?bm" using wf by (simp add: mm_wf_def)
    have "length ([s..<s + ?n] @ cells os) = card (set ([s..<s + ?n] @ cells os))"
      using new inv by (intro distinct_card [symmetric]) (simp add: mm_inv_def)
    also have "\<dots> \<le> card {..<?tot}"
      using new inv by (intro card_mono) (auto simp: mm_inv_def)
    finally have "?n + length (cells os) \<le> ?tot" by simp
    moreover have "mm_free_chunks mm + length (cells os) = ?tot" using inv by (simp add: mm_inv_def)
    ultimately have free: "usub (mm_free_chunks mm) ?n + (?n + length (cells os)) = ?tot"
      using mm_wf_total [OF wf] by (simp add: usub_le)
    have "{i. i < ?tot \<and> fill True s (s + ?n - 1) ?bm ! i} = {s..<s + ?n} \<union> {i. i < ?tot \<and> ?bm ! i}"
      using new(2) n len by auto
    with run inv new free n show ?thesis
      by (simp add: mm_inv_def cells_Cons oc) (auto simp: mm_wf_def)
  qed (use inv in simp)
qed

lemma mm_inv_free:
  assumes inv: "mm_inv mm os" and live: "obj \<in> set os"
  shows "\<exists>mm'. rknpu_mm_free (Some obj) mm = Some (0, mm') \<and> mm_inv mm' (remove1 obj os)"
proof -
  let ?bm = "mm_bitmap mm" and ?tot = "mm_total_chunks mm"
  let ?s = "range_start obj" and ?e = "range_end obj" and ?rest = "remove1 obj os"
  have wf: "mm_wf mm" and le: "?s \<le> ?e" using inv live by (simp_all add: mm_inv_def)
  have "mset os = mset (obj # ?rest)" using live by simp
  then have "mset (map obj_cells os) = mset (map obj_cells (obj # ?rest))" by (simp only: mset_map)
  then have perm: "mset (cells os) = mset (obj_cells obj @ cells ?rest)"
    unfolding cells_Cons [symmetric] unfolding cells_def by (metis mset_concat sum_mset_sum_list mset_map)
  have dist: "distinct (obj_cells obj @ cells ?rest)"
    using perm inv by (metis mm_inv_def mset_eq_imp_distinct_iff)
  have cells: "set (obj_cells obj) \<union> set (cells ?rest) = {i. i < ?tot \<and> ?bm ! i}"
    using perm inv by (metis mm_inv_def mset_eq_setD set_append)
  have len: "length (obj_cells obj) + length (cells ?rest) = length (cells os)"
    using perm by (metis length_append mset_eq_length)
  have "?e \<in> set (obj_cells obj)" using le by (simp add: obj_cells_def)
  with cells have e: "?e < ?tot" by blast
  have tot: "?tot \<le> length ?bm" "?tot < 2 ^ 32" using wf mm_wf_total by (simp_all add: mm_wf_def)
  have put: "put_bits False ?s ?e ?bm = Some (fill False ?s ?e ?bm)"
    using e tot by (intro put_bits_fill) simp
  have sz: "range_size obj = length (obj_cells obj)"
    using le e tot by (simp add: range_size_def obj_cells_def uadd_lt usub_le)
  have "{i. i < ?tot \<and> fill False ?s ?e ?bm ! i} = {i. i < ?tot \<and> ?bm ! i} - set (obj_cells obj)"
    using tot by (auto simp: obj_cells_def split: if_splits)
  also have "\<dots> = set (cells ?rest)" using cells dist by auto
  finally have bits: "set (cells ?rest) = {i. i < ?tot \<and> fill False ?s ?e ?bm ! i}" ..
  have "mm_free_chunks mm + length (cells os) = ?tot" using inv by (simp add: mm_inv_def)
  then have "uadd (mm_free_chunks mm) (range_size obj) + length (cells ?rest) = ?tot"
    using len sz tot by (simp add: uadd_def)
  then have "mm_inv (mm\<lparr>mm_bitmap := fill False ?s ?e ?bm,
      mm_free_chunks := uadd (mm_free_chunks mm) (range_size obj)\<rparr>) ?rest"
    using inv wf bits dist by (auto simp: mm_inv_def mm_wf_def dest: set_remove1_subset [THEN subsetD])
  then show ?thesis by (simp add: rknpu_mm_free_def put)
qed

section \<open>The dump\<close>

text \<open>The rows after some characters, in closed form.\<close>

definition dump_state :: "string \<Rightarrow> mm_rows" where
  "dump_state cs =
     \<lparr>mr_buf = drop (32 * (length cs div 32)) cs, mr_id = length cs div 32,
      mr_lines = map (\<lambda>k. mm_row k (take 32 (drop (32 * k) cs))) [0..<length cs div 32]\<rparr>"

lemma dump_rows_keep:
  "map (\<lambda>k. mm_row k (take 32 (drop (32 * k) (cs @ ds)))) [0..<length cs div 32]
    = map (\<lambda>k. mm_row k (take 32 (drop (32 * k) cs))) [0..<length cs div 32]"
proof (intro map_cong refl)
  fix k assume "k \<in> set [0..<length cs div 32]"
  then have "32 * k + 32 \<le> length cs" by auto
  then show "mm_row k (take 32 (drop (32 * k) (cs @ ds))) = mm_row k (take 32 (drop (32 * k) cs))" by simp
qed

lemma mm_put_state: "mm_put c (dump_state cs) = dump_state (cs @ [c])"
proof (cases "length cs mod 32 = 31")
  case True
  then have len: "length cs = 32 * (length cs div 32) + 31" by (metis mult_div_mod_eq)
  then have "Suc (length cs) div 32 = Suc (length cs div 32)" by linarith
  with len True show ?thesis
    using dump_rows_keep [of cs "[c]"] by (simp add: mm_put_def mm_flush_def dump_state_def Let_def)
next
  case False
  have "length cs = 32 * (length cs div 32) + length cs mod 32" "length cs mod 32 < 32" by simp_all
  with False have "Suc (length cs) div 32 = length cs div 32" "length cs - 32 * (length cs div 32) < 31" by linarith+
  then show ?thesis
    using dump_rows_keep [of cs "[c]"] by (simp add: mm_put_def mm_flush_def dump_state_def Let_def)
qed

lemma mm_puts_state: "mm_puts c n (dump_state cs) = dump_state (cs @ replicate n c)"
  by (induction n) (simp_all add: mm_puts_def mm_put_state replicate_append_same flip: replicate_Suc)

definition used_chars :: "bool list \<Rightarrow> nat \<Rightarrow> string" where
  "used_chars bm n = map (\<lambda>i. if bm ! i then CHR ''*'' else CHR ''.'') [0..<n]"

lemma used_chars_run:
  assumes "a \<le> b" and "\<forall>i. a \<le> i \<and> i < b \<longrightarrow> (if bm ! i then CHR ''*'' else CHR ''.'') = c"
  shows "mm_puts c (b - a) (dump_state (used_chars bm a)) = dump_state (used_chars bm b)"
proof -
  have "[0..<b] = [0..<a] @ [a..<b]" using assms(1) by (metis le_add_diff_inverse upt_add_eq_append zero_le)
  moreover have "map (\<lambda>i. if bm ! i then CHR ''*'' else CHR ''.'') [a..<b] = replicate (b - a) c"
    using assms(2) by (intro nth_equalityI) auto
  ultimately have "used_chars bm b = used_chars bm a @ replicate (b - a) c" by (simp add: used_chars_def)
  then show ?thesis by (simp add: mm_puts_state)
qed

lemma mm_dump_loop_state:
  assumes "tot \<le> length bm" and "rbot \<le> cur" and "cur \<le> tot" and "cur = tot \<longrightarrow> rbot = tot"
    and "\<forall>i. rbot \<le> i \<and> i \<le> cur \<and> i < tot \<longrightarrow> bm ! i"
  shows "mm_dump_loop bm tot cur rbot (dump_state (used_chars bm rbot)) = Some (dump_state (used_chars bm tot))"
  using assms
proof (induction "tot - cur" arbitrary: cur rbot rule: less_induct)
  case less
  show ?case
  proof (cases "cur < tot")
    case True
    obtain c where c: "find_next_bit bm tot (Suc cur) = Some c" "c \<le> tot" "Suc cur \<le> c"
      "\<forall>k. Suc cur \<le> k \<and> k < c \<longrightarrow> \<not> bm ! k" "c < tot \<longrightarrow> bm ! c"
      using find_next_spec [OF less.prems(1), of True "Suc cur"] True by auto
    show ?thesis
    proof (cases "c < tot \<and> c \<le> Suc cur")
      case next_set: True
      then have "c = Suc cur" using c(3) by simp
      with c(5) next_set less.prems have "\<forall>i. rbot \<le> i \<and> i \<le> c \<and> i < tot \<longrightarrow> bm ! i"
        by (auto simp: le_Suc_eq)
      with less.hyps [of c rbot] less.prems(1,2) c next_set True \<open>c = Suc cur\<close> show ?thesis
        by (subst mm_dump_loop.simps) simp
    next
      case False
      have stars: "mm_puts CHR ''*'' (Suc cur - rbot) (dump_state (used_chars bm rbot))
          = dump_state (used_chars bm (Suc cur))"
        using less.prems(2,5) True by (intro used_chars_run) auto
      have dots: "mm_puts CHR ''.'' (c - Suc cur) (dump_state (used_chars bm (Suc cur)))
          = dump_state (used_chars bm c)"
        using c(3,4) by (intro used_chars_run) auto
      have "mm_dump_loop bm tot c c (dump_state (used_chars bm c)) = Some (dump_state (used_chars bm tot))"
        using less.prems(1) True c by (intro less.hyps) auto
      with True False c(1) stars dots show ?thesis
        by (subst mm_dump_loop.simps) (auto simp: Let_def)
    qed
  next
    case False
    with less.prems(3,4) show ?thesis by (subst mm_dump_loop.simps) simp
  qed
qed

text \<open>Rows of 32 characters, the last one shorter.\<close>

definition dump_rows :: "string \<Rightarrow> string list" where
  "dump_rows cs = map (\<lambda>k. mm_row k (take 32 (drop (32 * k) cs))) [0..<(length cs + 31) div 32]"

lemma dump_state_rows:
  "mr_lines (if length (mr_buf (dump_state cs)) > 0 then mm_flush (dump_state cs) else dump_state cs) = dump_rows cs"
proof (cases "length cs mod 32 = 0")
  case True
  then have "length cs = 32 * (length cs div 32)" by (metis mult_div_mod_eq add_0_right)
  then have "(length cs + 31) div 32 = length cs div 32" "drop (32 * (length cs div 32)) cs = []" by simp_all
  then show ?thesis by (simp add: dump_state_def dump_rows_def)
next
  case False
  have len: "length cs = 32 * (length cs div 32) + length cs mod 32" "length cs mod 32 < 32" by simp_all
  with False have "(length cs + 31) div 32 = Suc (length cs div 32)" by linarith
  moreover have "length (drop (32 * (length cs div 32)) cs) = length cs mod 32"
    by (simp add: minus_mult_div_eq_mod)
  ultimately show ?thesis using False len(2) by (simp add: dump_state_def dump_rows_def mm_flush_def)
qed

section \<open>The properties\<close>

text \<open>C25: Allocation is first fit. On a well-formed allocator a request of \<open>sz > 0\<close> bytes needs
  \<open>n\<close> chunks, \<open>sz\<close> divided by the chunk size and rounded up. If \<open>n\<close> chunks in a row are
  free, the call returns 0 and the lowest such run, sets exactly its bits and takes \<open>n\<close> off the
  free count, and freeing the object restores the allocator if it counted right; otherwise it returns
  \<open>-ENOMEM\<close> and changes nothing. So the restarts of its search skip no run.\<close>

theorem mm_alloc_first_fit:
  assumes wf: "mm_wf mm" and sz: "0 < sz" and free: "mm_free_chunks mm \<le> mm_total_chunks mm"
    and n: "n = need (mm_chunk_size mm) sz"
  shows "if \<exists>s. free_run (mm_bitmap mm) (mm_total_chunks mm) s n
    then \<exists>s mm'. rknpu_mm_alloc True sz mm = Some (0, Some \<lparr>range_start = s, range_end = s + n - 1\<rparr>, mm') \<and>
      free_run (mm_bitmap mm) (mm_total_chunks mm) s n \<and>
      (\<forall>t < s. \<not> free_run (mm_bitmap mm) (mm_total_chunks mm) t n) \<and>
      mm_bitmap mm' = fill True s (s + n - 1) (mm_bitmap mm) \<and>
      (n \<le> mm_free_chunks mm \<longrightarrow> mm_free_chunks mm' = mm_free_chunks mm - n \<and>
        rknpu_mm_free (Some \<lparr>range_start = s, range_end = s + n - 1\<rparr>) mm' = Some (0, mm))
    else rknpu_mm_alloc True sz mm = Some (- E_NOMEM, None, mm)"
proof (cases "\<exists>s. free_run (mm_bitmap mm) (mm_total_chunks mm) s n")
  case True
  let ?bm = "mm_bitmap mm"
  obtain s where run: "free_run ?bm (mm_total_chunks mm) s n"
      "\<forall>t < s. \<not> free_run ?bm (mm_total_chunks mm) t n"
    and eq: "rknpu_mm_alloc True sz mm = Some (0, Some \<lparr>range_start = s, range_end = s + n - 1\<rparr>,
      mm\<lparr>mm_bitmap := fill True s (s + n - 1) ?bm, mm_free_chunks := usub (mm_free_chunks mm) n\<rparr>)"
    using mm_alloc_spec [OF wf sz] True n by blast
  have pos: "0 < n" and tot: "mm_total_chunks mm < 2 ^ 32" and len: "mm_total_chunks mm \<le> length ?bm"
    using need_pos sz n wf mm_wf_total by (auto simp: mm_wf_def)
  have end_in: "s + n \<le> mm_total_chunks mm" using run(1) by (simp add: free_run_def)
  then have rs: "range_size \<lparr>range_start = s, range_end = s + n - 1\<rparr> = n"
    using range_size_run [OF pos] tot by simp
  have "fill False s (s + n - 1) (fill True s (s + n - 1) ?bm) = ?bm"
    using run(1) pos by (intro nth_equalityI) (auto simp: free_run_def)
  then have put: "put_bits False s (s + n - 1) (fill True s (s + n - 1) ?bm) = Some ?bm"
    using put_bits_fill [of "s + n - 1" "fill True s (s + n - 1) ?bm" False s] end_in len pos by simp
  have "n \<le> mm_free_chunks mm \<longrightarrow> usub (mm_free_chunks mm) n = mm_free_chunks mm - n \<and>
      uadd (mm_free_chunks mm - n) n = mm_free_chunks mm"
    using free tot by (simp add: usub_le uadd_lt)
  with run eq put rs True show ?thesis by (auto simp: rknpu_mm_free_def)
next
  case False
  with mm_alloc_spec [OF wf sz] n show ?thesis by auto
qed

definition demo_mm :: rknpu_mm where
  "demo_mm = \<lparr>mm_bitmap = [True, False, True, False, False, False], mm_chunk_size = 4096, mm_total_chunks = 6,
     mm_free_chunks = 4\<rparr>"

theorem mm_alloc_first_fit_witness:
  "\<exists>mm'. rknpu_mm_alloc True 5000 demo_mm = Some (0, Some \<lparr>range_start = 3, range_end = 4\<rparr>, mm') \<and>
     rknpu_mm_free (Some \<lparr>range_start = 3, range_end = 4\<rparr>) mm' = Some (0, demo_mm)"
proof -
  have n: "2 = need (mm_chunk_size demo_mm) 5000" by (simp add: demo_mm_def need_def)
  have wf: "mm_wf demo_mm" by (simp add: mm_wf_def demo_mm_def)
  have run: "free_run (mm_bitmap demo_mm) 6 3 2"
    by (auto simp: free_run_def demo_mm_def less_Suc_eq numeral_eq_Suc)
  have only: "s = 3" if s: "free_run (mm_bitmap demo_mm) 6 s 2"
      "\<forall>t < s. \<not> free_run (mm_bitmap demo_mm) 6 t 2" for s
  proof -
    have a: "\<not> mm_bitmap demo_mm ! s" and b: "\<not> mm_bitmap demo_mm ! Suc s"
      using s(1) by (simp_all add: free_run_def)
    have "s \<noteq> 0" using a by (cases "s = 0") (simp_all add: demo_mm_def)
    moreover have "s \<noteq> 1" using b by (cases "s = 1") (simp_all add: demo_mm_def)
    moreover have "s \<noteq> 2" using a by (cases "s = 2") (simp_all add: demo_mm_def)
    moreover have "\<not> 3 < s" using s(2) run by blast
    ultimately show ?thesis by linarith
  qed
  have f: "mm_total_chunks demo_mm = 6" "mm_free_chunks demo_mm = 4" by (simp_all add: demo_mm_def)
  have ex: "\<exists>s. free_run (mm_bitmap demo_mm) (mm_total_chunks demo_mm) s 2" using run f by auto
  obtain s mm' where alloc: "rknpu_mm_alloc True 5000 demo_mm
        = Some (0, Some \<lparr>range_start = s, range_end = s + 2 - 1\<rparr>, mm')"
    and s: "free_run (mm_bitmap demo_mm) 6 s 2" "\<forall>t < s. \<not> free_run (mm_bitmap demo_mm) 6 t 2"
    and freed: "rknpu_mm_free (Some \<lparr>range_start = s, range_end = s + 2 - 1\<rparr>) mm' = Some (0, demo_mm)"
    using mm_alloc_first_fit [OF wf _ _ n] ex f by auto
  show ?thesis using alloc freed only [OF s] by auto
qed

text \<open>The allocator and its live objects after any sequence of calls.\<close>

inductive mm_reach :: "rknpu_mm \<Rightarrow> rknpu_mm_obj list \<Rightarrow> bool" where
  created: "rknpu_mm_create True True mem_size chunk_size = Some (0, Some mm) \<Longrightarrow> mem_size < 2 ^ 32 \<Longrightarrow>
    mem_size div chunk_size + 32 < 2 ^ 32 \<Longrightarrow> mm_reach mm []"
| alloc: "mm_reach mm os \<Longrightarrow> rknpu_mm_alloc ok sz mm = Some (ret, obj, mm') \<Longrightarrow>
    mm_reach mm' (case obj of None \<Rightarrow> os | Some obj \<Rightarrow> obj # os)"
| freed: "mm_reach mm os \<Longrightarrow> obj \<in> set os \<Longrightarrow> rknpu_mm_free (Some obj) mm = Some (ret, mm') \<Longrightarrow>
    mm_reach mm' (remove1 obj os)"

lemma mm_create_inv:
  assumes "rknpu_mm_create True True mem_size chunk_size = Some (0, Some mm)" and "mem_size < 2 ^ 32"
    and "mem_size div chunk_size + 32 < 2 ^ 32"
  shows "mm_inv mm []"
proof -
  let ?tot = "mem_size div chunk_size"
  have ok: "chunk_size \<le> mem_size" "0 < chunk_size"
    and mm: "mm = \<lparr>mm_bitmap = replicate (usub (uadd ?tot 32) 1 div 32 * 32) False, mm_chunk_size = chunk_size,
      mm_total_chunks = ?tot, mm_free_chunks = ?tot\<rparr>"
    using assms(1) by (auto simp: rknpu_mm_create_def E_INVAL_def Let_def split: if_splits)
  have "usub (uadd ?tot 32) 1 = ?tot + 31" using assms(3) by (simp add: uadd_lt usub_le)
  moreover have "t \<le> (t + 31) div 32 * 32" for t :: nat by presburger
  ultimately have len: "?tot \<le> usub (uadd ?tot 32) 1 div 32 * 32" by simp
  have "?tot * chunk_size < 2 ^ 32" using assms(2) by (meson div_times_less_eq_dividend le_less_trans)
  with ok len show ?thesis by (auto simp: mm_inv_def mm_wf_def mm cells_def)
qed

lemma mm_reach_inv: "mm_reach mm os \<Longrightarrow> mm_inv mm os"
proof (induction rule: mm_reach.induct)
  case (created mem_size chunk_size mm)
  then show ?case by (rule mm_create_inv)
next
  case (alloc mm os ok sz ret obj mm')
  then show ?case by (intro mm_inv_alloc)
next
  case (freed mm os obj ret mm')
  with mm_inv_free [of mm os obj] show ?case by auto
qed

text \<open>C26: Every state the driver can reach. Between any calls of \<open>rknpu_mm_alloc\<close>, with any
  size and outcome, and \<open>rknpu_mm_free\<close> of a live object: the live objects cover different
  chunks, the bitmap is set exactly there, the free count is the number of the other chunks and
  never wraps, and the next call stays inside the bitmap.\<close>

theorem mm_reachable_safe:
  assumes "mm_reach mm os"
  shows "distinct (cells os) \<and> set (cells os) = {i. i < mm_total_chunks mm \<and> mm_bitmap mm ! i} \<and>
    mm_free_chunks mm + length (cells os) = mm_total_chunks mm \<and>
    (\<forall>ok sz. rknpu_mm_alloc ok sz mm \<noteq> None) \<and> (\<forall>obj \<in> set os. rknpu_mm_free (Some obj) mm \<noteq> None)"
proof -
  have inv: "mm_inv mm os" by (rule mm_reach_inv [OF assms])
  then have wf: "mm_wf mm" by (simp add: mm_inv_def)
  have "rknpu_mm_alloc ok sz mm \<noteq> None" for ok sz
    using mm_alloc_spec [OF wf, of sz] by (cases "sz = 0"; cases ok) (auto simp: rknpu_mm_alloc_def)
  moreover have "\<forall>obj \<in> set os. rknpu_mm_free (Some obj) mm \<noteq> None"
    using mm_inv_free [OF inv] by fastforce
  ultimately show ?thesis using inv by (simp add: mm_inv_def)
qed

theorem mm_reachable_safe_witness:
  "\<exists>mm obj. mm_reach mm [obj] \<and> distinct (cells [obj]) \<and> range_end obj = 1"
proof -
  obtain mm where c: "rknpu_mm_create True True 16384 4096 = Some (0, Some mm)"
    by (auto simp: rknpu_mm_create_def uadd_def usub_def Let_def)
  then have r: "mm_reach mm []" by (rule mm_reach.created) simp_all
  have mm: "mm_chunk_size mm = 4096" "mm_total_chunks mm = 4" "mm_bitmap mm = replicate 32 False"
    using c by (auto simp: rknpu_mm_create_def uadd_def usub_def Let_def)
  have wf: "mm_wf mm" using mm_reach_inv [OF r] by (simp add: mm_inv_def)
  have n: "need 4096 8000 = 2" by (simp add: need_def)
  have "free_run (replicate 32 False) 4 0 2" by (simp add: free_run_def)
  with mm_alloc_spec [OF wf, of 8000] n mm obtain mm' where
    "rknpu_mm_alloc True 8000 mm = Some (0, Some \<lparr>range_start = 0, range_end = 1\<rparr>, mm')"
    by (auto simp: free_run_def dest: spec [of _ 0])
  from mm_reach.alloc [OF r this] have "mm_reach mm' [\<lparr>range_start = 0, range_end = 1\<rparr>]" by simp
  with mm_reachable_safe [OF this] show ?thesis by (intro exI conjI) auto
qed

text \<open>The dump shows the bitmap. Between its head and its last line, the file in debugfs has the
  chunks in order, an asterisk for a chunk in use and a dot for a free one, in numbered rows of 32
  with the rest in the last row, and the last line gives the sizes that belong to the free count.\<close>

theorem mm_dump_exact:
  assumes "mm_wf mm"
  shows "\<exists>h. rknpu_mm_dump sram_size (Some mm) =
    Some (h # dump_rows (used_chars (mm_bitmap mm) (mm_total_chunks mm)) @
      [''SRAM total size: '' @ dec_int sram_size @ '', used: '' @
        dec_int (sram_size - int (umul (mm_free_chunks mm) (mm_chunk_size mm))) @ '', free: '' @
        dec_int (int (umul (mm_free_chunks mm) (mm_chunk_size mm)))])"
proof -
  let ?bm = "mm_bitmap mm" and ?tot = "mm_total_chunks mm"
  have len: "?tot \<le> length ?bm" using assms by (simp add: mm_wf_def)
  obtain c where c: "find_next_bit ?bm ?tot 0 = Some c" "c \<le> ?tot" "\<forall>k. k < c \<longrightarrow> \<not> ?bm ! k"
    "c < ?tot \<longrightarrow> ?bm ! c" using find_next_spec [OF len, of True 0] by auto
  have dots: "mm_puts CHR ''.'' c \<lparr>mr_buf = [], mr_id = 0, mr_lines = []\<rparr> = dump_state (used_chars ?bm c)"
    using used_chars_run [of 0 c ?bm "CHR ''.''"] c(3) by (simp add: dump_state_def used_chars_def)
  have loop: "mm_dump_loop ?bm ?tot c c (dump_state (used_chars ?bm c)) = Some (dump_state (used_chars ?bm ?tot))"
    using c by (intro mm_dump_loop_state len) auto
  show ?thesis
    using dump_state_rows [of "used_chars ?bm ?tot"]
    by (simp add: rknpu_mm_dump_def c(1) dots loop Let_def)
qed

theorem mm_dump_exact_witness:
  "\<exists>h l. rknpu_mm_dump 24576 (Some demo_mm) = Some [h, ''[000] [*.*...]'', l]"
proof -
  have "mm_wf demo_mm" by (simp add: mm_wf_def demo_mm_def)
  moreover have "dump_rows (used_chars (mm_bitmap demo_mm) (mm_total_chunks demo_mm)) = [''[000] [*.*...]'']"
  proof -
    have "dec_digits 0 = ''0''" by (subst dec_digits.simps) code_simp
    then have "mm_row 0 ''*.*...'' = ''[000] [*.*...]''" by (simp add: mm_row_def pad3_def numeral_2_eq_2)
    moreover have "used_chars (mm_bitmap demo_mm) (mm_total_chunks demo_mm) = ''*.*...''"
      by (simp add: used_chars_def demo_mm_def upt_rec)
    ultimately show ?thesis by (simp add: dump_rows_def)
  qed
  ultimately show ?thesis using mm_dump_exact [of demo_mm 24576] by auto
qed

end
