(* ===== verification/Aic_Tcp_Ack.thy ===== *)
theory Aic_Tcp_Ack
  imports Prelude "HOL-Library.Monad_Syntax"
begin

text \<open>
  The filter of TCP acknowledgements in \<^verbatim>\<open>aic8800_fdrv/aicwf_tcp_ack.c\<close>, with its callers in
  \<^verbatim>\<open>rwnx_tx.c\<close>: what a packet is parsed to, the table of flows, what is held back, sent
  later by the timer or freed. A message is its address and its packet; a message in a slot, one
  handed back to the caller and one freed are kept apart by the state. The kernel's clock at an
  operation is its argument \<open>now\<close>; reading the packet outside its bytes is undefined
  (\<open>None\<close>).
\<close>

section \<open>Data\<close>

definition TCP_ACK_NUM :: nat where "TCP_ACK_NUM = 32"
definition TCP_ACK_DROP_CNT :: int where "TCP_ACK_DROP_CNT = 10"
definition ACK_OLD_TIME :: nat where "ACK_OLD_TIME = 4000"
definition MAX_TCP_ACK :: u32 where "MAX_TCP_ACK = 200"
definition MIN_WIN :: u32 where "MIN_WIN = 256"
definition SIZE_KB :: u32 where "SIZE_KB = 1024"

definition U32_BEFORE :: "u32 \<Rightarrow> u32 \<Rightarrow> bool" where
  "U32_BEFORE a b \<longleftrightarrow> sint (a - b) \<le> 0"

definition time_after :: "u32 \<Rightarrow> u32 \<Rightarrow> bool" where
  "time_after a b \<longleftrightarrow> sint (b - a) < 0"

record msg_buf =
  mb_addr :: nat
  mb_skb :: bytes

record tcp_ack_msg =
  am_source :: u16
  am_dest :: u16
  am_saddr :: u32
  am_daddr :: u32
  am_seq :: u32
  am_win :: u16

record tcp_ack_info =
  ai_busy :: bool
  ai_drop_cnt :: int
  ai_psh_flag :: bool
  ai_psh_seq :: u32
  ai_win_scale :: u16
  ai_last_time :: u32
  ai_timeout :: u32
  ai_timer :: "u32 option"
  ai_msgbuf :: "msg_buf option"
  ai_in_send_msg :: "msg_buf option"
  ai_ack_msg :: tcp_ack_msg

text \<open>
  The manager with its slots. \<open>tm_freed\<close> are the messages given back to the kernel by the
  filter and \<open>tm_sent\<close> those that have been passed on towards the chip, in order.
\<close>

record tcp_ack_manage =
  tm_enable :: bool
  tm_max_num :: int
  tm_free_index :: int
  tm_last_time :: u32
  tm_timeout :: u32
  tm_max_drop_cnt :: int
  tm_ack_info :: "tcp_ack_info list"
  tm_ack_winsize :: u32
  tm_freed :: "msg_buf list"
  tm_sent :: "msg_buf list"

definition tm_slot :: "nat \<Rightarrow> (tcp_ack_info \<Rightarrow> tcp_ack_info) \<Rightarrow> tcp_ack_manage \<Rightarrow> tcp_ack_manage" where
  "tm_slot i f m = m\<lparr>tm_ack_info := (tm_ack_info m)[i := f (tm_ack_info m ! i)]\<rparr>"

definition intf_tcp_drop_msg :: "msg_buf option \<Rightarrow> tcp_ack_manage \<Rightarrow> tcp_ack_manage" where
  "intf_tcp_drop_msg msg m = m\<lparr>tm_freed := tm_freed m @ (case msg of None \<Rightarrow> [] | Some b \<Rightarrow> [b])\<rparr>"

text \<open>\<open>jf\<close> is the kernel's \<open>msecs_to_jiffies\<close>.\<close>

definition ack_info_zero :: tcp_ack_info where
  "ack_info_zero =
     \<lparr>ai_busy = False, ai_drop_cnt = 0, ai_psh_flag = False, ai_psh_seq = 0, ai_win_scale = 0,
      ai_last_time = 0, ai_timeout = 0, ai_timer = None, ai_msgbuf = None, ai_in_send_msg = None,
      ai_ack_msg = \<lparr>am_source = 0, am_dest = 0, am_saddr = 0, am_daddr = 0, am_seq = 0, am_win = 0\<rparr>\<rparr>"

definition tcp_ack_init :: "(nat \<Rightarrow> u32) \<Rightarrow> u32 \<Rightarrow> tcp_ack_manage" where
  "tcp_ack_init jf now =
     \<lparr>tm_enable = True, tm_max_num = 0, tm_free_index = 0, tm_last_time = now,
      tm_timeout = jf ACK_OLD_TIME, tm_max_drop_cnt = TCP_ACK_DROP_CNT,
      tm_ack_info = replicate TCP_ACK_NUM
        (ack_info_zero\<lparr>ai_last_time := now, ai_timeout := jf ACK_OLD_TIME\<rparr>),
      tm_ack_winsize = MIN_WIN, tm_freed = [], tm_sent = []\<rparr>"

text \<open>The slots are emptied one after the other.\<close>

definition tcp_ack_deinit_slot :: "nat \<Rightarrow> tcp_ack_manage \<Rightarrow> tcp_ack_manage" where
  "tcp_ack_deinit_slot i m =
     (let drop_msg = ai_msgbuf (tm_ack_info m ! i);
          m = tm_slot i (\<lambda>a. a\<lparr>ai_timer := None, ai_msgbuf := None\<rparr>) m
      in intf_tcp_drop_msg drop_msg m)"

definition tcp_ack_deinit :: "tcp_ack_manage \<Rightarrow> tcp_ack_manage" where
  "tcp_ack_deinit m = fold tcp_ack_deinit_slot [0..<TCP_ACK_NUM] (m\<lparr>tm_enable := False\<rparr>)"

section \<open>Packets\<close>

definition TCPOPT_EOL :: u8 where "TCPOPT_EOL = 0"
definition TCPOPT_NOP :: u8 where "TCPOPT_NOP = 1"
definition TCPOPT_WINDOW :: u8 where "TCPOPT_WINDOW = 3"
definition TCPOPT_TIMESTAMP :: u8 where "TCPOPT_TIMESTAMP = 8"

text \<open>
  The loop over the options of a TCP header: the memory from \<open>ptr\<close> on, the length that is
  left by the header, the verdict so far and the window scale. A \<^verbatim>\<open>break\<close> of the code leaves
  its \<^verbatim>\<open>switch\<close> and not the loop.
\<close>

function ack_options :: "bytes \<Rightarrow> int \<Rightarrow> int \<Rightarrow> u16 \<Rightarrow> (int \<times> u16) option" where
  "ack_options ptr len verdict ws =
     (if \<not> (len > 0 \<and> verdict \<noteq> 0) then Some (verdict, ws)
      else case ptr of
        [] \<Rightarrow> None
      | opcode # ptr \<Rightarrow>
          if opcode = TCPOPT_EOL then ack_options ptr len verdict ws
          else if opcode = TCPOPT_NOP then ack_options ptr (len - 1) verdict ws
          else
            (case ptr of
               [] \<Rightarrow> None
             | opsize # ptr \<Rightarrow>
                 if opsize < 2 then ack_options ptr len verdict ws
                 else if uint opsize > len then ack_options ptr len verdict ws
                 else
                   (let rest = drop (unat opsize - 2) ptr; left = len - uint opsize in
                    if opcode = TCPOPT_TIMESTAMP then ack_options rest left verdict ws
                    else if opcode = TCPOPT_WINDOW then
                      (case ptr of
                         [] \<Rightarrow> None
                       | shift # _ \<Rightarrow>
                           ack_options rest left verdict
                             (if shift < 15 then push_bit (unat shift) 1 else ws))
                    else ack_options rest left 2 ws)))"
  by pat_completeness auto
termination by (relation "measure (\<lambda>(ptr, _). length ptr)") auto

declare ack_options.simps [simp del]

text \<open>\<open>tcp\<close> is the memory from the TCP header on.\<close>

definition is_drop_tcp_ack :: "bytes \<Rightarrow> int \<Rightarrow> u16 \<Rightarrow> (int \<times> u16) option" where
  "is_drop_tcp_ack tcp tcp_tot_len win_scale = do {
     b \<leftarrow> c_get tcp 12;
     let len = int (unat (drop_bit 4 b)) * 4;
     if tcp_tot_len > len then Some (0, win_scale)
     else ack_options (drop 20 tcp) (len - 20) 1 win_scale
   }"

definition ETH_P_IP :: u16 where "ETH_P_IP = 0x0800"
definition IPPROTO_TCP :: u8 where "IPPROTO_TCP = 6"

text \<open>
  The start of both parsers: \<open>Some None\<close> is a packet that is no TCP segment with the ACK flag,
  otherwise the IP header, its length and the memory of the TCP header.
\<close>

definition tcp_segment :: "bytes \<Rightarrow> (bytes \<times> nat \<times> bytes) option option" where
  "tcp_segment buf = do {
     proto \<leftarrow> c_read buf 12 2;
     if get_be16 proto \<noteq> ETH_P_IP then Some None
     else do {
       let ip = drop 14 buf;
       vihl \<leftarrow> c_get ip 0;
       if drop_bit 4 vihl \<noteq> 4 then Some None
       else do {
         protocol \<leftarrow> c_get ip 9;
         if protocol \<noteq> IPPROTO_TCP then Some None
         else do {
           let ip_hdr_len = unat (vihl AND 0x0f) * 4;
           let tcp = drop ip_hdr_len ip;
           flags \<leftarrow> c_get tcp 13;
           Some (if flags AND 0x10 = 0 then None else Some (ip, ip_hdr_len, tcp))
         }
       }
     }
   }"

definition tcp_check_quick_ack :: "bytes \<Rightarrow> tcp_ack_msg option option" where
  "tcp_check_quick_ack buf = do {
     seg \<leftarrow> tcp_segment buf;
     (case seg of
        None \<Rightarrow> Some None
      | Some (ip, _, tcp) \<Rightarrow> do {
          flags \<leftarrow> c_get tcp 13;
          if flags AND 0x8 = 0 then Some None
          else do {
            saddr \<leftarrow> c_read ip 12 4;
            daddr \<leftarrow> c_read ip 16 4;
            source \<leftarrow> c_read tcp 0 2;
            dest \<leftarrow> c_read tcp 2 2;
            seq \<leftarrow> c_read tcp 4 4;
            Some (Some \<lparr>am_source = get_be16 dest, am_dest = get_be16 source,
              am_saddr = get_be32 daddr, am_daddr = get_be32 saddr, am_seq = get_be32 seq, am_win = 0\<rparr>)
          }
        })
   }"

text \<open>The verdict (0, 1 or 2), the window scale and, for a verdict above 0, the message.\<close>

definition tcp_check_ack :: "bytes \<Rightarrow> u16 \<Rightarrow> (int \<times> u16 \<times> tcp_ack_msg option) option" where
  "tcp_check_ack buf win_scale = do {
     seg \<leftarrow> tcp_segment buf;
     (case seg of
        None \<Rightarrow> Some (0, win_scale, None)
      | Some (ip, ip_hdr_len, tcp) \<Rightarrow> do {
          tot_len \<leftarrow> c_read ip 2 2;
          (ret, ws) \<leftarrow> is_drop_tcp_ack tcp (uint (get_be16 tot_len) - int ip_hdr_len) win_scale;
          if ret > 0 then do {
            saddr \<leftarrow> c_read ip 12 4;
            daddr \<leftarrow> c_read ip 16 4;
            source \<leftarrow> c_read tcp 0 2;
            dest \<leftarrow> c_read tcp 2 2;
            ack_seq \<leftarrow> c_read tcp 8 4;
            window \<leftarrow> c_read tcp 14 2;
            Some (ret, ws, Some \<lparr>am_source = get_be16 source, am_dest = get_be16 dest,
              am_saddr = get_be32 saddr, am_daddr = get_be32 daddr, am_seq = get_be32 ack_seq,
              am_win = get_be16 window\<rparr>)
          }
          else Some (ret, ws, None)
        })
   }"

section \<open>The table of flows\<close>

definition same_flow :: "tcp_ack_msg \<Rightarrow> tcp_ack_msg \<Rightarrow> bool" where
  "same_flow a b \<longleftrightarrow> am_dest a = am_dest b \<and> am_source a = am_source b \<and>
     am_saddr a = am_saddr b \<and> am_daddr a = am_daddr b"

text \<open>The first index of the slots from \<open>i\<close> on that satisfy a condition; \<open>-1\<close> for none.\<close>

fun first_slot :: "(tcp_ack_info \<Rightarrow> bool) \<Rightarrow> int \<Rightarrow> tcp_ack_info list \<Rightarrow> int" where
  "first_slot P i [] = - 1"
| "first_slot P i (a # as) = (if P a then i else first_slot P (i + 1) as)"

definition tcp_ack_match :: "tcp_ack_manage \<Rightarrow> tcp_ack_msg \<Rightarrow> int" where
  "tcp_ack_match m ack_msg =
     first_slot (\<lambda>a. ai_busy a \<and> same_flow (ai_ack_msg a) ack_msg) 0 (tm_ack_info m)"

definition ack_expire :: "u32 \<Rightarrow> nat \<Rightarrow> tcp_ack_manage \<Rightarrow> tcp_ack_manage" where
  "ack_expire now i m =
     (let a = tm_ack_info m ! i in
      if ai_busy a \<and> time_after now (ai_last_time a + ai_timeout a)
      then (tm_slot i (\<lambda>a. a\<lparr>ai_busy := False\<rparr>) m)
             \<lparr>tm_free_index := int i, tm_max_num := tm_max_num m - 1\<rparr>
      else m)"

definition tcp_ack_update :: "u32 \<Rightarrow> tcp_ack_manage \<Rightarrow> tcp_ack_manage" where
  "tcp_ack_update now m =
     (if time_after now (tm_last_time m + tm_timeout m)
      then fold (ack_expire now) (rev [0..<TCP_ACK_NUM]) (m\<lparr>tm_last_time := now\<rparr>)
      else m)"

definition tcp_ack_alloc_index :: "tcp_ack_manage \<Rightarrow> int \<times> tcp_ack_manage" where
  "tcp_ack_alloc_index m =
     (if tm_max_num m = int TCP_ACK_NUM then (- 1, m)
      else if tm_free_index m \<ge> 0
      then (tm_free_index m, m\<lparr>tm_free_index := - 1, tm_max_num := tm_max_num m + 1\<rparr>)
      else
        (let i = first_slot (\<lambda>a. \<not> ai_busy a) 0 (tm_ack_info m) in
         if i < 0 then (i, m)
         else (i, m\<lparr>tm_free_index := - 1, tm_max_num := tm_max_num m + 1\<rparr>)))"

section \<open>Acknowledgements of a known flow\<close>

text \<open>
  What \<open>tcp_ack_handle_new\<close> does with an acknowledgement that is not before the newest one:
  whether it is passed on, the message to free and the slot. The timer that is set runs for 5 ms.
\<close>

definition ack_accept ::
  "(nat \<Rightarrow> u32) \<Rightarrow> u32 \<Rightarrow> int \<Rightarrow> msg_buf \<Rightarrow> tcp_ack_msg \<Rightarrow> tcp_ack_info \<Rightarrow>
   int \<times> msg_buf option \<times> tcp_ack_info" where
  "ack_accept jf now max_drop new_msgbuf ack_msg a =
     (let drop_msg = ai_msgbuf a;
          a = a\<lparr>ai_msgbuf := None\<rparr>;
          quick_ack = (ai_psh_flag a \<and> \<not> U32_BEFORE (am_seq ack_msg) (ai_psh_seq a));
          a = (if quick_ack then a\<lparr>ai_psh_flag := False\<rparr> else a\<lparr>ai_drop_cnt := ai_drop_cnt a + 1\<rparr>);
          a = a\<lparr>ai_ack_msg := (ai_ack_msg a)\<lparr>am_seq := am_seq ack_msg\<rparr>\<rparr>
      in if quick_ack \<or> (ai_in_send_msg a = None \<and> ai_drop_cnt a \<ge> max_drop)
         then (0, drop_msg, a\<lparr>ai_drop_cnt := 0, ai_in_send_msg := Some new_msgbuf, ai_timer := None\<rparr>)
         else (1, drop_msg, a\<lparr>ai_msgbuf := Some new_msgbuf,
                ai_timer := (case ai_timer a of None \<Rightarrow> Some (now + jf 5) | t \<Rightarrow> t)\<rparr>))"

definition tcp_ack_handle_new ::
  "(nat \<Rightarrow> u32) \<Rightarrow> u32 \<Rightarrow> msg_buf \<Rightarrow> nat \<Rightarrow> tcp_ack_msg \<Rightarrow> int \<Rightarrow> tcp_ack_manage \<Rightarrow>
   int \<times> tcp_ack_manage" where
  "tcp_ack_handle_new jf now new_msgbuf i ack_msg type m =
     (let m = tm_slot i (\<lambda>a. a\<lparr>ai_last_time := now\<rparr>) m;
          a = tm_ack_info m ! i;
          (ret, drop_msg, a) =
            (if U32_BEFORE (am_seq (ai_ack_msg a)) (am_seq ack_msg)
             then ack_accept jf now (tm_max_drop_cnt m) new_msgbuf ack_msg a
             else (1, Some new_msgbuf, a))
      in (ret, intf_tcp_drop_msg drop_msg (tm_slot i (\<lambda>_. a) m)))"

text \<open>
  \<open>tcp_ack_handle\<close>, which nothing calls any more, passes an acknowledgement with more
  information (type 2) on at once.
\<close>

definition tcp_ack_handle ::
  "(nat \<Rightarrow> u32) \<Rightarrow> u32 \<Rightarrow> msg_buf \<Rightarrow> nat \<Rightarrow> tcp_ack_msg \<Rightarrow> int \<Rightarrow> tcp_ack_manage \<Rightarrow>
   int \<times> tcp_ack_manage" where
  "tcp_ack_handle jf now new_msgbuf i ack_msg type m =
     (let m = tm_slot i (\<lambda>a. a\<lparr>ai_last_time := now\<rparr>) m;
          a = tm_ack_info m ! i;
          newer = U32_BEFORE (am_seq (ai_ack_msg a)) (am_seq ack_msg);
          (ret, drop_msg, a) =
            (if \<not> newer then (1, Some new_msgbuf, a)
             else if type = 2 then
               (let a = a\<lparr>ai_ack_msg := (ai_ack_msg a)\<lparr>am_seq := am_seq ack_msg\<rparr>\<rparr>;
                    a = (if ai_psh_flag a \<and> \<not> U32_BEFORE (am_seq ack_msg) (ai_psh_seq a)
                         then a\<lparr>ai_psh_flag := False\<rparr> else a);
                    drop_msg = ai_msgbuf a;
                    a = (if drop_msg \<noteq> None then a\<lparr>ai_msgbuf := None, ai_timer := None\<rparr> else a)
                in (0, drop_msg, a\<lparr>ai_in_send_msg := None, ai_drop_cnt := tm_max_drop_cnt m\<rparr>))
             else ack_accept jf now (tm_max_drop_cnt m) new_msgbuf ack_msg a)
      in (ret, intf_tcp_drop_msg drop_msg (tm_slot i (\<lambda>_. a) m)))"

section \<open>The entry points\<close>

text \<open>A received segment with the PSH flag marks the flow of its acknowledgements.\<close>

definition filter_rx_tcp_ack :: "bytes \<Rightarrow> u32 \<Rightarrow> tcp_ack_manage \<Rightarrow> tcp_ack_manage option" where
  "filter_rx_tcp_ack buf plen m =
     (if \<not> tm_enable m then Some m
      else if plen > MAX_TCP_ACK then Some m
      else do {
        r \<leftarrow> tcp_check_quick_ack buf;
        (case r of
           None \<Rightarrow> Some m
         | Some ack_msg \<Rightarrow>
             (let index = tcp_ack_match m ack_msg in
              if index \<ge> 0
              then Some (tm_slot (nat index) (\<lambda>a. a\<lparr>ai_psh_flag := True, ai_psh_seq := am_seq ack_msg\<rparr>) m)
              else Some m))
      })"

definition ack_new_flow :: "u32 \<Rightarrow> u16 \<Rightarrow> tcp_ack_msg \<Rightarrow> tcp_ack_manage \<Rightarrow> tcp_ack_manage" where
  "ack_new_flow now win_scale ack_msg m =
     (let (index, m) = tcp_ack_alloc_index m in
      if index \<ge> 0 then
        tm_slot (nat index)
          (\<lambda>a. a\<lparr>ai_busy := True, ai_psh_flag := False, ai_last_time := now,
                 ai_drop_cnt := tm_max_drop_cnt m,
                 ai_win_scale := (if win_scale \<noteq> 0 then win_scale else 1),
                 ai_ack_msg := (ai_ack_msg a)\<lparr>am_dest := am_dest ack_msg, am_source := am_source ack_msg,
                   am_saddr := am_saddr ack_msg, am_daddr := am_daddr ack_msg, am_seq := am_seq ack_msg\<rparr>\<rparr>) m
      else m)"

definition filter_send_tcp_ack ::
  "(nat \<Rightarrow> u32) \<Rightarrow> u32 \<Rightarrow> msg_buf \<Rightarrow> bytes \<Rightarrow> tcp_ack_manage \<Rightarrow> (int \<times> tcp_ack_manage) option" where
  "filter_send_tcp_ack jf now msgbuf buf m = do {
     let m = tcp_ack_update now m;
     (verdict, win_scale, msg) \<leftarrow> tcp_check_ack buf 0;
     (case msg of
        None \<Rightarrow> Some (0, m)
      | Some ack_msg \<Rightarrow>
          (let index = tcp_ack_match m ack_msg in
           if index \<ge> 0 then
             (let i = nat index;
                  m = (if win_scale \<noteq> 0 \<and> ai_win_scale (tm_ack_info m ! i) \<noteq> win_scale
                       then tm_slot i (\<lambda>a. a\<lparr>ai_win_scale := win_scale\<rparr>) m else m)
              in if verdict > 0 \<and> tm_enable m then
                   (let win = ucast (ai_win_scale (tm_ack_info m ! i)) * ucast (am_win ack_msg);
                        verdict = (if win_scale \<noteq> 0 \<and> win < tm_ack_winsize m * SIZE_KB then 2 else verdict)
                    in Some (tcp_ack_handle_new jf now msgbuf i ack_msg verdict m))
                 else Some (0, m))
           else Some (0, ack_new_flow now win_scale ack_msg m)))
   }"

definition move_slot :: "msg_buf \<Rightarrow> tcp_ack_info \<Rightarrow> tcp_ack_info" where
  "move_slot msg a =
     (if ai_busy a \<and> map_option mb_addr (ai_in_send_msg a) = Some (mb_addr msg)
      then a\<lparr>ai_in_send_msg := None\<rparr> else a)"

definition move_tcpack_msg :: "msg_buf \<Rightarrow> tcp_ack_manage \<Rightarrow> tcp_ack_manage" where
  "move_tcpack_msg msg m =
     (if \<not> tm_enable m then m else m\<lparr>tm_ack_info := map (move_slot msg) (tm_ack_info m)\<rparr>)"

text \<open>\<open>intf_tx\<close> as far as it concerns the filter: the message is sent and its buffer freed.\<close>

definition intf_tx :: "msg_buf \<Rightarrow> tcp_ack_manage \<Rightarrow> tcp_ack_manage" where
  "intf_tx msg m = (let m = move_tcpack_msg msg m in m\<lparr>tm_sent := tm_sent m @ [msg]\<rparr>)"

text \<open>
  The timer of slot \<open>i\<close> goes off. The result is the message that is then handed to
  \<open>intf_tx\<close>, outside the lock of the slot.
\<close>

definition tcp_ack_timeout_locked :: "nat \<Rightarrow> tcp_ack_manage \<Rightarrow> msg_buf option \<times> tcp_ack_manage" where
  "tcp_ack_timeout_locked i m =
     (let m = tm_slot i (\<lambda>a. a\<lparr>ai_timer := None\<rparr>) m;
          a = tm_ack_info m ! i;
          msg = ai_msgbuf a
      in if ai_busy a \<and> msg \<noteq> None \<and> ai_in_send_msg a = None
         then (msg, tm_slot i (\<lambda>a. a\<lparr>ai_msgbuf := None, ai_drop_cnt := 0, ai_in_send_msg := msg\<rparr>) m)
         else (None, m))"

definition tcp_ack_timeout :: "nat \<Rightarrow> tcp_ack_manage \<Rightarrow> tcp_ack_manage" where
  "tcp_ack_timeout i m =
     (case tcp_ack_timeout_locked i m of
        (None, m) \<Rightarrow> m
      | (Some msg, m) \<Rightarrow> intf_tx msg m)"

text \<open>
  The part of \<open>rwnx_start_xmit\<close> that asks the filter, for a frame that is longer than an
  Ethernet header. \<open>addr\<close> is what the allocation of the message returns; when it fails the code
  clears memory at address 0. The Boolean says that the frame is transmitted now.
\<close>

definition xmit_tcp_ack ::
  "(nat \<Rightarrow> u32) \<Rightarrow> u32 \<Rightarrow> nat option \<Rightarrow> bytes \<Rightarrow> tcp_ack_manage \<Rightarrow> (bool \<times> tcp_ack_manage) option" where
  "xmit_tcp_ack jf now addr skb m =
     (if (of_nat (length skb) :: u16) \<le> ucast MAX_TCP_ACK then do {
        a \<leftarrow> addr;
        let msgbuf = \<lparr>mb_addr = a, mb_skb = skb\<rparr>;
        (ret, m) \<leftarrow> filter_send_tcp_ack jf now msgbuf skb m;
        if ret \<noteq> 0 then Some (False, m)
        else Some (True, intf_tx msgbuf m)
      }
      else Some (True, m))"

end
