(* ===== verification/Aic_Tcp_Ack_Table.thy ===== *)
theory Aic_Tcp_Ack_Table
  imports Aic_Tcp_Ack
begin

text \<open>
  The table of flows of the TCP acknowledgement filter: what the operations on a slot change, and
  that the count of busy slots, the free index and the uniqueness of flows are kept.
\<close>

named_theorems ack_simps \<open>projections of the operations on the table of flows\<close>

section \<open>The table\<close>

lemma length_tm_slot [ack_simps]: "length (tm_ack_info (tm_slot i f m)) = length (tm_ack_info m)"
  by (simp add: tm_slot_def)

lemma nth_tm_slot [ack_simps]:
  "i < length (tm_ack_info m) \<Longrightarrow>
   tm_ack_info (tm_slot i f m) ! j = (if j = i then f (tm_ack_info m ! i) else tm_ack_info m ! j)"
  by (simp add: tm_slot_def)

lemma tm_slot_frame [ack_simps]:
  "tm_freed (tm_slot i f m) = tm_freed m" "tm_sent (tm_slot i f m) = tm_sent m"
  "tm_enable (tm_slot i f m) = tm_enable m" "tm_max_num (tm_slot i f m) = tm_max_num m"
  "tm_free_index (tm_slot i f m) = tm_free_index m" "tm_max_drop_cnt (tm_slot i f m) = tm_max_drop_cnt m"
  "tm_last_time (tm_slot i f m) = tm_last_time m" "tm_timeout (tm_slot i f m) = tm_timeout m"
  by (simp_all add: tm_slot_def)

lemma drop_msg_frame [ack_simps]:
  "tm_ack_info (intf_tcp_drop_msg b m) = tm_ack_info m" "tm_sent (intf_tcp_drop_msg b m) = tm_sent m"
  "tm_enable (intf_tcp_drop_msg b m) = tm_enable m" "tm_max_num (intf_tcp_drop_msg b m) = tm_max_num m"
  "tm_free_index (intf_tcp_drop_msg b m) = tm_free_index m"
  "tm_max_drop_cnt (intf_tcp_drop_msg b m) = tm_max_drop_cnt m"
  "tm_last_time (intf_tcp_drop_msg b m) = tm_last_time m" "tm_timeout (intf_tcp_drop_msg b m) = tm_timeout m"
  by (simp_all add: intf_tcp_drop_msg_def)

lemma first_slot_Some:
  "first_slot P k as = i \<Longrightarrow> 0 \<le> i \<Longrightarrow> 0 \<le> k \<Longrightarrow> \<exists>j < length as. i = k + int j \<and> P (as ! j)"
proof (induction P k as rule: first_slot.induct)
  case (2 P k a as)
  show ?case
  proof (cases "P a")
    case False
    with 2 obtain j where "j < length as" "i = k + 1 + int j" "P (as ! j)" by auto
    then show ?thesis by (intro exI [of _ "Suc j"]) simp
  qed (use 2 in auto)
qed simp

lemma first_slot_None: "0 \<le> k \<Longrightarrow> first_slot P k as < 0 \<longleftrightarrow> (\<forall>a \<in> set as. \<not> P a)"
  by (induction P k as rule: first_slot.induct) auto

lemma match_slot:
  assumes "0 \<le> tcp_ack_match m msg"
  shows "nat (tcp_ack_match m msg) < length (tm_ack_info m)"
    and "ai_busy (tm_ack_info m ! nat (tcp_ack_match m msg))"
    and "same_flow (ai_ack_msg (tm_ack_info m ! nat (tcp_ack_match m msg))) msg"
  using first_slot_Some [OF refl assms [unfolded tcp_ack_match_def]] by (auto simp: tcp_ack_match_def)

lemma same_flow_sym: "same_flow a b \<Longrightarrow> same_flow b a"
  by (simp add: same_flow_def)

lemma same_flow_trans: "same_flow a b \<Longrightarrow> same_flow b c \<Longrightarrow> same_flow a c"
  by (simp add: same_flow_def)

text \<open>What the table is: the count of busy slots is exact, the free index is free, and a flow has
  one slot.\<close>

definition table_ok :: "tcp_ack_manage \<Rightarrow> bool" where
  "table_ok m \<longleftrightarrow> length (tm_ack_info m) = TCP_ACK_NUM \<and>
     tm_max_num m = int (length (filter ai_busy (tm_ack_info m))) \<and>
     (tm_free_index m = - 1 \<or>
       (0 \<le> tm_free_index m \<and> tm_free_index m < int TCP_ACK_NUM \<and>
        \<not> ai_busy (tm_ack_info m ! nat (tm_free_index m)))) \<and>
     (\<forall>i < TCP_ACK_NUM. \<forall>j < TCP_ACK_NUM. ai_busy (tm_ack_info m ! i) \<and> ai_busy (tm_ack_info m ! j) \<and>
        same_flow (ai_ack_msg (tm_ack_info m ! i)) (ai_ack_msg (tm_ack_info m ! j)) \<longrightarrow> i = j)"

lemma length_filter_update:
  "i < length xs \<Longrightarrow> int (length (filter P (xs[i := a]))) =
     int (length (filter P xs)) + of_bool (P a) - of_bool (P (xs ! i))"
proof (induction xs arbitrary: i)
  case (Cons x xs)
  then show ?case by (cases i) auto
qed simp

lemma table_ok_keep:
  assumes "table_ok m" and "length (tm_ack_info m') = length (tm_ack_info m)"
    and "\<And>i. i < TCP_ACK_NUM \<Longrightarrow> ai_busy (tm_ack_info m' ! i) = ai_busy (tm_ack_info m ! i)"
    and "\<And>i. i < TCP_ACK_NUM \<Longrightarrow> ai_busy (tm_ack_info m ! i) \<Longrightarrow>
      am_dest (ai_ack_msg (tm_ack_info m' ! i)) = am_dest (ai_ack_msg (tm_ack_info m ! i)) \<and>
      am_source (ai_ack_msg (tm_ack_info m' ! i)) = am_source (ai_ack_msg (tm_ack_info m ! i)) \<and>
      am_saddr (ai_ack_msg (tm_ack_info m' ! i)) = am_saddr (ai_ack_msg (tm_ack_info m ! i)) \<and>
      am_daddr (ai_ack_msg (tm_ack_info m' ! i)) = am_daddr (ai_ack_msg (tm_ack_info m ! i))"
    and "tm_max_num m' = tm_max_num m" and "tm_free_index m' = tm_free_index m"
  shows "table_ok m'"
proof -
  have len: "length (tm_ack_info m) = TCP_ACK_NUM" using assms(1) by (simp add: table_ok_def)
  have "map ai_busy (tm_ack_info m') = map ai_busy (tm_ack_info m)"
    using assms(2,3) len by (intro nth_equalityI) auto
  moreover have count: "length (filter ai_busy xs) = length (filter id (map ai_busy xs))" for xs :: "tcp_ack_info list"
    by (simp add: filter_map)
  ultimately have "length (filter ai_busy (tm_ack_info m')) = length (filter ai_busy (tm_ack_info m))"
    by (simp only: count)
  with assms len show ?thesis by (simp add: table_ok_def same_flow_def) (metis nat_less_iff)
qed

lemma table_ok_slot:
  assumes "table_ok m" and "i < TCP_ACK_NUM" and "\<And>a. ai_busy (f a) = ai_busy a"
    and "\<And>a. same_flow (ai_ack_msg (f a)) (ai_ack_msg a)"
  shows "table_ok (tm_slot i f m)"
  by (rule table_ok_keep [OF assms(1)])
    (use assms in \<open>auto simp: ack_simps table_ok_def same_flow_def\<close>)

lemma table_ok_cong:
  "tm_ack_info m' = tm_ack_info m \<Longrightarrow> tm_max_num m' = tm_max_num m \<Longrightarrow> tm_free_index m' = tm_free_index m \<Longrightarrow>
   table_ok m' = table_ok m"
  by (simp add: table_ok_def)

lemma table_ok_length: "table_ok m \<Longrightarrow> length (tm_ack_info m) = TCP_ACK_NUM"
  by (simp add: table_ok_def)

lemma table_ok_expire:
  assumes "table_ok m" and i: "i < TCP_ACK_NUM"
  shows "table_ok (ack_expire now i m)"
proof -
  note len = table_ok_length [OF assms(1)]
  let ?m' = "(tm_slot i (\<lambda>a. a\<lparr>ai_busy := False\<rparr>) m)\<lparr>tm_free_index := int i, tm_max_num := tm_max_num m - 1\<rparr>"
  have "table_ok ?m'" if busy: "ai_busy (tm_ack_info m ! i)"
  proof -
    have "int (length (filter ai_busy (tm_ack_info ?m'))) = int (length (filter ai_busy (tm_ack_info m))) - 1"
      using length_filter_update [of i "tm_ack_info m" ai_busy "(tm_ack_info m ! i)\<lparr>ai_busy := False\<rparr>"] i len busy
      by (simp add: tm_slot_def)
    then show ?thesis using assms busy len by (auto simp: table_ok_def ack_simps split: if_splits)
  qed
  with assms(1) show ?thesis by (simp add: ack_expire_def Let_def)
qed

lemma table_ok_update: "table_ok m \<Longrightarrow> table_ok (tcp_ack_update now m)"
proof -
  have "table_ok (fold (ack_expire now) is m)" if "table_ok m" "\<forall>i \<in> set is. i < TCP_ACK_NUM" for "is" m
    using that by (induction "is" arbitrary: m) (auto simp: table_ok_expire)
  then show "table_ok m \<Longrightarrow> table_ok (tcp_ack_update now m)"
    by (simp add: tcp_ack_update_def table_ok_cong [of "m\<lparr>tm_last_time := now\<rparr>" m])
qed

text \<open>A slot that is allocated is free, and the count goes up before it is marked busy.\<close>

lemma alloc_index:
  assumes "table_ok m" and "tcp_ack_alloc_index m = (i, m')" and "0 \<le> i"
  shows "nat i < TCP_ACK_NUM" and "\<not> ai_busy (tm_ack_info m ! nat i)" and "tm_ack_info m' = tm_ack_info m"
    and "tm_max_num m' = tm_max_num m + 1" and "tm_free_index m' = - 1"
    and "tm_freed m' = tm_freed m" and "tm_sent m' = tm_sent m" and "tm_max_drop_cnt m' = tm_max_drop_cnt m"
    and "tm_enable m' = tm_enable m" and "tm_last_time m' = tm_last_time m" and "tm_timeout m' = tm_timeout m"
proof -
  have f: "\<exists>j < length (tm_ack_info m). i = int j \<and> \<not> ai_busy (tm_ack_info m ! j)"
    if "first_slot (\<lambda>a. \<not> ai_busy a) 0 (tm_ack_info m) = i"
    using first_slot_Some [OF that assms(3)] by auto
  show "nat i < TCP_ACK_NUM" and "\<not> ai_busy (tm_ack_info m ! nat i)" and "tm_ack_info m' = tm_ack_info m"
    and "tm_max_num m' = tm_max_num m + 1" and "tm_free_index m' = - 1"
    and "tm_freed m' = tm_freed m" and "tm_sent m' = tm_sent m" and "tm_max_drop_cnt m' = tm_max_drop_cnt m"
    and "tm_enable m' = tm_enable m" and "tm_last_time m' = tm_last_time m" and "tm_timeout m' = tm_timeout m"
    using assms f by (auto simp: tcp_ack_alloc_index_def table_ok_def Let_def split: if_splits)
qed

lemma alloc_index_none: "tcp_ack_alloc_index m = (i, m') \<Longrightarrow> i < 0 \<Longrightarrow> m' = m"
  by (auto simp: tcp_ack_alloc_index_def Let_def split: if_splits)

text \<open>What a new flow does to the table.\<close>

lemma new_flow_cases:
  assumes "table_ok m"
  obtains (Full) "ack_new_flow now ws msg m = m"
  | (Slot) i a m' where "ack_new_flow now ws msg m = m'" and "i < TCP_ACK_NUM" and "\<not> ai_busy (tm_ack_info m ! i)"
    and "tm_ack_info m' = (tm_ack_info m)[i := a]" and "ai_busy a" and "same_flow (ai_ack_msg a) msg"
    and "am_seq (ai_ack_msg a) = am_seq msg" and "ai_msgbuf a = ai_msgbuf (tm_ack_info m ! i)"
    and "ai_in_send_msg a = ai_in_send_msg (tm_ack_info m ! i)" and "\<not> ai_psh_flag a"
    and "ai_drop_cnt a = tm_max_drop_cnt m" and "ai_timer a = ai_timer (tm_ack_info m ! i)"
    and "tm_max_num m' = tm_max_num m + 1" and "tm_free_index m' = - 1" and "tm_freed m' = tm_freed m"
    and "tm_sent m' = tm_sent m" and "tm_enable m' = tm_enable m" and "tm_max_drop_cnt m' = tm_max_drop_cnt m"
proof (cases "tcp_ack_alloc_index m")
  case (Pair i m')
  show ?thesis
  proof (cases "0 \<le> i")
    case True
    note al = alloc_index [OF assms Pair True]
    show ?thesis
      by (rule that(2) [OF refl, of "nat i" "tm_ack_info (ack_new_flow now ws msg m) ! nat i"])
        (use Pair True al table_ok_length [OF assms] in
          \<open>simp_all add: ack_new_flow_def tm_slot_def same_flow_def ack_simps\<close>)
  next
    case False
    with Pair alloc_index_none [OF Pair] show ?thesis by (intro that(1)) (simp add: ack_new_flow_def)
  qed
qed

lemma table_ok_new_flow:
  assumes ok: "table_ok m" and new: "tcp_ack_match m msg < 0"
  shows "table_ok (ack_new_flow now ws msg m)"
proof (rule new_flow_cases [OF ok, of now ws msg])
  fix i a m'
  assume m': "ack_new_flow now ws msg m = m'" and i: "i < TCP_ACK_NUM" "\<not> ai_busy (tm_ack_info m ! i)"
    and info: "tm_ack_info m' = (tm_ack_info m)[i := a]" and a: "ai_busy a" "same_flow (ai_ack_msg a) msg"
    and n: "tm_max_num m' = tm_max_num m + 1" "tm_free_index m' = - 1"
  have none: "\<not> (ai_busy (tm_ack_info m ! j) \<and> same_flow (ai_ack_msg (tm_ack_info m ! j)) msg)" if "j < TCP_ACK_NUM" for j
    using new that table_ok_length [OF ok] by (auto simp: tcp_ack_match_def first_slot_None)
  have "int (length (filter ai_busy (tm_ack_info m'))) = int (length (filter ai_busy (tm_ack_info m))) + 1"
    using length_filter_update [of i "tm_ack_info m" ai_busy a] i a(1) table_ok_length [OF ok] by (simp add: info)
  moreover have "\<forall>p < TCP_ACK_NUM. \<forall>q < TCP_ACK_NUM. ai_busy (tm_ack_info m' ! p) \<and> ai_busy (tm_ack_info m' ! q) \<and>
      same_flow (ai_ack_msg (tm_ack_info m' ! p)) (ai_ack_msg (tm_ack_info m' ! q)) \<longrightarrow> p = q"
  proof (intro allI impI)
    fix p q
    assume pq: "p < TCP_ACK_NUM" "q < TCP_ACK_NUM" and both: "ai_busy (tm_ack_info m' ! p) \<and> ai_busy (tm_ack_info m' ! q) \<and>
      same_flow (ai_ack_msg (tm_ack_info m' ! p)) (ai_ack_msg (tm_ack_info m' ! q))"
    have at: "tm_ack_info m' ! j = (if j = i then a else tm_ack_info m ! j)" for j
      using i table_ok_length [OF ok] by (simp add: info)
    show "p = q"
    proof (rule ccontr)
      assume ne: "p \<noteq> q"
      consider "p = i" "q \<noteq> i" | "q = i" "p \<noteq> i" | "p \<noteq> i" "q \<noteq> i" using ne by blast
      then show False
      proof cases
        case 1
        with both have "same_flow (ai_ack_msg (tm_ack_info m ! q)) msg"
          using a(2) by (simp add: at same_flow_def)
        with 1 both none [OF pq(2)] show ?thesis by (simp add: at)
      next
        case 2
        with both have "same_flow (ai_ack_msg (tm_ack_info m ! p)) msg"
          using a(2) by (simp add: at same_flow_def)
        with 2 both none [OF pq(1)] show ?thesis by (simp add: at)
      next
        case 3
        with both pq ok ne show ?thesis by (simp add: at table_ok_def)
      qed
    qed
  qed
  ultimately have "table_ok m'" using ok n info by (simp add: table_ok_def)
  with m' show ?thesis by simp
qed (use ok in simp)

end
