(* ===== verification/Aic_Tcp_Ack_Owner.thy ===== *)
theory Aic_Tcp_Ack_Owner
  imports Aic_Tcp_Ack_Table "HOL-Library.Multiset"
begin

text \<open>
  Who owns a message of the TCP acknowledgement filter: each operation moves messages between the
  slots, the caller, the sent and the freed ones without losing or doubling any, in whatever order
  the transmit path, the receive path and the timers come.
\<close>

section \<open>Who owns a message\<close>

text \<open>Every message is freed, sent or held in a slot; \<open>owned\<close> counts all of these.\<close>

fun opt_mset :: "'a option \<Rightarrow> 'a multiset" where
  "opt_mset None = {#}"
| "opt_mset (Some b) = {#b#}"

definition held :: "tcp_ack_manage \<Rightarrow> msg_buf multiset" where
  "held m = (\<Sum>a\<leftarrow>tm_ack_info m. opt_mset (ai_msgbuf a))"

definition owned :: "tcp_ack_manage \<Rightarrow> msg_buf multiset" where
  "owned m = mset (tm_freed m) + mset (tm_sent m) + held m"

lemma sum_list_update_mset:
  "i < length xs \<Longrightarrow> (\<Sum>a\<leftarrow>xs[i := x]. (f a :: 'b multiset)) + f (xs ! i) = (\<Sum>a\<leftarrow>xs. f a) + f x"
proof (induction xs arbitrary: i)
  case (Cons y ys)
  then show ?case by (cases i) (auto simp: ac_simps)
qed simp

lemma owned_slot:
  "i < length (tm_ack_info m) \<Longrightarrow> owned (tm_slot i f m) + opt_mset (ai_msgbuf (tm_ack_info m ! i)) =
     owned m + opt_mset (ai_msgbuf (f (tm_ack_info m ! i)))"
  using sum_list_update_mset [where i = i and xs = "tm_ack_info m" and x = "f (tm_ack_info m ! i)" and f = "\<lambda>a. opt_mset (ai_msgbuf a)"]
  by (simp add: owned_def held_def tm_slot_def ac_simps)

lemma owned_slot_same:
  "i < length (tm_ack_info m) \<Longrightarrow> ai_msgbuf (f (tm_ack_info m ! i)) = ai_msgbuf (tm_ack_info m ! i) \<Longrightarrow>
   owned (tm_slot i f m) = owned m"
  using owned_slot [of i m f] by simp

lemma owned_drop_msg [simp]: "owned (intf_tcp_drop_msg b m) = owned m + opt_mset b"
  by (cases b) (simp_all add: owned_def held_def intf_tcp_drop_msg_def)

lemma owned_cong:
  "tm_ack_info m' = tm_ack_info m \<Longrightarrow> tm_freed m' = tm_freed m \<Longrightarrow> tm_sent m' = tm_sent m \<Longrightarrow> owned m' = owned m"
  by (simp add: owned_def held_def)

lemma owned_expire: "i < length (tm_ack_info m) \<Longrightarrow> owned (ack_expire now i m) = owned m"
proof -
  assume i: "i < length (tm_ack_info m)"
  have "owned (tm_slot i (\<lambda>a. a\<lparr>ai_busy := False\<rparr>) m) = owned m" by (rule owned_slot_same) (use i in simp_all)
  then show ?thesis by (simp add: ack_expire_def Let_def owned_def held_def)
qed

lemma owned_update: "table_ok m \<Longrightarrow> owned (tcp_ack_update now m) = owned m"
proof -
  have "owned (fold (ack_expire now) is m) = owned m" if "table_ok m" "\<forall>i \<in> set is. i < TCP_ACK_NUM" for "is" m
    using that by (induction "is" arbitrary: m) (auto simp: table_ok_expire owned_expire table_ok_length)
  then show "table_ok m \<Longrightarrow> owned (tcp_ack_update now m) = owned m"
    by (simp add: tcp_ack_update_def owned_cong [of "m\<lparr>tm_last_time := now\<rparr>" m]
        table_ok_cong [of "m\<lparr>tm_last_time := now\<rparr>" m])
qed

lemma owned_new_flow:
  assumes ok: "table_ok m"
  shows "owned (ack_new_flow now ws msg m) = owned m"
proof (rule new_flow_cases [OF ok, of now ws msg])
  fix i a m'
  assume "ack_new_flow now ws msg m = m'" "i < TCP_ACK_NUM" "tm_ack_info m' = (tm_ack_info m)[i := a]"
    "ai_msgbuf a = ai_msgbuf (tm_ack_info m ! i)" "tm_freed m' = tm_freed m" "tm_sent m' = tm_sent m"
  with owned_slot_same [of i m "\<lambda>_. a"] table_ok_length [OF ok] show ?thesis
    by (simp add: tm_slot_def owned_def held_def)
qed simp

text \<open>Accepting an acknowledgement moves the held message out and the new one in, or hands it back.\<close>

lemma ack_accept_cases:
  obtains (Pass) a' where "ack_accept jf now d b msg a = (0, ai_msgbuf a, a')" and "ai_msgbuf a' = None"
      and "ai_in_send_msg a' = Some b" and "ai_timer a' = None" and "ai_drop_cnt a' = 0"
      and "ai_busy a' = ai_busy a" and "same_flow (ai_ack_msg a') (ai_ack_msg a)" and "am_seq (ai_ack_msg a') = am_seq msg"
      and "(ai_psh_flag a \<and> \<not> U32_BEFORE (am_seq msg) (ai_psh_seq a)) \<or>
        (ai_in_send_msg a = None \<and> ai_drop_cnt a + 1 \<ge> d)"
  | (Hold) a' where "ack_accept jf now d b msg a = (1, ai_msgbuf a, a')" and "ai_msgbuf a' = Some b"
      and "ai_in_send_msg a' = ai_in_send_msg a" and "ai_timer a' \<noteq> None" and "ai_drop_cnt a' = ai_drop_cnt a + 1"
      and "ai_busy a' = ai_busy a" and "same_flow (ai_ack_msg a') (ai_ack_msg a)" and "am_seq (ai_ack_msg a') = am_seq msg"
      and "\<not> (ai_psh_flag a \<and> \<not> U32_BEFORE (am_seq msg) (ai_psh_seq a))" and "ai_psh_flag a' = ai_psh_flag a"
      and "\<not> (ai_in_send_msg a = None \<and> ai_drop_cnt a + 1 \<ge> d)" and "ai_psh_seq a' = ai_psh_seq a"
      and "ai_last_time a' = ai_last_time a" and "ai_timeout a' = ai_timeout a"
proof (cases "ai_psh_flag a \<and> \<not> U32_BEFORE (am_seq msg) (ai_psh_seq a)")
  case True
  then show ?thesis by (intro that(1) [where a' = "snd (snd (ack_accept jf now d b msg a))"]) (auto simp: ack_accept_def Let_def same_flow_def)
next
  case False
  show ?thesis
  proof (cases "ai_in_send_msg a = None \<and> ai_drop_cnt a + 1 \<ge> d")
    case True
    with False show ?thesis by (intro that(1) [where a' = "snd (snd (ack_accept jf now d b msg a))"]) (auto simp: ack_accept_def Let_def same_flow_def)
  next
    case nopass: False
    with False show ?thesis
      by (intro that(2) [where a' = "snd (snd (ack_accept jf now d b msg a))"]) (auto simp: ack_accept_def Let_def same_flow_def split: option.split)
  qed
qed

text \<open>The operations one by one: the table stays well formed, and no message is lost or made.\<close>

definition keeps :: "msg_buf multiset \<Rightarrow> tcp_ack_manage \<Rightarrow> tcp_ack_manage \<Rightarrow> bool" where
  "keeps out m m' \<longleftrightarrow> table_ok m' \<and> owned m' + out = owned m \<and> tm_enable m' = tm_enable m"

lemma keeps_slot:
  assumes "table_ok m" and "i < TCP_ACK_NUM" and "\<And>a. ai_busy (f a) = ai_busy a"
    and "\<And>a. same_flow (ai_ack_msg (f a)) (ai_ack_msg a)" and "\<And>a. ai_msgbuf (f a) = ai_msgbuf a"
  shows "keeps {#} m (tm_slot i f m)"
  using assms table_ok_slot [OF assms(1-4)]
  by (simp add: keeps_def owned_slot_same table_ok_length ack_simps)

lemma handle_new_keeps:
  assumes ok: "table_ok m" and i: "i < TCP_ACK_NUM"
    and r: "tcp_ack_handle_new jf now b i msg ty m = (ret, m')"
  shows "table_ok m'" and "owned m' + (if ret = 0 then {#b#} else {#}) = owned m + {#b#}"
    and "tm_enable m' = tm_enable m" and "tm_sent m' = tm_sent m"
proof -
  let ?m1 = "tm_slot i (\<lambda>a. a\<lparr>ai_last_time := now\<rparr>) m"
  have m1: "keeps {#} m ?m1" by (rule keeps_slot [OF ok i]) (simp_all add: same_flow_def)
  then have ok1: "table_ok ?m1" and ow1: "owned ?m1 = owned m" by (simp_all add: keeps_def)
  have len: "i < length (tm_ack_info ?m1)" using i table_ok_length [OF ok1] by simp
  define a where "a = tm_ack_info ?m1 ! i"
  have slot: "table_ok (tm_slot i (\<lambda>_. a') ?m1)" if "ai_busy a' = ai_busy a" "same_flow (ai_ack_msg a') (ai_ack_msg a)" for a'
    by (rule table_ok_keep [OF ok1]) (use that len in \<open>auto simp: ack_simps a_def same_flow_def split: if_splits\<close>)
  have own: "owned (tm_slot i (\<lambda>_. a') ?m1) + opt_mset (ai_msgbuf a) = owned m + opt_mset (ai_msgbuf a')" for a'
    using owned_slot [OF len, of "\<lambda>_. a'"] ow1 by (simp add: a_def)
  show "table_ok m'" and "owned m' + (if ret = 0 then {#b#} else {#}) = owned m + {#b#}"
    and "tm_enable m' = tm_enable m" and "tm_sent m' = tm_sent m"
  proof -
    have "table_ok m' \<and> owned m' + (if ret = 0 then {#b#} else {#}) = owned m + {#b#} \<and>
      tm_enable m' = tm_enable m \<and> tm_sent m' = tm_sent m"
    proof (cases "U32_BEFORE (am_seq (ai_ack_msg a)) (am_seq msg)")
      case False
      then have "m' = intf_tcp_drop_msg (Some b) (tm_slot i (\<lambda>_. a) ?m1)" "ret = 1"
        using r by (simp_all add: tcp_ack_handle_new_def Let_def a_def)
      moreover have "table_ok (tm_slot i (\<lambda>_. a) ?m1)" by (rule slot) (simp_all add: same_flow_def)
      ultimately show ?thesis
        using own [of a] table_ok_cong [of "intf_tcp_drop_msg (Some b) (tm_slot i (\<lambda>_. a) ?m1)" "tm_slot i (\<lambda>_. a) ?m1"]
        by (simp add: ack_simps)
    next
      case True
      have step: "ack_accept jf now (tm_max_drop_cnt m) b msg a = (x, d, a') \<Longrightarrow>
          ret = x \<and> m' = intf_tcp_drop_msg d (tm_slot i (\<lambda>_. a') ?m1)" for x d a'
        using r True by (simp add: tcp_ack_handle_new_def Let_def a_def ack_simps)
      have fin: "table_ok (intf_tcp_drop_msg d (tm_slot i (\<lambda>_. a') ?m1))"
        if "ai_busy a' = ai_busy a" "same_flow (ai_ack_msg a') (ai_ack_msg a)" for d a'
        using slot [OF that] table_ok_cong [of "intf_tcp_drop_msg d (tm_slot i (\<lambda>_. a') ?m1)" "tm_slot i (\<lambda>_. a') ?m1"]
        by (simp add: ack_simps)
      show ?thesis
      proof (rule ack_accept_cases [of jf now "tm_max_drop_cnt m" b msg a])
        fix a' assume "ack_accept jf now (tm_max_drop_cnt m) b msg a = (0, ai_msgbuf a, a')" "ai_msgbuf a' = None"
          "ai_busy a' = ai_busy a" "same_flow (ai_ack_msg a') (ai_ack_msg a)"
        with step fin own [of a'] show ?thesis by (auto simp: ack_simps)
      next
        fix a' assume "ack_accept jf now (tm_max_drop_cnt m) b msg a = (1, ai_msgbuf a, a')" "ai_msgbuf a' = Some b"
          "ai_busy a' = ai_busy a" "same_flow (ai_ack_msg a') (ai_ack_msg a)"
        with step fin own [of a'] show ?thesis by (auto simp: ack_simps)
      qed
    qed
    then show "table_ok m'" and "owned m' + (if ret = 0 then {#b#} else {#}) = owned m + {#b#}"
      and "tm_enable m' = tm_enable m" and "tm_sent m' = tm_sent m" by simp_all
  qed
qed

lemma update_frame [ack_simps]:
  "tm_sent (tcp_ack_update now m) = tm_sent m" "tm_enable (tcp_ack_update now m) = tm_enable m"
  "tm_max_drop_cnt (tcp_ack_update now m) = tm_max_drop_cnt m" "tm_freed (tcp_ack_update now m) = tm_freed m"
proof -
  have "tm_freed (fold (ack_expire now) is m) = tm_freed m \<and> tm_sent (fold (ack_expire now) is m) = tm_sent m \<and> tm_enable (fold (ack_expire now) is m) = tm_enable m \<and>
      tm_max_drop_cnt (fold (ack_expire now) is m) = tm_max_drop_cnt m" for "is" m
    by (induction "is" arbitrary: m) (auto simp: ack_expire_def Let_def ack_simps)
  then show "tm_sent (tcp_ack_update now m) = tm_sent m" "tm_enable (tcp_ack_update now m) = tm_enable m"
    "tm_max_drop_cnt (tcp_ack_update now m) = tm_max_drop_cnt m" "tm_freed (tcp_ack_update now m) = tm_freed m"
    by (simp_all add: tcp_ack_update_def)
qed

text \<open>The ways a packet can take through \<open>filter_send_tcp_ack\<close>.\<close>

definition slots_eq :: "tcp_ack_manage \<Rightarrow> tcp_ack_manage \<Rightarrow> bool" where
  "slots_eq m m' \<longleftrightarrow> length (tm_ack_info m') = length (tm_ack_info m) \<and>
     tm_max_drop_cnt m' = tm_max_drop_cnt m \<and> tm_enable m' = tm_enable m \<and> tm_sent m' = tm_sent m \<and>
     tm_freed m' = tm_freed m \<and> tm_last_time m' = tm_last_time m \<and> tm_timeout m' = tm_timeout m \<and> (\<forall>j < length (tm_ack_info m).
       \<exists>ws. tm_ack_info m' ! j = (tm_ack_info m ! j)\<lparr>ai_win_scale := ws\<rparr>)"

lemma slots_eq_refl: "slots_eq m m"
proof -
  have "a = a\<lparr>ai_win_scale := ai_win_scale a\<rparr>" for a :: tcp_ack_info by simp
  then show ?thesis unfolding slots_eq_def by blast
qed

lemma slots_eq_slot:
  assumes "i < length (tm_ack_info m)"
  shows "slots_eq m (tm_slot i (\<lambda>a. a\<lparr>ai_win_scale := w\<rparr>) m)"
proof -
  have "\<exists>v. tm_ack_info (tm_slot i (\<lambda>a. a\<lparr>ai_win_scale := w\<rparr>) m) ! j = (tm_ack_info m ! j)\<lparr>ai_win_scale := v\<rparr>" for j
    by (rule exI [of _ "if j = i then w else ai_win_scale (tm_ack_info m ! j)"]) (simp add: nth_tm_slot [OF assms])
  then show ?thesis by (simp add: slots_eq_def ack_simps)
qed

lemma filter_send_cases:
  assumes ok: "table_ok m" and r: "filter_send_tcp_ack jf now b buf m = Some (ret, m')"
  obtains (Other) "ret = 0" and "m' = tcp_ack_update now m"
      and "\<exists>verdict ws. tcp_check_ack buf 0 = Some (verdict, ws, None)"
  | (Known) i msg ty m1 where "i < TCP_ACK_NUM" and "keeps {#} (tcp_ack_update now m) m1"
      and "tm_sent m1 = tm_sent m" and "tcp_ack_handle_new jf now b i msg ty m1 = (ret, m')"
      and "tm_enable m1" and "slots_eq (tcp_ack_update now m) m1" and "ai_busy (tm_ack_info m1 ! i)"
      and "same_flow (ai_ack_msg (tm_ack_info m1 ! i)) msg"
      and "\<exists>verdict ws. tcp_check_ack buf 0 = Some (verdict, ws, Some msg)"
  | (Disabled) i msg where "ret = 0" and
      "\<exists>verdict ws. tcp_check_ack buf 0 = Some (verdict, ws, Some msg) \<and> \<not> (verdict > 0 \<and> tm_enable m)" and "i < TCP_ACK_NUM" and "keeps {#} (tcp_ack_update now m) m'"
      and "tm_sent m' = tm_sent m" and "tm_freed m' = tm_freed m" and "slots_eq (tcp_ack_update now m) m'"
  | (New) ws msg where "\<exists>verdict. tcp_check_ack buf 0 = Some (verdict, ws, Some msg)" and "ret = 0" and "m' = ack_new_flow now ws msg (tcp_ack_update now m)"
      and "tcp_ack_match (tcp_ack_update now m) msg < 0"
proof -
  let ?m = "tcp_ack_update now m"
  have ok': "table_ok ?m" using ok by (rule table_ok_update)
  obtain verdict ws mo where p: "tcp_check_ack buf 0 = Some (verdict, ws, mo)"
    using r by (cases "tcp_check_ack buf 0") (auto simp: filter_send_tcp_ack_def Let_def)
  show ?thesis
  proof (cases mo)
    case None
    with r p that(1) show ?thesis by (auto simp: filter_send_tcp_ack_def Let_def)
  next
    case (Some msg)
    show ?thesis
    proof (cases "0 \<le> tcp_ack_match ?m msg")
      case False
      with r p Some have "ret = 0" "m' = ack_new_flow now ws msg ?m"
        by (simp_all add: filter_send_tcp_ack_def Let_def)
      with False that(4) p Some show ?thesis by simp
    next
      case True
      define i where "i = nat (tcp_ack_match ?m msg)"
      have i: "i < TCP_ACK_NUM" using match_slot(1) [OF True] table_ok_length [OF ok'] by (simp add: i_def)
      define m1 where "m1 = (if ws \<noteq> 0 \<and> ai_win_scale (tm_ack_info ?m ! i) \<noteq> ws
        then tm_slot i (\<lambda>a. a\<lparr>ai_win_scale := ws\<rparr>) ?m else ?m)"
      have "keeps {#} ?m (tm_slot i (\<lambda>a. a\<lparr>ai_win_scale := ws\<rparr>) ?m)"
        by (rule keeps_slot [OF ok' i]) (simp_all add: same_flow_def)
      then have k: "keeps {#} ?m m1" "tm_sent m1 = tm_sent m" "tm_freed m1 = tm_freed m"
        using ok' by (auto simp: m1_def keeps_def ack_simps)
      have a: "ai_busy (tm_ack_info ?m ! i)" "same_flow (ai_ack_msg (tm_ack_info ?m ! i)) msg"
        using match_slot(2,3) [OF True] by (simp_all add: i_def)
      have se: "slots_eq ?m m1"
        using slots_eq_slot [of i ?m ws] slots_eq_refl i table_ok_length [OF ok'] by (simp add: m1_def)
      have a1: "ai_busy (tm_ack_info m1 ! i)" "same_flow (ai_ack_msg (tm_ack_info m1 ! i)) msg"
        using a i table_ok_length [OF ok'] by (simp_all add: m1_def ack_simps)
      obtain ty where eq: "filter_send_tcp_ack jf now b buf m =
          (if verdict > 0 \<and> tm_enable m1 then Some (tcp_ack_handle_new jf now b i msg ty m1) else Some (0, m1))"
        using True unfolding filter_send_tcp_ack_def Let_def p Some bind.bind_lunit prod.case option.case
        by (simp only: if_True i_def [symmetric] m1_def [symmetric])
      show ?thesis
      proof (cases "verdict > 0 \<and> tm_enable m1")
        case True
        with r eq have "tcp_ack_handle_new jf now b i msg ty m1 = (ret, m')" by simp
        with that(2) i k True se a1 p Some show ?thesis by blast
      next
        case False
        with r eq have "ret = 0" "m' = m1" by auto
        moreover have "tm_enable m1 = tm_enable m" using k(1) by (simp add: keeps_def update_frame)
        ultimately show ?thesis using that(3) i k se p Some False by blast
      qed
    qed
  qed
qed

lemma filter_send_keeps:
  assumes ok: "table_ok m" and r: "filter_send_tcp_ack jf now b buf m = Some (ret, m')"
  shows "table_ok m'" and "owned m' + (if ret = 0 then {#b#} else {#}) = owned m + {#b#}"
    and "tm_enable m' = tm_enable m" and "tm_sent m' = tm_sent m"
proof -
  have ok': "table_ok (tcp_ack_update now m)" using ok by (rule table_ok_update)
  note up = ok' owned_update [OF ok, of now]
  have "table_ok m' \<and> owned m' + (if ret = 0 then {#b#} else {#}) = owned m + {#b#} \<and>
    tm_enable m' = tm_enable m \<and> tm_sent m' = tm_sent m"
  proof (rule filter_send_cases [OF ok r])
    fix i msg ty m1
    assume i: "i < TCP_ACK_NUM" and k: "keeps {#} (tcp_ack_update now m) m1" "tm_sent m1 = tm_sent m"
      and h: "tcp_ack_handle_new jf now b i msg ty m1 = (ret, m')"
    then have "table_ok m1" by (simp add: keeps_def)
    from handle_new_keeps [OF this i h] k up show ?thesis by (simp add: keeps_def ack_simps)
  next
    fix ws msg
    assume "ret = 0" and m': "m' = ack_new_flow now ws msg (tcp_ack_update now m)"
      and new: "tcp_ack_match (tcp_ack_update now m) msg < 0"
    moreover have "tm_enable m' = tm_enable m \<and> tm_sent m' = tm_sent m" unfolding m'
      by (rule new_flow_cases [OF ok', of now ws msg]) (auto simp: ack_simps)
    ultimately show ?thesis using table_ok_new_flow [OF ok' new] owned_new_flow [OF ok'] up by simp
  qed (use up in \<open>auto simp: ack_simps keeps_def\<close>)
  then show "table_ok m'" and "owned m' + (if ret = 0 then {#b#} else {#}) = owned m + {#b#}"
    and "tm_enable m' = tm_enable m" and "tm_sent m' = tm_sent m" by simp_all
qed

lemma filter_send_disabled:
  assumes ok: "table_ok m" and r: "filter_send_tcp_ack jf now b buf m = Some (ret, m')" and off: "\<not> tm_enable m"
  shows "held m' = held m" and "ret = 0"
proof -
  have ok': "table_ok (tcp_ack_update now m)" using ok by (rule table_ok_update)
  have "ret = 0 \<and> tm_freed m' = tm_freed m"
  proof (rule filter_send_cases [OF ok r])
    fix ws msg
    assume "ret = 0" and m': "m' = ack_new_flow now ws msg (tcp_ack_update now m)"
    moreover have "tm_freed m' = tm_freed m" unfolding m'
      by (rule new_flow_cases [OF ok', of now ws msg]) (auto simp: ack_simps)
    ultimately show ?thesis by simp
  qed (use off in \<open>auto simp: ack_simps keeps_def\<close>)
  with filter_send_keeps [OF ok r] show "held m' = held m" and "ret = 0" by (simp_all add: owned_def)
qed

lemma timeout_locked_keeps:
  assumes ok: "table_ok m" and i: "i < TCP_ACK_NUM" and r: "tcp_ack_timeout_locked i m = (msg, m')"
  shows "keeps (opt_mset msg) m m'" and "tm_sent m' = tm_sent m" and "tm_freed m' = tm_freed m"
proof -
  let ?m1 = "tm_slot i (\<lambda>a. a\<lparr>ai_timer := None\<rparr>) m"
  have k1: "keeps {#} m ?m1" by (rule keeps_slot [OF ok i]) (simp_all add: same_flow_def)
  then have ok1: "table_ok ?m1" by (simp add: keeps_def)
  have len: "i < length (tm_ack_info ?m1)" using i table_ok_length [OF ok1] by simp
  let ?f = "\<lambda>b a. a\<lparr>ai_msgbuf := None, ai_drop_cnt := 0, ai_in_send_msg := b\<rparr>"
  have "table_ok (tm_slot i (?f b) ?m1)" for b
    by (rule table_ok_slot [OF ok1 i]) (simp_all add: same_flow_def)
  then have go: "keeps (opt_mset (ai_msgbuf (tm_ack_info ?m1 ! i))) m (tm_slot i (?f b) ?m1)" for b
    using owned_slot [OF len, of "?f b"] k1 by (simp add: keeps_def ack_simps)
  have m': "(msg, m') = (if ai_busy (tm_ack_info ?m1 ! i) \<and> ai_msgbuf (tm_ack_info ?m1 ! i) \<noteq> None \<and>
        ai_in_send_msg (tm_ack_info ?m1 ! i) = None
      then (ai_msgbuf (tm_ack_info ?m1 ! i), tm_slot i (?f (ai_msgbuf (tm_ack_info ?m1 ! i))) ?m1)
      else (None, ?m1))"
    using r by (simp only: tcp_ack_timeout_locked_def Let_def)
  show "keeps (opt_mset msg) m m'" and "tm_sent m' = tm_sent m" and "tm_freed m' = tm_freed m"
    using m' go k1 by (simp_all only: prod.inject split: if_splits) (simp_all add: ack_simps)
qed

lemma move_slot_frame [simp]:
  "ai_msgbuf (move_slot b a) = ai_msgbuf a" "ai_busy (move_slot b a) = ai_busy a"
  "ai_ack_msg (move_slot b a) = ai_ack_msg a" "ai_timer (move_slot b a) = ai_timer a"
  "ai_drop_cnt (move_slot b a) = ai_drop_cnt a" "ai_psh_flag (move_slot b a) = ai_psh_flag a"
  by (simp_all add: move_slot_def)

lemma intf_tx_keeps:
  assumes "table_ok m"
  shows "table_ok (intf_tx b m)" and "owned (intf_tx b m) = owned m + {#b#}"
    and "tm_enable (intf_tx b m) = tm_enable m" and "tm_sent (intf_tx b m) = tm_sent m @ [b]"
    and "tm_freed (intf_tx b m) = tm_freed m"
proof -
  show "table_ok (intf_tx b m)"
    by (rule table_ok_keep [OF assms])
      (use table_ok_length [OF assms] in \<open>simp_all add: intf_tx_def move_tcpack_msg_def Let_def\<close>)
  show "owned (intf_tx b m) = owned m + {#b#}"
    by (simp add: owned_def held_def intf_tx_def move_tcpack_msg_def Let_def comp_def)
qed (simp_all add: intf_tx_def move_tcpack_msg_def Let_def)

definition psh_mark :: "tcp_ack_msg \<Rightarrow> tcp_ack_info \<Rightarrow> tcp_ack_info" where
  "psh_mark msg a = a\<lparr>ai_psh_flag := True, ai_psh_seq := am_seq msg\<rparr>"

lemma filter_rx_slot:
  assumes r: "filter_rx_tcp_ack buf plen m = Some m'"
  shows "m' = m \<or> (\<exists>msg. 0 \<le> tcp_ack_match m msg \<and> m' = tm_slot (nat (tcp_ack_match m msg)) (psh_mark msg) m)"
proof (cases "tm_enable m \<and> \<not> plen > MAX_TCP_ACK")
  case True
  with r obtain q where q: "tcp_check_quick_ack buf = Some q"
    by (cases "tcp_check_quick_ack buf") (simp_all add: filter_rx_tcp_ack_def)
  show ?thesis
  proof (cases q)
    case None
    with r q True show ?thesis by (simp add: filter_rx_tcp_ack_def)
  next
    case (Some msg)
    have "psh_mark msg = (\<lambda>a. a\<lparr>ai_psh_flag := True, ai_psh_seq := am_seq msg\<rparr>)"
      by (simp add: psh_mark_def fun_eq_iff)
    with Some r q True show ?thesis
      by (cases "0 \<le> tcp_ack_match m msg") (auto simp: filter_rx_tcp_ack_def Let_def)
  qed
next
  case False
  with r show ?thesis by (cases "tm_enable m") (simp_all add: filter_rx_tcp_ack_def)
qed

lemma filter_rx_keeps:
  assumes ok: "table_ok m" and r: "filter_rx_tcp_ack buf plen m = Some m'"
  shows "keeps {#} m m'" and "tm_sent m' = tm_sent m" and "tm_freed m' = tm_freed m"
proof -
  consider "m' = m" | msg where "0 \<le> tcp_ack_match m msg"
    "m' = tm_slot (nat (tcp_ack_match m msg)) (psh_mark msg) m" using filter_rx_slot [OF r] by blast
  then have "keeps {#} m m' \<and> tm_sent m' = tm_sent m \<and> tm_freed m' = tm_freed m"
  proof cases
    case 1
    with ok show ?thesis by (simp add: keeps_def)
  next
    case (2 msg)
    have "nat (tcp_ack_match m msg) < TCP_ACK_NUM"
      using match_slot(1) [OF 2(1)] table_ok_length [OF ok] by simp
    from keeps_slot [OF ok this, of "psh_mark msg"] 2(2) show ?thesis
      by (simp add: same_flow_def ack_simps psh_mark_def)
  qed
  then show "keeps {#} m m'" and "tm_sent m' = tm_sent m" and "tm_freed m' = tm_freed m" by simp_all
qed

lemma deinit_slots:
  "table_ok m \<Longrightarrow> \<forall>i \<in> set is. i < TCP_ACK_NUM \<Longrightarrow>
   table_ok (fold tcp_ack_deinit_slot is m) \<and> owned (fold tcp_ack_deinit_slot is m) = owned m \<and>
   tm_enable (fold tcp_ack_deinit_slot is m) = tm_enable m \<and> tm_sent (fold tcp_ack_deinit_slot is m) = tm_sent m \<and>
   (\<forall>j < TCP_ACK_NUM. ai_msgbuf (tm_ack_info (fold tcp_ack_deinit_slot is m) ! j) =
      (if j \<in> set is then None else ai_msgbuf (tm_ack_info m ! j)))"
proof (induction "is" arbitrary: m)
  case (Cons i js)
  let ?f = "\<lambda>a. a\<lparr>ai_timer := None, ai_msgbuf := None\<rparr>"
  let ?m = "tcp_ack_deinit_slot i m"
  have i: "i < TCP_ACK_NUM" and len: "i < length (tm_ack_info m)"
    using Cons.prems table_ok_length by auto
  have "table_ok (tm_slot i ?f m)" by (rule table_ok_slot [OF Cons.prems(1) i]) (simp_all add: same_flow_def)
  then have ok: "table_ok ?m"
    using table_ok_cong [of ?m "tm_slot i ?f m"] by (simp add: tcp_ack_deinit_slot_def Let_def ack_simps)
  moreover have "owned ?m = owned m"
    using owned_slot [OF len, of ?f] by (simp add: tcp_ack_deinit_slot_def Let_def)
  moreover have "tm_enable ?m = tm_enable m" "tm_sent ?m = tm_sent m"
    "\<forall>j < TCP_ACK_NUM. ai_msgbuf (tm_ack_info ?m ! j) = (if j = i then None else ai_msgbuf (tm_ack_info m ! j))"
    using len by (simp_all add: tcp_ack_deinit_slot_def Let_def ack_simps)
  ultimately show ?case using Cons.IH [OF ok] Cons.prems(2) by auto
qed simp

lemma deinit_keeps:
  assumes "table_ok m"
  shows "table_ok (tcp_ack_deinit m)" and "owned (tcp_ack_deinit m) = owned m"
    and "\<not> tm_enable (tcp_ack_deinit m)" and "held (tcp_ack_deinit m) = {#}"
proof -
  let ?m = "m\<lparr>tm_enable := False\<rparr>"
  have ok: "table_ok ?m" using assms by (simp add: table_ok_cong [of ?m m])
  note d = deinit_slots [OF ok, of "[0..<TCP_ACK_NUM]"]
  show "table_ok (tcp_ack_deinit m)" and "owned (tcp_ack_deinit m) = owned m" and "\<not> tm_enable (tcp_ack_deinit m)"
    using d owned_cong [of ?m m] by (simp_all add: tcp_ack_deinit_def)
  have "length (tm_ack_info (tcp_ack_deinit m)) = TCP_ACK_NUM" "\<forall>j < TCP_ACK_NUM. ai_msgbuf (tm_ack_info (tcp_ack_deinit m) ! j) = None"
    using d by (auto simp: tcp_ack_deinit_def table_ok_def)
  then have "\<forall>a \<in> set (tm_ack_info (tcp_ack_deinit m)). ai_msgbuf a = None" by (metis in_set_conv_nth)
  moreover have "(\<Sum>a\<leftarrow>as. opt_mset (ai_msgbuf a)) = {#}" if "\<forall>a \<in> set as. ai_msgbuf a = None" for as
    using that by (induction as) simp_all
  ultimately show "held (tcp_ack_deinit m) = {#}" by (simp add: held_def)
qed

section \<open>Any interleaving\<close>

text \<open>
  The driver between two critical sections: the filter, all messages it was ever given, and those
  in flight, which were handed back to be sent and not yet reported as sent. The operations come in
  any order and from any context; the timer of a slot goes off when it is running.
\<close>

record ack_driver =
  ad_tm :: tcp_ack_manage
  ad_given :: "msg_buf multiset"
  ad_fly :: "msg_buf multiset"

inductive ack_step :: "(nat \<Rightarrow> u32) \<Rightarrow> ack_driver \<Rightarrow> ack_driver \<Rightarrow> bool" for jf where
  send: "filter_send_tcp_ack jf now b (mb_skb b) (ad_tm d) = Some (ret, m') \<Longrightarrow>
     ack_step jf d (d\<lparr>ad_tm := m', ad_given := ad_given d + {#b#},
       ad_fly := ad_fly d + (if ret = 0 then {#b#} else {#})\<rparr>)"
| rx: "filter_rx_tcp_ack buf plen (ad_tm d) = Some m' \<Longrightarrow> ack_step jf d (d\<lparr>ad_tm := m'\<rparr>)"
| timer: "i < TCP_ACK_NUM \<Longrightarrow> ai_timer (tm_ack_info (ad_tm d) ! i) \<noteq> None \<Longrightarrow>
     tcp_ack_timeout_locked i (ad_tm d) = (msg, m') \<Longrightarrow>
     ack_step jf d (d\<lparr>ad_tm := m', ad_fly := ad_fly d + opt_mset msg\<rparr>)"
| tx: "b \<in># ad_fly d \<Longrightarrow> ack_step jf d (d\<lparr>ad_tm := intf_tx b (ad_tm d), ad_fly := ad_fly d - {#b#}\<rparr>)"
| stop: "ack_step jf d (d\<lparr>ad_tm := tcp_ack_deinit (ad_tm d)\<rparr>)"

inductive ack_reachable :: "(nat \<Rightarrow> u32) \<Rightarrow> ack_driver \<Rightarrow> bool" for jf where
  start: "ack_reachable jf \<lparr>ad_tm = tcp_ack_init jf now, ad_given = {#}, ad_fly = {#}\<rparr>"
| step: "ack_reachable jf d \<Longrightarrow> ack_step jf d d' \<Longrightarrow> ack_reachable jf d'"

lemma table_ok_init: "table_ok (tcp_ack_init jf now)"
  by (simp add: table_ok_def tcp_ack_init_def ack_info_zero_def TCP_ACK_NUM_def)

lemma owned_init: "owned (tcp_ack_init jf now) = {#}"
proof -
  have "(\<Sum>a\<leftarrow>replicate n x. opt_mset (ai_msgbuf a)) = {#}" if "ai_msgbuf x = None" for n x
    using that by (induction n) simp_all
  from this [of ack_info_zero TCP_ACK_NUM] show ?thesis
    by (simp add: owned_def held_def tcp_ack_init_def ack_info_zero_def)
qed

definition ack_balanced :: "ack_driver \<Rightarrow> bool" where
  "ack_balanced d \<longleftrightarrow> table_ok (ad_tm d) \<and> ad_given d = owned (ad_tm d) + ad_fly d \<and>
     (tm_enable (ad_tm d) \<or> held (ad_tm d) = {#})"

lemma ack_step_balanced: "ack_step jf d d' \<Longrightarrow> ack_balanced d \<Longrightarrow> ack_balanced d'"
proof (induction rule: ack_step.induct)
  case (send now b d ret m')
  then have ok: "table_ok (ad_tm d)" by (simp add: ack_balanced_def)
  note k = filter_send_keeps [OF ok send.hyps]
  have "held m' = {#}" if off: "\<not> tm_enable (ad_tm d)"
    using filter_send_disabled [OF ok send.hyps off] send.prems off by (simp add: ack_balanced_def)
  with k send.prems show ?case by (auto simp: ack_balanced_def)
next
  case (rx buf plen d m')
  then have ok: "table_ok (ad_tm d)" by (simp add: ack_balanced_def)
  note k = filter_rx_keeps [OF ok rx.hyps]
  then have "held m' = held (ad_tm d)" by (simp add: keeps_def owned_def)
  with k rx.prems show ?case by (simp add: ack_balanced_def keeps_def)
next
  case (timer i d msg m')
  then have ok: "table_ok (ad_tm d)" by (simp add: ack_balanced_def)
  note k = timeout_locked_keeps [OF ok timer.hyps(1,3)]
  then have "held m' + opt_mset msg = held (ad_tm d)" by (simp add: keeps_def owned_def ac_simps)
  with k timer.prems show ?case by (auto simp: ack_balanced_def keeps_def ac_simps)
next
  case (tx b d)
  then have ok: "table_ok (ad_tm d)" by (simp add: ack_balanced_def)
  have "held (intf_tx b (ad_tm d)) = held (ad_tm d)" using intf_tx_keeps [OF ok, of b] by (simp add: owned_def)
  with tx intf_tx_keeps [OF ok, of b] show ?case by (auto simp: ack_balanced_def)
next
  case (stop d)
  then show ?case using deinit_keeps by (simp add: ack_balanced_def)
qed

lemma ack_reachable_balanced: "ack_reachable jf d \<Longrightarrow> ack_balanced d"
proof (induction rule: ack_reachable.induct)
  case (start now)
  then show ?case by (simp add: ack_balanced_def table_ok_init owned_init) (simp add: tcp_ack_init_def)
next
  case (step d d')
  then show ?case using ack_step_balanced by blast
qed

end
