(* ===== verification/Aic_Tcp_Ack_Correct.thy ===== *)
theory Aic_Tcp_Ack_Correct
  imports Aic_Tcp_Ack_Owner
begin

text \<open>
  The properties of the TCP acknowledgement filter: no message is lost or doubled under any
  interleaving; the newest acknowledgement of a flow is sent or waits behind a running timer; which
  acknowledgements are passed on; and what the parser of TCP options does.
\<close>

section \<open>The newest acknowledgement\<close>

text \<open>A message that carries the newest acknowledgement number of the flow of a slot.\<close>

definition announces :: "msg_buf \<Rightarrow> tcp_ack_info \<Rightarrow> bool" where
  "announces b a \<longleftrightarrow> (\<exists>verdict ws msg. tcp_check_ack (mb_skb b) 0 = Some (verdict, ws, Some msg) \<and>
     same_flow (ai_ack_msg a) msg \<and> am_seq (ai_ack_msg a) = am_seq msg)"

definition covered :: "msg_buf list \<Rightarrow> tcp_ack_info \<Rightarrow> bool" where
  "covered sent a \<longleftrightarrow> (\<exists>b \<in> set sent. announces b a) \<or>
     (\<exists>b. ai_msgbuf a = Some b \<and> ai_timer a \<noteq> None \<and> announces b a)"

text \<open>
  The calls of the driver when each runs to its end before the next: \<open>rwnx_start_xmit\<close> on a
  frame, the receive path, and the timer of a slot.
\<close>

inductive ack_sequential :: "(nat \<Rightarrow> u32) \<Rightarrow> tcp_ack_manage \<Rightarrow> bool" for jf where
  start: "ack_sequential jf (tcp_ack_init jf now)"
| xmit: "ack_sequential jf m \<Longrightarrow> xmit_tcp_ack jf now (Some a) skb m = Some (sent, m') \<Longrightarrow> ack_sequential jf m'"
| rx: "ack_sequential jf m \<Longrightarrow> filter_rx_tcp_ack buf plen m = Some m' \<Longrightarrow> ack_sequential jf m'"
| timer: "ack_sequential jf m \<Longrightarrow> i < TCP_ACK_NUM \<Longrightarrow> ai_timer (tm_ack_info m ! i) \<noteq> None \<Longrightarrow>
     ack_sequential jf (tcp_ack_timeout i m)"

definition settled :: "tcp_ack_manage \<Rightarrow> bool" where
  "settled m \<longleftrightarrow> table_ok m \<and> tm_enable m \<and>
     (\<forall>i < TCP_ACK_NUM. ai_in_send_msg (tm_ack_info m ! i) = None \<and>
        (ai_busy (tm_ack_info m ! i) \<longrightarrow> covered (tm_sent m) (tm_ack_info m ! i)))"

lemma covered_append: "covered sent a \<Longrightarrow> covered (sent @ bs) a"
  by (auto simp: covered_def)

lemma covered_cong:
  "ai_msgbuf a' = ai_msgbuf a \<Longrightarrow> ai_timer a' = ai_timer a \<Longrightarrow> ai_ack_msg a' = ai_ack_msg a \<Longrightarrow>
   covered sent a' = covered sent a"
  by (simp add: covered_def announces_def)

lemma settled_expire: "settled m \<Longrightarrow> i < TCP_ACK_NUM \<Longrightarrow> settled (ack_expire now i m)"
  using table_ok_expire [of m i now] table_ok_length [of m]
  by (auto simp: settled_def ack_expire_def Let_def ack_simps)

lemma settled_update: "settled m \<Longrightarrow> settled (tcp_ack_update now m)"
proof -
  have "settled (fold (ack_expire now) is m)" if "settled m" "\<forall>i \<in> set is. i < TCP_ACK_NUM" for "is" m
    using that by (induction "is" arbitrary: m) (auto simp: settled_expire)
  moreover have "settled (m\<lparr>tm_last_time := now\<rparr>) = settled m"
    using table_ok_cong [of "m\<lparr>tm_last_time := now\<rparr>" m] by (simp add: settled_def)
  ultimately show "settled m \<Longrightarrow> settled (tcp_ack_update now m)" by (simp add: tcp_ack_update_def)
qed

lemma settled_slots_eq:
  assumes "settled m" and "slots_eq m m'" and "table_ok m'"
  shows "settled m'"
proof -
  have "ai_in_send_msg (tm_ack_info m' ! i) = None \<and>
      (ai_busy (tm_ack_info m' ! i) \<longrightarrow> covered (tm_sent m') (tm_ack_info m' ! i))" if i: "i < TCP_ACK_NUM" for i
  proof -
    obtain ws where "tm_ack_info m' ! i = (tm_ack_info m ! i)\<lparr>ai_win_scale := ws\<rparr>" and "tm_sent m' = tm_sent m"
      using assms i table_ok_length [of m] by (auto simp: slots_eq_def settled_def)
    with assms(1) i covered_cong [of "tm_ack_info m' ! i" "tm_ack_info m ! i"] show ?thesis by (simp add: settled_def)
  qed
  with assms show ?thesis by (simp add: settled_def slots_eq_def)
qed

text \<open>Handing a message to the kernel settles a state in which only that message is in flight.\<close>

definition settled_but :: "msg_buf \<Rightarrow> tcp_ack_manage \<Rightarrow> bool" where
  "settled_but b m \<longleftrightarrow> table_ok m \<and> tm_enable m \<and>
     (\<forall>i < TCP_ACK_NUM.
        (ai_in_send_msg (tm_ack_info m ! i) = None \<or>
          (ai_busy (tm_ack_info m ! i) \<and> ai_in_send_msg (tm_ack_info m ! i) = Some b)) \<and>
        (ai_busy (tm_ack_info m ! i) \<longrightarrow> covered (tm_sent m @ [b]) (tm_ack_info m ! i)))"

lemma settled_is_but: "settled m \<Longrightarrow> settled_but b m"
  by (simp add: settled_def settled_but_def covered_append)

lemma settled_intf_tx:
  assumes "settled_but b m"
  shows "settled (intf_tx b m)"
proof -
  have on: "tm_enable m" and ok: "table_ok m" using assms by (simp_all add: settled_but_def)
  have info: "tm_ack_info (intf_tx b m) ! i = move_slot b (tm_ack_info m ! i)" if "i < TCP_ACK_NUM" for i
    using that on table_ok_length [OF ok] by (simp add: intf_tx_def move_tcpack_msg_def Let_def)
  have "covered s (move_slot b a) = covered s a" for s a by (rule covered_cong) simp_all
  with assms info intf_tx_keeps [OF ok, of b] on show ?thesis
    by (auto simp: settled_def settled_but_def move_slot_def)
qed

lemma covered_sent: "announces b a \<Longrightarrow> covered (sent @ [b]) a"
  by (auto simp: covered_def)

lemma handle_new_settled:
  assumes s: "settled m" and i: "i < TCP_ACK_NUM" and h: "tcp_ack_handle_new jf now b i msg ty m = (ret, m')"
    and p: "tcp_check_ack (mb_skb b) 0 = Some (v, ws, Some msg)"
    and busy: "ai_busy (tm_ack_info m ! i)" and flow: "same_flow (ai_ack_msg (tm_ack_info m ! i)) msg"
  shows "if ret = 0 then settled_but b m' else settled m'"
proof -
  have ok: "table_ok m" and on: "tm_enable m" using s by (simp_all add: settled_def)
  note k = handle_new_keeps [OF ok i h]
  let ?m1 = "tm_slot i (\<lambda>a. a\<lparr>ai_last_time := now\<rparr>) m"
  define a where "a = tm_ack_info ?m1 ! i"
  have len: "i < length (tm_ack_info m)" using i table_ok_length [OF ok] by simp
  have a: "ai_busy a" "same_flow (ai_ack_msg a) msg" "ai_in_send_msg a = None" "covered (tm_sent m) a"
    using s i busy flow len covered_cong [of a "tm_ack_info m ! i"] by (simp_all add: a_def settled_def ack_simps)
  have others: "ai_in_send_msg (tm_ack_info m ! j) = None \<and> (ai_busy (tm_ack_info m ! j) \<longrightarrow> covered (tm_sent m) (tm_ack_info m ! j))"
    if "j < TCP_ACK_NUM" for j using s that by (simp add: settled_def)
  show ?thesis
  proof (cases "U32_BEFORE (am_seq (ai_ack_msg a)) (am_seq msg)")
    case False
    then have ret: "ret = 1" and m': "m' = intf_tcp_drop_msg (Some b) (tm_slot i (\<lambda>_. a) ?m1)"
      using h by (simp_all add: tcp_ack_handle_new_def Let_def a_def)
    have "settled m'" unfolding settled_def
    proof (intro conjI allI impI)
      fix j assume j: "j < TCP_ACK_NUM"
      have at: "tm_ack_info m' ! j = (if j = i then a else tm_ack_info m ! j)" using len by (simp add: m' ack_simps)
      show "ai_in_send_msg (tm_ack_info m' ! j) = None" using a others [OF j] by (simp add: at)
      show "covered (tm_sent m') (tm_ack_info m' ! j)" if "ai_busy (tm_ack_info m' ! j)"
        using a others [OF j] that k(4) by (auto simp: at split: if_splits)
    qed (use k on in simp_all)
    with ret show ?thesis by simp
  next
    case True
    have step: "ack_accept jf now (tm_max_drop_cnt m) b msg a = (x, d, a') \<Longrightarrow>
        ret = x \<and> m' = intf_tcp_drop_msg d (tm_slot i (\<lambda>_. a') ?m1)" for x d a'
      using h True by (simp add: tcp_ack_handle_new_def Let_def a_def ack_simps)
    have at: "tm_ack_info (intf_tcp_drop_msg d (tm_slot i (\<lambda>_. a') ?m1)) ! j = (if j = i then a' else tm_ack_info m ! j)" for d a' j
      using len by (simp add: ack_simps)
    have ann: "announces b a'" if "same_flow (ai_ack_msg a') (ai_ack_msg a)" "am_seq (ai_ack_msg a') = am_seq msg" for a'
      using that p a(2) same_flow_trans by (auto simp: announces_def)
    show ?thesis
    proof (rule ack_accept_cases [of jf now "tm_max_drop_cnt m" b msg a])
      fix a' assume c: "ack_accept jf now (tm_max_drop_cnt m) b msg a = (0, ai_msgbuf a, a')" "ai_in_send_msg a' = Some b"
        "ai_busy a' = ai_busy a" "same_flow (ai_ack_msg a') (ai_ack_msg a)" "am_seq (ai_ack_msg a') = am_seq msg"
      from step [OF c(1)] have r: "ret = 0" and m': "m' = intf_tcp_drop_msg (ai_msgbuf a) (tm_slot i (\<lambda>_. a') ?m1)" by simp_all
      have "settled_but b m'" unfolding settled_but_def
        using k on others a c covered_sent [OF ann [OF c(4,5)]] covered_append at [of "ai_msgbuf a" a']
        by (simp add: m')
      with r show ?thesis by simp
    next
      fix a' assume c: "ack_accept jf now (tm_max_drop_cnt m) b msg a = (1, ai_msgbuf a, a')" "ai_msgbuf a' = Some b"
        "ai_in_send_msg a' = ai_in_send_msg a" "ai_timer a' \<noteq> None"
        "same_flow (ai_ack_msg a') (ai_ack_msg a)" "am_seq (ai_ack_msg a') = am_seq msg"
      from step [OF c(1)] have r: "ret = 1" and m': "m' = intf_tcp_drop_msg (ai_msgbuf a) (tm_slot i (\<lambda>_. a') ?m1)" by simp_all
      have "covered (tm_sent m) a'" using c(2,4) ann [OF c(5,6)] by (auto simp: covered_def)
      then have "settled m'" unfolding settled_def
        using k on others a c at [of "ai_msgbuf a" a'] by (simp add: m')
      with r show ?thesis by simp
    qed
  qed
qed

lemma settled_new_flow:
  assumes s: "settled m" and new: "tcp_ack_match m msg < 0"
    and p: "tcp_check_ack (mb_skb b) 0 = Some (v, ws, Some msg)"
  shows "settled_but b (ack_new_flow now ws' msg m)"
proof -
  have ok: "table_ok m" using s by (simp add: settled_def)
  note ok' = table_ok_new_flow [OF ok new, of now ws']
  show ?thesis
  proof (rule new_flow_cases [OF ok, of now ws' msg])
    assume "ack_new_flow now ws' msg m = m"
    with settled_is_but [OF s] show ?thesis by simp
  next
    fix i a m'
    assume m': "ack_new_flow now ws' msg m = m'" and i: "i < TCP_ACK_NUM"
      and info: "tm_ack_info m' = (tm_ack_info m)[i := a]" and a: "ai_busy a" "same_flow (ai_ack_msg a) msg"
        "am_seq (ai_ack_msg a) = am_seq msg" "ai_in_send_msg a = ai_in_send_msg (tm_ack_info m ! i)"
      and fr: "tm_sent m' = tm_sent m" "tm_enable m' = tm_enable m"
    have "announces b a" using a(2,3) p by (auto simp: announces_def)
    then have "covered (tm_sent m @ [b]) a" by (rule covered_sent)
    with s i a ok' fr show ?thesis
      by (simp add: m' settled_but_def settled_def info table_ok_length nth_list_update covered_append)
  qed
qed

lemma xmit_settled:
  assumes s: "settled m" and r: "xmit_tcp_ack jf now (Some addr) skb m = Some (sent, m')"
  shows "settled m'"
proof (cases "(of_nat (length skb) :: u16) \<le> ucast MAX_TCP_ACK")
  case True
  define b where "b = \<lparr>mb_addr = addr, mb_skb = skb\<rparr>"
  have ok: "table_ok m" and on: "tm_enable m" using s by (simp_all add: settled_def)
  have up: "settled (tcp_ack_update now m)" using s by (rule settled_update)
  obtain ret m1 where f: "filter_send_tcp_ack jf now b (mb_skb b) m = Some (ret, m1)"
    and m': "m' = (if ret \<noteq> 0 then m1 else intf_tx b m1)"
    using r True by (cases "filter_send_tcp_ack jf now b (mb_skb b) m")
      (auto simp: xmit_tcp_ack_def b_def Let_def split: if_splits)
  have "if ret = 0 then settled_but b m1 else settled m1"
  proof (rule filter_send_cases [OF ok f])
    fix i msg ty m2
    assume i: "i < TCP_ACK_NUM" and k: "keeps {#} (tcp_ack_update now m) m2"
      and h: "tcp_ack_handle_new jf now b i msg ty m2 = (ret, m1)" and se: "slots_eq (tcp_ack_update now m) m2"
      and a: "ai_busy (tm_ack_info m2 ! i)" "same_flow (ai_ack_msg (tm_ack_info m2 ! i)) msg"
      and p: "\<exists>verdict ws. tcp_check_ack (mb_skb b) 0 = Some (verdict, ws, Some msg)"
    from k have "table_ok m2" by (simp add: keeps_def)
    from settled_slots_eq [OF up se this] have "settled m2" .
    from handle_new_settled [OF this i h _ a] p show ?thesis by blast
  next
    fix i msg
    assume "ret = 0" "keeps {#} (tcp_ack_update now m) m1" "slots_eq (tcp_ack_update now m) m1"
    with settled_slots_eq [OF up] settled_is_but show ?thesis by (simp add: keeps_def)
  next
    fix ws msg
    assume "\<exists>verdict. tcp_check_ack (mb_skb b) 0 = Some (verdict, ws, Some msg)" "ret = 0"
      "m1 = ack_new_flow now ws msg (tcp_ack_update now m)" "tcp_ack_match (tcp_ack_update now m) msg < 0"
    with settled_new_flow [OF up] show ?thesis by auto
  qed (use up settled_is_but in simp)
  with m' settled_intf_tx show ?thesis by (auto split: if_splits)
qed (use r s in \<open>simp add: xmit_tcp_ack_def\<close>)

lemma rx_settled:
  assumes s: "settled m" and r: "filter_rx_tcp_ack buf plen m = Some m'"
  shows "settled m'"
proof -
  have ok: "table_ok m" using s by (simp add: settled_def)
  note k = filter_rx_keeps [OF ok r]
  consider "m' = m" | msg where "0 \<le> tcp_ack_match m msg"
    "m' = tm_slot (nat (tcp_ack_match m msg)) (psh_mark msg) m" using filter_rx_slot [OF r] by blast
  then show ?thesis
  proof cases
    case 2
    have "covered (tm_sent m) (psh_mark msg a) = covered (tm_sent m) a" for a
      by (rule covered_cong) (simp_all add: psh_mark_def)
    with 2 s k match_slot(1) [OF 2(1)] show ?thesis
      by (auto simp: settled_def keeps_def ack_simps) (simp_all add: psh_mark_def)
  qed (use s in simp)
qed

lemma timer_settled:
  assumes s: "settled m" and i: "i < TCP_ACK_NUM"
  shows "settled (tcp_ack_timeout i m)"
    and "ai_busy (tm_ack_info m ! i) \<Longrightarrow> ai_msgbuf (tm_ack_info m ! i) = Some b \<Longrightarrow>
      tm_sent (tcp_ack_timeout i m) = tm_sent m @ [b]"
proof -
  have ok: "table_ok m" and on: "tm_enable m" using s by (simp_all add: settled_def)
  have len: "i < length (tm_ack_info m)" using i table_ok_length [OF ok] by simp
  define a where "a = tm_ack_info m ! i"
  have a: "ai_in_send_msg a = None" "ai_busy a \<Longrightarrow> covered (tm_sent m) a" using s i by (simp_all add: settled_def a_def)
  obtain msg m1 where t: "tcp_ack_timeout_locked i m = (msg, m1)" by fastforce
  note k = timeout_locked_keeps [OF ok i t]
  have both: "settled (tcp_ack_timeout i m) \<and> (ai_busy a \<and> ai_msgbuf a = Some b \<longrightarrow> tm_sent (tcp_ack_timeout i m) = tm_sent m @ [b])"
  proof (cases "ai_busy a \<and> ai_msgbuf a \<noteq> None")
    case True
    then obtain c where c: "ai_msgbuf a = Some c" by auto
    have info: "msg = Some c" "tm_ack_info m1 ! j = (if j = i then a\<lparr>ai_timer := None, ai_msgbuf := None,
        ai_drop_cnt := 0, ai_in_send_msg := Some c\<rparr> else tm_ack_info m ! j)" for j
      using t True c a(1) len by (auto simp: tcp_ack_timeout_locked_def Let_def ack_simps a_def)
    have "covered (tm_sent m @ [c]) (a\<lparr>ai_timer := None, ai_msgbuf := None, ai_drop_cnt := 0, ai_in_send_msg := Some c\<rparr>)"
      using a(2) True c by (auto simp: covered_def announces_def)
    then have "settled_but c m1"
      using s k info(2) True by (simp add: settled_but_def settled_def keeps_def covered_append)
    from settled_intf_tx [OF this] show ?thesis
      using t info(1) c k intf_tx_keeps(4) [of m1 c] by (auto simp: tcp_ack_timeout_def keeps_def)
  next
    case False
    have info: "msg = None" "tm_ack_info m1 ! j = (if j = i then a\<lparr>ai_timer := None\<rparr> else tm_ack_info m ! j)" for j
      using t False len by (auto simp: tcp_ack_timeout_locked_def Let_def ack_simps a_def)
    have "covered (tm_sent m) (a\<lparr>ai_timer := None\<rparr>)" if "ai_busy a"
      using a(2) that False by (auto simp: covered_def announces_def)
    with s k a info(2) False have "settled m1" by (simp add: settled_def keeps_def)
    with t info(1) False show ?thesis by (auto simp: tcp_ack_timeout_def)
  qed
  then show "settled (tcp_ack_timeout i m)" by simp
  show "ai_busy (tm_ack_info m ! i) \<Longrightarrow> ai_msgbuf (tm_ack_info m ! i) = Some b \<Longrightarrow>
      tm_sent (tcp_ack_timeout i m) = tm_sent m @ [b]" using both by (simp add: a_def)
qed

lemma settled_init: "settled (tcp_ack_init jf now)"
  by (simp add: settled_def table_ok_init) (simp add: tcp_ack_init_def ack_info_zero_def)

lemma ack_sequential_settled: "ack_sequential jf m \<Longrightarrow> settled m"
  by (induction rule: ack_sequential.induct) (auto intro: settled_init xmit_settled rx_settled timer_settled)

section \<open>How many are passed on\<close>







text \<open>One slot, ready to thin: nothing in flight, no PSH, and the table not due for clearing.\<close>

definition thinning :: "nat \<Rightarrow> tcp_ack_msg \<Rightarrow> int \<Rightarrow> tcp_ack_manage \<Rightarrow> bool" where
  "thinning i newest c m \<longleftrightarrow> settled m \<and> i < TCP_ACK_NUM \<and> ai_busy (tm_ack_info m ! i) \<and>
     same_flow (ai_ack_msg (tm_ack_info m ! i)) newest \<and> am_seq (ai_ack_msg (tm_ack_info m ! i)) = am_seq newest \<and>
     \<not> ai_psh_flag (tm_ack_info m ! i) \<and> ai_drop_cnt (tm_ack_info m ! i) = c"


lemma intf_tx_frame [simp]:
  "tm_max_drop_cnt (intf_tx b m) = tm_max_drop_cnt m" "tm_last_time (intf_tx b m) = tm_last_time m"
  "tm_timeout (intf_tx b m) = tm_timeout m"
  by (simp_all add: intf_tx_def move_tcpack_msg_def Let_def)



lemma fresh_thinning:
  assumes len: "length (mb_skb b) \<le> 200" and p: "tcp_check_ack (mb_skb b) 0 = Some (v, ws, Some msg)"
    and quiet: "\<not> time_after now (t0 + jf ACK_OLD_TIME)"
  obtains m' where "xmit_tcp_ack jf now (Some (mb_addr b)) (mb_skb b) (tcp_ack_init jf t0) = Some (True, m')"
    and "thinning 0 msg 10 m'" and "tm_sent m' = [b]" and "tm_max_drop_cnt m' = 10"
    and "tm_last_time m' = t0" and "tm_timeout m' = jf ACK_OLD_TIME"
proof -
  let ?m = "tcp_ack_init jf t0"
  have up: "tcp_ack_update now ?m = ?m" using quiet by (simp add: tcp_ack_update_def) (simp add: tcp_ack_init_def)
  have none: "tcp_ack_match ?m msg < 0"
    by (simp add: tcp_ack_match_def first_slot_None) (simp add: tcp_ack_init_def ack_info_zero_def)
  have short: "(of_nat (length (mb_skb b)) :: u16) \<le> ucast MAX_TCP_ACK"
    using len by (simp add: MAX_TCP_ACK_def word_le_nat_alt unsigned_of_nat take_bit_nat_eq_self)
  let ?m1 = "ack_new_flow now ws msg ?m"
  have f: "filter_send_tcp_ack jf now b (mb_skb b) ?m = Some (0, ?m1)"
    using none by (simp add: filter_send_tcp_ack_def up p Let_def)
  have x: "xmit_tcp_ack jf now (Some (mb_addr b)) (mb_skb b) ?m = Some (True, intf_tx b ?m1)"
    using f short by (cases b) (simp add: xmit_tcp_ack_def Let_def)
  have alloc: "tcp_ack_alloc_index ?m = (0, ?m\<lparr>tm_free_index := - 1, tm_max_num := 1\<rparr>)"
    by (simp add: tcp_ack_alloc_index_def tcp_ack_init_def TCP_ACK_NUM_def)
  have m1: "tm_ack_info ?m1 ! 0 = (tm_ack_info ?m ! 0)\<lparr>ai_busy := True, ai_psh_flag := False, ai_last_time := now,
      ai_drop_cnt := 10, ai_win_scale := (if ws \<noteq> 0 then ws else 1),
      ai_ack_msg := (ai_ack_msg (tm_ack_info ?m ! 0))\<lparr>am_dest := am_dest msg, am_source := am_source msg,
        am_saddr := am_saddr msg, am_daddr := am_daddr msg, am_seq := am_seq msg\<rparr>\<rparr>"
    "tm_sent ?m1 = []" "tm_max_drop_cnt ?m1 = 10" "tm_last_time ?m1 = t0" "tm_timeout ?m1 = jf ACK_OLD_TIME"
    "tm_enable ?m1" "length (tm_ack_info ?m1) = TCP_ACK_NUM"
    using alloc by (simp_all add: ack_new_flow_def tm_slot_def tcp_ack_init_def TCP_ACK_NUM_def TCP_ACK_DROP_CNT_def)
  have "tm_ack_info (intf_tx b ?m1) ! 0 = move_slot b (tm_ack_info ?m1 ! 0)"
    using m1(6,7) by (simp add: intf_tx_def move_tcpack_msg_def Let_def TCP_ACK_NUM_def)
  moreover have "settled (intf_tx b ?m1)" by (rule xmit_settled [OF settled_init x])
  ultimately have "thinning 0 msg 10 (intf_tx b ?m1)"
    unfolding thinning_def using m1(1) by (simp add: same_flow_def TCP_ACK_NUM_def)
  moreover have "tm_sent (intf_tx b ?m1) = [b]"
    using intf_tx_keeps(4) [OF table_ok_new_flow [OF table_ok_init none, of now ws], of b] m1(2) by simp
  ultimately show ?thesis by (intro that [OF x]) (simp_all add: m1)
qed

section \<open>TCP options\<close>

datatype tcp_opt = Nop | Opt u8 bytes

fun opt_bytes :: "tcp_opt \<Rightarrow> bytes" where
  "opt_bytes Nop = [TCPOPT_NOP]"
| "opt_bytes (Opt kind data) = kind # of_nat (length data + 2) # data"

text \<open>An option as the RFC has it, other than the end of the list.\<close>

fun opt_wf :: "tcp_opt \<Rightarrow> bool" where
  "opt_wf Nop \<longleftrightarrow> True"
| "opt_wf (Opt kind data) \<longleftrightarrow> kind \<noteq> TCPOPT_EOL \<and> kind \<noteq> TCPOPT_NOP \<and> length data \<le> 38 \<and>
     (kind = TCPOPT_WINDOW \<longrightarrow> data \<noteq> [])"

fun opt_informs :: "tcp_opt \<Rightarrow> bool" where
  "opt_informs Nop \<longleftrightarrow> False"
| "opt_informs (Opt kind data) \<longleftrightarrow> kind \<noteq> TCPOPT_TIMESTAMP \<and> kind \<noteq> TCPOPT_WINDOW"

fun opt_scale :: "tcp_opt \<Rightarrow> u16 \<Rightarrow> u16" where
  "opt_scale (Opt kind (shift # _)) ws =
     (if kind = TCPOPT_WINDOW \<and> shift < 15 then push_bit (unat shift) 1 else ws)"
| "opt_scale _ ws = ws"

definition opts_bytes :: "tcp_opt list \<Rightarrow> bytes" where
  "opts_bytes os = concat (map opt_bytes os)"

lemma ack_options_done [simp]: "len \<le> 0 \<Longrightarrow> ack_options ptr len v ws = Some (v, ws)"
  by (subst ack_options.simps) simp

lemma ack_options_encode:
  assumes "\<forall>opt \<in> set os. opt_wf opt" and "v > 0" and "int (length (opts_bytes os)) \<le> len"
  shows "ack_options (opts_bytes os @ rest) len v ws =
    ack_options rest (len - int (length (opts_bytes os))) (if \<exists>opt \<in> set os. opt_informs opt then 2 else v) (fold opt_scale os ws)"
  using assms
proof (induction os arbitrary: v ws len)
  case (Cons opt os)
  show ?case
  proof (cases opt)
    case Nop
    with Cons.prems have "ack_options (opts_bytes (opt # os) @ rest) len v ws = ack_options (opts_bytes os @ rest) (len - 1) v ws"
      by (subst ack_options.simps) (simp add: opts_bytes_def TCPOPT_NOP_def TCPOPT_EOL_def)
    with Cons.IH [of v "len - 1" ws] Cons.prems Nop show ?thesis by (simp add: opts_bytes_def algebra_simps)
  next
    case (Opt kind data)
    let ?len = "len - int (length data + 2)"
    have wf: "kind \<noteq> TCPOPT_EOL" "kind \<noteq> TCPOPT_NOP" "length data \<le> 38" "kind = TCPOPT_WINDOW \<Longrightarrow> data \<noteq> []"
      using Cons.prems(1) by (auto simp: Opt)
    have sz: "unat (of_nat (length data + 2) :: u8) = length data + 2"
      using wf(3) by (simp only: unsigned_of_nat) (simp add: take_bit_nat_eq_self)
    then have sz': "uint (of_nat (length data + 2) :: u8) = int (length data + 2)" "\<not> (of_nat (length data + 2) :: u8) < 2"
      by (metis of_nat_unat, simp add: word_less_nat_alt)
    have len: "0 < len" "int (length data + 2) \<le> len" using Cons.prems(3) by (simp_all add: opts_bytes_def Opt)
    have "ack_options (opts_bytes (opt # os) @ rest) len v ws =
        ack_options (opts_bytes os @ rest) ?len (if opt_informs opt then 2 else v) (opt_scale opt ws)"
      using wf sz sz' len Cons.prems(2) unfolding Opt opts_bytes_def
      by (subst ack_options.simps) (cases data, auto simp: Let_def TCPOPT_TIMESTAMP_def TCPOPT_WINDOW_def)
    with Cons.IH [of "if opt_informs opt then 2 else v" ?len "opt_scale opt ws"] Cons.prems Opt
    show ?thesis by (simp add: opts_bytes_def algebra_simps)
  qed
qed (simp add: opts_bytes_def)

lemma ack_options_zeros: "len > 0 \<Longrightarrow> v \<noteq> 0 \<Longrightarrow> ack_options (replicate n 0) len v ws = None"
proof (induction n)
  case (Suc n)
  then show ?case by (subst ack_options.simps) (simp add: TCPOPT_EOL_def)
qed (subst ack_options.simps, simp)

section \<open>The properties\<close>

text \<open>An acknowledgement over IPv4 with the number \<open>n\<close> and the given options.\<close>

definition ack_frame :: "u32 \<Rightarrow> bytes \<Rightarrow> bytes" where
  "ack_frame n opts =
     replicate 12 0 @ [0x08, 0x00] @
     [0x45, 0] @ be16 (of_nat (40 + length opts)) @ [0, 0, 0, 0, 64, 6, 0, 0, 10, 0, 0, 1, 10, 0, 0, 2] @
     [0x1F, 0x90, 0, 80, 0, 0, 0, 1] @ be32 n @ [push_bit 4 (of_nat (5 + length opts div 4)), 0x10, 0xFF, 0xFF, 0, 0, 0, 0] @
     opts"

text \<open>A selective acknowledgement of one range.\<close>

definition sack_opts :: bytes where
  "sack_opts = [1, 1, 5, 10, 0, 0, 9, 0, 0, 0, 10, 0]"

definition sack_msg :: tcp_ack_msg where
  "sack_msg = \<lparr>am_source = 0x1F90, am_dest = 80, am_saddr = 0x0A000001, am_daddr = 0x0A000002, am_seq = 1000, am_win = 0xFFFF\<rparr>"

definition sack_buf :: msg_buf where
  "sack_buf = \<lparr>mb_addr = 4096, mb_skb = ack_frame 1000 sack_opts\<rparr>"

lemma sack_check: "tcp_check_ack (mb_skb sack_buf) 0 = Some (2, 0, Some sack_msg)"
  by code_simp



text \<open>C28: The newest acknowledgement is not lost. When the calls of the driver do not interleave, then
  in every reachable state and for every flow in the table, a message with the newest acknowledgement
  number accepted on the flow has been sent, or it is held while the timer of its slot is running,
  and the timer sends it when it goes off.\<close>

theorem newest_ack_reaches:
  assumes "ack_sequential jf m" and "i < TCP_ACK_NUM" and "ai_busy (tm_ack_info m ! i)"
  shows "(\<exists>b \<in> set (tm_sent m). announces b (tm_ack_info m ! i)) \<or>
    (\<exists>b. announces b (tm_ack_info m ! i) \<and> ai_timer (tm_ack_info m ! i) \<noteq> None \<and>
       tm_sent (tcp_ack_timeout i m) = tm_sent m @ [b])"
proof -
  have s: "settled m" using assms(1) by (rule ack_sequential_settled)
  with assms(2,3) have "covered (tm_sent m) (tm_ack_info m ! i)" by (simp add: settled_def)
  with timer_settled(2) [OF s assms(2,3)] show ?thesis by (auto simp: covered_def)
qed

theorem newest_ack_reaches_witness:
  "\<exists>m. ack_sequential (\<lambda>_. 1) m \<and>
    ((\<exists>b \<in> set (tm_sent m). announces b (tm_ack_info m ! 0)) \<or>
     (\<exists>b. announces b (tm_ack_info m ! 0) \<and> ai_timer (tm_ack_info m ! 0) \<noteq> None \<and>
        tm_sent (tcp_ack_timeout 0 m) = tm_sent m @ [b]))"
proof -
  have len: "length (mb_skb sack_buf) \<le> 200" by (simp add: sack_buf_def ack_frame_def sack_opts_def)
  obtain m where m: "xmit_tcp_ack (\<lambda>_. 1) 0 (Some (mb_addr sack_buf)) (mb_skb sack_buf) (tcp_ack_init (\<lambda>_. 1) 0) = Some (True, m)"
    and t: "thinning 0 sack_msg 10 m"
    by (rule fresh_thinning [OF len sack_check, of 0 0 "\<lambda>_. 1"]) (simp add: time_after_def)
  have "ack_sequential (\<lambda>_. 1) m" by (rule ack_sequential.xmit [OF ack_sequential.start m])
  with newest_ack_reaches [OF this, of 0] t show ?thesis by (auto simp: thinning_def)
qed



text \<open>The older handler, which nothing calls, passes each of them on at once.\<close>

lemma handle_informative_passes:
  assumes "i < length (tm_ack_info m)" and "U32_BEFORE (am_seq (ai_ack_msg (tm_ack_info m ! i))) (am_seq msg)"
  shows "fst (tcp_ack_handle jf now b i msg 2 m) = 0"
  using assms by (simp add: tcp_ack_handle_def Let_def ack_simps)

text \<open>The parser of TCP options. When the header is filled by options other than the end of the list,
  its verdict is 2 exactly when one of them is neither a timestamp nor a window scale, and the scale
  is that of the last valid window option. When the options are followed by the end of the list and
  zeros up to the end of the packet's memory, the parser reads past the end of that memory: it
  leaves neither at the end of the list nor at the end of the header.\<close>

theorem tcp_options_verdict:
  assumes "length hdr = 20" and "\<forall>opt \<in> set os. opt_wf opt" and "tot \<le> int (unat (drop_bit 4 (hdr ! 12))) * 4"
  shows "(int (unat (drop_bit 4 (hdr ! 12))) * 4 = int (20 + length (opts_bytes os)) \<longrightarrow>
       is_drop_tcp_ack (hdr @ opts_bytes os @ rest) tot ws =
         Some (if \<exists>opt \<in> set os. opt_informs opt then 2 else 1, fold opt_scale os ws)) \<and>
     (int (unat (drop_bit 4 (hdr ! 12))) * 4 > int (20 + length (opts_bytes os)) \<longrightarrow>
       is_drop_tcp_ack (hdr @ opts_bytes os @ replicate n 0) tot ws = None)"
proof -
  let ?len = "int (unat (drop_bit 4 (hdr ! 12))) * 4"
  have run: "is_drop_tcp_ack (hdr @ x) tot ws = ack_options x (?len - 20) 1 ws" for x
  proof -
    have "c_get (hdr @ x) 12 = Some (hdr ! 12)" using assms(1) by (simp add: c_get_def nth_append)
    then show ?thesis using assms(1,3) by (simp add: is_drop_tcp_ack_def)
  qed
  show ?thesis
    using ack_options_encode [OF assms(2), of 1 "?len - 20" rest ws]
      ack_options_encode [OF assms(2), of 1 "?len - 20" "replicate n 0" ws] ack_options_zeros
    by (simp only: run) auto
qed

theorem tcp_options_verdict_witness:
  "is_drop_tcp_ack (replicate 12 0 @ [0x60] @ replicate 7 0 @ replicate 100 0) 24 0 = None"
proof -
  have "int (unat (drop_bit 4 ((replicate 12 0 @ [0x60] @ replicate 7 0) ! 12 :: u8))) * 4 = 24"
    by (simp add: nth_append)
  with tcp_options_verdict [of "replicate 12 0 @ [0x60] @ replicate 7 0" "[]" 24 "[]" 0 100]
  show ?thesis by (simp add: opts_bytes_def)
qed

end
