(* ===== verification/Aic_Rx.thy ===== *)
theory Aic_Rx
  imports Aic_Tcp_Ack
begin

text \<open>
  The end of the receive path of \<^verbatim>\<open>aic8800_fdrv/rwnx_rx.c\<close>, where a frame leaves the driver:
  socket buffers and the moves of their data pointer, the interfaces, an A-MSDU split into its
  subframes, the look for a DHCP acknowledgement, and the hand-over to the network with the call of
  the acknowledgement filter. The configuration is that of the Makefile (reordering, filter and
  ARP offload on; bridging and four-address frames off).
\<close>

section \<open>Socket buffers\<close>

text \<open>
  The bytes before \<open>skb->data\<close> (the headroom), the \<open>skb->len\<close> bytes of data, and the bytes
  after them up to the end of the buffer. Memory at \<open>skb->data[i]\<close> may be read and written up to
  the end of the buffer.
\<close>

record sk_buff =
  skb_head :: bytes
  skb_data :: bytes
  skb_tail :: bytes

definition skb_mem :: "sk_buff \<Rightarrow> bytes" where
  "skb_mem skb = skb_data skb @ skb_tail skb"

definition skb_len :: "sk_buff \<Rightarrow> nat" where
  "skb_len skb = length (skb_data skb)"

text \<open>\<open>skb_pull\<close> does nothing when it is asked for more than there is; the kernel stops when
  \<open>skb_push\<close> or \<open>skb_put\<close> leave the buffer.\<close>

definition skb_pull :: "nat \<Rightarrow> sk_buff \<Rightarrow> sk_buff" where
  "skb_pull n skb =
     (if n > skb_len skb then skb
      else skb\<lparr>skb_head := skb_head skb @ take n (skb_data skb), skb_data := drop n (skb_data skb)\<rparr>)"

definition skb_push :: "nat \<Rightarrow> sk_buff \<Rightarrow> sk_buff option" where
  "skb_push n skb =
     (let k = length (skb_head skb) - n in
      if n > length (skb_head skb) then None
      else Some (skb\<lparr>skb_head := take k (skb_head skb), skb_data := drop k (skb_head skb) @ skb_data skb\<rparr>))"

definition skb_put :: "nat \<Rightarrow> sk_buff \<Rightarrow> sk_buff option" where
  "skb_put n skb =
     (if n > length (skb_tail skb) then None
      else Some (skb\<lparr>skb_data := skb_data skb @ take n (skb_tail skb), skb_tail := drop n (skb_tail skb)\<rparr>))"

text \<open>A copy to \<open>skb->data[off]\<close>.\<close>

definition skb_write :: "nat \<Rightarrow> bytes \<Rightarrow> sk_buff \<Rightarrow> sk_buff option" where
  "skb_write off bs skb = do {
     m \<leftarrow> c_write (skb_mem skb) off bs;
     Some (skb\<lparr>skb_data := take (skb_len skb) m, skb_tail := drop (skb_len skb) m\<rparr>)
   }"

text \<open>A buffer that holds exactly the given data.\<close>

definition skb_of :: "bytes \<Rightarrow> sk_buff" where
  "skb_of bs = \<lparr>skb_head = [], skb_data = bs, skb_tail = []\<rparr>"

section \<open>Interfaces and the state of the path\<close>

datatype nl80211_iftype =
    IFTYPE_STATION | IFTYPE_AP | IFTYPE_AP_VLAN | IFTYPE_MONITOR | IFTYPE_MESH_POINT
  | IFTYPE_P2P_CLIENT | IFTYPE_P2P_GO | IFTYPE_OTHER

text \<open>\<open>vif_ccmp\<close> is the condition on the cipher types of the station with which the ARP offload
  is asked for; \<open>vif_isolate\<close> is the flag \<open>RWNX_AP_ISOLATE\<close>.\<close>

record rwnx_vif =
  vif_up :: bool
  vif_iftype :: nl80211_iftype
  vif_dev_addr :: bytes
  vif_ccmp :: bool
  vif_isolate :: bool
  vif_rx_packets :: u32
  vif_rx_bytes :: u32

text \<open>What leaves the driver: a frame handed to the network from an interface, a copy queued for
  transmission on it, a management frame given to the 802.11 stack of the driver, a freed buffer,
  and a request to the firmware to answer ARP for an address.\<close>

datatype rx_out =
    Up nat sk_buff
  | Resent nat bytes
  | Mgmt sk_buff
  | Freed sk_buff
  | Arp_Offload nat bytes bool

text \<open>
  The interfaces by their index, the acknowledgement filter, whether a DHCP acknowledgement has
  been seen, and what has left the driver so far.
\<close>

record rx_net =
  rn_vifs :: "rwnx_vif option list"
  rn_ack :: tcp_ack_manage
  rn_dhcped :: bool
  rn_out :: "rx_out list"

definition NX_VIRT_DEV_MAX :: nat where "NX_VIRT_DEV_MAX = 4"

definition rx_emit :: "rx_out \<Rightarrow> rx_net \<Rightarrow> rx_net" where
  "rx_emit x n = n\<lparr>rn_out := rn_out n @ [x]\<rparr>"

text \<open>The interface behind a pointer, which must be there.\<close>

definition vif_at :: "nat \<Rightarrow> rx_net \<Rightarrow> rwnx_vif option" where
  "vif_at v n = Option.bind (c_get (rn_vifs n) v) (\<lambda>x. x)"

definition rwnx_rx_get_vif :: "nat \<Rightarrow> rx_net \<Rightarrow> nat option option" where
  "rwnx_rx_get_vif idx n =
     (if idx < NX_VIRT_DEV_MAX then do {
        e \<leftarrow> c_get (rn_vifs n) idx;
        Some (case e of None \<Rightarrow> None | Some vif \<Rightarrow> if vif_up vif then Some idx else None)
      }
      else Some None)"

section \<open>A-MSDUs\<close>

definition MAC_ADDR_LEN :: nat where "MAC_ADDR_LEN = 6"

definition roundup4 :: "nat \<Rightarrow> nat" where
  "roundup4 n = (n + 3) div 4 * 4"

text \<open>
  The loop over the subframes. The first argument is the number of buffers the kernel can still
  give, the second whether the interface is active; a subframe shorter than its LLC header makes the
  length of the last copy negative. The frame itself is freed by the caller's log.
\<close>

fun rwnx_rxdata_process_amsdu :: "nat \<Rightarrow> bool \<Rightarrow> sk_buff \<Rightarrow> sk_buff list \<Rightarrow> sk_buff list option" where
  "rwnx_rxdata_process_amsdu mem active skb list =
     (if skb_len skb > 16 then do {
        hi \<leftarrow> c_get (skb_mem skb) 12;
        lo \<leftarrow> c_get (skb_mem skb) 13;
        let sublen = (push_bit 8 (ucast hi) OR ucast lo :: u16);
        let n = unat sublen;
        if skb_len skb < n + 14 then Some list
        else
          (let len_alligned = (of_nat (if skb_len skb > n + 14 then roundup4 (n + 14) else n + 14) :: u16)
           in case mem of
                0 \<Rightarrow> Some list
              | Suc mem \<Rightarrow>
                  if n < 6 then None
                  else do {
                    da \<leftarrow> c_read (skb_mem skb) 0 MAC_ADDR_LEN;
                    sa \<leftarrow> c_read (skb_mem skb) 6 MAC_ADDR_LEN;
                    body \<leftarrow> c_read (skb_mem skb) (14 + 6) (n - 6);
                    if \<not> active then Some list
                    else rwnx_rxdata_process_amsdu mem active (skb_pull (unat len_alligned) skb)
                           (list @ [skb_of (da @ sa @ body)])
                  })
      }
      else Some list)"

declare rwnx_rxdata_process_amsdu.simps [simp del]

section \<open>DHCP acknowledgements\<close>

definition DHCP_MAGIC :: u32 where "DHCP_MAGIC = 0x63825363"
definition SERVER_PORT :: u16 where "SERVER_PORT = 67"
definition CLIENT_PORT :: u16 where "CLIENT_PORT = 68"
definition DHCP_OPTION_MESSAGE_TYPE :: u8 where "DHCP_OPTION_MESSAGE_TYPE = 53"
definition DHCP_ACK :: u8 where "DHCP_ACK = 5"
definition DHCP_OPTION_END :: u8 where "DHCP_OPTION_END = 255"


text \<open>
  The loop over the options, from \<open>offset\<close> on, up to \<open>length\<close> as the code computes it (it wraps
  for a UDP length that is too small). The result is the number of acknowledgements seen; \<open>None\<close>
  also when the loop never ends.
\<close>

partial_function (option) dhcp_options :: "bytes \<Rightarrow> u32 \<Rightarrow> u16 \<Rightarrow> nat \<Rightarrow> nat option" where
  "dhcp_options opts len offset acks =
     Option.bind (c_get opts (unat offset)) (\<lambda>code.
       if code = DHCP_OPTION_END \<or> \<not> ucast offset < len then Some acks
       else
         Option.bind
           (if code = DHCP_OPTION_MESSAGE_TYPE
            then Option.bind (c_get opts (unat offset + 2)) (\<lambda>t. Some (if t = DHCP_ACK then acks + 1 else acks))
            else Some acks)
           (\<lambda>acks. Option.bind (c_get opts (unat offset + 1)) (\<lambda>l.
              dhcp_options opts len (offset + 2 + ucast l) acks)))"

text \<open>
  The test of a packet from its IP header on: \<open>Some None\<close> when it is no answer of a DHCP server
  to this station, otherwise the address it gives and the number of acknowledgements.
\<close>

definition dhcp_answer :: "bytes \<Rightarrow> bytes \<Rightarrow> (bytes \<times> nat) option option" where
  "dhcp_answer ip dev_addr = do {
     protocol \<leftarrow> c_get ip 9;
     if protocol \<noteq> 17 then Some None
     else do {
       vihl \<leftarrow> c_get ip 0;
       let udph = drop (unat (vihl AND 0x0f) * 4) ip;
       source \<leftarrow> c_read udph 0 2;
       to_client \<leftarrow> (if get_be16 source = SERVER_PORT
         then Option.bind (c_read udph 2 2) (\<lambda>dest. Some (get_be16 dest = CLIENT_PORT)) else Some False);
       if \<not> to_client then Some None
       else do {
         let dhcph = drop 8 udph;
         cookie \<leftarrow> c_read dhcph 236 4;
         op \<leftarrow> c_get dhcph 0;
         chaddr \<leftarrow> c_read dhcph 28 6;
         if \<not> (get_be32 cookie = DHCP_MAGIC \<and> op = 2 \<and> chaddr = dev_addr) then Some None
         else do {
           udp_len \<leftarrow> c_read udph 4 2;
           yiaddr \<leftarrow> c_read dhcph 16 4;
           acks \<leftarrow> dhcp_options (drop 240 dhcph) (ucast (get_be16 udp_len) - 8 - 240) 0 0;
           Some (Some (yiaddr, acks))
         }
       }
     }
   }"

definition arpoffload_proc :: "u16 \<Rightarrow> bytes \<Rightarrow> nat \<Rightarrow> rx_net \<Rightarrow> rx_net option" where
  "arpoffload_proc protocol ip v n = do {
     vif \<leftarrow> vif_at v n;
     if protocol \<noteq> ETH_P_IP then Some n
     else do {
       r \<leftarrow> dhcp_answer ip (vif_dev_addr vif);
       (case r of
          None \<Rightarrow> Some n
        | Some (yiaddr, acks) \<Rightarrow>
            Some (n\<lparr>rn_dhcped := rn_dhcped n \<or> acks > 0,
                    rn_out := rn_out n @ replicate acks (Arp_Offload v yiaddr (vif_ccmp vif))\<rparr>))
     }
   }"

section \<open>Handing a frame to the network\<close>

definition is_client :: "nl80211_iftype \<Rightarrow> bool" where
  "is_client t \<longleftrightarrow> t = IFTYPE_STATION \<or> t = IFTYPE_P2P_CLIENT"

definition is_ap :: "nl80211_iftype \<Rightarrow> bool" where
  "is_ap t \<longleftrightarrow> t = IFTYPE_AP \<or> t = IFTYPE_P2P_GO"

definition vif_count :: "nat \<Rightarrow> sk_buff \<Rightarrow> rwnx_vif \<Rightarrow> rx_net \<Rightarrow> rx_net" where
  "vif_count v skb vif n =
     n\<lparr>rn_vifs := (rn_vifs n)[v := Some (vif\<lparr>vif_rx_packets := vif_rx_packets vif + 1,
        vif_rx_bytes := vif_rx_bytes vif + of_nat (skb_len skb)\<rparr>)]\<rparr>"

text \<open>
  The body of the three loops that hand frames up. \<open>eth_type_trans\<close> moves \<open>skb->data\<close> behind the
  Ethernet header, and it is from there that the filter is given the packet.
\<close>

definition rx_indicate :: "nat \<Rightarrow> sk_buff \<Rightarrow> rx_net \<Rightarrow> rx_net option" where
  "rx_indicate v skb n = do {
     vif \<leftarrow> vif_at v n;
     proto \<leftarrow> c_read (skb_mem skb) 12 2;
     let skb' = skb_pull 14 skb;
     let n = vif_count v skb vif n;
     n \<leftarrow> (if is_client (vif_iftype vif) then arpoffload_proc (get_be16 proto) (skb_mem skb') v n else Some n);
     ack \<leftarrow> filter_rx_tcp_ack (skb_mem skb') (ucast (of_nat (skb_len skb') :: u16)) (rn_ack n);
     Some (rx_emit (Up v skb) (n\<lparr>rn_ack := ack\<rparr>))
   }"

fun rx_indicate_all :: "nat \<Rightarrow> sk_buff list \<Rightarrow> rx_net \<Rightarrow> rx_net option" where
  "rx_indicate_all v [] n = Some n"
| "rx_indicate_all v (skb # skbs) n = Option.bind (rx_indicate v skb n) (rx_indicate_all v skbs)"

text \<open>The list of frames a received buffer stands for; an A-MSDU is freed once it is split.\<close>

definition rx_list :: "nat \<Rightarrow> nat \<Rightarrow> bool \<Rightarrow> sk_buff \<Rightarrow> rx_net \<Rightarrow> (sk_buff list \<times> rx_net) option" where
  "rx_list mem idx is_amsdu skb n =
     (if is_amsdu then do {
        v \<leftarrow> rwnx_rx_get_vif idx n;
        skbs \<leftarrow> rwnx_rxdata_process_amsdu mem (v \<noteq> None) skb [];
        Some (skbs, rx_emit (Freed skb) n)
      }
      else Some ([skb], n))"

text \<open>\<open>rwnx_rx_data_skb_forward\<close>: every frame of the buffer goes up.\<close>

definition rwnx_rx_data_skb_forward :: "nat \<Rightarrow> nat \<Rightarrow> bool \<Rightarrow> sk_buff \<Rightarrow> rx_net \<Rightarrow> rx_net option" where
  "rwnx_rx_data_skb_forward mem v is_amsdu skb n = do {
     (skbs, n) \<leftarrow> rx_list mem v is_amsdu skb n;
     rx_indicate_all v skbs n
   }"

end
