(* ===== verification/Aic_Reorder.thy ===== *)
theory Aic_Reorder
  imports Aic_Rx
begin

text \<open>
  The reorder buffer of the receive path (\<^verbatim>\<open>reord_*\<close> in \<^verbatim>\<open>aic8800_fdrv/rwnx_rx.c\<close>): the
  pool of frame descriptors, the stations with a window per traffic identifier, the insertion of a
  frame by its 12-bit sequence number, the release of what is in order, and the timer that gives up on
  a gap. An index of a window beyond the eight of a station is undefined (\<open>None\<close>).
\<close>

section \<open>Data\<close>

definition MAX_REORD_RXFRAME :: nat where "MAX_REORD_RXFRAME = 250"
definition REORDER_UPDATE_TIME :: nat where "REORDER_UPDATE_TIME = 50"
definition AICWF_REORDER_WINSIZE :: u8 where "AICWF_REORDER_WINSIZE = 64"
definition ETH_P_PAE :: u16 where "ETH_P_PAE = 0x888E"

definition SN_LESS :: "u16 \<Rightarrow> u16 \<Rightarrow> bool" where
  "SN_LESS a b \<longleftrightarrow> (a - b) AND 0x800 \<noteq> 0"

definition SN_EQUAL :: "u16 \<Rightarrow> u16 \<Rightarrow> bool" where
  "SN_EQUAL a b \<longleftrightarrow> a = b"

text \<open>\<open>rm_slot\<close> is the place of the descriptor in the array \<open>recv_frames\<close>.\<close>

record recv_msdu =
  rm_slot :: nat
  rm_pkt :: "sk_buff option"
  rm_tid :: u8
  rm_seq_num :: u16
  rm_forward :: bool
  rm_is_amsdu :: bool

record reord_ctrl =
  rc_enable :: bool
  rc_ind_sn :: u16
  rc_wsize_b :: u8
  rc_list :: "recv_msdu list"
  rc_timer :: "u32 option"
  rc_work :: bool

record reord_ctrl_info =
  ri_mac :: bytes
  ri_ctrl :: "reord_ctrl list"

text \<open>\<open>rp_vif\<close> is the interface of the frame being received; \<open>rp_bus_down\<close> the state of the bus.\<close>

record aicwf_rx_priv =
  rp_vif :: "nat option"
  rp_free :: "nat list"
  rp_stas :: "reord_ctrl_info list"
  rp_bus_down :: bool
  rp_net :: rx_net

definition rp_emit :: "rx_out \<Rightarrow> aicwf_rx_priv \<Rightarrow> aicwf_rx_priv" where
  "rp_emit x p = p\<lparr>rp_net := rx_emit x (rp_net p)\<rparr>"

section \<open>The pool of descriptors\<close>

definition aicwf_rxframe_queue_init :: "nat \<Rightarrow> nat list" where
  "aicwf_rxframe_queue_init qsize = fold (\<lambda>i q. i # q) [0..<qsize] []"

definition reord_rxframe_free :: "nat \<Rightarrow> aicwf_rx_priv \<Rightarrow> aicwf_rx_priv" where
  "reord_rxframe_free slot p = p\<lparr>rp_free := slot # rp_free p\<rparr>"

definition reord_rxframe_alloc :: "aicwf_rx_priv \<Rightarrow> (nat \<times> aicwf_rx_priv) option" where
  "reord_rxframe_alloc p =
     (case rp_free p of [] \<Rightarrow> None | slot # q \<Rightarrow> Some (slot, p\<lparr>rp_free := q\<rparr>))"

text \<open>The state \<open>aicwf_rx_init\<close> sets up, on given interfaces and filter.\<close>

definition aicwf_rx_init :: "rx_net \<Rightarrow> aicwf_rx_priv" where
  "aicwf_rx_init n =
     \<lparr>rp_vif = None, rp_free = aicwf_rxframe_queue_init MAX_REORD_RXFRAME, rp_stas = [],
      rp_bus_down = False, rp_net = n\<rparr>"

section \<open>Stations\<close>

definition reord_ctrl_new :: reord_ctrl where
  "reord_ctrl_new =
     \<lparr>rc_enable = True, rc_ind_sn = 0xffff, rc_wsize_b = AICWF_REORDER_WINSIZE, rc_list = [],
      rc_timer = None, rc_work = False\<rparr>"

text \<open>\<open>ok\<close> is whether \<open>kmalloc\<close> succeeds.\<close>

definition reord_init_sta :: "bool \<Rightarrow> bytes \<Rightarrow> aicwf_rx_priv \<Rightarrow> reord_ctrl_info option" where
  "reord_init_sta ok mac_addr p =
     (if rp_bus_down p then None
      else if \<not> ok then None
      else Some \<lparr>ri_mac = mac_addr, ri_ctrl = replicate 8 reord_ctrl_new\<rparr>)"

text \<open>The position of the station with an address in the list.\<close>

fun sta_index :: "bytes \<Rightarrow> reord_ctrl_info list \<Rightarrow> nat option" where
  "sta_index mac [] = None"
| "sta_index mac (s # ss) = (if ri_mac s = mac then Some 0 else map_option Suc (sta_index mac ss))"

text \<open>The window of station \<open>s\<close> for identifier \<open>tid\<close>, and its update.\<close>

definition ctrl_at :: "nat \<Rightarrow> u8 \<Rightarrow> aicwf_rx_priv \<Rightarrow> reord_ctrl option" where
  "ctrl_at s tid p = Option.bind (c_get (rp_stas p) s) (\<lambda>i. c_get (ri_ctrl i) (unat tid))"

definition ctrl_put :: "nat \<Rightarrow> u8 \<Rightarrow> reord_ctrl \<Rightarrow> aicwf_rx_priv \<Rightarrow> aicwf_rx_priv" where
  "ctrl_put s tid c p =
     p\<lparr>rp_stas := (rp_stas p)[s := (rp_stas p ! s)\<lparr>ri_ctrl := (ri_ctrl (rp_stas p ! s))[unat tid := c]\<rparr>]\<rparr>"

section \<open>Handing up\<close>

text \<open>\<open>mem\<close> says how many subframes of a buffer the kernel can allocate.\<close>

definition reord_single_frame_ind ::
  "(sk_buff \<Rightarrow> nat) \<Rightarrow> recv_msdu \<Rightarrow> aicwf_rx_priv \<Rightarrow> aicwf_rx_priv option" where
  "reord_single_frame_ind mem prframe p =
     (case rm_pkt prframe of
        None \<Rightarrow> Some p
      | Some skb \<Rightarrow>
          if \<not> rm_forward prframe then Some (reord_rxframe_free (rm_slot prframe) (rp_emit (Freed skb) p))
          else do {
            v \<leftarrow> rp_vif p;
            (skbs, n) \<leftarrow> rx_list (mem skb) v (rm_is_amsdu prframe) skb (rp_net p);
            n \<leftarrow> rx_indicate_all v skbs n;
            Some (reord_rxframe_free (rm_slot prframe) (p\<lparr>rp_net := n\<rparr>))
          })"

text \<open>The loop of \<open>reord_rxframes_process\<close>: whether a frame stays in the buffer, and the window.\<close>

fun process_loop :: "u16 \<Rightarrow> recv_msdu list \<Rightarrow> bool \<times> u16" where
  "process_loop ind [] = (False, ind)"
| "process_loop ind (f # fs) =
     (if \<not> SN_LESS ind (rm_seq_num f)
      then process_loop (if SN_EQUAL ind (rm_seq_num f) then (ind + 1) AND 0xFFF else ind) fs
      else (True, ind))"

definition reord_rxframes_process :: "bool \<Rightarrow> reord_ctrl \<Rightarrow> bool \<times> reord_ctrl" where
  "reord_rxframes_process bforced c =
     (case rc_list c of
        [] \<Rightarrow> (False, c)
      | f # _ \<Rightarrow>
          (let ind = (if bforced then rm_seq_num f else rc_ind_sn c);
               (bPktInBuf, ind) = process_loop ind (rc_list c)
           in (bPktInBuf, c\<lparr>rc_ind_sn := ind\<rparr>)))"

fun ind_loop ::
  "(sk_buff \<Rightarrow> nat) \<Rightarrow> u16 \<Rightarrow> recv_msdu list \<Rightarrow> aicwf_rx_priv \<Rightarrow> (recv_msdu list \<times> aicwf_rx_priv) option" where
  "ind_loop mem ind [] p = Some ([], p)"
| "ind_loop mem ind (f # fs) p =
     (if \<not> SN_LESS ind (rm_seq_num f)
      then Option.bind (reord_single_frame_ind mem f p) (ind_loop mem ind fs)
      else Some (f # fs, p))"

definition reord_rxframes_ind ::
  "(sk_buff \<Rightarrow> nat) \<Rightarrow> reord_ctrl \<Rightarrow> aicwf_rx_priv \<Rightarrow> (reord_ctrl \<times> aicwf_rx_priv) option" where
  "reord_rxframes_ind mem c p = do {
     (fs, p) \<leftarrow> ind_loop mem (rc_ind_sn c) (rc_list c) p;
     Some (c\<lparr>rc_list := fs\<rparr>, p)
   }"

section \<open>The window\<close>

definition reord_need_check :: "u16 \<Rightarrow> reord_ctrl \<Rightarrow> int \<times> reord_ctrl" where
  "reord_need_check seq_num c =
     (let wsize = ucast (rc_wsize_b c) :: u16;
          wend = (rc_ind_sn c + wsize - 1) AND 0xFFF;
          c = (if rc_ind_sn c = 0xFFFF then c\<lparr>rc_ind_sn := seq_num\<rparr> else c)
      in if SN_LESS seq_num (rc_ind_sn c) then (- 1, c)
         else if SN_EQUAL seq_num (rc_ind_sn c) then (0, c\<lparr>rc_ind_sn := (rc_ind_sn c + 1) AND 0xFFF\<rparr>)
         else if SN_LESS wend seq_num then
           (0, c\<lparr>rc_ind_sn := (if seq_num \<ge> wsize - 1 then seq_num - (wsize - 1)
                               else 0xFFF - (wsize - (seq_num + 1)) + 1)\<rparr>)
         else (0, c))"

fun enqueue_loop :: "recv_msdu \<Rightarrow> recv_msdu list \<Rightarrow> recv_msdu list option" where
  "enqueue_loop prframe [] = Some [prframe]"
| "enqueue_loop prframe (f # fs) =
     (if SN_LESS (rm_seq_num f) (rm_seq_num prframe) then map_option ((#) f) (enqueue_loop prframe fs)
      else if SN_EQUAL (rm_seq_num f) (rm_seq_num prframe) then None
      else Some (prframe # f # fs))"

definition reord_rxframe_enqueue :: "recv_msdu \<Rightarrow> reord_ctrl \<Rightarrow> int \<times> reord_ctrl" where
  "reord_rxframe_enqueue prframe c =
     (case enqueue_loop prframe (rc_list c) of
        None \<Rightarrow> (- 1, c)
      | Some fs \<Rightarrow> (0, c\<lparr>rc_list := fs\<rparr>))"


section \<open>A received frame\<close>

text \<open>\<open>jf\<close> is \<open>msecs_to_jiffies\<close>; a running timer keeps its time.\<close>

definition reord_arm :: "(nat \<Rightarrow> u32) \<Rightarrow> u32 \<Rightarrow> bool \<Rightarrow> reord_ctrl \<Rightarrow> reord_ctrl" where
  "reord_arm jf now bPktInBuf c =
     c\<lparr>rc_timer := (if bPktInBuf
        then (case rc_timer c of None \<Rightarrow> Some (now + jf REORDER_UPDATE_TIME) | t \<Rightarrow> t) else None)\<rparr>"

definition reord_drop :: "recv_msdu \<Rightarrow> aicwf_rx_priv \<Rightarrow> aicwf_rx_priv" where
  "reord_drop pframe p =
     reord_rxframe_free (rm_slot pframe) (case rm_pkt pframe of None \<Rightarrow> p | Some skb \<Rightarrow> rp_emit (Freed skb) p)"

text \<open>A frame behind the window: one that looks like RTP is dropped, any other handed up at once.\<close>

definition reord_late ::
  "(sk_buff \<Rightarrow> nat) \<Rightarrow> reord_ctrl \<Rightarrow> sk_buff \<Rightarrow> recv_msdu \<Rightarrow> aicwf_rx_priv \<Rightarrow> aicwf_rx_priv option" where
  "reord_late mem c skb pframe p = do {
     b \<leftarrow> c_get (skb_mem skb) 42;
     if b = 0x80 \<and> rm_seq_num pframe \<noteq> rc_ind_sn c then Some (reord_drop pframe p)
     else reord_single_frame_ind mem pframe p
   }"

text \<open>The part of \<open>reord_process_unit\<close> once the window \<open>c\<close> of the frame is found.\<close>

definition reord_unit ::
  "(nat \<Rightarrow> u32) \<Rightarrow> u32 \<Rightarrow> (sk_buff \<Rightarrow> nat) \<Rightarrow> sk_buff \<Rightarrow> recv_msdu \<Rightarrow> reord_ctrl \<Rightarrow> aicwf_rx_priv \<Rightarrow>
   (reord_ctrl \<times> aicwf_rx_priv) option" where
  "reord_unit jf now mem skb pframe c p =
     (if \<not> rc_enable c then do {
        p \<leftarrow> reord_single_frame_ind mem pframe p;
        Some (c\<lparr>rc_ind_sn := (rm_seq_num pframe + 1) mod 4096\<rparr>, p)
      }
      else
        (let (late, c) = reord_need_check (rm_seq_num pframe) c in
         if late \<noteq> 0 then do {
           p \<leftarrow> reord_late mem c skb pframe p;
           Some (c, p)
         }
         else
           (let (dup, c) = reord_rxframe_enqueue pframe c in
            if dup \<noteq> 0 then Some (c, reord_drop pframe p)
            else
              (let (bPktInBuf, c) = reord_rxframes_process False c
               in reord_rxframes_ind mem (reord_arm jf now bPktInBuf c) p))))"

definition reord_reenable :: "reord_ctrl \<Rightarrow> reord_ctrl" where
  "reord_reenable c =
     (if rc_enable c then c
      else c\<lparr>rc_enable := True, rc_ind_sn := 0xffff, rc_wsize_b := AICWF_REORDER_WINSIZE\<rparr>)"

text \<open>
  The address the station is known by: the receiver's on a client, the transmitter's on an access
  point; other interfaces have none.
\<close>

definition reord_mac :: "nl80211_iftype \<Rightarrow> sk_buff \<Rightarrow> bytes option option" where
  "reord_mac t skb =
     (if is_client t then map_option Some (c_read (skb_mem skb) 0 MAC_ADDR_LEN)
      else if is_ap t then map_option Some (c_read (skb_mem skb) 6 MAC_ADDR_LEN)
      else Some None)"

text \<open>The look-up of the station, which is created when it is new, and of the window.\<close>

definition reord_station ::
  "(nat \<Rightarrow> u32) \<Rightarrow> u32 \<Rightarrow> (sk_buff \<Rightarrow> nat) \<Rightarrow> bool \<Rightarrow> sk_buff \<Rightarrow> recv_msdu \<Rightarrow> bytes \<Rightarrow>
   aicwf_rx_priv \<Rightarrow> (int \<times> aicwf_rx_priv) option" where
  "reord_station jf now mem ok skb pframe mac p =
     (case sta_index mac (rp_stas p) of
        None \<Rightarrow>
          (case reord_init_sta ok mac p of
             None \<Rightarrow> Some (- 1, rp_emit (Freed skb) p)
           | Some info \<Rightarrow> do {
               c \<leftarrow> c_get (ri_ctrl info) (unat (rm_tid pframe));
               let s = length (rp_stas p);
               (c, p) \<leftarrow> reord_unit jf now mem skb pframe c (p\<lparr>rp_stas := rp_stas p @ [info]\<rparr>);
               Some (0, ctrl_put s (rm_tid pframe) c p)
             })
      | Some s \<Rightarrow> do {
          c \<leftarrow> ctrl_at s (rm_tid pframe) p;
          (c, p) \<leftarrow> reord_unit jf now mem skb pframe (reord_reenable c) p;
          Some (0, ctrl_put s (rm_tid pframe) c p)
        })"

definition reord_process_unit ::
  "(nat \<Rightarrow> u32) \<Rightarrow> u32 \<Rightarrow> (sk_buff \<Rightarrow> nat) \<Rightarrow> bool \<Rightarrow> sk_buff \<Rightarrow> u16 \<Rightarrow> u8 \<Rightarrow> bool \<Rightarrow> bool \<Rightarrow>
   aicwf_rx_priv \<Rightarrow> (int \<times> aicwf_rx_priv) option" where
  "reord_process_unit jf now mem ok skb seq_num tid forward is_amsdu p =
     (let refuse = (\<lambda>p. Some (- 1, rp_emit (Freed skb) p)) in
      if rp_vif p = None \<or> skb_len skb \<le> 14 then refuse p
      else case reord_rxframe_alloc p of
        None \<Rightarrow> refuse p
      | Some (slot, p) \<Rightarrow>
          (let pframe = \<lparr>rm_slot = slot, rm_pkt = Some skb, rm_tid = tid, rm_seq_num = seq_num,
                         rm_forward = forward, rm_is_amsdu = is_amsdu\<rparr> in
           do {
             proto \<leftarrow> c_read (skb_mem skb) 12 2;
             if get_be16 proto = ETH_P_PAE then do {
               p \<leftarrow> reord_single_frame_ind mem pframe p;
               Some (0, p)
             }
             else do {
               v \<leftarrow> rp_vif p;
               vif \<leftarrow> vif_at v (rp_net p);
               mac \<leftarrow> reord_mac (vif_iftype vif) skb;
               (case mac of
                  None \<Rightarrow> refuse p
                | Some mac \<Rightarrow> reord_station jf now mem ok skb pframe mac p)
             }
           }))"

section \<open>Timer, flush and removal\<close>

text \<open>The timer of a window goes off and schedules the worker, which gives up on the first gap.\<close>

definition reord_timeout_handler :: "reord_ctrl \<Rightarrow> reord_ctrl" where
  "reord_timeout_handler c = c\<lparr>rc_timer := None, rc_work := True\<rparr>"

definition reord_timeout_worker ::
  "(nat \<Rightarrow> u32) \<Rightarrow> u32 \<Rightarrow> (sk_buff \<Rightarrow> nat) \<Rightarrow> reord_ctrl \<Rightarrow> aicwf_rx_priv \<Rightarrow>
   (reord_ctrl \<times> aicwf_rx_priv) option" where
  "reord_timeout_worker jf now mem c p =
     (let c = c\<lparr>rc_work := False\<rparr>;
          (bPktInBuf, c) = reord_rxframes_process True c;
          c = (if bPktInBuf then c\<lparr>rc_timer := Some (now + jf REORDER_UPDATE_TIME)\<rparr> else c)
      in reord_rxframes_ind mem c p)"

text \<open>Both on the window \<open>tid\<close> of station \<open>s\<close>.\<close>

definition reord_timer_event :: "nat \<Rightarrow> u8 \<Rightarrow> aicwf_rx_priv \<Rightarrow> aicwf_rx_priv option" where
  "reord_timer_event s tid p = do {
     c \<leftarrow> ctrl_at s tid p;
     Some (ctrl_put s tid (reord_timeout_handler c) p)
   }"

definition reord_work_event ::
  "(nat \<Rightarrow> u32) \<Rightarrow> u32 \<Rightarrow> (sk_buff \<Rightarrow> nat) \<Rightarrow> nat \<Rightarrow> u8 \<Rightarrow> aicwf_rx_priv \<Rightarrow> aicwf_rx_priv option" where
  "reord_work_event jf now mem s tid p = do {
     c \<leftarrow> ctrl_at s tid p;
     (c, p) \<leftarrow> reord_timeout_worker jf now mem c p;
     Some (ctrl_put s tid c p)
   }"

fun flush_loop :: "(sk_buff \<Rightarrow> nat) \<Rightarrow> recv_msdu list \<Rightarrow> aicwf_rx_priv \<Rightarrow> aicwf_rx_priv option" where
  "flush_loop mem [] p = Some p"
| "flush_loop mem (f # fs) p = Option.bind (reord_single_frame_ind mem f p) (flush_loop mem fs)"

definition reord_flush_tid ::
  "(sk_buff \<Rightarrow> nat) \<Rightarrow> sk_buff \<Rightarrow> u8 \<Rightarrow> aicwf_rx_priv \<Rightarrow> (int \<times> aicwf_rx_priv) option" where
  "reord_flush_tid mem skb tid p = do {
     v \<leftarrow> rp_vif p;
     vif \<leftarrow> vif_at v (rp_net p);
     mac \<leftarrow> reord_mac (vif_iftype vif) skb;
     (case mac of
        None \<Rightarrow> Some (- 1, rp_emit (Freed skb) p)
      | Some mac \<Rightarrow>
          (case sta_index mac (rp_stas p) of
             None \<Rightarrow> Some (0, p)
           | Some s \<Rightarrow> do {
               c \<leftarrow> ctrl_at s tid p;
               if \<not> rc_enable c then Some (0, p)
               else do {
                 p \<leftarrow> flush_loop mem (rc_list c) p;
                 Some (0, ctrl_put s tid (c\<lparr>rc_list := [], rc_enable := False, rc_timer := None, rc_work := False\<rparr>) p)
               }
             }))
   }"

text \<open>What is in the windows of a station is freed, then the station.\<close>

definition reord_deinit_ctrl :: "reord_ctrl \<Rightarrow> aicwf_rx_priv \<Rightarrow> aicwf_rx_priv" where
  "reord_deinit_ctrl c p = fold reord_drop (rc_list c) p"

definition reord_deinit_sta :: "nat \<Rightarrow> aicwf_rx_priv \<Rightarrow> aicwf_rx_priv option" where
  "reord_deinit_sta s p = do {
     i \<leftarrow> c_get (rp_stas p) s;
     let p = fold reord_deinit_ctrl (ri_ctrl i) p;
     Some (p\<lparr>rp_stas := take s (rp_stas p) @ drop (Suc s) (rp_stas p)\<rparr>)
   }"

end
