(* ===== verification/Aic_Reorder_Window.thy ===== *)
theory Aic_Reorder_Window
  imports Aic_Reorder
begin

text \<open>
  The reorder window against an abstract receiver that counts frames with unbounded numbers: the
  comparison of 12-bit sequence numbers, the position of a new frame, the run of numbers without a
  gap, and what is released.
\<close>

section \<open>Sequence numbers\<close>

definition sn :: "nat \<Rightarrow> u16" where
  "sn n = of_nat (n mod 4096)"

lemma unat_sn: "unat (sn n) = n mod 4096"
proof -
  have "n mod 4096 < 4096" by simp
  then have "n mod 4096 mod 65536 = n mod 4096" by (intro mod_less) linarith
  then show ?thesis by (simp add: sn_def unat_of_nat)
qed

lemma sn_eq_iff: "sn a = sn b \<longleftrightarrow> a mod 4096 = b mod 4096"
  by (metis unat_sn sn_def)

lemma sn_shift [simp]: "sn (n + 4096) = sn n"
  by (simp add: sn_eq_iff)

lemma sn_less: "unat (sn n) < 4096"
  by (simp add: unat_sn)

lemma sn_unset [simp]: "sn n \<noteq> 0xFFFF"
proof
  assume "sn n = 0xFFFF"
  then have "unat (sn n) = 65535" by simp
  with sn_less [of n] show False by simp
qed

lemma sn_of: "unat s < 4096 \<Longrightarrow> sn (unat s) = s"
  by (simp add: sn_def)

lemma and_low: "unat (x AND 0xFFF :: u16) = unat x mod 4096"
proof -
  have "(0xFFF :: u16) = mask 12" by (simp add: mask_eq_exp_minus_1)
  then have "x AND 0xFFF = take_bit 12 x" by (simp only: take_bit_eq_mask)
  then have "unat (x AND 0xFFF) = take_bit 12 (unat x)" by (simp only: unsigned_take_bit_eq)
  then show ?thesis by (simp add: take_bit_eq_mod)
qed

lemma sn_Suc: "(sn n + 1) AND 0xFFF = sn (Suc n)"
proof -
  have "unat (sn n + 1) = (n mod 4096 + 1) mod 65536" by (simp add: unat_word_ariths unat_sn)
  also have "\<dots> = n mod 4096 + 1" using mod_less_divisor [of 4096 n] by (intro mod_less) linarith
  finally have "unat ((sn n + 1) AND 0xFFF) = (n mod 4096 + 1) mod 4096" by (simp add: and_low)
  then show ?thesis by (simp add: word_unat_eq_iff unat_sn mod_Suc_eq)
qed

lemma odd_half: "odd (x div 2048) \<longleftrightarrow> x mod 4096 \<ge> 2048" for x :: int
proof -
  have "x mod 4096 = 2048 * (x div 2048 mod 2) + x mod 2048"
    using zmod_zmult2_eq [of 2 x 2048] by simp
  moreover have "0 \<le> x mod 2048" and "x mod 2048 < 2048" by simp_all
  ultimately show ?thesis by (cases "odd (x div 2048)") (auto simp: odd_iff_mod_2_eq_one even_iff_mod_2_eq_zero)
qed

lemma SN_LESS_iff: "SN_LESS a b \<longleftrightarrow> (uint a - uint b) mod 4096 \<ge> 2048"
proof -
  have "SN_LESS a b \<longleftrightarrow> bit (a - b) 11"
    using and_exp_eq_0_iff_not_bit [of "a - b" 11] by (simp add: SN_LESS_def)
  also have "\<dots> \<longleftrightarrow> bit (uint (a - b)) 11" by (simp add: bit_uint_iff)
  also have "\<dots> \<longleftrightarrow> odd ((uint a - uint b) mod 65536 div 2048)" by (simp add: bit_iff_odd uint_word_ariths)
  also have "\<dots> \<longleftrightarrow> (uint a - uint b) mod 65536 mod 4096 \<ge> 2048" by (rule odd_half)
  also have "(uint a - uint b) mod 65536 mod 4096 = (uint a - uint b) mod 4096" by (simp add: mod_mod_cancel)
  finally show ?thesis .
qed

text \<open>The comparison is that of the unbounded numbers within half the space.\<close>

lemma SN_LESS_sn:
  assumes "int a - int b \<ge> - 2048" and "int a - int b < 2048"
  shows "SN_LESS (sn a) (sn b) \<longleftrightarrow> a < b"
proof -
  have u: "uint (sn n) = int n mod 4096" for n
    using unat_sn [of n] by (metis of_nat_mod of_nat_numeral uint_nat)
  have "(uint (sn a) - uint (sn b)) mod 4096 = (int a - int b) mod 4096"
    by (simp add: u mod_diff_eq)
  moreover have "(int a - int b) mod 4096 \<ge> 2048 \<longleftrightarrow> a < b"
  proof (cases "a < b")
    case True
    then have "(int a - int b) mod 4096 = (int a - int b + 4096) mod 4096" by simp
    also have "\<dots> = int a - int b + 4096" using assms True by (intro mod_pos_pos_trivial) linarith+
    finally show ?thesis using assms True by simp
  next
    case False
    with assms have "(int a - int b) mod 4096 = int a - int b" by (intro mod_pos_pos_trivial) linarith+
    with assms False show ?thesis by simp
  qed
  ultimately show ?thesis by (simp add: SN_LESS_iff)
qed

lemma SN_EQUAL_sn:
  assumes "int a - int b \<ge> - 2048" and "int a - int b < 2048"
  shows "SN_EQUAL (sn a) (sn b) \<longleftrightarrow> a = b"
proof
  assume "SN_EQUAL (sn a) (sn b)"
  then have "\<not> SN_LESS (sn a) (sn b)" and "\<not> SN_LESS (sn b) (sn a)"
    by (simp_all add: SN_EQUAL_def SN_LESS_def)
  with assms SN_LESS_sn [of a b] SN_LESS_sn [of b a] show "a = b" by (cases "int a - int b = - 2048")
      (auto simp: SN_EQUAL_def)
qed (simp add: SN_EQUAL_def)


section \<open>The check of the window\<close>

lemma sn_add: "k < 4096 \<Longrightarrow> (sn n + of_nat k) AND 0xFFF = sn (n + k)"
proof -
  assume k: "k < 4096"
  have "unat (sn n + of_nat k) = (n mod 4096 + k mod 65536) mod 65536"
    by (simp add: unat_word_ariths unat_sn unat_of_nat)
  also have "k mod 65536 = k" using k by simp
  also have "(n mod 4096 + k) mod 65536 = n mod 4096 + k"
    using k mod_less_divisor [of 4096 n] by (intro mod_less) linarith
  finally have "unat ((sn n + of_nat k) AND 0xFFF) = (n mod 4096 + k) mod 4096" by (simp add: and_low)
  then show ?thesis by (simp add: word_unat_eq_iff unat_sn mod_add_left_eq)
qed

lemma sn_window_start:
  assumes "63 \<le> n"
  shows "(if sn n \<ge> 64 - 1 then sn n - (64 - 1) else 0xFFF - (64 - (sn n + 1)) + 1) = sn (n - 63)"
proof (cases "63 \<le> n mod 4096")
  case True
  have n: "n = 4096 * (n div 4096) + n mod 4096" by simp
  then have "n - 63 = 4096 * (n div 4096) + (n mod 4096 - 63)" using True by linarith
  then have "(n - 63) mod 4096 = (n mod 4096 - 63) mod 4096" by (metis mod_mult_self4)
  also have "\<dots> = n mod 4096 - 63" using mod_less_divisor [of 4096 n] by (intro mod_less) linarith
  finally have m: "(n - 63) mod 4096 = n mod 4096 - 63" .
  have ge: "(63 :: u16) \<le> sn n" using True by (simp add: word_le_nat_alt unat_sn)
  then have "unat (sn n - 63) = n mod 4096 - 63" by (simp add: unat_sub unat_sn)
  then have "sn n - 63 = sn (n - 63)" by (simp add: word_unat_eq_iff unat_sn m)
  with ge show ?thesis by simp
next
  case False
  have n: "n = 4096 * (n div 4096) + n mod 4096" by simp
  with assms False have "n div 4096 \<ge> 1" by linarith
  then have "4096 * (n div 4096) = 4096 * (n div 4096 - 1) + 4096" by (simp add: algebra_simps)
  with n False have "n - 63 = 4096 * (n div 4096 - 1) + (n mod 4096 + 4033)" by linarith
  then have "(n - 63) mod 4096 = (n mod 4096 + 4033) mod 4096" by (metis mod_mult_self4)
  also have "\<dots> = n mod 4096 + 4033" using False by (intro mod_less) linarith
  finally have m: "(n - 63) mod 4096 = n mod 4096 + 4033" .
  have lt: "\<not> (63 :: u16) \<le> sn n" using False by (simp add: word_le_nat_alt unat_sn)
  have "unat (sn n + 4033) = (n mod 4096 + 4033) mod 65536" by (simp add: unat_word_ariths unat_sn)
  also have "\<dots> = n mod 4096 + 4033" using False by (intro mod_less) linarith
  finally have "sn n + 4033 = sn (n - 63)" by (simp add: word_unat_eq_iff unat_sn m)
  with lt show ?thesis by (simp add: algebra_simps)
qed

text \<open>\<open>win_low m n\<close> is where a window at \<open>m\<close> starts once a frame \<open>n\<close> has come.\<close>

definition win_low :: "nat \<Rightarrow> nat \<Rightarrow> nat" where
  "win_low m n = (if n = m then Suc m else max m (n - 63))"

text \<open>The numbers a window at \<open>m\<close> can tell from one another.\<close>

definition near :: "nat \<Rightarrow> nat \<Rightarrow> bool" where
  "near m n \<longleftrightarrow> m \<le> n + 2048 \<and> n < m + 2048"

lemma need_check_sn:
  assumes c: "rc_ind_sn c = sn m" "rc_wsize_b c = 64" and n: "near m n"
  shows "reord_need_check (sn n) c = (if n < m then (- 1, c) else (0, c\<lparr>rc_ind_sn := sn (win_low m n)\<rparr>))"
proof -
  have wend: "(sn m + ucast (64 :: u8) - 1) AND 0xFFF = sn (m + 63)"
  proof -
    have eq: "sn m + ucast (64 :: u8) - 1 = sn m + of_nat 63" by simp
    show ?thesis unfolding eq by (rule sn_add) simp
  qed
  have less: "SN_LESS (sn n) (sn m) \<longleftrightarrow> n < m" using n by (intro SN_LESS_sn) (auto simp: near_def)
  show ?thesis
  proof (cases "n \<le> m")
    case True
    then show ?thesis
      using c less by (cases "n = m") (auto simp: reord_need_check_def Let_def SN_EQUAL_def sn_Suc win_low_def)
  next
    case False
    then have eq: "\<not> SN_EQUAL (sn n) (sn m)" using n SN_EQUAL_sn [of n m] by (auto simp: near_def)
    have beyond: "SN_LESS (sn (m + 63)) (sn n) \<longleftrightarrow> m + 63 < n" using n False by (intro SN_LESS_sn) (auto simp: near_def)
    have low: "win_low m n = (if m + 63 < n then n - 63 else m)" using False by (auto simp: win_low_def)
    have same: "c\<lparr>rc_ind_sn := sn m\<rparr> = c" using c(1) by (cases c) simp
    have "reord_need_check (sn n) c =
        (0, if m + 63 < n then c\<lparr>rc_ind_sn := if sn n \<ge> 64 - 1 then sn n - (64 - 1) else 0xFFF - (64 - (sn n + 1)) + 1\<rparr> else c)"
      using False less eq beyond wend c by (simp add: reord_need_check_def Let_def)
    then show ?thesis using False sn_window_start [of n] low same by (cases "m + 63 < n") simp_all
  qed
qed

lemma need_check_unset:
  "rc_ind_sn c = 0xFFFF \<Longrightarrow> reord_need_check (sn n) c = (0, c\<lparr>rc_ind_sn := sn (Suc n)\<rparr>)"
  by (simp add: reord_need_check_def Let_def SN_LESS_def SN_EQUAL_def sn_Suc)


section \<open>The buffer as a sorted list of numbers\<close>

text \<open>
  The buffer holds \<open>map g ks\<close> for a strictly sorted list of numbers, \<open>g k\<close> being the frame with
  number \<open>k\<close>.
\<close>

definition numbered :: "(nat \<Rightarrow> recv_msdu) \<Rightarrow> nat list \<Rightarrow> bool" where
  "numbered g ks \<longleftrightarrow> sorted_wrt (<) ks \<and> (\<forall>k \<in> set ks. rm_seq_num (g k) = sn k)"

lemma numbered_Nil [simp]: "numbered g []"
  by (simp add: numbered_def)

lemma numbered_Cons: "numbered g (k # ks) \<longleftrightarrow> (\<forall>j \<in> set ks. k < j) \<and> rm_seq_num (g k) = sn k \<and> numbered g ks"
  by (auto simp: numbered_def)

lemma numbered_filter: "numbered g ks \<Longrightarrow> numbered g (filter P ks)"
  by (auto simp: numbered_def sorted_wrt_filter)

lemma numbered_cong: "(\<And>k. k \<in> set ks \<Longrightarrow> g k = h k) \<Longrightarrow> numbered g ks = numbered h ks"
  by (simp add: numbered_def)

lemma numbered_insort:
  assumes "numbered g ks" and "n \<notin> set ks" and "rm_seq_num f = sn n"
  shows "numbered (g(n := f)) (insort n ks)"
proof -
  have "sorted_wrt (<) (insort n ks)"
    using assms(1,2) by (simp add: numbered_def strict_sorted_iff distinct_insort sorted_insort)
  with assms show ?thesis by (auto simp: numbered_def set_insort_key)
qed

lemma enqueue_numbered:
  assumes "numbered g ks" and "\<forall>k \<in> set ks. near n k \<and> near k n" and "rm_seq_num f = sn n"
  shows "enqueue_loop f (map g ks) = (if n \<in> set ks then None else Some (map (g(n := f)) (insort n ks)))"
  using assms
proof (induction ks)
  case (Cons k ks)
  have k: "rm_seq_num (g k) = sn k" "\<forall>j \<in> set ks. k < j" "numbered g ks" using Cons.prems by (auto simp: numbered_Cons)
  have less: "SN_LESS (sn k) (sn n) \<longleftrightarrow> k < n" and eq: "SN_EQUAL (sn k) (sn n) \<longleftrightarrow> k = n"
    using Cons.prems SN_LESS_sn [of k n] SN_EQUAL_sn [of k n] by (auto simp: near_def)
  consider "k < n" | "k = n" | "n < k" by linarith
  then show ?case
  proof cases
    case 1
    with Cons k less show ?thesis by (auto simp: map_option_case)
  next
    case 3
    then have "n \<notin> set ks" using k(2) by auto
    then have "map (g(n := f)) ks = map g ks" by (induction ks) auto
    with 3 k less eq Cons.prems(3) \<open>n \<notin> set ks\<close> show ?thesis by simp
  qed (use k less eq Cons.prems(3) in simp)
qed (simp add: fun_upd_def)

text \<open>The first number from \<open>m\<close> on that is missing in a sorted list.\<close>

fun run_up :: "nat \<Rightarrow> nat list \<Rightarrow> nat" where
  "run_up m [] = m"
| "run_up m (k # ks) = (if k < m then run_up m ks else if k = m then run_up (Suc m) ks else m)"

definition run_end :: "nat \<Rightarrow> nat set \<Rightarrow> nat" where
  "run_end m K = (LEAST j. m \<le> j \<and> j \<notin> K)"

lemma run_up_props:
  assumes "sorted_wrt (<) ks"
  shows "m \<le> run_up m ks" and "run_up m ks \<notin> set ks" and "\<And>j. m \<le> j \<Longrightarrow> j < run_up m ks \<Longrightarrow> j \<in> set ks"
  using assms
proof (induction ks arbitrary: m)
  case (Cons k ks)
  { case 1 then show ?case using Cons.IH(1) [of m] Cons.IH(1) [of "Suc m"] by auto }
  { case 2 then show ?case using Cons.IH(2) [of m] Cons.IH(2) [of "Suc m"] Cons.IH(1) [of m] Cons.IH(1) [of "Suc m"] by auto }
  { case (3 j) then show ?case using Cons.IH(3) [of m j] Cons.IH(3) [of "Suc m" j]
      by (cases "j = k") (auto split: if_splits simp: Suc_le_eq) }
qed auto

lemma run_up_end: "sorted_wrt (<) ks \<Longrightarrow> run_up m ks = run_end m (set ks)"
  using run_up_props [of ks m] unfolding run_end_def
  by (intro Least_equality [symmetric]) (auto intro: leI)

lemma process_numbered:
  assumes "numbered g ks" and "\<forall>k \<in> set ks. m \<le> k + 2047 \<and> k \<le> m + 2047"
  shows "process_loop (sn m) (map g ks) = (\<exists>k \<in> set ks. run_up m ks \<le> k, sn (run_up m ks))"
  using assms
proof (induction ks arbitrary: m)
  case (Cons k ks)
  have k: "rm_seq_num (g k) = sn k" "\<forall>j \<in> set ks. k < j" "numbered g ks" using Cons.prems by (auto simp: numbered_Cons)
  then have up: "m \<le> run_up m ks" "Suc m \<le> run_up (Suc m) ks" using run_up_props(1) [of ks] by (auto simp: numbered_def)
  have less: "SN_LESS (sn m) (sn k) \<longleftrightarrow> m < k" and eq: "SN_EQUAL (sn m) (sn k) \<longleftrightarrow> m = k"
    using Cons.prems SN_LESS_sn [of m k] SN_EQUAL_sn [of m k] by auto
  consider "k < m" | "k = m" | "m < k" by linarith
  then show ?case
  proof cases
    case 1
    with Cons.IH [of m] Cons.prems k less eq up show ?thesis by auto
  next
    case 2
    then have "\<forall>j \<in> set ks. Suc m \<le> j + 2047 \<and> j \<le> Suc m + 2047" using Cons.prems k(2) by fastforce
    from Cons.IH [OF k(3) this] 2 k less eq up show ?thesis by (auto simp: sn_Suc)
  qed (use k less in auto)
qed simp

lemma ind_numbered:
  assumes "numbered g ks" and "\<forall>k \<in> set ks. m \<le> k + 2047 \<and> k \<le> m + 2047" and "m \<notin> set ks"
  shows "ind_loop mem (sn m) (map g ks) p =
    Option.bind (flush_loop mem (map g (filter (\<lambda>k. k < m) ks)) p)
      (\<lambda>p. Some (map g (filter (\<lambda>k. m \<le> k) ks), p))"
  using assms
proof (induction ks arbitrary: p)
  case (Cons k ks)
  have k: "rm_seq_num (g k) = sn k" "\<forall>j \<in> set ks. k < j" "numbered g ks" using Cons.prems by (auto simp: numbered_Cons)
  have less: "SN_LESS (sn m) (sn k) \<longleftrightarrow> m < k" using Cons.prems SN_LESS_sn [of m k] by auto
  show ?case
  proof (cases "k < m")
    case True
    then show ?thesis using Cons k less by (cases "reord_single_frame_ind mem (g k) p") auto
  next
    case False
    with Cons.prems have "m < k" by auto
    moreover have "filter (\<lambda>k. k < m) ks = []" "filter (\<lambda>k. m \<le> k) ks = ks"
      using calculation k(2) by (auto simp: filter_empty_conv filter_id_conv)
    ultimately show ?thesis using k less by simp
  qed
qed simp


section \<open>The abstract receiver\<close>

text \<open>
  A receiver with unbounded numbers: the next number it waits for and the frames it holds. A new frame
  opens the window so far that it is the last of 64 numbers, and all frames before the first
  missing number from there on are released in order.
\<close>

record 'f window =
  win_next :: nat
  win_held :: "nat \<Rightarrow> 'f option"

datatype 'f verdict = Late | Duplicate | Release "'f list"

definition win_frames :: "'f window \<Rightarrow> nat set \<Rightarrow> 'f list" where
  "win_frames w K = map (the \<circ> win_held w) (sorted_list_of_set K)"

definition win_release :: "nat \<Rightarrow> 'f window \<Rightarrow> 'f verdict \<times> 'f window" where
  "win_release m w =
     (let K = dom (win_held w); stop = run_end m K
      in (Release (win_frames w {k \<in> K. k < stop}), \<lparr>win_next = stop, win_held = win_held w |` {stop..}\<rparr>))"

definition win_rx :: "nat \<Rightarrow> 'f \<Rightarrow> 'f window \<Rightarrow> 'f verdict \<times> 'f window" where
  "win_rx n f w =
     (if n < win_next w then (Late, w)
      else if n \<in> dom (win_held w) then (Duplicate, w)
      else win_release (max (win_next w) (n - 63)) (w\<lparr>win_held := (win_held w)(n \<mapsto> f)\<rparr>))"

text \<open>The timer gives up on the numbers before the first frame held.\<close>

definition win_timeout :: "'f window \<Rightarrow> 'f verdict \<times> 'f window" where
  "win_timeout w = (if dom (win_held w) = {} then (Release [], w) else win_release (Min (dom (win_held w))) w)"

definition win_all :: "'f window \<Rightarrow> 'f list" where
  "win_all w = win_frames w (dom (win_held w))"

text \<open>The window of the driver that stands for an abstract one.\<close>

definition win_ok :: "recv_msdu window \<Rightarrow> bool" where
  "win_ok w \<longleftrightarrow> finite (dom (win_held w)) \<and>
     (\<forall>k f. win_held w k = Some f \<longrightarrow> rm_seq_num f = sn k \<and> win_next w < k \<and> k \<le> win_next w + 63)"

definition implements :: "reord_ctrl \<Rightarrow> recv_msdu window \<Rightarrow> bool" where
  "implements c w \<longleftrightarrow> win_ok w \<and> rc_enable c \<and> rc_wsize_b c = 64 \<and> rc_ind_sn c = sn (win_next w) \<and> rc_list c = win_all w"

definition win_store :: "recv_msdu window \<Rightarrow> reord_ctrl \<Rightarrow> reord_ctrl" where
  "win_store w c = c\<lparr>rc_ind_sn := sn (win_next w), rc_list := win_all w\<rparr>"

lemma win_frames_Nil [simp]: "finite K \<Longrightarrow> win_frames w K = [] \<longleftrightarrow> K = {}"
  by (simp add: win_frames_def)

lemma numbered_held:
  assumes "win_ok w"
  shows "numbered (the \<circ> win_held w) (sorted_list_of_set (dom (win_held w)))"
  using assms by (auto simp: numbered_def win_ok_def)

lemma filter_sorted_list_of_set: "finite K \<Longrightarrow> filter P (sorted_list_of_set K) = sorted_list_of_set {k \<in> K. P k}"
  by (rule strict_sorted_equal) (auto simp: sorted_wrt_filter)

text \<open>What the loops of the driver do with a numbered buffer, from the window start \<open>m\<close> on.\<close>

lemma release_numbered:
  assumes fin: "finite K" and num: "numbered g (sorted_list_of_set K)" and K: "K \<noteq> {}"
    and near: "\<forall>k \<in> K. m \<le> k + 2047 \<and> k \<le> m + 2047" and close: "\<forall>k \<in> K. \<forall>j \<in> K. j \<le> k + 2046"
    and c: "rc_list c = map g (sorted_list_of_set K)" "rc_ind_sn c = sn m"
  defines "stop \<equiv> run_end m K"
  shows "reord_rxframes_process False c = ({k \<in> K. stop \<le> k} \<noteq> {}, c\<lparr>rc_ind_sn := sn stop\<rparr>)" (is ?process)
    and "reord_rxframes_ind mem (c'\<lparr>rc_ind_sn := sn stop, rc_list := rc_list c\<rparr>) p =
      Option.bind (flush_loop mem (map g (sorted_list_of_set {k \<in> K. k < stop})) p)
        (\<lambda>p. Some (c'\<lparr>rc_ind_sn := sn stop, rc_list := map g (sorted_list_of_set {k \<in> K. stop \<le> k})\<rparr>, p))" (is ?ind)
proof -
  let ?ks = "sorted_list_of_set K"
  have ks: "sorted_wrt (<) ?ks" "set ?ks = K" using fin by simp_all
  note up = run_up_props [OF ks(1), of m]
  have stop: "run_up m ?ks = stop" using run_up_end [OF ks(1), of m] ks(2) by (simp add: stop_def)
  have range: "stop \<le> k + 2047 \<and> k \<le> stop + 2047" if "k \<in> K" for k
  proof (cases "stop = m")
    case False
    then have "stop - 1 \<in> K" using up(1) up(3) [of "stop - 1"] ks(2) stop by auto
    with that close near up(1) stop show ?thesis by fastforce
  qed (use that near in auto)
  obtain f fs where "map g ?ks = f # fs" using K fin by (cases "map g ?ks") auto
  then show ?process
    using process_numbered [OF num, of m] near c stop ks(2) by (auto simp: reord_rxframes_process_def)
  show ?ind
    using ind_numbered [OF num, of stop mem p] range up(2) stop c(1) fin ks(2)
    by (cases "flush_loop mem (map g (sorted_list_of_set {k \<in> K. k < stop})) p")
      (simp_all add: reord_rxframes_ind_def filter_sorted_list_of_set)
qed


section \<open>The driver implements the abstract receiver\<close>

lemma win_frames_cong: "(\<And>k. k \<in> K \<Longrightarrow> win_held w k = win_held w' k) \<Longrightarrow> finite K \<Longrightarrow> win_frames w K = win_frames w' K"
  by (simp add: win_frames_def)

lemma win_release_cases:
  assumes "win_release m w = (v, w')"
  shows "v = Release (win_frames w {k \<in> dom (win_held w). k < run_end m (dom (win_held w))})"
    and "win_next w' = run_end m (dom (win_held w))"
    and "win_all w' = win_frames w {k \<in> dom (win_held w). run_end m (dom (win_held w)) \<le> k}"
    and "dom (win_held w') = {k \<in> dom (win_held w). run_end m (dom (win_held w)) \<le> k}"
proof -
  let ?K = "dom (win_held w)" and ?s = "run_end m (dom (win_held w))"
  have w': "w' = \<lparr>win_next = ?s, win_held = win_held w |` {?s..}\<rparr>"
    and "v = Release (win_frames w {k \<in> ?K. k < ?s})" using assms by (simp_all add: win_release_def Let_def)
  then show "v = Release (win_frames w {k \<in> ?K. k < ?s})" and "win_next w' = ?s" by simp_all
  have dom: "dom (win_held w') = {k \<in> ?K. ?s \<le> k}" by (auto simp: w' restrict_map_def split: if_splits)
  then show "dom (win_held w') = {k \<in> ?K. ?s \<le> k}" .
  show "win_all w' = win_frames w {k \<in> ?K. ?s \<le> k}" unfolding win_all_def dom
  proof (cases "finite {k \<in> ?K. ?s \<le> k}")
    case True
    then show "win_frames w' {k \<in> ?K. ?s \<le> k} = win_frames w {k \<in> ?K. ?s \<le> k}"
      by (intro win_frames_cong) (auto simp: w')
  next
    case False
    then show "win_frames w' {k \<in> ?K. ?s \<le> k} = win_frames w {k \<in> ?K. ?s \<le> k}" by (simp add: win_frames_def)
  qed
qed

lemma run_end_bounds:
  assumes "finite K"
  shows "m \<le> run_end m K" and "run_end m K \<notin> K" and "\<And>j. m \<le> j \<Longrightarrow> j < run_end m K \<Longrightarrow> j \<in> K"
  using run_up_props [of "sorted_list_of_set K" m] run_up_end [of "sorted_list_of_set K" m] assms by simp_all

lemma run_end_Suc: "finite K \<Longrightarrow> m \<in> K \<Longrightarrow> run_end (Suc m) K = run_end m K"
proof -
  assume K: "finite K" "m \<in> K"
  have "(Suc m \<le> j \<and> j \<notin> K) = (m \<le> j \<and> j \<notin> K)" for j using K(2) by (cases "j = m") auto
  then show ?thesis by (simp add: run_end_def)
qed

text \<open>Releasing keeps a window well formed when all frames are within 63 of its start.\<close>

lemma win_release_ok:
  assumes "finite (dom (win_held w))" and "\<forall>k f. win_held w k = Some f \<longrightarrow> rm_seq_num f = sn k \<and> k \<le> m + 63"
    and "win_release m w = (v, w')"
  shows "win_ok w'"
proof -
  let ?s = "run_end m (dom (win_held w))"
  note r = win_release_cases [OF assms(3)] and b = run_end_bounds [OF assms(1), of m]
  have held: "win_held w' k = Some f \<Longrightarrow> win_held w k = Some f \<and> ?s \<le> k" for k f
    using assms(3) by (auto simp: win_release_def Let_def restrict_map_def split: if_splits)
  show ?thesis unfolding win_ok_def
  proof (intro conjI allI impI)
    show "finite (dom (win_held w'))" using assms(1) by (simp add: r(4))
    fix k f assume "win_held w' k = Some f"
    note k = held [OF this]
    with assms(2) show "rm_seq_num f = sn k" by blast
    from k have "k \<noteq> ?s" using b(2) by auto
    with k show "win_next w' < k" by (simp add: r(2))
    show "k \<le> win_next w' + 63" using assms(2) k b(1) by (fastforce simp: r(2))
  qed
qed

text \<open>The driver's release, on a window that represents \<open>w\<close> but for its start \<open>m\<close>.\<close>

lemma release_implements:
  assumes fin: "finite (dom (win_held w))" and ne: "dom (win_held w) \<noteq> {}"
    and num: "\<forall>k f. win_held w k = Some f \<longrightarrow> rm_seq_num f = sn k \<and> k \<le> m + 63 \<and> m \<le> k + 2047"
    and close: "\<forall>k \<in> dom (win_held w). \<forall>j \<in> dom (win_held w). j \<le> k + 2046"
    and c: "rc_list c = win_all w" "rc_ind_sn c = sn m" "rc_enable c" "rc_wsize_b c = 64"
    and r: "win_release m w = (v, w')"
  obtains fs where "v = Release fs"
    and "reord_rxframes_process False c = (win_all w' \<noteq> [], c\<lparr>rc_ind_sn := sn (win_next w')\<rparr>)"
    and "reord_rxframes_ind mem (c\<lparr>rc_ind_sn := sn (win_next w'), rc_timer := t\<rparr>) p =
      Option.bind (flush_loop mem fs p) (\<lambda>p. Some (win_store w' (c\<lparr>rc_timer := t\<rparr>), p))"
    and "implements (win_store w' (c\<lparr>rc_timer := t\<rparr>)) w'"
proof -
  let ?K = "dom (win_held w)" and ?g = "the \<circ> win_held w"
  note d = win_release_cases [OF r]
  have numb: "numbered ?g (sorted_list_of_set ?K)" using fin num by (auto simp: numbered_def)
  have near: "\<forall>k \<in> ?K. m \<le> k + 2047 \<and> k \<le> m + 2047" using num by fastforce
  have list: "rc_list c = map ?g (sorted_list_of_set ?K)" using c(1) by (simp add: win_all_def win_frames_def)
  note rel = release_numbered [OF fin numb ne near close list c(2)]
  have ok: "win_ok w'" using fin num by (intro win_release_ok [OF _ _ r]) auto
  have fin': "finite {k \<in> ?K. run_end m ?K \<le> k}" using fin by simp
  show ?thesis
  proof
    show "v = Release (win_frames w {k \<in> ?K. k < run_end m ?K})" by (rule d(1))
    show "reord_rxframes_process False c = (win_all w' \<noteq> [], c\<lparr>rc_ind_sn := sn (win_next w')\<rparr>)"
      using rel(1) fin' by (simp add: d(2,3))
    have same: "c\<lparr>rc_ind_sn := x, rc_timer := t\<rparr> = c\<lparr>rc_timer := t, rc_ind_sn := x, rc_list := rc_list c\<rparr>" for x
      by (cases c) simp
    show "reord_rxframes_ind mem (c\<lparr>rc_ind_sn := sn (win_next w'), rc_timer := t\<rparr>) p =
      Option.bind (flush_loop mem (win_frames w {k \<in> ?K. k < run_end m ?K}) p)
        (\<lambda>p. Some (win_store w' (c\<lparr>rc_timer := t\<rparr>), p))"
      using rel(2) [of mem "c\<lparr>rc_timer := t\<rparr>" p] by (simp add: same d(2,3) win_frames_def win_store_def)
    show "implements (win_store w' (c\<lparr>rc_timer := t\<rparr>)) w'"
      using ok c(3,4) by (simp add: implements_def win_store_def)
  qed
qed


text \<open>The timer of a window after a frame: it runs exactly when frames are held.\<close>

definition win_timer :: "(nat \<Rightarrow> u32) \<Rightarrow> u32 \<Rightarrow> recv_msdu window \<Rightarrow> u32 option \<Rightarrow> u32 option" where
  "win_timer jf now w t =
     (if win_all w = [] then None
      else case t of None \<Rightarrow> Some (now + jf REORDER_UPDATE_TIME) | _ \<Rightarrow> t)"

lemma sorted_list_insort: "finite K \<Longrightarrow> n \<notin> K \<Longrightarrow> insort n (sorted_list_of_set K) = sorted_list_of_set (insert n K)"
  by simp

lemma unit_late:
  assumes "implements c w" and "near (win_next w) n" and "rm_seq_num f = sn n" and "n < win_next w"
  shows "reord_unit jf now mem skb f c p = Option.bind (reord_late mem c skb f p) (\<lambda>p. Some (c, p))"
  using assms need_check_sn [of c "win_next w" n] by (simp add: reord_unit_def implements_def)

lemma near_held:
  assumes "win_ok w" and "near (win_next w) n" and "win_next w \<le> n" and "k \<in> dom (win_held w)"
  shows "near n k \<and> near k n"
  using assms by (fastforce simp: win_ok_def near_def)

lemma enqueue_held:
  assumes "win_ok w" and "near (win_next w) n" and "rm_seq_num f = sn n" and "win_next w \<le> n"
  shows "enqueue_loop f (win_all w) =
    (if n \<in> dom (win_held w) then None else Some (win_all (w\<lparr>win_held := (win_held w)(n \<mapsto> f)\<rparr>)))"
proof -
  let ?K = "dom (win_held w)"
  have fin: "finite ?K" using assms(1) by (simp add: win_ok_def)
  have "map ((the \<circ> win_held w)(n := f)) (sorted_list_of_set (insert n ?K)) =
      map (the \<circ> (win_held w)(n \<mapsto> f)) (sorted_list_of_set (insert n ?K))"
    by (rule map_cong) auto
  moreover have "win_frames w ?K = map (the \<circ> win_held w) (sorted_list_of_set ?K)" by (simp add: win_frames_def)
  ultimately show ?thesis
    using enqueue_numbered [OF numbered_held [OF assms(1)], of n f] near_held [OF assms(1,2,4)] assms(3) fin
    by (simp add: win_all_def win_frames_def)
qed

lemma unit_duplicate:
  assumes "implements c w" and "near (win_next w) n" and "rm_seq_num f = sn n" and "n \<in> dom (win_held w)"
  shows "reord_unit jf now mem skb f c p = Some (c, reord_drop f p)"
proof -
  have w: "win_ok w" and n: "win_next w < n" "n \<le> win_next w + 63" using assms(1,4) by (auto simp: implements_def win_ok_def)
  then have "win_low (win_next w) n = win_next w" by (auto simp: win_low_def)
  moreover have "c\<lparr>rc_ind_sn := rc_ind_sn c\<rparr> = c" by simp
  ultimately have "reord_need_check (sn n) c = (0, c)"
    using need_check_sn [of c "win_next w" n] assms(1,2) n by (simp add: implements_def)
  moreover have "enqueue_loop f (rc_list c) = None"
    using enqueue_held [OF w assms(2,3)] n assms(1,4) by (simp add: implements_def)
  ultimately show ?thesis using assms(1,3) by (simp add: reord_unit_def implements_def reord_rxframe_enqueue_def)
qed

lemma unit_release:
  assumes impl: "implements c w" and near: "near (win_next w) n" and f: "rm_seq_num f = sn n"
    and n: "win_next w \<le> n" "n \<notin> dom (win_held w)" and r: "win_rx n f w = (v, w')"
  obtains fs where "v = Release fs"
    and "reord_unit jf now mem skb f c p = Option.bind (flush_loop mem fs p)
      (\<lambda>p. Some (win_store w' (c\<lparr>rc_timer := win_timer jf now w' (rc_timer c)\<rparr>), p))"
    and "implements (win_store w' (c\<lparr>rc_timer := win_timer jf now w' (rc_timer c)\<rparr>)) w'"
proof -
  let ?w = "w\<lparr>win_held := (win_held w)(n \<mapsto> f)\<rparr>" and ?low = "win_low (win_next w) n"
  let ?c = "c\<lparr>rc_ind_sn := sn ?low, rc_list := win_all ?w\<rparr>"
  have w: "win_ok w" and c: "rc_enable c" "rc_wsize_b c = 64" "rc_list c = win_all w" "rc_ind_sn c = sn (win_next w)"
    using impl by (simp_all add: implements_def)
  have check: "reord_need_check (sn n) c = (0, c\<lparr>rc_ind_sn := sn ?low\<rparr>)"
    using need_check_sn [OF c(4,2) near] n by simp
  have enq: "reord_rxframe_enqueue f (c\<lparr>rc_ind_sn := sn ?low\<rparr>) = (0, ?c)"
    using enqueue_held [OF w near f n(1)] n c(3) by (simp add: reord_rxframe_enqueue_def)
  have fin: "finite (dom (win_held ?w))" using w by (simp add: win_ok_def)
  have num: "\<forall>k g. win_held ?w k = Some g \<longrightarrow> rm_seq_num g = sn k \<and> k \<le> ?low + 63 \<and> ?low \<le> k + 2047"
    using w near f n by (fastforce simp: win_ok_def near_def win_low_def split: if_splits)
  have close: "\<forall>k \<in> dom (win_held ?w). \<forall>j \<in> dom (win_held ?w). j \<le> k + 2046"
  proof (intro ballI)
    fix k j assume "k \<in> dom (win_held ?w)" and "j \<in> dom (win_held ?w)"
    then have k: "k = n \<or> win_next w < k" and j: "j = n \<or> j \<le> win_next w + 63"
      using w by (auto simp: win_ok_def split: if_splits)
    then consider "k = j" | "k = n" "j \<le> win_next w + 63" | "win_next w < k" "j = n" | "win_next w < k" "j \<le> win_next w + 63"
      by blast
    then show "j \<le> k + 2046" using near n by cases (auto simp: near_def)
  qed
  have "win_rx n f w = win_release ?low ?w"
  proof (cases "n = win_next w")
    case True
    then have "max (win_next w) (n - 63) = n" by simp
    moreover have "run_end (Suc n) (dom (win_held ?w)) = run_end n (dom (win_held ?w))"
      using fin by (intro run_end_Suc) auto
    ultimately show ?thesis using True n by (simp add: win_rx_def win_low_def win_release_def)
  qed (use n in \<open>simp add: win_rx_def win_low_def\<close>)
  with r have r': "win_release ?low ?w = (v, w')" by simp
  have ne: "dom (win_held ?w) \<noteq> {}" by simp
  have base: "rc_list ?c = win_all ?w" "rc_ind_sn ?c = sn ?low" "rc_enable ?c" "rc_wsize_b ?c = 64" using c by simp_all
  let ?t = "win_timer jf now w' (rc_timer c)"
  show ?thesis
  proof (rule release_implements [OF fin ne num close base r', of mem ?t p])
    fix fs
    assume v: "v = Release fs"
      and proc: "reord_rxframes_process False ?c = (win_all w' \<noteq> [], ?c\<lparr>rc_ind_sn := sn (win_next w')\<rparr>)"
      and ind: "reord_rxframes_ind mem (?c\<lparr>rc_ind_sn := sn (win_next w'), rc_timer := ?t\<rparr>) p =
        Option.bind (flush_loop mem fs p) (\<lambda>p. Some (win_store w' (?c\<lparr>rc_timer := ?t\<rparr>), p))"
      and impl': "implements (win_store w' (?c\<lparr>rc_timer := ?t\<rparr>)) w'"
    have arm: "reord_arm jf now (win_all w' \<noteq> []) (?c\<lparr>rc_ind_sn := sn (win_next w')\<rparr>) =
        ?c\<lparr>rc_ind_sn := sn (win_next w'), rc_timer := ?t\<rparr>"
      by (simp add: reord_arm_def win_timer_def split: option.split)
    have store: "win_store w' (?c\<lparr>rc_timer := ?t\<rparr>) = win_store w' (c\<lparr>rc_timer := ?t\<rparr>)" by (simp add: win_store_def)
    show ?thesis
    proof (rule that [of fs])
      show "reord_unit jf now mem skb f c p = Option.bind (flush_loop mem fs p)
          (\<lambda>p. Some (win_store w' (c\<lparr>rc_timer := ?t\<rparr>), p))"
        using c(1) f check enq proc ind arm store by (simp add: reord_unit_def Let_def)
    qed (use v impl' store in simp_all)
  qed
qed


text \<open>A window that has not seen a frame takes the number of the first one.\<close>

lemma unit_fresh:
  assumes "rc_enable c" and "rc_ind_sn c = 0xFFFF" and "rm_seq_num f = sn n"
  shows "reord_unit jf now mem skb f c p = reord_unit jf now mem skb f (c\<lparr>rc_ind_sn := sn n\<rparr>) p"
  using assms by (simp add: reord_unit_def reord_need_check_def Let_def SN_LESS_def SN_EQUAL_def)

lemma implements_fresh:
  assumes "rc_enable c" and "rc_wsize_b c = 64" and "rc_list c = []"
  shows "implements (c\<lparr>rc_ind_sn := sn n\<rparr>) \<lparr>win_next = n, win_held = Map.empty\<rparr>"
  using assms by (simp add: implements_def win_ok_def win_all_def win_frames_def)

text \<open>The worker of the timer: the first gap is given up.\<close>

lemma worker_release:
  assumes impl: "implements c w" and r: "win_timeout w = (v, w')"
  obtains fs where "v = Release fs"
    and "reord_timeout_worker jf now mem c p = Option.bind (flush_loop mem fs p)
      (\<lambda>p. Some (win_store w' (c\<lparr>rc_timer := (if win_all w' = [] then rc_timer c else Some (now + jf REORDER_UPDATE_TIME)),
                                  rc_work := False\<rparr>), p))"
    and "win_ok w'" and "win_all w \<noteq> [] \<Longrightarrow> fs \<noteq> [] \<and> hd fs = hd (win_all w)"
proof (cases "dom (win_held w) = {}")
  case True
  have w': "v = Release []" "w' = w" using r True by (simp_all add: win_timeout_def)
  have c: "rc_list c = []" "rc_ind_sn c = sn (win_next w)" "win_all w = []" using impl True by (simp_all add: implements_def win_all_def win_frames_def)
  have "c\<lparr>rc_work := False\<rparr> = win_store w (c\<lparr>rc_timer := rc_timer c, rc_work := False\<rparr>)"
    using c by (cases c) (simp add: win_store_def)
  then have "reord_timeout_worker jf now mem c p = Some (win_store w (c\<lparr>rc_timer := rc_timer c, rc_work := False\<rparr>), p)"
    using c by (simp add: reord_timeout_worker_def reord_rxframes_process_def reord_rxframes_ind_def)
  then show ?thesis using impl c w' by (intro that [of "[]"]) (simp_all add: implements_def)
next
  case False
  let ?K = "dom (win_held w)" and ?m = "Min (dom (win_held w))"
  let ?c = "c\<lparr>rc_ind_sn := sn ?m, rc_work := False\<rparr>"
  have w: "win_ok w" and c: "rc_enable c" "rc_wsize_b c = 64" "rc_list c = win_all w" using impl by (simp_all add: implements_def)
  then have fin: "finite ?K" by (simp add: win_ok_def)
  have m: "?m \<in> ?K" "\<And>k. k \<in> ?K \<Longrightarrow> ?m \<le> k" using fin False by auto
  have num: "\<forall>k g. win_held w k = Some g \<longrightarrow> rm_seq_num g = sn k \<and> k \<le> ?m + 63 \<and> ?m \<le> k + 2047"
  proof (intro allI impI)
    fix k g assume k: "win_held w k = Some g"
    then have "?m \<le> k" using m(2) by blast
    moreover have "win_next w < ?m" using w m(1) by (auto simp: win_ok_def)
    ultimately show "rm_seq_num g = sn k \<and> k \<le> ?m + 63 \<and> ?m \<le> k + 2047" using w k by (fastforce simp: win_ok_def)
  qed
  have close: "\<forall>k \<in> ?K. \<forall>j \<in> ?K. j \<le> k + 2046"
  proof (intro ballI)
    fix k j assume "k \<in> ?K" and "j \<in> ?K"
    then have "win_next w < k" and "j \<le> win_next w + 63" using w by (auto simp: win_ok_def)
    then show "j \<le> k + 2046" by simp
  qed
  have r': "win_release ?m w = (v, w')" using r False by (simp add: win_timeout_def)
  have base: "rc_list ?c = win_all w" "rc_ind_sn ?c = sn ?m" "rc_enable ?c" "rc_wsize_b ?c = 64" using c by simp_all
  obtain ks where ks: "sorted_list_of_set ?K = ?m # ks"
    using fin False sorted_list_of_set_nonempty by blast
  have hd: "rc_list c \<noteq> []" "rm_seq_num (hd (rc_list c)) = sn ?m" "hd (win_all w) = the (win_held w ?m)"
    using c(3) ks num m(1) by (auto simp: win_all_def win_frames_def)
  let ?t = "if win_all w' = [] then rc_timer c else Some (now + jf REORDER_UPDATE_TIME)"
  show ?thesis
  proof (rule release_implements [OF fin False num close base r', of mem ?t p])
    fix fs
    assume v: "v = Release fs"
      and proc: "reord_rxframes_process False ?c = (win_all w' \<noteq> [], ?c\<lparr>rc_ind_sn := sn (win_next w')\<rparr>)"
      and ind: "reord_rxframes_ind mem (?c\<lparr>rc_ind_sn := sn (win_next w'), rc_timer := ?t\<rparr>) p =
        Option.bind (flush_loop mem fs p) (\<lambda>p. Some (win_store w' (?c\<lparr>rc_timer := ?t\<rparr>), p))"
      and impl': "implements (win_store w' (?c\<lparr>rc_timer := ?t\<rparr>)) w'"
    have "reord_rxframes_process True (c\<lparr>rc_work := False\<rparr>) = reord_rxframes_process False ?c"
      using hd(1,2) by (cases "rc_list c") (simp_all add: reord_rxframes_process_def)
    with proc have forced: "reord_rxframes_process True (c\<lparr>rc_work := False\<rparr>) =
        (win_all w' \<noteq> [], ?c\<lparr>rc_ind_sn := sn (win_next w')\<rparr>)" by simp
    have arm: "(if win_all w' \<noteq> [] then ?c\<lparr>rc_ind_sn := sn (win_next w'), rc_timer := Some (now + jf REORDER_UPDATE_TIME)\<rparr>
        else ?c\<lparr>rc_ind_sn := sn (win_next w')\<rparr>) = ?c\<lparr>rc_ind_sn := sn (win_next w'), rc_timer := ?t\<rparr>"
      by (cases c) simp
    have store: "win_store w' (?c\<lparr>rc_timer := ?t\<rparr>) = win_store w' (c\<lparr>rc_timer := ?t, rc_work := False\<rparr>)" by (simp add: win_store_def)
    have "run_end ?m ?K \<noteq> ?m" using run_end_bounds(2) [OF fin, of ?m] m(1) by metis
    then have "?m \<in> {k \<in> ?K. k < run_end ?m ?K}" using run_end_bounds(1) [OF fin, of ?m] m(1) by simp
    moreover have "sorted_list_of_set {k \<in> ?K. k < run_end ?m ?K} = filter (\<lambda>k. k < run_end ?m ?K) (?m # ks)"
      using ks fin by (simp add: filter_sorted_list_of_set [symmetric])
    ultimately have first: "fs \<noteq> [] \<and> hd fs = hd (win_all w)"
      using v win_release_cases(1) [OF r'] hd(3) by (auto simp: win_frames_def)
    show ?thesis
    proof (rule that [of fs])
      show "reord_timeout_worker jf now mem c p = Option.bind (flush_loop mem fs p)
          (\<lambda>p. Some (win_store w' (c\<lparr>rc_timer := ?t, rc_work := False\<rparr>), p))"
        unfolding reord_timeout_worker_def Let_def forced prod.case arm ind store ..
      show "win_ok w'" using impl' by (simp add: implements_def)
    qed (use v first in simp_all)
  qed
qed

end
