(* ===== verification/Aic_Reorder_Order.thy ===== *)
theory Aic_Reorder_Order
  imports Aic_Reorder_Window
begin

text \<open>
  Frames that arrive out of order by less than a window, none lost: what the abstract receiver
  releases, and what \<open>reord_process_unit\<close> hands up.
\<close>

section \<open>The abstract receiver\<close>

text \<open>Numbers that arrive after the set \<open>A\<close>: new, and none more than 63 ahead of a missing one.\<close>

fun arrives :: "nat \<Rightarrow> nat set \<Rightarrow> nat list \<Rightarrow> bool" where
  "arrives s A [] = True"
| "arrives s A (n # ns) \<longleftrightarrow> s \<le> n \<and> n \<notin> A \<and> (\<forall>k \<in> {s..<n - 63}. k \<in> A) \<and> arrives s (insert n A) ns"

definition caught_up :: "nat \<Rightarrow> nat set \<Rightarrow> 'f window \<Rightarrow> bool" where
  "caught_up s A w \<longleftrightarrow> win_next w = run_end s A \<and> dom (win_held w) = {k \<in> A. win_next w < k}"

lemma run_end_from:
  assumes "finite A" and "s \<le> m" and "{s..<m} \<subseteq> A" and "\<And>k. m \<le> k \<Longrightarrow> k \<in> B \<longleftrightarrow> k \<in> A"
  shows "run_end m B = run_end s A"
proof -
  have "(m \<le> j \<and> j \<notin> B) = (s \<le> j \<and> j \<notin> A)" for j using assms(2-4) by (cases "m \<le> j") auto
  then show ?thesis by (simp add: run_end_def)
qed

lemma caught_up_step:
  assumes fin: "finite A" and w: "caught_up s A w" and A: "\<forall>k \<in> A. s \<le> k"
    and n: "s \<le> n" "n \<notin> A" "\<forall>k \<in> {s..<n - 63}. k \<in> A" and r: "win_rx n f w = (v, w')"
  shows "v = Release (map (the \<circ> (win_held w)(n \<mapsto> f)) [run_end s A..<run_end s (insert n A)])"
    and "caught_up s (insert n A) w'" and "win_next w \<le> n" and "n \<le> win_next w + 63" and "n \<notin> dom (win_held w)"
    and "win_held w' = (win_held w)(n \<mapsto> f) |` {run_end s (insert n A)..}"
proof -
  let ?m = "run_end s A" and ?w = "w\<lparr>win_held := (win_held w)(n \<mapsto> f)\<rparr>"
  let ?s = "run_end s (insert n A)" and ?K = "dom (win_held ?w)"
  note b = run_end_bounds [OF fin, of s]
  have nxt: "win_next w = ?m" and dom: "dom (win_held w) = {k \<in> A. ?m < k}" using w by (simp_all add: caught_up_def)
  have le: "?m \<le> n" using b(3) [of n] n by (meson leI)
  then show "win_next w \<le> n" by (simp add: nxt)
  have low: "n - 63 \<le> ?m"
  proof (rule ccontr)
    assume "\<not> n - 63 \<le> ?m"
    with n(3) b(1) have "?m \<in> A" by simp
    with b(2) show False by simp
  qed
  then show "n \<le> win_next w + 63" by (simp add: nxt)
  show new: "n \<notin> dom (win_held w)" using n(2) by (simp add: dom)
  have fin': "finite (insert n A)" using fin by simp
  have K: "?K = insert n {k \<in> A. ?m < k}" using dom by simp
  have "k \<in> ?K \<longleftrightarrow> k \<in> insert n A" if "?m \<le> k" for k using that b(2) unfolding K by (cases "k = ?m") auto
  moreover have "{s..<?m} \<subseteq> insert n A" using b(3) by auto
  ultimately have stop: "run_end ?m ?K = ?s" using run_end_from [OF fin' b(1)] by blast
  have rel: "win_release ?m ?w = (v, w')" using r le low new by (simp add: win_rx_def nxt max_absorb1)
  note d = win_release_cases [OF rel, unfolded stop]
  have finK: "finite ?K" unfolding K using fin by simp
  have interval: "(\<And>k. k \<in> X \<Longrightarrow> a \<le> k) \<Longrightarrow> (\<And>k. a \<le> k \<Longrightarrow> k < c \<Longrightarrow> k \<in> X) \<Longrightarrow> {k \<in> X. k < c} = {a..<c}"
    for X and a c :: nat by auto
  have "?m \<le> k" if "k \<in> ?K" for k using that le unfolding K by auto
  then have "{k \<in> ?K. k < ?s} = {?m..<?s}"
    using run_end_bounds(3) [OF finK, of ?m] unfolding stop by (rule interval)
  with d(1) show "v = Release (map (the \<circ> (win_held w)(n \<mapsto> f)) [?m..<?s])" by (simp add: win_frames_def)
  have mono: "?m \<le> ?s" using run_end_bounds(1) [OF finK, of ?m] unfolding stop .
  have "?s \<notin> insert n A" using run_end_bounds(2) [OF fin', of s] .
  then have "{k \<in> ?K. ?s \<le> k} = {k \<in> insert n A. ?s < k}" using mono unfolding K by (auto simp: le_less)
  with d show "caught_up s (insert n A) w'" by (simp add: caught_up_def)
  show "win_held w' = (win_held w)(n \<mapsto> f) |` {?s..}"
    using rel unfolding win_release_def Let_def stop by auto
qed

lemma run_end_complete: "run_end s {s..<s + l} = s + l"
  unfolding run_end_def by (rule Least_equality) auto

section \<open>The driver\<close>

text \<open>A descriptor of a frame that is to be handed up as it is.\<close>

definition plain :: "recv_msdu \<Rightarrow> bool" where
  "plain f \<longleftrightarrow> rm_forward f \<and> \<not> rm_is_amsdu f \<and> rm_pkt f \<noteq> None"

lemma single_plain:
  assumes "plain f" and "rp_vif p = Some v"
  shows "reord_single_frame_ind mem f p =
    Option.bind (rx_indicate v (the (rm_pkt f)) (rp_net p))
      (\<lambda>n. Some (p\<lparr>rp_net := n, rp_free := rm_slot f # rp_free p\<rparr>))"
  using assms by (cases "rx_indicate v (the (rm_pkt f)) (rp_net p)")
    (auto simp: plain_def reord_single_frame_ind_def rx_list_def reord_rxframe_free_def)

lemma flush_plain:
  assumes "\<forall>f \<in> set fs. plain f" and "rp_vif p = Some v"
  shows "flush_loop mem fs p =
    Option.bind (rx_indicate_all v (map (the \<circ> rm_pkt) fs) (rp_net p))
      (\<lambda>n. Some (p\<lparr>rp_net := n, rp_free := rev (map rm_slot fs) @ rp_free p\<rparr>))"
  using assms
proof (induction fs arbitrary: p)
  case (Cons f fs)
  then have f: "plain f" by simp
  show ?case
  proof (cases "rx_indicate v (the (rm_pkt f)) (rp_net p)")
    case (Some n)
    then show ?thesis using Cons.IH [of "p\<lparr>rp_net := n, rp_free := rm_slot f # rp_free p\<rparr>"] Cons.prems
        single_plain [OF f Cons.prems(2), of mem] by (simp add: comp_def)
  qed (use single_plain [OF f Cons.prems(2), of mem] in simp)
qed simp

lemma rx_indicate_vif:
  assumes "rx_indicate v skb n = Some n'" and "vif_at v n = Some vif"
  shows "\<exists>vif'. vif_at v n' = Some vif' \<and> vif_iftype vif' = vif_iftype vif"
proof -
  have arp: "rn_vifs n2 = rn_vifs n1" if "arpoffload_proc pr ip v n1 = Some n2" for pr ip n1 n2
    using that by (auto simp: arpoffload_proc_def bind_eq_Some_conv split: if_splits option.splits)
  have v: "v < length (rn_vifs n)" using assms(2) by (auto simp: vif_at_def c_get_def split: if_splits)
  have "rn_vifs n' = rn_vifs (vif_count v skb vif n)"
    using assms by (auto simp: rx_indicate_def Let_def bind_eq_Some_conv rx_emit_def split: if_splits dest: arp)
  with v show ?thesis by (simp add: vif_at_def vif_count_def c_get_def)
qed

lemma rx_indicate_all_append:
  "rx_indicate_all v (xs @ ys) n = Option.bind (rx_indicate_all v xs n) (rx_indicate_all v ys)"
proof (induction xs arbitrary: n)
  case (Cons x xs)
  then show ?case by (cases "rx_indicate v x n") simp_all
qed simp

lemma rx_indicate_all_vif:
  "rx_indicate_all v skbs n = Some n' \<Longrightarrow> vif_at v n = Some vif \<Longrightarrow>
   \<exists>vif'. vif_at v n' = Some vif' \<and> vif_iftype vif' = vif_iftype vif"
proof (induction skbs arbitrary: n vif)
  case (Cons skb skbs)
  then obtain n1 where n1: "rx_indicate v skb n = Some n1" "rx_indicate_all v skbs n1 = Some n'"
    by (auto simp: bind_eq_Some_conv)
  from rx_indicate_vif [OF n1(1) Cons.prems(2)] Cons.IH [OF n1(2)] show ?case by force
qed simp


section \<open>A frame of a known station\<close>

text \<open>
  The state in which window \<open>tid\<close> of station \<open>s\<close>, with address \<open>mac\<close>, is that of the frames that
  come on interface \<open>v\<close>.
\<close>

definition station_at :: "nat \<Rightarrow> bytes \<Rightarrow> nat \<Rightarrow> u8 \<Rightarrow> aicwf_rx_priv \<Rightarrow> bool" where
  "station_at v mac s tid p \<longleftrightarrow> rp_vif p = Some v \<and> sta_index mac (rp_stas p) = Some s \<and> s < length (rp_stas p) \<and>
     unat tid < length (ri_ctrl (rp_stas p ! s)) \<and>
     (\<exists>vif. vif_at v (rp_net p) = Some vif \<and> is_client (vif_iftype vif))"

text \<open>A frame for the station: long enough, no EAPOL, with the receiver's address in front.\<close>

definition frame_to :: "bytes \<Rightarrow> sk_buff \<Rightarrow> bool" where
  "frame_to mac skb \<longleftrightarrow> skb_len skb > 14 \<and> take 6 (skb_data skb) = mac \<and>
     get_be16 (take 2 (drop 12 (skb_data skb))) \<noteq> ETH_P_PAE"

definition descriptor :: "nat \<Rightarrow> sk_buff \<Rightarrow> u8 \<Rightarrow> u16 \<Rightarrow> recv_msdu" where
  "descriptor slot skb tid seq_num =
     \<lparr>rm_slot = slot, rm_pkt = Some skb, rm_tid = tid, rm_seq_num = seq_num, rm_forward = True, rm_is_amsdu = False\<rparr>"

lemma descriptor_simps [simp]:
  "rm_slot (descriptor a skb tid q) = a" "rm_pkt (descriptor a skb tid q) = Some skb"
  "rm_seq_num (descriptor a skb tid q) = q" "plain (descriptor a skb tid q)"
  by (simp_all add: descriptor_def plain_def)

lemma frame_to_reads:
  assumes "frame_to mac skb"
  shows "c_read (skb_mem skb) 12 2 = Some (take 2 (drop 12 (skb_data skb)))"
    and "c_read (skb_mem skb) 0 MAC_ADDR_LEN = Some mac"
  using assms by (auto simp: frame_to_def c_read_def skb_mem_def skb_len_def MAC_ADDR_LEN_def)

lemma process_unit_known:
  assumes st: "station_at v mac s tid p" and fr: "frame_to mac skb" and free: "rp_free p = slot # q"
    and c: "ctrl_at s tid p = Some c"
  shows "reord_process_unit jf now mem ok skb seq tid True False p =
    Option.bind (reord_unit jf now mem skb (descriptor slot skb tid seq) (reord_reenable c) (p\<lparr>rp_free := q\<rparr>))
      (\<lambda>(c, p). Some (0, ctrl_put s tid c p))"
proof -
  obtain vif where v: "rp_vif p = Some v" "sta_index mac (rp_stas p) = Some s"
      "vif_at v (rp_net p) = Some vif" "is_client (vif_iftype vif)"
    using st by (auto simp: station_at_def)
  have at: "ctrl_at s tid (p\<lparr>rp_free := q\<rparr>) = Some c" using c by (simp add: ctrl_at_def)
  have len: "\<not> skb_len skb \<le> 14" and pae: "get_be16 (take 2 (drop 12 (skb_data skb))) \<noteq> ETH_P_PAE"
    using fr by (simp_all add: frame_to_def)
  show ?thesis
    using v len pae free at frame_to_reads [OF fr]
    by (simp add: reord_process_unit_def reord_station_def reord_rxframe_alloc_def reord_mac_def descriptor_def)
qed

lemma ctrl_put_at:
  assumes "station_at v mac s tid p"
  shows "ctrl_at s tid (ctrl_put s tid c p) = Some c" and "rp_free (ctrl_put s tid c p) = rp_free p"
    and "rp_net (ctrl_put s tid c p) = rp_net p" and "rp_vif (ctrl_put s tid c p) = rp_vif p"
    and "sta_index mac (rp_stas (ctrl_put s tid c p)) = sta_index mac (rp_stas p)"
    and "station_at v mac s tid (ctrl_put s tid c p)"
proof -
  have len: "s < length (rp_stas p)" "unat tid < length (ri_ctrl (rp_stas p ! s))" using assms by (simp_all add: station_at_def)
  have index: "sta_index mac (ss[i := (ss ! i)\<lparr>ri_ctrl := x\<rparr>]) = sta_index mac ss" for ss i x
    by (induction ss arbitrary: i) (auto split: nat.split)
  show "ctrl_at s tid (ctrl_put s tid c p) = Some c" using len by (simp add: ctrl_at_def ctrl_put_def c_get_def)
  show "sta_index mac (rp_stas (ctrl_put s tid c p)) = sta_index mac (rp_stas p)" by (simp add: ctrl_put_def index)
  then show "station_at v mac s tid (ctrl_put s tid c p)" using assms len by (simp add: station_at_def ctrl_put_def)
qed (simp_all add: ctrl_put_def)


section \<open>A run of frames\<close>

text \<open>Frames given to \<open>reord_process_unit\<close>, each with the clock and its unbounded number.\<close>

fun receive_all ::
  "(nat \<Rightarrow> u32) \<Rightarrow> (sk_buff \<Rightarrow> nat) \<Rightarrow> u8 \<Rightarrow> (u32 \<times> nat \<times> sk_buff) list \<Rightarrow> aicwf_rx_priv \<Rightarrow> aicwf_rx_priv option" where
  "receive_all jf mem tid [] p = Some p"
| "receive_all jf mem tid ((now, n, skb) # xs) p =
     Option.bind (reord_process_unit jf now mem True skb (sn n) tid True False p)
       (\<lambda>(_, p). receive_all jf mem tid xs p)"

text \<open>
  The state after the numbers \<open>A\<close>, from \<open>s0\<close> on: what is before the first missing one has been handed
  up, in order, the rest is held; \<open>pk\<close> are the frames, \<open>n0\<close> the network and \<open>l0\<close> the free descriptors at
  the start.
\<close>

definition in_order ::
  "nat \<Rightarrow> bytes \<Rightarrow> nat \<Rightarrow> u8 \<Rightarrow> nat \<Rightarrow> (nat \<Rightarrow> sk_buff) \<Rightarrow> rx_net \<Rightarrow> nat \<Rightarrow> nat set \<Rightarrow> reord_ctrl \<Rightarrow> aicwf_rx_priv \<Rightarrow> bool" where
  "in_order v mac s tid s0 pk n0 l0 A c p \<longleftrightarrow> station_at v mac s tid p \<and>
     rx_indicate_all v (map pk [s0..<run_end s0 A]) n0 = Some (rp_net p) \<and>
     (\<exists>w. implements c w \<and> caught_up s0 A w \<and> (rc_timer c = None \<longleftrightarrow> win_all w = []) \<and>
        (\<forall>k f. win_held w k = Some f \<longrightarrow> plain f \<and> rm_pkt f = Some (pk k)) \<and>
        length (rp_free p) + card (dom (win_held w)) = l0)"

lemma in_order_step:
  assumes inv: "in_order v mac s tid s0 pk n0 l0 A c0 p" and fin: "finite A" and A: "\<forall>k \<in> A. s0 \<le> k" and l0: "64 \<le> l0"
    and n: "s0 \<le> n" "n \<notin> A" "\<forall>k \<in> {s0..<n - 63}. k \<in> A" and fr: "frame_to mac (pk n)"
    and c: "ctrl_at s tid p = Some c"
    and same: "\<And>f p. rm_seq_num f = sn n \<Longrightarrow> reord_unit jf now mem (pk n) f (reord_reenable c) p = reord_unit jf now mem (pk n) f c0 p"
    and ok: "rx_indicate_all v (map pk [s0..<run_end s0 (insert n A)]) n0 = Some n1"
  shows "\<exists>c' p'. reord_process_unit jf now mem True (pk n) (sn n) tid True False p = Some (0, p') \<and>
    ctrl_at s tid p' = Some c' \<and> in_order v mac s tid s0 pk n0 l0 (insert n A) c' p' \<and> rc_enable c'"
proof -
  obtain w where st: "station_at v mac s tid p" and net: "rx_indicate_all v (map pk [s0..<run_end s0 A]) n0 = Some (rp_net p)"
    and w: "implements c0 w" "caught_up s0 A w" "rc_timer c0 = None \<longleftrightarrow> win_all w = []"
    and held: "\<forall>k f. win_held w k = Some f \<longrightarrow> plain f \<and> rm_pkt f = Some (pk k)"
    and len: "length (rp_free p) + card (dom (win_held w)) = l0"
    using inv by (auto simp: in_order_def)
  have dom: "finite (dom (win_held w))" "dom (win_held w) \<subseteq> {win_next w<..win_next w + 63}"
    using w(1) by (auto simp: implements_def win_ok_def)
  then have "card (dom (win_held w)) \<le> 63" using card_mono [OF _ dom(2)] by simp
  with len l0 obtain slot q where free: "rp_free p = slot # q" by (cases "rp_free p") auto
  define f where "f = descriptor slot (pk n) tid (sn n)"
  have f: "rm_seq_num f = sn n" "plain f" "rm_pkt f = Some (pk n)" "rm_slot f = slot" by (simp_all add: f_def)
  obtain v' w' where r: "win_rx n f w = (v', w')" by fastforce
  note step = caught_up_step [OF fin w(2) A n r]
  have near: "near (win_next w) n" using step(3,4) by (simp add: near_def)
  let ?c = "win_store w' (c0\<lparr>rc_timer := win_timer jf now w' (rc_timer c0)\<rparr>)"
  let ?fs = "map (the \<circ> (win_held w)(n \<mapsto> f)) [run_end s0 A..<run_end s0 (insert n A)]"
  have unit: "reord_unit jf now mem (pk n) f c0 (p\<lparr>rp_free := q\<rparr>) =
      Option.bind (flush_loop mem ?fs (p\<lparr>rp_free := q\<rparr>)) (\<lambda>p. Some (?c, p)) \<and> implements ?c w'"
  proof (rule unit_release [OF w(1) near f(1) step(3,5) r, of jf now mem "pk n" "p\<lparr>rp_free := q\<rparr>"])
    fix fs assume "v' = Release fs" and "implements ?c w'" and "reord_unit jf now mem (pk n) f c0 (p\<lparr>rp_free := q\<rparr>) =
      Option.bind (flush_loop mem fs (p\<lparr>rp_free := q\<rparr>)) (\<lambda>p. Some (?c, p))"
    with step(1) show ?thesis by simp
  qed
  have fin': "finite (insert n A)" using fin by simp
  have grow: "run_end s0 A \<le> run_end s0 (insert n A)"
    using run_end_bounds [OF fin', of s0] run_end_bounds(3) [OF fin, of s0] by (metis insertCI leI)
  have all: "\<exists>g. ((win_held w)(n \<mapsto> f)) k = Some g \<and> plain g \<and> rm_pkt g = Some (pk k)"
    if "run_end s0 A \<le> k" "k < run_end s0 (insert n A)" for k
  proof (cases "k = n")
    case False
    then have "k \<in> A" using that run_end_bounds(1) [OF fin, of s0] run_end_bounds(3) [OF fin', of s0 k] by auto
    then have "k \<in> dom (win_held w)" using that(1) run_end_bounds(2) [OF fin, of s0] w(2) by (auto simp: caught_up_def le_less)
    with False held show ?thesis by auto
  qed (use f in simp)
  have fs: "\<forall>g \<in> set ?fs. plain g" "map (the \<circ> rm_pkt) ?fs = map pk [run_end s0 A..<run_end s0 (insert n A)]"
    using all by (fastforce, fastforce)
  have upt: "[s0..<run_end s0 (insert n A)] = [s0..<run_end s0 A] @ [run_end s0 A..<run_end s0 (insert n A)]"
    using upt_add_eq_append [of s0 "run_end s0 A" "run_end s0 (insert n A) - run_end s0 A"]
      run_end_bounds(1) [OF fin, of s0] grow by simp
  have up: "rx_indicate_all v (map pk [run_end s0 A..<run_end s0 (insert n A)]) (rp_net p) = Some n1"
    using ok net by (simp add: upt rx_indicate_all_append)
  have vif: "rp_vif (p\<lparr>rp_free := q\<rparr>) = Some v" using st by (simp add: station_at_def)
  let ?p = "p\<lparr>rp_free := rev (map rm_slot ?fs) @ q, rp_net := n1\<rparr>"
  have flush: "flush_loop mem ?fs (p\<lparr>rp_free := q\<rparr>) = Some ?p"
    using flush_plain [OF fs(1) vif, of mem] up by (simp only: fs(2)) simp
  have run: "reord_process_unit jf now mem True (pk n) (sn n) tid True False p = Some (0, ctrl_put s tid ?c ?p)"
    using process_unit_known [OF st fr free c, of jf now mem True "sn n"] same [OF f(1)] unit flush by (simp add: f_def)
  have st': "station_at v mac s tid ?p"
    using st rx_indicate_all_vif [OF up] by (fastforce simp: station_at_def)
  note put = ctrl_put_at [OF st', of ?c]
  have held': "win_held w' k = Some g \<Longrightarrow> plain g \<and> rm_pkt g = Some (pk k)" for k g
    using step(6) held f by (auto simp: restrict_map_def split: if_splits)
  have "length (rp_free ?p) + card (dom (win_held w')) = l0"
  proof -
    have "dom ((win_held w)(n \<mapsto> f)) = dom (win_held w') \<union> {run_end s0 A..<run_end s0 (insert n A)}"
    proof (intro set_eqI iffI)
      fix k assume k: "k \<in> dom ((win_held w)(n \<mapsto> f))"
      then have "run_end s0 A \<le> k" using w(2) step(3) by (auto simp: caught_up_def split: if_splits)
      with k show "k \<in> dom (win_held w') \<union> {run_end s0 A..<run_end s0 (insert n A)}"
        unfolding step(6) by (auto simp: restrict_map_def)
    next
      fix k assume "k \<in> dom (win_held w') \<union> {run_end s0 A..<run_end s0 (insert n A)}"
      then show "k \<in> dom ((win_held w)(n \<mapsto> f))"
        using all [of k] unfolding step(6) by (auto simp: restrict_map_def split: if_splits)
    qed
    moreover have "dom (win_held w') \<inter> {run_end s0 A..<run_end s0 (insert n A)} = {}"
      unfolding step(6) by (auto simp: restrict_map_def split: if_splits)
    moreover have "finite (dom (win_held w'))" using step(2) fin by (simp add: caught_up_def)
    ultimately have "card (dom ((win_held w)(n \<mapsto> f))) = card (dom (win_held w')) + (run_end s0 (insert n A) - run_end s0 A)"
      by (simp only: card_Un_disjoint finite_atLeastLessThan card_atLeastLessThan)
    moreover have "card (dom ((win_held w)(n \<mapsto> f))) = Suc (card (dom (win_held w)))" using dom(1) step(5) by simp
    ultimately show ?thesis using len free by simp
  qed
  moreover have "rc_timer ?c = None \<longleftrightarrow> win_all w' = []"
    by (simp add: win_store_def win_timer_def split: option.split)
  ultimately have "in_order v mac s tid s0 pk n0 l0 (insert n A) ?c (ctrl_put s tid ?c ?p)"
    using put ok unit step(2) held' unfolding in_order_def by (intro conjI exI [of _ w']) auto
  moreover have "rc_enable ?c" using w(1) by (simp add: win_store_def implements_def)
  ultimately show ?thesis using run put(1) by blast
qed


lemma run_end_mono: "finite B \<Longrightarrow> A \<subseteq> B \<Longrightarrow> run_end s A \<le> run_end s B"
  using run_end_bounds(3) [of A s "run_end s B"] run_end_bounds(1,2) [of B s] finite_subset [of A B]
  by (meson leI subsetD)

lemma indicate_prefix:
  assumes "rx_indicate_all v (map pk [s..<b]) n0 \<noteq> None" and "s \<le> a" and "a \<le> b"
  obtains n1 where "rx_indicate_all v (map pk [s..<a]) n0 = Some n1"
proof -
  have "[s..<b] = [s..<a] @ [a..<b]" using upt_add_eq_append [of s a "b - a"] assms(2,3) by simp
  with assms(1) that show ?thesis by (cases "rx_indicate_all v (map pk [s..<a]) n0") (simp_all add: rx_indicate_all_append)
qed

lemma receive_in_order:
  assumes "in_order v mac s tid s0 pk n0 l0 A c p" and "finite A" and "\<forall>k \<in> A. s0 \<le> k" and "64 \<le> l0"
    and "ctrl_at s tid p = Some c" and "rc_enable c"
    and "arrives s0 A (map (fst \<circ> snd) xs)" and "\<forall>(now, n, skb) \<in> set xs. skb = pk n \<and> frame_to mac skb"
    and "rx_indicate_all v (map pk [s0..<run_end s0 (A \<union> set (map (fst \<circ> snd) xs))]) n0 \<noteq> None"
  shows "\<exists>c' p'. receive_all jf mem tid xs p = Some p' \<and> ctrl_at s tid p' = Some c' \<and>
    in_order v mac s tid s0 pk n0 l0 (A \<union> set (map (fst \<circ> snd) xs)) c' p'"
  using assms
proof (induction xs arbitrary: A c p)
  case (Cons x xs)
  obtain now n skb where x: "x = (now, n, skb)" by (cases x)
  have n: "s0 \<le> n" "n \<notin> A" "\<forall>k \<in> {s0..<n - 63}. k \<in> A" and rest: "arrives s0 (insert n A) (map (fst \<circ> snd) xs)"
    using Cons.prems(7) by (simp_all add: x comp_def)
  have skb: "skb = pk n" "frame_to mac (pk n)" and restf: "\<forall>(now, n, skb) \<in> set xs. skb = pk n \<and> frame_to mac skb"
    using Cons.prems(8) by (auto simp: x)
  have sets: "A \<union> set (map (fst \<circ> snd) (x # xs)) = insert n A \<union> set (map (fst \<circ> snd) xs)" by (simp add: x)
  let ?B = "insert n A \<union> set (map (fst \<circ> snd) xs)"
  have finB: "finite ?B" using Cons.prems(2) by simp
  have "s0 \<le> run_end s0 (insert n A)" "run_end s0 (insert n A) \<le> run_end s0 ?B"
    using run_end_bounds(1) [of "insert n A" s0] run_end_mono [OF finB, of "insert n A" s0] Cons.prems(2) by auto
  then obtain n1 where n1: "rx_indicate_all v (map pk [s0..<run_end s0 (insert n A)]) n0 = Some n1"
    using indicate_prefix [of v pk s0 "run_end s0 ?B" n0] Cons.prems(9) sets by metis
  have "reord_reenable c = c" using Cons.prems(6) by (simp add: reord_reenable_def)
  from in_order_step [OF Cons.prems(1-4) n skb(2) Cons.prems(5) _ n1, of jf now mem] this
  obtain c' p' where step: "reord_process_unit jf now mem True (pk n) (sn n) tid True False p = Some (0, p')"
    "ctrl_at s tid p' = Some c'" "in_order v mac s tid s0 pk n0 l0 (insert n A) c' p'" "rc_enable c'" by auto
  have "\<exists>c'' p''. receive_all jf mem tid xs p' = Some p'' \<and> ctrl_at s tid p'' = Some c'' \<and>
      in_order v mac s tid s0 pk n0 l0 ?B c'' p''"
    using Cons.prems(2,3,4,9) n(1) rest restf step(2-4) unfolding sets by (intro Cons.IH) (auto simp: comp_def)
  with step(1) sets show ?case by (auto simp: x skb(1))
qed auto

text \<open>A station that is met for the first time gets windows that have not seen a frame.\<close>

lemma process_unit_unknown:
  assumes "sta_index mac (rp_stas p) = None" and "rp_vif p = Some v" and "vif_at v (rp_net p) = Some vif"
    and "is_client (vif_iftype vif)" and "\<not> rp_bus_down p" and "frame_to mac skb" and "unat tid < 8"
  defines "info \<equiv> \<lparr>ri_mac = mac, ri_ctrl = replicate 8 reord_ctrl_new\<rparr>"
  shows "rp_free p \<noteq> [] \<Longrightarrow> reord_process_unit jf now mem True skb seq tid True False p =
      reord_process_unit jf now mem True skb seq tid True False (p\<lparr>rp_stas := rp_stas p @ [info]\<rparr>)"
    and "station_at v mac (length (rp_stas p)) tid (p\<lparr>rp_stas := rp_stas p @ [info]\<rparr>)"
    and "ctrl_at (length (rp_stas p)) tid (p\<lparr>rp_stas := rp_stas p @ [info]\<rparr>) = Some reord_ctrl_new"
proof -
  let ?p = "p\<lparr>rp_stas := rp_stas p @ [info]\<rparr>" and ?s = "length (rp_stas p)"
  have "sta_index mac (ss @ [info]) = Some (length ss)" if "sta_index mac ss = None" for ss
    using that by (induction ss) (auto simp: info_def split: if_splits)
  then have index: "sta_index mac (rp_stas ?p) = Some ?s" using assms(1) by simp
  show st: "station_at v mac ?s tid ?p" using assms index by (auto simp: station_at_def)
  show at: "ctrl_at ?s tid ?p = Some reord_ctrl_new" using assms(7) by (simp add: ctrl_at_def c_get_def info_def)
  show "reord_process_unit jf now mem True skb seq tid True False p =
      reord_process_unit jf now mem True skb seq tid True False ?p" if ne: "rp_free p \<noteq> []"
  proof -
    obtain slot q where free: "rp_free p = slot # q" using ne by (cases "rp_free p") auto
    have len: "\<not> skb_len skb \<le> 14" and pae: "get_be16 (take 2 (drop 12 (skb_data skb))) \<noteq> ETH_P_PAE"
      using assms(6) by (simp_all add: frame_to_def)
    have re: "reord_reenable reord_ctrl_new = reord_ctrl_new" by (simp add: reord_reenable_def reord_ctrl_new_def)
    have swap: "?p\<lparr>rp_free := q\<rparr> = p\<lparr>rp_free := q, rp_stas := rp_stas p @ [info]\<rparr>" by simp
    have "reord_process_unit jf now mem True skb seq tid True False p =
        Option.bind (reord_unit jf now mem skb (descriptor slot skb tid seq) reord_ctrl_new (?p\<lparr>rp_free := q\<rparr>))
          (\<lambda>(c, p). Some (0, ctrl_put ?s tid c p))"
      unfolding swap
      using assms(1-5,7) len pae free frame_to_reads [OF assms(6)]
      by (simp add: reord_process_unit_def reord_station_def reord_rxframe_alloc_def reord_mac_def descriptor_def reord_init_sta_def
          c_get_def info_def)
    also have "\<dots> = reord_process_unit jf now mem True skb seq tid True False ?p"
      using process_unit_known [OF st assms(6) _ at, of slot q jf now mem True seq] free re by simp
    finally show ?thesis .
  qed
qed

end
