(* ===== verification/Aic_Reorder_Reach.thy ===== *)
theory Aic_Reorder_Reach
  imports Aic_Reorder_Window "HOL-Library.Multiset"
begin

text \<open>
  The states the calls of the driver can reach: where the descriptors are, what the windows look
  like, and that held frames have a timer or a worker to come for them.
\<close>

section \<open>Descriptors\<close>

definition ctrl_slots :: "reord_ctrl \<Rightarrow> nat multiset" where
  "ctrl_slots c = image_mset rm_slot (mset (rc_list c))"

definition sta_slots :: "reord_ctrl_info \<Rightarrow> nat multiset" where
  "sta_slots i = sum_list (map ctrl_slots (ri_ctrl i))"

definition pool_slots :: "aicwf_rx_priv \<Rightarrow> nat multiset" where
  "pool_slots p = mset (rp_free p) + sum_list (map sta_slots (rp_stas p))"

lemma sum_list_put: "i < length xs \<Longrightarrow> sum_list (xs[i := x]) + xs ! i = sum_list xs + (x :: 'a :: comm_monoid_add)"
proof (induction xs arbitrary: i)
  case (Cons a xs)
  then show ?case by (cases i) (simp_all add: algebra_simps)
qed simp

lemma sta_slots_put:
  assumes "j < length (ri_ctrl i)"
  shows "sta_slots (i\<lparr>ri_ctrl := (ri_ctrl i)[j := c]\<rparr>) + ctrl_slots (ri_ctrl i ! j) = sta_slots i + ctrl_slots c"
  using sum_list_put [of j "map ctrl_slots (ri_ctrl i)" "ctrl_slots c"] assms by (simp add: sta_slots_def map_update)

lemma ctrl_at_Some:
  assumes "ctrl_at s tid p = Some c"
  shows "s < length (rp_stas p)" and "unat tid < length (ri_ctrl (rp_stas p ! s))"
    and "c = ri_ctrl (rp_stas p ! s) ! unat tid"
  using assms by (auto simp: ctrl_at_def c_get_def split: if_splits)

lemma multiset_exchange:
  assumes "a' + s = a + s'" and "s' + c = s + c'"
  shows "a' + c = a + (c' :: 'a multiset)"
proof (rule multiset_eqI)
  fix x
  have "count (a' + s) x = count (a + s') x" "count (s' + c) x = count (s + c') x" using assms by simp_all
  then show "count (a' + c) x = count (a + c') x" by simp
qed

lemma mset_sorted_list_of_set: "mset (sorted_list_of_set A) = mset_set A"
  by (metis mset_sorted_list_of_multiset sorted_list_of_mset_set)

lemma pool_slots_put:
  assumes "ctrl_at s tid p = Some c"
  shows "pool_slots (ctrl_put s tid c' p) + ctrl_slots c = pool_slots p + ctrl_slots c'"
proof -
  note at = ctrl_at_Some [OF assms]
  let ?i = "rp_stas p ! s"
  have one: "sta_slots (?i\<lparr>ri_ctrl := (ri_ctrl ?i)[unat tid := c']\<rparr>) + ctrl_slots c = sta_slots ?i + ctrl_slots c'"
    using sta_slots_put [OF at(2), of c'] at(3) by simp
  have "sum_list (map sta_slots ((rp_stas p)[s := ?i\<lparr>ri_ctrl := (ri_ctrl ?i)[unat tid := c']\<rparr>])) + sta_slots ?i =
      sum_list (map sta_slots (rp_stas p)) + sta_slots (?i\<lparr>ri_ctrl := (ri_ctrl ?i)[unat tid := c']\<rparr>)"
    using sum_list_put [of s "map sta_slots (rp_stas p)"] at(1) by (simp add: map_update)
  from multiset_exchange [OF this one]
  show ?thesis by (simp add: pool_slots_def ctrl_put_def algebra_simps)
qed

section \<open>What a call leaves alone\<close>

lemma single_frame:
  assumes "reord_single_frame_ind mem f p = Some p'" and "rm_pkt f \<noteq> None"
  shows "rp_free p' = rm_slot f # rp_free p" and "rp_stas p' = rp_stas p"
  using assms by (auto simp: reord_single_frame_ind_def reord_rxframe_free_def rp_emit_def bind_eq_Some_conv split: if_splits)

lemma flush_frames:
  assumes "flush_loop mem fs p = Some p'" and "\<forall>f \<in> set fs. rm_pkt f \<noteq> None"
  shows "mset (rp_free p') = image_mset rm_slot (mset fs) + mset (rp_free p) \<and> rp_stas p' = rp_stas p"
  using assms
proof (induction fs arbitrary: p)
  case (Cons f fs)
  then obtain q where q: "reord_single_frame_ind mem f p = Some q" "flush_loop mem fs q = Some p'"
    by (auto simp: bind_eq_Some_conv)
  then show ?case using single_frame [OF q(1)] Cons by simp
qed simp

lemma drop_frame: "rp_free (reord_drop f p) = rm_slot f # rp_free p" "rp_stas (reord_drop f p) = rp_stas p"
  by (simp_all add: reord_drop_def reord_rxframe_free_def rp_emit_def split: option.split)

lemma late_frame:
  assumes "reord_late mem c skb f p = Some p'" and "rm_pkt f \<noteq> None"
  shows "rp_free p' = rm_slot f # rp_free p" and "rp_stas p' = rp_stas p"
  using assms single_frame drop_frame by (auto simp: reord_late_def bind_eq_Some_conv split: if_splits)

section \<open>Windows\<close>

text \<open>
  A window that has seen frames stands for an abstract one. Its numbers are chosen above 4096, so that
  every 12-bit number has a meaning near it.
\<close>

definition ctrl_ok :: "reord_ctrl \<Rightarrow> bool" where
  "ctrl_ok c \<longleftrightarrow> (\<forall>f \<in> set (rc_list c). rm_pkt f \<noteq> None) \<and> (rc_list c = [] \<or> rc_timer c \<noteq> None \<or> rc_work c) \<and>
     (if rc_enable c
      then rc_wsize_b c = 64 \<and> (rc_ind_sn c = 0xFFFF \<and> rc_list c = [] \<or> (\<exists>w. implements c w \<and> 4096 \<le> win_next w))
      else rc_list c = [] \<and> rc_timer c = None \<and> \<not> rc_work c)"

lemma ctrl_ok_new: "ctrl_ok reord_ctrl_new"
  by (simp add: ctrl_ok_def reord_ctrl_new_def AICWF_REORDER_WINSIZE_def)

lemma ctrl_ok_reenable: "ctrl_ok c \<Longrightarrow> ctrl_ok (reord_reenable c) \<and> rc_enable (reord_reenable c) \<and> rc_list (reord_reenable c) = rc_list c"
  by (auto simp: ctrl_ok_def reord_reenable_def AICWF_REORDER_WINSIZE_def)

lemma near_number:
  assumes "unat q < 4096" and "4096 \<le> m"
  obtains n where "sn n = q" and "near m n"
proof -
  let ?n = "m - 2048 + nat ((int (unat q) - int (m - 2048)) mod 4096)"
  have "0 \<le> (int (unat q) - int (m - 2048)) mod 4096" and lt: "(int (unat q) - int (m - 2048)) mod 4096 < 4096" by simp_all
  then have "int ?n mod 4096 = (int (m - 2048) + (int (unat q) - int (m - 2048)) mod 4096) mod 4096" by simp
  also have "\<dots> = int (unat q) mod 4096" by (simp add: mod_add_right_eq)
  finally have "int (?n mod 4096) = int (unat q mod 4096)" by (simp only: zmod_int of_nat_numeral)
  then have "?n mod 4096 = unat q mod 4096" by (simp only: of_nat_eq_iff)
  then have "sn ?n = q" using sn_of [OF assms(1)] sn_eq_iff [of ?n "unat q"] by simp
  moreover have "near m ?n" using lt assms(2) by (auto simp: near_def)
  ultimately show ?thesis by (rule that)
qed

lemma mset_win_frames: "mset (win_frames w X) = image_mset (the \<circ> win_held w) (mset_set X)"
  by (simp add: win_frames_def mset_sorted_list_of_set)

lemma win_release_mset:
  assumes "finite (dom (win_held w))" and "win_release m w = (Release fs, w')"
  shows "mset fs + mset (win_all w') = mset (win_all w)"
proof -
  let ?K = "dom (win_held w)" and ?s = "run_end m (dom (win_held w))"
  note r = win_release_cases [OF assms(2)]
  have part: "mset_set {k \<in> ?K. k < ?s} + mset_set {k \<in> ?K. ?s \<le> k} = mset_set ?K"
    using assms(1) by (subst mset_set_Union [symmetric]) (auto intro: arg_cong [of _ _ mset_set])
  from r(1,3) part show ?thesis by (simp add: win_all_def mset_win_frames image_mset_union [symmetric])
qed

lemma win_rx_mset:
  assumes "win_ok w" and "win_rx n f w = (Release fs, w')"
  shows "mset fs + mset (win_all w') = add_mset f (mset (win_all w))"
proof -
  let ?w = "w\<lparr>win_held := (win_held w)(n \<mapsto> f)\<rparr>"
  have fin: "finite (dom (win_held w))" using assms(1) by (simp add: win_ok_def)
  have n: "n \<notin> dom (win_held w)" and r: "\<exists>m. win_release m ?w = (Release fs, w')"
    using assms(2) by (auto simp: win_rx_def split: if_splits)
  have dom: "dom (win_held ?w) = insert n (dom (win_held w))" by simp
  have "mset (win_all ?w) = image_mset (the \<circ> (win_held w)(n \<mapsto> f)) (mset_set (insert n (dom (win_held w))))"
    unfolding win_all_def mset_win_frames dom by simp
  also have "\<dots> = add_mset f (image_mset (the \<circ> (win_held w)(n \<mapsto> f)) (mset_set (dom (win_held w))))"
    by (simp only: mset_set.insert [OF fin n] image_mset_add_mset comp_apply fun_upd_same option.sel)
  also have "image_mset (the \<circ> (win_held w)(n \<mapsto> f)) (mset_set (dom (win_held w))) = image_mset (the \<circ> win_held w) (mset_set (dom (win_held w)))"
    using n fin by (intro image_mset_cong) auto
  also have "\<dots> = mset (win_all w)" by (simp only: win_all_def mset_win_frames)
  finally have eq: "mset (win_all ?w) = add_mset f (mset (win_all w))" .
  from r obtain m where "win_release m ?w = (Release fs, w')" by blast
  from win_release_mset [OF _ this] fin have "mset fs + mset (win_all w') = mset (win_all ?w)" by simp
  from this eq show ?thesis by (rule trans)
qed


text \<open>What a frame does to a window that is enabled.\<close>

lemma unit_ok:
  assumes ok: "ctrl_ok c" "rc_enable c" and f: "unat (rm_seq_num f) < 4096" "rm_pkt f \<noteq> None"
    and r: "reord_unit jf now mem skb f c p = Some (c', p')"
  shows "ctrl_ok c' \<and> rp_stas p' = rp_stas p \<and>
    mset (rp_free p') + ctrl_slots c' = mset (rp_free p) + ctrl_slots c + {#rm_slot f#}"
proof -
  have main: ?thesis if w: "implements c0 w" "4096 \<le> win_next w" and n: "near (win_next w) n" "rm_seq_num f = sn n"
      and c0: "\<forall>g \<in> set (rc_list c0). rm_pkt g \<noteq> None" "rc_list c0 = [] \<or> rc_timer c0 \<noteq> None \<or> rc_work c0"
      "rc_list c0 = rc_list c" and r: "reord_unit jf now mem skb f c0 p = Some (c', p')" for c0 w n
  proof -
    have w_ok: "win_ok w" and list: "rc_list c0 = win_all w" and en: "rc_enable c0" "rc_wsize_b c0 = 64"
      using w(1) by (simp_all add: implements_def)
    have keep: "ctrl_ok c0" using w c0(1,2) en by (auto simp: ctrl_ok_def)
    consider "n < win_next w" | "win_next w \<le> n" "n \<in> dom (win_held w)" | "win_next w \<le> n" "n \<notin> dom (win_held w)"
      by linarith
    then show ?thesis
    proof cases
      case 1
      with unit_late [OF w(1) n] r have "c' = c0" "reord_late mem c0 skb f p = Some p'"
        by (auto simp: bind_eq_Some_conv)
      with late_frame [OF this(2) f(2)] keep c0(3) show ?thesis by (simp add: ctrl_slots_def)
    next
      case 2
      with unit_duplicate [OF w(1) n] r have "c' = c0" "p' = reord_drop f p" by auto
      with drop_frame [of f p] keep c0(3) show ?thesis by (simp add: ctrl_slots_def)
    next
      case 3
      obtain v w' where rx: "win_rx n f w = (v, w')" by fastforce
      show ?thesis
      proof (rule unit_release [OF w(1) n 3 rx, of jf now mem skb p])
        fix fs
        let ?c = "win_store w' (c0\<lparr>rc_timer := win_timer jf now w' (rc_timer c0)\<rparr>)"
        assume v: "v = Release fs" and impl: "implements ?c w'"
          and run: "reord_unit jf now mem skb f c0 p = Option.bind (flush_loop mem fs p) (\<lambda>p. Some (?c, p))"
        from r [unfolded run] have c': "c' = ?c" and fl: "flush_loop mem fs p = Some p'" by (auto simp: bind_eq_Some_conv)
        have rx': "win_rx n f w = (Release fs, w')" using rx v by simp
        note ms = win_rx_mset [OF w_ok rx']
        have set: "g = f \<or> g \<in> set (rc_list c0)" if "g \<in> set fs \<or> g \<in> set (win_all w')" for g
          using that arg_cong [OF ms, of set_mset] list by auto
        then have pk: "\<forall>g \<in> set fs. rm_pkt g \<noteq> None" "\<forall>g \<in> set (win_all w'). rm_pkt g \<noteq> None" using c0(1) f(2) by auto
        note ff = flush_frames [OF fl pk(1)]
        have "image_mset rm_slot (mset fs) + image_mset rm_slot (mset (win_all w')) =
            add_mset (rm_slot f) (image_mset rm_slot (mset (win_all w)))"
          using arg_cong [OF ms, of "image_mset rm_slot"] by simp
        with ff list c0(3) have slots: "mset (rp_free p') + ctrl_slots ?c = mset (rp_free p) + ctrl_slots c + {#rm_slot f#}"
          by (simp add: ctrl_slots_def win_store_def)
        have "win_next w \<le> win_next w'"
        proof -
          have fin: "finite (dom ((win_held w)(n \<mapsto> f)))" using w_ok by (simp add: win_ok_def)
          have "win_release (max (win_next w) (n - 63)) (w\<lparr>win_held := (win_held w)(n \<mapsto> f)\<rparr>) = (Release fs, w')"
            using rx' 3 by (simp add: win_rx_def)
          from win_release_cases(2) [OF this] run_end_bounds(1) [OF fin, of "max (win_next w) (n - 63)"]
          show ?thesis by simp
        qed
        then have "\<exists>w. implements ?c w \<and> 4096 \<le> win_next w" using impl w(2) by (intro exI [of _ w']) auto
        moreover have "rc_list ?c = [] \<or> rc_timer ?c \<noteq> None \<or> rc_work ?c"
          by (auto simp: win_store_def win_timer_def split: option.split)
        moreover have "rc_enable ?c" "rc_wsize_b ?c = 64" using en by (simp_all add: win_store_def)
        ultimately have "ctrl_ok ?c" using pk(2) unfolding ctrl_ok_def by (simp add: win_store_def)
        with slots ff c' show ?thesis by simp
      qed
    qed
  qed
  have c: "rc_wsize_b c = 64" "\<forall>g \<in> set (rc_list c). rm_pkt g \<noteq> None" "rc_list c = [] \<or> rc_timer c \<noteq> None \<or> rc_work c"
    using ok by (simp_all add: ctrl_ok_def)
  consider "rc_ind_sn c = 0xFFFF" "rc_list c = []" | w where "implements c w" "4096 \<le> win_next w"
    using ok by (auto simp: ctrl_ok_def)
  then show ?thesis
  proof cases
    case 1
    obtain n where n: "sn n = rm_seq_num f" "near 6144 n" by (rule near_number [OF f(1), of 6144]) simp
    then have n4: "4096 \<le> n" by (simp add: near_def)
    have "near n n" by (simp add: near_def)
    from main [OF implements_fresh [OF ok(2) c(1) 1(2), of n] _ _ n(1) [symmetric]] n4 this c(2,3) 1(2)
      r [unfolded unit_fresh [OF ok(2) 1(1) n(1) [symmetric]]]
    show ?thesis by simp
  next
    case (2 w)
    obtain n where n: "sn n = rm_seq_num f" "near (win_next w) n" by (rule near_number [OF f(1) 2(2)])
    from main [OF 2 n(2) n(1) [symmetric] c(2,3) refl r] show ?thesis .
  qed
qed

lemma worker_ok:
  assumes ok: "ctrl_ok c" and r: "reord_timeout_worker jf now mem c p = Some (c', p')"
  shows "ctrl_ok c' \<and> rp_stas p' = rp_stas p \<and> mset (rp_free p') + ctrl_slots c' = mset (rp_free p) + ctrl_slots c \<and>
    (rc_list c \<noteq> [] \<longrightarrow> length (rc_list c') < length (rc_list c))"
proof (cases "rc_list c = []")
  case True
  then have "c' = c\<lparr>rc_work := False\<rparr>" "p' = p"
    using r by (cases c; auto simp: reord_timeout_worker_def reord_rxframes_process_def reord_rxframes_ind_def)+
  moreover have "implements (c\<lparr>rc_work := False\<rparr>) w" if "implements c w" for w using that by (simp add: implements_def)
  ultimately show ?thesis using ok True by (auto simp: ctrl_ok_def ctrl_slots_def)
next
  case False
  then obtain w where w: "implements c w" "4096 \<le> win_next w" using ok by (auto simp: ctrl_ok_def split: if_splits)
  obtain v w' where rx: "win_timeout w = (v, w')" by fastforce
  have w_ok: "win_ok w" and list: "rc_list c = win_all w" and en: "rc_enable c" "rc_wsize_b c = 64"
    using w(1) by (simp_all add: implements_def)
  show ?thesis
  proof (rule worker_release [OF w(1) rx, of jf now mem p])
    fix fs
    let ?c = "win_store w' (c\<lparr>rc_timer := (if win_all w' = [] then rc_timer c else Some (now + jf REORDER_UPDATE_TIME)), rc_work := False\<rparr>)"
    assume v: "v = Release fs" and ok': "win_ok w'" and ne: "win_all w \<noteq> [] \<Longrightarrow> fs \<noteq> [] \<and> hd fs = hd (win_all w)"
      and run: "reord_timeout_worker jf now mem c p = Option.bind (flush_loop mem fs p) (\<lambda>p. Some (?c, p))"
    from r [unfolded run] have c': "c' = ?c" and fl: "flush_loop mem fs p = Some p'" by (auto simp: bind_eq_Some_conv)
    have "dom (win_held w) \<noteq> {}" using False list by (auto simp: win_all_def win_frames_def)
    then have rel: "win_release (Min (dom (win_held w))) w = (Release fs, w')" using rx v by (simp add: win_timeout_def)
    have fin: "finite (dom (win_held w))" using w_ok by (simp add: win_ok_def)
    note ms = win_release_mset [OF fin rel]
    have "set fs \<union> set (win_all w') = set (rc_list c)" using arg_cong [OF ms, of set_mset] list by simp
    then have pk: "\<forall>g \<in> set fs. rm_pkt g \<noteq> None" "\<forall>g \<in> set (win_all w'). rm_pkt g \<noteq> None"
      using ok by (auto simp: ctrl_ok_def)
    note ff = flush_frames [OF fl pk(1)]
    have len: "length fs + length (win_all w') = length (win_all w)" using arg_cong [OF ms, of "size"] by simp
    have slots: "mset (rp_free p') + ctrl_slots ?c = mset (rp_free p) + ctrl_slots c"
      using ff list arg_cong [OF ms, of "image_mset rm_slot"] by (simp add: ctrl_slots_def win_store_def)
    have "Min (dom (win_held w)) \<in> dom (win_held w)" using fin \<open>dom (win_held w) \<noteq> {}\<close> by simp
    then obtain g where "win_held w (Min (dom (win_held w))) = Some g" by auto
    then have "win_next w \<le> Min (dom (win_held w))" using w_ok unfolding win_ok_def by (blast intro: less_imp_le)
    then have "win_next w \<le> win_next w'"
      using win_release_cases(2) [OF rel] run_end_bounds(1) [OF fin, of "Min (dom (win_held w))"] by simp
    moreover have "implements ?c w'" using ok' en by (simp add: implements_def win_store_def)
    ultimately have "\<exists>w. implements ?c w \<and> 4096 \<le> win_next w" using w(2) by (intro exI [of _ w']) auto
    moreover have "rc_list ?c = [] \<or> rc_timer ?c \<noteq> None \<or> rc_work ?c" by (simp add: win_store_def)
    moreover have "rc_enable ?c" "rc_wsize_b ?c = 64" using en by (simp_all add: win_store_def)
    ultimately have "ctrl_ok ?c" using pk(2) unfolding ctrl_ok_def by (simp add: win_store_def)
    moreover have "length (rc_list ?c) < length (rc_list c)" using ne False list len by (cases fs) (auto simp: win_store_def)
    ultimately show ?thesis using slots ff c' by simp
  qed
qed


section \<open>Calls\<close>

definition sta_ok :: "reord_ctrl_info \<Rightarrow> bool" where
  "sta_ok i \<longleftrightarrow> length (ri_ctrl i) = 8 \<and> (\<forall>c \<in> set (ri_ctrl i). ctrl_ok c)"

definition rx_ok :: "aicwf_rx_priv \<Rightarrow> bool" where
  "rx_ok p \<longleftrightarrow> pool_slots p \<subseteq># mset [0..<MAX_REORD_RXFRAME] \<and> (\<forall>i \<in> set (rp_stas p). sta_ok i)"

lemma ctrl_at_ok: "rx_ok p \<Longrightarrow> ctrl_at s tid p = Some c \<Longrightarrow> ctrl_ok c"
  using ctrl_at_Some [of s tid p c] by (metis nth_mem rx_ok_def sta_ok_def)

lemma rx_ok_put:
  assumes p: "rx_ok p" and c: "ctrl_at s tid p = Some c" and c': "ctrl_ok c'" and stas: "rp_stas p' = rp_stas p"
    and slots: "mset (rp_free p') + ctrl_slots c' \<subseteq># mset (rp_free p) + ctrl_slots c"
  shows "rx_ok (ctrl_put s tid c' p')"
proof -
  note at = ctrl_at_Some [OF c]
  have c2: "ctrl_at s tid p' = Some c" using c stas by (simp add: ctrl_at_def)
  have "pool_slots (ctrl_put s tid c' p') + ctrl_slots c = pool_slots p' + ctrl_slots c'" by (rule pool_slots_put [OF c2])
  also have "\<dots> \<subseteq># pool_slots p + ctrl_slots c"
    using slots stas by (simp add: pool_slots_def add.assoc add.left_commute [of "mset _"] subset_mset.add_left_mono)
  finally have "pool_slots (ctrl_put s tid c' p') \<subseteq># pool_slots p" by simp
  moreover have "sta_ok i" if "i \<in> set (rp_stas (ctrl_put s tid c' p'))" for i
  proof -
    have "i \<in> set (rp_stas p) \<or> i = (rp_stas p ! s)\<lparr>ri_ctrl := (ri_ctrl (rp_stas p ! s))[unat tid := c']\<rparr>"
      using that stas by (auto simp: ctrl_put_def dest!: subsetD [OF set_update_subset_insert])
    moreover have "sta_ok (rp_stas p ! s)" using p at(1) by (simp add: rx_ok_def)
    ultimately show ?thesis using p c' by (auto simp: rx_ok_def sta_ok_def dest!: subsetD [OF set_update_subset_insert])
  qed
  ultimately show ?thesis using p by (meson rx_ok_def subset_mset.order_trans)
qed

lemma rx_ok_frame: "rp_stas p' = rp_stas p \<Longrightarrow> rp_free p' = rp_free p \<Longrightarrow> rx_ok p' = rx_ok p"
  by (simp add: rx_ok_def pool_slots_def)

lemma pool_lost:
  assumes "rx_ok p" and "rp_free p = slot # q"
  shows "rx_ok (p\<lparr>rp_free := q\<rparr>)"
proof -
  have "pool_slots p = add_mset slot (pool_slots (p\<lparr>rp_free := q\<rparr>))" using assms(2) by (simp add: pool_slots_def)
  then have "pool_slots (p\<lparr>rp_free := q\<rparr>) \<subseteq># pool_slots p" by (auto simp: subset_mset.le_iff_add intro: exI [of _ "{#slot#}"])
  moreover have "pool_slots p \<subseteq># mset [0..<MAX_REORD_RXFRAME]" using assms(1) by (simp add: rx_ok_def)
  ultimately have "pool_slots (p\<lparr>rp_free := q\<rparr>) \<subseteq># mset [0..<MAX_REORD_RXFRAME]" by (rule subset_mset.order_trans)
  with assms(1) show ?thesis by (simp add: rx_ok_def)
qed

lemma rx_ok_emit: "rx_ok (rp_emit x p) = rx_ok p"
  by (rule rx_ok_frame) (simp_all add: rp_emit_def)

definition flushed :: "reord_ctrl \<Rightarrow> reord_ctrl" where
  "flushed c = c\<lparr>rc_list := [], rc_enable := False, rc_timer := None, rc_work := False\<rparr>"

lemma flush_cases:
  assumes "reord_flush_tid mem skb tid p = Some (x, p')"
  shows "p' = rp_emit (Freed skb) p \<or> p' = p \<or>
    (\<exists>s c q. ctrl_at s tid p = Some c \<and> flush_loop mem (rc_list c) p = Some q \<and> p' = ctrl_put s tid (flushed c) q)"
proof -
  obtain m where m: "(case m of
      None \<Rightarrow> Some (- 1, rp_emit (Freed skb) p)
    | Some mac \<Rightarrow> (case sta_index mac (rp_stas p) of
        None \<Rightarrow> Some (0, p)
      | Some s \<Rightarrow> Option.bind (ctrl_at s tid p) (\<lambda>c.
          if \<not> rc_enable c then Some (0, p)
          else Option.bind (flush_loop mem (rc_list c) p) (\<lambda>p. Some (0, ctrl_put s tid (flushed c) p))))) = Some (x, p')"
    using assms unfolding reord_flush_tid_def flushed_def bind_eq_Some_conv by blast
  show ?thesis
  proof (cases m)
    case (Some mac)
    with m show ?thesis
      by (cases "sta_index mac (rp_stas p)") (auto simp: bind_eq_Some_conv split: if_split_asm)
  qed (use m in simp)
qed

lemma flush_ok:
  assumes p: "rx_ok p" and r: "reord_flush_tid mem skb tid p = Some (x, p')"
  shows "rx_ok p'"
proof -
  consider "p' = rp_emit (Freed skb) p" | "p' = p"
    | s c q where "ctrl_at s tid p = Some c" "flush_loop mem (rc_list c) p = Some q" "p' = ctrl_put s tid (flushed c) q"
    using flush_cases [OF r] by blast
  then show ?thesis
  proof cases
    case (3 s c q)
    have ok: "ctrl_ok c" using ctrl_at_ok [OF p 3(1)] .
    have ff: "mset (rp_free q) = ctrl_slots c + mset (rp_free p)" "rp_stas q = rp_stas p"
      using flush_frames [OF 3(2)] ok by (simp_all add: ctrl_ok_def ctrl_slots_def)
    show ?thesis unfolding 3(3)
      by (rule rx_ok_put [OF p 3(1) _ ff(2)]) (simp_all add: ff ctrl_slots_def ctrl_ok_def flushed_def)
  qed (use p rx_ok_emit in simp_all)
qed

lemma unit_known_ok:
  assumes p: "rx_ok p" and free: "rp_free p = slot # q" and c: "ctrl_at s tid p = Some c"
    and f: "unat (rm_seq_num f) < 4096" "rm_pkt f \<noteq> None" "rm_slot f = slot"
    and r: "reord_unit jf now mem skb f (reord_reenable c) (p\<lparr>rp_free := q\<rparr>) = Some (c', p')"
  shows "rx_ok (ctrl_put s tid c' p')"
proof -
  note re = ctrl_ok_reenable [OF ctrl_at_ok [OF p c]]
  from unit_ok [OF _ _ f(1,2) r] re have "ctrl_ok c'" and stas: "rp_stas p' = rp_stas p"
    and "mset (rp_free p') + ctrl_slots c' = mset q + ctrl_slots (reord_reenable c) + {#slot#}" using f(3) by auto
  moreover have "ctrl_slots (reord_reenable c) = ctrl_slots c" using re by (simp add: ctrl_slots_def)
  ultimately show ?thesis using free by (intro rx_ok_put [OF p c _ stas]) simp_all
qed

lemma station_ok:
  assumes p: "rx_ok p" and free: "rp_free p = slot # q"
    and f: "unat (rm_seq_num f) < 4096" "rm_pkt f \<noteq> None" "rm_slot f = slot"
    and r: "reord_station jf now mem ok skb f mac (p\<lparr>rp_free := q\<rparr>) = Some (x, p')"
  shows "rx_ok p'"
proof (cases "sta_index mac (rp_stas p)")
  case (Some s)
  with r obtain c c' q' where c: "ctrl_at s (rm_tid f) (p\<lparr>rp_free := q\<rparr>) = Some c"
    and u: "reord_unit jf now mem skb f (reord_reenable c) (p\<lparr>rp_free := q\<rparr>) = Some (c', q')" "p' = ctrl_put s (rm_tid f) c' q'"
    by (auto simp: reord_station_def bind_eq_Some_conv)
  have "ctrl_at s (rm_tid f) p = Some c" using c by (simp add: ctrl_at_def)
  from unit_known_ok [OF p free this f u(1)] u(2) show ?thesis by simp
next
  case None
  show ?thesis
  proof (cases "reord_init_sta ok mac (p\<lparr>rp_free := q\<rparr>)")
    case refused: None
    with r None have "p' = rp_emit (Freed skb) (p\<lparr>rp_free := q\<rparr>)" by (simp add: reord_station_def)
    with pool_lost [OF p free] show ?thesis by (simp add: rx_ok_emit)
  next
    case (Some i)
    let ?p = "p\<lparr>rp_stas := rp_stas p @ [i]\<rparr>" and ?s = "length (rp_stas p)"
    have i: "ri_ctrl i = replicate 8 reord_ctrl_new" using Some by (auto simp: reord_init_sta_def split: if_splits)
    obtain c c' q' where c: "c_get (ri_ctrl i) (unat (rm_tid f)) = Some c"
      and u: "reord_unit jf now mem skb f c (p\<lparr>rp_free := q, rp_stas := rp_stas p @ [i]\<rparr>) = Some (c', q')"
      and p': "p' = ctrl_put ?s (rm_tid f) c' q'"
      using r None Some by (auto simp: reord_station_def bind_eq_Some_conv Let_def)
    have new: "c = reord_ctrl_new" using c by (auto simp: i c_get_def split: if_splits)
    have "sum_list (replicate n ({#} :: nat multiset)) = {#}" for n by (induction n) simp_all
    then have "sta_slots i = {#}" by (simp add: sta_slots_def i ctrl_slots_def reord_ctrl_new_def)
    moreover have "sta_ok i" by (simp add: sta_ok_def i ctrl_ok_new)
    ultimately have pp: "rx_ok ?p" using p by (auto simp: rx_ok_def pool_slots_def)
    have at: "ctrl_at ?s (rm_tid f) ?p = Some c" using c by (simp add: ctrl_at_def c_get_def)
    have "reord_reenable c = c" by (simp add: new reord_reenable_def reord_ctrl_new_def)
    moreover have "?p\<lparr>rp_free := q\<rparr> = p\<lparr>rp_free := q, rp_stas := rp_stas p @ [i]\<rparr>" by simp
    ultimately have "reord_unit jf now mem skb f (reord_reenable c) (?p\<lparr>rp_free := q\<rparr>) = Some (c', q')"
      using u by (simp only:)
    from unit_known_ok [OF pp _ at f this] free p' show ?thesis by simp
  qed
qed

lemma process_ok:
  assumes p: "rx_ok p" and seq: "unat seq < 4096"
    and r: "reord_process_unit jf now mem ok skb seq tid fw am p = Some (x, p')"
  shows "rx_ok p'"
proof (cases "rp_vif p = None \<or> skb_len skb \<le> 14 \<or> rp_free p = []")
  case True
  then have "p' = rp_emit (Freed skb) p"
    using r by (auto simp: reord_process_unit_def reord_rxframe_alloc_def split: if_splits)
  with p show ?thesis by (simp add: rx_ok_emit)
next
  case False
  then obtain slot q where free: "rp_free p = slot # q" by (cases "rp_free p") auto
  let ?q = "p\<lparr>rp_free := q\<rparr>"
  let ?f = "\<lparr>rm_slot = slot, rm_pkt = Some skb, rm_tid = tid, rm_seq_num = seq, rm_forward = fw, rm_is_amsdu = am\<rparr>"
  have q: "rx_ok ?q" using p free by (rule pool_lost)
  have "(\<exists>p1. reord_single_frame_ind mem ?f ?q = Some p1 \<and> p' = p1) \<or> p' = rp_emit (Freed skb) ?q \<or>
      (\<exists>mac. reord_station jf now mem ok skb ?f mac ?q = Some (x, p'))"
    using r False free unfolding reord_process_unit_def reord_rxframe_alloc_def Let_def
    by (auto simp: bind_eq_Some_conv split: if_split_asm option.split_asm)
  then consider "reord_single_frame_ind mem ?f ?q = Some p'" | "p' = rp_emit (Freed skb) ?q"
    | mac where "reord_station jf now mem ok skb ?f mac ?q = Some (x, p')" by auto
  then show ?thesis
  proof cases
    case 1
    from single_frame [OF this] free have "rp_free p' = rp_free p" "rp_stas p' = rp_stas p" by simp_all
    with p show ?thesis using rx_ok_frame [of p' p] by simp
  next
    case 2
    with q show ?thesis by (simp add: rx_ok_emit)
  next
    case (3 mac)
    from station_ok [OF p free _ _ _ this] seq show ?thesis by simp
  qed
qed


lemma timer_ok:
  assumes p: "rx_ok p" and t: "ctrl_at s tid p = Some c" "rc_timer c \<noteq> None" and r: "reord_timer_event s tid p = Some p'"
  shows "rx_ok p'"
proof -
  have p': "p' = ctrl_put s tid (reord_timeout_handler c) p" using t r by (simp add: reord_timer_event_def)
  have "implements (reord_timeout_handler c) w" if "implements c w" for w
    using that by (simp add: implements_def reord_timeout_handler_def)
  then have "ctrl_ok (reord_timeout_handler c)"
    using ctrl_at_ok [OF p t(1)] t(2) by (auto simp: ctrl_ok_def reord_timeout_handler_def split: if_split_asm)
  then show ?thesis unfolding p'
    by (rule rx_ok_put [OF p t(1) _ refl]) (simp add: ctrl_slots_def reord_timeout_handler_def)
qed

lemma work_ok:
  assumes p: "rx_ok p" and r: "reord_work_event jf now mem s tid p = Some p'"
  shows "rx_ok p'"
proof -
  obtain c c' q where c: "ctrl_at s tid p = Some c" and w: "reord_timeout_worker jf now mem c p = Some (c', q)"
    and p': "p' = ctrl_put s tid c' q" using r by (auto simp: reord_work_event_def bind_eq_Some_conv)
  from worker_ok [OF ctrl_at_ok [OF p c] w] show ?thesis unfolding p' by (intro rx_ok_put [OF p c]) simp_all
qed

lemma deinit_frames:
  "mset (rp_free (fold reord_drop fs p)) = image_mset rm_slot (mset fs) + mset (rp_free p) \<and>
   rp_stas (fold reord_drop fs p) = rp_stas p"
  by (induction fs arbitrary: p) (simp_all add: drop_frame)

lemma deinit_ctrls:
  "mset (rp_free (fold reord_deinit_ctrl cs p)) = sum_list (map ctrl_slots cs) + mset (rp_free p) \<and>
   rp_stas (fold reord_deinit_ctrl cs p) = rp_stas p"
  using deinit_frames by (induction cs arbitrary: p) (simp_all add: reord_deinit_ctrl_def ctrl_slots_def)

lemma deinit_ok:
  assumes p: "rx_ok p" and r: "reord_deinit_sta s p = Some p'"
  shows "rx_ok p'"
proof -
  have s: "s < length (rp_stas p)" using r by (auto simp: reord_deinit_sta_def c_get_def split: if_splits)
  define q where "q = fold reord_deinit_ctrl (ri_ctrl (rp_stas p ! s)) p"
  have q: "mset (rp_free q) = sta_slots (rp_stas p ! s) + mset (rp_free p)" "rp_stas q = rp_stas p"
    using deinit_ctrls [of "ri_ctrl (rp_stas p ! s)" p] by (simp_all add: q_def sta_slots_def)
  have p': "p' = q\<lparr>rp_stas := take s (rp_stas q) @ drop (Suc s) (rp_stas q)\<rparr>"
    using r s by (auto simp: reord_deinit_sta_def c_get_def q_def Let_def)
  have split: "rp_stas p = take s (rp_stas p) @ rp_stas p ! s # drop (Suc s) (rp_stas p)" using s by (rule id_take_nth_drop)
  have "sum_list (map sta_slots (rp_stas p)) = sta_slots (rp_stas p ! s) +
      sum_list (map sta_slots (take s (rp_stas p) @ drop (Suc s) (rp_stas p)))"
    by (subst split) (simp add: algebra_simps)
  then have "pool_slots p' = pool_slots p" using q by (simp add: p' pool_slots_def algebra_simps)
  moreover have "set (rp_stas p') \<subseteq> set (rp_stas p)" using q(2) by (auto simp: p' dest: in_set_takeD in_set_dropD)
  ultimately show ?thesis using p by (auto simp: rx_ok_def)
qed

section \<open>Reachable states\<close>

text \<open>
  The calls on the receive path, in any order: a frame with a 12-bit number, a flush, a timer that is
  running, a worker that has been scheduled, the removal of a station; in between the interface, the
  bus and the network may change in any way.
\<close>

inductive rx_reachable :: "(nat \<Rightarrow> u32) \<Rightarrow> aicwf_rx_priv \<Rightarrow> bool" for jf where
  start: "rx_reachable jf (aicwf_rx_init n)"
| frame: "rx_reachable jf p \<Longrightarrow> unat seq < 4096 \<Longrightarrow>
     reord_process_unit jf now mem ok skb seq tid fw am p = Some (x, p') \<Longrightarrow> rx_reachable jf p'"
| flush: "rx_reachable jf p \<Longrightarrow> reord_flush_tid mem skb tid p = Some (x, p') \<Longrightarrow> rx_reachable jf p'"
| timer: "rx_reachable jf p \<Longrightarrow> ctrl_at s tid p = Some c \<Longrightarrow> rc_timer c \<noteq> None \<Longrightarrow>
     reord_timer_event s tid p = Some p' \<Longrightarrow> rx_reachable jf p'"
| work: "rx_reachable jf p \<Longrightarrow> ctrl_at s tid p = Some c \<Longrightarrow> rc_work c \<Longrightarrow>
     reord_work_event jf now mem s tid p = Some p' \<Longrightarrow> rx_reachable jf p'"
| remove: "rx_reachable jf p \<Longrightarrow> reord_deinit_sta s p = Some p' \<Longrightarrow> rx_reachable jf p'"
| outside: "rx_reachable jf p \<Longrightarrow> rx_reachable jf (p\<lparr>rp_vif := v, rp_bus_down := d, rp_net := n\<rparr>)"

lemma rx_init_ok: "rx_ok (aicwf_rx_init n)"
proof -
  have "mset (fold (\<lambda>i q. i # q) xs ys) = mset xs + mset ys" for xs ys :: "nat list"
    by (induction xs arbitrary: ys) simp_all
  then have "pool_slots (aicwf_rx_init n) = mset [0..<MAX_REORD_RXFRAME]"
    by (simp add: pool_slots_def aicwf_rx_init_def aicwf_rxframe_queue_init_def del: mset_upt)
  then show ?thesis by (simp add: rx_ok_def aicwf_rx_init_def)
qed

lemma rx_reachable_ok: "rx_reachable jf p \<Longrightarrow> rx_ok p"
proof (induction rule: rx_reachable.induct)
  case (outside p)
  then show ?case by (simp add: rx_ok_def pool_slots_def)
qed (auto intro: rx_init_ok process_ok flush_ok timer_ok work_ok deinit_ok)

end
