(* ===== verification/Aic_Reorder_Correct.thy ===== *)
theory Aic_Reorder_Correct
  imports Aic_Reorder_Order Aic_Reorder_Reach
begin

text \<open>
  The properties of the receive path: the window refines the abstract receiver, frames that are out
  of order by less than a window are handed up in order, what the reachable states satisfy, and
  what the parsers do with malformed frames.
\<close>

section \<open>Order\<close>

text \<open>C31: The reorder window of the driver implements a receiver that counts with unbounded numbers.
  Whenever a frame comes whose number the window can tell apart, or the timer gives up on a gap, the
  driver drops, hands up at once or releases exactly what the abstract receiver says, and is again
  in a state that stands for the abstract one; after a release by a frame the timer runs exactly
  when frames are held.\<close>

theorem reorder_window_refines:
  assumes "implements c w" and "near (win_next w) n" and "rm_seq_num f = sn n"
  shows "(case win_rx n f w of
      (Late, w') \<Rightarrow> w' = w \<and> reord_unit jf now mem skb f c p = Option.bind (reord_late mem c skb f p) (\<lambda>p. Some (c, p))
    | (Duplicate, w') \<Rightarrow> w' = w \<and> reord_unit jf now mem skb f c p = Some (c, reord_drop f p)
    | (Release fs, w') \<Rightarrow> \<exists>c'. implements c' w' \<and> (rc_timer c' = None \<longleftrightarrow> win_all w' = []) \<and>
        reord_unit jf now mem skb f c p = Option.bind (flush_loop mem fs p) (\<lambda>p. Some (c', p))) \<and>
    (case win_timeout w of
      (Release fs, w') \<Rightarrow> \<exists>c'. implements c' w' \<and> (win_all w' \<noteq> [] \<longrightarrow> rc_timer c' \<noteq> None) \<and>
        reord_timeout_worker jf now mem c p = Option.bind (flush_loop mem fs p) (\<lambda>p. Some (c', p))
    | _ \<Rightarrow> False)"
proof (intro conjI, goal_cases)
  case 1
  consider "n < win_next w" | "win_next w \<le> n" "n \<in> dom (win_held w)" | "win_next w \<le> n" "n \<notin> dom (win_held w)"
    by linarith
  then show ?case
  proof cases
    case 1
    with unit_late [OF assms] show ?thesis by (simp add: win_rx_def)
  next
    case 2
    with unit_duplicate [OF assms 2(2)] show ?thesis by (auto simp: win_rx_def)
  next
    case 3
    obtain v w' where r: "win_rx n f w = (v, w')" by fastforce
    show ?thesis
    proof (rule unit_release [OF assms 3 r, of jf now mem skb p])
      fix fs
      let ?c = "win_store w' (c\<lparr>rc_timer := win_timer jf now w' (rc_timer c)\<rparr>)"
      assume *: "v = Release fs" "implements ?c w'"
        "reord_unit jf now mem skb f c p = Option.bind (flush_loop mem fs p) (\<lambda>p. Some (?c, p))"
      have "rc_timer ?c = None \<longleftrightarrow> win_all w' = []" by (simp add: win_store_def win_timer_def split: option.split)
      with * r show ?thesis by auto
    qed
  qed
next
  case 2
  obtain v w' where r: "win_timeout w = (v, w')" by fastforce
  show ?case
  proof (rule worker_release [OF assms(1) r, of jf now mem p])
    fix fs
    let ?c = "win_store w' (c\<lparr>rc_timer := (if win_all w' = [] then rc_timer c else Some (now + jf REORDER_UPDATE_TIME)), rc_work := False\<rparr>)"
    assume *: "v = Release fs" "win_ok w'"
      "reord_timeout_worker jf now mem c p = Option.bind (flush_loop mem fs p) (\<lambda>p. Some (?c, p))"
    have "implements ?c w'" using *(2) assms(1) by (simp add: implements_def win_store_def)
    moreover have "win_all w' \<noteq> [] \<longrightarrow> rc_timer ?c \<noteq> None" by (simp add: win_store_def)
    ultimately show ?thesis using * r by auto
  qed
qed


text \<open>A window that waits for frame 6 and holds frame 7: frame 6 releases both.\<close>

definition demo_frame :: "u8 \<Rightarrow> sk_buff" where
  "demo_frame b = skb_of ([2, 0, 0, 0, 0, 1] @ [2, 0, 0, 0, 0, 9] @ [0x08, 0x06] @ replicate 27 0 @ [b, b])"

definition demo_vif :: rwnx_vif where
  "demo_vif = \<lparr>vif_up = True, vif_iftype = IFTYPE_STATION, vif_dev_addr = [2, 0, 0, 0, 0, 1], vif_ccmp = False,
     vif_isolate = False, vif_rx_packets = 0, vif_rx_bytes = 0\<rparr>"

definition demo_net :: rx_net where
  "demo_net = \<lparr>rn_vifs = [Some demo_vif, None, None, None], rn_ack = tcp_ack_init (\<lambda>_. 5) 0, rn_dhcped = False, rn_out = []\<rparr>"

definition demo_rx :: aicwf_rx_priv where
  "demo_rx = (aicwf_rx_init demo_net)\<lparr>rp_vif := Some 0\<rparr>"

theorem reorder_window_refines_witness:
  shows "\<exists>c'. implements c' \<lparr>win_next = 8, win_held = Map.empty\<rparr> \<and>
    reord_unit (\<lambda>_. 5) 0 (\<lambda>_. 0) (demo_frame 6) (descriptor 0 (demo_frame 6) 0 (sn 6))
      (reord_ctrl_new\<lparr>rc_ind_sn := sn 6, rc_list := [descriptor 1 (demo_frame 7) 0 (sn 7)]\<rparr>) demo_rx =
    Option.bind (flush_loop (\<lambda>_. 0) [descriptor 0 (demo_frame 6) 0 (sn 6), descriptor 1 (demo_frame 7) 0 (sn 7)] demo_rx)
      (\<lambda>p. Some (c', p))"
proof -
  let ?f = "descriptor 0 (demo_frame 6) 0 (sn 6)" and ?g = "descriptor 1 (demo_frame 7) 0 (sn 7)"
  let ?w = "\<lparr>win_next = 6, win_held = [7 \<mapsto> ?g]\<rparr>" and ?c = "reord_ctrl_new\<lparr>rc_ind_sn := sn 6, rc_list := [?g]\<rparr>"
  have impl: "implements ?c ?w"
    by (simp add: implements_def win_ok_def win_all_def win_frames_def reord_ctrl_new_def AICWF_REORDER_WINSIZE_def)
  have stop: "run_end 6 {6, 7} = 8" using run_up_end [of "[6, 7]" 6] by simp
  have "{k \<in> {6, 7 :: nat}. k < 8} = {6, 7}" by auto
  then have frames: "win_frames (?w\<lparr>win_held := [7 \<mapsto> ?g, 6 \<mapsto> ?f]\<rparr>) {k \<in> {6, 7}. k < 8} = [?f, ?g]"
    by (simp add: win_frames_def)
  have "[7 \<mapsto> ?g, 6 \<mapsto> ?f] |` {8 :: nat..} = Map.empty" by (rule ext) (simp add: restrict_map_def)
  then have "win_rx 6 ?f ?w = (Release [?f, ?g], \<lparr>win_next = 8, win_held = Map.empty\<rparr>)"
    using stop frames by (simp add: win_rx_def win_release_def insert_commute)
  then show ?thesis
    using reorder_window_refines [OF impl, of 6 ?f "\<lambda>_. 5" 0 "\<lambda>_. 0" "demo_frame 6" demo_rx] by (auto simp: near_def)
qed

lemma in_number_order:
  assumes "distinct (map fst ps)" and "set (map fst ps) = {s..<s + length ps}"
  shows "map snd (sort_key fst ps) = map (\<lambda>k. the (map_of ps k)) [s..<s + length ps]"
proof -
  let ?qs = "map (\<lambda>k. (k, the (map_of ps k))) [s..<s + length ps]"
  have get: "map_of ps (fst q) = Some (snd q)" if "q \<in> set ps" for q
    using that map_of_is_SomeI [OF assms(1), of "fst q" "snd q"] by simp
  have "set ?qs = set ps"
  proof (intro set_eqI iffI)
    fix q assume "q \<in> set ?qs"
    then obtain k where q: "q = (k, the (map_of ps k))" and "k \<in> set (map fst ps)" using assms(2) by auto
    then obtain x where "(k, x) \<in> set ps" by auto
    with get [of "(k, x)"] q show "q \<in> set ps" by simp
  next
    fix q assume q: "q \<in> set ps"
    then have "fst q \<in> {s..<s + length ps}" using assms(2) by auto
    moreover have "q = (fst q, the (map_of ps (fst q)))" using get [OF q] by (cases q) simp
    ultimately show "q \<in> set ?qs" by (force simp: image_iff)
  qed
  moreover have "distinct ?qs" by (simp add: distinct_map inj_on_def)
  moreover have "distinct ps" using assms(1) by (simp add: distinct_map)
  ultimately have "mset ps = mset ?qs" by (metis set_eq_iff_mset_eq_distinct)
  moreover have "inj_on fst (set ps)" using assms(1) by (simp add: distinct_map)
  ultimately have "sort_key fst ps = ?qs" by (intro sort_key_inj_key_eq) (simp_all add: comp_def)
  then show ?thesis by simp
qed

lemma arrives_distinct: "arrives s A ns \<Longrightarrow> distinct ns \<and> set ns \<inter> A = {}"
  by (induction ns arbitrary: A) auto

text \<open>C30: The reorder buffer restores the order. Frames \<open>s\<close>, ..., \<open>s + k - 1\<close> of a station just met come in
  any order with none more than 63 ahead of a missing one, \<open>s\<close> first; numbers are sent modulo 4096.
  Then none is refused, the network, the counters and the acknowledgement filter end as if the
  frames had been handed up in the order of their numbers, each once, every descriptor is back in the
  pool, nothing is held and no timer runs.\<close>

theorem reorder_restores_order:
  assumes vif: "rp_vif p = Some v" "vif_at v (rp_net p) = Some vif" "is_client (vif_iftype vif)"
    and sta: "sta_index mac (rp_stas p) = None" "\<not> rp_bus_down p" "unat tid < 8" "64 \<le> length (rp_free p)"
    and xs: "arrives s {} (s # map (fst \<circ> snd) xs)"
      "set (s # map (fst \<circ> snd) xs) = {s..<s + Suc (length xs)}"
    and frames: "\<forall>(now, n, skb) \<in> set ((t, s, b) # xs). frame_to mac skb"
    and up: "rx_indicate_all v (map snd (sort_key fst (map snd ((t, s, b) # xs)))) (rp_net p) = Some n'"
  shows "\<exists>p' c. receive_all jf mem tid ((t, s, b) # xs) p = Some p' \<and> rp_net p' = n' \<and>
    length (rp_free p') = length (rp_free p) \<and> ctrl_at (length (rp_stas p)) tid p' = Some c \<and>
    rc_list c = [] \<and> rc_timer c = None"
proof -
  let ?ps = "map snd ((t, s, b) # xs)" and ?l0 = "length (rp_free p)" and ?s = "length (rp_stas p)"
  let ?ns = "s # map (fst \<circ> snd) xs"
  define pk where "pk k = the (map_of ?ps k)" for k
  define q where "q = p\<lparr>rp_stas := rp_stas p @ [\<lparr>ri_mac = mac, ri_ctrl = replicate 8 reord_ctrl_new\<rparr>]\<rparr>"
  have nums: "map fst ?ps = ?ns" by simp
  have dist: "distinct (map fst ?ps)" using arrives_distinct [OF xs(1)] nums by simp
  have get: "\<forall>(now, n, skb) \<in> set ((t, s, b) # xs). skb = pk n"
  proof -
    have "map_of ?ps n = Some skb" if "(now, n, skb) \<in> set ((t, s, b) # xs)" for now n skb
      by (rule map_of_is_SomeI [OF dist]) (use that in force)
    then have "skb = pk n" if "(now, n, skb) \<in> set ((t, s, b) # xs)" for now n skb
      using that by (simp only: pk_def option.sel)
    then show ?thesis by (auto simp del: list.set)
  qed
  have order: "map snd (sort_key fst ?ps) = map pk [s..<s + Suc (length xs)]"
    using in_number_order [OF dist, of s] xs(2) nums by (simp add: pk_def comp_def)
  have pk: "b = pk s" "frame_to mac (pk s)" using get frames by auto
  note new = process_unit_unknown [OF sta(1) vif sta(2) pk(2) sta(3), folded q_def]
  define c where "c = reord_ctrl_new\<lparr>rc_ind_sn := sn s\<rparr>"
  have fresh: "rc_enable reord_ctrl_new" "rc_ind_sn reord_ctrl_new = 0xFFFF" "rc_wsize_b reord_ctrl_new = 64"
      "rc_list reord_ctrl_new = []" "rc_timer reord_ctrl_new = None" "reord_reenable reord_ctrl_new = reord_ctrl_new"
    by (simp_all add: reord_ctrl_new_def AICWF_REORDER_WINSIZE_def reord_reenable_def)
  have empty: "run_end s {} = s" using run_up_end [of "[]" s] by simp
  have start: "in_order v mac ?s tid s pk (rp_net p) ?l0 {} c q"
    unfolding in_order_def
  proof (intro conjI exI)
    show "implements c \<lparr>win_next = s, win_held = Map.empty\<rparr>"
      using implements_fresh [OF fresh(1,3,4), of s] by (simp add: c_def)
  qed (use new(2) fresh(5) empty in \<open>simp_all add: q_def c_def caught_up_def win_all_def win_frames_def\<close>)
  have all: "run_end s (set ?ns) = s + Suc (length xs)" using run_end_complete [of s "Suc (length xs)"] xs(2) by simp
  have sets: "{s} \<union> set (map (fst \<circ> snd) xs) = set ?ns" by simp
  have upall: "rx_indicate_all v (map pk [s..<run_end s (set ?ns)]) (rp_net p) = Some n'" using up order all by simp
  have "run_end s {s} \<le> run_end s (set ?ns)" "s \<le> run_end s {s}"
    using run_end_mono [of "set ?ns" "{s}" s] run_end_bounds(1) [of "{s}" s] by auto
  then obtain n1 where n1: "rx_indicate_all v (map pk [s..<run_end s (insert s {})]) (rp_net p) = Some n1"
    using indicate_prefix [of v pk s "run_end s (set ?ns)" "rp_net p"] upall by (metis option.distinct(1))
  have same: "rm_seq_num f = sn s \<Longrightarrow>
      reord_unit jf t mem (pk s) f (reord_reenable reord_ctrl_new) p' = reord_unit jf t mem (pk s) f c p'" for f p'
    using unit_fresh [OF fresh(1,2), of f s jf t mem "pk s" p'] fresh(6) by (simp add: c_def)
  have "\<exists>c' p'. reord_process_unit jf t mem True (pk s) (sn s) tid True False q = Some (0, p') \<and>
      ctrl_at ?s tid p' = Some c' \<and> in_order v mac ?s tid s pk (rp_net p) ?l0 {s} c' p' \<and> rc_enable c'"
    by (rule in_order_step [OF start _ _ sta(4) _ _ _ pk(2) new(3) same n1]) simp_all
  then obtain c' p' where first: "reord_process_unit jf t mem True (pk s) (sn s) tid True False q = Some (0, p')"
    "ctrl_at ?s tid p' = Some c'" "in_order v mac ?s tid s pk (rp_net p) ?l0 {s} c' p'" "rc_enable c'" by blast
  have rest: "\<forall>(now, n, skb) \<in> set xs. skb = pk n \<and> frame_to mac skb" using get frames by auto
  have "\<exists>c'' p''. receive_all jf mem tid xs p' = Some p'' \<and> ctrl_at ?s tid p'' = Some c'' \<and>
      in_order v mac ?s tid s pk (rp_net p) ?l0 ({s} \<union> set (map (fst \<circ> snd) xs)) c'' p''"
    by (rule receive_in_order [OF first(3) _ _ sta(4) first(2,4) _ rest])
      (use xs(1) upall sets in \<open>simp_all add: comp_def\<close>)
  then obtain c'' p'' where run: "receive_all jf mem tid xs p' = Some p''" "ctrl_at ?s tid p'' = Some c''"
    "in_order v mac ?s tid s pk (rp_net p) ?l0 (set ?ns) c'' p''" unfolding sets by blast
  have ne: "rp_free p \<noteq> []" using sta(4) by auto
  have "receive_all jf mem tid ((t, s, b) # xs) p = Some p''"
    using first(1) run(1) new(1) [OF ne, of jf t mem "sn s"] pk(1) by simp
  moreover obtain w where w: "implements c'' w" "caught_up s (set ?ns) w" "rc_timer c'' = None \<longleftrightarrow> win_all w = []"
      "length (rp_free p'') + card (dom (win_held w)) = ?l0"
      "rx_indicate_all v (map pk [s..<run_end s (set ?ns)]) (rp_net p) = Some (rp_net p'')"
    using run(3) by (auto simp: in_order_def)
  have "dom (win_held w) = {}" using w(2) all unfolding caught_up_def xs(2) by auto
  then have "rc_list c'' = []" "rc_timer c'' = None" "length (rp_free p'') = ?l0" "rp_net p'' = n'"
    using w upall by (simp_all add: implements_def win_all_def win_frames_def)
  ultimately show ?thesis using run(2) by blast
qed


text \<open>Three frames over the wrap of the 12-bit numbers, the last two swapped.\<close>

theorem reorder_restores_order_witness:
  shows "\<exists>p'. receive_all (\<lambda>_. 5) (\<lambda>_. 0) 3
      [(0, 4095, demo_frame 1), (1, 4097, demo_frame 3), (2, 4096, demo_frame 2)] demo_rx = Some p' \<and>
    rn_out (rp_net p') = [Up 0 (demo_frame 1), Up 0 (demo_frame 2), Up 0 (demo_frame 3)]"
proof -
  have out: "map_option rn_out (rx_indicate_all 0 [demo_frame 1, demo_frame 2, demo_frame 3] (rp_net demo_rx)) =
      Some [Up 0 (demo_frame 1), Up 0 (demo_frame 2), Up 0 (demo_frame 3)]" by code_simp
  then obtain n' where n': "rx_indicate_all 0 [demo_frame 1, demo_frame 2, demo_frame 3] (rp_net demo_rx) = Some n'"
    "rn_out n' = [Up 0 (demo_frame 1), Up 0 (demo_frame 2), Up 0 (demo_frame 3)]" by auto
  have fr: "frame_to [2, 0, 0, 0, 0, 1] (demo_frame b)" for b
    by (simp add: frame_to_def demo_frame_def skb_of_def skb_len_def ETH_P_PAE_def)
  have pool: "length (rp_free demo_rx) = 250" by code_simp
  have dest: "rp_vif demo_rx = Some 0" "vif_at 0 (rp_net demo_rx) = Some demo_vif" "is_client (vif_iftype demo_vif)"
    "sta_index [2, 0, 0, 0, 0, 1] (rp_stas demo_rx) = None" "\<not> rp_bus_down demo_rx"
    by (simp_all add: demo_rx_def aicwf_rx_init_def demo_net_def demo_vif_def vif_at_def c_get_def is_client_def)
  have "\<exists>p' c. receive_all (\<lambda>_. 5) (\<lambda>_. 0) 3
      [(0, 4095, demo_frame 1), (1, 4097, demo_frame 3), (2, 4096, demo_frame 2)] demo_rx = Some p' \<and> rp_net p' = n' \<and>
    length (rp_free p') = length (rp_free demo_rx) \<and> ctrl_at (length (rp_stas demo_rx)) 3 p' = Some c \<and>
    rc_list c = [] \<and> rc_timer c = None"
    by (rule reorder_restores_order [OF dest]) (use pool fr n'(1) in auto)
  with n'(2) show ?thesis by auto
qed

section \<open>Reachable states\<close>

text \<open>A window in order: its numbers ascend from the expected one, all less than 64 ahead of it.\<close>

lemma window_in_order:
  assumes "ctrl_ok c" and "rc_list c \<noteq> []"
  shows "\<exists>n ks. rc_ind_sn c = sn n \<and> map rm_seq_num (rc_list c) = map sn ks \<and> sorted_wrt (<) (n # ks) \<and> (\<forall>k \<in> set ks. k < n + 64)"
proof -
  obtain w where w: "implements c w" using assms by (auto simp: ctrl_ok_def split: if_splits)
  let ?ks = "sorted_list_of_set (dom (win_held w))"
  have ok: "win_ok w" and ind: "rc_ind_sn c = sn (win_next w)" and list: "rc_list c = map (the \<circ> win_held w) ?ks"
    using w by (simp_all add: implements_def win_all_def win_frames_def)
  have fin: "finite (dom (win_held w))" using ok by (simp add: win_ok_def)
  have "rm_seq_num (the (win_held w k)) = sn k \<and> win_next w < k \<and> k \<le> win_next w + 63" if "k \<in> set ?ks" for k
    using that ok fin by (auto simp: win_ok_def)
  then have held: "rm_seq_num (the (win_held w k)) = sn k \<and> win_next w < k \<and> k < win_next w + 64" if "k \<in> set ?ks" for k
    using that by force
  have "map rm_seq_num (rc_list c) = map sn ?ks" using held by (simp add: list)
  moreover have "sorted_wrt (<) (win_next w # ?ks)" using held by simp
  ultimately show ?thesis using ind held by blast
qed

text \<open>C32: In every state the calls of the driver can reach, in any order and with the timers going off at any
  time: no descriptor of a frame is in two places, be it the pool or a window; the numbers in each
  window ascend from the expected one and are less than 64 ahead of it; frames are held only while the
  timer runs or the worker is due; and each run of the worker shortens the list, so that no frame is
  held for ever.\<close>

theorem reorder_reachable_safe:
  assumes "rx_reachable jf p"
  shows "pool_slots p \<subseteq># mset [0..<MAX_REORD_RXFRAME] \<and>
    (\<forall>s tid c. ctrl_at s tid p = Some c \<and> rc_list c \<noteq> [] \<longrightarrow>
      (rc_timer c \<noteq> None \<or> rc_work c) \<and>
      (\<exists>n ks. rc_ind_sn c = sn n \<and> map rm_seq_num (rc_list c) = map sn ks \<and> sorted_wrt (<) (n # ks) \<and> (\<forall>k \<in> set ks. k < n + 64)) \<and>
      (\<forall>now mem c' p'. reord_timeout_worker jf now mem c p = Some (c', p') \<longrightarrow> length (rc_list c') < length (rc_list c)))"
proof (intro conjI allI impI; (elim conjE)?)
  have ok: "rx_ok p" by (rule rx_reachable_ok [OF assms])
  then show "pool_slots p \<subseteq># mset [0..<MAX_REORD_RXFRAME]" by (simp add: rx_ok_def)
  fix s tid c assume at: "ctrl_at s tid p = Some c" and ne: "rc_list c \<noteq> []"
  then have c: "ctrl_ok c" using ctrl_at_ok [OF ok] by blast
  then show "rc_timer c \<noteq> None \<or> rc_work c" using ne by (simp add: ctrl_ok_def)
  show "\<exists>n ks. rc_ind_sn c = sn n \<and> map rm_seq_num (rc_list c) = map sn ks \<and> sorted_wrt (<) (n # ks) \<and> (\<forall>k \<in> set ks. k < n + 64)"
    by (rule window_in_order [OF c ne])
  show "length (rc_list c') < length (rc_list c)" if "reord_timeout_worker jf now mem c p = Some (c', p')" for now mem c' p'
    using worker_ok [OF c that] ne by blast
qed

text \<open>Frames 5 and 7 of a station: the second is held, with its descriptor out of the pool.\<close>

definition demo_held :: "aicwf_rx_priv option" where
  "demo_held = do {
     (_, p) \<leftarrow> reord_process_unit (\<lambda>_. 5) 0 (\<lambda>_. 0) True (demo_frame 1) 5 3 True False demo_rx;
     (_, p) \<leftarrow> reord_process_unit (\<lambda>_. 5) 1 (\<lambda>_. 0) True (demo_frame 2) 7 3 True False p;
     Some p
   }"

theorem reorder_reachable_safe_witness:
  shows "\<exists>p c. demo_held = Some p \<and> ctrl_at 0 3 p = Some c \<and> map rm_seq_num (rc_list c) = [7] \<and>
    length (rp_free p) = 249 \<and> rc_timer c = Some 6 \<and> pool_slots p \<subseteq># mset [0..<MAX_REORD_RXFRAME] \<and>
    (\<exists>n ks. rc_ind_sn c = sn n \<and> map rm_seq_num (rc_list c) = map sn ks \<and> sorted_wrt (<) (n # ks))"
proof -
  have held: "map_option (\<lambda>p. (map_option (\<lambda>c. (map rm_seq_num (rc_list c), rc_timer c)) (ctrl_at 0 3 p), length (rp_free p))) demo_held =
      Some (Some ([7], Some 6), 249)" by code_simp
  then obtain p c where p: "demo_held = Some p" "ctrl_at 0 3 p = Some c" "map rm_seq_num (rc_list c) = [7]" "rc_timer c = Some 6"
    "length (rp_free p) = 249" by auto
  have init: "demo_rx = (aicwf_rx_init demo_net)\<lparr>rp_vif := Some 0, rp_bus_down := False, rp_net := demo_net\<rparr>"
    by (simp add: demo_rx_def aicwf_rx_init_def)
  have "rx_reachable (\<lambda>_. 5) demo_rx" unfolding init by (intro rx_reachable.outside rx_reachable.start)
  moreover obtain x q y where step: "reord_process_unit (\<lambda>_. 5) 0 (\<lambda>_. 0) True (demo_frame 1) 5 3 True False demo_rx = Some (x, q)"
    "reord_process_unit (\<lambda>_. 5) 1 (\<lambda>_. 0) True (demo_frame 2) 7 3 True False q = Some (y, p)"
    using p(1) by (auto simp: demo_held_def bind_eq_Some_conv simp del: One_nat_def)
  ultimately have "rx_reachable (\<lambda>_. 5) q" by (intro rx_reachable.frame [OF _ _ step(1)]) simp_all
  then have "rx_reachable (\<lambda>_. 5) p" by (intro rx_reachable.frame [OF _ _ step(2)]) simp_all
  note safe = reorder_reachable_safe [OF this]
  moreover have "rc_list c \<noteq> []" using p(3) by auto
  ultimately have "\<exists>n ks. rc_ind_sn c = sn n \<and> map rm_seq_num (rc_list c) = map sn ks \<and> sorted_wrt (<) (n # ks)"
    using p(2) by blast
  moreover have "pool_slots p \<subseteq># mset [0..<MAX_REORD_RXFRAME]" by (rule conjunct1 [OF safe])
  ultimately show ?thesis using p by (intro exI [of _ p] exI [of _ c] conjI)
qed

end
