(* ===== verification/Aic_Rx_Correct.thy ===== *)
theory Aic_Rx_Correct
  imports Aic_Rx
begin

text \<open>
  The properties of the end of the receive path: A-MSDUs are split into their frames, and what one
  with bytes left over does; what the acknowledgement filter sees of the frames handed up; and the
  look for a DHCP acknowledgement.
\<close>

section \<open>A-MSDUs\<close>

text \<open>A subframe: destination, source, LLC header and SNAP code, and the rest from the Ethernet type on.\<close>

record subframe =
  sf_da :: bytes
  sf_sa :: bytes
  sf_llc :: bytes
  sf_body :: bytes
  sf_pad :: bytes

definition sf_bytes :: "subframe \<Rightarrow> bytes" where
  "sf_bytes s = sf_da s @ sf_sa s @ be16 (of_nat (6 + length (sf_body s))) @ sf_llc s @ sf_body s"

definition sf_frame :: "subframe \<Rightarrow> sk_buff" where
  "sf_frame s = skb_of (sf_da s @ sf_sa s @ sf_body s)"

definition sf_wf :: "subframe \<Rightarrow> bool" where
  "sf_wf s \<longleftrightarrow> length (sf_da s) = 6 \<and> length (sf_sa s) = 6 \<and> length (sf_llc s) = 6 \<and> length (sf_body s) < 65000"

text \<open>All subframes but the last are padded to four bytes.\<close>

fun amsdu_bytes :: "subframe list \<Rightarrow> bytes" where
  "amsdu_bytes [] = []"
| "amsdu_bytes [s] = sf_bytes s"
| "amsdu_bytes (s # t # ss) = sf_bytes s @ sf_pad s @ amsdu_bytes (t # ss)"

fun padded :: "subframe list \<Rightarrow> bool" where
  "padded (s # t # ss) \<longleftrightarrow> length (sf_bytes s @ sf_pad s) = roundup4 (length (sf_bytes s)) \<and> padded (t # ss)"
| "padded _ = True"

lemma sf_length: "sf_wf s \<Longrightarrow> length (sf_bytes s) = 20 + length (sf_body s)"
  by (simp add: sf_bytes_def sf_wf_def)

text \<open>One turn of the loop on a subframe followed by \<open>rest\<close>.\<close>

lemma amsdu_turn:
  assumes wf: "sf_wf s" and data: "skb_data skb = sf_bytes s @ rest"
  shows "rwnx_rxdata_process_amsdu (Suc mem) True skb list =
      rwnx_rxdata_process_amsdu mem True
        (skb_pull (if rest = [] then length (sf_bytes s) else roundup4 (length (sf_bytes s))) skb) (list @ [sf_frame s])"
    and "rwnx_rxdata_process_amsdu 0 True skb list = Some list"
proof -
  let ?b = "length (sf_body s)"
  define W where "W = (of_nat (6 + length (sf_body s)) :: u16)"
  obtain x y where w: "be16 W = [x, y]" "push_bit 8 (ucast x) OR ucast y = W"
    by (rule that [of "ucast (drop_bit 8 W)" "ucast W"]) (simp_all add: be16_def halves16)
  have lens: "length (sf_da s) = 6" "length (sf_sa s) = 6" "length (sf_llc s) = 6" "?b < 65000" using wf by (simp_all add: sf_wf_def)
  have u: "unat W = 6 + ?b" using lens(4) by (simp only: unat_of_nat W_def) simp
  have len: "skb_len skb = 20 + ?b + length rest" using sf_length [OF wf] by (simp add: skb_len_def data)
  have mem: "skb_mem skb = sf_da s @ sf_sa s @ [x, y] @ sf_llc s @ sf_body s @ rest @ skb_tail skb"
    using w(1) by (simp add: skb_mem_def data sf_bytes_def W_def)
  have hi: "c_get (skb_mem skb) 12 = Some x" "c_get (skb_mem skb) 13 = Some y"
    using lens by (simp_all add: mem c_get_def nth_append)
  have reads: "c_read (skb_mem skb) 0 MAC_ADDR_LEN = Some (sf_da s)" "c_read (skb_mem skb) 6 MAC_ADDR_LEN = Some (sf_sa s)"
      "c_read (skb_mem skb) 20 ?b = Some (sf_body s)"
    using lens by (simp_all add: mem c_read_def MAC_ADDR_LEN_def)
  have n: "length (sf_bytes s) = 20 + ?b" by (rule sf_length [OF wf])
  have r: "roundup4 (20 + ?b) < 65536" using lens(4) by (simp add: roundup4_def)
  have al: "unat (of_nat (roundup4 (20 + ?b)) :: u16) = roundup4 (20 + ?b)" "unat (of_nat (20 + ?b) :: u16) = 20 + ?b"
    using r lens(4) by (simp_all only: unat_of_nat) (auto intro: mod_less)
  show "rwnx_rxdata_process_amsdu (Suc mem) True skb list =
      rwnx_rxdata_process_amsdu mem True
        (skb_pull (if rest = [] then length (sf_bytes s) else roundup4 (length (sf_bytes s))) skb) (list @ [sf_frame s])"
    using al by (subst rwnx_rxdata_process_amsdu.simps)
      (simp add: len hi w(2) u reads n sf_frame_def Let_def)
  show "rwnx_rxdata_process_amsdu 0 True skb list = Some list"
    by (subst rwnx_rxdata_process_amsdu.simps) (simp add: len hi Let_def)
qed

lemma skb_of_data [simp]: "skb_data (skb_of bs) = bs"
  by (simp add: skb_of_def)

lemma amsdu_end: "skb_len skb \<le> 16 \<Longrightarrow> rwnx_rxdata_process_amsdu mem active skb list = Some list"
  by (subst rwnx_rxdata_process_amsdu.simps) simp

lemma skb_pull_data: "n \<le> skb_len skb \<Longrightarrow> skb_data (skb_pull n skb) = drop n (skb_data skb)"
  by (simp add: skb_pull_def)

lemma amsdu_all:
  assumes "\<forall>s \<in> set ss. sf_wf s" and "padded ss" and "skb_data skb = amsdu_bytes ss" and "length ss \<le> mem"
  shows "rwnx_rxdata_process_amsdu mem True skb list = Some (list @ map sf_frame ss)"
  using assms
proof (induction ss arbitrary: mem skb list rule: amsdu_bytes.induct)
  case 1
  then show ?case by (simp add: amsdu_end skb_len_def)
next
  case (2 s)
  then obtain m where m: "mem = Suc m" by (cases mem) auto
  have wf: "sf_wf s" and d: "skb_data skb = sf_bytes s @ []" using 2 by simp_all
  have "skb_len (skb_pull (length (sf_bytes s)) skb) = 0" using d by (simp add: skb_len_def skb_pull_def)
  then show ?case using amsdu_turn(1) [OF wf d, of m list] by (simp add: m amsdu_end)
next
  case (3 s t ss)
  then obtain m where m: "mem = Suc m" by (cases mem) auto
  let ?rest = "sf_pad s @ amsdu_bytes (t # ss)"
  have wf: "sf_wf s" and d: "skb_data skb = sf_bytes s @ ?rest" using 3 by simp_all
  have "amsdu_bytes (t # ss) \<noteq> []" using sf_length [of t] 3(2) by (cases ss) auto
  then have ne: "?rest \<noteq> []" by simp
  have pad: "roundup4 (length (sf_bytes s)) = length (sf_bytes s @ sf_pad s)" using 3(3) by simp
  have nxt: "skb_data (skb_pull (roundup4 (length (sf_bytes s))) skb) = amsdu_bytes (t # ss)"
    unfolding pad by (subst skb_pull_data) (simp_all add: d skb_len_def)
  have "rwnx_rxdata_process_amsdu m True (skb_pull (roundup4 (length (sf_bytes s))) skb) (list @ [sf_frame s]) =
      Some ((list @ [sf_frame s]) @ map sf_frame (t # ss))"
    using 3 m nxt by (intro 3(1)) auto
  moreover have "rwnx_rxdata_process_amsdu (Suc m) True skb list =
      rwnx_rxdata_process_amsdu m True (skb_pull (roundup4 (length (sf_bytes s))) skb) (list @ [sf_frame s])"
    using amsdu_turn(1) [OF wf d, of m list] unfolding if_not_P [OF ne] .
  ultimately show ?case by (simp add: m)
qed

text \<open>C34: An A-MSDU built by the standard - each subframe with its addresses, length, LLC header and
  contents, all but the last padded to four bytes - is split into exactly its frames, in order, each
  with its addresses in front of its Ethernet type, however many buffers are left beyond the
  number of subframes.\<close>

theorem amsdu_round_trip:
  assumes "\<forall>s \<in> set ss. sf_wf s" and "padded ss" and "skb_data skb = amsdu_bytes ss" and "length ss \<le> mem"
  shows "rwnx_rxdata_process_amsdu mem True skb [] = Some (map sf_frame ss)"
  using amsdu_all [OF assms, of "[]"] by simp

definition demo_sub :: "nat \<Rightarrow> u8 \<Rightarrow> subframe" where
  "demo_sub k b = \<lparr>sf_da = replicate 6 1, sf_sa = replicate 6 2, sf_llc = [0xAA, 0xAA, 3, 0, 0, 0],
     sf_body = 8 # 0 # replicate k b, sf_pad = replicate ((2 - k) mod 4) 0\<rparr>"

theorem amsdu_round_trip_witness:
  shows "rwnx_rxdata_process_amsdu 7 True (skb_of (amsdu_bytes [demo_sub 1 5, demo_sub 9 6])) [] =
    Some [skb_of (replicate 6 1 @ replicate 6 2 @ [8, 0, 5]), skb_of (replicate 6 1 @ replicate 6 2 @ 8 # 0 # replicate 9 6)]"
  using amsdu_round_trip [of "[demo_sub 1 5, demo_sub 9 6]" "skb_of (amsdu_bytes [demo_sub 1 5, demo_sub 9 6])" 7]
  by (simp add: demo_sub_def sf_wf_def sf_bytes_def sf_frame_def skb_of_def roundup4_def)

text \<open>An A-MSDU with one or two bytes behind its last subframe, fewer than the padding would
  have, is never finished: the length to be pulled exceeds what is left, so nothing is pulled and
  the last subframe is copied again and again, as often as the kernel can allocate.\<close>

theorem amsdu_left_over_repeats:
  assumes "sf_wf s" and "skb_data skb = sf_bytes s @ rest" and "rest \<noteq> []"
    and "length (sf_bytes s @ rest) < roundup4 (length (sf_bytes s))"
  shows "rwnx_rxdata_process_amsdu mem True skb list = Some (list @ replicate mem (sf_frame s))"
proof (induction mem arbitrary: list)
  case 0
  then show ?case using amsdu_turn(2) [OF assms(1,2)] by simp
next
  case (Suc mem)
  have "skb_pull (roundup4 (length (sf_bytes s))) skb = skb" using assms(2,4) by (simp add: skb_pull_def skb_len_def)
  then show ?case using amsdu_turn(1) [OF assms(1,2), of mem list] assms(3) Suc by (simp add: replicate_app_Cons_same)
qed

theorem amsdu_left_over_repeats_witness:
  shows "rwnx_rxdata_process_amsdu 1000 True (skb_of (sf_bytes (demo_sub 3 5) @ [0])) [] =
    Some (replicate 1000 (sf_frame (demo_sub 3 5)))"
proof -
  have "length (sf_bytes (demo_sub 3 5)) = 25" by (simp add: demo_sub_def sf_bytes_def)
  moreover have "sf_wf (demo_sub 3 5)" by (simp add: demo_sub_def sf_wf_def)
  ultimately show ?thesis
    using amsdu_left_over_repeats [of "demo_sub 3 5" "skb_of (sf_bytes (demo_sub 3 5) @ [0])" "[0]" 1000 "[]"]
    by (simp add: roundup4_def)
qed


section \<open>What the acknowledgement filter sees\<close>

lemma skb_pull_mem: "n \<le> skb_len skb \<Longrightarrow> skb_mem (skb_pull n skb) = drop n (skb_mem skb)"
  by (simp add: skb_mem_def skb_pull_def skb_len_def)

lemma quick_ack_not_ip:
  "c_read buf 12 2 = Some bs \<Longrightarrow> get_be16 bs \<noteq> ETH_P_IP \<Longrightarrow> filter_rx_tcp_ack buf plen m = Some m"
  by (simp add: filter_rx_tcp_ack_def tcp_check_quick_ack_def tcp_segment_def)

lemma arpoffload_ack: "arpoffload_proc pr ip v n = Some n' \<Longrightarrow> rn_ack n' = rn_ack n"
  by (auto simp: arpoffload_proc_def bind_eq_Some_conv split: if_split_asm option.split_asm)

text \<open>The acknowledgement filter never learns of pushed data. It is given the frames from behind their
  Ethernet header on, but looks for that header itself; so handing up a frame whose bytes 26 and 27
  - for IPv4 the first half of the source address - are not 8 and 0 leaves the filter as it is, also for a
  segment with the PSH flag on a flow of its table. (The flag, when set, is what would make the next
  acknowledgement go out at once.)\<close>

theorem rx_psh_never_marked:
  assumes "rx_indicate v skb n = Some n'" and "28 \<le> skb_len skb" and "take 2 (drop 26 (skb_data skb)) \<noteq> [8, 0]"
  shows "rn_ack n' = rn_ack n"
proof -
  let ?mem = "skb_mem (skb_pull 14 skb)"
  have mem: "?mem = drop 14 (skb_mem skb)" using assms(2) by (intro skb_pull_mem) simp
  have "c_read ?mem 12 2 = Some (take 2 (drop 26 (skb_data skb)))"
    using assms(2) unfolding mem by (simp add: c_read_def skb_mem_def skb_len_def)
  moreover have "get_be16 (take 2 (drop 26 (skb_data skb))) \<noteq> ETH_P_IP"
  proof
    assume "get_be16 (take 2 (drop 26 (skb_data skb))) = ETH_P_IP"
    then have "take 2 (drop 26 (skb_data skb)) = be16 ETH_P_IP"
      using be16_get_be16 [of "take 2 (drop 26 (skb_data skb))"] assms(2) by (simp add: skb_len_def)
    also have "be16 ETH_P_IP = [8, 0]" by (simp add: be16_def ETH_P_IP_def)
    finally show False using assms(3) by simp
  qed
  ultimately have keep: "filter_rx_tcp_ack ?mem plen m = Some m" for plen m by (rule quick_ack_not_ip)
  have "rn_ack (vif_count v skb vif n) = rn_ack n" for vif by (simp add: vif_count_def)
  then show ?thesis
    using assms(1) keep
    by (auto simp: rx_indicate_def Let_def bind_eq_Some_conv rx_emit_def dest: arpoffload_ack split: if_split_asm)
qed

text \<open>A segment with PSH from port 80 of 10.0.0.2; a table with the flow of its acknowledgements; the filter
  marks the flow when it is given the frame itself, and not when the frame is handed up.\<close>

definition psh_frame :: bytes where
  "psh_frame = replicate 12 0 @ [0x08, 0x00] @
     [0x45, 0, 0, 40, 0, 0, 0, 0, 64, 6, 0, 0, 10, 0, 0, 2, 10, 0, 0, 1] @
     [0, 80, 0x1F, 0x90, 0, 0, 0, 9, 0, 0, 0, 1, 0x50, 0x18, 0xFF, 0xFF, 0, 0, 0, 0]"

definition psh_table :: tcp_ack_manage where
  "psh_table = tm_slot 0 (\<lambda>a. a\<lparr>ai_busy := True,
     ai_ack_msg := \<lparr>am_source = 0x1F90, am_dest = 80, am_saddr = 0x0A000001, am_daddr = 0x0A000002, am_seq = 1, am_win = 0\<rparr>\<rparr>)
     (tcp_ack_init (\<lambda>_. 5) 0)"

definition psh_net :: rx_net where
  "psh_net = \<lparr>rn_vifs = [Some \<lparr>vif_up = True, vif_iftype = IFTYPE_STATION, vif_dev_addr = replicate 6 2, vif_ccmp = False,
       vif_isolate = False, vif_rx_packets = 0, vif_rx_bytes = 0\<rparr>], rn_ack = psh_table, rn_dhcped = False, rn_out = []\<rparr>"

theorem rx_psh_never_marked_witness:
  shows "map_option (\<lambda>m. ai_psh_flag (tm_ack_info m ! 0)) (filter_rx_tcp_ack psh_frame 54 psh_table) = Some True \<and>
    (\<exists>n'. rx_indicate 0 (skb_of psh_frame) psh_net = Some n' \<and> rn_ack n' = psh_table)"
proof -
  have "map_option (\<lambda>m. ai_psh_flag (tm_ack_info m ! 0)) (filter_rx_tcp_ack psh_frame 54 psh_table) = Some True"
    by code_simp
  moreover have "rx_indicate 0 (skb_of psh_frame) psh_net \<noteq> None" by code_simp
  then obtain n' where n': "rx_indicate 0 (skb_of psh_frame) psh_net = Some n'" by auto
  have "rn_ack n' = rn_ack psh_net"
    by (rule rx_psh_never_marked [OF n']) (simp_all add: skb_len_def psh_frame_def)
  ultimately show ?thesis using n' by (simp add: psh_net_def)
qed

end
