(* ===== verification/Aic_Rxdata.thy ===== *)
theory Aic_Rxdata
  imports Aic_Reorder
begin

text \<open>
  The receive handler \<open>rwnx_rxdataind_aicwf\<close> of \<^verbatim>\<open>aic8800_fdrv/rwnx_rx.c\<close> for frames that are
  not for a monitor interface: the 802.11 header, the defragmentation, the conversion to Ethernet,
  and the choice between reordering, handing up and sending again. \<open>fresh\<close> gives the contents of
  newly allocated memory, \<open>ok\<close> says whether the allocations of a call succeed.
\<close>

section \<open>Data\<close>

datatype decr_status =
    DECR_UNENC | DECR_WEP | DECR_TKIP | DECR_CCMP128 | DECR_CCMP256 | DECR_GCMP128 | DECR_GCMP256 | DECR_WAPI

record hw_rxhdr =
  rh_decr_status :: decr_status
  rh_ga_frame :: bool
  rh_upload :: bool
  rh_is_80211_mpdu :: bool
  rh_need_reord :: bool
  rh_is_amsdu :: bool
  rh_vif_idx :: u8
  rh_sta_idx :: u8
  rh_dst_idx :: u8

definition RWNX_INVALID_STA :: u8 where "RWNX_INVALID_STA = 0xFF"
definition MAC_FCTRL_MOREFRAG :: u16 where "MAC_FCTRL_MOREFRAG = 0x0400"
definition DEFRAG_MAX_WAIT :: nat where "DEFRAG_MAX_WAIT = 40"

record defrag_ctrl_info =
  di_sta_idx :: u8
  di_tid :: u8
  di_sn :: u16
  di_next_fn :: u8
  di_frm_len :: u16
  di_skb :: sk_buff
  di_timer :: u32

record rwnx_sta =
  st_valid :: bool
  st_vlan_idx :: nat

record rwnx_rx =
  rw_priv :: aicwf_rx_priv
  rw_defrag :: "defrag_ctrl_info list"
  rw_sta_table :: "rwnx_sta list"

definition rw_net :: "(rx_net \<Rightarrow> rx_net option) \<Rightarrow> rwnx_rx \<Rightarrow> rwnx_rx option" where
  "rw_net f r = do {
     n \<leftarrow> f (rp_net (rw_priv r));
     Some (r\<lparr>rw_priv := (rw_priv r)\<lparr>rp_net := n\<rparr>\<rparr>)
   }"

definition rw_free :: "sk_buff \<Rightarrow> rwnx_rx \<Rightarrow> rwnx_rx" where
  "rw_free skb r = r\<lparr>rw_priv := rp_emit (Freed skb) (rw_priv r)\<rparr>"

section \<open>The 802.11 header\<close>

record mac_info =
  mi_frame_ctrl :: u16
  mi_seq_num :: u16
  mi_frag_num :: u8
  mi_is_data :: bool
  mi_is_qos :: bool
  mi_tid :: u8
  mi_is_amsdu :: bool
  mi_pull_len :: nat
  mi_ra :: bytes
  mi_ta :: bytes
  mi_ether_type :: bytes

text \<open>What protection adds between the header and the data.\<close>

fun decr_len :: "decr_status \<Rightarrow> nat" where
  "decr_len DECR_UNENC = 0"
| "decr_len DECR_WEP = 4"
| "decr_len DECR_WAPI = 18"
| "decr_len _ = 8"

text \<open>The addresses by the direction of the frame; without one they stay zero.\<close>

definition mac_addrs :: "bytes \<Rightarrow> u8 \<Rightarrow> (bytes \<times> bytes) option" where
  "mac_addrs data fc1 =
     (if fc1 AND 0x3 = 0x1 then do {
        ra \<leftarrow> c_read data 16 MAC_ADDR_LEN;
        ta \<leftarrow> c_read data 10 MAC_ADDR_LEN;
        Some (ra, ta)
      }
      else if fc1 AND 0x3 = 0x2 then do {
        ta \<leftarrow> c_read data 16 MAC_ADDR_LEN;
        ra \<leftarrow> c_read data 4 MAC_ADDR_LEN;
        Some (ra, ta)
      }
      else Some (replicate 6 0, replicate 6 0))"

text \<open>\<open>data\<close> is the memory from the 802.11 header on.\<close>

definition parse_mac :: "decr_status \<Rightarrow> bytes \<Rightarrow> mac_info option" where
  "parse_mac decr data = do {
     fc0 \<leftarrow> c_get data 0;
     fc1 \<leftarrow> c_get data 1;
     s0 \<leftarrow> c_get data 22;
     s1 \<leftarrow> c_get data 23;
     let seq = (ucast (drop_bit 4 s0) OR push_bit 4 (ucast s1) :: u16);
     let mi = \<lparr>mi_frame_ctrl = push_bit 8 (ucast fc1) OR ucast fc0, mi_seq_num = seq, mi_frag_num = s0 AND 0x0f,
               mi_is_data = (fc0 AND 0x0f = 0x08), mi_is_qos = False, mi_tid = 0, mi_is_amsdu = False,
               mi_pull_len = 0, mi_ra = replicate 6 0, mi_ta = replicate 6 0, mi_ether_type = replicate 2 0\<rparr>;
     if fc0 AND 0x0f \<noteq> 0x08 then Some mi
     else do {
       let qos = (fc0 AND 0x80 = 0x80);
       q \<leftarrow> (if qos then c_get data 24 else Some 0);
       let hdr_len = 24 + (if qos then 2 else 0) + (if fc1 AND 0x80 \<noteq> 0 then 4 else 0);
       (ra, ta) \<leftarrow> mac_addrs data fc1;
       ether_type \<leftarrow> c_read data (hdr_len + 6 + decr_len decr) 2;
       Some (mi\<lparr>mi_is_qos := qos, mi_tid := q AND 0x0F, mi_is_amsdu := (qos \<and> q AND 0x80 \<noteq> 0),
                mi_pull_len := hdr_len + 8 + decr_len decr, mi_ra := ra, mi_ta := ta, mi_ether_type := ether_type\<rparr>)
     }
   }"

text \<open>
  An A-MSDU is moved to its first subframe, unless it looks like a plain frame that some access
  point marks as one.
\<close>

definition check_amsdu :: "mac_info \<Rightarrow> sk_buff \<Rightarrow> (bool \<times> sk_buff) option" where
  "check_amsdu mi skb =
     (if \<not> mi_is_amsdu mi then Some (False, skb)
      else do {
        a \<leftarrow> c_get (skb_mem skb) (mi_pull_len mi - 8);
        b \<leftarrow> (if a = 0xAA then c_get (skb_mem skb) (mi_pull_len mi - 7) else Some 0);
        c \<leftarrow> (if a = 0xAA \<and> b = 0xAA then c_get (skb_mem skb) (mi_pull_len mi - 2) else Some 0);
        if a = 0xAA \<and> b = 0xAA \<and> c > 0x06 then Some (False, skb)
        else Some (True, skb_pull (mi_pull_len mi - 8) skb)
      })"

text \<open>The conversion to an Ethernet frame in place.\<close>

definition to_ethernet :: "mac_info \<Rightarrow> sk_buff \<Rightarrow> sk_buff option" where
  "to_ethernet mi skb = do {
     skb \<leftarrow> skb_push 14 (skb_pull (mi_pull_len mi) skb);
     skb \<leftarrow> skb_write 0 (mi_ra mi) skb;
     skb \<leftarrow> skb_write 6 (mi_ta mi) skb;
     skb_write 12 (mi_ether_type mi) skb
   }"


section \<open>Handing up and sending again\<close>

definition is_multicast :: "sk_buff \<Rightarrow> bool option" where
  "is_multicast skb = Option.bind (c_get (skb_mem skb) 0) (\<lambda>b. Some (b AND 1 \<noteq> 0))"

text \<open>Whether the destination is a station of the same interface.\<close>

definition dst_inside :: "u8 \<Rightarrow> nat \<Rightarrow> rwnx_sta list \<Rightarrow> bool option" where
  "dst_inside dst_idx v table =
     (if dst_idx = RWNX_INVALID_STA then Some False
      else Option.bind (c_get table (unat dst_idx)) (\<lambda>sta. Some (st_valid sta \<and> st_vlan_idx sta = v)))"

text \<open>The pair of \<open>resend\<close> and \<open>forward\<close>; an empty list has no first frame to look at.\<close>

definition rx_route :: "hw_rxhdr \<Rightarrow> nat \<Rightarrow> rwnx_vif \<Rightarrow> sk_buff list \<Rightarrow> rwnx_sta list \<Rightarrow> (bool \<times> bool) option" where
  "rx_route h v vif skbs table =
     (if (is_ap (vif_iftype vif) \<or> vif_iftype vif = IFTYPE_AP_VLAN) \<and> \<not> vif_isolate vif then
        (case skbs of
           [] \<Rightarrow> None
         | skb # _ \<Rightarrow> do {
             multi \<leftarrow> is_multicast skb;
             if multi then Some (True, True)
             else do {
               inside \<leftarrow> dst_inside (rh_dst_idx h) v table;
               Some (if inside then (True, False) else (False, True))
             }
           })
      else if vif_iftype vif = IFTYPE_MESH_POINT then
        (case skbs of
           [] \<Rightarrow> None
         | skb # _ \<Rightarrow> do {
             multi \<leftarrow> is_multicast skb;
             Some (if \<not> multi \<and> rh_dst_idx h \<noteq> RWNX_INVALID_STA then (True, False) else (False, True))
           })
      else Some (False, True))"

definition rx_resend :: "bool \<Rightarrow> nat \<Rightarrow> sk_buff \<Rightarrow> rx_net \<Rightarrow> rx_net" where
  "rx_resend ok v skb n = (if ok then rx_emit (Resent v (skb_data skb)) n else n)"

fun rx_each :: "bool \<Rightarrow> bool \<Rightarrow> bool \<Rightarrow> nat \<Rightarrow> sk_buff list \<Rightarrow> rx_net \<Rightarrow> rx_net option" where
  "rx_each ok resend forward v [] n = Some n"
| "rx_each ok resend forward v (skb # skbs) n =
     (let n = (if resend then rx_resend ok v skb n else n) in
      Option.bind (if forward then rx_indicate v skb n else Some n) (rx_each ok resend forward v skbs))"

definition rwnx_rx_data_skb ::
  "(sk_buff \<Rightarrow> nat) \<Rightarrow> bool \<Rightarrow> hw_rxhdr \<Rightarrow> nat \<Rightarrow> sk_buff \<Rightarrow> rwnx_rx \<Rightarrow> (bool \<times> rwnx_rx) option" where
  "rwnx_rx_data_skb mem ok h v skb r = do {
     vif \<leftarrow> vif_at v (rp_net (rw_priv r));
     (skbs, n) \<leftarrow> rx_list (mem skb) (unat (rh_vif_idx h)) (rh_is_amsdu h) skb (rp_net (rw_priv r));
     (resend, forward) \<leftarrow> rx_route h v vif skbs (rw_sta_table r);
     n \<leftarrow> rx_each ok resend forward v skbs n;
     Some (forward, r\<lparr>rw_priv := (rw_priv r)\<lparr>rp_net := n\<rparr>\<rparr>)
   }"

section \<open>Defragmentation\<close>

definition defrag_key :: "u8 \<Rightarrow> mac_info \<Rightarrow> defrag_ctrl_info \<Rightarrow> bool" where
  "defrag_key sta_idx mi d \<longleftrightarrow> di_sn d = mi_seq_num mi \<and> di_tid d = mi_tid mi \<and> di_sta_idx d = sta_idx"

fun defrag_find :: "u8 \<Rightarrow> mac_info \<Rightarrow> defrag_ctrl_info list \<Rightarrow> nat option" where
  "defrag_find sta_idx mi [] = None"
| "defrag_find sta_idx mi (d # ds) =
     (if defrag_key sta_idx mi d then Some 0 else map_option Suc (defrag_find sta_idx mi ds))"

text \<open>The data of a further fragment, which has no LLC header, go to the end of the buffer.\<close>

definition defrag_append :: "nat \<Rightarrow> sk_buff \<Rightarrow> defrag_ctrl_info \<Rightarrow> defrag_ctrl_info option" where
  "defrag_append pull_len skb d =
     (if skb_len skb < pull_len - 8 then None
      else do {
        let n = skb_len skb - (pull_len - 8);
        b \<leftarrow> skb_put n (di_skb d);
        payload \<leftarrow> c_read (skb_mem skb) (pull_len - 8) n;
        b \<leftarrow> skb_write (unat (di_frm_len d)) payload b;
        Some (d\<lparr>di_skb := b, di_frm_len := di_frm_len d + of_nat n\<rparr>)
      })"

text \<open>The first fragment, converted, is copied to a buffer of its own (its memory is \<open>fresh\<close>).\<close>

definition defrag_start ::
  "(nat \<Rightarrow> u32) \<Rightarrow> u32 \<Rightarrow> bytes \<Rightarrow> u8 \<Rightarrow> mac_info \<Rightarrow> sk_buff \<Rightarrow> (sk_buff \<times> defrag_ctrl_info) option" where
  "defrag_start jf now fresh sta_idx mi skb = do {
     skb \<leftarrow> to_ethernet mi skb;
     b \<leftarrow> skb_put (skb_len skb) \<lparr>skb_head = [], skb_data = [], skb_tail = fresh\<rparr>;
     b \<leftarrow> skb_write 0 (skb_data skb) b;
     Some (skb, \<lparr>di_sta_idx = sta_idx, di_tid = mi_tid mi, di_sn = mi_seq_num mi, di_next_fn = 1,
        di_frm_len = of_nat (skb_len skb), di_skb = b, di_timer = now + jf DEFRAG_MAX_WAIT\<rparr>)
   }"

text \<open>A fragment that is not the last; the frame is always consumed.\<close>

definition defrag_more ::
  "(nat \<Rightarrow> u32) \<Rightarrow> u32 \<Rightarrow> bool \<Rightarrow> bytes \<Rightarrow> u8 \<Rightarrow> mac_info \<Rightarrow> sk_buff \<Rightarrow> rwnx_rx \<Rightarrow> rwnx_rx option" where
  "defrag_more jf now ok fresh sta_idx mi skb r =
     (case defrag_find sta_idx mi (rw_defrag r) of
        Some i \<Rightarrow>
          (let d = rw_defrag r ! i in
           if di_next_fn d \<noteq> mi_frag_num mi then Some (rw_free skb r)
           else do {
             d \<leftarrow> defrag_append (mi_pull_len mi) skb d;
             Some (rw_free skb (r\<lparr>rw_defrag := (rw_defrag r)[i := d\<lparr>di_next_fn := di_next_fn d + 1\<rparr>]\<rparr>))
           })
      | None \<Rightarrow>
          if \<not> ok then Some (rw_free skb r)
          else do {
            (skb, d) \<leftarrow> defrag_start jf now fresh sta_idx mi skb;
            Some (rw_free skb (r\<lparr>rw_defrag := rw_defrag r @ [d]\<rparr>))
          })"

text \<open>The last fragment: \<open>None\<close> inside when there is no frame it belongs to.\<close>

definition defrag_last ::
  "(sk_buff \<Rightarrow> nat) \<Rightarrow> bool \<Rightarrow> hw_rxhdr \<Rightarrow> u8 \<Rightarrow> mac_info \<Rightarrow> sk_buff \<Rightarrow> rwnx_rx \<Rightarrow> rwnx_rx option option" where
  "defrag_last mem ok h sta_idx mi skb r =
     (case defrag_find sta_idx mi (rw_defrag r) of
        None \<Rightarrow> Some None
      | Some i \<Rightarrow>
          (let d = rw_defrag r ! i in
           if di_next_fn d \<noteq> mi_frag_num mi then Some (Some (rw_free skb r))
           else do {
             d \<leftarrow> defrag_append (mi_pull_len mi) skb d;
             v \<leftarrow> rwnx_rx_get_vif (unat (rh_vif_idx h)) (rp_net (rw_priv r));
             (case v of
                None \<Rightarrow> Some (Some (rw_free skb (r\<lparr>rw_defrag := (rw_defrag r)[i := d]\<rparr>)))
              | Some v \<Rightarrow> do {
                  let r = rw_free skb r;
                  let r = r\<lparr>rw_defrag := take i (rw_defrag r) @ drop (Suc i) (rw_defrag r)\<rparr>;
                  (forward, r) \<leftarrow> rwnx_rx_data_skb mem ok h v (di_skb d) r;
                  Some (Some (if forward then r else rw_free (di_skb d) r))
                })
           }))"

text \<open>
  The timer of a fragment list that was not completed. After this the callback releases the lock
  through the entry it has just freed.
\<close>

definition defrag_timeout_cb :: "nat \<Rightarrow> rwnx_rx \<Rightarrow> rwnx_rx option" where
  "defrag_timeout_cb i r = do {
     d \<leftarrow> c_get (rw_defrag r) i;
     Some (rw_free (di_skb d) (r\<lparr>rw_defrag := take i (rw_defrag r) @ drop (Suc i) (rw_defrag r)\<rparr>))
   }"


section \<open>The interface and the choice of the path\<close>

text \<open>A protected management frame loses its 8 bytes of CCMP or GCMP header.\<close>

definition remove_sec_hdr_mgmt_frame :: "hw_rxhdr \<Rightarrow> sk_buff \<Rightarrow> sk_buff option" where
  "remove_sec_hdr_mgmt_frame h skb =
     (if rh_ga_frame h then Some skb
      else do {
        fc0 \<leftarrow> c_get (skb_mem skb) 0;
        fc1 \<leftarrow> (if fc0 AND 0x0C = 0 then c_get (skb_mem skb) 1 else Some 0);
        if fc0 AND 0x0C = 0 \<and> fc1 AND 0x40 = 0x40 \<and>
          rh_decr_status h \<in> {DECR_CCMP128, DECR_CCMP256, DECR_GCMP128, DECR_GCMP256}
        then do {
          hdr \<leftarrow> c_read (skb_mem skb) 0 24;
          skb_write 0 hdr (skb_pull 8 skb)
        }
        else Some skb
      })"

text \<open>
  The interface of a frame: that of the descriptor, or the one its station has been moved to;
  \<open>None\<close> inside for a frame that is dropped.
\<close>

definition rx_interface :: "hw_rxhdr \<Rightarrow> rwnx_rx \<Rightarrow> nat option option" where
  "rx_interface h r = do {
     let n = rp_net (rw_priv r);
     v \<leftarrow> rwnx_rx_get_vif (unat (rh_vif_idx h)) n;
     (case v of
        None \<Rightarrow> Some None
      | Some v \<Rightarrow>
          if rh_sta_idx h = RWNX_INVALID_STA then Some (Some v)
          else do {
            sta \<leftarrow> c_get (rw_sta_table r) (unat (rh_sta_idx h));
            if st_vlan_idx sta = v then Some (Some v)
            else do {
              e \<leftarrow> c_get (rn_vifs n) (st_vlan_idx sta);
              Some (case e of None \<Rightarrow> None | Some _ \<Rightarrow> Some (st_vlan_idx sta))
            }
          })
   }"

definition rw_unit ::
  "(nat \<Rightarrow> u32) \<Rightarrow> u32 \<Rightarrow> (sk_buff \<Rightarrow> nat) \<Rightarrow> bool \<Rightarrow> hw_rxhdr \<Rightarrow> mac_info \<Rightarrow> bool \<Rightarrow> sk_buff \<Rightarrow> rwnx_rx \<Rightarrow> rwnx_rx option" where
  "rw_unit jf now mem ok h mi forward skb r = do {
     (_, p) \<leftarrow> reord_process_unit jf now mem ok skb (mi_seq_num mi) (mi_tid mi) forward (rh_is_amsdu h) (rw_priv r);
     Some (r\<lparr>rw_priv := p\<rparr>)
   }"

definition rw_flush :: "(sk_buff \<Rightarrow> nat) \<Rightarrow> mac_info \<Rightarrow> sk_buff \<Rightarrow> rwnx_rx \<Rightarrow> rwnx_rx option" where
  "rw_flush mem mi skb r = do {
     (_, p) \<leftarrow> reord_flush_tid mem skb (mi_tid mi) (rw_priv r);
     Some (r\<lparr>rw_priv := p\<rparr>)
   }"

definition rx_client ::
  "(nat \<Rightarrow> u32) \<Rightarrow> u32 \<Rightarrow> (sk_buff \<Rightarrow> nat) \<Rightarrow> bool \<Rightarrow> hw_rxhdr \<Rightarrow> mac_info \<Rightarrow> nat \<Rightarrow> sk_buff \<Rightarrow> rwnx_rx \<Rightarrow> rwnx_rx option" where
  "rx_client jf now mem ok h mi v skb r =
     (if mi_is_qos mi \<and> rh_need_reord h then rw_unit jf now mem ok h mi True skb r
      else do {
        r \<leftarrow> (if mi_is_qos mi then rw_flush mem mi skb r else Some r);
        (forward, r) \<leftarrow> rwnx_rx_data_skb mem ok h v skb r;
        Some (if \<not> forward \<and> \<not> rh_is_amsdu h then rw_free skb r else r)
      })"

definition rx_ap ::
  "(nat \<Rightarrow> u32) \<Rightarrow> u32 \<Rightarrow> (sk_buff \<Rightarrow> nat) \<Rightarrow> bool \<Rightarrow> hw_rxhdr \<Rightarrow> mac_info \<Rightarrow> nat \<Rightarrow> sk_buff \<Rightarrow> rwnx_rx \<Rightarrow> rwnx_rx option" where
  "rx_ap jf now mem ok h mi v skb r = do {
     multi \<leftarrow> is_multicast skb;
     inside \<leftarrow> (if multi then Some False else dst_inside (rh_dst_idx h) v (rw_sta_table r));
     let resend = (multi \<or> inside);
     let forward = (\<not> inside);
     r \<leftarrow> (if resend then rw_net (\<lambda>n. Some (rx_resend ok v skb n)) r else Some r);
     if mi_is_qos mi \<and> rh_need_reord h then rw_unit jf now mem ok h mi forward skb r
     else do {
       r \<leftarrow> (if mi_is_qos mi then rw_flush mem mi skb r else Some r);
       if forward then rw_net (rwnx_rx_data_skb_forward (mem skb) v (rh_is_amsdu h) skb) r
       else Some (if mi_is_qos mi then rw_free skb r else r)
     }
   }"

definition rx_dispatch ::
  "(nat \<Rightarrow> u32) \<Rightarrow> u32 \<Rightarrow> (sk_buff \<Rightarrow> nat) \<Rightarrow> bool \<Rightarrow> hw_rxhdr \<Rightarrow> mac_info \<Rightarrow> sk_buff \<Rightarrow> rwnx_rx \<Rightarrow> rwnx_rx option" where
  "rx_dispatch jf now mem ok h mi skb r =
     (if rh_is_80211_mpdu h then do {
        skb \<leftarrow> remove_sec_hdr_mgmt_frame h skb;
        rw_net (\<lambda>n. Some (rx_emit (Freed skb) (rx_emit (Mgmt skb) n))) r
      }
      else do {
        v \<leftarrow> rx_interface h r;
        (case v of
           None \<Rightarrow> Some (rw_free skb r)
         | Some v \<Rightarrow> do {
             let r = r\<lparr>rw_priv := (rw_priv r)\<lparr>rp_vif := Some v\<rparr>\<rparr>;
             vif \<leftarrow> vif_at v (rp_net (rw_priv r));
             if is_client (vif_iftype vif) then rx_client jf now mem ok h mi v skb r
             else if is_ap (vif_iftype vif) then rx_ap jf now mem ok h mi v skb r
             else Some r
           })
      })"

section \<open>The handler\<close>

text \<open>
  The Ethernet header is written 14 bytes before the data behind the 802.11 header. A frame shorter than
  its headers is not moved there (\<open>skb_pull\<close> does nothing), so that the 14 bytes are the last of the
  60 in front of it, and the third to sixth byte of the address lie on the flags of the descriptor at
  48, which the code goes on reading.
\<close>

definition rxhdr_overwrite :: "bytes \<Rightarrow> hw_rxhdr \<Rightarrow> hw_rxhdr" where
  "rxhdr_overwrite ra h = h\<lparr>rh_is_amsdu := bit (ra ! 2) 0, rh_is_80211_mpdu := bit (ra ! 2) 1,
     rh_need_reord := bit (ra ! 2) 5, rh_upload := bit (ra ! 2) 6,
     rh_vif_idx := ra ! 3, rh_sta_idx := ra ! 4, rh_dst_idx := ra ! 5\<rparr>"

definition rx_convert :: "hw_rxhdr \<Rightarrow> mac_info \<Rightarrow> sk_buff \<Rightarrow> (hw_rxhdr \<times> sk_buff) option" where
  "rx_convert h mi skb = do {
     skb' \<leftarrow> to_ethernet mi skb;
     Some (if skb_len skb < mi_pull_len mi then rxhdr_overwrite (mi_ra mi) h else h, skb')
   }"

text \<open>The length of the descriptor in front of the frame, with its padding.\<close>

definition RX_DESC_LEN :: nat where "RX_DESC_LEN = 60"

text \<open>A data frame once its header is parsed: fragments are collected, the rest is converted.\<close>

definition rx_data_frame ::
  "(nat \<Rightarrow> u32) \<Rightarrow> u32 \<Rightarrow> (sk_buff \<Rightarrow> nat) \<Rightarrow> bool \<Rightarrow> bytes \<Rightarrow> hw_rxhdr \<Rightarrow> mac_info \<Rightarrow> sk_buff \<Rightarrow> rwnx_rx \<Rightarrow> rwnx_rx option" where
  "rx_data_frame jf now mem ok fresh h mi skb r = do {
     (is_amsdu, skb) \<leftarrow> check_amsdu mi skb;
     let h = h\<lparr>rh_is_amsdu := is_amsdu\<rparr>;
     let sta_idx = (if rh_dst_idx h \<noteq> RWNX_INVALID_STA then rh_dst_idx h else 0);
     let more = (mi_frame_ctrl mi AND MAC_FCTRL_MOREFRAG \<noteq> 0);
     if \<not> rh_need_reord h \<and> more then defrag_more jf now ok fresh sta_idx mi skb r
     else do {
       fin \<leftarrow> (if \<not> rh_need_reord h \<and> mi_frag_num mi \<noteq> 0 then defrag_last mem ok h sta_idx mi skb r else Some None);
       (case fin of
          Some r \<Rightarrow> Some r
        | None \<Rightarrow> do {
            (h, skb) \<leftarrow> (if is_amsdu then Some (h, skb) else rx_convert h mi skb);
            rx_dispatch jf now mem ok h mi skb r
          })
     }
   }"

definition rwnx_rxdataind_aicwf ::
  "(nat \<Rightarrow> u32) \<Rightarrow> u32 \<Rightarrow> (sk_buff \<Rightarrow> nat) \<Rightarrow> bool \<Rightarrow> bytes \<Rightarrow> hw_rxhdr \<Rightarrow> sk_buff \<Rightarrow> rwnx_rx \<Rightarrow> rwnx_rx option" where
  "rwnx_rxdataind_aicwf jf now mem ok fresh h skb r =
     (if \<not> rh_upload h then Some r
      else do {
        let skb = skb_pull RX_DESC_LEN skb;
        mi \<leftarrow> parse_mac (rh_decr_status h) (skb_mem skb);
        if mi_is_data mi then rx_data_frame jf now mem ok fresh h mi skb r
        else rx_dispatch jf now mem ok h mi skb r
      })"

end
