(* ===== verification/Aic_Rxdata_Correct.thy ===== *)
theory Aic_Rxdata_Correct
  imports Aic_Rxdata Aic_Reorder_Correct
begin

text \<open>
  The properties of the receive handler: fragments are put together again, or overrun the buffer; and
  a frame shorter than its headers chooses the station it is taken for.
\<close>

section \<open>Fragments\<close>

text \<open>What a fragment that is not the first adds, and the Ethernet frame the first becomes.\<close>

definition frag_payload :: "mac_info \<Rightarrow> sk_buff \<Rightarrow> bytes" where
  "frag_payload mi skb = drop (mi_pull_len mi - 8) (skb_data skb)"

definition first_frame :: "mac_info \<Rightarrow> sk_buff \<Rightarrow> bytes" where
  "first_frame mi skb = mi_ra mi @ mi_ta mi @ mi_ether_type mi @ drop (mi_pull_len mi) (skb_data skb)"

text \<open>A buffer that holds \<open>bs\<close> in memory \<open>fresh\<close>.\<close>

definition frag_buffer :: "bytes \<Rightarrow> bytes \<Rightarrow> sk_buff" where
  "frag_buffer fresh bs = \<lparr>skb_head = [], skb_data = bs, skb_tail = drop (length bs) fresh\<rparr>"

definition header_ok :: "mac_info \<Rightarrow> bool" where
  "header_ok mi \<longleftrightarrow> length (mi_ra mi) = 6 \<and> length (mi_ta mi) = 6 \<and> length (mi_ether_type mi) = 2 \<and>
     32 \<le> mi_pull_len mi"

lemma put_and_write:
  assumes "length bs + length xs \<le> length fresh"
  shows "Option.bind (skb_put (length xs) (frag_buffer fresh bs)) (skb_write (length bs) xs) = Some (frag_buffer fresh (bs @ xs))"
  using assms by (simp add: skb_put_def frag_buffer_def skb_write_def skb_mem_def skb_len_def c_write_def add.commute)

lemma put_full: "length fresh < length bs + n \<Longrightarrow> length bs \<le> length fresh \<Longrightarrow> skb_put n (frag_buffer fresh bs) = None"
  by (simp add: skb_put_def frag_buffer_def)

lemma append_step:
  assumes d: "di_skb d = frag_buffer fresh bs" "di_frm_len d = of_nat (length bs)"
    and len: "length bs \<le> length fresh" "length fresh < 65536" "mi_pull_len mi - 8 \<le> skb_len skb"
  shows "defrag_append (mi_pull_len mi) skb d =
    (if length (bs @ frag_payload mi skb) \<le> length fresh
     then Some (d\<lparr>di_skb := frag_buffer fresh (bs @ frag_payload mi skb), di_frm_len := of_nat (length (bs @ frag_payload mi skb))\<rparr>)
     else None)"
proof -
  let ?k = "mi_pull_len mi - 8" and ?x = "frag_payload mi skb"
  have n: "skb_len skb - ?k = length ?x" by (simp add: frag_payload_def skb_len_def)
  have read: "c_read (skb_mem skb) ?k (length ?x) = Some ?x"
    using len(3) by (simp add: c_read_def skb_mem_def frag_payload_def skb_len_def)
  have frm: "unat (di_frm_len d) = length bs" using d(2) len(1,2) by (simp add: unat_of_nat)
  show ?thesis
  proof (cases "length (bs @ ?x) \<le> length fresh")
    case True
    then have "length bs + length ?x \<le> length fresh" by simp
    from put_and_write [OF this] obtain b where b: "skb_put (length ?x) (frag_buffer fresh bs) = Some b"
      "skb_write (length bs) ?x b = Some (frag_buffer fresh (bs @ ?x))" by (auto simp: bind_eq_Some_conv)
    have "defrag_append (mi_pull_len mi) skb d =
        Some (d\<lparr>di_skb := frag_buffer fresh (bs @ ?x), di_frm_len := di_frm_len d + of_nat (length ?x)\<rparr>)"
      using len(3) unfolding defrag_append_def Let_def n frm d(1) by (simp add: b read)
    with True d(2) show ?thesis by simp
  next
    case False
    then have "skb_put (length ?x) (frag_buffer fresh bs) = None" using len(1) by (intro put_full) simp_all
    with False show ?thesis using len(3) unfolding defrag_append_def Let_def n frm d(1) by simp
  qed
qed

lemma convert_step:
  assumes "header_ok mi" and "mi_pull_len mi \<le> skb_len skb"
  shows "\<exists>skb'. to_ethernet mi skb = Some skb' \<and> skb_data skb' = first_frame mi skb"
proof -
  let ?k = "mi_pull_len mi" and ?h = "skb_head skb @ take (mi_pull_len mi) (skb_data skb)"
  define k where "k = length ?h - 14"
  have len: "length ?h = length (skb_head skb) + ?k" using assms(2) by (simp add: skb_len_def)
  have ok: "14 \<le> length ?h" and k: "length (drop k ?h) = 14" using assms(1) len by (simp_all add: header_ok_def k_def)
  have pull: "skb_pull ?k skb = skb\<lparr>skb_head := ?h, skb_data := drop ?k (skb_data skb)\<rparr>" using assms(2) by (simp add: skb_pull_def)
  define m where "m = drop k ?h"
  have push: "skb_push 14 (skb_pull ?k skb) = Some (skb\<lparr>skb_head := take k ?h, skb_data := m @ drop ?k (skb_data skb)\<rparr>)"
    using ok by (simp add: skb_push_def pull k_def Let_def m_def)
  show ?thesis
    using assms(1) k unfolding to_ethernet_def push m_def [symmetric]
    by (auto simp: header_ok_def skb_write_def skb_mem_def skb_len_def c_write_def first_frame_def)
qed

lemma find_entry: "defrag_find s mi ds = None \<Longrightarrow> defrag_key s mi d \<Longrightarrow> defrag_find s mi (ds @ [d]) = Some (length ds)"
  by (induction ds) (auto split: if_splits)

text \<open>The entry of a frame of which \<open>n\<close> fragments with the bytes \<open>bs\<close> have come.\<close>

definition frag_entry :: "u8 \<Rightarrow> u32 \<Rightarrow> mac_info \<Rightarrow> bytes \<Rightarrow> bytes \<Rightarrow> nat \<Rightarrow> defrag_ctrl_info" where
  "frag_entry sta t mi fresh bs n = \<lparr>di_sta_idx = sta, di_tid = mi_tid mi, di_sn = mi_seq_num mi, di_next_fn = of_nat n,
     di_frm_len = of_nat (length bs), di_skb = frag_buffer fresh bs, di_timer = t\<rparr>"

definition has_more :: "mac_info \<Rightarrow> bool" where
  "has_more mi \<longleftrightarrow> mi_frame_ctrl mi AND MAC_FCTRL_MOREFRAG \<noteq> 0"

text \<open>A fragment of the frame that \<open>mi0\<close> begins.\<close>

definition fragment_of :: "mac_info \<Rightarrow> mac_info \<Rightarrow> sk_buff \<Rightarrow> bool" where
  "fragment_of mi0 mi skb \<longleftrightarrow> mi_seq_num mi = mi_seq_num mi0 \<and> mi_tid mi = mi_tid mi0 \<and> \<not> mi_is_amsdu mi \<and>
     mi_pull_len mi - 8 \<le> skb_len skb"

definition frag_sta :: "hw_rxhdr \<Rightarrow> u8" where
  "frag_sta h = (if rh_dst_idx h \<noteq> RWNX_INVALID_STA then rh_dst_idx h else 0)"

lemma find_same: "fragment_of mi0 mi skb \<Longrightarrow> defrag_find s mi ds = defrag_find s mi0 ds"
  by (induction ds) (simp_all add: fragment_of_def defrag_key_def)

lemma find_fragment:
  assumes "fragment_of mi0 mi skb" and "defrag_find s mi0 ds = None"
  shows "defrag_find s mi (ds @ [frag_entry s t mi0 fresh bs n]) = Some (length ds)"
  using assms by (intro find_entry) (simp_all add: find_same [OF assms(1)] defrag_key_def frag_entry_def fragment_of_def)

lemma free_defrag: "rw_free skb (r\<lparr>rw_defrag := ds\<rparr>) = (rw_free skb r)\<lparr>rw_defrag := ds\<rparr>"
  by (simp add: rw_free_def)

lemma entry_step:
  assumes "fragment_of mi0 mi skb" and "length bs \<le> length fresh" and "length fresh < 65536"
  shows "defrag_append (mi_pull_len mi) skb (frag_entry s t mi0 fresh bs n) =
    (if length (bs @ frag_payload mi skb) \<le> length fresh
     then Some (frag_entry s t mi0 fresh (bs @ frag_payload mi skb) n) else None)"
proof -
  have e: "di_skb (frag_entry s t mi0 fresh bs n) = frag_buffer fresh bs"
    "di_frm_len (frag_entry s t mi0 fresh bs n) = of_nat (length bs)" by (simp_all add: frag_entry_def)
  show ?thesis
    by (subst append_step [OF e assms(2,3)]) (use assms(1) in \<open>simp_all add: fragment_of_def frag_entry_def\<close>)
qed

lemma fragment_data_frame:
  assumes "fragment_of mi0 mi skb" and "\<not> rh_need_reord h" and "has_more mi \<or> mi_frag_num mi \<noteq> 0"
  shows "rx_data_frame jf now mem ok fr h mi skb r =
    (if has_more mi then defrag_more jf now ok fr (frag_sta h) mi skb r
     else Option.bind (defrag_last mem ok (h\<lparr>rh_is_amsdu := False\<rparr>) (frag_sta h) mi skb r) (\<lambda>x. case x of
         Some r \<Rightarrow> Some r
       | None \<Rightarrow> Option.bind (rx_convert (h\<lparr>rh_is_amsdu := False\<rparr>) mi skb) (\<lambda>(h, skb). rx_dispatch jf now mem ok h mi skb r)))"
proof -
  have "check_amsdu mi skb = Some (False, skb)" using assms(1) by (simp add: check_amsdu_def fragment_of_def)
  with assms(2,3) show ?thesis by (cases "has_more mi") (simp_all add: rx_data_frame_def has_more_def frag_sta_def Let_def)
qed

lemma middle_step:
  assumes f: "fragment_of mi0 mi skb" "has_more mi" "mi_frag_num mi = of_nat n" and h: "\<not> rh_need_reord h"
    and ds: "defrag_find (frag_sta h) mi0 ds = None" and len: "length bs \<le> length fresh" "length fresh < 65536"
  shows "rx_data_frame jf now mem ok fr h mi skb (r\<lparr>rw_defrag := ds @ [frag_entry (frag_sta h) t mi0 fresh bs n]\<rparr>) =
    (if length (bs @ frag_payload mi skb) \<le> length fresh
     then Some ((rw_free skb r)\<lparr>rw_defrag := ds @ [frag_entry (frag_sta h) t mi0 fresh (bs @ frag_payload mi skb) (Suc n)]\<rparr>)
     else None)"
proof -
  have next_fn: "di_next_fn (frag_entry s t mi0 fresh b n) = of_nat n" for s b by (simp add: frag_entry_def)
  have up: "(frag_entry s t mi0 fresh b n)\<lparr>di_next_fn := of_nat n + 1\<rparr> = frag_entry s t mi0 fresh b (Suc n)" for s b
    by (simp add: frag_entry_def)
  have "rx_data_frame jf now mem ok fr h mi skb (r\<lparr>rw_defrag := ds @ [frag_entry (frag_sta h) t mi0 fresh bs n]\<rparr>) =
      defrag_more jf now ok fr (frag_sta h) mi skb (r\<lparr>rw_defrag := ds @ [frag_entry (frag_sta h) t mi0 fresh bs n]\<rparr>)"
    using fragment_data_frame [OF f(1) h] f(2) by simp
  then show ?thesis
    by (simp add: defrag_more_def find_fragment [OF f(1) ds] next_fn f(3) entry_step [OF f(1) len] up free_defrag Let_def)
qed

fun frag_run ::
  "(nat \<Rightarrow> u32) \<Rightarrow> (sk_buff \<Rightarrow> nat) \<Rightarrow> hw_rxhdr \<Rightarrow> (u32 \<times> bytes \<times> mac_info \<times> sk_buff) list \<Rightarrow> rwnx_rx \<Rightarrow> rwnx_rx option" where
  "frag_run jf mem h [] r = Some r"
| "frag_run jf mem h ((now, fresh, mi, skb) # xs) r =
     Option.bind (rx_data_frame jf now mem True fresh h mi skb r) (frag_run jf mem h xs)"

lemma frag_run_nil: "frag_run jf mem h [] = Some"
  by (rule ext) simp

lemma frag_run_append: "frag_run jf mem h (xs @ ys) r = Option.bind (frag_run jf mem h xs r) (frag_run jf mem h ys)"
  by (induction xs arbitrary: r) (auto split: Option.bind_split)

definition payloads :: "(u32 \<times> bytes \<times> mac_info \<times> sk_buff) list \<Rightarrow> bytes" where
  "payloads xs = concat (map (\<lambda>(now, fresh, mi, skb). frag_payload mi skb) xs)"

definition frag_skb :: "u32 \<times> bytes \<times> mac_info \<times> sk_buff \<Rightarrow> sk_buff" where
  "frag_skb = (\<lambda>(now, fresh, mi, skb). skb)"

definition frag_mi :: "u32 \<times> bytes \<times> mac_info \<times> sk_buff \<Rightarrow> mac_info" where
  "frag_mi = (\<lambda>(now, fresh, mi, skb). mi)"

lemma frag_parts [simp]: "frag_mi (now, fresh, mi, skb) = mi" "frag_skb (now, fresh, mi, skb) = skb"
  by (simp_all add: frag_mi_def frag_skb_def)

lemma middle_run:
  assumes h: "\<not> rh_need_reord h" and ds: "defrag_find (frag_sta h) mi0 ds = None"
    and xs: "\<forall>x \<in> set xs. fragment_of mi0 (frag_mi x) (frag_skb x) \<and> has_more (frag_mi x)"
      "map (mi_frag_num \<circ> frag_mi) xs = map of_nat [n..<n + length xs]"
    and len: "length bs \<le> length fresh" "length fresh < 65536"
  shows "frag_run jf mem h xs (r\<lparr>rw_defrag := ds @ [frag_entry (frag_sta h) t mi0 fresh bs n]\<rparr>) =
    (if length (bs @ payloads xs) \<le> length fresh
     then Some ((fold rw_free (map frag_skb xs) r)\<lparr>rw_defrag :=
       ds @ [frag_entry (frag_sta h) t mi0 fresh (bs @ payloads xs) (n + length xs)]\<rparr>)
     else None)"
  using xs len(1)
proof (induction xs arbitrary: bs n r)
  case Nil
  then show ?case by (simp add: payloads_def)
next
  case (Cons x xs)
  obtain now fr mi skb where x: "x = (now, fr, mi, skb)" by (cases x) auto
  let ?b = "bs @ frag_payload mi skb"
  have f: "fragment_of mi0 mi skb" "has_more mi" using Cons.prems(1) by (auto simp: x)
  have "[n..<n + length (x # xs)] = n # [Suc n..<Suc n + length xs]"
    using upt_conv_Cons [of n "n + length (x # xs)"] by (simp del: upt_Suc)
  with Cons.prems(2) have num: "mi_frag_num mi = of_nat n" "map (mi_frag_num \<circ> frag_mi) xs = map of_nat [Suc n..<Suc n + length xs]"
    by (simp_all add: x comp_def del: upt_Suc)
  have all: "bs @ payloads (x # xs) = ?b @ payloads xs" by (simp add: payloads_def x)
  note step = middle_step [OF f num(1) h ds Cons.prems(3) len(2), where jf = jf and now = now and mem = mem and ok = True and fr = fr and r = r and t = t]
  show ?case
  proof (cases "length ?b \<le> length fresh")
    case True
    have "frag_run jf mem h (x # xs) (r\<lparr>rw_defrag := ds @ [frag_entry (frag_sta h) t mi0 fresh bs n]\<rparr>) =
        frag_run jf mem h xs ((rw_free skb r)\<lparr>rw_defrag := ds @ [frag_entry (frag_sta h) t mi0 fresh ?b (Suc n)]\<rparr>)"
      using step True by (simp add: x)
    also note Cons.IH [OF _ num(2) True]
    finally show ?thesis unfolding all using Cons.prems(1) by (simp add: x)
  next
    case False
    with step show ?thesis unfolding all by (simp add: x)
  qed
qed

lemma get_vif_free: "rwnx_rx_get_vif i (rp_net (rw_priv (rw_free skb r))) = rwnx_rx_get_vif i (rp_net (rw_priv r))"
  by (simp add: rw_free_def rp_emit_def rx_emit_def rwnx_rx_get_vif_def)

lemma get_vif_fold: "rwnx_rx_get_vif i (rp_net (rw_priv (fold rw_free fs r))) = rwnx_rx_get_vif i (rp_net (rw_priv r))"
  by (induction fs arbitrary: r) (simp_all add: get_vif_free)

lemma defrag_fold: "rw_defrag (fold rw_free fs r) = rw_defrag r"
  by (induction fs arbitrary: r) (simp_all add: rw_free_def)

lemma first_step:
  assumes f: "fragment_of mi mi skb" "has_more mi" "header_ok mi" "mi_pull_len mi \<le> skb_len skb" and h: "\<not> rh_need_reord h"
    and ds: "defrag_find (frag_sta h) mi (rw_defrag r) = None" and skb': "to_ethernet mi skb = Some skb'"
  shows "rx_data_frame jf now mem True fresh h mi skb r =
    (if length (first_frame mi skb) \<le> length fresh
     then Some ((rw_free skb' r)\<lparr>rw_defrag :=
       rw_defrag r @ [frag_entry (frag_sta h) (now + jf DEFRAG_MAX_WAIT) mi fresh (first_frame mi skb) 1]\<rparr>)
     else None)"
proof -
  let ?e = "first_frame mi skb"
  have data: "skb_data skb' = ?e" using convert_step [OF f(3,4)] skb' by simp
  have "rx_data_frame jf now mem True fresh h mi skb r = defrag_more jf now True fresh (frag_sta h) mi skb r"
    using fragment_data_frame [OF f(1) h] f(2) by simp
  also have "\<dots> = Option.bind (defrag_start jf now fresh (frag_sta h) mi skb) (\<lambda>(skb, d). Some (rw_free skb (r\<lparr>rw_defrag := rw_defrag r @ [d]\<rparr>)))"
    by (simp add: defrag_more_def ds)
  also have "defrag_start jf now fresh (frag_sta h) mi skb = Option.bind
      (Option.bind (skb_put (length ?e) (frag_buffer fresh [])) (skb_write 0 ?e)) (\<lambda>b. Some (skb',
        \<lparr>di_sta_idx = frag_sta h, di_tid = mi_tid mi, di_sn = mi_seq_num mi, di_next_fn = 1, di_frm_len = of_nat (length ?e),
         di_skb = b, di_timer = now + jf DEFRAG_MAX_WAIT\<rparr>))"
    by (simp add: defrag_start_def skb' data skb_len_def frag_buffer_def)
  also have "Option.bind (skb_put (length ?e) (frag_buffer fresh [])) (skb_write 0 ?e) =
      (if length ?e \<le> length fresh then Some (frag_buffer fresh ?e) else None)"
    using put_and_write [of "[]" ?e fresh] put_full [of fresh "[]" "length ?e"] by auto
  finally show ?thesis by (simp add: frag_entry_def free_defrag)
qed

lemma last_step:
  assumes f: "fragment_of mi0 mi skb" "\<not> has_more mi" "mi_frag_num mi = of_nat n" "mi_frag_num mi \<noteq> 0" and h: "\<not> rh_need_reord h"
    and ds: "defrag_find (frag_sta h) mi0 ds = None" and len: "length bs \<le> length fresh" "length fresh < 65536"
    and v: "rwnx_rx_get_vif (unat (rh_vif_idx h)) (rp_net (rw_priv r)) = Some (Some v)"
  defines "b \<equiv> frag_buffer fresh (bs @ frag_payload mi skb)"
  shows "rx_data_frame jf now mem ok fr h mi skb (r\<lparr>rw_defrag := ds @ [frag_entry (frag_sta h) t mi0 fresh bs n]\<rparr>) =
    (if length (bs @ frag_payload mi skb) \<le> length fresh
     then Option.bind (rwnx_rx_data_skb mem ok (h\<lparr>rh_is_amsdu := False\<rparr>) v b ((rw_free skb r)\<lparr>rw_defrag := ds\<rparr>))
       (\<lambda>(forward, r). Some (if forward then r else rw_free b r))
     else None)"
proof -
  let ?d = "frag_entry (frag_sta h) t mi0 fresh bs n" and ?h = "h\<lparr>rh_is_amsdu := False\<rparr>"
  let ?r = "r\<lparr>rw_defrag := ds @ [?d]\<rparr>"
  have next_fn: "di_next_fn ?d = of_nat n" and buf: "di_skb (frag_entry (frag_sta h) t mi0 fresh (bs @ frag_payload mi skb) n) = b"
    by (simp_all add: frag_entry_def b_def)
  have last: "defrag_last mem ok ?h (frag_sta h) mi skb ?r =
      (if length (bs @ frag_payload mi skb) \<le> length fresh
       then Option.bind (rwnx_rx_data_skb mem ok ?h v b ((rw_free skb r)\<lparr>rw_defrag := ds\<rparr>))
         (\<lambda>(forward, r). Some (Some (if forward then r else rw_free b r)))
       else None)"
    using v by (simp add: defrag_last_def find_fragment [OF f(1) ds] next_fn f(3) entry_step [OF f(1) len] free_defrag Let_def)
      (auto simp: buf split: Option.bind_split)
  have "rx_data_frame jf now mem ok fr h mi skb ?r =
      Option.bind (defrag_last mem ok ?h (frag_sta h) mi skb ?r) (\<lambda>x. case x of Some r \<Rightarrow> Some r
        | None \<Rightarrow> Option.bind (rx_convert ?h mi skb) (\<lambda>(h, skb). rx_dispatch jf now mem ok h mi skb ?r))"
    using fragment_data_frame [OF f(1) h] f(2,4) by simp
  also have "\<dots> = (if length (bs @ frag_payload mi skb) \<le> length fresh
     then Option.bind (rwnx_rx_data_skb mem ok ?h v b ((rw_free skb r)\<lparr>rw_defrag := ds\<rparr>))
       (\<lambda>(forward, r). Some (if forward then r else rw_free b r))
     else None)"
    unfolding last by (auto split: Option.bind_split prod.split)
  finally show ?thesis .
qed


text \<open>C33: Fragments are put together again, as long as they fit. A frame comes in fragments 0, 1, ..., each
  with the number and the identifier of the first, all but the last with the flag for more. Then the
  fragments are freed and the network is given one frame: the Ethernet header of the first, its data
  and the payloads of the others in order; no entry stays behind. When they are longer than the buffer
  of the first fragment, which nothing checks, the kernel stops (\<open>skb_put\<close> over the end).\<close>

theorem fragments_reassembled:
  assumes h: "\<not> rh_need_reord h" and ds: "defrag_find (frag_sta h) mi (rw_defrag r) = None"
    and v: "rwnx_rx_get_vif (unat (rh_vif_idx h)) (rp_net (rw_priv r)) = Some (Some v)"
    and first: "fragment_of mi mi skb" "has_more mi" "header_ok mi" "mi_pull_len mi \<le> skb_len skb"
      "to_ethernet mi skb = Some skb'"
    and xs: "\<forall>x \<in> set xs. fragment_of mi (frag_mi x) (frag_skb x) \<and> has_more (frag_mi x)"
      "map (mi_frag_num \<circ> frag_mi) xs = map of_nat [1..<Suc (length xs)]" "length xs < 15"
    and l: "fragment_of mi (frag_mi l) (frag_skb l)" "\<not> has_more (frag_mi l)" "mi_frag_num (frag_mi l) = of_nat (Suc (length xs))"
    and fresh: "length fresh < 65536"
  defines "whole \<equiv> first_frame mi skb @ payloads (xs @ [l])"
  shows "frag_run jf mem h ((now, fresh, mi, skb) # xs @ [l]) r =
    (if length whole \<le> length fresh
     then Option.bind (rwnx_rx_data_skb mem True (h\<lparr>rh_is_amsdu := False\<rparr>) v (frag_buffer fresh whole)
         (fold rw_free (skb' # map frag_skb (xs @ [l])) r))
       (\<lambda>(forward, r). Some (if forward then r else rw_free (frag_buffer fresh whole) r))
     else None)"
proof -
  let ?e = "first_frame mi skb" and ?t = "now + jf DEFRAG_MAX_WAIT" and ?ds = "rw_defrag r"
  obtain now' fr' mil skbl where l': "l = (now', fr', mil, skbl)" by (cases l) auto
  have num: "map (mi_frag_num \<circ> frag_mi) xs = map of_nat [1..<1 + length xs]" using xs(2) by simp
  have "(of_nat (Suc (length xs)) :: u8) \<noteq> 0"
    using xs(3) by (simp add: word_unat_eq_iff unat_of_nat del: of_nat_Suc)
  then have last_ne: "mi_frag_num mil \<noteq> 0" using l(3) by (simp add: l')
  have lf: "fragment_of mi mil skbl" "\<not> has_more mil" "mi_frag_num mil = of_nat (1 + length xs)"
    using l by (simp_all add: l')
  let ?r = "fold rw_free (map frag_skb xs) (rw_free skb' r)"
  have v': "rwnx_rx_get_vif (unat (rh_vif_idx h)) (rp_net (rw_priv ?r)) = Some (Some v)"
    using v by (simp add: get_vif_fold get_vif_free)
  have ds': "rw_defrag (rw_free skbl ?r) = ?ds" by (simp add: defrag_fold rw_free_def)
  have whole: "whole = (?e @ payloads xs) @ frag_payload mil skbl" by (simp add: whole_def payloads_def l')
  note start = first_step [OF first(1-4) h ds first(5), of jf now mem fresh]
  show ?thesis
  proof (cases "length (?e @ payloads xs) \<le> length fresh")
    case True
    then have "length ?e \<le> length fresh" by simp
    note mid = middle_run [OF h ds xs(1) num this fresh, where jf = jf and mem = mem and r = "rw_free skb' r" and t = ?t]
    note end_step = last_step [OF lf last_ne h ds True fresh v', of jf now' mem True fr' ?t]
    have "frag_run jf mem h ((now, fresh, mi, skb) # xs @ [l]) r =
        frag_run jf mem h [l] (?r\<lparr>rw_defrag := ?ds @ [frag_entry (frag_sta h) ?t mi fresh (?e @ payloads xs) (1 + length xs)]\<rparr>)"
      using start mid True by (simp add: frag_run_append)
    also have "\<dots> = rx_data_frame jf now' mem True fr' h mil skbl
        (?r\<lparr>rw_defrag := ?ds @ [frag_entry (frag_sta h) ?t mi fresh (?e @ payloads xs) (1 + length xs)]\<rparr>)"
      by (simp add: l' frag_run_nil del: frag_run.simps(1))
    also note end_step
    also have "(rw_free skbl ?r)\<lparr>rw_defrag := ?ds\<rparr> = fold rw_free (skb' # map frag_skb (xs @ [l])) r"
      using ds' by (simp add: l')
    finally show ?thesis unfolding whole .
  next
    case False
    have "frag_run jf mem h ((now, fresh, mi, skb) # xs @ [l]) r = None"
    proof (cases "length ?e \<le> length fresh")
      case True
      from middle_run [OF h ds xs(1) num this fresh, where jf = jf and mem = mem and r = "rw_free skb' r" and t = ?t] start True False
      show ?thesis by (simp add: frag_run_append)
    qed (use start in simp)
    moreover have "\<not> length whole \<le> length fresh" using False by (simp add: whole)
    ultimately show ?thesis by simp
  qed
qed


text \<open>A frame in three fragments.\<close>

definition demo_mi :: "u16 \<Rightarrow> u8 \<Rightarrow> mac_info" where
  "demo_mi fc fn = \<lparr>mi_frame_ctrl = fc, mi_seq_num = 77, mi_frag_num = fn, mi_is_data = True, mi_is_qos = False, mi_tid = 0,
     mi_is_amsdu = False, mi_pull_len = 32, mi_ra = [2, 0, 0, 0, 0, 1], mi_ta = [2, 0, 0, 0, 0, 9], mi_ether_type = [8, 6]\<rparr>"

definition demo_skb :: "bytes \<Rightarrow> sk_buff" where
  "demo_skb bs = \<lparr>skb_head = replicate 60 0, skb_data = bs, skb_tail = []\<rparr>"

definition demo_hdr :: hw_rxhdr where
  "demo_hdr = \<lparr>rh_decr_status = DECR_UNENC, rh_ga_frame = False, rh_upload = True, rh_is_80211_mpdu = False,
     rh_need_reord = False, rh_is_amsdu = False, rh_vif_idx = 0, rh_sta_idx = 0xFF, rh_dst_idx = 0xFF\<rparr>"

definition demo_rwnx :: rwnx_rx where
  "demo_rwnx = \<lparr>rw_priv = demo_rx, rw_defrag = [], rw_sta_table = replicate 36 \<lparr>st_valid = False, st_vlan_idx = 0\<rparr>\<rparr>"

theorem fragments_reassembled_witness:
  shows "map_option (\<lambda>r. (drop 3 (rn_out (rp_net (rw_priv r))), rw_defrag r)) (frag_run (\<lambda>_. 5) (\<lambda>_. 0) demo_hdr
      [(0, replicate 64 0, demo_mi 0x0408 0, demo_skb (replicate 32 0 @ [1, 2, 3])),
       (1, [], demo_mi 0x0408 1, demo_skb (replicate 24 0 @ [4, 5])),
       (2, [], demo_mi 0x0008 2, demo_skb (replicate 24 0 @ [6]))] demo_rwnx) =
    Some ([Up 0 \<lparr>skb_head = [], skb_data = [2, 0, 0, 0, 0, 1, 2, 0, 0, 0, 0, 9, 8, 6, 1, 2, 3, 4, 5, 6],
       skb_tail = replicate 44 0\<rparr>], [])"
proof -
  let ?mi = "demo_mi 0x0408 0" and ?skb = "demo_skb (replicate 32 0 @ [1, 2, 3])"
  let ?x = "(1, [], demo_mi 0x0408 1, demo_skb (replicate 24 0 @ [4, 5])) :: u32 \<times> bytes \<times> mac_info \<times> sk_buff"
  let ?l = "(2, [], demo_mi 0x0008 2, demo_skb (replicate 24 0 @ [6])) :: u32 \<times> bytes \<times> mac_info \<times> sk_buff"
  let ?skb' = "demo_skb []\<lparr>skb_head := replicate 78 0,
    skb_data := [2, 0, 0, 0, 0, 1, 2, 0, 0, 0, 0, 9, 8, 6, 1, 2, 3]\<rparr>"
  have a: "\<not> rh_need_reord demo_hdr" "defrag_find (frag_sta demo_hdr) ?mi (rw_defrag demo_rwnx) = None"
    by (simp_all add: demo_hdr_def demo_rwnx_def)
  have v: "rwnx_rx_get_vif (unat (rh_vif_idx demo_hdr)) (rp_net (rw_priv demo_rwnx)) = Some (Some 0)" by code_simp
  have f: "fragment_of ?mi ?mi ?skb" "has_more ?mi" "header_ok ?mi" "mi_pull_len ?mi \<le> skb_len ?skb"
    "to_ethernet ?mi ?skb = Some ?skb'" by code_simp+
  have x: "\<forall>x \<in> set [?x]. fragment_of ?mi (frag_mi x) (frag_skb x) \<and> has_more (frag_mi x)"
    "map (mi_frag_num \<circ> frag_mi) [?x] = map of_nat [1..<Suc (length [?x])]" by code_simp+
  have l: "fragment_of ?mi (frag_mi ?l) (frag_skb ?l)" "\<not> has_more (frag_mi ?l)" "mi_frag_num (frag_mi ?l) = of_nat (Suc (length [?x]))"
    by code_simp+
  show ?thesis
    by (subst append.simps(2) [of "?x" "[]" "[?l]", simplified append_Nil, symmetric],
        subst fragments_reassembled [OF a v f x _ l]) (simp, simp, code_simp)
qed

section \<open>Short frames\<close>






end
