(* ===== verification/Aic_Radar.thy ===== *)
theory Aic_Radar
  imports Prelude "HOL-Library.Monad_Syntax"
begin

text \<open>
  The detectors of one radar type in \<^verbatim>\<open>aic8800_fdrv/rwnx_radar.c\<close>: the patterns of the three
  regulatory domains, the pools of pulses and sequences shared by all detectors, the queue of pulses
  with its window, the search for sequences of pulses at one repetition interval, and the two kinds of
  detector. A list of the kernel is a list with its first element at the head; \<open>mem\<close> says whether
  the n-th allocation succeeds and what the memory holds before it is written.
\<close>

section \<open>Patterns\<close>

datatype radar_waveform_type =
  RADAR_WAVEFORM_SHORT | RADAR_WAVEFORM_WEATHER | RADAR_WAVEFORM_INTERLEAVED | RADAR_WAVEFORM_LONG

record radar_detector_specs =
  rs_type_id :: u8
  rs_width_min :: u8
  rs_width_max :: u8
  rs_pri_min :: u16
  rs_pri_max :: u16
  rs_num_pri :: u8
  rs_ppb :: u8
  rs_ppb_thresh :: u8
  rs_max_pri_tolerance :: u8
  rs_type :: radar_waveform_type

definition PRI_TOLERANCE :: nat where "PRI_TOLERANCE = 16"
definition MIN_PPB_THRESH :: nat where "MIN_PPB_THRESH = 50"

definition PPB_THRESH :: "nat \<Rightarrow> nat" where
  "PPB_THRESH PPB = (PPB * MIN_PPB_THRESH + 50) div 100"

definition PRF2PRI :: "nat \<Rightarrow> nat" where
  "PRF2PRI PRF = (1000000 + PRF div 2) div PRF"

definition ETSI_PATTERN_SHORT :: "nat \<Rightarrow> nat \<Rightarrow> nat \<Rightarrow> nat \<Rightarrow> nat \<Rightarrow> nat \<Rightarrow> radar_detector_specs" where
  "ETSI_PATTERN_SHORT ID WMIN WMAX PMIN PMAX PPB =
     \<lparr>rs_type_id = of_nat ID, rs_width_min = of_nat WMIN, rs_width_max = of_nat WMAX,
      rs_pri_min = of_nat (PRF2PRI PMAX - PRI_TOLERANCE), rs_pri_max = of_nat (PRF2PRI PMIN + PRI_TOLERANCE),
      rs_num_pri = 1, rs_ppb = of_nat PPB, rs_ppb_thresh = of_nat (PPB_THRESH PPB),
      rs_max_pri_tolerance = of_nat PRI_TOLERANCE, rs_type = RADAR_WAVEFORM_SHORT\<rparr>"

definition ETSI_PATTERN_INTERLEAVED ::
  "nat \<Rightarrow> nat \<Rightarrow> nat \<Rightarrow> nat \<Rightarrow> nat \<Rightarrow> nat \<Rightarrow> nat \<Rightarrow> nat \<Rightarrow> radar_detector_specs" where
  "ETSI_PATTERN_INTERLEAVED ID WMIN WMAX PMIN PMAX PRFMIN PRFMAX PPB =
     \<lparr>rs_type_id = of_nat ID, rs_width_min = of_nat WMIN, rs_width_max = of_nat WMAX,
      rs_pri_min = of_nat (PRF2PRI PMAX * PRFMIN - PRI_TOLERANCE),
      rs_pri_max = of_nat (PRF2PRI PMIN * PRFMAX + PRI_TOLERANCE),
      rs_num_pri = of_nat PRFMAX, rs_ppb = of_nat (PPB * PRFMAX), rs_ppb_thresh = of_nat (PPB_THRESH PPB),
      rs_max_pri_tolerance = of_nat PRI_TOLERANCE, rs_type = RADAR_WAVEFORM_INTERLEAVED\<rparr>"

definition FCC_PATTERN ::
  "nat \<Rightarrow> nat \<Rightarrow> nat \<Rightarrow> nat \<Rightarrow> nat \<Rightarrow> nat \<Rightarrow> nat \<Rightarrow> radar_waveform_type \<Rightarrow> radar_detector_specs" where
  "FCC_PATTERN ID WMIN WMAX PMIN PMAX PRF PPB WAVEFORM =
     \<lparr>rs_type_id = of_nat ID, rs_width_min = of_nat WMIN, rs_width_max = of_nat WMAX,
      rs_pri_min = of_nat (PMIN - PRI_TOLERANCE), rs_pri_max = of_nat (PMAX * PRF + PRI_TOLERANCE),
      rs_num_pri = of_nat PRF, rs_ppb = of_nat (PPB * PRF), rs_ppb_thresh = of_nat (PPB_THRESH PPB),
      rs_max_pri_tolerance = of_nat PRI_TOLERANCE, rs_type = WAVEFORM\<rparr>"

definition etsi_radar_ref_types_v17_riu :: "radar_detector_specs list" where
  "etsi_radar_ref_types_v17_riu =
     [ETSI_PATTERN_SHORT 0 0 8 700 700 18,
      ETSI_PATTERN_SHORT 1 0 10 200 1000 10,
      ETSI_PATTERN_SHORT 2 0 22 200 1600 15,
      ETSI_PATTERN_SHORT 3 0 22 2300 4000 25,
      ETSI_PATTERN_SHORT 4 20 38 2000 4000 20,
      ETSI_PATTERN_INTERLEAVED 5 0 8 300 400 2 3 10,
      ETSI_PATTERN_INTERLEAVED 6 0 8 400 1200 2 3 15]"

definition etsi_radar_ref_types_v17_fcu :: "radar_detector_specs list" where
  "etsi_radar_ref_types_v17_fcu =
     [ETSI_PATTERN_SHORT 0 0 8 700 700 18,
      ETSI_PATTERN_SHORT 1 0 8 200 1000 10,
      ETSI_PATTERN_SHORT 2 0 16 200 1600 15,
      ETSI_PATTERN_SHORT 3 0 16 2300 4000 25,
      ETSI_PATTERN_SHORT 4 20 34 2000 4000 20,
      ETSI_PATTERN_INTERLEAVED 5 0 8 300 400 2 3 10,
      ETSI_PATTERN_INTERLEAVED 6 0 8 400 1200 2 3 15]"

definition fcc_radar_ref_types_riu :: "radar_detector_specs list" where
  "fcc_radar_ref_types_riu =
     [FCC_PATTERN 0 0 8 1428 1428 1 18 RADAR_WAVEFORM_SHORT,
      FCC_PATTERN 1 0 8 518 3066 1 102 RADAR_WAVEFORM_WEATHER,
      FCC_PATTERN 2 0 8 150 230 1 23 RADAR_WAVEFORM_SHORT,
      FCC_PATTERN 3 6 20 200 500 1 16 RADAR_WAVEFORM_SHORT,
      FCC_PATTERN 4 10 28 200 500 1 12 RADAR_WAVEFORM_SHORT,
      FCC_PATTERN 5 50 110 1000 2000 1 8 RADAR_WAVEFORM_LONG,
      FCC_PATTERN 6 0 8 333 333 1 9 RADAR_WAVEFORM_SHORT]"

definition fcc_radar_ref_types_fcu :: "radar_detector_specs list" where
  "fcc_radar_ref_types_fcu =
     [FCC_PATTERN 0 0 8 1428 1428 1 18 RADAR_WAVEFORM_SHORT,
      FCC_PATTERN 1 0 8 518 3066 1 102 RADAR_WAVEFORM_WEATHER,
      FCC_PATTERN 2 0 8 150 230 1 23 RADAR_WAVEFORM_SHORT,
      FCC_PATTERN 3 6 12 200 500 1 16 RADAR_WAVEFORM_SHORT,
      FCC_PATTERN 4 10 22 200 500 1 12 RADAR_WAVEFORM_SHORT,
      FCC_PATTERN 5 50 104 1000 2000 1 8 RADAR_WAVEFORM_LONG,
      FCC_PATTERN 6 0 8 333 333 1 9 RADAR_WAVEFORM_SHORT]"

text \<open>The two tables of Japan are the same.\<close>

definition jp_radar_ref_types_riu :: "radar_detector_specs list" where
  "jp_radar_ref_types_riu =
     [FCC_PATTERN 0 0 4 1388 1388 1 18 RADAR_WAVEFORM_SHORT,
      FCC_PATTERN 1 0 4 1428 1428 1 18 RADAR_WAVEFORM_SHORT,
      FCC_PATTERN 2 0 4 4000 4000 1 18 RADAR_WAVEFORM_SHORT,
      FCC_PATTERN 3 0 6 150 230 1 23 RADAR_WAVEFORM_SHORT,
      FCC_PATTERN 4 6 12 200 500 1 16 RADAR_WAVEFORM_SHORT,
      FCC_PATTERN 5 10 22 200 500 1 12 RADAR_WAVEFORM_SHORT,
      FCC_PATTERN 6 48 110 1000 2000 1 8 RADAR_WAVEFORM_LONG,
      FCC_PATTERN 7 0 4 333 333 1 9 RADAR_WAVEFORM_SHORT]"

definition jp_radar_ref_types_fcu :: "radar_detector_specs list" where
  "jp_radar_ref_types_fcu =
     [FCC_PATTERN 0 0 4 1388 1388 1 18 RADAR_WAVEFORM_SHORT,
      FCC_PATTERN 1 0 4 1428 1428 1 18 RADAR_WAVEFORM_SHORT,
      FCC_PATTERN 2 0 4 4000 4000 1 18 RADAR_WAVEFORM_SHORT,
      FCC_PATTERN 3 0 6 150 230 1 23 RADAR_WAVEFORM_SHORT,
      FCC_PATTERN 4 6 12 200 500 1 16 RADAR_WAVEFORM_SHORT,
      FCC_PATTERN 5 10 22 200 500 1 12 RADAR_WAVEFORM_SHORT,
      FCC_PATTERN 6 48 110 1000 2000 1 8 RADAR_WAVEFORM_LONG,
      FCC_PATTERN 7 0 4 333 333 1 9 RADAR_WAVEFORM_SHORT]"

section \<open>Sequences, detectors and pools\<close>

record pri_sequence =
  ps_pri :: u32
  ps_dur :: u32
  ps_count :: u32
  ps_count_falses :: u32
  ps_first_ts :: u64
  ps_last_ts :: u64
  ps_deadline_ts :: u64
  ps_ppb_thresh :: u8

record pri_detector =
  pde_rs :: radar_detector_specs
  pde_last_ts :: u64
  pde_sequences :: "pri_sequence list"
  pde_pulses :: "u64 list"
  pde_count :: u32
  pde_max_count :: u32
  pde_window_size :: u32
  pde_freq :: u16

text \<open>
  The pools: how many pulses wait in one and which sequences in the other, and the references to them.
  \<open>pl_calls\<close> counts the allocations, \<open>pl_owned_pulses\<close> and \<open>pl_owned_pseqs\<close> what the
  driver has allocated and not freed.
\<close>

record radar_pools =
  pl_refs :: u32
  pl_pulses :: nat
  pl_pseqs :: "pri_sequence list"
  pl_calls :: nat
  pl_owned_pulses :: nat
  pl_owned_pseqs :: nat

definition pool_register_ref :: "radar_pools \<Rightarrow> radar_pools" where
  "pool_register_ref pl = pl\<lparr>pl_refs := pl_refs pl + 1\<rparr>"

definition pool_deregister_ref :: "radar_pools \<Rightarrow> radar_pools" where
  "pool_deregister_ref pl =
     (let pl = pl\<lparr>pl_refs := pl_refs pl - 1\<rparr> in
      if pl_refs pl = 0
      then pl\<lparr>pl_owned_pulses := pl_owned_pulses pl - pl_pulses pl, pl_pulses := 0,
              pl_owned_pseqs := pl_owned_pseqs pl - length (pl_pseqs pl), pl_pseqs := []\<rparr>
      else pl)"

definition pool_put_pulse_elem :: "radar_pools \<Rightarrow> radar_pools" where
  "pool_put_pulse_elem pl = pl\<lparr>pl_pulses := pl_pulses pl + 1\<rparr>"

definition pool_put_pseq_elem :: "pri_sequence \<Rightarrow> radar_pools \<Rightarrow> radar_pools" where
  "pool_put_pseq_elem pse pl = pl\<lparr>pl_pseqs := pse # pl_pseqs pl\<rparr>"

definition pool_get_pseq_elem ::
  "(nat \<Rightarrow> pri_sequence option) \<Rightarrow> radar_pools \<Rightarrow> pri_sequence option \<times> radar_pools" where
  "pool_get_pseq_elem mem pl =
     (case pl_pseqs pl of
        pse # rest \<Rightarrow> (Some pse, pl\<lparr>pl_pseqs := rest\<rparr>)
      | [] \<Rightarrow>
          (case mem (pl_calls pl) of
             None \<Rightarrow> (None, pl\<lparr>pl_calls := pl_calls pl + 1\<rparr>)
           | Some pse \<Rightarrow> (Some pse, pl\<lparr>pl_calls := pl_calls pl + 1, pl_owned_pseqs := pl_owned_pseqs pl + 1\<rparr>)))"

definition pool_get_pulse_elem :: "radar_pools \<Rightarrow> bool \<times> radar_pools" where
  "pool_get_pulse_elem pl =
     (if pl_pulses pl = 0 then (False, pl) else (True, pl\<lparr>pl_pulses := pl_pulses pl - 1\<rparr>))"

section \<open>The queue of pulses\<close>

text \<open>The newest pulse is at the head of the list, the tail is the oldest.\<close>

definition pulse_queue_get_tail :: "pri_detector \<Rightarrow> u64 option" where
  "pulse_queue_get_tail pde = (if pde_pulses pde = [] then None else Some (last (pde_pulses pde)))"

definition pulse_queue_dequeue :: "pri_detector \<Rightarrow> radar_pools \<Rightarrow> bool \<times> pri_detector \<times> radar_pools" where
  "pulse_queue_dequeue pde pl =
     (let (pde, pl) =
        (if pulse_queue_get_tail pde \<noteq> None
         then (pde\<lparr>pde_pulses := butlast (pde_pulses pde), pde_count := pde_count pde - 1\<rparr>, pool_put_pulse_elem pl)
         else (pde, pl))
      in (pde_count pde > 0, pde, pl))"

function window_loop :: "u64 \<Rightarrow> pri_detector \<Rightarrow> radar_pools \<Rightarrow> pri_detector \<times> radar_pools" where
  "window_loop min_valid_ts pde pl =
     (case pulse_queue_get_tail pde of
        None \<Rightarrow> (pde, pl)
      | Some ts \<Rightarrow>
          if ts \<ge> min_valid_ts then (pde, pl)
          else (let (_, pde, pl) = pulse_queue_dequeue pde pl in window_loop min_valid_ts pde pl))"
  by pat_completeness auto
termination
  by (relation "measure (\<lambda>(_, pde, _). length (pde_pulses pde))")
    (auto simp: pulse_queue_get_tail_def pulse_queue_dequeue_def split: if_splits)

declare window_loop.simps [simp del]

definition pulse_queue_check_window :: "pri_detector \<Rightarrow> radar_pools \<Rightarrow> pri_detector \<times> radar_pools" where
  "pulse_queue_check_window pde pl =
     (if pde_count pde < 2 then (pde, pl)
      else if pde_last_ts pde \<le> ucast (pde_window_size pde) then (pde, pl)
      else window_loop (pde_last_ts pde - ucast (pde_window_size pde)) pde pl)"

definition pulse_queue_enqueue ::
  "(nat \<Rightarrow> pri_sequence option) \<Rightarrow> pri_detector \<Rightarrow> u64 \<Rightarrow> radar_pools \<Rightarrow> bool \<times> pri_detector \<times> radar_pools" where
  "pulse_queue_enqueue mem pde ts pl =
     (let (p, pl) = pool_get_pulse_elem pl;
          (p, pl) =
            (if p then (True, pl)
             else (case mem (pl_calls pl) of
                None \<Rightarrow> (False, pl\<lparr>pl_calls := pl_calls pl + 1\<rparr>)
              | Some _ \<Rightarrow> (True, pl\<lparr>pl_calls := pl_calls pl + 1, pl_owned_pulses := pl_owned_pulses pl + 1\<rparr>)))
      in if \<not> p then (False, pde, pl)
         else
           (let pde = pde\<lparr>pde_pulses := ts # pde_pulses pde, pde_count := pde_count pde + 1, pde_last_ts := ts\<rparr>;
                (pde, pl) = pulse_queue_check_window pde pl
            in if pde_count pde \<ge> pde_max_count pde
               then (let (_, pde, pl) = pulse_queue_dequeue pde pl in (True, pde, pl))
               else (True, pde, pl)))"

text \<open>All sequences and pulses go back to the pools.\<close>

definition pri_detector_reset :: "pri_detector \<Rightarrow> u64 \<Rightarrow> radar_pools \<Rightarrow> pri_detector \<times> radar_pools" where
  "pri_detector_reset pde ts pl =
     (pde\<lparr>pde_sequences := [], pde_pulses := [], pde_count := 0, pde_last_ts := ts\<rparr>,
      fold (\<lambda>_. pool_put_pulse_elem) (pde_pulses pde) (fold pool_put_pseq_elem (pde_sequences pde) pl))"

section \<open>Short waveforms\<close>

definition pde_get_multiple :: "u32 \<Rightarrow> u32 \<Rightarrow> u32 \<Rightarrow> u32" where
  "pde_get_multiple val fraction tolerance =
     (if fraction = 0 then 0
      else
        (let delta = (if val < fraction then fraction - val else val - fraction) in
         if delta \<le> tolerance then 1
         else
           (let factor = val div fraction; remainder = val mod fraction in
            if remainder > tolerance
            then (if fraction - remainder \<le> tolerance then factor + 1 else 0)
            else factor)))"

text \<open>
  The pulses before \<open>p\<close> that fit a sequence with the interval \<open>pri\<close> and the pulse \<open>ts\<close>: the
  loop carries the count, the count of false pulses, the first time stamp and the false pulses since
  the last match.
\<close>

fun sequence_loop ::
  "u64 \<Rightarrow> u32 \<Rightarrow> u32 \<Rightarrow> u64 \<Rightarrow> u64 list \<Rightarrow> pri_sequence \<Rightarrow> u32 \<Rightarrow> pri_sequence" where
  "sequence_loop min_valid_ts pri tol ts [] ps tmp = ps"
| "sequence_loop min_valid_ts pri tol ts (p2 # rest) ps tmp =
     (if p2 < min_valid_ts then ps
      else if pde_get_multiple (ucast (ts - p2)) pri tol > 0
      then sequence_loop min_valid_ts pri tol ts rest
             (ps\<lparr>ps_count := ps_count ps + 1, ps_first_ts := p2, ps_count_falses := ps_count_falses ps + tmp\<rparr>) 0
      else sequence_loop min_valid_ts pri tol ts rest ps (tmp + 1))"

text \<open>
  The sequence that the pulse \<open>ts\<close> makes with the queued pulse \<open>p\<close>, before which \<open>rest\<close> came.
  The intervals of the tables are not 0, so that the division for weather radars is defined.
\<close>

definition new_sequence :: "radar_detector_specs \<Rightarrow> u64 \<Rightarrow> u16 \<Rightarrow> u64 \<Rightarrow> u64 list \<Rightarrow> pri_sequence" where
  "new_sequence rs ts pulse_idx p rest =
     (let pri = ucast (ts - p) :: u32;
          tol = ucast (rs_max_pri_tolerance rs) :: u32;
          dur = pri * (ucast (rs_ppb rs) - 1) + 2 * tol;
          min_valid_ts = (if ucast dur > ts then 0 else ts - ucast dur);
          ps = sequence_loop min_valid_ts pri tol ts rest
            \<lparr>ps_pri = pri, ps_dur = dur, ps_count = 2, ps_count_falses = ucast pulse_idx - 1, ps_first_ts = p,
             ps_last_ts = ts, ps_deadline_ts = 0, ps_ppb_thresh = 0\<rparr> 0;
          thresh = (if rs_type rs = RADAR_WAVEFORM_WEATHER
            then of_nat (PPB_THRESH (unat (ucast (19000000 div (360 * pri)) :: u8))) else rs_ppb_thresh rs)
      in ps\<lparr>ps_deadline_ts := ps_first_ts ps + ucast dur, ps_ppb_thresh := thresh\<rparr>)"

text \<open>The result says whether the memory was enough.\<close>

fun create_loop ::
  "(nat \<Rightarrow> pri_sequence option) \<Rightarrow> radar_detector_specs \<Rightarrow> u64 \<Rightarrow> u32 \<Rightarrow> u16 \<Rightarrow> u64 list \<Rightarrow>
   pri_sequence list \<Rightarrow> radar_pools \<Rightarrow> bool \<times> pri_sequence list \<times> radar_pools" where
  "create_loop mem rs ts min_count pulse_idx [] seqs pl = (True, seqs, pl)"
| "create_loop mem rs ts min_count pulse_idx (p # rest) seqs pl =
     (let delta_ts = ucast (ts - p) :: u32; pulse_idx = pulse_idx + 1 in
      if delta_ts < ucast (rs_pri_min rs) then create_loop mem rs ts min_count pulse_idx rest seqs pl
      else if delta_ts > ucast (rs_pri_max rs) then (True, seqs, pl)
      else
        (let ps = new_sequence rs ts pulse_idx p rest in
         if ps_count ps \<le> min_count then create_loop mem rs ts min_count pulse_idx rest seqs pl
         else
           (case pool_get_pseq_elem mem pl of
              (None, pl) \<Rightarrow> (False, seqs, pl)
            | (Some _, pl) \<Rightarrow> create_loop mem rs ts min_count pulse_idx rest (ps # seqs) pl)))"

definition pde_short_create_sequences ::
  "(nat \<Rightarrow> pri_sequence option) \<Rightarrow> pri_detector \<Rightarrow> u64 \<Rightarrow> u32 \<Rightarrow> radar_pools \<Rightarrow> bool \<times> pri_detector \<times> radar_pools" where
  "pde_short_create_sequences mem pde ts min_count pl =
     (let (ok, seqs, pl) = create_loop mem (pde_rs pde) ts min_count 0 (pde_pulses pde) (pde_sequences pde) pl
      in (ok, pde\<lparr>pde_sequences := seqs\<rparr>, pl))"

fun existing_loop ::
  "u32 \<Rightarrow> u64 \<Rightarrow> pri_sequence list \<Rightarrow> u32 \<Rightarrow> radar_pools \<Rightarrow> u32 \<times> pri_sequence list \<times> radar_pools" where
  "existing_loop tol ts [] max_count pl = (max_count, [], pl)"
| "existing_loop tol ts (ps # rest) max_count pl =
     (if ts > ps_deadline_ts ps then existing_loop tol ts rest max_count (pool_put_pseq_elem ps pl)
      else
        (let (ps, max_count) =
           (if pde_get_multiple (ucast (ts - ps_last_ts ps)) (ps_pri ps) tol > 0
            then (let ps = ps\<lparr>ps_last_ts := ts, ps_count := ps_count ps + 1\<rparr>
                  in (ps, if max_count < ps_count ps then ps_count ps else max_count))
            else (ps\<lparr>ps_count_falses := ps_count_falses ps + 1\<rparr>, max_count));
           (max_count, seqs, pl) = existing_loop tol ts rest max_count pl
         in (max_count, ps # seqs, pl)))"

definition pde_short_add_to_existing_seqs ::
  "pri_detector \<Rightarrow> u64 \<Rightarrow> radar_pools \<Rightarrow> u32 \<times> pri_detector \<times> radar_pools" where
  "pde_short_add_to_existing_seqs pde ts pl =
     (let (max_count, seqs, pl) = existing_loop (ucast (rs_max_pri_tolerance (pde_rs pde))) ts (pde_sequences pde) 0 pl
      in (max_count, pde\<lparr>pde_sequences := seqs\<rparr>, pl))"

definition sequence_complete :: "radar_detector_specs \<Rightarrow> pri_sequence \<Rightarrow> bool" where
  "sequence_complete rs ps \<longleftrightarrow>
     ps_count ps \<ge> ucast (ps_ppb_thresh ps) \<and> ps_count ps * ucast (rs_num_pri rs) > ps_count_falses ps"

definition pde_short_check_detection :: "pri_detector \<Rightarrow> pri_sequence option" where
  "pde_short_check_detection pde = find (sequence_complete (pde_rs pde)) (pde_sequences pde)"

definition pde_short_init :: "pri_detector \<Rightarrow> pri_detector" where
  "pde_short_init pde =
     pde\<lparr>pde_window_size := ucast (rs_pri_max (pde_rs pde)) * ucast (rs_ppb (pde_rs pde)) * ucast (rs_num_pri (pde_rs pde)),
         pde_max_count := ucast (rs_ppb (pde_rs pde)) * 2\<rparr>"

definition pde_short_add_pulse ::
  "(nat \<Rightarrow> pri_sequence option) \<Rightarrow> pri_detector \<Rightarrow> u64 \<Rightarrow> radar_pools \<Rightarrow>
   pri_sequence option \<times> pri_detector \<times> radar_pools" where
  "pde_short_add_pulse mem pde ts pl =
     (if pde_count pde = 0 then (let (_, pde, pl) = pulse_queue_enqueue mem pde ts pl in (None, pde, pl))
      else if ts - pde_last_ts pde < ucast (rs_max_pri_tolerance (pde_rs pde)) then (None, pde, pl)
      else
        (let (max_updated_seq, pde, pl) = pde_short_add_to_existing_seqs pde ts pl;
             (ok, pde, pl) = pde_short_create_sequences mem pde ts max_updated_seq pl
         in if \<not> ok then (let (pde, pl) = pri_detector_reset pde ts pl in (None, pde, pl))
            else
              (case pde_short_check_detection pde of
                 Some ps \<Rightarrow> (Some ps, pde, pl)
               | None \<Rightarrow> (let (_, pde, pl) = pulse_queue_enqueue mem pde ts pl in (None, pde, pl)))))"

section \<open>Long waveforms\<close>

definition LONG_RADAR_DURATION :: nat where "LONG_RADAR_DURATION = 12000000"
definition LONG_RADAR_BURST_MIN_DURATION :: nat where "LONG_RADAR_BURST_MIN_DURATION = 12000000 div 20"
definition LONG_RADAR_MAX_BURST :: nat where "LONG_RADAR_MAX_BURST = 20"

definition pde_long_init :: "pri_detector \<Rightarrow> pri_detector" where
  "pde_long_init pde = pde\<lparr>pde_window_size := of_nat LONG_RADAR_DURATION, pde_max_count := of_nat LONG_RADAR_MAX_BURST\<rparr>"

text \<open>Once the deadline is over the bursts before the window are forgotten, up to the first one inside it.\<close>

function long_window_loop ::
  "u64 \<Rightarrow> pri_sequence \<Rightarrow> pri_detector \<Rightarrow> radar_pools \<Rightarrow> pri_sequence \<times> pri_detector \<times> radar_pools" where
  "long_window_loop min_valid_ts ps pde pl =
     (case pulse_queue_get_tail pde of
        None \<Rightarrow> (ps, pde, pl)
      | Some ts \<Rightarrow>
          if ts \<ge> min_valid_ts
          then (ps\<lparr>ps_first_ts := ts, ps_deadline_ts := ts + ucast (pde_window_size pde)\<rparr>, pde, pl)
          else (let (_, pde, pl) = pulse_queue_dequeue pde pl
                in long_window_loop min_valid_ts (ps\<lparr>ps_count := ps_count ps - 1\<rparr>) pde pl))"
  by pat_completeness auto
termination
  by (relation "measure (\<lambda>(_, _, pde, _). length (pde_pulses pde))")
    (auto simp: pulse_queue_get_tail_def pulse_queue_dequeue_def split: if_splits)

declare long_window_loop.simps [simp del]

text \<open>A burst, \<open>delta_ts\<close> after the pulse before it, for the one sequence \<open>ps\<close> of the detector.\<close>

definition long_burst ::
  "(nat \<Rightarrow> pri_sequence option) \<Rightarrow> pri_sequence \<Rightarrow> pri_detector \<Rightarrow> u64 \<Rightarrow> u32 \<Rightarrow> radar_pools \<Rightarrow>
   pri_sequence option \<times> pri_sequence \<times> pri_detector \<times> radar_pools" where
  "long_burst mem ps pde ts delta_ts pl =
     (let ps = ps\<lparr>ps_count := ps_count ps + 1, ps_count_falses := 1\<rparr>;
          (ps, pde, pl) =
            (if ts > ps_deadline_ts ps then long_window_loop (ts - ucast (pde_window_size pde)) ps pde pl else (ps, pde, pl))
      in if ps_count ps > ucast (rs_ppb_thresh (pde_rs pde)) \<and> ts - ps_first_ts ps > ucast (pde_window_size pde div 2)
         then (Some ps, ps, pde, pl)
         else (let (_, pde, pl) = pulse_queue_enqueue mem pde ts pl in (None, ps\<lparr>ps_dur := delta_ts\<rparr>, pde, pl)))"

definition pde_long_add_pulse ::
  "(nat \<Rightarrow> pri_sequence option) \<Rightarrow> pri_detector \<Rightarrow> u64 \<Rightarrow> radar_pools \<Rightarrow>
   pri_sequence option \<times> pri_detector \<times> radar_pools" where
  "pde_long_add_pulse mem pde ts pl =
     (case pde_sequences pde of
        [] \<Rightarrow>
          (case pool_get_pseq_elem mem pl of
             (None, pl) \<Rightarrow> (None, pde, pl)
           | (Some ps, pl) \<Rightarrow>
               (let ps = ps\<lparr>ps_count := 1, ps_count_falses := 1, ps_first_ts := ts, ps_last_ts := ts,
                            ps_deadline_ts := ts + ucast (pde_window_size pde), ps_pri := 0\<rparr>;
                    (_, pde, pl) = pulse_queue_enqueue mem (pde\<lparr>pde_sequences := [ps]\<rparr>) ts pl
                in (None, pde, pl)))
      | ps # rest \<Rightarrow>
          (let delta_ts = ucast (ts - ps_last_ts ps) :: u32; ps = ps\<lparr>ps_last_ts := ts\<rparr>; rs = pde_rs pde in
           if delta_ts < ucast (rs_pri_max rs) then (None, pde\<lparr>pde_sequences := ps # rest\<rparr>, pl)
           else if delta_ts \<ge> ucast (rs_pri_min rs) \<and> delta_ts \<le> ucast (rs_pri_max rs)
           then (None, pde\<lparr>pde_sequences := ps\<lparr>ps_count_falses := ps_count_falses ps + 1\<rparr> # rest\<rparr>, pl)
           else if ps_count ps > 2 \<and> ps_dur ps + delta_ts < of_nat LONG_RADAR_BURST_MIN_DURATION
           then (None, pde\<lparr>pde_sequences := ps # rest\<rparr>, pl)
           else
             (let (found, ps, pde, pl) = long_burst mem ps pde ts delta_ts pl
              in (found, pde\<lparr>pde_sequences := ps # rest\<rparr>, pl))))"

section \<open>The operations by waveform\<close>

definition ops_init :: "pri_detector \<Rightarrow> pri_detector" where
  "ops_init pde = (if rs_type (pde_rs pde) = RADAR_WAVEFORM_LONG then pde_long_init pde else pde_short_init pde)"

definition ops_add_pulse ::
  "(nat \<Rightarrow> pri_sequence option) \<Rightarrow> pri_detector \<Rightarrow> u64 \<Rightarrow> radar_pools \<Rightarrow>
   pri_sequence option \<times> pri_detector \<times> radar_pools" where
  "ops_add_pulse mem pde =
     (if rs_type (pde_rs pde) = RADAR_WAVEFORM_LONG then pde_long_add_pulse mem pde else pde_short_add_pulse mem pde)"

definition ops_reset_on_pri_overflow :: "pri_detector \<Rightarrow> bool" where
  "ops_reset_on_pri_overflow pde \<longleftrightarrow> rs_type (pde_rs pde) \<noteq> RADAR_WAVEFORM_LONG"

end
