(* ===== verification/Aic_Radar_Dfs.thy ===== *)
theory Aic_Radar_Dfs
  imports Aic_Radar "HOL-Library.Signed_Division"
begin

text \<open>
  The pattern detector of \<^verbatim>\<open>aic8800_fdrv/rwnx_radar.c\<close> over all radar types of a domain, and
  the driver around it: the ring of pulses that the firmware's messages fill
  (\<^verbatim>\<open>rwnx_msg_rx.c\<close>), the work that empties it, what is reported, and the channel availability
  check. A chain is its number; an index outside a table is undefined (\<open>None\<close>), as is a detector that
  could not be allocated, which the code does not test.
\<close>

section \<open>Domains\<close>

datatype nl80211_dfs_regions = NL80211_DFS_UNSET | NL80211_DFS_FCC | NL80211_DFS_ETSI | NL80211_DFS_JP

record radar_types =
  rt_region :: nl80211_dfs_regions
  rt_num_radar_types :: nat
  rt_spec_riu :: "radar_detector_specs list"
  rt_spec_fcu :: "radar_detector_specs list"

definition etsi_radar_types_v17 :: radar_types where
  "etsi_radar_types_v17 =
     \<lparr>rt_region = NL80211_DFS_ETSI, rt_num_radar_types = length etsi_radar_ref_types_v17_riu,
      rt_spec_riu = etsi_radar_ref_types_v17_riu, rt_spec_fcu = etsi_radar_ref_types_v17_fcu\<rparr>"

definition fcc_radar_types :: radar_types where
  "fcc_radar_types =
     \<lparr>rt_region = NL80211_DFS_FCC, rt_num_radar_types = length fcc_radar_ref_types_riu,
      rt_spec_riu = fcc_radar_ref_types_riu, rt_spec_fcu = fcc_radar_ref_types_fcu\<rparr>"

definition jp_radar_types :: radar_types where
  "jp_radar_types =
     \<lparr>rt_region = NL80211_DFS_JP, rt_num_radar_types = length jp_radar_ref_types_riu,
      rt_spec_riu = jp_radar_ref_types_riu, rt_spec_fcu = jp_radar_ref_types_fcu\<rparr>"

definition dfs_domains :: "radar_types list" where
  "dfs_domains = [etsi_radar_types_v17, fcc_radar_types, jp_radar_types]"

definition get_dfs_domain_radar_types :: "nl80211_dfs_regions \<Rightarrow> radar_types option" where
  "get_dfs_domain_radar_types region = find (\<lambda>rt. rt_region rt = region) dfs_domains"

definition get_dfs_max_radar_types :: nat where
  "get_dfs_max_radar_types = fold (\<lambda>rt n. if rt_num_radar_types rt > n then rt_num_radar_types rt else n) dfs_domains 0"

section \<open>The pattern detector\<close>

definition RWNX_RADAR_RIU :: nat where "RWNX_RADAR_RIU = 0"
definition RWNX_RADAR_FCU :: nat where "RWNX_RADAR_FCU = 1"
definition RWNX_RADAR_LAST :: nat where "RWNX_RADAR_LAST = 2"
definition RWNX_RADAR_DETECT_DISABLE :: u8 where "RWNX_RADAR_DETECT_DISABLE = 0"
definition RWNX_RADAR_DETECT_REPORT :: u8 where "RWNX_RADAR_DETECT_REPORT = 2"

record dfs_pattern_detector =
  dpd_enabled :: u8
  dpd_region :: nl80211_dfs_regions
  dpd_num_radar_types :: nat
  dpd_last_pulse_ts :: u64
  dpd_prev_jiffies :: u32
  dpd_radar_spec :: "radar_detector_specs list"
  dpd_detectors :: "pri_detector list list"

definition pri_detector_init ::
  "(nat \<Rightarrow> pri_sequence option) \<Rightarrow> radar_detector_specs \<Rightarrow> u16 \<Rightarrow> radar_pools \<Rightarrow> pri_detector option \<times> radar_pools" where
  "pri_detector_init mem rs freq pl =
     (case mem (pl_calls pl) of
        None \<Rightarrow> (None, pl\<lparr>pl_calls := pl_calls pl + 1\<rparr>)
      | Some _ \<Rightarrow>
          (Some (ops_init \<lparr>pde_rs = rs, pde_last_ts = 0, pde_sequences = [], pde_pulses = [], pde_count = 0,
             pde_max_count = 0, pde_window_size = 0, pde_freq = freq\<rparr>),
           pool_register_ref (pl\<lparr>pl_calls := pl_calls pl + 1\<rparr>)))"

definition pri_detector_exit :: "pri_detector \<Rightarrow> radar_pools \<Rightarrow> radar_pools" where
  "pri_detector_exit pde pl = pool_deregister_ref (snd (pri_detector_reset pde 0 pl))"

text \<open>
  The loop over the detectors of a type: the position of the one to use, \<open>cur\<close> being an idle one of
  the same frequency seen before. The differences are those of C's \<^verbatim>\<open>int\<close>.
\<close>

fun get_loop :: "u16 \<Rightarrow> pri_detector list \<Rightarrow> nat \<Rightarrow> nat option \<Rightarrow> nat option" where
  "get_loop freq [] k cur = cur"
| "get_loop freq (pde # rest) k cur =
     (if pde_freq pde = freq
      then if pde_count pde \<noteq> 0 then Some k else get_loop freq rest (Suc k) (Some k)
      else if uint (pde_freq pde) - 2 = uint freq \<and> pde_count pde \<noteq> 0 then Some k
      else if uint (pde_freq pde) + 2 = uint freq \<and> pde_count pde \<noteq> 0 then Some k
      else get_loop freq rest (Suc k) cur)"

text \<open>The detectors of a type afterwards, and the position of the one found or made; a new one is the first.\<close>

definition pri_detector_get ::
  "(nat \<Rightarrow> pri_sequence option) \<Rightarrow> radar_detector_specs \<Rightarrow> u16 \<Rightarrow> pri_detector list \<Rightarrow> radar_pools \<Rightarrow>
   (nat \<times> pri_detector list) option \<times> radar_pools" where
  "pri_detector_get mem rs freq pdes pl =
     (case get_loop freq pdes 0 None of
        Some k \<Rightarrow> (Some (k, pdes), pl)
      | None \<Rightarrow>
          (case pri_detector_init mem rs freq pl of
             (None, pl) \<Rightarrow> (None, pl)
           | (Some pde, pl) \<Rightarrow> (Some (0, pde # pdes), pl)))"

text \<open>A loop over a list of detectors that changes each and the pools.\<close>

fun each_pde :: "('a \<Rightarrow> radar_pools \<Rightarrow> 'a \<times> radar_pools) \<Rightarrow> 'a list \<Rightarrow> radar_pools \<Rightarrow> 'a list \<times> radar_pools" where
  "each_pde f [] pl = ([], pl)"
| "each_pde f (x # xs) pl = (let (x, pl) = f x pl; (xs, pl) = each_pde f xs pl in (x # xs, pl))"

definition each_type ::
  "(pri_detector \<Rightarrow> radar_pools \<Rightarrow> pri_detector \<times> radar_pools) \<Rightarrow> dfs_pattern_detector \<Rightarrow> radar_pools \<Rightarrow>
   dfs_pattern_detector \<times> radar_pools" where
  "each_type f dpd pl =
     (let n = dpd_num_radar_types dpd;
          (ds, pl) = each_pde (each_pde f) (take n (dpd_detectors dpd)) pl
      in (dpd\<lparr>dpd_detectors := ds @ drop n (dpd_detectors dpd)\<rparr>, pl))"

definition dfs_pattern_detector_reset ::
  "u32 \<Rightarrow> dfs_pattern_detector \<Rightarrow> radar_pools \<Rightarrow> dfs_pattern_detector \<times> radar_pools" where
  "dfs_pattern_detector_reset jiffies dpd pl =
     (let (dpd, pl) = each_type (\<lambda>pde. pri_detector_reset pde (dpd_last_pulse_ts dpd)) dpd pl
      in (dpd\<lparr>dpd_last_pulse_ts := 0, dpd_prev_jiffies := jiffies\<rparr>, pl))"

text \<open>What remains of the detectors of the first \<open>n\<close> types, none, and the pools.\<close>

definition exit_types :: "dfs_pattern_detector \<Rightarrow> radar_pools \<Rightarrow> dfs_pattern_detector \<times> radar_pools" where
  "exit_types dpd pl =
     (let n = dpd_num_radar_types dpd; ds = take n (dpd_detectors dpd)
      in (dpd\<lparr>dpd_detectors := map (\<lambda>_. []) ds @ drop n (dpd_detectors dpd)\<rparr>, fold pri_detector_exit (concat ds) pl))"

definition dfs_pattern_detector_exit :: "dfs_pattern_detector \<Rightarrow> radar_pools \<Rightarrow> radar_pools" where
  "dfs_pattern_detector_exit dpd pl = snd (exit_types dpd pl)"

definition dfs_pattern_detector_pri_overflow ::
  "dfs_pattern_detector \<Rightarrow> radar_pools \<Rightarrow> dfs_pattern_detector \<times> radar_pools" where
  "dfs_pattern_detector_pri_overflow dpd pl =
     each_type (\<lambda>pde pl. if ops_reset_on_pri_overflow pde then pri_detector_reset pde (dpd_last_pulse_ts dpd) pl else (pde, pl)) dpd pl"

text \<open>The loop over the types, here the numbers in the last list but two.\<close>

fun types_loop ::
  "(nat \<Rightarrow> pri_sequence option) \<Rightarrow> u32 \<Rightarrow> u16 \<Rightarrow> u16 \<Rightarrow> nat list \<Rightarrow> dfs_pattern_detector \<Rightarrow> radar_pools \<Rightarrow>
   (bool \<times> dfs_pattern_detector \<times> radar_pools) option" where
  "types_loop mem jiffies freq len [] dpd pl = Some (False, dpd, pl)"
| "types_loop mem jiffies freq len (i # is) dpd pl = do {
     rs \<leftarrow> c_get (dpd_radar_spec dpd) i;
     if ucast (rs_width_min rs) > len \<or> ucast (rs_width_max rs) < len
     then types_loop mem jiffies freq len is dpd pl
     else do {
       pdes \<leftarrow> c_get (dpd_detectors dpd) i;
       let (r, pl) = pri_detector_get mem rs freq pdes pl;
       (k, pdes) \<leftarrow> r;
       pde \<leftarrow> c_get pdes k;
       let (ps, pde, pl) = ops_add_pulse mem pde (dpd_last_pulse_ts dpd) pl;
       let dpd = dpd\<lparr>dpd_detectors := (dpd_detectors dpd)[i := pdes[k := pde]]\<rparr>;
       if ps \<noteq> None
       then (let (dpd, pl) = dfs_pattern_detector_reset jiffies dpd pl in Some (True, dpd, pl))
       else types_loop mem jiffies freq len is dpd pl
     }
   }"

text \<open>
  The time of the pulse: its distance from the last one, or, when that is too large for 16 bits,
  the clock. \<open>ju\<close> is \<open>jiffies_to_usecs\<close>, \<open>jiffies\<close> the clock when the detectors are
  reset.
\<close>

definition pulse_time :: "(u32 \<Rightarrow> u32) \<Rightarrow> u16 \<Rightarrow> u32 \<Rightarrow> dfs_pattern_detector \<Rightarrow> radar_pools \<Rightarrow> dfs_pattern_detector \<times> radar_pools" where
  "pulse_time ju pri now dpd pl =
     (if pri = 0 then
        (let delta_jiffie = (if now < dpd_prev_jiffies dpd then 0xffffffff - dpd_prev_jiffies dpd + now else now - dpd_prev_jiffies dpd);
             dpd = dpd\<lparr>dpd_last_pulse_ts := dpd_last_pulse_ts dpd + ucast (ju delta_jiffie), dpd_prev_jiffies := now\<rparr>
         in dfs_pattern_detector_pri_overflow dpd pl)
      else (dpd\<lparr>dpd_last_pulse_ts := dpd_last_pulse_ts dpd + ucast pri\<rparr>, pl))"

definition dfs_pattern_detector_add_pulse ::
  "(nat \<Rightarrow> pri_sequence option) \<Rightarrow> (u32 \<Rightarrow> u32) \<Rightarrow> u32 \<Rightarrow> dfs_pattern_detector \<Rightarrow> u16 \<Rightarrow> u16 \<Rightarrow> u16 \<Rightarrow> u32 \<Rightarrow> radar_pools \<Rightarrow>
   (bool \<times> dfs_pattern_detector \<times> radar_pools) option" where
  "dfs_pattern_detector_add_pulse mem ju jiffies dpd freq pri len now pl =
     (if dpd_region dpd = NL80211_DFS_UNSET then Some (True, dpd, pl)
      else
        (let (dpd, pl) = pulse_time ju pri now dpd pl
         in types_loop mem jiffies freq len [0..<dpd_num_radar_types dpd] dpd pl))"

definition dfs_pattern_detector_set_domain ::
  "dfs_pattern_detector \<Rightarrow> nl80211_dfs_regions \<Rightarrow> nat \<Rightarrow> radar_pools \<Rightarrow> bool \<times> dfs_pattern_detector \<times> radar_pools" where
  "dfs_pattern_detector_set_domain dpd region chain pl =
     (if dpd_region dpd = region then (True, dpd, pl)
      else
        (let dpd = dpd\<lparr>dpd_region := NL80211_DFS_UNSET\<rparr> in
         case get_dfs_domain_radar_types region of
           None \<Rightarrow> (False, dpd, pl)
         | Some rt \<Rightarrow>
             (let (dpd, pl) = exit_types dpd pl
              in (True, dpd\<lparr>dpd_radar_spec := (if chain = RWNX_RADAR_RIU then rt_spec_riu rt else rt_spec_fcu rt),
                            dpd_num_radar_types := rt_num_radar_types rt, dpd_region := region\<rparr>, pl))))"

definition dfs_pattern_detector_init ::
  "(nat \<Rightarrow> pri_sequence option) \<Rightarrow> u32 \<Rightarrow> nl80211_dfs_regions \<Rightarrow> nat \<Rightarrow> radar_pools \<Rightarrow>
   dfs_pattern_detector option \<times> radar_pools" where
  "dfs_pattern_detector_init mem jiffies region chain pl =
     (case mem (pl_calls pl) of
        None \<Rightarrow> (None, pl\<lparr>pl_calls := pl_calls pl + 1\<rparr>)
      | Some _ \<Rightarrow>
          (let dpd = \<lparr>dpd_enabled = RWNX_RADAR_DETECT_DISABLE, dpd_region = NL80211_DFS_UNSET, dpd_num_radar_types = 0,
                      dpd_last_pulse_ts = 0, dpd_prev_jiffies = jiffies, dpd_radar_spec = [],
                      dpd_detectors = replicate get_dfs_max_radar_types []\<rparr>;
               (ok, dpd, pl) = dfs_pattern_detector_set_domain dpd region chain (pl\<lparr>pl_calls := pl_calls pl + 1\<rparr>)
           in if ok then (Some dpd, pl) else (None, pl)))"

end
