(* ===== verification/Aic_Radar_Driver.thy ===== *)
theory Aic_Radar_Driver
  imports Aic_Radar_Dfs
begin

text \<open>
  The driver around the pattern detectors: the message of the firmware that fills the ring of a chain,
  the work that takes the pulses out and reports a radar, and the channel availability check.
\<close>

section \<open>State\<close>

definition RWNX_RADAR_PULSE_MAX :: nat where "RWNX_RADAR_PULSE_MAX = 32"
definition NX_NB_RADAR_DETECTED :: nat where "NX_NB_RADAR_DETECTED = 4"
definition RADAR_PULSE_MAX :: nat where "RADAR_PULSE_MAX = 4"

definition RWNX_RADAR_IDLE :: u16 where "RWNX_RADAR_IDLE = 0"
definition RWNX_RADAR_CAC_BUSY :: u16 where "RWNX_RADAR_CAC_BUSY = 1"
definition RWNX_RADAR_INSERVICE_BUSY :: u16 where "RWNX_RADAR_INSERVICE_BUSY = 3"

record rwnx_radar_pulses =
  rpl_index :: int
  rpl_count :: int
  rpl_buffer :: "u32 list"

record rwnx_radar_detected =
  rdt_index :: u16
  rdt_count :: u16
  rdt_time :: "u64 list"
  rdt_freq :: "u16 list"

text \<open>The fields of a pulse in its 32 bits; the frequency is signed.\<close>

definition pulse_freq :: "u32 \<Rightarrow> int" where
  "pulse_freq w = sint (ucast w :: 6 word)"

definition pulse_len :: "u32 \<Rightarrow> u16" where
  "pulse_len w = ucast (drop_bit 10 w AND 0x3F)"

definition pulse_rep :: "u32 \<Rightarrow> u16" where
  "pulse_rep w = ucast (drop_bit 16 w)"

text \<open>What the driver reports, on which channel or interface.\<close>

datatype radar_out = Radar_Event u16 | Cac_Finished nat | Cac_Aborted nat | Stop_Cac nat | Chanctx_Unlink nat

text \<open>
  \<open>rd_cac_work\<close> is the delay with which the work of the availability check has been scheduled,
  \<open>rd_work\<close> whether the work on pulses is due.
\<close>

record rwnx_radar =
  rd_pulses :: "rwnx_radar_pulses list"
  rd_dpd :: "dfs_pattern_detector option list"
  rd_detected :: "rwnx_radar_detected list"
  rd_status :: u16
  rd_work :: bool
  rd_cac_work :: "u32 option"
  rd_cac_vif :: "nat option"
  rd_pools :: radar_pools
  rd_out :: "radar_out list"

definition rd_emit :: "radar_out list \<Rightarrow> rwnx_radar \<Rightarrow> rwnx_radar" where
  "rd_emit xs rd = rd\<lparr>rd_out := rd_out rd @ xs\<rparr>"

definition dpd_at :: "nat \<Rightarrow> rwnx_radar \<Rightarrow> dfs_pattern_detector option" where
  "dpd_at chain rd = Option.bind (c_get (rd_dpd rd) chain) (\<lambda>x. x)"

definition dpd_put :: "nat \<Rightarrow> dfs_pattern_detector \<Rightarrow> rwnx_radar \<Rightarrow> rwnx_radar" where
  "dpd_put chain dpd rd = rd\<lparr>rd_dpd := (rd_dpd rd)[chain := Some dpd]\<rparr>"

section \<open>The ring of pulses\<close>

definition rwnx_radar_detection_is_enable :: "rwnx_radar \<Rightarrow> nat \<Rightarrow> bool option" where
  "rwnx_radar_detection_is_enable rd chain = do {
     dpd \<leftarrow> dpd_at chain rd;
     Some (dpd_enabled dpd \<noteq> RWNX_RADAR_DETECT_DISABLE)
   }"

definition ring_put :: "u32 \<Rightarrow> rwnx_radar_pulses \<Rightarrow> rwnx_radar_pulses option" where
  "ring_put w p = do {
     b \<leftarrow> (if rpl_index p < 0 then None else c_set (rpl_buffer p) (nat (rpl_index p)) w);
     Some (p\<lparr>rpl_buffer := b, rpl_index := (rpl_index p + 1) smod int RWNX_RADAR_PULSE_MAX,
             rpl_count := (if rpl_count p < int RWNX_RADAR_PULSE_MAX then rpl_count p + 1 else rpl_count p)\<rparr>)
   }"

text \<open>
  The message is the words at its parameter: four pulses, the chain, the number of pulses, and what
  follows in memory. The loop runs to the number given, whatever it is.
\<close>

fun ring_loop :: "u32 list \<Rightarrow> nat \<Rightarrow> nat \<Rightarrow> rwnx_radar_pulses \<Rightarrow> rwnx_radar_pulses option" where
  "ring_loop msg i 0 p = Some p"
| "ring_loop msg i (Suc n) p = do {
     w \<leftarrow> c_get msg i;
     p \<leftarrow> ring_put w p;
     ring_loop msg (Suc i) n p
   }"

definition rwnx_radar_detect_ind :: "u32 list \<Rightarrow> rwnx_radar \<Rightarrow> (int \<times> rwnx_radar) option" where
  "rwnx_radar_detect_ind msg rd = do {
     idx \<leftarrow> c_get msg RADAR_PULSE_MAX;
     cnt \<leftarrow> c_get msg (RADAR_PULSE_MAX + 1);
     if cnt = 0 then Some (- 1, rd)
     else do {
       on \<leftarrow> rwnx_radar_detection_is_enable rd (unat (ucast idx :: u8));
       if \<not> on then Some (0, rd)
       else do {
         p \<leftarrow> c_get (rd_pulses rd) (unat idx);
         p \<leftarrow> ring_loop msg 0 (unat cnt) p;
         Some (0, rd\<lparr>rd_pulses := (rd_pulses rd)[unat idx := p], rd_work := True\<rparr>)
       }
     }
   }"

text \<open>The copy of the pulses of a chain, which has room for 32, in the order they came.\<close>

definition ring_take :: "rwnx_radar_pulses \<Rightarrow> (u32 list \<times> rwnx_radar_pulses) option" where
  "ring_take p =
     (let count = rpl_count p; start = rpl_index p - count;
          start = (if start < 0 then start + int RWNX_RADAR_PULSE_MAX else start) in
      if count = 0 then Some ([], p)
      else if start < 0 \<or> count < 0 \<or> count > int RWNX_RADAR_PULSE_MAX then None
      else do {
        pulses \<leftarrow>
          (if start + count > int RWNX_RADAR_PULSE_MAX then do {
             let count1 = RWNX_RADAR_PULSE_MAX - nat start;
             a \<leftarrow> c_read (rpl_buffer p) (nat start) count1;
             b \<leftarrow> c_read (rpl_buffer p) 0 (nat count - count1);
             Some (a @ b)
           }
           else c_read (rpl_buffer p) (nat start) (nat count));
        Some (pulses, p\<lparr>rpl_count := 0\<rparr>)
      })"

section \<open>Availability check and report\<close>

definition rwnx_radar_detection_enable :: "rwnx_radar \<Rightarrow> u8 \<Rightarrow> nat \<Rightarrow> rwnx_radar option" where
  "rwnx_radar_detection_enable rd enable chain =
     (if chain < RWNX_RADAR_LAST then do {
        dpd \<leftarrow> dpd_at chain rd;
        Some (dpd_put chain (dpd\<lparr>dpd_enabled := enable\<rparr>) rd)
      }
      else Some rd)"

text \<open>The work is scheduled unless it is already; \<open>jf\<close> is \<open>msecs_to_jiffies\<close>.\<close>

definition rwnx_radar_start_cac :: "(u32 \<Rightarrow> u32) \<Rightarrow> u32 \<Rightarrow> nat \<Rightarrow> rwnx_radar \<Rightarrow> rwnx_radar" where
  "rwnx_radar_start_cac jf cac_time_ms vif rd =
     rd\<lparr>rd_cac_vif := Some vif,
        rd_cac_work := (case rd_cac_work rd of None \<Rightarrow> Some (jf cac_time_ms) | w \<Rightarrow> w)\<rparr>"

definition rwnx_radar_cancel_cac :: "rwnx_radar \<Rightarrow> rwnx_radar" where
  "rwnx_radar_cancel_cac rd =
     (case rd_cac_vif rd of
        None \<Rightarrow> rd
      | Some vif \<Rightarrow>
          (let rd = (if rd_cac_work rd \<noteq> None
             then rd_emit [Stop_Cac vif, Cac_Aborted vif, Chanctx_Unlink vif] (rd\<lparr>rd_cac_work := None\<rparr>) else rd)
           in rd\<lparr>rd_cac_vif := None\<rparr>))"

definition rwnx_radar_cac_work :: "rwnx_radar \<Rightarrow> rwnx_radar" where
  "rwnx_radar_cac_work rd =
     (let rd = rd\<lparr>rd_cac_work := None\<rparr> in
      case rd_cac_vif rd of
        None \<Rightarrow> rd
      | Some vif \<Rightarrow> (rd_emit [Cac_Finished vif, Stop_Cac vif, Chanctx_Unlink vif] rd)\<lparr>rd_cac_vif := None\<rparr>)"

text \<open>\<open>chan\<close> is the frequency of the current channel, if there is a valid one.\<close>

definition rwnx_radar_detected_event :: "u16 option \<Rightarrow> rwnx_radar \<Rightarrow> rwnx_radar" where
  "rwnx_radar_detected_event chan rd =
     (case chan of
        None \<Rightarrow> rd
      | Some freq \<Rightarrow> rd_emit [Radar_Event freq] (rwnx_radar_cancel_cac rd))"

text \<open>\<open>sec\<close> is the frequency of the secondary channel.\<close>

definition rwnx_radar_get_center_freq :: "u16 option \<Rightarrow> u16 \<Rightarrow> nat \<Rightarrow> u16" where
  "rwnx_radar_get_center_freq chan sec chain =
     (if chain = RWNX_RADAR_FCU then sec
      else if chain = RWNX_RADAR_RIU then (case chan of None \<Rightarrow> 0 | Some freq \<Rightarrow> freq)
      else 0)"

definition rwnx_radar_detection_enable_on_cur_channel :: "(u16 \<times> bool) option \<Rightarrow> rwnx_radar \<Rightarrow> rwnx_radar option" where
  "rwnx_radar_detection_enable_on_cur_channel chan rd =
     (case chan of
        None \<Rightarrow> Some rd
      | Some (_, radar) \<Rightarrow>
          rwnx_radar_detection_enable rd (if radar then RWNX_RADAR_DETECT_REPORT else RWNX_RADAR_DETECT_DISABLE) RWNX_RADAR_RIU)"

text \<open>The last radars found, four of them; \<open>secs\<close> is the time.\<close>

definition detected_put :: "u64 \<Rightarrow> u16 \<Rightarrow> rwnx_radar_detected \<Rightarrow> rwnx_radar_detected option" where
  "detected_put secs freq d = do {
     let idx = unat (rdt_index d);
     fs \<leftarrow> c_set (rdt_freq d) idx freq;
     ts \<leftarrow> c_set (rdt_time d) idx secs;
     Some (d\<lparr>rdt_freq := fs, rdt_time := ts, rdt_index := (rdt_index d + 1) mod of_nat NX_NB_RADAR_DETECTED,
             rdt_count := rdt_count d + 1\<rparr>)
   }"

section \<open>The work on pulses\<close>

text \<open>What the kernel and the clocks answer during one run of the work.\<close>

record radar_env =
  re_mem :: "nat \<Rightarrow> pri_sequence option"
  re_usecs :: "u32 \<Rightarrow> u32"
  re_now :: u32
  re_jiffies :: u32
  re_secs :: u64
  re_chan :: "u16 option"
  re_sec :: u16

definition pulse_found :: "radar_env \<Rightarrow> nat \<Rightarrow> u16 \<Rightarrow> rwnx_radar \<Rightarrow> rwnx_radar option" where
  "pulse_found env chain freq rd = do {
     dpd \<leftarrow> dpd_at chain rd;
     rd \<leftarrow>
       (if chain = RWNX_RADAR_RIU \<and> dpd_enabled dpd = RWNX_RADAR_DETECT_REPORT then do {
          rd \<leftarrow> rwnx_radar_detection_enable (rwnx_radar_detected_event (re_chan env) rd) RWNX_RADAR_DETECT_DISABLE chain;
          p \<leftarrow> c_get (rd_pulses rd) chain;
          Some (rd\<lparr>rd_pulses := (rd_pulses rd)[chain := p\<lparr>rpl_count := 0\<rparr>]\<rparr>)
        }
        else Some rd);
     d \<leftarrow> c_get (rd_detected rd) chain;
     d \<leftarrow> detected_put (re_secs env) freq d;
     Some (rd\<lparr>rd_detected := (rd_detected rd)[chain := d]\<rparr>)
   }"

fun pulses_loop :: "radar_env \<Rightarrow> nat \<Rightarrow> u16 \<Rightarrow> u32 list \<Rightarrow> rwnx_radar \<Rightarrow> rwnx_radar option" where
  "pulses_loop env chain freq [] rd = Some rd"
| "pulses_loop env chain freq (w # ws) rd =
     (if rd_status rd \<noteq> RWNX_RADAR_CAC_BUSY \<and> rd_status rd \<noteq> RWNX_RADAR_INSERVICE_BUSY then Some rd
      else do {
        dpd \<leftarrow> dpd_at chain rd;
        let f = of_int (sint freq + 2 * pulse_freq w);
        (hit, dpd, pl) \<leftarrow> dfs_pattern_detector_add_pulse (re_mem env) (re_usecs env) (re_jiffies env) dpd f
          (pulse_rep w) (pulse_len w * 2) (re_now env) (rd_pools rd);
        let rd = (dpd_put chain dpd rd)\<lparr>rd_pools := pl\<rparr>;
        if hit then pulse_found env chain f rd else pulses_loop env chain freq ws rd
      })"

definition take_chain :: "nat \<Rightarrow> rwnx_radar \<Rightarrow> (u32 list \<times> rwnx_radar) option" where
  "take_chain chain rd = do {
     p \<leftarrow> c_get (rd_pulses rd) chain;
     (ws, p) \<leftarrow> ring_take p;
     Some (ws, rd\<lparr>rd_pulses := (rd_pulses rd)[chain := p]\<rparr>)
   }"

definition rwnx_radar_process_pulse :: "radar_env \<Rightarrow> rwnx_radar \<Rightarrow> rwnx_radar option" where
  "rwnx_radar_process_pulse env rd = do {
     let rd = rd\<lparr>rd_work := False\<rparr>;
     (riu, rd) \<leftarrow> take_chain RWNX_RADAR_RIU rd;
     (fcu, rd) \<leftarrow> take_chain RWNX_RADAR_FCU rd;
     rd \<leftarrow> pulses_loop env RWNX_RADAR_RIU (rwnx_radar_get_center_freq (re_chan env) (re_sec env) RWNX_RADAR_RIU) riu rd;
     pulses_loop env RWNX_RADAR_FCU (rwnx_radar_get_center_freq (re_chan env) (re_sec env) RWNX_RADAR_FCU) fcu rd
   }"

section \<open>Set-up\<close>

definition exit_chain :: "nat \<Rightarrow> rwnx_radar \<Rightarrow> rwnx_radar option" where
  "exit_chain chain rd = do {
     d \<leftarrow> c_get (rd_dpd rd) chain;
     Some (case d of
       None \<Rightarrow> rd
     | Some dpd \<Rightarrow> rd\<lparr>rd_dpd := (rd_dpd rd)[chain := None], rd_pools := dfs_pattern_detector_exit dpd (rd_pools rd)\<rparr>)
   }"

definition rwnx_radar_detection_deinit :: "rwnx_radar \<Rightarrow> rwnx_radar option" where
  "rwnx_radar_detection_deinit rd = Option.bind (exit_chain RWNX_RADAR_RIU rd) (exit_chain RWNX_RADAR_FCU)"

definition rwnx_radar_detection_init ::
  "(nat \<Rightarrow> pri_sequence option) \<Rightarrow> u32 \<Rightarrow> rwnx_radar \<Rightarrow> (bool \<times> rwnx_radar) option" where
  "rwnx_radar_detection_init mem jiffies rd =
     (let (riu, pl) = dfs_pattern_detector_init mem jiffies NL80211_DFS_UNSET RWNX_RADAR_RIU (rd_pools rd);
          rd = rd\<lparr>rd_dpd := (rd_dpd rd)[RWNX_RADAR_RIU := riu], rd_pools := pl\<rparr> in
      if riu = None then Some (False, rd)
      else
        (let (fcu, pl) = dfs_pattern_detector_init mem jiffies NL80211_DFS_UNSET RWNX_RADAR_FCU (rd_pools rd);
             rd = rd\<lparr>rd_dpd := (rd_dpd rd)[RWNX_RADAR_FCU := fcu], rd_pools := pl, rd_status := RWNX_RADAR_IDLE\<rparr> in
         if fcu = None then do {
           rd \<leftarrow> rwnx_radar_detection_deinit rd;
           Some (False, rd)
         }
         else Some (True, rd\<lparr>rd_cac_vif := None\<rparr>)))"

definition set_chain :: "nl80211_dfs_regions \<Rightarrow> nat \<Rightarrow> rwnx_radar \<Rightarrow> (bool \<times> rwnx_radar) option" where
  "set_chain region chain rd = do {
     dpd \<leftarrow> dpd_at chain rd;
     let (ok, dpd, pl) = dfs_pattern_detector_set_domain dpd region chain (rd_pools rd);
     Some (ok, (dpd_put chain dpd rd)\<lparr>rd_pools := pl\<rparr>)
   }"

definition rwnx_radar_set_domain :: "nl80211_dfs_regions \<Rightarrow> rwnx_radar \<Rightarrow> (bool \<times> rwnx_radar) option" where
  "rwnx_radar_set_domain region rd = do {
     d \<leftarrow> c_get (rd_dpd rd) 0;
     if d = None then Some (False, rd)
     else do {
       (ok, rd) \<leftarrow> set_chain region RWNX_RADAR_RIU rd;
       if ok then set_chain region RWNX_RADAR_FCU rd else Some (False, rd)
     }
   }"

section \<open>The dump of the radars found\<close>

text \<open>The entries that are printed, in this order; the remainder is C's, with the sign of the dividend.\<close>

fun dump_loop :: "rwnx_radar_detected \<Rightarrow> int \<Rightarrow> nat \<Rightarrow> (u64 \<times> u16) list option" where
  "dump_loop d idx 0 = Some []"
| "dump_loop d idx (Suc n) = do {
     t \<leftarrow> (if idx < 0 then None else c_get (rdt_time d) (nat idx));
     f \<leftarrow> c_get (rdt_freq d) (nat idx);
     rest \<leftarrow> dump_loop d ((idx + 1) smod int NX_NB_RADAR_DETECTED) n;
     Some ((t, f) # rest)
   }"

definition rwnx_radar_dump_radar_detected :: "rwnx_radar_detected \<Rightarrow> (u64 \<times> u16) list option" where
  "rwnx_radar_dump_radar_detected d =
     (let count = min (unat (rdt_count d)) NX_NB_RADAR_DETECTED
      in dump_loop d ((uint (rdt_index d) - uint (rdt_count d)) smod int NX_NB_RADAR_DETECTED) count)"

end
