(* ===== verification/Aic_Radar_Pools.thy ===== *)
theory Aic_Radar_Pools
  imports Aic_Radar_Driver
begin

text \<open>
  The pools under the operations of the detectors: \<open>radar_ops\<close> is the contract of the two
  \<^verbatim>\<open>add_pulse\<close> functions that \<^verbatim>\<open>struct pri_detector_ops\<close> can point to, on which the
  loops over the detectors rely.
\<close>

section \<open>Balance\<close>

text \<open>What the detectors hold, and what the pools and the ledger say.\<close>

definition held_pulses :: "pri_detector list \<Rightarrow> nat" where
  "held_pulses ds = sum_list (map (length \<circ> pde_pulses) ds)"

definition held_pseqs :: "pri_detector list \<Rightarrow> nat" where
  "held_pseqs ds = sum_list (map (length \<circ> pde_sequences) ds)"

definition pools_ok :: "pri_detector list \<Rightarrow> radar_pools \<Rightarrow> bool" where
  "pools_ok ds pl \<longleftrightarrow> pl_owned_pulses pl = pl_pulses pl + held_pulses ds \<and>
     pl_owned_pseqs pl = length (pl_pseqs pl) + held_pseqs ds \<and> pl_refs pl = of_nat (length ds) \<and>
     (ds = [] \<longrightarrow> pl_pulses pl = 0 \<and> pl_pseqs pl = [])"

lemma held_simps [simp]:
  "held_pulses [] = 0" "held_pulses (d # ds) = length (pde_pulses d) + held_pulses ds" "held_pulses (ds @ es) = held_pulses ds + held_pulses es"
  "held_pseqs [] = 0" "held_pseqs (d # ds) = length (pde_sequences d) + held_pseqs ds" "held_pseqs (ds @ es) = held_pseqs ds + held_pseqs es"
  by (simp_all add: held_pulses_def held_pseqs_def)

text \<open>
  An operation on one detector keeps its kind and the balance: whatever else is held, the ledger is right
  afterwards when it was before, and the number of pulses in the queue is the counter.
\<close>

definition pde_kind :: "pri_detector \<Rightarrow> radar_detector_specs \<times> u32 \<times> u32" where
  "pde_kind pde = (pde_rs pde, pde_window_size pde, pde_max_count pde)"

lemma pde_kind_simps [simp]:
  "pde_kind (pde_sequences_update f pde) = pde_kind pde" "pde_kind (pde_pulses_update g pde) = pde_kind pde"
  "pde_kind (pde_count_update h pde) = pde_kind pde" "pde_kind (pde_last_ts_update l pde) = pde_kind pde"
  by (simp_all add: pde_kind_def)

definition keeps_pools :: "pri_detector \<Rightarrow> radar_pools \<Rightarrow> pri_detector \<Rightarrow> radar_pools \<Rightarrow> bool" where
  "keeps_pools pde pl pde' pl' \<longleftrightarrow> (\<forall>a b. pools_ok (a @ pde # b) pl \<longrightarrow> pools_ok (a @ pde' # b) pl') \<and>
     pde_kind pde' = pde_kind pde \<and> pde_freq pde' = pde_freq pde"

lemma keeps_refl: "keeps_pools pde pl pde pl"
  by (simp add: keeps_pools_def)

lemma keeps_trans: "keeps_pools pde pl pde' pl' \<Longrightarrow> keeps_pools pde' pl' pde'' pl'' \<Longrightarrow> keeps_pools pde pl pde'' pl''"
  by (simp add: keeps_pools_def)

text \<open>Enough for one step: what the detector and the pools gain together is what the ledger gains.\<close>

lemma keepsI:
  assumes "pl_owned_pulses pl' + length (pde_pulses pde) + pl_pulses pl = pl_owned_pulses pl + length (pde_pulses pde') + pl_pulses pl'"
    and "pl_owned_pseqs pl' + length (pde_sequences pde) + length (pl_pseqs pl) =
      pl_owned_pseqs pl + length (pde_sequences pde') + length (pl_pseqs pl')"
    and "pl_refs pl' = pl_refs pl" and "pde_kind pde' = pde_kind pde" and "pde_freq pde' = pde_freq pde"
  shows "keeps_pools pde pl pde' pl'"
  using assms by (auto simp: keeps_pools_def pools_ok_def)

lemma keeps_same:
  "pde_pulses pde' = pde_pulses pde \<Longrightarrow> length (pde_sequences pde') = length (pde_sequences pde) \<Longrightarrow>
   pde_kind pde' = pde_kind pde \<Longrightarrow> pde_freq pde' = pde_freq pde \<Longrightarrow> keeps_pools pde pl pde' pl"
  by (rule keepsI) simp_all

section \<open>The queue\<close>

lemma dequeue_keeps: "pulse_queue_dequeue pde pl = (b, pde', pl') \<Longrightarrow> keeps_pools pde pl pde' pl'"
  by (rule keepsI)
    (auto simp: pulse_queue_dequeue_def pulse_queue_get_tail_def pool_put_pulse_elem_def Let_def split: if_splits)

lemma window_keeps: "window_loop m pde pl = (pde', pl') \<Longrightarrow> keeps_pools pde pl pde' pl'"
proof (induction m pde pl rule: window_loop.induct)
  case (1 m pde pl)
  show ?case
  proof (cases "pulse_queue_get_tail pde")
    case None
    with 1 show ?thesis by (simp add: window_loop.simps keeps_refl)
  next
    case (Some ts)
    obtain b pde1 pl1 where d: "pulse_queue_dequeue pde pl = (b, pde1, pl1)" by (cases "pulse_queue_dequeue pde pl") auto
    show ?thesis
    proof (cases "ts \<ge> m")
      case True
      with 1 Some show ?thesis by (simp add: window_loop.simps keeps_refl)
    next
      case False
      with 1(2) Some d have "window_loop m pde1 pl1 = (pde', pl')" by (subst (asm) window_loop.simps) simp
      from 1(1) [OF Some False refl d [symmetric] refl this] dequeue_keeps [OF d] show ?thesis by (rule keeps_trans [rotated])
    qed
  qed
qed

lemma check_window_keeps: "pulse_queue_check_window pde pl = (pde', pl') \<Longrightarrow> keeps_pools pde pl pde' pl'"
  by (auto simp: pulse_queue_check_window_def keeps_refl split: if_splits dest: window_keeps)

lemma enqueue_keeps:
  assumes "pulse_queue_enqueue mem pde ts pl = (b, pde', pl')"
  shows "keeps_pools pde pl pde' pl'"
proof -
  define got where "got = (let (p, pl) = pool_get_pulse_elem pl in
     if p then (True, pl)
     else (case mem (pl_calls pl) of
        None \<Rightarrow> (False, pl\<lparr>pl_calls := pl_calls pl + 1\<rparr>)
      | Some _ \<Rightarrow> (True, pl\<lparr>pl_calls := pl_calls pl + 1, pl_owned_pulses := pl_owned_pulses pl + 1\<rparr>)))"
  obtain p pl1 where g: "got = (p, pl1)" by (cases got) auto
  let ?q = "pde\<lparr>pde_pulses := ts # pde_pulses pde, pde_count := pde_count pde + 1, pde_last_ts := ts\<rparr>"
  obtain pde2 pl2 where w: "pulse_queue_check_window ?q pl1 = (pde2, pl2)" by fastforce
  have eq: "pulse_queue_enqueue mem pde ts pl = (if \<not> p then (False, pde, pl1)
      else if pde_count pde2 \<ge> pde_max_count pde2 then (True, snd (pulse_queue_dequeue pde2 pl2)) else (True, pde2, pl2))"
    using g w unfolding pulse_queue_enqueue_def got_def Let_def by (auto split: prod.splits)
  show ?thesis
  proof (cases p)
    case False
    have "keeps_pools pde pl pde pl1"
      using g False by (intro keepsI) (auto simp: got_def pool_get_pulse_elem_def split: if_splits option.splits)
    with eq False assms show ?thesis by simp
  next
    case True
    have "keeps_pools pde pl ?q pl1"
      using g True by (intro keepsI) (auto simp: got_def pool_get_pulse_elem_def split: if_splits option.splits)
    then have k: "keeps_pools pde pl pde2 pl2" using check_window_keeps [OF w] by (rule keeps_trans)
    show ?thesis
    proof (cases "pde_count pde2 \<ge> pde_max_count pde2")
      case True
      obtain c where d: "pulse_queue_dequeue pde2 pl2 = (c, pde', pl')" using eq assms \<open>p\<close> True by (cases "pulse_queue_dequeue pde2 pl2") auto
      from keeps_trans [OF k dequeue_keeps [OF d]] show ?thesis .
    qed (use eq assms \<open>p\<close> k in simp)
  qed
qed

text \<open>The operations of the queue leave the rest of the detector alone.\<close>

definition queue_frame :: "pri_detector \<Rightarrow> pri_detector \<Rightarrow> bool" where
  "queue_frame pde pde' \<longleftrightarrow> pde_sequences pde' = pde_sequences pde \<and> pde_rs pde' = pde_rs pde \<and> pde_freq pde' = pde_freq pde \<and>
     pde_max_count pde' = pde_max_count pde \<and> pde_window_size pde' = pde_window_size pde"

lemma dequeue_frame: "pulse_queue_dequeue pde pl = (b, pde', pl') \<Longrightarrow> queue_frame pde pde'"
  by (auto simp: pulse_queue_dequeue_def queue_frame_def Let_def split: if_splits)

lemma window_frame: "window_loop m pde pl = (pde', pl') \<Longrightarrow> queue_frame pde pde'"
proof (induction m pde pl rule: window_loop.induct)
  case (1 m pde pl)
  show ?case
  proof (cases "pulse_queue_get_tail pde")
    case None
    with 1 show ?thesis by (simp add: window_loop.simps queue_frame_def)
  next
    case (Some ts)
    obtain b pde1 pl1 where d: "pulse_queue_dequeue pde pl = (b, pde1, pl1)" by (cases "pulse_queue_dequeue pde pl") auto
    show ?thesis
    proof (cases "ts \<ge> m")
      case True
      with 1 Some show ?thesis by (simp add: window_loop.simps queue_frame_def)
    next
      case False
      with 1(2) Some d have "window_loop m pde1 pl1 = (pde', pl')" by (subst (asm) window_loop.simps) simp
      from 1(1) [OF Some False refl d [symmetric] refl this] dequeue_frame [OF d] show ?thesis by (simp add: queue_frame_def)
    qed
  qed
qed

lemma enqueue_frame: "pulse_queue_enqueue mem pde ts pl = (b, pde', pl') \<Longrightarrow> queue_frame pde pde'"
  unfolding pulse_queue_enqueue_def pulse_queue_check_window_def Let_def
  by (auto simp: queue_frame_def split: prod.splits if_splits option.splits dest!: window_frame dequeue_frame)

lemma fold_put_pulse: "fold (\<lambda>_. pool_put_pulse_elem) xs pl = pl\<lparr>pl_pulses := pl_pulses pl + length xs\<rparr>"
  by (induction xs arbitrary: pl) (simp_all add: pool_put_pulse_elem_def)

lemma fold_put_pseq: "fold pool_put_pseq_elem xs pl = pl\<lparr>pl_pseqs := rev xs @ pl_pseqs pl\<rparr>"
  by (induction xs arbitrary: pl) (simp_all add: pool_put_pseq_elem_def)

lemma reset_keeps: "pri_detector_reset pde ts pl = (pde', pl') \<Longrightarrow> keeps_pools pde pl pde' pl'"
  by (rule keepsI) (auto simp: pri_detector_reset_def fold_put_pulse fold_put_pseq)

section \<open>Sequences\<close>

lemma get_pseq:
  "pool_get_pseq_elem mem pl = (r, pl') \<Longrightarrow> pl_pulses pl' = pl_pulses pl \<and> pl_owned_pulses pl' = pl_owned_pulses pl \<and>
   pl_refs pl' = pl_refs pl \<and>
   pl_owned_pseqs pl' + length (pl_pseqs pl) = pl_owned_pseqs pl + length (pl_pseqs pl') + (if r = None then 0 else 1)"
  by (auto simp: pool_get_pseq_elem_def split: list.splits option.splits)

lemma create_keeps:
  "create_loop mem rs ts mc i ps seqs pl = (ok, seqs', pl') \<Longrightarrow>
   pl_pulses pl' = pl_pulses pl \<and> pl_owned_pulses pl' = pl_owned_pulses pl \<and> pl_refs pl' = pl_refs pl \<and>
   pl_owned_pseqs pl' + length seqs + length (pl_pseqs pl) = pl_owned_pseqs pl + length seqs' + length (pl_pseqs pl')"
proof (induction ps arbitrary: i seqs pl)
  case (Cons p ps)
  obtain r pl1 where g: "pool_get_pseq_elem mem pl = (r, pl1)" by (cases "pool_get_pseq_elem mem pl") auto
  show ?case
    using Cons.prems Cons.IH g get_pseq [OF g]
    by (auto simp: Let_def split: if_splits option.splits dest!: Cons.IH)
qed simp

lemma existing_keeps:
  "existing_loop tol ts seqs mc pl = (mc', seqs', pl') \<Longrightarrow>
   pl_pulses pl' = pl_pulses pl \<and> pl_owned_pulses pl' = pl_owned_pulses pl \<and> pl_refs pl' = pl_refs pl \<and>
   pl_owned_pseqs pl' = pl_owned_pseqs pl \<and> length seqs + length (pl_pseqs pl) = length seqs' + length (pl_pseqs pl')"
proof (induction seqs arbitrary: mc pl seqs' mc' pl')
  case (Cons ps seqs)
  show ?case
  proof (cases "ts > ps_deadline_ts ps")
    case True
    with Cons.prems Cons.IH [where mc = mc and pl = "pool_put_pseq_elem ps pl" and seqs' = seqs'] show ?thesis by (simp add: pool_put_pseq_elem_def)
  next
    case False
    obtain ps2 mc2 where u: "(if pde_get_multiple (ucast (ts - ps_last_ts ps)) (ps_pri ps) tol > 0
        then (let ps = ps\<lparr>ps_last_ts := ts, ps_count := ps_count ps + 1\<rparr>
              in (ps, if mc < ps_count ps then ps_count ps else mc))
        else (ps\<lparr>ps_count_falses := ps_count_falses ps + 1\<rparr>, mc)) = (ps2, mc2)" by fastforce
    obtain mc3 seqs3 pl3 where e: "existing_loop tol ts seqs mc2 pl = (mc3, seqs3, pl3)" by (cases "existing_loop tol ts seqs mc2 pl") auto
    have "seqs' = ps2 # seqs3" "pl' = pl3" using Cons.prems False u e by (auto simp: Let_def split: if_splits)
    with Cons.IH [OF e] show ?thesis by simp
  qed
qed simp

section \<open>The contract of the detectors\<close>

locale radar_ops =
  fixes add_pulse :: "(nat \<Rightarrow> pri_sequence option) \<Rightarrow> pri_detector \<Rightarrow> u64 \<Rightarrow> radar_pools \<Rightarrow>
      pri_sequence option \<times> pri_detector \<times> radar_pools"
  assumes add_keeps: "add_pulse mem pde ts pl = (r, pde', pl') \<Longrightarrow> keeps_pools pde pl pde' pl'"
begin

lemma add_at_keeps:
  assumes "k < length ds" and "pools_ok (a @ ds @ b) pl" and "add_pulse mem (ds ! k) ts pl = (r, pde', pl')"
  shows "pools_ok (a @ ds[k := pde'] @ b) pl'"
proof -
  have d: "a @ ds @ b = (a @ take k ds) @ ds ! k # (drop (Suc k) ds @ b)"
    using id_take_nth_drop [OF assms(1)] by simp
  have "pools_ok ((a @ take k ds) @ pde' # (drop (Suc k) ds @ b)) pl'"
    using add_keeps [OF assms(3)] assms(2) unfolding d keeps_pools_def by blast
  then show ?thesis using assms(1) by (simp add: upd_conv_take_nth_drop)
qed

lemma burst_keeps:
  "fold (\<lambda>ts (pde, pl). snd (add_pulse mem pde ts pl)) tss (pde, pl) = (pde', pl') \<Longrightarrow> keeps_pools pde pl pde' pl'"
proof (induction tss arbitrary: pde pl)
  case (Cons ts tss)
  obtain r pde1 pl1 where a: "add_pulse mem pde ts pl = (r, pde1, pl1)" by (cases "add_pulse mem pde ts pl") auto
  with Cons.prems have "fold (\<lambda>ts (pde, pl). snd (add_pulse mem pde ts pl)) tss (pde1, pl1) = (pde', pl')" by simp
  from keeps_trans [OF add_keeps [OF a] Cons.IH [OF this]] show ?case .
qed (simp add: keeps_refl)

end

lemma short_add_keeps:
  assumes "pde_short_add_pulse mem pde ts pl = (r, pde', pl')"
  shows "keeps_pools pde pl pde' pl'"
proof -
  obtain b1 pde1 pl1 where e1: "pulse_queue_enqueue mem pde ts pl = (b1, pde1, pl1)" by (cases "pulse_queue_enqueue mem pde ts pl") auto
  obtain mc seqs pl2 where x: "existing_loop (ucast (rs_max_pri_tolerance (pde_rs pde))) ts (pde_sequences pde) 0 pl = (mc, seqs, pl2)"
    by (cases "existing_loop (ucast (rs_max_pri_tolerance (pde_rs pde))) ts (pde_sequences pde) 0 pl") auto
  obtain ok seqs' pl3 where c: "create_loop mem (pde_rs pde) ts mc 0 (pde_pulses pde) seqs pl2 = (ok, seqs', pl3)"
    by (cases "create_loop mem (pde_rs pde) ts mc 0 (pde_pulses pde) seqs pl2") auto
  let ?p3 = "pde\<lparr>pde_sequences := seqs'\<rparr>"
  obtain b4 pde4 pl4 where e4: "pulse_queue_enqueue mem ?p3 ts pl3 = (b4, pde4, pl4)" by (cases "pulse_queue_enqueue mem ?p3 ts pl3") auto
  obtain pde5 pl5 where r5: "pri_detector_reset ?p3 ts pl3 = (pde5, pl5)" by (cases "pri_detector_reset ?p3 ts pl3") auto
  have k: "keeps_pools pde pl ?p3 pl3"
    using existing_keeps [OF x] create_keeps [OF c] by (intro keepsI) simp_all
  have "(pde', pl') \<in> {(pde1, pl1), (pde, pl), (pde5, pl5), (?p3, pl3), (pde4, pl4)}"
    using assms e1 x c e4 r5
    by (auto simp: pde_short_add_pulse_def pde_short_add_to_existing_seqs_def pde_short_create_sequences_def Let_def
      split: if_splits option.splits)
  then show ?thesis
    using enqueue_keeps [OF e1] keeps_refl k keeps_trans [OF k reset_keeps [OF r5]] keeps_trans [OF k enqueue_keeps [OF e4]] by auto
qed

lemma long_window_keeps: "long_window_loop m ps pde pl = (ps', pde', pl') \<Longrightarrow> keeps_pools pde pl pde' pl' \<and> pde_sequences pde' = pde_sequences pde"
proof (induction m ps pde pl rule: long_window_loop.induct)
  case (1 m ps pde pl)
  show ?case
  proof (cases "pulse_queue_get_tail pde")
    case None
    with 1 show ?thesis by (simp add: long_window_loop.simps keeps_refl)
  next
    case (Some ts)
    obtain b pde1 pl1 where d: "pulse_queue_dequeue pde pl = (b, pde1, pl1)" by (cases "pulse_queue_dequeue pde pl") auto
    show ?thesis
    proof (cases "ts \<ge> m")
      case True
      with 1 Some show ?thesis by (simp add: long_window_loop.simps keeps_refl)
    next
      case False
      with 1(2) Some d have "long_window_loop m (ps\<lparr>ps_count := ps_count ps - 1\<rparr>) pde1 pl1 = (ps', pde', pl')"
        by (subst (asm) long_window_loop.simps) simp
      moreover have "pde_sequences pde1 = pde_sequences pde" using d by (auto simp: pulse_queue_dequeue_def Let_def split: if_splits)
      ultimately show ?thesis using 1(1) [OF Some False refl d [symmetric] refl] keeps_trans [OF dequeue_keeps [OF d]] by metis
    qed
  qed
qed

lemma long_burst_keeps:
  assumes "long_burst mem ps pde ts delta pl = (r, ps', pde', pl')"
  shows "keeps_pools pde pl pde' pl' \<and> pde_sequences pde' = pde_sequences pde"
proof -
  let ?ps = "ps\<lparr>ps_count := ps_count ps + 1, ps_count_falses := 1\<rparr>"
  obtain ps1 pde1 pl1 where w: "(if ts > ps_deadline_ts ?ps then long_window_loop (ts - ucast (pde_window_size pde)) ?ps pde pl
      else (?ps, pde, pl)) = (ps1, pde1, pl1)" by (metis prod_cases3)
  have k: "keeps_pools pde pl pde1 pl1 \<and> pde_sequences pde1 = pde_sequences pde"
    using w by (auto simp: keeps_refl split: if_splits dest: long_window_keeps)
  obtain b pde2 pl2 where e: "pulse_queue_enqueue mem pde1 ts pl1 = (b, pde2, pl2)" by (cases "pulse_queue_enqueue mem pde1 ts pl1") auto
  have "(pde', pl') \<in> {(pde1, pl1), (pde2, pl2)}"
    using assms w e unfolding long_burst_def Let_def by (auto split: if_splits)
  then show ?thesis
    using k keeps_trans [OF conjunct1 [OF k] enqueue_keeps [OF e]] enqueue_frame [OF e] by (auto simp: queue_frame_def)
qed

lemma long_add_keeps:
  assumes "pde_long_add_pulse mem pde ts pl = (r, pde', pl')"
  shows "keeps_pools pde pl pde' pl'"
proof (cases "pde_sequences pde")
  case Nil
  obtain q pl1 where g: "pool_get_pseq_elem mem pl = (q, pl1)" by (cases "pool_get_pseq_elem mem pl") auto
  show ?thesis
  proof (cases q)
    case None
    have "keeps_pools pde pl pde pl1" using get_pseq [OF g] None by (intro keepsI) simp_all
    with assms Nil g None show ?thesis by (simp add: pde_long_add_pulse_def)
  next
    case (Some ps)
    let ?ps = "ps\<lparr>ps_count := 1, ps_count_falses := 1, ps_first_ts := ts, ps_last_ts := ts,
      ps_deadline_ts := ts + ucast (pde_window_size pde), ps_pri := 0\<rparr>"
    obtain b where e: "pulse_queue_enqueue mem (pde\<lparr>pde_sequences := [?ps]\<rparr>) ts pl1 = (b, pde', pl')"
      using assms Nil g Some by (auto simp: pde_long_add_pulse_def Let_def split: prod.splits)
    have "keeps_pools pde pl (pde\<lparr>pde_sequences := [?ps]\<rparr>) pl1" using get_pseq [OF g] Some Nil by (intro keepsI) simp_all
    from keeps_trans [OF this enqueue_keeps [OF e]] show ?thesis .
  qed
next
  case (Cons ps rest)
  define d where "d = (ucast (ts - ps_last_ts ps) :: u32)"
  define p where "p = ps\<lparr>ps_last_ts := ts\<rparr>"
  obtain f ps2 pde2 pl2 where b: "long_burst mem p pde ts d pl = (f, ps2, pde2, pl2)" by (cases "long_burst mem p pde ts d pl") auto
  have same: "keeps_pools pde pl (pde\<lparr>pde_sequences := q # rest\<rparr>) pl" for q using Cons by (intro keeps_same) simp_all
  have "keeps_pools pde2 pl2 (pde2\<lparr>pde_sequences := ps2 # rest\<rparr>) pl2"
    using long_burst_keeps [OF b] Cons by (intro keeps_same) simp_all
  from keeps_trans [OF conjunct1 [OF long_burst_keeps [OF b]] this]
  have burst: "keeps_pools pde pl (pde2\<lparr>pde_sequences := ps2 # rest\<rparr>) pl2" .
  have "(\<exists>q. pde' = pde\<lparr>pde_sequences := q # rest\<rparr> \<and> pl' = pl) \<or> (pde', pl') = (pde2\<lparr>pde_sequences := ps2 # rest\<rparr>, pl2)"
    using assms Cons b unfolding pde_long_add_pulse_def Let_def d_def p_def by (auto split: if_splits)
  with same burst show ?thesis by auto
qed

text \<open>Both kinds of detector meet the contract, and so does the choice between them.\<close>

interpretation short_ops: radar_ops pde_short_add_pulse
  by unfold_locales (rule short_add_keeps)

interpretation long_ops: radar_ops pde_long_add_pulse
  by unfold_locales (rule long_add_keeps)

interpretation all_ops: radar_ops ops_add_pulse
  by unfold_locales (auto simp: ops_add_pulse_def split: if_splits dest: short_add_keeps long_add_keeps)

section \<open>All types\<close>

definition keeps_each :: "(pri_detector \<Rightarrow> radar_pools \<Rightarrow> pri_detector \<times> radar_pools) \<Rightarrow> bool" where
  "keeps_each f \<longleftrightarrow> (\<forall>pde pl pde' pl'. f pde pl = (pde', pl') \<longrightarrow> keeps_pools pde pl pde' pl')"

lemma each_keeps:
  assumes "keeps_each f" and "each_pde f ds pl = (ds', pl')" and "pools_ok (a @ ds @ b) pl"
  shows "pools_ok (a @ ds' @ b) pl' \<and> map pde_kind ds' = map pde_kind ds"
  using assms(2,3)
proof (induction ds arbitrary: a pl ds')
  case (Cons d ds)
  obtain d1 pl1 where f: "f d pl = (d1, pl1)" by (cases "f d pl") auto
  obtain ds1 where e: "each_pde f ds pl1 = (ds1, pl')" "ds' = d1 # ds1" using Cons.prems(1) f by (auto split: prod.splits)
  have k: "keeps_pools d pl d1 pl1" using assms(1) f by (simp add: keeps_each_def)
  then have "pools_ok ((a @ [d1]) @ ds @ b) pl1" using Cons.prems(2) by (simp add: keeps_pools_def)
  from Cons.IH [OF e(1) this] e(2) k show ?case by (simp add: keeps_pools_def)
qed simp

lemma each_types_keeps:
  assumes "keeps_each f" and "each_pde (each_pde f) dss pl = (dss', pl')" and "pools_ok (a @ concat dss @ b) pl"
  shows "pools_ok (a @ concat dss' @ b) pl' \<and> map (map pde_kind) dss' = map (map pde_kind) dss"
  using assms(2,3)
proof (induction dss arbitrary: a pl dss')
  case (Cons ds dss)
  obtain ds1 pl1 where f: "each_pde f ds pl = (ds1, pl1)" by (cases "each_pde f ds pl") auto
  obtain dss1 where e: "each_pde (each_pde f) dss pl1 = (dss1, pl')" "dss' = ds1 # dss1" using Cons.prems(1) f by (auto split: prod.splits)
  have "pools_ok (a @ ds @ (concat dss @ b)) pl" using Cons.prems(2) by simp
  from each_keeps [OF assms(1) f this] have k: "pools_ok (a @ ds1 @ concat dss @ b) pl1" "map pde_kind ds1 = map pde_kind ds" by simp_all
  then have "pools_ok ((a @ ds1) @ concat dss @ b) pl1" by simp
  from Cons.IH [OF e(1) this] e(2) k(2) show ?case by simp
qed simp

text \<open>The detectors of a pattern detector, and what is kept of it: the kinds of its detectors.\<close>

definition dpd_pdes :: "dfs_pattern_detector \<Rightarrow> pri_detector list" where
  "dpd_pdes dpd = concat (dpd_detectors dpd)"

text \<open>What the set-up has made of a pattern.\<close>

definition kind_of :: "radar_detector_specs \<Rightarrow> radar_detector_specs \<times> u32 \<times> u32" where
  "kind_of rs = pde_kind (ops_init \<lparr>pde_rs = rs, pde_last_ts = 0, pde_sequences = [], pde_pulses = [], pde_count = 0,
     pde_max_count = 0, pde_window_size = 0, pde_freq = 0\<rparr>)"

definition radar_specs :: "radar_detector_specs list" where
  "radar_specs = concat (map (\<lambda>rt. rt_spec_riu rt @ rt_spec_fcu rt) dfs_domains)"

definition dpd_wf :: "dfs_pattern_detector \<Rightarrow> bool" where
  "dpd_wf dpd \<longleftrightarrow> length (dpd_radar_spec dpd) = dpd_num_radar_types dpd \<and> set (dpd_radar_spec dpd) \<subseteq> set radar_specs \<and>
     dpd_num_radar_types dpd \<le> length (dpd_detectors dpd) \<and>
     length (dpd_detectors dpd) = get_dfs_max_radar_types \<and>
     (\<forall>i < length (dpd_detectors dpd). \<forall>pde \<in> set (dpd_detectors dpd ! i).
        i < dpd_num_radar_types dpd \<and> pde_kind pde = kind_of (dpd_radar_spec dpd ! i))"

lemma dpd_wf_same:
  assumes "dpd_wf dpd" and "map (map pde_kind) (dpd_detectors dpd') = map (map pde_kind) (dpd_detectors dpd)"
    and "dpd_num_radar_types dpd' = dpd_num_radar_types dpd" and "dpd_radar_spec dpd' = dpd_radar_spec dpd"
  shows "dpd_wf dpd'"
proof -
  have len: "length (dpd_detectors dpd') = length (dpd_detectors dpd)" using arg_cong [OF assms(2), of length] by simp
  have same: "pde_kind ` set (dpd_detectors dpd' ! i) = pde_kind ` set (dpd_detectors dpd ! i)" if "i < length (dpd_detectors dpd)" for i
    using arg_cong [OF assms(2), of "\<lambda>x. set (x ! i)"] that len by simp
  have "i < dpd_num_radar_types dpd \<and> pde_kind pde = kind_of (dpd_radar_spec dpd ! i)"
    if i: "i < length (dpd_detectors dpd)" and pde: "pde \<in> set (dpd_detectors dpd' ! i)" for i pde
  proof -
    have "pde_kind pde \<in> pde_kind ` set (dpd_detectors dpd ! i)" using same [OF i] pde by blast
    then show ?thesis using i assms(1) by (auto simp: dpd_wf_def)
  qed
  with assms(1,3,4) len show ?thesis by (simp add: dpd_wf_def)
qed

lemma each_type_keeps:
  assumes "keeps_each f" and "each_type f dpd pl = (dpd', pl')" and "pools_ok (a @ dpd_pdes dpd @ b) pl" and "dpd_wf dpd"
  shows "pools_ok (a @ dpd_pdes dpd' @ b) pl' \<and> dpd_wf dpd' \<and> dpd_region dpd' = dpd_region dpd"
proof -
  let ?n = "dpd_num_radar_types dpd" and ?ds = "dpd_detectors dpd"
  obtain ds pl1 where e: "each_pde (each_pde f) (take ?n ?ds) pl = (ds, pl1)" by fastforce
  have dpd': "dpd' = dpd\<lparr>dpd_detectors := ds @ drop ?n ?ds\<rparr>" "pl' = pl1" using assms(2) e by (auto simp: each_type_def Let_def)
  have "dpd_pdes dpd = concat (take ?n ?ds) @ concat (drop ?n ?ds)"
    unfolding dpd_pdes_def concat_append [symmetric] append_take_drop_id ..
  with assms(3) have "pools_ok (a @ concat (take ?n ?ds) @ concat (drop ?n ?ds) @ b) pl" by simp
  note k = each_types_keeps [OF assms(1) e this]
  have "map (map pde_kind) (dpd_detectors dpd') = map (map pde_kind) (take ?n ?ds @ drop ?n ?ds)"
    unfolding map_append using k dpd' by (simp del: take_map drop_map)
  then have "map (map pde_kind) (dpd_detectors dpd') = map (map pde_kind) ?ds" unfolding append_take_drop_id .
  then have "dpd_wf dpd'" using assms(4) by (rule_tac dpd_wf_same) (simp_all add: dpd')
  with k dpd' show ?thesis by (simp add: dpd_pdes_def)
qed

lemma get_loop_bound: "get_loop freq ds k cur = Some j \<Longrightarrow> j < k + length ds \<or> cur = Some j"
proof (induction freq ds k cur rule: get_loop.induct)
  case (2 freq pde rest k cur)
  then show ?case by (auto split: if_splits)
qed simp

lemma pools_ok_alloc: "pools_ok ds (pl\<lparr>pl_calls := n\<rparr>) = pools_ok ds pl"
  by (simp add: pools_ok_def)

lemma init_pools:
  assumes "pri_detector_init mem rs freq pl = (Some pde, pl')" and "pools_ok (a @ b) pl"
  shows "pools_ok (a @ pde # b) pl' \<and> pde_kind pde = kind_of rs"
proof -
  have "pde_pulses pde = []" "pde_sequences pde = []" "pde_kind pde = kind_of rs" "pl' = pool_register_ref (pl\<lparr>pl_calls := pl_calls pl + 1\<rparr>)"
    using assms(1) by (auto simp: pri_detector_init_def ops_init_def pde_long_init_def pde_short_init_def kind_of_def pde_kind_def split: option.splits)
  with assms(2) show ?thesis by (simp add: pools_ok_def pool_register_ref_def)
qed

lemma get_pools:
  assumes g: "pri_detector_get mem rs freq ds pl = (Some (k, ds'), pl')" and ok: "pools_ok (a @ ds @ b) pl"
    and rs: "\<forall>pde \<in> set ds. pde_kind pde = kind_of rs"
  shows "pools_ok (a @ ds' @ b) pl' \<and> k < length ds' \<and> (\<forall>pde \<in> set ds'. pde_kind pde = kind_of rs)"
proof (cases "get_loop freq ds 0 None")
  case (Some j)
  with g ok rs get_loop_bound [OF Some] show ?thesis by (auto simp: pri_detector_get_def)
next
  case None
  then obtain pde where i: "pri_detector_init mem rs freq pl = (Some pde, pl')" "k = 0" "ds' = pde # ds"
    using g by (auto simp: pri_detector_get_def split: prod.splits option.splits)
  from init_pools [OF i(1) ok] i(2,3) rs show ?thesis by simp
qed

lemma get_some:
  assumes "\<forall>n. mem n \<noteq> None"
  shows "\<exists>k ds' pl'. pri_detector_get mem rs freq ds pl = (Some (k, ds'), pl')"
proof -
  obtain m where "mem (pl_calls pl) = Some m" using assms by auto
  then show ?thesis by (cases "get_loop freq ds 0 None") (simp_all add: pri_detector_get_def pri_detector_init_def)
qed

lemma keeps_each_reset: "keeps_each (\<lambda>pde. pri_detector_reset pde ts)"
  by (auto simp: keeps_each_def dest: reset_keeps)

lemma keeps_each_overflow: "keeps_each (\<lambda>pde pl. if ops_reset_on_pri_overflow pde then pri_detector_reset pde ts pl else (pde, pl))"
  by (auto simp: keeps_each_def keeps_refl dest: reset_keeps split: if_splits)

lemma dpd_reset_keeps:
  assumes "dfs_pattern_detector_reset j dpd pl = (dpd', pl')" and "pools_ok (a @ dpd_pdes dpd @ b) pl" and "dpd_wf dpd"
  shows "pools_ok (a @ dpd_pdes dpd' @ b) pl' \<and> dpd_wf dpd' \<and> dpd_region dpd' = dpd_region dpd"
proof -
  obtain d1 pl1 where e: "each_type (\<lambda>pde. pri_detector_reset pde (dpd_last_pulse_ts dpd)) dpd pl = (d1, pl1)" by fastforce
  have "dpd' = d1\<lparr>dpd_last_pulse_ts := 0, dpd_prev_jiffies := j\<rparr>" "pl' = pl1"
    using assms(1) e by (auto simp: dfs_pattern_detector_reset_def Let_def)
  with each_type_keeps [OF keeps_each_reset e assms(2,3)] show ?thesis by (simp add: dpd_pdes_def dpd_wf_def)
qed

text \<open>One detector of type \<open>i\<close> is used.\<close>

lemma put_detectors:
  assumes wf: "dpd_wf dpd" and i: "i < dpd_num_radar_types dpd"
  shows "dpd_pdes dpd = concat (take i (dpd_detectors dpd)) @ dpd_detectors dpd ! i @ concat (drop (Suc i) (dpd_detectors dpd))"
    and "dpd_pdes (dpd\<lparr>dpd_detectors := (dpd_detectors dpd)[i := xs]\<rparr>) =
      concat (take i (dpd_detectors dpd)) @ xs @ concat (drop (Suc i) (dpd_detectors dpd))"
    and "\<forall>pde \<in> set xs. pde_kind pde = kind_of (dpd_radar_spec dpd ! i) \<Longrightarrow> dpd_wf (dpd\<lparr>dpd_detectors := (dpd_detectors dpd)[i := xs]\<rparr>)"
proof -
  have len: "i < length (dpd_detectors dpd)" using wf i by (simp add: dpd_wf_def)
  show "dpd_pdes dpd = concat (take i (dpd_detectors dpd)) @ dpd_detectors dpd ! i @ concat (drop (Suc i) (dpd_detectors dpd))"
    unfolding dpd_pdes_def by (subst id_take_nth_drop [OF len]) simp
  show "dpd_pdes (dpd\<lparr>dpd_detectors := (dpd_detectors dpd)[i := xs]\<rparr>) =
      concat (take i (dpd_detectors dpd)) @ xs @ concat (drop (Suc i) (dpd_detectors dpd))"
    using len by (simp add: dpd_pdes_def upd_conv_take_nth_drop)
  show "dpd_wf (dpd\<lparr>dpd_detectors := (dpd_detectors dpd)[i := xs]\<rparr>)" if "\<forall>pde \<in> set xs. pde_kind pde = kind_of (dpd_radar_spec dpd ! i)"
    using wf that i by (auto simp: dpd_wf_def nth_list_update)
qed

text \<open>One round of the loop over the types: what is used, and that the balance stays.\<close>

lemma types_step:
  assumes g: "pri_detector_get mem (dpd_radar_spec dpd ! i) freq (dpd_detectors dpd ! i) pl = (Some (k, ds1), pl1)"
    and op: "ops_add_pulse mem (ds1 ! k) ts pl1 = (ps, pde2, pl2)"
    and ok: "pools_ok (a @ dpd_pdes dpd @ b) pl" and wf: "dpd_wf dpd" and i: "i < dpd_num_radar_types dpd"
  shows "k < length ds1"
    and "pools_ok (a @ dpd_pdes (dpd\<lparr>dpd_detectors := (dpd_detectors dpd)[i := ds1[k := pde2]]\<rparr>) @ b) pl2"
    and "dpd_wf (dpd\<lparr>dpd_detectors := (dpd_detectors dpd)[i := ds1[k := pde2]]\<rparr>)"
proof -
  let ?rs = "dpd_radar_spec dpd ! i" and ?ds = "dpd_detectors dpd ! i"
  let ?a = "a @ concat (take i (dpd_detectors dpd))" and ?b = "concat (drop (Suc i) (dpd_detectors dpd)) @ b"
  have "pools_ok (?a @ ?ds @ ?b) pl" using ok put_detectors(1) [OF wf i] by simp
  moreover have "\<forall>pde \<in> set ?ds. pde_kind pde = kind_of ?rs" using wf i by (simp add: dpd_wf_def)
  ultimately have g1: "pools_ok (?a @ ds1 @ ?b) pl1" "k < length ds1" "\<forall>pde \<in> set ds1. pde_kind pde = kind_of ?rs"
    using get_pools [OF g, of ?a ?b] by auto
  show "k < length ds1" by fact
  have "pools_ok (?a @ ds1[k := pde2] @ ?b) pl2" by (rule all_ops.add_at_keeps [OF g1(2,1) op])
  then show "pools_ok (a @ dpd_pdes (dpd\<lparr>dpd_detectors := (dpd_detectors dpd)[i := ds1[k := pde2]]\<rparr>) @ b) pl2"
    using put_detectors(2) [OF wf i] by simp
  have "pde_kind pde2 = pde_kind (ds1 ! k)" using all_ops.add_keeps [OF op] by (simp add: keeps_pools_def)
  then have "\<forall>pde \<in> set (ds1[k := pde2]). pde_kind pde = kind_of ?rs"
    using g1(2,3) set_update_subset_insert [of ds1 k pde2] by (auto simp: nth_mem)
  then show "dpd_wf (dpd\<lparr>dpd_detectors := (dpd_detectors dpd)[i := ds1[k := pde2]]\<rparr>)" by (rule put_detectors(3) [OF wf i])
qed

lemma types_get:
  "dpd_wf dpd \<Longrightarrow> i < dpd_num_radar_types dpd \<Longrightarrow>
   c_get (dpd_radar_spec dpd) i = Some (dpd_radar_spec dpd ! i) \<and> c_get (dpd_detectors dpd) i = Some (dpd_detectors dpd ! i)"
  by (simp add: c_get_def dpd_wf_def)

lemma types_loop_keeps:
  assumes "types_loop mem j freq len is dpd pl = Some (hit, dpd', pl')" and "pools_ok (a @ dpd_pdes dpd @ b) pl" and "dpd_wf dpd"
    and "\<forall>i \<in> set is. i < dpd_num_radar_types dpd"
  shows "pools_ok (a @ dpd_pdes dpd' @ b) pl' \<and> dpd_wf dpd' \<and> dpd_region dpd' = dpd_region dpd"
  using assms
proof (induction "is" arbitrary: dpd pl)
  case (Cons i "is")
  note wf = Cons.prems(3)
  have i: "i < dpd_num_radar_types dpd" using Cons.prems(4) by simp
  note get = types_get [OF wf i]
  let ?rs = "dpd_radar_spec dpd ! i" and ?ds = "dpd_detectors dpd ! i"
  show ?case
  proof (cases "ucast (rs_width_min ?rs) > len \<or> ucast (rs_width_max ?rs) < len")
    case True
    with Cons get show ?thesis by simp
  next
    case False
    obtain r pl1 where g: "pri_detector_get mem ?rs freq ?ds pl = (r, pl1)" by (cases "pri_detector_get mem ?rs freq ?ds pl") auto
    with Cons.prems(1) get False obtain k ds1 where r: "r = Some (k, ds1)"
      by (auto simp: Let_def bind_eq_Some_conv split: if_split_asm)
    obtain ps pde2 pl2 where op: "ops_add_pulse mem (ds1 ! k) (dpd_last_pulse_ts dpd) pl1 = (ps, pde2, pl2)"
      by (cases "ops_add_pulse mem (ds1 ! k) (dpd_last_pulse_ts dpd) pl1") auto
    note step = types_step [OF g [unfolded r] op Cons.prems(2) wf i]
    let ?d = "dpd\<lparr>dpd_detectors := (dpd_detectors dpd)[i := ds1[k := pde2]]\<rparr>"
    have run: "(if ps \<noteq> None then Some (True, dfs_pattern_detector_reset j ?d pl2) else types_loop mem j freq len is ?d pl2) = Some (hit, dpd', pl')"
      using Cons.prems(1) get False g r step(1) op by (auto simp: Let_def c_get_def split: prod.splits if_splits)
    show ?thesis
    proof (cases "ps = None")
      case True
      with Cons.IH [of ?d pl2] run step(2,3) Cons.prems(4) show ?thesis by simp
    next
      case False
      with run have "dfs_pattern_detector_reset j ?d pl2 = (dpd', pl')" by simp
      from dpd_reset_keeps [OF this step(2,3)] show ?thesis by simp
    qed
  qed
qed simp

lemma types_loop_defined:
  assumes "\<forall>n. mem n \<noteq> None" and "dpd_wf dpd" and "\<forall>i \<in> set is. i < dpd_num_radar_types dpd" and "pools_ok (a @ dpd_pdes dpd @ b) pl"
  shows "types_loop mem j freq len is dpd pl \<noteq> None"
  using assms(2-4)
proof (induction "is" arbitrary: dpd pl)
  case (Cons i "is")
  note wf = Cons.prems(1)
  have i: "i < dpd_num_radar_types dpd" using Cons.prems(2) by simp
  note get = types_get [OF wf i]
  let ?rs = "dpd_radar_spec dpd ! i" and ?ds = "dpd_detectors dpd ! i"
  obtain k ds1 pl1 where g: "pri_detector_get mem ?rs freq ?ds pl = (Some (k, ds1), pl1)" using get_some [OF assms(1)] by blast
  obtain ps pde2 pl2 where op: "ops_add_pulse mem (ds1 ! k) (dpd_last_pulse_ts dpd) pl1 = (ps, pde2, pl2)"
    by (cases "ops_add_pulse mem (ds1 ! k) (dpd_last_pulse_ts dpd) pl1") auto
  note step = types_step [OF g op Cons.prems(3) wf i]
  let ?d = "dpd\<lparr>dpd_detectors := (dpd_detectors dpd)[i := ds1[k := pde2]]\<rparr>"
  have "types_loop mem j freq len is ?d pl2 \<noteq> None" by (rule Cons.IH [OF step(3) _ step(2)]) (use Cons.prems(2) in simp)
  moreover have "types_loop mem j freq len is dpd pl \<noteq> None" using Cons.IH [OF wf _ Cons.prems(3)] Cons.prems(2) by simp
  ultimately show ?case using get g step(1) op by (auto simp: Let_def c_get_def split: prod.split)
qed simp

end
