(* ===== verification/Aic_Radar_Reach.thy ===== *)
theory Aic_Radar_Reach
  imports Aic_Radar_Pools
begin

text \<open>
  The states of the radar detection that the calls of the driver can reach, and their invariant: the
  balance of the pools over the detectors of both chains, and the bounds of the rings and the tables.
\<close>

section \<open>The pattern detector keeps the balance\<close>

lemma pulse_time_keeps:
  assumes "pulse_time ju pri now dpd pl = (dpd', pl')" and "pools_ok (a @ dpd_pdes dpd @ b) pl" and "dpd_wf dpd"
  shows "pools_ok (a @ dpd_pdes dpd' @ b) pl' \<and> dpd_wf dpd' \<and> dpd_region dpd' = dpd_region dpd"
proof (cases "pri = 0")
  case False
  with assms show ?thesis by (auto simp: pulse_time_def dpd_pdes_def dpd_wf_def)
next
  case True
  let ?delta = "if now < dpd_prev_jiffies dpd then 0xffffffff - dpd_prev_jiffies dpd + now else now - dpd_prev_jiffies dpd"
  let ?d = "dpd\<lparr>dpd_last_pulse_ts := dpd_last_pulse_ts dpd + ucast (ju ?delta), dpd_prev_jiffies := now\<rparr>"
  have "dfs_pattern_detector_pri_overflow ?d pl = (dpd', pl')" using assms(1) True by (simp add: pulse_time_def Let_def)
  moreover have "pools_ok (a @ dpd_pdes ?d @ b) pl" "dpd_wf ?d" using assms(2,3) by (simp_all add: dpd_pdes_def dpd_wf_def)
  ultimately show ?thesis
    using each_type_keeps [OF keeps_each_overflow, of "dpd_last_pulse_ts ?d" ?d pl dpd' pl' a b]
    by (simp add: dfs_pattern_detector_pri_overflow_def)
qed

lemma add_pulse_keeps:
  assumes "dfs_pattern_detector_add_pulse mem ju j dpd freq pri len now pl = Some (hit, dpd', pl')"
    and "pools_ok (a @ dpd_pdes dpd @ b) pl" and "dpd_wf dpd"
  shows "pools_ok (a @ dpd_pdes dpd' @ b) pl' \<and> dpd_wf dpd' \<and> dpd_region dpd' = dpd_region dpd"
proof (cases "dpd_region dpd = NL80211_DFS_UNSET")
  case True
  with assms show ?thesis by (simp add: dfs_pattern_detector_add_pulse_def)
next
  case False
  obtain d1 pl1 where t: "pulse_time ju pri now dpd pl = (d1, pl1)" by (cases "pulse_time ju pri now dpd pl") auto
  note k = pulse_time_keeps [OF t assms(2,3)]
  have "types_loop mem j freq len [0..<dpd_num_radar_types d1] d1 pl1 = Some (hit, dpd', pl')"
    using assms(1) False t by (simp add: dfs_pattern_detector_add_pulse_def)
  from types_loop_keeps [OF this, of a b] k show ?thesis by simp
qed

lemma add_pulse_defined:
  assumes "\<forall>n. mem n \<noteq> None" and "pools_ok (a @ dpd_pdes dpd @ b) pl" and "dpd_wf dpd"
  shows "dfs_pattern_detector_add_pulse mem ju j dpd freq pri len now pl \<noteq> None"
proof -
  obtain d1 pl1 where t: "pulse_time ju pri now dpd pl = (d1, pl1)" by (cases "pulse_time ju pri now dpd pl") auto
  from types_loop_defined [OF assms(1)] pulse_time_keeps [OF t assms(2,3)] t show ?thesis
    by (auto simp: dfs_pattern_detector_add_pulse_def)
qed

lemma exit_keeps:
  assumes "pools_ok (a @ pde # b) pl"
  shows "pools_ok (a @ b) (pri_detector_exit pde pl)"
proof -
  obtain pde1 pl1 where r: "pri_detector_reset pde 0 pl = (pde1, pl1)" by (cases "pri_detector_reset pde 0 pl") auto
  then have "pools_ok (a @ pde1 # b) pl1" "pde_pulses pde1 = []" "pde_sequences pde1 = []"
    using reset_keeps [OF r] assms by (auto simp: keeps_pools_def pri_detector_reset_def)
  with r show ?thesis by (auto simp: pri_detector_exit_def pool_deregister_ref_def pools_ok_def Let_def)
qed

lemma exits_keep: "pools_ok (a @ ds @ b) pl \<Longrightarrow> pools_ok (a @ b) (fold pri_detector_exit ds pl)"
proof (induction ds arbitrary: pl)
  case (Cons d ds)
  then have "pools_ok (a @ d # (ds @ b)) pl" by simp
  from exit_keeps [OF this] Cons.IH show ?case by simp
qed simp

lemma wf_empty:
  assumes "dpd_wf dpd"
  shows "concat (drop (dpd_num_radar_types dpd) (dpd_detectors dpd)) = []"
proof -
  have "dpd_detectors dpd ! i = []" if "dpd_num_radar_types dpd \<le> i" "i < length (dpd_detectors dpd)" for i
    using assms that unfolding dpd_wf_def by (metis hd_in_set linorder_not_le)
  then have "\<forall>ds \<in> set (drop (dpd_num_radar_types dpd) (dpd_detectors dpd)). ds = []"
    by (auto simp: in_set_conv_nth)
  then show ?thesis by simp
qed

lemma exit_types_keeps:
  assumes "exit_types dpd pl = (dpd', pl')" and "pools_ok (a @ dpd_pdes dpd @ b) pl" and "dpd_wf dpd"
  shows "pools_ok (a @ b) pl' \<and> (\<forall>ds \<in> set (dpd_detectors dpd'). ds = []) \<and>
    length (dpd_detectors dpd') = length (dpd_detectors dpd)"
proof -
  let ?n = "dpd_num_radar_types dpd" and ?ds = "dpd_detectors dpd"
  have e: "dpd' = dpd\<lparr>dpd_detectors := map (\<lambda>_. []) (take ?n ?ds) @ drop ?n ?ds\<rparr>" "pl' = fold pri_detector_exit (concat (take ?n ?ds)) pl"
    using assms(1) by (auto simp: exit_types_def Let_def)
  have "dpd_pdes dpd = concat (take ?n ?ds)"
    unfolding dpd_pdes_def using wf_empty [OF assms(3)] by (metis append_take_drop_id concat_append append_Nil2)
  with assms(2) have "pools_ok (a @ b) pl'" unfolding e(2) by (intro exits_keep) simp
  moreover have "\<forall>ds \<in> set (dpd_detectors dpd'). ds = []" using wf_empty [OF assms(3)] e(1) by auto
  ultimately show ?thesis using e(1) by simp
qed

lemma dfs_domain_specs:
  "get_dfs_domain_radar_types region = Some rt \<Longrightarrow>
   length (rt_spec_riu rt) = rt_num_radar_types rt \<and> length (rt_spec_fcu rt) = rt_num_radar_types rt \<and>
   rt_num_radar_types rt \<le> get_dfs_max_radar_types"
  by (auto simp: get_dfs_domain_radar_types_def dfs_domains_def etsi_radar_types_v17_def fcc_radar_types_def jp_radar_types_def
    get_dfs_max_radar_types_def etsi_radar_ref_types_v17_riu_def etsi_radar_ref_types_v17_fcu_def fcc_radar_ref_types_riu_def
    fcc_radar_ref_types_fcu_def jp_radar_ref_types_riu_def jp_radar_ref_types_fcu_def split: if_splits)

lemma dfs_domain_in_specs:
  "get_dfs_domain_radar_types region = Some rt \<Longrightarrow> set (rt_spec_riu rt) \<union> set (rt_spec_fcu rt) \<subseteq> set radar_specs"
  by (auto simp: get_dfs_domain_radar_types_def radar_specs_def find_Some_iff intro!: bexI [of _ rt] dest: nth_mem)

lemma set_domain_keeps:
  assumes "dfs_pattern_detector_set_domain dpd region chain pl = (ok, dpd', pl')"
    and "pools_ok (a @ dpd_pdes dpd @ b) pl" and "dpd_wf dpd"
  shows "pools_ok (a @ dpd_pdes dpd' @ b) pl' \<and> dpd_wf dpd' \<and> (ok \<longrightarrow> dpd_region dpd' = region)"
proof (cases "dpd_region dpd = region \<or> get_dfs_domain_radar_types region = None")
  case True
  with assms show ?thesis by (auto simp: dfs_pattern_detector_set_domain_def dpd_pdes_def dpd_wf_def Let_def split: if_splits)
next
  case False
  then obtain rt where rt: "get_dfs_domain_radar_types region = Some rt" by blast
  let ?d = "dpd\<lparr>dpd_region := NL80211_DFS_UNSET\<rparr>"
  obtain d1 pl1 where e: "exit_types ?d pl = (d1, pl1)" by (cases "exit_types ?d pl") auto
  have "pools_ok (a @ dpd_pdes ?d @ b) pl" "dpd_wf ?d" using assms(2,3) by (simp_all add: dpd_pdes_def dpd_wf_def)
  note k = exit_types_keeps [OF e this]
  have r: "dpd' = d1\<lparr>dpd_radar_spec := (if chain = RWNX_RADAR_RIU then rt_spec_riu rt else rt_spec_fcu rt),
      dpd_num_radar_types := rt_num_radar_types rt, dpd_region := region\<rparr>" "pl' = pl1"
    using assms(1) False rt e by (auto simp: dfs_pattern_detector_set_domain_def Let_def)
  have pdes: "dpd_pdes dpd' = []" using k r by (auto simp: dpd_pdes_def)
  have none: "\<forall>i < get_dfs_max_radar_types. dpd_detectors d1 ! i = []" using k assms(3) by (simp add: dpd_wf_def nth_mem)
  have "length (dpd_detectors d1) = get_dfs_max_radar_types" using k assms(3) by (simp add: dpd_wf_def)
  then have "dpd_wf dpd'" using none r dfs_domain_specs [OF rt] dfs_domain_in_specs [OF rt] by (simp add: dpd_wf_def)
  with pdes k r show ?thesis by simp
qed

lemma set_domain_known:
  "region \<noteq> NL80211_DFS_UNSET \<Longrightarrow> \<exists>rt. get_dfs_domain_radar_types region = Some rt"
  by (cases region) (simp_all add: get_dfs_domain_radar_types_def dfs_domains_def etsi_radar_types_v17_def fcc_radar_types_def jp_radar_types_def)

lemma dpd_init_keeps:
  assumes "dfs_pattern_detector_init mem j NL80211_DFS_UNSET chain pl = (r, pl')" and "pools_ok ds pl"
  shows "pools_ok ds pl' \<and> (\<forall>dpd. r = Some dpd \<longrightarrow> dpd_pdes dpd = [] \<and> dpd_wf dpd \<and> dpd_region dpd = NL80211_DFS_UNSET)"
  using assms
  by (auto simp: dfs_pattern_detector_init_def dfs_pattern_detector_set_domain_def pools_ok_alloc dpd_pdes_def dpd_wf_def split: option.splits)

section \<open>The ring of a chain\<close>

text \<open>What the ring holds, oldest first.\<close>

definition ring_ok :: "rwnx_radar_pulses \<Rightarrow> bool" where
  "ring_ok p \<longleftrightarrow> length (rpl_buffer p) = RWNX_RADAR_PULSE_MAX \<and> 0 \<le> rpl_index p \<and> rpl_index p < int RWNX_RADAR_PULSE_MAX \<and>
     0 \<le> rpl_count p \<and> rpl_count p \<le> int RWNX_RADAR_PULSE_MAX"

definition ring_contents :: "rwnx_radar_pulses \<Rightarrow> u32 list" where
  "ring_contents p = map (\<lambda>i. rpl_buffer p ! nat ((rpl_index p - rpl_count p + int i) mod 32)) [0..<nat (rpl_count p)]"

text \<open>A queue of bounded length, from which the oldest fall out.\<close>

definition last_32 :: "'a list \<Rightarrow> 'a list" where
  "last_32 xs = drop (length xs - 32) xs"

lemma last_32_append: "last_32 (last_32 xs @ ys) = last_32 (xs @ ys)"
  by (cases "length xs \<le> 32") (simp_all add: last_32_def drop_append add.commute)

lemma ring_max [simp]: "RWNX_RADAR_PULSE_MAX = 32"
  by (simp add: RWNX_RADAR_PULSE_MAX_def)

lemma smod_pos: "0 \<le> a \<Longrightarrow> 0 < b \<Longrightarrow> a smod b = a mod (b :: int)"
  by (cases "a = 0") (simp_all add: signed_modulo_int_def)

lemma ring_put_ok:
  assumes "ring_ok p"
  shows "\<exists>p'. ring_put w p = Some p' \<and> ring_ok p' \<and> ring_contents p' = last_32 (ring_contents p @ [w])"
proof -
  define k where "k = rpl_index p"
  define n where "n = rpl_count p"
  have b: "length (rpl_buffer p) = 32" "0 \<le> k" "k < 32" "0 \<le> n" "n \<le> 32"
    using assms by (simp_all add: ring_ok_def k_def n_def)
  define m where "m = (if n < 32 then n + 1 else n)"
  let ?p = "p\<lparr>rpl_buffer := (rpl_buffer p)[nat k := w], rpl_index := (k + 1) mod 32, rpl_count := m\<rparr>"
  have p': "ring_put w p = Some ?p"
    using b by (simp add: ring_put_def c_set_def smod_pos k_def n_def m_def)
  have m: "1 \<le> m" "m \<le> 32" using b by (auto simp: m_def)
  have at: "(rpl_buffer p)[nat k := w] ! nat (((k + 1) mod 32 - m + int i) mod 32) =
      (if int i = m - 1 then w else rpl_buffer p ! nat ((k + 1 - m + int i) mod 32))" if "i < nat m" for i
  proof (cases "int i = m - 1")
    case True
    have "((k + 1) mod 32 - m + int i) mod 32 = (k + 1 - m + int i) mod 32" by (metis mod_add_left_eq mod_diff_left_eq)
    with True b show ?thesis by simp
  next
    case False
    then have i: "int i < m - 1" using that by linarith
    have e: "((k + 1) mod 32 - m + int i) mod 32 = (k + 1 - m + int i) mod 32" by (metis mod_add_left_eq mod_diff_left_eq)
    have "(k + 1 - m + int i) mod 32 \<noteq> k"
    proof
      assume "(k + 1 - m + int i) mod 32 = k"
      then have "(k + 1 - m + int i) mod 32 = k mod 32" using b by simp
      then have "32 dvd (m - 1 - int i)" by (simp add: mod_eq_dvd_iff dvd_diff_commute algebra_simps)
      moreover have "0 < m - 1 - int i" "m - 1 - int i < 32" using i m by linarith+
      ultimately show False by (meson zdvd_not_zless)
    qed
    then have "nat ((k + 1 - m + int i) mod 32) \<noteq> nat k" using b by (simp add: eq_nat_nat_iff)
    with False e show ?thesis by simp
  qed
  have ok: "ring_ok ?p" using b m by (simp add: ring_ok_def)
  have c: "ring_contents ?p = map (\<lambda>i. if int i = m - 1 then w else rpl_buffer p ! nat ((k + 1 - m + int i) mod 32)) [0..<nat m]"
    unfolding ring_contents_def using at by (auto simp del: nth_list_update)
  have old: "ring_contents p = map (\<lambda>i. rpl_buffer p ! nat ((k - n + int i) mod 32)) [0..<nat n]"
    by (simp add: ring_contents_def k_def n_def)
  have "ring_contents ?p = last_32 (ring_contents p @ [w])"
  proof (rule nth_equalityI)
    show "length (ring_contents ?p) = length (last_32 (ring_contents p @ [w]))"
      using b unfolding c old by (auto simp: last_32_def m_def nat_add_distrib)
  next
    fix i assume "i < length (ring_contents ?p)"
    then have i: "i < nat m" by (simp add: c)
    show "ring_contents ?p ! i = last_32 (ring_contents p @ [w]) ! i"
    proof (cases "n < 32")
      case True
      then show ?thesis using i b unfolding c old by (auto simp: last_32_def m_def nth_append nat_add_distrib algebra_simps)
    next
      case False
      then have "n = 32" "m = 32" using b by (simp_all add: m_def)
      moreover have "(k + 1 - 32 + int i) mod 32 = (k - 32 + int (Suc i)) mod 32" by (simp add: algebra_simps)
      moreover have "(k - 32 + int (Suc i)) mod 32 = (k - 32 + int (i + 1)) mod 32" by simp
      ultimately show ?thesis using i unfolding c old by (auto simp: last_32_def nth_append add.commute)
    qed
  qed
  with p' ok show ?thesis by blast
qed

lemma ring_take_ok:
  assumes "ring_ok p"
  shows "ring_take p = Some (ring_contents p, p\<lparr>rpl_count := 0\<rparr>)"
proof -
  define k where "k = rpl_index p"
  define n where "n = rpl_count p"
  define s where "s = (if k - n < 0 then k - n + 32 else k - n)"
  have b: "length (rpl_buffer p) = 32" "0 \<le> k" "k < 32" "0 \<le> n" "n \<le> 32"
    using assms by (simp_all add: ring_ok_def k_def n_def)
  then have s: "0 \<le> s" "s < 32 \<or> n = 0" by (auto simp: s_def)
  have mod: "(k - n + int i) mod 32 = (s + int i) mod 32" for i
    using mod_add_self1 [of 32 "k - n + int i"] by (simp add: s_def algebra_simps)
  have c: "ring_contents p = map (\<lambda>i. rpl_buffer p ! nat ((s + int i) mod 32)) [0..<nat n]"
    unfolding ring_contents_def k_def [symmetric] n_def [symmetric] mod ..
  show ?thesis
  proof (cases "n = 0")
    case True
    then show ?thesis by (simp add: ring_take_def ring_contents_def n_def Let_def)
  next
    case False
    with s b have lt: "nat s < 32" "0 < n" by auto
    show ?thesis
    proof (cases "s + n > 32")
      case True
      let ?c1 = "32 - nat s"
      have "take ?c1 (drop (nat s) (rpl_buffer p)) @ take (nat n - ?c1) (rpl_buffer p) = ring_contents p"
      proof (rule nth_equalityI)
        fix i assume "i < length (take ?c1 (drop (nat s) (rpl_buffer p)) @ take (nat n - ?c1) (rpl_buffer p))"
        then have i: "i < nat n" using b lt s True by auto
        have "nat ((s + int i) mod 32) = (if i < ?c1 then nat s + i else i - ?c1)"
        proof (cases "i < ?c1")
          case False
          then have "s + int i = int (i - ?c1) + 32" using s lt by linarith
          moreover have "int (i - ?c1) < 32" using i b s lt by linarith
          ultimately have "(s + int i) mod 32 = int (i - ?c1)" by (simp only: mod_add_self2 mod_pos_pos_trivial)
          then show ?thesis using False by (simp only: nat_int if_False)
        qed (use s lt in \<open>simp add: nat_add_distrib\<close>)
        moreover have "i - ?c1 < nat n - ?c1" if "\<not> i < ?c1" using that i by linarith
        ultimately show "(take ?c1 (drop (nat s) (rpl_buffer p)) @ take (nat n - ?c1) (rpl_buffer p)) ! i = ring_contents p ! i"
          using i b lt unfolding c by (auto simp: nth_append)
      qed (use b lt s True in \<open>auto simp: c\<close>)
      then show ?thesis using b s lt True False
        by (auto simp: ring_take_def Let_def c_read_def k_def [symmetric] n_def [symmetric] s_def)
    next
      case small: False
      have "take (nat n) (drop (nat s) (rpl_buffer p)) = ring_contents p"
        by (rule nth_equalityI) (use b lt s small in \<open>auto simp: c nat_add_distrib\<close>)
      then show ?thesis using b s lt small False
        by (auto simp: ring_take_def Let_def c_read_def k_def [symmetric] n_def [symmetric] s_def)
    qed
  qed
qed

lemma ring_loop_ok:
  assumes "ring_ok p" and "i + n \<le> length msg"
  shows "\<exists>p'. ring_loop msg i n p = Some p' \<and> ring_ok p' \<and> ring_contents p' = last_32 (ring_contents p @ take n (drop i msg))"
  using assms
proof (induction n arbitrary: i p)
  case 0
  have "nat (rpl_count p) \<le> 32" using 0 by (auto simp: ring_ok_def)
  then have "length (ring_contents p) \<le> 32" by (simp add: ring_contents_def)
  with 0 show ?case by (simp add: last_32_def)
next
  case (Suc n)
  from ring_put_ok [OF Suc.prems(1)] obtain p1 where p1: "ring_put (msg ! i) p = Some p1" "ring_ok p1"
    "ring_contents p1 = last_32 (ring_contents p @ [msg ! i])" by blast
  from Suc.IH [OF p1(2), of "Suc i"] Suc.prems(2) obtain p2 where p2: "ring_loop msg (Suc i) n p1 = Some p2" "ring_ok p2"
    "ring_contents p2 = last_32 (ring_contents p1 @ take n (drop (Suc i) msg))" by auto
  have "take (Suc n) (drop i msg) = msg ! i # take n (drop (Suc i) msg)"
    using Suc.prems(2) by (simp add: Cons_nth_drop_Suc [symmetric])
  then have "ring_contents p2 = last_32 (ring_contents p @ take (Suc n) (drop i msg))"
    using p2(3) p1(3) by (simp add: last_32_append)
  with p1(1) p2 Suc.prems(2) show ?case by (auto simp: c_get_def)
qed

section \<open>The driver\<close>

definition detected_ok :: "rwnx_radar_detected \<Rightarrow> bool" where
  "detected_ok d \<longleftrightarrow> rdt_index d < 4 \<and> length (rdt_time d) = NX_NB_RADAR_DETECTED \<and> length (rdt_freq d) = NX_NB_RADAR_DETECTED"

definition radar_ok :: "rwnx_radar \<Rightarrow> bool" where
  "radar_ok rd \<longleftrightarrow>
     (\<exists>riu fcu. rd_dpd rd = [Some riu, Some fcu] \<and> dpd_wf riu \<and> dpd_wf fcu \<and> pools_ok (dpd_pdes riu @ dpd_pdes fcu) (rd_pools rd)) \<and>
     length (rd_pulses rd) = 2 \<and> (\<forall>p \<in> set (rd_pulses rd). ring_ok p) \<and>
     length (rd_detected rd) = 2 \<and> (\<forall>d \<in> set (rd_detected rd). detected_ok d)"

text \<open>The pattern detector of a chain can be changed with the pools.\<close>

lemma radar_chain:
  assumes "radar_ok rd" and "chain < 2"
  obtains dpd a b where "dpd_at chain rd = Some dpd" and "dpd_wf dpd" and "pools_ok (a @ dpd_pdes dpd @ b) (rd_pools rd)"
    and "\<And>dpd' pl'. dpd_wf dpd' \<Longrightarrow> pools_ok (a @ dpd_pdes dpd' @ b) pl' \<Longrightarrow> radar_ok ((dpd_put chain dpd' rd)\<lparr>rd_pools := pl'\<rparr>)"
proof -
  obtain riu fcu where r: "rd_dpd rd = [Some riu, Some fcu]" "dpd_wf riu" "dpd_wf fcu" "pools_ok (dpd_pdes riu @ dpd_pdes fcu) (rd_pools rd)"
    using assms(1) by (auto simp: radar_ok_def)
  consider "chain = 0" | "chain = 1" using assms(2) by linarith
  then show thesis
  proof cases
    case 1
    show thesis
      by (rule that [of riu "[]" "dpd_pdes fcu"]) (use 1 r assms(1) in \<open>auto simp: dpd_at_def c_get_def dpd_put_def radar_ok_def\<close>)
  next
    case 2
    show thesis
      by (rule that [of fcu "dpd_pdes riu" "[]"]) (use 2 r assms(1) in \<open>auto simp: dpd_at_def c_get_def dpd_put_def radar_ok_def\<close>)
  qed
qed

lemma radar_ok_frame:
  "rd_dpd rd' = rd_dpd rd \<Longrightarrow> rd_pools rd' = rd_pools rd \<Longrightarrow> rd_pulses rd' = rd_pulses rd \<Longrightarrow> rd_detected rd' = rd_detected rd \<Longrightarrow>
   radar_ok rd' = radar_ok rd"
  by (simp add: radar_ok_def)

lemma radar_ok_pulses:
  "radar_ok rd \<Longrightarrow> ring_ok p \<Longrightarrow> radar_ok (rd\<lparr>rd_pulses := (rd_pulses rd)[chain := p]\<rparr>)"
  using set_update_subset_insert [of "rd_pulses rd" chain p] by (auto simp: radar_ok_def)

lemma radar_ring:
  assumes "radar_ok rd" and "chain < 2"
  shows "c_get (rd_pulses rd) chain = Some (rd_pulses rd ! chain)" and "ring_ok (rd_pulses rd ! chain)"
  using assms by (auto simp: radar_ok_def c_get_def)

lemma ring_ok_empty: "ring_ok p \<Longrightarrow> ring_ok (p\<lparr>rpl_count := 0\<rparr>)"
  by (simp add: ring_ok_def)

lemma enable_ok: "radar_ok rd \<Longrightarrow> \<exists>rd'. rwnx_radar_detection_enable rd e chain = Some rd' \<and> radar_ok rd' \<and> rd_pulses rd' = rd_pulses rd"
proof (cases "chain < 2")
  case True
  assume ok: "radar_ok rd"
  obtain dpd a b where c: "dpd_at chain rd = Some dpd" "dpd_wf dpd" "pools_ok (a @ dpd_pdes dpd @ b) (rd_pools rd)"
    "\<And>dpd' pl'. dpd_wf dpd' \<Longrightarrow> pools_ok (a @ dpd_pdes dpd' @ b) pl' \<Longrightarrow> radar_ok ((dpd_put chain dpd' rd)\<lparr>rd_pools := pl'\<rparr>)"
    using radar_chain [OF ok True] by metis
  have "radar_ok ((dpd_put chain (dpd\<lparr>dpd_enabled := e\<rparr>) rd)\<lparr>rd_pools := rd_pools rd\<rparr>)"
    by (rule c(4)) (use c(2,3) in \<open>simp_all add: dpd_wf_def dpd_pdes_def\<close>)
  then have "radar_ok (dpd_put chain (dpd\<lparr>dpd_enabled := e\<rparr>) rd)" by (simp add: dpd_put_def radar_ok_def)
  with c(1) True show ?thesis by (simp add: rwnx_radar_detection_enable_def RWNX_RADAR_LAST_def dpd_put_def)
qed (simp add: rwnx_radar_detection_enable_def RWNX_RADAR_LAST_def)

lemma cac_ok [simp]:
  "radar_ok (rwnx_radar_start_cac jf t vif rd) = radar_ok rd" "radar_ok (rwnx_radar_cancel_cac rd) = radar_ok rd"
  "radar_ok (rwnx_radar_cac_work rd) = radar_ok rd" "radar_ok (rwnx_radar_detected_event chan rd) = radar_ok rd"
  "rd_pulses (rwnx_radar_detected_event chan rd) = rd_pulses rd"
proof -
  show 1: "radar_ok (rwnx_radar_start_cac jf t vif rd) = radar_ok rd" by (rule radar_ok_frame) (simp_all add: rwnx_radar_start_cac_def)
  show 2: "radar_ok (rwnx_radar_cancel_cac rd) = radar_ok rd"
    by (rule radar_ok_frame) (simp_all add: rwnx_radar_cancel_cac_def rd_emit_def Let_def split: option.split)
  show "radar_ok (rwnx_radar_cac_work rd) = radar_ok rd"
    by (rule radar_ok_frame) (simp_all add: rwnx_radar_cac_work_def rd_emit_def Let_def split: option.split)
  show "radar_ok (rwnx_radar_detected_event chan rd) = radar_ok rd"
    by (rule radar_ok_frame) (simp_all add: rwnx_radar_detected_event_def rwnx_radar_cancel_cac_def rd_emit_def Let_def split: option.split)
  show "rd_pulses (rwnx_radar_detected_event chan rd) = rd_pulses rd"
    by (simp add: rwnx_radar_detected_event_def rwnx_radar_cancel_cac_def rd_emit_def Let_def split: option.split)
qed

lemma detected_put_ok: "detected_ok d \<Longrightarrow> \<exists>d'. detected_put secs freq d = Some d' \<and> detected_ok d'"
proof -
  assume d: "detected_ok d"
  have "unat (rdt_index d) < 4" using d by (simp add: detected_ok_def word_less_nat_alt)
  moreover have "(rdt_index d + 1) mod 4 < 4" by (simp add: word_less_nat_alt unat_mod)
  ultimately show ?thesis using d by (simp add: detected_put_def detected_ok_def c_set_def NX_NB_RADAR_DETECTED_def Let_def)
qed

text \<open>The work on pulses: the invariant whenever it is defined, and defined when memory is there.\<close>

lemma pulse_found_ok:
  assumes "radar_ok rd" and "chain < 2"
  shows "\<exists>rd'. pulse_found env chain freq rd = Some rd' \<and> radar_ok rd'"
proof -
  obtain dpd where d: "dpd_at chain rd = Some dpd" using radar_chain [OF assms] by metis
  let ?e = "rwnx_radar_detected_event (re_chan env) rd"
  obtain rd1 where e: "rwnx_radar_detection_enable ?e RWNX_RADAR_DETECT_DISABLE chain = Some rd1" "radar_ok rd1" "rd_pulses rd1 = rd_pulses rd"
    using enable_ok [of ?e RWNX_RADAR_DETECT_DISABLE chain] assms(1) by auto
  let ?rd2 = "rd1\<lparr>rd_pulses := (rd_pulses rd1)[chain := (rd_pulses rd1 ! chain)\<lparr>rpl_count := 0\<rparr>]\<rparr>"
  have 2: "c_get (rd_pulses rd1) chain = Some (rd_pulses rd1 ! chain)" "radar_ok ?rd2"
    using radar_ring [OF e(2) assms(2)] e(2) by (auto intro: radar_ok_pulses ring_ok_empty)
  have put: "\<exists>rd'. (do {
       d \<leftarrow> c_get (rd_detected q) chain;
       d \<leftarrow> detected_put (re_secs env) freq d;
       Some (q\<lparr>rd_detected := (rd_detected q)[chain := d]\<rparr>)}) = Some rd' \<and> radar_ok rd'" if q: "radar_ok q" for q
  proof -
    have n: "chain < length (rd_detected q)" using q assms(2) by (simp add: radar_ok_def)
    then have "detected_ok (rd_detected q ! chain)" using q by (simp add: radar_ok_def)
    then obtain d' where d': "detected_put (re_secs env) freq (rd_detected q ! chain) = Some d'" "detected_ok d'"
      using detected_put_ok by blast
    have "radar_ok (q\<lparr>rd_detected := (rd_detected q)[chain := d']\<rparr>)"
      using q d'(2) set_update_subset_insert [of "rd_detected q" chain d'] by (auto simp: radar_ok_def)
    with n d'(1) show ?thesis by (simp add: c_get_def)
  qed
  show ?thesis
  proof (cases "chain = RWNX_RADAR_RIU \<and> dpd_enabled dpd = RWNX_RADAR_DETECT_REPORT")
    case True
    with d e(1) 2 put [OF 2(2)] show ?thesis by (simp add: pulse_found_def)
  next
    case False
    with d put [OF assms(1)] show ?thesis unfolding pulse_found_def by (simp only: if_False bind.bind_lunit)
  qed
qed

lemma pulses_loop_ok:
  assumes "radar_ok rd" and "chain < 2"
  shows "pulses_loop env chain freq ws rd = Some rd' \<Longrightarrow> radar_ok rd'"
    and "\<forall>n. re_mem env n \<noteq> None \<Longrightarrow> pulses_loop env chain freq ws rd \<noteq> None"
proof -
  have "(\<forall>rd'. pulses_loop env chain freq ws rd = Some rd' \<longrightarrow> radar_ok rd') \<and>
     ((\<forall>n. re_mem env n \<noteq> None) \<longrightarrow> pulses_loop env chain freq ws rd \<noteq> None)"
    using assms(1)
  proof (induction ws arbitrary: rd)
    case (Cons w ws)
    show ?case
    proof (cases "rd_status rd \<noteq> RWNX_RADAR_CAC_BUSY \<and> rd_status rd \<noteq> RWNX_RADAR_INSERVICE_BUSY")
      case True
      with Cons.prems show ?thesis by simp
    next
      case False
      obtain dpd a b where c: "dpd_at chain rd = Some dpd" "dpd_wf dpd" "pools_ok (a @ dpd_pdes dpd @ b) (rd_pools rd)"
        "\<And>dpd' pl'. dpd_wf dpd' \<Longrightarrow> pools_ok (a @ dpd_pdes dpd' @ b) pl' \<Longrightarrow> radar_ok ((dpd_put chain dpd' rd)\<lparr>rd_pools := pl'\<rparr>)"
        using radar_chain [OF Cons.prems assms(2)] by metis
      let ?f = "of_int (sint freq + 2 * pulse_freq w) :: u16"
      let ?r = "dfs_pattern_detector_add_pulse (re_mem env) (re_usecs env) (re_jiffies env) dpd ?f
          (pulse_rep w) (pulse_len w * 2) (re_now env) (rd_pools rd)"
      show ?thesis
      proof (cases ?r)
        case None
        have "\<not> (\<forall>n. re_mem env n \<noteq> None)" using add_pulse_defined [OF _ c(3,2)] None by metis
        moreover have "pulses_loop env chain freq (w # ws) rd = None" using False c(1) None by auto
        ultimately show ?thesis by simp
      next
        case (Some r)
        obtain hit dpd1 pl1 where r: "r = (hit, dpd1, pl1)" by (cases r) auto
        let ?rd = "(dpd_put chain dpd1 rd)\<lparr>rd_pools := pl1\<rparr>"
        have ok: "radar_ok ?rd" using add_pulse_keeps [OF Some [unfolded r] c(3,2)] by (intro c(4)) simp_all
        have run: "pulses_loop env chain freq (w # ws) rd = (if hit then pulse_found env chain ?f ?rd else pulses_loop env chain freq ws ?rd)"
          using False c(1) Some r by auto
        show ?thesis unfolding run
          using pulse_found_ok [OF ok assms(2), of env ?f] Cons.IH [OF ok] by (cases hit) auto
      qed
    qed
  qed simp
  then show "pulses_loop env chain freq ws rd = Some rd' \<Longrightarrow> radar_ok rd'"
    and "\<forall>n. re_mem env n \<noteq> None \<Longrightarrow> pulses_loop env chain freq ws rd \<noteq> None" by blast+
qed

lemma take_chain_ok:
  assumes "radar_ok rd" and "chain < 2"
  shows "take_chain chain rd = Some (ring_contents (rd_pulses rd ! chain),
      rd\<lparr>rd_pulses := (rd_pulses rd)[chain := (rd_pulses rd ! chain)\<lparr>rpl_count := 0\<rparr>]\<rparr>)"
    and "radar_ok (rd\<lparr>rd_pulses := (rd_pulses rd)[chain := (rd_pulses rd ! chain)\<lparr>rpl_count := 0\<rparr>]\<rparr>)"
  using radar_ring [OF assms] ring_take_ok radar_ok_pulses [OF assms(1) ring_ok_empty]
  by (auto simp: take_chain_def)

lemma process_pulse_ok:
  assumes "radar_ok rd"
  shows "rwnx_radar_process_pulse env rd = Some rd' \<Longrightarrow> radar_ok rd'"
    and "\<forall>n. re_mem env n \<noteq> None \<Longrightarrow> rwnx_radar_process_pulse env rd \<noteq> None"
proof -
  have z: "radar_ok (rd\<lparr>rd_work := False\<rparr>)" using assms by (simp add: radar_ok_def)
  note t1 = take_chain_ok [OF z, of RWNX_RADAR_RIU]
  obtain ws1 rd1 where 1: "take_chain RWNX_RADAR_RIU (rd\<lparr>rd_work := False\<rparr>) = Some (ws1, rd1)" "radar_ok rd1"
    using t1 by (simp add: RWNX_RADAR_RIU_def)
  obtain ws2 rd2 where 2: "take_chain RWNX_RADAR_FCU rd1 = Some (ws2, rd2)" "radar_ok rd2"
    using take_chain_ok [OF 1(2), of RWNX_RADAR_FCU] by (simp add: RWNX_RADAR_FCU_def)
  let ?f = "rwnx_radar_get_center_freq (re_chan env) (re_sec env)"
  have run: "rwnx_radar_process_pulse env rd =
      Option.bind (pulses_loop env RWNX_RADAR_RIU (?f RWNX_RADAR_RIU) ws1 rd2) (pulses_loop env RWNX_RADAR_FCU (?f RWNX_RADAR_FCU) ws2)"
    using 1(1) 2(1) by (simp add: rwnx_radar_process_pulse_def Let_def)
  have lt: "RWNX_RADAR_RIU < 2" "RWNX_RADAR_FCU < 2" by (simp_all add: RWNX_RADAR_RIU_def RWNX_RADAR_FCU_def)
  note l1 = pulses_loop_ok [OF 2(2) lt(1), of env "?f RWNX_RADAR_RIU" ws1]
  show "rwnx_radar_process_pulse env rd = Some rd' \<Longrightarrow> radar_ok rd'"
    unfolding run using l1(1) pulses_loop_ok(1) [OF _ lt(2)] by (auto simp: bind_eq_Some_conv)
  assume mem: "\<forall>n. re_mem env n \<noteq> None"
  then obtain rd3 where 3: "pulses_loop env RWNX_RADAR_RIU (?f RWNX_RADAR_RIU) ws1 rd2 = Some rd3" using l1(2) by auto
  from pulses_loop_ok(2) [OF l1(1) [OF 3] lt(2) mem] 3 show "rwnx_radar_process_pulse env rd \<noteq> None" unfolding run by simp
qed

text \<open>The message is inside memory: its chain is one of the two, its number of pulses within what can be read.\<close>

definition radar_msg_ok :: "u32 list \<Rightarrow> bool" where
  "radar_msg_ok msg \<longleftrightarrow> RADAR_PULSE_MAX + 1 < length msg \<and> msg ! RADAR_PULSE_MAX < 2 \<and> unat (msg ! (RADAR_PULSE_MAX + 1)) \<le> length msg"

lemma unat_chain8: "unat (w :: u32) < 2 \<Longrightarrow> unat (ucast w :: u8) = unat w"
  by (simp add: unsigned_ucast_eq take_bit_nat_eq_self)

lemma detect_ind_ok:
  assumes "radar_ok rd"
  shows "rwnx_radar_detect_ind msg rd = Some (r, rd') \<Longrightarrow> radar_msg_ok msg \<Longrightarrow> radar_ok rd'"
    and "radar_msg_ok msg \<Longrightarrow> rwnx_radar_detect_ind msg rd \<noteq> None"
proof -
  have "(\<exists>r rd'. rwnx_radar_detect_ind msg rd = Some (r, rd') \<and> radar_ok rd')" if m: "radar_msg_ok msg"
  proof -
    let ?c = "unat (msg ! RADAR_PULSE_MAX)" and ?n = "unat (msg ! (RADAR_PULSE_MAX + 1))"
    have lt: "?c < 2" using m by (simp add: radar_msg_ok_def word_less_nat_alt)
    note chain8 = unat_chain8 [OF lt]
    obtain dpd where d: "dpd_at ?c rd = Some dpd" using radar_chain [OF assms lt] by metis
    obtain p where p: "ring_loop msg 0 ?n (rd_pulses rd ! ?c) = Some p" "ring_ok p"
      using ring_loop_ok [OF radar_ring(2) [OF assms lt], of 0 ?n msg] m by (auto simp: radar_msg_ok_def)
    have "radar_ok (rd\<lparr>rd_pulses := (rd_pulses rd)[?c := p], rd_work := True\<rparr>)"
      using radar_ok_pulses [OF assms p(2), of ?c] by (simp add: radar_ok_def)
    with m d p(1) radar_ring(1) [OF assms lt] assms chain8 show ?thesis
      by (simp add: rwnx_radar_detect_ind_def radar_msg_ok_def c_get_def rwnx_radar_detection_is_enable_def)
  qed
  then show "rwnx_radar_detect_ind msg rd = Some (r, rd') \<Longrightarrow> radar_msg_ok msg \<Longrightarrow> radar_ok rd'"
    and "radar_msg_ok msg \<Longrightarrow> rwnx_radar_detect_ind msg rd \<noteq> None" by auto
qed

lemma set_chain_ok:
  assumes "radar_ok rd" and "chain < 2"
  shows "\<exists>ok rd'. set_chain region chain rd = Some (ok, rd') \<and> radar_ok rd'"
proof -
  obtain dpd a b where c: "dpd_at chain rd = Some dpd" "dpd_wf dpd" "pools_ok (a @ dpd_pdes dpd @ b) (rd_pools rd)"
    "\<And>dpd' pl'. dpd_wf dpd' \<Longrightarrow> pools_ok (a @ dpd_pdes dpd' @ b) pl' \<Longrightarrow> radar_ok ((dpd_put chain dpd' rd)\<lparr>rd_pools := pl'\<rparr>)"
    using radar_chain [OF assms] by metis
  obtain ok dpd1 pl1 where s: "dfs_pattern_detector_set_domain dpd region chain (rd_pools rd) = (ok, dpd1, pl1)" by (rule prod_cases3)
  from set_domain_keeps [OF s c(3,2)] c(4) have "radar_ok ((dpd_put chain dpd1 rd)\<lparr>rd_pools := pl1\<rparr>)" by simp
  with c(1) s show ?thesis by (simp add: set_chain_def)
qed

lemma set_domain_ok:
  assumes "radar_ok rd"
  shows "\<exists>ok rd'. rwnx_radar_set_domain region rd = Some (ok, rd') \<and> radar_ok rd'"
proof -
  obtain ok rd1 where 1: "set_chain region RWNX_RADAR_RIU rd = Some (ok, rd1)" "radar_ok rd1"
    using set_chain_ok [OF assms, of RWNX_RADAR_RIU region] by (auto simp: RWNX_RADAR_RIU_def)
  obtain ok2 rd2 where 2: "set_chain region RWNX_RADAR_FCU rd1 = Some (ok2, rd2)" "radar_ok rd2"
    using set_chain_ok [OF 1(2), of RWNX_RADAR_FCU region] by (auto simp: RWNX_RADAR_FCU_def)
  have "\<exists>d. c_get (rd_dpd rd) 0 = Some (Some d)" using assms by (auto simp: radar_ok_def c_get_def)
  with 1 2 show ?thesis by (cases ok) (auto simp: rwnx_radar_set_domain_def)
qed

text \<open>Before the detection is set up: the zeroed structure.\<close>

definition radar_zero :: rwnx_radar where
  "radar_zero =
     \<lparr>rd_pulses = replicate 2 \<lparr>rpl_index = 0, rpl_count = 0, rpl_buffer = replicate RWNX_RADAR_PULSE_MAX 0\<rparr>,
      rd_dpd = [None, None],
      rd_detected = replicate 2 \<lparr>rdt_index = 0, rdt_count = 0, rdt_time = replicate NX_NB_RADAR_DETECTED 0,
        rdt_freq = replicate NX_NB_RADAR_DETECTED 0\<rparr>,
      rd_status = 0, rd_work = False, rd_cac_work = None, rd_cac_vif = None,
      rd_pools = \<lparr>pl_refs = 0, pl_pulses = 0, pl_pseqs = [], pl_calls = 0, pl_owned_pulses = 0, pl_owned_pseqs = 0\<rparr>,
      rd_out = []\<rparr>"

lemma detection_init_ok:
  assumes "rwnx_radar_detection_init mem j radar_zero = Some (True, rd)"
  shows "radar_ok rd"
proof -
  let ?z = "rd_pools radar_zero"
  have z: "pools_ok [] ?z" by (simp add: pools_ok_def radar_zero_def)
  obtain riu pl1 where i1: "dfs_pattern_detector_init mem j NL80211_DFS_UNSET RWNX_RADAR_RIU ?z = (riu, pl1)" by fastforce
  obtain fcu pl2 where i2: "dfs_pattern_detector_init mem j NL80211_DFS_UNSET RWNX_RADAR_FCU pl1 = (fcu, pl2)" by fastforce
  obtain r f where some: "riu = Some r" "fcu = Some f"
    and rd: "rd = radar_zero\<lparr>rd_dpd := [Some r, Some f], rd_pools := pl2, rd_status := RWNX_RADAR_IDLE, rd_cac_vif := None\<rparr>"
    using assms i1 i2 by (cases riu; cases fcu)
      (auto simp: rwnx_radar_detection_init_def radar_zero_def RWNX_RADAR_RIU_def RWNX_RADAR_FCU_def Let_def bind_eq_Some_conv)
  from dpd_init_keeps [OF i1 z] some have k1: "pools_ok [] pl1" "dpd_pdes r = []" "dpd_wf r" by simp_all
  from dpd_init_keeps [OF i2 k1(1)] some have k2: "pools_ok [] pl2" "dpd_pdes f = []" "dpd_wf f" by simp_all
  show ?thesis using k1(2,3) k2
    by (simp add: rd radar_ok_def radar_zero_def ring_ok_def detected_ok_def)
qed

text \<open>
  What happens to the detection between its set-up and its removal. The messages are inside memory; the
  status is set by the functions that send messages to the firmware.
\<close>

inductive radar_run :: "rwnx_radar \<Rightarrow> bool" where
  boot: "rwnx_radar_detection_init mem j radar_zero = Some (True, rd) \<Longrightarrow> radar_run rd"
| pulses: "radar_run rd \<Longrightarrow> radar_msg_ok msg \<Longrightarrow> rwnx_radar_detect_ind msg rd = Some (r, rd') \<Longrightarrow> radar_run rd'"
| work: "radar_run rd \<Longrightarrow> rwnx_radar_process_pulse env rd = Some rd' \<Longrightarrow> radar_run rd'"
| domain: "radar_run rd \<Longrightarrow> rwnx_radar_set_domain region rd = Some (ok, rd') \<Longrightarrow> radar_run rd'"
| enable: "radar_run rd \<Longrightarrow> rwnx_radar_detection_enable rd e chain = Some rd' \<Longrightarrow> radar_run rd'"
| enable_chan: "radar_run rd \<Longrightarrow> rwnx_radar_detection_enable_on_cur_channel chan rd = Some rd' \<Longrightarrow> radar_run rd'"
| status: "radar_run rd \<Longrightarrow> radar_run (rd\<lparr>rd_status := st\<rparr>)"
| start: "radar_run rd \<Longrightarrow> radar_run (rwnx_radar_start_cac jf t vif rd)"
| cancel: "radar_run rd \<Longrightarrow> radar_run (rwnx_radar_cancel_cac rd)"
| cac: "radar_run rd \<Longrightarrow> radar_run (rwnx_radar_cac_work rd)"

lemma radar_run_ok: "radar_run rd \<Longrightarrow> radar_ok rd"
proof (induction rule: radar_run.induct)
  case (enable rd e chain rd')
  with enable_ok [of rd e chain] show ?case by simp
next
  case (enable_chan rd chan rd')
  then show ?case
    using enable_ok [of rd RWNX_RADAR_DETECT_REPORT RWNX_RADAR_RIU] enable_ok [of rd RWNX_RADAR_DETECT_DISABLE RWNX_RADAR_RIU]
    by (auto simp: rwnx_radar_detection_enable_on_cur_channel_def split: option.splits if_splits)
next
  case (domain rd region ok rd')
  with set_domain_ok [of rd region] show ?case by auto
next
  case (status rd st)
  then show ?case by (simp add: radar_ok_def)
qed (auto dest: detection_init_ok detect_ind_ok(1) process_pulse_ok(1))

text \<open>The removal frees everything.\<close>

lemma radar_deinit_ok:
  assumes "radar_ok rd"
  shows "\<exists>rd'. rwnx_radar_detection_deinit rd = Some rd' \<and> rd_dpd rd' = [None, None] \<and> pools_ok [] (rd_pools rd')"
proof -
  obtain riu fcu where r: "rd_dpd rd = [Some riu, Some fcu]" "dpd_wf riu" "dpd_wf fcu" "pools_ok (dpd_pdes riu @ dpd_pdes fcu) (rd_pools rd)"
    using assms by (auto simp: radar_ok_def)
  obtain d1 pl1 where e1: "exit_types riu (rd_pools rd) = (d1, pl1)" by (cases "exit_types riu (rd_pools rd)") auto
  have k1: "pools_ok (dpd_pdes fcu) pl1" using exit_types_keeps [OF e1, of "[]" "dpd_pdes fcu"] r by simp
  obtain d2 pl2 where e2: "exit_types fcu pl1 = (d2, pl2)" by (cases "exit_types fcu pl1") auto
  have k2: "pools_ok [] pl2" using exit_types_keeps [OF e2, of "[]" "[]"] r k1 by simp
  show ?thesis
    using r(1) e1 e2 k2 by (simp add: rwnx_radar_detection_deinit_def exit_chain_def c_get_def dfs_pattern_detector_exit_def
      RWNX_RADAR_RIU_def RWNX_RADAR_FCU_def)
qed

end
