(* ===== verification/Aic_Radar_Burst.thy ===== *)
theory Aic_Radar_Burst
  imports Aic_Radar_Reach
begin

text \<open>
  What a short detector does with a steady train of pulses: from the second pulse on it keeps one
  sequence, which counts them, until the count reaches the threshold of the pattern.
\<close>

section \<open>Casts\<close>

lemma unat_widen:
  assumes "LENGTH('a) \<le> LENGTH('b)"
  shows "unat (ucast (w :: 'a::len word) :: 'b::len word) = unat w"
proof -
  have "unat w < 2 ^ LENGTH('a)" by (rule unsigned_less)
  moreover have "(2 :: nat) ^ LENGTH('a) \<le> 2 ^ LENGTH('b)" using assms by (intro power_increasing) simp_all
  ultimately have "unat w < 2 ^ LENGTH('b)" by (rule less_le_trans)
  then show ?thesis by (simp only: unsigned_ucast_eq take_bit_nat_eq_self)
qed

lemma unat_widen_simps [simp]:
  "unat (ucast (a :: u8) :: u32) = unat a" "unat (ucast (b :: u16) :: u32) = unat b" "unat (ucast (b :: u16) :: u64) = unat b"
  "unat (ucast (c :: u32) :: u64) = unat c" "unat (ucast (a :: u8) :: u16) = unat a" "unat (ucast (a :: u8) :: u64) = unat a"
  by (simp_all add: unat_widen)

text \<open>The distance of two times, in 32 bits.\<close>

lemma unat_delta:
  assumes "unat (t :: u64) = unat u + d" and "d < 2 ^ 32"
  shows "unat (ucast (t - u) :: u32) = d" and "unat (t - u) = d"
proof -
  show d: "unat (t - u) = d" using assms by (simp add: unat_sub word_le_nat_alt)
  show "unat (ucast (t - u) :: u32) = d" using assms(2) by (simp add: unsigned_ucast_eq take_bit_nat_eq_self d)
qed

section \<open>The patterns of the tables\<close>

text \<open>The number of pulses at the interval \<open>p\<close> that make a detection.\<close>

definition burst_thresh :: "radar_detector_specs \<Rightarrow> nat \<Rightarrow> nat" where
  "burst_thresh rs p =
     (if rs_type rs = RADAR_WAVEFORM_WEATHER then PPB_THRESH (19000000 div (360 * p)) else unat (rs_ppb_thresh rs))"

definition short_spec :: "radar_detector_specs \<Rightarrow> bool" where
  "short_spec rs \<longleftrightarrow> rs_type rs \<noteq> RADAR_WAVEFORM_LONG \<and> rs_max_pri_tolerance rs = 16 \<and> 32 < rs_pri_min rs \<and> 1 \<le> rs_num_pri rs \<and>
     (if rs_type rs = RADAR_WAVEFORM_WEATHER then rs_pri_min rs = 502 \<and> rs_pri_max rs = 3082 \<and> rs_ppb rs = 102
      else 3 \<le> rs_ppb_thresh rs \<and> 2 * unat (rs_ppb_thresh rs) \<le> unat (rs_ppb rs) + 1)"

lemma short_specs:
  "\<forall>rs \<in> set radar_specs. rs_type rs \<noteq> RADAR_WAVEFORM_LONG \<longrightarrow> short_spec rs"
  by (simp add: radar_specs_def dfs_domains_def etsi_radar_types_v17_def fcc_radar_types_def jp_radar_types_def etsi_radar_ref_types_v17_riu_def
    etsi_radar_ref_types_v17_fcu_def fcc_radar_ref_types_riu_def fcc_radar_ref_types_fcu_def jp_radar_ref_types_riu_def
    jp_radar_ref_types_fcu_def ETSI_PATTERN_SHORT_def ETSI_PATTERN_INTERLEAVED_def FCC_PATTERN_def short_spec_def
    PRF2PRI_def PRI_TOLERANCE_def PPB_THRESH_def MIN_PPB_THRESH_def)

lemma burst_thresh_bounds:
  assumes s: "short_spec rs" and p: "unat (rs_pri_min rs) \<le> p" "p \<le> unat (rs_pri_max rs)"
  shows "3 \<le> burst_thresh rs p" and "(burst_thresh rs p - 1) * (p + 16) \<le> p * (unat (rs_ppb rs) - 1)"
    and "burst_thresh rs p \<le> unat (rs_ppb rs)" and "32 < p" and "1 \<le> unat (rs_num_pri rs)" and "p < 65536"
proof -
  show p32: "32 < p" using s p(1) by (simp add: short_spec_def word_less_nat_alt)
  show "1 \<le> unat (rs_num_pri rs)" using s by (simp add: short_spec_def word_le_nat_alt)
  have "unat (rs_pri_max rs) < 2 ^ LENGTH(16)" by (rule unsigned_less)
  then show "p < 65536" using p(2) by simp
  have "3 \<le> burst_thresh rs p \<and> (burst_thresh rs p - 1) * (p + 16) \<le> p * (unat (rs_ppb rs) - 1) \<and> burst_thresh rs p \<le> unat (rs_ppb rs)"
  proof (cases "rs_type rs = RADAR_WAVEFORM_WEATHER")
    case True
    with s p have w: "502 \<le> p" "p \<le> 3082" "unat (rs_ppb rs) = 102" by (simp_all add: short_spec_def)
    have "19000000 div (360 * p) \<le> 19000000 div (360 * 502)" using w(1) by (intro div_le_mono2) simp_all
    then have hi: "19000000 div (360 * p) \<le> 105" by simp
    have "19000000 div (360 * 3082) \<le> 19000000 div (360 * p)" using w by (intro div_le_mono2) simp_all
    then have lo: "17 \<le> 19000000 div (360 * p)" by simp
    have t: "9 \<le> burst_thresh rs p" "burst_thresh rs p \<le> 53"
      using True hi lo by (simp_all add: burst_thresh_def PPB_THRESH_def MIN_PPB_THRESH_def)
    have "(burst_thresh rs p - 1) * (p + 16) \<le> 52 * (p + 16)" using t by (intro mult_le_mono1) simp
    also have "\<dots> \<le> p * 101" using w(1) by simp
    finally show ?thesis using t w(3) by simp
  next
    case False
    with s have f: "3 \<le> unat (rs_ppb_thresh rs)" "2 * unat (rs_ppb_thresh rs) \<le> unat (rs_ppb rs) + 1"
      by (simp_all add: short_spec_def word_le_nat_alt)
    have "(unat (rs_ppb_thresh rs) - 1) * (p + 16) \<le> (unat (rs_ppb_thresh rs) - 1) * (2 * p)" using p32 by (intro mult_le_mono2) simp
    also have "\<dots> = 2 * (unat (rs_ppb_thresh rs) - 1) * p" by simp
    also have "\<dots> \<le> (unat (rs_ppb rs) - 1) * p" using f by (intro mult_le_mono1) simp
    finally show ?thesis using f False by (simp add: burst_thresh_def mult.commute)
  qed
  then show "3 \<le> burst_thresh rs p" and "(burst_thresh rs p - 1) * (p + 16) \<le> p * (unat (rs_ppb rs) - 1)"
    and "burst_thresh rs p \<le> unat (rs_ppb rs)" by simp_all
qed

section \<open>No second sequence\<close>

lemma sequence_loop_count:
  "unat (ps_count (sequence_loop m pri tol ts rest ps tmp)) \<le> unat (ps_count ps) + length rest"
proof (induction rest arbitrary: ps tmp)
  case (Cons p2 rest)
  have "unat (ps_count ps + 1) \<le> unat (ps_count ps) + 1" by (simp add: unat_word_ariths(1))
  with Cons.IH [of "ps\<lparr>ps_count := ps_count ps + 1, ps_first_ts := p2, ps_count_falses := ps_count_falses ps + tmp\<rparr>" 0]
    Cons.IH [of ps "tmp + 1"] show ?case by auto
qed simp

lemma new_sequence_count: "unat (ps_count (new_sequence rs ts i p rest)) \<le> 2 + length rest"
proof -
  obtain m pri tol q d t where n: "new_sequence rs ts i p rest =
      (sequence_loop m pri tol ts rest q 0)\<lparr>ps_deadline_ts := d, ps_ppb_thresh := t\<rparr>" "ps_count q = 2"
    by (rule that [OF new_sequence_def [unfolded Let_def]]) simp
  with sequence_loop_count [of m pri tol ts rest q 0] show ?thesis by simp
qed

lemma create_none: "length ps < unat mc \<Longrightarrow> create_loop mem rs ts mc i ps seqs pl = (True, seqs, pl)"
proof (induction ps arbitrary: i)
  case (Cons p ps)
  have "ps_count (new_sequence rs ts (i + 1) p ps) \<le> mc"
    using new_sequence_count [of rs ts "i + 1" p ps] Cons.prems by (simp add: word_le_nat_alt)
  with Cons show ?case by (simp add: Let_def)
qed simp

section \<open>The detector follows the train\<close>

text \<open>The pulses \<open>ts\<close>, the newest first, have made one sequence.\<close>

definition one_sequence :: "radar_detector_specs \<Rightarrow> nat \<Rightarrow> u64 list \<Rightarrow> pri_sequence \<Rightarrow> bool" where
  "one_sequence rs p ts s \<longleftrightarrow> unat (ps_pri s) = p \<and> ps_count s = of_nat (length ts) \<and> ps_count_falses s = 0 \<and>
     ps_last_ts s = hd ts \<and> unat (ps_deadline_ts s) = unat (last ts) + p * (unat (rs_ppb rs) - 1) + 32 \<and>
     unat (ps_ppb_thresh s) = burst_thresh rs p"

definition tracks :: "radar_detector_specs \<Rightarrow> nat \<Rightarrow> u64 list \<Rightarrow> pri_detector \<Rightarrow> bool" where
  "tracks rs p ts pde \<longleftrightarrow> pde_rs pde = rs \<and> pde_pulses pde = ts \<and> ts \<noteq> [] \<and> pde_count pde = of_nat (length ts) \<and>
     pde_last_ts pde = hd ts \<and> (\<exists>q. pde_window_size pde = pde_window_size (pde_short_init q) \<and>
       pde_max_count pde = pde_max_count (pde_short_init q) \<and> pde_rs q = rs) \<and>
     (if length ts = 1 then pde_sequences pde = [] else \<exists>s. pde_sequences pde = [s] \<and> one_sequence rs p ts s)"

definition train_time :: "nat \<Rightarrow> u64 list \<Rightarrow> bool" where
  "train_time p ts \<longleftrightarrow> unat (last ts) \<le> unat (hd ts) \<and> unat (hd ts) \<le> unat (last ts) + (length ts - 1) * (p + 16) \<and>
     unat (last ts) + 2 ^ 27 < 2 ^ 64"

lemma short_sizes:
  assumes "pde_rs q = rs"
  shows "unat (pde_window_size (pde_short_init q)) = unat (rs_pri_max rs) * unat (rs_ppb rs) * unat (rs_num_pri rs)"
    and "unat (pde_max_count (pde_short_init q)) = 2 * unat (rs_ppb rs)"
proof -
  have b: "unat (rs_pri_max rs) < 2 ^ LENGTH(16)" "unat (rs_ppb rs) < 2 ^ LENGTH(8)" "unat (rs_num_pri rs) < 2 ^ LENGTH(8)"
    by (rule unsigned_less)+
  have "unat (rs_pri_max rs) * unat (rs_ppb rs) \<le> 65535 * 255" using b by (intro mult_le_mono) simp_all
  moreover from this have "unat (rs_pri_max rs) * unat (rs_ppb rs) * unat (rs_num_pri rs) \<le> 65535 * 255 * 255"
    using b by (intro mult_le_mono) simp_all
  ultimately show "unat (pde_window_size (pde_short_init q)) = unat (rs_pri_max rs) * unat (rs_ppb rs) * unat (rs_num_pri rs)"
    using assms by (simp add: pde_short_init_def unat_word_ariths(2))
  show "unat (pde_max_count (pde_short_init q)) = 2 * unat (rs_ppb rs)"
    using assms b by (simp add: pde_short_init_def unat_word_ariths(2))
qed

lemma short_ppb: "short_spec rs \<Longrightarrow> 5 \<le> unat (rs_ppb rs)"
  by (auto simp: short_spec_def word_le_nat_alt split: if_splits)

lemma kind_sizes:
  assumes "pde_kind pde = kind_of rs" and "rs_type rs \<noteq> RADAR_WAVEFORM_LONG"
  obtains q where "pde_window_size pde = pde_window_size (pde_short_init q)" and "pde_max_count pde = pde_max_count (pde_short_init q)"
    and "pde_rs q = rs" and "pde_rs pde = rs"
proof -
  let ?q = "\<lparr>pde_rs = rs, pde_last_ts = 0, pde_sequences = [], pde_pulses = [], pde_count = 0,
     pde_max_count = 0, pde_window_size = 0, pde_freq = 0\<rparr>"
  show thesis by (rule that [of ?q]) (use assms in \<open>simp_all add: pde_kind_def kind_of_def ops_init_def pde_short_init_def\<close>)
qed

text \<open>A pulse is put into a queue that has room and a window that covers it.\<close>

lemma enqueue_room:
  assumes mem: "\<forall>n. mem n \<noteq> None" and c: "pde_count pde = of_nat (length (pde_pulses pde))"
    and room: "Suc (length (pde_pulses pde)) < unat (pde_max_count pde)"
    and win: "unat t \<le> unat (last (t # pde_pulses pde)) + unat (pde_window_size pde)"
  shows "\<exists>pl'. pulse_queue_enqueue mem pde t pl =
    (True, pde\<lparr>pde_pulses := t # pde_pulses pde, pde_count := pde_count pde + 1, pde_last_ts := t\<rparr>, pl')"
proof -
  let ?q = "pde\<lparr>pde_pulses := t # pde_pulses pde, pde_count := pde_count pde + 1, pde_last_ts := t\<rparr>"
  have "unat (pde_max_count pde) < 2 ^ LENGTH(32)" by (rule unsigned_less)
  then have "unat (pde_count ?q) = Suc (length (pde_pulses pde))" using c room
    by (simp add: unat_word_ariths(1) unat_of_nat)
  then have full: "\<not> pde_max_count pde \<le> pde_count pde + 1" using room by (simp add: word_le_nat_alt)
  have w: "pulse_queue_check_window ?q pl1 = (?q, pl1)" for pl1
  proof (cases "t \<le> ucast (pde_window_size pde)")
    case False
    then have "unat (t - ucast (pde_window_size pde)) = unat t - unat (pde_window_size pde)"
      by (simp add: unat_sub word_le_nat_alt)
    with win have "t - ucast (pde_window_size pde) \<le> last (t # pde_pulses pde)" by (simp add: word_le_nat_alt)
    then show ?thesis by (auto simp: pulse_queue_check_window_def window_loop.simps pulse_queue_get_tail_def)
  qed (simp add: pulse_queue_check_window_def)
  obtain m where m: "mem (pl_calls pl) = Some m" using mem by auto
  show ?thesis using w full m
    by (cases "pl_pulses pl = 0") (simp_all add: pulse_queue_enqueue_def pool_get_pulse_elem_def Let_def)
qed

lemma multiple_near:
  assumes "unat val \<le> unat fraction + unat tol" and "unat fraction \<le> unat val + unat tol" and "0 < unat fraction"
  shows "pde_get_multiple val fraction tol = 1"
proof -
  have "unat (if val < fraction then fraction - val else val - fraction) \<le> unat tol"
    using assms by (auto simp: unat_sub word_less_nat_alt word_le_nat_alt)
  moreover have "fraction \<noteq> 0" using assms(3) by auto
  ultimately show ?thesis by (simp add: pde_get_multiple_def Let_def word_le_nat_alt)
qed

text \<open>The first pulse.\<close>

lemma tracks_first:
  assumes mem: "\<forall>n. mem n \<noteq> None" and s: "short_spec rs" and p: "unat (rs_pri_min rs) \<le> p" "p \<le> unat (rs_pri_max rs)"
    and pde: "pde_rs pde = rs" "pde_count pde = 0" "pde_pulses pde = []" "pde_sequences pde = []"
    and q: "pde_window_size pde = pde_window_size (pde_short_init q)" "pde_max_count pde = pde_max_count (pde_short_init q)" "pde_rs q = rs"
  shows "\<exists>pde' pl'. pde_short_add_pulse mem pde t pl = (None, pde', pl') \<and> tracks rs p [t] pde' \<and> pde_freq pde' = pde_freq pde"
proof -
  note b = burst_thresh_bounds [OF s p]
  have m: "unat (pde_max_count pde) = 2 * unat (rs_ppb rs)" using short_sizes(2) [OF q(3)] q(2) by simp
  have "\<exists>pl'. pulse_queue_enqueue mem pde t pl =
    (True, pde\<lparr>pde_pulses := t # pde_pulses pde, pde_count := pde_count pde + 1, pde_last_ts := t\<rparr>, pl')"
    by (rule enqueue_room [OF mem]) (use m b pde in simp_all)
  with pde q show ?thesis by (auto simp: pde_short_add_pulse_def tracks_def)
qed

lemma window_covers:
  assumes s: "short_spec rs" and p: "unat (rs_pri_min rs) \<le> p" "p \<le> unat (rs_pri_max rs)" and n: "n < burst_thresh rs p"
  shows "n * (p + 16) \<le> p * (unat (rs_ppb rs) - 1)"
    and "n * (p + 16) \<le> unat (rs_pri_max rs) * unat (rs_ppb rs) * unat (rs_num_pri rs)"
    and "p * (unat (rs_ppb rs) - 1) < 2 ^ 25"
proof -
  note b = burst_thresh_bounds [OF s p]
  have "n * (p + 16) \<le> (burst_thresh rs p - 1) * (p + 16)" using n by (intro mult_le_mono1) simp
  also note b(2)
  finally show 1: "n * (p + 16) \<le> p * (unat (rs_ppb rs) - 1)" .
  also have "\<dots> \<le> unat (rs_pri_max rs) * unat (rs_ppb rs)" using p(2) by (intro mult_le_mono) simp_all
  also have "\<dots> \<le> unat (rs_pri_max rs) * unat (rs_ppb rs) * unat (rs_num_pri rs)" using b(5) by simp
  finally show "n * (p + 16) \<le> unat (rs_pri_max rs) * unat (rs_ppb rs) * unat (rs_num_pri rs)" .
  have "unat (rs_ppb rs) < 2 ^ LENGTH(8)" by (rule unsigned_less)
  then have "p * (unat (rs_ppb rs) - 1) \<le> 65535 * 255" using b(6) by (intro mult_le_mono) simp_all
  then show "p * (unat (rs_ppb rs) - 1) < 2 ^ 25" by simp
qed

text \<open>The numbers of a new sequence: none of them overflows.\<close>

lemma new_sequence_numbers:
  assumes s: "short_spec rs" and d: "unat (ucast (t - u) :: u32) = p"
    and p: "unat (rs_pri_min rs) \<le> p" "p \<le> unat (rs_pri_max rs)"
  obtains dur th q where "unat (dur :: u32) = p * (unat (rs_ppb rs) - 1) + 32" and "unat (th :: u8) = burst_thresh rs p"
    and "q = sequence_loop (if ucast dur > t then 0 else t - ucast dur) (ucast (t - u)) 16 t rest
       \<lparr>ps_pri = ucast (t - u), ps_dur = dur, ps_count = 2, ps_count_falses = ucast i - 1, ps_first_ts = u,
        ps_last_ts = t, ps_deadline_ts = 0, ps_ppb_thresh = 0\<rparr> 0"
    and "new_sequence rs t i u rest = q\<lparr>ps_deadline_ts := ps_first_ts q + ucast dur, ps_ppb_thresh := th\<rparr>"
proof -
  note b = burst_thresh_bounds [OF s p]
  have tol: "(ucast (rs_max_pri_tolerance rs) :: u32) = 16" using s by (simp add: short_spec_def)
  have small: "p * (unat (rs_ppb rs) - 1) < 2 ^ 25" using window_covers(3) [OF s p, of 0] b(1) by simp
  have ppb: "unat (ucast (rs_ppb rs) - 1 :: u32) = unat (rs_ppb rs) - 1"
    using b(1,3) by (subst unat_sub) (simp_all add: word_le_nat_alt)
  define dur where "dur = (ucast (t - u) * (ucast (rs_ppb rs) - 1) + 2 * 16 :: u32)"
  have dur: "unat dur = p * (unat (rs_ppb rs) - 1) + 32"
    using small d ppb by (simp add: dur_def unat_word_ariths(1,2))
  define th where "th = (if rs_type rs = RADAR_WAVEFORM_WEATHER
      then of_nat (PPB_THRESH (unat (ucast (19000000 div (360 * (ucast (t - u) :: u32))) :: u8))) else rs_ppb_thresh rs)"
  have th: "unat th = burst_thresh rs p"
  proof (cases "rs_type rs = RADAR_WAVEFORM_WEATHER")
    case w: True
    have p2: "502 \<le> p" "p \<le> 3082" using s w p by (simp_all add: short_spec_def)
    have "unat (360 * (ucast (t - u) :: u32)) = 360 * p" using d p2 by (simp add: unat_word_ariths(2))
    then have q: "unat (19000000 div (360 * (ucast (t - u) :: u32))) = 19000000 div (360 * p)" by (simp add: unat_div)
    have "19000000 div (360 * p) \<le> 19000000 div (360 * 502)" using p2 by (intro div_le_mono2) simp_all
    then have hi: "19000000 div (360 * p) \<le> 105" by simp
    then have "unat (ucast (19000000 div (360 * (ucast (t - u) :: u32))) :: u8) = 19000000 div (360 * p)"
      using q by (simp add: unsigned_ucast_eq take_bit_nat_eq_self)
    then show ?thesis using w hi by (simp add: th_def burst_thresh_def unat_of_nat PPB_THRESH_def MIN_PPB_THRESH_def)
  qed (simp add: th_def burst_thresh_def)
  show thesis
    by (rule that [OF dur th refl]) (simp only: new_sequence_def Let_def tol dur_def th_def)
qed

text \<open>The second pulse makes the sequence.\<close>

lemma new_sequence_second:
  assumes s: "short_spec rs" and p: "unat (rs_pri_min rs) \<le> p" "p \<le> unat (rs_pri_max rs)"
    and t: "unat t = unat u + p" and big: "unat u + 2 ^ 27 < 2 ^ 64"
  shows "one_sequence rs p [t, u] (new_sequence rs t 1 u [])"
proof -
  note b = burst_thresh_bounds [OF s p]
  have d: "unat (ucast (t - u) :: u32) = p" using unat_delta [OF t] b(6) by simp
  have small: "p * (unat (rs_ppb rs) - 1) < 2 ^ 25" using window_covers(3) [OF s p, of 0] b(1) by simp
  obtain dur th q where n: "unat (dur :: u32) = p * (unat (rs_ppb rs) - 1) + 32" "unat (th :: u8) = burst_thresh rs p"
    "q = \<lparr>ps_pri = ucast (t - u), ps_dur = dur, ps_count = 2, ps_count_falses = 0, ps_first_ts = u,
        ps_last_ts = t, ps_deadline_ts = 0, ps_ppb_thresh = 0\<rparr>"
    "new_sequence rs t 1 u [] = q\<lparr>ps_deadline_ts := ps_first_ts q + ucast dur, ps_ppb_thresh := th\<rparr>"
    by (rule new_sequence_numbers [OF s d p, where i = 1 and rest = "[]"]) auto
  have "unat (u + ucast dur) = unat u + p * (unat (rs_ppb rs) - 1) + 32"
    using big small n(1) by (simp add: unat_word_ariths(1))
  with n(2-4) d show ?thesis unfolding one_sequence_def by simp
qed

lemma not_complete:
  assumes "one_sequence rs p ts s" and "length ts < burst_thresh rs p" and "length ts < 2 ^ 32"
  shows "\<not> sequence_complete rs s"
  using assms by (simp add: one_sequence_def sequence_complete_def word_le_nat_alt unat_of_nat)

lemma complete:
  assumes "one_sequence rs p ts s" and "burst_thresh rs p \<le> length ts" and "length ts < 2 ^ 16" and "0 < length ts" and "short_spec rs"
  shows "sequence_complete rs s"
proof -
  have "unat (rs_num_pri rs) < 2 ^ LENGTH(8)" by (rule unsigned_less)
  then have "length ts * unat (rs_num_pri rs) \<le> 65535 * 255" using assms(3) by (intro mult_le_mono) simp_all
  moreover have "0 < unat (rs_num_pri rs)" using assms(5) by (simp add: short_spec_def word_le_nat_alt)
  ultimately have "0 < unat (of_nat (length ts) * ucast (rs_num_pri rs) :: u32)"
    using assms(3,4) by (simp add: unat_word_ariths(2) unat_of_nat)
  then show ?thesis using assms by (simp add: one_sequence_def sequence_complete_def word_le_nat_alt word_less_nat_alt unat_of_nat)
qed

lemma get_pseq_some: "\<forall>n. mem n \<noteq> None \<Longrightarrow> \<exists>ps pl'. pool_get_pseq_elem mem pl = (Some ps, pl')"
proof -
  assume "\<forall>n. mem n \<noteq> None"
  then obtain m where "mem (pl_calls pl) = Some m" by auto
  then show ?thesis by (cases "pl_pseqs pl") (simp_all add: pool_get_pseq_elem_def)
qed

text \<open>What the next pulse of a train finds, \<open>d\<close> after the last one.\<close>

definition next_pulse :: "radar_detector_specs \<Rightarrow> nat \<Rightarrow> u64 list \<Rightarrow> u64 \<Rightarrow> bool" where
  "next_pulse rs p ts t \<longleftrightarrow> (\<exists>d. unat t = unat (hd ts) + d \<and> d \<le> p + 16 \<and> p \<le> d + 16 \<and> (length ts = 1 \<longrightarrow> d = p)) \<and>
     train_time p ts \<and> length ts < burst_thresh rs p"

lemma next_time:
  assumes s: "short_spec rs" and p: "unat (rs_pri_min rs) \<le> p" "p \<le> unat (rs_pri_max rs)"
    and t: "next_pulse rs p ts t" and ts: "ts \<noteq> []"
  shows "train_time p (t # ts)" and "unat t \<le> unat (last ts) + length ts * (p + 16)" and "0 < length ts" and "length ts < 255"
proof -
  obtain d where d: "unat t = unat (hd ts) + d" "d \<le> p + 16" using t by (auto simp: next_pulse_def)
  have time: "train_time p ts" and n: "length ts < burst_thresh rs p" using t by (simp_all add: next_pulse_def)
  have ppb: "unat (rs_ppb rs) < 2 ^ LENGTH(8)" by (rule unsigned_less)
  show len: "0 < length ts" "length ts < 255" using ts n burst_thresh_bounds(3) [OF s p] ppb by auto
  have "length ts * (p + 16) = (length ts - 1) * (p + 16) + (p + 16)" using len(1) by (cases "length ts") simp_all
  then show "train_time p (t # ts)" and "unat t \<le> unat (last ts) + length ts * (p + 16)"
    using time d len(1) by (auto simp: train_time_def)
qed

text \<open>The pulse is queued and the detector goes on with the train.\<close>

lemma tracks_enqueue:
  assumes mem: "\<forall>n. mem n \<noteq> None" and s: "short_spec rs" and p: "unat (rs_pri_min rs) \<le> p" "p \<le> unat (rs_pri_max rs)"
    and tr: "tracks rs p ts pde" and t: "next_pulse rs p ts t" and x: "one_sequence rs p (t # ts) x"
  shows "\<exists>pde' pl'. pulse_queue_enqueue mem (pde\<lparr>pde_sequences := [x]\<rparr>) t pl = (True, pde', pl') \<and>
    tracks rs p (t # ts) pde' \<and> pde_freq pde' = pde_freq pde"
proof -
  have ts: "ts \<noteq> []" using tr by (simp add: tracks_def)
  note nt = next_time [OF s p t ts]
  have n: "length ts < burst_thresh rs p" using t by (simp add: next_pulse_def)
  from tr obtain q where q: "pde_window_size pde = pde_window_size (pde_short_init q)" "pde_max_count pde = pde_max_count (pde_short_init q)"
    "pde_rs q = rs" by (auto simp: tracks_def)
  have pde: "pde_rs pde = rs" "pde_pulses pde = ts" "pde_count pde = of_nat (length ts)" using tr by (auto simp: tracks_def)
  let ?p = "pde\<lparr>pde_sequences := [x]\<rparr>"
  let ?p' = "?p\<lparr>pde_pulses := t # pde_pulses ?p, pde_count := pde_count ?p + 1, pde_last_ts := t\<rparr>"
  have "unat (last (t # ts)) = unat (last ts)" using ts by simp
  then have "\<exists>pl'. pulse_queue_enqueue mem ?p t pl = (True, ?p', pl')"
    using short_sizes [OF q(3)] q(1,2) pde n burst_thresh_bounds(3) [OF s p] window_covers(2) [OF s p n] nt(2)
    by (intro enqueue_room [OF mem]) simp_all
  moreover have "tracks rs p (t # ts) ?p'" using x q pde nt(3) by (auto simp: tracks_def add.commute)
  ultimately show ?thesis by auto
qed

text \<open>Once the sequence is extended it is reported, or the detector goes on.\<close>

lemma tracks_extended:
  assumes mem: "\<forall>n. mem n \<noteq> None" and s: "short_spec rs" and p: "unat (rs_pri_min rs) \<le> p" "p \<le> unat (rs_pri_max rs)"
    and tr: "tracks rs p ts pde" and t: "next_pulse rs p ts t" and x: "one_sequence rs p (t # ts) x"
    and run: "pde_short_add_to_existing_seqs pde t pl = (mc, pde1, pl1)"
      "pde_short_create_sequences mem pde1 t mc pl1 = (True, pde\<lparr>pde_sequences := [x]\<rparr>, pl2)"
  shows "\<exists>r pde' pl'. pde_short_add_pulse mem pde t pl = (r, pde', pl') \<and> pde_freq pde' = pde_freq pde \<and>
    (if Suc (length ts) < burst_thresh rs p then r = None \<and> tracks rs p (t # ts) pde' else r \<noteq> None)"
proof -
  have ts: "ts \<noteq> []" and pde: "pde_rs pde = rs" "pde_last_ts pde = hd ts" "pde_count pde = of_nat (length ts)"
    using tr by (simp_all add: tracks_def)
  note len = next_time(3,4) [OF s p t ts]
  obtain d where d: "unat t = unat (hd ts) + d" "d \<le> p + 16" "p \<le> d + 16" using t by (auto simp: next_pulse_def)
  note b = burst_thresh_bounds [OF s p]
  have "unat (pde_count pde) = length ts" using len pde(3) by (simp add: unat_of_nat)
  then have go: "pde_count pde \<noteq> 0" using len(1) by auto
  have "unat (t - hd ts) = d" using d(1,2) b(6) by (intro unat_delta(2)) simp_all
  then have go': "\<not> t - pde_last_ts pde < ucast (rs_max_pri_tolerance (pde_rs pde))"
    using d(3) b(4) pde s by (simp add: word_less_nat_alt short_spec_def)
  show ?thesis
  proof (cases "Suc (length ts) < burst_thresh rs p")
    case True
    have "\<not> sequence_complete rs x" using not_complete [OF x] True len by simp
    with run go go' tracks_enqueue [OF mem s p tr t x, of pl2] True pde(1) show ?thesis
      by (auto simp: pde_short_add_pulse_def pde_short_check_detection_def)
  next
    case False
    have "sequence_complete rs x" using complete [OF x _ _ _ s] False len by simp
    with run go go' False pde(1) show ?thesis
      by (auto simp: pde_short_add_pulse_def pde_short_check_detection_def)
  qed
qed

text \<open>
  The next pulse of the train: the detector goes on with the train, or the threshold is reached and the
  sequence is reported.
\<close>

lemma tracks_next:
  assumes mem: "\<forall>n. mem n \<noteq> None" and s: "short_spec rs" and p: "unat (rs_pri_min rs) \<le> p" "p \<le> unat (rs_pri_max rs)"
    and tr: "tracks rs p ts pde" and t: "next_pulse rs p ts t"
  shows "\<exists>r pde' pl'. pde_short_add_pulse mem pde t pl = (r, pde', pl') \<and> pde_freq pde' = pde_freq pde \<and>
    (if Suc (length ts) < burst_thresh rs p then r = None \<and> tracks rs p (t # ts) pde' else r \<noteq> None)"
proof -
  have ts: "ts \<noteq> []" and pde: "pde_rs pde = rs" "pde_pulses pde = ts" using tr by (simp_all add: tracks_def)
  note nt = next_time [OF s p t ts] and b = burst_thresh_bounds [OF s p]
  have n: "length ts < burst_thresh rs p" and big: "unat (last ts) + 2 ^ 27 < 2 ^ 64" using t by (simp_all add: next_pulse_def train_time_def)
  obtain d where d: "unat t = unat (hd ts) + d" "d \<le> p + 16" "p \<le> d + 16" "length ts = 1 \<longrightarrow> d = p" using t by (auto simp: next_pulse_def)
  have delta: "unat (ucast (t - hd ts) :: u32) = d" using d(1,2) b(6) by (intro unat_delta(1)) simp_all
  note go = tracks_extended [OF mem s p tr t]
  show ?thesis
  proof (cases "length ts = 1")
    case True
    then obtain u where u: "ts = [u]" by (cases ts) auto
    have x: "one_sequence rs p (t # ts) (new_sequence rs t 1 u [])" using new_sequence_second [OF s p _ big, of t] d(1,4) True u by simp
    obtain ps pl2 where g: "pool_get_pseq_elem mem pl = (Some ps, pl2)" using get_pseq_some [OF mem] by blast
    have "\<not> (ucast (t - u) :: u32) < ucast (rs_pri_min rs)" "\<not> (ucast (t - u) :: u32) > ucast (rs_pri_max rs)"
      using p delta d(4) True u by (simp_all add: word_less_nat_alt)
    moreover have "ps_count (new_sequence rs t 1 u []) = 2" using x u by (simp add: one_sequence_def)
    ultimately have c: "create_loop mem rs t 0 0 [u] [] pl = (True, [new_sequence rs t 1 u []], pl2)" using g by (simp add: Let_def)
    have seqs: "pde_sequences pde = []" using tr True by (simp add: tracks_def)
    show ?thesis
      by (rule go [OF x, of pl 0 pde pl pl2])
        (use u c seqs pde in \<open>simp_all add: pde_short_add_to_existing_seqs_def pde_short_create_sequences_def\<close>)
  next
    case False
    then obtain y where y: "pde_sequences pde = [y]" "one_sequence rs p ts y" using tr by (auto simp: tracks_def)
    define x where "x = y\<lparr>ps_last_ts := t, ps_count := ps_count y + 1\<rparr>"
    have dl: "\<not> t > ps_deadline_ts y" using y(2) nt(2) window_covers(1) [OF s p n] by (simp add: one_sequence_def word_less_nat_alt)
    have mult: "pde_get_multiple (ucast (t - ps_last_ts y)) (ps_pri y) (ucast (rs_max_pri_tolerance rs)) = 1"
      using y(2) d(2,3) b(4) delta s by (intro multiple_near) (simp_all add: one_sequence_def short_spec_def)
    have cnt: "unat (ps_count x) = Suc (length ts)"
      using y(2) nt(4) by (simp add: x_def one_sequence_def unat_word_ariths(1) unat_of_nat)
    have e: "existing_loop (ucast (rs_max_pri_tolerance rs)) t [y] 0 pl = (ps_count x, [x], pl)"
      using dl mult cnt by (simp add: x_def Let_def word_less_nat_alt)
    have c: "create_loop mem rs t (ps_count x) 0 ts [x] pl = (True, [x], pl)" by (rule create_none) (simp add: cnt)
    have x: "one_sequence rs p (t # ts) x" using y(2) ts by (simp add: one_sequence_def x_def add.commute)
    show ?thesis
      by (rule go [OF x, of pl "ps_count x" "pde\<lparr>pde_sequences := [x]\<rparr>" pl pl])
        (use y e c pde in \<open>simp_all add: pde_short_add_to_existing_seqs_def pde_short_create_sequences_def\<close>)
  qed
qed

end
