(* ===== verification/Aic_Radar_Train.thy ===== *)
theory Aic_Radar_Train
  imports Aic_Radar_Burst
begin

text \<open>
  A train of pulses through the pattern detector: of the detectors of a type one follows the train, and
  when the threshold is reached the pattern detector reports it, unless another type has before.
\<close>

section \<open>The detectors of one type\<close>

definition idle :: "radar_detector_specs \<Rightarrow> pri_detector list \<Rightarrow> bool" where
  "idle rs ds \<longleftrightarrow> (\<forall>pde \<in> set ds. pde_count pde = 0 \<and> pde_pulses pde = [] \<and> pde_sequences pde = [] \<and> pde_kind pde = kind_of rs)"

definition follows :: "radar_detector_specs \<Rightarrow> nat \<Rightarrow> u16 \<Rightarrow> u64 list \<Rightarrow> pri_detector list \<Rightarrow> bool" where
  "follows rs p freq ts ds \<longleftrightarrow> (\<exists>k < length ds. tracks rs p ts (ds ! k) \<and> pde_freq (ds ! k) = freq \<and>
     (\<forall>j < length ds. j \<noteq> k \<longrightarrow> pde_count (ds ! j) = 0))"

lemma get_active:
  assumes "k < length ds" and "pde_freq (ds ! k) = freq" and "pde_count (ds ! k) \<noteq> 0"
    and "\<forall>j < length ds. j \<noteq> k \<longrightarrow> pde_count (ds ! j) = 0"
  shows "get_loop freq ds n cur = Some (n + k)"
  using assms
proof (induction ds arbitrary: n k cur)
  case (Cons d ds)
  show ?case
  proof (cases k)
    case 0
    with Cons.prems show ?thesis by simp
  next
    case (Suc m)
    have others: "\<forall>j < length ds. j \<noteq> m \<longrightarrow> pde_count (ds ! j) = 0" using Cons.prems(4) Suc by auto
    have "pde_count d = 0" using Cons.prems(4) Suc by force
    then have "\<exists>c. get_loop freq (d # ds) n cur = get_loop freq ds (Suc n) c" by auto
    with Cons.IH [of m "Suc n"] Cons.prems(1-3) Suc others show ?thesis by auto
  qed
qed simp

lemma get_idle:
  assumes "\<forall>pde \<in> set ds. pde_count pde = 0" and "get_loop freq ds n cur = Some j"
  shows "cur = Some j \<or> (\<exists>k < length ds. j = n + k \<and> pde_freq (ds ! k) = freq)"
  using assms
proof (induction ds arbitrary: n cur)
  case (Cons d ds)
  then have "pde_count d = 0" by simp
  then have d: "get_loop freq (d # ds) n cur = get_loop freq ds (Suc n) (if pde_freq d = freq then Some n else cur)" by simp
  from Cons.IH [of "Suc n" "if pde_freq d = freq then Some n else cur"] Cons.prems d
  consider "(if pde_freq d = freq then Some n else cur) = Some j" | k where "k < length ds" "j = Suc n + k" "pde_freq (ds ! k) = freq"
    by auto
  then show ?case
  proof cases
    case 1
    then show ?thesis by (auto split: if_splits)
  next
    case 2
    then have "Suc k < length (d # ds) \<and> j = n + Suc k \<and> pde_freq ((d # ds) ! Suc k) = freq" by simp
    then show ?thesis by blast
  qed
qed simp

lemma follows_first:
  assumes mem: "\<forall>n. mem n \<noteq> None" and s: "short_spec rs" and p: "unat (rs_pri_min rs) \<le> p" "p \<le> unat (rs_pri_max rs)"
    and ds: "idle rs ds" and g: "pri_detector_get mem rs freq ds pl = (Some (k, ds1), pl1)"
    and op: "ops_add_pulse mem (ds1 ! k) t pl1 = (r, pde', pl2)"
  shows "r = None \<and> follows rs p freq [t] (ds1[k := pde'])"
proof -
  have short: "rs_type rs \<noteq> RADAR_WAVEFORM_LONG" using s by (simp add: short_spec_def)
  have k: "k < length ds1 \<and> pde_freq (ds1 ! k) = freq \<and> idle rs ds1"
  proof (cases "get_loop freq ds 0 None")
    case (Some j)
    with g have "k = j" "ds1 = ds" by (auto simp: pri_detector_get_def)
    with get_idle [OF _ Some] ds show ?thesis by (auto simp: idle_def)
  next
    case None
    then obtain pde where "pri_detector_init mem rs freq pl = (Some pde, pl1)" "k = 0" "ds1 = pde # ds"
      using g by (auto simp: pri_detector_get_def split: prod.splits option.splits)
    moreover from this have "pde_freq pde = freq \<and> idle rs [pde]"
      by (auto simp: pri_detector_init_def idle_def kind_of_def pde_kind_def ops_init_def pde_short_init_def pde_long_init_def split: option.splits if_splits)
    ultimately show ?thesis using ds by (simp add: idle_def)
  qed
  then have pde: "pde_count (ds1 ! k) = 0" "pde_pulses (ds1 ! k) = []" "pde_sequences (ds1 ! k) = []" "pde_kind (ds1 ! k) = kind_of rs"
    by (auto simp: idle_def)
  obtain q where q: "pde_window_size (ds1 ! k) = pde_window_size (pde_short_init q)"
    "pde_max_count (ds1 ! k) = pde_max_count (pde_short_init q)" "pde_rs q = rs" "pde_rs (ds1 ! k) = rs"
    using kind_sizes [OF pde(4) short] by metis
  have "ops_add_pulse mem (ds1 ! k) t pl1 = pde_short_add_pulse mem (ds1 ! k) t pl1" using q(4) short by (simp add: ops_add_pulse_def)
  with tracks_first [OF mem s p q(4) pde(1-3) q(1-3), of t pl1] op
  have "r = None" "tracks rs p [t] pde'" "pde_freq pde' = pde_freq (ds1 ! k)" by auto
  moreover have "pde_count (ds1 ! j) = 0" if "j < length ds1" for j using k that by (auto simp: idle_def)
  ultimately show ?thesis using k by (auto simp: follows_def intro!: exI [of _ k])
qed

lemma follows_step:
  assumes mem: "\<forall>n. mem n \<noteq> None" and s: "short_spec rs" and p: "unat (rs_pri_min rs) \<le> p" "p \<le> unat (rs_pri_max rs)"
    and ds: "follows rs p freq ts ds" and t: "next_pulse rs p ts t"
    and g: "pri_detector_get mem rs freq ds pl = (Some (k, ds1), pl1)" and op: "ops_add_pulse mem (ds1 ! k) t pl1 = (r, pde', pl2)"
  shows "if Suc (length ts) < burst_thresh rs p then r = None \<and> follows rs p freq (t # ts) (ds1[k := pde']) else r \<noteq> None"
proof -
  obtain j where j: "j < length ds" "tracks rs p ts (ds ! j)" "pde_freq (ds ! j) = freq" "\<forall>i < length ds. i \<noteq> j \<longrightarrow> pde_count (ds ! i) = 0"
    using ds by (auto simp: follows_def)
  have "ts \<noteq> []" using j(2) by (simp add: tracks_def)
  moreover have "length ts < 255" by (rule next_time(4) [OF s p t \<open>ts \<noteq> []\<close>])
  ultimately have "unat (pde_count (ds ! j)) = length ts" using j(2) by (simp add: tracks_def unat_of_nat)
  then have "pde_count (ds ! j) \<noteq> 0" using \<open>ts \<noteq> []\<close> by auto
  from get_active [OF j(1,3) this j(4), of 0 None] g have k: "k = j" "ds1 = ds" by (auto simp: pri_detector_get_def)
  have "pde_rs (ds ! j) = rs" using j(2) by (simp add: tracks_def)
  then have "ops_add_pulse mem (ds ! j) t pl1 = pde_short_add_pulse mem (ds ! j) t pl1"
    using s by (simp add: ops_add_pulse_def short_spec_def)
  with tracks_next [OF mem s p j(2) t, of pl1] op k
  have r: "pde_freq pde' = pde_freq (ds ! j)" "if Suc (length ts) < burst_thresh rs p then r = None \<and> tracks rs p (t # ts) pde' else r \<noteq> None"
    by auto
  have "follows rs p freq (t # ts) (ds[j := pde'])" if "tracks rs p (t # ts) pde'"
    unfolding follows_def using that j r(1) by (intro exI [of _ j]) auto
  with r(2) k show ?thesis by simp
qed

section \<open>The loop over the types\<close>

definition same_dpd :: "dfs_pattern_detector \<Rightarrow> dfs_pattern_detector \<Rightarrow> bool" where
  "same_dpd dpd dpd' \<longleftrightarrow> dpd_last_pulse_ts dpd' = dpd_last_pulse_ts dpd \<and> dpd_region dpd' = dpd_region dpd \<and>
     dpd_radar_spec dpd' = dpd_radar_spec dpd \<and> dpd_num_radar_types dpd' = dpd_num_radar_types dpd \<and>
     dpd_prev_jiffies dpd' = dpd_prev_jiffies dpd"

text \<open>Type \<open>i\<close> has its turn once when no type has reported.\<close>

definition type_turn ::
  "(nat \<Rightarrow> pri_sequence option) \<Rightarrow> u16 \<Rightarrow> nat \<Rightarrow> dfs_pattern_detector \<Rightarrow> pri_detector list \<Rightarrow> bool" where
  "type_turn mem freq i dpd ds \<longleftrightarrow> (\<exists>pl k ds1 pl1 pde' pl2.
     pri_detector_get mem (dpd_radar_spec dpd ! i) freq (dpd_detectors dpd ! i) pl = (Some (k, ds1), pl1) \<and>
     ops_add_pulse mem (ds1 ! k) (dpd_last_pulse_ts dpd) pl1 = (None, pde', pl2) \<and> ds = ds1[k := pde'])"

lemma types_loop_at:
  assumes "types_loop mem j freq len js dpd pl = Some (False, dpd', pl')" and "distinct js" and "dpd_wf dpd"
    and "\<forall>m \<in> set js. m < dpd_num_radar_types dpd" and "pools_ok (a @ dpd_pdes dpd @ b) pl" and "i < dpd_num_radar_types dpd"
    and "ucast (rs_width_min (dpd_radar_spec dpd ! i)) \<le> len" and "len \<le> ucast (rs_width_max (dpd_radar_spec dpd ! i))"
  shows "same_dpd dpd dpd' \<and> (if i \<in> set js then type_turn mem freq i dpd (dpd_detectors dpd' ! i)
    else dpd_detectors dpd' ! i = dpd_detectors dpd ! i)"
  using assms
proof (induction js arbitrary: dpd pl)
  case (Cons m js)
  note wf = Cons.prems(3)
  have m: "m < dpd_num_radar_types dpd" using Cons.prems(4) by simp
  have lens: "i < length (dpd_detectors dpd)" "m < length (dpd_detectors dpd)" using wf Cons.prems(6) m by (simp_all add: dpd_wf_def)
  note get = types_get [OF wf m]
  let ?rs = "dpd_radar_spec dpd ! m" and ?ds = "dpd_detectors dpd ! m"
  show ?case
  proof (cases "ucast (rs_width_min ?rs) > len \<or> ucast (rs_width_max ?rs) < len")
    case True
    then have "m \<noteq> i" using Cons.prems(7,8) by auto
    moreover have "types_loop mem j freq len js dpd pl = Some (False, dpd', pl')" using Cons.prems(1) get True by simp
    ultimately show ?thesis using Cons.IH [of dpd pl] Cons.prems by auto
  next
    case False
    obtain r pl1 where g: "pri_detector_get mem ?rs freq ?ds pl = (r, pl1)" by (cases "pri_detector_get mem ?rs freq ?ds pl") auto
    with Cons.prems(1) get False obtain k ds1 where r: "r = Some (k, ds1)"
      by (auto simp: Let_def bind_eq_Some_conv split: if_split_asm)
    obtain ps pde2 pl2 where op: "ops_add_pulse mem (ds1 ! k) (dpd_last_pulse_ts dpd) pl1 = (ps, pde2, pl2)"
      by (cases "ops_add_pulse mem (ds1 ! k) (dpd_last_pulse_ts dpd) pl1") auto
    note step = types_step [OF g [unfolded r] op Cons.prems(5) wf m]
    let ?d = "dpd\<lparr>dpd_detectors := (dpd_detectors dpd)[m := ds1[k := pde2]]\<rparr>"
    have none: "ps = None" and run: "types_loop mem j freq len js ?d pl2 = Some (False, dpd', pl')"
      using Cons.prems(1) get False g r step(1) op by (auto simp: Let_def c_get_def split: prod.splits if_splits)
    have d: "same_dpd dpd ?d" by (simp add: same_dpd_def)
    have IH: "same_dpd ?d dpd' \<and> (if i \<in> set js then type_turn mem freq i ?d (dpd_detectors dpd' ! i)
        else dpd_detectors dpd' ! i = dpd_detectors ?d ! i)"
      by (rule Cons.IH [OF run _ step(3) _ step(2)]) (use Cons.prems in simp_all)
    then have same: "same_dpd dpd dpd'" by (simp add: same_dpd_def)
    show ?thesis
    proof (cases "m = i")
      case True
      then have "dpd_detectors dpd' ! i = ds1[k := pde2]" using IH Cons.prems(2) lens by simp
      moreover have "type_turn mem freq i dpd (ds1[k := pde2])" unfolding type_turn_def using g r op none True by blast
      ultimately show ?thesis using True same by simp
    next
      case False
      then have "dpd_detectors ?d ! i = dpd_detectors dpd ! i" using lens by simp
      moreover from this have "type_turn mem freq i ?d = type_turn mem freq i dpd" by (intro ext) (simp add: type_turn_def)
      ultimately show ?thesis using False IH same by (cases "i \<in> set js") simp_all
    qed
  qed
qed (simp add: same_dpd_def)

section \<open>The train\<close>

text \<open>The pulses are pairs of distance and width; at most \<open>2 ^ 27\<close> microseconds pass.\<close>

definition after_pulses ::
  "radar_detector_specs \<Rightarrow> nat \<Rightarrow> u16 \<Rightarrow> nat \<Rightarrow> u64 list \<Rightarrow> dfs_pattern_detector \<Rightarrow> bool" where
  "after_pulses rs p freq i ts dpd \<longleftrightarrow> dpd_wf dpd \<and> dpd_region dpd \<noteq> NL80211_DFS_UNSET \<and> i < dpd_num_radar_types dpd \<and>
     dpd_radar_spec dpd ! i = rs \<and> ts \<noteq> [] \<and> dpd_last_pulse_ts dpd = hd ts \<and> train_time p ts \<and>
     follows rs p freq ts (dpd_detectors dpd ! i) \<and> length ts < burst_thresh rs p"

lemma train_step:
  assumes mem: "\<forall>n. mem n \<noteq> None" and s: "short_spec rs" and p: "unat (rs_pri_min rs) \<le> p" "p \<le> unat (rs_pri_max rs)"
    and tr: "after_pulses rs p freq i ts dpd" and ok: "pools_ok (a @ dpd_pdes dpd @ b) pl"
    and d: "unat pri \<le> p + 16" "p \<le> unat pri + 16" "length ts = 1 \<Longrightarrow> unat pri = p"
    and w: "ucast (rs_width_min rs) \<le> len" "len \<le> ucast (rs_width_max rs)"
    and run: "dfs_pattern_detector_add_pulse mem ju j dpd freq pri len now pl = Some (False, dpd', pl')"
  shows "after_pulses rs p freq i ((hd ts + ucast pri) # ts) dpd' \<and> pools_ok (a @ dpd_pdes dpd' @ b) pl'"
proof -
  note b = burst_thresh_bounds [OF s p]
  have dpd: "dpd_wf dpd" "dpd_region dpd \<noteq> NL80211_DFS_UNSET" "i < dpd_num_radar_types dpd" "dpd_radar_spec dpd ! i = rs" "ts \<noteq> []"
    "dpd_last_pulse_ts dpd = hd ts" "train_time p ts" "follows rs p freq ts (dpd_detectors dpd ! i)" "length ts < burst_thresh rs p"
    using tr by (simp_all add: after_pulses_def)
  let ?t = "hd ts + ucast pri :: u64" and ?d = "dpd\<lparr>dpd_last_pulse_ts := dpd_last_pulse_ts dpd + ucast pri\<rparr>"
  have "unat pri \<noteq> 0" using d(2) b(4) by linarith
  then have pri: "pri \<noteq> 0" by auto
  have loop: "types_loop mem j freq len [0..<dpd_num_radar_types ?d] ?d pl = Some (False, dpd', pl')"
    using run dpd(2) pri by (simp add: dfs_pattern_detector_add_pulse_def pulse_time_def)
  have wf: "dpd_wf ?d" using dpd(1) by (simp add: dpd_wf_def)
  have ok1: "pools_ok (a @ dpd_pdes ?d @ b) pl" using ok by (simp add: dpd_pdes_def)
  have turn: "same_dpd ?d dpd' \<and> type_turn mem freq i ?d (dpd_detectors dpd' ! i)"
    using types_loop_at [OF loop _ wf _ ok1, of i] dpd(3,4) w by simp
  have keeps: "dpd_wf dpd'" "pools_ok (a @ dpd_pdes dpd' @ b) pl'" using types_loop_keeps [OF loop ok1 wf] by simp_all
  have last: "dpd_last_pulse_ts ?d = ?t" using dpd(6) by simp
  obtain pl0 k ds1 pl1 pde' pl2 where turn': "pri_detector_get mem rs freq (dpd_detectors dpd ! i) pl0 = (Some (k, ds1), pl1)"
    "ops_add_pulse mem (ds1 ! k) ?t pl1 = (None, pde', pl2)" "dpd_detectors dpd' ! i = ds1[k := pde']"
    using turn dpd(4) last unfolding type_turn_def by auto
  have small: "(length ts - 1) * (p + 16) < 2 ^ 25"
  proof -
    have "(length ts - 1) * (p + 16) \<le> length ts * (p + 16)" by (intro mult_le_mono1) simp
    with window_covers(1,3) [OF s p dpd(9)] show ?thesis by linarith
  qed
  have bound: "unat (hd ts) + unat pri < 2 ^ 64"
  proof -
    define c where "c = (length ts - 1) * (p + 16)"
    have "unat (hd ts) \<le> unat (last ts) + c" "unat (last ts) + 134217728 < 18446744073709551616" "c < 33554432"
      using dpd(7) small by (simp_all add: train_time_def c_def)
    with d(1) b(6) show ?thesis by simp
  qed
  then have t: "unat ?t = unat (hd ts) + unat pri" by (simp add: unat_word_ariths(1))
  have nx: "next_pulse rs p ts ?t" unfolding next_pulse_def using t d dpd(7,9) by blast
  have f: "if Suc (length ts) < burst_thresh rs p then follows rs p freq (?t # ts) (dpd_detectors dpd' ! i) else False"
    using follows_step [OF mem s p dpd(8) nx turn'(1,2)] turn'(3) by (auto split: if_splits)
  note time = next_time(1) [OF s p nx dpd(5)]
  show ?thesis
    using f time keeps turn dpd(2-6) by (auto simp: after_pulses_def same_dpd_def split: if_splits)
qed

text \<open>The first pulse has no distance: the detectors of short waveforms forget what they have seen.\<close>

lemma each_pde_length: "each_pde f xs pl = (ys, pl') \<Longrightarrow> length ys = length xs"
  by (induction xs arbitrary: pl ys pl') (auto split: prod.splits)

lemma each_pde_at:
  "each_pde f xs pl = (ys, pl') \<Longrightarrow> k < length xs \<Longrightarrow> \<exists>pl0. ys ! k = fst (f (xs ! k) pl0)"
proof (induction xs arbitrary: k pl ys)
  case (Cons x xs)
  obtain y pl1 where f: "f x pl = (y, pl1)" by (cases "f x pl") auto
  obtain zs where e: "each_pde f xs pl1 = (zs, pl')" "ys = y # zs" using Cons.prems(1) f by (auto split: prod.splits)
  show ?case
  proof (cases k)
    case 0
    with e f show ?thesis by (intro exI [of _ pl]) simp
  next
    case (Suc m)
    with Cons.IH [OF e(1), of m] Cons.prems(2) e(2) show ?thesis by simp
  qed
qed simp

lemma each_type_at:
  assumes "each_type f dpd pl = (dpd', pl')" and "i < dpd_num_radar_types dpd" and "i < length (dpd_detectors dpd)"
  shows "\<exists>pl1 pl2. each_pde f (dpd_detectors dpd ! i) pl1 = (dpd_detectors dpd' ! i, pl2)"
proof -
  let ?n = "dpd_num_radar_types dpd" and ?ds = "dpd_detectors dpd"
  obtain ds pl1 where e: "each_pde (each_pde f) (take ?n ?ds) pl = (ds, pl1)" by fastforce
  have dpd': "dpd' = dpd\<lparr>dpd_detectors := ds @ drop ?n ?ds\<rparr>" using assms(1) e by (auto simp: each_type_def Let_def)
  have "i < length ds" using each_pde_length [OF e] assms(2,3) by simp
  then have "dpd_detectors dpd' ! i = ds ! i" by (simp add: dpd' nth_append)
  moreover obtain pl0 where "ds ! i = fst (each_pde f (take ?n ?ds ! i) pl0)" using each_pde_at [OF e, of i] assms(2,3) by auto
  ultimately have "dpd_detectors dpd' ! i = fst (each_pde f (?ds ! i) pl0)" using assms(2) by simp
  then show ?thesis by (metis prod.collapse)
qed

definition overflow_time :: "(u32 \<Rightarrow> u32) \<Rightarrow> u32 \<Rightarrow> dfs_pattern_detector \<Rightarrow> u64" where
  "overflow_time ju now dpd = dpd_last_pulse_ts dpd + ucast (ju (if now < dpd_prev_jiffies dpd
     then 0xffffffff - dpd_prev_jiffies dpd + now else now - dpd_prev_jiffies dpd))"

lemma overflow_idle:
  assumes t: "pulse_time ju 0 now dpd pl = (dpd', pl')" and wf: "dpd_wf dpd" and i: "i < dpd_num_radar_types dpd"
    and rs: "dpd_radar_spec dpd ! i = rs" "rs_type rs \<noteq> RADAR_WAVEFORM_LONG" and ok: "pools_ok (a @ dpd_pdes dpd @ b) pl"
  shows "idle rs (dpd_detectors dpd' ! i)" and "dpd_last_pulse_ts dpd' = overflow_time ju now dpd" and "dpd_wf dpd'"
    and "dpd_region dpd' = dpd_region dpd" and "dpd_radar_spec dpd' = dpd_radar_spec dpd"
    and "dpd_num_radar_types dpd' = dpd_num_radar_types dpd" and "pools_ok (a @ dpd_pdes dpd' @ b) pl'"
proof -
  let ?d = "dpd\<lparr>dpd_last_pulse_ts := overflow_time ju now dpd, dpd_prev_jiffies := now\<rparr>"
  let ?f = "\<lambda>pde pl. if ops_reset_on_pri_overflow pde then pri_detector_reset pde (overflow_time ju now dpd) pl else (pde, pl)"
  have e: "each_type ?f ?d pl = (dpd', pl')"
  proof -
    have "pulse_time ju 0 now dpd pl = dfs_pattern_detector_pri_overflow ?d pl"
      by (simp only: pulse_time_def Let_def overflow_time_def refl if_True)
    moreover have "dpd_last_pulse_ts ?d = overflow_time ju now dpd" by simp
    ultimately show ?thesis using t by (simp only: dfs_pattern_detector_pri_overflow_def)
  qed
  then show "dpd_last_pulse_ts dpd' = overflow_time ju now dpd" and spec: "dpd_radar_spec dpd' = dpd_radar_spec dpd"
    and "dpd_num_radar_types dpd' = dpd_num_radar_types dpd"
    by (auto simp: each_type_def Let_def split: prod.splits)
  note k = pulse_time_keeps [OF t ok wf]
  then show wf': "dpd_wf dpd'" "dpd_region dpd' = dpd_region dpd" "pools_ok (a @ dpd_pdes dpd' @ b) pl'" by simp_all
  have len: "i < length (dpd_detectors dpd)" using wf i by (simp add: dpd_wf_def)
  obtain pl1 pl2 where at: "each_pde ?f (dpd_detectors dpd ! i) pl1 = (dpd_detectors dpd' ! i, pl2)"
    using each_type_at [OF e, of i] i len by auto
  show "idle rs (dpd_detectors dpd' ! i)" unfolding idle_def
  proof
    fix pde assume in': "pde \<in> set (dpd_detectors dpd' ! i)"
    then obtain m where m: "m < length (dpd_detectors dpd ! i)" "pde = dpd_detectors dpd' ! i ! m"
      using each_pde_length [OF at] by (auto simp: in_set_conv_nth)
    then obtain pl0 where f: "pde = fst (?f (dpd_detectors dpd ! i ! m) pl0)" using each_pde_at [OF at] by blast
    have "pde_kind (dpd_detectors dpd ! i ! m) = kind_of rs" using wf i m(1) rs(1) len by (auto simp: dpd_wf_def)
    moreover from this have "pde_rs (dpd_detectors dpd ! i ! m) = rs" using kind_sizes rs(2) by metis
    ultimately show "pde_count pde = 0 \<and> pde_pulses pde = [] \<and> pde_sequences pde = [] \<and> pde_kind pde = kind_of rs"
      using f rs(2) by (simp add: ops_reset_on_pri_overflow_def pri_detector_reset_def)
  qed
qed

lemma train_start:
  assumes mem: "\<forall>n. mem n \<noteq> None" and s: "short_spec rs" and p: "unat (rs_pri_min rs) \<le> p" "p \<le> unat (rs_pri_max rs)"
    and wf: "dpd_wf dpd" and i: "i < dpd_num_radar_types dpd" "dpd_radar_spec dpd ! i = rs" and region: "dpd_region dpd \<noteq> NL80211_DFS_UNSET"
    and ok: "pools_ok (a @ dpd_pdes dpd @ b) pl" and time: "unat (overflow_time ju now dpd) + 2 ^ 27 < 2 ^ 64"
    and w: "ucast (rs_width_min rs) \<le> len" "len \<le> ucast (rs_width_max rs)"
    and run: "dfs_pattern_detector_add_pulse mem ju j dpd freq 0 len now pl = Some (False, dpd', pl')"
  shows "after_pulses rs p freq i [overflow_time ju now dpd] dpd' \<and> pools_ok (a @ dpd_pdes dpd' @ b) pl'"
proof -
  obtain d1 pl1 where t: "pulse_time ju 0 now dpd pl = (d1, pl1)" by (cases "pulse_time ju 0 now dpd pl") auto
  have short: "rs_type rs \<noteq> RADAR_WAVEFORM_LONG" using s by (simp add: short_spec_def)
  note o = overflow_idle [OF t wf i short ok]
  have loop: "types_loop mem j freq len [0..<dpd_num_radar_types d1] d1 pl1 = Some (False, dpd', pl')"
    using run region t by (simp add: dfs_pattern_detector_add_pulse_def)
  have turn: "same_dpd d1 dpd' \<and> type_turn mem freq i d1 (dpd_detectors dpd' ! i)"
    using types_loop_at [OF loop _ o(3) _ o(7), of i] o(5,6) i w by simp
  have keeps: "dpd_wf dpd'" "pools_ok (a @ dpd_pdes dpd' @ b) pl'" using types_loop_keeps [OF loop o(7,3)] by simp_all
  obtain pl0 k ds1 pl2 pde' pl3 where turn': "pri_detector_get mem rs freq (dpd_detectors d1 ! i) pl0 = (Some (k, ds1), pl2)"
    "ops_add_pulse mem (ds1 ! k) (overflow_time ju now dpd) pl2 = (None, pde', pl3)" "dpd_detectors dpd' ! i = ds1[k := pde']"
    using turn i(2) o(2,5) unfolding type_turn_def by auto
  have "follows rs p freq [overflow_time ju now dpd] (dpd_detectors dpd' ! i)"
    using follows_first [OF mem s p o(1) turn'(1,2)] turn'(3) by simp
  then show ?thesis
    using keeps turn o(2,4-6) i region time burst_thresh_bounds(1) [OF s p] by (simp add: after_pulses_def same_dpd_def train_time_def)
qed

end
