(* ===== verification/Aic_Radar_Report.thy ===== *)
theory Aic_Radar_Report
  imports Aic_Radar_Train
begin

text \<open>
  From the ring of the first chain to the report: a train of pulses that the work takes out of the ring
  ends in a radar event, the end of a pending availability check, and the detection switched off.
\<close>

lemma each_type_enabled: "each_type f dpd pl = (dpd', pl') \<Longrightarrow> dpd_enabled dpd' = dpd_enabled dpd"
  by (auto simp: each_type_def Let_def split: prod.splits)

lemma types_loop_enabled:
  "types_loop mem j freq len js dpd pl = Some (hit, dpd', pl') \<Longrightarrow> dpd_enabled dpd' = dpd_enabled dpd"
proof (induction js arbitrary: dpd pl)
  case (Cons i js)
  obtain rs where rs: "c_get (dpd_radar_spec dpd) i = Some rs" using Cons.prems by (auto simp: bind_eq_Some_conv)
  show ?case
  proof (cases "ucast (rs_width_min rs) > len \<or> ucast (rs_width_max rs) < len")
    case True
    with Cons rs show ?thesis by simp
  next
    case False
    with Cons.prems rs obtain pdes where pdes: "c_get (dpd_detectors dpd) i = Some pdes" by (auto simp: bind_eq_Some_conv)
    obtain r pl1 where g: "pri_detector_get mem rs freq pdes pl = (r, pl1)" by (cases "pri_detector_get mem rs freq pdes pl") auto
    with Cons.prems rs False pdes obtain k ds1 pde where r: "r = Some (k, ds1)" "c_get ds1 k = Some pde"
      by (auto simp: Let_def bind_eq_Some_conv)
    obtain ps pde2 pl2 where op: "ops_add_pulse mem pde (dpd_last_pulse_ts dpd) pl1 = (ps, pde2, pl2)"
      by (cases "ops_add_pulse mem pde (dpd_last_pulse_ts dpd) pl1") auto
    let ?d = "dpd\<lparr>dpd_detectors := (dpd_detectors dpd)[i := ds1[k := pde2]]\<rparr>"
    have run: "(if ps \<noteq> None then Some (True, dfs_pattern_detector_reset j ?d pl2) else types_loop mem j freq len js ?d pl2) = Some (hit, dpd', pl')"
      using Cons.prems rs False pdes g r op by (auto simp: Let_def split: prod.splits if_splits)
    then show ?thesis
    proof (cases "ps = None")
      case True
      with Cons.IH [of ?d pl2] run show ?thesis by simp
    next
      case False
      with run have "dfs_pattern_detector_reset j ?d pl2 = (dpd', pl')" by simp
      then show ?thesis by (auto simp: dfs_pattern_detector_reset_def Let_def split: prod.splits dest: each_type_enabled)
    qed
  qed
qed simp

lemma add_pulse_enabled:
  "dfs_pattern_detector_add_pulse mem ju j dpd freq pri len now pl = Some (hit, dpd', pl') \<Longrightarrow> dpd_enabled dpd' = dpd_enabled dpd"
  by (auto simp: dfs_pattern_detector_add_pulse_def pulse_time_def dfs_pattern_detector_pri_overflow_def Let_def
    split: if_split_asm prod.splits dest!: types_loop_enabled each_type_enabled)

section \<open>The loop over the pulses\<close>

text \<open>What the report reads is the same.\<close>

definition same_report :: "rwnx_radar \<Rightarrow> rwnx_radar \<Rightarrow> bool" where
  "same_report rd rd' \<longleftrightarrow> rd_out rd' = rd_out rd \<and> rd_cac_vif rd' = rd_cac_vif rd \<and> rd_cac_work rd' = rd_cac_work rd \<and>
     rd_status rd' = rd_status rd"

abbreviation pulse_chan :: "u16 \<Rightarrow> u32 \<Rightarrow> u16" where
  "pulse_chan freq w \<equiv> of_int (sint freq + 2 * pulse_freq w)"

definition busy :: "rwnx_radar \<Rightarrow> bool" where
  "busy rd \<longleftrightarrow> rd_status rd = RWNX_RADAR_CAC_BUSY \<or> rd_status rd = RWNX_RADAR_INSERVICE_BUSY"

lemma pulses_loop_step:
  assumes "radar_ok rd" and "chain < 2" and "\<forall>n. re_mem env n \<noteq> None" and "busy rd"
  obtains dpd hit dpd1 pl1 a b where "dpd_at chain rd = Some dpd" and "dpd_wf dpd" and "pools_ok (a @ dpd_pdes dpd @ b) (rd_pools rd)"
    and "dfs_pattern_detector_add_pulse (re_mem env) (re_usecs env) (re_jiffies env) dpd (pulse_chan freq w)
      (pulse_rep w) (pulse_len w * 2) (re_now env) (rd_pools rd) = Some (hit, dpd1, pl1)"
    and "radar_ok ((dpd_put chain dpd1 rd)\<lparr>rd_pools := pl1\<rparr>)" and "dpd_at chain ((dpd_put chain dpd1 rd)\<lparr>rd_pools := pl1\<rparr>) = Some dpd1"
    and "same_report rd ((dpd_put chain dpd1 rd)\<lparr>rd_pools := pl1\<rparr>)"
    and "pulses_loop env chain freq (w # ws) rd =
      (if hit then pulse_found env chain (pulse_chan freq w) ((dpd_put chain dpd1 rd)\<lparr>rd_pools := pl1\<rparr>)
       else pulses_loop env chain freq ws ((dpd_put chain dpd1 rd)\<lparr>rd_pools := pl1\<rparr>))"
proof -
  obtain dpd a b where c: "dpd_at chain rd = Some dpd" "dpd_wf dpd" "pools_ok (a @ dpd_pdes dpd @ b) (rd_pools rd)"
    "\<And>dpd' pl'. dpd_wf dpd' \<Longrightarrow> pools_ok (a @ dpd_pdes dpd' @ b) pl' \<Longrightarrow> radar_ok ((dpd_put chain dpd' rd)\<lparr>rd_pools := pl'\<rparr>)"
    using radar_chain [OF assms(1,2)] by metis
  obtain r where r: "dfs_pattern_detector_add_pulse (re_mem env) (re_usecs env) (re_jiffies env) dpd (pulse_chan freq w)
      (pulse_rep w) (pulse_len w * 2) (re_now env) (rd_pools rd) = Some r"
    using add_pulse_defined [OF assms(3) c(3,2)] by blast
  obtain hit dpd1 pl1 where t: "r = (hit, dpd1, pl1)" by (cases r) auto
  let ?rd = "(dpd_put chain dpd1 rd)\<lparr>rd_pools := pl1\<rparr>"
  have len: "length (rd_dpd rd) = 2" using assms(1) by (auto simp: radar_ok_def)
  show thesis
  proof (rule that [of dpd a b hit dpd1 pl1])
    show "radar_ok ?rd" using add_pulse_keeps [OF r [unfolded t] c(3,2)] by (intro c(4)) simp_all
    show "dpd_at chain ?rd = Some dpd1" using len assms(2) by (simp add: dpd_at_def dpd_put_def c_get_def)
    show "same_report rd ?rd" by (simp add: same_report_def dpd_put_def)
    show "pulses_loop env chain freq (w # ws) rd =
      (if hit then pulse_found env chain (pulse_chan freq w) ?rd else pulses_loop env chain freq ws ?rd)"
      using assms(4) c(1) r t unfolding busy_def by auto
  qed (use c r t in simp_all)
qed

text \<open>The second chain reports nothing and leaves the first alone.\<close>

lemma fcu_quiet:
  assumes "radar_ok rd" and "\<forall>n. re_mem env n \<noteq> None" and "pulses_loop env RWNX_RADAR_FCU freq ws rd = Some rd'"
  shows "same_report rd rd' \<and> dpd_at RWNX_RADAR_RIU rd' = dpd_at RWNX_RADAR_RIU rd"
  using assms(1,3)
proof (induction ws arbitrary: rd)
  case (Cons w ws)
  show ?case
  proof (cases "busy rd")
    case False
    with Cons.prems show ?thesis by (simp add: busy_def same_report_def)
  next
    case True
    have lt: "RWNX_RADAR_FCU < 2" by (simp add: RWNX_RADAR_FCU_def)
    obtain dpd hit dpd1 pl1 where st: "radar_ok ((dpd_put RWNX_RADAR_FCU dpd1 rd)\<lparr>rd_pools := pl1\<rparr>)"
      "same_report rd ((dpd_put RWNX_RADAR_FCU dpd1 rd)\<lparr>rd_pools := pl1\<rparr>)"
      "pulses_loop env RWNX_RADAR_FCU freq (w # ws) rd =
        (if hit then pulse_found env RWNX_RADAR_FCU (pulse_chan freq w) ((dpd_put RWNX_RADAR_FCU dpd1 rd)\<lparr>rd_pools := pl1\<rparr>)
         else pulses_loop env RWNX_RADAR_FCU freq ws ((dpd_put RWNX_RADAR_FCU dpd1 rd)\<lparr>rd_pools := pl1\<rparr>))"
      using pulses_loop_step [OF Cons.prems(1) lt assms(2) True] by metis
    let ?rd = "(dpd_put RWNX_RADAR_FCU dpd1 rd)\<lparr>rd_pools := pl1\<rparr>"
    have riu: "dpd_at RWNX_RADAR_RIU ?rd = dpd_at RWNX_RADAR_RIU rd"
      by (simp add: dpd_at_def dpd_put_def c_get_def RWNX_RADAR_RIU_def RWNX_RADAR_FCU_def)
    show ?thesis
    proof (cases hit)
      case True
      then have "pulse_found env RWNX_RADAR_FCU (pulse_chan freq w) ?rd = Some rd'" using Cons.prems(2) st(3) by simp
      then obtain d where "rd' = ?rd\<lparr>rd_detected := d\<rparr>"
        by (auto simp: pulse_found_def bind_eq_Some_conv RWNX_RADAR_RIU_def RWNX_RADAR_FCU_def)
      then have "same_report ?rd rd' \<and> dpd_at RWNX_RADAR_RIU rd' = dpd_at RWNX_RADAR_RIU ?rd"
        by (simp add: same_report_def dpd_at_def)
      with st(2) riu show ?thesis by (simp add: same_report_def)
    next
      case False
      then have "pulses_loop env RWNX_RADAR_FCU freq ws ?rd = Some rd'" using Cons.prems(2) st(3) by simp
      from Cons.IH [OF st(1) this] st(2) riu show ?thesis by (simp add: same_report_def)
    qed
  qed
qed (simp add: same_report_def)

text \<open>A train of the first chain ends in a detection.\<close>

definition train_pulse :: "radar_detector_specs \<Rightarrow> nat \<Rightarrow> u16 \<Rightarrow> u16 \<Rightarrow> u32 \<Rightarrow> bool" where
  "train_pulse rs p freq f w \<longleftrightarrow> unat (pulse_rep w) \<le> p + 16 \<and> p \<le> unat (pulse_rep w) + 16 \<and> pulse_chan freq w = f \<and>
     ucast (rs_width_min rs) \<le> pulse_len w * 2 \<and> pulse_len w * 2 \<le> ucast (rs_width_max rs)"

definition found_from :: "radar_env \<Rightarrow> nat \<Rightarrow> u16 \<Rightarrow> rwnx_radar \<Rightarrow> u8 \<Rightarrow> rwnx_radar option \<Rightarrow> bool" where
  "found_from env chain f rd e r \<longleftrightarrow> (\<exists>rd1 d. radar_ok rd1 \<and> r = pulse_found env chain f rd1 \<and> same_report rd rd1 \<and>
     dpd_at chain rd1 = Some d \<and> dpd_enabled d = e)"

lemma train_hits:
  assumes mem: "\<forall>n. re_mem env n \<noteq> None" and s: "short_spec rs" and p: "unat (rs_pri_min rs) \<le> p" "p \<le> unat (rs_pri_max rs)"
    and chain: "chain < 2"
    and st: "radar_ok rd" "busy rd" "dpd_at chain rd = Some dpd" "after_pulses rs p f i ts dpd"
    and ws: "\<forall>w \<in> set ws. train_pulse rs p freq f w" "length ts = 1 \<Longrightarrow> ws \<noteq> [] \<and> unat (pulse_rep (hd ws)) = p"
      "burst_thresh rs p \<le> length ts + length ws"
  shows "found_from env chain f rd (dpd_enabled dpd) (pulses_loop env chain freq ws rd)"
  using st ws
proof (induction ws arbitrary: rd dpd ts)
  case Nil
  then show ?case by (simp add: after_pulses_def)
next
  case (Cons w ws)
  have w: "unat (pulse_rep w) \<le> p + 16" "p \<le> unat (pulse_rep w) + 16" "pulse_chan freq w = f"
     "ucast (rs_width_min rs) \<le> pulse_len w * 2" "pulse_len w * 2 \<le> ucast (rs_width_max rs)"
    using Cons.prems(5) by (simp_all add: train_pulse_def)
  obtain dpd0 hit dpd1 pl1 a b where x: "dpd_at chain rd = Some dpd0" "dpd_wf dpd0" "pools_ok (a @ dpd_pdes dpd0 @ b) (rd_pools rd)"
    "dfs_pattern_detector_add_pulse (re_mem env) (re_usecs env) (re_jiffies env) dpd0 (pulse_chan freq w)
      (pulse_rep w) (pulse_len w * 2) (re_now env) (rd_pools rd) = Some (hit, dpd1, pl1)"
    "radar_ok ((dpd_put chain dpd1 rd)\<lparr>rd_pools := pl1\<rparr>)" "dpd_at chain ((dpd_put chain dpd1 rd)\<lparr>rd_pools := pl1\<rparr>) = Some dpd1"
    "same_report rd ((dpd_put chain dpd1 rd)\<lparr>rd_pools := pl1\<rparr>)"
    "pulses_loop env chain freq (w # ws) rd =
      (if hit then pulse_found env chain (pulse_chan freq w) ((dpd_put chain dpd1 rd)\<lparr>rd_pools := pl1\<rparr>)
       else pulses_loop env chain freq ws ((dpd_put chain dpd1 rd)\<lparr>rd_pools := pl1\<rparr>))"
    by (rule pulses_loop_step [OF Cons.prems(1) chain mem Cons.prems(2), where freq = freq and w = w and ws = ws])
  have d0: "dpd0 = dpd" using x(1) Cons.prems(3) by simp
  have en: "dpd_enabled dpd1 = dpd_enabled dpd" using add_pulse_enabled [OF x(4)] d0 by simp
  show ?case
  proof (cases hit)
    case True
    with x(5-8) en w(3) show ?thesis by (auto simp: found_from_def)
  next
    case False
    let ?rd = "(dpd_put chain dpd1 rd)\<lparr>rd_pools := pl1\<rparr>"
    let ?ts = "(hd ts + ucast (pulse_rep w)) # ts"
    have one: "length ts = 1 \<Longrightarrow> unat (pulse_rep w) = p" using Cons.prems(6) by simp
    have "dfs_pattern_detector_add_pulse (re_mem env) (re_usecs env) (re_jiffies env) dpd f
      (pulse_rep w) (pulse_len w * 2) (re_now env) (rd_pools rd) = Some (False, dpd1, pl1)" using x(4) d0 False w(3) by simp
    from train_step [OF mem s p Cons.prems(4) x(3) [unfolded d0] w(1,2) one w(4,5) this]
    have after: "after_pulses rs p f i ?ts dpd1" by simp
    have busy: "busy ?rd" using Cons.prems(2) x(7) by (simp add: busy_def same_report_def)
    have "ts \<noteq> []" using Cons.prems(4) by (simp add: after_pulses_def)
    then have "length ?ts \<noteq> 1" by simp
    then have "found_from env chain f ?rd (dpd_enabled dpd1) (pulses_loop env chain freq ws ?rd)"
      using Cons.prems(5,7) by (intro Cons.IH [OF x(5) busy x(6) after]) simp_all
    with x(7,8) False en show ?thesis by (auto simp: found_from_def same_report_def)
  qed
qed

section \<open>The report\<close>

text \<open>What ends a pending availability check.\<close>

definition cac_reports :: "rwnx_radar \<Rightarrow> radar_out list" where
  "cac_reports rd = (case rd_cac_vif rd of
     None \<Rightarrow> []
   | Some vif \<Rightarrow> if rd_cac_work rd = None then [] else [Stop_Cac vif, Cac_Aborted vif, Chanctx_Unlink vif])"

lemma found_reports:
  assumes ok: "radar_ok rd" and d: "dpd_at RWNX_RADAR_RIU rd = Some d" "dpd_enabled d = RWNX_RADAR_DETECT_REPORT"
    and ch: "re_chan env = Some ch"
  shows "\<exists>rd' d'. pulse_found env RWNX_RADAR_RIU f rd = Some rd' \<and> radar_ok rd' \<and>
    rd_out rd' = rd_out rd @ cac_reports rd @ [Radar_Event ch] \<and> rd_cac_vif rd' = None \<and>
    dpd_at RWNX_RADAR_RIU rd' = Some d' \<and> dpd_enabled d' = RWNX_RADAR_DETECT_DISABLE"
proof -
  have lt: "RWNX_RADAR_RIU < 2" "RWNX_RADAR_RIU < RWNX_RADAR_LAST" by (simp_all add: RWNX_RADAR_RIU_def RWNX_RADAR_LAST_def)
  obtain rd' where r: "pulse_found env RWNX_RADAR_RIU f rd = Some rd'" "radar_ok rd'" using pulse_found_ok [OF ok lt(1)] by blast
  let ?e = "rwnx_radar_detected_event (Some ch) rd"
  have e: "rd_out ?e = rd_out rd @ cac_reports rd @ [Radar_Event ch]" "rd_cac_vif ?e = None" "rd_dpd ?e = rd_dpd rd"
    by (simp_all add: rwnx_radar_detected_event_def rwnx_radar_cancel_cac_def rd_emit_def cac_reports_def Let_def split: option.split)
  let ?d = "d\<lparr>dpd_enabled := RWNX_RADAR_DETECT_DISABLE\<rparr>"
  have "dpd_at RWNX_RADAR_RIU ?e = Some d" using d(1) e(3) by (simp add: dpd_at_def)
  then have en: "rwnx_radar_detection_enable ?e RWNX_RADAR_DETECT_DISABLE RWNX_RADAR_RIU = Some (dpd_put RWNX_RADAR_RIU ?d ?e)"
    using lt(2) by (simp add: rwnx_radar_detection_enable_def)
  have len: "length (rd_dpd rd) = 2" using ok by (auto simp: radar_ok_def)
  obtain x y where "rd' = (dpd_put RWNX_RADAR_RIU ?d ?e)\<lparr>rd_pulses := x, rd_detected := y\<rparr>"
    using r(1) d ch en by (auto simp: pulse_found_def bind_eq_Some_conv)
  then have "rd_out rd' = rd_out ?e" "rd_cac_vif rd' = rd_cac_vif ?e" "rd_dpd rd' = (rd_dpd rd)[RWNX_RADAR_RIU := Some ?d]"
    using e(3) by (simp_all add: dpd_put_def)
  with r e len lt(1) show ?thesis by (auto simp: dpd_at_def c_get_def)
qed

text \<open>One run of the work on the rings.\<close>

definition radar_train :: "radar_detector_specs \<Rightarrow> u16 \<Rightarrow> u32 list \<Rightarrow> bool" where
  "radar_train rs freq ws \<longleftrightarrow> 2 \<le> length ws \<and> pulse_rep (ws ! 0) = 0 \<and>
     rs_pri_min rs \<le> pulse_rep (ws ! 1) \<and> pulse_rep (ws ! 1) \<le> rs_pri_max rs \<and>
     burst_thresh rs (unat (pulse_rep (ws ! 1))) \<le> length ws \<and>
     (\<forall>w \<in> set (tl ws). unat (pulse_rep w) \<le> unat (pulse_rep (ws ! 1)) + 16 \<and> unat (pulse_rep (ws ! 1)) \<le> unat (pulse_rep w) + 16) \<and>
     (\<forall>w \<in> set ws. pulse_freq w = pulse_freq (ws ! 0) \<and>
        ucast (rs_width_min rs) \<le> pulse_len w * 2 \<and> pulse_len w * 2 \<le> ucast (rs_width_max rs))"

lemma train_found:
  assumes mem: "\<forall>n. re_mem env n \<noteq> None" and ok: "radar_ok rd" and busy: "busy rd" and dpd: "dpd_at RWNX_RADAR_RIU rd = Some dpd"
    and region: "dpd_region dpd \<noteq> NL80211_DFS_UNSET" and i: "i < dpd_num_radar_types dpd" "dpd_radar_spec dpd ! i = rs"
    and short: "rs_type rs \<noteq> RADAR_WAVEFORM_LONG" and train: "radar_train rs freq ws"
    and time: "unat (overflow_time (re_usecs env) (re_now env) dpd) + 2 ^ 27 < 2 ^ 64"
  shows "found_from env RWNX_RADAR_RIU (pulse_chan freq (ws ! 0)) rd (dpd_enabled dpd) (pulses_loop env RWNX_RADAR_RIU freq ws rd)"
proof -
  have lt: "RWNX_RADAR_RIU < 2" by (simp add: RWNX_RADAR_RIU_def)
  obtain w0 w1 ws' where ws: "ws = w0 # w1 # ws'" using train by (cases ws; cases "tl ws") (auto simp: radar_train_def)
  let ?p = "unat (pulse_rep w1)" and ?f = "pulse_chan freq w0"
  have t: "pulse_rep w0 = 0" "rs_pri_min rs \<le> pulse_rep w1" "pulse_rep w1 \<le> rs_pri_max rs" "burst_thresh rs ?p \<le> length ws"
    "\<forall>w \<in> set (w1 # ws'). train_pulse rs ?p freq ?f w" "ucast (rs_width_min rs) \<le> pulse_len w0 * 2" "pulse_len w0 * 2 \<le> ucast (rs_width_max rs)"
    using train by (auto simp: radar_train_def ws train_pulse_def)
  have p: "unat (rs_pri_min rs) \<le> ?p" "?p \<le> unat (rs_pri_max rs)" using t(2,3) by (simp_all add: word_le_nat_alt)
  obtain dpd0 hit dpd1 pl1 a b where x: "dpd_at RWNX_RADAR_RIU rd = Some dpd0" "dpd_wf dpd0" "pools_ok (a @ dpd_pdes dpd0 @ b) (rd_pools rd)"
    "dfs_pattern_detector_add_pulse (re_mem env) (re_usecs env) (re_jiffies env) dpd0 ?f
      (pulse_rep w0) (pulse_len w0 * 2) (re_now env) (rd_pools rd) = Some (hit, dpd1, pl1)"
    "radar_ok ((dpd_put RWNX_RADAR_RIU dpd1 rd)\<lparr>rd_pools := pl1\<rparr>)"
    "dpd_at RWNX_RADAR_RIU ((dpd_put RWNX_RADAR_RIU dpd1 rd)\<lparr>rd_pools := pl1\<rparr>) = Some dpd1"
    "same_report rd ((dpd_put RWNX_RADAR_RIU dpd1 rd)\<lparr>rd_pools := pl1\<rparr>)"
    "pulses_loop env RWNX_RADAR_RIU freq (w0 # w1 # ws') rd =
      (if hit then pulse_found env RWNX_RADAR_RIU ?f ((dpd_put RWNX_RADAR_RIU dpd1 rd)\<lparr>rd_pools := pl1\<rparr>)
       else pulses_loop env RWNX_RADAR_RIU freq (w1 # ws') ((dpd_put RWNX_RADAR_RIU dpd1 rd)\<lparr>rd_pools := pl1\<rparr>))"
    by (rule pulses_loop_step [OF ok lt mem busy, where freq = freq and w = w0 and ws = "w1 # ws'"])
  let ?rd = "(dpd_put RWNX_RADAR_RIU dpd1 rd)\<lparr>rd_pools := pl1\<rparr>"
  have d0: "dpd0 = dpd" using x(1) dpd by simp
  have en: "dpd_enabled dpd1 = dpd_enabled dpd" using add_pulse_enabled [OF x(4)] d0 by simp
  have "rs \<in> set radar_specs" using x(2) i d0 by (auto simp: dpd_wf_def dest: nth_mem)
  then have s: "short_spec rs" using short_specs short by blast
  show ?thesis
  proof (cases hit)
    case True
    with x(5-8) en show ?thesis by (auto simp: found_from_def ws)
  next
    case False
    have after: "after_pulses rs ?p ?f i [overflow_time (re_usecs env) (re_now env) dpd] dpd1"
      using train_start [OF mem s p x(2) [unfolded d0] i region x(3) [unfolded d0] time t(6,7)] x(4) d0 False t(1) by auto
    have "found_from env RWNX_RADAR_RIU ?f ?rd (dpd_enabled dpd1) (pulses_loop env RWNX_RADAR_RIU freq (w1 # ws') ?rd)"
      using t(4,5) busy x(7) by (intro train_hits [OF mem s p lt x(5) _ x(6) after]) (simp_all add: ws busy_def same_report_def)
    with x(7,8) False en show ?thesis by (auto simp: found_from_def same_report_def ws)
  qed
qed

end
