(* ===== verification/Aic_Radar_Alarm.thy ===== *)
theory Aic_Radar_Alarm
  imports Aic_Radar_Burst
begin

text \<open>
  What a detection of a short detector means: enough of the pulses it was given lie within the duration
  of one burst, each of them at nearly a multiple of the interval before another one.
\<close>

section \<open>Times in descending order\<close>

lemma descending_length:
  "sorted_wrt (>) (xs :: u64 list) \<Longrightarrow> xs \<noteq> [] \<Longrightarrow> unat (last xs) + length xs \<le> unat (hd xs) + 1"
proof (induction xs)
  case (Cons x xs)
  show ?case
  proof (cases "xs = []")
    case False
    then have "hd xs < x" using Cons.prems(1) by simp
    then have "unat (hd xs) < unat x" by (simp add: word_less_nat_alt)
    with Cons False show ?thesis by simp
  qed simp
qed simp

section \<open>The queue\<close>

definition queue_ok :: "radar_detector_specs \<Rightarrow> u64 list \<Rightarrow> pri_detector \<Rightarrow> bool" where
  "queue_ok rs hs pde \<longleftrightarrow> sorted_wrt (>) (pde_pulses pde) \<and> set (pde_pulses pde) \<subseteq> set hs \<and>
     pde_count pde = of_nat (length (pde_pulses pde)) \<and> (pde_pulses pde \<noteq> [] \<longrightarrow> pde_last_ts pde = hd (pde_pulses pde)) \<and>
     unat (pde_max_count pde) = 2 * unat (rs_ppb rs)"

lemma queue_shorter:
  assumes "queue_ok rs hs pde" and "pde_pulses pde' = butlast (pde_pulses pde)" and "pde_count pde' = pde_count pde - 1"
    and "pde_pulses pde \<noteq> []" and "pde_last_ts pde' = pde_last_ts pde" and "pde_max_count pde' = pde_max_count pde"
  shows "queue_ok rs hs pde'"
proof -
  obtain xs x where x: "pde_pulses pde = xs @ [x]" using assms(4) by (cases "pde_pulses pde" rule: rev_exhaust) auto
  have "(of_nat (length xs) + 1 - 1 :: u32) = of_nat (length xs)" by simp
  then show ?thesis using assms x by (auto simp: queue_ok_def sorted_wrt_append)
qed

lemma dequeue_ok:
  assumes d: "pulse_queue_dequeue pde pl = (b, pde', pl')" and ok: "queue_ok rs hs pde"
  shows "queue_ok rs hs pde' \<and> length (pde_pulses pde') = length (pde_pulses pde) - 1"
proof (cases "pde_pulses pde = []")
  case True
  with d ok show ?thesis by (auto simp: pulse_queue_dequeue_def pulse_queue_get_tail_def)
next
  case False
  then have e: "pde' = pde\<lparr>pde_pulses := butlast (pde_pulses pde), pde_count := pde_count pde - 1\<rparr>"
    using d by (auto simp: pulse_queue_dequeue_def pulse_queue_get_tail_def Let_def)
  have "queue_ok rs hs pde'" by (rule queue_shorter [OF ok]) (use e False in simp_all)
  with e show ?thesis by simp
qed

lemma window_ok: "window_loop m pde pl = (pde', pl') \<Longrightarrow> queue_ok rs hs pde \<Longrightarrow>
   queue_ok rs hs pde' \<and> length (pde_pulses pde') \<le> length (pde_pulses pde)"
proof (induction m pde pl rule: window_loop.induct)
  case (1 m pde pl)
  show ?case
  proof (cases "pulse_queue_get_tail pde")
    case None
    with 1 show ?thesis by (simp add: window_loop.simps)
  next
    case (Some ts)
    obtain b pde1 pl1 where d: "pulse_queue_dequeue pde pl = (b, pde1, pl1)" by (cases "pulse_queue_dequeue pde pl") auto
    show ?thesis
    proof (cases "ts \<ge> m")
      case True
      with 1 Some show ?thesis by (simp add: window_loop.simps)
    next
      case False
      with 1(2) Some d have "window_loop m pde1 pl1 = (pde', pl')" by (subst (asm) window_loop.simps) simp
      from 1(1) [OF Some False refl d [symmetric] refl this] dequeue_ok [OF d 1(3)] show ?thesis by auto
    qed
  qed
qed

lemma enqueue_ok:
  assumes e: "pulse_queue_enqueue mem pde ts pl = (b, pde', pl')" and ok: "queue_ok rs hs pde"
    and new: "\<forall>x \<in> set (pde_pulses pde). x < ts" and len: "length (pde_pulses pde) < 2 * unat (rs_ppb rs)"
  shows "queue_ok rs (ts # hs) pde' \<and> length (pde_pulses pde') < 2 * unat (rs_ppb rs)"
proof -
  let ?q = "pde\<lparr>pde_pulses := ts # pde_pulses pde, pde_count := pde_count pde + 1, pde_last_ts := ts\<rparr>"
  have q: "queue_ok rs (ts # hs) ?q" using ok new by (auto simp: queue_ok_def add.commute)
  have same: "queue_ok rs (ts # hs) pde" using ok by (auto simp: queue_ok_def)
  obtain p pl1 where g: "(let (p, pl) = pool_get_pulse_elem pl in
     if p then (True, pl)
     else (case mem (pl_calls pl) of
        None \<Rightarrow> (False, pl\<lparr>pl_calls := pl_calls pl + 1\<rparr>)
      | Some _ \<Rightarrow> (True, pl\<lparr>pl_calls := pl_calls pl + 1, pl_owned_pulses := pl_owned_pulses pl + 1\<rparr>))) = (p, pl1)"
    by fastforce
  obtain pde2 pl2 where w: "pulse_queue_check_window ?q pl1 = (pde2, pl2)" by fastforce
  have eq: "pulse_queue_enqueue mem pde ts pl = (if \<not> p then (False, pde, pl1)
      else if pde_count pde2 \<ge> pde_max_count pde2 then (True, snd (pulse_queue_dequeue pde2 pl2)) else (True, pde2, pl2))"
    using g w unfolding pulse_queue_enqueue_def Let_def by (auto split: prod.splits)
  have 2: "queue_ok rs (ts # hs) pde2 \<and> length (pde_pulses pde2) \<le> Suc (length (pde_pulses pde))"
    using w window_ok [of _ ?q pl1 pde2 pl2 rs "ts # hs"] q by (auto simp: pulse_queue_check_window_def split: if_splits)
  have ppb: "unat (rs_ppb rs) < 2 ^ LENGTH(8)" by (rule unsigned_less)
  then have cnt: "unat (pde_count pde2) = length (pde_pulses pde2)" "unat (pde_max_count pde2) = 2 * unat (rs_ppb rs)"
    using 2 len by (simp_all add: queue_ok_def unat_of_nat)
  show ?thesis
  proof (cases p)
    case True
    obtain c pde3 pl3 where d: "pulse_queue_dequeue pde2 pl2 = (c, pde3, pl3)" by (cases "pulse_queue_dequeue pde2 pl2") auto
    show ?thesis using e eq True d dequeue_ok [OF d conjunct1 [OF 2]] 2 cnt len
      by (auto simp: word_le_nat_alt split: if_splits)
  qed (use e eq same len in auto)
qed

section \<open>Sequences\<close>

definition follows_one :: "u32 \<Rightarrow> u64 list \<Rightarrow> u64 \<Rightarrow> bool" where
  "follows_one pri xs x \<longleftrightarrow> (\<exists>y \<in> set xs. x < y \<and> 0 < pde_get_multiple (ucast (y - x)) pri 16)"

definition burst_of :: "radar_detector_specs \<Rightarrow> pri_sequence \<Rightarrow> u64 list \<Rightarrow> bool" where
  "burst_of rs s xs \<longleftrightarrow> xs \<noteq> [] \<and> hd xs = ps_last_ts s \<and> last xs = ps_first_ts s \<and> length xs = unat (ps_count s) \<and>
     sorted_wrt (>) xs \<and> (\<forall>x \<in> set (tl xs). follows_one (ps_pri s) xs x) \<and>
     unat (rs_pri_min rs) \<le> unat (ps_pri s) \<and> unat (ps_pri s) \<le> unat (rs_pri_max rs) \<and>
     unat (ps_deadline_ts s) = unat (ps_first_ts s) + unat (ps_pri s) * (unat (rs_ppb rs) - 1) + 32 \<and>
     ps_last_ts s \<le> ps_deadline_ts s \<and> unat (ps_ppb_thresh s) = burst_thresh rs (unat (ps_pri s))"

text \<open>The pulses that the loop over the queue has counted.\<close>

definition counted :: "u64 \<Rightarrow> u32 \<Rightarrow> u64 \<Rightarrow> u64 list \<Rightarrow> pri_sequence \<Rightarrow> bool" where
  "counted ts pri m xs s \<longleftrightarrow> xs \<noteq> [] \<and> hd xs = ts \<and> last xs = ps_first_ts s \<and> length xs = unat (ps_count s) \<and>
     (\<forall>x \<in> set (tl xs). m \<le> x \<and> 0 < pde_get_multiple (ucast (ts - x)) pri 16)"

lemma sequence_loop_counted:
  "counted ts pri m xs s \<Longrightarrow> sorted_wrt (>) (xs @ rest) \<Longrightarrow> length xs + length rest < 2 ^ 32 \<Longrightarrow>
   \<exists>ys. set ys \<subseteq> set rest \<and> sorted_wrt (>) (xs @ ys) \<and> counted ts pri m (xs @ ys) (sequence_loop m pri 16 ts rest s tmp) \<and>
     ps_pri (sequence_loop m pri 16 ts rest s tmp) = ps_pri s \<and> ps_last_ts (sequence_loop m pri 16 ts rest s tmp) = ps_last_ts s"
proof (induction rest arbitrary: xs s tmp)
  case Nil
  then show ?case by (intro exI [of _ "[]"]) simp
next
  case (Cons p2 rest)
  show ?case
  proof (cases "p2 < m")
    case True
    with Cons.prems show ?thesis by (intro exI [of _ "[]"]) (simp add: sorted_wrt_append)
  next
    case keep: False
    show ?thesis
    proof (cases "pde_get_multiple (ucast (ts - p2)) pri 16 > 0")
      case True
      let ?s = "s\<lparr>ps_count := ps_count s + 1, ps_first_ts := p2, ps_count_falses := ps_count_falses s + tmp\<rparr>"
      have "unat (ps_count s + 1) = unat (ps_count s) + 1" using Cons.prems(1,3) by (simp add: counted_def unat_word_ariths(1))
      then have "counted ts pri m (xs @ [p2]) ?s" using Cons.prems(1) keep True by (auto simp: counted_def)
      from Cons.IH [OF this, of 0] Cons.prems(2,3) obtain ys where "set ys \<subseteq> set rest" "sorted_wrt (>) ((xs @ [p2]) @ ys)"
        "counted ts pri m ((xs @ [p2]) @ ys) (sequence_loop m pri 16 ts rest ?s 0)"
        "ps_pri (sequence_loop m pri 16 ts rest ?s 0) = ps_pri s" "ps_last_ts (sequence_loop m pri 16 ts rest ?s 0) = ps_last_ts s"
        by auto
      with keep True show ?thesis by (intro exI [of _ "p2 # ys"]) auto
    next
      case False
      let ?r = "sequence_loop m pri 16 ts rest s (tmp + 1)"
      have "sorted_wrt (>) (xs @ rest)" "length xs + length rest < 2 ^ 32" using Cons.prems(2,3) by (simp_all add: sorted_wrt_append)
      from Cons.IH [OF Cons.prems(1) this, of "tmp + 1"] obtain ys where "set ys \<subseteq> set rest" "sorted_wrt (>) (xs @ ys)"
        "counted ts pri m (xs @ ys) ?r" "ps_pri ?r = ps_pri s" "ps_last_ts ?r = ps_last_ts s" by blast
      moreover have "sequence_loop m pri 16 ts (p2 # rest) s tmp = ?r" using keep False by simp
      ultimately show ?thesis by (intro exI [of _ ys]) auto
    qed
  qed
qed

lemma new_sequence_burst:
  assumes s: "short_spec rs" and ts: "p < ts" "unat ts < unat p + 2 ^ 32" "unat ts + 2 ^ 27 < 2 ^ 64"
    and pri: "\<not> (ucast (ts - p) :: u32) < ucast (rs_pri_min rs)" "\<not> (ucast (ts - p) :: u32) > ucast (rs_pri_max rs)"
    and rest: "sorted_wrt (>) (p # rest)" "length rest < 2 ^ 10"
  shows "\<exists>xs. burst_of rs (new_sequence rs ts i p rest) xs \<and> set xs \<subseteq> insert ts (set (p # rest))"
proof -
  let ?d = "ucast (ts - p) :: u32" and ?n = "unat ts - unat p"
  have d: "unat ?d = ?n" using ts(1,2) by (intro unat_delta) (auto simp: word_less_nat_alt)
  have range: "unat (rs_pri_min rs) \<le> ?n" "?n \<le> unat (rs_pri_max rs)" using pri d by (simp_all add: word_less_nat_alt)
  note b = burst_thresh_bounds [OF s range]
  have small: "?n * (unat (rs_ppb rs) - 1) < 2 ^ 25" using window_covers(3) [OF s range, of 0] b(1) by simp
  obtain dur th q where n: "unat (dur :: u32) = ?n * (unat (rs_ppb rs) - 1) + 32" "unat (th :: u8) = burst_thresh rs ?n"
    "q = sequence_loop (if ucast dur > ts then 0 else ts - ucast dur) ?d 16 ts rest
       \<lparr>ps_pri = ?d, ps_dur = dur, ps_count = 2, ps_count_falses = ucast i - 1, ps_first_ts = p,
        ps_last_ts = ts, ps_deadline_ts = 0, ps_ppb_thresh = 0\<rparr> 0"
    "new_sequence rs ts i p rest = q\<lparr>ps_deadline_ts := ps_first_ts q + ucast dur, ps_ppb_thresh := th\<rparr>"
    by (rule new_sequence_numbers [OF s d range])
  let ?m = "if ucast dur > ts then 0 else ts - ucast dur"
  let ?z = "\<lparr>ps_pri = ?d, ps_dur = dur, ps_count = 2, ps_count_falses = ucast i - 1, ps_first_ts = p,
        ps_last_ts = ts, ps_deadline_ts = 0, ps_ppb_thresh = 0\<rparr>"
  have since: "unat ts \<le> unat x + unat dur" if "?m \<le> x" for x
    using that by (auto simp: word_le_nat_alt word_less_nat_alt unat_sub split: if_splits)
  have "1 \<le> unat (rs_ppb rs) - 1" using b(1,3) by linarith
  then have "?n * 1 \<le> ?n * (unat (rs_ppb rs) - 1)" by (rule mult_le_mono2)
  then have "?n \<le> ?n * (unat (rs_ppb rs) - 1) + 32" by (simp only: mult_1_right trans_le_add1)
  then have "?n \<le> unat dur" by (simp only: n(1))
  then have mp: "?m \<le> p" using ts(1) by (auto simp: word_le_nat_alt word_less_nat_alt unat_sub)
  have "pde_get_multiple ?d ?d 16 = 1" using d b(4) by (intro multiple_near) simp_all
  then have c: "counted ts ?d ?m [ts, p] ?z" using mp by (simp add: counted_def)
  have "sorted_wrt (>) ([ts, p] @ rest)" using rest(1) ts(1) by auto
  from sequence_loop_counted [OF c this, of 0] rest(2) n(3) obtain ys where ys: "set ys \<subseteq> set rest"
    "sorted_wrt (>) ([ts, p] @ ys)" "counted ts ?d ?m ([ts, p] @ ys) q" "ps_pri q = ?d" "ps_last_ts q = ts" by auto
  let ?xs = "[ts, p] @ ys"
  have first: "?m \<le> ps_first_ts q" "ps_first_ts q \<in> set (tl ?xs)" using ys(3) last_in_set [of "tl ?xs"] by (auto simp: counted_def split: if_splits)
  have "ps_first_ts q < ts" using first(2) ys(2) by auto
  then have dl: "unat (ps_first_ts q + ucast dur) = unat (ps_first_ts q) + unat dur"
    using ts(3) n(1) small by (simp add: unat_word_ariths(1) word_less_nat_alt)
  then have "ts \<le> ps_first_ts q + ucast dur" using since [OF first(1)] by (simp add: word_le_nat_alt)
  moreover have "\<forall>x \<in> set (tl ?xs). follows_one ?d ?xs x" using ys(2,3) by (auto simp: follows_one_def counted_def)
  ultimately have "burst_of rs (new_sequence rs ts i p rest) ?xs"
    using ys n(1,2,4) d range dl by (simp add: burst_of_def counted_def)
  with ys(1) show ?thesis by (intro exI [of _ ?xs]) auto
qed

lemma multiple_zero:
  assumes "\<not> pri \<le> 16"
  shows "pde_get_multiple 0 pri 16 = 0"
proof -
  have "0 < pri" "pri \<noteq> 0" using assms by (auto simp: word_le_nat_alt word_less_nat_alt)
  with assms show ?thesis by (simp add: pde_get_multiple_def)
qed

text \<open>What is known of the sequences of a detector.\<close>

definition bursts :: "radar_detector_specs \<Rightarrow> u64 list \<Rightarrow> pri_sequence list \<Rightarrow> bool" where
  "bursts rs hs seqs \<longleftrightarrow> (\<forall>s \<in> set seqs. \<exists>xs. burst_of rs s xs \<and> set xs \<subseteq> set hs)"

lemma create_bursts:
  "create_loop mem rs ts mc i ps seqs pl = (ok, seqs', pl') \<Longrightarrow> short_spec rs \<Longrightarrow> unat ts + 2 ^ 27 < 2 ^ 64 \<Longrightarrow>
   \<forall>p \<in> set ps. p < ts \<and> unat ts < unat p + 2 ^ 32 \<Longrightarrow> sorted_wrt (>) ps \<Longrightarrow> length ps < 2 ^ 10 \<Longrightarrow>
   insert ts (set ps) \<subseteq> set hs \<Longrightarrow> bursts rs hs seqs \<Longrightarrow> bursts rs hs seqs'"
proof (induction ps arbitrary: i seqs pl)
  case (Cons p ps)
  let ?n = "new_sequence rs ts (i + 1) p ps"
  have IH: "bursts rs hs seqs'" if "create_loop mem rs ts mc (i + 1) ps s2 pl2 = (ok, seqs', pl')" "bursts rs hs s2" for s2 pl2
    using Cons.IH [OF that(1)] Cons.prems(2-7) that(2) by simp
  show ?case
  proof (cases "ucast (ts - p) < (ucast (rs_pri_min rs) :: u32) \<or> ucast (ts - p) > (ucast (rs_pri_max rs) :: u32) \<or> ps_count ?n \<le> mc")
    case True
    with Cons.prems(1,8) IH show ?thesis by (auto simp: Let_def split: if_splits)
  next
    case False
    then obtain xs where "burst_of rs ?n xs" "set xs \<subseteq> insert ts (set (p # ps))"
      using new_sequence_burst [of rs p ts ps "i + 1"] Cons.prems(2-6) by auto
    then have "bursts rs hs (?n # seqs)" using Cons.prems(7,8) by (auto simp: bursts_def)
    with False Cons.prems(1,8) IH show ?thesis by (auto simp: Let_def split: option.splits prod.splits)
  qed
qed simp

text \<open>A pulse that matches extends the burst.\<close>

lemma burst_extend:
  assumes s: "short_spec rs" and xs: "burst_of rs q xs" and le: "ps_last_ts q \<le> ts" and dl: "\<not> ts > ps_deadline_ts q"
    and hit: "0 < pde_get_multiple (ucast (ts - ps_last_ts q)) (ps_pri q) 16"
  shows "burst_of rs (q\<lparr>ps_last_ts := ts, ps_count := ps_count q + 1\<rparr>) (ts # xs)"
proof -
  have range: "unat (rs_pri_min rs) \<le> unat (ps_pri q)" "unat (ps_pri q) \<le> unat (rs_pri_max rs)" using xs by (auto simp: burst_of_def)
  note b = burst_thresh_bounds [OF s range]
  have "\<not> ps_pri q \<le> 16" using b(4) by (simp add: word_le_nat_alt)
  then have "ps_last_ts q \<noteq> ts" using hit multiple_zero by auto
  then have lt: "ps_last_ts q < ts" using le by simp
  then have desc: "sorted_wrt (>) (ts # xs)" using xs by (cases xs) (auto simp: burst_of_def)
  have "unat (last xs) + length xs \<le> unat (hd xs) + 1" using xs by (intro descending_length) (auto simp: burst_of_def)
  moreover have "unat (ps_pri q) * (unat (rs_ppb rs) - 1) < 2 ^ 25" using window_covers(3) [OF s range, of 0] b(1) by simp
  then have "unat (hd xs) < unat (last xs) + 2 ^ 26" using xs by (auto simp: burst_of_def word_le_nat_alt)
  ultimately have "length xs < 2 ^ 27" by simp
  then have cnt: "unat (ps_count q + 1) = Suc (length xs)" using xs by (simp add: burst_of_def unat_word_ariths(1))
  have f: "follows_one (ps_pri q) (ts # xs) x" if "x \<in> set xs" for x
  proof (cases "x = hd xs")
    case True
    then show ?thesis using hit lt xs by (auto simp: follows_one_def burst_of_def)
  next
    case False
    then have "x \<in> set (tl xs)" using that by (cases xs) auto
    then show ?thesis using xs by (auto simp: burst_of_def follows_one_def)
  qed
  show ?thesis using xs desc f cnt dl by (auto simp: burst_of_def)
qed

lemma existing_bursts:
  assumes "existing_loop 16 ts seqs mc pl = (mc', seqs', pl')" and s: "short_spec rs"
    and "bursts rs hs seqs" and "\<forall>h \<in> set hs. h \<le> ts"
  shows "bursts rs (ts # hs) seqs'"
  using assms(1,3)
proof (induction seqs arbitrary: mc pl seqs' mc' pl')
  case (Cons ps seqs)
  have bs: "bursts rs hs seqs" using Cons.prems(2) by (simp add: bursts_def)
  show ?case
  proof (cases "ts > ps_deadline_ts ps")
    case True
    with Cons.prems(1) Cons.IH [OF _ bs] show ?thesis by simp
  next
    case False
    obtain xs where xs: "burst_of rs ps xs" "set xs \<subseteq> set hs" using Cons.prems(2) by (auto simp: bursts_def)
    obtain ps2 mc2 where u: "(if pde_get_multiple (ucast (ts - ps_last_ts ps)) (ps_pri ps) 16 > 0
        then (let ps = ps\<lparr>ps_last_ts := ts, ps_count := ps_count ps + 1\<rparr>
              in (ps, if mc < ps_count ps then ps_count ps else mc))
        else (ps\<lparr>ps_count_falses := ps_count_falses ps + 1\<rparr>, mc)) = (ps2, mc2)" by fastforce
    obtain mc3 seqs3 pl3 where e: "existing_loop 16 ts seqs mc2 pl = (mc3, seqs3, pl3)" by (cases "existing_loop 16 ts seqs mc2 pl") auto
    have r: "seqs' = ps2 # seqs3" using Cons.prems(1) False u e by (auto simp: Let_def split: if_splits)
    have "\<exists>ys. burst_of rs ps2 ys \<and> set ys \<subseteq> set (ts # hs)"
    proof (cases "pde_get_multiple (ucast (ts - ps_last_ts ps)) (ps_pri ps) 16 > 0")
      case True
      have "ps_last_ts ps \<le> ts" using xs assms(4) by (auto simp: burst_of_def dest!: hd_in_set)
      from burst_extend [OF s xs(1) this False True] u True have "burst_of rs ps2 (ts # xs)" by (simp add: Let_def)
      with xs(2) show ?thesis by (intro exI [of _ "ts # xs"]) auto
    next
      case miss: False
      then have "burst_of rs ps2 xs" using xs(1) u by (auto simp: burst_of_def)
      with xs(2) show ?thesis by auto
    qed
    with r Cons.IH [OF e bs] show ?thesis by (simp add: bursts_def)
  qed
qed (simp add: bursts_def)

section \<open>A detector over time\<close>

text \<open>
  The pulse comes after the others, less than \<open>2 ^ 32\<close> microseconds after any that is still queued,
  and before the clock overflows.
\<close>

definition pulse_follows :: "u64 list \<Rightarrow> pri_detector \<Rightarrow> u64 \<Rightarrow> bool" where
  "pulse_follows hs pde ts \<longleftrightarrow> (\<forall>h \<in> set hs. h \<le> ts) \<and> (\<forall>x \<in> set (pde_pulses pde). unat ts < unat x + 2 ^ 32) \<and>
     unat ts + 2 ^ 27 < 2 ^ 64"

text \<open>The pulses given to a detector since it was made or reset, the newest first; none was reported.\<close>

inductive short_run :: "radar_detector_specs \<Rightarrow> u64 list \<Rightarrow> pri_detector \<Rightarrow> bool" for rs where
  fresh: "pde_kind pde = kind_of rs \<Longrightarrow> pde_sequences pde = [] \<Longrightarrow> pde_pulses pde = [] \<Longrightarrow> pde_count pde = 0 \<Longrightarrow> short_run rs [] pde"
| pulse: "short_run rs hs pde \<Longrightarrow> pulse_follows hs pde ts \<Longrightarrow> pde_short_add_pulse mem pde ts pl = (None, pde', pl') \<Longrightarrow>
    short_run rs (ts # hs) pde'"

inductive_cases short_run_Cons: "short_run rs (h # hs) pde"

definition detector_ok :: "radar_detector_specs \<Rightarrow> u64 list \<Rightarrow> pri_detector \<Rightarrow> bool" where
  "detector_ok rs hs pde \<longleftrightarrow> pde_rs pde = rs \<and> queue_ok rs hs pde \<and> length (pde_pulses pde) < 2 * unat (rs_ppb rs) \<and>
     bursts rs hs (pde_sequences pde)"

lemma kind_rs: "pde_kind pde = kind_of rs \<Longrightarrow> pde_rs pde = rs"
  by (simp add: pde_kind_def kind_of_def ops_init_def pde_short_init_def pde_long_init_def split: if_splits)

lemma bursts_mono: "bursts rs hs seqs \<Longrightarrow> set hs \<subseteq> set hs' \<Longrightarrow> bursts rs hs' seqs"
  by (fastforce simp: bursts_def)

text \<open>A pulse later than those queued goes into the queue.\<close>

lemma enqueue_detector:
  assumes ok: "detector_ok rs hs pde" and e: "pulse_queue_enqueue mem (pde\<lparr>pde_sequences := seqs\<rparr>) ts pl = (c, pde', pl')"
    and bs: "bursts rs (ts # hs) seqs" and new: "\<forall>x \<in> set (pde_pulses pde). x < ts"
  shows "detector_ok rs (ts # hs) pde'"
proof -
  have "queue_ok rs hs (pde\<lparr>pde_sequences := seqs\<rparr>)" using ok by (simp add: detector_ok_def queue_ok_def)
  from enqueue_ok [OF e this] new ok enqueue_frame [OF e] bs show ?thesis by (simp add: detector_ok_def queue_frame_def)
qed

lemma detector_later: "detector_ok rs hs pde \<Longrightarrow> detector_ok rs (ts # hs) pde"
  using bursts_mono [of rs hs "pde_sequences pde" "ts # hs"] by (auto simp: detector_ok_def queue_ok_def)

text \<open>A pulse that is later than the newest one queued by the tolerance is later than all.\<close>

lemma later_than_queue:
  assumes s: "short_spec rs" and ok: "detector_ok rs hs pde" and f: "pulse_follows hs pde ts"
    and "pde_count pde \<noteq> 0" and "\<not> ts - pde_last_ts pde < ucast (rs_max_pri_tolerance (pde_rs pde))"
  shows "\<forall>x \<in> set (pde_pulses pde). x < ts \<and> unat ts < unat x + 2 ^ 32"
proof -
  have q: "queue_ok rs hs pde" "pde_rs pde = rs" using ok by (simp_all add: detector_ok_def)
  have nonempty: "pde_pulses pde \<noteq> []" using q assms(4) by (auto simp: queue_ok_def)
  then have hd: "hd (pde_pulses pde) \<in> set hs" "pde_last_ts pde = hd (pde_pulses pde)" using q by (auto simp: queue_ok_def)
  have "pde_last_ts pde \<noteq> ts" using assms(5) q(2) s by (auto simp: short_spec_def)
  then have "hd (pde_pulses pde) < ts" using hd f by (force simp: pulse_follows_def)
  then have "\<forall>x \<in> set (pde_pulses pde). x < ts" using q nonempty by (cases "pde_pulses pde") (auto simp: queue_ok_def)
  with f show ?thesis by (simp add: pulse_follows_def)
qed

lemma detector_small: "detector_ok rs hs pde \<Longrightarrow> unat (pde_count pde) = length (pde_pulses pde) \<and> length (pde_pulses pde) < 2 ^ 10"
proof -
  assume ok: "detector_ok rs hs pde"
  have "unat (rs_ppb rs) < 2 ^ LENGTH(8)" by (rule unsigned_less)
  with ok show ?thesis by (simp add: detector_ok_def queue_ok_def unat_of_nat)
qed

text \<open>The sequences of a pulse that is compared with those before it.\<close>

lemma compare_bursts:
  assumes s: "short_spec rs" and ok: "detector_ok rs hs pde" and f: "pulse_follows hs pde ts"
    and new: "\<forall>x \<in> set (pde_pulses pde). x < ts \<and> unat ts < unat x + 2 ^ 32"
    and x: "existing_loop 16 ts (pde_sequences pde) 0 pl = (mc, seqs, pl1)"
    and c: "create_loop mem rs ts mc 0 (pde_pulses pde) seqs pl1 = (cok, seqs', pl2)"
  shows "bursts rs (ts # hs) seqs'"
proof -
  have q: "queue_ok rs hs pde" and b: "bursts rs hs (pde_sequences pde)" using ok by (simp_all add: detector_ok_def)
  have le: "\<forall>h \<in> set hs. h \<le> ts" and big: "unat ts + 2 ^ 27 < 2 ^ 64" using f by (simp_all add: pulse_follows_def)
  have "insert ts (set (pde_pulses pde)) \<subseteq> set (ts # hs)" "sorted_wrt (>) (pde_pulses pde)" using q by (auto simp: queue_ok_def)
  then show ?thesis
    using create_bursts [OF c s big new] detector_small [OF ok] existing_bursts [OF x s b le] by blast
qed

lemma add_pulse_burst:
  assumes s: "short_spec rs" and ok: "detector_ok rs hs pde" and f: "pulse_follows hs pde ts"
    and run: "pde_short_add_pulse mem pde ts pl = (r, pde', pl')"
  shows "(r = None \<longrightarrow> detector_ok rs (ts # hs) pde') \<and>
    (\<forall>q. r = Some q \<longrightarrow> sequence_complete rs q \<and> (\<exists>xs. burst_of rs q xs \<and> set xs \<subseteq> set (ts # hs)))"
proof (cases "pde_count pde = 0")
  case True
  then have "pde_pulses pde = []" using detector_small [OF ok] by simp
  moreover have "bursts rs (ts # hs) (pde_sequences pde)" using detector_later [OF ok] by (simp add: detector_ok_def)
  moreover obtain c where "pulse_queue_enqueue mem (pde\<lparr>pde_sequences := pde_sequences pde\<rparr>) ts pl = (c, pde', pl')" "r = None"
    using run True by (auto simp: pde_short_add_pulse_def split: prod.splits)
  ultimately show ?thesis using enqueue_detector [OF ok, where seqs = "pde_sequences pde"] by simp
next
  case busy: False
  have rs: "pde_rs pde = rs" and tol: "rs_max_pri_tolerance rs = 16" using ok s by (simp_all add: detector_ok_def short_spec_def)
  show ?thesis
  proof (cases "ts - pde_last_ts pde < ucast (rs_max_pri_tolerance (pde_rs pde))")
    case True
    with run busy detector_later [OF ok] show ?thesis by (simp add: pde_short_add_pulse_def)
  next
    case False
    note new = later_than_queue [OF s ok f busy False]
    obtain mc seqs pl2 where x: "existing_loop 16 ts (pde_sequences pde) 0 pl = (mc, seqs, pl2)"
      by (cases "existing_loop 16 ts (pde_sequences pde) 0 pl") auto
    obtain cok seqs' pl3 where c: "create_loop mem rs ts mc 0 (pde_pulses pde) seqs pl2 = (cok, seqs', pl3)"
      by (cases "create_loop mem rs ts mc 0 (pde_pulses pde) seqs pl2") auto
    note bs = compare_bursts [OF s ok f new x c]
    let ?p3 = "pde\<lparr>pde_sequences := seqs'\<rparr>"
    obtain c4 pde4 pl4 where e4: "pulse_queue_enqueue mem ?p3 ts pl3 = (c4, pde4, pl4)" by (cases "pulse_queue_enqueue mem ?p3 ts pl3") auto
    have cases: "(r, pde') = (if \<not> cok then (None, fst (pri_detector_reset ?p3 ts pl3))
        else case find (sequence_complete rs) seqs' of Some q \<Rightarrow> (Some q, ?p3) | None \<Rightarrow> (None, pde4))"
      using run busy False rs tol x c e4
      by (auto simp: pde_short_add_pulse_def pde_short_add_to_existing_seqs_def pde_short_create_sequences_def
        pde_short_check_detection_def Let_def split: option.splits prod.splits)
    have "detector_ok rs (ts # hs) (fst (pri_detector_reset ?p3 ts pl3))"
      using ok by (auto simp: detector_ok_def queue_ok_def bursts_def pri_detector_reset_def)
    moreover have "detector_ok rs (ts # hs) pde4" using enqueue_detector [OF ok e4 bs] new by blast
    ultimately show ?thesis using cases bs by (auto simp: bursts_def find_Some_iff split: if_splits option.splits)
  qed
qed

lemma short_run_ok: "short_run rs hs pde \<Longrightarrow> short_spec rs \<Longrightarrow> detector_ok rs hs pde"
proof (induction rule: short_run.induct)
  case (fresh pde)
  then have "rs_type rs \<noteq> RADAR_WAVEFORM_LONG" by (simp add: short_spec_def)
  then obtain q where "pde_max_count pde = pde_max_count (pde_short_init q)" "pde_rs q = rs" using kind_sizes [OF fresh(1)] by metis
  then show ?case using fresh short_ppb [OF fresh(5)] kind_rs [OF fresh(1)] short_sizes(2) by (simp add: detector_ok_def queue_ok_def bursts_def)
next
  case (pulse hs pde ts mem pl pde' pl')
  then show ?case using add_pulse_burst by blast
qed

end
