(* ===== verification/Aic_Radar_Correct.thy ===== *)
theory Aic_Radar_Correct
  imports Aic_Radar_Report Aic_Radar_Alarm
begin

text \<open>
  The properties of the radar detection: its memory, its rings, and what its detectors find.
\<close>

section \<open>A run\<close>

text \<open>
  The detection is set up for the region of the FCC, enabled on the first chain, with an availability
  check under way on interface 3; then three messages bring nine pulses 1428 microseconds apart.
\<close>

definition demo_mem :: "nat \<Rightarrow> pri_sequence option" where
  "demo_mem n = Some \<lparr>ps_pri = 0, ps_dur = 0, ps_count = 0, ps_count_falses = 0, ps_first_ts = 0, ps_last_ts = 0,
     ps_deadline_ts = 0, ps_ppb_thresh = 0\<rparr>"

definition demo_env :: radar_env where
  "demo_env = \<lparr>re_mem = demo_mem, re_usecs = (\<lambda>j. j * 4000), re_now = 100, re_jiffies = 100, re_secs = 5,
     re_chan = Some 5500, re_sec = 0\<rparr>"

definition demo_start :: "rwnx_radar option" where
  "demo_start = do {
     (ok, rd) \<leftarrow> rwnx_radar_detection_init demo_mem 0 radar_zero;
     (ok, rd) \<leftarrow> rwnx_radar_set_domain NL80211_DFS_FCC rd;
     rd \<leftarrow> rwnx_radar_detection_enable rd RWNX_RADAR_DETECT_REPORT RWNX_RADAR_RIU;
     Some ((rwnx_radar_start_cac (\<lambda>t. t) 60000 3 rd)\<lparr>rd_status := RWNX_RADAR_CAC_BUSY\<rparr>)
   }"

definition demo_msgs :: "u32 list list" where
  "demo_msgs = [[4096, 93589504, 93589504, 93589504, 0, 4], [93589504, 93589504, 93589504, 93589504, 0, 4],
     [93589504, 0, 0, 0, 0, 1]]"

fun radar_messages :: "u32 list list \<Rightarrow> rwnx_radar \<Rightarrow> rwnx_radar option" where
  "radar_messages [] rd = Some rd"
| "radar_messages (m # ms) rd = do {
     (r, rd) \<leftarrow> rwnx_radar_detect_ind m rd;
     radar_messages ms rd
   }"

definition demo_ready :: "rwnx_radar option" where
  "demo_ready = Option.bind demo_start (radar_messages demo_msgs)"

lemma demo_mem_there: "\<forall>n. demo_mem n \<noteq> None"
  by (simp add: demo_mem_def)

definition demo_dpd :: "u8 \<Rightarrow> radar_detector_specs list \<Rightarrow> dfs_pattern_detector" where
  "demo_dpd e spec = \<lparr>dpd_enabled = e, dpd_region = NL80211_DFS_FCC, dpd_num_radar_types = 7, dpd_last_pulse_ts = 0,
     dpd_prev_jiffies = 0, dpd_radar_spec = spec, dpd_detectors = replicate 8 []\<rparr>"

lemma radar_table_sizes:
  "length etsi_radar_ref_types_v17_riu = 7" "length fcc_radar_ref_types_riu = 7" "length jp_radar_ref_types_riu = 8"
  by (simp_all add: etsi_radar_ref_types_v17_riu_def fcc_radar_ref_types_riu_def jp_radar_ref_types_riu_def)

lemma max_radar_types: "get_dfs_max_radar_types = 8"
  by (simp add: get_dfs_max_radar_types_def dfs_domains_def etsi_radar_types_v17_def fcc_radar_types_def jp_radar_types_def radar_table_sizes)

lemma fcc_domain: "get_dfs_domain_radar_types NL80211_DFS_FCC = Some fcc_radar_types"
  by (simp add: get_dfs_domain_radar_types_def dfs_domains_def etsi_radar_types_v17_def fcc_radar_types_def jp_radar_types_def)

definition demo_rd :: rwnx_radar where
  "demo_rd = radar_zero\<lparr>rd_dpd := [Some (demo_dpd RWNX_RADAR_DETECT_REPORT fcc_radar_ref_types_riu),
       Some (demo_dpd RWNX_RADAR_DETECT_DISABLE fcc_radar_ref_types_fcu)],
     rd_status := RWNX_RADAR_CAC_BUSY, rd_cac_work := Some 60000, rd_cac_vif := Some 3,
     rd_pools := (rd_pools radar_zero)\<lparr>pl_calls := 2\<rparr>\<rparr>"

lemma demo_start_value: "demo_start = Some demo_rd"
  by (simp add: demo_rd_def demo_start_def rwnx_radar_detection_init_def dfs_pattern_detector_init_def dfs_pattern_detector_set_domain_def
    demo_mem_def radar_zero_def max_radar_types rwnx_radar_set_domain_def set_chain_def dpd_at_def dpd_put_def c_get_def Let_def
    fcc_domain exit_types_def fcc_radar_types_def radar_table_sizes rwnx_radar_detection_enable_def rwnx_radar_start_cac_def
    RWNX_RADAR_RIU_def RWNX_RADAR_FCU_def RWNX_RADAR_LAST_def demo_dpd_def)

section \<open>Messages\<close>

definition msg_pulses :: "u32 list \<Rightarrow> u32 list" where
  "msg_pulses msg = take (unat (msg ! (RADAR_PULSE_MAX + 1))) msg"

lemma detect_ind_ring:
  assumes ok: "radar_ok rd" and chain: "chain < 2" and d: "dpd_at chain rd = Some dpd" "dpd_enabled dpd \<noteq> RWNX_RADAR_DETECT_DISABLE"
    and m: "radar_msg_ok msg" "unat (msg ! RADAR_PULSE_MAX) = chain"
  shows "\<exists>r rd'. rwnx_radar_detect_ind msg rd = Some (r, rd') \<and> radar_ok rd' \<and>
    ring_contents (rd_pulses rd' ! chain) = last_32 (ring_contents (rd_pulses rd ! chain) @ msg_pulses msg) \<and>
    (\<exists>p w. rd' = rd\<lparr>rd_pulses := p, rd_work := w\<rparr>)"
proof -
  let ?n = "unat (msg ! (RADAR_PULSE_MAX + 1))"
  note ring = radar_ring [OF ok chain]
  have len: "chain < length (rd_pulses rd)" using ok chain by (simp add: radar_ok_def)
  obtain p where p: "ring_loop msg 0 ?n (rd_pulses rd ! chain) = Some p" "ring_ok p"
    "ring_contents p = last_32 (ring_contents (rd_pulses rd ! chain) @ msg_pulses msg)"
    using ring_loop_ok [OF ring(2), of 0 ?n msg] m by (auto simp: radar_msg_ok_def msg_pulses_def)
  show ?thesis
  proof (cases "msg ! (RADAR_PULSE_MAX + 1) = 0")
    case True
    have "length (ring_contents (rd_pulses rd ! chain)) \<le> 32" using ring(2) by (auto simp: ring_contents_def ring_ok_def)
    moreover have "\<exists>p w. rd = rd\<lparr>rd_pulses := p, rd_work := w\<rparr>"
      by (intro exI [of _ "rd_pulses rd"] exI [of _ "rd_work rd"]) simp
    ultimately show ?thesis using True ok m
      by (simp add: rwnx_radar_detect_ind_def radar_msg_ok_def c_get_def msg_pulses_def last_32_def)
  next
    case False
    let ?rd = "rd\<lparr>rd_pulses := (rd_pulses rd)[chain := p], rd_work := True\<rparr>"
    have "radar_ok ?rd" using radar_ok_pulses [OF ok p(2), of chain] by (simp add: radar_ok_def)
    moreover have "rwnx_radar_detect_ind msg rd = Some (0, ?rd)"
      using False m d p(1) ring(1) unat_chain8 [of "msg ! RADAR_PULSE_MAX"] chain
      by (simp add: rwnx_radar_detect_ind_def radar_msg_ok_def c_get_def rwnx_radar_detection_is_enable_def)
    moreover have "rd_pulses ?rd ! chain = p" using len by simp
    ultimately show ?thesis using p(3) by metis
  qed
qed

lemma messages_ring:
  assumes ok: "radar_ok rd" and chain: "chain < 2" and d: "dpd_at chain rd = Some dpd" "dpd_enabled dpd \<noteq> RWNX_RADAR_DETECT_DISABLE"
    and m: "\<forall>m \<in> set msgs. radar_msg_ok m \<and> unat (m ! RADAR_PULSE_MAX) = chain"
  shows "\<exists>rd'. radar_messages msgs rd = Some rd' \<and> radar_ok rd' \<and>
    ring_contents (rd_pulses rd' ! chain) = last_32 (ring_contents (rd_pulses rd ! chain) @ concat (map msg_pulses msgs)) \<and>
    (\<exists>p w. rd' = rd\<lparr>rd_pulses := p, rd_work := w\<rparr>)"
  using ok d m
proof (induction msgs arbitrary: rd)
  case Nil
  have "length (ring_contents (rd_pulses rd ! chain)) \<le> 32"
    using radar_ring(2) [OF Nil.prems(1) chain] by (auto simp: ring_contents_def ring_ok_def)
  moreover have "\<exists>p w. rd = rd\<lparr>rd_pulses := p, rd_work := w\<rparr>"
    by (intro exI [of _ "rd_pulses rd"] exI [of _ "rd_work rd"]) simp
  ultimately show ?case using Nil.prems by (simp add: last_32_def)
next
  case (Cons m msgs)
  obtain r rd1 p1 w1 where 1: "rwnx_radar_detect_ind m rd = Some (r, rd1)" "radar_ok rd1"
    "ring_contents (rd_pulses rd1 ! chain) = last_32 (ring_contents (rd_pulses rd ! chain) @ msg_pulses m)"
    "rd1 = rd\<lparr>rd_pulses := p1, rd_work := w1\<rparr>"
    using detect_ind_ring [OF Cons.prems(1) chain Cons.prems(2,3), of m] Cons.prems(4) by auto
  have "dpd_at chain rd1 = Some dpd" using Cons.prems(2) 1(4) by (simp add: dpd_at_def)
  from Cons.IH [OF 1(2) this Cons.prems(3)] Cons.prems(4) obtain rd2 p2 w2 where 2: "radar_messages msgs rd1 = Some rd2" "radar_ok rd2"
    "ring_contents (rd_pulses rd2 ! chain) = last_32 (ring_contents (rd_pulses rd1 ! chain) @ concat (map msg_pulses msgs))"
    "rd2 = rd1\<lparr>rd_pulses := p2, rd_work := w2\<rparr>" by auto
  have "ring_contents (rd_pulses rd2 ! chain) =
      last_32 (ring_contents (rd_pulses rd ! chain) @ concat (map msg_pulses (m # msgs)))"
    using 1(3) 2(3) by (simp add: last_32_append)
  with 1(1,4) 2 show ?case by auto
qed

lemma messages_run:
  "radar_run rd \<Longrightarrow> \<forall>m \<in> set msgs. radar_msg_ok m \<Longrightarrow> radar_messages msgs rd = Some rd' \<Longrightarrow> radar_run rd'"
proof (induction msgs arbitrary: rd)
  case (Cons m msgs)
  obtain r rd1 where "rwnx_radar_detect_ind m rd = Some (r, rd1)" "radar_messages msgs rd1 = Some rd'"
    using Cons.prems(3) by (auto simp: bind_eq_Some_conv)
  with Cons show ?case by (auto intro: radar_run.pulses)
qed simp

section \<open>The run\<close>

lemma demo_start_run:
  assumes "demo_start = Some rd"
  shows "radar_run rd"
proof -
  obtain ok1 rd1 ok2 rd2 rd3 where 1: "rwnx_radar_detection_init demo_mem 0 radar_zero = Some (ok1, rd1)"
    "rwnx_radar_set_domain NL80211_DFS_FCC rd1 = Some (ok2, rd2)"
    "rwnx_radar_detection_enable rd2 RWNX_RADAR_DETECT_REPORT RWNX_RADAR_RIU = Some rd3"
    "rd = (rwnx_radar_start_cac (\<lambda>t. t) 60000 3 rd3)\<lparr>rd_status := RWNX_RADAR_CAC_BUSY\<rparr>"
    using assms by (auto simp: demo_start_def bind_eq_Some_conv)
  have "ok1" using 1(1)
    by (auto simp: rwnx_radar_detection_init_def dfs_pattern_detector_init_def dfs_pattern_detector_set_domain_def demo_mem_def Let_def)
  with 1(1) have "radar_run rd1" by (auto intro: radar_run.boot)
  then have "radar_run rd2" using 1(2) by (rule radar_run.domain)
  then have "radar_run rd3" using 1(3) by (rule radar_run.enable)
  then show ?thesis unfolding 1(4) by (intro radar_run.status radar_run.start)
qed

lemma demo_pulses:
  "concat (map msg_pulses demo_msgs) =
     [4096, 93589504, 93589504, 93589504, 93589504, 93589504, 93589504, 93589504, 93589504]"
  by (simp add: demo_msgs_def msg_pulses_def RADAR_PULSE_MAX_def)

lemma demo_ready_ok:
  obtains rd p w where "demo_ready = Some rd" and "radar_run rd" and "ring_contents (rd_pulses rd ! 0) = concat (map msg_pulses demo_msgs)"
    and "rd = demo_rd\<lparr>rd_pulses := p, rd_work := w\<rparr>"
proof -
  have run: "radar_run demo_rd" by (rule demo_start_run [OF demo_start_value])
  have at: "dpd_at 0 demo_rd = Some (demo_dpd RWNX_RADAR_DETECT_REPORT fcc_radar_ref_types_riu)" and ring: "ring_contents (rd_pulses demo_rd ! 0) = []"
    by (simp_all add: demo_rd_def dpd_at_def c_get_def radar_zero_def ring_contents_def)
  have m: "\<forall>m \<in> set demo_msgs. radar_msg_ok m \<and> unat (m ! RADAR_PULSE_MAX) = 0"
    by (simp add: demo_msgs_def radar_msg_ok_def RADAR_PULSE_MAX_def)
  obtain rd p w where r: "radar_messages demo_msgs demo_rd = Some rd"
    "ring_contents (rd_pulses rd ! 0) = last_32 (concat (map msg_pulses demo_msgs))" "rd = demo_rd\<lparr>rd_pulses := p, rd_work := w\<rparr>"
    using messages_ring [OF radar_run_ok [OF run] _ at _ m] ring
    by (auto simp: demo_dpd_def RWNX_RADAR_DETECT_REPORT_def RWNX_RADAR_DETECT_DISABLE_def)
  have run2: "radar_run rd" using messages_run [OF run _ r(1)] m by simp
  have ready: "demo_ready = Some rd" unfolding demo_ready_def demo_start_value using r(1) by simp
  have "ring_contents (rd_pulses rd ! 0) = concat (map msg_pulses demo_msgs)"
    using r(2) by (simp add: demo_pulses last_32_def)
  from that [OF ready run2 this r(3)] show thesis .
qed

text \<open>The work on it takes place, and reports.\<close>

lemma demo_facts:
  assumes "rd = demo_rd\<lparr>rd_pulses := p, rd_work := w\<rparr>"
  shows "busy rd" and "dpd_at RWNX_RADAR_RIU rd = Some (demo_dpd RWNX_RADAR_DETECT_REPORT fcc_radar_ref_types_riu)"
    and "rd_out rd = []" and "cac_reports rd = [Stop_Cac 3, Cac_Aborted 3, Chanctx_Unlink 3]"
  using assms by (simp_all add: busy_def demo_rd_def dpd_at_def c_get_def RWNX_RADAR_RIU_def radar_zero_def cac_reports_def)

section \<open>Memory and rings\<close>

text \<open>C38: Whatever messages, runs of the work, changes of the regulatory domain, enabling and
  availability checks happen, in any order and also when allocations fail, the pulses and sequences that
  the driver has allocated and not freed are exactly those in the pools and in the detectors of the two
  chains, and the pools count their detectors; and removing the detection frees all of them.\<close>

theorem radar_no_leak:
  assumes "radar_run rd"
  shows "(\<exists>riu fcu. rd_dpd rd = [Some riu, Some fcu] \<and>
      pl_owned_pulses (rd_pools rd) = pl_pulses (rd_pools rd) + held_pulses (dpd_pdes riu @ dpd_pdes fcu) \<and>
      pl_owned_pseqs (rd_pools rd) = length (pl_pseqs (rd_pools rd)) + held_pseqs (dpd_pdes riu @ dpd_pdes fcu) \<and>
      pl_refs (rd_pools rd) = of_nat (length (dpd_pdes riu @ dpd_pdes fcu))) \<and>
    (\<exists>rd'. rwnx_radar_detection_deinit rd = Some rd' \<and> rd_dpd rd' = [None, None] \<and> pl_refs (rd_pools rd') = 0 \<and>
      pl_owned_pulses (rd_pools rd') = 0 \<and> pl_owned_pseqs (rd_pools rd') = 0)"
proof
  from radar_run_ok [OF assms] obtain riu fcu where "rd_dpd rd = [Some riu, Some fcu]" "pools_ok (dpd_pdes riu @ dpd_pdes fcu) (rd_pools rd)"
    by (auto simp: radar_ok_def)
  then show "\<exists>riu fcu. rd_dpd rd = [Some riu, Some fcu] \<and>
      pl_owned_pulses (rd_pools rd) = pl_pulses (rd_pools rd) + held_pulses (dpd_pdes riu @ dpd_pdes fcu) \<and>
      pl_owned_pseqs (rd_pools rd) = length (pl_pseqs (rd_pools rd)) + held_pseqs (dpd_pdes riu @ dpd_pdes fcu) \<and>
      pl_refs (rd_pools rd) = of_nat (length (dpd_pdes riu @ dpd_pdes fcu))"
    by (simp add: pools_ok_def)
  from radar_deinit_ok [OF radar_run_ok [OF assms]] show "\<exists>rd'. rwnx_radar_detection_deinit rd = Some rd' \<and> rd_dpd rd' = [None, None] \<and>
      pl_refs (rd_pools rd') = 0 \<and> pl_owned_pulses (rd_pools rd') = 0 \<and> pl_owned_pseqs (rd_pools rd') = 0"
    by (auto simp: pools_ok_def)
qed

theorem radar_no_leak_witness:
  "\<exists>rd rd' rd''. demo_ready = Some rd \<and> rwnx_radar_process_pulse demo_env rd = Some rd' \<and>
     rwnx_radar_detection_deinit rd' = Some rd'' \<and> pl_owned_pulses (rd_pools rd'') = 0"
proof -
  obtain rd where rd: "demo_ready = Some rd" "radar_run rd" using demo_ready_ok by metis
  obtain rd' where rd': "rwnx_radar_process_pulse demo_env rd = Some rd'"
    using process_pulse_ok(2) [OF radar_run_ok [OF rd(2)], of demo_env] demo_mem_there by (auto simp: demo_env_def)
  from radar_no_leak [OF radar_run.work [OF rd(2) rd']] rd(1) rd' show ?thesis by blast
qed

text \<open>In every such state no run of the work on pulses and no message inside memory reads or
  writes outside the rings, the tables of the types and the table of radars found, or uses a detector
  that is not there, as long as memory can be allocated.\<close>

theorem radar_no_fault:
  assumes "radar_run rd" and "\<forall>n. re_mem env n \<noteq> None" and "radar_msg_ok msg"
  shows "rwnx_radar_process_pulse env rd \<noteq> None \<and> rwnx_radar_detect_ind msg rd \<noteq> None"
  using process_pulse_ok(2) [OF radar_run_ok [OF assms(1)] assms(2)] detect_ind_ok(2) [OF radar_run_ok [OF assms(1)] assms(3)] by simp

theorem radar_no_fault_witness:
  "\<exists>rd. demo_ready = Some rd \<and> rwnx_radar_process_pulse demo_env rd \<noteq> None \<and> rwnx_radar_detect_ind [1, 2, 3, 4, 0, 4] rd \<noteq> None"
proof -
  obtain rd where rd: "demo_ready = Some rd" "radar_run rd" using demo_ready_ok by metis
  have "\<forall>n. re_mem demo_env n \<noteq> None" using demo_mem_there by (simp add: demo_env_def)
  moreover have "radar_msg_ok [1, 2, 3, 4, 0, 4]" by (simp add: radar_msg_ok_def RADAR_PULSE_MAX_def)
  ultimately show ?thesis using radar_no_fault [OF rd(2)] rd(1) by blast
qed

text \<open>C39: The ring of a chain on which detection is enabled is a queue of the last 32 pulses: messages
  append their pulses, the oldest fall out, and the work takes out what is there in the order it came and
  leaves the ring empty.\<close>

theorem radar_ring_is_queue:
  assumes "radar_run rd" and "chain < 2" and "dpd_at chain rd = Some dpd" and "dpd_enabled dpd \<noteq> RWNX_RADAR_DETECT_DISABLE"
    and "\<forall>m \<in> set msgs. radar_msg_ok m \<and> unat (m ! RADAR_PULSE_MAX) = chain"
  shows "\<exists>rd' rd''. radar_messages msgs rd = Some rd' \<and>
    take_chain chain rd' = Some (last_32 (ring_contents (rd_pulses rd ! chain) @ concat (map msg_pulses msgs)), rd'') \<and>
    ring_contents (rd_pulses rd'' ! chain) = []"
proof -
  obtain rd' where r: "radar_messages msgs rd = Some rd'" "radar_ok rd'"
    "ring_contents (rd_pulses rd' ! chain) = last_32 (ring_contents (rd_pulses rd ! chain) @ concat (map msg_pulses msgs))"
    using messages_ring [OF radar_run_ok [OF assms(1)] assms(2-5)] by blast
  have "chain < length (rd_pulses rd')" using r(2) assms(2) by (simp add: radar_ok_def)
  with take_chain_ok(1) [OF r(2) assms(2)] r show ?thesis by (simp add: ring_contents_def)
qed

theorem radar_ring_is_queue_witness:
  "\<exists>rd' rd''. radar_messages demo_msgs demo_rd = Some rd' \<and> take_chain 0 rd' =
     Some ([4096, 93589504, 93589504, 93589504, 93589504, 93589504, 93589504, 93589504, 93589504], rd'') \<and>
     ring_contents (rd_pulses rd'' ! 0) = []"
proof -
  have at: "dpd_at 0 demo_rd = Some (demo_dpd RWNX_RADAR_DETECT_REPORT fcc_radar_ref_types_riu)" and ring: "ring_contents (rd_pulses demo_rd ! 0) = []"
    by (simp_all add: demo_rd_def dpd_at_def c_get_def radar_zero_def ring_contents_def)
  have m: "\<forall>m \<in> set demo_msgs. radar_msg_ok m \<and> unat (m ! RADAR_PULSE_MAX) = 0"
    by (simp add: demo_msgs_def radar_msg_ok_def RADAR_PULSE_MAX_def)
  have en: "dpd_enabled (demo_dpd RWNX_RADAR_DETECT_REPORT fcc_radar_ref_types_riu) \<noteq> RWNX_RADAR_DETECT_DISABLE"
    by (simp add: demo_dpd_def RWNX_RADAR_DETECT_REPORT_def RWNX_RADAR_DETECT_DISABLE_def)
  show ?thesis using radar_ring_is_queue [OF demo_start_run [OF demo_start_value] _ at en m] ring
    by (simp add: demo_pulses last_32_def)
qed

section \<open>What is found\<close>

text \<open>C36: A radar is reported. Let detection be in use and enabled for reports on the first chain, with a
  region set and memory available, and let the ring hold a train of pulses that fits a type of the region
  other than the long ones: the first pulse without distance, the second at an interval of the type's range
  after it, every other one at that interval up to the tolerance of 16 microseconds, all of a width of the
  type and on one frequency, and as many as the threshold of the type asks for. Then one run of the work
  ends a pending availability check, reports the radar on the current channel and disables the detection.\<close>

theorem radar_burst_reported:
  assumes run: "radar_run rd" and mem: "\<forall>n. re_mem env n \<noteq> None" and busy: "busy rd"
    and dpd: "dpd_at RWNX_RADAR_RIU rd = Some dpd" and on: "dpd_enabled dpd = RWNX_RADAR_DETECT_REPORT"
    and region: "dpd_region dpd \<noteq> NL80211_DFS_UNSET" and i: "i < dpd_num_radar_types dpd"
    and short: "rs_type (dpd_radar_spec dpd ! i) \<noteq> RADAR_WAVEFORM_LONG"
    and train: "radar_train (dpd_radar_spec dpd ! i) ch (ring_contents (rd_pulses rd ! RWNX_RADAR_RIU))"
    and ch: "re_chan env = Some ch" and time: "unat (overflow_time (re_usecs env) (re_now env) dpd) + 2 ^ 27 < 2 ^ 64"
  shows "\<exists>rd' dpd'. rwnx_radar_process_pulse env rd = Some rd' \<and>
    rd_out rd' = rd_out rd @ cac_reports rd @ [Radar_Event ch] \<and> rd_cac_vif rd' = None \<and>
    dpd_at RWNX_RADAR_RIU rd' = Some dpd' \<and> dpd_enabled dpd' = RWNX_RADAR_DETECT_DISABLE"
proof -
  have lt: "RWNX_RADAR_RIU < 2" "RWNX_RADAR_FCU < 2" by (simp_all add: RWNX_RADAR_RIU_def RWNX_RADAR_FCU_def)
  let ?z = "rd\<lparr>rd_work := False\<rparr>" and ?ws = "ring_contents (rd_pulses rd ! RWNX_RADAR_RIU)"
  let ?f = "rwnx_radar_get_center_freq (re_chan env) (re_sec env)"
  have z: "radar_ok ?z" using radar_run_ok [OF run] by (simp add: radar_ok_def)
  obtain p1 where 1: "take_chain RWNX_RADAR_RIU ?z = Some (?ws, rd\<lparr>rd_work := False, rd_pulses := p1\<rparr>)" "radar_ok (rd\<lparr>rd_work := False, rd_pulses := p1\<rparr>)"
    using take_chain_ok [OF z lt(1)] by simp
  obtain ws2 p2 where 2: "take_chain RWNX_RADAR_FCU (rd\<lparr>rd_work := False, rd_pulses := p1\<rparr>) = Some (ws2, rd\<lparr>rd_work := False, rd_pulses := p2\<rparr>)"
    "radar_ok (rd\<lparr>rd_work := False, rd_pulses := p2\<rparr>)"
    using take_chain_ok [OF 1(2) lt(2)] by simp
  let ?rd2 = "rd\<lparr>rd_work := False, rd_pulses := p2\<rparr>"
  have f: "?f RWNX_RADAR_RIU = ch" using ch by (simp add: rwnx_radar_get_center_freq_def RWNX_RADAR_RIU_def RWNX_RADAR_FCU_def)
  have proc: "rwnx_radar_process_pulse env rd =
      Option.bind (pulses_loop env RWNX_RADAR_RIU ch ?ws ?rd2) (pulses_loop env RWNX_RADAR_FCU (?f RWNX_RADAR_FCU) ws2)"
    using 1(1) 2(1) f by (simp add: rwnx_radar_process_pulse_def Let_def)
  have busy2: "busy ?rd2" and dpd2: "dpd_at RWNX_RADAR_RIU ?rd2 = Some dpd" using busy dpd by (simp_all add: busy_def dpd_at_def)
  obtain rd3 d3 where 3: "radar_ok rd3" "pulses_loop env RWNX_RADAR_RIU ch ?ws ?rd2 = pulse_found env RWNX_RADAR_RIU (pulse_chan ch (?ws ! 0)) rd3"
    "same_report ?rd2 rd3" "dpd_at RWNX_RADAR_RIU rd3 = Some d3" "dpd_enabled d3 = RWNX_RADAR_DETECT_REPORT"
    using train_found [OF mem 2(2) busy2 dpd2 region i refl short train time] on by (auto simp: found_from_def)
  obtain rd4 d4 where 4: "pulse_found env RWNX_RADAR_RIU (pulse_chan ch (?ws ! 0)) rd3 = Some rd4" "radar_ok rd4"
    "rd_out rd4 = rd_out rd3 @ cac_reports rd3 @ [Radar_Event ch]" "rd_cac_vif rd4 = None"
    "dpd_at RWNX_RADAR_RIU rd4 = Some d4" "dpd_enabled d4 = RWNX_RADAR_DETECT_DISABLE"
    using found_reports [OF 3(1,4,5) ch] by blast
  obtain rd5 where 5: "pulses_loop env RWNX_RADAR_FCU (?f RWNX_RADAR_FCU) ws2 rd4 = Some rd5"
    using pulses_loop_ok(2) [OF 4(2) lt(2) mem] by blast
  have "rd_out rd3 = rd_out rd" "cac_reports rd3 = cac_reports rd" using 3(3) by (simp_all add: same_report_def cac_reports_def cong: option.case_cong)
  with proc 3(2) 4 5 fcu_quiet [OF 4(2) mem 5] show ?thesis by (auto simp: same_report_def)
qed

theorem radar_burst_reported_witness:
  "\<exists>rd rd'. demo_ready = Some rd \<and> rwnx_radar_process_pulse demo_env rd = Some rd' \<and>
     rd_out rd' = [Stop_Cac 3, Cac_Aborted 3, Chanctx_Unlink 3, Radar_Event 5500]"
proof -
  obtain rd p w where rd: "demo_ready = Some rd" "radar_run rd"
    "ring_contents (rd_pulses rd ! 0) = concat (map msg_pulses demo_msgs)" "rd = demo_rd\<lparr>rd_pulses := p, rd_work := w\<rparr>"
    by (rule demo_ready_ok)
  note d = demo_facts [OF rd(4)]
  let ?dpd = "demo_dpd RWNX_RADAR_DETECT_REPORT fcc_radar_ref_types_riu"
  have mem: "\<forall>n. re_mem demo_env n \<noteq> None" using demo_mem_there by (simp add: demo_env_def)
  have spec: "dpd_radar_spec ?dpd ! 0 = FCC_PATTERN 0 0 8 1428 1428 1 18 RADAR_WAVEFORM_SHORT"
    by (simp add: demo_dpd_def fcc_radar_ref_types_riu_def)
  have train: "radar_train (dpd_radar_spec ?dpd ! 0) 5500 (ring_contents (rd_pulses rd ! RWNX_RADAR_RIU))"
    using rd(3) by (simp add: spec demo_pulses RWNX_RADAR_RIU_def radar_train_def FCC_PATTERN_def PRI_TOLERANCE_def PPB_THRESH_def
      MIN_PPB_THRESH_def pulse_rep_def pulse_len_def pulse_freq_def burst_thresh_def)
  have "\<exists>rd' dpd'. rwnx_radar_process_pulse demo_env rd = Some rd' \<and>
    rd_out rd' = rd_out rd @ cac_reports rd @ [Radar_Event 5500] \<and> rd_cac_vif rd' = None \<and>
    dpd_at RWNX_RADAR_RIU rd' = Some dpd' \<and> dpd_enabled dpd' = RWNX_RADAR_DETECT_DISABLE"
    by (rule radar_burst_reported [OF rd(2) mem d(1,2) _ _ _ _ train])
      (simp_all add: demo_dpd_def spec [unfolded demo_dpd_def] demo_env_def overflow_time_def FCC_PATTERN_def fcc_radar_ref_types_riu_def)
  with rd(1) d(3,4) show ?thesis by auto
qed

text \<open>C37: No false alarm. When a detector of a short type of the tables reports a sequence, then, whatever
  pulses it was given since it was made or reset (in the order of time, none more than 71 minutes after a
  pulse still queued) and whichever allocations failed, at least as many of them as the threshold asks for
  lie within the duration of a burst at the reported interval, which is one of the type's; and each of them
  but the last comes nearly a multiple of that interval before another of them.\<close>

theorem radar_no_false_alarm:
  assumes "rs \<in> set radar_specs" and "rs_type rs \<noteq> RADAR_WAVEFORM_LONG" and run: "short_run rs hs pde"
    and f: "pulse_follows hs pde ts" and found: "pde_short_add_pulse mem pde ts pl = (Some s, pde', pl')"
  shows "\<exists>xs. set xs \<subseteq> insert ts (set hs) \<and> sorted_wrt (>) xs \<and> xs \<noteq> [] \<and> burst_thresh rs (unat (ps_pri s)) \<le> length xs \<and>
    unat (rs_pri_min rs) \<le> unat (ps_pri s) \<and> unat (ps_pri s) \<le> unat (rs_pri_max rs) \<and>
    unat (hd xs) \<le> unat (last xs) + unat (ps_pri s) * (unat (rs_ppb rs) - 1) + 32 \<and>
    (\<forall>x \<in> set (tl xs). \<exists>y \<in> set xs. x < y \<and> 0 < pde_get_multiple (ucast (y - x)) (ps_pri s) 16)"
proof -
  have spec: "short_spec rs" using short_specs assms(1,2) by blast
  obtain xs where "sequence_complete rs s" "burst_of rs s xs" "set xs \<subseteq> insert ts (set hs)"
    using add_pulse_burst [OF spec short_run_ok [OF run spec] f found] by auto
  then show ?thesis
    by (intro exI [of _ xs]) (auto simp: burst_of_def sequence_complete_def follows_one_def word_le_nat_alt)
qed

definition demo_rs :: radar_detector_specs where
  "demo_rs = FCC_PATTERN 6 0 8 333 333 1 9 RADAR_WAVEFORM_SHORT"

definition demo_pde :: pri_detector where
  "demo_pde = pde_short_init \<lparr>pde_rs = demo_rs, pde_last_ts = 0, pde_sequences = [], pde_pulses = [], pde_count = 0,
     pde_max_count = 0, pde_window_size = 0, pde_freq = 0\<rparr>"

theorem radar_no_false_alarm_witness:
  "\<exists>pde pl s pde' pl' (xs :: u64 list). short_run demo_rs [999, 666, 333, 0] pde \<and>
     pde_short_add_pulse demo_mem pde 1332 pl = (Some s, pde', pl') \<and> set xs \<subseteq> {1332, 999, 666, 333, 0} \<and> 5 \<le> length xs"
proof -
  have mem: "demo_rs \<in> set radar_specs" by (simp add: demo_rs_def radar_specs_def dfs_domains_def fcc_radar_types_def fcc_radar_ref_types_riu_def)
  have short: "rs_type demo_rs \<noteq> RADAR_WAVEFORM_LONG" by (simp add: demo_rs_def FCC_PATTERN_def)
  have spec: "short_spec demo_rs" using short_specs mem short by blast
  have p: "unat (rs_pri_min demo_rs) \<le> 333" "333 \<le> unat (rs_pri_max demo_rs)" by (simp_all add: demo_rs_def FCC_PATTERN_def PRI_TOLERANCE_def)
  have th: "burst_thresh demo_rs n = 5" for n
    by (simp add: burst_thresh_def demo_rs_def FCC_PATTERN_def PPB_THRESH_def MIN_PPB_THRESH_def)
  have pde: "pde_rs demo_pde = demo_rs" "pde_count demo_pde = 0" "pde_pulses demo_pde = []" "pde_sequences demo_pde = []"
    "pde_kind demo_pde = kind_of demo_rs"
    using short by (simp_all add: demo_pde_def pde_short_init_def kind_of_def ops_init_def pde_kind_def)
  obtain q where q: "pde_window_size demo_pde = pde_window_size (pde_short_init q)" "pde_max_count demo_pde = pde_max_count (pde_short_init q)"
    "pde_rs q = demo_rs" using kind_sizes [OF pde(5) short] by metis
  have fresh: "short_run demo_rs [] demo_pde" by (rule short_run.fresh [OF pde(5,4,3,2)])
  obtain pde1 pl1 where 1: "pde_short_add_pulse demo_mem demo_pde 0 undefined = (None, pde1, pl1)" "tracks demo_rs 333 [0] pde1"
    using tracks_first [OF demo_mem_there spec p pde(1-4) q, of 0 undefined] by auto
  have s1: "short_run demo_rs [0] pde1" by (rule short_run.pulse [OF fresh _ 1(1)]) (simp add: pulse_follows_def pde(3))
  have step: "\<exists>pde'. tracks demo_rs 333 (t # hs) pde' \<and> short_run demo_rs (t # hs) pde'"
    if a: "tracks demo_rs 333 hs pde" "next_pulse demo_rs 333 hs t" "short_run demo_rs hs pde" "pulse_follows hs pde t" "length hs < 4" for hs t pde
  proof -
    obtain pde' pl' where "pde_short_add_pulse demo_mem pde t undefined = (None, pde', pl')" "tracks demo_rs 333 (t # hs) pde'"
      using tracks_next [OF demo_mem_there spec p a(1,2), of undefined] a(5) by (auto simp: th)
    with short_run.pulse [OF a(3,4)] show ?thesis by blast
  qed
  have f: "pulse_follows hs pde t" if "tracks demo_rs 333 hs pde" "\<forall>h \<in> set hs. h \<le> t" "unat t < 2 ^ 32" for hs pde t
    using that by (auto simp: pulse_follows_def tracks_def)
  have n: "next_pulse demo_rs 333 [0] 333" "next_pulse demo_rs 333 [333, 0] 666" "next_pulse demo_rs 333 [666, 333, 0] 999"
    "next_pulse demo_rs 333 [999, 666, 333, 0] 1332"
    by (auto simp: next_pulse_def train_time_def th intro: exI [of _ 333])
  obtain pde2 where 2: "tracks demo_rs 333 [333, 0] pde2" "short_run demo_rs [333, 0] pde2"
    using step [OF 1(2) n(1) s1 f [OF 1(2)]] by auto
  obtain pde3 where 3: "tracks demo_rs 333 [666, 333, 0] pde3" "short_run demo_rs [666, 333, 0] pde3"
    using step [OF 2(1) n(2) 2(2) f [OF 2(1)]] by auto
  obtain pde4 where 4: "tracks demo_rs 333 [999, 666, 333, 0] pde4" "short_run demo_rs [999, 666, 333, 0] pde4"
    using step [OF 3(1) n(3) 3(2) f [OF 3(1)]] by auto
  have f4: "pulse_follows [999, 666, 333, 0] pde4 1332" by (rule f [OF 4(1)]) simp_all
  obtain s pde5 pl5 where 5: "pde_short_add_pulse demo_mem pde4 1332 undefined = (Some s, pde5, pl5)"
    using tracks_next [OF demo_mem_there spec p 4(1) n(4), of undefined] by (auto simp: th)
  obtain xs :: "u64 list" where "set xs \<subseteq> {1332, 999, 666, 333, 0}" "5 \<le> length xs"
    using radar_no_false_alarm [OF mem short 4(2) f4 5] by (auto simp: th)
  with 4(2) 5 show ?thesis by blast
qed

section \<open>Multiples\<close>

definition near_multiple :: "nat \<Rightarrow> nat \<Rightarrow> nat \<Rightarrow> nat \<Rightarrow> bool" where
  "near_multiple v f t k \<longleftrightarrow> v \<le> k * f + t \<and> k * f \<le> v + t"

lemma near_multiple_unique:
  assumes "near_multiple v f t k" and "near_multiple v f t j" and "2 * t < f"
  shows "k = j"
proof (rule ccontr)
  assume ne: "k \<noteq> j"
  have gap: "b * f < Suc b * f" "a * f + 2 * t < Suc a * f" for a b using assms(3) by simp_all
  have "False" if "a < b" "near_multiple v f t a" "near_multiple v f t b" for a b
  proof -
    have "Suc a * f \<le> b * f" using that(1) by (intro mult_le_mono1) simp
    with that(2,3) gap(2) [of a] show False by (simp add: near_multiple_def)
  qed
  with ne assms(1,2) show False by (metis nat_neq_iff)
qed

text \<open>The function on natural numbers: nothing wraps around.\<close>

lemma multiple_nat:
  assumes "2 * unat tol < unat fraction"
  shows "unat (pde_get_multiple val fraction tol) =
    (let v = unat val; f = unat fraction; t = unat tol in
     if (if v < f then f - v else v - f) \<le> t then 1
     else if t < v mod f then if f - v mod f \<le> t then v div f + 1 else 0 else v div f)"
proof -
  let ?v = "unat val" and ?f = "unat fraction" and ?t = "unat tol"
  have f0: "0 < ?f" "fraction \<noteq> 0" using assms by auto
  have r: "?v mod ?f < ?f" using f0 by simp
  have delta: "unat (if val < fraction then fraction - val else val - fraction) = (if ?v < ?f then ?f - ?v else ?v - ?f)"
    by (auto simp: unat_sub word_less_nat_alt word_le_nat_alt)
  have rest: "unat (fraction - val mod fraction) = ?f - ?v mod ?f" using r by (simp add: unat_sub word_le_nat_alt unat_mod)
  have add: "unat (val div fraction + 1) = ?v div ?f + 1" if "?t < ?v mod ?f"
  proof -
    have "2 \<le> ?f" using r that by linarith
    then have "?v div ?f \<le> ?v div 2" by (intro div_le_mono2) simp_all
    moreover have "?v < 2 ^ LENGTH(32)" by (rule unsigned_less)
    ultimately show ?thesis by (simp add: unat_word_ariths(1) unat_div)
  qed
  show ?thesis
    using f0(2) delta rest add by (simp add: pde_get_multiple_def Let_def word_le_nat_alt word_less_nat_alt unat_div unat_mod)
qed

text \<open>Between two multiples, away from both, there is none.\<close>

lemma no_near_multiple:
  assumes "t < v mod f" and "t < f - v mod f"
  shows "\<not> near_multiple v f t k"
proof (cases "k \<le> v div f")
  case True
  then have "k * f \<le> v div f * f" by (rule mult_le_mono1)
  moreover have "v = v div f * f + v mod f" by simp
  ultimately show ?thesis unfolding near_multiple_def using assms(1) by linarith
next
  case False
  then have "Suc (v div f) * f \<le> k * f" by (intro mult_le_mono1) simp
  then have "v div f * f + f \<le> k * f" by simp
  moreover have "v = v div f * f + v mod f" by simp
  ultimately show ?thesis unfolding near_multiple_def using assms(2) by linarith
qed

text \<open>C40: The search for the multiple of the interval that a distance is, within the tolerance, finds it:
  as long as an interval is more than two tolerances, the result is \<open>k\<close> for a positive \<open>k\<close> exactly
  when the distance differs from \<open>k\<close> intervals by at most the tolerance.\<close>

theorem pde_get_multiple_exact:
  assumes "2 * unat tol < unat fraction" and "0 < k"
  shows "unat (pde_get_multiple val fraction tol) = k \<longleftrightarrow> near_multiple (unat val) (unat fraction) (unat tol) k"
proof -
  let ?v = "unat val" and ?f = "unat fraction" and ?t = "unat tol"
  let ?q = "?v div ?f" and ?r = "?v mod ?f"
  have v: "?v = ?q * ?f + ?r" by simp
  have r: "?r < ?f" using assms(1) by simp
  note res = multiple_nat [OF assms(1), of val, unfolded Let_def] and unique = near_multiple_unique [OF _ _ assms(1)]
  consider (one) "(if ?v < ?f then ?f - ?v else ?v - ?f) \<le> ?t"
    | (low) "\<not> (if ?v < ?f then ?f - ?v else ?v - ?f) \<le> ?t" "?r \<le> ?t"
    | (high) "\<not> (if ?v < ?f then ?f - ?v else ?v - ?f) \<le> ?t" "?t < ?r" "?f - ?r \<le> ?t"
    | (none) "\<not> (if ?v < ?f then ?f - ?v else ?v - ?f) \<le> ?t" "?t < ?r" "?t < ?f - ?r" by linarith
  then show ?thesis
  proof cases
    case one
    then have "near_multiple ?v ?f ?t 1" by (auto simp: near_multiple_def split: if_splits)
    with one res unique show ?thesis by auto
  next
    case low
    then have "near_multiple ?v ?f ?t ?q" unfolding near_multiple_def using v by linarith
    with low res unique show ?thesis by auto
  next
    case high
    have "(?q + 1) * ?f = ?q * ?f + ?f" by simp
    then have "near_multiple ?v ?f ?t (?q + 1)" unfolding near_multiple_def using v r high(3) by linarith
    with high res unique show ?thesis by auto
  next
    case none
    with no_near_multiple [OF none(2,3)] res assms(2) show ?thesis by simp
  qed
qed

theorem pde_get_multiple_exact_witness:
  "unat (pde_get_multiple 2850 1428 16) = 2 \<and> near_multiple 2850 1428 16 2"
  using pde_get_multiple_exact [of 16 1428 2 2850] by (simp add: near_multiple_def)

end
