(* ===== verification/Npu_Job.thy ===== *)
theory Npu_Job
  imports Npu_Mm "HOL-Library.Signed_Division"
begin

text \<open>
  \<^verbatim>\<open>rknpu_job.c\<close>, the scheduler of the NPU driver: a submitted job is put on the
  \<^verbatim>\<open>todo_list\<close> of each core of its mask, a core takes the next job of its list when it
  has none, the last core to take a job programs the hardware of them all, and the interrupt of a
  core either programs its next piece of the job or ends the core's part of it.
  \<^item> The model is the driver as its \<^verbatim>\<open>Makefile\<close> builds it: memory objects from the
    DMA heap, no fences, and an IOMMU whose \<^verbatim>\<open>get\<close> and \<^verbatim>\<open>put\<close> do nothing.
  \<^item> A job is an address \<open>nat\<close> and \<open>nd_jobs\<close> the memory of the jobs: reading or writing a
    job that was freed is \<open>None\<close>, and so is an access outside the array of tasks, a signed
    overflow, and scheduling work that was not initialised. Addresses are not used again, so that
    every use after free shows.
  \<^item> The arrays indexed by a core are functions: the index is below \<open>RKNPU_MAX_CORES\<close>
    wherever the code indexes them. \<open>nd_io\<close> is the sequence of the register writes, with the
    core, the offset and the value; what a register reads is an argument.
  \<^item> Each function is written as the sequence of its critical sections, so that
    \<open>Npu_Sched\<close> can interleave them.
\<close>

section \<open>Data\<close>

definition RKNPU_MAX_CORES :: nat where "RKNPU_MAX_CORES = 3"

definition RKNPU_JOB_DONE :: u32 where "RKNPU_JOB_DONE = 1"
definition RKNPU_JOB_ASYNC :: u32 where "RKNPU_JOB_ASYNC = 2"

definition RKNPU_CORE_AUTO_MASK :: u32 where "RKNPU_CORE_AUTO_MASK = 0"
definition RKNPU_CORE0_MASK :: u32 where "RKNPU_CORE0_MASK = 1"
definition RKNPU_CORE1_MASK :: u32 where "RKNPU_CORE1_MASK = 2"
definition RKNPU_CORE2_MASK :: u32 where "RKNPU_CORE2_MASK = 4"

definition RKNPU_JOB_PC :: u32 where "RKNPU_JOB_PC = 1"
definition RKNPU_JOB_NONBLOCK :: u32 where "RKNPU_JOB_NONBLOCK = 2"
definition RKNPU_JOB_PINGPONG :: u32 where "RKNPU_JOB_PINGPONG = 4"
definition RKNPU_JOB_FENCE_IN :: u32 where "RKNPU_JOB_FENCE_IN = 8"
definition RKNPU_JOB_FENCE_OUT :: u32 where "RKNPU_JOB_FENCE_OUT = 16"

definition RKNPU_OFFSET_PC_OP_EN :: nat where "RKNPU_OFFSET_PC_OP_EN = 0x8"
definition RKNPU_OFFSET_PC_DATA_ADDR :: nat where "RKNPU_OFFSET_PC_DATA_ADDR = 0x10"
definition RKNPU_OFFSET_PC_DATA_AMOUNT :: nat where "RKNPU_OFFSET_PC_DATA_AMOUNT = 0x14"
definition RKNPU_OFFSET_PC_TASK_CONTROL :: nat where "RKNPU_OFFSET_PC_TASK_CONTROL = 0x30"
definition RKNPU_OFFSET_PC_DMA_BASE_ADDR :: nat where "RKNPU_OFFSET_PC_DMA_BASE_ADDR = 0x34"
definition RKNPU_OFFSET_INT_MASK :: nat where "RKNPU_OFFSET_INT_MASK = 0x20"
definition RKNPU_OFFSET_INT_CLEAR :: nat where "RKNPU_OFFSET_INT_CLEAR = 0x24"
definition RKNPU_INT_CLEAR :: u32 where "RKNPU_INT_CLEAR = 0x1ffff"
definition RKNPU_PC_DATA_EXTRA_AMOUNT :: u32 where "RKNPU_PC_DATA_EXTRA_AMOUNT = 4"

definition E_TIMEDOUT :: int where "E_TIMEDOUT = 110"

record rknpu_task =
  tk_flags :: u32
  tk_op_idx :: u32
  tk_enable_mask :: u32
  tk_int_mask :: u32
  tk_int_clear :: u32
  tk_int_status :: u32
  tk_regcfg_amount :: u32
  tk_regcfg_offset :: u32
  tk_regcmd_addr :: u64

record rknpu_subcore_task =
  st_task_start :: u32
  st_task_number :: u32

record rknpu_submit_args =
  sb_flags :: u32
  sb_timeout :: u32
  sb_task_start :: u32
  sb_task_number :: u32
  sb_task_counter :: u32
  sb_task_obj_addr :: u64
  sb_task_base_addr :: u64
  sb_hw_elapse_time :: int
  sb_core_mask :: u32
  sb_subcore_task :: "nat \<Rightarrow> rknpu_subcore_task"

record rknpu_config =
  cf_pc_data_amount_scale :: u32
  cf_pc_task_number_bits :: nat
  cf_pc_task_number_mask :: u32
  cf_pc_task_status_offset :: nat
  cf_pc_dma_ctrl :: u32
  cf_num_irqs :: nat
  cf_max_submit_number :: int
  cf_core_mask :: u32
  cf_state_init :: bool

record rknpu_job =
  jb_irq_entry :: "nat \<Rightarrow> bool"
  jb_flags :: u32
  jb_ret :: int
  jb_args :: rknpu_submit_args
  jb_args_owner :: bool
  jb_first_task :: "nat option"
  jb_last_task :: "nat option"
  jb_int_mask :: "nat \<Rightarrow> u32"
  jb_int_status :: "nat \<Rightarrow> u32"
  jb_timestamp :: int
  jb_use_core_num :: u32
  jb_run_count :: int
  jb_interrupt_count :: int
  jb_hw_commit_time :: int
  jb_hw_recoder_time :: int
  jb_hw_elapse_time :: int
  jb_submit_count :: "nat \<Rightarrow> int"

record rknpu_subcore_data =
  sc_todo_list :: "nat list"
  sc_job :: "nat option"
  sc_task_num :: int
  sc_busy_time :: int
  sc_total_busy_time :: int

record rknpu_device =
  nd_subcore :: "nat \<Rightarrow> rknpu_subcore_data"
  nd_jobs :: "nat \<Rightarrow> rknpu_job option"
  nd_next_job :: nat
  nd_works :: "nat list"
  nd_objs :: "u64 \<Rightarrow> rknpu_task list option"
  nd_soft_reseting :: bool
  nd_bypass_soft_reset :: bool
  nd_reset_lock :: bool
  nd_now :: int
  nd_io :: "(nat \<times> nat \<times> u32) list"

text \<open>The configurations of the seven chips of the driver's match table.\<close>

definition rk356x_rknpu_config :: rknpu_config where
  "rk356x_rknpu_config = \<lparr>cf_pc_data_amount_scale = 1, cf_pc_task_number_bits = 12, cf_pc_task_number_mask = 0xfff,
     cf_pc_task_status_offset = 0x3c, cf_pc_dma_ctrl = 0, cf_num_irqs = 1, cf_max_submit_number = 2 ^ 12 - 1,
     cf_core_mask = 1, cf_state_init = False\<rparr>"

definition rk3588_rknpu_config :: rknpu_config where
  "rk3588_rknpu_config = \<lparr>cf_pc_data_amount_scale = 2, cf_pc_task_number_bits = 12, cf_pc_task_number_mask = 0xfff,
     cf_pc_task_status_offset = 0x3c, cf_pc_dma_ctrl = 0, cf_num_irqs = 3, cf_max_submit_number = 2 ^ 12 - 1,
     cf_core_mask = 7, cf_state_init = False\<rparr>"

definition rk3583_rknpu_config :: rknpu_config where
  "rk3583_rknpu_config = \<lparr>cf_pc_data_amount_scale = 2, cf_pc_task_number_bits = 12, cf_pc_task_number_mask = 0xfff,
     cf_pc_task_status_offset = 0x3c, cf_pc_dma_ctrl = 0, cf_num_irqs = 2, cf_max_submit_number = 2 ^ 12 - 1,
     cf_core_mask = 3, cf_state_init = False\<rparr>"

definition rv1106_rknpu_config :: rknpu_config where
  "rv1106_rknpu_config = \<lparr>cf_pc_data_amount_scale = 2, cf_pc_task_number_bits = 16, cf_pc_task_number_mask = 0xffff,
     cf_pc_task_status_offset = 0x3c, cf_pc_dma_ctrl = 0, cf_num_irqs = 1, cf_max_submit_number = 2 ^ 16 - 1,
     cf_core_mask = 1, cf_state_init = False\<rparr>"

definition rv1103b_rknpu_config :: rknpu_config where
  "rv1103b_rknpu_config = \<lparr>cf_pc_data_amount_scale = 1, cf_pc_task_number_bits = 16, cf_pc_task_number_mask = 0xffff,
     cf_pc_task_status_offset = 0x48, cf_pc_dma_ctrl = 1, cf_num_irqs = 1, cf_max_submit_number = 2 ^ 16 - 1,
     cf_core_mask = 1, cf_state_init = False\<rparr>"

definition rk3562_rknpu_config :: rknpu_config where
  "rk3562_rknpu_config = \<lparr>cf_pc_data_amount_scale = 2, cf_pc_task_number_bits = 16, cf_pc_task_number_mask = 0xffff,
     cf_pc_task_status_offset = 0x48, cf_pc_dma_ctrl = 1, cf_num_irqs = 1, cf_max_submit_number = 2 ^ 16 - 1,
     cf_core_mask = 1, cf_state_init = False\<rparr>"

definition rk3576_rknpu_config :: rknpu_config where
  "rk3576_rknpu_config = \<lparr>cf_pc_data_amount_scale = 2, cf_pc_task_number_bits = 16, cf_pc_task_number_mask = 0xffff,
     cf_pc_task_status_offset = 0x48, cf_pc_dma_ctrl = 1, cf_num_irqs = 2, cf_max_submit_number = 2 ^ 16 - 1,
     cf_core_mask = 3, cf_state_init = True\<rparr>"

definition rknpu_configs :: "rknpu_config list" where
  "rknpu_configs = [rk356x_rknpu_config, rk3588_rknpu_config, rk3583_rknpu_config, rv1106_rknpu_config,
     rv1103b_rknpu_config, rk3562_rknpu_config, rk3576_rknpu_config]"

section \<open>Memory and registers\<close>

definition c_int :: "int \<Rightarrow> int option" where
  "c_int x = (if - (2 ^ 31) \<le> x \<and> x < 2 ^ 31 then Some x else None)"

definition job_upd :: "nat \<Rightarrow> (rknpu_job \<Rightarrow> rknpu_job) \<Rightarrow> rknpu_device \<Rightarrow> rknpu_device option" where
  "job_upd j f dev = (case nd_jobs dev j of None \<Rightarrow> None | Some jb \<Rightarrow> Some (dev\<lparr>nd_jobs := (nd_jobs dev)(j \<mapsto> f jb)\<rparr>))"

definition core_upd :: "nat \<Rightarrow> (rknpu_subcore_data \<Rightarrow> rknpu_subcore_data) \<Rightarrow> rknpu_device \<Rightarrow> rknpu_device" where
  "core_upd c f dev = dev\<lparr>nd_subcore := (nd_subcore dev)(c := f (nd_subcore dev c))\<rparr>"

definition reg_write :: "nat \<Rightarrow> nat \<Rightarrow> u32 \<Rightarrow> rknpu_device \<Rightarrow> rknpu_device" where
  "reg_write c off v dev = dev\<lparr>nd_io := nd_io dev @ [(c, off, v)]\<rparr>"

definition task_at :: "rknpu_task list \<Rightarrow> int \<Rightarrow> rknpu_task option" where
  "task_at ts i = (if 0 \<le> i then c_get ts (nat i) else None)"

section \<open>Cores, masks and task numbers\<close>

definition rknpu_wait_core_index :: "u32 \<Rightarrow> nat" where
  "rknpu_wait_core_index core_mask =
     (if core_mask = RKNPU_CORE0_MASK \<or> core_mask = (RKNPU_CORE0_MASK OR RKNPU_CORE1_MASK) \<or>
         core_mask = (RKNPU_CORE0_MASK OR RKNPU_CORE1_MASK OR RKNPU_CORE2_MASK) then 0
      else if core_mask = RKNPU_CORE1_MASK then 1
      else if core_mask = RKNPU_CORE2_MASK then 2
      else 0)"

definition rknpu_core_mask :: "nat \<Rightarrow> u32" where
  "rknpu_core_mask core_index =
     (if core_index = 0 then RKNPU_CORE0_MASK
      else if core_index = 1 then RKNPU_CORE1_MASK
      else if core_index = 2 then RKNPU_CORE2_MASK
      else RKNPU_CORE_AUTO_MASK)"

definition uses_core :: "u32 \<Rightarrow> nat \<Rightarrow> bool" where
  "uses_core core_mask i \<longleftrightarrow> core_mask AND rknpu_core_mask i \<noteq> 0"

definition rknpu_get_task_number :: "rknpu_config \<Rightarrow> rknpu_job \<Rightarrow> nat \<Rightarrow> int" where
  "rknpu_get_task_number cfg job core_index =
     (let args = jb_args job in
      if core_index \<ge> RKNPU_MAX_CORES then 0
      else if cf_num_irqs cfg > 1 then
        (if jb_use_core_num job = 1 \<or> jb_use_core_num job = 2
           then sint (st_task_number (sb_subcore_task args core_index))
         else if jb_use_core_num job = 3 then sint (st_task_number (sb_subcore_task args (core_index + 2)))
         else sint (sb_task_number args))
      else sint (sb_task_number args))"

definition core_num :: "u32 \<Rightarrow> u32" where
  "core_num core_mask = (core_mask AND RKNPU_CORE0_MASK) + drop_bit 1 (core_mask AND RKNPU_CORE1_MASK) +
     drop_bit 2 (core_mask AND RKNPU_CORE2_MASK)"

section \<open>The life of a job\<close>

text \<open>\<open>mem1\<close> and \<open>mem2\<close>: whether the two allocations succeed.\<close>

definition rknpu_job_alloc :: "bool \<Rightarrow> bool \<Rightarrow> rknpu_submit_args \<Rightarrow> rknpu_device \<Rightarrow> nat option \<times> rknpu_device" where
  "rknpu_job_alloc mem1 mem2 args dev =
     (if \<not> mem1 then (None, dev)
      else
        let n = core_num (sb_core_mask args);
            nonblock = sb_flags args AND RKNPU_JOB_NONBLOCK \<noteq> 0;
            job = \<lparr>jb_irq_entry = (\<lambda>_. False), jb_flags = 0, jb_ret = 0, jb_args = args, jb_args_owner = nonblock,
              jb_first_task = None, jb_last_task = None, jb_int_mask = (\<lambda>_. 0), jb_int_status = (\<lambda>_. 0),
              jb_timestamp = nd_now dev, jb_use_core_num = n, jb_run_count = sint n, jb_interrupt_count = sint n,
              jb_hw_commit_time = 0, jb_hw_recoder_time = 0, jb_hw_elapse_time = 0, jb_submit_count = (\<lambda>_. 0)\<rparr>
        in
        if nonblock \<and> \<not> mem2 then (None, dev)
        else (Some (nd_next_job dev),
              dev\<lparr>nd_jobs := (nd_jobs dev)(nd_next_job dev \<mapsto> job), nd_next_job := nd_next_job dev + 1\<rparr>))"

definition rknpu_job_cleanup :: "nat \<Rightarrow> rknpu_device \<Rightarrow> rknpu_device option" where
  "rknpu_job_cleanup j dev =
     (case nd_jobs dev j of None \<Rightarrow> None | Some job \<Rightarrow> Some (dev\<lparr>nd_jobs := (nd_jobs dev)(j := None)\<rparr>))"

text \<open>\<^verbatim>\<open>schedule_work\<close> queues a work once; only a job that owns its arguments has initialised its work.\<close>

definition schedule_cleanup :: "nat \<Rightarrow> rknpu_device \<Rightarrow> rknpu_device option" where
  "schedule_cleanup j dev =
     (case nd_jobs dev j of
        None \<Rightarrow> None
      | Some job \<Rightarrow>
          if \<not> jb_args_owner job then None
          else if j \<in> set (nd_works dev) then Some dev
          else Some (dev\<lparr>nd_works := nd_works dev @ [j]\<rparr>))"

section \<open>Committing\<close>

text \<open>The range of tasks of the next piece: where it starts, and how many.\<close>

definition subcore_range :: "rknpu_config \<Rightarrow> rknpu_job \<Rightarrow> nat \<Rightarrow> int \<times> int" where
  "subcore_range cfg job core_index =
     (let args = jb_args job; whole = (sint (sb_task_start args), sint (sb_task_number args)) in
      if cf_num_irqs cfg > 1 then
        (if jb_use_core_num job = 1 \<or> jb_use_core_num job = 2 then
           (sint (st_task_start (sb_subcore_task args core_index)), sint (st_task_number (sb_subcore_task args core_index)))
         else if jb_use_core_num job = 3 then
           (sint (st_task_start (sb_subcore_task args (core_index + 2))),
            sint (st_task_number (sb_subcore_task args (core_index + 2))))
         else whole)
      else whole)"

definition piece :: "rknpu_config \<Rightarrow> rknpu_job \<Rightarrow> nat \<Rightarrow> (int \<times> int) option" where
  "piece cfg job core_index =
     (let (start, number) = subcore_range cfg job core_index in do {
        off \<leftarrow> c_int (jb_submit_count job core_index * cf_max_submit_number cfg);
        task_start \<leftarrow> c_int (start + off);
        task_number \<leftarrow> c_int (number - off);
        Some (task_start, if task_number > cf_max_submit_number cfg then cf_max_submit_number cfg else task_number)
      })"

definition data_amount :: "rknpu_config \<Rightarrow> rknpu_task \<Rightarrow> u32" where
  "data_amount cfg t =
     (tk_regcfg_amount t + RKNPU_PC_DATA_EXTRA_AMOUNT + cf_pc_data_amount_scale cfg - 1) div cf_pc_data_amount_scale cfg - 1"

definition task_control :: "rknpu_config \<Rightarrow> rknpu_submit_args \<Rightarrow> int \<Rightarrow> u32" where
  "task_control cfg args task_number =
     (let task_pp_en = (if sb_flags args AND RKNPU_JOB_PINGPONG \<noteq> 0 then 1 else 0) in
      push_bit (cf_pc_task_number_bits cfg) (0x6 OR task_pp_en) OR word_of_int task_number)"

definition commit_writes :: "rknpu_config \<Rightarrow> rknpu_submit_args \<Rightarrow> nat \<Rightarrow> int \<Rightarrow> rknpu_task \<Rightarrow> rknpu_task \<Rightarrow> (nat \<times> nat \<times> u32) list" where
  "commit_writes cfg args c task_number first_task last_task =
     [(c, RKNPU_OFFSET_PC_DATA_ADDR, ucast (tk_regcmd_addr first_task)),
      (c, RKNPU_OFFSET_PC_DATA_AMOUNT, data_amount cfg first_task),
      (c, RKNPU_OFFSET_INT_MASK, tk_int_mask last_task),
      (c, RKNPU_OFFSET_INT_CLEAR, tk_int_mask first_task),
      (c, RKNPU_OFFSET_PC_TASK_CONTROL, task_control cfg args task_number),
      (c, RKNPU_OFFSET_PC_DMA_BASE_ADDR, ucast (sb_task_base_addr args)),
      (c, RKNPU_OFFSET_PC_OP_EN, 1),
      (c, RKNPU_OFFSET_PC_OP_EN, 0)]"

definition slave_writes :: "rknpu_config \<Rightarrow> nat \<Rightarrow> (nat \<times> nat \<times> u32) list" where
  "slave_writes cfg c =
     (if cf_num_irqs cfg > 1 \<and> c < cf_num_irqs cfg
      then [(c, 0x1004, 0xe + 0x10000000 * of_nat c), (c, 0x3004, 0xe + 0x10000000 * of_nat c)] else [])"

definition rknpu_job_subcore_commit_pc :: "rknpu_config \<Rightarrow> nat \<Rightarrow> nat \<Rightarrow> rknpu_device \<Rightarrow> (int \<times> rknpu_device) option" where
  "rknpu_job_subcore_commit_pc cfg j core_index dev =
     (case nd_jobs dev j of
        None \<Rightarrow> None
      | Some job \<Rightarrow>
          let args = jb_args job in
          if sb_task_obj_addr args = 0 then do {
            dev \<leftarrow> job_upd j (\<lambda>job. job\<lparr>jb_ret := - E_INVAL\<rparr>) dev;
            Some (- E_INVAL, dev)
          }
          else do {
            (task_start, task_number) \<leftarrow> piece cfg job core_index;
            task_end \<leftarrow> c_int (task_start + task_number - 1);
            task_base \<leftarrow> nd_objs dev (sb_task_obj_addr args);
            first_task \<leftarrow> task_at task_base task_start;
            last_task \<leftarrow> task_at task_base task_end;
            let dev = dev\<lparr>nd_io := nd_io dev @ slave_writes cfg core_index @
                          commit_writes cfg args core_index task_number first_task last_task\<rparr>;
            dev \<leftarrow> job_upd j (\<lambda>job. job\<lparr>jb_first_task := Some (nat task_start), jb_last_task := Some (nat task_end),
                      jb_int_mask := (jb_int_mask job)(core_index := tk_int_mask last_task)\<rparr>) dev;
            Some (0, dev)
          })"

definition rknpu_job_subcore_commit :: "rknpu_config \<Rightarrow> nat \<Rightarrow> nat \<Rightarrow> rknpu_device \<Rightarrow> (int \<times> rknpu_device) option" where
  "rknpu_job_subcore_commit cfg j core_index dev =
     (case nd_jobs dev j of
        None \<Rightarrow> None
      | Some job \<Rightarrow>
          let dev = reg_write core_index RKNPU_OFFSET_PC_DATA_ADDR 1 dev in
          if sb_flags (jb_args job) AND RKNPU_JOB_PC = 0 then do {
            dev \<leftarrow> job_upd j (\<lambda>job. job\<lparr>jb_ret := - E_INVAL\<rparr>) dev;
            Some (- E_INVAL, dev)
          }
          else rknpu_job_subcore_commit_pc cfg j core_index dev)"

text \<open>The cores that \<^verbatim>\<open>rknpu_job_commit\<close> programs, in its order.\<close>

definition commit_cores :: "u32 \<Rightarrow> nat list" where
  "commit_cores core_mask =
     (if core_mask = RKNPU_CORE0_MASK then [0]
      else if core_mask = RKNPU_CORE1_MASK then [1]
      else if core_mask = RKNPU_CORE2_MASK then [2]
      else if core_mask = (RKNPU_CORE0_MASK OR RKNPU_CORE1_MASK) then [0, 1]
      else if core_mask = (RKNPU_CORE0_MASK OR RKNPU_CORE1_MASK OR RKNPU_CORE2_MASK) then [0, 1, 2]
      else [])"

fun commit_each :: "rknpu_config \<Rightarrow> nat \<Rightarrow> nat list \<Rightarrow> rknpu_device \<Rightarrow> rknpu_device option" where
  "commit_each cfg j [] dev = Some dev"
| "commit_each cfg j (c # cs) dev =
     do {
       (r, dev) \<leftarrow> rknpu_job_subcore_commit cfg j c dev;
       commit_each cfg j cs dev
     }"

definition rknpu_job_commit :: "rknpu_config \<Rightarrow> nat \<Rightarrow> rknpu_device \<Rightarrow> rknpu_device option" where
  "rknpu_job_commit cfg j dev =
     (case nd_jobs dev j of None \<Rightarrow> None | Some job \<Rightarrow> commit_each cfg j (commit_cores (sb_core_mask (jb_args job))) dev)"

section \<open>The next job of a core\<close>

text \<open>\<^verbatim>\<open>rknpu_job_next\<close> up to where it releases the lock, and what follows it.\<close>

definition next_pick :: "nat \<Rightarrow> rknpu_device \<Rightarrow> (nat option \<times> rknpu_device) option" where
  "next_pick core_index dev =
     (let sc = nd_subcore dev core_index in
      case (sc_job sc, sc_todo_list sc) of
        (None, j # todo) \<Rightarrow>
          do {
            dev \<leftarrow> job_upd j (\<lambda>job. job\<lparr>jb_hw_commit_time := nd_now dev, jb_hw_recoder_time := nd_now dev\<rparr>) dev;
            Some (Some j, core_upd core_index (\<lambda>sc. sc\<lparr>sc_todo_list := todo, sc_job := Some j\<rparr>) dev)
          }
      | _ \<Rightarrow> Some (None, dev))"

definition run_dec :: "nat \<Rightarrow> rknpu_device \<Rightarrow> (bool \<times> rknpu_device) option" where
  "run_dec j dev =
     (case nd_jobs dev j of
        None \<Rightarrow> None
      | Some job \<Rightarrow> do {
          dev \<leftarrow> job_upd j (\<lambda>job. job\<lparr>jb_run_count := jb_run_count job - 1\<rparr>) dev;
          Some (jb_run_count job - 1 = 0, dev)
        })"

definition rknpu_job_next :: "rknpu_config \<Rightarrow> nat \<Rightarrow> rknpu_device \<Rightarrow> rknpu_device option" where
  "rknpu_job_next cfg core_index dev =
     (if nd_soft_reseting dev then Some dev
      else do {
        (picked, dev) \<leftarrow> next_pick core_index dev;
        case picked of
          None \<Rightarrow> Some dev
        | Some j \<Rightarrow> do {
            (zero, dev) \<leftarrow> run_dec j dev;
            if zero then rknpu_job_commit cfg j dev else Some dev
          }
      })"

section \<open>The end of a piece\<close>

text \<open>
  \<^verbatim>\<open>rknpu_job_done\<close>: count the piece, and when it was the last one free the core,
  count the core, and with the last core set the flag, wake the submitter and have an
  asynchronous job freed.
\<close>

definition done_count :: "rknpu_config \<Rightarrow> nat \<Rightarrow> nat \<Rightarrow> rknpu_device \<Rightarrow> (bool \<times> rknpu_device) option" where
  "done_count cfg j core_index dev =
     (case nd_jobs dev j of
        None \<Rightarrow> None
      | Some job \<Rightarrow> do {
          dev \<leftarrow> job_upd j (\<lambda>job. job\<lparr>jb_submit_count := (jb_submit_count job)(core_index := jb_submit_count job core_index + 1)\<rparr>) dev;
          n \<leftarrow> c_int (rknpu_get_task_number cfg job core_index + cf_max_submit_number cfg);
          Some (jb_submit_count job core_index + 1 < (n - 1) sdiv cf_max_submit_number cfg, dev)
        })"

definition done_clear :: "rknpu_config \<Rightarrow> nat \<Rightarrow> nat \<Rightarrow> rknpu_device \<Rightarrow> rknpu_device option" where
  "done_clear cfg j core_index dev =
     (case nd_jobs dev j of
        None \<Rightarrow> None
      | Some job \<Rightarrow> do {
          dev \<leftarrow> job_upd j (\<lambda>job. job\<lparr>jb_hw_elapse_time := nd_now dev - jb_hw_commit_time job\<rparr>) dev;
          Some (core_upd core_index (\<lambda>sc. sc\<lparr>sc_job := None,
            sc_task_num := sc_task_num sc - rknpu_get_task_number cfg job core_index,
            sc_busy_time := sc_busy_time sc + (nd_now dev - jb_hw_recoder_time job)\<rparr>) dev)
        })"

definition done_dec :: "nat \<Rightarrow> rknpu_device \<Rightarrow> (bool \<times> rknpu_device) option" where
  "done_dec j dev =
     (case nd_jobs dev j of
        None \<Rightarrow> None
      | Some job \<Rightarrow> do {
          dev \<leftarrow> job_upd j (\<lambda>job. job\<lparr>jb_interrupt_count := jb_interrupt_count job - 1\<rparr>) dev;
          Some (jb_interrupt_count job - 1 = 0, dev)
        })"

definition done_flag :: "nat \<Rightarrow> rknpu_device \<Rightarrow> rknpu_device option" where
  "done_flag j dev = job_upd j (\<lambda>job. job\<lparr>jb_flags := jb_flags job OR RKNPU_JOB_DONE\<rparr>) dev"

definition done_tail :: "int \<Rightarrow> nat \<Rightarrow> rknpu_device \<Rightarrow> rknpu_device option" where
  "done_tail ret j dev =
     do {
       dev \<leftarrow> job_upd j (\<lambda>job. job\<lparr>jb_ret := ret\<rparr>) dev;
       case nd_jobs dev j of
         None \<Rightarrow> None
       | Some job \<Rightarrow> if jb_flags job AND RKNPU_JOB_ASYNC \<noteq> 0 then schedule_cleanup j dev else Some dev
     }"

definition rknpu_job_done :: "rknpu_config \<Rightarrow> int \<Rightarrow> nat \<Rightarrow> nat \<Rightarrow> rknpu_device \<Rightarrow> rknpu_device option" where
  "rknpu_job_done cfg ret j core_index dev =
     do {
       (more, dev) \<leftarrow> done_count cfg j core_index dev;
       if more then do {
         (r, dev) \<leftarrow> rknpu_job_subcore_commit cfg j core_index dev;
         Some dev
       }
       else do {
         dev \<leftarrow> done_clear cfg j core_index dev;
         (zero, dev) \<leftarrow> done_dec j dev;
         dev \<leftarrow> (if zero then do { dev \<leftarrow> done_flag j dev; done_tail ret j dev } else Some dev);
         rknpu_job_next cfg core_index dev
       }
     }"

section \<open>Scheduling\<close>

fun least_loaded :: "rknpu_device \<Rightarrow> nat list \<Rightarrow> nat \<Rightarrow> int \<Rightarrow> nat" where
  "least_loaded dev [] core_index task_num = core_index"
| "least_loaded dev (i # is) core_index task_num =
     (if task_num > sc_task_num (nd_subcore dev i) then least_loaded dev is i (sc_task_num (nd_subcore dev i))
      else least_loaded dev is core_index task_num)"

definition rknpu_schedule_core_index :: "rknpu_config \<Rightarrow> rknpu_device \<Rightarrow> nat" where
  "rknpu_schedule_core_index cfg dev =
     least_loaded dev [1..<cf_num_irqs cfg] 0 (sc_task_num (nd_subcore dev 0))"

text \<open>The choice of a core, and the critical section that queues the job on all its cores.\<close>

definition sched_auto :: "rknpu_config \<Rightarrow> nat \<Rightarrow> rknpu_device \<Rightarrow> rknpu_device option" where
  "sched_auto cfg j dev =
     (case nd_jobs dev j of
        None \<Rightarrow> None
      | Some job \<Rightarrow>
          if sb_core_mask (jb_args job) = RKNPU_CORE_AUTO_MASK then
            job_upd j (\<lambda>job. job\<lparr>
              jb_args := (jb_args job)\<lparr>sb_core_mask := rknpu_core_mask (rknpu_schedule_core_index cfg dev)\<rparr>,
              jb_use_core_num := 1, jb_run_count := 1, jb_interrupt_count := 1\<rparr>) dev
          else Some dev)"

fun enqueue_each :: "rknpu_config \<Rightarrow> nat \<Rightarrow> rknpu_job \<Rightarrow> nat list \<Rightarrow> rknpu_device \<Rightarrow> rknpu_device" where
  "enqueue_each cfg j job [] dev = dev"
| "enqueue_each cfg j job (i # is) dev =
     enqueue_each cfg j job is
       (if uses_core (sb_core_mask (jb_args job)) i
        then core_upd i (\<lambda>sc. sc\<lparr>sc_todo_list := sc_todo_list sc @ [j],
               sc_task_num := sc_task_num sc + rknpu_get_task_number cfg job i\<rparr>) dev
        else dev)"

definition sched_enqueue :: "rknpu_config \<Rightarrow> nat \<Rightarrow> rknpu_device \<Rightarrow> rknpu_device option" where
  "sched_enqueue cfg j dev =
     (case nd_jobs dev j of None \<Rightarrow> None | Some job \<Rightarrow> Some (enqueue_each cfg j job [0..<cf_num_irqs cfg] dev))"

fun next_each :: "rknpu_config \<Rightarrow> nat \<Rightarrow> nat list \<Rightarrow> rknpu_device \<Rightarrow> rknpu_device option" where
  "next_each cfg j [] dev = Some dev"
| "next_each cfg j (i # is) dev =
     (case nd_jobs dev j of
        None \<Rightarrow> None
      | Some job \<Rightarrow> do {
          dev \<leftarrow> (if uses_core (sb_core_mask (jb_args job)) i then rknpu_job_next cfg i dev else Some dev);
          next_each cfg j is dev
        })"

definition rknpu_job_schedule :: "rknpu_config \<Rightarrow> nat \<Rightarrow> rknpu_device \<Rightarrow> rknpu_device option" where
  "rknpu_job_schedule cfg j dev =
     do {
       dev \<leftarrow> sched_auto cfg j dev;
       dev \<leftarrow> sched_enqueue cfg j dev;
       next_each cfg j [0..<cf_num_irqs cfg] dev
     }"

section \<open>Interrupts\<close>

definition rknpu_fuzz_status :: "u32 \<Rightarrow> u32" where
  "rknpu_fuzz_status status =
     (if status AND 0x3 \<noteq> 0 then 0x3 else 0) OR (if status AND 0xc \<noteq> 0 then 0xc else 0) OR
     (if status AND 0x30 \<noteq> 0 then 0x30 else 0) OR (if status AND 0xc0 \<noteq> 0 then 0xc0 else 0) OR
     (if status AND 0x300 \<noteq> 0 then 0x300 else 0) OR (if status AND 0xc00 \<noteq> 0 then 0xc00 else 0)"

text \<open>The handler up to the release of the lock, and the check of the status it then reads.\<close>

definition irq_enter :: "nat \<Rightarrow> rknpu_device \<Rightarrow> (nat option \<times> rknpu_device) option" where
  "irq_enter core_index dev =
     (case sc_job (nd_subcore dev core_index) of
        None \<Rightarrow> Some (None, reg_write core_index RKNPU_OFFSET_INT_CLEAR RKNPU_INT_CLEAR dev)
      | Some j \<Rightarrow> do {
          dev \<leftarrow> job_upd j (\<lambda>job. job\<lparr>jb_irq_entry := (jb_irq_entry job)(core_index := True)\<rparr>) dev;
          Some (Some j, dev)
        })"

definition irq_status :: "u32 \<Rightarrow> nat \<Rightarrow> nat \<Rightarrow> rknpu_device \<Rightarrow> (bool \<times> rknpu_device) option" where
  "irq_status status j core_index dev =
     (case nd_jobs dev j of
        None \<Rightarrow> None
      | Some job \<Rightarrow> do {
          dev \<leftarrow> job_upd j (\<lambda>job. job\<lparr>jb_int_status := (jb_int_status job)(core_index := status)\<rparr>) dev;
          Some (rknpu_fuzz_status status = jb_int_mask job core_index,
                reg_write core_index RKNPU_OFFSET_INT_CLEAR RKNPU_INT_CLEAR dev)
        })"

definition rknpu_irq_handler :: "rknpu_config \<Rightarrow> u32 \<Rightarrow> nat \<Rightarrow> rknpu_device \<Rightarrow> rknpu_device option" where
  "rknpu_irq_handler cfg status core_index dev =
     do {
       (job, dev) \<leftarrow> irq_enter core_index dev;
       case job of
         None \<Rightarrow> rknpu_job_next cfg core_index dev
       | Some j \<Rightarrow> do {
           (valid, dev) \<leftarrow> irq_status status j core_index dev;
           if valid then rknpu_job_done cfg 0 j core_index dev else Some dev
         }
     }"

text \<open>The timer that measures the load of a core, one core at a time.\<close>

definition timer_core :: "nat \<Rightarrow> rknpu_device \<Rightarrow> rknpu_device option" where
  "timer_core i dev =
     (let sc = nd_subcore dev i in
      do {
        (busy, dev) \<leftarrow>
          (case sc_job sc of
             None \<Rightarrow> Some (sc_busy_time sc, dev)
           | Some j \<Rightarrow>
               (case nd_jobs dev j of
                  None \<Rightarrow> None
                | Some job \<Rightarrow> do {
                    dev \<leftarrow> job_upd j (\<lambda>job. job\<lparr>jb_hw_recoder_time := nd_now dev\<rparr>) dev;
                    Some (sc_busy_time sc + (nd_now dev - jb_hw_recoder_time job), dev)
                  }));
        Some (core_upd i (\<lambda>sc. sc\<lparr>sc_total_busy_time := busy, sc_busy_time := 0\<rparr>) dev)
      })"

fun timer_each :: "nat list \<Rightarrow> rknpu_device \<Rightarrow> rknpu_device option" where
  "timer_each [] dev = Some dev"
| "timer_each (i # is) dev = do { dev \<leftarrow> timer_core i dev; timer_each is dev }"

definition hrtimer_handler :: "rknpu_config \<Rightarrow> rknpu_device \<Rightarrow> rknpu_device option" where
  "hrtimer_handler cfg dev = timer_each [0..<cf_num_irqs cfg] dev"

section \<open>Reset, abort and expiry\<close>

text \<open>
  The reset runs with the lock it tries; \<open>ok\<close> says whether the reset lines could be driven.
  Detaching and attaching the domain is the IOMMU's own.
\<close>

definition rk3576_state_init :: "rknpu_device \<Rightarrow> rknpu_device" where
  "rk3576_state_init dev =
     dev\<lparr>nd_io := nd_io dev @ [(0, 0x10, 1), (0, 0x1004, 0), (0, 0x1024, 0x80000000), (0, 0x1004, 1),
        (0, 0x1024, 0x80000000), (0, 0x1004, 0x1e)]\<rparr>"

definition rknpu_soft_reset :: "rknpu_config \<Rightarrow> bool \<Rightarrow> rknpu_device \<Rightarrow> rknpu_device" where
  "rknpu_soft_reset cfg ok dev =
     (if nd_bypass_soft_reset dev then dev
      else if nd_reset_lock dev then dev
      else if \<not> ok then dev\<lparr>nd_soft_reseting := True\<rparr>
      else
        let dev = dev\<lparr>nd_soft_reseting := False\<rparr> in
        if cf_state_init cfg then rk3576_state_init dev else dev)"

fun abort_each :: "rknpu_config \<Rightarrow> nat \<Rightarrow> rknpu_job \<Rightarrow> nat list \<Rightarrow> rknpu_device \<Rightarrow> rknpu_device" where
  "abort_each cfg j job [] dev = dev"
| "abort_each cfg j job (i # is) dev =
     abort_each cfg j job is
       (if uses_core (sb_core_mask (jb_args job)) i \<and> sc_job (nd_subcore dev i) = Some j \<and> \<not> jb_irq_entry job i
        then core_upd i (\<lambda>sc. sc\<lparr>sc_job := None, sc_task_num := sc_task_num sc - rknpu_get_task_number cfg job i\<rparr>) dev
        else dev)"

definition rknpu_job_abort :: "rknpu_config \<Rightarrow> bool \<Rightarrow> nat \<Rightarrow> rknpu_device \<Rightarrow> rknpu_device option" where
  "rknpu_job_abort cfg ok j dev =
     (case nd_jobs dev j of
        None \<Rightarrow> None
      | Some job \<Rightarrow>
          let dev = abort_each cfg j job [0..<cf_num_irqs cfg] dev;
              dev = (if jb_ret job = - E_TIMEDOUT then rknpu_soft_reset cfg ok dev else dev)
          in rknpu_job_cleanup j dev)"

definition us_delta :: "int \<Rightarrow> int \<Rightarrow> int" where
  "us_delta later earlier = (later - earlier) sdiv 1000"

fun clean_each :: "nat list \<Rightarrow> rknpu_device \<Rightarrow> rknpu_device option" where
  "clean_each [] dev = Some dev"
| "clean_each (j # js) dev = do { dev \<leftarrow> schedule_cleanup j dev; clean_each js dev }"

definition timeout_core :: "rknpu_config \<Rightarrow> bool \<Rightarrow> nat \<Rightarrow> rknpu_device \<Rightarrow> rknpu_device option" where
  "timeout_core cfg ok i dev =
     (case sc_job (nd_subcore dev i) of
        None \<Rightarrow> Some dev
      | Some j \<Rightarrow>
          (case nd_jobs dev j of
             None \<Rightarrow> None
           | Some job \<Rightarrow>
               if us_delta (nd_now dev) (jb_timestamp job) \<ge> uint (sb_timeout (jb_args job)) then
                 let dev = rknpu_soft_reset cfg ok dev; todo = sc_todo_list (nd_subcore dev i) in
                 clean_each (j # todo) (core_upd i (\<lambda>sc. sc\<lparr>sc_job := None, sc_todo_list := []\<rparr>) dev)
               else Some dev))"

fun timeout_each :: "rknpu_config \<Rightarrow> bool \<Rightarrow> u32 \<Rightarrow> nat list \<Rightarrow> rknpu_device \<Rightarrow> rknpu_device option" where
  "timeout_each cfg ok core_mask [] dev = Some dev"
| "timeout_each cfg ok core_mask (i # is) dev =
     do {
       dev \<leftarrow> (if uses_core core_mask i then timeout_core cfg ok i dev else Some dev);
       timeout_each cfg ok core_mask is dev
     }"

definition rknpu_job_timeout_clean :: "rknpu_config \<Rightarrow> bool \<Rightarrow> u32 \<Rightarrow> rknpu_device \<Rightarrow> rknpu_device option" where
  "rknpu_job_timeout_clean cfg ok core_mask dev = timeout_each cfg ok core_mask [0..<cf_num_irqs cfg] dev"

section \<open>Waiting\<close>

text \<open>
  \<open>env\<close> is what happens while the submitter sleeps: for the \<open>k\<close>-th wait the device
  it wakes up with, and what \<^verbatim>\<open>wait_event_timeout\<close> returns, 0 after the time is up
  and what is left of it (at least 1) when the job is done or the device is being reset.
\<close>

function wait_loop :: "(nat \<Rightarrow> rknpu_device \<Rightarrow> int \<times> rknpu_device) \<Rightarrow> nat \<Rightarrow> nat \<Rightarrow> rknpu_device \<Rightarrow> (int \<times> rknpu_device) option" where
  "wait_loop env j k dev =
     (let (ret, dev) = env k dev in
      if k + 1 \<ge> 3 then Some (ret, dev)
      else if ret \<noteq> 0 then Some (ret, dev)
      else
        case nd_jobs dev j of
          None \<Rightarrow> None
        | Some job \<Rightarrow>
            if jb_hw_commit_time job = 0 \<or>
               us_delta (nd_now dev) (jb_hw_commit_time job) < uint (sb_timeout (jb_args job) * 1000)
            then wait_loop env j (k + 1) dev
            else Some (ret, dev))"
  by pat_completeness auto
termination by (relation "measure (\<lambda>(env, j, k, dev). 3 - k)") auto

declare wait_loop.simps [simp del]

fun unqueue_each :: "nat \<Rightarrow> nat list \<Rightarrow> rknpu_device \<Rightarrow> rknpu_device" where
  "unqueue_each j [] dev = dev"
| "unqueue_each j (i # is) dev =
     unqueue_each j is (core_upd i (\<lambda>sc. sc\<lparr>sc_todo_list := remove1 j (sc_todo_list sc)\<rparr>) dev)"

definition wait_failed :: "rknpu_config \<Rightarrow> u32 \<Rightarrow> int \<Rightarrow> nat \<Rightarrow> rknpu_device \<Rightarrow> (int \<times> rknpu_device) option" where
  "wait_failed cfg status ret j dev =
     do {
       dev \<leftarrow> job_upd j (\<lambda>job. job\<lparr>jb_args := (jb_args job)\<lparr>sb_task_counter :=
         (if sb_flags (jb_args job) AND RKNPU_JOB_PC \<noteq> 0 then status AND cf_pc_task_number_mask cfg else 0)\<rparr>\<rparr>) dev;
       Some (if ret < 0 then ret else - E_TIMEDOUT, dev)
     }"

definition rknpu_job_wait ::
    "rknpu_config \<Rightarrow> (nat \<Rightarrow> rknpu_device \<Rightarrow> int \<times> rknpu_device) \<Rightarrow> u32 \<Rightarrow> nat \<Rightarrow> rknpu_device \<Rightarrow> (int \<times> rknpu_device) option" where
  "rknpu_job_wait cfg env status j dev =
     do {
       (ret, dev) \<leftarrow> wait_loop env j 0 dev;
       job \<leftarrow> nd_jobs dev j;
       case jb_last_task job of
         None \<Rightarrow> Some (if ret < 0 then ret else - E_INVAL, unqueue_each j [0..<unat (jb_use_core_num job)] dev)
       | Some t \<Rightarrow> do {
           ts \<leftarrow> nd_objs dev (sb_task_obj_addr (jb_args job));
           ts \<leftarrow> c_set ts t ((ts ! t)\<lparr>tk_int_status := jb_int_status job (rknpu_wait_core_index (sb_core_mask (jb_args job)))\<rparr>);
           let dev = dev\<lparr>nd_objs := (nd_objs dev)(sb_task_obj_addr (jb_args job) \<mapsto> ts)\<rparr>;
           if ret \<le> 0 then wait_failed cfg status ret j dev
           else if jb_flags job AND RKNPU_JOB_DONE = 0 then Some (- E_INVAL, dev)
           else do {
             dev \<leftarrow> job_upd j (\<lambda>job. job\<lparr>jb_args := (jb_args job)\<lparr>sb_task_counter := sb_task_number (jb_args job),
               sb_hw_elapse_time := jb_hw_elapse_time job\<rparr>\<rparr>) dev;
             Some (0, dev)
           }
         }
     }"

section \<open>Submitting\<close>

record submit_env =
  se_mem1 :: bool
  se_mem2 :: bool
  se_wait :: "nat \<Rightarrow> rknpu_device \<Rightarrow> int \<times> rknpu_device"
  se_status :: u32
  se_reset_ok :: bool

text \<open>The arguments are those the caller gets back; a blocking job shares them.\<close>

definition submit_block ::
    "rknpu_config \<Rightarrow> submit_env \<Rightarrow> rknpu_submit_args \<Rightarrow> nat \<Rightarrow> rknpu_device \<Rightarrow> (int \<times> rknpu_submit_args \<times> rknpu_device) option" where
  "submit_block cfg e args j dev =
     do {
       dev \<leftarrow> rknpu_job_schedule cfg j dev;
       dev \<leftarrow> (if sb_flags args AND RKNPU_JOB_PC \<noteq> 0 then do {
                (r, dev) \<leftarrow> rknpu_job_wait cfg (se_wait e) (se_status e) j dev;
                job_upd j (\<lambda>job. job\<lparr>jb_ret := r\<rparr>) dev
              } else Some dev);
       job \<leftarrow> nd_jobs dev j;
       dev \<leftarrow> (if jb_ret job = 0 then rknpu_job_cleanup j dev else rknpu_job_abort cfg (se_reset_ok e) j dev);
       Some (jb_ret job, jb_args job, dev)
     }"

definition submit_nonblock ::
    "rknpu_config \<Rightarrow> submit_env \<Rightarrow> rknpu_submit_args \<Rightarrow> nat \<Rightarrow> rknpu_device \<Rightarrow> (int \<times> rknpu_submit_args \<times> rknpu_device) option" where
  "submit_nonblock cfg e args j dev =
     do {
       dev \<leftarrow> job_upd j (\<lambda>job. job\<lparr>jb_flags := jb_flags job OR RKNPU_JOB_ASYNC\<rparr>) dev;
       dev \<leftarrow> rknpu_job_timeout_clean cfg (se_reset_ok e) (sb_core_mask args) dev;
       dev \<leftarrow> rknpu_job_schedule cfg j dev;
       job \<leftarrow> nd_jobs dev j;
       dev \<leftarrow> (if jb_ret job \<noteq> 0 then rknpu_job_abort cfg (se_reset_ok e) j dev else Some dev);
       Some (jb_ret job, args, dev)
     }"

definition rknpu_submit ::
    "rknpu_config \<Rightarrow> submit_env \<Rightarrow> rknpu_submit_args \<Rightarrow> rknpu_device \<Rightarrow> (int \<times> rknpu_submit_args \<times> rknpu_device) option" where
  "rknpu_submit cfg e args dev =
     (if sb_task_number args = 0 then Some (- E_INVAL, args, dev)
      else if sb_core_mask args > cf_core_mask cfg then Some (- E_INVAL, args, dev)
      else
        case rknpu_job_alloc (se_mem1 e) (se_mem2 e) args dev of
          (None, dev) \<Rightarrow> Some (- E_NOMEM, args, dev)
        | (Some j, dev) \<Rightarrow>
            if sb_flags args AND RKNPU_JOB_FENCE_IN \<noteq> 0 \<or> sb_flags args AND RKNPU_JOB_FENCE_OUT \<noteq> 0
            then do { dev \<leftarrow> rknpu_job_cleanup j dev; Some (- E_INVAL, args, dev) }
            else if sb_flags args AND RKNPU_JOB_NONBLOCK \<noteq> 0 then submit_nonblock cfg e args j dev
            else submit_block cfg e args j dev)"

end
