(* ===== verification/Spec2Isabelle.thy ===== *)
theory Spec2Isabelle
  imports Link_Correct Hpmcu_Ping Pinmux_Correct Venc_Correct Venc_Main Mfg_Correct Mfg_Camera_Correct
    Mavlink_Correct Npu_Mm_Correct Aic_Tcp_Ack_Correct Aic_Reorder_Correct Aic_Rx_Correct Aic_Rxdata_Correct
    Aic_Radar_Correct Npu_Job
begin

text \<open>
  Verification of the programs and drivers that this repository writes itself for the Omega4, a
  board with a Rockchip RV1103B: the radio link, the telemetry relay, the video encoder, the pin
  multiplexer, the loader and the mailbox of the second processor, and the tools that load the
  wireless chip and test the camera on the production line. Of the large vendor drivers it packages
  the SRAM allocator and the job scheduler of the NPU driver, and the receive path and the radar detector of the wireless
  driver are modelled.

  \<^bold>\<open>The parts and how they interact.\<close>
  \<^item> \<^verbatim>\<open>utils/omega4-linkd/src/omega4-linkd.c\<close> sends UDP datagrams over a raw 802.11
    socket in monitor mode and hands them to UDP at the far end, with XOR parity over blocks of
    datagrams if asked to, and reports its counters and the signal in a status file.
  \<^item> \<^verbatim>\<open>utils/omega4-linkd/src/omega4-mavlinkd.c\<close> turns the bytes of a flight
    controller's serial line into the datagrams \<^verbatim>\<open>linkd\<close> carries, and back.
  \<^item> \<^verbatim>\<open>multimedia/omega4-vencd/src/omega4-vencd.c\<close> takes frames from the camera,
    gives them to the encoder and sends the H.264 stream as RTP (to \<^verbatim>\<open>linkd\<close>) or writes it
    to a file.
  \<^item> \<^verbatim>\<open>kernel/omega4-hpmcu-loader/src/omega4_hpmcu_loader.c\<close> puts a firmware image into
    the SRAM of the RISC-V core, starts and stops it through reset lines and watches its heartbeat;
    \<^verbatim>\<open>kernel/omega4-hpmcu-mbox/src/omega4_hpmcu_mbox.c\<close> sends it pings through a mailbox;
    \<^verbatim>\<open>kernel/omega4-hpmcu-loader/firmware-src/mcu_heartbeat.c\<close> is the firmware.
  \<^item> \<^verbatim>\<open>utils/omega4-pinmux/src/pinmux.c\<close> shows and sets the function of a pin through
    \<^verbatim>\<open>/dev/mem\<close>.
  \<^item> \<^verbatim>\<open>utils/mfg-test-tools/src/mfg-aic-uart.c\<close> loads a firmware into the wireless chip
    over a serial line with XMODEM-1K; \<^verbatim>\<open>mfg-camera-test.c\<close> beside it judges the
    camera by the statistics of a few frames.
  \<^item> \<^verbatim>\<open>kernel/rknpu-rockchip/src/rknpu_mm.c\<close> hands out chunks of the NPU's SRAM to the
    rest of that driver; \<^verbatim>\<open>rknpu_job.c\<close> queues jobs for its cores.
  \<^item> \<^verbatim>\<open>kernel/aic8800d-sdio/src/aic8800_fdrv\<close>, the driver of the wireless chip:
    \<^verbatim>\<open>rwnx_rx.c\<close> parses received 802.11 frames, collects fragments, splits A-MSDUs,
    restores the order of frames per station and traffic identifier and hands them to the network;
    \<^verbatim>\<open>aicwf_tcp_ack.c\<close> withholds most of the TCP acknowledgements to be sent, and is told of
    every frame received; \<^verbatim>\<open>rwnx_radar.c\<close> looks for the pulses of radars in what the
    firmware measures (the messages of \<^verbatim>\<open>rwnx_msg_rx.c\<close>) and has the channel left when one is
    found.

  \<^bold>\<open>How the code is modelled.\<close> A struct is a record, an enumeration or tagged answer a
  datatype, a w-bit integer a word. A function returns its code and the new state. Undefined
  behaviour of C (an access outside an object) is the value \<open>None\<close> of the outermost option,
  so that memory safety is a theorem and not a convention; leaving the process is a value of its
  own. What the kernel, the hardware, a peer or a library answers is an argument of the definition
  that uses it: a list of events for the loops of the daemons, a record of answers for one call of
  a driver, functions over an abstract state for the serial line. A loop that may run for ever is a
  \<open>partial_function (option)\<close> (\<open>xioctl\<close>, \<open>write_all\<close>, the XMODEM loops) or a
  fold over the events that arrive, so no theorem hides a loop behind fuel.

  \<^bold>\<open>The theories.\<close>
  \<^item> \<open>Prelude\<close>: checked memory accesses, byte orders, and the interfaces \<open>fixed_codec\<close>
    (packed headers), \<open>event_loop\<close> and \<open>safe_loop\<close> (daemons), interpreted where the
    components define their headers and loops. \<open>C_Strings\<close>: \<open>strtol\<close>, \<open>atoi\<close>,
    \<open>strtoul\<close>, \<open>strchr\<close>, \<open>strrchr\<close> and decimal printing.
  \<^item> \<open>Link_Crc\<close>, \<open>Link_Frame\<close>, \<open>Link_Rtap\<close>, \<open>Link_Fec\<close>, \<open>Link_Config\<close>,
    \<open>Link_Status\<close>, \<open>Link_Io\<close>, \<open>Link_Loops\<close>, \<open>Link_Main\<close>: the functions of
    \<^verbatim>\<open>omega4-linkd.c\<close>; \<open>Link_Fec_Recover\<close>, \<open>Link_Fec_Safe\<close>,
    \<open>Link_Fec_Stream\<close>, \<open>Link_Send\<close>, \<open>Link_End_To_End\<close>: the algebra of parity, the
    refinement of the receiver by an abstract receiver of blocks, the path from datagram to
    datagram; \<open>Link_Correct\<close>: the properties.
  \<^item> \<open>Mavlink\<close> and \<open>Mavlink_Correct\<close>: the relay, its exact behaviour, and the telemetry
    path through two relays and the link.
  \<^item> \<open>Venc_Rtp\<close> (packets and fragments), \<open>Venc_Config\<close> (command line and destination),
    \<open>Venc_Camera\<close> (the V4L2 set-up with a ledger of its resources), \<open>Venc_Run\<close>
    (\<open>run_encoder\<close>), \<open>Venc_Main\<close> (the settings of the encoder and \<open>main\<close>); \<open>Venc_Rtp_Spec\<close> and \<open>Venc_Rtp_Recv\<close>: the packets the RFC asks
    for and a receiver that reassembles them; \<open>Venc_Correct\<close>: the properties.
  \<^item> \<open>Hpmcu_Loader\<close>, \<open>Hpmcu_Probe\<close>, \<open>Hpmcu_Mbox\<close>: the two drivers and the firmware;
    \<open>Hpmcu_Correct\<close> and \<open>Hpmcu_Ping\<close>: their properties, the second with driver and
    firmware together.
  \<^item> \<open>Pinmux_Table\<close>, \<open>Pinmux\<close>, \<open>Pinmux_Correct\<close>: every pin and function of the
    tables, the program, its properties.
  \<^item> \<open>Mfg_Crc\<close>, \<open>Mfg_Uart\<close>: the checksum and the tool; \<open>Mfg_Xmodem\<close>: an XMODEM-1K
    receiver and a noisy line, the other end of the tool; \<open>Mfg_Correct\<close>: the properties.
  \<^item> \<open>Mfg_Camera\<close> and \<open>Mfg_Camera_Correct\<close>: the camera test, its safety, and its verdict
    against the mean, the variance and the differences of the frames.
  \<^item> \<open>Npu_Mm\<close> and \<open>Npu_Mm_Correct\<close>: the allocator, its state with the live objects, first
    fit, and the dump; \<open>Npu_Job\<close>: the functions of the scheduler.
  \<^item> \<open>Aic_Tcp_Ack\<close>: the acknowledgement filter; \<open>Aic_Tcp_Ack_Table\<close> and
    \<open>Aic_Tcp_Ack_Owner\<close>: the table of flows and the owners of messages under interleaving;
    \<open>Aic_Tcp_Ack_Correct\<close>: the properties.
  \<^item> \<open>Aic_Rx\<close> (socket buffers, A-MSDUs, DHCP, handing up), \<open>Aic_Reorder\<close> (the
    \<^verbatim>\<open>reord_*\<close> functions), \<open>Aic_Rxdata\<close> (the handler \<open>rwnx_rxdataind_aicwf\<close>);
    \<open>Aic_Reorder_Window\<close>: an abstract receiver with unbounded numbers that the window refines;
    \<open>Aic_Reorder_Order\<close> and \<open>Aic_Reorder_Reach\<close>: sequences of frames, and the states any
    sequence of calls reaches; \<open>Aic_Reorder_Correct\<close>, \<open>Aic_Rx_Correct\<close>,
    \<open>Aic_Rxdata_Correct\<close>: the properties.
  \<^item> \<open>Aic_Radar\<close> (the patterns, the pools, one detector), \<open>Aic_Radar_Dfs\<close> (the detectors
    of all types of a region), \<open>Aic_Radar_Driver\<close> (the rings, the work, the availability check):
    the functions of \<^verbatim>\<open>rwnx_radar.c\<close>; \<open>Aic_Radar_Pools\<close>: the contract \<open>radar_ops\<close> of
    the detectors and the balance of the pools; \<open>Aic_Radar_Reach\<close>: the rings as queues and the states that
    any sequence of calls reaches; \<open>Aic_Radar_Burst\<close>, \<open>Aic_Radar_Train\<close>, \<open>Aic_Radar_Report\<close>: a train of pulses
    through one detector, through the types and up to the report; \<open>Aic_Radar_Alarm\<close>: what a
    detection rests on; \<open>Aic_Radar_Correct\<close>: the properties.

  \<^bold>\<open>What the lemmas show.\<close>
  \<^item> Link: datagrams survive the loss of any one frame of a block and arrive exactly once; the
    receive loop never leaves its arrays whatever is captured; corrupted frames are refused; the
    loss counter is exact over the wrap of sequence numbers; the radiotap parser finds the signal
    fields it is given; what a failed send or an overrun shard does to the correction.
  \<^item> Relay: which bytes go where, with exact counters and descriptors; telemetry arrives in whole
    pieces.
  \<^item> Video: a receiver rebuilds every frame from the packets, whose numbering and marker follow
    the RFC (the code refines the specification); the bit rates bracket the target when they do
    not wrap; every exit of \<open>run_encoder\<close> gives back what it took, save for one packet.
  \<^item> Second processor: memory changes only while the core is held in reset; the invariant of a
    bound driver over all sequences of calls; success and failure of a start; pings and heartbeats
    with the firmware.
  \<^item> Pins: set then show, for every pin and function; no other register is written.
  \<^item> Production line: a file arrives exactly through a line that fails finitely often; the
    checksum is the polynomial remainder; what a \<open>NAK\<close> to \<open>EOT\<close> and a refused transfer do;
    the camera passes exactly when its frames deserve it, and the test gives back what it took.
  \<^item> NPU memory: an allocation takes the lowest run that fits, live objects never overlap, the
    free count and the dump are exact.
  \<^item> Wireless driver: no message given to the filter is lost or freed twice under any
    interleaving, and the newest acknowledgement of a flow always gets out; frames out of order by
    less than a window come up in order, once each; descriptors are never in two places and no frame is
    held for ever; fragments and A-MSDUs come out as the frames that went in, as long as they are
    well formed, and what malformed ones do.
  \<^item> Radar detector: a steady train of pulses that fits a type of the region is reported when the
    threshold is reached; a report rests on that many pulses within one burst; the memory of the
    detectors is given back; the rings are queues of the last 32 pulses.

  \<^bold>\<open>Bounds.\<close> The end to end theorem of the link speaks of at most sixteen blocks, the size
  of the receiver's table: a seventeenth evicts the oldest. \<open>long\<close> has 32 bits, as on the
  target. Doubles of the status file are exact rationals. No fuel is used.

  The reorder window is compared with numbers less than 2048 apart, half of the 12-bit space; the
  buffer of a fragmented frame is any memory below 64 KB.

  The times of the radar detector are microseconds in 64 bits, and its theorems ask for two minutes
  before they overflow; the distance of a pulse to one still queued is less than 71 minutes (32 bits).

  \<^bold>\<open>Not modelled.\<close> Messages on stderr and in the kernel log, and usage texts; the terminal
  attributes of serial lines beside their speed; the start-up assembly of the firmware; not a number
  among the doubles of the camera test; shell scripts and packaged binaries. Of
  \<^verbatim>\<open>rwnx_rx.c\<close> the copies for monitor interfaces, the signal statistics and the 802.11
  management stack behind it; of \<^verbatim>\<open>rwnx_radar.c\<close> what is only printed or traced; concurrency inside a critical section, since the locks make each
  call one step. The other vendor drivers (the rest of \<^verbatim>\<open>aic8800d-sdio\<close> and of the NPU
  driver, the camera, ISP and codec drivers) are large and mostly register programming behind kernel
  frameworks.

  \<^bold>\<open>What is left.\<close> The parts of the vendor drivers with logic of their own that are not
  modelled: the transmit queues of \<^verbatim>\<open>aic8800d-sdio\<close>, the job queue of
  \<^verbatim>\<open>rknpu-rockchip\<close>, the task queue of \<^verbatim>\<open>video-rockchip-mpp\<close>, and the modes
  and the exposure of \<^verbatim>\<open>video-sc3336\<close>.
\<close>

end
